(* ===== verification/Prelude.thy ===== *)
theory Prelude
  imports Complex_Main "HOL-Library.Char_ord" "HOL-Library.List_Lexorder"
    "HOL-Library.Product_Lexorder" "HOL-Library.Multiset"
begin

text \<open>
  The vocabulary every component of the development shares: the Python values the code
  handles (ordered dictionaries, JSON values, points in time, exceptions) and the generic
  lemmas about them.

  \<^item> A \<^verbatim>\<open>dict\<close> is an association list with the insertion order Python guarantees:
    assigning to a present key keeps its position, a new key goes to the end.
  \<^item> A \<^verbatim>\<open>datetime\<close> the service itself draws (always in UTC) is an \<open>int\<close>, the microseconds since the
    epoch; one that comes with a payload (the periods of evidence) is a \<open>stamp\<close>, naive or with an
    offset, for comparing a naive and an aware one raises. A duration in (float) seconds is a \<open>rat\<close>, turned into microseconds as
    \<^verbatim>\<open>timedelta(seconds=...)\<close> does, rounding half to even. Floats are exact rationals here.
  \<^item> A \<^verbatim>\<open>str\<close> is a \<open>string\<close>; case mapping and whitespace are those of ASCII.
  \<^item> An exception is a value of type \<open>error\<close>; a call that may raise returns
    \<open>error + 'a\<close>.
\<close>

named_theorems dict_simps \<open>lookup laws of Python dictionaries\<close>
named_theorems sort_simps \<open>membership, length and multiset of sorted pages\<close>

section \<open>Types\<close>

type_synonym moment = int
type_synonym ('k, 'v) dict = "('k \<times> 'v) list"

text \<open>A \<^verbatim>\<open>datetime\<close> as written: the local reading in microseconds since 1970, and its offset if it has one.\<close>

record stamp =
  st_local :: int
  st_offset :: "int option"

datatype error =
    PermissionError string
  | KeyError string
  | ValueError string
  | RuntimeError string
  | LookupError string
  | TypeError string
  | OverflowError string
  | ZeroDivisionError

type_synonym 'a result = "error + 'a"

text \<open>A JSON-like value: what a field of type \<^verbatim>\<open>Any\<close> or \<^verbatim>\<open>dict[str, Any]\<close> holds.\<close>

datatype json =
    JNull
  | JBool bool
  | JInt int
  | JNum rat
  | JStr string
  | JList "json list"
  | JObj "(string \<times> json) list"

type_synonym json_obj = "(string, json) dict"

text \<open>Python truthiness of a value, and of optional strings and optional values.\<close>

fun truthy :: "json \<Rightarrow> bool" where
  "truthy JNull = False"
| "truthy (JBool b) = b"
| "truthy (JInt i) = (i \<noteq> 0)"
| "truthy (JNum r) = (r \<noteq> 0)"
| "truthy (JStr s) = (s \<noteq> [])"
| "truthy (JList xs) = (xs \<noteq> [])"
| "truthy (JObj kvs) = (kvs \<noteq> [])"

definition str_truthy :: "string option \<Rightarrow> bool" where
  "str_truthy x = (case x of None \<Rightarrow> False | Some s \<Rightarrow> s \<noteq> [])"

lemma str_truthy_simps [simp]:
  "str_truthy None = False" "str_truthy (Some s) = (s \<noteq> [])"
  by (simp_all add: str_truthy_def)

section \<open>Dictionaries\<close>

abbreviation dict_get :: "('k, 'v) dict \<Rightarrow> 'k \<Rightarrow> 'v option" where
  "dict_get \<equiv> map_of"

abbreviation dict_keys :: "('k, 'v) dict \<Rightarrow> 'k list" where
  "dict_keys d \<equiv> map fst d"

abbreviation dict_values :: "('k, 'v) dict \<Rightarrow> 'v list" where
  "dict_values d \<equiv> map snd d"

text \<open>\<^verbatim>\<open>d[k] = v\<close>\<close>

fun dict_set :: "('k, 'v) dict \<Rightarrow> 'k \<Rightarrow> 'v \<Rightarrow> ('k, 'v) dict" where
  "dict_set [] k v = [(k, v)]"
| "dict_set ((k', v') # d) k v = (if k' = k then (k, v) # d else (k', v') # dict_set d k v)"

text \<open>\<^verbatim>\<open>d.setdefault(k, v)\<close>\<close>

definition dict_setdefault :: "('k, 'v) dict \<Rightarrow> 'k \<Rightarrow> 'v \<Rightarrow> ('k, 'v) dict" where
  "dict_setdefault d k v = (case dict_get d k of None \<Rightarrow> d @ [(k, v)] | Some _ \<Rightarrow> d)"

text \<open>\<^verbatim>\<open>d.pop(k, None)\<close> and \<^verbatim>\<open>del d[k]\<close> on a dictionary with distinct keys.\<close>

definition dict_del :: "('k, 'v) dict \<Rightarrow> 'k \<Rightarrow> ('k, 'v) dict" where
  "dict_del d k = filter (\<lambda>kv. fst kv \<noteq> k) d"

text \<open>\<^verbatim>\<open>{**d, **e}\<close>\<close>

definition dict_merge :: "('k, 'v) dict \<Rightarrow> ('k, 'v) dict \<Rightarrow> ('k, 'v) dict" where
  "dict_merge d e = foldl (\<lambda>acc kv. dict_set acc (fst kv) (snd kv)) d e"

text \<open>Well-formed: no key twice.\<close>

definition dict_wf :: "('k, 'v) dict \<Rightarrow> bool" where
  "dict_wf d = distinct (dict_keys d)"

text \<open>Every value is stored under its own key.\<close>

definition keyed :: "('v \<Rightarrow> 'k) \<Rightarrow> ('k, 'v) dict \<Rightarrow> bool" where
  "keyed key d = (dict_wf d \<and> list_all (\<lambda>kv. key (snd kv) = fst kv) d)"

lemma dict_get_set [simp, dict_simps]:
  "dict_get (dict_set d k v) k' = (if k' = k then Some v else dict_get d k')"
  by (induction d k v rule: dict_set.induct) auto

lemma dict_get_setdefault [simp, dict_simps]:
  "dict_get (dict_setdefault d k v) k' =
     (if k' = k \<and> dict_get d k = None then Some v else dict_get d k')"
  by (auto simp: dict_setdefault_def map_add_def split: option.splits)

lemma dict_get_append [simp, dict_simps]:
  "dict_get (d @ [(k, v)]) k' =
     (case dict_get d k' of None \<Rightarrow> if k' = k then Some v else None | Some w \<Rightarrow> Some w)"
  by (auto simp: map_add_def split: option.splits)

lemma dict_get_del [simp, dict_simps]:
  "dict_get (dict_del d k) k' = (if k' = k then None else dict_get d k')"
  by (induction d) (auto simp: dict_del_def)

lemma dict_keys_set_in:
  "k \<in> set (dict_keys d) \<Longrightarrow> dict_keys (dict_set d k v) = dict_keys d"
  by (induction d k v rule: dict_set.induct) auto

lemma dict_keys_set_notin:
  "k \<notin> set (dict_keys d) \<Longrightarrow> dict_set d k v = d @ [(k, v)]"
  by (induction d k v rule: dict_set.induct) auto

lemma dict_set_same: "dict_get d k = Some v \<Longrightarrow> dict_set d k v = d"
  by (induction d k v rule: dict_set.induct) (auto split: if_splits)

lemma dict_set_twice [simp]: "dict_set (dict_set d k v) k w = dict_set d k w"
  by (induction d k v rule: dict_set.induct) auto

lemma dict_get_None: "(dict_get d k = None) = (k \<notin> set (dict_keys d))"
  by (simp add: map_of_eq_None_iff)

lemma dict_get_SomeD: "dict_get d k = Some v \<Longrightarrow> (k, v) \<in> set d"
  by (rule map_of_SomeD)

lemma dict_wf_get: "dict_wf d \<Longrightarrow> (k, v) \<in> set d \<Longrightarrow> dict_get d k = Some v"
  by (simp add: dict_wf_def)

lemma dict_wf_Nil [simp]: "dict_wf []"
  by (simp add: dict_wf_def)

lemma dict_wf_set [simp]: "dict_wf d \<Longrightarrow> dict_wf (dict_set d k v)"
  by (cases "k \<in> set (dict_keys d)")
    (auto simp: dict_wf_def dict_keys_set_in dict_keys_set_notin)

lemma dict_wf_setdefault [simp]: "dict_wf d \<Longrightarrow> dict_wf (dict_setdefault d k v)"
  by (auto simp: dict_wf_def dict_setdefault_def split: option.splits)

lemma dict_wf_del [simp]: "dict_wf d \<Longrightarrow> dict_wf (dict_del d k)"
  by (induction d) (auto simp: dict_wf_def dict_del_def)

lemma set_dict_set:
  "set (dict_set d k v) \<subseteq> insert (k, v) (set d)"
  by (induction d k v rule: dict_set.induct) auto

lemma set_dict_set_wf:
  "dict_wf d \<Longrightarrow> set (dict_set d k v) = insert (k, v) {kv \<in> set d. fst kv \<noteq> k}"
  by (induction d k v rule: dict_set.induct) (auto simp: dict_wf_def image_iff)

lemma set_dict_setdefault:
  "set (dict_setdefault d k v) \<subseteq> insert (k, v) (set d)"
  by (auto simp: dict_setdefault_def split: option.splits)

lemma keyed_Nil [simp]: "keyed key []"
  by (simp add: keyed_def)

lemma keyed_set [simp]: "keyed key d \<Longrightarrow> key v = k \<Longrightarrow> keyed key (dict_set d k v)"
  using set_dict_set [of d k v] by (fastforce simp: keyed_def list_all_iff)

lemma keyed_setdefault [simp]:
  "keyed key d \<Longrightarrow> key v = k \<Longrightarrow> keyed key (dict_setdefault d k v)"
  using set_dict_setdefault [of d k v] by (fastforce simp: keyed_def list_all_iff)

lemma keyed_get: "keyed key d \<Longrightarrow> dict_get d k = Some v \<Longrightarrow> key v = k"
  using dict_get_SomeD by (fastforce simp: keyed_def list_all_iff)

lemma keyed_dict_wf: "keyed key d \<Longrightarrow> dict_wf d"
  by (simp add: keyed_def)

lemma keyed_value_get: "keyed key d \<Longrightarrow> v \<in> set (dict_values d) \<Longrightarrow> dict_get d (key v) = Some v"
  by (fastforce simp: keyed_def list_all_iff dict_wf_def)

lemma keyed_distinct_values: "keyed key d \<Longrightarrow> distinct (map key (dict_values d))"
proof -
  assume k: "keyed key d"
  then have eq: "map key (dict_values d) = dict_keys d"
    by (auto simp: keyed_def list_all_iff)
  from k show ?thesis unfolding eq by (simp add: keyed_def dict_wf_def)
qed

section \<open>Lists\<close>

text \<open>\<^verbatim>\<open>list(dict.fromkeys(xs))\<close>: the first occurrence of each element, in order.\<close>

fun dedupe_from :: "'a list \<Rightarrow> 'a list \<Rightarrow> 'a list" where
  "dedupe_from seen [] = []"
| "dedupe_from seen (x # xs) =
     (if x \<in> set seen then dedupe_from seen xs else x # dedupe_from (x # seen) xs)"

definition dedupe :: "'a list \<Rightarrow> 'a list" where
  "dedupe xs = dedupe_from [] xs"

lemma set_dedupe_from: "set (dedupe_from seen xs) = set xs - set seen"
  by (induction seen xs rule: dedupe_from.induct) auto

lemma distinct_dedupe_from: "distinct (dedupe_from seen xs)"
  by (induction seen xs rule: dedupe_from.induct) (auto simp: set_dedupe_from)

lemma set_dedupe [simp]: "set (dedupe xs) = set xs"
  by (simp add: dedupe_def set_dedupe_from)

lemma distinct_dedupe [simp]: "distinct (dedupe xs)"
  by (simp add: dedupe_def distinct_dedupe_from)

lemma dedupe_Nil_iff [simp]: "(dedupe xs = []) = (xs = [])"
  by (metis set_dedupe set_empty)

text \<open>\<^verbatim>\<open>next((x for x in xs if p(x)), None)\<close> is the library's \<open>find\<close>.\<close>

lemma length_filter_mono_on:
  "(\<And>x. x \<in> set xs \<Longrightarrow> P x \<Longrightarrow> Q x) \<Longrightarrow> length (filter P xs) \<le> length (filter Q xs)"
  by (induction xs) (auto simp: le_Suc_eq)

lemma find_SomeD: "find p xs = Some x \<Longrightarrow> p x \<and> x \<in> set xs"
  by (auto simp: find_Some_iff)

text \<open>\<^verbatim>\<open>max(xs, default=0)\<close> over naturals.\<close>

definition max_default :: "nat list \<Rightarrow> nat" where
  "max_default xs = foldr max xs 0"

lemma max_default_ge: "x \<in> set xs \<Longrightarrow> x \<le> max_default xs"
  by (induction xs) (auto simp: max_default_def)

lemma max_default_le: "(\<And>x. x \<in> set xs \<Longrightarrow> x \<le> b) \<Longrightarrow> max_default xs \<le> b"
  by (induction xs) (auto simp: max_default_def)

text \<open>
  \<^verbatim>\<open>sorted(xs, key=k, reverse=True)\<close>. The sort is stable and \<^verbatim>\<open>reverse\<close> keeps the order of
  equal elements, which is reversing before and after an ascending stable sort.
\<close>

definition sorted_desc :: "('a \<Rightarrow> 'b::linorder) \<Rightarrow> 'a list \<Rightarrow> 'a list" where
  "sorted_desc k xs = rev (sort_key k (rev xs))"

lemma set_sorted_desc [simp, sort_simps]: "set (sorted_desc k xs) = set xs"
  by (simp add: sorted_desc_def)

lemma length_sorted_desc [simp, sort_simps]: "length (sorted_desc k xs) = length xs"
  by (simp add: sorted_desc_def)

lemma mset_sorted_desc [simp, sort_simps]: "mset (sorted_desc k xs) = mset xs"
  by (simp add: sorted_desc_def)

lemma distinct_sorted_desc [simp, sort_simps]: "distinct (sorted_desc k xs) = distinct xs"
  by (simp add: sorted_desc_def)

lemma sorted_desc_sorted: "sorted_wrt (\<lambda>x y. k y \<le> k x) (sorted_desc k xs)"
proof -
  have "sorted (map k (sort_key k (rev xs)))" by simp
  then have "sorted_wrt (\<lambda>x y. k x \<le> k y) (sort_key k (rev xs))"
    by (simp only: sorted_map)
  then show ?thesis
    unfolding sorted_desc_def by (simp only: sorted_wrt_rev)
qed

text \<open>\<^verbatim>\<open>xs[: max(1, limit)]\<close>\<close>

definition page_limit :: "int \<Rightarrow> nat" where
  "page_limit limit = nat (max 1 limit)"

lemma page_limit_pos [simp]: "0 < page_limit limit"
  by (simp add: page_limit_def)

lemma set_take_sorted_desc: "set (take n (sorted_desc k xs)) \<subseteq> set xs"
  by (metis set_take_subset set_sorted_desc)

section \<open>Strings\<close>

text \<open>Python \<^verbatim>\<open>str.lower\<close>, \<^verbatim>\<open>str.strip\<close> and \<^verbatim>\<open>str.startswith\<close> on ASCII text.\<close>

definition lower_char :: "char \<Rightarrow> char" where
  "lower_char c = (let n = (of_char c :: nat) in
     if 65 \<le> n \<and> n \<le> 90 then char_of (n + 32) else c)"

definition str_lower :: "string \<Rightarrow> string" where
  "str_lower s = map lower_char s"

definition is_space :: "char \<Rightarrow> bool" where
  "is_space c = (let n = (of_char c :: nat) in n = 32 \<or> (9 \<le> n \<and> n \<le> 13) \<or> (28 \<le> n \<and> n \<le> 31))"

definition str_strip :: "string \<Rightarrow> string" where
  "str_strip s = rev (dropWhile is_space (rev (dropWhile is_space s)))"

definition str_startswith :: "string \<Rightarrow> string \<Rightarrow> bool" where
  "str_startswith s p = (take (length p) s = p)"

definition str_endswith :: "string \<Rightarrow> string \<Rightarrow> bool" where
  "str_endswith s suf = str_startswith (rev s) (rev suf)"

text \<open>\<^verbatim>\<open>sub in s\<close>\<close>

fun str_contains :: "string \<Rightarrow> string \<Rightarrow> bool" where
  "str_contains sub [] = (sub = [])"
| "str_contains sub (c # s) = (str_startswith (c # s) sub \<or> str_contains sub s)"

text \<open>\<^verbatim>\<open>s.replace("_", " ")\<close> and \<^verbatim>\<open>s.removeprefix(p)\<close>\<close>

definition underscores_to_spaces :: "string \<Rightarrow> string" where
  "underscores_to_spaces s = map (\<lambda>c. if c = CHR ''_'' then CHR '' '' else c) s"

definition without_prefix :: "string \<Rightarrow> string \<Rightarrow> string" where
  "without_prefix p s = (if str_startswith s p then drop (length p) s else s)"

text \<open>The maximal runs of characters that satisfy a predicate, as \<^verbatim>\<open>re.findall\<close> of \<^verbatim>\<open>[...]+\<close>.\<close>

function runs_of :: "(char \<Rightarrow> bool) \<Rightarrow> string \<Rightarrow> string list" where
  "runs_of p s = (case dropWhile (\<lambda>c. \<not> p c) s of
      [] \<Rightarrow> []
    | c # cs \<Rightarrow> (c # takeWhile p cs) # runs_of p (dropWhile p cs))"
  by auto
termination
proof (relation "measure (length \<circ> snd)")
  fix p s c cs
  assume "dropWhile (\<lambda>c. \<not> p c) s = (c :: char) # cs"
  then have "length (c # cs) \<le> length s" by (metis length_dropWhile_le)
  moreover have "length (dropWhile p cs) \<le> length cs" by (rule length_dropWhile_le)
  ultimately show "((p, dropWhile p cs), p, s) \<in> measure (length \<circ> snd)" by simp
qed simp

declare runs_of.simps [simp del]

fun join :: "string \<Rightarrow> string list \<Rightarrow> string" where
  "join sep [] = []"
| "join sep [x] = x"
| "join sep (x # y # ys) = x @ sep @ join sep (y # ys)"

text \<open>\<^verbatim>\<open>s.split()\<close>\<close>

definition split_words :: "string \<Rightarrow> string list" where
  "split_words s = runs_of (\<lambda>c. \<not> is_space c) s"

text \<open>The decimal text of a natural number, as an f-string renders it.\<close>

definition digit_char :: "nat \<Rightarrow> char" where
  "digit_char d = char_of (48 + d)"

fun nat_str :: "nat \<Rightarrow> string" where
  "nat_str n = (if n < 10 then [digit_char n] else nat_str (n div 10) @ [digit_char (n mod 10)])"

declare nat_str.simps [simp del]

lemma dropWhile_idem: "dropWhile p (dropWhile p xs) = dropWhile p xs"
  by (induction xs) auto

lemma str_strip_Nil [simp]: "str_strip [] = []"
  by (simp add: str_strip_def)

lemma str_strip_last: "str_strip s \<noteq> [] \<Longrightarrow> \<not> is_space (last (str_strip s))"
proof -
  assume "str_strip s \<noteq> []"
  then have "dropWhile is_space (rev (dropWhile is_space s)) \<noteq> []"
    by (simp add: str_strip_def)
  then have "\<not> is_space (hd (dropWhile is_space (rev (dropWhile is_space s))))"
    by (rule hd_dropWhile)
  then show ?thesis by (simp add: str_strip_def last_rev)
qed

lemma str_strip_strip [simp]: "str_strip (str_strip s) = str_strip s"
proof -
  let ?d = "dropWhile is_space"
  have "?d (rev (?d (rev (?d s)))) = rev (?d (rev (?d s)))"
  proof (cases "rev (?d (rev (?d s)))")
    case (Cons c cs)
    have "c = hd (rev (?d (rev (?d s))))" by (simp add: Cons)
    also have "\<dots> = last (?d (rev (?d s)))" using Cons by (simp add: hd_rev)
    also have "\<dots> = last (rev (?d s))" using Cons by (metis dropWhile_last rev.simps(1) list.discI set_dropWhileD dropWhile_eq_Nil_conv last_in_set rev_rev_ident)
    also have "\<dots> = hd (?d s)" using Cons by (simp add: last_rev)
    finally have "c = hd (?d s)" .
    moreover have "?d s \<noteq> []" using Cons by force
    ultimately have "\<not> is_space c" by (simp add: hd_dropWhile)
    then show ?thesis using Cons by simp
  next
    case Nil
    then show ?thesis by (simp only: dropWhile.simps)
  qed
  then show ?thesis by (simp add: str_strip_def dropWhile_idem)
qed

definition int_str :: "int \<Rightarrow> string" where
  "int_str i = (if i < 0 then ''-'' @ nat_str (nat (- i)) else nat_str (nat i))"

text \<open>\<^verbatim>\<open>str(v)\<close>: a string is itself; \<open>show_value\<close> renders any other value.\<close>

definition py_str :: "(json \<Rightarrow> string) \<Rightarrow> json \<Rightarrow> string" where
  "py_str show_value v = (case v of JStr s \<Rightarrow> s | _ \<Rightarrow> show_value v)"

text \<open>\<^verbatim>\<open>d.get(k)\<close> on a JSON object.\<close>

definition opt_json :: "string option \<Rightarrow> json" where
  "opt_json s = (case s of None \<Rightarrow> JNull | Some x \<Rightarrow> JStr x)"

definition obj_get :: "json_obj \<Rightarrow> string \<Rightarrow> json" where
  "obj_get d k = (case dict_get d k of None \<Rightarrow> JNull | Some v \<Rightarrow> v)"

text \<open>\<^verbatim>\<open>a or b\<close> on JSON values.\<close>

definition json_or :: "json \<Rightarrow> json \<Rightarrow> json" where
  "json_or a b = (if truthy a then a else b)"

text \<open>\<^verbatim>\<open>list(v)\<close>, and the items a \<^verbatim>\<open>for\<close> loop over \<^verbatim>\<open>v\<close> sees.\<close>

fun py_list :: "json \<Rightarrow> json list result" where
  "py_list (JList xs) = Inr xs"
| "py_list (JStr s) = Inr (map (\<lambda>c. JStr [c]) s)"
| "py_list (JObj kvs) = Inr (map (\<lambda>kv. JStr (fst kv)) kvs)"
| "py_list _ = Inl (TypeError ''object is not iterable'')"

section \<open>Time\<close>

text \<open>
  What \<^verbatim>\<open>==\<close> and \<^verbatim>\<open>hash\<close> see of a \<^verbatim>\<open>datetime\<close>: aware ones are compared as instants, a naive and an aware
  one are never equal. To order the two raises; a sort compares enough pairs to connect all its items,
  so it raises exactly when it meets both kinds.
\<close>

definition stamp_key :: "stamp \<Rightarrow> bool \<times> int" where
  "stamp_key t = (case st_offset t of None \<Rightarrow> (False, st_local t) | Some offset \<Rightarrow> (True, st_local t - offset))"

definition utc :: "moment \<Rightarrow> stamp" where
  "utc t = \<lparr>st_local = t, st_offset = Some 0\<rparr>"

definition orderable :: "stamp list \<Rightarrow> bool" where
  "orderable ts = (list_all (\<lambda>t. st_offset t = None) ts \<or> list_all (\<lambda>t. st_offset t \<noteq> None) ts)"

definition sorted_by_stamp :: "('a \<Rightarrow> stamp) \<Rightarrow> 'a list \<Rightarrow> 'a list result" where
  "sorted_by_stamp f xs =
     (if orderable (map f xs) then Inr (sort_key (\<lambda>x. snd (stamp_key (f x))) xs)
      else Inl (TypeError ''can't compare offset-naive and offset-aware datetimes''))"

text \<open>\<^verbatim>\<open>timedelta(seconds=s)\<close> in microseconds: round half to even.\<close>

definition round_half_even :: "rat \<Rightarrow> int" where
  "round_half_even x = (let f = \<lfloor>x\<rfloor>; d = x - of_int f in
     if d < 1 / 2 then f else if 1 / 2 < d then f + 1 else if even f then f else f + 1)"

definition timedelta_seconds :: "rat \<Rightarrow> int" where
  "timedelta_seconds s = round_half_even (s * 1000000)"

lemma round_half_even_of_int [simp]: "round_half_even (of_int i) = i"
  by (simp add: round_half_even_def)

lemma round_half_even_nonneg: "0 \<le> x \<Longrightarrow> 0 \<le> round_half_even x"
  by (auto simp: round_half_even_def Let_def intro: le_floor_iff [THEN iffD2])

lemma round_half_even_mono: "x \<le> y \<Longrightarrow> round_half_even x \<le> round_half_even y"
proof -
  assume xy: "x \<le> y"
  show ?thesis
  proof (cases "\<lfloor>x\<rfloor> = \<lfloor>y\<rfloor>")
    case True
    with xy show ?thesis by (auto simp: round_half_even_def Let_def)
  next
    case False
    with xy have "\<lfloor>x\<rfloor> + 1 \<le> \<lfloor>y\<rfloor>" using floor_mono [OF xy] by linarith
    moreover have "round_half_even x \<le> \<lfloor>x\<rfloor> + 1" "\<lfloor>y\<rfloor> \<le> round_half_even y"
      by (simp_all add: round_half_even_def Let_def)
    ultimately show ?thesis by linarith
  qed
qed

lemma timedelta_seconds_nonneg: "0 \<le> s \<Longrightarrow> 0 \<le> timedelta_seconds s"
  by (simp add: timedelta_seconds_def round_half_even_nonneg)

lemma timedelta_seconds_pos: "1 \<le> s \<Longrightarrow> 0 < timedelta_seconds s"
proof -
  assume "1 \<le> s"
  then have "1000000 \<le> \<lfloor>s * 1000000\<rfloor>" by (simp add: le_floor_iff)
  then show ?thesis by (auto simp: timedelta_seconds_def round_half_even_def Let_def)
qed

section \<open>Results\<close>

text \<open>Sequencing of calls that may raise.\<close>

definition result_bind :: "'a result \<Rightarrow> ('a \<Rightarrow> 'b result) \<Rightarrow> 'b result" where
  "result_bind r f = (case r of Inl e \<Rightarrow> Inl e | Inr x \<Rightarrow> f x)"

lemma result_bind_simps [simp]:
  "result_bind (Inl e) f = Inl e" "result_bind (Inr x) f = f x"
  by (simp_all add: result_bind_def)

lemma result_bind_Inr: "(result_bind r f = Inr y) = (\<exists>x. r = Inr x \<and> f x = Inr y)"
  by (cases r) auto

end
