(* ===== verification/Contracts.thy ===== *)
theory Contracts
  imports Prelude
begin

text \<open>
  The records of \<^verbatim>\<open>src/seleric_swarm/conversations/contracts.py\<close>: one enumeration per
  \<^verbatim>\<open>StrEnum\<close>, one record per model, one validator per pydantic \<^verbatim>\<open>model_validator\<close> or
  \<^verbatim>\<open>field_validator\<close>. A field name carries the prefix of its record (\<open>th_\<close> thread, \<open>msg_\<close>
  message, \<open>run_\<close> run, \<open>att_\<close> run attempt, \<open>ev_\<close> activity event, \<open>art_\<close> artifact,
  \<open>file_\<close> attachment, \<open>sum_\<close> thread summary, \<open>mem_\<close> memory item, \<open>ap_\<close> approval,
  \<open>dec_\<close> decision event, \<open>rb_\<close> rollback). Identifiers that the code draws from
  \<^verbatim>\<open>uuid4\<close> and times it reads from the clock are arguments of the operations that need
  them. Fields with the constraint \<^verbatim>\<open>ge=0\<close> have type \<open>nat\<close>.
\<close>

section \<open>Enumerations\<close>

datatype principal_auth_method = ANONYMOUS | SHARED_API_KEY | SERVICE

datatype thread_status = THREAD_ACTIVE | THREAD_ARCHIVED | THREAD_DELETED

datatype message_role = USER | ASSISTANT | SYSTEM | TOOL

datatype message_part_type =
    TEXT | TABLE | CODE | SOURCE | TOOL_CALL | ARTIFACT | CHART | AGENT_STATUS | APPROVAL | WARNING

datatype run_status = QUEUED | RUNNING | WAITING | COMPLETED | FAILED | CANCELLED

datatype run_attempt_status =
    ATT_RUNNING | ATT_RETRYABLE | ATT_COMPLETED | ATT_FAILED | ATT_CANCELLED

datatype event_visibility = VIS_USER | VIS_ADMIN | VIS_INTERNAL

datatype attachment_status = FILE_PENDING | FILE_READY | FILE_FAILED | FILE_DELETED

datatype attachment_scan_status =
    SCAN_PENDING | SCAN_CLEAN | SCAN_QUARANTINED | SCAN_FAILED | SCAN_UNAVAILABLE

datatype memory_scope = SCOPE_THREAD | SCOPE_USER | SCOPE_PROJECT | SCOPE_EPISODIC

datatype memory_type =
    FACT | DECISION | PREFERENCE | OUTCOME | CONSTRAINT | DEFINITION | SUMMARY | INSTRUCTION

datatype memory_status =
    MEM_CANDIDATE | MEM_ACTIVE | MEM_SUPERSEDED | MEM_ARCHIVED | MEM_DELETED | MEM_PENDING_CONSENT

datatype approval_status =
    REQUESTED | APPROVED | REJECTED | EXPIRED | APPROVAL_CANCELLED | EXECUTED | ROLLED_BACK

datatype artifact_classification = Ui | Factual | Derived

text \<open>The string value of a run status, as \<^verbatim>\<open>status.value\<close>.\<close>

fun run_status_value :: "run_status \<Rightarrow> string" where
  "run_status_value QUEUED = ''QUEUED''"
| "run_status_value RUNNING = ''RUNNING''"
| "run_status_value WAITING = ''WAITING''"
| "run_status_value COMPLETED = ''COMPLETED''"
| "run_status_value FAILED = ''FAILED''"
| "run_status_value CANCELLED = ''CANCELLED''"

text \<open>The terminal statuses, as the sets the repositories write out.\<close>

definition run_terminal :: "run_status \<Rightarrow> bool" where
  "run_terminal s = (s \<in> {COMPLETED, FAILED, CANCELLED})"

definition attempt_terminal :: "run_attempt_status \<Rightarrow> bool" where
  "attempt_terminal s = (s \<in> {ATT_COMPLETED, ATT_FAILED, ATT_CANCELLED})"

lemma run_terminal_simps [simp]:
  "run_terminal COMPLETED" "run_terminal FAILED" "run_terminal CANCELLED"
  "\<not> run_terminal QUEUED" "\<not> run_terminal RUNNING" "\<not> run_terminal WAITING"
  by (simp_all add: run_terminal_def)

lemma attempt_terminal_simps [simp]:
  "attempt_terminal ATT_COMPLETED" "attempt_terminal ATT_FAILED" "attempt_terminal ATT_CANCELLED"
  "\<not> attempt_terminal ATT_RUNNING" "\<not> attempt_terminal ATT_RETRYABLE"
  by (simp_all add: attempt_terminal_def)

section \<open>Principals\<close>

record principal =
  principal_id :: string
  workspace_id :: string
  user_id :: string
  authenticated :: bool
  auth_method :: principal_auth_method
  roles :: "string list"

text \<open>The field validator: identifiers are stripped and must not be blank.\<close>

definition identifiers_are_not_blank :: "string \<Rightarrow> string result" where
  "identifiers_are_not_blank value =
     (let v = str_strip value in
      if v = [] then Inl (ValueError ''identifier must not be blank'') else Inr v)"

definition make_principal :: "principal \<Rightarrow> principal result" where
  "make_principal p =
     result_bind (identifiers_are_not_blank (principal_id p)) (\<lambda>pid.
     result_bind (identifiers_are_not_blank (workspace_id p)) (\<lambda>ws.
     result_bind (identifiers_are_not_blank (user_id p)) (\<lambda>u.
       Inr (p\<lparr>principal_id := pid, workspace_id := ws, user_id := u\<rparr>))))"

definition is_admin :: "principal \<Rightarrow> bool" where
  "is_admin p = (authenticated p \<and>
     set (map str_lower (roles p)) \<inter> {''admin'', ''internal''} \<noteq> {})"

definition is_internal :: "principal \<Rightarrow> bool" where
  "is_internal p = (authenticated p \<and> ''internal'' \<in> set (map str_lower (roles p)))"

definition can_access_workspace :: "principal \<Rightarrow> string \<Rightarrow> bool" where
  "can_access_workspace p ws = (workspace_id p = ws \<or> is_internal p)"

definition owns :: "principal \<Rightarrow> string \<Rightarrow> string \<Rightarrow> bool" where
  "owns p ws u = (can_access_workspace p ws \<and> (user_id p = u \<or> is_admin p))"

lemma internal_is_admin: "is_internal p \<Longrightarrow> is_admin p"
  by (auto simp: is_internal_def is_admin_def)

section \<open>Threads\<close>

record thread =
  th_id :: string
  th_workspace_id :: string
  th_owner_user_id :: string
  th_project_id :: "string option"
  th_title :: "string option"
  th_status :: thread_status
  th_metadata :: json_obj
  th_created_at :: moment
  th_updated_at :: moment
  th_deleted_at :: "moment option"

definition is_owned_by :: "thread \<Rightarrow> principal \<Rightarrow> bool" where
  "is_owned_by t p = owns p (th_workspace_id t) (th_owner_user_id t)"

section \<open>Messages\<close>

datatype part_content = CStr string | CObj json_obj | CList "json list"

record message_part =
  part_type :: message_part_type
  part_content :: part_content
  part_metadata :: json_obj

text \<open>
  The typed content of \<^verbatim>\<open>SOURCE\<close>, \<^verbatim>\<open>TOOL_CALL\<close>, \<^verbatim>\<open>ARTIFACT\<close> and \<^verbatim>\<open>CHART\<close> parts. Models
  forbid unknown keys; \<^verbatim>\<open>model_dump(exclude_none=True)\<close> lists the fields in declaration
  order and leaves out those that are \<^verbatim>\<open>None\<close>.
\<close>

definition only_keys :: "string list \<Rightarrow> json_obj \<Rightarrow> bool" where
  "only_keys ks obj = list_all (\<lambda>kv. fst kv \<in> set ks) obj"

definition required_str :: "json_obj \<Rightarrow> string \<Rightarrow> json_obj result" where
  "required_str obj k = (case dict_get obj k of
      Some (JStr s) \<Rightarrow> if s = [] then Inl (ValueError k) else Inr [(k, JStr s)]
    | _ \<Rightarrow> Inl (ValueError k))"

definition optional_str :: "json_obj \<Rightarrow> string \<Rightarrow> json_obj result" where
  "optional_str obj k = (case dict_get obj k of
      None \<Rightarrow> Inr []
    | Some JNull \<Rightarrow> Inr []
    | Some (JStr s) \<Rightarrow> Inr [(k, JStr s)]
    | Some _ \<Rightarrow> Inl (ValueError k))"

definition optional_data :: "json_obj \<Rightarrow> string \<Rightarrow> json_obj result" where
  "optional_data obj k = (case dict_get obj k of
      None \<Rightarrow> Inr []
    | Some JNull \<Rightarrow> Inr []
    | Some (JObj o') \<Rightarrow> Inr [(k, JObj o')]
    | Some (JList xs) \<Rightarrow> Inr [(k, JList xs)]
    | Some _ \<Rightarrow> Inl (ValueError k))"

definition default_obj :: "json_obj \<Rightarrow> string \<Rightarrow> json_obj result" where
  "default_obj obj k = (case dict_get obj k of
      None \<Rightarrow> Inr [(k, JObj [])]
    | Some (JObj o') \<Rightarrow> Inr [(k, JObj o')]
    | Some _ \<Rightarrow> Inl (ValueError k))"

definition source_part_content :: "json_obj \<Rightarrow> json_obj result" where
  "source_part_content obj =
     (if \<not> only_keys [''evidence_id'', ''title'', ''url'', ''excerpt''] obj
      then Inl (ValueError ''extra'')
      else result_bind (required_str obj ''evidence_id'') (\<lambda>a.
           result_bind (optional_str obj ''title'') (\<lambda>b.
           result_bind (optional_str obj ''url'') (\<lambda>c.
           result_bind (optional_str obj ''excerpt'') (\<lambda>d. Inr (a @ b @ c @ d))))))"

definition chart_part_content :: "json_obj \<Rightarrow> json_obj result" where
  "chart_part_content obj =
     (if \<not> only_keys [''chart_type'', ''artifact_id'', ''data''] obj
      then Inl (ValueError ''extra'')
      else result_bind (required_str obj ''chart_type'') (\<lambda>a.
           result_bind (optional_str obj ''artifact_id'') (\<lambda>b.
           result_bind (optional_data obj ''data'') (\<lambda>c.
           if b = [] \<and> c = [] then Inl (ValueError ''CHART parts require artifact_id or data'')
           else Inr (a @ b @ c)))))"

definition artifact_part_content :: "json_obj \<Rightarrow> json_obj result" where
  "artifact_part_content obj =
     (if \<not> only_keys [''artifact_id'', ''label'', ''artifact_type''] obj
      then Inl (ValueError ''extra'')
      else result_bind (required_str obj ''artifact_id'') (\<lambda>a.
           result_bind (optional_str obj ''label'') (\<lambda>b.
           result_bind (optional_str obj ''artifact_type'') (\<lambda>c. Inr (a @ b @ c)))))"

definition tool_call_part_content :: "json_obj \<Rightarrow> json_obj result" where
  "tool_call_part_content obj =
     (if \<not> only_keys [''tool'', ''arguments'', ''call_id''] obj
      then Inl (ValueError ''extra'')
      else result_bind (required_str obj ''tool'') (\<lambda>a.
           result_bind (default_obj obj ''arguments'') (\<lambda>b.
           result_bind (optional_str obj ''call_id'') (\<lambda>c. Inr (a @ b @ c)))))"

definition is_obj :: "part_content \<Rightarrow> bool" where
  "is_obj c = (case c of CObj _ \<Rightarrow> True | _ \<Rightarrow> False)"

definition is_str :: "part_content \<Rightarrow> bool" where
  "is_str c = (case c of CStr _ \<Rightarrow> True | _ \<Rightarrow> False)"

definition typed_content ::
  "(json_obj \<Rightarrow> json_obj result) \<Rightarrow> message_part \<Rightarrow> message_part result" where
  "typed_content f p = (case part_content p of
      CObj obj \<Rightarrow> result_bind (f obj) (\<lambda>o'. Inr (p\<lparr>part_content := CObj o'\<rparr>))
    | _ \<Rightarrow> Inl (ValueError ''object content''))"

definition validate_content :: "message_part \<Rightarrow> message_part result" where
  "validate_content p =
     (if part_type p \<in> {TEXT, CODE, AGENT_STATUS, WARNING} \<and> \<not> is_str (part_content p)
      then Inl (ValueError ''parts require string content'')
      else if part_type p = TABLE \<and> is_str (part_content p)
      then Inl (ValueError ''TABLE parts require object or array content'')
      else if part_type p \<in> {SOURCE, TOOL_CALL, ARTIFACT, CHART, APPROVAL}
              \<and> \<not> is_obj (part_content p)
      then Inl (ValueError ''parts require object content'')
      else (case part_type p of
          SOURCE \<Rightarrow> typed_content source_part_content p
        | TOOL_CALL \<Rightarrow> typed_content tool_call_part_content p
        | ARTIFACT \<Rightarrow> typed_content artifact_part_content p
        | CHART \<Rightarrow> typed_content chart_part_content p
        | APPROVAL \<Rightarrow> (case part_content p of
              CObj obj \<Rightarrow>
                if (case dict_get obj ''approval_id'' of None \<Rightarrow> False | Some v \<Rightarrow> truthy v)
                then Inr p else Inl (ValueError ''APPROVAL parts require approval_id'')
            | _ \<Rightarrow> Inr p)
        | _ \<Rightarrow> Inr p))"

text \<open>Validating a list of parts, as a message or a request with parts does.\<close>

fun validated_parts :: "message_part list \<Rightarrow> message_part list result" where
  "validated_parts [] = Inr []"
| "validated_parts (p # ps) = result_bind (validate_content p) (\<lambda>p'.
     result_bind (validated_parts ps) (\<lambda>ps'. Inr (p' # ps')))"

record message =
  msg_id :: string
  msg_thread_id :: string
  msg_workspace_id :: string
  msg_user_id :: "string option"
  msg_role :: message_role
  msg_parts :: "message_part list"
  msg_run_id :: "string option"
  msg_parent_message_id :: "string option"
  msg_created_at :: moment
  msg_updated_at :: moment

section \<open>Runs, attempts and activity events\<close>

record run =
  run_id :: string
  run_thread_id :: string
  run_workspace_id :: string
  run_requested_by_user_id :: string
  run_mission_id :: "string option"
  run_status :: run_status
  run_current_attempt :: nat
  run_max_attempts :: nat
  run_retry_count :: nat
  run_next_retry_at :: "moment option"
  run_cancel_requested_at :: "moment option"
  run_metadata :: json_obj
  run_created_at :: moment
  run_started_at :: "moment option"
  run_completed_at :: "moment option"

record run_attempt =
  att_id :: string
  att_run_id :: string
  att_number :: nat
  att_status :: run_attempt_status
  att_worker_id :: "string option"
  att_lease_expires_at :: "moment option"
  att_heartbeat_at :: "moment option"
  att_retryable :: bool
  att_version :: nat
  att_error_code :: "string option"
  att_error_message :: "string option"
  att_started_at :: moment
  att_completed_at :: "moment option"

record activity_event =
  ev_id :: string
  ev_thread_id :: string
  ev_workspace_id :: string
  ev_run_id :: "string option"
  ev_owner_user_id :: "string option"
  ev_actor_user_id :: "string option"
  ev_sequence :: nat
  ev_thread_sequence :: nat
  ev_event_type :: string
  ev_actor_type :: "string option"
  ev_actor_id :: "string option"
  ev_title :: "string option"
  ev_summary :: "string option"
  ev_parent_event_id :: "string option"
  ev_visibility :: event_visibility
  ev_evidence_ids :: "string list"
  ev_payload :: json_obj
  ev_metadata :: json_obj
  ev_started_at :: "moment option"
  ev_completed_at :: "moment option"
  ev_duration_ms :: "nat option"
  ev_created_at :: moment

section \<open>Artifacts\<close>

record artifact_provenance =
  prov_evidence_ids :: "string list"
  prov_calculation_version :: "string option"
  prov_query_version :: "string option"
  prov_prompt_version :: "string option"
  prov_tool_version :: "string option"
  prov_model_version :: "string option"
  prov_source_metadata :: json_obj

record artifact =
  art_id :: string
  art_workspace_id :: string
  art_artifact_type :: string
  art_payload :: json_obj
  art_classification :: artifact_classification
  art_evidence_ids :: "string list"
  art_provenance :: artifact_provenance
  art_mission_id :: "string option"
  art_thread_id :: "string option"
  art_run_id :: "string option"
  art_message_id :: "string option"
  art_created_at :: moment

definition all_evidence_ids :: "artifact \<Rightarrow> string list" where
  "all_evidence_ids a = dedupe (art_evidence_ids a @ prov_evidence_ids (art_provenance a))"

definition any_version :: "artifact_provenance \<Rightarrow> bool" where
  "any_version p = (str_truthy (prov_calculation_version p) \<or> str_truthy (prov_query_version p)
     \<or> str_truthy (prov_prompt_version p) \<or> str_truthy (prov_tool_version p)
     \<or> str_truthy (prov_model_version p))"

definition validate_classification_boundary :: "artifact \<Rightarrow> artifact result" where
  "validate_classification_boundary a =
     (let evidence_ids = all_evidence_ids a; p = art_provenance a in
      if art_classification a = Ui then
        (if evidence_ids \<noteq> [] \<or> any_version p \<or> prov_source_metadata p \<noteq> []
         then Inl (ValueError ''ui artifacts cannot carry evidence or derived provenance'')
         else Inr a)
      else if evidence_ids = []
      then Inl (ValueError ''factual/derived artifacts require evidence IDs'')
      else if art_classification a = Derived \<and> \<not> any_version p
      then Inl (ValueError ''derived artifacts require a version'')
      else Inr a)"

definition require_provenance :: "artifact \<Rightarrow> artifact result" where
  "require_provenance a =
     (if art_classification a = Ui then Inr a
      else let evidence_ids = all_evidence_ids a in
      if evidence_ids = []
      then Inl (ValueError ''factual/derived artifacts require evidence IDs'')
      else if art_classification a = Derived \<and> \<not> any_version (art_provenance a)
      then Inl (ValueError ''derived artifacts require a version'')
      else Inr (a\<lparr>art_evidence_ids := evidence_ids,
                  art_provenance := (art_provenance a)\<lparr>prov_evidence_ids := evidence_ids\<rparr>\<rparr>))"

section \<open>Attachments\<close>

record attachment =
  file_id :: string
  file_thread_id :: string
  file_workspace_id :: string
  file_owner_user_id :: string
  file_message_id :: "string option"
  file_filename :: string
  file_content_type :: string
  file_size_bytes :: nat
  file_storage_uri :: "string option"
  file_checksum_sha256 :: "string option"
  file_status :: attachment_status
  file_scan_status :: attachment_scan_status
  file_scan_detail :: string
  file_created_at :: moment

definition is_hex_digit :: "char \<Rightarrow> bool" where
  "is_hex_digit c = (let n = (of_char c :: nat) in
     (48 \<le> n \<and> n \<le> 57) \<or> (65 \<le> n \<and> n \<le> 70) \<or> (97 \<le> n \<and> n \<le> 102))"

text \<open>The field pattern of the checksum and the validator of \<^verbatim>\<open>READY\<close> attachments.\<close>

definition checksum_ok :: "string option \<Rightarrow> bool" where
  "checksum_ok c = (case c of None \<Rightarrow> True
     | Some s \<Rightarrow> length s = 64 \<and> list_all is_hex_digit s)"

definition ready_requires_verified_clean_scan :: "attachment \<Rightarrow> attachment result" where
  "ready_requires_verified_clean_scan a =
     (if \<not> checksum_ok (file_checksum_sha256 a) then Inl (ValueError ''checksum_sha256'')
      else if file_status a = FILE_READY \<and>
        (file_scan_status a \<noteq> SCAN_CLEAN \<or> \<not> str_truthy (file_storage_uri a)
         \<or> \<not> str_truthy (file_checksum_sha256 a))
      then Inl (ValueError ''READY attachments require storage, checksum, and a CLEAN scan'')
      else Inr a)"

section \<open>Summaries and memories\<close>

datatype summary_mode = Extractive | Deterministic

record thread_summary =
  sum_id :: string
  sum_thread_id :: string
  sum_workspace_id :: string
  sum_owner_user_id :: string
  sum_through_message_id :: "string option"
  sum_covered_message_ids :: "string list"
  sum_source_evidence_ids :: "string list"
  sum_mode :: summary_mode
  sum_version :: string
  sum_summary :: string
  sum_metadata :: json_obj
  sum_created_at :: moment

datatype memory_content = MText string | MObj json_obj

record memory_item =
  mem_id :: string
  mem_workspace_id :: string
  mem_owner_user_id :: string
  mem_project_id :: "string option"
  mem_scope :: memory_scope
  mem_type :: memory_type
  mem_status :: memory_status
  mem_content :: memory_content
  mem_normalized_content :: string
  mem_structured_data :: json_obj
  mem_provenance :: json_obj
  mem_confidence :: rat
  mem_salience :: rat
  mem_thread_id :: "string option"
  mem_source_message_id :: "string option"
  mem_source_message_ids :: "string list"
  mem_source_run_id :: "string option"
  mem_source_evidence_ids :: "string list"
  mem_supersedes_id :: "string option"
  mem_superseded_by_id :: "string option"
  mem_pinned :: bool
  mem_requires_confirmation :: bool
  mem_consented_at :: "moment option"
  mem_valid_from :: "moment option"
  mem_valid_to :: "moment option"
  mem_created_at :: moment
  mem_updated_at :: moment
  mem_last_used_at :: "moment option"
  mem_expires_at :: "moment option"
  mem_archived_at :: "moment option"
  mem_deleted_at :: "moment option"

definition validate_scope_and_consent :: "memory_item \<Rightarrow> memory_item result" where
  "validate_scope_and_consent m =
     (if mem_scope m = SCOPE_THREAD \<and> \<not> str_truthy (mem_thread_id m)
      then Inl (ValueError ''thread_id is required for THREAD-scoped memory'')
      else if mem_scope m \<in> {SCOPE_PROJECT, SCOPE_EPISODIC} \<and> \<not> str_truthy (mem_project_id m)
      then Inl (ValueError ''project_id is required for PROJECT/EPISODIC memory'')
      else if mem_status m = MEM_ACTIVE \<and> mem_consented_at m = None
      then Inl (ValueError ''ACTIVE memory requires consented_at'')
      else (case (mem_valid_from m, mem_valid_to m) of
          (Some a, Some b) \<Rightarrow>
            if b \<le> a then Inl (ValueError ''valid_to must be after valid_from'') else Inr m
        | _ \<Rightarrow> Inr m))"

record memory_preference =
  pref_workspace_id :: string
  pref_owner_user_id :: string
  pref_opted_out :: bool
  pref_updated_at :: moment

section \<open>Search results and approvals\<close>

record search_result =
  sr_id :: string
  sr_kind :: string
  sr_title :: string
  sr_snippet :: string
  sr_thread_id :: "string option"
  sr_run_id :: "string option"
  sr_lexical_rank :: "nat option"
  sr_vector_rank :: "nat option"
  sr_recency_rank :: "nat option"
  sr_score :: rat
  sr_created_at :: moment
  sr_metadata :: json_obj

record approval_request =
  ap_id :: string
  ap_workspace_id :: string
  ap_owner_user_id :: string
  ap_run_id :: "string option"
  ap_action_type :: string
  ap_action_preview :: json_obj
  ap_required_role :: string
  ap_status :: approval_status
  ap_idempotency_key :: string
  ap_dry_run :: bool
  ap_checkpoint_resume_token :: "string option"
  ap_expires_at :: "moment option"
  ap_created_at :: moment
  ap_updated_at :: moment

record approval_decision_event =
  dec_id :: string
  dec_approval_id :: string
  dec_from_status :: "approval_status option"
  dec_to_status :: approval_status
  dec_actor_principal_id :: string
  dec_reason :: "string option"
  dec_metadata :: json_obj
  dec_created_at :: moment

record rollback_record =
  rb_id :: string
  rb_approval_id :: string
  rb_actor_principal_id :: string
  rb_action :: json_obj
  rb_outcome :: json_obj
  rb_created_at :: moment

section \<open>Validators normalise\<close>

lemma require_provenance_Inr:
  "require_provenance a = Inr b \<Longrightarrow> art_classification a \<noteq> Ui \<Longrightarrow>
     b = a\<lparr>art_evidence_ids := all_evidence_ids a,
           art_provenance := (art_provenance a)\<lparr>prov_evidence_ids := all_evidence_ids a\<rparr>\<rparr>
       \<and> all_evidence_ids a \<noteq> []
       \<and> (art_classification a = Derived \<longrightarrow> any_version (art_provenance a))"
  by (auto simp: require_provenance_def Let_def split: if_splits)

lemma dedupe_from_id: "distinct xs \<Longrightarrow> set xs \<inter> set seen = {} \<Longrightarrow> dedupe_from seen xs = xs"
  by (induction xs arbitrary: seen) auto

lemma dedupe_from_seen: "set ys \<subseteq> set seen \<union> set xs \<Longrightarrow>
    dedupe_from seen (xs @ ys) = dedupe_from seen xs"
proof (induction xs arbitrary: seen)
  case Nil
  then show ?case by (induction ys) auto
qed auto

lemma dedupe_twice: "dedupe (dedupe xs @ dedupe xs) = dedupe xs"
  by (simp add: dedupe_def dedupe_from_seen dedupe_from_id distinct_dedupe_from)

lemma any_version_update [simp]: "any_version (p\<lparr>prov_evidence_ids := xs\<rparr>) = any_version p"
  by (simp add: any_version_def)

text \<open>
  An artifact accepted by \<^verbatim>\<open>Artifact.require_provenance\<close> that is not a UI envelope
  carries a non-empty list of distinct evidence identifiers, which is the union of the
  identifiers it was submitted with and agrees with its provenance; a derived one also names
  a version. Accepting it again changes nothing, and it satisfies the classification boundary
  that the model's own validator checks.
\<close>

theorem require_provenance_normal_form:
  assumes "require_provenance a = Inr b" and "art_classification a \<noteq> Ui"
  shows "art_evidence_ids b \<noteq> [] \<and> distinct (art_evidence_ids b)
    \<and> set (art_evidence_ids b) = set (art_evidence_ids a) \<union> set (prov_evidence_ids (art_provenance a))
    \<and> prov_evidence_ids (art_provenance b) = art_evidence_ids b
    \<and> (art_classification b = Derived \<longrightarrow> any_version (art_provenance b))
    \<and> require_provenance b = Inr b
    \<and> validate_classification_boundary b = Inr b"
proof -
  note b = require_provenance_Inr [OF assms]
  then have "all_evidence_ids b = all_evidence_ids a"
    by (simp add: all_evidence_ids_def dedupe_twice)
  with b assms(2) show ?thesis
    by (auto simp: require_provenance_def validate_classification_boundary_def Let_def
        all_evidence_ids_def)
qed

text \<open>Sample records for the closed instances of the theorems.\<close>

definition sample_provenance :: artifact_provenance where
  "sample_provenance = \<lparr>prov_evidence_ids = [''e2'', ''e1''], prov_calculation_version = None,
     prov_query_version = Some ''q1'', prov_prompt_version = None, prov_tool_version = None,
     prov_model_version = None, prov_source_metadata = []\<rparr>"

definition sample_artifact :: artifact where
  "sample_artifact = \<lparr>art_id = ''a1'', art_workspace_id = ''w'', art_artifact_type = ''report'',
     art_payload = [], art_classification = Derived, art_evidence_ids = [''e1'', ''e1''],
     art_provenance = sample_provenance, art_mission_id = None, art_thread_id = Some ''t'',
     art_run_id = None, art_message_id = None, art_created_at = 0\<rparr>"

theorem require_provenance_normal_form_witness:
  "\<exists>b. require_provenance sample_artifact = Inr b \<and> art_evidence_ids b = [''e1'', ''e2'']
     \<and> validate_classification_boundary b = Inr b"
proof -
  have "require_provenance sample_artifact =
      Inr (sample_artifact\<lparr>art_evidence_ids := [''e1'', ''e2''],
        art_provenance := sample_provenance\<lparr>prov_evidence_ids := [''e1'', ''e2'']\<rparr>\<rparr>)"
    by (simp add: require_provenance_def all_evidence_ids_def sample_artifact_def
        sample_provenance_def any_version_def dedupe_def Let_def)
  from this require_provenance_normal_form [OF this] show ?thesis
    by (simp add: sample_artifact_def)
qed

lemma required_str_shape: "required_str obj k = Inr r \<Longrightarrow> \<exists>s. s \<noteq> [] \<and> r = [(k, JStr s)]"
  by (auto simp: required_str_def split: option.splits json.splits if_splits)

lemma optional_str_shape: "optional_str obj k = Inr r \<Longrightarrow> r = [] \<or> (\<exists>s. r = [(k, JStr s)])"
  by (auto simp: optional_str_def split: option.splits json.splits)

lemma optional_data_shape: "optional_data obj k = Inr r \<Longrightarrow>
    r = [] \<or> (\<exists>o'. r = [(k, JObj o')]) \<or> (\<exists>xs. r = [(k, JList xs)])"
  by (auto simp: optional_data_def split: option.splits json.splits)

lemma default_obj_shape: "default_obj obj k = Inr r \<Longrightarrow> \<exists>o'. r = [(k, JObj o')]"
  by (auto simp: default_obj_def split: option.splits json.splits)

lemmas field_shapes = required_str_shape optional_str_shape optional_data_shape default_obj_shape

lemmas field_defs =
  required_str_def optional_str_def optional_data_def default_obj_def only_keys_def

lemma source_part_content_idem:
  assumes "source_part_content obj = Inr r"
  shows "source_part_content r = Inr r"
proof -
  from assms obtain a b c d where "required_str obj ''evidence_id'' = Inr a"
    and "optional_str obj ''title'' = Inr b"
    and "optional_str obj ''url'' = Inr c"
    and "optional_str obj ''excerpt'' = Inr d"
    and "r = a @ b @ c @ d"
    by (auto simp: source_part_content_def result_bind_Inr split: if_splits)
  then show ?thesis
    by (auto dest!: field_shapes simp: source_part_content_def) (simp_all add: field_defs)
qed

lemma artifact_part_content_idem:
  assumes "artifact_part_content obj = Inr r"
  shows "artifact_part_content r = Inr r"
proof -
  from assms obtain a b c where "required_str obj ''artifact_id'' = Inr a"
    and "optional_str obj ''label'' = Inr b"
    and "optional_str obj ''artifact_type'' = Inr c"
    and "r = a @ b @ c"
    by (auto simp: artifact_part_content_def result_bind_Inr split: if_splits)
  then show ?thesis
    by (auto dest!: field_shapes simp: artifact_part_content_def) (simp_all add: field_defs)
qed

lemma tool_call_part_content_idem:
  assumes "tool_call_part_content obj = Inr r"
  shows "tool_call_part_content r = Inr r"
proof -
  from assms obtain a b c where "required_str obj ''tool'' = Inr a"
    and "default_obj obj ''arguments'' = Inr b"
    and "optional_str obj ''call_id'' = Inr c"
    and "r = a @ b @ c"
    by (auto simp: tool_call_part_content_def result_bind_Inr split: if_splits)
  then show ?thesis
    by (auto dest!: field_shapes simp: tool_call_part_content_def) (simp_all add: field_defs)
qed

lemma chart_part_content_idem:
  assumes "chart_part_content obj = Inr r"
  shows "chart_part_content r = Inr r"
proof -
  from assms obtain a b c where "required_str obj ''chart_type'' = Inr a"
    and "optional_str obj ''artifact_id'' = Inr b"
    and "optional_data obj ''data'' = Inr c"
    and "\<not> (b = [] \<and> c = [])"
    and "r = a @ b @ c"
    by (auto simp: chart_part_content_def result_bind_Inr split: if_splits)
  then show ?thesis
    by (auto dest!: field_shapes simp: chart_part_content_def) (simp_all add: field_defs)
qed

lemma typed_content_idem:
  assumes idem: "\<And>obj r. f obj = Inr r \<Longrightarrow> f r = Inr r" and "typed_content f p = Inr q"
  shows "typed_content f q = Inr q \<and> part_type q = part_type p \<and> is_obj (part_content q)"
  using assms(2) idem
  by (auto simp: typed_content_def result_bind_Inr is_obj_def split: part_content.splits)

text \<open>
  \<^verbatim>\<open>MessagePart.validate_content\<close> is a normalisation: the part it returns passes the
  validator again unchanged, has the same type, and has the shape its type requires (text-like
  parts a string, tables an object or a list, the five structured kinds an object).
\<close>

theorem validate_content_idempotent:
  assumes "validate_content p = Inr q"
  shows "validate_content q = Inr q \<and> part_type q = part_type p
    \<and> (part_type q \<in> {TEXT, CODE, AGENT_STATUS, WARNING} \<longrightarrow> is_str (part_content q))
    \<and> (part_type q = TABLE \<longrightarrow> \<not> is_str (part_content q))
    \<and> (part_type q \<in> {SOURCE, TOOL_CALL, ARTIFACT, CHART, APPROVAL} \<longrightarrow> is_obj (part_content q))"
proof -
  note idem = typed_content_idem [where p = p and q = q, OF source_part_content_idem]
    typed_content_idem [where p = p and q = q, OF tool_call_part_content_idem]
    typed_content_idem [where p = p and q = q, OF artifact_part_content_idem]
    typed_content_idem [where p = p and q = q, OF chart_part_content_idem]
  show ?thesis
  proof (cases "part_type p")
    case APPROVAL
    with assms show ?thesis
      by (auto simp: validate_content_def is_obj_def split: if_splits part_content.splits)
  qed (use assms idem in \<open>auto simp: validate_content_def split: if_splits\<close>)
qed

theorem validate_content_idempotent_witness:
  "\<exists>q. validate_content \<lparr>part_type = SOURCE,
      part_content = CObj [(''title'', JNull), (''evidence_id'', JStr ''e1'')],
      part_metadata = []\<rparr> = Inr q \<and> part_content q = CObj [(''evidence_id'', JStr ''e1'')]
      \<and> validate_content q = Inr q"
proof -
  let ?p = "\<lparr>part_type = SOURCE,
      part_content = CObj [(''title'', JNull), (''evidence_id'', JStr ''e1'')],
      part_metadata = []\<rparr>"
  have "validate_content ?p = Inr (?p\<lparr>part_content := CObj [(''evidence_id'', JStr ''e1'')]\<rparr>)"
    by (simp add: validate_content_def is_obj_def typed_content_def source_part_content_def
        only_keys_def required_str_def optional_str_def)
  from this validate_content_idempotent [OF this] show ?thesis by simp
qed

end
