(* ===== verification/Repositories.thy ===== *)
theory Repositories
  imports Contracts
begin

text \<open>
  The keyed in-memory repositories of \<^verbatim>\<open>src/seleric_swarm/conversations/memory.py\<close>: threads,
  messages, artifacts and attachments. Each holds its records in a dictionary by identifier
  under a re-entrant lock, so an operation is one atomic step from a dictionary to a
  dictionary. The contract the repositories share (a record's tenant never changes, a lookup
  sees only the caller's tenant) is the locale \<open>tenant_repo\<close>, interpreted on each of them.

  Page cursors are represented by what they encode, the pair of the sort moment and the
  identifier; the base64 text around it is not modelled.
\<close>

type_synonym 'a store = "(string, 'a) dict"

section \<open>Keyset pages\<close>

text \<open>
  The paging both \<^verbatim>\<open>list_page\<close> methods write out: keep what lies below the boundary, sort
  descending, take one more than the limit to learn whether there is a next page.
\<close>

definition below :: "('a \<Rightarrow> 'b::linorder) \<Rightarrow> 'b option \<Rightarrow> 'a \<Rightarrow> bool" where
  "below k c x = (case c of None \<Rightarrow> True | Some b \<Rightarrow> k x < b)"

definition keyset_page ::
  "('a \<Rightarrow> 'b::linorder) \<Rightarrow> int \<Rightarrow> 'b option \<Rightarrow> 'a list \<Rightarrow> 'a list \<times> 'b option" where
  "keyset_page k limit boundary xs =
     (let items = filter (below k boundary) xs;
          ordered = sorted_desc k items;
          page = take (page_limit limit + 1) ordered;
          has_more = length page > page_limit limit;
          page = take (page_limit limit) page;
          next_cursor = (if has_more \<and> page \<noteq> [] then Some (k (last page)) else None)
      in (page, next_cursor))"

text \<open>A client that follows the cursor of each page until there is none.\<close>

fun follow_pages ::
  "nat \<Rightarrow> ('b option \<Rightarrow> 'a list \<times> 'b option) \<Rightarrow> 'b option \<Rightarrow> 'a list option" where
  "follow_pages 0 fetch c = None"
| "follow_pages (Suc fuel) fetch c =
     (case fetch c of
        (page, None) \<Rightarrow> Some page
      | (page, Some c') \<Rightarrow> map_option ((@) page) (follow_pages fuel fetch (Some c')))"

section \<open>InMemoryThreadRepository\<close>

definition thread_create :: "thread \<Rightarrow> thread store \<Rightarrow> (thread \<times> thread store) result" where
  "thread_create t items =
     (case dict_get items (th_id t) of
        Some existing \<Rightarrow>
          if th_workspace_id existing \<noteq> th_workspace_id t
             \<or> th_owner_user_id existing \<noteq> th_owner_user_id t
          then Inl (PermissionError ''thread id belongs to another tenant'')
          else Inr (existing, items)
      | None \<Rightarrow> Inr (t, dict_setdefault items (th_id t) t))"

definition thread_get ::
  "thread store \<Rightarrow> string \<Rightarrow> string option \<Rightarrow> string option \<Rightarrow> thread option" where
  "thread_get items tid ws owner =
     (case dict_get items tid of
        None \<Rightarrow> None
      | Some item \<Rightarrow>
          if (ws \<noteq> None \<and> Some (th_workspace_id item) \<noteq> ws)
             \<or> (owner \<noteq> None \<and> Some (th_owner_user_id item) \<noteq> owner)
          then None else Some item)"

definition thread_list_for_owner ::
  "thread store \<Rightarrow> string \<Rightarrow> string \<Rightarrow> int \<Rightarrow> thread_status option \<Rightarrow> thread list" where
  "thread_list_for_owner items ws u limit status =
     take (page_limit limit) (sorted_desc th_updated_at
       (filter (\<lambda>item. th_workspace_id item = ws \<and> th_owner_user_id item = u
                  \<and> (status = None \<or> Some (th_status item) = status)) (dict_values items)))"

definition thread_list_page ::
  "thread store \<Rightarrow> string \<Rightarrow> string \<Rightarrow> int \<Rightarrow> (moment \<times> string) option \<Rightarrow> bool
     \<Rightarrow> thread list \<times> (moment \<times> string) option" where
  "thread_list_page items ws u limit cursor include_deleted =
     keyset_page (\<lambda>item. (th_updated_at item, th_id item)) limit cursor
       (filter (\<lambda>item. th_workspace_id item = ws \<and> th_owner_user_id item = u
                  \<and> (include_deleted \<or> th_status item \<noteq> THREAD_DELETED)) (dict_values items))"

definition thread_update :: "thread \<Rightarrow> thread store \<Rightarrow> (thread \<times> thread store) result" where
  "thread_update t items =
     (case dict_get items (th_id t) of
        None \<Rightarrow> Inl (KeyError (th_id t))
      | Some existing \<Rightarrow>
          if th_workspace_id existing \<noteq> th_workspace_id t
             \<or> th_owner_user_id existing \<noteq> th_owner_user_id t
          then Inl (PermissionError ''thread tenant ownership is immutable'')
          else Inr (t, dict_set items (th_id t) t))"

section \<open>InMemoryMessageRepository\<close>

definition message_create :: "message \<Rightarrow> message store \<Rightarrow> (message \<times> message store) result" where
  "message_create m items =
     (case dict_get items (msg_id m) of
        Some existing \<Rightarrow>
          if msg_workspace_id existing \<noteq> msg_workspace_id m
          then Inl (PermissionError ''message id belongs to another workspace'')
          else Inr (existing, items)
      | None \<Rightarrow> Inr (m, dict_setdefault items (msg_id m) m))"

definition message_get :: "message store \<Rightarrow> string \<Rightarrow> string option \<Rightarrow> message option" where
  "message_get items mid ws =
     (case dict_get items mid of
        None \<Rightarrow> None
      | Some item \<Rightarrow>
          if ws \<noteq> None \<and> Some (msg_workspace_id item) \<noteq> ws then None else Some item)"

definition message_list_for_thread :: "message store \<Rightarrow> string \<Rightarrow> int \<Rightarrow> message list" where
  "message_list_for_thread items tid limit =
     rev (take (page_limit limit)
       (sorted_desc (\<lambda>item. (msg_created_at item, msg_id item))
         (filter (\<lambda>item. msg_thread_id item = tid) (dict_values items))))"

definition message_list_page ::
  "message store \<Rightarrow> string \<Rightarrow> int \<Rightarrow> (moment \<times> string) option
     \<Rightarrow> message list \<times> (moment \<times> string) option" where
  "message_list_page items tid limit cursor =
     keyset_page (\<lambda>item. (msg_created_at item, msg_id item)) limit cursor
       (filter (\<lambda>item. msg_thread_id item = tid) (dict_values items))"

definition message_update :: "message \<Rightarrow> message store \<Rightarrow> (message \<times> message store) result" where
  "message_update m items =
     (case dict_get items (msg_id m) of
        None \<Rightarrow> Inl (KeyError (msg_id m))
      | Some existing \<Rightarrow>
          if msg_workspace_id existing \<noteq> msg_workspace_id m
          then Inl (PermissionError ''message workspace ownership is immutable'')
          else Inr (m, dict_set items (msg_id m) m))"

section \<open>InMemoryArtifactRepository\<close>

definition artifact_put :: "artifact \<Rightarrow> artifact store \<Rightarrow> (artifact \<times> artifact store) result" where
  "artifact_put a items =
     result_bind (require_provenance a) (\<lambda>a'.
       case dict_get items (art_id a') of
         Some existing \<Rightarrow>
           if art_workspace_id existing \<noteq> art_workspace_id a'
           then Inl (PermissionError ''artifact id belongs to another workspace'')
           else Inr (a', dict_set items (art_id a') a')
       | None \<Rightarrow> Inr (a', dict_set items (art_id a') a'))"

definition artifact_get :: "artifact store \<Rightarrow> string \<Rightarrow> string option \<Rightarrow> artifact option" where
  "artifact_get items aid ws =
     (case dict_get items aid of
        None \<Rightarrow> None
      | Some item \<Rightarrow>
          if ws \<noteq> None \<and> Some (art_workspace_id item) \<noteq> ws then None else Some item)"

definition artifact_list_for_mission :: "artifact store \<Rightarrow> string \<Rightarrow> artifact list" where
  "artifact_list_for_mission items mid =
     filter (\<lambda>item. art_mission_id item = Some mid) (dict_values items)"

definition artifact_list_for_context :: "artifact store \<Rightarrow> string \<Rightarrow> string \<Rightarrow> artifact list" where
  "artifact_list_for_context items ws tid =
     sorted_desc art_created_at
       (filter (\<lambda>item. art_workspace_id item = ws \<and> art_thread_id item = Some tid)
         (dict_values items))"

section \<open>InMemoryAttachmentRepository\<close>

text \<open>\<^verbatim>\<open>Attachment.model_validate(attachment.model_dump())\<close> re-runs the validators.\<close>

definition attachment_create ::
  "attachment \<Rightarrow> attachment store \<Rightarrow> (attachment \<times> attachment store) result" where
  "attachment_create a items =
     result_bind (ready_requires_verified_clean_scan a) (\<lambda>a.
       case dict_get items (file_id a) of
         Some existing \<Rightarrow>
           if file_workspace_id existing \<noteq> file_workspace_id a
              \<or> file_owner_user_id existing \<noteq> file_owner_user_id a
           then Inl (PermissionError ''attachment id belongs to another tenant'')
           else Inr (existing, items)
       | None \<Rightarrow> Inr (a, dict_setdefault items (file_id a) a))"

definition attachment_get ::
  "attachment store \<Rightarrow> string \<Rightarrow> string option \<Rightarrow> string option \<Rightarrow> attachment option" where
  "attachment_get items aid ws owner =
     (case dict_get items aid of
        None \<Rightarrow> None
      | Some item \<Rightarrow>
          if (ws \<noteq> None \<and> Some (file_workspace_id item) \<noteq> ws)
             \<or> (owner \<noteq> None \<and> Some (file_owner_user_id item) \<noteq> owner)
          then None else Some item)"

definition attachment_update ::
  "attachment \<Rightarrow> attachment store \<Rightarrow> (attachment \<times> attachment store) result" where
  "attachment_update a items =
     result_bind (ready_requires_verified_clean_scan a) (\<lambda>a.
       case dict_get items (file_id a) of
         None \<Rightarrow> Inl (KeyError (file_id a))
       | Some existing \<Rightarrow>
           if file_workspace_id existing \<noteq> file_workspace_id a
              \<or> file_owner_user_id existing \<noteq> file_owner_user_id a
           then Inl (PermissionError ''attachment tenant ownership is immutable'')
           else Inr (a, dict_set items (file_id a) a))"

text \<open>
  \<^verbatim>\<open>associate_many\<close>: the whole list is checked first; one unusable attachment refuses all.
\<close>

definition associable :: "string \<Rightarrow> string \<Rightarrow> string \<Rightarrow> attachment \<Rightarrow> bool" where
  "associable tid ws owner item =
     (file_thread_id item = tid \<and> file_workspace_id item = ws \<and> file_owner_user_id item = owner
      \<and> file_status item = FILE_READY \<and> file_scan_status item = SCAN_CLEAN
      \<and> file_message_id item = None)"

definition associate_many ::
  "string list \<Rightarrow> string \<Rightarrow> string \<Rightarrow> string \<Rightarrow> string \<Rightarrow> attachment store
     \<Rightarrow> bool \<times> attachment store" where
  "associate_many attachment_ids message_id tid ws owner items =
     (let unique_ids = dedupe attachment_ids;
          attachments = map (dict_get items) unique_ids in
      if list_ex (\<lambda>x. case x of None \<Rightarrow> True | Some item \<Rightarrow> \<not> associable tid ws owner item) attachments
      then (False, items)
      else (True, foldl (\<lambda>d x. case x of None \<Rightarrow> d
              | Some item \<Rightarrow> dict_set d (file_id item) (item\<lparr>file_message_id := Some message_id\<rparr>))
              items attachments))"

text \<open>
  \<^verbatim>\<open>delete\<close> copies the record with the status text \<^verbatim>\<open>"DELETED"\<close>; a copy does not run the
  validators, and the text is the enumeration member's value.
\<close>

definition attachment_delete :: "string \<Rightarrow> attachment store \<Rightarrow> bool \<times> attachment store" where
  "attachment_delete aid items =
     (case dict_get items aid of
        None \<Rightarrow> (False, items)
      | Some item \<Rightarrow> (True, dict_set items aid (item\<lparr>file_status := FILE_DELETED\<rparr>)))"

definition attachment_list_for_thread :: "attachment store \<Rightarrow> string \<Rightarrow> attachment list" where
  "attachment_list_for_thread items tid =
     filter (\<lambda>item. file_thread_id item = tid) (dict_values items)"

section \<open>The contract of a tenant-scoped repository\<close>

text \<open>
  What every keyed repository promises its callers: \<open>create\<close> is insert-if-absent and refuses
  an identifier another tenant holds, \<open>update\<close> replaces a record of the same tenant, and
  \<open>lookup\<close> answers only the record's own tenant.
\<close>

datatype 'a repo_op = OpCreate 'a | OpUpdate 'a

fun op_record :: "'a repo_op \<Rightarrow> 'a" where
  "op_record (OpCreate x) = x"
| "op_record (OpUpdate x) = x"

text \<open>One request against a repository; a refused request leaves it unchanged.\<close>

definition repo_step ::
  "('a \<Rightarrow> 'a store \<Rightarrow> ('a \<times> 'a store) result) \<Rightarrow> ('a \<Rightarrow> 'a store \<Rightarrow> ('a \<times> 'a store) result)
     \<Rightarrow> 'a repo_op \<Rightarrow> 'a store \<Rightarrow> 'a store" where
  "repo_step create update op d =
     (case (case op of OpCreate x \<Rightarrow> create x d | OpUpdate x \<Rightarrow> update x d) of
        Inl _ \<Rightarrow> d | Inr (_, d') \<Rightarrow> d')"

fun repo_run ::
  "('a \<Rightarrow> 'a store \<Rightarrow> ('a \<times> 'a store) result) \<Rightarrow> ('a \<Rightarrow> 'a store \<Rightarrow> ('a \<times> 'a store) result)
     \<Rightarrow> 'a repo_op list \<Rightarrow> 'a store \<Rightarrow> 'a store" where
  "repo_run create update [] d = d"
| "repo_run create update (op # ops) d = repo_run create update ops (repo_step create update op d)"

locale tenant_repo =
  fixes key :: "'a \<Rightarrow> string"
    and tenant :: "'a \<Rightarrow> 't"
    and create :: "'a \<Rightarrow> 'a store \<Rightarrow> ('a \<times> 'a store) result"
    and update :: "'a \<Rightarrow> 'a store \<Rightarrow> ('a \<times> 'a store) result"
  assumes create_ok: "create x d = Inr (y, d') \<Longrightarrow>
      d' = dict_setdefault d (key x) x \<and> dict_get d' (key x) = Some y \<and> tenant y = tenant x"
    and update_ok: "update x d = Inr (y, d') \<Longrightarrow>
      y = x \<and> d' = dict_set d (key x) x \<and> (\<exists>e. dict_get d (key x) = Some e \<and> tenant e = tenant x)"
begin

lemma create_denied:
  "dict_get d (key x) = Some e \<Longrightarrow> tenant e \<noteq> tenant x \<Longrightarrow> \<exists>err. create x d = Inl err"
proof (cases "create x d")
  case (Inr r)
  moreover obtain y d' where "r = (y, d')" by (cases r)
  ultimately show "dict_get d (key x) = Some e \<Longrightarrow> tenant e \<noteq> tenant x \<Longrightarrow> ?thesis"
    by (auto dest!: create_ok)
qed auto

lemma step_cases:
  obtains "repo_step create update op d = d"
  | "repo_step create update op d = dict_setdefault d (key (op_record op)) (op_record op)"
  | e where "repo_step create update op d = dict_set d (key (op_record op)) (op_record op)"
      and "dict_get d (key (op_record op)) = Some e" and "tenant e = tenant (op_record op)"
proof (cases op)
  case (OpCreate x)
  show ?thesis
  proof (cases "create x d")
    case (Inl err)
    with OpCreate that(1) show ?thesis by (simp add: repo_step_def)
  next
    case (Inr r)
    moreover obtain y d' where "r = (y, d')" by (cases r)
    ultimately show ?thesis using OpCreate that(2) create_ok [of x d y d']
      by (simp add: repo_step_def)
  qed
next
  case (OpUpdate x)
  show ?thesis
  proof (cases "update x d")
    case (Inl err)
    with OpUpdate that(1) show ?thesis by (simp add: repo_step_def)
  next
    case (Inr r)
    moreover obtain y d' where "r = (y, d')" by (cases r)
    ultimately show ?thesis using OpUpdate that(3) update_ok [of x d y d']
      by (auto simp: repo_step_def)
  qed
qed

lemma step_keyed: "keyed key d \<Longrightarrow> keyed key (repo_step create update op d)"
  by (rule step_cases [of op d]) auto

lemma step_tenant:
  "dict_get d k = Some x \<Longrightarrow>
     \<exists>y. dict_get (repo_step create update op d) k = Some y \<and> tenant y = tenant x"
  by (rule step_cases [of op d]) auto

lemma step_others:
  "tenant (op_record op) \<noteq> t \<Longrightarrow>
     (dict_get (repo_step create update op d) k = Some x \<and> tenant x = t)
       = (dict_get d k = Some x \<and> tenant x = t)"
  by (rule step_cases [of op d]) auto

lemma run_keyed: "keyed key d \<Longrightarrow> keyed key (repo_run create update ops d)"
  by (induction ops arbitrary: d) (auto simp: step_keyed)

lemma run_tenant:
  "dict_get d k = Some x \<Longrightarrow>
     \<exists>y. dict_get (repo_run create update ops d) k = Some y \<and> tenant y = tenant x"
proof (induction ops arbitrary: d x)
  case (Cons op ops)
  from step_tenant [OF Cons.prems, of op] obtain z
    where "dict_get (repo_step create update op d) k = Some z" "tenant z = tenant x" by blast
  with Cons.IH [of "repo_step create update op d" z] show ?case by simp
qed simp

lemma run_others:
  "list_all (\<lambda>op. tenant (op_record op) \<noteq> t) ops \<Longrightarrow>
     (dict_get (repo_run create update ops d) k = Some x \<and> tenant x = t)
       = (dict_get d k = Some x \<and> tenant x = t)"
  by (induction ops arbitrary: d) (auto simp: step_others)

end

text \<open>With a lookup that answers by tenant, other tenants' requests are invisible.\<close>

locale scoped_repo = tenant_repo +
  fixes lookup :: "'a store \<Rightarrow> string \<Rightarrow> 't \<Rightarrow> 'a option"
  assumes lookup_iff: "lookup d k t = Some x \<longleftrightarrow> dict_get d k = Some x \<and> tenant x = t"
begin

lemma lookup_cong:
  "(\<And>x. (dict_get d k = Some x \<and> tenant x = t) = (dict_get d' k = Some x \<and> tenant x = t)) \<Longrightarrow>
     lookup d k t = lookup d' k t"
  by (metis lookup_iff not_None_eq)

lemma write_others:
  assumes "create x d = Inr (y, d') \<or> update x d = Inr (y, d')" "tenant x \<noteq> t"
  shows "lookup d' k t = lookup d k t"
proof -
  from assms(1) obtain op where "repo_step create update op d = d'" "op_record op = x"
  proof (elim disjE)
    assume "create x d = Inr (y, d')"
    then show thesis using that [of "OpCreate x"] by (simp add: repo_step_def)
  next
    assume "update x d = Inr (y, d')"
    then show thesis using that [of "OpUpdate x"] by (simp add: repo_step_def)
  qed
  with step_others [of op t d k] assms(2) show ?thesis by (intro lookup_cong) auto
qed

lemma noninterference:
  "list_all (\<lambda>op. tenant (op_record op) \<noteq> t) ops \<Longrightarrow>
     lookup (repo_run create update ops d) k t = lookup d k t"
  by (rule lookup_cong) (rule run_others)

end

section \<open>The repositories keep the contract\<close>

abbreviation thread_tenant :: "thread \<Rightarrow> string \<times> string" where
  "thread_tenant t \<equiv> (th_workspace_id t, th_owner_user_id t)"

abbreviation attachment_tenant :: "attachment \<Rightarrow> string \<times> string" where
  "attachment_tenant a \<equiv> (file_workspace_id a, file_owner_user_id a)"

lemma ready_requires_Inr: "ready_requires_verified_clean_scan a = Inr b \<Longrightarrow> b = a"
  by (auto simp: ready_requires_verified_clean_scan_def split: if_splits)

lemma dict_setdefault_present: "dict_get d k = Some v \<Longrightarrow> dict_setdefault d k w = d"
  by (simp add: dict_setdefault_def)

lemmas repo_defs =
  thread_create_def thread_update_def thread_get_def
  message_create_def message_update_def message_get_def
  attachment_create_def attachment_update_def attachment_get_def

interpretation threads: scoped_repo th_id thread_tenant thread_create thread_update
  "\<lambda>d k t. thread_get d k (Some (fst t)) (Some (snd t))"
  by unfold_locales
    (auto simp: repo_defs dict_setdefault_present split: option.splits if_splits)

interpretation messages: scoped_repo msg_id msg_workspace_id message_create message_update
  "\<lambda>d k t. message_get d k (Some t)"
  by unfold_locales
    (auto simp: repo_defs dict_setdefault_present split: option.splits if_splits)

lemma attachment_create_Inr:
  "attachment_create a d = Inr (y, d') \<Longrightarrow>
     d' = dict_setdefault d (file_id a) a \<and> dict_get d' (file_id a) = Some y
       \<and> attachment_tenant y = attachment_tenant a"
  by (cases "ready_requires_verified_clean_scan a")
    (auto simp: attachment_create_def dict_setdefault_present
       dest: ready_requires_Inr split: option.splits if_splits)

lemma attachment_update_Inr:
  "attachment_update a d = Inr (y, d') \<Longrightarrow>
     y = a \<and> d' = dict_set d (file_id a) a
       \<and> (\<exists>e. dict_get d (file_id a) = Some e \<and> attachment_tenant e = attachment_tenant a)"
  by (cases "ready_requires_verified_clean_scan a")
    (auto simp: attachment_update_def
       dest: ready_requires_Inr split: option.splits if_splits)

interpretation attachments: scoped_repo file_id attachment_tenant attachment_create attachment_update
  "\<lambda>d k t. attachment_get d k (Some (fst t)) (Some (snd t))"
proof unfold_locales
  fix x d y d'
  assume "attachment_create x d = Inr (y, d')"
  then show "d' = dict_setdefault d (file_id x) x \<and> dict_get d' (file_id x) = Some y
      \<and> attachment_tenant y = attachment_tenant x"
    by (rule attachment_create_Inr)
next
  fix x d y d'
  assume "attachment_update x d = Inr (y, d')"
  then show "y = x \<and> d' = dict_set d (file_id x) x
      \<and> (\<exists>e. dict_get d (file_id x) = Some e \<and> attachment_tenant e = attachment_tenant x)"
    by (rule attachment_update_Inr)
qed (auto simp: attachment_get_def split: option.splits if_splits)

section \<open>Pages partition the sorted list\<close>

lemma sorted_desc_filter: "sorted_desc k (filter P xs) = filter P (sorted_desc k xs)"
  by (simp add: sorted_desc_def rev_filter [symmetric] filter_sort)

lemma sorted_desc_strict:
  assumes "distinct (map k xs)"
  shows "sorted_wrt (\<lambda>x y. k y < k x) (sorted_desc k xs)"
proof -
  let ?Y = "sorted_desc k xs"
  from assms have "distinct (map k ?Y)"
    by (metis distinct_map distinct_sorted_desc set_sorted_desc)
  then have "sorted_wrt (\<lambda>x y. k y \<le> k x \<and> k x \<noteq> k y) ?Y"
    using sorted_desc_sorted [of k xs] by (auto simp: sorted_wrt_iff_nth_less distinct_conv_nth)
  then show ?thesis by (rule sorted_wrt_mono_rel [rotated]) auto
qed

lemma filter_below_nth:
  assumes "sorted_wrt (\<lambda>x y. k y < (k x :: 'b::linorder)) Y" and "i < length Y"
  shows "filter (\<lambda>x. k x < k (Y ! i)) Y = drop (Suc i) Y"
proof -
  have Y: "Y = take i Y @ Y ! i # drop (Suc i) Y"
    using assms(2) by (rule id_take_nth_drop)
  from assms(1) have s: "sorted_wrt (\<lambda>x y. k y < k x) (take i Y @ Y ! i # drop (Suc i) Y)"
    using Y by simp
  have "filter (\<lambda>x. k x < k (Y ! i)) (take i Y) = []"
    using s by (force simp: filter_empty_conv sorted_wrt_append)
  moreover have "filter (\<lambda>x. k x < k (Y ! i)) (drop (Suc i) Y) = drop (Suc i) Y"
    using s by (simp add: filter_id_conv sorted_wrt_append)
  ultimately have "filter (\<lambda>x. k x < k (Y ! i)) (take i Y @ Y ! i # drop (Suc i) Y)
      = drop (Suc i) Y"
    by simp
  then show ?thesis using Y by simp
qed

lemma keyset_page_eq:
  "keyset_page k limit c xs =
    (let ys = sorted_desc k (filter (below k c) xs); L = page_limit limit in
     (take L ys, if length ys > L then Some (k (ys ! (L - 1))) else None))"
proof -
  have "last (take L ys) = ys ! (L - 1)" if "length ys > L" "0 < L" for L and ys :: "'a list"
    using that by (subst last_conv_nth) auto
  moreover have "take L ys \<noteq> []" if "length ys > L" "0 < L" for L and ys :: "'a list"
    using that by auto
  ultimately show ?thesis
    using page_limit_pos [of limit]
    by (simp add: keyset_page_def Let_def min_def del: page_limit_pos)
qed

lemma keyset_page_drop:
  assumes "filter (below k c) (sorted_desc k xs) = drop n (sorted_desc k xs)"
  shows "keyset_page k limit c xs =
    (take (page_limit limit) (drop n (sorted_desc k xs)),
     if length (sorted_desc k xs) - n > page_limit limit
     then Some (k (sorted_desc k xs ! (n + page_limit limit - 1))) else None)"
  using assms page_limit_pos [of limit]
  by (simp add: keyset_page_eq sorted_desc_filter Let_def del: page_limit_pos length_sorted_desc)

lemma follow_keyset_pages:
  assumes strict: "distinct (map k xs)"
    and here: "filter (below k c) (sorted_desc k xs) = drop n (sorted_desc k xs)"
    and fuel: "length xs - n < fuel"
  shows "follow_pages fuel (\<lambda>c. keyset_page k limit c xs) c = Some (drop n (sorted_desc k xs))"
  using here fuel
proof (induction fuel arbitrary: c n)
  case (Suc fuel)
  let ?Y = "sorted_desc k xs" and ?L = "page_limit limit"
  note page = keyset_page_drop [OF Suc.prems(1), of limit]
  show ?case
  proof (cases "length ?Y - n > ?L")
    case False
    then show ?thesis using page by (simp del: length_sorted_desc)
  next
    case True
    let ?c = "Some (k (?Y ! (n + ?L - 1)))"
    have "filter (below k ?c) ?Y = drop (n + ?L) ?Y"
      using filter_below_nth [OF sorted_desc_strict [OF strict], of "n + ?L - 1"]
        True page_limit_pos [of limit]
      by (simp add: below_def [abs_def] del: length_sorted_desc page_limit_pos)
    moreover have "length xs - (n + ?L) < fuel"
      using Suc.prems(2) True page_limit_pos [of limit] by (simp del: page_limit_pos)
    ultimately have "follow_pages fuel (\<lambda>c. keyset_page k limit c xs) ?c = Some (drop (n + ?L) ?Y)"
      by (rule Suc.IH)
    then show ?thesis
      using page True append_take_drop_id [of ?L "drop n ?Y"] by (simp add: add.commute)
  qed
qed simp

lemma distinct_pair_key: "distinct (map g xs) \<Longrightarrow> distinct (map (\<lambda>x. (f x, g x)) xs)"
  by (auto simp: distinct_map inj_on_def)

lemma keyed_filter_distinct:
  "keyed key d \<Longrightarrow> distinct (map key (filter P (dict_values d)))"
  by (drule keyed_distinct_values) (simp add: distinct_map_filter)

text \<open>
  Following the cursors of \<^verbatim>\<open>InMemoryThreadRepository.list_page\<close> from the first page
  enumerates exactly the owner's visible threads, newest first, none twice and none missing,
  whatever the page size; the walk ends after at most as many pages as there are records.
\<close>

theorem thread_pages_enumerate_all:
  assumes "keyed th_id items" and "length items < fuel"
  shows "follow_pages fuel (\<lambda>c. thread_list_page items ws u limit c include_deleted) None =
    Some (sorted_desc (\<lambda>t. (th_updated_at t, th_id t))
      (filter (\<lambda>t. th_workspace_id t = ws \<and> th_owner_user_id t = u
                 \<and> (include_deleted \<or> th_status t \<noteq> THREAD_DELETED)) (dict_values items)))"
  (is "_ = Some (sorted_desc ?k ?xs)")
proof -
  have "distinct (map ?k ?xs)"
    using assms(1) by (intro distinct_pair_key keyed_filter_distinct)
  moreover have "length ?xs < fuel"
    using assms(2) by (rule le_less_trans [rotated]) (simp add: le_trans [OF length_filter_le])
  ultimately show ?thesis
    using follow_keyset_pages [of ?k ?xs None 0 fuel limit]
    by (simp add: thread_list_page_def below_def [abs_def])
qed

section \<open>Association of attachments\<close>

lemma foldl_associate:
  assumes "keyed file_id d" and "list_all (\<lambda>i. \<exists>a. dict_get d0 i = Some a \<and> file_id a = i) ids"
  shows "dict_get (foldl (\<lambda>d x. case x of None \<Rightarrow> d
              | Some item \<Rightarrow> dict_set d (file_id item) (item\<lparr>file_message_id := Some m\<rparr>))
              d (map (dict_get d0) ids)) k =
    (if k \<in> set ids then map_option (\<lambda>a. a\<lparr>file_message_id := Some m\<rparr>) (dict_get d0 k)
     else dict_get d k)"
  using assms
proof (induction ids arbitrary: d)
  case (Cons i ids)
  from Cons.prems(2) obtain a where a: "dict_get d0 i = Some a" "file_id a = i" by auto
  let ?d = "dict_set d i (a\<lparr>file_message_id := Some m\<rparr>)"
  have "keyed file_id ?d" using Cons.prems(1) a by simp
  from Cons.IH [OF this] Cons.prems(2) a show ?case by auto
qed simp

lemma associate_many_False:
  "fst (associate_many ids m tid ws owner d) = False \<Longrightarrow>
     snd (associate_many ids m tid ws owner d) = d"
  by (auto simp: associate_many_def Let_def split: if_splits)

lemma associate_many_True_pre:
  "fst (associate_many ids m tid ws owner d) \<Longrightarrow> i \<in> set ids \<Longrightarrow>
     \<exists>a. dict_get d i = Some a \<and> associable tid ws owner a"
  by (fastforce simp: associate_many_def Let_def list_ex_iff split: if_splits option.splits)

text \<open>
  \<^verbatim>\<open>associate_many\<close> is all or nothing and never steals: when it reports success every
  listed attachment was a ready, clean, unattached file of that thread and tenant and now
  carries exactly the given message, and no other attachment changed; when it reports failure
  nothing changed.
\<close>

theorem associate_many_atomic:
  assumes "keyed file_id d" and "associate_many ids m tid ws owner d = (ok, d')"
  shows "(ok \<longrightarrow> (\<forall>i \<in> set ids. \<exists>a. dict_get d i = Some a \<and> associable tid ws owner a)) \<and>
    dict_get d' k = (if ok \<and> k \<in> set ids
      then map_option (\<lambda>a. a\<lparr>file_message_id := Some m\<rparr>) (dict_get d k) else dict_get d k)"
proof (cases ok)
  case False
  with assms(2) associate_many_False [of ids m tid ws owner d] show ?thesis by simp
next
  case True
  with assms(2) have pre: "\<exists>a. dict_get d i = Some a \<and> associable tid ws owner a"
    if "i \<in> set ids" for i
    using associate_many_True_pre [of ids m tid ws owner d i] that by simp
  then have "list_all (\<lambda>i. \<exists>a. dict_get d i = Some a \<and> file_id a = i) (dedupe ids)"
    using keyed_get [OF assms(1)] by (fastforce simp: list_all_iff)
  from foldl_associate [OF assms(1) this, of m k] True assms(2) pre show ?thesis
    by (auto simp: associate_many_def Let_def split: if_splits)
qed

section \<open>Tenant isolation and durable evidence\<close>

text \<open>
  Tenant isolation of threads: whatever sequence of create and update requests other
  tenants issue (accepted or refused), a tenant's scoped read of any thread identifier returns
  what it returned before, and a thread never changes its tenant.
\<close>

theorem thread_tenant_isolation:
  assumes "list_all (\<lambda>op. thread_tenant (op_record op) \<noteq> (ws, u)) ops"
  shows "thread_get (repo_run thread_create thread_update ops d) k (Some ws) (Some u)
      = thread_get d k (Some ws) (Some u)
    \<and> (\<forall>t. dict_get d k = Some t \<longrightarrow>
        (\<exists>t'. dict_get (repo_run thread_create thread_update ops d) k = Some t'
             \<and> thread_tenant t' = thread_tenant t))"
  using threads.noninterference [of "(ws, u)" ops d k, OF assms] threads.run_tenant [of d k _ ops]
  by simp

definition sample_thread :: "string \<Rightarrow> string \<Rightarrow> moment \<Rightarrow> thread" where
  "sample_thread i u upd = \<lparr>th_id = i, th_workspace_id = ''w'', th_owner_user_id = u,
     th_project_id = None, th_title = None, th_status = THREAD_ACTIVE, th_metadata = [],
     th_created_at = 0, th_updated_at = upd, th_deleted_at = None\<rparr>"

theorem thread_tenant_isolation_witness:
  "thread_get (repo_run thread_create thread_update
      [OpCreate (sample_thread ''t1'' ''mallory'' 5), OpUpdate (sample_thread ''t1'' ''mallory'' 6)]
      [(''t1'', sample_thread ''t1'' ''alice'' 1)]) ''t1'' (Some ''w'') (Some ''alice'')
    = Some (sample_thread ''t1'' ''alice'' 1)"
proof -
  let ?ops = "[OpCreate (sample_thread ''t1'' ''mallory'' 5),
      OpUpdate (sample_thread ''t1'' ''mallory'' 6)]"
  have "list_all (\<lambda>op. thread_tenant (op_record op) \<noteq> (''w'', ''alice'')) ?ops"
    by (simp add: sample_thread_def)
  from thread_tenant_isolation [OF this, of "[(''t1'', sample_thread ''t1'' ''alice'' 1)]" "''t1''"]
  show ?thesis by (simp add: thread_get_def sample_thread_def)
qed

theorem thread_pages_enumerate_all_witness:
  "follow_pages 3 (\<lambda>c. thread_list_page
      [(''a'', sample_thread ''a'' ''u'' 1), (''b'', sample_thread ''b'' ''u'' 2)]
      ''w'' ''u'' 1 c False) None
    = Some [sample_thread ''b'' ''u'' 2, sample_thread ''a'' ''u'' 1]"
proof -
  let ?d = "[(''a'', sample_thread ''a'' ''u'' 1), (''b'', sample_thread ''b'' ''u'' 2)]"
  have "keyed th_id ?d" "length ?d < 3"
    by (simp_all add: keyed_def dict_wf_def sample_thread_def)
  from thread_pages_enumerate_all [OF this, of "''w''" "''u''" 1 False] show ?thesis
    by (simp add: sorted_desc_def sample_thread_def)
qed

definition sample_attachment :: "string \<Rightarrow> attachment_scan_status \<Rightarrow> attachment" where
  "sample_attachment i scan = \<lparr>file_id = i, file_thread_id = ''t'', file_workspace_id = ''w'',
     file_owner_user_id = ''u'', file_message_id = None, file_filename = ''f'',
     file_content_type = ''text/plain'', file_size_bytes = 1, file_storage_uri = Some ''s3'',
     file_checksum_sha256 = Some (replicate 64 CHR ''a''), file_status = FILE_READY,
     file_scan_status = scan, file_scan_detail = [], file_created_at = 0\<rparr>"

theorem associate_many_atomic_witness:
  "fst (associate_many [''f1'', ''f1''] ''m'' ''t'' ''w'' ''u'' [(''f1'', sample_attachment ''f1'' SCAN_CLEAN)])
    \<and> dict_get (snd (associate_many [''f1'', ''f1''] ''m'' ''t'' ''w'' ''u''
        [(''f1'', sample_attachment ''f1'' SCAN_CLEAN)])) ''f1''
      = Some ((sample_attachment ''f1'' SCAN_CLEAN)\<lparr>file_message_id := Some ''m''\<rparr>)"
proof -
  let ?d = "[(''f1'', sample_attachment ''f1'' SCAN_CLEAN)]"
  let ?r = "associate_many [''f1'', ''f1''] ''m'' ''t'' ''w'' ''u'' ?d"
  have "keyed file_id ?d" by (simp add: keyed_def dict_wf_def sample_attachment_def)
  moreover have "fst ?r"
    by (simp add: associate_many_def associable_def sample_attachment_def dedupe_def)
  then obtain d' where r: "?r = (True, d')" by (cases ?r) simp
  ultimately have "dict_get d' ''f1'' =
      Some ((sample_attachment ''f1'' SCAN_CLEAN)\<lparr>file_message_id := Some ''m''\<rparr>)"
    using associate_many_atomic [of ?d "[''f1'', ''f1'']" "''m''" "''t''" "''w''" "''u''" True
        d' "''f1''"]
    by simp
  with r show ?thesis by simp
qed

text \<open>
  The artifact store: every record is under its own identifier, and every record that is not
  a UI envelope carries evidence that agrees with its provenance.
\<close>

definition artifact_store_ok :: "artifact store \<Rightarrow> bool" where
  "artifact_store_ok d = (keyed art_id d \<and>
     list_all (\<lambda>kv. art_classification (snd kv) \<noteq> Ui \<longrightarrow>
        art_evidence_ids (snd kv) \<noteq> [] \<and> distinct (art_evidence_ids (snd kv))
        \<and> prov_evidence_ids (art_provenance (snd kv)) = art_evidence_ids (snd kv)
        \<and> (art_classification (snd kv) = Derived \<longrightarrow> any_version (art_provenance (snd kv)))) d)"

lemma require_provenance_keeps:
  "require_provenance a = Inr b \<Longrightarrow> art_id b = art_id a \<and> art_workspace_id b = art_workspace_id a
     \<and> art_classification b = art_classification a"
  by (auto simp: require_provenance_def Let_def split: if_splits)

lemma require_provenance_evidence:
  "require_provenance a = Inr b \<Longrightarrow> art_classification b \<noteq> Ui \<longrightarrow>
     art_evidence_ids b \<noteq> [] \<and> distinct (art_evidence_ids b)
     \<and> prov_evidence_ids (art_provenance b) = art_evidence_ids b
     \<and> (art_classification b = Derived \<longrightarrow> any_version (art_provenance b))"
  using require_provenance_keeps [of a b] require_provenance_Inr [of a b]
  by (auto simp: all_evidence_ids_def)

lemma artifact_put_Inr:
  assumes "artifact_put a d = Inr (b, d')"
  shows "require_provenance a = Inr b \<and> d' = dict_set d (art_id b) b
    \<and> (\<forall>e. dict_get d (art_id b) = Some e \<longrightarrow> art_workspace_id e = art_workspace_id b)"
  using assms
  by (cases "require_provenance a") (auto simp: artifact_put_def split: option.splits if_splits)

text \<open>
  Durable evidence: a successful \<^verbatim>\<open>InMemoryArtifactRepository.put\<close> keeps the store's
  invariant (no factual or derived artifact without agreeing, non-empty evidence), makes the
  artifact readable in its workspace, never moves an identifier to another workspace and
  leaves every other artifact alone.
\<close>

theorem artifact_put_keeps_evidence:
  assumes "artifact_store_ok d" and "artifact_put a d = Inr (b, d')"
  shows "artifact_store_ok d' \<and> artifact_get d' (art_id a) (Some (art_workspace_id a)) = Some b
    \<and> (\<forall>k e. dict_get d k = Some e \<longrightarrow>
        (\<exists>e'. dict_get d' k = Some e' \<and> art_workspace_id e' = art_workspace_id e
              \<and> (k \<noteq> art_id a \<longrightarrow> e' = e)))"
proof -
  note put = artifact_put_Inr [OF assms(2)]
  then have keep: "art_id b = art_id a" "art_workspace_id b = art_workspace_id a"
    using require_provenance_keeps by auto
  have "list_all (\<lambda>kv. art_classification (snd kv) \<noteq> Ui \<longrightarrow>
        art_evidence_ids (snd kv) \<noteq> [] \<and> distinct (art_evidence_ids (snd kv))
        \<and> prov_evidence_ids (art_provenance (snd kv)) = art_evidence_ids (snd kv)
        \<and> (art_classification (snd kv) = Derived \<longrightarrow> any_version (art_provenance (snd kv)))) d'"
    using assms(1) put require_provenance_evidence [of a b] set_dict_set [of d "art_id b" b]
    by (fastforce simp: artifact_store_ok_def list_all_iff)
  with assms(1) put have "artifact_store_ok d'"
    by (simp add: artifact_store_ok_def)
  with put keep show ?thesis by (auto simp: artifact_get_def)
qed

theorem artifact_put_keeps_evidence_witness:
  "\<exists>b d'. artifact_put sample_artifact [] = Inr (b, d') \<and> artifact_store_ok d'
     \<and> artifact_get d' ''a1'' (Some ''w'') = Some b"
proof -
  obtain b where "require_provenance sample_artifact = Inr b"
    by (auto simp: require_provenance_def all_evidence_ids_def sample_artifact_def Let_def
        sample_provenance_def any_version_def dedupe_def)
  then have put: "artifact_put sample_artifact [] = Inr (b, dict_set [] (art_id b) b)"
    by (simp add: artifact_put_def)
  have "artifact_store_ok []" by (simp add: artifact_store_ok_def)
  from artifact_put_keeps_evidence [OF this put] put show ?thesis
    by (auto simp: sample_artifact_def)
qed

end
