(* ===== verification/Run_Store.thy ===== *)
theory Run_Store
  imports Repositories
begin

text \<open>
  \<^verbatim>\<open>InMemoryRunRepository\<close> of \<^verbatim>\<open>src/seleric_swarm/conversations/memory.py\<close>: runs, their
  attempts with lease and fencing version, the per-run event logs with their two sequence
  numbers, and the outbox. Every method holds the repository's lock from its first read to its
  last write, so each is one atomic function of the state. A clock reading a method makes is
  its argument (\<open>now\<close>, and \<open>clock\<close> for the default creation time of a record it builds).
\<close>

section \<open>State\<close>

record run_store =
  rs_items :: "run store"
  rs_attempts :: "run_attempt store"
  rs_events :: "(string, activity_event list) dict"
  rs_outbox :: "(string, bool) dict"

definition empty_run_store :: run_store where
  "empty_run_store = \<lparr>rs_items = [], rs_attempts = [], rs_events = [], rs_outbox = []\<rparr>"

section \<open>Runs\<close>

definition run_create :: "run \<Rightarrow> run store \<Rightarrow> (run \<times> run store) result" where
  "run_create r items =
     (case dict_get items (run_id r) of
        Some existing \<Rightarrow>
          if run_workspace_id existing \<noteq> run_workspace_id r
             \<or> run_requested_by_user_id existing \<noteq> run_requested_by_user_id r
          then Inl (PermissionError ''run id belongs to another tenant'')
          else Inr (existing, items)
      | None \<Rightarrow> Inr (r, dict_setdefault items (run_id r) r))"

definition run_get :: "run store \<Rightarrow> string \<Rightarrow> string option \<Rightarrow> string option \<Rightarrow> run option" where
  "run_get items rid ws owner =
     (case dict_get items rid of
        None \<Rightarrow> None
      | Some item \<Rightarrow>
          if (ws \<noteq> None \<and> Some (run_workspace_id item) \<noteq> ws)
             \<or> (owner \<noteq> None \<and> Some (run_requested_by_user_id item) \<noteq> owner)
          then None else Some item)"

definition run_update :: "run \<Rightarrow> run store \<Rightarrow> (run \<times> run store) result" where
  "run_update r items =
     (case dict_get items (run_id r) of
        None \<Rightarrow> Inl (KeyError (run_id r))
      | Some existing \<Rightarrow>
          if run_workspace_id existing \<noteq> run_workspace_id r
             \<or> run_requested_by_user_id existing \<noteq> run_requested_by_user_id r
          then Inl (PermissionError ''run tenant ownership is immutable'')
          else Inr (r, dict_set items (run_id r) r))"

definition compare_and_set_status ::
  "string \<Rightarrow> run_status set \<Rightarrow> run_status \<Rightarrow> moment \<Rightarrow> run_store \<Rightarrow> run option \<times> run_store" where
  "compare_and_set_status rid expected_statuses new_status now rs =
     (case dict_get (rs_items rs) rid of
        None \<Rightarrow> (None, rs)
      | Some r \<Rightarrow>
          if run_status r \<notin> expected_statuses then (None, rs)
          else let terminal = run_terminal new_status;
                   updated = r\<lparr>run_status := new_status,
                     run_started_at := (if new_status = RUNNING
                        then (case run_started_at r of None \<Rightarrow> Some now | Some s \<Rightarrow> Some s)
                        else run_started_at r),
                     run_completed_at := (if terminal then Some now else None),
                     run_next_retry_at := (if terminal then None else run_next_retry_at r)\<rparr>
               in (Some updated, rs\<lparr>rs_items := dict_set (rs_items rs) rid updated\<rparr>))"

definition run_list_for_owner :: "run store \<Rightarrow> string \<Rightarrow> string \<Rightarrow> int \<Rightarrow> run list" where
  "run_list_for_owner items ws u limit =
     take (page_limit limit) (sorted_desc run_created_at
       (filter (\<lambda>item. run_workspace_id item = ws \<and> run_requested_by_user_id item = u)
         (dict_values items)))"

section \<open>Attempts\<close>

definition add_attempt :: "run_attempt \<Rightarrow> run_store \<Rightarrow> run_store" where
  "add_attempt a rs = rs\<lparr>rs_attempts := dict_setdefault (rs_attempts rs) (att_id a) a\<rparr>"

definition update_attempt :: "run_attempt \<Rightarrow> run_store \<Rightarrow> run_store result" where
  "update_attempt a rs =
     (case dict_get (rs_attempts rs) (att_id a) of
        None \<Rightarrow> Inl (KeyError (att_id a))
      | Some _ \<Rightarrow> Inr (rs\<lparr>rs_attempts := dict_set (rs_attempts rs) (att_id a) a\<rparr>))"

definition claimable :: "moment \<Rightarrow> run_attempt \<Rightarrow> bool" where
  "claimable now a = (att_status a = ATT_RETRYABLE \<or>
     (att_status a = ATT_RUNNING \<and>
      (att_worker_id a = None \<or>
       (case att_lease_expires_at a of None \<Rightarrow> True | Some l \<Rightarrow> l \<le> now))))"

definition claim ::
  "string \<Rightarrow> string \<Rightarrow> rat \<Rightarrow> moment \<Rightarrow> run_store \<Rightarrow> run_attempt option \<times> run_store" where
  "claim rid worker lease_seconds now rs =
     (case sorted_desc att_number
             (filter (\<lambda>a. att_run_id a = rid) (dict_values (rs_attempts rs))) of
        [] \<Rightarrow> (None, rs)
      | a # _ \<Rightarrow>
          if \<not> claimable now a then (None, rs)
          else let claimed = a\<lparr>att_status := ATT_RUNNING, att_worker_id := Some worker,
                     att_heartbeat_at := Some now,
                     att_lease_expires_at := Some (now + timedelta_seconds lease_seconds),
                     att_version := att_version a + 1\<rparr>
               in (Some claimed,
                   rs\<lparr>rs_attempts := dict_set (rs_attempts rs) (att_id a) claimed\<rparr>))"

definition heartbeat ::
  "string \<Rightarrow> string \<Rightarrow> rat \<Rightarrow> nat option \<Rightarrow> moment \<Rightarrow> run_store \<Rightarrow> bool \<times> run_store" where
  "heartbeat aid worker lease_seconds expected_version now rs =
     (case dict_get (rs_attempts rs) aid of
        None \<Rightarrow> (False, rs)
      | Some a \<Rightarrow>
          if att_status a \<noteq> ATT_RUNNING
             \<or> att_worker_id a \<noteq> Some worker
             \<or> (case expected_version of None \<Rightarrow> False | Some v \<Rightarrow> att_version a \<noteq> v)
             \<or> (case att_lease_expires_at a of None \<Rightarrow> False | Some l \<Rightarrow> l \<le> now)
          then (False, rs)
          else (True, rs\<lparr>rs_attempts := dict_set (rs_attempts rs) aid
                 (a\<lparr>att_heartbeat_at := Some now,
                    att_lease_expires_at := Some (now + timedelta_seconds lease_seconds)\<rparr>)\<rparr>))"

text \<open>
  \<^verbatim>\<open>lease_expired_before\<close>: with a bound given, the attempt must hold a lease and it must have
  run out by then.
\<close>

definition lease_not_expired :: "moment option \<Rightarrow> run_attempt \<Rightarrow> bool" where
  "lease_not_expired bound a =
     (case bound of None \<Rightarrow> False
      | Some b \<Rightarrow> (case att_lease_expires_at a of None \<Rightarrow> True | Some l \<Rightarrow> b < l))"

definition compare_and_set_attempt ::
  "string \<Rightarrow> run_attempt_status \<Rightarrow> run_attempt_status \<Rightarrow> string option \<Rightarrow> nat option
     \<Rightarrow> moment option \<Rightarrow> moment \<Rightarrow> string option \<Rightarrow> string option
     \<Rightarrow> run_store \<Rightarrow> run_attempt option \<times> run_store" where
  "compare_and_set_attempt aid expected_status new_status worker expected_version
      lease_expired_before now error_code error_message rs =
     (case dict_get (rs_attempts rs) aid of
        None \<Rightarrow> (None, rs)
      | Some a \<Rightarrow>
          if att_status a \<noteq> expected_status then (None, rs)
          else if worker \<noteq> None \<and> att_worker_id a \<noteq> worker then (None, rs)
          else if (case expected_version of None \<Rightarrow> False | Some v \<Rightarrow> att_version a \<noteq> v)
          then (None, rs)
          else if lease_not_expired lease_expired_before a then (None, rs)
          else let updated = a\<lparr>att_status := new_status, att_error_code := error_code,
                     att_error_message := error_message,
                     att_completed_at := (if attempt_terminal new_status then Some now else None),
                     att_lease_expires_at := None, att_version := att_version a + 1\<rparr>
               in (Some updated,
                   rs\<lparr>rs_attempts := dict_set (rs_attempts rs) aid updated\<rparr>))"

section \<open>Event logs\<close>

definition run_events :: "run_store \<Rightarrow> string \<Rightarrow> activity_event list" where
  "run_events rs rid = (case dict_get (rs_events rs) rid of None \<Rightarrow> [] | Some es \<Rightarrow> es)"

definition last_sequence :: "activity_event list \<Rightarrow> nat" where
  "last_sequence es = (if es = [] then 0 else ev_sequence (last es))"

definition max_thread_sequence :: "run_store \<Rightarrow> string \<Rightarrow> nat" where
  "max_thread_sequence rs tid =
     max_default (map ev_thread_sequence
       (filter (\<lambda>e. ev_thread_id e = tid) (concat (dict_values (rs_events rs)))))"

text \<open>\<^verbatim>\<open>self._events.setdefault(run_id, []).append(event)\<close>\<close>

definition push_event :: "string \<Rightarrow> activity_event \<Rightarrow> run_store \<Rightarrow> run_store" where
  "push_event rid e rs = rs\<lparr>rs_events := dict_set (rs_events rs) rid (run_events rs rid @ [e])\<rparr>"

definition touch_events :: "string \<Rightarrow> run_store \<Rightarrow> run_store" where
  "touch_events rid rs = rs\<lparr>rs_events := dict_setdefault (rs_events rs) rid []\<rparr>"

text \<open>\<^verbatim>\<open>if run_id in self._outbox: self._outbox[run_id] = True\<close>\<close>

definition mark_outbox_published :: "string \<Rightarrow> run_store \<Rightarrow> run_store" where
  "mark_outbox_published rid rs =
     (case dict_get (rs_outbox rs) rid of
        None \<Rightarrow> rs
      | Some _ \<Rightarrow> rs\<lparr>rs_outbox := dict_set (rs_outbox rs) rid True\<rparr>)"

definition add_outbox :: "string \<Rightarrow> run_store \<Rightarrow> run_store" where
  "add_outbox rid rs = rs\<lparr>rs_outbox := dict_setdefault (rs_outbox rs) rid False\<rparr>"

definition list_pending_outbox :: "run_store \<Rightarrow> int \<Rightarrow> string list" where
  "list_pending_outbox rs limit =
     take (page_limit limit) (map fst (filter (\<lambda>kv. \<not> snd kv) (rs_outbox rs)))"

definition append_event :: "activity_event \<Rightarrow> run_store \<Rightarrow> (activity_event \<times> run_store) result" where
  "append_event e rs =
     (let rid = (case ev_run_id e of None \<Rightarrow> [] | Some r \<Rightarrow> r);
          rs = touch_events rid rs;
          events = run_events rs rid in
      case find (\<lambda>x. ev_id x = ev_id e) events of
        Some existing \<Rightarrow> Inr (existing, rs)
      | None \<Rightarrow>
          if ev_sequence e \<noteq> 0 \<and> ev_sequence e \<le> last_sequence events
          then Inl (ValueError ''event sequence must be strictly monotonic'')
          else let sequenced = (if ev_sequence e = 0
                     then e\<lparr>ev_sequence := last_sequence events + 1\<rparr> else e);
                   stamped = sequenced\<lparr>ev_thread_sequence :=
                     max_thread_sequence rs (ev_thread_id e) + 1\<rparr>
               in Inr (stamped, push_event rid stamped rs))"

definition list_events :: "run_store \<Rightarrow> string \<Rightarrow> nat \<Rightarrow> activity_event list" where
  "list_events rs rid after_sequence =
     filter (\<lambda>e. ev_sequence e > after_sequence) (run_events rs rid)"

definition list_thread_events :: "run_store \<Rightarrow> string \<Rightarrow> nat \<Rightarrow> activity_event list" where
  "list_thread_events rs tid after_sequence =
     sort_key ev_thread_sequence
       (filter (\<lambda>e. ev_thread_id e = tid \<and> ev_thread_sequence e > after_sequence)
         (concat (dict_values (rs_events rs))))"

section \<open>Terminal transitions\<close>

definition terminal_event_type :: "run_status \<Rightarrow> string" where
  "terminal_event_type s =
     (if s = COMPLETED then ''run.completed''
      else if s = CANCELLED then ''run.cancelled'' else ''run.failed'')"

definition terminal_attempt_status :: "run_status \<Rightarrow> run_attempt_status" where
  "terminal_attempt_status s =
     (if s = COMPLETED then ATT_COMPLETED
      else if s = CANCELLED then ATT_CANCELLED else ATT_FAILED)"

definition finalize_attempt ::
  "string \<Rightarrow> string \<Rightarrow> nat \<Rightarrow> run_status \<Rightarrow> activity_event \<Rightarrow> moment \<Rightarrow> string option
     \<Rightarrow> string option \<Rightarrow> run_store \<Rightarrow> (run \<times> run_attempt \<times> activity_event) option \<times> run_store" where
  "finalize_attempt aid worker expected_version requested_status terminal_event now
      error_code error_message rs =
     (case dict_get (rs_attempts rs) aid of
        None \<Rightarrow> (None, rs)
      | Some a \<Rightarrow>
          if att_status a \<noteq> ATT_RUNNING \<or> att_worker_id a \<noteq> Some worker
             \<or> att_version a \<noteq> expected_version
          then (None, rs)
          else (case dict_get (rs_items rs) (att_run_id a) of
              None \<Rightarrow> (None, rs)
            | Some r \<Rightarrow>
                let final_status = (if run_status r = CANCELLED then CANCELLED else requested_status)
                in if run_status r \<in> {COMPLETED, FAILED} then (None, rs)
                else let
                  completed_attempt = a\<lparr>att_status := terminal_attempt_status final_status,
                    att_error_code := error_code, att_error_message := error_message,
                    att_completed_at := Some now, att_lease_expires_at := None,
                    att_version := att_version a + 1\<rparr>;
                  completed_run = r\<lparr>run_status := final_status, run_completed_at := Some now,
                    run_next_retry_at := None\<rparr>;
                  event = terminal_event\<lparr>ev_event_type := terminal_event_type final_status,
                    ev_completed_at := Some now,
                    ev_payload := dict_set (ev_payload terminal_event) ''status''
                      (JStr (str_lower (run_status_value final_status)))\<rparr>;
                  rs1 = touch_events (run_id r) rs;
                  events = run_events rs1 (run_id r);
                  existing = find (\<lambda>x. ev_id x = ev_id event
                    \<or> (final_status = CANCELLED \<and> ev_event_type x = ''run.cancelled'')) events;
                  stamped = event\<lparr>ev_sequence := last_sequence events + 1,
                    ev_thread_sequence := max_thread_sequence rs1 (ev_thread_id event) + 1\<rparr>;
                  event' = (case existing of None \<Rightarrow> stamped | Some x \<Rightarrow> x);
                  rs2 = (case existing of None \<Rightarrow> push_event (run_id r) stamped rs1 | Some _ \<Rightarrow> rs1);
                  rs3 = rs2\<lparr>rs_attempts := dict_set (rs_attempts rs2) aid completed_attempt,
                            rs_items := dict_set (rs_items rs2) (run_id r) completed_run\<rparr>
                in (Some (completed_run, completed_attempt, event'),
                    mark_outbox_published (run_id r) rs3)))"

datatype transition_result = Stale | TCancelled | TFailed | TRetryable

definition fresh_event :: "string \<Rightarrow> run \<Rightarrow> string \<Rightarrow> json_obj \<Rightarrow> moment \<Rightarrow> activity_event" where
  "fresh_event eid r kind payload clock =
     \<lparr>ev_id = eid, ev_thread_id = run_thread_id r, ev_workspace_id = run_workspace_id r,
      ev_run_id = Some (run_id r), ev_owner_user_id = Some (run_requested_by_user_id r),
      ev_actor_user_id = None, ev_sequence = 0, ev_thread_sequence = 0, ev_event_type = kind,
      ev_actor_type = None, ev_actor_id = None, ev_title = None, ev_summary = None,
      ev_parent_event_id = None, ev_visibility = VIS_USER, ev_evidence_ids = [],
      ev_payload = payload, ev_metadata = [], ev_started_at = None, ev_completed_at = None,
      ev_duration_ms = None, ev_created_at = clock\<rparr>"

definition terminal_id :: "string \<Rightarrow> string \<Rightarrow> string" where
  "terminal_id rid aid = ''event_terminal_'' @ rid @ ''_'' @ aid"

definition retry_attempt_id :: "string \<Rightarrow> nat \<Rightarrow> string" where
  "retry_attempt_id rid n = ''attempt_retry_'' @ rid @ ''_'' @ nat_str n"

definition retry_attempt :: "run \<Rightarrow> run_attempt \<Rightarrow> moment \<Rightarrow> run_attempt" where
  "retry_attempt r a now =
     \<lparr>att_id = retry_attempt_id (run_id r) (att_number a + 1), att_run_id = run_id r,
      att_number = att_number a + 1, att_status = ATT_RETRYABLE, att_worker_id = None,
      att_lease_expires_at = None, att_heartbeat_at = None, att_retryable = att_retryable a,
      att_version = 0, att_error_code = None, att_error_message = None,
      att_started_at = now, att_completed_at = None\<rparr>"

definition push_failed_event ::
  "run \<Rightarrow> run_attempt \<Rightarrow> string \<Rightarrow> moment \<Rightarrow> moment \<Rightarrow> run_store \<Rightarrow> run_store" where
  "push_failed_event r a error_code now clock rs =
     (let rs = touch_events (run_id r) rs;
          events = run_events rs (run_id r);
          tid = terminal_id (run_id r) (att_id a) in
      if list_ex (\<lambda>x. ev_id x = tid) events then rs
      else push_event (run_id r)
        ((fresh_event tid r ''run.failed''
            [(''mission_id'', opt_json (run_mission_id r)), (''status'', JStr ''failed''),
             (''attempt_id'', JStr (att_id a)), (''attempt_number'', JInt (int (att_number a))),
             (''error_code'', JStr error_code)] clock)
          \<lparr>ev_sequence := last_sequence events + 1,
           ev_thread_sequence := max_thread_sequence rs (run_thread_id r) + 1,
           ev_completed_at := Some now\<rparr>) rs)"

definition transition_failed_attempt ::
  "string \<Rightarrow> nat \<Rightarrow> rat \<Rightarrow> moment \<Rightarrow> string \<Rightarrow> string \<Rightarrow> string option \<Rightarrow> moment option
     \<Rightarrow> moment \<Rightarrow> run_store \<Rightarrow> transition_result \<times> run_store" where
  "transition_failed_attempt aid expected_version retry_delay_seconds now error_code
      error_message worker lease_expired_before clock rs =
     (case dict_get (rs_attempts rs) aid of
        None \<Rightarrow> (Stale, rs)
      | Some a \<Rightarrow>
          if att_status a \<noteq> ATT_RUNNING \<or> att_version a \<noteq> expected_version
             \<or> (worker \<noteq> None \<and> att_worker_id a \<noteq> worker)
             \<or> lease_not_expired lease_expired_before a
          then (Stale, rs)
          else (case dict_get (rs_items rs) (att_run_id a) of
              None \<Rightarrow> (Stale, rs)
            | Some r \<Rightarrow>
                if run_status r = CANCELLED
                then (TCancelled, rs\<lparr>rs_attempts := dict_set (rs_attempts rs) aid
                    (a\<lparr>att_status := ATT_CANCELLED, att_completed_at := Some now,
                       att_lease_expires_at := None, att_version := att_version a + 1\<rparr>)\<rparr>)
                else let
                  failed_attempt = a\<lparr>att_status := ATT_FAILED, att_error_code := Some error_code,
                    att_error_message := Some error_message, att_completed_at := Some now,
                    att_lease_expires_at := None, att_version := att_version a + 1\<rparr>;
                  rs1 = rs\<lparr>rs_attempts := dict_set (rs_attempts rs) aid failed_attempt\<rparr>
                in if \<not> att_retryable a \<or> att_number a \<ge> run_max_attempts r
                then (TFailed, mark_outbox_published (run_id r)
                    (push_failed_event r a error_code now clock
                      (rs1\<lparr>rs_items := dict_set (rs_items rs1) (run_id r)
                        (r\<lparr>run_status := FAILED, run_completed_at := Some now,
                           run_next_retry_at := None\<rparr>)\<rparr>)))
                else (TRetryable,
                    rs1\<lparr>rs_attempts := dict_setdefault (rs_attempts rs1)
                          (retry_attempt_id (run_id r) (att_number a + 1)) (retry_attempt r a now),
                        rs_items := dict_set (rs_items rs1) (run_id r)
                          (r\<lparr>run_status := QUEUED, run_current_attempt := att_number a + 1,
                             run_retry_count := min (run_retry_count r + 1) (run_max_attempts r - 1),
                             run_next_retry_at := Some (now +
                               timedelta_seconds (max 0 retry_delay_seconds))\<rparr>)\<rparr>)))"

definition cancel_attempt :: "string \<Rightarrow> moment \<Rightarrow> run_attempt \<Rightarrow> run_attempt" where
  "cancel_attempt rid now a =
     (if att_run_id a = rid \<and> att_status a \<in> {ATT_RUNNING, ATT_RETRYABLE}
      then a\<lparr>att_status := ATT_CANCELLED, att_completed_at := Some now,
             att_lease_expires_at := None, att_version := att_version a + 1\<rparr>
      else a)"

definition cancel ::
  "string \<Rightarrow> moment \<Rightarrow> activity_event option \<Rightarrow> run_store \<Rightarrow> activity_event option \<times> run_store" where
  "cancel rid now terminal_event rs =
     (case dict_get (rs_items rs) rid of
        None \<Rightarrow> (None, rs)
      | Some r \<Rightarrow>
          if run_terminal (run_status r) then (None, rs)
          else let
            rs1 = rs\<lparr>rs_items := dict_set (rs_items rs) rid
                       (r\<lparr>run_status := CANCELLED, run_cancel_requested_at := Some now,
                          run_completed_at := Some now\<rparr>),
                     rs_attempts := map (\<lambda>kv. (fst kv, cancel_attempt rid now (snd kv)))
                       (rs_attempts rs)\<rparr>
          in (case terminal_event of
                None \<Rightarrow> (None, mark_outbox_published rid rs1)
              | Some te \<Rightarrow>
                  let rs2 = touch_events rid rs1; events = run_events rs2 rid in
                  (case find (\<lambda>x. ev_id x = ev_id te) events of
                     Some existing \<Rightarrow> (Some existing, mark_outbox_published rid rs2)
                   | None \<Rightarrow>
                       let stamped = te\<lparr>ev_sequence := last_sequence events + 1,
                             ev_thread_sequence := max_thread_sequence rs2 (ev_thread_id te) + 1,
                             ev_completed_at := Some now\<rparr>
                       in (Some stamped, mark_outbox_published rid (push_event rid stamped rs2)))))"

section \<open>Recovery scan\<close>

definition recoverable :: "run_store \<Rightarrow> moment \<Rightarrow> run_attempt \<Rightarrow> bool" where
  "recoverable rs now a =
     (case dict_get (rs_items rs) (att_run_id a) of
        None \<Rightarrow> False
      | Some r \<Rightarrow> run_status r \<in> {QUEUED, RUNNING}
          \<and> (case run_next_retry_at r of None \<Rightarrow> True | Some t \<Rightarrow> t \<le> now)
          \<and> (att_status a = ATT_RETRYABLE
             \<or> (att_status a = ATT_RUNNING
                \<and> (case att_lease_expires_at a of None \<Rightarrow> False | Some l \<Rightarrow> l \<le> now))))"

definition list_recoverable :: "run_store \<Rightarrow> moment \<Rightarrow> int \<Rightarrow> run_attempt list" where
  "list_recoverable rs now limit =
     take (page_limit limit) (sort_key att_started_at
       (filter (recoverable rs now) (dict_values (rs_attempts rs))))"

section \<open>Frame lemmas\<close>

text \<open>Which parts of the store the event-log and outbox helpers leave alone.\<close>

lemma push_event_frame [simp]:
  "rs_items (push_event rid e rs) = rs_items rs" "rs_attempts (push_event rid e rs) = rs_attempts rs"
  "rs_outbox (push_event rid e rs) = rs_outbox rs"
  by (simp_all add: push_event_def)

lemma touch_events_frame [simp]:
  "rs_items (touch_events rid rs) = rs_items rs" "rs_attempts (touch_events rid rs) = rs_attempts rs"
  "rs_outbox (touch_events rid rs) = rs_outbox rs"
  by (simp_all add: touch_events_def)

lemma mark_outbox_frame [simp]:
  "rs_items (mark_outbox_published rid rs) = rs_items rs"
  "rs_attempts (mark_outbox_published rid rs) = rs_attempts rs"
  "rs_events (mark_outbox_published rid rs) = rs_events rs"
  by (simp_all add: mark_outbox_published_def split: option.splits)

lemma push_failed_event_frame [simp]:
  "rs_items (push_failed_event r a c now clock rs) = rs_items rs"
  "rs_attempts (push_failed_event r a c now clock rs) = rs_attempts rs"
  "rs_outbox (push_failed_event r a c now clock rs) = rs_outbox rs"
  by (simp_all add: push_failed_event_def Let_def)

lemma append_event_frame:
  "append_event e rs = Inr (e', rs') \<Longrightarrow>
     rs_items rs' = rs_items rs \<and> rs_attempts rs' = rs_attempts rs \<and> rs_outbox rs' = rs_outbox rs"
  by (auto simp: append_event_def Let_def split: option.splits if_splits)

section \<open>Runs as a tenant-scoped repository\<close>

abbreviation run_tenant :: "run \<Rightarrow> string \<times> string" where
  "run_tenant r \<equiv> (run_workspace_id r, run_requested_by_user_id r)"

interpretation runs: scoped_repo run_id run_tenant run_create run_update
  "\<lambda>d k t. run_get d k (Some (fst t)) (Some (snd t))"
  by unfold_locales
    (auto simp: run_create_def run_update_def run_get_def dict_setdefault_present
       split: option.splits if_splits)

section \<open>Retry identifiers\<close>

lemma nat_str_digits: "c \<in> set (nat_str n) \<Longrightarrow> c \<noteq> CHR ''_''"
proof (induction n rule: nat_str.induct)
  case (1 n)
  have digit: "digit_char d \<noteq> CHR ''_''" if "d < 10" for d
  proof
    assume "digit_char d = CHR ''_''"
    then have "(of_char (digit_char d) :: nat) = of_char (CHR ''_'')" by simp
    with that show False by (simp add: digit_char_def)
  qed
  show ?case
  proof (cases "n < 10")
    case True
    with 1 digit show ?thesis by (auto simp: nat_str.simps [of n])
  next
    case False
    with 1 digit [of "n mod 10"] show ?thesis by (auto simp: nat_str.simps [of n])
  qed
qed

lemma digit_char_inj: "d < 10 \<Longrightarrow> e < 10 \<Longrightarrow> digit_char d = digit_char e \<Longrightarrow> d = e"
  by (drule arg_cong [of _ _ "of_char :: char \<Rightarrow> nat"]) (simp add: digit_char_def)

lemma nat_str_not_Nil [simp]: "nat_str n \<noteq> []" "[] \<noteq> nat_str n"
  by (simp_all add: nat_str.simps [of n])

lemma nat_str_inj: "nat_str n = nat_str m \<Longrightarrow> n = m"
proof (induction n arbitrary: m rule: nat_str.induct)
  case (1 n)
  show ?case
  proof (cases "n < 10")
    case n: True
    show ?thesis
    proof (cases "m < 10")
      case True
      with n "1.prems" show ?thesis
        by (simp add: nat_str.simps [of n] nat_str.simps [of m] digit_char_inj)
    next
      case False
      with n "1.prems" show ?thesis
        by (simp add: nat_str.simps [of n] nat_str.simps [of m])
    qed
  next
    case n: False
    show ?thesis
    proof (cases "m < 10")
      case True
      with n "1.prems" show ?thesis
        by (simp add: nat_str.simps [of n] nat_str.simps [of m])
    next
      case False
      with n "1.prems" have "nat_str (n div 10) = nat_str (m div 10)"
        and "digit_char (n mod 10) = digit_char (m mod 10)"
        by (simp_all add: nat_str.simps [of n] nat_str.simps [of m])
      with "1.IH" [OF n] have "n div 10 = m div 10" "n mod 10 = m mod 10"
        using digit_char_inj [of "n mod 10" "m mod 10"] by simp_all
      then show ?thesis by (metis div_mult_mod_eq)
    qed
  qed
qed

lemma append_sep_inj:
  assumes "xs @ c # ys = xs' @ c # ys'" and "c \<notin> set ys" and "c \<notin> set ys'"
  shows "xs = xs' \<and> ys = ys'"
proof -
  have rev: "takeWhile (\<lambda>x. x \<noteq> c) (rev (us @ c # vs)) = rev vs" if "c \<notin> set vs" for us vs
    using that by (simp add: takeWhile_append)
  from assms rev [of ys xs] rev [of ys' xs'] have "rev ys = rev ys'" by simp
  with assms(1) show ?thesis by simp
qed

lemma retry_attempt_id_inj: "retry_attempt_id r n = retry_attempt_id r' n' \<Longrightarrow> r = r' \<and> n = n'"
  using append_sep_inj [of r "CHR ''_''" "nat_str n" r' "nat_str n'"]
  by (auto simp: retry_attempt_id_def dest: nat_str_digits nat_str_inj)

lemma retry_attempt_id_prefix: "str_startswith (retry_attempt_id r n) ''attempt_retry_''"
  by (simp add: retry_attempt_id_def str_startswith_def)

end
