(* ===== verification/Run_Lifecycle.thy ===== *)
theory Run_Lifecycle
  imports Run_Store
begin

text \<open>
  The protocol the API and the workers run against the run repository, as a step relation over
  the operations of \<open>Run_Store\<close>, and its safety: every unfinished run owns exactly one live
  attempt, terminal states are absorbing, attempts are fenced by their version.
\<close>

section \<open>Steps\<close>

text \<open>
  One rule per call that the program makes. \<open>submit\<close> is the transaction of
  \<^verbatim>\<open>api/conversations.py\<close> and \<^verbatim>\<open>api/async_missions.py\<close> (a queued run with its first,
  retryable attempt, and an outbox row; the identifiers are fresh \<^verbatim>\<open>uuid4\<close> texts, which never
  start like the retry identifiers). \<open>start\<close> is the executor's compare-and-set to
  \<^verbatim>\<open>RUNNING\<close>; \<open>settle\<close> finalizes with a terminal status, as the worker requires.
\<close>

definition submit :: "run \<Rightarrow> run_attempt \<Rightarrow> run_store \<Rightarrow> run_store" where
  "submit r a rs = add_outbox (run_id r) (add_attempt a
     (rs\<lparr>rs_items := dict_setdefault (rs_items rs) (run_id r) r\<rparr>))"

definition fresh_submission :: "run \<Rightarrow> run_attempt \<Rightarrow> run_store \<Rightarrow> bool" where
  "fresh_submission r a rs =
     (dict_get (rs_items rs) (run_id r) = None \<and> dict_get (rs_attempts rs) (att_id a) = None
      \<and> \<not> str_startswith (att_id a) ''attempt_retry_''
      \<and> run_status r = QUEUED \<and> run_current_attempt r = 1 \<and> 1 \<le> run_max_attempts r
      \<and> run_retry_count r = 0
      \<and> att_run_id a = run_id r \<and> att_number a = 1 \<and> att_status a = ATT_RETRYABLE)"

inductive run_step :: "run_store \<Rightarrow> run_store \<Rightarrow> bool" where
  submit: "fresh_submission r a rs \<Longrightarrow> run_step rs (submit r a rs)"
| start: "run_step rs (snd (compare_and_set_status rid {QUEUED} RUNNING now rs))"
| claim: "run_step rs (snd (claim rid worker lease now rs))"
| heartbeat: "run_step rs (snd (heartbeat aid worker lease version now rs))"
| settle: "run_terminal status \<Longrightarrow>
    run_step rs (snd (finalize_attempt aid worker version status event now code msg rs))"
| fail: "run_step rs (snd (transition_failed_attempt aid version delay now code msg worker bound clock rs))"
| cancel: "run_step rs (snd (cancel rid now event rs))"
| sweep_cancelled: "dict_get (rs_items rs) rid = Some r \<Longrightarrow> run_status r = CANCELLED \<Longrightarrow>
    dict_get (rs_attempts rs) aid = Some a \<Longrightarrow> att_run_id a = rid \<Longrightarrow>
    run_step rs (snd (compare_and_set_attempt aid ATT_RUNNING ATT_CANCELLED None (Some version)
      (Some now) now (Some ''CANCELLED'') None rs))"
| record_event: "append_event e rs = Inr (e', rs') \<Longrightarrow> run_step rs rs'"
| publish: "run_step rs (mark_outbox_published rid rs)"

inductive run_steps :: "run_store \<Rightarrow> run_store \<Rightarrow> bool" where
  refl: "run_steps rs rs"
| step: "run_steps rs rs' \<Longrightarrow> run_step rs' rs'' \<Longrightarrow> run_steps rs rs''"

definition runs_reachable :: "run_store \<Rightarrow> bool" where
  "runs_reachable rs = run_steps empty_run_store rs"

section \<open>The lifecycle invariant\<close>

definition live :: "run_attempt \<Rightarrow> bool" where
  "live a = (att_status a \<in> {ATT_RUNNING, ATT_RETRYABLE})"

text \<open>What holds of an attempt relative to its run.\<close>

definition attempt_ok :: "run store \<Rightarrow> string \<Rightarrow> run_attempt \<Rightarrow> bool" where
  "attempt_ok items aid a =
     ((\<exists>r. dict_get items (att_run_id a) = Some r \<and> att_number a \<le> run_current_attempt r
          \<and> (live a \<longrightarrow> att_number a = run_current_attempt r \<and> \<not> run_terminal (run_status r)))
      \<and> (str_startswith aid ''attempt_retry_'' \<longrightarrow>
          aid = retry_attempt_id (att_run_id a) (att_number a)))"

definition bounds_ok :: "run \<Rightarrow> bool" where
  "bounds_ok r = (run_current_attempt r \<le> run_max_attempts r
     \<and> run_retry_count r \<le> run_max_attempts r - 1)"

definition served :: "run_attempt store \<Rightarrow> string \<Rightarrow> bool" where
  "served attempts rid =
     (\<exists>aid a. dict_get attempts aid = Some a \<and> att_run_id a = rid \<and> live a)"

definition lifecycle_ok :: "run store \<Rightarrow> run_attempt store \<Rightarrow> bool" where
  "lifecycle_ok items attempts =
     (keyed run_id items \<and> keyed att_id attempts
      \<and> (\<forall>aid a. dict_get attempts aid = Some a \<longrightarrow> attempt_ok items aid a)
      \<and> (\<forall>aid a aid' a'. dict_get attempts aid = Some a \<longrightarrow> dict_get attempts aid' = Some a' \<longrightarrow>
           att_run_id a = att_run_id a' \<longrightarrow> att_number a = att_number a' \<longrightarrow> aid = aid')
      \<and> (\<forall>rid r. dict_get items rid = Some r \<longrightarrow>
           bounds_ok r \<and> (\<not> run_terminal (run_status r) \<longrightarrow> served attempts rid)))"

lemma lifecycle_keyed:
  "lifecycle_ok items attempts \<Longrightarrow> keyed run_id items \<and> keyed att_id attempts"
  by (simp add: lifecycle_ok_def)

lemma lifecycle_attempt:
  "lifecycle_ok items attempts \<Longrightarrow> dict_get attempts aid = Some a \<Longrightarrow> attempt_ok items aid a"
  by (simp add: lifecycle_ok_def)

lemma lifecycle_run:
  "lifecycle_ok items attempts \<Longrightarrow> dict_get items rid = Some r \<Longrightarrow>
     bounds_ok r \<and> (\<not> run_terminal (run_status r) \<longrightarrow> served attempts rid)"
  by (simp add: lifecycle_ok_def)

lemma lifecycle_number:
  "lifecycle_ok items attempts \<Longrightarrow> dict_get attempts aid = Some a \<Longrightarrow>
     dict_get attempts aid' = Some a' \<Longrightarrow> att_run_id a = att_run_id a' \<Longrightarrow>
     att_number a = att_number a' \<Longrightarrow> aid = aid'"
  unfolding lifecycle_ok_def by blast

lemma lifecycle_okI:
  assumes "keyed run_id items" and "keyed att_id attempts"
    and "\<And>aid a. dict_get attempts aid = Some a \<Longrightarrow> attempt_ok items aid a"
    and "\<And>aid a aid' a'. dict_get attempts aid = Some a \<Longrightarrow> dict_get attempts aid' = Some a' \<Longrightarrow>
      att_run_id a = att_run_id a' \<Longrightarrow> att_number a = att_number a' \<Longrightarrow> aid = aid'"
    and "\<And>rid r. dict_get items rid = Some r \<Longrightarrow> bounds_ok r"
    and "\<And>rid r. dict_get items rid = Some r \<Longrightarrow> \<not> run_terminal (run_status r) \<Longrightarrow> served attempts rid"
  shows "lifecycle_ok items attempts"
  unfolding lifecycle_ok_def using assms by blast

lemma live_run:
  assumes "lifecycle_ok items attempts" and "dict_get attempts aid = Some a" and "live a"
  obtains r where "dict_get items (att_run_id a) = Some r" "run_id r = att_run_id a"
    "att_number a = run_current_attempt r" "\<not> run_terminal (run_status r)" "bounds_ok r"
proof -
  from lifecycle_attempt [OF assms(1,2)] assms(3) obtain r
    where r: "dict_get items (att_run_id a) = Some r" "att_number a = run_current_attempt r"
      "\<not> run_terminal (run_status r)"
    by (auto simp: attempt_ok_def)
  moreover have "run_id r = att_run_id a"
    by (rule keyed_get [OF conjunct1 [OF lifecycle_keyed [OF assms(1)]] r(1)])
  moreover have "bounds_ok r" using lifecycle_run [OF assms(1) r(1)] by blast
  ultimately show ?thesis using that by blast
qed

lemma live_unique:
  assumes "lifecycle_ok items attempts"
    and "dict_get attempts aid = Some a" "live a"
    and "dict_get attempts aid' = Some a'" "live a'" and "att_run_id a = att_run_id a'"
  shows "aid = aid'"
proof -
  obtain r where "dict_get items (att_run_id a) = Some r" "att_number a = run_current_attempt r"
    using live_run [OF assms(1-3)] by blast
  moreover obtain r' where "dict_get items (att_run_id a') = Some r'"
      "att_number a' = run_current_attempt r'"
    using live_run [OF assms(1,4,5)] by blast
  ultimately show ?thesis using lifecycle_number [OF assms(1,2,4,6)] assms(6) by simp
qed

text \<open>
  Replacing an attempt and its run by versions that agree on identity and numbering keeps the
  invariant, provided the attempt stays live exactly while its run is unfinished. The claims,
  the heartbeats, the finalization and the last failure are all of this shape.
\<close>

lemma lifecycle_replace:
  assumes ok: "lifecycle_ok items attempts"
    and a: "dict_get attempts aid = Some a" "live a"
    and r: "dict_get items (att_run_id a) = Some r"
    and a': "att_id a' = att_id a" "att_run_id a' = att_run_id a" "att_number a' = att_number a"
    and r': "run_id r' = run_id r" "run_current_attempt r' = run_current_attempt r"
      "bounds_ok r'"
    and sync: "live a' \<longleftrightarrow> \<not> run_terminal (run_status r')"
  shows "lifecycle_ok (dict_set items (run_id r) r') (dict_set attempts aid a')"
proof -
  note keyed = lifecycle_keyed [OF ok]
  have ids: "att_id a = aid" "run_id r = att_run_id a"
    using keyed_get [OF conjunct2 [OF keyed] a(1)] keyed_get [OF conjunct1 [OF keyed] r] by simp_all
  have num: "att_number a = run_current_attempt r"
    using live_run [OF ok a] r by auto
  have other: "\<not> live b" if "dict_get attempts bid = Some b" "att_run_id b = att_run_id a" "bid \<noteq> aid"
    for bid b using live_unique [OF ok a that(1)] that by auto
  have attempts: "attempt_ok (dict_set items (run_id r) r') bid b"
    if "dict_get (dict_set attempts aid a') bid = Some b" for bid b
  proof (cases "bid = aid")
    case True
    with that have "b = a'" by simp
    with True lifecycle_attempt [OF ok a(1)] a' r' sync ids num show ?thesis
      by (auto simp: attempt_ok_def)
  next
    case False
    with that have b: "dict_get attempts bid = Some b" by simp
    from lifecycle_attempt [OF ok b] other [OF b _ False] r r' ids show ?thesis
      by (auto simp: attempt_ok_def)
  qed
  have served: "served (dict_set attempts aid a') rid"
    if "dict_get (dict_set items (run_id r) r') rid = Some x" "\<not> run_terminal (run_status x)" for rid x
  proof (cases "rid = run_id r")
    case True
    with that sync a' ids show ?thesis
      unfolding served_def by (intro exI [of _ aid] exI [of _ a']) simp
  next
    case False
    with that lifecycle_run [OF ok, of rid x] obtain bid b
      where "dict_get attempts bid = Some b" "att_run_id b = rid" "live b"
      by (auto simp: served_def)
    with False a ids show ?thesis
      unfolding served_def by (intro exI [of _ bid] exI [of _ b]) auto
  qed
  have unique: "bid = cid"
    if "dict_get (dict_set attempts aid a') bid = Some b" "dict_get (dict_set attempts aid a') cid = Some c"
      "att_run_id b = att_run_id c" "att_number b = att_number c" for bid b cid c
  proof -
    define f where "f x = (if x = aid then Some a else dict_get attempts x)" for x
    have f: "f x = dict_get attempts x" for x using a(1) by (simp add: f_def)
    have origin: "\<exists>y. f x = Some y \<and> att_run_id y = att_run_id z \<and> att_number y = att_number z"
      if "dict_get (dict_set attempts aid a') x = Some z" for x z
      using that a' by (auto simp: f_def split: if_splits)
    from origin [OF that(1)] origin [OF that(2)] that(3,4) show ?thesis
      using lifecycle_number [OF ok] unfolding f by metis
  qed
  have bounds: "bounds_ok x" if "dict_get (dict_set items (run_id r) r') rid = Some x" for rid x
    using that r' lifecycle_run [OF ok, of rid x] by (auto split: if_splits)
  show ?thesis
  proof (rule lifecycle_okI)
    show "keyed run_id (dict_set items (run_id r) r')" using keyed r' by simp
    show "keyed att_id (dict_set attempts aid a')" using keyed a' ids by simp
  qed (fact attempts unique bounds served)+
qed

text \<open>A change of the run alone that keeps its numbering and whether it is finished.\<close>

lemma lifecycle_replace_run:
  assumes ok: "lifecycle_ok items attempts" and r: "dict_get items rid = Some r"
    and r': "run_id r' = run_id r" "run_current_attempt r' = run_current_attempt r" "bounds_ok r'"
    and same: "run_terminal (run_status r') = run_terminal (run_status r)"
  shows "lifecycle_ok (dict_set items rid r') attempts"
proof -
  note keyed = lifecycle_keyed [OF ok]
  have rid: "run_id r = rid" by (rule keyed_get [OF conjunct1 [OF keyed] r])
  have attempts: "attempt_ok (dict_set items rid r') aid a" if "dict_get attempts aid = Some a" for aid a
    using lifecycle_attempt [OF ok that] r r' same by (auto simp: attempt_ok_def)
  have runs: "bounds_ok x" "\<not> run_terminal (run_status x) \<Longrightarrow> served attempts k"
    if "dict_get (dict_set items rid r') k = Some x" for k x
    using that r r' same lifecycle_run [OF ok, of k] by (auto split: if_splits)
  show ?thesis
  proof (rule lifecycle_okI)
    show "keyed run_id (dict_set items rid r')" using keyed r' rid by simp
    show "keyed att_id attempts" using keyed by simp
  qed (fact attempts runs | rule lifecycle_number [OF ok], assumption+)+
qed

text \<open>
  Scheduling the successor of a live attempt: the attempt dies, its run is queued again under
  the next number, and a new live attempt with that number appears.
\<close>

lemma lifecycle_retry:
  assumes ok: "lifecycle_ok items attempts"
    and a: "dict_get attempts aid = Some a" "live a"
    and r: "dict_get items (att_run_id a) = Some r"
    and a': "att_id a' = att_id a" "att_run_id a' = att_run_id a" "att_number a' = att_number a"
      "\<not> live a'"
    and b: "att_id b = retry_attempt_id (run_id r) (att_number a + 1)" "att_run_id b = run_id r"
      "att_number b = att_number a + 1" "live b"
    and r': "run_id r' = run_id r" "run_current_attempt r' = att_number a + 1" "bounds_ok r'"
      "\<not> run_terminal (run_status r')"
  shows "lifecycle_ok (dict_set items (run_id r) r')
    (dict_setdefault (dict_set attempts aid a') (att_id b) b)"
proof -
  note keyed = lifecycle_keyed [OF ok]
  have ids: "att_id a = aid" "run_id r = att_run_id a"
    using keyed_get [OF conjunct2 [OF keyed] a(1)] keyed_get [OF conjunct1 [OF keyed] r] by simp_all
  have num: "att_number a = run_current_attempt r"
    using live_run [OF ok a] r by auto
  have old: "attempt_ok items x c \<and> (att_run_id c = run_id r \<longrightarrow> att_number c \<le> att_number a)"
    if "dict_get attempts x = Some c" for x c
    using lifecycle_attempt [OF ok that] r ids num by (auto simp: attempt_ok_def)
  have fresh: "dict_get (dict_set attempts aid a') (att_id b) = None"
  proof (rule ccontr)
    assume "\<not> ?thesis"
    then obtain c where c: "dict_get attempts (att_id b) = Some c"
      using a(1) by (auto split: if_splits)
    with old [OF c] b(1) have "att_run_id c = run_id r \<and> att_number c = att_number a + 1"
      using retry_attempt_id_inj [of "run_id r" "att_number a + 1"]
      by (auto simp: attempt_ok_def retry_attempt_id_prefix)
    with old [OF c] show False by simp
  qed
  have cases: "(x = att_id b \<and> c = b) \<or> (x = aid \<and> c = a') \<or>
      (x \<noteq> aid \<and> x \<noteq> att_id b \<and> dict_get attempts x = Some c)"
    if "dict_get (dict_setdefault (dict_set attempts aid a') (att_id b) b) x = Some c" for x c
    using that fresh by (auto split: if_splits)
  have dead: "\<not> live c" if "dict_get attempts x = Some c" "att_run_id c = run_id r" "x \<noteq> aid" for x c
    using live_unique [OF ok a that(1)] that ids by auto
  show ?thesis
  proof (rule lifecycle_okI)
    show "keyed run_id (dict_set items (run_id r) r')" using keyed r' by simp
    show "keyed att_id (dict_setdefault (dict_set attempts aid a') (att_id b) b)"
      using keyed a' ids by (intro keyed_setdefault keyed_set) simp_all
  next
    fix x c
    assume "dict_get (dict_setdefault (dict_set attempts aid a') (att_id b) b) x = Some c"
    with cases consider "x = att_id b" "c = b" | "x = aid" "c = a'"
      | "x \<noteq> aid" "dict_get attempts x = Some c" by blast
    then show "attempt_ok (dict_set items (run_id r) r') x c"
    proof cases
      case 1
      with b r' show ?thesis by (simp add: attempt_ok_def)
    next
      case 2
      with old [OF a(1)] a' r' ids show ?thesis by (auto simp: attempt_ok_def)
    next
      case 3
      with old [OF 3(2)] dead [OF 3(2)] r' show ?thesis by (auto simp: attempt_ok_def)
    qed
  next
    fix x c y d
    assume c: "dict_get (dict_setdefault (dict_set attempts aid a') (att_id b) b) x = Some c"
      and d: "dict_get (dict_setdefault (dict_set attempts aid a') (att_id b) b) y = Some d"
      and eq: "att_run_id c = att_run_id d" "att_number c = att_number d"
    have origin: "(z = att_id b \<and> att_run_id e = run_id r \<and> att_number e = att_number a + 1) \<or>
        (\<exists>e'. dict_get attempts z = Some e' \<and> att_run_id e' = att_run_id e \<and> att_number e' = att_number e)"
      if "dict_get (dict_setdefault (dict_set attempts aid a') (att_id b) b) z = Some e" for z e
      using cases [OF that] a a' b by auto
    from origin [OF c] origin [OF d] eq show "x = y"
      using lifecycle_number [OF ok] old by (metis Suc_eq_plus1 Suc_n_not_le_n)
  next
    fix k x
    assume x: "dict_get (dict_set items (run_id r) r') k = Some x"
    then show "bounds_ok x" using r' lifecycle_run [OF ok, of k x] by (auto split: if_splits)
    assume run: "\<not> run_terminal (run_status x)"
    show "served (dict_setdefault (dict_set attempts aid a') (att_id b) b) k"
    proof (cases "k = run_id r")
      case True
      with b fresh show ?thesis
        unfolding served_def by (intro exI [of _ "att_id b"] exI [of _ b]) simp
    next
      case False
      with x run lifecycle_run [OF ok, of k x] obtain y c
        where c: "dict_get attempts y = Some c" "att_run_id c = k" "live c"
        by (auto simp: served_def)
      then have "y \<noteq> aid" using a False ids by auto
      with c fresh show ?thesis
        unfolding served_def by (intro exI [of _ y] exI [of _ c]) auto
    qed
  qed
qed

text \<open>Cancelling a run kills its live attempt and finishes the run.\<close>

lemma map_of_map_snd: "dict_get (map (\<lambda>kv. (fst kv, f (snd kv))) d) k = map_option f (dict_get d k)"
  by (induction d) auto

lemma keyed_map_snd:
  "keyed key d \<Longrightarrow> (\<And>v. key (f v) = key v) \<Longrightarrow> keyed key (map (\<lambda>kv. (fst kv, f (snd kv))) d)"
  by (auto simp: keyed_def dict_wf_def list_all_iff comp_def)

lemma cancel_attempt_frame [simp]:
  "att_id (cancel_attempt rid now a) = att_id a"
  "att_run_id (cancel_attempt rid now a) = att_run_id a"
  "att_number (cancel_attempt rid now a) = att_number a"
  by (simp_all add: cancel_attempt_def)

lemma live_cancel_attempt [simp]:
  "live (cancel_attempt rid now a) = (live a \<and> att_run_id a \<noteq> rid)"
  by (auto simp: cancel_attempt_def live_def)

lemma lifecycle_cancel:
  assumes ok: "lifecycle_ok items attempts" and r: "dict_get items rid = Some r"
    and r': "run_id r' = run_id r" "run_current_attempt r' = run_current_attempt r" "bounds_ok r'"
      "run_terminal (run_status r')"
  shows "lifecycle_ok (dict_set items rid r')
    (map (\<lambda>kv. (fst kv, cancel_attempt rid now (snd kv))) attempts)"
    (is "lifecycle_ok _ ?attempts")
proof -
  note keyed = lifecycle_keyed [OF ok]
  have rid: "run_id r = rid" by (rule keyed_get [OF conjunct1 [OF keyed] r])
  have origin: "\<exists>b. dict_get attempts aid = Some b \<and> a = cancel_attempt rid now b"
    if "dict_get ?attempts aid = Some a" for aid a
    using that by (auto simp: map_of_map_snd)
  show ?thesis
  proof (rule lifecycle_okI)
    show "keyed run_id (dict_set items rid r')" using keyed r' rid by simp
    show "keyed att_id ?attempts" using keyed by (auto intro: keyed_map_snd)
  next
    fix aid a
    assume "dict_get ?attempts aid = Some a"
    with origin obtain b where "dict_get attempts aid = Some b" "a = cancel_attempt rid now b" by blast
    with lifecycle_attempt [OF ok, of aid b] r r' show "attempt_ok (dict_set items rid r') aid a"
      by (auto simp: attempt_ok_def)
  next
    fix aid a aid' a'
    assume "dict_get ?attempts aid = Some a" "dict_get ?attempts aid' = Some a'"
      "att_run_id a = att_run_id a'" "att_number a = att_number a'"
    with origin [of aid a] origin [of aid' a'] lifecycle_number [OF ok, of aid _ aid'] show "aid = aid'"
      by auto
  next
    fix k x
    assume x: "dict_get (dict_set items rid r') k = Some x"
    then show "bounds_ok x" using r' lifecycle_run [OF ok, of k x] by (auto split: if_splits)
    assume run: "\<not> run_terminal (run_status x)"
    with x r' have k: "k \<noteq> rid" "dict_get items k = Some x" by (auto split: if_splits)
    with run lifecycle_run [OF ok, of k x] obtain y c
      where "dict_get attempts y = Some c" "att_run_id c = k" "live c"
      by (auto simp: served_def)
    with k show "served ?attempts k"
      unfolding served_def
      by (intro exI [of _ y] exI [of _ "cancel_attempt rid now c"]) (simp add: map_of_map_snd)
  qed
qed

lemma lifecycle_submit:
  assumes ok: "lifecycle_ok (rs_items rs) (rs_attempts rs)" and "fresh_submission r a rs"
  shows "lifecycle_ok (rs_items (submit r a rs)) (rs_attempts (submit r a rs))"
proof -
  let ?I = "dict_setdefault (rs_items rs) (run_id r) r"
  let ?A = "dict_setdefault (rs_attempts rs) (att_id a) a"
  note keyed = lifecycle_keyed [OF ok]
  from assms(2) have fresh: "dict_get (rs_items rs) (run_id r) = None"
    "dict_get (rs_attempts rs) (att_id a) = None"
    and r: "run_status r = QUEUED" "run_current_attempt r = 1" "bounds_ok r"
    and a: "\<not> str_startswith (att_id a) ''attempt_retry_''" "att_run_id a = run_id r"
      "att_number a = 1" "live a"
    by (auto simp: fresh_submission_def bounds_ok_def live_def)
  have others: "att_run_id b \<noteq> run_id r" if "dict_get (rs_attempts rs) x = Some b" for x b
    using lifecycle_attempt [OF ok that] fresh by (auto simp: attempt_ok_def)
  have "lifecycle_ok ?I ?A"
  proof (rule lifecycle_okI)
    show "keyed run_id ?I" "keyed att_id ?A" using keyed by simp_all
  next
    fix x b
    assume "dict_get ?A x = Some b"
    then have "(x = att_id a \<and> b = a) \<or> dict_get (rs_attempts rs) x = Some b"
      by (simp split: if_splits)
    then consider "x = att_id a" "b = a" | "dict_get (rs_attempts rs) x = Some b" by blast
    then show "attempt_ok ?I x b"
    proof cases
      case 1
      with a r fresh show ?thesis by (auto simp: attempt_ok_def)
    next
      case 2
      from lifecycle_attempt [OF ok 2] others [OF 2] show ?thesis by (auto simp: attempt_ok_def)
    qed
  next
    fix x b y c
    assume b: "dict_get ?A x = Some b" and c: "dict_get ?A y = Some c"
      and eq: "att_run_id b = att_run_id c" "att_number b = att_number c"
    have origin: "(z = att_id a \<and> att_run_id d = run_id r) \<or>
        (dict_get (rs_attempts rs) z = Some d \<and> att_run_id d \<noteq> run_id r)"
      if "dict_get ?A z = Some d" for z d
      using that fresh a others [of z d] by (auto split: if_splits)
    from origin [OF b] origin [OF c] eq show "x = y"
      using lifecycle_number [OF ok, of x b y c] by auto
  next
    fix k x
    assume x: "dict_get ?I k = Some x"
    then show "bounds_ok x" using r lifecycle_run [OF ok, of k x] by (auto split: if_splits)
    assume run: "\<not> run_terminal (run_status x)"
    show "served ?A k"
    proof (cases "k = run_id r")
      case True
      with a fresh show ?thesis unfolding served_def
        by (intro exI [of _ "att_id a"] exI [of _ a]) simp
    next
      case False
      with x run lifecycle_run [OF ok, of k x] obtain y c
        where "dict_get (rs_attempts rs) y = Some c" "att_run_id c = k" "live c"
        by (auto simp: served_def)
      with fresh show ?thesis unfolding served_def by (intro exI [of _ y] exI [of _ c]) auto
    qed
  qed
  then show ?thesis by (simp add: submit_def add_outbox_def add_attempt_def)
qed

section \<open>Every operation keeps the invariant\<close>

abbreviation store_ok :: "run_store \<Rightarrow> bool" where
  "store_ok rs \<equiv> lifecycle_ok (rs_items rs) (rs_attempts rs)"

lemma claim_cases:
  assumes "store_ok rs"
  obtains "claim rid worker lease now rs = (None, rs)"
  | a a' where "dict_get (rs_attempts rs) (att_id a) = Some a" "att_run_id a = rid" "claimable now a"
      "a' = a\<lparr>att_status := ATT_RUNNING, att_worker_id := Some worker, att_heartbeat_at := Some now,
         att_lease_expires_at := Some (now + timedelta_seconds lease), att_version := att_version a + 1\<rparr>"
      "claim rid worker lease now rs =
         (Some a', rs\<lparr>rs_attempts := dict_set (rs_attempts rs) (att_id a) a'\<rparr>)"
proof (cases "sorted_desc att_number (filter (\<lambda>a. att_run_id a = rid) (dict_values (rs_attempts rs)))")
  case Nil
  then show ?thesis using that(1) by (simp add: claim_def)
next
  case (Cons a as)
  then have "a \<in> set (sorted_desc att_number
      (filter (\<lambda>a. att_run_id a = rid) (dict_values (rs_attempts rs))))"
    by simp
  then have mem: "a \<in> set (dict_values (rs_attempts rs))" "att_run_id a = rid"
    unfolding set_sorted_desc by auto
  have "dict_get (rs_attempts rs) (att_id a) = Some a"
    by (rule keyed_value_get [OF conjunct2 [OF lifecycle_keyed [OF assms]] mem(1)])
  then show ?thesis using Cons mem that by (cases "claimable now a") (simp_all add: claim_def Let_def)
qed

lemma claimable_live: "claimable now a \<Longrightarrow> live a"
  by (auto simp: claimable_def live_def)

lemma claim_ok: "store_ok rs \<Longrightarrow> store_ok (snd (claim rid worker lease now rs))"
proof -
  assume ok: "store_ok rs"
  then show ?thesis
  proof (rule claim_cases [of rs rid worker lease now])
    fix a a'
    assume a: "dict_get (rs_attempts rs) (att_id a) = Some a" and "claimable now a"
      and a': "a' = a\<lparr>att_status := ATT_RUNNING, att_worker_id := Some worker,
         att_heartbeat_at := Some now,
         att_lease_expires_at := Some (now + timedelta_seconds lease), att_version := att_version a + 1\<rparr>"
      and eq: "claim rid worker lease now rs =
         (Some a', rs\<lparr>rs_attempts := dict_set (rs_attempts rs) (att_id a) a'\<rparr>)"
    then have "live a" by (simp add: claimable_live)
    with ok a obtain r where r: "dict_get (rs_items rs) (att_run_id a) = Some r" "run_id r = att_run_id a"
      "\<not> run_terminal (run_status r)" "bounds_ok r"
      by (rule live_run)
    from lifecycle_replace [OF ok a \<open>live a\<close> r(1), of a' r] r a' eq show ?thesis
      by (simp add: live_def dict_set_same)
  qed (use ok in simp)
qed

lemma heartbeat_ok: "store_ok rs \<Longrightarrow> store_ok (snd (heartbeat aid worker lease version now rs))"
proof (cases "dict_get (rs_attempts rs) aid")
  case (Some a)
  assume ok: "store_ok rs"
  show ?thesis
  proof (cases "att_status a = ATT_RUNNING")
    case True
    then have "live a" by (simp add: live_def)
    with ok Some obtain r where r: "dict_get (rs_items rs) (att_run_id a) = Some r"
      "run_id r = att_run_id a" "\<not> run_terminal (run_status r)" "bounds_ok r"
      by (rule live_run)
    let ?a = "a\<lparr>att_heartbeat_at := Some now,
        att_lease_expires_at := Some (now + timedelta_seconds lease)\<rparr>"
    have "dict_set (rs_items rs) (run_id r) r = rs_items rs"
      using r by (simp add: dict_set_same)
    then have "lifecycle_ok (rs_items rs) (dict_set (rs_attempts rs) aid ?a)"
      using lifecycle_replace [OF ok Some \<open>live a\<close> r(1), of ?a r] r True by (simp add: live_def)
    with True Some ok show ?thesis by (simp add: heartbeat_def)
  qed (use Some ok in \<open>simp add: heartbeat_def\<close>)
qed (simp add: heartbeat_def)

lemma start_ok: "store_ok rs \<Longrightarrow> store_ok (snd (compare_and_set_status rid {QUEUED} RUNNING now rs))"
proof (cases "dict_get (rs_items rs) rid")
  case (Some r)
  assume ok: "store_ok rs"
  show ?thesis
  proof (cases "run_status r = QUEUED")
    case True
    let ?r = "r\<lparr>run_status := RUNNING,
        run_started_at := (case run_started_at r of None \<Rightarrow> Some now | Some s \<Rightarrow> Some s),
        run_completed_at := None, run_next_retry_at := run_next_retry_at r\<rparr>"
    have "lifecycle_ok (dict_set (rs_items rs) rid ?r) (rs_attempts rs)"
      by (rule lifecycle_replace_run [OF ok Some])
        (use True lifecycle_run [OF ok Some] in \<open>simp_all add: bounds_ok_def\<close>)
    with True Some show ?thesis by (simp add: compare_and_set_status_def Let_def)
  next
    case False
    with Some ok show ?thesis by (simp add: compare_and_set_status_def)
  qed
qed (simp add: compare_and_set_status_def)

text \<open>A finalization that is not refused, in terms of the records it replaces.\<close>

lemma finalize_cases:
  obtains "finalize_attempt aid worker version status event now code msg rs = (None, rs)"
  | a r where "dict_get (rs_attempts rs) aid = Some a" "att_status a = ATT_RUNNING"
      "att_worker_id a = Some worker" "att_version a = version"
      "dict_get (rs_items rs) (att_run_id a) = Some r" "run_status r \<notin> {COMPLETED, FAILED}"
      "fst (finalize_attempt aid worker version status event now code msg rs) \<noteq> None"
      "rs_attempts (snd (finalize_attempt aid worker version status event now code msg rs)) =
         dict_set (rs_attempts rs) aid (a\<lparr>att_status := terminal_attempt_status
             (if run_status r = CANCELLED then CANCELLED else status),
           att_error_code := code, att_error_message := msg, att_completed_at := Some now,
           att_lease_expires_at := None, att_version := att_version a + 1\<rparr>)"
      "rs_items (snd (finalize_attempt aid worker version status event now code msg rs)) =
         dict_set (rs_items rs) (run_id r) (r\<lparr>run_status :=
             (if run_status r = CANCELLED then CANCELLED else status),
           run_completed_at := Some now, run_next_retry_at := None\<rparr>)"
proof (cases "dict_get (rs_attempts rs) aid")
  case None
  then show ?thesis using that(1) by (simp add: finalize_attempt_def)
next
  case (Some a)
  show ?thesis
  proof (cases "att_status a = ATT_RUNNING \<and> att_worker_id a = Some worker \<and> att_version a = version")
    case False
    with Some that(1) show ?thesis by (auto simp: finalize_attempt_def)
  next
    case True
    show ?thesis
    proof (cases "dict_get (rs_items rs) (att_run_id a)")
      case None
      with Some True that(1) show ?thesis by (simp add: finalize_attempt_def)
    next
      case run: (Some r)
      show ?thesis
      proof (cases "run_status r \<in> {COMPLETED, FAILED}")
        case finished: True
        with Some True run that(1) show ?thesis by (auto simp: finalize_attempt_def Let_def)
      next
        case False
        show ?thesis
          by (rule that(2) [OF Some _ _ _ run False])
            (use True Some run False in \<open>auto simp: finalize_attempt_def Let_def split: option.splits\<close>)
      qed
    qed
  qed
qed

lemma terminal_attempt_status_dead [simp]:
  "attempt_terminal (terminal_attempt_status s)"
  by (simp add: terminal_attempt_status_def)

lemma live_not_terminal: "live a = (\<not> attempt_terminal (att_status a))"
  by (cases "att_status a") (simp_all add: live_def)

lemma settle_ok:
  assumes ok: "store_ok rs" and "run_terminal status"
  shows "store_ok (snd (finalize_attempt aid worker version status event now code msg rs))"
proof (rule finalize_cases [of aid worker version status event now code msg rs], goal_cases)
  case 1
  then show ?case using ok by simp
next
  case (2 a r)
  have "live a" using 2 by (simp add: live_def)
  have b: "bounds_ok r" using lifecycle_run [OF ok 2(5)] by simp
  show ?case
    unfolding 2(8,9)
    by (rule lifecycle_replace [OF ok 2(1) \<open>live a\<close> 2(5)])
      (use assms(2) b in \<open>simp_all add: live_not_terminal bounds_ok_def\<close>)
qed

text \<open>The four outcomes of failing an attempt.\<close>

definition failed_attempt :: "string \<Rightarrow> string \<Rightarrow> moment \<Rightarrow> run_attempt \<Rightarrow> run_attempt" where
  "failed_attempt code msg now a = a\<lparr>att_status := ATT_FAILED, att_error_code := Some code,
     att_error_message := Some msg, att_completed_at := Some now,
     att_lease_expires_at := None, att_version := att_version a + 1\<rparr>"

definition failed_run :: "moment \<Rightarrow> run \<Rightarrow> run" where
  "failed_run now r = r\<lparr>run_status := FAILED, run_completed_at := Some now, run_next_retry_at := None\<rparr>"

definition requeued_run :: "nat \<Rightarrow> moment \<Rightarrow> run \<Rightarrow> run" where
  "requeued_run n retry_at r = r\<lparr>run_status := QUEUED, run_current_attempt := n + 1,
     run_retry_count := min (run_retry_count r + 1) (run_max_attempts r - 1),
     run_next_retry_at := Some retry_at\<rparr>"

abbreviation fail_call where
  "fail_call aid version delay now code msg worker bound clock rs \<equiv>
     transition_failed_attempt aid version delay now code msg worker bound clock rs"

lemma fail_cases:
  obtains "fail_call aid version delay now code msg worker bound clock rs = (Stale, rs)"
  | a r where "dict_get (rs_attempts rs) aid = Some a" "att_status a = ATT_RUNNING"
      "att_version a = version" "dict_get (rs_items rs) (att_run_id a) = Some r"
      "run_status r = CANCELLED"
      "fst (fail_call aid version delay now code msg worker bound clock rs) = TCancelled"
      "rs_items (snd (fail_call aid version delay now code msg worker bound clock rs)) = rs_items rs"
      "rs_attempts (snd (fail_call aid version delay now code msg worker bound clock rs)) =
         dict_set (rs_attempts rs) aid (a\<lparr>att_status := ATT_CANCELLED, att_completed_at := Some now,
           att_lease_expires_at := None, att_version := att_version a + 1\<rparr>)"
  | a r where "dict_get (rs_attempts rs) aid = Some a" "att_status a = ATT_RUNNING"
      "att_version a = version" "dict_get (rs_items rs) (att_run_id a) = Some r"
      "run_status r \<noteq> CANCELLED" "\<not> att_retryable a \<or> run_max_attempts r \<le> att_number a"
      "fst (fail_call aid version delay now code msg worker bound clock rs) = TFailed"
      "rs_items (snd (fail_call aid version delay now code msg worker bound clock rs)) =
         dict_set (rs_items rs) (run_id r) (failed_run now r)"
      "rs_attempts (snd (fail_call aid version delay now code msg worker bound clock rs)) =
         dict_set (rs_attempts rs) aid (failed_attempt code msg now a)"
  | a r where "dict_get (rs_attempts rs) aid = Some a" "att_status a = ATT_RUNNING"
      "att_version a = version" "dict_get (rs_items rs) (att_run_id a) = Some r"
      "run_status r \<noteq> CANCELLED" "att_retryable a" "att_number a < run_max_attempts r"
      "fst (fail_call aid version delay now code msg worker bound clock rs) = TRetryable"
      "rs_items (snd (fail_call aid version delay now code msg worker bound clock rs)) =
         dict_set (rs_items rs) (run_id r)
           (requeued_run (att_number a) (now + timedelta_seconds (max 0 delay)) r)"
      "rs_attempts (snd (fail_call aid version delay now code msg worker bound clock rs)) =
         dict_setdefault (dict_set (rs_attempts rs) aid (failed_attempt code msg now a))
           (retry_attempt_id (run_id r) (att_number a + 1)) (retry_attempt r a now)"
proof (cases "dict_get (rs_attempts rs) aid")
  case None
  then show ?thesis using that(1) by (simp add: transition_failed_attempt_def)
next
  case (Some a)
  let ?guard = "att_status a \<noteq> ATT_RUNNING \<or> att_version a \<noteq> version
     \<or> (worker \<noteq> None \<and> att_worker_id a \<noteq> worker) \<or> lease_not_expired bound a"
  show ?thesis
  proof (cases ?guard)
    case True
    with Some that(1) show ?thesis by (simp add: transition_failed_attempt_def)
  next
    case g: False
    show ?thesis
    proof (cases "dict_get (rs_items rs) (att_run_id a)")
      case None
      with Some g that(1) show ?thesis by (simp add: transition_failed_attempt_def)
    next
      case run: (Some r)
      note call = transition_failed_attempt_def [of aid version delay now code msg worker bound clock rs]
      consider "run_status r = CANCELLED"
        | "run_status r \<noteq> CANCELLED" "\<not> att_retryable a \<or> run_max_attempts r \<le> att_number a"
        | "run_status r \<noteq> CANCELLED" "att_retryable a" "att_number a < run_max_attempts r"
        by linarith
      then show ?thesis
      proof cases
        case 1
        show ?thesis
          by (rule that(2) [OF Some _ _ run 1]; cases worker) (use g Some run 1 call in simp_all)
      next
        case 2
        show ?thesis
          by (rule that(3) [OF Some _ _ run 2]; cases worker)
            (use g Some run 2 call in \<open>simp_all add: Let_def failed_run_def failed_attempt_def\<close>)
      next
        case 3
        show ?thesis
          by (rule that(4) [OF Some _ _ run 3]; cases worker)
            (use g Some run 3 call in \<open>simp_all add: Let_def requeued_run_def failed_attempt_def\<close>)
      qed
    qed
  qed
qed

lemma failed_attempt_frame [simp]:
  "att_id (failed_attempt code msg now a) = att_id a"
  "att_run_id (failed_attempt code msg now a) = att_run_id a"
  "att_number (failed_attempt code msg now a) = att_number a"
  "att_version (failed_attempt code msg now a) = att_version a + 1"
  "att_status (failed_attempt code msg now a) = ATT_FAILED"
  "att_retryable (failed_attempt code msg now a) = att_retryable a"
  "\<not> live (failed_attempt code msg now a)"
  by (simp_all add: failed_attempt_def live_def)

lemma requeued_run_frame [simp]:
  "run_id (requeued_run n t r) = run_id r" "run_current_attempt (requeued_run n t r) = n + 1"
  "run_status (requeued_run n t r) = QUEUED" "run_max_attempts (requeued_run n t r) = run_max_attempts r"
  by (simp_all add: requeued_run_def)

lemma failed_run_frame [simp]:
  "run_id (failed_run now r) = run_id r" "run_current_attempt (failed_run now r) = run_current_attempt r"
  "run_status (failed_run now r) = FAILED" "bounds_ok (failed_run now r) = bounds_ok r"
  by (simp_all add: failed_run_def bounds_ok_def)

lemma fail_ok:
  assumes ok: "store_ok rs"
  shows "store_ok (snd (fail_call aid version delay now code msg worker bound clock rs))"
proof (rule fail_cases [of aid version delay now code msg worker bound clock rs], goal_cases)
  case 1
  then show ?case using ok by simp
next
  case (2 a r)
  then have "live a" by (simp add: live_def)
  from live_run [OF ok 2(1) this] 2 have False by auto
  then show ?case ..
next
  case (3 a r)
  then have "live a" by (simp add: live_def)
  show ?case unfolding 3(8,9)
    by (rule lifecycle_replace [OF ok 3(1) \<open>live a\<close> 3(4)])
      (use lifecycle_run [OF ok 3(4)] in simp_all)
next
  case (4 a r)
  then have "live a" by (simp add: live_def)
  have "lifecycle_ok (dict_set (rs_items rs) (run_id r)
      (requeued_run (att_number a) (now + timedelta_seconds (max 0 delay)) r))
      (dict_setdefault (dict_set (rs_attempts rs) aid (failed_attempt code msg now a))
        (att_id (retry_attempt r a now)) (retry_attempt r a now))"
    by (rule lifecycle_retry [OF ok 4(1) \<open>live a\<close> 4(4)])
      (use 4 lifecycle_run [OF ok 4(4)] in
        \<open>simp_all add: retry_attempt_def live_def bounds_ok_def requeued_run_def\<close>)
  then show ?case unfolding 4(9,10) by (simp add: retry_attempt_def)
qed

lemma cancel_cases:
  obtains "cancel rid now event rs = (None, rs)"
  | r where "dict_get (rs_items rs) rid = Some r" "\<not> run_terminal (run_status r)"
      "rs_items (snd (cancel rid now event rs)) = dict_set (rs_items rs) rid
         (r\<lparr>run_status := CANCELLED, run_cancel_requested_at := Some now, run_completed_at := Some now\<rparr>)"
      "rs_attempts (snd (cancel rid now event rs)) =
         map (\<lambda>kv. (fst kv, cancel_attempt rid now (snd kv))) (rs_attempts rs)"
proof (cases "dict_get (rs_items rs) rid")
  case None
  then show ?thesis using that(1) by (simp add: cancel_def)
next
  case (Some r)
  show ?thesis
  proof (cases "run_terminal (run_status r)")
    case True
    with Some that(1) show ?thesis by (simp add: cancel_def)
  next
    case False
    show ?thesis
      by (rule that(2) [OF Some False])
        (use Some False in \<open>simp_all add: cancel_def Let_def split: option.splits\<close>)
  qed
qed

lemma cancel_ok: "store_ok rs \<Longrightarrow> store_ok (snd (cancel rid now event rs))"
proof (rule cancel_cases [of rid now event rs], goal_cases)
  case 1
  then show ?case by simp
next
  case (2 r)
  show ?case unfolding 2(4,5)
    by (rule lifecycle_cancel [OF 2(1,2)])
      (use lifecycle_run [OF 2(1,2)] in \<open>simp_all add: bounds_ok_def\<close>)
qed

text \<open>Under the invariant the sweep of a cancelled run finds no running attempt.\<close>

lemma sweep_noop:
  assumes ok: "store_ok rs" and "dict_get (rs_items rs) (att_run_id a) = Some r"
    and "run_status r = CANCELLED" and a: "dict_get (rs_attempts rs) aid = Some a"
  shows "compare_and_set_attempt aid ATT_RUNNING new worker version bound now code msg rs = (None, rs)"
proof -
  have "\<not> live a" using live_run [OF ok a] assms(2,3) by fastforce
  with a show ?thesis by (auto simp: compare_and_set_attempt_def live_def)
qed

theorem run_step_ok: "run_step rs rs' \<Longrightarrow> store_ok rs \<Longrightarrow> store_ok rs'"
proof (induction rule: run_step.induct)
  case (sweep_cancelled rs rid r aid a version now)
  then show ?case using sweep_noop [of rs a r aid] by simp
next
  case (record_event e rs e' rs')
  then show ?case using append_event_frame [of e rs e' rs'] by simp
qed (simp_all add: lifecycle_submit start_ok claim_ok heartbeat_ok settle_ok fail_ok cancel_ok)

lemma run_steps_ok: "run_steps rs rs' \<Longrightarrow> store_ok rs \<Longrightarrow> store_ok rs'"
  by (induction rule: run_steps.induct) (auto intro: run_step_ok)

lemma empty_store_ok: "store_ok empty_run_store"
  by (simp add: empty_run_store_def lifecycle_ok_def)

lemma reachable_store_ok: "runs_reachable rs \<Longrightarrow> store_ok rs"
  unfolding runs_reachable_def using run_steps_ok empty_store_ok by blast

section \<open>Every unfinished run is served by exactly one attempt\<close>

text \<open>
  C1. In every state the protocol reaches, a run that is not finished has exactly one live
  (retryable or running) attempt, it is the run's current attempt, and its number does not
  exceed the configured maximum; a finished run has no live attempt. No run is stranded and
  no run is executed under two attempts.
\<close>

theorem unfinished_run_has_one_live_attempt:
  assumes "runs_reachable rs" and r: "dict_get (rs_items rs) rid = Some r"
  shows "(\<not> run_terminal (run_status r) \<longrightarrow>
      (\<exists>!aid. \<exists>a. dict_get (rs_attempts rs) aid = Some a \<and> att_run_id a = rid \<and> live a))
    \<and> (\<forall>aid a. dict_get (rs_attempts rs) aid = Some a \<longrightarrow> att_run_id a = rid \<longrightarrow> live a \<longrightarrow>
        \<not> run_terminal (run_status r) \<and> att_number a = run_current_attempt r
        \<and> att_number a \<le> run_max_attempts r)"
proof -
  have ok: "store_ok rs" using assms(1) by (rule reachable_store_ok)
  have "\<not> run_terminal (run_status r) \<and> att_number a = run_current_attempt r
      \<and> att_number a \<le> run_max_attempts r"
    if "dict_get (rs_attempts rs) aid = Some a" "att_run_id a = rid" "live a" for aid a
    by (rule live_run [OF ok that(1,3)]) (use that(2) r in \<open>simp add: bounds_ok_def\<close>)
  moreover have "\<exists>!aid. \<exists>a. dict_get (rs_attempts rs) aid = Some a \<and> att_run_id a = rid \<and> live a"
    if "\<not> run_terminal (run_status r)"
    using lifecycle_run [OF ok r] that live_unique [OF ok] unfolding served_def by metis
  ultimately show ?thesis by blast
qed

section \<open>Terminal states are absorbing\<close>

lemma dict_get_set_other: "k \<noteq> k' \<Longrightarrow> dict_get (dict_set d k v) k' = dict_get d k'"
  by simp

lemma live_run_other:
  assumes "store_ok rs" "dict_get (rs_attempts rs) aid = Some a" "att_status a = ATT_RUNNING"
    "dict_get (rs_items rs) (att_run_id a) = Some q" "dict_get (rs_items rs) rid = Some r"
    "run_terminal (run_status r)"
  shows "run_id q \<noteq> rid"
proof -
  from assms(3) have "live a" by (simp add: live_def)
  with assms(1,2) obtain p where "dict_get (rs_items rs) (att_run_id a) = Some p"
    "run_id p = att_run_id a" "\<not> run_terminal (run_status p)"
    by (rule live_run)
  with assms(4-6) show ?thesis by auto
qed

lemma step_terminal:
  assumes "run_step rs rs'" and "store_ok rs" and "dict_get (rs_items rs) rid = Some r"
    and "run_terminal (run_status r)"
  shows "\<exists>r'. dict_get (rs_items rs') rid = Some r' \<and> run_status r' = run_status r"
  using assms
proof (induction rule: run_step.induct)
  case (submit q a rs)
  then show ?case by (auto simp: submit_def add_outbox_def add_attempt_def fresh_submission_def)
next
  case (start rs k now)
  then show ?case
    by (cases "dict_get (rs_items rs) k") (auto simp: compare_and_set_status_def Let_def)
next
  case (claim rs k worker lease now)
  then show ?case by (auto elim: claim_cases [of rs k worker lease now])
next
  case (heartbeat rs aid worker lease version now)
  then show ?case by (auto simp: heartbeat_def split: option.splits)
next
  case (settle status rs aid worker version event now code msg)
  show ?case
  proof (rule finalize_cases [of aid worker version status event now code msg rs], goal_cases)
    case 1
    then show ?case using settle by simp
  next
    case (2 a q)
    have "run_id q \<noteq> rid" using live_run_other [OF settle(2) 2(1,2,5) settle(3,4)] .
    then show ?case using 2(9) settle by simp
  qed
next
  case (fail rs aid version delay now code msg worker bound clock)
  show ?case
  proof (rule fail_cases [of aid version delay now code msg worker bound clock rs], goal_cases)
    case 1
    then show ?case using fail by simp
  next
    case (2 a q)
    then show ?case using fail by simp
  next
    case (3 a q)
    have "run_id q \<noteq> rid" using live_run_other [OF fail(1) 3(1,2,4) fail(2,3)] .
    then show ?case using 3(8) fail by simp
  next
    case (4 a q)
    have "run_id q \<noteq> rid" using live_run_other [OF fail(1) 4(1,2,4) fail(2,3)] .
    then show ?case using 4(9) fail by simp
  qed
next
  case (cancel rs k now event)
  show ?case
  proof (rule cancel_cases [of k now event rs], goal_cases)
    case 1
    then show ?case using cancel by simp
  next
    case (2 q)
    then have "k \<noteq> rid" using cancel by auto
    then show ?case using 2(3) cancel by simp
  qed
next
  case (sweep_cancelled rs k q aid a version now)
  then show ?case using sweep_noop [of rs a q aid] by simp
next
  case (record_event e rs e' rs')
  then show ?case using append_event_frame [of e rs e' rs'] by simp
next
  case (publish rs k)
  then show ?case by simp
qed

lemma steps_terminal:
  assumes "run_steps rs rs'" and "store_ok rs" and "dict_get (rs_items rs) rid = Some r"
    and "run_terminal (run_status r)"
  shows "\<exists>r'. dict_get (rs_items rs') rid = Some r' \<and> run_status r' = run_status r"
  using assms
proof (induction rule: run_steps.induct)
  case (step rs rs' rs'')
  from step.IH [OF step.prems] obtain q
    where q: "dict_get (rs_items rs') rid = Some q" "run_status q = run_status r" by blast
  from step_terminal [OF step.hyps(2) run_steps_ok [OF step.hyps(1) step.prems(1)] q(1)] q(2) step.prems(3)
  show ?case by auto
qed simp

text \<open>
  C6. Terminal run statuses are absorbing: once a reachable state shows a run as completed,
  failed or cancelled, every later state of the protocol shows it with that same status,
  whatever claims, heartbeats, finalizations, failures, cancellations and sweeps happen in
  between.
\<close>

theorem terminal_status_is_final:
  assumes "runs_reachable rs" and "run_steps rs rs'"
    and "dict_get (rs_items rs) rid = Some r" and "run_terminal (run_status r)"
  shows "\<exists>r'. dict_get (rs_items rs') rid = Some r' \<and> run_status r' = run_status r"
  using steps_terminal [OF assms(2) reachable_store_ok [OF assms(1)] assms(3,4)] .

section \<open>Fencing\<close>

text \<open>
  An attempt keeps its run, its number and whether it may be retried; its version never
  decreases, and while the version stays the attempt keeps its status and its worker.
\<close>

definition version_le :: "run_attempt \<Rightarrow> run_attempt \<Rightarrow> bool" where
  "version_le a b = (att_run_id b = att_run_id a \<and> att_number b = att_number a
     \<and> att_retryable b = att_retryable a \<and> att_version a \<le> att_version b \<and>
     (att_version b = att_version a \<longrightarrow> att_status b = att_status a \<and> att_worker_id b = att_worker_id a))"

lemma version_le_refl [simp]: "version_le a a"
  by (simp add: version_le_def)

lemma version_le_trans: "version_le a b \<Longrightarrow> version_le b c \<Longrightarrow> version_le a c"
  by (auto simp: version_le_def)

lemma version_le_bump [simp]:
  "att_version b = Suc (att_version a) \<Longrightarrow> att_run_id b = att_run_id a \<Longrightarrow>
     att_number b = att_number a \<Longrightarrow> att_retryable b = att_retryable a \<Longrightarrow> version_le a b"
  by (simp add: version_le_def)

lemma set_version:
  assumes "dict_get d aid = Some a" "version_le a a'" "dict_get d k = Some x"
  shows "\<exists>y. dict_get (dict_set d aid a') k = Some y \<and> version_le x y"
  using assms by auto

lemma step_version:
  assumes "run_step rs rs'" and "store_ok rs" and "dict_get (rs_attempts rs) k = Some x"
  shows "\<exists>y. dict_get (rs_attempts rs') k = Some y \<and> version_le x y"
  using assms
proof (induction rule: run_step.induct)
  case (submit q a rs)
  then show ?case by (auto simp: submit_def add_outbox_def add_attempt_def)
next
  case (start rs rid now)
  then show ?case
    by (cases "dict_get (rs_items rs) rid") (auto simp: compare_and_set_status_def Let_def)
next
  case (claim rs rid worker lease now)
  show ?case
  proof (rule claim_cases [OF claim(1), of rid worker lease now], goal_cases)
    case 1
    then show ?case using claim by simp
  next
    case (2 a a')
    from set_version [OF 2(1) _ claim(2), of a'] show ?case using 2(4,5) by simp
  qed
next
  case (heartbeat rs aid worker lease version now)
  show ?case
  proof (cases "dict_get (rs_attempts rs) aid")
    case (Some a)
    from set_version [OF Some _ heartbeat(2), of "a\<lparr>att_heartbeat_at := Some now,
        att_lease_expires_at := Some (now + timedelta_seconds lease)\<rparr>"]
    show ?thesis using Some heartbeat(2) by (simp add: heartbeat_def version_le_def)
  qed (use heartbeat in \<open>simp add: heartbeat_def\<close>)
next
  case (settle status rs aid worker version event now code msg)
  show ?case
  proof (rule finalize_cases [of aid worker version status event now code msg rs], goal_cases)
    case 1
    then show ?case using settle by simp
  next
    case (2 a q)
    show ?case unfolding 2(8) by (rule set_version [OF 2(1) _ settle(3)]) simp
  qed
next
  case (fail rs aid version delay now code msg worker bound clock)
  show ?case
  proof (rule fail_cases [of aid version delay now code msg worker bound clock rs], goal_cases)
    case 1
    then show ?case using fail by simp
  next
    case (2 a q)
    show ?case unfolding 2(8) by (rule set_version [OF 2(1) _ fail(2)]) simp
  next
    case (3 a q)
    show ?case unfolding 3(9) by (rule set_version [OF 3(1) _ fail(2)]) simp
  next
    case (4 a q)
    have "version_le a (failed_attempt code msg now a)" by simp
    from set_version [OF 4(1) this fail(2)] show ?case unfolding 4(10) by fastforce
  qed
next
  case (cancel rs rid now event)
  show ?case
  proof (rule cancel_cases [of rid now event rs], goal_cases)
    case 1
    then show ?case using cancel by simp
  next
    case (2 q)
    have "version_le x (cancel_attempt rid now x)" by (simp add: cancel_attempt_def)
    then show ?case using cancel(2) unfolding 2(4) map_of_map_snd by simp
  qed
next
  case (sweep_cancelled rs rid q aid a version now)
  then show ?case using sweep_noop [of rs a q aid] by simp
next
  case (record_event e rs e' rs')
  then show ?case using append_event_frame [of e rs e' rs'] by simp
next
  case (publish rs rid)
  then show ?case by simp
qed

lemma steps_version:
  assumes "run_steps rs rs'" and "store_ok rs" and "dict_get (rs_attempts rs) k = Some x"
  shows "\<exists>y. dict_get (rs_attempts rs') k = Some y \<and> version_le x y"
  using assms
proof (induction rule: run_steps.induct)
  case (step rs rs' rs'')
  from step.IH [OF step.prems] obtain y
    where y: "dict_get (rs_attempts rs') k = Some y" "version_le x y" by blast
  from step_version [OF step.hyps(2) run_steps_ok [OF step.hyps(1) step.prems(1)] y(1)] y(2)
  show ?case by (blast intro: version_le_trans)
qed simp

lemma stale_version_refused:
  assumes "dict_get (rs_attempts rs) aid = Some a" and "att_version a \<noteq> v"
  shows "finalize_attempt aid worker v status event now code msg rs = (None, rs)"
    and "heartbeat aid worker lease (Some v) now rs = (False, rs)"
    and "transition_failed_attempt aid v delay now ecode emsg w bound clock rs = (Stale, rs)"
  using assms by (simp_all add: finalize_attempt_def heartbeat_def transition_failed_attempt_def)

lemma fenced_after_bump:
  assumes "runs_reachable rs" and "run_steps rs rs'"
    and "dict_get (rs_attempts rs) aid = Some a" and "v < att_version a"
  shows "finalize_attempt aid worker v status event now code msg rs' = (None, rs')
    \<and> heartbeat aid worker lease (Some v) now rs' = (False, rs')
    \<and> transition_failed_attempt aid v delay now ecode emsg w bound clock rs' = (Stale, rs')"
proof -
  obtain b where "dict_get (rs_attempts rs') aid = Some b" "version_le a b"
    using steps_version [OF assms(2) reachable_store_ok [OF assms(1)] assms(3)] by blast
  with assms(4) stale_version_refused [of rs' aid b v] show ?thesis
    by (auto simp: version_le_def)
qed

text \<open>
  C7. Fencing: a worker that holds an outdated version of an attempt (because the attempt was
  claimed again, settled, failed or cancelled since) is refused by every operation of the
  protocol, now and in every later state, and the refusal changes nothing.
\<close>

theorem outdated_worker_is_fenced:
  assumes "runs_reachable rs" and "run_steps rs rs'"
    and "dict_get (rs_attempts rs) aid = Some a" and "v < att_version a"
  shows "finalize_attempt aid worker v status event now code msg rs' = (None, rs')
    \<and> heartbeat aid worker lease (Some v) now rs' = (False, rs')
    \<and> transition_failed_attempt aid v delay now ecode emsg w bound clock rs' = (Stale, rs')"
  using fenced_after_bump [OF assms] .

text \<open>
  At most one settlement: after a worker has finalized an attempt, no worker, itself
  included, can finalize that attempt again with the same fencing version in any later state,
  so the terminal event and the outbox row are written once.
\<close>

theorem attempt_settles_at_most_once:
  assumes "runs_reachable rs" and "run_terminal status"
    and "fst (finalize_attempt aid worker v status event now code msg rs) \<noteq> None"
    and "run_steps (snd (finalize_attempt aid worker v status event now code msg rs)) rs'"
  shows "finalize_attempt aid worker' v status' event' now' code' msg' rs' = (None, rs')"
proof -
  let ?rs = "snd (finalize_attempt aid worker v status event now code msg rs)"
  have "run_step rs ?rs" using assms(2) by (rule run_step.settle)
  with assms(1) have reach: "runs_reachable ?rs"
    unfolding runs_reachable_def by (rule run_steps.step)
  obtain b where "dict_get (rs_attempts ?rs) aid = Some b" "att_version b = v + 1"
    by (rule finalize_cases [of aid worker v status event now code msg rs]) (use assms(3) in auto)
  then show ?thesis
    using fenced_after_bump [OF reach assms(4), of aid b v] by simp
qed

text \<open>
  Lease exclusion: while a worker's lease on a run's attempt has not run out, no claim of
  that run by any worker succeeds, and the refused claim changes nothing.
\<close>

theorem unexpired_lease_excludes_claims:
  assumes "runs_reachable rs" and a: "dict_get (rs_attempts rs) aid = Some a"
    and "att_status a = ATT_RUNNING" "att_worker_id a = Some w" "att_lease_expires_at a = Some l"
    and "now < l"
  shows "claim (att_run_id a) w' lease now rs = (None, rs)"
proof -
  have ok: "store_ok rs" using assms(1) by (rule reachable_store_ok)
  have live: "live a" using assms(3) by (simp add: live_def)
  show ?thesis
  proof (rule claim_cases [OF ok, of "att_run_id a" w' lease now], goal_cases)
    case (2 b b')
    then have "aid = att_id b"
      using live_unique [OF ok a live 2(1) claimable_live] by simp
    with 2(1) a have "b = a" by simp
    with 2(3) assms(3-6) show ?case by (simp add: claimable_def)
  qed simp
qed

section \<open>Concrete runs\<close>

definition sample_run :: run where
  "sample_run = \<lparr>run_id = ''r1'', run_thread_id = ''t1'', run_workspace_id = ''w'',
     run_requested_by_user_id = ''u'', run_mission_id = Some ''m1'', run_status = QUEUED,
     run_current_attempt = 1, run_max_attempts = 3, run_retry_count = 0, run_next_retry_at = None,
     run_cancel_requested_at = None, run_metadata = [], run_created_at = 0,
     run_started_at = None, run_completed_at = None\<rparr>"

definition sample_attempt :: run_attempt where
  "sample_attempt = \<lparr>att_id = ''a1'', att_run_id = ''r1'', att_number = 1,
     att_status = ATT_RETRYABLE, att_worker_id = None, att_lease_expires_at = None,
     att_heartbeat_at = None, att_retryable = True, att_version = 0, att_error_code = None,
     att_error_message = None, att_started_at = 0, att_completed_at = None\<rparr>"

definition submitted_store :: run_store where
  "submitted_store = submit sample_run sample_attempt empty_run_store"

definition claimed_store :: run_store where
  "claimed_store = snd (claim ''r1'' ''worker'' 60 0 submitted_store)"

definition claimed_attempt :: run_attempt where
  "claimed_attempt = sample_attempt\<lparr>att_status := ATT_RUNNING, att_worker_id := Some ''worker'',
     att_heartbeat_at := Some 0, att_lease_expires_at := Some 60000000, att_version := 1\<rparr>"

lemma submitted_store_reachable: "runs_reachable submitted_store"
proof -
  have "fresh_submission sample_run sample_attempt empty_run_store"
    by (simp add: fresh_submission_def sample_run_def sample_attempt_def empty_run_store_def
        str_startswith_def)
  then have "run_step empty_run_store submitted_store"
    unfolding submitted_store_def by (rule run_step.submit)
  then show ?thesis unfolding runs_reachable_def using run_steps.refl run_steps.step by blast
qed

lemma submitted_store_simps [simp]:
  "rs_items submitted_store = [(''r1'', sample_run)]"
  "rs_attempts submitted_store = [(''a1'', sample_attempt)]"
  "rs_events submitted_store = []" "rs_outbox submitted_store = [(''r1'', False)]"
  by (simp_all add: submitted_store_def submit_def add_outbox_def add_attempt_def
      empty_run_store_def dict_setdefault_def sample_run_def sample_attempt_def)

lemma timedelta_60 [simp]: "timedelta_seconds 60 = 60000000"
proof -
  have "timedelta_seconds 60 = round_half_even (of_int 60000000)"
    by (simp add: timedelta_seconds_def)
  then show ?thesis by (simp only: round_half_even_of_int)
qed

lemma claimed_store_simps [simp]:
  "rs_items claimed_store = [(''r1'', sample_run)]"
  "rs_attempts claimed_store = [(''a1'', claimed_attempt)]"
  "rs_events claimed_store = []" "rs_outbox claimed_store = [(''r1'', False)]"
  by (simp_all add: claimed_store_def claim_def sorted_desc_def claimable_def sample_attempt_def
      claimed_attempt_def Let_def)

lemma claimed_store_reachable: "runs_reachable claimed_store"
  using submitted_store_reachable run_step.claim run_steps.step
  unfolding runs_reachable_def claimed_store_def by blast

theorem unfinished_run_has_one_live_attempt_witness:
  "\<exists>!aid. \<exists>a. dict_get (rs_attempts claimed_store) aid = Some a \<and> att_run_id a = ''r1'' \<and> live a"
  using unfinished_run_has_one_live_attempt [OF claimed_store_reachable, of "''r1''" sample_run]
  by (simp add: sample_run_def)

theorem terminal_status_is_final_witness:
  "\<exists>r'. dict_get (rs_items (snd (claim ''r1'' ''other'' 60 9 (snd (cancel ''r1'' 5 None claimed_store)))))
      ''r1'' = Some r' \<and> run_status r' = CANCELLED"
proof -
  let ?rs = "snd (cancel ''r1'' 5 None claimed_store)"
  have "runs_reachable ?rs"
    using claimed_store_reachable run_step.cancel run_steps.step unfolding runs_reachable_def by blast
  moreover have "run_steps ?rs (snd (claim ''r1'' ''other'' 60 9 ?rs))"
    using run_steps.refl run_step.claim run_steps.step by blast
  moreover have "dict_get (rs_items ?rs) ''r1'' = Some (sample_run\<lparr>run_status := CANCELLED,
      run_cancel_requested_at := Some 5, run_completed_at := Some 5\<rparr>)"
    by (simp add: cancel_def sample_run_def)
  ultimately show ?thesis by (rule terminal_status_is_final [elim_format]) simp_all
qed

theorem outdated_worker_is_fenced_witness:
  "heartbeat ''a1'' ''worker'' 60 (Some 0) 7 claimed_store = (False, claimed_store)"
  using outdated_worker_is_fenced [OF claimed_store_reachable run_steps.refl, of "''a1''" claimed_attempt 0]
  by (simp add: claimed_attempt_def)

theorem attempt_settles_at_most_once_witness:
  "fst (finalize_attempt ''a1'' ''worker'' 1 COMPLETED (fresh_event ''e'' sample_run ''k'' [] 0) 3
      None None claimed_store) \<noteq> None
   \<and> fst (finalize_attempt ''a1'' ''worker'' 1 FAILED (fresh_event ''f'' sample_run ''k'' [] 0) 4
      None None (snd (finalize_attempt ''a1'' ''worker'' 1 COMPLETED
        (fresh_event ''e'' sample_run ''k'' [] 0) 3 None None claimed_store))) = None"
proof -
  have won: "fst (finalize_attempt ''a1'' ''worker'' 1 COMPLETED
      (fresh_event ''e'' sample_run ''k'' [] 0) 3 None None claimed_store) \<noteq> None"
    by (simp add: finalize_attempt_def claimed_attempt_def sample_attempt_def sample_run_def Let_def)
  from attempt_settles_at_most_once [OF claimed_store_reachable _ won run_steps.refl] won
  show ?thesis by simp
qed

theorem unexpired_lease_excludes_claims_witness:
  "claim ''r1'' ''other'' 60 59999999 claimed_store = (None, claimed_store)"
proof -
  have "claim (att_run_id claimed_attempt) ''other'' 60 59999999 claimed_store = (None, claimed_store)"
    by (rule unexpired_lease_excludes_claims [OF claimed_store_reachable, of "''a1''" _ "''worker''" 60000000])
      (simp_all add: claimed_attempt_def)
  then show ?thesis by (simp add: claimed_attempt_def sample_attempt_def)
qed

end
