(* ===== verification/Run_Events.thy ===== *)
theory Run_Events
  imports Run_Lifecycle
begin

text \<open>
  The event logs of the run repository: every run's log is strictly increasing in its sequence
  number and holds no identifier twice, and the events of a thread, whichever runs they belong
  to, carry distinct thread sequence numbers that only grow. A client that replays a thread
  from its last cursor therefore sees every event exactly once and in order.
\<close>

section \<open>Logs\<close>

type_synonym event_logs = "(string, activity_event list) dict"

definition thread_log :: "event_logs \<Rightarrow> string \<Rightarrow> activity_event list" where
  "thread_log L tid = filter (\<lambda>e. ev_thread_id e = tid) (concat (dict_values L))"

definition log_of :: "event_logs \<Rightarrow> string \<Rightarrow> activity_event list" where
  "log_of L rid = (case dict_get L rid of None \<Rightarrow> [] | Some es \<Rightarrow> es)"

lemma run_events_log: "run_events rs rid = log_of (rs_events rs) rid"
  by (simp add: run_events_def log_of_def)

lemma max_thread_sequence_log:
  "max_thread_sequence rs tid = max_default (map ev_thread_sequence (thread_log (rs_events rs) tid))"
  by (simp add: max_thread_sequence_def thread_log_def)

definition logs_ok :: "event_logs \<Rightarrow> bool" where
  "logs_ok L =
     (dict_wf L
      \<and> (\<forall>rid. sorted_wrt (<) (map ev_sequence (log_of L rid)) \<and> distinct (map ev_id (log_of L rid))
           \<and> (\<forall>e \<in> set (log_of L rid). 0 < ev_sequence e))
      \<and> (\<forall>tid. distinct (map ev_thread_sequence (thread_log L tid))
           \<and> (\<forall>e \<in> set (thread_log L tid). 0 < ev_thread_sequence e)))"

text \<open>
  What any operation does to the logs: nothing, open an empty log, or append one event whose
  identifier is new to the log and whose sequence numbers lie above all earlier ones.
\<close>

definition appendable :: "event_logs \<Rightarrow> string \<Rightarrow> activity_event \<Rightarrow> bool" where
  "appendable L rid e =
     (ev_id e \<notin> ev_id ` set (log_of L rid) \<and> last_sequence (log_of L rid) < ev_sequence e
      \<and> ev_thread_sequence e =
          max_default (map ev_thread_sequence (thread_log L (ev_thread_id e))) + 1)"

inductive log_step :: "event_logs \<Rightarrow> event_logs \<Rightarrow> bool" where
  same: "log_step L L"
| touch: "log_step L (dict_setdefault L rid [])"
| append: "appendable L rid e \<Longrightarrow>
    log_step L (dict_set (dict_setdefault L rid []) rid (log_of L rid @ [e]))"

lemma log_of_setdefault [simp]: "log_of (dict_setdefault L rid []) k = log_of L k"
  by (auto simp: log_of_def)

lemma log_of_set: "log_of (dict_set L rid es) k = (if k = rid then es else log_of L k)"
  by (simp add: log_of_def)

lemma thread_log_setdefault [simp]: "thread_log (dict_setdefault L rid []) tid = thread_log L tid"
  by (simp add: thread_log_def dict_setdefault_def split: option.splits)

lemma mset_concat_set:
  "dict_get L k = Some es \<Longrightarrow>
     mset (concat (dict_values (dict_set L k (es @ [e])))) = add_mset e (mset (concat (dict_values L)))"
  by (induction L k "es @ [e]" rule: dict_set.induct) (auto split: if_splits)

lemma mset_thread_log_append:
  "mset (thread_log (dict_set (dict_setdefault L rid []) rid (log_of L rid @ [e])) tid) =
     mset (thread_log L tid @ filter (\<lambda>x. ev_thread_id x = tid) [e])"
proof -
  let ?L = "dict_setdefault L rid []"
  have "dict_get ?L rid = Some (log_of L rid)" by (auto simp: log_of_def split: option.splits)
  then have "mset (thread_log (dict_set ?L rid (log_of L rid @ [e])) tid) =
      filter_mset (\<lambda>x. ev_thread_id x = tid) (add_mset e (mset (concat (dict_values ?L))))"
    unfolding thread_log_def mset_filter by (simp only: mset_concat_set)
  also have "\<dots> = filter_mset (\<lambda>x. ev_thread_id x = tid) {#e#} + mset (thread_log ?L tid)"
    by (simp add: thread_log_def mset_filter)
  finally show ?thesis by simp
qed

lemma thread_log_below:
  "x \<in> set (thread_log L tid) \<Longrightarrow>
     ev_thread_sequence x \<le> max_default (map ev_thread_sequence (thread_log L tid))"
  by (rule max_default_ge) simp

lemma last_sequence_max:
  "sorted_wrt (<) (map ev_sequence es) \<Longrightarrow> x \<in> set es \<Longrightarrow> ev_sequence x \<le> last_sequence es"
proof (induction es rule: rev_induct)
  case (snoc y es)
  then show ?case by (auto simp: last_sequence_def sorted_wrt_append)
qed simp

lemma log_step_ok:
  assumes "log_step L L'" and "logs_ok L"
  shows "logs_ok L'"
  using assms
proof (cases rule: log_step.cases)
  case touch
  with assms(2) show ?thesis by (simp add: logs_ok_def)
next
  case (append rid e)
  note mset = mset_thread_log_append [of L rid e]
  have log: "log_of L' k = (if k = rid then log_of L rid @ [e] else log_of L k)" for k
    by (simp add: append(1) log_of_set)
  have run: "sorted_wrt (<) (map ev_sequence (log_of L' k)) \<and> distinct (map ev_id (log_of L' k))
      \<and> (\<forall>x \<in> set (log_of L' k). 0 < ev_sequence x)" for k
  proof -
    from assms(2) have old: "sorted_wrt (<) (map ev_sequence (log_of L j))"
      "distinct (map ev_id (log_of L j))" "\<forall>x \<in> set (log_of L j). 0 < ev_sequence x" for j
      unfolding logs_ok_def by blast+
    have "\<forall>x \<in> set (log_of L rid). ev_sequence x < ev_sequence e"
      using last_sequence_max [OF old(1)] append(2) le_less_trans unfolding appendable_def by blast
    with old append(2) show ?thesis by (auto simp: log appendable_def sorted_wrt_append)
  qed
  have thread: "distinct (map ev_thread_sequence (thread_log L' tid))
      \<and> (\<forall>x \<in> set (thread_log L' tid). 0 < ev_thread_sequence x)" for tid
  proof -
    let ?xs = "thread_log L tid @ filter (\<lambda>x. ev_thread_id x = tid) [e]"
    have eq: "mset (thread_log L' tid) = mset ?xs" unfolding append(1) by (rule mset)
    then have "mset (map ev_thread_sequence (thread_log L' tid)) = mset (map ev_thread_sequence ?xs)"
      unfolding mset_map by simp
    then have "distinct (map ev_thread_sequence (thread_log L' tid)) =
        distinct (map ev_thread_sequence ?xs)" by (rule mset_eq_imp_distinct_iff)
    moreover have "set (thread_log L' tid) = set ?xs" using eq by (rule mset_eq_setD)
    moreover have "distinct (map ev_thread_sequence ?xs)"
    proof -
      have "distinct (map ev_thread_sequence (thread_log L tid))"
        using assms(2) by (simp add: logs_ok_def)
      moreover have "ev_thread_sequence e \<notin> ev_thread_sequence ` set (thread_log L tid)"
        if "ev_thread_id e = tid"
        using that append(2) thread_log_below [of _ L tid] by (fastforce simp: appendable_def)
      ultimately show ?thesis by simp
    qed
    ultimately show ?thesis using assms(2) append(2) by (auto simp: logs_ok_def appendable_def)
  qed
  have "dict_wf L'" using assms(2) by (simp add: append(1) logs_ok_def)
  with run thread show ?thesis by (simp add: logs_ok_def)
qed simp

section \<open>Every operation is a log step\<close>

lemma push_is_log_step:
  "appendable (rs_events rs) rid e \<Longrightarrow>
     log_step (rs_events rs) (rs_events (push_event rid e (touch_events rid rs)))"
  by (simp add: push_event_def touch_events_def run_events_log log_step.append)

lemma touch_is_log_step: "log_step (rs_events rs) (rs_events (touch_events rid rs))"
  by (simp add: touch_events_def log_step.touch)

lemma touch_views [simp]:
  "run_events (touch_events rid rs) k = run_events rs k"
  "max_thread_sequence (touch_events rid rs) tid = max_thread_sequence rs tid"
  by (simp_all add: run_events_log max_thread_sequence_log touch_events_def)

lemma views_frame [simp]:
  "run_events (rs_items_update f rs) k = run_events rs k"
  "run_events (rs_attempts_update g rs) k = run_events rs k"
  "max_thread_sequence (rs_items_update f rs) tid = max_thread_sequence rs tid"
  "max_thread_sequence (rs_attempts_update g rs) tid = max_thread_sequence rs tid"
  "touch_events k (rs_items_update f rs) = rs_items_update f (touch_events k rs)"
  "touch_events k (rs_attempts_update g rs) = rs_attempts_update g (touch_events k rs)"
  "push_event k e (rs_items_update f rs) = rs_items_update f (push_event k e rs)"
  "push_event k e (rs_attempts_update g rs) = rs_attempts_update g (push_event k e rs)"
  by (simp_all add: run_events_def max_thread_sequence_def touch_events_def push_event_def)

lemma appendable_stamped:
  "find (\<lambda>x. ev_id x = ev_id e) (run_events rs rid) = None \<Longrightarrow>
     last_sequence (run_events rs rid) < ev_sequence e \<Longrightarrow>
     ev_thread_sequence e = max_thread_sequence rs (ev_thread_id e) + 1 \<Longrightarrow>
     appendable (rs_events rs) rid e"
  by (auto simp: appendable_def run_events_log max_thread_sequence_log find_None_iff)

lemma append_event_log: "append_event e rs = Inr (e', rs') \<Longrightarrow> log_step (rs_events rs) (rs_events rs')"
  by (auto simp: append_event_def Let_def touch_is_log_step intro!: push_is_log_step appendable_stamped
      split: option.splits if_splits)

lemma push_failed_event_log: "log_step (rs_events rs) (rs_events (push_failed_event r a c now clock rs))"
  by (auto simp: push_failed_event_def Let_def touch_is_log_step fresh_event_def list_ex_iff find_None_iff
      intro!: push_is_log_step appendable_stamped)

lemma cancel_log: "log_step (rs_events rs) (rs_events (snd (cancel rid now event rs)))"
  by (auto simp: cancel_def Let_def log_step.same touch_is_log_step
      intro!: push_is_log_step appendable_stamped split: option.splits)

lemma finalize_log:
  "log_step (rs_events rs) (rs_events (snd (finalize_attempt aid w v s event now c m rs)))"
proof -
  have none: "find (\<lambda>x. ev_id x = i) xs = None" if "find (\<lambda>x. ev_id x = i \<or> P x) xs = None" for i P xs
    using that by (auto simp: find_None_iff)
  show ?thesis
    by (auto simp: finalize_attempt_def Let_def log_step.same touch_is_log_step
        intro!: push_is_log_step appendable_stamped dest!: none split: option.splits)
qed

lemma fail_log:
  "log_step (rs_events rs)
     (rs_events (snd (transition_failed_attempt aid v d now c m w b clock rs)))"
proof -
  have "log_step (rs_events rs) (rs_events (push_failed_event r a c now clock rs1))"
    if "rs_events rs1 = rs_events rs" for r a rs1
    using push_failed_event_log [of rs1 r a c now clock] that by simp
  then show ?thesis
    by (auto simp: transition_failed_attempt_def Let_def log_step.same split: option.splits)
qed

lemma quiet_operations [simp]:
  "rs_events (submit r a rs) = rs_events rs"
  "rs_events (snd (compare_and_set_status rid old new now rs)) = rs_events rs"
  "rs_events (snd (claim rid worker lease now rs)) = rs_events rs"
  "rs_events (snd (heartbeat aid worker lease version now rs)) = rs_events rs"
  "rs_events (snd (compare_and_set_attempt aid s s' w v b now c m rs)) = rs_events rs"
  by (simp_all add: submit_def add_attempt_def add_outbox_def compare_and_set_status_def claim_def
      heartbeat_def compare_and_set_attempt_def Let_def split: option.splits list.splits)

lemma run_step_log: "run_step rs rs' \<Longrightarrow> log_step (rs_events rs) (rs_events rs')"
  by (induction rule: run_step.induct)
    (simp_all add: log_step.same finalize_log fail_log cancel_log append_event_log)

lemma run_steps_logs_ok: "run_steps rs rs' \<Longrightarrow> logs_ok (rs_events rs) \<Longrightarrow> logs_ok (rs_events rs')"
  by (induction rule: run_steps.induct) (auto intro: log_step_ok run_step_log)

lemma reachable_logs_ok: "runs_reachable rs \<Longrightarrow> logs_ok (rs_events rs)"
  unfolding runs_reachable_def
  by (erule run_steps_logs_ok) (simp add: empty_run_store_def logs_ok_def log_of_def thread_log_def)

section \<open>Replay\<close>

lemma list_thread_events_log:
  "list_thread_events rs tid n =
     filter (\<lambda>e. n < ev_thread_sequence e) (sort_key ev_thread_sequence (thread_log (rs_events rs) tid))"
  by (simp add: list_thread_events_def thread_log_def filter_sort conj_commute)

lemma sort_append_top:
  assumes "mset ys = mset (xs @ [e])" and "inj_on f (set xs)" and "\<And>x. x \<in> set xs \<Longrightarrow> f x < f e"
  shows "sort_key f ys = sort_key f xs @ [e]"
proof (rule sort_key_inj_key_eq)
  show "mset ys = mset (sort_key f xs @ [e])" using assms(1) by simp
  have "set ys = insert e (set xs)" using mset_eq_setD [OF assms(1)] by simp
  moreover have "f e \<notin> f ` set xs" using assms(3) less_irrefl by fastforce
  ultimately show "inj_on f (set ys)" using assms(2) by auto
  show "sorted (map f (sort_key f xs @ [e]))" using assms(3) by (fastforce simp: sorted_append)
qed

lemma sort_same:
  "mset ys = mset xs \<Longrightarrow> inj_on f (set xs) \<Longrightarrow> sort_key f ys = sort_key f xs"
  by (rule sort_key_inj_key_eq) (auto dest: mset_eq_setD)

text \<open>The sorted thread log only grows at its end, by events above everything in it.\<close>

definition extends :: "event_logs \<Rightarrow> event_logs \<Rightarrow> string \<Rightarrow> bool" where
  "extends L L' tid =
     (\<exists>new. sort_key ev_thread_sequence (thread_log L' tid) =
          sort_key ev_thread_sequence (thread_log L tid) @ new
        \<and> (\<forall>e \<in> set new. \<forall>x \<in> set (thread_log L tid). ev_thread_sequence x < ev_thread_sequence e))"

lemma log_step_extends:
  assumes "log_step L L'" and "logs_ok L"
  shows "extends L L' tid"
  using assms
proof (cases rule: log_step.cases)
  case (append rid e)
  note mset = mset_thread_log_append [of L rid e tid, folded append(1)]
  have inj: "inj_on ev_thread_sequence (set (thread_log L tid))"
    using assms(2) by (simp add: logs_ok_def distinct_map)
  have top: "ev_thread_sequence x < ev_thread_sequence e"
    if "x \<in> set (thread_log L tid)" "ev_thread_id e = tid" for x
    using thread_log_below [OF that(1)] append(2) that(2) by (simp add: appendable_def)
  show ?thesis
  proof (cases "ev_thread_id e = tid")
    case True
    with mset have "mset (thread_log L' tid) = mset (thread_log L tid @ [e])" by simp
    from sort_append_top [OF this inj] top True show ?thesis
      unfolding extends_def by (intro exI [of _ "[e]"]) simp
  next
    case False
    with mset have "mset (thread_log L' tid) = mset (thread_log L tid)" by simp
    from sort_same [OF this inj] show ?thesis unfolding extends_def by (intro exI [of _ "[]"]) simp
  qed
qed (simp_all add: extends_def)

lemma extends_trans: "extends L L' tid \<Longrightarrow> extends L' L'' tid \<Longrightarrow> extends L L'' tid"
proof -
  assume "extends L L' tid" "extends L' L'' tid"
  then obtain n m where
    eq: "sort_key ev_thread_sequence (thread_log L' tid) = sort_key ev_thread_sequence (thread_log L tid) @ n"
      "sort_key ev_thread_sequence (thread_log L'' tid) = sort_key ev_thread_sequence (thread_log L' tid) @ m"
    and n: "\<forall>e \<in> set n. \<forall>x \<in> set (thread_log L tid). ev_thread_sequence x < ev_thread_sequence e"
    and m: "\<forall>e \<in> set m. \<forall>x \<in> set (thread_log L' tid). ev_thread_sequence x < ev_thread_sequence e"
    unfolding extends_def by blast
  have "set (thread_log L tid) \<subseteq> set (thread_log L' tid)"
    using arg_cong [OF eq(1), of set] by auto
  with eq n m show ?thesis unfolding extends_def by (intro exI [of _ "n @ m"]) auto
qed

lemma run_steps_extend:
  "run_steps rs rs' \<Longrightarrow> logs_ok (rs_events rs) \<Longrightarrow> extends (rs_events rs) (rs_events rs') tid"
proof (induction rule: run_steps.induct)
  case (refl rs)
  then show ?case by (simp add: extends_def)
next
  case (step rs rs' rs'')
  then show ?case
    using extends_trans log_step_extends [OF run_step_log] run_steps_logs_ok by blast
qed

lemma log_step_appends: "log_step L L' \<Longrightarrow> \<exists>new. log_of L' rid = log_of L rid @ new"
  by (induction rule: log_step.induct) (simp_all add: log_of_set)

lemma run_steps_appends: "run_steps rs rs' \<Longrightarrow> \<exists>new. run_events rs' rid = run_events rs rid @ new"
proof (induction rule: run_steps.induct)
  case (step rs rs' rs'')
  from log_step_appends [OF run_step_log [OF step.hyps(2)], of rid] step.IH show ?case
    unfolding run_events_log by auto
qed simp

text \<open>The cursor a client holds after reading a batch: the last event's, or its old one.\<close>

definition resume_cursor :: "nat \<Rightarrow> activity_event list \<Rightarrow> nat" where
  "resume_cursor c seen = (if seen = [] then c else ev_thread_sequence (last seen))"

lemma sorted_last: "x \<in> set xs \<Longrightarrow> sorted (map f xs) \<Longrightarrow> f x \<le> f (last xs)"
  by (induction xs rule: rev_induct) (auto simp: sorted_append)

lemma filter_resume:
  assumes "sorted (map ev_thread_sequence (xs @ new))"
    and "\<And>e x. e \<in> set new \<Longrightarrow> x \<in> set xs \<Longrightarrow> ev_thread_sequence x < ev_thread_sequence e"
  shows "filter (\<lambda>e. c < ev_thread_sequence e) (xs @ new) =
    filter (\<lambda>e. c < ev_thread_sequence e) xs @
    filter (\<lambda>e. resume_cursor c (filter (\<lambda>e. c < ev_thread_sequence e) xs) < ev_thread_sequence e) (xs @ new)"
proof (cases "filter (\<lambda>e. c < ev_thread_sequence e) xs = []")
  case True
  then show ?thesis by (simp add: resume_cursor_def)
next
  case False
  let ?seen = "filter (\<lambda>e. c < ev_thread_sequence e) xs"
  let ?c = "ev_thread_sequence (last ?seen)"
  have last: "last ?seen \<in> set xs" "c < ?c" using last_in_set [OF False] by auto
  have "ev_thread_sequence x \<le> ?c" if "x \<in> set xs" for x
  proof (cases "c < ev_thread_sequence x")
    case True
    with that have "x \<in> set ?seen" by simp
    moreover have "sorted (map ev_thread_sequence ?seen)"
      using assms(1) by (simp add: sorted_append sorted_filter)
    ultimately show ?thesis by (rule sorted_last)
  next
    case False
    with last show ?thesis by simp
  qed
  then have "filter (\<lambda>e. ?c < ev_thread_sequence e) xs = []" by (auto simp: filter_empty_conv leD)
  moreover have "filter (\<lambda>e. ?c < ev_thread_sequence e) new = new"
    "filter (\<lambda>e. c < ev_thread_sequence e) new = new"
    using assms(2) last by (auto simp: filter_id_conv intro: less_trans)
  ultimately show ?thesis using False by (simp add: resume_cursor_def)
qed

text \<open>
  C12. Replaying a thread from the cursor of the last batch loses and repeats nothing: whatever
  the repository does between two reads, the second read from the first read's cursor returns
  exactly the events that a read from the old cursor would now return after the batch already
  seen, in strictly increasing thread order.
\<close>

theorem thread_replay_is_exact:
  assumes "runs_reachable rs" and "run_steps rs rs'"
  shows "list_thread_events rs' tid c = list_thread_events rs tid c @
      list_thread_events rs' tid (resume_cursor c (list_thread_events rs tid c))
    \<and> sorted_wrt (<) (map ev_thread_sequence (list_thread_events rs' tid c))"
proof -
  let ?sort = "\<lambda>rs. sort_key ev_thread_sequence (thread_log (rs_events rs) tid)"
  have ok: "logs_ok (rs_events rs)" "logs_ok (rs_events rs')"
    using reachable_logs_ok [OF assms(1)] run_steps_logs_ok [OF assms(2)] by simp_all
  from run_steps_extend [OF assms(2) ok(1)] obtain new where new: "?sort rs' = ?sort rs @ new"
    "\<forall>e \<in> set new. \<forall>x \<in> set (thread_log (rs_events rs) tid). ev_thread_sequence x < ev_thread_sequence e"
    unfolding extends_def by blast
  have sorted: "sorted (map ev_thread_sequence (?sort rs'))" by simp
  have "distinct (map ev_thread_sequence (?sort rs'))"
    using ok(2) by (simp add: logs_ok_def distinct_map)
  with sorted have "sorted_wrt (<) (map ev_thread_sequence (?sort rs'))"
    by (simp add: strict_sorted_iff)
  moreover have "filter (\<lambda>e. c < ev_thread_sequence e) (?sort rs') =
      list_thread_events rs tid c @
      list_thread_events rs' tid (resume_cursor c (list_thread_events rs tid c))"
    unfolding list_thread_events_log new(1)
    by (rule filter_resume) (use sorted new in auto)
  moreover have "sorted_wrt (<) (map ev_thread_sequence (list_thread_events rs' tid c))"
    using calculation(1) by (simp add: list_thread_events_log sorted_wrt_map sorted_wrt_filter)
  ultimately show ?thesis unfolding list_thread_events_log [of rs'] by blast
qed

text \<open>
  A run's event log is append-only, strictly increasing in its sequence number, free of
  duplicate identifiers, and starts above the default cursor: reading from zero returns all of
  it, and everything once read keeps its place.
\<close>

theorem run_log_append_only:
  assumes "runs_reachable rs" and "run_steps rs rs'"
  shows "(\<exists>new. list_events rs' rid 0 = list_events rs rid 0 @ new)
    \<and> list_events rs' rid 0 = run_events rs' rid
    \<and> sorted_wrt (<) (map ev_sequence (run_events rs' rid)) \<and> distinct (map ev_id (run_events rs' rid))"
proof -
  have ok: "logs_ok (rs_events rs)" "logs_ok (rs_events rs')"
    using reachable_logs_ok [OF assms(1)] run_steps_logs_ok [OF assms(2)] by simp_all
  have all: "list_events x rid 0 = run_events x rid" if "logs_ok (rs_events x)" for x
    using that by (simp add: list_events_def run_events_log logs_ok_def)
  from run_steps_appends [OF assms(2), of rid] ok(2) show ?thesis
    unfolding all [OF ok(1)] all [OF ok(2)] by (simp add: run_events_log logs_ok_def)
qed

section \<open>Concrete logs\<close>

definition sample_event :: "string \<Rightarrow> activity_event" where
  "sample_event eid = fresh_event eid sample_run ''agent.step'' [] 0"

definition logged_store :: run_store where
  "logged_store = (case append_event (sample_event ''e1'') claimed_store of
     Inl _ \<Rightarrow> claimed_store | Inr (_, rs) \<Rightarrow> rs)"

definition relogged_store :: run_store where
  "relogged_store = (case append_event (sample_event ''e2'') logged_store of
     Inl _ \<Rightarrow> logged_store | Inr (_, rs) \<Rightarrow> rs)"

lemmas log_eval = append_event_def sample_event_def fresh_event_def sample_run_def touch_events_def
  push_event_def run_events_def last_sequence_def max_thread_sequence_def max_default_def
  dict_setdefault_def Let_def

lemma logged_store_append:
  "append_event (sample_event ''e1'') claimed_store =
     Inr ((sample_event ''e1'')\<lparr>ev_sequence := 1, ev_thread_sequence := 1\<rparr>, logged_store)"
  by (simp add: logged_store_def) (simp add: log_eval)

lemma logged_store_events: "rs_events logged_store =
    [(''r1'', [(sample_event ''e1'')\<lparr>ev_sequence := 1, ev_thread_sequence := 1\<rparr>])]"
  by (simp add: logged_store_def) (simp add: log_eval)

lemma relogged_store_append:
  "append_event (sample_event ''e2'') logged_store =
     Inr ((sample_event ''e2'')\<lparr>ev_sequence := 2, ev_thread_sequence := 2\<rparr>, relogged_store)"
  by (simp add: relogged_store_def) (simp add: logged_store_events log_eval)

lemma relogged_store_events: "rs_events relogged_store =
    [(''r1'', [(sample_event ''e1'')\<lparr>ev_sequence := 1, ev_thread_sequence := 1\<rparr>,
      (sample_event ''e2'')\<lparr>ev_sequence := 2, ev_thread_sequence := 2\<rparr>])]"
  by (simp add: relogged_store_def) (simp add: logged_store_events log_eval)

lemma logged_store_reachable: "runs_reachable logged_store"
  using claimed_store_reachable run_step.record_event [OF logged_store_append] run_steps.step
  unfolding runs_reachable_def by blast

lemma relogged_steps: "run_steps logged_store relogged_store"
  using run_steps.refl run_step.record_event [OF relogged_store_append] run_steps.step by blast

theorem thread_replay_is_exact_witness:
  "map ev_id (list_thread_events relogged_store ''t1'' 0) = [''e1'', ''e2'']
   \<and> map ev_id (list_thread_events relogged_store ''t1'' 1) = [''e2'']"
  using thread_replay_is_exact [OF logged_store_reachable relogged_steps, of "''t1''" 0]
  by (simp add: list_thread_events_def logged_store_events relogged_store_events resume_cursor_def)
    (simp add: sample_event_def fresh_event_def sample_run_def)

theorem run_log_append_only_witness:
  "map ev_id (list_events relogged_store ''r1'' 0) = [''e1'', ''e2'']
   \<and> distinct (map ev_id (run_events relogged_store ''r1''))"
  using run_log_append_only [OF logged_store_reachable relogged_steps, of "''r1''"]
  by (simp add: list_events_def run_events_def relogged_store_events)
    (simp add: sample_event_def fresh_event_def sample_run_def)

end
