(* ===== verification/Recovery.thy ===== *)
theory Recovery
  imports Run_Events
begin

text \<open>
  \<^verbatim>\<open>src/seleric_swarm/recovery.py\<close>: the recovery service, the worker that claims and executes
  attempts, and the in-process queue that drives it. Each repository call is the atomic
  operation of \<open>Run_Store\<close>; the executor callback, the jitter and the clock readings are
  arguments (the record \<open>worker_env\<close>). What the executor and everybody else do to the
  repository while it runs is the store the executor returns, any sequence of protocol steps.
\<close>

section \<open>RunRecoveryService\<close>

record recovery_result =
  rr_retryable :: nat
  rr_failed :: nat
  rr_already_retryable :: nat

record retry_policy =
  retry_delay_s :: rat
  retry_jitter_s :: rat

text \<open>
  \<^verbatim>\<open>random.uniform(0.0, b)\<close> is \<^verbatim>\<open>b * random.random()\<close>; \<open>draw\<close> is that random number.
\<close>

definition retry_delay :: "retry_policy \<Rightarrow> nat \<Rightarrow> rat \<Rightarrow> rat" where
  "retry_delay policy n draw =
     (let d = retry_delay_s policy * 2 ^ (n - 1) in
      if d > 0 then d + max 0 (retry_jitter_s policy) * draw else d)"

definition next_attempt ::
  "retry_policy \<Rightarrow> rat \<Rightarrow> run_attempt \<Rightarrow> moment \<Rightarrow> string \<Rightarrow> string \<Rightarrow> moment option \<Rightarrow> moment
     \<Rightarrow> run_store \<Rightarrow> bool \<times> run_store" where
  "next_attempt policy draw a moment error_code error_message lease_expired_before clock rs =
     (let (transition, rs') = transition_failed_attempt (att_id a) (att_version a)
            (retry_delay policy (att_number a) draw) moment error_code error_message
            (if lease_expired_before = None then att_worker_id a else None)
            lease_expired_before clock rs
      in (transition = TRetryable, rs'))"

definition fail_attempt ::
  "retry_policy \<Rightarrow> rat \<Rightarrow> run_attempt \<Rightarrow> string \<Rightarrow> string \<Rightarrow> moment \<Rightarrow> moment
     \<Rightarrow> run_store \<Rightarrow> bool \<times> run_store" where
  "fail_attempt policy draw a error_code error_message now clock rs =
     next_attempt policy draw a now error_code error_message None clock rs"

definition recover_one ::
  "retry_policy \<Rightarrow> (run_attempt \<Rightarrow> rat) \<Rightarrow> moment \<Rightarrow> run_attempt
     \<Rightarrow> recovery_result \<times> run_store \<Rightarrow> recovery_result \<times> run_store" where
  "recover_one policy draw moment a acc =
     (let (counts, rs) = acc in
      if att_status a = ATT_RETRYABLE
      then (counts\<lparr>rr_already_retryable := rr_already_retryable counts + 1\<rparr>, rs)
      else (case run_get (rs_items rs) (att_run_id a) None None of
          None \<Rightarrow> (counts, rs)
        | Some r \<Rightarrow>
            if run_status r = CANCELLED
            then (counts, snd (compare_and_set_attempt (att_id a) ATT_RUNNING ATT_CANCELLED None
                    (Some (att_version a)) (Some moment) moment (Some ''CANCELLED'') None rs))
            else let (can_retry, rs') = next_attempt policy (draw a) a moment ''LEASE_EXPIRED''
                       ''Worker lease expired before completion.'' (Some moment) moment rs
              in if can_retry then (counts\<lparr>rr_retryable := rr_retryable counts + 1\<rparr>, rs')
              else (case run_get (rs_items rs') (run_id r) None None of
                  None \<Rightarrow> (counts, rs')
                | Some p \<Rightarrow>
                    if run_status p = FAILED
                    then (counts\<lparr>rr_failed := rr_failed counts + 1\<rparr>, rs')
                    else (counts, rs'))))"

definition recover_expired ::
  "retry_policy \<Rightarrow> (run_attempt \<Rightarrow> rat) \<Rightarrow> moment \<Rightarrow> int \<Rightarrow> run_store \<Rightarrow> recovery_result \<times> run_store" where
  "recover_expired policy draw moment limit rs =
     fold (recover_one policy draw moment) (list_recoverable rs moment limit)
       (\<lparr>rr_retryable = 0, rr_failed = 0, rr_already_retryable = 0\<rparr>, rs)"

section \<open>RunRecoveryWorker\<close>

record worker_result =
  wr_claimed :: nat
  wr_completed :: nat
  wr_retryable :: nat
  wr_failed :: nat

text \<open>
  \<open>xr_on_committed\<close> answers the text of the exception the callback raises, if it does.
\<close>

record execution_result =
  xr_status :: run_status
  xr_error_code :: "string option"
  xr_error_message :: "string option"
  xr_retryable :: bool
  xr_terminal_event :: "activity_event option"
  xr_on_committed :: "(run_status \<Rightarrow> string option) option"

definition default_execution_result :: execution_result where
  "default_execution_result = \<lparr>xr_status = COMPLETED, xr_error_code = None,
     xr_error_message = None, xr_retryable = False, xr_terminal_event = None,
     xr_on_committed = None\<rparr>"

text \<open>
  How the wait on the executor and the heartbeat task ends: the executor returns or raises,
  the heartbeat task ends first (it only ends by raising), or the worker itself is cancelled.
\<close>

datatype exec_outcome =
    Returned "execution_result option" | Raised string | Heartbeat_Lost | Interrupted

record worker_config =
  wc_worker_id :: string
  wc_lease_s :: rat
  wc_heartbeat_s :: rat
  wc_policy :: retry_policy

record worker_env =
  we_executor :: "run \<Rightarrow> run_attempt \<Rightarrow> run_store \<Rightarrow> exec_outcome \<times> run_store"
  we_draw :: "run_attempt \<Rightarrow> rat"
  we_claim_at :: "run_attempt \<Rightarrow> moment"
  we_settle_at :: "run_attempt \<Rightarrow> moment"
  we_fail_at :: "run_attempt \<Rightarrow> moment"
  we_created_at :: "run_attempt \<Rightarrow> moment"

text \<open>The constructor clamps the heartbeat interval.\<close>

definition make_worker :: "string \<Rightarrow> rat \<Rightarrow> rat \<Rightarrow> rat \<Rightarrow> rat \<Rightarrow> worker_config" where
  "make_worker wid lease_s heartbeat_s delay_s jitter_s =
     \<lparr>wc_worker_id = wid, wc_lease_s = lease_s,
      wc_heartbeat_s = min (max (1 / 10) heartbeat_s) (max (1 / 10) (lease_s / 2)),
      wc_policy = \<lparr>retry_delay_s = delay_s, retry_jitter_s = jitter_s\<rparr>\<rparr>"

text \<open>One turn of the loop of \<^verbatim>\<open>_heartbeat\<close>, after its sleep.\<close>

definition heartbeat_turn ::
  "worker_config \<Rightarrow> run_attempt \<Rightarrow> moment \<Rightarrow> run_store \<Rightarrow> run_store result" where
  "heartbeat_turn cfg a now rs =
     (let (renewed, rs') = Run_Store.heartbeat (att_id a) (wc_worker_id cfg) (wc_lease_s cfg)
            (Some (att_version a)) now rs
      in if renewed then Inr rs' else Inl (RuntimeError ''run attempt lease was lost''))"

definition first_message :: "string option list \<Rightarrow> string \<Rightarrow> string" where
  "first_message xs otherwise = (case find str_truthy xs of Some (Some s) \<Rightarrow> s | _ \<Rightarrow> otherwise)"

definition default_terminal_event :: "run \<Rightarrow> run_attempt \<Rightarrow> moment \<Rightarrow> activity_event" where
  "default_terminal_event r a clock =
     fresh_event (terminal_id (run_id r) (att_id a)) r ''run.completed''
       [(''mission_id'', opt_json (run_mission_id r)), (''attempt_id'', JStr (att_id a)),
        (''attempt_number'', JInt (int (att_number a)))] clock"

text \<open>
  The body of the \<^verbatim>\<open>try\<close> after the executor returned: \<open>Inl\<close> is the text of the exception it
  raises, \<open>Inr\<close> its return value. \<open>committed_reply\<close> is its end, once the finalization
  answered.
\<close>

definition committed_reply ::
  "run \<Rightarrow> execution_result \<Rightarrow> (run \<times> run_attempt \<times> activity_event) option \<Rightarrow> string + string" where
  "committed_reply r outcome committed =
     (case committed of
        None \<Rightarrow> Inl ''run attempt lease was lost before completion''
      | Some (committed_run, _, _) \<Rightarrow>
          let status = run_status committed_run in
          if \<not> run_terminal status
          then Inl (''run '' @ run_id r @ '' rejected terminal status transition'')
          else (case (case xr_on_committed outcome of None \<Rightarrow> None | Some f \<Rightarrow> f status) of
              Some msg \<Rightarrow> Inl msg
            | None \<Rightarrow> Inr (if status = COMPLETED then ''completed'' else ''failed'')))"

definition commit_outcome ::
  "worker_config \<Rightarrow> worker_env \<Rightarrow> run \<Rightarrow> run_attempt \<Rightarrow> execution_result \<Rightarrow> run_store
     \<Rightarrow> (string + string) \<times> run_store" where
  "commit_outcome cfg env r a outcome rs =
     (if xr_status outcome = FAILED \<and> xr_retryable outcome
      then (Inl (first_message [xr_error_message outcome, xr_error_code outcome]
                   ''transient mission failure''), rs)
      else (case run_get (rs_items rs) (run_id r) None None of
          None \<Rightarrow> (Inl (''run '' @ run_id r @ '' disappeared during execution''), rs)
        | Some persisted \<Rightarrow>
            let final_status = (if run_status persisted = CANCELLED then CANCELLED
                  else xr_status outcome);
                terminal_event = (case xr_terminal_event outcome of Some e \<Rightarrow> e
                  | None \<Rightarrow> default_terminal_event r a (we_created_at env a));
                (committed, rs') = finalize_attempt (att_id a) (wc_worker_id cfg) (att_version a)
                  final_status terminal_event (we_settle_at env a) (xr_error_code outcome)
                  (xr_error_message outcome) rs
            in (committed_reply r outcome committed, rs')))"

text \<open>The \<^verbatim>\<open>except Exception\<close> handler.\<close>

definition handle_failure ::
  "worker_config \<Rightarrow> worker_env \<Rightarrow> run \<Rightarrow> run_attempt \<Rightarrow> string \<Rightarrow> run_store \<Rightarrow> string \<times> run_store" where
  "handle_failure cfg env r a message rs =
     (let (retryable, rs') = fail_attempt (wc_policy cfg) (we_draw env a) a ''EXECUTION_FAILED'' message
            (we_fail_at env a) (we_created_at env a) rs
      in if retryable then (''retryable'', rs')
      else (case run_get (rs_items rs') (run_id r) None None of
          Some p \<Rightarrow> (if run_status p = COMPLETED then ''completed'' else ''failed'', rs')
        | None \<Rightarrow> (''failed'', rs')))"

text \<open>\<open>None\<close>: the cancellation of the worker task passes through.\<close>

definition execute ::
  "worker_config \<Rightarrow> worker_env \<Rightarrow> run \<Rightarrow> run_attempt \<Rightarrow> run_store \<Rightarrow> string option \<times> run_store" where
  "execute cfg env r a rs =
     (let (ended, rs1) = we_executor env r a rs;
          failed = (\<lambda>msg rs. let (report, rs') = handle_failure cfg env r a msg rs in (Some report, rs'))
      in (case ended of
          Interrupted \<Rightarrow> (None, rs1)
        | Raised msg \<Rightarrow> failed msg rs1
        | Heartbeat_Lost \<Rightarrow> failed ''run attempt lease was lost'' rs1
        | Returned res \<Rightarrow>
            (case commit_outcome cfg env r a
                (case res of None \<Rightarrow> default_execution_result | Some x \<Rightarrow> x) rs1 of
               (Inr report, rs2) \<Rightarrow> (Some report, rs2)
             | (Inl msg, rs2) \<Rightarrow> failed msg rs2)))"

definition due :: "moment \<Rightarrow> run \<Rightarrow> bool" where
  "due now r = (run_status r \<noteq> CANCELLED \<and>
     (case run_next_retry_at r of None \<Rightarrow> True | Some t \<Rightarrow> t \<le> now))"

definition count_report :: "string \<Rightarrow> worker_result \<Rightarrow> worker_result" where
  "count_report report w = w\<lparr>wr_claimed := wr_claimed w + 1,
     wr_completed := wr_completed w + (if report = ''completed'' then 1 else 0),
     wr_retryable := wr_retryable w + (if report = ''retryable'' then 1 else 0),
     wr_failed := wr_failed w + (if report = ''failed'' then 1 else 0)\<rparr>"

fun run_candidates ::
  "worker_config \<Rightarrow> worker_env \<Rightarrow> moment option \<Rightarrow> run_attempt list \<Rightarrow> worker_result \<Rightarrow> run_store
     \<Rightarrow> worker_result option \<times> run_store" where
  "run_candidates cfg env now [] w rs = (Some w, rs)"
| "run_candidates cfg env now (candidate # rest) w rs =
     (if att_status candidate \<noteq> ATT_RETRYABLE then run_candidates cfg env now rest w rs
      else let claim_moment = (case now of None \<Rightarrow> we_claim_at env candidate | Some t \<Rightarrow> t) in
        (case run_get (rs_items rs) (att_run_id candidate) None None of
           None \<Rightarrow> run_candidates cfg env now rest w rs
         | Some r \<Rightarrow>
             if \<not> due claim_moment r then run_candidates cfg env now rest w rs
             else (case claim (run_id r) (wc_worker_id cfg) (wc_lease_s cfg) claim_moment rs of
                 (None, rs') \<Rightarrow> run_candidates cfg env now rest w rs'
               | (Some a, rs') \<Rightarrow>
                   (case execute cfg env r a rs' of
                      (None, rs'') \<Rightarrow> (None, rs'')
                    | (Some report, rs'') \<Rightarrow>
                        run_candidates cfg env now rest (count_report report w) rs''))))"

definition run_once ::
  "worker_config \<Rightarrow> worker_env \<Rightarrow> moment option \<Rightarrow> moment \<Rightarrow> int \<Rightarrow> run_store
     \<Rightarrow> worker_result option \<times> run_store" where
  "run_once cfg env now clock limit rs =
     (let scan_moment = (case now of None \<Rightarrow> clock | Some t \<Rightarrow> t);
          rs1 = snd (recover_expired (wc_policy cfg) (we_draw env) scan_moment limit rs)
      in run_candidates cfg env now (list_recoverable rs1 scan_moment limit)
           \<lparr>wr_claimed = 0, wr_completed = 0, wr_retryable = 0, wr_failed = 0\<rparr> rs1)"

definition one_day :: int where
  "one_day = 86400 * 1000000"

definition has_pending_retries :: "moment \<Rightarrow> int \<Rightarrow> run_store \<Rightarrow> bool" where
  "has_pending_retries clock limit rs =
     list_ex (\<lambda>a. att_status a = ATT_RETRYABLE) (list_recoverable rs (clock + one_day) limit)"

section \<open>InProcessRunQueue\<close>

definition max_idle_polls :: nat where
  "max_idle_polls = 240"

text \<open>
  The poll loop of \<^verbatim>\<open>_drive\<close>. The world of the poll with \<open>n\<close> polls left is \<open>world n\<close>: whether the
  queue is closing, the clock, what the worker meets. What others do between two polls is
  folded into the executors.
\<close>

record poll_world =
  pw_closing :: bool
  pw_clock :: moment
  pw_env :: worker_env

fun drive_polls ::
  "worker_config \<Rightarrow> (nat \<Rightarrow> poll_world) \<Rightarrow> nat \<Rightarrow> worker_result \<Rightarrow> run_store
     \<Rightarrow> worker_result option \<times> run_store" where
  "drive_polls cfg world 0 result rs = (Some result, rs)"
| "drive_polls cfg world (Suc n) result rs =
     (if pw_closing (world (Suc n)) \<or> \<not> has_pending_retries (pw_clock (world (Suc n))) 100 rs
      then (Some result, rs)
      else (case run_once cfg (pw_env (world n)) None (pw_clock (world n)) 100 rs of
          (None, rs') \<Rightarrow> (None, rs')
        | (Some result', rs') \<Rightarrow> drive_polls cfg world n result' rs'))"

definition drive ::
  "worker_config \<Rightarrow> (nat \<Rightarrow> poll_world) \<Rightarrow> run_store \<Rightarrow> worker_result option \<times> run_store" where
  "drive cfg world rs =
     (case run_once cfg (pw_env (world max_idle_polls)) None (pw_clock (world max_idle_polls)) 100 rs of
        (None, rs') \<Rightarrow> (None, rs')
      | (Some result, rs') \<Rightarrow> drive_polls cfg world max_idle_polls result rs')"

section \<open>The worker is a client of the protocol\<close>

lemma run_steps_trans: "run_steps y z \<Longrightarrow> run_steps x y \<Longrightarrow> run_steps x z"
  by (induction rule: run_steps.induct) (auto intro: run_steps.step)

lemma run_steps_one: "run_step x y \<Longrightarrow> run_steps x y"
  using run_steps.refl run_steps.step by blast

text \<open>
  What the worker relies on: the executor (and whoever else acts while it runs) uses the
  repository through the protocol, and a returned status is terminal.
\<close>

definition env_ok :: "worker_env \<Rightarrow> bool" where
  "env_ok env = (\<forall>r a rs. run_steps rs (snd (we_executor env r a rs))
     \<and> (\<forall>x. fst (we_executor env r a rs) = Returned (Some x) \<longrightarrow> run_terminal (xr_status x)))"

abbreviation fail_transition where
  "fail_transition policy draw a now code msg bound clock rs \<equiv>
     transition_failed_attempt (att_id a) (att_version a) (retry_delay policy (att_number a) draw)
       now code msg (if bound = None then att_worker_id a else None) bound clock rs"

lemma next_attempt_eq:
  "next_attempt policy draw a now code msg bound clock rs =
     (fst (fail_transition policy draw a now code msg bound clock rs) = TRetryable,
      snd (fail_transition policy draw a now code msg bound clock rs))"
  by (simp add: next_attempt_def split_beta Let_def)

lemma next_attempt_step: "run_step rs (snd (next_attempt policy draw a now code msg bound clock rs))"
  unfolding next_attempt_eq snd_conv by (rule run_step.fail)

lemma handle_failure_eq:
  "snd (handle_failure cfg env r a msg rs) =
     snd (next_attempt (wc_policy cfg) (we_draw env a) a (we_fail_at env a) ''EXECUTION_FAILED'' msg
       None (we_created_at env a) rs)"
  by (simp add: handle_failure_def fail_attempt_def Let_def split_beta split: option.splits)

text \<open>A snapshot of an attempt still names an attempt of its run.\<close>

definition snapshot :: "run_store \<Rightarrow> run_attempt \<Rightarrow> bool" where
  "snapshot rs a = (\<exists>b. dict_get (rs_attempts rs) (att_id a) = Some b \<and> version_le a b)"

lemma snapshot_steps: "run_steps rs rs' \<Longrightarrow> store_ok rs \<Longrightarrow> snapshot rs a \<Longrightarrow> snapshot rs' a"
  unfolding snapshot_def using steps_version version_le_trans by blast

lemma list_recoverable_get:
  assumes "store_ok rs" and "a \<in> set (list_recoverable rs now limit)"
  shows "dict_get (rs_attempts rs) (att_id a) = Some a"
proof -
  from assms(2) have "a \<in> set (dict_values (rs_attempts rs))"
    unfolding list_recoverable_def using set_take_subset by fastforce
  then show ?thesis by (rule keyed_value_get [OF conjunct2 [OF lifecycle_keyed [OF assms(1)]]])
qed

lemma list_recoverable_snapshot:
  "store_ok rs \<Longrightarrow> a \<in> set (list_recoverable rs now limit) \<Longrightarrow> snapshot rs a"
  by (auto simp: snapshot_def list_recoverable_get)

lemma recover_one_step:
  assumes "store_ok (snd acc)" and "snapshot (snd acc) a"
  shows "run_steps (snd acc) (snd (recover_one policy draw now a acc))"
proof -
  obtain counts rs where acc: "acc = (counts, rs)" by (cases acc)
  obtain b where b: "dict_get (rs_attempts rs) (att_id a) = Some b" "att_run_id b = att_run_id a"
    using assms(2) acc by (auto simp: snapshot_def version_le_def)
  have sweep: "run_step rs (snd (compare_and_set_attempt (att_id a) ATT_RUNNING ATT_CANCELLED None
      (Some (att_version a)) (Some now) now (Some ''CANCELLED'') None rs))"
    if "dict_get (rs_items rs) (att_run_id a) = Some r" "run_status r = CANCELLED" for r
    using that b by (rule run_step.sweep_cancelled)
  show ?thesis
    using sweep next_attempt_step
    by (auto simp: acc recover_one_def run_get_def Let_def split_beta run_steps.refl
        intro!: run_steps_one split: option.splits)
qed

lemma recover_fold_steps:
  assumes "store_ok (snd acc)" and "\<forall>a \<in> set xs. snapshot (snd acc) a"
  shows "run_steps (snd acc) (snd (fold (recover_one policy draw now) xs acc))"
  using assms
proof (induction xs arbitrary: acc)
  case (Cons a xs)
  have one: "run_steps (snd acc) (snd (recover_one policy draw now a acc))"
    using Cons.prems by (intro recover_one_step) simp_all
  with Cons.prems have "\<forall>b \<in> set xs. snapshot (snd (recover_one policy draw now a acc)) b"
    using snapshot_steps by auto
  with Cons.IH [OF run_steps_ok [OF one Cons.prems(1)]] one show ?case
    by (auto intro: run_steps_trans)
qed (simp add: run_steps.refl)

lemma recover_expired_steps:
  assumes "store_ok rs"
  shows "run_steps rs (snd (recover_expired policy draw now limit rs))"
  unfolding recover_expired_def
  using recover_fold_steps [of "(\<lparr>rr_retryable = 0, rr_failed = 0, rr_already_retryable = 0\<rparr>, rs)"]
    list_recoverable_snapshot assms by simp

lemma run_get_any [simp]: "run_get items rid None None = dict_get items rid"
  by (simp add: run_get_def split: option.splits)

lemma commit_cases:
  obtains msg where "commit_outcome cfg env r a x rs = (Inl msg, rs)"
      "xr_status x = FAILED \<and> xr_retryable x \<or> dict_get (rs_items rs) (run_id r) = None"
  | p e where "\<not> (xr_status x = FAILED \<and> xr_retryable x)" "dict_get (rs_items rs) (run_id r) = Some p"
      "commit_outcome cfg env r a x rs =
         (let f = finalize_attempt (att_id a) (wc_worker_id cfg) (att_version a)
            (if run_status p = CANCELLED then CANCELLED else xr_status x) e (we_settle_at env a)
            (xr_error_code x) (xr_error_message x) rs
          in (committed_reply r x (fst f), snd f))"
proof (cases "xr_status x = FAILED \<and> xr_retryable x")
  case True
  with that(1) show ?thesis by (simp add: commit_outcome_def)
next
  case False
  with that show ?thesis
    by (cases "dict_get (rs_items rs) (run_id r)") (auto simp: commit_outcome_def Let_def split_beta)
qed

lemma commit_outcome_steps:
  assumes "run_terminal (xr_status x)"
  shows "run_steps rs (snd (commit_outcome cfg env r a x rs))"
proof (rule commit_cases [of cfg env r a x rs], goal_cases)
  case (2 p e)
  then show ?case
    unfolding 2(3) Let_def snd_conv using assms by (intro run_steps_one run_step.settle) simp
qed (simp add: run_steps.refl)

lemma execute_steps:
  assumes "env_ok env"
  shows "run_steps rs (snd (execute cfg env r a rs))"
proof -
  obtain ended rs1 where ex: "we_executor env r a rs = (ended, rs1)" by (cases "we_executor env r a rs")
  have rs1: "run_steps rs rs1" and status: "\<And>x. ended = Returned (Some x) \<Longrightarrow> run_terminal (xr_status x)"
    using assms [unfolded env_ok_def, rule_format, of rs r a] ex by simp_all
  have fail: "run_steps rs (snd (handle_failure cfg env r a msg rs'))" if "run_steps rs rs'" for msg rs'
    unfolding handle_failure_eq using that next_attempt_step by (rule run_steps.step)
  show ?thesis
  proof (cases ended)
    case (Returned res)
    let ?x = "case res of None \<Rightarrow> default_execution_result | Some x \<Rightarrow> x"
    have "run_terminal (xr_status ?x)"
      using status Returned by (simp add: default_execution_result_def split: option.splits)
    then have "run_steps rs (snd (commit_outcome cfg env r a ?x rs1))"
      using run_steps_trans [OF commit_outcome_steps rs1] by simp
    with fail Returned ex show ?thesis
      by (simp add: execute_def Let_def split_beta split: sum.splits)
  qed (use rs1 fail ex in \<open>simp_all add: execute_def Let_def split_beta\<close>)
qed

lemma run_candidates_steps:
  assumes "env_ok env"
  shows "run_steps rs (snd (run_candidates cfg env now xs w rs))"
proof (induction xs arbitrary: w rs)
  case (Cons a xs)
  have claim: "run_steps rs rs'" if "claim rid wid lease t rs = (x, rs')" for rid wid lease t x rs'
    using run_steps_one [OF run_step.claim [of rs rid wid lease t]] that by simp
  have exec: "run_steps rs' rs''" if "execute cfg env r b rs' = (x, rs'')" for r b rs' x rs''
    using execute_steps [OF assms, of rs' cfg r b] that by simp
  show ?case
    using claim exec Cons.IH
    by (auto simp: Let_def split: option.splits prod.splits)
       (blast intro: run_steps_trans)+
qed (simp add: run_steps.refl)

lemma run_once_steps:
  assumes "env_ok env" and "store_ok rs"
  shows "run_steps rs (snd (run_once cfg env now clock limit rs))"
  unfolding run_once_def Let_def
  using run_steps_trans [OF run_candidates_steps [OF assms(1)] recover_expired_steps [OF assms(2)]] .

lemma drive_polls_steps:
  assumes "\<And>n. env_ok (pw_env (world n))" and "store_ok rs"
  shows "run_steps rs (snd (drive_polls cfg world n w rs))"
  using assms(2)
proof (induction n arbitrary: w rs)
  case (Suc n)
  obtain x rs' where once: "run_once cfg (pw_env (world n)) None (pw_clock (world n)) 100 rs = (x, rs')"
    by (cases "run_once cfg (pw_env (world n)) None (pw_clock (world n)) 100 rs")
  have "run_steps rs rs'"
    using run_once_steps [OF assms(1) Suc.prems, of cfg n None "pw_clock (world n)" 100] once by simp
  with once Suc.IH [OF run_steps_ok [OF this Suc.prems]] show ?case
    by (auto simp: run_steps.refl intro: run_steps_trans split: option.splits)
qed (simp add: run_steps.refl)

text \<open>
  The worker never leaves the protocol: whatever the executors return, raise or do to the
  repository through its operations, driving the in-process queue through all its polls is a
  sequence of protocol steps. Every invariant of the run repository therefore holds after it.
\<close>

theorem drive_follows_protocol:
  assumes "runs_reachable rs" and "\<forall>n. env_ok (pw_env (world n))"
  shows "run_steps rs (snd (drive cfg world rs)) \<and> runs_reachable (snd (drive cfg world rs))"
proof -
  have env: "env_ok (pw_env (world n))" for n using assms(2) by simp
  have ok: "store_ok rs" using assms(1) by (rule reachable_store_ok)
  let ?once = "run_once cfg (pw_env (world max_idle_polls)) None (pw_clock (world max_idle_polls)) 100 rs"
  obtain x rs' where once: "?once = (x, rs')" by (cases ?once)
  then have "run_steps rs rs'"
    using run_once_steps [OF env ok, of cfg max_idle_polls None "pw_clock (world max_idle_polls)" 100]
    by simp
  with once drive_polls_steps [of world, OF env run_steps_ok [OF this ok]]
  have "run_steps rs (snd (drive cfg world rs))"
    by (auto simp: drive_def intro: run_steps_trans split: option.splits)
  with assms(1) show ?thesis unfolding runs_reachable_def by (auto intro: run_steps_trans)
qed

section \<open>An execution settles the attempt it claimed\<close>

lemma fail_bumps:
  assumes "store_ok rs" "dict_get (rs_attempts rs) aid = Some b" "att_status b = ATT_RUNNING"
    "worker \<noteq> None \<longrightarrow> att_worker_id b = worker" "\<not> lease_not_expired bound b"
  shows "\<exists>c. dict_get (rs_attempts (snd (transition_failed_attempt aid (att_version b) d now code msg
      worker bound clock rs))) aid = Some c \<and> att_version b < att_version c"
proof -
  have "live b" using assms(3) by (simp add: live_def)
  then obtain r where r: "dict_get (rs_items rs) (att_run_id b) = Some r"
    using live_run [OF assms(1,2)] by blast
  show ?thesis
    by (rule fail_cases [of aid "att_version b" d now code msg worker bound clock rs])
      (use assms r in \<open>auto simp: transition_failed_attempt_def Let_def split: if_splits\<close>)
qed

lemma settle_bumps:
  assumes "store_ok rs" "dict_get (rs_attempts rs) aid = Some b" "att_status b = ATT_RUNNING"
    "att_worker_id b = Some worker"
  shows "\<exists>c. dict_get (rs_attempts (snd (finalize_attempt aid worker (att_version b) s e now code msg rs)))
      aid = Some c \<and> att_version b < att_version c"
proof -
  have "live b" using assms(3) by (simp add: live_def)
  then obtain r where r: "dict_get (rs_items rs) (att_run_id b) = Some r" "\<not> run_terminal (run_status r)"
    using live_run [OF assms(1,2)] by blast
  then have "run_status r \<notin> {COMPLETED, FAILED}" by auto
  then have "fst (finalize_attempt aid worker (att_version b) s e now code msg rs) \<noteq> None"
    using assms r by (simp add: finalize_attempt_def Let_def)
  then show ?thesis
    by (cases rule: finalize_cases [of aid worker "att_version b" s e now code msg rs])
      (use assms(2) in auto)
qed

lemma bumped_stays:
  assumes "run_steps rs rs'" "store_ok rs" "dict_get (rs_attempts rs) aid = Some b" "v < att_version b"
  shows "\<exists>c. dict_get (rs_attempts rs') aid = Some c \<and> v < att_version c"
  using steps_version [OF assms(1-3)] assms(4) by (auto simp: version_le_def)

lemma handle_failure_bumps:
  assumes ok: "store_ok rs" and b: "dict_get (rs_attempts rs) (att_id a) = Some b" "version_le a b"
    and a: "att_status a = ATT_RUNNING" "att_worker_id a = Some w"
  shows "\<exists>c. dict_get (rs_attempts (snd (handle_failure cfg env r a msg rs))) (att_id a) = Some c
    \<and> att_version a < att_version c"
proof (cases "att_version b = att_version a")
  case True
  with b(2) a have "att_status b = ATT_RUNNING" "att_worker_id b = att_worker_id a"
    by (simp_all add: version_le_def)
  from fail_bumps [OF ok b(1) this(1), of "att_worker_id a" None] this(2) True show ?thesis
    by (fastforce simp: handle_failure_eq next_attempt_eq lease_not_expired_def)
next
  case False
  with b(2) have "att_version a < att_version b" by (simp add: version_le_def)
  from bumped_stays [OF _ ok b(1) this] show ?thesis
    unfolding handle_failure_eq using run_steps_one [OF next_attempt_step] by blast
qed

lemma commit_bumps:
  assumes ok: "store_ok rs" and b: "dict_get (rs_attempts rs) (att_id a) = Some b" "version_le a b"
    and a: "att_status a = ATT_RUNNING" "att_worker_id a = Some (wc_worker_id cfg)"
    and "commit_outcome cfg env r a x rs = (Inr report, rs')" "run_terminal (xr_status x)"
  shows "\<exists>c. dict_get (rs_attempts rs') (att_id a) = Some c \<and> att_version a < att_version c"
proof (cases "att_version b = att_version a")
  case True
  with b(2) a have run: "att_status b = ATT_RUNNING" "att_worker_id b = Some (wc_worker_id cfg)"
    by (simp_all add: version_le_def)
  show ?thesis
  proof (rule commit_cases [of cfg env r a x rs])
    fix p e
    assume "commit_outcome cfg env r a x rs =
         (let f = finalize_attempt (att_id a) (wc_worker_id cfg) (att_version a)
            (if run_status p = CANCELLED then CANCELLED else xr_status x) e (we_settle_at env a)
            (xr_error_code x) (xr_error_message x) rs
          in (committed_reply r x (fst f), snd f))"
    with assms(6) have "rs' = snd (finalize_attempt (att_id a) (wc_worker_id cfg) (att_version a)
        (if run_status p = CANCELLED then CANCELLED else xr_status x) e (we_settle_at env a)
        (xr_error_code x) (xr_error_message x) rs)" by (simp add: Let_def)
    with settle_bumps [OF ok b(1) run] True show ?thesis by metis
  qed (use assms(6) in simp)
next
  case False
  with b(2) have "att_version a < att_version b" by (simp add: version_le_def)
  from bumped_stays [OF _ ok b(1) this] commit_outcome_steps [OF assms(7), of rs cfg env r a]
  show ?thesis using assms(6) by simp
qed

lemma finalize_stores:
  assumes "store_ok rs" and "fst (finalize_attempt aid w v s e now code msg rs) = Some (cr, ca, e')"
    and "dict_get (rs_attempts rs) aid = Some a"
  shows "dict_get (rs_items (snd (finalize_attempt aid w v s e now code msg rs))) (att_run_id a) = Some cr"
proof -
  from assms(2,3) obtain r where r: "dict_get (rs_items rs) (att_run_id a) = Some r"
    by (auto simp: finalize_attempt_def split: if_splits option.splits)
  then have "run_id r = att_run_id a"
    by (rule keyed_get [OF conjunct1 [OF lifecycle_keyed [OF assms(1)]]])
  with r assms(2,3) show ?thesis
    by (simp add: finalize_attempt_def Let_def split: if_splits)
qed

lemma retryable_requeues:
  assumes "store_ok rs" "fst (transition_failed_attempt aid v d now code msg worker bound clock rs) = TRetryable"
    "dict_get (rs_attempts rs) aid = Some b"
  shows "\<exists>p. dict_get (rs_items (snd (transition_failed_attempt aid v d now code msg worker bound clock rs)))
      (att_run_id b) = Some p \<and> run_status p = QUEUED \<and> run_current_attempt p = att_number b + 1"
proof (rule fail_cases [of aid v d now code msg worker bound clock rs], goal_cases)
  case (4 a r)
  have "run_id r = att_run_id a"
    by (rule keyed_get [OF conjunct1 [OF lifecycle_keyed [OF assms(1)]] 4(4)])
  with 4 assms(3) show ?case by simp
qed (use assms(2) in simp_all)

lemma handle_failure_truth:
  assumes "store_ok rs" "dict_get (rs_attempts rs) (att_id a) = Some b" "version_le a b"
    "run_id r = att_run_id a" "handle_failure cfg env r a msg rs = (report, rs')"
  shows "(report = ''completed'' \<longrightarrow>
      (\<exists>p. dict_get (rs_items rs') (run_id r) = Some p \<and> run_status p = COMPLETED))
    \<and> (report = ''retryable'' \<longrightarrow> (\<exists>p. dict_get (rs_items rs') (run_id r) = Some p
      \<and> run_status p = QUEUED \<and> run_current_attempt p = att_number a + 1))"
proof -
  let ?f = "fail_transition (wc_policy cfg) (we_draw env a) a (we_fail_at env a) ''EXECUTION_FAILED'' msg
      None (we_created_at env a) rs"
  have rs': "rs' = snd ?f"
    using assms(5) arg_cong [OF assms(5), of snd] unfolding handle_failure_eq next_attempt_eq by simp
  have b: "att_run_id b = run_id r" "att_number b = att_number a"
    using assms(3,4) by (simp_all add: version_le_def)
  show ?thesis
  proof (cases "fst ?f = TRetryable")
    case True
    with assms(5) have "report = ''retryable''"
      by (simp add: handle_failure_def fail_attempt_def next_attempt_eq)
    with retryable_requeues [OF assms(1) True assms(2)] b show ?thesis unfolding rs' by simp
  next
    case False
    with assms(5) show ?thesis
      by (auto simp: handle_failure_def fail_attempt_def next_attempt_eq split: option.splits if_splits)
  qed
qed

lemma commit_truth:
  assumes "store_ok rs" "dict_get (rs_attempts rs) (att_id a) = Some b" "version_le a b"
    "run_id r = att_run_id a" "commit_outcome cfg env r a x rs = (Inr report, rs')"
  shows "report \<in> {''completed'', ''failed''} \<and> (report = ''completed'' \<longrightarrow>
      (\<exists>p. dict_get (rs_items rs') (run_id r) = Some p \<and> run_status p = COMPLETED))"
proof (rule commit_cases [of cfg env r a x rs])
  fix p e
  let ?f = "finalize_attempt (att_id a) (wc_worker_id cfg) (att_version a)
            (if run_status p = CANCELLED then CANCELLED else xr_status x) e (we_settle_at env a)
            (xr_error_code x) (xr_error_message x) rs"
  assume "commit_outcome cfg env r a x rs = (let f = ?f in (committed_reply r x (fst f), snd f))"
  with assms(5) have eq: "committed_reply r x (fst ?f) = Inr report" "rs' = snd ?f" by (simp_all add: Let_def)
  then obtain cr ca e' where c: "fst ?f = Some (cr, ca, e')"
    by (auto simp: committed_reply_def split: option.splits)
  with eq(1) have "report = (if run_status cr = COMPLETED then ''completed'' else ''failed'')"
    by (auto simp: committed_reply_def Let_def split: if_splits option.splits)
  moreover have "att_run_id b = run_id r" using assms(3,4) by (simp add: version_le_def)
  ultimately show ?thesis using finalize_stores [OF assms(1) c assms(2)] eq(2) by auto
qed (use assms(5) in simp)

text \<open>
  C8. Executing a claimed attempt settles it and reports the truth: when the worker is not
  itself interrupted, the attempt has left the version it was claimed under (so nobody can
  finish it under that claim again), the answer \<^verbatim>\<open>completed\<close> is given only when the run is
  durably completed, and \<^verbatim>\<open>retryable\<close> only when the run is queued again under the next attempt
  number. This holds whatever happens to the repository during the execution, and for every
  result, exception or lost lease of the executor.
\<close>

theorem execution_settles_and_reports:
  assumes "runs_reachable rs" and "env_ok env"
    and a: "dict_get (rs_attempts rs) (att_id a) = Some a" "att_status a = ATT_RUNNING"
      "att_worker_id a = Some (wc_worker_id cfg)" "run_id r = att_run_id a"
    and exec: "execute cfg env r a rs = (Some report, rs')"
  shows "(\<exists>b. dict_get (rs_attempts rs') (att_id a) = Some b \<and> att_version a < att_version b)
    \<and> (report = ''completed'' \<longrightarrow>
        (\<exists>p. dict_get (rs_items rs') (run_id r) = Some p \<and> run_status p = COMPLETED))
    \<and> (report = ''retryable'' \<longrightarrow> (\<exists>p. dict_get (rs_items rs') (run_id r) = Some p
        \<and> run_status p = QUEUED \<and> run_current_attempt p = att_number a + 1))"
proof -
  obtain ended rs1 where ex: "we_executor env r a rs = (ended, rs1)" by (cases "we_executor env r a rs")
  have steps: "run_steps rs rs1" and status: "\<And>x. ended = Returned (Some x) \<Longrightarrow> run_terminal (xr_status x)"
    using assms(2) [unfolded env_ok_def, rule_format, of rs r a] ex by simp_all
  have ok: "store_ok rs1" using run_steps_ok [OF steps reachable_store_ok [OF assms(1)]] .
  have seen: "\<exists>b. dict_get (rs_attempts rs2) (att_id a) = Some b \<and> version_le a b"
    if "run_steps rs1 rs2" for rs2
    using steps_version [OF run_steps_trans [OF that steps] reachable_store_ok [OF assms(1)] a(1)] .
  have fail: ?thesis
    if two: "run_steps rs1 rs2" and handled: "handle_failure cfg env r a msg rs2 = (report, rs')" for rs2 msg
  proof -
    obtain b where b: "dict_get (rs_attempts rs2) (att_id a) = Some b" "version_le a b"
      using seen [OF two] by blast
    have ok2: "store_ok rs2" using run_steps_ok [OF two ok] .
    from handle_failure_bumps [OF ok2 b a(2,3), of cfg env r msg] handled
      handle_failure_truth [OF ok2 b a(4) handled] show ?thesis by simp
  qed
  show ?thesis
  proof (cases ended)
    case (Returned res)
    let ?x = "case res of None \<Rightarrow> default_execution_result | Some x \<Rightarrow> x"
    have final: "run_terminal (xr_status ?x)"
      using status Returned by (simp add: default_execution_result_def split: option.splits)
    obtain c rs2 where c: "commit_outcome cfg env r a ?x rs1 = (c, rs2)"
      by (cases "commit_outcome cfg env r a ?x rs1")
    obtain b where b: "dict_get (rs_attempts rs1) (att_id a) = Some b" "version_le a b"
      using seen [OF run_steps.refl] by blast
    show ?thesis
    proof (cases c)
      case (Inl msg)
      with c Returned ex exec have "handle_failure cfg env r a msg rs2 = (report, rs')"
        by (simp add: execute_def split_beta prod_eq_iff)
      with fail [of rs2 msg] commit_outcome_steps [OF final, of rs1 cfg env r a] c show ?thesis by simp
    next
      case (Inr rep)
      with c Returned ex exec have "commit_outcome cfg env r a ?x rs1 = (Inr report, rs')"
        by (simp add: execute_def)
      from commit_bumps [OF ok b a(2,3) this final] commit_truth [OF ok b a(4) this]
      show ?thesis by auto
    qed
  qed (use exec ex fail [OF run_steps.refl] in \<open>auto simp: execute_def split_beta prod_eq_iff\<close>)
qed

section \<open>A recovery scan clears the expired leases\<close>

lemma fail_frame:
  assumes "dict_get (rs_attempts rs) k = Some y" "k \<noteq> aid"
  shows "dict_get (rs_attempts (snd (transition_failed_attempt aid v d now code msg w bound clock rs))) k = Some y"
  by (rule fail_cases [of aid v d now code msg w bound clock rs]) (use assms in auto)

lemma recover_one_frame:
  assumes "dict_get (rs_attempts (snd acc)) k = Some y" "k \<noteq> att_id a"
  shows "dict_get (rs_attempts (snd (recover_one policy draw now a acc))) k = Some y"
proof -
  have "dict_get (rs_attempts (snd (next_attempt policy (draw a) a now c m bound clock (snd acc)))) k = Some y"
    for c m bound clock unfolding next_attempt_eq snd_conv by (rule fail_frame [OF assms])
  moreover have "dict_get (rs_attempts (snd (compare_and_set_attempt (att_id a) s s' w v b now c m (snd acc)))) k
      = Some y" for s s' w v b c m
    using assms by (simp add: compare_and_set_attempt_def Let_def split: option.splits)
  ultimately show ?thesis
    using assms(1) by (auto simp: recover_one_def split_beta Let_def split: option.splits)
qed

definition handled :: "recovery_result \<Rightarrow> nat" where
  "handled c = rr_retryable c + rr_failed c + rr_already_retryable c"

text \<open>An attempt the scan lists, as it still is in the store.\<close>

definition stranded :: "moment \<Rightarrow> run_store \<Rightarrow> run_attempt \<Rightarrow> bool" where
  "stranded now rs a = (dict_get (rs_attempts rs) (att_id a) = Some a \<and>
     (att_status a = ATT_RETRYABLE \<or>
      att_status a = ATT_RUNNING \<and> \<not> lease_not_expired (Some now) a))"

lemma expired_fails:
  assumes ok: "store_ok rs" and a: "dict_get (rs_attempts rs) (att_id a) = Some a"
    "att_status a = ATT_RUNNING" "\<not> lease_not_expired (Some now) a"
    and r: "dict_get (rs_items rs) (att_run_id a) = Some r"
  shows "dict_get (rs_attempts (snd (fail_transition policy d a now code msg (Some now) clock rs))) (att_id a)
      = Some (failed_attempt code msg now a)
    \<and> (fst (fail_transition policy d a now code msg (Some now) clock rs) \<noteq> TRetryable \<longrightarrow>
        (\<exists>p. dict_get (rs_items (snd (fail_transition policy d a now code msg (Some now) clock rs))) (run_id r)
          = Some p \<and> run_status p = FAILED))"
proof -
  have "live a" using a by (simp add: live_def)
  then have "\<not> run_terminal (run_status r)" by (rule live_run [OF ok a(1)]) (use r in simp)
  then have "run_status r \<noteq> CANCELLED" by auto
  then show ?thesis
    by (cases rule: fail_cases [of "att_id a" "att_version a" "retry_delay policy (att_number a) d" now code msg
          None "Some now" clock rs])
      (use a r in \<open>auto simp: transition_failed_attempt_def Let_def split: if_splits\<close>)
qed

lemma recover_one_hit:
  assumes ok: "store_ok rs" and a: "stranded now rs a"
  shows "handled (fst (recover_one policy draw now a (c, rs))) = handled c + 1
    \<and> (att_status a = ATT_RUNNING \<longrightarrow>
        (\<exists>b. dict_get (rs_attempts (snd (recover_one policy draw now a (c, rs)))) (att_id a) = Some b
          \<and> att_status b = ATT_FAILED))"
proof (cases "att_status a = ATT_RETRYABLE")
  case True
  then show ?thesis by (simp add: recover_one_def handled_def)
next
  case False
  with a have run: "dict_get (rs_attempts rs) (att_id a) = Some a" "att_status a = ATT_RUNNING"
    "\<not> lease_not_expired (Some now) a" by (simp_all add: stranded_def)
  then have "live a" by (simp add: live_def)
  then obtain r where r: "dict_get (rs_items rs) (att_run_id a) = Some r" "\<not> run_terminal (run_status r)"
    using live_run [OF ok run(1)] by blast
  then have "run_status r \<noteq> CANCELLED" by auto
  with expired_fails [OF ok run r(1), of policy "draw a" "''LEASE_EXPIRED''"
      "''Worker lease expired before completion.''" now] run r show ?thesis
    by (auto simp: recover_one_def next_attempt_eq handled_def split: option.splits)
qed

lemma stranded_frame:
  "stranded now (snd acc) b \<Longrightarrow> att_id b \<noteq> att_id a \<Longrightarrow>
     stranded now (snd (recover_one policy draw now a acc)) b"
  by (auto simp: stranded_def recover_one_frame)

lemma fold_frame:
  "dict_get (rs_attempts (snd acc)) k = Some y \<Longrightarrow> k \<notin> att_id ` set xs \<Longrightarrow>
     dict_get (rs_attempts (snd (fold (recover_one policy draw now) xs acc))) k = Some y"
  by (induction xs arbitrary: acc) (auto simp: recover_one_frame)

lemma recover_fold:
  assumes "store_ok (snd acc)" "distinct (map att_id xs)" "\<forall>a \<in> set xs. stranded now (snd acc) a"
  shows "handled (fst (fold (recover_one policy draw now) xs acc)) = handled (fst acc) + length xs
    \<and> (\<forall>a \<in> set xs. att_status a = ATT_RUNNING \<longrightarrow>
        (\<exists>b. dict_get (rs_attempts (snd (fold (recover_one policy draw now) xs acc))) (att_id a) = Some b
          \<and> att_status b = ATT_FAILED))"
  using assms
proof (induction xs arbitrary: acc)
  case (Cons a xs)
  let ?acc = "recover_one policy draw now a acc"
  have a: "stranded now (snd acc) a" using Cons.prems by simp
  have "run_steps (snd acc) (snd ?acc)"
    using a by (intro recover_one_step [OF Cons.prems(1)]) (auto simp: snapshot_def stranded_def)
  then have ok: "store_ok (snd ?acc)" using Cons.prems(1) by (rule run_steps_ok)
  have rest: "\<forall>b \<in> set xs. stranded now (snd ?acc) b"
  proof
    fix b
    assume "b \<in> set xs"
    moreover from this Cons.prems(2) have "att_id b \<noteq> att_id a" by (auto simp: image_iff)
    ultimately show "stranded now (snd ?acc) b" using Cons.prems(3) by (intro stranded_frame) auto
  qed
  note hit = recover_one_hit [OF Cons.prems(1) a, of policy draw "fst acc", unfolded prod.collapse]
  from Cons.IH [OF ok _ rest] Cons.prems(2) have IH:
    "handled (fst (fold (recover_one policy draw now) xs ?acc)) = handled (fst ?acc) + length xs"
    "\<And>b. b \<in> set xs \<Longrightarrow> att_status b = ATT_RUNNING \<Longrightarrow>
        (\<exists>c. dict_get (rs_attempts (snd (fold (recover_one policy draw now) xs ?acc))) (att_id b) = Some c
          \<and> att_status c = ATT_FAILED)" by auto
  have "\<exists>c. dict_get (rs_attempts (snd (fold (recover_one policy draw now) xs ?acc))) (att_id a) = Some c
          \<and> att_status c = ATT_FAILED" if "att_status a = ATT_RUNNING"
  proof -
    from hit that obtain b where "dict_get (rs_attempts (snd ?acc)) (att_id a) = Some b"
      "att_status b = ATT_FAILED" by blast
    with fold_frame [of ?acc "att_id a" b xs policy draw now] Cons.prems(2) show ?thesis by auto
  qed
  with hit IH show ?case by auto
qed simp

lemma list_recoverable_stranded:
  assumes "store_ok rs" "a \<in> set (list_recoverable rs now limit)"
  shows "stranded now rs a"
proof -
  from assms(2) have "recoverable rs now a"
    unfolding list_recoverable_def using set_take_subset by fastforce
  then show ?thesis using list_recoverable_get [OF assms]
    by (auto simp: stranded_def recoverable_def lease_not_expired_def split: option.splits)
qed

lemma list_recoverable_distinct:
  assumes "store_ok rs"
  shows "distinct (map att_id (list_recoverable rs now limit))"
proof -
  let ?xs = "filter (recoverable rs now) (dict_values (rs_attempts rs))"
  have "distinct (map att_id (dict_values (rs_attempts rs)))"
    by (rule keyed_distinct_values [OF conjunct2 [OF lifecycle_keyed [OF assms]]])
  then have "distinct (map att_id ?xs)" by (simp add: distinct_map_filter)
  moreover have "mset (map att_id (sort_key att_started_at ?xs)) = mset (map att_id ?xs)" by simp
  ultimately have "distinct (map att_id (sort_key att_started_at ?xs))"
    using mset_eq_imp_distinct_iff by blast
  then show ?thesis unfolding list_recoverable_def take_map [symmetric] by (rule distinct_take)
qed

text \<open>
  A recovery scan handles every attempt it lists: each attempt whose lease ran out is failed
  in the repository (no listed attempt is left running on a dead worker), and the three
  counters of the result together count exactly the listed attempts.
\<close>

theorem recovery_scan_is_complete:
  assumes "runs_reachable rs" and "recover_expired policy draw now limit rs = (counts, rs')"
  shows "rr_retryable counts + rr_failed counts + rr_already_retryable counts =
      length (list_recoverable rs now limit)
    \<and> (\<forall>a \<in> set (list_recoverable rs now limit). att_status a = ATT_RUNNING \<longrightarrow>
        (\<exists>b. dict_get (rs_attempts rs') (att_id a) = Some b \<and> att_status b = ATT_FAILED))"
proof -
  have ok: "store_ok rs" using assms(1) by (rule reachable_store_ok)
  let ?acc = "(\<lparr>rr_retryable = 0, rr_failed = 0, rr_already_retryable = 0\<rparr>, rs)"
  have "\<forall>a \<in> set (list_recoverable rs now limit). stranded now (snd ?acc) a"
    using list_recoverable_stranded [OF ok] by simp
  from recover_fold [OF _ list_recoverable_distinct [OF ok] this, of policy draw] ok assms(2)
  show ?thesis by (simp add: recover_expired_def handled_def)
qed

end
