(* ===== verification/Retry_Bounds.thy ===== *)
theory Retry_Bounds
  imports Recovery
begin

text \<open>
  Bounds of the retry loop: a run never has more attempts than its configured maximum, a run
  whose execution keeps failing ends as \<^verbatim>\<open>FAILED\<close> after at most that many turns, and the
  worker's heartbeat interval keeps its lease alive. The closed instances of the theorems about
  the recovery worker are here too.
\<close>

section \<open>The number of attempts\<close>

lemma dict_set_fresh: "dict_get (dict_set d k v) j = Some y \<Longrightarrow> dict_get d j = None \<Longrightarrow> dict_get d k \<noteq> None \<Longrightarrow> False"
  by (auto split: if_splits)

lemma step_new_number:
  assumes "run_step rs rs'" and "store_ok rs" and "dict_get (rs_attempts rs') k = Some y"
    and "dict_get (rs_attempts rs) k = None"
  shows "1 \<le> att_number y"
  using assms
proof (induction rule: run_step.induct)
  case (submit r a rs)
  then show ?case
    by (auto simp: submit_def add_outbox_def add_attempt_def fresh_submission_def split: if_splits)
next
  case (start rs rid now)
  then show ?case by (auto simp: compare_and_set_status_def Let_def split: option.splits if_splits)
next
  case (claim rs rid worker lease now)
  then show ?case
    by (auto elim!: claim_cases [of rs rid worker lease now] split: if_splits)
next
  case (heartbeat rs aid worker lease version now)
  then show ?case by (auto simp: heartbeat_def split: option.splits if_splits)
next
  case (settle status rs aid worker version event now code msg)
  show ?case
    by (rule finalize_cases [of aid worker version status event now code msg rs])
      (use settle in \<open>auto split: if_splits\<close>)
next
  case (fail rs aid version delay now code msg worker bound clock)
  show ?case
    by (rule fail_cases [of aid version delay now code msg worker bound clock rs])
      (use fail in \<open>auto simp: retry_attempt_def split: if_splits\<close>)
next
  case (cancel rs rid now event)
  show ?case
    by (rule cancel_cases [of rid now event rs]) (use cancel in \<open>auto simp: map_of_map_snd\<close>)
next
  case (sweep_cancelled rs rid r aid a version now)
  then show ?case using sweep_noop [of rs a r aid] by simp
next
  case (record_event e rs e' rs')
  then show ?case using append_event_frame [of e rs e' rs'] by simp
qed simp

lemma steps_numbers:
  assumes "run_steps rs rs'" and "store_ok rs" and "\<forall>k a. dict_get (rs_attempts rs) k = Some a \<longrightarrow> 1 \<le> att_number a"
  shows "\<forall>k a. dict_get (rs_attempts rs') k = Some a \<longrightarrow> 1 \<le> att_number a"
  using assms
proof (induction rule: run_steps.induct)
  case (step rs rs' rs'')
  have ok: "store_ok rs'" using run_steps_ok step by blast
  show ?case
  proof (intro allI impI)
    fix k a
    assume a: "dict_get (rs_attempts rs'') k = Some a"
    show "1 \<le> att_number a"
    proof (cases "dict_get (rs_attempts rs') k")
      case None
      from step_new_number [OF step.hyps(2) ok a None] show ?thesis .
    next
      case (Some b)
      from step_version [OF step.hyps(2) ok Some] a have "att_number a = att_number b"
        by (auto simp: version_le_def)
      with Some step.IH step.prems show ?thesis by simp
    qed
  qed
qed simp

text \<open>
  Retries are bounded: in every reachable state the repository holds at most
  \<^verbatim>\<open>max_attempts\<close> attempts of a run, numbered from one without repetition.
\<close>

theorem attempts_bounded:
  assumes "runs_reachable rs" and r: "dict_get (rs_items rs) rid = Some r"
  shows "card {k. \<exists>a. dict_get (rs_attempts rs) k = Some a \<and> att_run_id a = rid} \<le> run_max_attempts r"
proof -
  let ?K = "{k. \<exists>a. dict_get (rs_attempts rs) k = Some a \<and> att_run_id a = rid}"
  let ?n = "\<lambda>k. att_number (the (dict_get (rs_attempts rs) k))"
  have ok: "store_ok rs" using assms(1) by (rule reachable_store_ok)
  have pos: "1 \<le> att_number a" if "dict_get (rs_attempts rs) k = Some a" for k a
    using steps_numbers [OF assms(1) [unfolded runs_reachable_def] empty_store_ok] that
    by (auto simp: empty_run_store_def)
  have "inj_on ?n ?K"
    by (rule inj_onI) (use lifecycle_number [OF ok] in fastforce)
  moreover have "?n ` ?K \<subseteq> {1..run_max_attempts r}"
    using pos lifecycle_attempt [OF ok] lifecycle_run [OF ok r] r
    by (fastforce simp: attempt_ok_def bounds_ok_def)
  ultimately have "card ?K \<le> card {1..run_max_attempts r}" by (rule card_inj_on_le) simp
  then show ?thesis by simp
qed

section \<open>Heartbeats\<close>

text \<open>
  The heartbeat keeps the lease: for a lease of at least a fifth of a second the clamped
  interval is positive and at most half the lease, and a beat of the claiming worker that comes
  within one interval of the last renewal is accepted and extends the lease by its full length.
\<close>

theorem heartbeat_keeps_lease:
  assumes cfg: "cfg = make_worker wid lease_s beat_s delay_s jitter_s" and "1 / 5 \<le> lease_s"
    and a: "dict_get (rs_attempts rs) (att_id a) = Some b" "att_status b = ATT_RUNNING"
      "att_worker_id b = Some wid" "att_version b = att_version a"
      "att_lease_expires_at b = Some (renewed_at + timedelta_seconds lease_s)"
    and "now \<le> renewed_at + timedelta_seconds (wc_heartbeat_s cfg)"
  shows "0 < wc_heartbeat_s cfg \<and> 2 * wc_heartbeat_s cfg \<le> lease_s
    \<and> (\<exists>rs'. heartbeat_turn cfg a now rs = Inr rs'
        \<and> map_option att_lease_expires_at (dict_get (rs_attempts rs') (att_id a)) =
            Some (Some (now + timedelta_seconds lease_s)))"
proof -
  let ?h = "wc_heartbeat_s cfg"
  have h: "0 < ?h" "2 * ?h \<le> lease_s" using assms(2) by (auto simp: cfg make_worker_def)
  have "timedelta_seconds ?h < timedelta_seconds lease_s"
  proof -
    have "?h * 1000000 \<le> lease_s * 1000000 - 100000" using h assms(2) by linarith
    then have "timedelta_seconds ?h \<le> round_half_even (lease_s * 1000000 - 100000)"
      unfolding timedelta_seconds_def by (rule round_half_even_mono)
    moreover have "round_half_even (lease_s * 1000000 - 100000) = timedelta_seconds lease_s - 100000"
      by (simp add: timedelta_seconds_def round_half_even_def Let_def algebra_simps)
    ultimately show ?thesis by linarith
  qed
  with assms(8) have "now < renewed_at + timedelta_seconds lease_s" by linarith
  with a h show ?thesis
    by (simp add: heartbeat_turn_def Run_Store.heartbeat_def cfg make_worker_def)
qed

section \<open>A run that keeps failing ends\<close>

text \<open>
  Worker rounds, each with what the worker meets and the clock at its scan; \<open>rounds_due\<close> says that
  each scan comes when the run's backoff is over (or the run is finished).
\<close>

fun rounds :: "worker_config \<Rightarrow> (worker_env \<times> moment) list \<Rightarrow> run_store \<Rightarrow> run_store" where
  "rounds cfg [] rs = rs"
| "rounds cfg ((env, t) # xs) rs = rounds cfg xs (snd (run_once cfg env None t 100 rs))"

fun rounds_due :: "worker_config \<Rightarrow> string \<Rightarrow> (worker_env \<times> moment) list \<Rightarrow> run_store \<Rightarrow> bool" where
  "rounds_due cfg rid [] rs = True"
| "rounds_due cfg rid ((env, t) # xs) rs =
     ((case dict_get (rs_items rs) rid of None \<Rightarrow> False | Some r \<Rightarrow> run_terminal (run_status r) \<or> due t r)
      \<and> rounds_due cfg rid xs (snd (run_once cfg env None t 100 rs)))"

text \<open>An executor that always raises, on a worker whose clock does not run backwards.\<close>

definition always_fails :: "worker_env \<times> moment \<Rightarrow> bool" where
  "always_fails w = (\<forall>r a. (\<exists>msg. \<forall>rs. we_executor (fst w) r a rs = (Raised msg, rs))
     \<and> snd w \<le> we_claim_at (fst w) a)"

definition waiting_retry :: "run_store \<Rightarrow> run \<Rightarrow> run_attempt \<Rightarrow> bool" where
  "waiting_retry rs r a =
     (store_ok rs \<and> rs_items rs = [(run_id r, r)] \<and> run_status r = QUEUED
      \<and> dict_get (rs_attempts rs) (att_id a) = Some a \<and> att_run_id a = run_id r
      \<and> att_status a = ATT_RETRYABLE)"

lemma waiting_retryD:
  assumes "waiting_retry rs r a"
  shows "store_ok rs" "rs_items rs = [(run_id r, r)]" "dict_get (rs_items rs) (run_id r) = Some r"
    "run_status r = QUEUED" "dict_get (rs_attempts rs) (att_id a) = Some a" "att_run_id a = run_id r"
    "att_status a = ATT_RETRYABLE" "live a"
  using assms unfolding waiting_retry_def live_def by auto

lemma always_fails_env_ok: "always_fails (env, t) \<Longrightarrow> env_ok env"
proof -
  assume fails: "always_fails (env, t)"
  have "run_steps rs (snd (we_executor env r a rs))
      \<and> (\<forall>x. fst (we_executor env r a rs) = Returned (Some x) \<longrightarrow> run_terminal (xr_status x))" for r a rs
  proof -
    from fails obtain msg where "we_executor env r a rs = (Raised msg, rs)"
      unfolding always_fails_def by (metis fst_conv)
    then show ?thesis by (simp add: run_steps.refl)
  qed
  then show ?thesis unfolding env_ok_def by blast
qed

lemma filter_singleton:
  assumes "distinct xs" "x \<in> set xs" "P x" "\<And>y. y \<in> set xs \<Longrightarrow> P y \<Longrightarrow> y = x"
  shows "filter P xs = [x]"
proof -
  have "set (filter P xs) = {x}" unfolding set_filter using assms(2-4) by blast
  moreover have "distinct (filter P xs)" using assms(1) by simp
  ultimately have "length (filter P xs) = 1" by (metis distinct_card card_1_singleton_iff One_nat_def)
  with \<open>set (filter P xs) = {x}\<close> show ?thesis by (cases "filter P xs") auto
qed

lemma waiting_scan:
  assumes w: "waiting_retry rs r a" and "due t r"
  shows "list_recoverable rs t 100 = [a]"
proof -
  have ok: "store_ok rs" and a: "dict_get (rs_attempts rs) (att_id a) = Some a" "live a"
    using waiting_retryD [OF w] by blast+
  note keyed = conjunct2 [OF lifecycle_keyed [OF ok]]
  have "filter (recoverable rs t) (dict_values (rs_attempts rs)) = [a]"
  proof (rule filter_singleton)
    show "distinct (dict_values (rs_attempts rs))"
      using keyed_distinct_values [OF keyed] unfolding distinct_map by blast
    show "a \<in> set (dict_values (rs_attempts rs))" using dict_get_SomeD [OF a(1)] by force
    show "recoverable rs t a" using w assms(2)
      by (auto simp: waiting_retry_def recoverable_def due_def split: option.splits)
    fix b
    assume "b \<in> set (dict_values (rs_attempts rs))" "recoverable rs t b"
    moreover from this(1) have b: "dict_get (rs_attempts rs) (att_id b) = Some b"
      by (rule keyed_value_get [OF keyed])
    ultimately have "live b" "att_run_id b = run_id r"
      using w by (auto simp: recoverable_def live_def waiting_retry_def split: option.splits if_splits)
    with live_unique [OF ok a b] w have "att_id a = att_id b" by (simp add: waiting_retry_def)
    then show "b = a" using a(1) b by (metis option.inject)
  qed
  then show ?thesis by (simp add: list_recoverable_def page_limit_def)
qed

lemma claim_current:
  assumes ok: "store_ok rs" and a: "dict_get (rs_attempts rs) (att_id a) = Some a" "claimable now a"
  shows "claim (att_run_id a) worker lease now rs =
    (Some (a\<lparr>att_status := ATT_RUNNING, att_worker_id := Some worker, att_heartbeat_at := Some now,
         att_lease_expires_at := Some (now + timedelta_seconds lease), att_version := att_version a + 1\<rparr>),
     rs\<lparr>rs_attempts := dict_set (rs_attempts rs) (att_id a)
       (a\<lparr>att_status := ATT_RUNNING, att_worker_id := Some worker, att_heartbeat_at := Some now,
         att_lease_expires_at := Some (now + timedelta_seconds lease), att_version := att_version a + 1\<rparr>)\<rparr>)"
proof -
  let ?xs = "filter (\<lambda>b. att_run_id b = att_run_id a) (dict_values (rs_attempts rs))"
  note keyed = conjunct2 [OF lifecycle_keyed [OF ok]]
  have mem: "a \<in> set (sorted_desc att_number ?xs)" using dict_get_SomeD [OF a(1)] by force
  then obtain x ys where xs: "sorted_desc att_number ?xs = x # ys" by (cases "sorted_desc att_number ?xs") auto
  then have "x \<in> set (sorted_desc att_number ?xs)" by simp
  then have x: "x \<in> set (dict_values (rs_attempts rs))" "att_run_id x = att_run_id a" by auto
  have gx: "dict_get (rs_attempts rs) (att_id x) = Some x" by (rule keyed_value_get [OF keyed x(1)])
  obtain r where r: "dict_get (rs_items rs) (att_run_id a) = Some r" "att_number a = run_current_attempt r"
    using live_run [OF ok a(1) claimable_live [OF a(2)]] by blast
  have "att_number x \<le> att_number a" using lifecycle_attempt [OF ok gx] r x(2) by (auto simp: attempt_ok_def)
  moreover have "att_number a \<le> att_number x"
  proof -
    from mem have "a = x \<or> a \<in> set ys" unfolding xs by simp
    moreover from sorted_desc_sorted [of att_number ?xs] have "\<forall>y \<in> set ys. att_number y \<le> att_number x"
      unfolding xs by simp
    ultimately show ?thesis by auto
  qed
  ultimately have "att_id x = att_id a" using lifecycle_number [OF ok gx a(1) x(2)] by simp
  then have "x = a" using gx a(1) by (metis option.inject)
  with xs a(2) show ?thesis by (simp add: claim_def Let_def)
qed

lemma waiting_run_once:
  fixes cfg :: worker_config
  assumes w: "waiting_retry rs r a" and d: "due t r" and f: "always_fails (env, t)"
  defines "now \<equiv> we_claim_at env a"
  defines "a' \<equiv> a\<lparr>att_status := ATT_RUNNING, att_worker_id := Some (wc_worker_id cfg),
      att_heartbeat_at := Some now, att_lease_expires_at := Some (now + timedelta_seconds (wc_lease_s cfg)),
      att_version := att_version a + 1\<rparr>"
  shows "\<exists>msg. snd (run_once cfg env None t 100 rs) =
    snd (fail_transition (wc_policy cfg) (we_draw env a') a' (we_fail_at env a') ''EXECUTION_FAILED'' msg None
      (we_created_at env a') (rs\<lparr>rs_attempts := dict_set (rs_attempts rs) (att_id a) a'\<rparr>))"
proof -
  from f obtain msg where exec: "\<And>rs. we_executor env r a' rs = (Raised msg, rs)" and le: "t \<le> now"
    unfolding always_fails_def now_def by (metis fst_conv snd_conv)
  have ok: "store_ok rs" and a: "dict_get (rs_attempts rs) (att_id a) = Some a" "att_status a = ATT_RETRYABLE"
    "att_run_id a = run_id r"
    and r: "dict_get (rs_items rs) (run_id r) = Some r"
    using waiting_retryD [OF w] by blast+
  note scan = waiting_scan [OF w d]
  have rec: "snd (recover_expired (wc_policy cfg) (we_draw env) t 100 rs) = rs"
    unfolding recover_expired_def scan by (simp add: recover_one_def a(2))
  have "claim (run_id r) (wc_worker_id cfg) (wc_lease_s cfg) now rs =
      (Some a', rs\<lparr>rs_attempts := dict_set (rs_attempts rs) (att_id a) a'\<rparr>)"
    unfolding a'_def a(3) [symmetric] by (rule claim_current [OF ok a(1)]) (simp add: claimable_def a(2))
  moreover have "due now r" using d le by (auto simp: due_def split: option.splits)
  ultimately have "snd (run_once cfg env None t 100 rs) =
      snd (handle_failure cfg env r a' msg (rs\<lparr>rs_attempts := dict_set (rs_attempts rs) (att_id a) a'\<rparr>))"
    using a r exec unfolding run_once_def Let_def option.case rec scan
    by (simp add: now_def [symmetric] execute_def split_beta)
  then show ?thesis unfolding handle_failure_eq next_attempt_eq snd_conv by blast
qed

lemma failing_round:
  fixes cfg :: worker_config
  assumes w: "waiting_retry rs r a" and "due t r" and f: "always_fails (env, t)"
  defines "rs' \<equiv> snd (run_once cfg env None t 100 rs)"
  shows "(\<exists>r'. dict_get (rs_items rs') (run_id r) = Some r' \<and> run_status r' = FAILED) \<or>
    (att_number a < run_max_attempts r \<and>
      (\<exists>r' a'. waiting_retry rs' r' a' \<and> run_id r' = run_id r \<and> run_max_attempts r' = run_max_attempts r
        \<and> att_number a' = att_number a + 1))"
proof -
  define a' where "a' = a\<lparr>att_status := ATT_RUNNING, att_worker_id := Some (wc_worker_id cfg),
      att_heartbeat_at := Some (we_claim_at env a),
      att_lease_expires_at := Some (we_claim_at env a + timedelta_seconds (wc_lease_s cfg)),
      att_version := att_version a + 1\<rparr>"
  let ?rs = "rs\<lparr>rs_attempts := dict_set (rs_attempts rs) (att_id a) a'\<rparr>"
  obtain msg where rs': "rs' = snd (fail_transition (wc_policy cfg) (we_draw env a') a' (we_fail_at env a')
      ''EXECUTION_FAILED'' msg None (we_created_at env a') ?rs)"
    using waiting_run_once [OF assms(1-3), of cfg] unfolding rs'_def a'_def by blast
  have ok: "store_ok rs" and items: "rs_items rs = [(run_id r, r)]" and q: "run_status r = QUEUED"
    and a: "att_run_id a = run_id r" using waiting_retryD [OF w] by blast+
  have ok': "store_ok rs'" unfolding rs'_def
    using run_steps_ok [OF run_once_steps [OF always_fails_env_ok [OF f] ok] ok] .
  have at: "dict_get (rs_attempts ?rs) (att_id a') = Some a'" and a'_simps: "att_id a' = att_id a"
    "att_run_id a' = run_id r" "att_number a' = att_number a" "att_status a' = ATT_RUNNING"
    by (simp_all add: a'_def a)
  let ?d = "retry_delay (wc_policy cfg) (att_number a') (we_draw env a')"
  let ?T = "\<lambda>rs. transition_failed_attempt (att_id a') (att_version a') ?d (we_fail_at env a')
      ''EXECUTION_FAILED'' msg (att_worker_id a') None (we_created_at env a') rs"
  have rs'': "rs' = snd (?T ?rs)" unfolding rs' by simp
  show ?thesis
  proof (rule fail_cases [of "att_id a'" "att_version a'" ?d "we_fail_at env a'" "''EXECUTION_FAILED''" msg
        "att_worker_id a'" None "we_created_at env a'" ?rs], goal_cases)
    case 1
    with at items a'_simps q have False
      by (simp add: transition_failed_attempt_def lease_not_expired_def Let_def split: if_splits)
    then show ?case ..
  next
    case (2 b p)
    with at items a'_simps q have False by simp
    then show ?case ..
  next
    case (3 b p)
    with at items a'_simps have "p = r" by simp
    with 3(8) items show ?case unfolding rs'' by simp
  next
    case (4 b p)
    with at items a'_simps have "p = r" "b = a'" by simp_all
    let ?r = "requeued_run (att_number a') (we_fail_at env a' + timedelta_seconds (max 0 ?d)) r"
    let ?b = "retry_attempt r a' (we_fail_at env a')"
    have "rs_items rs' = [(run_id ?r, ?r)]" unfolding rs'' using 4(9) items \<open>p = r\<close> \<open>b = a'\<close> by simp
    moreover have new: "dict_get (rs_attempts rs') (att_id ?b) = Some ?b"
    proof -
      have "dict_get (rs_attempts ?rs) (att_id ?b) = None"
      proof (rule ccontr)
        assume "dict_get (rs_attempts ?rs) (att_id ?b) \<noteq> None"
        then obtain c where "dict_get (rs_attempts rs) (att_id ?b) = Some c"
          using w by (auto simp: waiting_retry_def split: if_splits)
        from lifecycle_attempt [OF ok this] have
          "att_id ?b = retry_attempt_id (att_run_id c) (att_number c)"
          and "\<exists>q. dict_get (rs_items rs) (att_run_id c) = Some q \<and> att_number c \<le> run_current_attempt q"
          by (auto simp: attempt_ok_def retry_attempt_def retry_attempt_id_prefix)
        moreover from this(1) have "att_number c = att_number a + 1"
          using retry_attempt_id_inj [of "run_id r" "att_number a + 1"] a'_simps
          by (simp add: retry_attempt_def)
        moreover have "att_number a = run_current_attempt r"
          using live_run [OF ok, of "att_id a" a] w items by (auto simp: waiting_retry_def live_def)
        ultimately show False using items by (auto split: if_splits)
      qed
      then show ?thesis unfolding rs'' using 4(10) \<open>p = r\<close> \<open>b = a'\<close> a'_simps(1)
        by (simp add: retry_attempt_def split: if_splits)
    qed
    ultimately have "waiting_retry rs' ?r ?b"
      using ok' by (simp add: waiting_retry_def retry_attempt_def)
    moreover have "att_number a < run_max_attempts r" using 4(7) \<open>p = r\<close> \<open>b = a'\<close> a'_simps by simp
    ultimately show ?case using a'_simps by (intro disjI2 conjI exI [of _ ?r] exI [of _ ?b])
        (simp_all add: retry_attempt_def)
  qed
qed

lemma rounds_terminal:
  assumes "\<forall>x \<in> set xs. always_fails x" "store_ok rs" "dict_get (rs_items rs) rid = Some r"
    "run_terminal (run_status r)"
  shows "\<exists>r'. dict_get (rs_items (rounds cfg xs rs)) rid = Some r' \<and> run_status r' = run_status r"
  using assms
proof (induction cfg xs rs arbitrary: r rule: rounds.induct)
  case (2 cfg env t xs rs)
  have steps: "run_steps rs (snd (run_once cfg env None t 100 rs))"
    using 2 by (intro run_once_steps) (auto intro: always_fails_env_ok)
  obtain r' where r': "dict_get (rs_items (snd (run_once cfg env None t 100 rs))) rid = Some r'"
    "run_status r' = run_status r"
    using steps_terminal [OF steps] 2 by blast
  from "2.IH" [OF _ run_steps_ok [OF steps "2.prems"(2)] r'(1)] r'(2) 2 show ?case by simp
qed simp

text \<open>
  With the whole store to itself a run that keeps failing ends: starting from a queued run whose
  attempt number \<open>n\<close> waits to be claimed, \<open>max_attempts - n + 1\<close> worker rounds whose executor raises,
  each made once the backoff is over, leave the run durably \<^verbatim>\<open>FAILED\<close>.
\<close>

theorem sole_failing_run_ends:
  assumes "waiting_retry rs r a" and "\<forall>x \<in> set xs. always_fails x" and "rounds_due cfg (run_id r) xs rs"
    and "run_max_attempts r < att_number a + length xs"
    and "1 \<le> length xs"
  shows "\<exists>r'. dict_get (rs_items (rounds cfg xs rs)) (run_id r) = Some r' \<and> run_status r' = FAILED"
  using assms
proof (induction xs arbitrary: rs r a)
  case (Cons x xs)
  obtain env t where x: "x = (env, t)" by (cases x)
  let ?rs = "snd (run_once cfg env None t 100 rs)"
  have ok: "store_ok rs" and r: "dict_get (rs_items rs) (run_id r) = Some r" "run_status r = QUEUED"
    using waiting_retryD [OF Cons.prems(1)] by blast+
  with Cons.prems(3) x have "due t r" and later: "rounds_due cfg (run_id r) xs ?rs" by simp_all
  have fails: "always_fails (env, t)" using Cons.prems(2) x by simp
  have ok': "store_ok ?rs"
    using run_steps_ok [OF run_once_steps [OF always_fails_env_ok [OF fails] ok] ok] .
  from failing_round [OF Cons.prems(1) \<open>due t r\<close> fails, of cfg] show ?case
  proof (elim disjE exE conjE)
    fix r'
    assume "dict_get (rs_items ?rs) (run_id r) = Some r'" "run_status r' = FAILED"
    with rounds_terminal [OF _ ok', of xs "run_id r" r' cfg] Cons.prems(2) x show ?case by simp
  next
    fix r' a'
    assume "att_number a < run_max_attempts r" "waiting_retry ?rs r' a'" "run_id r' = run_id r"
      "run_max_attempts r' = run_max_attempts r" "att_number a' = att_number a + 1"
    with Cons.IH [of ?rs r' a'] Cons.prems(2,4) later x show ?case by simp
  qed
qed simp

text \<open>
  In any store, and with anything happening in between: the failing turns of a run. In a turn some
  worker claims an attempt of the run and its executor raises, after steps of the repository that leave
  the attempt to the worker; the worker then handles the failure.
\<close>

inductive failing_turns :: "string \<Rightarrow> run_store \<Rightarrow> nat \<Rightarrow> run_store \<Rightarrow> bool" for rid rs0 where
  none: "failing_turns rid rs0 0 rs0"
| others: "failing_turns rid rs0 n rs \<Longrightarrow> run_steps rs rs' \<Longrightarrow> failing_turns rid rs0 n rs'"
| turn: "failing_turns rid rs0 n rs \<Longrightarrow>
    claim rid (wc_worker_id cfg) (wc_lease_s cfg) now rs = (Some a, rs1) \<Longrightarrow>
    we_executor env r a rs1 = (Raised msg, rs2) \<Longrightarrow> run_steps rs1 rs2 \<Longrightarrow>
    dict_get (rs_attempts rs2) (att_id a) = Some b \<Longrightarrow> att_version b = att_version a \<Longrightarrow>
    execute cfg env r a rs1 = (Some report, rs') \<Longrightarrow> failing_turns rid rs0 (Suc n) rs'"

text \<open>A run keeps its maximum, and its attempt number never decreases.\<close>

definition counts_le :: "run \<Rightarrow> run \<Rightarrow> bool" where
  "counts_le r r' = (run_max_attempts r' = run_max_attempts r \<and> run_current_attempt r \<le> run_current_attempt r')"

lemma counts_le_refl [simp]: "counts_le r r"
  by (simp add: counts_le_def)

lemma step_counts:
  assumes "run_step rs rs'" and "store_ok rs" and "dict_get (rs_items rs) rid = Some r"
  shows "\<exists>r'. dict_get (rs_items rs') rid = Some r' \<and> counts_le r r'"
  using assms
proof (induction rule: run_step.induct)
  case (submit q a rs)
  then show ?case by (auto simp: submit_def add_outbox_def add_attempt_def)
next
  case (start rs k now)
  then show ?case
    by (cases "dict_get (rs_items rs) k") (auto simp: compare_and_set_status_def Let_def counts_le_def)
next
  case (claim rs k worker lease now)
  then show ?case by (auto elim: claim_cases [of rs k worker lease now])
next
  case (heartbeat rs aid worker lease version now)
  then show ?case by (auto simp: heartbeat_def split: option.splits)
next
  case (settle status rs aid worker version event now code msg)
  note own = keyed_get [OF conjunct1 [OF lifecycle_keyed [OF settle(2)]]]
  show ?case
    by (rule finalize_cases [of aid worker version status event now code msg rs])
      (use settle own in \<open>auto simp: counts_le_def\<close>)
next
  case (fail rs aid version delay now code msg worker bound clock)
  note own = keyed_get [OF conjunct1 [OF lifecycle_keyed [OF fail(1)]]]
  show ?case
  proof (rule fail_cases [of aid version delay now code msg worker bound clock rs], goal_cases)
    case (3 a q)
    then show ?case using fail own by (auto simp: counts_le_def failed_run_def)
  next
    case (4 a q)
    have "live a" using 4(2) by (simp add: live_def)
    from live_run [OF fail(1) 4(1) this] 4(4) have "att_number a = run_current_attempt q" by fastforce
    then show ?case using 4(4,9) fail own by (auto simp: counts_le_def)
  qed (use fail in simp_all)
next
  case (cancel rs k now event)
  show ?case
    by (rule cancel_cases [of k now event rs]) (use cancel in \<open>auto simp: counts_le_def\<close>)
next
  case (sweep_cancelled rs k q aid a version now)
  then show ?case using sweep_noop [of rs a q aid] by simp
next
  case (record_event e rs e' rs')
  then show ?case using append_event_frame [of e rs e' rs'] by simp
qed simp

lemma steps_counts:
  assumes "run_steps rs rs'" and "store_ok rs" and "dict_get (rs_items rs) rid = Some r"
  shows "\<exists>r'. dict_get (rs_items rs') rid = Some r' \<and> counts_le r r'"
  using assms
proof (induction rule: run_steps.induct)
  case (step rs rs' rs'')
  from step.IH [OF step.prems] obtain q where q: "dict_get (rs_items rs') rid = Some q" "counts_le r q" by blast
  from step_counts [OF step.hyps(2) run_steps_ok [OF step.hyps(1) step.prems(1)] q(1)] q(2)
  show ?case by (auto simp: counts_le_def)
qed simp

text \<open>One failing turn: the run was not finished, and it ends or goes on to its next attempt.\<close>

lemma failing_turn:
  assumes ok: "store_ok rs" and c: "claim rid (wc_worker_id cfg) lease now rs = (Some a, rs1)"
    and ex: "we_executor env r a rs1 = (Raised msg, rs2)" "run_steps rs1 rs2"
    and b: "dict_get (rs_attempts rs2) (att_id a) = Some b" "att_version b = att_version a"
    and report: "execute cfg env r a rs1 = (Some report, rs')"
    and q: "dict_get (rs_items rs) rid = Some q"
  shows "store_ok rs' \<and> \<not> run_terminal (run_status q)
    \<and> (\<exists>q'. dict_get (rs_items rs') rid = Some q' \<and> counts_le q q'
        \<and> (run_status q' = FAILED \<or> run_current_attempt q < run_current_attempt q'))"
proof -
  have s1: "run_step rs rs1" using run_step.claim [of rs rid "wc_worker_id cfg" lease now] c by simp
  have ok1: "store_ok rs1" using run_step_ok [OF s1 ok] .
  have ok2: "store_ok rs2" using run_steps_ok [OF ex(2) ok1] .
  have s12: "run_steps rs rs2" using run_steps_trans [OF ex(2) run_steps_one [OF s1]] .
  obtain d where d: "dict_get (rs_attempts rs) (att_id d) = Some d" "att_run_id d = rid" "claimable now d"
    and a: "a = d\<lparr>att_status := ATT_RUNNING, att_worker_id := Some (wc_worker_id cfg), att_heartbeat_at := Some now,
         att_lease_expires_at := Some (now + timedelta_seconds lease), att_version := att_version d + 1\<rparr>"
    and rs1: "rs1 = rs\<lparr>rs_attempts := dict_set (rs_attempts rs) (att_id d) a\<rparr>"
    by (rule claim_cases [OF ok, of rid "wc_worker_id cfg" lease now]) (use c that in auto)
  have a: "dict_get (rs_attempts rs1) (att_id a) = Some a" "att_status a = ATT_RUNNING" "att_run_id a = rid"
      "att_worker_id a = Some (wc_worker_id cfg)"
    by (simp_all add: rs1) (simp_all add: a d(2))
  from live_run [OF ok d(1) claimable_live [OF d(3)]] q d(2) have open_run: "\<not> run_terminal (run_status q)"
    by fastforce
  from steps_version [OF ex(2) ok1 a(1)] b have b': "att_status b = ATT_RUNNING" "att_run_id b = rid"
      "att_worker_id b = Some (wc_worker_id cfg)" using a by (auto simp: version_le_def)
  from steps_counts [OF s12 ok q] obtain p where p: "dict_get (rs_items rs2) rid = Some p" "counts_le q p" by blast
  have "live b" using b' by (simp add: live_def)
  from live_run [OF ok2 b(1) this] p b' have n: "att_number b = run_current_attempt p" "run_id p = rid"
      "\<not> run_terminal (run_status p)" by fastforce+
  let ?d = "retry_delay (wc_policy cfg) (att_number a) (we_draw env a)"
  have rs': "rs' = snd (transition_failed_attempt (att_id a) (att_version a) ?d (we_fail_at env a)
      ''EXECUTION_FAILED'' msg (att_worker_id a) None (we_created_at env a) rs2)" (is "_ = snd ?t")
  proof -
    have "rs' = snd (handle_failure cfg env r a msg rs2)"
      using report ex(1) by (simp add: execute_def split_beta)
    then show ?thesis unfolding handle_failure_eq next_attempt_eq by simp
  qed
  have "store_ok rs'" unfolding rs' by (rule run_step_ok [OF run_step.fail ok2])
  moreover have "\<exists>q'. dict_get (rs_items rs') rid = Some q' \<and> counts_le p q'
      \<and> (run_status q' = FAILED \<or> run_current_attempt p < run_current_attempt q')"
  proof (rule fail_cases [of "att_id a" "att_version a" ?d "we_fail_at env a" "''EXECUTION_FAILED''" msg
        "att_worker_id a" None "we_created_at env a" rs2], goal_cases)
    case 1
    with b b' a p n(3) have False
      by (auto simp: transition_failed_attempt_def lease_not_expired_def Let_def split: if_splits)
    then show ?case ..
  next
    case (2 c s)
    with b b' p n(3) have False by auto
    then show ?case ..
  next
    case (3 c s)
    with b b' p n show ?case unfolding rs' by (auto simp: counts_le_def failed_run_def)
  next
    case (4 c s)
    with b b' p n show ?case unfolding rs' by (auto simp: counts_le_def)
  qed
  ultimately show ?thesis using open_run p(2) by (auto simp: counts_le_def)
qed

lemma failing_turns_count:
  assumes "failing_turns rid rs0 n rs" and "store_ok rs0" and "dict_get (rs_items rs0) rid = Some r"
  shows "store_ok rs \<and> (\<exists>q. dict_get (rs_items rs) rid = Some q \<and> counts_le r q
    \<and> (if run_status q = FAILED then n + run_current_attempt r \<le> run_current_attempt q + 1
       else n + run_current_attempt r \<le> run_current_attempt q))"
  using assms
proof (induction rule: failing_turns.induct)
  case (others n rs rs')
  then obtain q where ok: "store_ok rs" and q: "dict_get (rs_items rs) rid = Some q" "counts_le r q"
    "if run_status q = FAILED then n + run_current_attempt r \<le> run_current_attempt q + 1
       else n + run_current_attempt r \<le> run_current_attempt q" by blast
  obtain q' where q': "dict_get (rs_items rs') rid = Some q'" "counts_le q q'"
    using steps_counts [OF others.hyps(2) ok q(1)] by blast
  have "run_status q' = FAILED" if "run_status q = FAILED"
    using steps_terminal [OF others.hyps(2) ok q(1)] q'(1) that by simp
  then show ?case using run_steps_ok [OF others.hyps(2) ok] q q' by (auto simp: counts_le_def split: if_splits)
next
  case (turn n rs cfg now a rs1 env p msg rs2 b report rs')
  then obtain q where ok: "store_ok rs" and q: "dict_get (rs_items rs) rid = Some q" "counts_le r q"
    "if run_status q = FAILED then n + run_current_attempt r \<le> run_current_attempt q + 1
       else n + run_current_attempt r \<le> run_current_attempt q" by blast
  from failing_turn [OF ok turn.hyps(2-7) q(1)] obtain q' where ok': "store_ok rs'"
    and "\<not> run_terminal (run_status q)" and q': "dict_get (rs_items rs') rid = Some q'" "counts_le q q'"
      "run_status q' = FAILED \<or> run_current_attempt q < run_current_attempt q'" by blast
  then have "run_status q \<noteq> FAILED" by auto
  then have "n + run_current_attempt r \<le> run_current_attempt q" using q(3) by simp
  then show ?case using ok' q(2) q' by (intro conjI exI [of _ q']) (simp_all add: counts_le_def, linarith)
qed simp

text \<open>
  C11. A run is not retried for ever: in any store, from any reachable state, and whatever else happens
  to the repository in between, at most \<open>max_attempts - current_attempt + 1\<close> more turns of its
  workers can fail, and the last of them leaves the run \<^verbatim>\<open>FAILED\<close>. When the worker comes to a turn is
  not part of this.
\<close>

theorem failing_run_ends:
  assumes "runs_reachable rs" and "dict_get (rs_items rs) rid = Some r" and "failing_turns rid rs n rs'"
  shows "n \<le> run_max_attempts r - run_current_attempt r + 1
    \<and> (n = run_max_attempts r - run_current_attempt r + 1
        \<longrightarrow> (\<exists>r'. dict_get (rs_items rs') rid = Some r' \<and> run_status r' = FAILED))"
proof -
  have ok: "store_ok rs" using assms(1) by (rule reachable_store_ok)
  from failing_turns_count [OF assms(3) ok assms(2)] obtain q where ok': "store_ok rs'"
    and q: "dict_get (rs_items rs') rid = Some q" "counts_le r q"
      "if run_status q = FAILED then n + run_current_attempt r \<le> run_current_attempt q + 1
       else n + run_current_attempt r \<le> run_current_attempt q" by blast
  have "run_current_attempt q \<le> run_max_attempts q" "run_current_attempt r \<le> run_max_attempts r"
    using lifecycle_run [OF ok' q(1)] lifecycle_run [OF ok assms(2)] by (simp_all add: bounds_ok_def)
  then show ?thesis using q by (auto simp: counts_le_def split: if_splits)
qed

section \<open>Concrete rounds\<close>

definition sample_worker :: worker_config where
  "sample_worker = make_worker ''worker'' 60 15 5 1"

definition failing_env :: worker_env where
  "failing_env = \<lparr>we_executor = (\<lambda>r a rs. (Raised ''boom'', rs)), we_draw = (\<lambda>_. 0),
     we_claim_at = (\<lambda>_. 100), we_settle_at = (\<lambda>_. 100), we_fail_at = (\<lambda>_. 100),
     we_created_at = (\<lambda>_. 100)\<rparr>"

definition completing_env :: worker_env where
  "completing_env = failing_env\<lparr>we_executor := (\<lambda>r a rs. (Returned None, rs))\<rparr>"

lemma env_ok_samples: "env_ok failing_env" "env_ok completing_env"
  by (simp_all add: env_ok_def failing_env_def completing_env_def run_steps.refl)

theorem drive_follows_protocol_witness:
  "runs_reachable (snd (drive sample_worker
     (\<lambda>n. \<lparr>pw_closing = False, pw_clock = int (1000 - n), pw_env = completing_env\<rparr>) submitted_store))"
  using drive_follows_protocol [OF submitted_store_reachable, of
      "\<lambda>n. \<lparr>pw_closing = False, pw_clock = int (1000 - n), pw_env = completing_env\<rparr>" sample_worker]
    env_ok_samples by simp

theorem execution_settles_and_reports_witness:
  "\<exists>rs'. execute sample_worker completing_env sample_run claimed_attempt claimed_store =
      (Some ''completed'', rs')
    \<and> (\<exists>p. dict_get (rs_items rs') ''r1'' = Some p \<and> run_status p = COMPLETED)"
proof -
  have "fst (execute sample_worker completing_env sample_run claimed_attempt claimed_store) = Some ''completed''"
    by (simp add: execute_def completing_env_def failing_env_def commit_outcome_def
        default_execution_result_def committed_reply_def finalize_attempt_def claimed_attempt_def
        sample_attempt_def sample_run_def sample_worker_def make_worker_def Let_def)
  then obtain rs' where exec: "execute sample_worker completing_env sample_run claimed_attempt claimed_store =
      (Some ''completed'', rs')" by (metis prod.collapse)
  have "\<exists>p. dict_get (rs_items rs') (run_id sample_run) = Some p \<and> run_status p = COMPLETED"
    using execution_settles_and_reports [OF claimed_store_reachable env_ok_samples(2) _ _ _ _ exec]
    by (simp add: claimed_attempt_def sample_attempt_def sample_run_def sample_worker_def make_worker_def)
  with exec show ?thesis by (simp add: sample_run_def)
qed

theorem recovery_scan_is_complete_witness:
  "\<exists>c rs'. recover_expired \<lparr>retry_delay_s = 5, retry_jitter_s = 1\<rparr> (\<lambda>_. 0) 60000000 100 claimed_store = (c, rs')
    \<and> (\<exists>b. dict_get (rs_attempts rs') ''a1'' = Some b \<and> att_status b = ATT_FAILED)"
proof -
  obtain c rs' where eq: "recover_expired \<lparr>retry_delay_s = 5, retry_jitter_s = 1\<rparr> (\<lambda>_. 0) 60000000 100
      claimed_store = (c, rs')" by fastforce
  have "list_recoverable claimed_store 60000000 100 = [claimed_attempt]"
    by (simp add: list_recoverable_def recoverable_def claimed_attempt_def sample_attempt_def
        sample_run_def page_limit_def)
  with recovery_scan_is_complete [OF claimed_store_reachable eq] eq show ?thesis
    by (simp add: claimed_attempt_def sample_attempt_def)
qed

theorem attempts_bounded_witness:
  "card {k. \<exists>a. dict_get (rs_attempts claimed_store) k = Some a \<and> att_run_id a = ''r1''} \<le> 3"
  using attempts_bounded [OF claimed_store_reachable, of "''r1''" sample_run]
  by (simp add: sample_run_def)

theorem heartbeat_keeps_lease_witness:
  "\<exists>rs'. heartbeat_turn sample_worker claimed_attempt 15000000 claimed_store = Inr rs'
    \<and> map_option att_lease_expires_at (dict_get (rs_attempts rs') ''a1'') = Some (Some 75000000)"
proof -
  have td: "timedelta_seconds 15 = 15000000"
  proof -
    have "timedelta_seconds 15 = round_half_even (of_int 15000000)" by (simp add: timedelta_seconds_def)
    then show ?thesis by (simp only: round_half_even_of_int)
  qed
  have "wc_heartbeat_s sample_worker = 15" by (simp add: sample_worker_def make_worker_def)
  with heartbeat_keeps_lease [OF sample_worker_def, of claimed_store claimed_attempt claimed_attempt 0 15000000]
  show ?thesis by (simp add: td) (simp add: claimed_attempt_def sample_attempt_def)
qed

text \<open>A run of one attempt fails for good in one round.\<close>

definition single_run :: run where
  "single_run = sample_run\<lparr>run_max_attempts := 1\<rparr>"

theorem failing_run_ends_witness:
  "\<exists>rs'. failing_turns ''r1'' (submit single_run sample_attempt empty_run_store) 1 rs'
    \<and> (\<exists>r'. dict_get (rs_items rs') ''r1'' = Some r' \<and> run_status r' = FAILED)"
proof -
  let ?rs = "submit single_run sample_attempt empty_run_store"
  let ?a = "sample_attempt\<lparr>att_status := ATT_RUNNING, att_worker_id := Some ''worker'',
      att_heartbeat_at := Some 100, att_lease_expires_at := Some (100 + timedelta_seconds 60),
      att_version := att_version sample_attempt + 1\<rparr>"
  let ?rs1 = "?rs\<lparr>rs_attempts := dict_set (rs_attempts ?rs) (att_id sample_attempt) ?a\<rparr>"
  have items: "rs_items ?rs = [(''r1'', single_run)]" "rs_attempts ?rs = [(''a1'', sample_attempt)]"
    by (simp_all add: submit_def add_outbox_def add_attempt_def empty_run_store_def dict_setdefault_def
        single_run_def sample_run_def sample_attempt_def)
  have "fresh_submission single_run sample_attempt empty_run_store"
    by (simp add: fresh_submission_def single_run_def sample_run_def sample_attempt_def empty_run_store_def
        str_startswith_def)
  then have reach: "runs_reachable ?rs"
    unfolding runs_reachable_def by (intro run_steps_one run_step.submit)
  have w: "wc_worker_id sample_worker = ''worker''" "wc_lease_s sample_worker = 60"
    by (simp_all add: sample_worker_def make_worker_def)
  have a: "dict_get (rs_attempts ?rs) (att_id sample_attempt) = Some sample_attempt"
    unfolding items by (simp add: sample_attempt_def)
  have "att_run_id sample_attempt = ''r1''" "claimable 100 sample_attempt"
    by (simp_all add: sample_attempt_def claimable_def)
  with claim_current [OF reachable_store_ok [OF reach] a]
  have c: "claim ''r1'' (wc_worker_id sample_worker) (wc_lease_s sample_worker) 100 ?rs = (Some ?a, ?rs1)"
    unfolding w by metis
  have held: "dict_get (rs_attempts ?rs1) (att_id ?a) = Some ?a" by simp
  obtain report rs' where e: "execute sample_worker failing_env single_run ?a ?rs1 = (Some report, rs')"
    by (simp add: execute_def failing_env_def split_beta)
  have "failing_turns ''r1'' ?rs (Suc 0) rs'"
    by (rule failing_turns.turn [OF failing_turns.none c _ run_steps.refl held _ e])
      (simp_all add: failing_env_def)
  with failing_run_ends [OF reach _ this, of single_run] show ?thesis
    by (intro exI [of _ rs']) (simp add: items, simp add: single_run_def sample_run_def)
qed

end
