(* ===== verification/Memory_Store.thy ===== *)
theory Memory_Store
  imports Repositories
begin

text \<open>
  \<^verbatim>\<open>InMemoryMemoryRepository\<close> and \<^verbatim>\<open>InMemoryThreadSummaryRepository\<close> of
  \<^verbatim>\<open>src/seleric_swarm/conversations/memory.py\<close>. The clock reading of an operation is its
  argument \<open>now\<close>.
\<close>

section \<open>State\<close>

record memory_store =
  ms_items :: "memory_item store"
  ms_usage :: "(string, string list) dict"
  ms_preferences :: "(string \<times> string, memory_preference) dict"

definition empty_memory_store :: memory_store where
  "empty_memory_store = \<lparr>ms_items = [], ms_usage = [], ms_preferences = []\<rparr>"

section \<open>Operations\<close>

definition memory_create :: "memory_item \<Rightarrow> memory_store \<Rightarrow> memory_item \<times> memory_store" where
  "memory_create m ms =
     (let items = dict_setdefault (ms_items ms) (mem_id m) m in
      (case dict_get items (mem_id m) of Some e \<Rightarrow> e | None \<Rightarrow> m, ms\<lparr>ms_items := items\<rparr>))"

definition memory_get :: "memory_store \<Rightarrow> string \<Rightarrow> string \<Rightarrow> string \<Rightarrow> memory_item option" where
  "memory_get ms mid ws owner =
     (case dict_get (ms_items ms) mid of
        None \<Rightarrow> None
      | Some item \<Rightarrow>
          if mem_workspace_id item \<noteq> ws \<or> mem_owner_user_id item \<noteq> owner
             \<or> mem_deleted_at item \<noteq> None \<or> mem_status item = MEM_DELETED
          then None else Some item)"

text \<open>The activity filter of \<^verbatim>\<open>list\<close>.\<close>

definition memory_current :: "moment \<Rightarrow> memory_item \<Rightarrow> bool" where
  "memory_current now item =
     (mem_status item = MEM_ACTIVE
      \<and> (case mem_valid_from item of None \<Rightarrow> True | Some t \<Rightarrow> t \<le> now)
      \<and> (case mem_valid_to item of None \<Rightarrow> True | Some t \<Rightarrow> now < t)
      \<and> (case mem_expires_at item of None \<Rightarrow> True | Some t \<Rightarrow> now < t))"

definition memory_listable ::
  "string \<Rightarrow> string \<Rightarrow> string option \<Rightarrow> string option \<Rightarrow> bool \<Rightarrow> moment \<Rightarrow> memory_item \<Rightarrow> bool" where
  "memory_listable ws owner project thread include_inactive now item =
     (mem_workspace_id item = ws \<and> mem_owner_user_id item = owner \<and> mem_deleted_at item = None
      \<and> (project = None \<or> mem_project_id item \<in> {None, project})
      \<and> (thread = None \<or> mem_thread_id item \<in> {None, thread})
      \<and> (include_inactive \<or> memory_current now item))"

definition memory_list ::
  "memory_store \<Rightarrow> string \<Rightarrow> string \<Rightarrow> string option \<Rightarrow> string option \<Rightarrow> bool \<Rightarrow> int \<Rightarrow> moment
     \<Rightarrow> memory_item list" where
  "memory_list ms ws owner project thread include_inactive limit now =
     take (page_limit limit) (sorted_desc (\<lambda>item. (mem_pinned item, mem_updated_at item))
       (filter (memory_listable ws owner project thread include_inactive now)
         (dict_values (ms_items ms))))"

definition memory_update :: "memory_item \<Rightarrow> memory_store \<Rightarrow> memory_store result" where
  "memory_update m ms =
     (case dict_get (ms_items ms) (mem_id m) of
        None \<Rightarrow> Inl (KeyError (mem_id m))
      | Some existing \<Rightarrow>
          if mem_workspace_id existing \<noteq> mem_workspace_id m
             \<or> mem_owner_user_id existing \<noteq> mem_owner_user_id m
          then Inl (KeyError (mem_id m))
          else Inr (ms\<lparr>ms_items := dict_set (ms_items ms) (mem_id m) m\<rparr>))"

definition memory_delete ::
  "string \<Rightarrow> string \<Rightarrow> string \<Rightarrow> moment \<Rightarrow> memory_store \<Rightarrow> (bool \<times> memory_store) result" where
  "memory_delete mid ws owner now ms =
     (case memory_get ms mid ws owner of
        None \<Rightarrow> Inr (False, ms)
      | Some item \<Rightarrow> result_bind
          (memory_update (item\<lparr>mem_status := MEM_DELETED, mem_deleted_at := Some now,
             mem_updated_at := now\<rparr>) ms) (\<lambda>ms'. Inr (True, ms')))"

definition use_memory :: "string \<Rightarrow> moment \<Rightarrow> memory_item \<Rightarrow> memory_store \<Rightarrow> memory_store" where
  "use_memory rid now m ms =
     (let ids = (case dict_get (ms_usage ms) rid of None \<Rightarrow> [] | Some ids \<Rightarrow> ids) in
      ms\<lparr>ms_usage := dict_set (ms_usage ms) rid
           (if mem_id m \<in> set ids then ids else ids @ [mem_id m]),
         ms_items := dict_set (ms_items ms) (mem_id m) (m\<lparr>mem_last_used_at := Some now\<rparr>)\<rparr>)"

definition record_usage :: "string \<Rightarrow> memory_item list \<Rightarrow> moment \<Rightarrow> memory_store \<Rightarrow> memory_store" where
  "record_usage rid memories now ms =
     fold (use_memory rid now) memories
       (ms\<lparr>ms_usage := dict_setdefault (ms_usage ms) rid []\<rparr>)"

definition list_used_by_run :: "memory_store \<Rightarrow> string \<Rightarrow> string \<Rightarrow> string \<Rightarrow> memory_item list" where
  "list_used_by_run ms rid ws owner =
     List.map_filter (\<lambda>mid. memory_get ms mid ws owner)
       (case dict_get (ms_usage ms) rid of None \<Rightarrow> [] | Some ids \<Rightarrow> ids)"

definition get_preference :: "memory_store \<Rightarrow> string \<Rightarrow> string \<Rightarrow> moment \<Rightarrow> memory_preference" where
  "get_preference ms ws owner clock =
     (case dict_get (ms_preferences ms) (ws, owner) of
        Some p \<Rightarrow> p
      | None \<Rightarrow> \<lparr>pref_workspace_id = ws, pref_owner_user_id = owner, pref_opted_out = False,
                 pref_updated_at = clock\<rparr>)"

definition set_preference :: "memory_preference \<Rightarrow> memory_store \<Rightarrow> memory_store" where
  "set_preference p ms = ms\<lparr>ms_preferences :=
     dict_set (ms_preferences ms) (pref_workspace_id p, pref_owner_user_id p) p\<rparr>"

section \<open>Thread summaries\<close>

definition summary_create ::
  "thread_summary \<Rightarrow> thread_summary store \<Rightarrow> thread_summary \<times> thread_summary store" where
  "summary_create s items =
     (let items' = dict_setdefault items (sum_id s) s in
      (case dict_get items' (sum_id s) of Some e \<Rightarrow> e | None \<Rightarrow> s, items'))"

text \<open>\<^verbatim>\<open>max(matches, key=...)\<close>: the first of the greatest.\<close>

fun first_max :: "('a \<Rightarrow> 'b::linorder) \<Rightarrow> 'a list \<Rightarrow> 'a option" where
  "first_max k [] = None"
| "first_max k (x # xs) =
     (case first_max k xs of None \<Rightarrow> Some x | Some y \<Rightarrow> if k y > k x then Some y else Some x)"

definition summary_latest ::
  "thread_summary store \<Rightarrow> string \<Rightarrow> string \<Rightarrow> string \<Rightarrow> thread_summary option" where
  "summary_latest items tid ws owner =
     first_max sum_created_at (filter (\<lambda>item. sum_thread_id item = tid
       \<and> sum_workspace_id item = ws \<and> sum_owner_user_id item = owner) (dict_values items))"

section \<open>Laws of the store\<close>

lemma memory_get_Some:
  "memory_get ms mid ws owner = Some m \<longleftrightarrow>
     dict_get (ms_items ms) mid = Some m \<and> mem_workspace_id m = ws \<and> mem_owner_user_id m = owner
     \<and> mem_deleted_at m = None \<and> mem_status m \<noteq> MEM_DELETED"
  by (auto simp: memory_get_def split: option.splits)

lemma memory_list_listable:
  "m \<in> set (memory_list ms ws owner project thread inactive limit now) \<Longrightarrow>
     m \<in> set (dict_values (ms_items ms)) \<and> memory_listable ws owner project thread inactive now m"
  unfolding memory_list_def using set_take_sorted_desc by fastforce

lemma memory_update_Inr:
  "memory_update m ms = Inr ms' \<longleftrightarrow>
     (\<exists>e. dict_get (ms_items ms) (mem_id m) = Some e \<and> mem_workspace_id e = mem_workspace_id m
        \<and> mem_owner_user_id e = mem_owner_user_id m)
     \<and> ms' = ms\<lparr>ms_items := dict_set (ms_items ms) (mem_id m) m\<rparr>"
  by (auto simp: memory_update_def split: option.splits)

lemma first_max_None [simp]: "first_max k xs = None \<longleftrightarrow> xs = []"
  by (cases xs) (auto split: option.splits)

lemma first_max_in: "first_max k xs = Some x \<Longrightarrow> x \<in> set xs \<and> (\<forall>y \<in> set xs. k y \<le> k x)"
proof (induction xs arbitrary: x)
  case (Cons a xs)
  show ?case
  proof (cases "first_max k xs")
    case None
    with Cons.prems show ?thesis by simp
  next
    case (Some z)
    from Cons.IH [OF Some] Cons.prems Some show ?thesis by (auto split: if_splits)
  qed
qed simp

abbreviation memories_keyed :: "memory_store \<Rightarrow> bool" where
  "memories_keyed ms \<equiv> keyed mem_id (ms_items ms)"

lemma memory_keyed_ops:
  "memories_keyed ms \<Longrightarrow> memories_keyed (snd (memory_create m ms))"
  "memories_keyed ms \<Longrightarrow> memory_update m ms = Inr ms' \<Longrightarrow> memories_keyed ms'"
  "memories_keyed ms \<Longrightarrow> memories_keyed (use_memory rid now m ms)"
  by (auto simp: memory_create_def memory_update_Inr use_memory_def Let_def)

section \<open>Deletion\<close>

text \<open>
  Deleting a memory hides it: once \<^verbatim>\<open>delete\<close> answered true, no lookup, no listing of any tenant
  (inactive memories included) and no run's usage list shows the memory, and every other memory
  is as it was.
\<close>

theorem deleted_memory_is_invisible:
  assumes "memories_keyed ms" and "memory_delete mid ws owner now ms = Inr (True, ms')"
  shows "memory_get ms' mid ws' owner' = None
    \<and> mid \<notin> mem_id ` set (memory_list ms' ws' owner' project thread inactive limit t)
    \<and> mid \<notin> mem_id ` set (list_used_by_run ms' rid ws' owner')
    \<and> (\<forall>k. k \<noteq> mid \<longrightarrow> memory_get ms' k ws' owner' = memory_get ms k ws' owner')"
proof -
  from assms(2) obtain m where m: "memory_get ms mid ws owner = Some m"
    and upd: "memory_update (m\<lparr>mem_status := MEM_DELETED, mem_deleted_at := Some now,
             mem_updated_at := now\<rparr>) ms = Inr ms'"
    by (auto simp: memory_delete_def result_bind_Inr split: option.splits)
  have id: "mem_id m = mid" using m keyed_get [OF assms(1)] by (simp add: memory_get_Some)
  let ?d = "m\<lparr>mem_status := MEM_DELETED, mem_deleted_at := Some now, mem_updated_at := now\<rparr>"
  have ms': "ms_items ms' = dict_set (ms_items ms) mid ?d"
    using upd by (simp add: memory_update_Inr id)
  have keyed: "memories_keyed ms'" using assms(1) id by (simp add: ms')
  have gone: "memory_get ms' mid ws' owner' = None" for ws' owner'
    by (simp add: memory_get_def ms')
  have "mem_id x \<noteq> mid" if "x \<in> set (memory_list ms' ws' owner' project thread inactive limit t)" for x
  proof
    assume "mem_id x = mid"
    from memory_list_listable [OF that] have x: "x \<in> set (dict_values (ms_items ms'))" "mem_deleted_at x = None"
      by (simp_all add: memory_listable_def)
    from keyed_value_get [OF keyed x(1)] \<open>mem_id x = mid\<close> have "x = ?d" by (simp add: ms')
    with x(2) show False by simp
  qed
  moreover have "mem_id x \<noteq> mid" if "x \<in> set (list_used_by_run ms' rid ws' owner')" for x
  proof -
    from that obtain k where k: "memory_get ms' k ws' owner' = Some x"
      by (auto simp: list_used_by_run_def List.map_filter_def)
    then have "mem_id x = k" using keyed_get [OF keyed] by (simp add: memory_get_Some)
    with k gone show ?thesis by auto
  qed
  ultimately show ?thesis using gone by (auto simp: memory_get_def ms')
qed

text \<open>
  Recording usage writes the caller's copy back: when the memories of a context bundle are
  recorded after one of them was deleted, the deleted memory is visible again exactly as it was
  before the deletion.
\<close>

theorem record_usage_restores_deleted:
  assumes "memories_keyed ms" and "memory_get ms mid ws owner = Some m"
    and "memory_delete mid ws owner now ms = Inr (True, ms')"
  shows "memory_get (record_usage rid [m] t ms') mid ws owner = Some (m\<lparr>mem_last_used_at := Some t\<rparr>)"
proof -
  have "mem_id m = mid" using assms(2) keyed_get [OF assms(1)] by (simp add: memory_get_Some)
  with assms(2) show ?thesis
    by (simp add: record_usage_def use_memory_def memory_get_def Let_def split: option.splits if_splits)
qed

section \<open>Concrete memories\<close>

definition sample_memory :: memory_item where
  "sample_memory = \<lparr>mem_id = ''m1'', mem_workspace_id = ''w'', mem_owner_user_id = ''u'',
     mem_project_id = None, mem_scope = SCOPE_USER, mem_type = PREFERENCE, mem_status = MEM_ACTIVE,
     mem_content = MText ''I prefer rupees'', mem_normalized_content = ''i prefer rupees'',
     mem_structured_data = [(''subject_key'', JStr ''rupees'')], mem_provenance = [],
     mem_confidence = 9 / 10, mem_salience = 1 / 2, mem_thread_id = None, mem_source_message_id = None,
     mem_source_message_ids = [], mem_source_run_id = None, mem_source_evidence_ids = [],
     mem_supersedes_id = None, mem_superseded_by_id = None, mem_pinned = False,
     mem_requires_confirmation = False, mem_consented_at = Some 1, mem_valid_from = None,
     mem_valid_to = None, mem_created_at = 0, mem_updated_at = 1, mem_last_used_at = None,
     mem_expires_at = None, mem_archived_at = None, mem_deleted_at = None\<rparr>"

definition sample_memories :: memory_store where
  "sample_memories = snd (memory_create sample_memory empty_memory_store)"

lemma sample_memories_items: "ms_items sample_memories = [(''m1'', sample_memory)]"
  by (simp add: sample_memories_def memory_create_def empty_memory_store_def dict_setdefault_def
      sample_memory_def)

lemma sample_memories_keyed: "memories_keyed sample_memories"
  by (simp add: sample_memories_items keyed_def dict_wf_def) (simp add: sample_memory_def)

lemma sample_memory_get: "memory_get sample_memories ''m1'' ''w'' ''u'' = Some sample_memory"
  by (simp add: memory_get_def sample_memories_items) (simp add: sample_memory_def)

lemma sample_memory_deletable: "\<exists>ms'. memory_delete ''m1'' ''w'' ''u'' 5 sample_memories = Inr (True, ms')"
  unfolding memory_delete_def sample_memory_get
  by (simp add: memory_update_def sample_memories_items) (simp add: sample_memory_def)

theorem deleted_memory_is_invisible_witness:
  "\<exists>ms'. memory_delete ''m1'' ''w'' ''u'' 5 sample_memories = Inr (True, ms')
     \<and> memory_get ms' ''m1'' ''w'' ''u'' = None"
  using sample_memory_deletable deleted_memory_is_invisible [OF sample_memories_keyed] by blast

theorem record_usage_restores_deleted_witness:
  "\<exists>ms'. memory_delete ''m1'' ''w'' ''u'' 5 sample_memories = Inr (True, ms')
     \<and> memory_get (record_usage ''r1'' [sample_memory] 9 ms') ''m1'' ''w'' ''u'' =
         Some (sample_memory\<lparr>mem_last_used_at := Some 9\<rparr>)"
  using sample_memory_deletable record_usage_restores_deleted [OF sample_memories_keyed sample_memory_get]
  by blast

end
