(* ===== verification/Memory_Service.thy ===== *)
theory Memory_Service
  imports Memory_Store
begin

text \<open>
  The text functions and \<^verbatim>\<open>MemoryService\<close> of \<^verbatim>\<open>src/seleric_swarm/conversations/context.py\<close>:
  normalisation, token estimate, contradiction test, and the life of a memory from candidate
  through consent to supersession, expiry and revocation. How Python prints values that are not
  strings is the argument \<open>py :: json \<Rightarrow> string\<close>; the callbacks that \<^verbatim>\<open>expire\<close> and \<^verbatim>\<open>revoke\<close>
  notify do not touch the store and are left out.
\<close>

section \<open>Text\<close>

text \<open>\<^verbatim>\<open>_SPACE.sub(" ", text)\<close>\<close>

fun collapse_space :: "string \<Rightarrow> string" where
  "collapse_space [] = []"
| "collapse_space (c # s) =
     (if is_space c
      then (case s of d # _ \<Rightarrow> if is_space d then collapse_space s else CHR '' '' # collapse_space s
                    | [] \<Rightarrow> '' '')
      else c # collapse_space s)"

definition lower_or_digit :: "char \<Rightarrow> bool" where
  "lower_or_digit c = (let n = (of_char c :: nat) in (97 \<le> n \<and> n \<le> 122) \<or> (48 \<le> n \<and> n \<le> 57))"

definition normalize_memory_content :: "(json \<Rightarrow> string) \<Rightarrow> memory_content \<Rightarrow> string" where
  "normalize_memory_content py content =
     (let text = (case content of
          MText s \<Rightarrow> s
        | MObj kvs \<Rightarrow> join '' '' (map (\<lambda>kv. fst kv @ '':'' @ py_str py (snd kv)) (sort_key fst kvs)))
      in join '' '' (runs_of lower_or_digit (str_lower (collapse_space text))))"

definition is_alnum :: "char \<Rightarrow> bool" where
  "is_alnum c = (let n = (of_char c :: nat) in
     (97 \<le> n \<and> n \<le> 122) \<or> (65 \<le> n \<and> n \<le> 90) \<or> (48 \<le> n \<and> n \<le> 57))"

definition is_word_char :: "char \<Rightarrow> bool" where
  "is_word_char c = (is_alnum c \<or> c = CHR ''_'')"

definition is_digit :: "char \<Rightarrow> bool" where
  "is_digit c = (let n = (of_char c :: nat) in 48 \<le> n \<and> n \<le> 57)"

text \<open>\<^verbatim>\<open>re.findall(r"\w+|[^\w\s]", s)\<close>\<close>

function tokens :: "string \<Rightarrow> string list" where
  "tokens [] = []"
| "tokens (c # s) =
     (if is_space c then tokens s
      else if is_word_char c then (c # takeWhile is_word_char s) # tokens (dropWhile is_word_char s)
      else [c] # tokens s)"
  by pat_completeness auto
termination
  by (relation "measure length") (simp_all add: le_imp_less_Suc length_dropWhile_le)

definition token_cost :: "string \<Rightarrow> nat" where
  "token_cost t =
     (if t \<noteq> [] \<and> (list_all is_alnum t \<or> (list_all is_word_char t \<and> \<not> is_digit (hd t)))
      then max 1 ((length t + 3) div 4) else 1)"

definition approximate_token_count :: "string \<Rightarrow> nat" where
  "approximate_token_count s = sum_list (map token_cost (tokens s))"

section \<open>Contradiction\<close>

definition subject_key :: "(json \<Rightarrow> string) \<Rightarrow> memory_item \<Rightarrow> string" where
  "subject_key py m = (case dict_get (mem_structured_data m) ''subject_key'' of
      None \<Rightarrow> [] | Some v \<Rightarrow> if truthy v then py_str py v else [])"

definition negated :: "memory_item \<Rightarrow> bool" where
  "negated m = ({''not'', ''never'', ''cannot''} \<inter> set (split_words (mem_normalized_content m)) \<noteq> {})"

definition memories_contradict :: "(json \<Rightarrow> string) \<Rightarrow> memory_item \<Rightarrow> memory_item \<Rightarrow> bool" where
  "memories_contradict py l r =
     (let left_key = subject_key py l; right_key = subject_key py r in
      if left_key = [] \<or> right_key = [] then False
      else let left_words = set (split_words left_key); right_words = set (split_words right_key);
               overlap = (of_nat (card (left_words \<inter> right_words)) :: rat) /
                 of_nat (max 1 (min (card left_words) (card right_words)))
           in overlap \<ge> 6 / 10 \<and> negated l \<noteq> negated r)"

section \<open>MemoryService\<close>

text \<open>\<^verbatim>\<open>int(value)\<close>; of the texts only plain digits are read.\<close>

definition digit_val :: "char \<Rightarrow> int" where
  "digit_val c = of_char c - 48"

definition py_int :: "json \<Rightarrow> int result" where
  "py_int v = (case v of
      JInt i \<Rightarrow> Inr i
    | JBool b \<Rightarrow> Inr (if b then 1 else 0)
    | JNum r \<Rightarrow> Inr (if r < 0 then - \<lfloor>- r\<rfloor> else \<lfloor>r\<rfloor>)
    | JStr s \<Rightarrow> if s \<noteq> [] \<and> list_all is_digit s then Inr (foldl (\<lambda>n c. 10 * n + digit_val c) 0 s)
                else Inl (ValueError ''int'')
    | _ \<Rightarrow> Inl (ValueError ''int''))"

definition tombstone :: "memory_status \<Rightarrow> bool" where
  "tombstone s = (s \<in> {MEM_SUPERSEDED, MEM_ARCHIVED, MEM_DELETED})"

definition merge_duplicate :: "moment \<Rightarrow> memory_item \<Rightarrow> memory_item \<Rightarrow> int \<Rightarrow> memory_item" where
  "merge_duplicate now duplicate candidate observations =
     duplicate\<lparr>
       mem_source_message_ids := dedupe (mem_source_message_ids duplicate
         @ mem_source_message_ids candidate
         @ (case mem_source_message_id candidate of Some s \<Rightarrow> if s = [] then [] else [s] | None \<Rightarrow> [])),
       mem_source_evidence_ids := dedupe (mem_source_evidence_ids duplicate
         @ mem_source_evidence_ids candidate),
       mem_provenance := dict_set (dict_set (mem_provenance duplicate)
           ''duplicate_observations'' (JInt (observations + 1)))
         ''latest_duplicate_provenance'' (JObj (mem_provenance candidate)),
       mem_updated_at := now\<rparr>"

definition ingest_one ::
  "(json \<Rightarrow> string) \<Rightarrow> moment \<Rightarrow> memory_item \<Rightarrow> memory_store
     \<Rightarrow> (memory_item list \<times> memory_store) result" where
  "ingest_one py now candidate ms =
     (if pref_opted_out (get_preference ms (mem_workspace_id candidate) (mem_owner_user_id candidate) now)
      then Inr ([], ms)
      else let
        normalized = (if mem_normalized_content candidate \<noteq> [] then mem_normalized_content candidate
          else normalize_memory_content py (mem_content candidate));
        candidate = candidate\<lparr>mem_normalized_content := normalized\<rparr>;
        existing = memory_list ms (mem_workspace_id candidate) (mem_owner_user_id candidate)
          (mem_project_id candidate) (mem_thread_id candidate) True 500 now
      in (case find (\<lambda>item. mem_normalized_content item = normalized \<and> mem_type item = mem_type candidate
              \<and> \<not> tombstone (mem_status item)) existing of
          Some duplicate \<Rightarrow>
            result_bind (case dict_get (mem_provenance duplicate) ''duplicate_observations'' of
                None \<Rightarrow> Inr 0 | Some v \<Rightarrow> py_int v) (\<lambda>observations.
            result_bind (memory_update (merge_duplicate now duplicate candidate observations) ms)
              (\<lambda>ms'. Inr ([], ms')))
        | None \<Rightarrow>
            let candidate = (case find (\<lambda>item. memories_contradict py item candidate) existing of
                None \<Rightarrow> candidate
              | Some conflict \<Rightarrow> candidate\<lparr>mem_status := MEM_PENDING_CONSENT,
                  mem_supersedes_id := Some (mem_id conflict),
                  mem_provenance := dict_set (mem_provenance candidate) ''contradicts_id''
                    (JStr (mem_id conflict))\<rparr>);
              (stored, ms') = memory_create candidate ms
            in Inr ([stored], ms')))"

fun ingest_candidates ::
  "(json \<Rightarrow> string) \<Rightarrow> moment \<Rightarrow> memory_item list \<Rightarrow> memory_store
     \<Rightarrow> (memory_item list \<times> memory_store) result" where
  "ingest_candidates py now [] ms = Inr ([], ms)"
| "ingest_candidates py now (c # cs) ms =
     result_bind (ingest_one py now c ms) (\<lambda>(created, ms').
     result_bind (ingest_candidates py now cs ms') (\<lambda>(rest, ms''). Inr (created @ rest, ms'')))"

definition superseded :: "moment \<Rightarrow> string \<Rightarrow> memory_item \<Rightarrow> memory_item" where
  "superseded now by_id prior = prior\<lparr>mem_status := MEM_SUPERSEDED,
     mem_superseded_by_id := Some by_id, mem_valid_to := Some now, mem_updated_at := now\<rparr>"

definition confirm :: "moment \<Rightarrow> memory_item \<Rightarrow> memory_store \<Rightarrow> (memory_item \<times> memory_store) result" where
  "confirm now m ms =
     (let confirmed = m\<lparr>mem_status := MEM_ACTIVE, mem_consented_at := Some now,
            mem_requires_confirmation := False, mem_updated_at := now\<rparr> in
      result_bind (memory_update confirmed ms) (\<lambda>ms'.
        if str_truthy (mem_supersedes_id confirmed)
        then (case memory_get ms' (case mem_supersedes_id confirmed of Some k \<Rightarrow> k | None \<Rightarrow> [])
                (mem_workspace_id confirmed) (mem_owner_user_id confirmed) of
            None \<Rightarrow> Inr (confirmed, ms')
          | Some prior \<Rightarrow> result_bind (memory_update (superseded now (mem_id confirmed) prior) ms')
              (\<lambda>ms''. Inr (confirmed, ms'')))
        else Inr (confirmed, ms')))"

definition expirable :: "moment \<Rightarrow> memory_item \<Rightarrow> bool" where
  "expirable now item = (mem_status item = MEM_ACTIVE
     \<and> (case mem_expires_at item of None \<Rightarrow> False | Some t \<Rightarrow> t \<le> now))"

definition archived :: "moment \<Rightarrow> memory_item \<Rightarrow> memory_item" where
  "archived now item = item\<lparr>mem_status := MEM_ARCHIVED, mem_archived_at := Some now,
     mem_updated_at := now\<rparr>"

fun expire_items :: "moment \<Rightarrow> memory_item list \<Rightarrow> memory_store \<Rightarrow> (nat \<times> memory_store) result" where
  "expire_items now [] ms = Inr (0, ms)"
| "expire_items now (item # rest) ms =
     (if expirable now item
      then result_bind (memory_update (archived now item) ms) (\<lambda>ms'.
           result_bind (expire_items now rest ms') (\<lambda>(n, ms''). Inr (n + 1, ms'')))
      else expire_items now rest ms)"

definition expire ::
  "string \<Rightarrow> string \<Rightarrow> moment \<Rightarrow> moment \<Rightarrow> memory_store \<Rightarrow> (nat \<times> memory_store) result" where
  "expire ws owner now clock ms =
     expire_items now (memory_list ms ws owner None None True 1000 clock) ms"

definition revoke ::
  "(moment \<Rightarrow> string) \<Rightarrow> string \<Rightarrow> string \<Rightarrow> string \<Rightarrow> string option \<Rightarrow> moment \<Rightarrow> memory_store
     \<Rightarrow> (memory_item option \<times> memory_store) result" where
  "revoke isoformat mid ws owner reason now ms =
     (case memory_get ms mid ws owner of
        None \<Rightarrow> Inr (None, ms)
      | Some item \<Rightarrow>
          let revoked = item\<lparr>mem_status := MEM_ARCHIVED, mem_valid_to := Some now,
                mem_archived_at := Some now, mem_updated_at := now,
                mem_provenance := dict_set (mem_provenance item) ''revocation''
                  (JObj [(''reason'', case reason of None \<Rightarrow> JNull | Some s \<Rightarrow> JStr s),
                         (''revoked_at'', JStr (isoformat now))])\<rparr>
          in result_bind (memory_update revoked ms) (\<lambda>ms'. Inr (Some revoked, ms')))"

section \<open>Consent\<close>

text \<open>
  The requests the API makes of the memories. Candidates and copies handed to the store have
  passed the validator of \<^verbatim>\<open>MemoryItem\<close>.
\<close>

inductive memory_step :: "(json \<Rightarrow> string) \<Rightarrow> (moment \<Rightarrow> string) \<Rightarrow> memory_store \<Rightarrow> memory_store \<Rightarrow> bool"
  for py isofmt where
  ingest: "\<forall>c \<in> set cs. validate_scope_and_consent c = Inr c \<Longrightarrow>
    ingest_candidates py now cs ms = Inr (created, ms') \<Longrightarrow> memory_step py isofmt ms ms'"
| confirm: "memory_get ms mid ws owner = Some m \<Longrightarrow> confirm now m ms = Inr (c, ms') \<Longrightarrow>
    memory_step py isofmt ms ms'"
| expire: "expire ws owner now clock ms = Inr (n, ms') \<Longrightarrow> memory_step py isofmt ms ms'"
| revoke: "revoke isofmt mid ws owner reason now ms = Inr (x, ms') \<Longrightarrow> memory_step py isofmt ms ms'"
| delete: "memory_delete mid ws owner now ms = Inr (b, ms') \<Longrightarrow> memory_step py isofmt ms ms'"
| usage: "\<forall>m \<in> set mems. validate_scope_and_consent m = Inr m \<Longrightarrow>
    memory_step py isofmt ms (record_usage rid mems now ms)"
| preference: "memory_step py isofmt ms (set_preference p ms)"

inductive memory_reachable :: "(json \<Rightarrow> string) \<Rightarrow> (moment \<Rightarrow> string) \<Rightarrow> memory_store \<Rightarrow> bool"
  for py isofmt where
  init: "memory_reachable py isofmt empty_memory_store"
| step: "memory_reachable py isofmt ms \<Longrightarrow> memory_step py isofmt ms ms' \<Longrightarrow> memory_reachable py isofmt ms'"

definition has_consent :: "memory_item \<Rightarrow> bool" where
  "has_consent m = (mem_status m = MEM_ACTIVE \<longrightarrow> mem_consented_at m \<noteq> None)"

definition consented :: "memory_store \<Rightarrow> bool" where
  "consented ms = (keyed mem_id (ms_items ms) \<and> list_all has_consent (dict_values (ms_items ms)))"

lemma validated_has_consent: "validate_scope_and_consent m = Inr m \<Longrightarrow> has_consent m"
  by (auto simp: validate_scope_and_consent_def has_consent_def split: if_splits)

lemma consented_get: "consented ms \<Longrightarrow> dict_get (ms_items ms) k = Some m \<Longrightarrow> has_consent m \<and> mem_id m = k"
  using keyed_get [of mem_id "ms_items ms" k m] dict_get_SomeD [of "ms_items ms" k m]
  by (force simp: consented_def list_all_iff)

lemma consented_member: "consented ms \<Longrightarrow> m \<in> set (dict_values (ms_items ms)) \<Longrightarrow> has_consent m"
  by (auto simp: consented_def list_all_iff)

lemma consented_set:
  assumes "consented ms" "has_consent m" "ms_items ms' = dict_set (ms_items ms) (mem_id m) m"
  shows "consented ms'"
proof -
  have "list_all has_consent (dict_values (ms_items ms'))"
    using assms(1,2) set_dict_set [of "ms_items ms" "mem_id m" m]
    by (auto simp: consented_def list_all_iff assms(3))
  with assms(1) show ?thesis by (simp add: consented_def assms(3))
qed

lemma consented_setdefault:
  assumes "consented ms" "has_consent m" "ms_items ms' = dict_setdefault (ms_items ms) (mem_id m) m"
  shows "consented ms'"
proof -
  have "list_all has_consent (dict_values (ms_items ms'))"
    using assms(1,2) set_dict_setdefault [of "ms_items ms" "mem_id m" m]
    by (auto simp: consented_def list_all_iff assms(3))
  with assms(1) show ?thesis by (simp add: consented_def assms(3))
qed

lemma consented_update:
  "consented ms \<Longrightarrow> has_consent m \<Longrightarrow> memory_update m ms = Inr ms' \<Longrightarrow> consented ms'"
  by (auto simp: memory_update_Inr intro: consented_set)

lemma consented_update_inactive:
  "memory_update m ms = Inr ms' \<Longrightarrow> consented ms \<Longrightarrow> mem_status m \<noteq> MEM_ACTIVE \<Longrightarrow> consented ms'"
  by (rule consented_update) (simp_all add: has_consent_def)

lemma ingest_one_consented:
  assumes "consented ms" "has_consent c" "ingest_one py now c ms = Inr (created, ms')"
  shows "consented ms'"
proof (cases "pref_opted_out (get_preference ms (mem_workspace_id c) (mem_owner_user_id c) now)")
  case True
  with assms show ?thesis by (simp add: ingest_one_def)
next
  case False
  define n where "n = (if mem_normalized_content c \<noteq> [] then mem_normalized_content c
      else normalize_memory_content py (mem_content c))"
  define ex where "ex = memory_list ms (mem_workspace_id c) (mem_owner_user_id c) (mem_project_id c)
      (mem_thread_id c) True 500 now"
  show ?thesis
  proof (cases "find (\<lambda>item. mem_normalized_content item = n \<and> mem_type item = mem_type c
      \<and> \<not> tombstone (mem_status item)) ex")
    case (Some d)
    with False assms(3) obtain obs where
      upd: "memory_update (merge_duplicate now d (c\<lparr>mem_normalized_content := n\<rparr>) obs) ms = Inr ms'"
      by (auto simp: ingest_one_def n_def ex_def result_bind_Inr)
    have "d \<in> set ex" using find_SomeD [OF Some] by simp
    then have "d \<in> set (dict_values (ms_items ms))" unfolding ex_def using memory_list_listable by blast
    with assms(1) have "has_consent d" by (rule consented_member)
    then have "has_consent (merge_duplicate now d (c\<lparr>mem_normalized_content := n\<rparr>) obs)"
      by (simp add: has_consent_def merge_duplicate_def)
    from consented_update [OF assms(1) this upd] show ?thesis .
  next
    case None
    let ?c = "c\<lparr>mem_normalized_content := n\<rparr>"
    define c' where "c' = (case find (\<lambda>item. memories_contradict py item ?c) ex of
        None \<Rightarrow> ?c | Some conflict \<Rightarrow> ?c\<lparr>mem_status := MEM_PENDING_CONSENT,
          mem_supersedes_id := Some (mem_id conflict),
          mem_provenance := dict_set (mem_provenance ?c) ''contradicts_id'' (JStr (mem_id conflict))\<rparr>)"
    from None False assms(3) have "ms' = snd (memory_create c' ms)"
      by (auto simp: ingest_one_def n_def [symmetric] ex_def [symmetric] c'_def split_beta Let_def)
    moreover have "has_consent c'" using assms(2) by (simp add: c'_def has_consent_def split: option.splits)
    ultimately show ?thesis
      by (intro consented_setdefault [OF assms(1)]) (simp_all add: memory_create_def Let_def)
  qed
qed

lemma ingest_consented:
  "ingest_candidates py now cs ms = Inr (created, ms') \<Longrightarrow> consented ms \<Longrightarrow> \<forall>c \<in> set cs. has_consent c \<Longrightarrow>
     consented ms'"
proof (induction cs arbitrary: ms created)
  case (Cons c cs)
  then obtain a ms1 b where "ingest_one py now c ms = Inr (a, ms1)"
    "ingest_candidates py now cs ms1 = Inr (b, ms')"
    by (auto simp: result_bind_Inr)
  with Cons ingest_one_consented show ?case by (metis list.set_intros)
qed simp

lemma expire_items_consented:
  "expire_items now xs ms = Inr (n, ms') \<Longrightarrow> consented ms \<Longrightarrow> consented ms'"
proof (induction xs arbitrary: ms n)
  case (Cons x xs)
  show ?case
  proof (cases "expirable now x")
    case True
    with Cons.prems(1) obtain ms1 m where
      "memory_update (archived now x) ms = Inr ms1" "expire_items now xs ms1 = Inr (m, ms')"
      by (auto simp: result_bind_Inr)
    with Cons consented_update [of ms "archived now x" ms1] show ?thesis
      by (simp add: has_consent_def archived_def)
  qed (use Cons in simp)
qed simp

lemma use_memory_consented:
  "consented ms \<Longrightarrow> has_consent m \<Longrightarrow> consented (use_memory rid now m ms)"
  using consented_set [of ms "m\<lparr>mem_last_used_at := Some now\<rparr>" "use_memory rid now m ms"]
  by (simp add: use_memory_def has_consent_def Let_def)

lemma record_usage_consented:
  assumes "consented ms" "\<forall>m \<in> set mems. has_consent m"
  shows "consented (record_usage rid mems now ms)"
proof -
  have "consented (fold (use_memory rid now) mems ms0)" if "consented ms0" for ms0
    using that assms(2) by (induction mems arbitrary: ms0) (simp_all add: use_memory_consented)
  then show ?thesis using assms(1) by (simp add: record_usage_def consented_def)
qed

lemma confirm_consented:
  assumes "consented ms" "confirm now m ms = Inr (c, ms')"
  shows "consented ms'"
proof -
  let ?c = "m\<lparr>mem_status := MEM_ACTIVE, mem_consented_at := Some now,
      mem_requires_confirmation := False, mem_updated_at := now\<rparr>"
  from assms(2) obtain ms1 where ms1: "memory_update ?c ms = Inr ms1"
    and rest: "ms' = ms1 \<or> (\<exists>p. memory_update (superseded now (mem_id m) p) ms1 = Inr ms')"
    by (auto simp: confirm_def Let_def result_bind_Inr split: if_splits option.splits)
  have one: "consented ms1" using consented_update [OF assms(1) _ ms1] by (simp add: has_consent_def)
  from rest show ?thesis
  proof
    assume "\<exists>p. memory_update (superseded now (mem_id m) p) ms1 = Inr ms'"
    then obtain p where "memory_update (superseded now (mem_id m) p) ms1 = Inr ms'" ..
    from consented_update [OF one _ this] show ?thesis by (simp add: has_consent_def superseded_def)
  qed (use one in simp)
qed

lemma memory_step_consented: "memory_step py isofmt ms ms' \<Longrightarrow> consented ms \<Longrightarrow> consented ms'"
proof (induction rule: memory_step.induct)
  case (ingest cs now ms created ms')
  then show ?case using ingest_consented validated_has_consent by blast
next
  case (confirm ms mid ws owner m now c ms')
  then show ?case using confirm_consented by blast
next
  case (expire ws owner now clock ms n ms')
  then show ?case using expire_items_consented by (simp add: expire_def)
next
  case (revoke mid ws owner reason now ms x ms')
  then show ?case
    by (auto simp: revoke_def Let_def result_bind_Inr
        elim!: consented_update_inactive split: option.splits)
next
  case (delete mid ws owner now ms b ms')
  then show ?case
    by (auto simp: memory_delete_def result_bind_Inr
        elim!: consented_update_inactive split: option.splits)
next
  case (usage mems ms rid now)
  then show ?case using record_usage_consented validated_has_consent by blast
next
  case (preference ms p)
  then show ?case by (simp add: consented_def set_preference_def)
qed

lemma memory_reachable_consented: "memory_reachable py isofmt ms \<Longrightarrow> consented ms"
  by (induction rule: memory_reachable.induct)
    (simp_all add: memory_step_consented, simp add: consented_def empty_memory_store_def)

text \<open>
  No memory is used without consent: in every state the service reaches, whatever is ingested,
  confirmed, expired, revoked, deleted or recorded as used, each memory an ordinary listing
  offers to a context carries the moment its owner consented, and belongs to the tenant that
  asked.
\<close>

theorem listed_memories_have_consent:
  assumes "memory_reachable py isofmt ms"
    and "m \<in> set (memory_list ms ws owner project thread False limit now)"
  shows "mem_consented_at m \<noteq> None \<and> mem_status m = MEM_ACTIVE \<and> mem_workspace_id m = ws
    \<and> mem_owner_user_id m = owner \<and> mem_deleted_at m = None"
  using consented_member [OF memory_reachable_consented [OF assms(1)]] memory_list_listable [OF assms(2)]
  by (auto simp: has_consent_def memory_listable_def memory_current_def)

text \<open>
  Opting out is respected: when every candidate belongs to a user who opted out, ingestion
  stores nothing and reports nothing.
\<close>

theorem opted_out_users_are_not_remembered:
  assumes "\<forall>c \<in> set cs. pref_opted_out (get_preference ms (mem_workspace_id c) (mem_owner_user_id c) now)"
  shows "ingest_candidates py now cs ms = Inr ([], ms)"
  using assms by (induction cs) (simp_all add: ingest_one_def)

section \<open>Confirmation\<close>

text \<open>
  Confirming a memory activates it and retires what it supersedes: afterwards the memory is
  active with the owner's consent, and the distinct visible memory it supersedes is marked
  \<^verbatim>\<open>SUPERSEDED\<close> by it and no listing from that moment on offers it. Only these two records change.
\<close>

theorem confirm_activates_and_supersedes:
  assumes "memories_keyed ms" and "memory_get ms (mem_id m) ws owner = Some m"
    and "mem_supersedes_id m = Some k" "k \<noteq> []" "k \<noteq> mem_id m" "memory_get ms k ws owner = Some prior"
  shows "\<exists>c ms'. confirm now m ms = Inr (c, ms')
    \<and> memory_get ms' (mem_id m) ws owner = Some c \<and> mem_status c = MEM_ACTIVE \<and> mem_consented_at c = Some now
    \<and> (\<exists>p. memory_get ms' k ws owner = Some p \<and> mem_status p = MEM_SUPERSEDED
          \<and> mem_superseded_by_id p = Some (mem_id m) \<and> (\<forall>t. \<not> memory_current t p))
    \<and> (\<forall>j. j \<noteq> k \<longrightarrow> j \<noteq> mem_id m \<longrightarrow> dict_get (ms_items ms') j = dict_get (ms_items ms) j)"
proof -
  let ?c = "m\<lparr>mem_status := MEM_ACTIVE, mem_consented_at := Some now,
      mem_requires_confirmation := False, mem_updated_at := now\<rparr>"
  let ?ms1 = "ms\<lparr>ms_items := dict_set (ms_items ms) (mem_id m) ?c\<rparr>"
  let ?p = "superseded now (mem_id m) prior"
  let ?ms2 = "?ms1\<lparr>ms_items := dict_set (ms_items ?ms1) k ?p\<rparr>"
  have m: "dict_get (ms_items ms) (mem_id m) = Some m" "mem_workspace_id m = ws" "mem_owner_user_id m = owner"
    "mem_deleted_at m = None"
    and prior: "dict_get (ms_items ms) k = Some prior" "mem_workspace_id prior = ws"
      "mem_owner_user_id prior = owner" "mem_deleted_at prior = None"
    using assms(2,6) by (simp_all add: memory_get_Some)
  have k: "mem_id prior = k" using keyed_get [OF assms(1) prior(1)] .
  have "memory_update ?c ms = Inr ?ms1" using m by (simp add: memory_update_Inr)
  moreover have "memory_get ?ms1 k ws owner = Some prior"
    using assms(5,6) by (simp add: memory_get_def)
  moreover have "memory_update ?p ?ms1 = Inr ?ms2"
    using prior k assms(5) by (simp add: memory_update_Inr superseded_def)
  ultimately have conf: "confirm now m ms = Inr (?c, ?ms2)"
    using assms(3,4) m by (simp add: confirm_def Let_def)
  have "memory_get ?ms2 (mem_id m) ws owner = Some ?c" using m assms(5) by (simp add: memory_get_def)
  moreover have "memory_get ?ms2 k ws owner = Some ?p"
    using prior assms(5) by (simp add: memory_get_def superseded_def)
  moreover have "\<forall>t. \<not> memory_current t ?p" "mem_superseded_by_id ?p = Some (mem_id m)"
    "mem_status ?p = MEM_SUPERSEDED" by (simp_all add: memory_current_def superseded_def)
  ultimately have prior_retired: "\<exists>p. memory_get ?ms2 k ws owner = Some p \<and> mem_status p = MEM_SUPERSEDED
      \<and> mem_superseded_by_id p = Some (mem_id m) \<and> (\<forall>t. \<not> memory_current t p)" by blast
  show ?thesis
    by (rule exI [of _ ?c], rule exI [of _ ?ms2])
      (use conf prior_retired \<open>memory_get ?ms2 (mem_id m) ws owner = Some ?c\<close> in simp)
qed

section \<open>Expiry\<close>

lemma expire_items_effect:
  assumes "distinct (map mem_id xs)" "\<forall>x \<in> set xs. dict_get (ms_items ms) (mem_id x) = Some x"
  shows "\<exists>ms'. expire_items now xs ms = Inr (length (filter (expirable now) xs), ms')
    \<and> (\<forall>k. dict_get (ms_items ms') k =
        (case find (\<lambda>x. mem_id x = k \<and> expirable now x) xs of
           None \<Rightarrow> dict_get (ms_items ms) k | Some x \<Rightarrow> Some (archived now x)))"
  using assms
proof (induction xs arbitrary: ms)
  case (Cons x xs)
  have later: "find (\<lambda>y. mem_id y = mem_id x \<and> expirable now y) xs = None"
    using Cons.prems(1) by (auto simp: find_None_iff image_iff)
  show ?case
  proof (cases "expirable now x")
    case True
    let ?ms = "ms\<lparr>ms_items := dict_set (ms_items ms) (mem_id x) (archived now x)\<rparr>"
    have "memory_update (archived now x) ms = Inr ?ms"
      using Cons.prems(2) by (simp add: memory_update_Inr archived_def)
    moreover have "\<forall>y \<in> set xs. dict_get (ms_items ?ms) (mem_id y) = Some y"
      using Cons.prems by (auto simp: image_iff)
    moreover have "distinct (map mem_id xs)" using Cons.prems(1) by simp
    ultimately show ?thesis
      using Cons.IH [of ?ms] True later by (fastforce split: option.splits)
  next
    case False
    then show ?thesis using Cons by (auto split: option.splits)
  qed
qed simp

lemma memory_list_get:
  assumes "memories_keyed ms" "x \<in> set (memory_list ms ws owner p t inactive limit now)"
  shows "dict_get (ms_items ms) (mem_id x) = Some x"
  using keyed_value_get [OF assms(1)] memory_list_listable [OF assms(2)] by blast

lemma memory_list_distinct:
  assumes "memories_keyed ms"
  shows "distinct (map mem_id (memory_list ms ws owner p t inactive limit now))"
proof -
  let ?xs = "filter (memory_listable ws owner p t inactive now) (dict_values (ms_items ms))"
  have "distinct (map mem_id ?xs)"
    using keyed_distinct_values [OF assms] by (simp add: distinct_map_filter)
  moreover have "mset (map mem_id (sorted_desc (\<lambda>i. (mem_pinned i, mem_updated_at i)) ?xs)) = mset (map mem_id ?xs)"
    unfolding mset_map by simp
  ultimately have "distinct (map mem_id (sorted_desc (\<lambda>i. (mem_pinned i, mem_updated_at i)) ?xs))"
    using mset_eq_imp_distinct_iff by blast
  then show ?thesis unfolding memory_list_def take_map [symmetric] by (rule distinct_take)
qed

text \<open>
  Expiry is exact: for a tenant with at most a thousand undeleted memories \<^verbatim>\<open>expire\<close> archives
  precisely the active memories whose expiry lies in the past, leaves every other record of the
  store as it was, and returns how many it archived.
\<close>

theorem expire_archives_exactly:
  assumes "memories_keyed ms"
    and "length (filter (memory_listable ws owner None None True clock) (dict_values (ms_items ms))) \<le> 1000"
  shows "\<exists>n ms'. expire ws owner now clock ms = Inr (n, ms')
    \<and> n = length (filter (\<lambda>m. memory_listable ws owner None None True clock m \<and> expirable now m)
          (dict_values (ms_items ms)))
    \<and> (\<forall>k m. dict_get (ms_items ms) k = Some m \<longrightarrow> dict_get (ms_items ms') k =
          Some (if memory_listable ws owner None None True clock m \<and> expirable now m
                then archived now m else m))"
proof -
  let ?L = "memory_list ms ws owner None None True 1000 clock"
  let ?P = "memory_listable ws owner None None True clock"
  have L: "mset ?L = mset (filter ?P (dict_values (ms_items ms)))"
    using assms(2) by (simp add: memory_list_def page_limit_def)
  obtain ms' where ms': "expire_items now ?L ms = Inr (length (filter (expirable now) ?L), ms')"
    "\<And>k. dict_get (ms_items ms') k = (case find (\<lambda>x. mem_id x = k \<and> expirable now x) ?L of
           None \<Rightarrow> dict_get (ms_items ms) k | Some x \<Rightarrow> Some (archived now x))"
    using expire_items_effect
        [OF memory_list_distinct [OF assms(1), of ws owner None None True 1000 clock], of ms now]
      memory_list_get [OF assms(1)] by auto
  have "mset (filter (expirable now) ?L) = mset (filter (\<lambda>m. ?P m \<and> expirable now m) (dict_values (ms_items ms)))"
    using L by (simp add: filter_filter_mset conj_commute)
  then have n: "length (filter (expirable now) ?L) =
      length (filter (\<lambda>m. ?P m \<and> expirable now m) (dict_values (ms_items ms)))"
    by (rule mset_eq_length)
  have "dict_get (ms_items ms') k = Some (if ?P m \<and> expirable now m then archived now m else m)"
    if m: "dict_get (ms_items ms) k = Some m" for k m
  proof -
    have id: "mem_id m = k" using keyed_get [OF assms(1) m] .
    have mem: "x \<in> set ?L \<longleftrightarrow> x \<in> set (dict_values (ms_items ms)) \<and> ?P x" for x
      using arg_cong [OF L, of set_mset] by auto
    have m_in: "m \<in> set (dict_values (ms_items ms))" using dict_get_SomeD [OF m] by force
    show ?thesis
    proof (cases "find (\<lambda>x. mem_id x = k \<and> expirable now x) ?L")
      case None
      then have "\<not> (?P m \<and> expirable now m)" using mem m_in id by (auto simp: find_None_iff)
      with None ms'(2) m show ?thesis by auto
    next
      case (Some x)
      then have x: "x \<in> set ?L" "mem_id x = k" "expirable now x" using find_SomeD by fast+
      then have "x = m" using memory_list_get [OF assms(1) x(1)] m by simp
      with Some ms'(2) [of k] x mem show ?thesis by simp
    qed
  qed
  with ms'(1) n show ?thesis by (simp add: expire_def)
qed

section \<open>Normalisation\<close>

lemma runs_of_Nil [simp]: "runs_of p [] = []"
  by (simp add: runs_of.simps)

lemma runs_of_skip: "\<not> p d \<Longrightarrow> runs_of p (d # s) = runs_of p s"
  by (simp add: runs_of.simps [of p "d # s"] runs_of.simps [of p s])

lemma runs_of_word:
  assumes "w \<noteq> []" "\<forall>c \<in> set w. p c" "\<not> p d"
  shows "runs_of p (w @ d # s) = w # runs_of p s" "runs_of p w = [w]"
proof -
  obtain c cs where w: "w = c # cs" using assms(1) by (cases w) auto
  have "takeWhile p (cs @ d # s) = cs" "dropWhile p (cs @ d # s) = d # s"
    "takeWhile p cs = cs" "dropWhile p cs = []"
    using assms(2,3) w by (simp_all add: takeWhile_append dropWhile_append)
  then show "runs_of p (w @ d # s) = w # runs_of p s" "runs_of p w = [w]"
    using assms w runs_of_skip [of p d s]
    by (simp_all add: runs_of.simps [of p "c # cs @ d # s"] runs_of.simps [of p "c # cs"]
        del: dropWhile_eq_Nil_conv)
qed

lemma runs_of_join:
  assumes "\<forall>w \<in> set ws. w \<noteq> [] \<and> (\<forall>c \<in> set w. p c)" "\<not> p CHR '' ''"
  shows "runs_of p (join '' '' ws) = ws"
  using assms(1)
proof (induction "'' ''" ws rule: join.induct)
  case (2 x)
  then show ?case using runs_of_word(2) [of x p] assms(2) by simp
next
  case (3 x y ys)
  then show ?case using runs_of_word(1) [of x p "CHR '' ''"] assms(2) by simp
qed simp

lemma runs_of_good: "\<forall>w \<in> set (runs_of p s). w \<noteq> [] \<and> (\<forall>c \<in> set w. p c)"
proof (induction p s rule: runs_of.induct)
  case (1 p s)
  show ?case
  proof (cases "dropWhile (\<lambda>c. \<not> p c) s")
    case (Cons c cs)
    then have c: "p c" using hd_dropWhile [of "\<lambda>c. \<not> p c" s] by simp
    have eq: "runs_of p s = (c # takeWhile p cs) # runs_of p (dropWhile p cs)"
      by (subst runs_of.simps) (simp add: Cons)
    have word: "\<forall>x \<in> set (c # takeWhile p cs). p x" using c set_takeWhileD by fastforce
    show ?thesis
    proof
      fix w
      assume "w \<in> set (runs_of p s)"
      then have "w = c # takeWhile p cs \<or> w \<in> set (runs_of p (dropWhile p cs))" unfolding eq by simp
      then show "w \<noteq> [] \<and> (\<forall>c \<in> set w. p c)" using word 1 [OF Cons] by blast
    qed
  next
    case Nil
    then have "runs_of p s = []" by (subst runs_of.simps) (simp only: list.case)
    then show ?thesis by simp
  qed
qed

lemma lower_or_digit_facts:
  assumes "lower_or_digit c"
  shows "lower_char c = c" "\<not> is_space c"
  using assms by (auto simp: lower_or_digit_def lower_char_def is_space_def Let_def)

lemma str_lower_join:
  "\<forall>w \<in> set ws. \<forall>c \<in> set w. lower_or_digit c \<Longrightarrow> str_lower (join '' '' ws) = join '' '' ws"
proof (induction "'' ''" ws rule: join.induct)
  case (2 x)
  then show ?case by (simp add: str_lower_def lower_or_digit_facts map_idI)
next
  case (3 x y ys)
  have "str_lower x = x" using "3.prems" by (simp add: str_lower_def lower_or_digit_facts map_idI)
  moreover have "lower_char CHR '' '' = CHR '' ''" by (simp add: lower_char_def Let_def)
  ultimately show ?case using 3 by (simp add: str_lower_def)
qed (simp add: str_lower_def)

lemma collapse_space_word:
  "\<forall>c \<in> set w. \<not> is_space c \<Longrightarrow> collapse_space (w @ s) = w @ collapse_space s"
  by (induction w) simp_all

lemma collapse_space_join:
  "\<forall>w \<in> set ws. w \<noteq> [] \<and> (\<forall>c \<in> set w. lower_or_digit c) \<Longrightarrow> collapse_space (join '' '' ws) = join '' '' ws"
proof (induction "'' ''" ws rule: join.induct)
  case (2 x)
  then show ?case using collapse_space_word [of x "[]"] by (simp add: lower_or_digit_facts)
next
  case (3 x y ys)
  have x: "collapse_space (x @ s) = x @ collapse_space s" for s
    using "3.prems" by (intro collapse_space_word) (simp add: lower_or_digit_facts)
  obtain d ds where y: "join '' '' (y # ys) = d # ds" "\<not> is_space d"
    using "3.prems" by (cases y; cases ys) (auto simp: lower_or_digit_facts)
  have "is_space CHR '' ''" by (simp add: is_space_def Let_def)
  then have "collapse_space (CHR '' '' # d # ds) = CHR '' '' # collapse_space (d # ds)"
    using y(2) by simp
  with x y(1) 3 show ?case by simp
qed simp

text \<open>
  Normalisation of memory contents is idempotent: a normalised text is its own normal form, so
  the key by which duplicates are found does not depend on how often a text was normalised.
\<close>

theorem normalize_memory_content_idempotent:
  "normalize_memory_content py (MText (normalize_memory_content py content)) =
     normalize_memory_content py content"
proof -
  define raw where "raw = (case content of MText s \<Rightarrow> s
    | MObj kvs \<Rightarrow> join '' '' (map (\<lambda>kv. fst kv @ '':'' @ py_str py (snd kv)) (sort_key fst kvs)))"
  define ws where "ws = runs_of lower_or_digit (str_lower (collapse_space raw))"
  have n: "normalize_memory_content py content = join '' '' ws"
    by (simp add: normalize_memory_content_def raw_def ws_def Let_def)
  have good: "\<forall>w \<in> set ws. w \<noteq> [] \<and> (\<forall>c \<in> set w. lower_or_digit c)"
    unfolding ws_def by (rule runs_of_good)
  have "\<not> lower_or_digit CHR '' ''" by (simp add: lower_or_digit_def Let_def)
  with good have "runs_of lower_or_digit (str_lower (collapse_space (join '' '' ws))) = ws"
    by (simp add: collapse_space_join str_lower_join runs_of_join)
  then show ?thesis unfolding n by (simp add: normalize_memory_content_def Let_def)
qed

text \<open>
  The token estimate is not an upper bound for long words: a word that starts with a digit and
  contains an underscore is charged one token whatever its length, although the function's
  description says that words longer than four characters consume several.
\<close>

theorem token_count_undercounts_mixed_words:
  "approximate_token_count (''1_'' @ replicate n CHR ''a'') = 1"
proof -
  let ?w = "''1_'' @ replicate n CHR ''a''"
  have word: "is_word_char CHR ''1''" "is_word_char CHR ''_''" "is_word_char CHR ''a''"
    "\<not> is_space CHR ''1''" "is_digit CHR ''1''" "\<not> is_alnum CHR ''_''"
    by (simp_all add: is_word_char_def is_alnum_def is_space_def is_digit_def Let_def)
  have run: "takeWhile is_word_char (replicate n CHR ''a'') = replicate n CHR ''a''"
    "dropWhile is_word_char (replicate n CHR ''a'') = []"
    using word(3) by simp_all
  have "tokens ?w = [?w]" using word run by simp
  then show ?thesis using word by (simp add: approximate_token_count_def token_cost_def)
qed

section \<open>Concrete memories\<close>

definition pending_memory :: memory_item where
  "pending_memory = sample_memory\<lparr>mem_id := ''m2'', mem_status := MEM_PENDING_CONSENT,
     mem_normalized_content := ''i never prefer rupees'', mem_supersedes_id := Some ''m1'',
     mem_consented_at := None\<rparr>"

definition two_memories :: memory_store where
  "two_memories = snd (memory_create pending_memory sample_memories)"

lemma two_memories_items: "ms_items two_memories = [(''m1'', sample_memory), (''m2'', pending_memory)]"
  by (simp add: two_memories_def memory_create_def sample_memories_items dict_setdefault_def Let_def)
    (simp add: pending_memory_def)

lemma two_memories_keyed: "memories_keyed two_memories"
  by (simp add: keyed_def dict_wf_def two_memories_items) (simp add: sample_memory_def pending_memory_def)

lemma sample_memories_reachable: "memory_reachable py isofmt sample_memories"
proof -
  have "memory_list empty_memory_store ws ow p t True 500 0 = []" for ws ow p t
    by (simp add: memory_list_def empty_memory_store_def sorted_desc_def)
  then have "ingest_candidates py 0 [sample_memory] empty_memory_store =
      Inr ([fst (memory_create sample_memory empty_memory_store)], sample_memories)"
    by (simp add: ingest_one_def get_preference_def sample_memories_def split_beta Let_def)
      (simp add: sample_memory_def empty_memory_store_def)
  moreover have "validate_scope_and_consent sample_memory = Inr sample_memory"
    by (simp add: validate_scope_and_consent_def sample_memory_def)
  ultimately have "memory_step py isofmt empty_memory_store sample_memories"
    by (intro memory_step.ingest [of "[sample_memory]"]) simp_all
  with memory_reachable.init show ?thesis by (rule memory_reachable.step)
qed

theorem listed_memories_have_consent_witness:
  "sample_memory \<in> set (memory_list sample_memories ''w'' ''u'' None None False 10 5)
   \<and> mem_consented_at sample_memory \<noteq> None"
proof -
  have "sample_memory \<in> set (memory_list sample_memories ''w'' ''u'' None None False 10 5)"
    by (simp add: memory_list_def sample_memories_items sorted_desc_def page_limit_def memory_listable_def
        memory_current_def) (simp add: sample_memory_def)
  with listed_memories_have_consent [OF sample_memories_reachable this] show ?thesis by simp
qed

theorem opted_out_users_are_not_remembered_witness:
  "ingest_candidates (\<lambda>_. []) 5 [sample_memory]
     (set_preference \<lparr>pref_workspace_id = ''w'', pref_owner_user_id = ''u'', pref_opted_out = True,
        pref_updated_at = 1\<rparr> empty_memory_store) =
   Inr ([], set_preference \<lparr>pref_workspace_id = ''w'', pref_owner_user_id = ''u'', pref_opted_out = True,
        pref_updated_at = 1\<rparr> empty_memory_store)"
  by (rule opted_out_users_are_not_remembered)
    (simp add: get_preference_def set_preference_def empty_memory_store_def sample_memory_def)

theorem confirm_activates_and_supersedes_witness:
  "\<exists>c ms'. confirm 9 pending_memory two_memories = Inr (c, ms') \<and> mem_status c = MEM_ACTIVE
     \<and> (\<exists>p. memory_get ms' ''m1'' ''w'' ''u'' = Some p \<and> mem_status p = MEM_SUPERSEDED)"
proof -
  have "memory_get two_memories (mem_id pending_memory) ''w'' ''u'' = Some pending_memory"
    by (simp add: memory_get_def two_memories_items) (simp add: pending_memory_def sample_memory_def)
  moreover have "memory_get two_memories ''m1'' ''w'' ''u'' = Some sample_memory"
    by (simp add: memory_get_def two_memories_items) (simp add: sample_memory_def)
  moreover have "mem_supersedes_id pending_memory = Some ''m1''" "''m1'' \<noteq> mem_id pending_memory"
    by (simp_all add: pending_memory_def)
  ultimately show ?thesis
    using confirm_activates_and_supersedes [OF two_memories_keyed, of pending_memory "''w''" "''u''" "''m1''"
        sample_memory 9] by auto
qed

theorem expire_archives_exactly_witness:
  "\<exists>n ms'. expire ''w'' ''u'' 5 5 sample_memories = Inr (n, ms')
     \<and> dict_get (ms_items ms') ''m1'' = Some sample_memory"
proof -
  have "length (filter (memory_listable ''w'' ''u'' None None True 5) (dict_values (ms_items sample_memories)))
      \<le> 1000" by (simp add: sample_memories_items)
  from expire_archives_exactly [OF sample_memories_keyed this, of 5]
  obtain n ms' where "expire ''w'' ''u'' 5 5 sample_memories = Inr (n, ms')"
    and "\<And>k m. dict_get (ms_items sample_memories) k = Some m \<Longrightarrow> dict_get (ms_items ms') k =
      Some (if memory_listable ''w'' ''u'' None None True 5 m \<and> expirable 5 m then archived 5 m else m)"
    by blast
  moreover have "\<not> expirable 5 sample_memory" by (simp add: expirable_def sample_memory_def)
  moreover have "dict_get (ms_items sample_memories) ''m1'' = Some sample_memory"
    by (simp add: sample_memories_items)
  ultimately show ?thesis by simp
qed

end
