(* ===== verification/Context_Builder.thy ===== *)
theory Context_Builder
  imports Memory_Service "HOL-Library.Sublist"
begin

text \<open>
  \<^verbatim>\<open>ThreadSummaryService\<close> and \<^verbatim>\<open>ContextBuilder\<close> of
  \<^verbatim>\<open>src/seleric_swarm/conversations/context.py\<close>: what a run is told about its conversation, within
  a budget of characters and tokens. How Python prints a float and a dictionary is the argument
  record \<open>py_text\<close>, the optional vector scorer an argument of \<open>build\<close>.
\<close>

section \<open>Rendering\<close>

record py_text =
  float_text :: "rat \<Rightarrow> string"
  obj_text :: "json \<Rightarrow> string"

definition hex_char :: "nat \<Rightarrow> char" where
  "hex_char n = (if n < 10 then char_of (48 + n) else char_of (87 + n))"

text \<open>\<^verbatim>\<open>json.dumps\<close> with \<^verbatim>\<open>ensure_ascii=False\<close>: quotes, backslashes and control characters are escaped.\<close>

definition escape_char :: "char \<Rightarrow> string" where
  "escape_char c = (let n = (of_char c :: nat); b = char_of (92 :: nat) in
     if n = 34 then [b, c] else if n = 92 then [b, b]
     else if n = 10 then [b, CHR ''n''] else if n = 13 then [b, CHR ''r'']
     else if n = 9 then [b, CHR ''t''] else if n = 8 then [b, CHR ''b'']
     else if n = 12 then [b, CHR ''f'']
     else if n < 32 then [b, CHR ''u'', CHR ''0'', CHR ''0'', hex_char (n div 16), hex_char (n mod 16)]
     else [c])"

definition json_string :: "string \<Rightarrow> string" where
  "json_string s = char_of (34 :: nat) # concat (map escape_char s) @ [char_of (34 :: nat)]"

text \<open>Keys are sorted and separators carry no blanks.\<close>

fun json_dumps :: "(rat \<Rightarrow> string) \<Rightarrow> json \<Rightarrow> string" where
  "json_dumps ft JNull = ''null''"
| "json_dumps ft (JBool b) = (if b then ''true'' else ''false'')"
| "json_dumps ft (JInt i) = int_str i"
| "json_dumps ft (JNum r) = ft r"
| "json_dumps ft (JStr s) = json_string s"
| "json_dumps ft (JList xs) = ''['' @ join '','' (map (json_dumps ft) xs) @ '']''"
| "json_dumps ft (JObj kvs) =
     ''{'' @ join '','' (map snd (sort_key fst
        (map (\<lambda>(k, v). (k, json_string k @ '':'' @ json_dumps ft v)) kvs))) @ ''}''"

declare json_dumps.simps [simp del]

definition message_text :: "message \<Rightarrow> string" where
  "message_text m = join [char_of (10 :: nat)]
     (List.map_filter (\<lambda>p. case part_content p of
          CStr s \<Rightarrow> if part_type p = TEXT \<and> str_strip s \<noteq> [] then Some (str_strip s) else None
        | _ \<Rightarrow> None) (msg_parts m))"

section \<open>ThreadSummaryService\<close>

fun message_role_value :: "message_role \<Rightarrow> string" where
  "message_role_value USER = ''USER''"
| "message_role_value ASSISTANT = ''ASSISTANT''"
| "message_role_value SYSTEM = ''SYSTEM''"
| "message_role_value TOOL = ''TOOL''"

definition summary_line :: "bool \<Rightarrow> message \<Rightarrow> string" where
  "summary_line extractive m =
     (if extractive then message_text m else message_role_value (msg_role m) @ '': '' @ message_text m)"

text \<open>The loop stops at the first line that does not fit.\<close>

fun summary_prefix :: "bool \<Rightarrow> int \<Rightarrow> message list \<Rightarrow> message list" where
  "summary_prefix extractive remaining [] = []"
| "summary_prefix extractive remaining (m # ms) =
     (let n = int (length (summary_line extractive m)) in
      if n > remaining then [] else m # summary_prefix extractive (remaining - (n + 1)) ms)"

definition part_evidence :: "(json \<Rightarrow> string) \<Rightarrow> message_part \<Rightarrow> string option" where
  "part_evidence py p = (case part_content p of
      CObj obj \<Rightarrow> (case dict_get obj ''evidence_id'' of
          Some v \<Rightarrow> if part_type p = SOURCE \<and> truthy v then Some (py_str py v) else None
        | None \<Rightarrow> None)
    | _ \<Rightarrow> None)"

definition summary_source :: "thread \<Rightarrow> message list \<Rightarrow> message list" where
  "summary_source t messages = filter (\<lambda>m. msg_thread_id m = th_id t \<and> message_text m \<noteq> []) messages"

definition summarize ::
  "(json \<Rightarrow> string) \<Rightarrow> string \<Rightarrow> moment \<Rightarrow> thread \<Rightarrow> message list \<Rightarrow> int \<Rightarrow> string
     \<Rightarrow> thread_summary store \<Rightarrow> thread_summary \<times> thread_summary store" where
  "summarize py new_id now t messages max_characters mode items =
     (let source = summary_source t messages;
          extractive = (mode = ''extractive'');
          used = summary_prefix extractive (max 1 max_characters) source;
          evidence = concat (map (\<lambda>m. List.map_filter (part_evidence py) (msg_parts m)) used)
      in summary_create
        \<lparr>sum_id = new_id, sum_thread_id = th_id t, sum_workspace_id = th_workspace_id t,
         sum_owner_user_id = th_owner_user_id t,
         sum_through_message_id = (if used = [] then None else Some (msg_id (last used))),
         sum_covered_message_ids = map msg_id used, sum_source_evidence_ids = dedupe evidence,
         sum_mode = (if mode = ''deterministic'' then Deterministic else Extractive),
         sum_version = ''phase6-v1'',
         sum_summary = join [char_of (10 :: nat)] (map (summary_line extractive) used),
         sum_metadata = [(''faithful'', JBool True), (''truncated'', JBool (length used < length source))],
         sum_created_at = now\<rparr> items)"

section \<open>ContextBuilder\<close>

record context_builder =
  cb_total_characters :: int
  cb_total_tokens :: int
  cb_message_characters :: int
  cb_summary_characters :: int
  cb_memory_characters :: int
  cb_artifact_characters :: int

definition make_builder :: "int \<Rightarrow> int \<Rightarrow> int \<Rightarrow> int \<Rightarrow> int \<Rightarrow> int option \<Rightarrow> context_builder" where
  "make_builder total_characters messages summary memories artifacts total_tokens =
     (let derived = max 1 (total_characters div 3) in
      \<lparr>cb_total_characters = total_characters,
       cb_total_tokens = (case total_tokens of Some t \<Rightarrow> if t \<noteq> 0 then t else derived | None \<Rightarrow> derived),
       cb_message_characters = messages, cb_summary_characters = summary,
       cb_memory_characters = memories, cb_artifact_characters = artifacts\<rparr>)"

record context_bundle =
  bundle_permissions :: "(string, bool) dict"
  bundle_workspace_config :: json_obj
  bundle_recent_messages :: "message list"
  bundle_latest_summary :: "thread_summary option"
  bundle_memories :: "memory_item list"
  bundle_artifacts :: "artifact list"
  bundle_memory_ids :: "string list"
  bundle_artifact_ids :: "string list"
  bundle_provenance :: "(string, json) dict"
  bundle_character_count :: int
  bundle_token_estimate :: int
  bundle_token_budget :: int

definition score :: "string \<Rightarrow> memory_item \<Rightarrow> moment \<Rightarrow> rat" where
  "score query m now =
     (let query_words = set (runs_of lower_or_digit (str_lower query));
          memory_words = set (split_words (mem_normalized_content m));
          lexical = (of_nat (card (query_words \<inter> memory_words)) :: rat) /
            of_nat (max 1 (card (query_words \<union> memory_words)));
          age_days = max 0 (of_int (now - mem_updated_at m) / 1000000 / 86400);
          recency = 1 / (1 + age_days / 30);
          phrase = (if str_contains (normalize_memory_content (\<lambda>_. []) (MText query))
              (mem_normalized_content m) then 2 / 10 else 0);
          provenance = (if str_truthy (mem_source_message_id m) \<or> mem_source_message_ids m \<noteq> []
              \<or> mem_source_evidence_ids m \<noteq> [] then 5 / 100 else 0)
      in lexical * 55 / 100 + phrase + recency / 10 + mem_confidence m * 15 / 100
         + mem_salience m / 10 + provenance + (if mem_pinned m then 25 / 100 else 0))"

definition in_scope :: "thread \<Rightarrow> memory_item \<Rightarrow> bool" where
  "in_scope t item =
     (mem_scope item = SCOPE_USER
      \<or> (mem_scope item \<in> {SCOPE_PROJECT, SCOPE_EPISODIC} \<and> th_project_id t \<noteq> None
         \<and> mem_project_id item = th_project_id t)
      \<or> (mem_scope item = SCOPE_THREAD \<and> mem_thread_id item = Some (th_id t)))"

definition memory_key :: "(json \<Rightarrow> string) \<Rightarrow> memory_item \<Rightarrow> memory_type \<times> string" where
  "memory_key py item = (mem_type item,
     if mem_normalized_content item \<noteq> [] then mem_normalized_content item
     else normalize_memory_content py (mem_content item))"

definition deduplicate ::
  "(json \<Rightarrow> string) \<Rightarrow> memory_item list \<Rightarrow> (memory_type \<times> string, memory_item) dict" where
  "deduplicate py memories = foldl (\<lambda>d item.
     case dict_get d (memory_key py item) of
       None \<Rightarrow> dict_set d (memory_key py item) item
     | Some current \<Rightarrow>
         if (mem_pinned item, mem_updated_at item) > (mem_pinned current, mem_updated_at current)
         then dict_set d (memory_key py item) item else d) [] memories"

text \<open>
  The closure \<^verbatim>\<open>take\<close>: it skips what does not fit and charges what it selects to the two
  remaining amounts, here a pair that is threaded through.
\<close>

type_synonym allowance = "int \<times> int"

fun take_budget ::
  "('a \<Rightarrow> string) \<Rightarrow> int \<Rightarrow> 'a list \<Rightarrow> allowance \<Rightarrow> 'a list \<times> allowance" where
  "take_budget render budget [] left = ([], left)"
| "take_budget render budget (v # vs) left =
     (let size = int (length (render v)); tokens = int (approximate_token_count (render v)) in
      if size > budget \<or> size > fst left \<or> tokens > snd left
      then take_budget render budget vs left
      else let (selected, left') = take_budget render (budget - size) vs
                 (fst left - size, snd left - tokens)
           in (v # selected, left'))"

text \<open>One optional text, charged when it fits.\<close>

definition charge :: "string \<Rightarrow> int \<Rightarrow> allowance \<Rightarrow> allowance option" where
  "charge s budget left =
     (if int (length s) \<le> min budget (fst left) \<and> int (approximate_token_count s) \<le> snd left
      then Some (fst left - int (length s), snd left - int (approximate_token_count s)) else None)"

fun memory_scope_value :: "memory_scope \<Rightarrow> string" where
  "memory_scope_value SCOPE_THREAD = ''THREAD''"
| "memory_scope_value SCOPE_USER = ''USER''"
| "memory_scope_value SCOPE_PROJECT = ''PROJECT''"
| "memory_scope_value SCOPE_EPISODIC = ''EPISODIC''"

definition provenance_details :: "memory_item \<Rightarrow> json" where
  "provenance_details item = JObj
     [(''scope'', JStr (memory_scope_value (mem_scope item))),
      (''project_id'', opt_json (mem_project_id item)),
      (''thread_id'', opt_json (mem_thread_id item)),
      (''source_message_ids'', JList (map JStr (dedupe (mem_source_message_ids item
         @ (case mem_source_message_id item of Some s \<Rightarrow> if s = [] then [] else [s] | None \<Rightarrow> []))))),
      (''source_run_id'', opt_json (mem_source_run_id item)),
      (''source_evidence_ids'', JList (map JStr (mem_source_evidence_ids item))),
      (''provenance'', JObj (mem_provenance item))]"

fun take_provenance ::
  "(rat \<Rightarrow> string) \<Rightarrow> (string, json) dict \<Rightarrow> allowance \<Rightarrow> (string, json) dict \<times> allowance" where
  "take_provenance ft [] left = ([], left)"
| "take_provenance ft ((k, details) # rest) left =
     (case charge (json_dumps ft details) (fst left) left of
        None \<Rightarrow> take_provenance ft rest left
      | Some left' \<Rightarrow> let (d, left'') = take_provenance ft rest left' in ((k, details) # d, left''))"

definition content_text :: "py_text \<Rightarrow> memory_content \<Rightarrow> string" where
  "content_text txt c = (case c of MText s \<Rightarrow> s | MObj kvs \<Rightarrow> obj_text txt (JObj kvs))"

definition default_permissions :: "bool \<Rightarrow> (string, bool) dict" where
  "default_permissions opted_out =
     [(''read_messages'', True), (''read_memory'', \<not> opted_out), (''read_artifacts'', True),
      (''read_workspace_config'', True)]"

definition permissions_json :: "(string, bool) dict \<Rightarrow> json" where
  "permissions_json ps = JObj (map (\<lambda>(k, b). (k, JBool b)) ps)"

record context_sources =
  src_messages :: "message store"
  src_summaries :: "thread_summary store"
  src_memories :: memory_store
  src_artifacts :: "artifact store"

definition candidate_memories :: "(json \<Rightarrow> string) \<Rightarrow> context_sources \<Rightarrow> thread \<Rightarrow> moment \<Rightarrow> memory_item list" where
  "candidate_memories py srcs t now =
     (let preference = get_preference (src_memories srcs) (th_workspace_id t) (th_owner_user_id t) now;
          candidates = (if pref_opted_out preference then []
            else memory_list (src_memories srcs) (th_workspace_id t) (th_owner_user_id t)
              (th_project_id t) (Some (th_id t)) False 500 now)
      in dict_values (deduplicate py (filter (in_scope t) candidates)))"

definition rank_memories ::
  "(string \<Rightarrow> memory_item list \<Rightarrow> (string, rat) dict) option \<Rightarrow> string \<Rightarrow> moment \<Rightarrow> memory_item list
     \<Rightarrow> memory_item list" where
  "rank_memories scorer query now memories =
     (let vector_scores = (case scorer of None \<Rightarrow> [] | Some f \<Rightarrow> f query memories) in
      sorted_desc (\<lambda>item. score query item now +
        (case dict_get vector_scores (mem_id item) of None \<Rightarrow> 0 | Some v \<Rightarrow> v)) memories)"

definition build ::
  "py_text \<Rightarrow> (string \<Rightarrow> memory_item list \<Rightarrow> (string, rat) dict) option \<Rightarrow> context_builder
     \<Rightarrow> context_sources \<Rightarrow> thread \<Rightarrow> string \<Rightarrow> json_obj \<Rightarrow> (string, bool) dict \<Rightarrow> moment
     \<Rightarrow> context_bundle" where
  "build txt scorer cb srcs t query workspace_config permissions now =
     (let preference = get_preference (src_memories srcs) (th_workspace_id t) (th_owner_user_id t) now;
          messages = message_list_for_thread (src_messages srcs) (th_id t) 500;
          summary = summary_latest (src_summaries srcs) (th_id t) (th_workspace_id t) (th_owner_user_id t);
          memories = rank_memories scorer query now (candidate_memories (obj_text txt) srcs t now);
          left0 = (cb_total_characters cb, cb_total_tokens cb);
          requested = (if permissions = [] then default_permissions (pref_opted_out preference)
            else permissions);
          (explicit, left1) = (case charge (json_dumps (float_text txt) (permissions_json requested))
              (fst left0) left0 of None \<Rightarrow> ([], left0) | Some l \<Rightarrow> (requested, l));
          (recent, left2) = take_budget message_text (cb_message_characters cb) (rev messages) left1;
          (chosen_summary, left3) = (case summary of None \<Rightarrow> (None, left2)
            | Some s \<Rightarrow> (case charge (sum_summary s) (cb_summary_characters cb) left2 of
                None \<Rightarrow> (None, left2) | Some l \<Rightarrow> (Some s, l)));
          (chosen_memories, left4) = take_budget (\<lambda>item. content_text txt (mem_content item))
            (cb_memory_characters cb) memories left3;
          (artifacts, left5) = take_budget (\<lambda>item. json_dumps (float_text txt) (JObj (art_payload item)))
            (cb_artifact_characters cb)
            (artifact_list_for_context (src_artifacts srcs) (th_workspace_id t) (th_id t)) left4;
          (config_items, left6) = take_budget (\<lambda>c. json_dumps (float_text txt) (JObj c)) (fst left5)
            [workspace_config] left5;
          config = (case config_items of [] \<Rightarrow> [] | c # _ \<Rightarrow> c);
          (allowed, left7) = take_provenance (float_text txt)
            (dict_merge [] (map (\<lambda>item. (mem_id item, provenance_details item)) chosen_memories)) left6
      in \<lparr>bundle_permissions = explicit, bundle_workspace_config = config,
          bundle_recent_messages = rev recent, bundle_latest_summary = chosen_summary,
          bundle_memories = chosen_memories, bundle_artifacts = artifacts,
          bundle_memory_ids = map mem_id chosen_memories, bundle_artifact_ids = map art_id artifacts,
          bundle_provenance = allowed,
          bundle_character_count = cb_total_characters cb - fst left7,
          bundle_token_estimate = cb_total_tokens cb - snd left7,
          bundle_token_budget = cb_total_tokens cb\<rparr>)"

section \<open>Budgets\<close>

abbreviation cost :: "('a \<Rightarrow> string) \<Rightarrow> 'a list \<Rightarrow> int" where
  "cost render xs \<equiv> (\<Sum>x\<leftarrow>xs. int (length (render x)))"

abbreviation token_sum :: "('a \<Rightarrow> string) \<Rightarrow> 'a list \<Rightarrow> int" where
  "token_sum render xs \<equiv> (\<Sum>x\<leftarrow>xs. int (approximate_token_count (render x)))"

lemma take_budget_props:
  assumes "take_budget render budget xs left = (ys, left')" and "0 \<le> fst left" "0 \<le> snd left"
  shows "fst left' = fst left - cost render ys \<and> snd left' = snd left - token_sum render ys
    \<and> 0 \<le> fst left' \<and> 0 \<le> snd left' \<and> (0 \<le> budget \<longrightarrow> cost render ys \<le> budget)
    \<and> subseq ys xs"
  using assms
proof (induction xs arbitrary: budget left ys left')
  case (Cons x xs)
  let ?s = "int (length (render x))" and ?k = "int (approximate_token_count (render x))"
  show ?case
  proof (cases "?s > budget \<or> ?s > fst left \<or> ?k > snd left")
    case True
    with Cons.prems Cons.IH [of budget left ys] show ?thesis by (auto simp: Let_def intro: list_emb_Cons)
  next
    case False
    obtain zs l where z: "take_budget render (budget - ?s) xs (fst left - ?s, snd left - ?k) = (zs, l)"
      by (meson surj_pair)
    with False Cons.prems(1) have "ys = x # zs" "left' = l" by (simp_all add: Let_def)
    with Cons.IH [OF z] False show ?thesis by auto
  qed
qed simp

lemma charge_props:
  assumes "charge s budget left = Some left'"
  shows "fst left' = fst left - int (length s) \<and> 0 \<le> fst left' \<and> 0 \<le> snd left' \<and> snd left' \<le> snd left
    \<and> int (length s) \<le> budget"
  using assms by (auto simp: charge_def split: if_splits)

lemma take_provenance_props:
  assumes "take_provenance ft ds left = (d, left')" and "0 \<le> fst left" "0 \<le> snd left"
  shows "0 \<le> fst left' \<and> fst left' \<le> fst left \<and> 0 \<le> snd left' \<and> snd left' \<le> snd left \<and> subseq d ds"
  using assms
proof (induction ft ds left arbitrary: d left' rule: take_provenance.induct)
  case (2 ft k details rest left)
  show ?case
  proof (cases "charge (json_dumps ft details) (fst left) left")
    case None
    with 2 show ?thesis by (auto intro: list_emb_Cons)
  next
    case (Some l)
    obtain e l' where e: "take_provenance ft rest l = (e, l')" by (meson surj_pair)
    from charge_props [OF Some] "2.IH"(2) [OF Some e] "2.prems" Some e show ?thesis by auto
  qed
qed simp

lemma cost_nonneg: "0 \<le> cost render xs"
  by (induction xs) auto

lemma token_sum_nonneg: "0 \<le> token_sum render xs"
  by (induction xs) auto

text \<open>The stages of a build, each with the allowance it leaves.\<close>

lemma build_stages:
  assumes nonneg: "0 \<le> cb_total_characters cb" "0 \<le> cb_total_tokens cb"
  obtains l1 l2 l3 l4 l5 l6 l7 recent sm mems arts
  where "0 \<le> fst l1" "fst l1 \<le> cb_total_characters cb" "0 \<le> snd l1" "snd l1 \<le> cb_total_tokens cb"
    "take_budget message_text (cb_message_characters cb)
       (rev (message_list_for_thread (src_messages srcs) (th_id t) 500)) l1 = (recent, l2)"
    "0 \<le> fst l3" "0 \<le> snd l3" "snd l3 \<le> snd l2"
    "fst l3 = fst l2 - (case sm of None \<Rightarrow> 0 | Some x \<Rightarrow> int (length (sum_summary x)))"
    "case sm of None \<Rightarrow> True | Some x \<Rightarrow> int (length (sum_summary x)) \<le> cb_summary_characters cb"
    "take_budget (\<lambda>item. content_text txt (mem_content item)) (cb_memory_characters cb)
       (rank_memories scorer query now (candidate_memories (obj_text txt) srcs t now)) l3 = (mems, l4)"
    "take_budget (\<lambda>item. json_dumps (float_text txt) (JObj (art_payload item))) (cb_artifact_characters cb)
       (artifact_list_for_context (src_artifacts srcs) (th_workspace_id t) (th_id t)) l4 = (arts, l5)"
    "0 \<le> fst l7" "0 \<le> snd l7" "fst l7 \<le> fst l5" "snd l7 \<le> snd l5"
    "bundle_recent_messages (build txt scorer cb srcs t query cfg permissions now) = rev recent"
    "bundle_latest_summary (build txt scorer cb srcs t query cfg permissions now) = sm"
    "bundle_memories (build txt scorer cb srcs t query cfg permissions now) = mems"
    "bundle_artifacts (build txt scorer cb srcs t query cfg permissions now) = arts"
    "bundle_character_count (build txt scorer cb srcs t query cfg permissions now) =
       cb_total_characters cb - fst l7"
    "bundle_token_estimate (build txt scorer cb srcs t query cfg permissions now) =
       cb_total_tokens cb - snd l7"
    "bundle_token_budget (build txt scorer cb srcs t query cfg permissions now) = cb_total_tokens cb"
proof -
  let ?l0 = "(cb_total_characters cb, cb_total_tokens cb)"
  let ?pref = "get_preference (src_memories srcs) (th_workspace_id t) (th_owner_user_id t) now"
  let ?req = "if permissions = [] then default_permissions (pref_opted_out ?pref) else permissions"
  obtain ex l1 where 1: "(case charge (json_dumps (float_text txt) (permissions_json ?req)) (fst ?l0) ?l0 of
      None \<Rightarrow> ([], ?l0) | Some l \<Rightarrow> (?req, l)) = (ex, l1)" by (meson surj_pair)
  then have l1: "0 \<le> fst l1" "fst l1 \<le> cb_total_characters cb" "0 \<le> snd l1" "snd l1 \<le> cb_total_tokens cb"
    using nonneg
    by (cases "charge (json_dumps (float_text txt) (permissions_json ?req)) (fst ?l0) ?l0";
        use charge_props in fastforce)+
  obtain recent l2 where 2: "take_budget message_text (cb_message_characters cb)
      (rev (message_list_for_thread (src_messages srcs) (th_id t) 500)) l1 = (recent, l2)" by (meson surj_pair)
  note l2 = take_budget_props [OF 2 l1(1,3)]
  let ?sum = "summary_latest (src_summaries srcs) (th_id t) (th_workspace_id t) (th_owner_user_id t)"
  obtain sm l3 where 3: "(case ?sum of None \<Rightarrow> (None, l2) | Some s \<Rightarrow>
      (case charge (sum_summary s) (cb_summary_characters cb) l2 of None \<Rightarrow> (None, l2) | Some l \<Rightarrow> (Some s, l)))
      = (sm, l3)" by (meson surj_pair)
  have l3: "0 \<le> fst l3 \<and> 0 \<le> snd l3 \<and> snd l3 \<le> snd l2
    \<and> fst l3 = fst l2 - (case sm of None \<Rightarrow> 0 | Some x \<Rightarrow> int (length (sum_summary x)))
    \<and> (case sm of None \<Rightarrow> True | Some x \<Rightarrow> int (length (sum_summary x)) \<le> cb_summary_characters cb)"
  proof (cases ?sum)
    case None
    with 3 l2 show ?thesis by simp
  next
    case sum: (Some s)
    show ?thesis
    proof (cases "charge (sum_summary s) (cb_summary_characters cb) l2")
      case None
      with 3 sum l2 show ?thesis by simp
    next
      case (Some l)
      with 3 sum have "sm = Some s" "l3 = l" by simp_all
      with charge_props [OF Some] show ?thesis by simp
    qed
  qed
  obtain mems l4 where 4: "take_budget (\<lambda>item. content_text txt (mem_content item)) (cb_memory_characters cb)
      (rank_memories scorer query now (candidate_memories (obj_text txt) srcs t now)) l3 = (mems, l4)"
    by (meson surj_pair)
  note l4 = take_budget_props [OF 4, OF conjunct1 [OF l3] conjunct1 [OF conjunct2 [OF l3]]]
  obtain arts l5 where 5: "take_budget (\<lambda>item. json_dumps (float_text txt) (JObj (art_payload item)))
      (cb_artifact_characters cb)
      (artifact_list_for_context (src_artifacts srcs) (th_workspace_id t) (th_id t)) l4 = (arts, l5)"
    by (meson surj_pair)
  have l5: "0 \<le> fst l5" "0 \<le> snd l5" using take_budget_props [OF 5] l4 by simp_all
  obtain cs l6 where 6: "take_budget (\<lambda>c. json_dumps (float_text txt) (JObj c)) (fst l5) [cfg] l5 = (cs, l6)"
    by (meson surj_pair)
  note l6 = take_budget_props [OF 6 l5]
  obtain al l7 where 7: "take_provenance (float_text txt)
      (dict_merge [] (map (\<lambda>item. (mem_id item, provenance_details item)) mems)) l6 = (al, l7)" by (meson surj_pair)
  have l7: "0 \<le> fst l7" "fst l7 \<le> fst l6" "0 \<le> snd l7" "snd l7 \<le> snd l6"
    using take_provenance_props [OF 7] l6 by simp_all
  have le6: "fst l6 \<le> fst l5" "snd l6 \<le> snd l5" using l6
    cost_nonneg [of "\<lambda>c. json_dumps (float_text txt) (JObj c)" cs]
    token_sum_nonneg [of "\<lambda>c. json_dumps (float_text txt) (JObj c)" cs] by linarith+
  have b: "build txt scorer cb srcs t query cfg permissions now =
     \<lparr>bundle_permissions = ex, bundle_workspace_config = (case cs of [] \<Rightarrow> [] | c # _ \<Rightarrow> c),
          bundle_recent_messages = rev recent, bundle_latest_summary = sm,
          bundle_memories = mems, bundle_artifacts = arts,
          bundle_memory_ids = map mem_id mems, bundle_artifact_ids = map art_id arts,
          bundle_provenance = al, bundle_character_count = cb_total_characters cb - fst l7,
          bundle_token_estimate = cb_total_tokens cb - snd l7, bundle_token_budget = cb_total_tokens cb\<rparr>"
    unfolding build_def Let_def 1 2 3 4 5 6 7 prod.case by simp
  show ?thesis
    by (rule that [OF l1 2 _ _ _ _ _ 4 5 l7(1,3)]) (use l3 l7 le6 in \<open>simp_all add: b\<close>)
qed

text \<open>The characters each source contributes to a bundle.\<close>

definition messages_size :: "context_bundle \<Rightarrow> int" where
  "messages_size b = (\<Sum>m\<leftarrow>bundle_recent_messages b. int (length (message_text m)))"

definition summary_size :: "context_bundle \<Rightarrow> int" where
  "summary_size b = (case bundle_latest_summary b of None \<Rightarrow> 0 | Some s \<Rightarrow> int (length (sum_summary s)))"

definition memories_size :: "py_text \<Rightarrow> context_bundle \<Rightarrow> int" where
  "memories_size txt b = (\<Sum>m\<leftarrow>bundle_memories b. int (length (content_text txt (mem_content m))))"

definition artifacts_size :: "py_text \<Rightarrow> context_bundle \<Rightarrow> int" where
  "artifacts_size txt b =
     (\<Sum>a\<leftarrow>bundle_artifacts b. int (length (json_dumps (float_text txt) (JObj (art_payload a)))))"

text \<open>
  A context never exceeds its budget: with non-negative limits the reported character and token
  counts lie between zero and the totals, the chosen messages, summary, memories and artifacts
  each stay within the limit of their source, and together they are covered by the reported
  character count.
\<close>

theorem context_stays_in_budget:
  assumes "0 \<le> cb_total_characters cb" "0 \<le> cb_total_tokens cb" "0 \<le> cb_message_characters cb"
    "0 \<le> cb_memory_characters cb" "0 \<le> cb_artifact_characters cb"
    and b_def: "b = build txt scorer cb srcs t query cfg permissions now"
  shows "0 \<le> bundle_character_count b \<and> bundle_character_count b \<le> cb_total_characters cb
    \<and> 0 \<le> bundle_token_estimate b \<and> bundle_token_estimate b \<le> bundle_token_budget b
    \<and> messages_size b \<le> cb_message_characters cb \<and> memories_size txt b \<le> cb_memory_characters cb
    \<and> artifacts_size txt b \<le> cb_artifact_characters cb
    \<and> (bundle_latest_summary b \<noteq> None \<longrightarrow> summary_size b \<le> cb_summary_characters cb)
    \<and> messages_size b + summary_size b + memories_size txt b + artifacts_size txt b \<le> bundle_character_count b"
proof -
  obtain l1 l2 l3 l4 l5 l7 recent sm mems arts where
    l1: "0 \<le> fst l1" "fst l1 \<le> cb_total_characters cb" "0 \<le> snd l1" "snd l1 \<le> cb_total_tokens cb"
    and 2: "take_budget message_text (cb_message_characters cb)
       (rev (message_list_for_thread (src_messages srcs) (th_id t) 500)) l1 = (recent, l2)"
    and l3: "0 \<le> fst l3" "0 \<le> snd l3" "snd l3 \<le> snd l2"
      "fst l3 = fst l2 - (case sm of None \<Rightarrow> 0 | Some x \<Rightarrow> int (length (sum_summary x)))"
      "case sm of None \<Rightarrow> True | Some x \<Rightarrow> int (length (sum_summary x)) \<le> cb_summary_characters cb"
    and 4: "take_budget (\<lambda>item. content_text txt (mem_content item)) (cb_memory_characters cb)
       (rank_memories scorer query now (candidate_memories (obj_text txt) srcs t now)) l3 = (mems, l4)"
    and 5: "take_budget (\<lambda>item. json_dumps (float_text txt) (JObj (art_payload item))) (cb_artifact_characters cb)
       (artifact_list_for_context (src_artifacts srcs) (th_workspace_id t) (th_id t)) l4 = (arts, l5)"
    and l7: "0 \<le> fst l7" "0 \<le> snd l7" "fst l7 \<le> fst l5" "snd l7 \<le> snd l5"
    and b: "bundle_recent_messages b = rev recent" "bundle_latest_summary b = sm" "bundle_memories b = mems"
      "bundle_artifacts b = arts" "bundle_character_count b = cb_total_characters cb - fst l7"
      "bundle_token_estimate b = cb_total_tokens cb - snd l7" "bundle_token_budget b = cb_total_tokens cb"
    unfolding b_def by (rule build_stages [OF assms(1,2), of srcs t "txt" scorer query now cfg permissions])
  note p2 = take_budget_props [OF 2 l1(1,3)]
  note p4 = take_budget_props [OF 4 l3(1,2)]
  have l4: "0 \<le> fst l4" "0 \<le> snd l4" using p4 by simp_all
  note p5 = take_budget_props [OF 5 l4]
  let ?messages = "messages_size b" and ?summary = "summary_size b"
    and ?memories = "memories_size txt b" and ?artifacts = "artifacts_size txt b"
  note sizes = messages_size_def summary_size_def memories_size_def artifacts_size_def
  have rev: "?messages = cost message_text recent"
    unfolding sizes b by (simp add: rev_map [symmetric] sum_list_rev)
  have tok: "0 \<le> token_sum message_text recent"
    "0 \<le> token_sum (\<lambda>item. content_text txt (mem_content item)) mems"
    "0 \<le> token_sum (\<lambda>item. json_dumps (float_text txt) (JObj (art_payload item))) arts"
    by (rule token_sum_nonneg)+
  have cst: "0 \<le> cost message_text recent" "0 \<le> ?summary" "0 \<le> ?memories" "0 \<le> ?artifacts"
    using cost_nonneg unfolding sizes by (auto split: option.splits)
  have "fst l5 = fst l1 - ?messages - ?summary - ?memories - ?artifacts"
    using p2 p4 p5 l3(4) unfolding rev sizes(2-4) b by linarith
  moreover have "snd l5 \<le> snd l1" using p2 p4 p5 l3(3) tok by linarith
  moreover have "?messages \<le> cb_message_characters cb" "?memories \<le> cb_memory_characters cb"
    "?artifacts \<le> cb_artifact_characters cb"
    using p2 p4 p5 assms(3-5) unfolding rev sizes(2-4) b by simp_all
  moreover have "bundle_latest_summary b \<noteq> None \<longrightarrow> ?summary \<le> cb_summary_characters cb"
    using l3(5) unfolding sizes b by (auto split: option.splits)
  ultimately show ?thesis using l1 l7 cst rev unfolding b by linarith
qed



section \<open>Scope\<close>

lemma deduplicate_props:
  "keyed (memory_key py) (deduplicate py ms) \<and> set (dict_values (deduplicate py ms)) \<subseteq> set ms"
proof (induction ms rule: rev_induct)
  case Nil
  then show ?case by (simp add: deduplicate_def)
next
  case (snoc m ms)
  let ?d = "deduplicate py ms"
  have step: "deduplicate py (ms @ [m]) = ?d \<or> deduplicate py (ms @ [m]) = dict_set ?d (memory_key py m) m"
    by (auto simp: deduplicate_def split: option.splits)
  have "set (dict_values (dict_set ?d (memory_key py m) m)) \<subseteq> insert m (set (dict_values ?d))"
    using set_dict_set [of ?d "memory_key py m" m] by force
  moreover have "keyed (memory_key py) (dict_set ?d (memory_key py m) m)" using snoc by simp
  ultimately show ?case using step
  proof (elim disjE)
    assume "deduplicate py (ms @ [m]) = ?d"
    then show ?thesis using snoc by (simp only:) (simp, blast)
  next
    assume "deduplicate py (ms @ [m]) = dict_set ?d (memory_key py m) m"
    then show ?thesis using snoc \<open>keyed _ (dict_set ?d (memory_key py m) m)\<close>
        \<open>set (dict_values (dict_set ?d (memory_key py m) m)) \<subseteq> _\<close> by (simp only: set_append list.set) blast
  qed
qed

lemma candidate_memories_props:
  assumes "m \<in> set (candidate_memories py srcs t now)"
  shows "memory_listable (th_workspace_id t) (th_owner_user_id t) (th_project_id t) (Some (th_id t)) False now m
    \<and> in_scope t m
    \<and> \<not> pref_opted_out (get_preference (src_memories srcs) (th_workspace_id t) (th_owner_user_id t) now)"
proof (cases "pref_opted_out (get_preference (src_memories srcs) (th_workspace_id t) (th_owner_user_id t) now)")
  case True
  with assms show ?thesis by (simp add: candidate_memories_def deduplicate_def)
next
  case False
  let ?L = "memory_list (src_memories srcs) (th_workspace_id t) (th_owner_user_id t)
      (th_project_id t) (Some (th_id t)) False 500 now"
  from False assms have "m \<in> set (dict_values (deduplicate py (filter (in_scope t) ?L)))"
    by (simp add: candidate_memories_def Let_def)
  then have "m \<in> set (filter (in_scope t) ?L)" using deduplicate_props by blast
  with False show ?thesis using memory_list_listable by fastforce
qed

lemma subseq_distinct_map: "subseq xs ys \<Longrightarrow> distinct (map f ys) \<Longrightarrow> distinct (map f xs)"
  by (auto simp: subseq_conv_nths distinct_map distinct_nthsI dest: inj_on_subset [OF _ set_nths_subset])

lemma subseq_subset: "subseq xs ys \<Longrightarrow> x \<in> set xs \<Longrightarrow> x \<in> set ys"
  by (auto simp: subseq_conv_nths dest: in_set_nthsD)

lemma subseq_rev: "subseq xs ys \<Longrightarrow> subseq (rev xs) (rev ys)"
  by (induction rule: list_emb.induct) (auto simp: subseq_rev_drop_many list_emb_append_mono)

text \<open>
  A context holds only what its thread may see: every chosen memory belongs to the thread's
  tenant, is active and currently valid, and is in scope (the user's own, or of the thread's
  project, or of the thread itself); no fact appears twice; a user who opted out contributes no
  memory at all; and the chosen messages are messages of the thread in their order.
\<close>

theorem context_is_in_scope:
  assumes "0 \<le> cb_total_characters cb" "0 \<le> cb_total_tokens cb"
    and b_def: "b = build txt scorer cb srcs t query cfg permissions now"
  shows "(\<forall>m \<in> set (bundle_memories b). mem_workspace_id m = th_workspace_id t
        \<and> mem_owner_user_id m = th_owner_user_id t \<and> mem_deleted_at m = None \<and> memory_current now m \<and> in_scope t m)
    \<and> distinct (map (memory_key (obj_text txt)) (bundle_memories b))
    \<and> (pref_opted_out (get_preference (src_memories srcs) (th_workspace_id t) (th_owner_user_id t) now)
        \<longrightarrow> bundle_memories b = [])
    \<and> subseq (bundle_recent_messages b) (message_list_for_thread (src_messages srcs) (th_id t) 500)"
proof -
  let ?c = "candidate_memories (obj_text txt) srcs t now"
  let ?r = "rank_memories scorer query now ?c"
  obtain l1 l2 l3 l4 recent where
    l1: "0 \<le> fst l1" "0 \<le> snd l1"
    and 2: "take_budget message_text (cb_message_characters cb)
       (rev (message_list_for_thread (src_messages srcs) (th_id t) 500)) l1 = (recent, l2)"
    and l3: "0 \<le> fst l3" "0 \<le> snd l3"
    and 4: "take_budget (\<lambda>item. content_text txt (mem_content item)) (cb_memory_characters cb) ?r l3 =
       (bundle_memories b, l4)"
    and recent: "bundle_recent_messages b = rev recent"
    unfolding b_def
    by (rule build_stages [OF assms(1,2), of srcs t "txt" scorer query now cfg permissions]) blast
  have sub: "subseq (bundle_memories b) ?r" using take_budget_props [OF 4 l3] by blast
  have set_r: "set ?r = set ?c" by (simp add: rank_memories_def Let_def)
  have mem: "m \<in> set ?c" if "m \<in> set (bundle_memories b)" for m
    using subseq_subset [OF sub that] set_r by simp
  have "distinct (map (memory_key (obj_text txt)) ?c)"
    unfolding candidate_memories_def Let_def
    using keyed_distinct_values [OF conjunct1 [OF deduplicate_props]] by blast
  moreover have "mset (map (memory_key (obj_text txt)) ?r) = mset (map (memory_key (obj_text txt)) ?c)"
    unfolding mset_map by (simp add: rank_memories_def Let_def)
  ultimately have "distinct (map (memory_key (obj_text txt)) ?r)" using mset_eq_imp_distinct_iff by blast
  then have dist: "distinct (map (memory_key (obj_text txt)) (bundle_memories b))"
    using sub subseq_distinct_map by blast
  have "subseq (rev recent) (rev (rev (message_list_for_thread (src_messages srcs) (th_id t) 500)))"
    using take_budget_props [OF 2 l1] by (intro subseq_rev) blast
  with mem candidate_memories_props [of _ "obj_text txt" srcs t now] dist recent show ?thesis
    by (auto simp: memory_listable_def memory_list_def) (metis list.set_intros(1) neq_Nil_conv)
qed

section \<open>Summaries\<close>

lemma length_join: "xs \<noteq> [] \<Longrightarrow> length (join [c] xs) + 1 = (\<Sum>x\<leftarrow>xs. length x + 1)"
  by (induction "[c]" xs rule: join.induct) auto

lemma int_sum_list: "int (\<Sum>x\<leftarrow>xs. f x + 1) = (\<Sum>x\<leftarrow>xs. int (f x) + 1)"
  by (induction xs) simp_all

lemma summary_prefix_props:
  "prefix (summary_prefix e r ms) ms
   \<and> (summary_prefix e r ms \<noteq> [] \<longrightarrow> (\<Sum>m\<leftarrow>summary_prefix e r ms. int (length (summary_line e m)) + 1) \<le> r + 1)"
proof (induction ms arbitrary: r)
  case (Cons m ms)
  let ?n = "int (length (summary_line e m))"
  show ?case
  proof (cases "?n > r")
    case False
    with Cons.IH [of "r - (?n + 1)"] show ?thesis
      by (cases "summary_prefix e (r - (?n + 1)) ms") (auto simp: Let_def)
  qed simp
qed simp

text \<open>
  A thread summary is faithful and bounded: it covers a prefix, in order, of the thread's
  messages that have text, consists of exactly their lines, stays within the character limit
  (of at least one), and says whether it left messages out.
\<close>

theorem summary_is_faithful_prefix:
  assumes "dict_get items new_id = None"
    and "summarize py new_id now t messages limit mode items = (s, items')"
  shows "\<exists>used. prefix used (summary_source t messages) \<and> sum_covered_message_ids s = map msg_id used
    \<and> sum_summary s = join [char_of (10 :: nat)] (map (summary_line (mode = ''extractive'')) used)
    \<and> int (length (sum_summary s)) \<le> max 1 limit
    \<and> dict_get (sum_metadata s) ''truncated'' = Some (JBool (used \<noteq> summary_source t messages))
    \<and> dict_get items' new_id = Some s"
proof -
  let ?e = "mode = ''extractive''"
  define source where "source = summary_source t messages"
  define used where "used = summary_prefix ?e (max 1 limit) source"
  have pre: "prefix used source"
    "used \<noteq> [] \<longrightarrow> (\<Sum>m\<leftarrow>used. int (length (summary_line ?e m)) + 1) \<le> max 1 limit + 1"
    unfolding used_def using summary_prefix_props by blast+
  have len: "int (length (join [char_of (10 :: nat)] (map (summary_line ?e) used))) \<le> max 1 limit"
  proof (cases "used = []")
    case False
    let ?j = "join [char_of (10 :: nat)] (map (summary_line ?e) used)"
    have "int (length ?j + 1) = (\<Sum>m\<leftarrow>used. int (length (summary_line ?e m)) + 1)"
      using length_join [of "map (summary_line ?e) used" "char_of (10 :: nat)"] False
        int_sum_list [of "\<lambda>m. length (summary_line ?e m)" used] by (simp add: comp_def)
    with pre(2) False show ?thesis by simp
  qed simp
  have trunc: "(length used < length source) = (used \<noteq> source)"
    using pre(1) prefix_length_le [OF pre(1)] by (auto simp: prefix_def)
  from assms(1,2) have "sum_covered_message_ids s = map msg_id used"
    "sum_summary s = join [char_of (10 :: nat)] (map (summary_line ?e) used)"
    "sum_metadata s = [(''faithful'', JBool True), (''truncated'', JBool (length used < length source))]"
    "dict_get items' new_id = Some s"
    by (auto simp: summarize_def Let_def summary_create_def used_def source_def)
  with pre(1) len trunc show ?thesis unfolding source_def by (intro exI [of _ used]) simp
qed

section \<open>Concrete contexts\<close>

definition sample_builder :: context_builder where
  "sample_builder = make_builder 12000 5000 2500 3000 1500 None"

definition sample_sources :: context_sources where
  "sample_sources = \<lparr>src_messages = [], src_summaries = [], src_memories = sample_memories, src_artifacts = []\<rparr>"

definition plain_text :: py_text where
  "plain_text = \<lparr>float_text = (\<lambda>_. ''0.0''), obj_text = (\<lambda>_. ''{}'')\<rparr>"

lemma sample_builder_simps:
  "cb_total_characters sample_builder = 12000" "cb_total_tokens sample_builder = 4000"
  "cb_message_characters sample_builder = 5000" "cb_memory_characters sample_builder = 3000"
  "cb_artifact_characters sample_builder = 1500"
  by (simp_all add: sample_builder_def make_builder_def)

theorem context_stays_in_budget_witness:
  "bundle_character_count (build plain_text None sample_builder sample_sources (sample_thread ''t1'' ''u'' 1) ''spend'' [] [] 5)
     \<le> 12000
   \<and> memories_size plain_text (build plain_text None sample_builder sample_sources (sample_thread ''t1'' ''u'' 1) ''spend'' [] [] 5)
     \<le> 3000"
  using context_stays_in_budget [of sample_builder _ plain_text None sample_sources "sample_thread ''t1'' ''u'' 1"
      "''spend''" "[]" "[]" 5, OF _ _ _ _ _ refl]
  by (simp add: sample_builder_simps)

theorem context_is_in_scope_witness:
  "list_all (\<lambda>m. memory_current 5 m \<and> mem_owner_user_id m = th_owner_user_id (sample_thread ''t1'' ''u'' 1))
     (bundle_memories (build plain_text None sample_builder sample_sources (sample_thread ''t1'' ''u'' 1) ''spend'' [] [] 5))"
  using context_is_in_scope [of sample_builder _ plain_text None sample_sources "sample_thread ''t1'' ''u'' 1"
      "''spend''" "[]" "[]" 5, OF _ _ refl]
  by (simp add: sample_builder_simps list_all_iff)

theorem summary_is_faithful_prefix_witness:
  "\<exists>s items'. summarize (\<lambda>_. []) ''s1'' 5 (sample_thread ''t1'' ''u'' 1) [] 100 ''extractive'' [] = (s, items')
     \<and> dict_get items' ''s1'' = Some s \<and> int (length (sum_summary s)) \<le> 100"
proof -
  obtain s items' where eq: "summarize (\<lambda>_. []) ''s1'' 5 (sample_thread ''t1'' ''u'' 1) [] 100 ''extractive'' [] = (s, items')"
    by (meson surj_pair)
  from summary_is_faithful_prefix [OF _ this] eq show ?thesis by auto
qed

end
