(* ===== verification/Approvals.thy ===== *)
theory Approvals
  imports Run_Store
begin

text \<open>
  Approvals and the actions they gate: \<^verbatim>\<open>InMemoryApprovalRepository\<close>,
  \<^verbatim>\<open>transition_approval\<close>, \<^verbatim>\<open>ActionExecutionService\<close> and \<^verbatim>\<open>ApprovalExpiryService\<close> of
  \<^verbatim>\<open>src/seleric_swarm/conversations/phase7.py\<close>, and the endpoints of
  \<^verbatim>\<open>src/seleric_swarm/api/phase7.py\<close> that use them. The executors are adapters the deployment
  plugs in: the argument \<open>executors\<close>. Every call the service makes to an executor or to the
  checkpoint hook is written to the log \<open>aw_calls\<close> of the world, so that a theorem can say which
  side effects happened, also when the service then raises.
\<close>

section \<open>InMemoryApprovalRepository\<close>

record approval_store =
  as_items :: "approval_request store"
  as_events :: "(string, approval_decision_event list) dict"
  as_rollbacks :: "rollback_record store"

definition empty_approval_store :: approval_store where
  "empty_approval_store = \<lparr>as_items = [], as_events = [], as_rollbacks = []\<rparr>"

definition approval_get_by_idempotency ::
  "approval_store \<Rightarrow> string \<Rightarrow> string \<Rightarrow> string \<Rightarrow> approval_request option" where
  "approval_get_by_idempotency st ws owner key =
     find (\<lambda>item. ap_workspace_id item = ws \<and> ap_owner_user_id item = owner
       \<and> ap_idempotency_key item = key) (dict_values (as_items st))"

definition requested_event :: "string \<Rightarrow> approval_request \<Rightarrow> approval_decision_event" where
  "requested_event eid a = \<lparr>dec_id = eid, dec_approval_id = ap_id a, dec_from_status = None,
     dec_to_status = REQUESTED, dec_actor_principal_id = ap_owner_user_id a, dec_reason = None,
     dec_metadata = [(''audit_kind'', JStr ''REQUESTED'')], dec_created_at = ap_created_at a\<rparr>"

definition approval_create ::
  "string \<Rightarrow> approval_request \<Rightarrow> approval_store \<Rightarrow> approval_request \<times> approval_store" where
  "approval_create eid a st =
     (case approval_get_by_idempotency st (ap_workspace_id a) (ap_owner_user_id a) (ap_idempotency_key a) of
        Some existing \<Rightarrow> (existing, st)
      | None \<Rightarrow> (a, st\<lparr>as_items := dict_set (as_items st) (ap_id a) a,
                      as_events := dict_set (as_events st) (ap_id a) [requested_event eid a]\<rparr>))"

definition approval_get :: "approval_store \<Rightarrow> string \<Rightarrow> string \<Rightarrow> string \<Rightarrow> approval_request option" where
  "approval_get st aid ws owner =
     (case dict_get (as_items st) aid of
        None \<Rightarrow> None
      | Some item \<Rightarrow> if ap_workspace_id item \<noteq> ws \<or> ap_owner_user_id item \<noteq> owner
                     then None else Some item)"

definition approval_get_for_workspace ::
  "approval_store \<Rightarrow> string \<Rightarrow> string \<Rightarrow> approval_request option" where
  "approval_get_for_workspace st aid ws =
     (case dict_get (as_items st) aid of
        None \<Rightarrow> None
      | Some item \<Rightarrow> if ap_workspace_id item = ws then Some item else None)"

definition approval_events :: "approval_store \<Rightarrow> string \<Rightarrow> approval_decision_event list" where
  "approval_events st aid = (case dict_get (as_events st) aid of None \<Rightarrow> [] | Some es \<Rightarrow> es)"

definition approval_transition ::
  "string \<Rightarrow> approval_status \<Rightarrow> approval_request \<Rightarrow> approval_decision_event \<Rightarrow> approval_store
     \<Rightarrow> approval_request option \<times> approval_store" where
  "approval_transition aid expected_status a event st =
     (case dict_get (as_items st) aid of
        None \<Rightarrow> (None, st)
      | Some current \<Rightarrow>
          if ap_status current \<noteq> expected_status then (None, st)
          else (Some a, st\<lparr>as_items := dict_set (as_items st) aid a,
                 as_events := dict_set (as_events st) aid (approval_events st aid @ [event])\<rparr>))"

definition add_rollback :: "rollback_record \<Rightarrow> approval_store \<Rightarrow> rollback_record \<times> approval_store" where
  "add_rollback r st =
     (let items = dict_setdefault (as_rollbacks st) (rb_id r) r in
      (case dict_get items (rb_id r) of Some e \<Rightarrow> e | None \<Rightarrow> r, st\<lparr>as_rollbacks := items\<rparr>))"

definition get_rollback :: "approval_store \<Rightarrow> string \<Rightarrow> rollback_record option" where
  "get_rollback st aid = find (\<lambda>item. rb_approval_id item = aid) (dict_values (as_rollbacks st))"

definition list_due :: "approval_store \<Rightarrow> moment \<Rightarrow> approval_request list" where
  "list_due st now =
     filter (\<lambda>item. ap_status item \<in> {REQUESTED, APPROVED}
       \<and> (case ap_expires_at item of None \<Rightarrow> False | Some t \<Rightarrow> t \<le> now)) (dict_values (as_items st))"

section \<open>transition_approval\<close>

fun allowed_targets :: "approval_status \<Rightarrow> approval_status set" where
  "allowed_targets REQUESTED = {APPROVED, REJECTED, EXPIRED, APPROVAL_CANCELLED}"
| "allowed_targets APPROVED = {EXECUTED, EXPIRED, APPROVAL_CANCELLED}"
| "allowed_targets EXECUTED = {ROLLED_BACK}"
| "allowed_targets _ = {}"

definition has_role :: "principal \<Rightarrow> string \<Rightarrow> bool" where
  "has_role p role = (str_lower role \<in> set (map str_lower (roles p)))"

text \<open>An overdue approval turns every request but a cancellation into its expiry.\<close>

definition effective_target :: "approval_request \<Rightarrow> approval_status \<Rightarrow> moment \<Rightarrow> approval_status" where
  "effective_target a target now =
     (if (case ap_expires_at a of None \<Rightarrow> False | Some t \<Rightarrow> t \<le> now)
         \<and> target \<notin> {EXPIRED, APPROVAL_CANCELLED}
      then EXPIRED else target)"

definition transition_approval ::
  "string \<Rightarrow> moment \<Rightarrow> approval_request \<Rightarrow> approval_status \<Rightarrow> principal \<Rightarrow> string option \<Rightarrow> bool \<Rightarrow> moment
     \<Rightarrow> approval_store \<Rightarrow> approval_request result \<times> approval_store" where
  "transition_approval eid clock a target p reason allow_write_actions now st =
     (if \<not> can_access_workspace p (ap_workspace_id a)
      then (Inl (PermissionError ''approval belongs to another workspace''), st)
      else if target = APPROVAL_CANCELLED \<and> user_id p \<noteq> ap_owner_user_id a \<and> \<not> is_admin p
      then (Inl (PermissionError ''only the requester can cancel this approval''), st)
      else let target = effective_target a target now in
      if target \<notin> allowed_targets (ap_status a)
      then (Inl (ValueError ''invalid approval transition''), st)
      else if target \<in> {APPROVED, REJECTED} \<and> \<not> has_role p (ap_required_role a) \<and> \<not> is_admin p
      then (Inl (PermissionError ''role is required''), st)
      else if target = EXECUTED \<and> ap_status a \<noteq> APPROVED
      then (Inl (PermissionError ''unapproved actions cannot execute''), st)
      else if target = EXECUTED \<and> \<not> allow_write_actions
      then (Inl (PermissionError ''write actions are disabled''), st)
      else if target = EXECUTED \<and> ap_dry_run a
      then (Inl (PermissionError ''dry-run approvals cannot execute''), st)
      else let
        updated = a\<lparr>ap_status := target, ap_updated_at := now\<rparr>;
        event = \<lparr>dec_id = eid, dec_approval_id = ap_id a, dec_from_status = Some (ap_status a),
          dec_to_status = target, dec_actor_principal_id = principal_id p, dec_reason = reason,
          dec_metadata = [], dec_created_at = clock\<rparr>;
        (persisted, st') = approval_transition (ap_id a) (ap_status a) updated event st
      in (case persisted of
          None \<Rightarrow> (Inl (RuntimeError ''approval changed concurrently''), st')
        | Some x \<Rightarrow> (Inr x, st')))"

section \<open>ActionExecutionService\<close>

record action_executor =
  ex_preview :: "json_obj \<Rightarrow> json_obj result"
  ex_execute :: "json_obj \<Rightarrow> string \<Rightarrow> json_obj result"
  ex_rollback :: "json_obj \<Rightarrow> json_obj \<Rightarrow> json_obj result"

datatype call = CallExecute string | CallRollback string | CallResume string

record approval_world =
  aw_store :: approval_store
  aw_outcomes :: "(string, json_obj) dict"
  aw_executed :: "approval_request store"
  aw_calls :: "call list"

type_synonym executors = "string \<Rightarrow> action_executor option"

definition dry_run :: "executors \<Rightarrow> approval_request \<Rightarrow> json_obj result" where
  "dry_run executors a =
     (case executors (ap_action_type a) of
        None \<Rightarrow> Inl (LookupError ''no executor for action type'')
      | Some ex \<Rightarrow> ex_preview ex (ap_action_preview a))"

text \<open>
  The clock readings and identifiers of one call: the moment of the transition, the creation
  time of the event, the identifiers of the event and of a rollback record.
\<close>

record stamp =
  st_now :: moment
  st_clock :: moment
  st_event_id :: string
  st_rollback_id :: string

definition execute_action ::
  "executors \<Rightarrow> bool \<Rightarrow> stamp \<Rightarrow> approval_request \<Rightarrow> principal \<Rightarrow> bool \<Rightarrow> approval_world
     \<Rightarrow> (approval_request \<times> json_obj) result \<times> approval_world" where
  "execute_action executors resume_hook s a p allow_write_actions w =
     (if ap_dry_run a
      then (result_bind (dry_run executors a) (\<lambda>preview. Inr (a, preview)), w)
      else if ap_status a = EXECUTED
      then (Inr (a, dict_merge [(''idempotent'', JBool True),
                (''outcome_unavailable'', JBool (dict_get (aw_outcomes w) (ap_id a) = None))]
              (case dict_get (aw_outcomes w) (ap_id a) of None \<Rightarrow> [] | Some out \<Rightarrow> out)), w)
      else (case executors (ap_action_type a) of
          None \<Rightarrow> (Inl (LookupError ''no executor for action type''), w)
        | Some ex \<Rightarrow>
            (case dict_get (aw_outcomes w) (ap_id a) of
               Some out \<Rightarrow>
                 (case dict_get (aw_executed w) (ap_id a) of
                    None \<Rightarrow> (Inl (KeyError (ap_id a)), w)
                  | Some done_before \<Rightarrow> (Inr (done_before, out), w))
             | None \<Rightarrow>
                 let called = w\<lparr>aw_calls := aw_calls w @ [CallExecute (ap_id a)]\<rparr> in
                 (case ex_execute ex (ap_action_preview a) (ap_idempotency_key a) of
                    Inl e \<Rightarrow> (Inl e, called)
                  | Inr outcome \<Rightarrow>
                      (case transition_approval (st_event_id s) (st_clock s) a EXECUTED p None
                           allow_write_actions (st_now s) (aw_store called) of
                         (Inl e, store') \<Rightarrow> (Inl e, called\<lparr>aw_store := store'\<rparr>)
                       | (Inr executed, store') \<Rightarrow>
                           (Inr (executed, outcome), called\<lparr>aw_store := store',
                              aw_outcomes := dict_set (aw_outcomes w) (ap_id a) outcome,
                              aw_executed := dict_set (aw_executed w) (ap_id a) executed,
                              aw_calls := aw_calls called @
                                (case ap_checkpoint_resume_token executed of
                                   Some token \<Rightarrow> if token \<noteq> [] \<and> resume_hook then [CallResume token] else []
                                 | None \<Rightarrow> [])\<rparr>))))))"

fun error_text :: "error \<Rightarrow> string \<times> string" where
  "error_text (PermissionError m) = (''PermissionError'', m)"
| "error_text (KeyError m) = (''KeyError'', m)"
| "error_text (ValueError m) = (''ValueError'', m)"
| "error_text (RuntimeError m) = (''RuntimeError'', m)"
| "error_text (LookupError m) = (''LookupError'', m)"
| "error_text (TypeError m) = (''TypeError'', m)"
| "error_text (OverflowError m) = (''OverflowError'', m)"
| "error_text ZeroDivisionError = (''ZeroDivisionError'', [])"

definition rollback_action ::
  "executors \<Rightarrow> stamp \<Rightarrow> approval_request \<Rightarrow> principal \<Rightarrow> approval_world
     \<Rightarrow> (approval_request \<times> rollback_record) result \<times> approval_world" where
  "rollback_action executors s a p w =
     (case executors (ap_action_type a) of
        None \<Rightarrow> (Inl (LookupError ''no executor for action type''), w)
      | Some ex \<Rightarrow>
          (case get_rollback (aw_store w) (ap_id a) of
             Some existing \<Rightarrow> (Inr (a, existing), w)
           | None \<Rightarrow>
               let original = (case dict_get (aw_outcomes w) (ap_id a) of None \<Rightarrow> [] | Some out \<Rightarrow> out);
                   answer = ex_rollback ex (ap_action_preview a) original;
                   called = w\<lparr>aw_calls := aw_calls w @ [CallRollback (ap_id a)]\<rparr>;
                   outcome = (case answer of
                       Inr compensation \<Rightarrow> [(''compensated'', JBool True), (''result'', JObj compensation)]
                     | Inl e \<Rightarrow> [(''compensated'', JBool False), (''error_type'', JStr (fst (error_text e))),
                                (''error'', JStr (snd (error_text e)))]);
                   (record, store1) = add_rollback
                     \<lparr>rb_id = st_rollback_id s, rb_approval_id = ap_id a,
                      rb_actor_principal_id = principal_id p,
                      rb_action = [(''action_type'', JStr (ap_action_type a)),
                        (''input'', JObj (ap_action_preview a)), (''original_outcome'', JObj original)],
                      rb_outcome = outcome, rb_created_at = st_clock s\<rparr> (aw_store called);
                   recorded = called\<lparr>aw_store := store1\<rparr>
               in (case answer of
                   Inl _ \<Rightarrow> (Inr (a, record), recorded)
                 | Inr _ \<Rightarrow>
                     (case transition_approval (st_event_id s) (st_clock s) a ROLLED_BACK p None False
                          (st_now s) store1 of
                        (Inl e, store2) \<Rightarrow> (Inl e, recorded\<lparr>aw_store := store2\<rparr>)
                      | (Inr rolled_back, store2) \<Rightarrow> (Inr (rolled_back, record), recorded\<lparr>aw_store := store2\<rparr>)))))"

section \<open>ApprovalExpiryService\<close>

definition expiry_principal :: "approval_request \<Rightarrow> principal result" where
  "expiry_principal a = make_principal
     \<lparr>principal_id = ''approval-expiry'', workspace_id = ap_workspace_id a, user_id = ''approval-expiry'',
      authenticated = True, auth_method = ANONYMOUS, roles = [''internal'']\<rparr>"

text \<open>
  The sweep: a concurrent change (\<^verbatim>\<open>RuntimeError\<close>) skips an approval, any other exception ends the
  sweep and leaves what it did.
\<close>

fun sweep_items ::
  "(approval_request \<Rightarrow> string) \<Rightarrow> moment \<Rightarrow> moment \<Rightarrow> approval_request list \<Rightarrow> nat \<Rightarrow> approval_store
     \<Rightarrow> nat result \<times> approval_store" where
  "sweep_items eid clock now [] n st = (Inr n, st)"
| "sweep_items eid clock now (a # rest) n st =
     (case expiry_principal a of
        Inl e \<Rightarrow> (Inl e, st)
      | Inr system \<Rightarrow>
          (case transition_approval (eid a) clock a EXPIRED system (Some ''scheduled expiry'') False now st of
             (Inr _, st') \<Rightarrow> sweep_items eid clock now rest (n + 1) st'
           | (Inl (RuntimeError _), st') \<Rightarrow> sweep_items eid clock now rest n st'
           | (Inl e, st') \<Rightarrow> (Inl e, st')))"

definition sweep ::
  "(approval_request \<Rightarrow> string) \<Rightarrow> moment \<Rightarrow> moment \<Rightarrow> approval_store \<Rightarrow> nat result \<times> approval_store" where
  "sweep eid clock now st = sweep_items eid clock now (list_due st now) 0 st"

section \<open>Endpoints\<close>

text \<open>An HTTP answer other than success carries its status code.\<close>

type_synonym 'a http = "nat + 'a"

definition approval_for_principal ::
  "approval_store \<Rightarrow> string \<Rightarrow> principal \<Rightarrow> approval_request option" where
  "approval_for_principal st aid p =
     (case approval_get st aid (workspace_id p) (user_id p) of
        Some a \<Rightarrow> Some a
      | None \<Rightarrow>
          (case approval_get_for_workspace st aid (workspace_id p) of
             None \<Rightarrow> None
           | Some a \<Rightarrow> if \<not> has_role p (ap_required_role a) \<and> \<not> is_admin p then None else Some a))"

record approval_body =
  body_action_type :: string
  body_action_preview :: json_obj
  body_required_role :: string
  body_idempotency_key :: string
  body_run_id :: "string option"
  body_dry_run :: bool
  body_checkpoint_resume_token :: "string option"
  body_expires_in_seconds :: nat

definition create_approval ::
  "run store \<Rightarrow> string \<Rightarrow> stamp \<Rightarrow> approval_body \<Rightarrow> principal \<Rightarrow> approval_world
     \<Rightarrow> approval_request http \<times> approval_world" where
  "create_approval runs new_id s body p w =
     (if \<not> authenticated p then (Inl 401, w)
      else if str_truthy (body_run_id body) \<and>
        (case run_get runs (case body_run_id body of Some r \<Rightarrow> r | None \<Rightarrow> []) None None of
           None \<Rightarrow> True
         | Some r \<Rightarrow> \<not> owns p (run_workspace_id r) (run_requested_by_user_id r))
      then (Inl 404, w)
      else let
        a = \<lparr>ap_id = new_id, ap_workspace_id = workspace_id p, ap_owner_user_id = user_id p,
          ap_run_id = body_run_id body, ap_action_type = body_action_type body,
          ap_action_preview = body_action_preview body, ap_required_role = body_required_role body,
          ap_status = REQUESTED, ap_idempotency_key = body_idempotency_key body,
          ap_dry_run = body_dry_run body,
          ap_checkpoint_resume_token = body_checkpoint_resume_token body,
          ap_expires_at = Some (st_now s + timedelta_seconds (of_nat (body_expires_in_seconds body))),
          ap_created_at = st_clock s, ap_updated_at = st_clock s\<rparr>;
        (created, st') = approval_create (st_event_id s) a (aw_store w)
      in (Inr created, w\<lparr>aw_store := st'\<rparr>))"

datatype decision = Decide_APPROVED | Decide_REJECTED | Decide_CANCELLED | Decide_EXECUTED | Decide_ROLLED_BACK

fun decision_status :: "decision \<Rightarrow> approval_status" where
  "decision_status Decide_APPROVED = APPROVED"
| "decision_status Decide_REJECTED = REJECTED"
| "decision_status Decide_CANCELLED = APPROVAL_CANCELLED"
| "decision_status Decide_EXECUTED = EXECUTED"
| "decision_status Decide_ROLLED_BACK = ROLLED_BACK"

text \<open>
  The exception handlers of \<^verbatim>\<open>decide_approval\<close>; \<^verbatim>\<open>KeyError\<close> is a \<^verbatim>\<open>LookupError\<close>, and what no
  handler names is a server error.
\<close>

fun http_error :: "error \<Rightarrow> nat" where
  "http_error (PermissionError _) = 403"
| "http_error (LookupError _) = 503"
| "http_error (KeyError _) = 503"
| "http_error (ValueError _) = 409"
| "http_error (RuntimeError _) = 409"
| "http_error (TypeError _) = 500"
| "http_error (OverflowError _) = 500"
| "http_error ZeroDivisionError = 500"

record approval_settings =
  set_executors :: "executors option"
  set_resume_hook :: bool
  set_allow_write_actions :: bool

definition decide_approval ::
  "approval_settings \<Rightarrow> (approval_request \<Rightarrow> string) \<Rightarrow> stamp \<Rightarrow> string \<Rightarrow> decision \<Rightarrow> string option
     \<Rightarrow> principal \<Rightarrow> approval_world \<Rightarrow> approval_request http \<times> approval_world" where
  "decide_approval cfg eid s aid decision reason p w =
     (if \<not> authenticated p then (Inl 401, w)
      else let (swept, st1) = sweep eid (st_clock s) (st_now s) (aw_store w); w1 = w\<lparr>aw_store := st1\<rparr> in
      (case swept of
         Inl _ \<Rightarrow> (Inl 500, w1)
       | Inr _ \<Rightarrow>
         (case approval_for_principal st1 aid p of
            None \<Rightarrow> (Inl 404, w1)
          | Some a \<Rightarrow>
              (case decision of
                 Decide_EXECUTED \<Rightarrow>
                   (case set_executors cfg of
                      None \<Rightarrow> (Inl 503, w1)
                    | Some exs \<Rightarrow>
                        let (r, w2) = execute_action exs (set_resume_hook cfg) s a p
                              (set_allow_write_actions cfg) w1
                        in (case r of Inl e \<Rightarrow> Inl (http_error e) | Inr (updated, _) \<Rightarrow> Inr updated, w2))
               | Decide_ROLLED_BACK \<Rightarrow>
                   (case set_executors cfg of
                      None \<Rightarrow> (Inl 503, w1)
                    | Some exs \<Rightarrow>
                        let (r, w2) = rollback_action exs s a p w1
                        in (case r of Inl e \<Rightarrow> Inl (http_error e) | Inr (updated, _) \<Rightarrow> Inr updated, w2))
               | _ \<Rightarrow>
                   let (r, st2) = transition_approval (st_event_id s) (st_clock s) a (decision_status decision)
                         p reason (set_allow_write_actions cfg) (st_now s) st1
                   in (case r of Inl e \<Rightarrow> Inl (http_error e) | Inr updated \<Rightarrow> Inr updated,
                       w1\<lparr>aw_store := st2\<rparr>)))))"

section \<open>The audit trail\<close>

text \<open>
  A trail starts with the request, each entry continues where the one before ended along an
  allowed transition, and the last entry names the present status.
\<close>

definition hop :: "approval_decision_event \<Rightarrow> approval_decision_event \<Rightarrow> bool" where
  "hop x y = (dec_from_status y = Some (dec_to_status x) \<and> dec_to_status y \<in> allowed_targets (dec_to_status x))"

definition audited :: "approval_decision_event list \<Rightarrow> approval_status \<Rightarrow> bool" where
  "audited es s = (es \<noteq> [] \<and> dec_from_status (hd es) = None \<and> dec_to_status (hd es) = REQUESTED
     \<and> successively hop es \<and> dec_to_status (last es) = s)"

definition store_audited :: "approval_store \<Rightarrow> bool" where
  "store_audited st = (keyed ap_id (as_items st) \<and>
     (\<forall>aid a. dict_get (as_items st) aid = Some a \<longrightarrow> audited (approval_events st aid) (ap_status a)))"

lemma audited_extend:
  "audited es s \<Longrightarrow> dec_from_status e = Some s \<Longrightarrow> dec_to_status e \<in> allowed_targets s \<Longrightarrow>
     audited (es @ [e]) (dec_to_status e)"
  by (simp add: audited_def successively_append_iff hop_def)

text \<open>What a transition does to the store.\<close>

lemma transition_cases:
  obtains e where "transition_approval eid clock a target p reason allow now st = (Inl e, st)"
  | current ev where
      "transition_approval eid clock a target p reason allow now st =
        (Inr (a\<lparr>ap_status := effective_target a target now, ap_updated_at := now\<rparr>),
         st\<lparr>as_items := dict_set (as_items st) (ap_id a)
               (a\<lparr>ap_status := effective_target a target now, ap_updated_at := now\<rparr>),
            as_events := dict_set (as_events st) (ap_id a) (approval_events st (ap_id a) @ [ev])\<rparr>)"
      "dict_get (as_items st) (ap_id a) = Some current" "ap_status current = ap_status a"
      "dec_from_status ev = Some (ap_status a)" "dec_to_status ev = effective_target a target now"
      "effective_target a target now \<in> allowed_targets (ap_status a)"
      "can_access_workspace p (ap_workspace_id a)"
      "effective_target a target now \<in> {APPROVED, REJECTED} \<longrightarrow> has_role p (ap_required_role a) \<or> is_admin p"
      "effective_target a target now = EXECUTED \<longrightarrow> allow \<and> \<not> ap_dry_run a"
proof -
  let ?t = "effective_target a target now"
  let ?a = "a\<lparr>ap_status := ?t, ap_updated_at := now\<rparr>"
  let ?ev = "\<lparr>dec_id = eid, dec_approval_id = ap_id a, dec_from_status = Some (ap_status a),
      dec_to_status = ?t, dec_actor_principal_id = principal_id p, dec_reason = reason,
      dec_metadata = [], dec_created_at = clock\<rparr>"
  let ?call = "transition_approval eid clock a target p reason allow now st"
  show ?thesis
  proof (cases "can_access_workspace p (ap_workspace_id a)
      \<and> \<not> (target = APPROVAL_CANCELLED \<and> user_id p \<noteq> ap_owner_user_id a \<and> \<not> is_admin p)
      \<and> ?t \<in> allowed_targets (ap_status a)
      \<and> \<not> (?t \<in> {APPROVED, REJECTED} \<and> \<not> has_role p (ap_required_role a) \<and> \<not> is_admin p)
      \<and> \<not> (?t = EXECUTED \<and> (ap_status a \<noteq> APPROVED \<or> \<not> allow \<or> ap_dry_run a))")
    case False
    then have "\<exists>e. ?call = (Inl e, st)" by (simp add: transition_approval_def Let_def) blast
    with that(1) show ?thesis by blast
  next
    case True
    then have call: "?call = (case approval_transition (ap_id a) (ap_status a) ?a ?ev st of
        (None, st') \<Rightarrow> (Inl (RuntimeError ''approval changed concurrently''), st')
      | (Some x, st') \<Rightarrow> (Inr x, st'))"
      by (auto simp: transition_approval_def Let_def split: prod.splits option.splits)
    show ?thesis
    proof (cases "\<exists>c. dict_get (as_items st) (ap_id a) = Some c \<and> ap_status c = ap_status a")
      case found: True
      then obtain c where "dict_get (as_items st) (ap_id a) = Some c" "ap_status c = ap_status a" by blast
      with True call show ?thesis by (intro that(2) [of ?ev c]) (auto simp: approval_transition_def)
    next
      case False
      with call have "?call = (Inl (RuntimeError ''approval changed concurrently''), st)"
        by (auto simp: approval_transition_def split: option.splits)
      with that(1) show ?thesis by blast
    qed
  qed
qed

lemma transition_audited:
  assumes ok: "store_audited st"
  shows "store_audited (snd (transition_approval eid clock a target p reason allow now st))"
proof (rule transition_cases [of eid clock a target p reason allow now st], goal_cases)
  case (2 c ev)
  have "audited (approval_events st (ap_id a)) (ap_status a)"
    using ok 2(2,3) unfolding store_audited_def by metis
  from audited_extend [OF this 2(4)] 2(5,6)
  have "audited (approval_events st (ap_id a) @ [ev]) (effective_target a target now)" by simp
  with ok show ?case unfolding 2(1) snd_conv
    by (auto simp: store_audited_def approval_events_def)
qed (use ok in simp)

lemma create_audited:
  "store_audited st \<Longrightarrow> ap_status a = REQUESTED \<Longrightarrow> store_audited (snd (approval_create eid a st))"
  by (auto simp: approval_create_def store_audited_def approval_events_def audited_def requested_event_def
      split: option.splits)

lemma sweep_items_audited: "store_audited st \<Longrightarrow> store_audited (snd (sweep_items eid clock now xs n st))"
proof (induction xs arbitrary: n st)
  case (Cons a xs)
  have "store_audited st'" if "transition_approval e c a t p r b m st = (x, st')" for e c t p r b m x st'
    using transition_audited [OF Cons.prems, of e c a t p r b m] that by simp
  with Cons show ?case by (auto split: sum.splits prod.splits error.splits)
qed simp

lemma rollback_store [simp]:
  "as_items (snd (add_rollback r st)) = as_items st" "as_events (snd (add_rollback r st)) = as_events st"
  by (simp_all add: add_rollback_def Let_def)

lemma audited_rollback: "store_audited st \<Longrightarrow> store_audited (snd (add_rollback r st))"
  by (simp add: store_audited_def approval_events_def)

lemma execute_store:
  "aw_store (snd (execute_action exs hook s a p allow w)) = aw_store w \<or>
   aw_store (snd (execute_action exs hook s a p allow w)) =
     snd (transition_approval (st_event_id s) (st_clock s) a EXECUTED p None allow (st_now s) (aw_store w))"
proof -
  obtain r st' where t: "transition_approval (st_event_id s) (st_clock s) a EXECUTED p None allow (st_now s)
      (aw_store w) = (r, st')" by (meson surj_pair)
  show ?thesis
    by (cases r) (auto simp: execute_action_def Let_def t split: option.splits sum.splits)
qed

lemma rollback_action_store:
  "\<exists>st. (st = aw_store w \<or> (\<exists>r. st = snd (add_rollback r (aw_store w)))) \<and>
    (aw_store (snd (rollback_action exs s a p w)) = st \<or>
     aw_store (snd (rollback_action exs s a p w)) =
       snd (transition_approval (st_event_id s) (st_clock s) a ROLLED_BACK p None False (st_now s) st))"
proof (cases "\<exists>ex. exs (ap_action_type a) = Some ex \<and> get_rollback (aw_store w) (ap_id a) = None")
  case False
  then have "snd (rollback_action exs s a p w) = w"
    by (auto simp: rollback_action_def split: option.splits)
  then show ?thesis by auto
next
  case True
  then obtain ex where ex: "exs (ap_action_type a) = Some ex" "get_rollback (aw_store w) (ap_id a) = None"
    by blast
  define orig where "orig = (case dict_get (aw_outcomes w) (ap_id a) of None \<Rightarrow> [] | Some out \<Rightarrow> out)"
  define ans where "ans = ex_rollback ex (ap_action_preview a) orig"
  define rb where "rb = \<lparr>rb_id = st_rollback_id s, rb_approval_id = ap_id a,
      rb_actor_principal_id = principal_id p, rb_action = [(''action_type'', JStr (ap_action_type a)),
        (''input'', JObj (ap_action_preview a)), (''original_outcome'', JObj orig)],
      rb_outcome = (case ans of
           Inr compensation \<Rightarrow> [(''compensated'', JBool True), (''result'', JObj compensation)]
         | Inl e \<Rightarrow> [(''compensated'', JBool False), (''error_type'', JStr (fst (error_text e))),
                    (''error'', JStr (snd (error_text e)))]), rb_created_at = st_clock s\<rparr>"
  obtain rec st1 where add: "add_rollback rb (aw_store w) = (rec, st1)" by (meson surj_pair)
  obtain r st2 where t: "transition_approval (st_event_id s) (st_clock s) a ROLLED_BACK p None False (st_now s)
      st1 = (r, st2)" by (meson surj_pair)
  have "aw_store (snd (rollback_action exs s a p w)) = (case ans of Inl _ \<Rightarrow> st1 | Inr _ \<Rightarrow> st2)"
    using ex add t
    by (simp add: rollback_action_def Let_def orig_def [symmetric] ans_def [symmetric] rb_def [symmetric]
        split: sum.splits)
  moreover have "st1 = snd (add_rollback rb (aw_store w))" by (simp add: add)
  moreover have "st2 = snd (transition_approval (st_event_id s) (st_clock s) a ROLLED_BACK p None False (st_now s) st1)"
    by (simp add: t)
  ultimately show ?thesis by (cases ans) auto
qed

text \<open>The requests that reach the approvals.\<close>

inductive approval_step :: "approval_settings \<Rightarrow> approval_world \<Rightarrow> approval_world \<Rightarrow> bool" for cfg where
  create: "approval_step cfg w (snd (create_approval runs new_id s body p w))"
| decide: "approval_step cfg w (snd (decide_approval cfg eid s aid d reason p w))"
| sweep: "approval_step cfg w (w\<lparr>aw_store := snd (sweep eid clock now (aw_store w))\<rparr>)"

inductive approval_reachable :: "approval_settings \<Rightarrow> approval_world \<Rightarrow> bool" for cfg where
  init: "approval_reachable cfg
    \<lparr>aw_store = empty_approval_store, aw_outcomes = [], aw_executed = [], aw_calls = []\<rparr>"
| step: "approval_reachable cfg w \<Longrightarrow> approval_step cfg w w' \<Longrightarrow> approval_reachable cfg w'"

text \<open>The store a decision leaves: that of the sweep, or of the one call the decision leads to.\<close>

lemma decide_store:
  obtains (none) "aw_store (snd (decide_approval cfg eid s aid d reason p w)) = aw_store w"
  | (swept) "aw_store (snd (decide_approval cfg eid s aid d reason p w)) =
        snd (sweep eid (st_clock s) (st_now s) (aw_store w))" "authenticated p"
  | (acted) a target re allow st where "authenticated p"
      "approval_for_principal (snd (sweep eid (st_clock s) (st_now s) (aw_store w))) aid p = Some a"
      "st = snd (sweep eid (st_clock s) (st_now s) (aw_store w))
       \<or> (\<exists>r. st = snd (add_rollback r (snd (sweep eid (st_clock s) (st_now s) (aw_store w)))))"
      "aw_store (snd (decide_approval cfg eid s aid d reason p w)) = st \<or>
       aw_store (snd (decide_approval cfg eid s aid d reason p w)) =
        snd (transition_approval (st_event_id s) (st_clock s) a target p re allow (st_now s) st)"
      "target = decision_status d"
proof (cases "authenticated p")
  case False
  then show ?thesis using none by (simp add: decide_approval_def)
next
  case auth: True
  obtain n st1 where sw: "sweep eid (st_clock s) (st_now s) (aw_store w) = (n, st1)" by (meson surj_pair)
  let ?w1 = "w\<lparr>aw_store := st1\<rparr>"
  show ?thesis
  proof (cases "(\<exists>k. n = Inr k) \<and> (\<exists>a. approval_for_principal st1 aid p = Some a)")
    case False
    with auth sw show ?thesis
      by (intro swept; cases n; cases "approval_for_principal st1 aid p")
        (auto simp: decide_approval_def Let_def)
  next
    case True
    then obtain k a where n: "n = Inr k" and a: "approval_for_principal st1 aid p = Some a" by blast
    consider (ex) exs where "d = Decide_EXECUTED" "set_executors cfg = Some exs"
      | (rb) exs where "d = Decide_ROLLED_BACK" "set_executors cfg = Some exs"
      | (noex) "d \<in> {Decide_EXECUTED, Decide_ROLLED_BACK}" "set_executors cfg = None"
      | (plain) "d \<in> {Decide_APPROVED, Decide_REJECTED, Decide_CANCELLED}"
      by (cases d; cases "set_executors cfg") auto
    then show ?thesis
    proof cases
      case ex
      then have "aw_store (snd (decide_approval cfg eid s aid d reason p w)) =
          aw_store (snd (execute_action exs (set_resume_hook cfg) s a p (set_allow_write_actions cfg) ?w1))"
        using auth sw n a by (simp add: decide_approval_def Let_def split_beta)
      with execute_store [of exs "set_resume_hook cfg" s a p "set_allow_write_actions cfg" ?w1] auth a sw ex
      show ?thesis by (intro acted [of a st1 EXECUTED None "set_allow_write_actions cfg"]) auto
    next
      case rb
      then have eq: "aw_store (snd (decide_approval cfg eid s aid d reason p w)) =
          aw_store (snd (rollback_action exs s a p ?w1))"
        using auth sw n a by (simp add: decide_approval_def Let_def split_beta)
      obtain st where st: "st = st1 \<or> (\<exists>r. st = snd (add_rollback r st1))"
        "aw_store (snd (rollback_action exs s a p ?w1)) = st \<or> aw_store (snd (rollback_action exs s a p ?w1)) =
           snd (transition_approval (st_event_id s) (st_clock s) a ROLLED_BACK p None False (st_now s) st)"
        using rollback_action_store [of ?w1 exs s a p] by auto
      show ?thesis
        by (rule acted [of a st ROLLED_BACK None False]) (use auth a sw rb st eq in simp_all)
    next
      case noex
      with auth sw n a show ?thesis by (intro swept) (auto simp: decide_approval_def Let_def)
    next
      case plain
      then have "aw_store (snd (decide_approval cfg eid s aid d reason p w)) =
          snd (transition_approval (st_event_id s) (st_clock s) a (decision_status d) p reason
            (set_allow_write_actions cfg) (st_now s) st1)"
        using auth sw n a by (auto simp: decide_approval_def Let_def split_beta)
      with auth a sw show ?thesis
        by (intro acted [of a st1 "decision_status d" reason "set_allow_write_actions cfg"]) auto
    qed
  qed
qed

lemma sweep_audited: "store_audited st \<Longrightarrow> store_audited (snd (sweep eid clock now st))"
  by (simp add: sweep_def sweep_items_audited)

lemma approval_step_audited: "approval_step cfg w w' \<Longrightarrow> store_audited (aw_store w) \<Longrightarrow> store_audited (aw_store w')"
proof (induction rule: approval_step.induct)
  case (create w runs new_id s body p)
  have "store_audited st'" if "approval_create e a (aw_store w) = (x, st')" "ap_status a = REQUESTED" for e a x st'
    using create_audited [OF create that(2), of e] that(1) by simp
  with create show ?case by (simp add: create_approval_def Let_def split: prod.splits)
next
  case (decide w eid s aid d reason p)
  show ?case
  proof (rule decide_store [of cfg eid s aid d reason p w])
    fix a target re allow st
    assume st: "st = snd (sweep eid (st_clock s) (st_now s) (aw_store w))
       \<or> (\<exists>r. st = snd (add_rollback r (snd (sweep eid (st_clock s) (st_now s) (aw_store w)))))"
      and eq: "aw_store (snd (decide_approval cfg eid s aid d reason p w)) = st \<or>
       aw_store (snd (decide_approval cfg eid s aid d reason p w)) =
        snd (transition_approval (st_event_id s) (st_clock s) a target p re allow (st_now s) st)"
    from st decide sweep_audited audited_rollback have "store_audited st" by blast
    with eq transition_audited show ?thesis by metis
  qed (use decide sweep_audited in simp_all)
next
  case (sweep w eid clock now)
  then show ?case by (simp add: sweep_audited)
qed

lemma approval_reachable_audited: "approval_reachable cfg w \<Longrightarrow> store_audited (aw_store w)"
proof (induction rule: approval_reachable.induct)
  case init
  then show ?case by (simp add: store_audited_def empty_approval_store_def)
next
  case (step w w')
  then show ?case by (blast intro: approval_step_audited)
qed

lemma allowed_source:
  "EXECUTED \<in> allowed_targets s \<Longrightarrow> s = APPROVED" "ROLLED_BACK \<in> allowed_targets s \<Longrightarrow> s = EXECUTED"
  by (cases s; simp)+

lemma audited_last_hop:
  assumes "audited es s" "s \<noteq> REQUESTED"
  obtains es' t where "audited es' t" "s \<in> allowed_targets t" "set es' \<subseteq> set es"
proof -
  from assms(1) obtain es1 e where es: "es = es1 @ [e]" by (auto simp: audited_def dest: append_butlast_last_id [symmetric])
  with assms have "es1 \<noteq> []" by (auto simp: audited_def)
  with assms(1) es have "audited es1 (dec_to_status (last es1))" "hop (last es1) e" "dec_to_status e = s"
    by (simp_all add: audited_def successively_append_iff)
  with es that show ?thesis by (auto simp: hop_def)
qed

lemma audited_approved:
  assumes "audited es s" "s \<in> {EXECUTED, ROLLED_BACK}"
  shows "\<exists>e \<in> set es. dec_to_status e = APPROVED"
proof -
  have reach: "\<exists>e \<in> set es. dec_to_status e = APPROVED" if ex: "audited es EXECUTED" for es
  proof -
    obtain es' t where "audited es' t" "EXECUTED \<in> allowed_targets t" "set es' \<subseteq> set es"
      by (rule audited_last_hop [OF ex]) simp_all
    then have "dec_to_status (last es') = APPROVED" "last es' \<in> set es"
      using allowed_source by (auto simp: audited_def)
    then show ?thesis by blast
  qed
  show ?thesis
  proof (cases "s = EXECUTED")
    case True
    with assms reach show ?thesis by simp
  next
    case False
    with assms(2) have "s = ROLLED_BACK" by simp
    with assms(1) obtain es' t where "audited es' t" "ROLLED_BACK \<in> allowed_targets t" "set es' \<subseteq> set es"
      by (auto elim: audited_last_hop)
    then show ?thesis using allowed_source(2) reach by blast
  qed
qed

text \<open>
  C9. The audit trail is complete: in every state that requests, decisions and sweeps lead to, the
  events of an approval start with its request, follow one another along allowed transitions
  without a gap, and end in the approval's present status. In particular an approval that is
  shown as executed or rolled back was approved before.
\<close>

theorem audit_trail_is_complete:
  assumes "approval_reachable cfg w" and "dict_get (as_items (aw_store w)) aid = Some a"
  shows "audited (approval_events (aw_store w) aid) (ap_status a)
    \<and> (ap_status a \<in> {EXECUTED, ROLLED_BACK} \<longrightarrow>
        (\<exists>e \<in> set (approval_events (aw_store w) aid). dec_to_status e = APPROVED))"
proof -
  have "audited (approval_events (aw_store w) aid) (ap_status a)"
    using approval_reachable_audited [OF assms(1)] assms(2) by (simp add: store_audited_def)
  with audited_approved show ?thesis by blast
qed

section \<open>Expiry sweep\<close>

definition overdue :: "moment \<Rightarrow> approval_request \<Rightarrow> bool" where
  "overdue now a = (ap_status a \<in> {REQUESTED, APPROVED}
     \<and> (case ap_expires_at a of None \<Rightarrow> False | Some t \<Rightarrow> t \<le> now))"

lemma list_due_overdue: "list_due st now = filter (overdue now) (dict_values (as_items st))"
  by (simp add: list_due_def overdue_def [abs_def])

lemma expiry_transition:
  assumes "str_strip (ap_workspace_id a) \<noteq> []" "dict_get (as_items st) (ap_id a) = Some a" "overdue now a"
  shows "\<exists>system st'. expiry_principal a = Inr system
    \<and> transition_approval eid clock a EXPIRED system reason False now st =
        (Inr (a\<lparr>ap_status := EXPIRED, ap_updated_at := now\<rparr>), st')
    \<and> as_items st' = dict_set (as_items st) (ap_id a) (a\<lparr>ap_status := EXPIRED, ap_updated_at := now\<rparr>)"
proof -
  let ?p = "\<lparr>principal_id = ''approval-expiry'', workspace_id = str_strip (ap_workspace_id a),
      user_id = ''approval-expiry'', authenticated = True, auth_method = ANONYMOUS, roles = [''internal'']\<rparr>"
  have strip: "str_strip ''approval-expiry'' = ''approval-expiry''" by (simp add: str_strip_def is_space_def)
  have lower: "str_lower ''internal'' = ''internal''" by (simp add: str_lower_def lower_char_def)
  have "expiry_principal a = Inr ?p"
    using assms(1) by (simp add: expiry_principal_def make_principal_def identifiers_are_not_blank_def strip Let_def)
  moreover have "can_access_workspace ?p (ap_workspace_id a)"
    by (simp add: can_access_workspace_def is_internal_def lower)
  moreover have "EXPIRED \<in> allowed_targets (ap_status a)" "effective_target a EXPIRED now = EXPIRED"
    using assms(3) by (auto simp: overdue_def effective_target_def)
  ultimately show ?thesis
    using assms(2) by (simp add: transition_approval_def approval_transition_def Let_def)
qed

lemma sweep_items_effect:
  assumes "distinct (map ap_id xs)"
    and "\<forall>a \<in> set xs. str_strip (ap_workspace_id a) \<noteq> [] \<and> dict_get (as_items st) (ap_id a) = Some a \<and> overdue now a"
    and "keyed ap_id (as_items st)"
  shows "\<exists>st'. sweep_items eid clock now xs n st = (Inr (n + length xs), st') \<and> keyed ap_id (as_items st')
    \<and> (\<forall>k. dict_get (as_items st') k = (case find (\<lambda>x. ap_id x = k) xs of
        None \<Rightarrow> dict_get (as_items st) k | Some x \<Rightarrow> Some (x\<lparr>ap_status := EXPIRED, ap_updated_at := now\<rparr>)))"
  using assms
proof (induction xs arbitrary: n st)
  case (Cons a xs)
  from Cons.prems obtain system st1 where one: "expiry_principal a = Inr system"
    "transition_approval (eid a) clock a EXPIRED system (Some ''scheduled expiry'') False now st =
        (Inr (a\<lparr>ap_status := EXPIRED, ap_updated_at := now\<rparr>), st1)"
    "as_items st1 = dict_set (as_items st) (ap_id a) (a\<lparr>ap_status := EXPIRED, ap_updated_at := now\<rparr>)"
    using expiry_transition [of a st now "eid a" clock "Some ''scheduled expiry''"] by auto
  have fresh: "ap_id a \<notin> ap_id ` set xs" and dist: "distinct (map ap_id xs)" using Cons.prems(1) by auto
  have "\<forall>b \<in> set xs. str_strip (ap_workspace_id b) \<noteq> [] \<and> dict_get (as_items st1) (ap_id b) = Some b \<and> overdue now b"
    using Cons.prems(2) fresh by (auto simp: one(3) image_iff)
  from Cons.IH [OF dist this, of "n + 1"] Cons.prems(3) obtain st' where
    st': "sweep_items eid clock now xs (n + 1) st1 = (Inr (n + 1 + length xs), st')" "keyed ap_id (as_items st')"
    "\<And>k. dict_get (as_items st') k = (case find (\<lambda>x. ap_id x = k) xs of
        None \<Rightarrow> dict_get (as_items st1) k | Some x \<Rightarrow> Some (x\<lparr>ap_status := EXPIRED, ap_updated_at := now\<rparr>))"
    by (auto simp: one(3))
  have "find (\<lambda>x. ap_id x = ap_id a) xs = None" using fresh by (auto simp: find_None_iff image_iff)
  with one st' show ?case by (auto split: option.splits)
qed simp

text \<open>
  The expiry sweep is complete: when workspace names are not blank, a sweep succeeds, counts the
  overdue open approvals, marks exactly these \<^verbatim>\<open>EXPIRED\<close> and leaves every other approval as it
  was; afterwards nothing is due.
\<close>

theorem sweep_expires_exactly_the_overdue:
  assumes "keyed ap_id (as_items st)"
    and "\<forall>a \<in> set (list_due st now). str_strip (ap_workspace_id a) \<noteq> []"
  shows "\<exists>st'. sweep eid clock now st = (Inr (length (list_due st now)), st') \<and> list_due st' now = []
    \<and> (\<forall>k a. dict_get (as_items st) k = Some a \<longrightarrow> dict_get (as_items st') k =
        Some (if overdue now a then a\<lparr>ap_status := EXPIRED, ap_updated_at := now\<rparr> else a))"
proof -
  let ?L = "list_due st now"
  have L: "a \<in> set ?L \<longleftrightarrow> dict_get (as_items st) (ap_id a) = Some a \<and> overdue now a" for a
    using keyed_value_get [OF assms(1)] dict_get_SomeD [of "as_items st" "ap_id a" a]
    by (force simp: list_due_overdue)
  have "distinct (map ap_id ?L)"
    using keyed_distinct_values [OF assms(1)] by (simp add: list_due_overdue distinct_map_filter)
  moreover have "\<forall>a \<in> set ?L. str_strip (ap_workspace_id a) \<noteq> [] \<and> dict_get (as_items st) (ap_id a) = Some a
      \<and> overdue now a" using assms(2) L by blast
  ultimately obtain st' where st': "sweep_items eid clock now ?L 0 st = (Inr (0 + length ?L), st')"
    "keyed ap_id (as_items st')"
    "\<And>k. dict_get (as_items st') k = (case find (\<lambda>x. ap_id x = k) ?L of
        None \<Rightarrow> dict_get (as_items st) k | Some x \<Rightarrow> Some (x\<lparr>ap_status := EXPIRED, ap_updated_at := now\<rparr>))"
    using sweep_items_effect assms(1) by blast
  have get: "dict_get (as_items st') k =
      Some (if overdue now a then a\<lparr>ap_status := EXPIRED, ap_updated_at := now\<rparr> else a)"
    if "dict_get (as_items st) k = Some a" for k a
  proof -
    have id: "ap_id a = k" using keyed_get [OF assms(1) that] .
    show ?thesis
    proof (cases "find (\<lambda>x. ap_id x = k) ?L")
      case None
      then have "\<not> overdue now a" using L [of a] that id by (auto simp: find_None_iff)
      with None st'(3) that show ?thesis by simp
    next
      case (Some x)
      then have "x \<in> set ?L" "ap_id x = k" using find_SomeD by fast+
      with L [of x] that have "x = a" "overdue now a" by auto
      with Some st'(3) show ?thesis by simp
    qed
  qed
  have "list_due st' now = []"
  proof (rule ccontr)
    assume "list_due st' now \<noteq> []"
    then obtain b where "b \<in> set (list_due st' now)" by (cases "list_due st' now") auto
    then have b: "dict_get (as_items st') (ap_id b) = Some b" "overdue now b"
      using keyed_value_get [OF st'(2)] by (auto simp: list_due_overdue)
    show False
    proof (cases "dict_get (as_items st) (ap_id b)")
      case None
      with b(1) st'(3) [of "ap_id b"] L obtain x where "find (\<lambda>x. ap_id x = ap_id b) ?L = Some x"
        by (auto split: option.splits)
      then have "x \<in> set ?L" "ap_id x = ap_id b" using find_SomeD by fast+
      with L [of x] None show False by simp
    next
      case (Some a)
      from get [OF Some] b show False by (auto simp: overdue_def split: if_splits)
    qed
  qed
  with st'(1) get show ?thesis by (simp add: sweep_def)
qed

section \<open>Authority\<close>

definition shown_approved :: "approval_store \<Rightarrow> string \<Rightarrow> approval_request \<Rightarrow> bool" where
  "shown_approved st k b = (dict_get (as_items st) k = Some b \<and> ap_status b = APPROVED)"

lemma effective_target_EXPIRED [simp]: "effective_target a EXPIRED now = EXPIRED"
  by (simp add: effective_target_def)

lemma effective_target_APPROVED: "effective_target a t now = APPROVED \<Longrightarrow> t = APPROVED"
  by (auto simp: effective_target_def split: if_splits)

lemma transition_approved:
  assumes "shown_approved (snd (transition_approval eid clock a t p reason allow now st)) k b"
  shows "shown_approved st k b \<or>
    (t = APPROVED \<and> ap_status a = REQUESTED \<and> k = ap_id a
     \<and> b = a\<lparr>ap_status := APPROVED, ap_updated_at := now\<rparr>
     \<and> (has_role p (ap_required_role b) \<or> is_admin p) \<and> can_access_workspace p (ap_workspace_id b))"
proof (rule transition_cases [of eid clock a t p reason allow now st], goal_cases)
  case (2 c ev)
  show ?case
  proof (cases "k = ap_id a \<and> effective_target a t now = APPROVED")
    case True
    then have "t = APPROVED" using effective_target_APPROVED [of a t now] by blast
    moreover have "ap_status a = REQUESTED" using 2(6) True by (cases "ap_status a") auto
    ultimately show ?thesis using True 2 assms by (auto simp: shown_approved_def)
  next
    case False
    with assms show ?thesis unfolding 2(1) by (auto simp: shown_approved_def split: if_splits)
  qed
qed (use assms in simp)

lemma sweep_items_approved:
  "shown_approved (snd (sweep_items eid clock now xs n st)) k b \<Longrightarrow> shown_approved st k b"
proof (induction xs arbitrary: n st)
  case (Cons a xs)
  have back_one: "shown_approved st k b"
    if "transition_approval e c a EXPIRED p r m now st = (x, st')" "shown_approved st' k b" for e c p r m x st'
    using transition_approved [of e c a EXPIRED p r m now st k b] that by auto
  show ?case
  proof (cases "expiry_principal a")
    case (Inl e)
    with Cons.prems show ?thesis by simp
  next
    case (Inr system)
    obtain x st' where t: "transition_approval (eid a) clock a EXPIRED system (Some ''scheduled expiry'') False now st
        = (x, st')" by (meson surj_pair)
    have "shown_approved st' k b"
    proof (cases x)
      case x: (Inl e)
      show ?thesis
        by (cases e) (use Cons.prems Inr t x Cons.IH in \<open>simp_all add: split_beta\<close>)
    next
      case x: (Inr u)
      with Cons.prems Inr t Cons.IH show ?thesis by simp
    qed
    with back_one [OF t] show ?thesis by blast
  qed
qed simp

text \<open>
  C10. Only an authorised decision approves: if a decision request leaves an approval \<^verbatim>\<open>APPROVED\<close> that
  was not approved before, then the request was the decision to approve, made by an
  authenticated principal with access to the approval's workspace who holds the required role or
  is an administrator, and the approval was still open. Neither the sweep that precedes the
  decision nor execution or rollback can approve anything.
\<close>

theorem only_role_holders_approve:
  assumes "shown_approved (aw_store (snd (decide_approval cfg eid s aid d reason p w))) k b"
    and "\<not> shown_approved (aw_store w) k b"
  shows "d = Decide_APPROVED \<and> authenticated p \<and> can_access_workspace p (ap_workspace_id b)
    \<and> (has_role p (ap_required_role b) \<or> is_admin p)"
proof (rule decide_store [of cfg eid s aid d reason p w], goal_cases)
  case (3 a target re allow st)
  have "\<not> shown_approved (snd (sweep eid (st_clock s) (st_now s) (aw_store w))) k b"
    using assms(2) sweep_items_approved unfolding sweep_def by blast
  then have "\<not> shown_approved st k b" using 3(3) by (auto simp: shown_approved_def)
  with 3(4) assms(1) transition_approved [of "st_event_id s" "st_clock s" a target p re allow "st_now s" st k b]
  have "target = APPROVED" "has_role p (ap_required_role b) \<or> is_admin p"
    "can_access_workspace p (ap_workspace_id b)" by auto
  with 3(1,5) show ?case by (cases d) auto
next
  case 2
  with assms sweep_items_approved show ?case unfolding sweep_def by metis
qed (use assms in simp)

section \<open>Executions\<close>

text \<open>
  An action that was executed is not executed again: after \<^verbatim>\<open>execute\<close> succeeded for an approval,
  every later call for that approval, by whomever and with whatever copy of it, calls no
  executor and changes nothing.
\<close>

theorem execution_is_idempotent:
  assumes "execute_action exs hook s a p allow w = (Inr (executed, out), w')" and "\<not> ap_dry_run a"
    and "ap_status a \<noteq> EXECUTED" and "ap_id a' = ap_id a"
  shows "snd (execute_action exs hook s' a' p' allow' w') = w'"
proof -
  from assms(1-3) obtain o' where "dict_get (aw_outcomes w') (ap_id a) = Some o'"
    by (auto simp: execute_action_def Let_def split: option.splits sum.splits prod.splits)
  with assms(4) show ?thesis
    by (auto simp: execute_action_def split: option.splits)
qed

text \<open>
  C31. The executor runs before the approval is checked: executing an approval that was only
  requested calls the executor and then refuses; the refusal leaves the store and the recorded
  outcomes as they were, so the same request calls the executor again.
\<close>

theorem unapproved_action_reaches_executor:
  assumes "ap_status a = REQUESTED" "\<not> ap_dry_run a" "exs (ap_action_type a) = Some ex"
    and "dict_get (aw_outcomes w) (ap_id a) = None"
    and "ex_execute ex (ap_action_preview a) (ap_idempotency_key a) = Inr out"
    and "\<forall>t. ap_expires_at a = Some t \<longrightarrow> st_now s < t"
  shows "\<exists>e. execute_action exs hook s a p allow w =
    (Inl e, w\<lparr>aw_calls := aw_calls w @ [CallExecute (ap_id a)]\<rparr>)"
proof -
  have "effective_target a EXECUTED (st_now s) = EXECUTED"
    using assms(6) by (auto simp: effective_target_def split: option.splits)
  then have "\<exists>e. transition_approval (st_event_id s) (st_clock s) a EXECUTED p None allow (st_now s) st = (Inl e, st)"
    for st using assms(1) by (simp add: transition_approval_def Let_def)
  then obtain e where "transition_approval (st_event_id s) (st_clock s) a EXECUTED p None allow (st_now s)
      (aw_store w) = (Inl e, aw_store w)" by blast
  with assms show ?thesis by (simp add: execute_action_def Let_def)
qed

text \<open>
  Executing an approval whose term has run out performs the action and records it as expired:
  the executor is called, the caller is answered with success, and the approval is stored as
  \<^verbatim>\<open>EXPIRED\<close>, even when write actions are disabled.
\<close>

theorem overdue_action_executes_and_expires:
  assumes "ap_status a = APPROVED" "\<not> ap_dry_run a" "exs (ap_action_type a) = Some ex"
    and "dict_get (aw_outcomes w) (ap_id a) = None"
    and "ex_execute ex (ap_action_preview a) (ap_idempotency_key a) = Inr out"
    and "ap_expires_at a = Some t" "t \<le> st_now s" "can_access_workspace p (ap_workspace_id a)"
    and "dict_get (as_items (aw_store w)) (ap_id a) = Some a"
  shows "\<exists>executed w'. execute_action exs hook s a p False w = (Inr (executed, out), w')
    \<and> ap_status executed = EXPIRED \<and> CallExecute (ap_id a) \<in> set (aw_calls w')
    \<and> map_option ap_status (dict_get (as_items (aw_store w')) (ap_id a)) = Some EXPIRED"
proof -
  have "effective_target a EXECUTED (st_now s) = EXPIRED" using assms(6,7) by (simp add: effective_target_def)
  with assms(1,8,9) have "\<exists>st'. transition_approval (st_event_id s) (st_clock s) a EXECUTED p None False (st_now s)
      (aw_store w) = (Inr (a\<lparr>ap_status := EXPIRED, ap_updated_at := st_now s\<rparr>), st')
      \<and> dict_get (as_items st') (ap_id a) = Some (a\<lparr>ap_status := EXPIRED, ap_updated_at := st_now s\<rparr>)"
    by (simp add: transition_approval_def approval_transition_def Let_def)
  then obtain st' where "transition_approval (st_event_id s) (st_clock s) a EXECUTED p None False (st_now s)
      (aw_store w) = (Inr (a\<lparr>ap_status := EXPIRED, ap_updated_at := st_now s\<rparr>), st')"
    "dict_get (as_items st') (ap_id a) = Some (a\<lparr>ap_status := EXPIRED, ap_updated_at := st_now s\<rparr>)" by blast
  with assms(1-5) show ?thesis by (simp add: execute_action_def Let_def)
qed

text \<open>
  Compensation runs before the approval is checked, too: rolling back an approval that was never
  executed calls the executor's compensation and stores a rollback record, and only then
  refuses.
\<close>

theorem unexecuted_action_is_compensated:
  assumes "ap_status a \<noteq> EXECUTED" "exs (ap_action_type a) = Some ex" "get_rollback (aw_store w) (ap_id a) = None"
    and "dict_get (aw_outcomes w) (ap_id a) = None" "ex_rollback ex (ap_action_preview a) [] = Inr undo"
    and "\<forall>t. ap_expires_at a = Some t \<longrightarrow> st_now s < t" "dict_get (as_rollbacks (aw_store w)) (st_rollback_id s) = None"
  shows "\<exists>e w'. rollback_action exs s a p w = (Inl e, w') \<and> aw_calls w' = aw_calls w @ [CallRollback (ap_id a)]
    \<and> get_rollback (aw_store w') (ap_id a) \<noteq> None"
proof -
  define r where "r = \<lparr>rb_id = st_rollback_id s, rb_approval_id = ap_id a,
      rb_actor_principal_id = principal_id p, rb_action = [(''action_type'', JStr (ap_action_type a)),
        (''input'', JObj (ap_action_preview a)), (''original_outcome'', JObj [])],
      rb_outcome = [(''compensated'', JBool True), (''result'', JObj undo)], rb_created_at = st_clock s\<rparr>"
  obtain rec st1 where add: "add_rollback r (aw_store w) = (rec, st1)" by (meson surj_pair)
  have "as_rollbacks st1 = as_rollbacks (aw_store w) @ [(rb_id r, r)]"
    using add assms(7) by (auto simp: add_rollback_def dict_setdefault_def Let_def r_def)
  then have "r \<in> set (dict_values (as_rollbacks st1))" by simp
  moreover have "rb_approval_id r = ap_id a" by (simp add: r_def)
  ultimately have found: "get_rollback st1 (ap_id a) \<noteq> None"
    unfolding get_rollback_def find_None_iff by blast
  have "effective_target a ROLLED_BACK (st_now s) = ROLLED_BACK"
    using assms(6) by (auto simp: effective_target_def split: option.splits)
  moreover have "ROLLED_BACK \<notin> allowed_targets (ap_status a)" using allowed_source(2) assms(1) by blast
  ultimately obtain e where refuse:
    "transition_approval (st_event_id s) (st_clock s) a ROLLED_BACK p None False (st_now s) st1 = (Inl e, st1)"
    by (cases "can_access_workspace p (ap_workspace_id a)") (auto simp: transition_approval_def Let_def)
  have "rollback_action exs s a p w =
      (Inl e, w\<lparr>aw_calls := aw_calls w @ [CallRollback (ap_id a)], aw_store := st1\<rparr>)"
    using assms(2-5) add refuse by (simp add: rollback_action_def Let_def r_def)
  with found show ?thesis by simp
qed

section \<open>Concrete approvals\<close>

definition sample_executor :: action_executor where
  "sample_executor = \<lparr>ex_preview = (\<lambda>x. Inr x), ex_execute = (\<lambda>x k. Inr [(''paused'', JBool True)]),
     ex_rollback = (\<lambda>x out. Inr out)\<rparr>"

definition sample_settings :: approval_settings where
  "sample_settings = \<lparr>set_executors = Some (\<lambda>k. Some sample_executor), set_resume_hook = False,
     set_allow_write_actions = True\<rparr>"

definition requester :: principal where
  "requester = \<lparr>principal_id = ''p1'', workspace_id = ''w'', user_id = ''u'', authenticated = True,
     auth_method = SHARED_API_KEY, roles = [''member'']\<rparr>"

definition approver :: principal where
  "approver = requester\<lparr>principal_id := ''p2'', user_id := ''v'', roles := [''approver'']\<rparr>"

definition sample_body :: approval_body where
  "sample_body = \<lparr>body_action_type = ''pause_campaign'', body_action_preview = [], body_required_role = ''approver'',
     body_idempotency_key = ''k1'', body_run_id = None, body_dry_run = False,
     body_checkpoint_resume_token = None, body_expires_in_seconds = 60\<rparr>"

definition sample_stamp :: "moment \<Rightarrow> stamp" where
  "sample_stamp t = \<lparr>st_now = t, st_clock = t, st_event_id = ''ev'', st_rollback_id = ''rb''\<rparr>"

definition fresh_world :: approval_world where
  "fresh_world = \<lparr>aw_store = empty_approval_store, aw_outcomes = [], aw_executed = [], aw_calls = []\<rparr>"

definition requested_world :: approval_world where
  "requested_world = snd (create_approval [] ''ap1'' (sample_stamp 0) sample_body requester fresh_world)"

definition sample_request :: approval_request where
  "sample_request = \<lparr>ap_id = ''ap1'', ap_workspace_id = ''w'', ap_owner_user_id = ''u'', ap_run_id = None,
     ap_action_type = ''pause_campaign'', ap_action_preview = [], ap_required_role = ''approver'',
     ap_status = REQUESTED, ap_idempotency_key = ''k1'', ap_dry_run = False, ap_checkpoint_resume_token = None,
     ap_expires_at = Some (timedelta_seconds 60), ap_created_at = 0, ap_updated_at = 0\<rparr>"

lemma requested_world_items: "as_items (aw_store requested_world) = [(''ap1'', sample_request)]"
  "aw_outcomes requested_world = []" "aw_calls requested_world = []"
  "as_rollbacks (aw_store requested_world) = []"
  by (simp_all add: requested_world_def create_approval_def approval_create_def sample_body_def requester_def
      fresh_world_def empty_approval_store_def approval_get_by_idempotency_def sample_request_def
      sample_stamp_def Let_def)

lemma requested_world_reachable: "approval_reachable cfg requested_world"
  unfolding requested_world_def fresh_world_def
  by (rule approval_reachable.step [OF approval_reachable.init approval_step.create])

lemma sixty_seconds: "timedelta_seconds 60 = 60000000"
proof -
  have "timedelta_seconds 60 = round_half_even (of_int 60000000)" by (simp add: timedelta_seconds_def)
  then show ?thesis by (simp only: round_half_even_of_int)
qed

theorem audit_trail_is_complete_witness:
  "audited (approval_events (aw_store requested_world) ''ap1'') REQUESTED"
  using audit_trail_is_complete [OF requested_world_reachable, of "''ap1''" sample_request]
  by (simp add: requested_world_items sample_request_def)

theorem sweep_expires_exactly_the_overdue_witness:
  "\<exists>st'. fst (sweep (\<lambda>_. ''e'') 0 60000000 (aw_store requested_world)) = Inr 1
     \<and> sweep (\<lambda>_. ''e'') 0 60000000 (aw_store requested_world) = (Inr 1, st') \<and> list_due st' 60000000 = []"
proof -
  let ?st = "aw_store requested_world"
  have due: "list_due ?st 60000000 = [sample_request]"
    by (simp add: list_due_def requested_world_items) (simp add: sample_request_def sixty_seconds)
  have "keyed ap_id (as_items ?st)"
    by (simp add: requested_world_items keyed_def dict_wf_def) (simp add: sample_request_def)
  moreover have "\<forall>a \<in> set (list_due ?st 60000000). str_strip (ap_workspace_id a) \<noteq> []"
    unfolding due by (simp add: sample_request_def str_strip_def is_space_def)
  ultimately show ?thesis
    using sweep_expires_exactly_the_overdue [of ?st 60000000 "\<lambda>_. ''e''" 0] by (auto simp: due)
qed

definition approved_request :: approval_request where
  "approved_request = sample_request\<lparr>ap_status := APPROVED, ap_updated_at := 5\<rparr>"

theorem only_role_holders_approve_witness:
  "shown_approved (aw_store (snd (decide_approval sample_settings (\<lambda>_. ''e'') (sample_stamp 5) ''ap1''
      Decide_APPROVED None approver requested_world))) ''ap1'' approved_request
   \<and> (has_role approver (ap_required_role approved_request) \<or> is_admin approver)"
proof -
  let ?d = "decide_approval sample_settings (\<lambda>_. ''e'') (sample_stamp 5) ''ap1'' Decide_APPROVED None approver
      requested_world"
  have due: "list_due (aw_store requested_world) 5 = []"
    by (simp add: list_due_def requested_world_items) (simp add: sample_request_def sixty_seconds)
  have role: "has_role approver ''approver''"
    by (simp add: has_role_def approver_def)
  have "approval_for_principal (aw_store requested_world) ''ap1'' approver = Some sample_request"
    using role by (simp add: approval_for_principal_def approval_get_def approval_get_for_workspace_def
        requested_world_items) (simp add: sample_request_def approver_def requester_def)
  then have shown: "shown_approved (aw_store (snd ?d)) ''ap1'' approved_request"
    using role unfolding decide_approval_def sweep_def
    by (simp add: due sample_stamp_def transition_approval_def approval_transition_def requested_world_items
        shown_approved_def effective_target_def approved_request_def can_access_workspace_def Let_def)
      (simp add: sample_request_def approver_def requester_def sixty_seconds)
  moreover have "\<not> shown_approved (aw_store requested_world) ''ap1'' approved_request"
    by (simp add: shown_approved_def requested_world_items) (simp add: sample_request_def approved_request_def)
  ultimately show ?thesis using only_role_holders_approve by blast
qed

text \<open>A world in which the request was approved.\<close>

definition approved_world :: approval_world where
  "approved_world = requested_world\<lparr>aw_store := (aw_store requested_world)
     \<lparr>as_items := [(''ap1'', approved_request)]\<rparr>\<rparr>"

lemma approved_world_simps: "as_items (aw_store approved_world) = [(''ap1'', approved_request)]"
  "aw_outcomes approved_world = []" "aw_calls approved_world = []"
  by (simp_all add: approved_world_def requested_world_items)

theorem execution_is_idempotent_witness:
  "\<exists>executed out w'. execute_action (\<lambda>k. Some sample_executor) False (sample_stamp 9) approved_request requester
       True approved_world = (Inr (executed, out), w') \<and> aw_calls w' = [CallExecute ''ap1'']
     \<and> snd (execute_action (\<lambda>k. Some sample_executor) False (sample_stamp 10) approved_request approver True w') = w'"
proof -
  let ?x = "execute_action (\<lambda>k. Some sample_executor) False (sample_stamp 9) approved_request requester True
      approved_world"
  have "\<exists>executed out w'. ?x = (Inr (executed, out), w') \<and> aw_calls w' = [CallExecute ''ap1'']"
    by (simp add: execute_action_def approved_world_simps sample_executor_def transition_approval_def
        approval_transition_def effective_target_def Let_def)
      (simp add: approved_request_def sample_request_def sixty_seconds sample_stamp_def approved_world_simps
        can_access_workspace_def requester_def)
  then obtain executed out w' where x: "?x = (Inr (executed, out), w')" "aw_calls w' = [CallExecute ''ap1'']"
    by blast
  have "\<not> ap_dry_run approved_request" "ap_status approved_request \<noteq> EXECUTED"
    by (simp_all add: approved_request_def sample_request_def)
  from execution_is_idempotent [OF x(1) this refl, of "sample_stamp 10" approver True] x show ?thesis by blast
qed

theorem unapproved_action_reaches_executor_witness:
  "\<exists>e. execute_action (\<lambda>k. Some sample_executor) False (sample_stamp 9) sample_request requester False
     requested_world = (Inl e, requested_world\<lparr>aw_calls := [CallExecute ''ap1'']\<rparr>)"
  using unapproved_action_reaches_executor [of sample_request "\<lambda>k. Some sample_executor" sample_executor
      requested_world "[(''paused'', JBool True)]" "sample_stamp 9" False requester False]
  by (simp add: requested_world_items sample_executor_def)
    (simp add: sample_request_def sixty_seconds sample_stamp_def)

theorem overdue_action_executes_and_expires_witness:
  "\<exists>executed w'. execute_action (\<lambda>k. Some sample_executor) False (sample_stamp 60000000) approved_request requester
     False approved_world = (Inr (executed, [(''paused'', JBool True)]), w') \<and> ap_status executed = EXPIRED"
proof -
  have a: "ap_status approved_request = APPROVED" "\<not> ap_dry_run approved_request"
    "ap_expires_at approved_request = Some 60000000" "ap_id approved_request = ''ap1''"
    "can_access_workspace requester (ap_workspace_id approved_request)"
    by (simp_all add: approved_request_def sample_request_def sixty_seconds can_access_workspace_def requester_def)
  show ?thesis
    using overdue_action_executes_and_expires [of approved_request "\<lambda>k. Some sample_executor" sample_executor
        approved_world "[(''paused'', JBool True)]" 60000000 "sample_stamp 60000000" requester False] a
    by (auto simp: approved_world_simps sample_executor_def sample_stamp_def)
qed

theorem unexecuted_action_is_compensated_witness:
  "\<exists>e w'. rollback_action (\<lambda>k. Some sample_executor) (sample_stamp 9) sample_request requester requested_world =
     (Inl e, w') \<and> aw_calls w' = [CallRollback ''ap1'']"
proof -
  have a: "ap_status sample_request = REQUESTED" "ap_expires_at sample_request = Some 60000000"
    "ap_id sample_request = ''ap1''" by (simp_all add: sample_request_def sixty_seconds)
  show ?thesis
    using unexecuted_action_is_compensated [of sample_request "\<lambda>k. Some sample_executor" sample_executor
        requested_world "[]" "sample_stamp 9" requester] a
    by (auto simp: requested_world_items sample_executor_def sample_stamp_def get_rollback_def)
qed

end
