(* ===== verification/LLM_Gateway.thy ===== *)
theory LLM_Gateway
  imports Prelude
begin

text \<open>
  The model gateway: \<^verbatim>\<open>llm/circuit_breaker.py\<close> (one health gate per model) and
  \<^verbatim>\<open>llm/gateway.py\<close> (\<^verbatim>\<open>LLMGateway._route\<close>, the fallback over models in order of priority).

  The breaker's lock makes each of its methods atomic, so a run of concurrent callers is a
  sequence of method calls; \<open>breaker_run\<close> executes such a sequence, each call carrying the
  \<^verbatim>\<open>time.monotonic()\<close> value it reads. The gateway reads the clock at several points; the
  n-th reading is \<open>clk n\<close> for an arbitrary \<open>clk\<close>. The provider call is a parameter that may
  answer differently at every reading; besides returning or raising it may be cancelled,
  which in Python is a \<^verbatim>\<open>BaseException\<close> that no handler of \<^verbatim>\<open>_route\<close> catches.
\<close>

section \<open>The circuit breaker\<close>

record circuit_breaker =
  failure_threshold :: int
  cooldown_s :: rat
  consecutive_failures :: int
  opened_at :: "rat option"
  probing :: bool

definition new_breaker :: "int \<Rightarrow> rat \<Rightarrow> circuit_breaker" where
  "new_breaker threshold cooldown =
     \<lparr>failure_threshold = threshold, cooldown_s = cooldown, consecutive_failures = 0,
      opened_at = None, probing = False\<rparr>"

definition breaker_allow :: "rat \<Rightarrow> circuit_breaker \<Rightarrow> bool \<times> circuit_breaker" where
  "breaker_allow now b = (case opened_at b of
       None \<Rightarrow> (True, b)
     | Some t \<Rightarrow>
         if now - t < cooldown_s b then (False, b)
         else if probing b then (False, b)
         else (True, b\<lparr>probing := True\<rparr>))"

definition record_success :: "circuit_breaker \<Rightarrow> circuit_breaker" where
  "record_success b = b\<lparr>consecutive_failures := 0, opened_at := None, probing := False\<rparr>"

definition record_failure :: "rat \<Rightarrow> circuit_breaker \<Rightarrow> circuit_breaker" where
  "record_failure now b =
     (let b1 = b\<lparr>consecutive_failures := consecutive_failures b + 1, probing := False\<rparr> in
      if failure_threshold b1 \<le> consecutive_failures b1 then b1\<lparr>opened_at := Some now\<rparr> else b1)"

definition breaker_state :: "rat \<Rightarrow> circuit_breaker \<Rightarrow> string" where
  "breaker_state now b = (case opened_at b of
       None \<Rightarrow> ''closed''
     | Some t \<Rightarrow> if cooldown_s b \<le> now - t then ''half_open'' else ''open'')"

subsection \<open>Sequences of calls\<close>

datatype breaker_call = Allow rat | Success | Failure rat

fun breaker_step :: "circuit_breaker \<Rightarrow> breaker_call \<Rightarrow> circuit_breaker" where
  "breaker_step b (Allow t) = snd (breaker_allow t b)"
| "breaker_step b Success = record_success b"
| "breaker_step b (Failure t) = record_failure t b"

definition breaker_run :: "circuit_breaker \<Rightarrow> breaker_call list \<Rightarrow> circuit_breaker" where
  "breaker_run b cs = foldl breaker_step b cs"

text \<open>How many of the \<open>Allow\<close> calls of a sequence were let through.\<close>

fun breaker_admitted :: "circuit_breaker \<Rightarrow> breaker_call list \<Rightarrow> nat" where
  "breaker_admitted b [] = 0"
| "breaker_admitted b (c # cs) =
     (case c of Allow t \<Rightarrow> if fst (breaker_allow t b) then 1 else 0 | _ \<Rightarrow> 0)
     + breaker_admitted (breaker_step b c) cs"

text \<open>The specification: the failures recorded since the last success, and the time of the
  last of them.\<close>

fun failures_since_success :: "breaker_call list \<Rightarrow> rat list" where
  "failures_since_success [] = []"
| "failures_since_success (Allow t # cs) = failures_since_success cs"
| "failures_since_success (Success # cs) = []"
| "failures_since_success (Failure t # cs) = t # failures_since_success cs"

section \<open>The gateway\<close>

datatype response_format = RF_text | RF_json_schema

record model_spec =
  spec_id :: string
  priority :: int
  supports_structured_output :: bool
  supports_tool_calling :: bool
  supports_vision :: bool
  max_context_tokens :: int

record llm_request =
  req_model :: string
  req_response_format :: response_format

record llm_error =
  err_code :: string
  err_message :: string
  err_retryable :: bool

definition supports :: "model_spec \<Rightarrow> llm_request \<Rightarrow> bool" where
  "supports spec request =
     (\<not> (req_response_format request = RF_json_schema \<and> \<not> supports_structured_output spec))"

text \<open>What \<^verbatim>\<open>await call(attempt)\<close> does, and what \<^verbatim>\<open>_route\<close> does.\<close>

datatype 'r call_outcome = Returned 'r | LLMFailed llm_error | OtherFailed error | CallCancelled

datatype 'r route_outcome =
  RouteReturned 'r | RouteLLMError llm_error | RouteRaised error | RouteCancelled

definition no_model_available :: llm_error where
  "no_model_available =
     \<lparr>err_code = ''UNAVAILABLE'',
      err_message = ''No capable/healthy model available in the gateway routing table'',
      err_retryable = True\<rparr>"

text \<open>The loop of \<^verbatim>\<open>_route\<close>. Its first three arguments are the methods of the health gate it
  consults; \<open>last\<close> is \<^verbatim>\<open>last_error\<close>, \<open>n\<close> counts clock readings and \<open>bs\<close> is \<^verbatim>\<open>_breakers\<close>.\<close>

fun route_loop ::
  "(rat \<Rightarrow> 'b \<Rightarrow> bool \<times> 'b) \<Rightarrow> ('b \<Rightarrow> 'b) \<Rightarrow> (rat \<Rightarrow> 'b \<Rightarrow> 'b) \<Rightarrow> (nat \<Rightarrow> rat)
   \<Rightarrow> (nat \<Rightarrow> llm_request \<Rightarrow> 'r call_outcome) \<Rightarrow> llm_request \<Rightarrow> llm_error option
   \<Rightarrow> model_spec list \<Rightarrow> nat \<Rightarrow> (string, 'b) dict
   \<Rightarrow> 'r route_outcome \<times> nat \<times> (string, 'b) dict" where
  "route_loop allow success failure clk call request last_err [] n bs =
     (RouteLLMError (case last_err of None \<Rightarrow> no_model_available | Some e \<Rightarrow> e), n, bs)"
| "route_loop allow success failure clk call request last_err (spec # specs) n bs =
     (if \<not> supports spec request
      then route_loop allow success failure clk call request last_err specs n bs
      else case dict_get bs (spec_id spec) of
        None \<Rightarrow> (RouteRaised (KeyError (spec_id spec)), n, bs)
      | Some b0 \<Rightarrow>
        (case allow (clk n) b0 of (allowed, b) \<Rightarrow>
         let bs1 = dict_set bs (spec_id spec) b in
         if \<not> allowed
         then route_loop allow success failure clk call request last_err specs (Suc n) bs1
         else case call (Suc n) (request\<lparr>req_model := spec_id spec\<rparr>) of
             CallCancelled \<Rightarrow> (RouteCancelled, Suc n, bs1)
           | Returned r \<Rightarrow> (RouteReturned r, Suc n, dict_set bs1 (spec_id spec) (success b))
           | OtherFailed e \<Rightarrow>
               (RouteRaised e, Suc (Suc n), dict_set bs1 (spec_id spec) (failure (clk (Suc n)) b))
           | LLMFailed e \<Rightarrow>
               (let bs2 = dict_set bs1 (spec_id spec) (failure (clk (Suc n)) b) in
                if \<not> err_retryable e then (RouteLLMError e, Suc (Suc n), bs2)
                else route_loop allow success failure clk call request (Some e) specs
                       (Suc (Suc n)) bs2)))"

record llm_gateway =
  gw_models :: "model_spec list"
  gw_breakers :: "(string, circuit_breaker) dict"
  gw_reads :: nat

definition new_gateway :: "model_spec list \<Rightarrow> llm_gateway result" where
  "new_gateway models =
     (if models = [] then Inl (ValueError ''LLMGateway requires at least one ModelSpec'')
      else let ms = sort_key priority models in
        Inr \<lparr>gw_models = ms,
             gw_breakers = foldl (\<lambda>d m. dict_set d (spec_id m) (new_breaker 5 30)) [] ms,
             gw_reads = 0\<rparr>)"

definition route ::
  "(nat \<Rightarrow> rat) \<Rightarrow> (nat \<Rightarrow> llm_request \<Rightarrow> 'r call_outcome) \<Rightarrow> llm_request \<Rightarrow> llm_gateway
   \<Rightarrow> 'r route_outcome \<times> llm_gateway" where
  "route clk call request g =
     (case route_loop breaker_allow record_success record_failure clk call request None
             (gw_models g) (gw_reads g) (gw_breakers g) of
        (res, n, bs) \<Rightarrow> (res, g\<lparr>gw_breakers := bs, gw_reads := n\<rparr>))"

section \<open>What the breaker guarantees\<close>

lemmas breaker_defs = breaker_allow_def record_success_def record_failure_def Let_def

lemma breaker_step_config [simp]:
  "failure_threshold (breaker_step b c) = failure_threshold b"
  "cooldown_s (breaker_step b c) = cooldown_s b"
  by (cases c; auto simp: breaker_defs split: option.splits)+

lemma breaker_run_snoc: "breaker_run b (cs @ [c]) = breaker_step (breaker_run b cs) c"
  by (simp add: breaker_run_def)

lemma breaker_run_config [simp]:
  "failure_threshold (breaker_run b cs) = failure_threshold b"
  "cooldown_s (breaker_run b cs) = cooldown_s b"
  by (induction cs rule: rev_induct) (simp_all add: breaker_run_snoc, simp_all add: breaker_run_def)

lemma breaker_counts_failures:
  "consecutive_failures (breaker_run (new_breaker thr cool) cs) =
     int (length (failures_since_success (rev cs)))"
proof (induction cs rule: rev_induct)
  case Nil
  show ?case by (simp add: breaker_run_def new_breaker_def)
next
  case (snoc c cs)
  then show ?case
    by (cases c) (auto simp: breaker_run_snoc breaker_defs split: option.splits)
qed

lemma breaker_opened_at:
  assumes "1 \<le> thr"
  shows "opened_at (breaker_run (new_breaker thr cool) cs) =
     (let fs = failures_since_success (rev cs) in
      if thr \<le> int (length fs) then Some (hd fs) else None)"
proof (induction cs rule: rev_induct)
  case Nil
  show ?case using assms by (simp add: breaker_run_def new_breaker_def)
next
  case (snoc c cs)
  let ?b = "breaker_run (new_breaker thr cool) cs"
  have thr: "failure_threshold ?b = thr" by (simp add: new_breaker_def)
  show ?case
  proof (cases c)
    case (Allow t)
    then show ?thesis using snoc
      by (auto simp: breaker_run_snoc breaker_allow_def split: option.splits)
  next
    case Success
    then show ?thesis using assms by (simp add: breaker_run_snoc record_success_def)
  next
    case (Failure t)
    then show ?thesis using snoc thr breaker_counts_failures [of thr cool cs]
      by (auto simp: breaker_run_snoc record_failure_def Let_def)
  qed
qed

text \<open>An admitted probe blocks every other request until its outcome is recorded.\<close>

lemma breaker_admits_none_while_probing:
  assumes "opened_at b = Some t0" "probing b"
  shows "breaker_admitted b (map Allow ts) = 0"
  using assms
proof (induction ts arbitrary: b)
  case (Cons t ts)
  have "breaker_allow t b = (False, b)" using Cons.prems by (simp add: breaker_allow_def)
  then show ?case using Cons by simp
qed simp

lemma breaker_admits_one_probe:
  assumes "opened_at b = Some t0"
  shows "breaker_admitted b (map Allow ts) \<le> 1"
  using assms
proof (induction ts arbitrary: b)
  case (Cons t ts)
  show ?case
  proof (cases "fst (breaker_allow t b)")
    case True
    then have "breaker_allow t b = (True, b\<lparr>probing := True\<rparr>)"
      using Cons.prems by (auto simp: breaker_allow_def split: if_splits)
    then show ?thesis
      using Cons.prems breaker_admits_none_while_probing [of "b\<lparr>probing := True\<rparr>" t0 ts] by simp
  next
    case False
    then have "breaker_allow t b = (False, b)"
      using Cons.prems by (auto simp: breaker_allow_def split: if_splits)
    then show ?thesis using Cons.IH [OF Cons.prems] by simp
  qed
qed simp

text \<open>Whatever calls a fresh breaker with a positive threshold has served, it is open exactly
  when at least \<^verbatim>\<open>failure_threshold\<close> failures were recorded since the last success. A closed breaker
  admits every request; an open one refuses every request until \<^verbatim>\<open>cooldown_s\<close> has passed since the
  latest failure, and then at most one of any number of further requests gets through before an
  outcome is recorded.\<close>

theorem breaker_follows_failure_history:
  fixes cool now :: rat
  assumes thr: "1 \<le> thr"
    and b: "b = breaker_run (new_breaker thr cool) cs"
    and fs: "fs = failures_since_success (rev cs)"
  shows "opened_at b = (if thr \<le> int (length fs) then Some (hd fs) else None)
    \<and> (int (length fs) < thr \<longrightarrow> breaker_allow now b = (True, b))
    \<and> (thr \<le> int (length fs) \<and> now - hd fs < cool \<longrightarrow> breaker_allow now b = (False, b))
    \<and> (thr \<le> int (length fs) \<longrightarrow> breaker_admitted b (map Allow ts) \<le> 1)"
proof -
  have "opened_at b = (if thr \<le> int (length fs) then Some (hd fs) else None)"
    using breaker_opened_at [OF thr, of cool cs] by (simp add: b fs Let_def)
  moreover have "cooldown_s b = cool" by (simp add: b new_breaker_def)
  ultimately show ?thesis
    by (auto simp: breaker_allow_def intro: breaker_admits_one_probe [simplified])
qed

definition sample_calls :: "breaker_call list" where
  "sample_calls = [Allow 1, Failure 2, Allow 3, Failure 4]"

theorem breaker_follows_failure_history_witness:
  "breaker_run (new_breaker 2 30) sample_calls =
     \<lparr>failure_threshold = 2, cooldown_s = 30, consecutive_failures = 2, opened_at = Some 4,
      probing = False\<rparr>
   \<and> breaker_allow 20 (breaker_run (new_breaker 2 30) sample_calls) =
      (False, breaker_run (new_breaker 2 30) sample_calls)
   \<and> breaker_admitted (breaker_run (new_breaker 2 30) sample_calls) (map Allow [40, 41, 42]) \<le> 1"
  using breaker_follows_failure_history
    [of 2 "breaker_run (new_breaker 2 30) sample_calls" 30 sample_calls
        "failures_since_success (rev sample_calls)" 20 "[40, 41, 42]"]
  by (simp add: sample_calls_def breaker_run_def new_breaker_def breaker_defs)

section \<open>What the gateway guarantees\<close>

text \<open>One round of the loop, by what the gate and the provider answer.\<close>

lemma route_loop_skip:
  "\<not> supports spec request \<Longrightarrow>
   route_loop allow success failure clk call request last_err (spec # specs) n bs =
   route_loop allow success failure clk call request last_err specs n bs"
  by simp

lemma route_loop_refused:
  assumes "supports spec request" "dict_get bs (spec_id spec) = Some b"
    and "allow (clk n) b = (False, b)"
  shows "route_loop allow success failure clk call request last_err (spec # specs) n bs =
    route_loop allow success failure clk call request last_err specs (Suc n) bs"
  using assms by (simp add: dict_set_same)

lemma route_loop_allowed:
  assumes "supports spec request" "dict_get bs (spec_id spec) = Some b0"
    and "allow (clk n) b0 = (True, b)"
  shows "route_loop allow success failure clk call request last_err (spec # specs) n bs =
    (case call (Suc n) (request\<lparr>req_model := spec_id spec\<rparr>) of
       CallCancelled \<Rightarrow> (RouteCancelled, Suc n, dict_set bs (spec_id spec) b)
     | Returned r \<Rightarrow> (RouteReturned r, Suc n, dict_set bs (spec_id spec) (success b))
     | OtherFailed e \<Rightarrow>
         (RouteRaised e, Suc (Suc n), dict_set bs (spec_id spec) (failure (clk (Suc n)) b))
     | LLMFailed e \<Rightarrow>
         if \<not> err_retryable e
         then (RouteLLMError e, Suc (Suc n), dict_set bs (spec_id spec) (failure (clk (Suc n)) b))
         else route_loop allow success failure clk call request (Some e) specs (Suc (Suc n))
                (dict_set bs (spec_id spec) (failure (clk (Suc n)) b)))"
  using assms by (auto simp: Let_def split: call_outcome.split)

declare route_loop.simps(2) [simp del]

definition all_idle :: "('b \<Rightarrow> bool) \<Rightarrow> (string, 'b) dict \<Rightarrow> bool" where
  "all_idle idle bs = (\<forall>k b. dict_get bs k = Some b \<longrightarrow> idle b)"

lemma all_idle_set: "all_idle idle bs \<Longrightarrow> idle b \<Longrightarrow> all_idle idle (dict_set bs k b)"
  by (auto simp: all_idle_def)

text \<open>The contract of a health gate towards its client: a refusal changes nothing, and a
  recorded outcome leaves no request outstanding.\<close>

locale health_gate =
  fixes allow :: "rat \<Rightarrow> 'b \<Rightarrow> bool \<times> 'b"
    and success :: "'b \<Rightarrow> 'b"
    and failure :: "rat \<Rightarrow> 'b \<Rightarrow> 'b"
    and idle :: "'b \<Rightarrow> bool"
  assumes refused: "allow t b = (False, b') \<Longrightarrow> b' = b"
    and success_idle: "idle (success b)"
    and failure_idle: "idle (failure t b)"
begin

lemma route_loop_idle:
  assumes "route_loop allow success failure clk call request last_err specs n bs = (res, n', bs')"
    and "res \<noteq> RouteCancelled" and "all_idle idle bs"
  shows "all_idle idle bs'"
  using assms
proof (induction specs arbitrary: last_err n bs)
  case (Cons spec specs)
  note loop = Cons.prems(1)
  show ?case
  proof (cases "supports spec request \<and> dict_get bs (spec_id spec) \<noteq> None")
    case False
    then show ?thesis
      using Cons by (cases "supports spec request") (auto simp: route_loop.simps(2))
  next
    case True
    then obtain b0 where sup: "supports spec request" "dict_get bs (spec_id spec) = Some b0" by blast
    obtain allowed b where al: "allow (clk n) b0 = (allowed, b)" by (meson surj_pair)
    show ?thesis
    proof (cases allowed)
      case False
      then have "allow (clk n) b0 = (False, b0)" using al refused by simp
      with route_loop_refused [of spec request bs b0 allow clk n] sup show ?thesis
        using Cons by metis
    next
      case allowed: True
      note step = route_loop_allowed [of spec request bs b0 allow clk n b]
      show ?thesis
        using loop Cons.IH [OF _ Cons.prems(2)] Cons.prems(2)
          all_idle_set [OF Cons.prems(3) success_idle] all_idle_set [OF Cons.prems(3) failure_idle]
        by (simp add: step [OF sup] al allowed split: call_outcome.splits if_splits) auto
    qed
  qed
qed simp

end

interpretation breaker: health_gate breaker_allow record_success record_failure "\<lambda>b. \<not> probing b"
  by unfold_locales (auto simp: breaker_defs split: option.splits if_splits)

text \<open>A gateway none of whose breakers has an outstanding probe still has none after a request
  was routed, whichever models were tried and however their calls ended, unless the routed call
  itself was cancelled.\<close>

theorem route_closes_probes:
  assumes "route clk call request g = (res, g')" and "res \<noteq> RouteCancelled"
    and "\<forall>k b. dict_get (gw_breakers g) k = Some b \<longrightarrow> \<not> probing b"
  shows "\<forall>k b. dict_get (gw_breakers g') k = Some b \<longrightarrow> \<not> probing b"
proof -
  obtain n bs where loop: "route_loop breaker_allow record_success record_failure clk call request
      None (gw_models g) (gw_reads g) (gw_breakers g) = (res, n, bs)" and "gw_breakers g' = bs"
    using assms(1) by (auto simp: route_def split: prod.splits)
  then show ?thesis
    using breaker.route_loop_idle [OF loop assms(2)] assms(3) by (simp add: all_idle_def)
qed

definition sample_spec :: model_spec where
  "sample_spec = \<lparr>spec_id = ''m'', priority = 1, supports_structured_output = True,
     supports_tool_calling = False, supports_vision = False, max_context_tokens = 128000\<rparr>"

definition sample_gateway :: llm_gateway where
  "sample_gateway = \<lparr>gw_models = [sample_spec],
     gw_breakers = [(''m'', \<lparr>failure_threshold = 1, cooldown_s = 30, consecutive_failures = 1,
       opened_at = Some 0, probing = False\<rparr>)], gw_reads = 0\<rparr>"

definition sample_llm_request :: llm_request where
  "sample_llm_request = \<lparr>req_model = ''any'', req_response_format = RF_text\<rparr>"

definition sample_clock :: "nat \<Rightarrow> rat" where
  "sample_clock n = 100 + of_nat n"

lemma sample_route_idle:
  "\<forall>k b. dict_get (gw_breakers sample_gateway) k = Some b \<longrightarrow> \<not> probing b"
  by (simp add: sample_gateway_def)

lemma sample_route:
  "route sample_clock (\<lambda>_ _. OtherFailed (RuntimeError ''boom'') :: nat call_outcome)
     sample_llm_request sample_gateway =
   (RouteRaised (RuntimeError ''boom''),
    sample_gateway\<lparr>gw_breakers := [(''m'', \<lparr>failure_threshold = 1, cooldown_s = 30,
       consecutive_failures = 2, opened_at = Some 101, probing = False\<rparr>)], gw_reads := 2\<rparr>)"
  by (simp add: route_def sample_gateway_def sample_spec_def sample_llm_request_def supports_def
      sample_clock_def breaker_defs route_loop.simps(2))

theorem route_closes_probes_witness:
  "dict_get (gw_breakers sample_gateway) ''m'' \<noteq> None
   \<and> list_all (\<lambda>b. \<not> probing b) (dict_values (gw_breakers (snd (route sample_clock
      (\<lambda>_ _. OtherFailed (RuntimeError ''boom'') :: nat call_outcome)
      sample_llm_request sample_gateway))))"
  using route_closes_probes [OF sample_route _ sample_route_idle, THEN spec [of _ "''m''"]]
  by (simp add: sample_route) (simp add: sample_gateway_def)

text \<open>Requests routed one after the other.\<close>

fun routes ::
  "(nat \<Rightarrow> rat) \<Rightarrow> ((nat \<Rightarrow> llm_request \<Rightarrow> 'r call_outcome) \<times> llm_request) list \<Rightarrow> llm_gateway
   \<Rightarrow> 'r route_outcome list" where
  "routes clk [] g = []"
| "routes clk ((call, request) # rs) g =
     (case route clk call request g of (res, g') \<Rightarrow> res # routes clk rs g')"

lemma wedged_model_is_never_tried:
  assumes "gw_models g = [spec]" "dict_get (gw_breakers g) (spec_id spec) = Some b"
    and "opened_at b = Some t0" "probing b"
  shows "\<exists>n. route clk call request g =
    (RouteLLMError no_model_available, g\<lparr>gw_reads := n\<rparr>)"
proof -
  have "breaker_allow (clk (gw_reads g)) b = (False, b)" using assms by (simp add: breaker_allow_def)
  moreover have "g = g\<lparr>gw_reads := gw_reads g\<rparr>" by simp
  ultimately show ?thesis
    using assms by (cases "supports spec request")
      (auto simp: route_def route_loop.simps(2) dict_set_same intro: exI [of _ "gw_reads g"])
qed

text \<open>C32. \<^verbatim>\<open>_route\<close> means to close the probe however the call ends. When the probe of a half-open
  breaker is cancelled, neither outcome is recorded: a gateway with that one model answers every
  later request with ``no model available'' without ever calling the model again, however long
  it waits.\<close>

theorem cancelled_probe_wedges_model:
  assumes "gw_models g = [spec]" "supports spec request"
    and "dict_get (gw_breakers g) (spec_id spec) = Some b"
    and "opened_at b = Some t0" "\<not> probing b" "cooldown_s b \<le> clk (gw_reads g) - t0"
    and "call (Suc (gw_reads g)) (request\<lparr>req_model := spec_id spec\<rparr>) = CallCancelled"
  shows "fst (route clk call request g) = RouteCancelled
    \<and> (\<forall>res \<in> set (routes clk rs (snd (route clk call request g))).
         res = RouteLLMError no_model_available)"
proof -
  let ?b = "b\<lparr>probing := True\<rparr>"
  let ?g = "g\<lparr>gw_breakers := dict_set (gw_breakers g) (spec_id spec) ?b, gw_reads := Suc (gw_reads g)\<rparr>"
  have cancelled: "route clk call request g = (RouteCancelled, ?g)"
    using assms by (simp add: route_def route_loop.simps(2) breaker_allow_def Let_def)
  have "\<forall>res \<in> set (routes clk rs g'). res = RouteLLMError no_model_available"
    if "gw_models g' = [spec]" "dict_get (gw_breakers g') (spec_id spec) = Some ?b" for g'
    using that
  proof (induction rs arbitrary: g')
    case (Cons r rs)
    obtain call' request' where r: "r = (call', request')" by (meson surj_pair)
    obtain n where "route clk call' request' g' =
        (RouteLLMError no_model_available, g'\<lparr>gw_reads := n\<rparr>)"
      using wedged_model_is_never_tried [of g' spec ?b t0 clk call' request'] Cons.prems assms(4)
      by (auto simp del: fun_upd_apply)
    then show ?case using Cons.IH [of "g'\<lparr>gw_reads := n\<rparr>"] Cons.prems r by simp
  qed simp
  from this [of ?g] show ?thesis using cancelled assms(1) by simp
qed

theorem cancelled_probe_wedges_model_witness:
  "fst (route sample_clock (\<lambda>_ _. CallCancelled :: nat call_outcome)
      sample_llm_request sample_gateway) = RouteCancelled
   \<and> hd (routes sample_clock [(\<lambda>_ _. Returned (7::nat), sample_llm_request)]
        (snd (route sample_clock (\<lambda>_ _. CallCancelled :: nat call_outcome)
          sample_llm_request sample_gateway)))
     = RouteLLMError no_model_available"
proof -
  let ?rs = "[(\<lambda>_ _. Returned (7::nat), sample_llm_request)]"
  have "fst (route sample_clock (\<lambda>_ _. CallCancelled :: nat call_outcome)
      sample_llm_request sample_gateway) = RouteCancelled
    \<and> (\<forall>res \<in> set (routes sample_clock ?rs
        (snd (route sample_clock (\<lambda>_ _. CallCancelled :: nat call_outcome)
          sample_llm_request sample_gateway))). res = RouteLLMError no_model_available)"
    by (rule cancelled_probe_wedges_model
          [of _ sample_spec _ "snd (hd (gw_breakers sample_gateway))" 0])
      (simp_all add: sample_gateway_def sample_spec_def sample_llm_request_def supports_def
        sample_clock_def)
  then show ?thesis by (simp split: prod.splits)
qed

end
