(* ===== verification/Api_Security.thy ===== *)
theory Api_Security
  imports Contracts
begin

text \<open>
  The HTTP boundary: \<^verbatim>\<open>api/security.py\<close> (exempt paths, the sliding-window rate limiter and
  the authentication middleware) and \<^verbatim>\<open>api/mission_access.py\<close> (ownership of legacy missions).

  A request is its path, method, header map (lower-case names, first value) and peer host.
  External authentication hooks, the trusted-proxy predicate and the live settings are
  parameters. The wrapped application is not entered: \<open>Forward p hs\<close> says that
  \<^verbatim>\<open>call_next\<close> runs with \<^verbatim>\<open>request.state.principal = p\<close> and that its response gets the
  headers \<open>hs\<close>. Times are \<^verbatim>\<open>time.monotonic()\<close> readings.
\<close>

section \<open>Requests\<close>

record http_request =
  req_path :: string
  req_method :: string
  req_headers :: "(string, string) dict"
  req_client :: "string option"

definition header :: "http_request \<Rightarrow> string \<Rightarrow> string" where
  "header r name = (case dict_get (req_headers r) name of None \<Rightarrow> [] | Some v \<Rightarrow> v)"

text \<open>\<^verbatim>\<open>s.split(",")\<close>\<close>

fun split_comma :: "string \<Rightarrow> string list" where
  "split_comma [] = [[]]"
| "split_comma (c # s) =
     (if c = CHR '','' then [] # split_comma s
      else (c # hd (split_comma s)) # tl (split_comma s))"

definition client_key :: "http_request \<Rightarrow> bool \<Rightarrow> string" where
  "client_key r trust_x_forwarded_for =
     (let api_key = header r ''x-api-key'';
          forwarded = (if trust_x_forwarded_for then header r ''x-forwarded-for'' else []);
          first = str_strip (hd (split_comma forwarded)) in
      if api_key \<noteq> [] then ''key:'' @ take 16 api_key
      else if forwarded \<noteq> [] \<and> first \<noteq> [] then ''ip:'' @ first
      else case req_client r of Some host \<Rightarrow> ''ip:'' @ host | None \<Rightarrow> ''ip:unknown'')"

definition is_exempt :: "string \<Rightarrow> bool" where
  "is_exempt path =
     (let stripped = rev (dropWhile (\<lambda>c. c = CHR ''/'') (rev path));
          normalized = (if stripped = [] then ''/'' else stripped) in
      normalized = ''/ui'' \<or> str_startswith normalized ''/ui/''
      \<or> normalized \<in> {''/'', ''/health'', ''/readyz'', ''/docs'', ''/openapi.json'', ''/redoc'',
                       ''/v1/voice/dev''})"

fun identity_header :: "http_request \<Rightarrow> string list \<Rightarrow> string \<Rightarrow> string" where
  "identity_header r [] dflt = str_strip dflt"
| "identity_header r (name # names) dflt =
     (let value = str_strip (header r name) in
      if value \<noteq> [] then value else identity_header r names dflt)"

section \<open>The sliding-window rate limiter\<close>

record rate_limiter =
  rl_limit :: nat
  rl_window_s :: rat
  rl_hits :: "(string, rat list) dict"

definition new_limiter :: "int \<Rightarrow> rat \<Rightarrow> rate_limiter" where
  "new_limiter limit window_s =
     \<lparr>rl_limit = nat (max 1 limit), rl_window_s = window_s, rl_hits = []\<rparr>"

definition hits_of :: "rate_limiter \<Rightarrow> string \<Rightarrow> rat list" where
  "hits_of l key = (case dict_get (rl_hits l) key of None \<Rightarrow> [] | Some q \<Rightarrow> q)"

text \<open>\<^verbatim>\<open>allow(key, now=ts)\<close>: (allowed, remaining, retry_after_s) and the limiter afterwards.\<close>

definition limiter_allow ::
  "rate_limiter \<Rightarrow> string \<Rightarrow> rat \<Rightarrow> (bool \<times> nat \<times> nat) \<times> rate_limiter" where
  "limiter_allow l key ts =
     (let cutoff = ts - rl_window_s l;
          q = dropWhile (\<lambda>t. t \<le> cutoff) (hits_of l key) in
      if rl_limit l \<le> length q
      then ((False, 0, nat \<lfloor>max 1 (rl_window_s l - (ts - hd q))\<rfloor>),
            l\<lparr>rl_hits := dict_set (rl_hits l) key q\<rparr>)
      else ((True, rl_limit l - length (q @ [ts]), 0),
            l\<lparr>rl_hits := dict_set (rl_hits l) key (q @ [ts])\<rparr>))"

text \<open>The requests of a sequence the limiter admits.\<close>

fun limiter_run :: "rate_limiter \<Rightarrow> (string \<times> rat) list \<Rightarrow> (string \<times> rat) list \<times> rate_limiter" where
  "limiter_run l [] = ([], l)"
| "limiter_run l ((key, ts) # rs) =
     (case limiter_allow l key ts of ((ok, _, _), l1) \<Rightarrow>
      case limiter_run l1 rs of (adm, l2) \<Rightarrow> ((if ok then [(key, ts)] else []) @ adm, l2))"

text \<open>The admissions of a key in the window of length \<open>w\<close> that ends at \<open>t\<close>.\<close>

definition window_hits :: "string \<Rightarrow> rat \<Rightarrow> rat \<Rightarrow> (string \<times> rat) list \<Rightarrow> nat" where
  "window_hits key w t adm = length (filter (\<lambda>(k, ts). k = key \<and> t - w < ts \<and> ts \<le> t) adm)"

section \<open>The middleware\<close>

text \<open>\<^verbatim>\<open>hmac.compare_digest\<close> on strings: both must be ASCII.\<close>

definition is_ascii :: "string \<Rightarrow> bool" where
  "is_ascii s = list_all (\<lambda>c. (of_char c :: nat) < 128) s"

definition compare_digest :: "string \<Rightarrow> string \<Rightarrow> bool result" where
  "compare_digest a b =
     (if is_ascii a \<and> is_ascii b then Inr (a = b)
      else Inl (TypeError ''comparing strings with non-ASCII characters is not supported''))"

datatype http_outcome =
    Forward "principal option" "(string \<times> string) list"
  | Reject nat string "(string \<times> string) list"

record security_settings =
  sec_api_key :: string
  sec_rate_limit_enabled :: bool
  sec_default_workspace_id :: string
  sec_default_user_id :: string
  sec_trust_x_forwarded_for :: bool
  sec_trust_identity_headers :: bool
  sec_principal_provider :: "(http_request \<Rightarrow> principal option result) option"
  sec_authenticator :: "(http_request \<Rightarrow> principal option result) option"
  sec_trusted_proxy :: "(http_request \<Rightarrow> bool) option"

definition make_security_settings ::
  "security_settings \<Rightarrow> int \<Rightarrow> security_settings \<times> rate_limiter" where
  "make_security_settings cfg rate_limit_per_minute =
     (cfg\<lparr>sec_api_key := str_strip (sec_api_key cfg),
          sec_rate_limit_enabled := sec_rate_limit_enabled cfg \<and> 0 < rate_limit_per_minute\<rparr>,
      new_limiter rate_limit_per_minute 60)"

definition rate_limited ::
  "security_settings \<Rightarrow> http_request \<Rightarrow> principal option \<Rightarrow> rate_limiter \<Rightarrow> rat
   \<Rightarrow> http_outcome \<times> rate_limiter" where
  "rate_limited cfg r p l now =
     (if is_exempt (req_path r) \<or> req_method r = ''OPTIONS'' then (Forward p [], l)
      else if sec_rate_limit_enabled cfg
      then (case limiter_allow l (client_key r (sec_trust_x_forwarded_for cfg)) now of
          ((ok, remaining, retry_after), l1) \<Rightarrow>
            if \<not> ok
            then (Reject 429 ''Rate limit exceeded''
                    [(''Retry-After'', nat_str retry_after),
                     (''X-RateLimit-Limit'', nat_str (rl_limit l1)),
                     (''X-RateLimit-Remaining'', ''0'')], l1)
            else (Forward p [(''X-RateLimit-Limit'', nat_str (rl_limit l1)),
                             (''X-RateLimit-Remaining'', nat_str remaining)], l1))
      else (Forward p [], l))"

text \<open>A hook's result: a value that is not a \<^verbatim>\<open>Principal\<close> is \<open>None\<close> and is ignored.\<close>

definition ask_hook ::
  "(http_request \<Rightarrow> principal option result) option \<Rightarrow> http_request \<Rightarrow> principal option
   \<Rightarrow> principal option result" where
  "ask_hook hook r candidate = (case hook of
       None \<Rightarrow> Inr candidate
     | Some f \<Rightarrow> result_bind (f r) (\<lambda>p. Inr (case p of None \<Rightarrow> candidate | Some x \<Rightarrow> Some x)))"

text \<open>\<^verbatim>\<open>bool((provided and compare_digest(provided, api_key)) or (bearer and ...))\<close>\<close>

definition presents_key :: "http_request \<Rightarrow> string \<Rightarrow> bool result" where
  "presents_key r api_key =
     (let provided = str_strip (header r ''x-api-key'');
          auth = str_strip (header r ''authorization'');
          bearer = (if str_startswith (str_lower auth) ''bearer ''
                    then str_strip (drop 7 auth) else []) in
      result_bind (if provided \<noteq> [] then compare_digest provided api_key else Inr False)
        (\<lambda>ok. if ok then Inr True
              else if bearer \<noteq> [] then compare_digest bearer api_key else Inr False))"

text \<open>Whether identity headers count: authenticated, and from a trusted source.\<close>

definition trusted_identity_source :: "security_settings \<Rightarrow> http_request \<Rightarrow> bool" where
  "trusted_identity_source cfg r =
     (sec_trust_identity_headers cfg \<and>
      (case sec_trusted_proxy cfg of None \<Rightarrow> True | Some f \<Rightarrow> f r))"

text \<open>The principal built for a request that no external authenticator vouched for.\<close>

definition request_identity ::
  "security_settings \<Rightarrow> string \<Rightarrow> bool \<Rightarrow> http_request \<Rightarrow> principal result" where
  "request_identity cfg api_key authd r =
     (let trusted = authd \<and> trusted_identity_source cfg r;
          ws0 = (if trusted
                 then identity_header r [''x-workspace-id'', ''x-seleric-workspace-id'']
                        (sec_default_workspace_id cfg)
                 else sec_default_workspace_id cfg);
          u0 = (if trusted
                then identity_header r [''x-user-id'', ''x-seleric-user-id'']
                       (sec_default_user_id cfg)
                else sec_default_user_id cfg);
          ws = (if str_strip ws0 = [] then ''default'' else str_strip ws0);
          u = (if str_strip u0 = [] then ''default'' else str_strip u0);
          pid = (if trusted then identity_header r [''x-principal-id''] u else u);
          role_text = (if trusted then identity_header r [''x-roles'', ''x-seleric-roles''] []
                       else []) in
      make_principal
        \<lparr>principal_id = pid, workspace_id = ws, user_id = u, authenticated = authd,
         auth_method = (if api_key \<noteq> [] \<and> authd then SHARED_API_KEY
                        else if authd then SERVICE else ANONYMOUS),
         roles = dedupe (map (\<lambda>s. str_lower (str_strip s))
                    (filter (\<lambda>s. str_strip s \<noteq> []) (split_comma role_text)))\<rparr>)"

text \<open>\<^verbatim>\<open>dispatch\<close>. \<open>live_key\<close> is \<^verbatim>\<open>get_settings().api_key or ""\<close>, or \<open>Inl\<close> when reading the
  settings raises, which the middleware swallows.\<close>

definition authenticate ::
  "security_settings \<Rightarrow> string \<Rightarrow> principal option \<Rightarrow> http_request \<Rightarrow> bool result" where
  "authenticate cfg api_key candidate r =
     (if candidate \<noteq> None \<and> authenticated (the candidate) then Inr True
      else if api_key = [] \<and> sec_principal_provider cfg = None \<and> sec_authenticator cfg = None
      then Inr True
      else presents_key r api_key)"

definition effective_key :: "security_settings \<Rightarrow> string result \<Rightarrow> string" where
  "effective_key cfg live_key =
     (case live_key of
        Inl _ \<Rightarrow> sec_api_key cfg
      | Inr k \<Rightarrow> if str_strip k \<noteq> [] then str_strip k else sec_api_key cfg)"

definition identify ::
  "security_settings \<Rightarrow> string \<Rightarrow> http_request \<Rightarrow> (bool \<times> principal) result" where
  "identify cfg api_key r =
     result_bind (ask_hook (sec_principal_provider cfg) r None) (\<lambda>c1.
     result_bind (ask_hook (sec_authenticator cfg) r c1) (\<lambda>candidate.
     result_bind (authenticate cfg api_key candidate r) (\<lambda>authd.
     result_bind
       (if candidate \<noteq> None \<and> authenticated (the candidate) then Inr (the candidate)
        else request_identity cfg api_key authd r) (\<lambda>p.
     Inr (authd, p)))))"

definition dispatch ::
  "security_settings \<Rightarrow> string result \<Rightarrow> http_request \<Rightarrow> rate_limiter \<Rightarrow> rat
   \<Rightarrow> http_outcome result \<times> rate_limiter" where
  "dispatch cfg live_key r l now =
     (if is_exempt (req_path r) \<or> req_method r = ''OPTIONS'' then (Inr (Forward None []), l)
      else
        let api_key = effective_key cfg live_key
        in case identify cfg api_key r of
            Inl e \<Rightarrow> (Inl e, l)
          | Inr (authd, p) \<Rightarrow>
              if \<not> authd
              then (Inr (Reject 401 (if api_key \<noteq> [] then ''Missing or invalid API key''
                                     else ''Authentication required'')
                           [(''WWW-Authenticate'', ''Bearer'')]), l)
              else (case rate_limited cfg r (Some p) l now of (out, l1) \<Rightarrow> (Inr out, l1)))"

section \<open>What the rate limiter guarantees\<close>

definition hit_times :: "string \<Rightarrow> (string \<times> rat) list \<Rightarrow> rat list" where
  "hit_times key adm = map snd (filter (\<lambda>(k, _). k = key) adm)"

lemma hit_times_append [simp]: "hit_times key (adm @ adm') = hit_times key adm @ hit_times key adm'"
  by (simp add: hit_times_def)

lemma hit_times_simps [simp]:
  "hit_times key [] = []" "hit_times key [(k, t)] = (if k = key then [t] else [])"
  by (simp_all add: hit_times_def)

lemma window_hits_times:
  "window_hits key w t adm = length (filter (\<lambda>s. t - w < s \<and> s \<le> t) (hit_times key adm))"
  by (simp add: window_hits_def hit_times_def filter_map o_def split_def conj_ac)

lemma sorted_filter_above: "sorted q \<Longrightarrow> filter (\<lambda>s. c < s) q = dropWhile (\<lambda>s. s \<le> c) q"
  for c :: rat
proof (induction q)
  case (Cons a q)
  show ?case
  proof (cases "a \<le> c")
    case False
    then have "\<forall>x \<in> set (a # q). c < x" using Cons.prems by force
    then show ?thesis using False by (auto simp: filter_id_conv)
  qed (use Cons in auto)
qed simp

text \<open>What the limiter's queues say about the admissions so far, up to time \<open>now\<close>: each holds the
  latest admissions of its key, and those it dropped have left the window.\<close>

definition tracks :: "rate_limiter \<Rightarrow> (string \<times> rat) list \<Rightarrow> rat \<Rightarrow> bool" where
  "tracks l adm now = (\<forall>key. \<exists>old. hit_times key adm = old @ hits_of l key
     \<and> (\<forall>t \<in> set old. t \<le> now - rl_window_s l)
     \<and> sorted (hit_times key adm) \<and> (\<forall>t \<in> set (hit_times key adm). t \<le> now))"

lemma tracks_later: "tracks l adm now \<Longrightarrow> now \<le> now' \<Longrightarrow> tracks l adm now'"
  by (force simp: tracks_def)

lemma tracks_window:
  assumes "tracks l adm now" and "0 < rl_window_s l"
  shows "dropWhile (\<lambda>t. t \<le> now - rl_window_s l) (hits_of l key) =
    filter (\<lambda>s. now - rl_window_s l < s \<and> s \<le> now) (hit_times key adm)"
proof -
  let ?c = "now - rl_window_s l"
  obtain old where old: "hit_times key adm = old @ hits_of l key" "\<forall>t \<in> set old. t \<le> ?c"
    and ord: "sorted (hit_times key adm)" "\<forall>t \<in> set (hit_times key adm). t \<le> now"
    using assms(1) unfolding tracks_def by blast
  have "filter (\<lambda>s. ?c < s \<and> s \<le> now) (hit_times key adm) = filter (\<lambda>s. ?c < s) (hits_of l key)"
  proof -
    have "filter (\<lambda>s. ?c < s \<and> s \<le> now) old = []" using old(2) by (auto simp: filter_empty_conv)
    moreover have "filter (\<lambda>s. ?c < s \<and> s \<le> now) (hits_of l key) = filter (\<lambda>s. ?c < s) (hits_of l key)"
      using ord(2) old(1) by (intro filter_cong) auto
    ultimately show ?thesis by (simp add: old(1))
  qed
  also have "\<dots> = dropWhile (\<lambda>t. t \<le> ?c) (hits_of l key)"
    using ord(1) old(1) by (simp add: sorted_append sorted_filter_above)
  finally show ?thesis by simp
qed

lemma limiter_allow_decision:
  assumes "tracks l adm now" and "0 < rl_window_s l"
  shows "fst (fst (limiter_allow l key now)) =
    (window_hits key (rl_window_s l) now adm < rl_limit l)"
  using tracks_window [OF assms, of key]
  by (auto simp: limiter_allow_def Let_def window_hits_times)

lemma limiter_allow_config:
  "limiter_allow l key ts = (r, l') \<Longrightarrow>
   rl_limit l' = rl_limit l \<and> rl_window_s l' = rl_window_s l"
  by (auto simp: limiter_allow_def Let_def split: if_splits)

lemma limiter_allow_hits:
  assumes "limiter_allow l key ts = ((ok, rem, retry), l')"
  shows "hits_of l' k = (if k = key
     then dropWhile (\<lambda>t. t \<le> ts - rl_window_s l) (hits_of l key) @ (if ok then [ts] else [])
     else hits_of l k)"
  using assms by (auto simp: limiter_allow_def Let_def hits_of_def split: if_splits)

lemma limiter_allow_tracks:
  assumes tr: "tracks l adm now" and step: "limiter_allow l key now = ((ok, rem, retry), l')"
  shows "tracks l' (adm @ (if ok then [(key, now)] else [])) now"
  unfolding tracks_def
proof
  fix k
  obtain old where old: "hit_times k adm = old @ hits_of l k"
      "\<forall>t \<in> set old. t \<le> now - rl_window_s l"
    and ord: "sorted (hit_times k adm)" "\<forall>t \<in> set (hit_times k adm). t \<le> now"
    using tr unfolding tracks_def by blast
  let ?p = "\<lambda>t. t \<le> now - rl_window_s l"
  let ?old = "if k = key then old @ takeWhile ?p (hits_of l k) else old"
  have "hit_times k (adm @ (if ok then [(key, now)] else [])) = ?old @ hits_of l' k"
    using old(1) limiter_allow_hits [OF step, of k] by (simp add: hit_times_def)
  moreover have "\<forall>t \<in> set ?old. t \<le> now - rl_window_s l'"
    using old(2) limiter_allow_config [OF step] by (auto dest: set_takeWhileD)
  moreover have "sorted (hit_times k (adm @ (if ok then [(key, now)] else [])))"
    "\<forall>t \<in> set (hit_times k (adm @ (if ok then [(key, now)] else []))). t \<le> now"
    using ord by (auto simp: sorted_append)
  ultimately show "\<exists>old. hit_times k (adm @ (if ok then [(key, now)] else [])) = old @ hits_of l' k
      \<and> (\<forall>t \<in> set old. t \<le> now - rl_window_s l')
      \<and> sorted (hit_times k (adm @ (if ok then [(key, now)] else [])))
      \<and> (\<forall>t \<in> set (hit_times k (adm @ (if ok then [(key, now)] else []))). t \<le> now)"
    by blast
qed

definition within_limit :: "nat \<Rightarrow> rat \<Rightarrow> (string \<times> rat) list \<Rightarrow> bool" where
  "within_limit n w adm = (\<forall>key t. window_hits key w t adm \<le> n)"

lemma limiter_allow_within:
  assumes tr: "tracks l adm now" and w: "0 < rl_window_s l"
    and lim: "within_limit (rl_limit l) (rl_window_s l) adm"
    and step: "limiter_allow l key now = ((ok, rem, retry), l')"
  shows "within_limit (rl_limit l) (rl_window_s l) (adm @ (if ok then [(key, now)] else []))"
  unfolding within_limit_def
proof (intro allI)
  fix k t
  let ?w = "rl_window_s l"
  show "window_hits k ?w t (adm @ (if ok then [(key, now)] else [])) \<le> rl_limit l"
  proof (cases "ok \<and> k = key \<and> now \<le> t \<and> t - ?w < now")
    case False
    then show ?thesis using lim
      by (auto simp: within_limit_def window_hits_def not_less split: if_splits)
  next
    case True
    then have "window_hits key ?w now adm < rl_limit l"
      using limiter_allow_decision [OF tr w, of key] step by simp
    moreover have "window_hits key ?w t adm \<le> window_hits key ?w now adm"
    proof -
      have "\<forall>s \<in> set (hit_times key adm). s \<le> now" using tr unfolding tracks_def by blast
      then show ?thesis using True unfolding window_hits_times
        by (auto intro!: length_filter_mono_on)
    qed
    ultimately show ?thesis using True by (simp add: window_hits_def)
  qed
qed

lemma limiter_run_tracks:
  assumes "tracks l adm0 now" "0 < rl_window_s l"
    and "within_limit (rl_limit l) (rl_window_s l) adm0"
    and "sorted (now # map snd rs)" and "limiter_run l rs = (adm, l')"
  shows "tracks l' (adm0 @ adm) (last (now # map snd rs))
    \<and> within_limit (rl_limit l) (rl_window_s l) (adm0 @ adm)
    \<and> rl_limit l' = rl_limit l \<and> rl_window_s l' = rl_window_s l"
  using assms
proof (induction rs arbitrary: l adm0 now adm)
  case Nil
  then show ?case by simp
next
  case (Cons r rs)
  obtain key ts where r: "r = (key, ts)" by (meson surj_pair)
  obtain ok rem retry l1 where step: "limiter_allow l key ts = ((ok, rem, retry), l1)"
    by (metis surj_pair)
  obtain adm1 where rest: "limiter_run l1 rs = (adm1, l')"
    and adm: "adm = (if ok then [(key, ts)] else []) @ adm1"
    using Cons.prems(5) by (auto simp: r step split: prod.splits)
  have tr: "tracks l adm0 ts" using Cons.prems(1,4) r by (auto intro: tracks_later)
  note cfg = limiter_allow_config [OF step]
  have "sorted (ts # map snd rs)" using Cons.prems(4) by (simp add: r)
  then show ?case
    using Cons.IH [OF limiter_allow_tracks [OF tr step] _ _ _ rest] Cons.prems(2) cfg
      limiter_allow_within [OF tr Cons.prems(2,3) step]
    by (simp add: adm r)
qed

text \<open>C14. For requests in the order of a monotonic clock, the limiter admits at most \<^verbatim>\<open>limit\<close>
  requests of a client in any window of \<^verbatim>\<open>window_s\<close> seconds, wherever the window starts; and it
  refuses a request only when the client already has \<^verbatim>\<open>limit\<close> admissions in the window that
  ends now.\<close>

theorem rate_limiter_window_exact:
  assumes "0 < w" "sorted (map snd rs)" "\<forall>r \<in> set rs. snd r \<le> ts"
    and "limiter_run (new_limiter limit w) rs = (adm, l)"
  shows "window_hits key w t adm \<le> nat (max 1 limit)
    \<and> fst (fst (limiter_allow l key ts)) = (window_hits key w ts adm < nat (max 1 limit))"
proof -
  let ?l0 = "new_limiter limit w"
  let ?now = "hd (map snd rs @ [ts])"
  have l0: "rl_limit ?l0 = nat (max 1 limit)" "rl_window_s ?l0 = w" "\<And>k. hits_of ?l0 k = []"
    by (simp_all add: new_limiter_def hits_of_def)
  have "tracks ?l0 [] ?now" "within_limit (rl_limit ?l0) (rl_window_s ?l0) []"
    by (simp_all add: tracks_def l0 within_limit_def window_hits_def)
  moreover have "sorted (?now # map snd rs)" using assms(2) by (cases rs) auto
  ultimately have run: "tracks l adm (last (?now # map snd rs))"
      "within_limit (nat (max 1 limit)) w adm" "rl_limit l = nat (max 1 limit)" "rl_window_s l = w"
    using limiter_run_tracks [of ?l0 "[]" ?now rs adm l] assms(1,4) l0 by auto
  have "last (?now # map snd rs) \<le> ts" using assms(3) by (auto simp: last_map hd_append)
  then have "tracks l adm ts" using run(1) tracks_later by blast
  then show ?thesis
    using run(2-4) limiter_allow_decision [of l adm ts key] assms(1) by (simp add: within_limit_def)
qed

definition sample_requests :: "(string \<times> rat) list" where
  "sample_requests = [(''ip:a'', 1), (''ip:a'', 2), (''ip:b'', 3), (''ip:a'', 4)]"

lemma sample_limiter_run:
  "limiter_run (new_limiter 2 60) sample_requests =
     ([(''ip:a'', 1), (''ip:a'', 2), (''ip:b'', 3)],
      \<lparr>rl_limit = 2, rl_window_s = 60, rl_hits = [(''ip:a'', [1, 2]), (''ip:b'', [3])]\<rparr>)"
  by (simp add: sample_requests_def new_limiter_def limiter_allow_def hits_of_def Let_def)

theorem rate_limiter_window_exact_witness:
  "window_hits ''ip:a'' 60 30 (fst (limiter_run (new_limiter 2 60) sample_requests)) \<le> 2
   \<and> \<not> fst (fst (limiter_allow (snd (limiter_run (new_limiter 2 60) sample_requests)) ''ip:a'' 60))
   \<and> fst (fst (limiter_allow (snd (limiter_run (new_limiter 2 60) sample_requests)) ''ip:a'' 62))"
  using rate_limiter_window_exact [OF _ _ _ sample_limiter_run, of 60 "''ip:a''" 30]
    rate_limiter_window_exact [OF _ _ _ sample_limiter_run, of 62 "''ip:a''" 30]
  by (simp add: sample_limiter_run) (simp add: sample_requests_def window_hits_def)

section \<open>What the middleware guarantees\<close>

lemma rate_limited_principal:
  "rate_limited cfg r p l now = (Forward p' hs, l') \<Longrightarrow> p' = p"
  by (auto simp: rate_limited_def split: if_splits prod.splits)

text \<open>What a hook reported about a request.\<close>

definition vouched :: "security_settings \<Rightarrow> http_request \<Rightarrow> principal \<Rightarrow> bool" where
  "vouched cfg r p =
     ((\<exists>f. sec_principal_provider cfg = Some f \<and> f r = Inr (Some p))
      \<or> (\<exists>f. sec_authenticator cfg = Some f \<and> f r = Inr (Some p)))"

lemma hooks_vouch:
  assumes "ask_hook (sec_principal_provider cfg) r None = Inr c1"
    and "ask_hook (sec_authenticator cfg) r c1 = Inr (Some p)"
  shows "vouched cfg r p"
  using assms
  by (auto simp: ask_hook_def vouched_def result_bind_Inr split: option.splits)

lemma presents_key_nonempty: "presents_key r k = Inr True \<Longrightarrow> k \<noteq> []"
  by (auto simp: presents_key_def compare_digest_def Let_def result_bind_Inr split: if_splits)

lemma make_principal_fields:
  "make_principal p = Inr q \<Longrightarrow> authenticated q = authenticated p \<and> roles q = roles p
     \<and> principal_id q = str_strip (principal_id p) \<and> workspace_id q = str_strip (workspace_id p)
     \<and> user_id q = str_strip (user_id p)"
  by (auto simp: make_principal_def identifiers_are_not_blank_def Let_def result_bind_Inr
      split: if_splits)

text \<open>The stages of an admitted request: the hooks, the decision, and the principal.\<close>

lemma dispatch_forward:
  assumes "dispatch cfg live r l now = (Inr (Forward p hs), l')"
    and "\<not> is_exempt (req_path r)" "req_method r \<noteq> ''OPTIONS''"
  shows "\<exists>c1 candidate pr. ask_hook (sec_principal_provider cfg) r None = Inr c1
    \<and> ask_hook (sec_authenticator cfg) r c1 = Inr candidate
    \<and> authenticate cfg (effective_key cfg live) candidate r = Inr True
    \<and> (if candidate \<noteq> None \<and> authenticated (the candidate) then Inr (the candidate)
       else request_identity cfg (effective_key cfg live) True r) = Inr pr
    \<and> p = Some pr"
proof -
  obtain pr where "identify cfg (effective_key cfg live) r = Inr (True, pr)" and p: "p = Some pr"
    using assms by (auto simp: dispatch_def Let_def dest: rate_limited_principal
        split: if_splits sum.splits prod.splits)
  then obtain c1 candidate where "ask_hook (sec_principal_provider cfg) r None = Inr c1"
    "ask_hook (sec_authenticator cfg) r c1 = Inr candidate"
    "authenticate cfg (effective_key cfg live) candidate r = Inr True"
    "(if candidate \<noteq> None \<and> authenticated (the candidate) then Inr (the candidate)
      else request_identity cfg (effective_key cfg live) True r) = Inr pr"
    unfolding identify_def result_bind_Inr sum.inject prod.inject by blast
  then show ?thesis
    using p by blast
qed

text \<open>C13. The middleware lets a request through to the application only when its path is exempt,
  when it is a CORS preflight (an OPTIONS request, on any path and without a principal), or when it carries an authenticated principal: one that a configured
  authentication hook returned as authenticated, or one built for a request that presents the
  configured, non-empty API key, or, in a deployment with neither a key nor hooks, the default
  principal.\<close>

theorem only_authenticated_requests_are_forwarded:
  assumes "dispatch cfg live r l now = (Inr (Forward p hs), l')"
  shows "is_exempt (req_path r) \<or> req_method r = ''OPTIONS'' \<or>
    (\<exists>pr. p = Some pr \<and> authenticated pr
       \<and> (vouched cfg r pr
          \<or> effective_key cfg live \<noteq> [] \<and> presents_key r (effective_key cfg live) = Inr True
          \<or> effective_key cfg live = [] \<and> sec_principal_provider cfg = None
            \<and> sec_authenticator cfg = None))"
proof (cases "is_exempt (req_path r) \<or> req_method r = ''OPTIONS''")
  case False
  then obtain c1 candidate pr where
    hooks: "ask_hook (sec_principal_provider cfg) r None = Inr c1"
      "ask_hook (sec_authenticator cfg) r c1 = Inr candidate"
    and auth: "authenticate cfg (effective_key cfg live) candidate r = Inr True"
    and pr: "(if candidate \<noteq> None \<and> authenticated (the candidate) then Inr (the candidate)
       else request_identity cfg (effective_key cfg live) True r) = Inr pr"
    and p: "p = Some pr"
    using dispatch_forward [OF assms] by blast
  show ?thesis
  proof (cases "candidate \<noteq> None \<and> authenticated (the candidate)")
    case True
    then have "vouched cfg r pr" using hooks pr by (auto intro: hooks_vouch)
    then show ?thesis using p pr True by auto
  next
    case ext: False
    then have "request_identity cfg (effective_key cfg live) True r = Inr pr"
      using pr by (simp split: if_splits)
    then have "authenticated pr"
      unfolding request_identity_def Let_def by (auto dest!: make_principal_fields)
    then show ?thesis
      using p auth ext presents_key_nonempty by (auto simp: authenticate_def split: if_splits)
  qed
qed blast

text \<open>The principal of a deployment, whatever the request says.\<close>

definition configured_id :: "string \<Rightarrow> string" where
  "configured_id s = (if str_strip s = [] then ''default'' else str_strip s)"

lemma str_strip_default: "str_strip ''default'' = ''default''"
  by (simp add: str_strip_def is_space_def)

lemma configured_id_strip [simp]: "str_strip (configured_id s) = configured_id s"
  by (simp add: configured_id_def str_strip_strip str_strip_default)

text \<open>In a deployment without authentication hooks, a request that does not come from a trusted
  identity source (the policy is off, or the trusted-proxy predicate rejects it) cannot choose
  who it is: whatever its headers, the principal it is forwarded with is the configured default
  workspace and user, without any role, and so is neither an administrator nor internal.\<close>

theorem untrusted_headers_grant_no_identity:
  assumes fwd: "dispatch cfg live r l now = (Inr (Forward p hs), l')"
    and guarded: "\<not> is_exempt (req_path r)" "req_method r \<noteq> ''OPTIONS''"
    and hooks: "sec_principal_provider cfg = None" "sec_authenticator cfg = None"
    and untrusted: "\<not> trusted_identity_source cfg r"
  shows "p = Some \<lparr>principal_id = configured_id (sec_default_user_id cfg),
      workspace_id = configured_id (sec_default_workspace_id cfg),
      user_id = configured_id (sec_default_user_id cfg), authenticated = True,
      auth_method = (if effective_key cfg live \<noteq> [] then SHARED_API_KEY else SERVICE),
      roles = []\<rparr>
    \<and> \<not> is_admin (the p) \<and> \<not> is_internal (the p)"
proof -
  obtain pr where "request_identity cfg (effective_key cfg live) True r = Inr pr" "p = Some pr"
    using dispatch_forward [OF fwd guarded] hooks by (auto simp: ask_hook_def)
  moreover have "configured_id s \<noteq> []" for s by (simp add: configured_id_def)
  ultimately have "pr = \<lparr>principal_id = configured_id (sec_default_user_id cfg),
      workspace_id = configured_id (sec_default_workspace_id cfg),
      user_id = configured_id (sec_default_user_id cfg), authenticated = True,
      auth_method = (if effective_key cfg live \<noteq> [] then SHARED_API_KEY else SERVICE),
      roles = []\<rparr>"
    using untrusted
    by (simp add: request_identity_def Let_def make_principal_def identifiers_are_not_blank_def
        configured_id_def [symmetric] dedupe_def) (metis (full_types))
  then show ?thesis using \<open>p = Some pr\<close> by (simp add: is_admin_def is_internal_def)
qed

definition sample_security :: security_settings where
  "sample_security = \<lparr>sec_api_key = ''k1'', sec_rate_limit_enabled = True,
     sec_default_workspace_id = ''ws'', sec_default_user_id = ''u'',
     sec_trust_x_forwarded_for = False, sec_trust_identity_headers = False,
     sec_principal_provider = None, sec_authenticator = None, sec_trusted_proxy = None\<rparr>"

definition sample_http :: http_request where
  "sample_http = \<lparr>req_path = ''/v1/threads'', req_method = ''GET'',
     req_headers = [(''x-api-key'', ''k1''), (''x-roles'', ''admin'')], req_client = Some ''h''\<rparr>"

definition sample_principal :: principal where
  "sample_principal = \<lparr>principal_id = ''u'', workspace_id = ''ws'', user_id = ''u'',
     authenticated = True, auth_method = SHARED_API_KEY, roles = []\<rparr>"

lemma sample_digits:
  "digit_char 6 = CHR ''6''" "digit_char 0 = CHR ''0''" "digit_char 5 = CHR ''5''"
  "digit_char 9 = CHR ''9''"
  by code_simp+

lemma sample_forward:
  "dispatch sample_security (Inr []) sample_http (new_limiter 60 60) 5 =
     (Inr (Forward (Some sample_principal)
        [(''X-RateLimit-Limit'', ''60''), (''X-RateLimit-Remaining'', ''59'')]),
      \<lparr>rl_limit = 60, rl_window_s = 60, rl_hits = [(''key:k1'', [5])]\<rparr>)"
  by (simp add: dispatch_def identify_def sample_security_def sample_http_def sample_principal_def
      is_exempt_def str_startswith_def effective_key_def ask_hook_def authenticate_def
      presents_key_def header_def str_strip_def is_space_def compare_digest_def is_ascii_def
      request_identity_def trusted_identity_source_def make_principal_def
      identifiers_are_not_blank_def dedupe_def rate_limited_def client_key_def new_limiter_def
      limiter_allow_def hits_of_def Let_def nat_str.simps sample_digits)

lemma sample_guarded: "\<not> is_exempt (req_path sample_http)" "req_method sample_http \<noteq> ''OPTIONS''"
  by (simp_all add: sample_http_def is_exempt_def str_startswith_def Let_def)

theorem only_authenticated_requests_are_forwarded_witness:
  "\<exists>pr. fst (dispatch sample_security (Inr []) sample_http (new_limiter 60 60) 5) =
      Inr (Forward (Some pr)
        [(''X-RateLimit-Limit'', ''60''), (''X-RateLimit-Remaining'', ''59'')])
    \<and> authenticated pr \<and> presents_key sample_http (sec_api_key sample_security) = Inr True"
  using only_authenticated_requests_are_forwarded [OF sample_forward] sample_guarded sample_forward
  by (auto simp: sample_security_def vouched_def effective_key_def)

theorem untrusted_headers_grant_no_identity_witness:
  "\<not> is_admin sample_principal \<and> roles sample_principal = []
   \<and> header sample_http ''x-roles'' = ''admin''
   \<and> fst (dispatch sample_security (Inr []) sample_http (new_limiter 60 60) 5) =
      Inr (Forward (Some sample_principal)
        [(''X-RateLimit-Limit'', ''60''), (''X-RateLimit-Remaining'', ''59'')])"
  using untrusted_headers_grant_no_identity [OF sample_forward sample_guarded]
  by (simp add: sample_forward)
    (simp add: sample_security_def trusted_identity_source_def sample_principal_def header_def
      sample_http_def)

section \<open>Limits of the rate limit\<close>

lemma identity_header_nonempty: "str_strip dflt \<noteq> [] \<Longrightarrow> str_strip (identity_header r names dflt) \<noteq> []"
  by (induction names) (simp_all add: Let_def)

text \<open>Building the principal never raises: its identifiers are never blank.\<close>

lemma request_identity_total: "\<exists>pr. request_identity cfg key authd r = Inr pr"
proof -
  have "str_strip (configured_id s) \<noteq> []" for s
    by (simp add: configured_id_def str_strip_default)
  then show ?thesis
    by (auto simp: request_identity_def Let_def make_principal_def identifiers_are_not_blank_def
        configured_id_def [symmetric] identity_header_nonempty)
qed

text \<open>The client key of a request that sends any API key header is that header, validated or
  not. In a deployment without a configured key and without hooks a client is therefore never
  limited as long as it sends a header value it has not sent before: the request is forwarded
  whatever the limiter holds, even when its host has used up its own limit.\<close>

theorem fresh_key_header_is_never_limited:
  assumes "effective_key cfg live = []" "sec_principal_provider cfg = None"
    and "sec_authenticator cfg = None" and "0 < rl_limit l"
    and "header r ''x-api-key'' = v" "v \<noteq> []" "dict_get (rl_hits l) (''key:'' @ take 16 v) = None"
  shows "\<exists>p hs l'. dispatch cfg live r l now = (Inr (Forward p hs), l')"
proof (cases "is_exempt (req_path r) \<or> req_method r = ''OPTIONS''")
  case False
  obtain pr where "request_identity cfg [] True r = Inr pr"
    using request_identity_total by blast
  then have "identify cfg [] r = Inr (True, pr)"
    using assms(1-3) by (simp add: identify_def ask_hook_def authenticate_def)
  moreover have "client_key r trust = ''key:'' @ take 16 v" for trust
    using assms(5,6) by (simp add: client_key_def Let_def)
  ultimately show ?thesis
    using assms(1,4,7) False
    by (simp add: dispatch_def Let_def rate_limited_def limiter_allow_def hits_of_def)
qed (simp add: dispatch_def)

definition sample_open :: security_settings where
  "sample_open = sample_security\<lparr>sec_api_key := []\<rparr>"

theorem fresh_key_header_is_never_limited_witness:
  "\<exists>p hs l'. dispatch sample_open (Inr []) sample_http
     \<lparr>rl_limit = 1, rl_window_s = 60, rl_hits = [(''ip:h'', [4])]\<rparr> 5 = (Inr (Forward p hs), l')"
  by (rule fresh_key_header_is_never_limited [of _ _ _ _ "''k1''"])
    (simp_all add: sample_open_def sample_security_def effective_key_def sample_http_def header_def)

section \<open>Mission access\<close>

datatype http_exception = HTTPException nat string

definition request_principal :: "principal option \<Rightarrow> http_exception + principal" where
  "request_principal state_principal = (case state_principal of
       None \<Rightarrow> Inl (HTTPException 401 ''authentication required'')
     | Some p \<Rightarrow> if authenticated p then Inr p
                 else Inl (HTTPException 401 ''authentication required''))"

definition can_access_mission ::
  "(json \<Rightarrow> string) \<Rightarrow> principal \<Rightarrow> json_obj \<Rightarrow> string \<Rightarrow> string \<Rightarrow> bool" where
  "can_access_mission show_value p raw default_ws default_user =
     (let ws = obj_get raw ''workspace_id''; owner = obj_get raw ''owner_user_id'' in
      if truthy ws \<and> truthy owner then owns p (py_str show_value ws) (py_str show_value owner)
      else is_internal p \<or> (workspace_id p = default_ws \<and> user_id p = default_user))"

definition require_mission_access ::
  "(json \<Rightarrow> string) \<Rightarrow> principal option \<Rightarrow> json_obj \<Rightarrow> string \<Rightarrow> string \<Rightarrow> http_exception + principal"
where
  "require_mission_access show_value state_principal raw default_ws default_user =
     (case request_principal state_principal of
        Inl e \<Rightarrow> Inl e
      | Inr p \<Rightarrow> if can_access_mission show_value p raw default_ws default_user then Inr p
                 else Inl (HTTPException 404 ''mission not found''))"

text \<open>Behind the middleware: a mission owned by somebody else in another workspace is not even
  acknowledged to a forwarded request, unless the principal is internal.\<close>

lemma foreign_mission_is_hidden:
  assumes "dict_get raw ''workspace_id'' = Some (JStr ws)" "ws \<noteq> []"
    and "dict_get raw ''owner_user_id'' = Some (JStr owner)" "owner \<noteq> []"
    and "workspace_id p \<noteq> ws" "\<not> is_internal p" "authenticated p"
  shows "require_mission_access show_value (Some p) raw dw du =
    Inl (HTTPException 404 ''mission not found'')"
  using assms
  by (simp add: require_mission_access_def request_principal_def can_access_mission_def obj_get_def
      py_str_def owns_def can_access_workspace_def)

end
