(* ===== verification/Event_Delivery.thy ===== *)
theory Event_Delivery
  imports Run_Store
begin

text \<open>
  How activity events come into a run's log and how they leave it:
  \<^verbatim>\<open>conversations/event_mapping_v1.py\<close> (legacy mission events), \<^verbatim>\<open>conversations/events.py\<close> (the
  append path) and \<^verbatim>\<open>conversations/privacy.py\<close> (visibility and redaction at delivery).

  The regular expressions of \<^verbatim>\<open>redact_text\<close>, the rendering of non-string values by \<^verbatim>\<open>str\<close> and
  pydantic's parsing of timestamps are parameters. Notification is left out of the append path:
  its result is discarded and its exceptions are suppressed.
\<close>

section \<open>Redaction\<close>

definition REDACTED :: string where "REDACTED = ''[REDACTED]''"

definition sensitive_keys :: "string list" where
  "sensitive_keys = [''api_key'', ''apikey'', ''authorization'', ''credential'', ''password'',
     ''secret'', ''token'']"

definition public_event_fields :: "string list" where
  "public_event_fields =
     [''agent'', ''agent_id'', ''artifact_id'', ''artifact_type'', ''claim_id'', ''confidence'',
      ''decision'', ''delta'', ''description'', ''duration_ms'', ''error'', ''error_code'',
      ''evidence_id'', ''evidence_ids'', ''family'', ''from_agent'', ''intent'',
      ''mapping_version'', ''message'', ''message_id'', ''mission_id'', ''name'', ''note'',
      ''reason_code'', ''route'', ''source_kind'', ''specialist'', ''status'', ''summary'',
      ''task_id'', ''title'', ''to_agent'', ''tool'', ''tool_name'', ''warning'', ''wave'',
      ''workflow_name'', ''workflow_version'']"

definition is_sensitive_key :: "string \<Rightarrow> bool" where
  "is_sensitive_key key = list_ex (\<lambda>frag. str_contains frag (str_lower key)) sensitive_keys"

primrec redact_data :: "(string \<Rightarrow> string) \<Rightarrow> json \<Rightarrow> string \<Rightarrow> json" where
  "redact_data rt JNull key = (if is_sensitive_key key then JStr REDACTED else JNull)"
| "redact_data rt (JBool b) key = (if is_sensitive_key key then JStr REDACTED else JBool b)"
| "redact_data rt (JInt i) key = (if is_sensitive_key key then JStr REDACTED else JInt i)"
| "redact_data rt (JNum r) key = (if is_sensitive_key key then JStr REDACTED else JNum r)"
| "redact_data rt (JStr s) key = (if is_sensitive_key key then JStr REDACTED else JStr (rt s))"
| "redact_data rt (JList xs) key =
     (if is_sensitive_key key then JStr REDACTED
      else JList (map (\<lambda>f. f []) (map (redact_data rt) xs)))"
| "redact_data rt (JObj kvs) key =
     (if is_sensitive_key key then JStr REDACTED
      else JObj (map (\<lambda>(k, f). (k, f k)) (map (map_prod id (redact_data rt)) kvs)))"

section \<open>Delivery\<close>

definition can_view_event :: "activity_event \<Rightarrow> principal \<Rightarrow> bool" where
  "can_view_event e p =
     (if \<not> authenticated p \<or> \<not> can_access_workspace p (ev_workspace_id e) then False
      else if ev_visibility e = VIS_INTERNAL then is_internal p
      else if ev_visibility e = VIS_ADMIN then is_admin p
      else case ev_owner_user_id e of
          None \<Rightarrow> True
        | Some u \<Rightarrow> owns p (ev_workspace_id e) u)"

definition redact_optional :: "(string \<Rightarrow> string) \<Rightarrow> string option \<Rightarrow> string option" where
  "redact_optional rt s = (if str_truthy s then Some (rt (the s)) else None)"

definition event_for_principal ::
  "(string \<Rightarrow> string) \<Rightarrow> activity_event \<Rightarrow> principal \<Rightarrow> activity_event option" where
  "event_for_principal rt e p =
     (if \<not> can_view_event e p then None
      else let public_payload = filter (\<lambda>(k, v). k \<in> set public_event_fields) (ev_payload e) in
        Some (e\<lparr>ev_title := redact_optional rt (ev_title e),
                ev_summary := redact_optional rt (ev_summary e),
                ev_payload := (case redact_data rt (JObj public_payload) [] of
                                 JObj kvs \<Rightarrow> kvs | _ \<Rightarrow> []),
                ev_metadata := []\<rparr>))"

section \<open>Mapping legacy mission events\<close>

definition kind_aliases :: "(string, string) dict" where
  "kind_aliases =
     [(''query_normalized'', ''mission_created''), (''plan_created'', ''task_plan_created''),
      (''decide_execute_wave'', ''task_wave_executed''),
      (''budget_exhausted'', ''mission_budget_exhausted''),
      (''handoff_rejected'', ''leadership_rejected''),
      (''skeptic_revise_remediation'', ''remediation_planned''),
      (''remediation_activate'', ''remediation_activated'')]"

definition canonical_kind :: "string \<Rightarrow> string" where
  "canonical_kind kind = (case dict_get kind_aliases kind of None \<Rightarrow> kind | Some k \<Rightarrow> k)"

definition canonical_event_types :: "string list" where
  "canonical_event_types =
     [''run.started'', ''intent.resolved'', ''plan.created'', ''agent.started'',
      ''agent.completed'', ''agent.handoff'', ''tool.started'', ''tool.completed'',
      ''tool.failed'', ''evidence.added'', ''decision.recorded'', ''warning.created'',
      ''artifact.created'', ''answer.delta'', ''answer.completed'', ''run.completed'',
      ''run.failed'', ''run.cancelled'']"

definition exact_kind_map :: "(string, string) dict" where
  "exact_kind_map =
     [(''mission_accepted'', ''run.started''), (''mission_created'', ''run.started''),
      (''query_normalized'', ''intent.resolved''),
      (''decomposition_created'', ''intent.resolved''),
      (''decomposition_refined'', ''intent.resolved''),
      (''task_plan_created'', ''plan.created''), (''plan_created'', ''plan.created''),
      (''task_specialists_activated'', ''agent.started''),
      (''leadership_transfer'', ''agent.handoff''),
      (''leadership_rejected'', ''warning.created''), (''claim_proposed'', ''evidence.added''),
      (''claim_validated'', ''decision.recorded''), (''claim_challenged'', ''warning.created''),
      (''claim_rejected'', ''warning.created''), (''skeptic_gate'', ''decision.recorded''),
      (''skeptic_pass'', ''decision.recorded''), (''skeptic_revise'', ''warning.created''),
      (''skeptic_reject'', ''warning.created''), (''remediation_planned'', ''plan.created''),
      (''remediation_activated'', ''agent.started''),
      (''remediation_round_done'', ''agent.completed''), (''specialist_error'', ''tool.failed''),
      (''specialist_skipped_policy'', ''warning.created''), (''observed'', ''agent.completed''),
      (''observe_skipped'', ''warning.created''), (''anomaly_done'', ''agent.completed''),
      (''diagnostic_done'', ''agent.completed''), (''prediction_done'', ''agent.completed''),
      (''strategy_done'', ''agent.completed''), (''mission_completed'', ''run.completed''),
      (''mission_partial'', ''run.completed''), (''mission_failed'', ''run.failed''),
      (''mission_cancelled'', ''run.cancelled''),
      (''mission_budget_exhausted'', ''warning.created'')]"

definition safe_source_fields :: "string list" where
  "safe_source_fields =
     [''agent'', ''agent_id'', ''artifact_id'', ''artifact_type'', ''claim_id'', ''confidence'',
      ''decision'', ''description'', ''duration_ms'', ''error'', ''error_code'',
      ''evidence_id'', ''evidence_ids'', ''family'', ''from_agent'', ''intent'',
      ''legacy_kind'', ''message'', ''mission_id'', ''name'', ''reason_code'', ''route'',
      ''specialist'', ''status'', ''summary'', ''task_id'', ''title'', ''to_agent'', ''tool'',
      ''tool_name'', ''warning'', ''wave'', ''workflow_name'', ''workflow_version'']"

definition event_type_for_mission_kind :: "string \<Rightarrow> string option" where
  "event_type_for_mission_kind kind =
     (let original = str_lower (str_strip kind); canonical = canonical_kind original;
          mapped = (case dict_get exact_kind_map original of
                      None \<Rightarrow> dict_get exact_kind_map canonical | Some t \<Rightarrow> Some t) in
      if mapped \<noteq> None then mapped
      else if str_startswith original ''tool_'' then
        (if str_contains ''failed'' original \<or> str_contains ''error'' original
         then Some ''tool.failed''
         else if str_contains ''completed'' original \<or> str_contains ''done'' original
                 \<or> str_contains ''result'' original
         then Some ''tool.completed'' else Some ''tool.started'')
      else if str_startswith original ''artifact_'' then Some ''artifact.created''
      else if str_startswith original ''specialist_'' then
        (if str_endswith original ''_done'' \<or> str_endswith original ''_completed''
         then Some ''agent.completed'' else Some ''agent.started'')
      else None)"

definition safe_payload :: "json_obj \<Rightarrow> string \<Rightarrow> json_obj" where
  "safe_payload source kind =
     dict_set (dict_set
       (filter (\<lambda>(k, v). k \<in> set safe_source_fields \<and> k \<notin> {''title'', ''summary''}) source)
       ''source_kind'' (JStr kind)) ''mapping_version'' (JStr ''1'')"

text \<open>\<^verbatim>\<open>str(a or "") or None\<close>.\<close>

definition optional_text :: "(json \<Rightarrow> string) \<Rightarrow> json \<Rightarrow> string option" where
  "optional_text sv v =
     (let s = py_str sv (json_or v (JStr [])) in if s = [] then None else Some s)"

text \<open>\<^verbatim>\<open>int(v or 0)\<close> inside \<^verbatim>\<open>try ... except (TypeError, ValueError)\<close>, which yields 0.
  \<open>parse_int\<close> is \<^verbatim>\<open>int\<close> on a string.\<close>

definition seq_part :: "(string \<Rightarrow> int option) \<Rightarrow> json \<Rightarrow> int" where
  "seq_part parse_int v = (case json_or v (JInt 0) of
       JInt i \<Rightarrow> i
     | JBool b \<Rightarrow> (if b then 1 else 0)
     | JNum r \<Rightarrow> (if 0 \<le> r then \<lfloor>r\<rfloor> else \<lceil>r\<rceil>)
     | JStr s \<Rightarrow> (case parse_int s of None \<Rightarrow> 0 | Some i \<Rightarrow> i)
     | _ \<Rightarrow> 0)"

text \<open>\<^verbatim>\<open>[str(item) for item in event.get("evidence_ids", [])]\<close>\<close>

definition evidence_list :: "(json \<Rightarrow> string) \<Rightarrow> json_obj \<Rightarrow> string list result" where
  "evidence_list sv event = (case dict_get event ''evidence_ids'' of
       None \<Rightarrow> Inr []
     | Some (JList xs) \<Rightarrow> Inr (map (py_str sv) xs)
     | Some (JStr s) \<Rightarrow> Inr (map (\<lambda>c. [c]) s)
     | Some (JObj kvs) \<Rightarrow> Inr (dict_keys kvs)
     | Some _ \<Rightarrow> Inl (TypeError ''object is not iterable''))"

text \<open>\<^verbatim>\<open>isinstance(v, int)\<close> holds for booleans too; the contract demands \<^verbatim>\<open>duration_ms >= 0\<close>.\<close>

definition duration_field :: "json_obj \<Rightarrow> nat option result" where
  "duration_field event = (case obj_get event ''duration_ms'' of
       JInt i \<Rightarrow> if i < 0 then Inl (ValueError ''duration_ms'') else Inr (Some (nat i))
     | JBool b \<Rightarrow> Inr (Some (if b then 1 else 0))
     | _ \<Rightarrow> Inr None)"

record mapping_env =
  show_value :: "json \<Rightarrow> string"
  parse_int :: "string \<Rightarrow> int option"
  parse_ts :: "string \<Rightarrow> moment result"

definition mission_kind :: "mapping_env \<Rightarrow> json_obj \<Rightarrow> string" where
  "mission_kind env event =
     str_lower (str_strip (py_str (show_value env)
       (json_or (obj_get event ''kind'') (json_or (obj_get event ''legacy_kind'') (JStr [])))))"

definition mission_event_id :: "mapping_env \<Rightarrow> json_obj \<Rightarrow> run \<Rightarrow> string \<Rightarrow> nat \<Rightarrow> string" where
  "mission_event_id env event r attempt_id ordinal =
     (let sp = seq_part (parse_int env) (obj_get event ''seq'');
          disc = (if 0 < sp then ''seq'' @ nat_str (nat sp) else ''p'' @ nat_str ordinal) in
      ''event_mission_'' @ run_id r @ ''_'' @ attempt_id @ ''_'' @ disc @ ''_''
      @ mission_kind env event)"

definition map_mission_event ::
  "mapping_env \<Rightarrow> json_obj \<Rightarrow> run \<Rightarrow> string \<Rightarrow> nat \<Rightarrow> activity_event option result" where
  "map_mission_event env event r attempt_id ordinal =
     (let kind = mission_kind env event; sv = show_value env in
      case event_type_for_mission_kind kind of
        None \<Rightarrow> Inr None
      | Some event_type \<Rightarrow>
          result_bind (evidence_list sv event) (\<lambda>evidence.
          result_bind (duration_field event) (\<lambda>duration.
          result_bind (case obj_get event ''ts'' of JStr s \<Rightarrow> parse_ts env s
                       | _ \<Rightarrow> Inr (run_created_at r)) (\<lambda>created_at.
          Inr (Some
            \<lparr>ev_id = mission_event_id env event r attempt_id ordinal,
             ev_thread_id = run_thread_id r, ev_workspace_id = run_workspace_id r,
             ev_run_id = Some (run_id r), ev_owner_user_id = Some (run_requested_by_user_id r),
             ev_actor_user_id = None, ev_sequence = 0, ev_thread_sequence = 0,
             ev_event_type = event_type,
             ev_actor_type = Some (if str_startswith event_type ''agent.''
                                      \<or> str_startswith event_type ''tool.''
                                   then ''agent'' else ''system''),
             ev_actor_id = optional_text sv
                (json_or (obj_get event ''specialist'') (obj_get event ''agent_id'')),
             ev_title = optional_text sv (obj_get event ''title''),
             ev_summary = optional_text sv
                (json_or (obj_get event ''summary'') (obj_get event ''message'')),
             ev_parent_event_id = None, ev_visibility = VIS_USER, ev_evidence_ids = evidence,
             ev_payload = safe_payload event kind,
             ev_metadata = [(''source'', JStr ''mission_event''), (''mapping_version'', JStr ''1'')],
             ev_started_at = None, ev_completed_at = None, ev_duration_ms = duration,
             ev_created_at = created_at\<rparr>)))))"

section \<open>The append path\<close>

fun ingest_from ::
  "mapping_env \<Rightarrow> run \<Rightarrow> string \<Rightarrow> string list \<Rightarrow> nat \<Rightarrow> json_obj list \<Rightarrow> run_store
   \<Rightarrow> activity_event list result \<times> run_store" where
  "ingest_from env r attempt_id excluded n [] rs = (Inr [], rs)"
| "ingest_from env r attempt_id excluded n (source # sources) rs =
     (case map_mission_event env source r attempt_id n of
        Inl e \<Rightarrow> (Inl e, rs)
      | Inr mapped \<Rightarrow>
        if mapped \<noteq> None \<and> ev_event_type (the mapped) \<notin> set excluded
        then (case append_event (the mapped) rs of
            Inl e \<Rightarrow> (Inl e, rs)
          | Inr (ev, rs1) \<Rightarrow>
              (case ingest_from env r attempt_id excluded (Suc n) sources rs1 of
                 (res, rs2) \<Rightarrow> (result_bind res (\<lambda>evs. Inr (ev # evs)), rs2)))
        else ingest_from env r attempt_id excluded (Suc n) sources rs)"

definition ingest_mission_events ::
  "mapping_env \<Rightarrow> run \<Rightarrow> string \<Rightarrow> string list \<Rightarrow> json_obj list \<Rightarrow> run_store
   \<Rightarrow> activity_event list result \<times> run_store" where
  "ingest_mission_events env r attempt_id excluded events rs =
     ingest_from env r attempt_id excluded 1 events rs"

section \<open>Ingestion is idempotent and merges nothing\<close>

definition settled :: "run_store \<Rightarrow> string \<Rightarrow> string \<Rightarrow> activity_event \<Rightarrow> bool" where
  "settled rs rid eid ev = (dict_get (rs_events rs) rid \<noteq> None
     \<and> find (\<lambda>x. ev_id x = eid) (run_events rs rid) = Some ev)"

definition keeps_settled :: "run_store \<Rightarrow> run_store \<Rightarrow> bool" where
  "keeps_settled rs rs' = (\<forall>rid eid ev. settled rs rid eid ev \<longrightarrow> settled rs' rid eid ev)"

abbreviation event_run :: "activity_event \<Rightarrow> string" where
  "event_run e \<equiv> (case ev_run_id e of None \<Rightarrow> [] | Some r \<Rightarrow> r)"

lemma find_append: "find p (xs @ ys) = (case find p xs of None \<Rightarrow> find p ys | Some x \<Rightarrow> Some x)"
  by (induction xs) auto

lemma append_settled:
  assumes "settled rs (event_run e) (ev_id e) ev"
  shows "append_event e rs = Inr (ev, rs)"
proof -
  have "touch_events (event_run e) rs = rs"
    using assms by (auto simp: settled_def touch_events_def dict_setdefault_def split: option.splits)
  then show ?thesis using assms by (simp add: append_event_def settled_def Let_def)
qed

lemma touch_run_events [simp]: "run_events (touch_events rid rs) k = run_events rs k"
  by (auto simp: run_events_def touch_events_def)

lemma append_event_grows:
  assumes "append_event e rs = Inr (ev, rs')"
  shows "keeps_settled rs rs' \<and> settled rs' (event_run e) (ev_id e) ev \<and> ev_id ev = ev_id e"
proof (cases "find (\<lambda>x. ev_id x = ev_id e) (run_events rs (event_run e))")
  case None
  then obtain st where st: "ev = st" "ev_id st = ev_id e"
      "rs' = push_event (event_run e) st (touch_events (event_run e) rs)"
    using assms by (auto simp: append_event_def Let_def split: if_splits)
  have "run_events rs' k = run_events rs k @ (if k = event_run e then [st] else [])" for k
    by (simp add: st(3) push_event_def) (simp add: run_events_def touch_events_def)
  moreover have "dict_get (rs_events rs') k \<noteq> None"
    if "dict_get (rs_events rs) k \<noteq> None \<or> k = event_run e" for k
    using that by (auto simp: st(3) push_event_def touch_events_def)
  ultimately show ?thesis
    using None st(1,2) by (auto simp: keeps_settled_def settled_def find_append)
next
  case (Some x)
  then have "ev = x" "rs' = touch_events (event_run e) rs"
    using assms by (auto simp: append_event_def Let_def)
  moreover have "ev_id x = ev_id e" using Some by (auto dest: find_SomeD)
  ultimately show ?thesis
    using Some by (auto simp: keeps_settled_def settled_def) (auto simp: touch_events_def)
qed

lemma keeps_settled_trans: "keeps_settled a b \<Longrightarrow> keeps_settled b c \<Longrightarrow> keeps_settled a c"
  by (simp add: keeps_settled_def)

lemma ingest_from_grows:
  "ingest_from env r att ex n sources rs = (res, rs') \<Longrightarrow> keeps_settled rs rs'"
proof (induction sources arbitrary: n rs res)
  case Nil
  then show ?case by (simp add: keeps_settled_def)
next
  case (Cons a sources)
  then show ?case
    by (fastforce split: sum.splits if_splits prod.splits simp: keeps_settled_def
        dest: append_event_grows)
qed

lemma ingest_from_again:
  assumes "ingest_from env r att ex n sources rs = (Inr evs, rs1)" and "keeps_settled rs1 rs2"
  shows "ingest_from env r att ex n sources rs2 = (Inr evs, rs2)"
  using assms
proof (induction sources arbitrary: n rs evs)
  case (Cons src sources)
  obtain mapped where mapped: "map_mission_event env src r att n = Inr mapped"
    using Cons.prems(1) by (auto split: sum.splits)
  show ?case
  proof (cases "mapped \<noteq> None \<and> ev_event_type (the mapped) \<notin> set ex")
    case False
    then show ?thesis using Cons mapped by auto
  next
    case True
    obtain ev rs0 evs' where step: "append_event (the mapped) rs = Inr (ev, rs0)"
      and rest: "ingest_from env r att ex (Suc n) sources rs0 = (Inr evs', rs1)"
      and evs: "evs = ev # evs'"
      using Cons.prems(1) mapped True by (auto simp: result_bind_Inr split: sum.splits prod.splits)
    have "keeps_settled rs0 rs2"
      using ingest_from_grows [OF rest] Cons.prems(2) by (rule keeps_settled_trans)
    then have "settled rs2 (event_run (the mapped)) (ev_id (the mapped)) ev"
      using append_event_grows [OF step] by (simp add: keeps_settled_def)
    then show ?thesis
      using Cons.IH [OF rest Cons.prems(2)] mapped True evs by (simp add: append_settled)
  qed
qed simp

lemma map_mission_event_id:
  "map_mission_event env src r att n = Inr (Some e) \<Longrightarrow> ev_id e = mission_event_id env src r att n"
  by (auto simp: map_mission_event_def Let_def result_bind_Inr split: option.splits)

lemma ordinal_id_inj:
  assumes "seq_part (parse_int env) (obj_get a ''seq'') \<le> 0"
    and "seq_part (parse_int env) (obj_get b ''seq'') \<le> 0"
    and "mission_event_id env a r att n = mission_event_id env b r att m"
  shows "n = m"
proof -
  have cut: "takeWhile (\<lambda>c. c \<noteq> CHR ''_'') (nat_str k @ CHR ''_'' # xs) = nat_str k" for k xs
    by (subst takeWhile_append2) (auto dest: nat_str_digits)
  have "nat_str n @ CHR ''_'' # mission_kind env a = nat_str m @ CHR ''_'' # mission_kind env b"
    using assms by (simp add: mission_event_id_def Let_def)
  then have "nat_str n = nat_str m" using cut by metis
  then show ?thesis by (rule nat_str_inj)
qed

lemma ingest_from_ids:
  assumes "ingest_from env r att ex n sources rs = (Inr evs, rs')"
    and "\<forall>s \<in> set sources. seq_part (parse_int env) (obj_get s ''seq'') \<le> 0"
  shows "distinct (map ev_id evs)
    \<and> (\<forall>e \<in> set evs. \<exists>m s. n \<le> m \<and> s \<in> set sources \<and> ev_id e = mission_event_id env s r att m)"
  using assms
proof (induction sources arbitrary: n rs evs)
  case (Cons src sources)
  obtain mapped where mapped: "map_mission_event env src r att n = Inr mapped"
    using Cons.prems(1) by (auto split: sum.splits)
  show ?case
  proof (cases "mapped \<noteq> None \<and> ev_event_type (the mapped) \<notin> set ex")
    case False
    then have rest: "ingest_from env r att ex (Suc n) sources rs = (Inr evs, rs')"
      using Cons.prems(1) mapped by (simp split: if_splits)
    from Cons.IH [OF rest] Cons.prems(2) show ?thesis
      by (meson Suc_leD list.set_intros(2))
  next
    case True
    obtain ev rs0 evs' where step: "append_event (the mapped) rs = Inr (ev, rs0)"
      and rest: "ingest_from env r att ex (Suc n) sources rs0 = (Inr evs', rs')"
      and evs: "evs = ev # evs'"
      using Cons.prems(1) mapped True by (auto simp: result_bind_Inr split: sum.splits prod.splits)
    have ev: "ev_id ev = mission_event_id env src r att n"
      using append_event_grows [OF step] map_mission_event_id mapped True by auto
    have IH: "distinct (map ev_id evs')" "\<forall>e \<in> set evs'. \<exists>m s. Suc n \<le> m \<and> s \<in> set sources
        \<and> ev_id e = mission_event_id env s r att m"
      using Cons.IH [OF rest] Cons.prems(2) by auto
    have "ev_id ev \<notin> ev_id ` set evs'"
    proof
      assume "ev_id ev \<in> ev_id ` set evs'"
      then obtain m s where "Suc n \<le> m" "s \<in> set sources"
        and "mission_event_id env src r att n = mission_event_id env s r att m"
        using IH(2) ev by force
      then show False using ordinal_id_inj [of env src s r att n m] Cons.prems(2) by simp
    qed
    moreover have "\<forall>e \<in> set evs. \<exists>m s. n \<le> m \<and> s \<in> set (src # sources)
        \<and> ev_id e = mission_event_id env s r att m"
      using IH(2) ev evs by (metis Suc_leD le_refl list.set_intros set_ConsD)
    ultimately show ?thesis using IH(1) evs by simp
  qed
qed simp

text \<open>Ingesting a mission's events a second time, at any later moment of the same run log,
  returns the events that the first ingestion stored and appends nothing; and of source events
  without a sequence number of their own no two are merged into one.\<close>

theorem ingestion_is_idempotent:
  assumes "ingest_mission_events env r att ex sources rs = (Inr evs, rs1)"
    and "keeps_settled rs1 rs2"
  shows "ingest_mission_events env r att ex sources rs2 = (Inr evs, rs2)
    \<and> ((\<forall>s \<in> set sources. seq_part (parse_int env) (obj_get s ''seq'') \<le> 0)
        \<longrightarrow> distinct (map ev_id evs))"
  using assms ingest_from_again ingest_from_ids unfolding ingest_mission_events_def by blast

definition sample_run_record :: run where
  "sample_run_record = \<lparr>run_id = ''r1'', run_thread_id = ''t1'', run_workspace_id = ''ws'',
     run_requested_by_user_id = ''u'', run_mission_id = None, run_status = RUNNING,
     run_current_attempt = 1, run_max_attempts = 3, run_retry_count = 0, run_next_retry_at = None,
     run_cancel_requested_at = None, run_metadata = [], run_created_at = 5, run_started_at = None,
     run_completed_at = None\<rparr>"

definition sample_mapping_env :: mapping_env where
  "sample_mapping_env = \<lparr>show_value = (\<lambda>_. ''?''), parse_int = (\<lambda>_. None),
     parse_ts = (\<lambda>_. Inl (ValueError ''ts''))\<rparr>"

definition sample_mission_events :: "json_obj list" where
  "sample_mission_events = [[(''kind'', JStr ''observed'')], [(''kind'', JStr ''observed'')]]"

lemma sample_events_mapped:
  "event_type_for_mission_kind ''observed'' = Some ''agent.completed''"
  "mission_kind sample_mapping_env [(''kind'', JStr ''observed'')] = ''observed''"
  by code_simp+

lemma sample_ingest:
  "\<exists>evs rs1. ingest_mission_events sample_mapping_env sample_run_record ''a'' []
     sample_mission_events empty_run_store = (Inr evs, rs1) \<and> length evs = 2"
  by (auto simp: ingest_mission_events_def sample_mission_events_def map_mission_event_def
      sample_events_mapped evidence_list_def duration_field_def obj_get_def append_event_def Let_def
      split: option.splits)

theorem ingestion_is_idempotent_witness:
  "\<exists>evs rs1. ingest_mission_events sample_mapping_env sample_run_record ''a'' []
      sample_mission_events empty_run_store = (Inr evs, rs1)
    \<and> ingest_mission_events sample_mapping_env sample_run_record ''a'' []
        sample_mission_events rs1 = (Inr evs, rs1)
    \<and> length evs = 2 \<and> distinct (map ev_id evs)"
proof -
  obtain evs rs1 where run: "ingest_mission_events sample_mapping_env sample_run_record ''a'' []
      sample_mission_events empty_run_store = (Inr evs, rs1)" and "length evs = 2"
    using sample_ingest by blast
  moreover have "keeps_settled rs1 rs1" by (simp add: keeps_settled_def)
  ultimately show ?thesis
    using ingestion_is_idempotent [OF run]
    by (auto simp: sample_mission_events_def seq_part_def json_or_def obj_get_def)
qed

lemma mapped_values_canonical:
  "list_all (\<lambda>kv. snd kv \<in> set canonical_event_types) exact_kind_map"
  by (simp add: exact_kind_map_def canonical_event_types_def)

text \<open>Every mapped event has one of the public event types.\<close>

lemma mapped_event_type_is_canonical:
  assumes "event_type_for_mission_kind kind = Some t"
  shows "t \<in> set canonical_event_types"
proof -
  have exact: "dict_get exact_kind_map k = Some t \<Longrightarrow> t \<in> set canonical_event_types" for k
    using mapped_values_canonical by (auto simp: list_all_iff dest!: map_of_SomeD)
  then show ?thesis
    using assms by (auto simp: event_type_for_mission_kind_def Let_def split: option.splits if_splits)
      (simp_all add: canonical_event_types_def)
qed

text \<open>The aliases do not normalise every old kind: the exact map is consulted first, and an old
  \<^verbatim>\<open>query_normalized\<close> record becomes an intent, not the start of a run as its alias does.\<close>

lemma alias_is_shadowed:
  "event_type_for_mission_kind ''query_normalized'' = Some ''intent.resolved''"
  "canonical_kind ''query_normalized'' = ''mission_created''"
  "event_type_for_mission_kind ''mission_created'' = Some ''run.started''"
  by code_simp+

section \<open>What a viewer can see\<close>

text \<open>All dictionary entries of a value at any depth, and all its strings.\<close>

primrec entries :: "json \<Rightarrow> (string \<times> json) list" where
  "entries JNull = []"
| "entries (JBool b) = []"
| "entries (JInt i) = []"
| "entries (JNum r) = []"
| "entries (JStr s) = []"
| "entries (JList xs) = concat (map entries xs)"
| "entries (JObj kvs) = kvs @ concat (map snd (map (map_prod id entries) kvs))"

primrec strings :: "json \<Rightarrow> string list" where
  "strings JNull = []"
| "strings (JBool b) = []"
| "strings (JInt i) = []"
| "strings (JNum r) = []"
| "strings (JStr s) = [s]"
| "strings (JList xs) = concat (map strings xs)"
| "strings (JObj kvs) = concat (map snd (map (map_prod id strings) kvs))"

lemma redact_sensitive: "is_sensitive_key key \<Longrightarrow> redact_data rt v key = JStr REDACTED"
  by (cases v) simp_all

lemma empty_key_not_sensitive [simp]: "\<not> is_sensitive_key []"
  by (simp add: is_sensitive_key_def sensitive_keys_def str_lower_def)

lemma redact_entries:
  "(k, w) \<in> set (entries (redact_data rt v key)) \<Longrightarrow> is_sensitive_key k \<Longrightarrow> w = JStr REDACTED"
proof (induction v arbitrary: key k w)
  case (JList xs)
  then show ?case by (fastforce split: if_splits)
next
  case (JObj kvs)
  then show ?case by (fastforce simp: redact_sensitive split: if_splits)
qed (auto split: if_splits)

lemma redact_strings:
  "s \<in> set (strings (redact_data rt v key)) \<Longrightarrow> s = REDACTED \<or> (\<exists>t \<in> set (strings v). s = rt t)"
proof (induction v arbitrary: key s)
  case (JList xs)
  then show ?case by (fastforce split: if_splits)
next
  case (JObj kvs)
  then show ?case by (fastforce split: if_splits)
qed (auto split: if_splits)

lemma redacted_payload:
  "(case redact_data rt (JObj kvs) [] of JObj kvs' \<Rightarrow> kvs' | _ \<Rightarrow> []) =
     map (\<lambda>(k, v). (k, redact_data rt v k)) kvs"
  by (simp add: split_def comp_def map_prod_def)

text \<open>C15. An event reaches a principal only when the principal is authenticated, has access to the
  event's workspace, and the event is meant for them: internal events for internal principals,
  administrative ones for administrators, others for their owner or an administrator. What is
  delivered has no metadata and only public payload fields; at every depth of the payload a value
  under a sensitive key is the redaction mark, and every string, like the title and the summary,
  is the mark or the result of redacting a text of the original.\<close>

theorem delivered_events_are_redacted:
  assumes "event_for_principal rt e p = Some e'"
  shows "authenticated p \<and> can_access_workspace p (ev_workspace_id e)
    \<and> (case ev_visibility e of
         VIS_INTERNAL \<Rightarrow> is_internal p | VIS_ADMIN \<Rightarrow> is_admin p
       | VIS_USER \<Rightarrow> \<forall>u. ev_owner_user_id e = Some u \<longrightarrow> user_id p = u \<or> is_admin p)
    \<and> ev_metadata e' = [] \<and> set (dict_keys (ev_payload e')) \<subseteq> set public_event_fields
    \<and> (\<forall>k w. (k, w) \<in> set (entries (JObj (ev_payload e'))) \<and> is_sensitive_key k
         \<longrightarrow> w = JStr REDACTED)
    \<and> (\<forall>s \<in> set (strings (JObj (ev_payload e'))). s = REDACTED
         \<or> (\<exists>t \<in> set (strings (JObj (ev_payload e))). s = rt t))
    \<and> (\<forall>s. ev_title e' = Some s \<or> ev_summary e' = Some s
         \<longrightarrow> (\<exists>t. (ev_title e = Some t \<or> ev_summary e = Some t) \<and> s = rt t))"
proof -
  let ?pub = "filter (\<lambda>(k, v). k \<in> set public_event_fields) (ev_payload e)"
  have view: "can_view_event e p" and e': "e' = e\<lparr>ev_title := redact_optional rt (ev_title e),
      ev_summary := redact_optional rt (ev_summary e),
      ev_payload := map (\<lambda>(k, v). (k, redact_data rt v k)) ?pub, ev_metadata := []\<rparr>"
    using assms by (auto simp: event_for_principal_def Let_def redacted_payload
        simp del: redact_data.simps split: if_splits)
  have red: "JObj (ev_payload e') = redact_data rt (JObj ?pub) []"
    by (simp add: e' split_def comp_def map_prod_def)
  have "set (strings (JObj ?pub)) \<subseteq> set (strings (JObj (ev_payload e)))" by auto
  then have "\<forall>s \<in> set (strings (JObj (ev_payload e'))). s = REDACTED
      \<or> (\<exists>t \<in> set (strings (JObj (ev_payload e))). s = rt t)"
    using redact_strings unfolding red by blast
  moreover have "\<forall>k w. (k, w) \<in> set (entries (JObj (ev_payload e'))) \<and> is_sensitive_key k
      \<longrightarrow> w = JStr REDACTED"
    using redact_entries unfolding red by blast
  moreover have "set (dict_keys (ev_payload e')) \<subseteq> set public_event_fields"
    by (auto simp: e')
  moreover have "authenticated p \<and> can_access_workspace p (ev_workspace_id e)
      \<and> (case ev_visibility e of
           VIS_INTERNAL \<Rightarrow> is_internal p | VIS_ADMIN \<Rightarrow> is_admin p
         | VIS_USER \<Rightarrow> \<forall>u. ev_owner_user_id e = Some u \<longrightarrow> user_id p = u \<or> is_admin p)"
    using view by (cases "ev_visibility e")
      (auto simp: can_view_event_def owns_def split: if_splits option.splits)
  moreover have "\<forall>s. ev_title e' = Some s \<or> ev_summary e' = Some s
         \<longrightarrow> (\<exists>t. (ev_title e = Some t \<or> ev_summary e = Some t) \<and> s = rt t)"
    by (cases "ev_title e"; cases "ev_summary e") (auto simp: e' redact_optional_def)
  ultimately show ?thesis by (simp add: e' del: strings.simps entries.simps)
qed

definition sample_activity :: activity_event where
  "sample_activity = \<lparr>ev_id = ''e1'', ev_thread_id = ''t1'', ev_workspace_id = ''ws'',
     ev_run_id = Some ''r1'', ev_owner_user_id = Some ''u'', ev_actor_user_id = None,
     ev_sequence = 1, ev_thread_sequence = 1, ev_event_type = ''tool.completed'',
     ev_actor_type = None, ev_actor_id = None, ev_title = Some ''mail a@b.c'', ev_summary = None,
     ev_parent_event_id = None, ev_visibility = VIS_USER, ev_evidence_ids = [],
     ev_payload = [(''tool'', JObj [(''api_key'', JStr ''k'')]), (''reasoning'', JStr ''x'')],
     ev_metadata = [(''trace'', JStr ''x'')], ev_started_at = None, ev_completed_at = None,
     ev_duration_ms = None, ev_created_at = 5\<rparr>"

definition sample_viewer :: principal where
  "sample_viewer = \<lparr>principal_id = ''u'', workspace_id = ''ws'', user_id = ''u'',
     authenticated = True, auth_method = SERVICE, roles = []\<rparr>"

lemma api_key_sensitive: "is_sensitive_key ''api_key''" "\<not> is_sensitive_key ''tool''"
  by code_simp+

lemma sample_delivery:
  "event_for_principal (\<lambda>_. ''*'') sample_activity sample_viewer =
     Some (sample_activity\<lparr>ev_title := Some ''*'',
       ev_payload := [(''tool'', JObj [(''api_key'', JStr REDACTED)])], ev_metadata := []\<rparr>)"
  by (simp add: event_for_principal_def can_view_event_def can_access_workspace_def owns_def
      sample_activity_def sample_viewer_def redact_optional_def public_event_fields_def
      api_key_sensitive Let_def)

theorem delivered_events_are_redacted_witness:
  "event_for_principal (\<lambda>_. ''*'') sample_activity sample_viewer \<noteq> None
   \<and> ev_metadata (the (event_for_principal (\<lambda>_. ''*'') sample_activity sample_viewer)) = []
   \<and> set (dict_keys (ev_payload (the (event_for_principal (\<lambda>_. ''*'') sample_activity
        sample_viewer)))) \<subseteq> set public_event_fields"
  using delivered_events_are_redacted [OF sample_delivery] by (simp add: sample_delivery)

end
