(* ===== verification/Caches.thy ===== *)
theory Caches
  imports Prelude
begin

text \<open>
  The two in-process caches: \<^verbatim>\<open>utils/ttl_cache.py\<close> (a bounded, expiring LRU cache) and
  \<^verbatim>\<open>state/cache.py\<close> (\<^verbatim>\<open>MissionQueryCache\<close>, which lets concurrent callers of one key share a
  single fetch).

  An \<^verbatim>\<open>OrderedDict\<close> is a dictionary in its order, oldest entry first. The asynchronous
  \<^verbatim>\<open>get_or_fetch\<close> is split at its \<^verbatim>\<open>await\<close>: a call either returns at once, joins the fetch
  that is in flight for its key or starts one; the end of a fetch answers everybody who waits
  for it. A run of the event loop is a sequence of such steps.
\<close>

section \<open>The TTL cache\<close>

record ('k, 'v) ttl_cache =
  tc_maxsize :: int
  tc_ttl_s :: rat
  tc_store :: "('k, rat \<times> 'v) dict"

definition new_ttl_cache :: "int \<Rightarrow> rat \<Rightarrow> ('k, 'v) ttl_cache" where
  "new_ttl_cache maxsize ttl = \<lparr>tc_maxsize = maxsize, tc_ttl_s = ttl, tc_store = []\<rparr>"

text \<open>\<^verbatim>\<open>d.move_to_end(k)\<close> for a present key.\<close>

definition move_to_end :: "('k, 'v) dict \<Rightarrow> 'k \<Rightarrow> ('k, 'v) dict" where
  "move_to_end d k = (case dict_get d k of None \<Rightarrow> d | Some v \<Rightarrow> dict_del d k @ [(k, v)])"

definition ttl_get :: "('k, 'v) ttl_cache \<Rightarrow> rat \<Rightarrow> 'k \<Rightarrow> 'v option \<times> ('k, 'v) ttl_cache" where
  "ttl_get c now key = (case dict_get (tc_store c) key of
       None \<Rightarrow> (None, c)
     | Some (expires_at, v) \<Rightarrow>
         if expires_at < now then (None, c\<lparr>tc_store := dict_del (tc_store c) key\<rparr>)
         else (Some v, c\<lparr>tc_store := move_to_end (tc_store c) key\<rparr>))"

text \<open>\<^verbatim>\<open>while len(store) > maxsize: store.popitem(last=False)\<close>; \<^verbatim>\<open>popitem\<close> on an empty
  dictionary raises.\<close>

fun evict :: "int \<Rightarrow> ('k, 'v) dict \<Rightarrow> unit result \<times> ('k, 'v) dict" where
  "evict maxsize [] =
     (if maxsize < 0 then Inl (KeyError ''dictionary is empty'') else Inr (), [])"
| "evict maxsize (kv # d) =
     (if maxsize < int (length (kv # d)) then evict maxsize d else (Inr (), kv # d))"

definition ttl_put ::
  "('k, 'v) ttl_cache \<Rightarrow> 'k \<Rightarrow> rat \<times> 'v \<Rightarrow> unit result \<times> ('k, 'v) ttl_cache" where
  "ttl_put c key entry =
     (case evict (tc_maxsize c) (move_to_end (dict_set (tc_store c) key entry) key) of
        (res, d) \<Rightarrow> (res, c\<lparr>tc_store := d\<rparr>))"

definition ttl_set ::
  "('k, 'v) ttl_cache \<Rightarrow> rat \<Rightarrow> 'k \<Rightarrow> 'v \<Rightarrow> unit result \<times> ('k, 'v) ttl_cache" where
  "ttl_set c now key v = ttl_put c key (now + tc_ttl_s c, v)"

definition ttl_clear :: "('k, 'v) ttl_cache \<Rightarrow> ('k, 'v) ttl_cache" where
  "ttl_clear c = c\<lparr>tc_store := []\<rparr>"

subsection \<open>Sequences of calls\<close>

datatype ('k, 'v) cache_call = CGet rat 'k | CSet rat 'k 'v | CClear

fun ttl_step :: "('k, 'v) ttl_cache \<Rightarrow> ('k, 'v) cache_call \<Rightarrow> ('k, 'v) ttl_cache" where
  "ttl_step c (CGet t k) = snd (ttl_get c t k)"
| "ttl_step c (CSet t k v) = snd (ttl_set c t k v)"
| "ttl_step c CClear = ttl_clear c"

definition ttl_run :: "('k, 'v) ttl_cache \<Rightarrow> ('k, 'v) cache_call list \<Rightarrow> ('k, 'v) ttl_cache" where
  "ttl_run c cs = foldl ttl_step c cs"

text \<open>The specification: what was last written under a key, and when (the latest call first).\<close>

fun last_write :: "('k, 'v) cache_call list \<Rightarrow> 'k \<Rightarrow> (rat \<times> 'v) option" where
  "last_write [] k = None"
| "last_write (CGet t k' # cs) k = last_write cs k"
| "last_write (CSet t k' v # cs) k = (if k' = k then Some (t, v) else last_write cs k)"
| "last_write (CClear # cs) k = None"

section \<open>The mission query cache\<close>

text \<open>A stored value may be \<^verbatim>\<open>None\<close>, which counts as absent.\<close>

record ('k, 'v) query_cache =
  qc_store :: "('k, 'v option) dict"
  qc_inflight :: "('k, nat list) dict"
  qc_hits :: nat
  qc_misses :: nat

definition new_query_cache :: "('k, 'v) query_cache" where
  "new_query_cache = \<lparr>qc_store = [], qc_inflight = [], qc_hits = 0, qc_misses = 0\<rparr>"

definition qc_peek :: "('k, 'v) query_cache \<Rightarrow> 'k \<Rightarrow> 'v option" where
  "qc_peek q key = (case dict_get (qc_store q) key of None \<Rightarrow> None | Some v \<Rightarrow> v)"

definition qc_get :: "('k, 'v) query_cache \<Rightarrow> 'k \<Rightarrow> 'v option \<times> ('k, 'v) query_cache" where
  "qc_get q key =
     (qc_peek q key,
      if qc_peek q key \<noteq> None then q\<lparr>qc_hits := qc_hits q + 1\<rparr>
      else q\<lparr>qc_misses := qc_misses q + 1\<rparr>)"

definition qc_set :: "('k, 'v) query_cache \<Rightarrow> 'k \<Rightarrow> 'v option \<Rightarrow> ('k, 'v) query_cache" where
  "qc_set q key v = q\<lparr>qc_store := dict_set (qc_store q) key v\<rparr>"

text \<open>An answer: which caller, for which key, and what it got.\<close>

type_synonym ('k, 'v) answer = "nat \<times> 'k \<times> 'v option result"

definition fetch_call ::
  "('k, 'v) query_cache \<Rightarrow> nat \<Rightarrow> 'k \<Rightarrow> ('k, 'v) answer list \<times> ('k, 'v) query_cache" where
  "fetch_call q caller key = (case qc_peek q key of
       Some v \<Rightarrow> ([(caller, key, Inr (Some v))], q\<lparr>qc_hits := qc_hits q + 1\<rparr>)
     | None \<Rightarrow> (case dict_get (qc_inflight q) key of
           Some waiting \<Rightarrow> ([], q\<lparr>qc_hits := qc_hits q + 1,
                qc_inflight := dict_set (qc_inflight q) key (waiting @ [caller])\<rparr>)
         | None \<Rightarrow> ([], q\<lparr>qc_misses := qc_misses q + 1,
                qc_inflight := dict_set (qc_inflight q) key [caller]\<rparr>)))"

text \<open>The fetch in flight for a key returns a value, or raises.\<close>

definition fetch_done ::
  "('k, 'v) query_cache \<Rightarrow> 'k \<Rightarrow> 'v option result \<Rightarrow> ('k, 'v) answer list \<times> ('k, 'v) query_cache" where
  "fetch_done q key res = (case dict_get (qc_inflight q) key of
       None \<Rightarrow> ([], q)
     | Some waiting \<Rightarrow>
         (map (\<lambda>c. (c, key, res)) waiting,
          q\<lparr>qc_store := (case res of Inr v \<Rightarrow> dict_set (qc_store q) key v | Inl _ \<Rightarrow> qc_store q),
            qc_inflight := dict_del (qc_inflight q) key\<rparr>))"

datatype ('k, 'v) query_step = QCall nat 'k | QDone 'k "'v option result"

fun query_next :: "('k, 'v) query_cache \<Rightarrow> ('k, 'v) query_step \<Rightarrow> ('k, 'v) answer list \<times> ('k, 'v) query_cache" where
  "query_next q (QCall caller key) = fetch_call q caller key"
| "query_next q (QDone key res) = fetch_done q key res"

fun query_run :: "('k, 'v) query_cache \<Rightarrow> ('k, 'v) query_step list \<Rightarrow> ('k, 'v) answer list \<times> ('k, 'v) query_cache" where
  "query_run q [] = ([], q)"
| "query_run q (s # ss) = (case query_next q s of (a, q1) \<Rightarrow>
     case query_run q1 ss of (as, q2) \<Rightarrow> (a @ as, q2))"

definition waiting_callers :: "('k, 'v) query_cache \<Rightarrow> nat list" where
  "waiting_callers q = concat (dict_values (qc_inflight q))"

fun callers :: "('k, 'v) query_step list \<Rightarrow> nat list" where
  "callers [] = []"
| "callers (QCall c k # ss) = c # callers ss"
| "callers (QDone k r # ss) = callers ss"

section \<open>What a cache promises\<close>

text \<open>The contract both caches keep towards their clients: a write is visible at once, and no
  operation makes up a value for another key.\<close>

locale lossy_cache =
  fixes lookup :: "'s \<Rightarrow> 'k \<Rightarrow> 'v option"
    and store :: "'s \<Rightarrow> 'k \<Rightarrow> 'v \<Rightarrow> 's"
    and ok :: "'s \<Rightarrow> bool"
  assumes ok_store: "ok s \<Longrightarrow> ok (store s k v)"
    and lookup_store: "ok s \<Longrightarrow> lookup (store s k v) k = Some v"
    and lookup_other: "ok s \<Longrightarrow> k' \<noteq> k \<Longrightarrow> lookup (store s k v) k' = Some w \<Longrightarrow> lookup s k' = Some w"
begin

lemma ok_writes: "ok s \<Longrightarrow> ok (foldl (\<lambda>s (k, v). store s k v) s kvs)"
  by (induction kvs arbitrary: s) (auto simp: ok_store)

lemma lookup_writes:
  assumes "ok s" and "lookup (foldl (\<lambda>s (k, v). store s k v) s kvs) key = Some w"
  shows "map_of (rev kvs) key = Some w \<or> key \<notin> fst ` set kvs \<and> lookup s key = Some w"
  using assms
proof (induction kvs rule: rev_induct)
  case (snoc kv kvs)
  obtain k v where kv: "kv = (k, v)" by (meson surj_pair)
  let ?s = "foldl (\<lambda>s (k, v). store s k v) s kvs"
  have ok: "ok ?s" using snoc.prems(1) by (rule ok_writes)
  show ?case
  proof (cases "key = k")
    case True
    then show ?thesis using snoc.prems(2) lookup_store [OF ok] by (simp add: kv)
  next
    case False
    then have "lookup ?s key = Some w" using snoc.prems(2) lookup_other [OF ok] by (simp add: kv)
    then show ?thesis using snoc False by (auto simp: kv)
  qed
qed simp

end

interpretation query: lossy_cache qc_peek "\<lambda>q k v. qc_set q k (Some v)" "\<lambda>_. True"
  by unfold_locales (auto simp: qc_peek_def qc_set_def split: option.splits if_splits)

section \<open>The TTL cache keeps its contract\<close>

lemma evict_eq: "0 \<le> m \<Longrightarrow> evict m d = (Inr (), drop (length d - nat m) d)"
proof (induction d)
  case (Cons kv d)
  show ?case
  proof (cases "m < int (length (kv # d))")
    case True
    then have "length (kv # d) - nat m = Suc (length d - nat m)"
      using Cons.prems by (simp add: nat_less_iff Suc_diff_le)
    then show ?thesis using Cons True by simp
  qed (use Cons.prems in auto)
qed simp

lemma evict_neg: "m < 0 \<Longrightarrow> snd (evict m d) = []"
  by (induction d) auto

text \<open>The dictionary with an entry moved or written to its end.\<close>

definition to_end :: "('k, 'v) dict \<Rightarrow> 'k \<Rightarrow> 'v \<Rightarrow> ('k, 'v) dict" where
  "to_end d k v = dict_del d k @ [(k, v)]"

lemma to_end_get: "dict_get (to_end d k v) k' = (if k' = k then Some v else dict_get d k')"
  using dict_get_append [of "dict_del d k" k v k'] unfolding to_end_def dict_get_del
  by (auto split: option.splits)

lemma to_end_wf: "dict_wf d \<Longrightarrow> dict_wf (to_end d k v)"
  by (auto simp: to_end_def dict_wf_def dict_del_def distinct_map_filter)

lemma move_to_end_eq: "dict_get d k = Some v \<Longrightarrow> move_to_end d k = to_end d k v"
  by (simp add: move_to_end_def to_end_def)

lemma move_to_end_set: "move_to_end (dict_set d k v) k = to_end d k v"
proof -
  have "dict_del (dict_set d k v) k = dict_del d k"
    by (induction d k v rule: dict_set.induct) (auto simp: dict_del_def)
  then show ?thesis by (simp add: move_to_end_def to_end_def)
qed

lemma dict_wf_drop [simp]: "dict_wf d \<Longrightarrow> dict_wf (drop n d)"
  by (simp add: dict_wf_def flip: drop_map)

lemma dict_get_drop:
  "dict_wf d \<Longrightarrow> dict_get (drop n d) k = Some v \<Longrightarrow> dict_get d k = Some v"
  using dict_wf_get dict_get_SomeD in_set_dropD by metis

lemma ttl_put_config [simp]:
  "tc_maxsize (snd (ttl_put c k e)) = tc_maxsize c" "tc_ttl_s (snd (ttl_put c k e)) = tc_ttl_s c"
  by (simp_all add: ttl_put_def split_def)

lemma ttl_put_store:
  "tc_store (snd (ttl_put c k e)) =
     (if tc_maxsize c < 0 then []
      else drop (length (to_end (tc_store c) k e) - nat (tc_maxsize c)) (to_end (tc_store c) k e))"
  by (simp add: ttl_put_def move_to_end_set evict_eq evict_neg split_def)

lemma ttl_put_wf: "dict_wf (tc_store c) \<Longrightarrow> dict_wf (tc_store (snd (ttl_put c k e)))"
  by (simp add: ttl_put_store to_end_wf)

lemma ttl_put_sound:
  assumes "dict_wf (tc_store c)" and "dict_get (tc_store (snd (ttl_put c k e))) k' = Some w"
  shows "if k' = k then w = e else dict_get (tc_store c) k' = Some w"
proof -
  have "dict_get (to_end (tc_store c) k e) k' = Some w"
    using assms by (auto simp: ttl_put_store to_end_wf intro: dict_get_drop split: if_splits)
  then show ?thesis by (simp add: to_end_get split: if_splits)
qed

lemma ttl_put_keeps_last:
  "1 \<le> tc_maxsize c \<Longrightarrow> (k, e) \<in> set (tc_store (snd (ttl_put c k e)))"
  by (simp add: ttl_put_store to_end_def)

interpretation ttl: lossy_cache "\<lambda>c k. dict_get (tc_store c) k" "\<lambda>c k e. snd (ttl_put c k e)"
    "\<lambda>c. dict_wf (tc_store c) \<and> 1 \<le> tc_maxsize c"
proof (unfold_locales, goal_cases)
  case (1 c k e)
  then show ?case by (simp add: ttl_put_wf)
next
  case (2 c k e)
  then show ?case by (intro dict_wf_get) (simp_all add: ttl_put_wf ttl_put_keeps_last)
next
  case (3 c k' k e w)
  then show ?case using ttl_put_sound [of c k e k' w] by simp
qed

subsection \<open>It serves the last write until it expires, and evicts the least recent\<close>

lemma new_ttl_cache_simps [simp]:
  "tc_maxsize (new_ttl_cache n ttl) = n" "tc_ttl_s (new_ttl_cache n ttl) = ttl"
  "tc_store (new_ttl_cache n ttl) = []"
  by (simp_all add: new_ttl_cache_def)

lemma ttl_get_store:
  "tc_store (snd (ttl_get c t k)) = (case dict_get (tc_store c) k of None \<Rightarrow> tc_store c
     | Some (e, v) \<Rightarrow> if e < t then dict_del (tc_store c) k else to_end (tc_store c) k (e, v))"
  by (auto simp: ttl_get_def move_to_end_eq split: option.splits)

lemma ttl_step_config [simp]:
  "tc_maxsize (ttl_step c s) = tc_maxsize c" "tc_ttl_s (ttl_step c s) = tc_ttl_s c"
  by (cases s; simp add: ttl_get_def ttl_set_def ttl_clear_def split: option.split)+

lemma ttl_run_snoc: "ttl_run c (cs @ [s]) = ttl_step (ttl_run c cs) s"
  by (simp add: ttl_run_def)

lemma ttl_run_config [simp]:
  "tc_maxsize (ttl_run c cs) = tc_maxsize c" "tc_ttl_s (ttl_run c cs) = tc_ttl_s c"
  by (induction cs rule: rev_induct) (simp_all add: ttl_run_snoc, simp_all add: ttl_run_def)

lemma ttl_step_wf: "dict_wf (tc_store c) \<Longrightarrow> dict_wf (tc_store (ttl_step c s))"
  by (cases s) (auto simp: ttl_get_store ttl_set_def ttl_put_wf ttl_clear_def to_end_wf
      split: option.splits)

lemma ttl_run_wf: "dict_wf (tc_store (ttl_run (new_ttl_cache n ttl) cs))"
  by (induction cs rule: rev_induct)
    (simp_all add: ttl_run_snoc ttl_step_wf, simp add: ttl_run_def new_ttl_cache_def)

lemma ttl_store_last_write:
  "dict_get (tc_store (ttl_run (new_ttl_cache n ttl) cs)) k = Some (e, v) \<Longrightarrow>
     \<exists>t. last_write (rev cs) k = Some (t, v) \<and> e = t + ttl"
proof (induction cs rule: rev_induct)
  case Nil
  then show ?case by (simp add: ttl_run_def new_ttl_cache_def)
next
  case (snoc s cs)
  let ?c = "ttl_run (new_ttl_cache n ttl) cs"
  show ?case
  proof (cases s)
    case (CSet t k' w)
    then have "if k = k' then (e, v) = (t + ttl, w) else dict_get (tc_store ?c) k = Some (e, v)"
      using snoc.prems ttl_put_sound [OF ttl_run_wf, of n ttl cs k' "(t + ttl, w)" k "(e, v)"]
      by (simp add: ttl_run_snoc ttl_set_def)
    then show ?thesis using snoc.IH CSet by (auto split: if_splits)
  next
    case (CGet t k')
    then show ?thesis using snoc
      by (auto simp: ttl_run_snoc ttl_get_store to_end_get split: option.splits if_splits)
  qed (use snoc in \<open>auto simp: ttl_run_snoc ttl_clear_def\<close>)
qed

lemma ttl_step_size:
  "length (tc_store c) \<le> nat (tc_maxsize c) \<Longrightarrow> length (tc_store (ttl_step c s)) \<le> nat (tc_maxsize c)"
proof (cases s)
  case (CGet t k)
  assume *: "length (tc_store c) \<le> nat (tc_maxsize c)"
  have del: "length (dict_del (tc_store c) k) \<le> length (tc_store c)" by (simp add: dict_del_def)
  have "length (to_end (tc_store c) k x) \<le> length (tc_store c)"
    if "dict_get (tc_store c) k = Some x" for x
  proof -
    have "(k, x) \<in> set (tc_store c)" using that by (rule dict_get_SomeD)
    then have "length (dict_del (tc_store c) k) < length (tc_store c)"
      unfolding dict_del_def by (intro length_filter_less) auto
    then show ?thesis by (simp add: to_end_def)
  qed
  then show ?thesis using * del CGet by (fastforce simp: ttl_get_store split: option.splits)
qed (auto simp: ttl_set_def ttl_put_store ttl_clear_def)

lemma ttl_run_size:
  "length (tc_store (ttl_run (new_ttl_cache n ttl) cs)) \<le> nat n"
  by (induction cs rule: rev_induct)
    (simp_all add: ttl_run_snoc ttl_step_size [of "ttl_run (new_ttl_cache n ttl) _", simplified],
     simp add: ttl_run_def)

text \<open>The keys that a sequence of calls reads or writes.\<close>

fun touched :: "('k, 'v) cache_call \<Rightarrow> 'k set" where
  "touched (CGet t k) = {k}"
| "touched (CSet t k v) = {k}"
| "touched CClear = {}"

text \<open>A call leaves the entry of \<open>k\<close> alone: it neither rewrites nor clears it, and does not read it
  after its expiry.\<close>

fun spares :: "'k \<Rightarrow> rat \<Rightarrow> ('k, 'v) cache_call \<Rightarrow> bool" where
  "spares k e (CGet t k') = (k' = k \<longrightarrow> t \<le> e)"
| "spares k e (CSet t k' v) = (k' \<noteq> k)"
| "spares k e CClear = False"

text \<open>The entry of \<open>k\<close> is present and only keys of \<open>S\<close> were used more recently.\<close>

definition recent :: "('k, 'v) dict \<Rightarrow> 'k \<Rightarrow> 'v \<Rightarrow> 'k set \<Rightarrow> bool" where
  "recent d k v S = (\<exists>pre post. d = pre @ (k, v) # post \<and> fst ` set post \<subseteq> S)"

lemma recent_del:
  assumes "recent d k v S" "k' \<noteq> k"
  shows "recent (dict_del d k') k v S"
proof -
  obtain pre post where d: "d = pre @ (k, v) # post" "fst ` set post \<subseteq> S"
    using assms(1) by (auto simp: recent_def)
  then have "dict_del d k' = dict_del pre k' @ (k, v) # dict_del post k'"
    using assms(2) by (simp add: dict_del_def)
  moreover have "fst ` set (dict_del post k') \<subseteq> S" using d(2) by (auto simp: dict_del_def)
  ultimately show ?thesis unfolding recent_def by blast
qed

lemma recent_snoc: "recent d k v S \<Longrightarrow> recent (d @ [(k', w)]) k v (insert k' S)"
proof -
  assume "recent d k v S"
  then obtain pre post where d: "d = pre @ (k, v) # post" "fst ` set post \<subseteq> S"
    by (auto simp: recent_def)
  then have "d @ [(k', w)] = pre @ (k, v) # (post @ [(k', w)])"
    and "fst ` set (post @ [(k', w)]) \<subseteq> insert k' S" by auto
  then show ?thesis unfolding recent_def by blast
qed

lemma recent_drop:
  assumes "recent d k v S" "dict_wf d" "finite S" "card S < m"
  shows "recent (drop (length d - m) d) k v S"
proof -
  obtain pre post where d: "d = pre @ (k, v) # post" "fst ` set post \<subseteq> S"
    using assms(1) by (auto simp: recent_def)
  have "distinct (map fst post)" using assms(2) d(1) by (simp add: dict_wf_def)
  then have "length post = card (set (map fst post))" by (metis distinct_card length_map)
  also have "\<dots> \<le> card S" using d(2) assms(3) by (intro card_mono) auto
  finally have "length d - m \<le> length pre" using assms(4) d(1) by simp
  then have "drop (length d - m) d = drop (length d - m) pre @ (k, v) # post" using d(1) by simp
  then show ?thesis using d(2) unfolding recent_def by metis
qed

lemma recent_last: "recent (d @ [(k, v)]) k v S"
  unfolding recent_def by force

lemma recent_mono: "recent d k v S \<Longrightarrow> S \<subseteq> S' \<Longrightarrow> recent d k v S'"
  unfolding recent_def by blast

lemma recent_get: "recent d k v S \<Longrightarrow> dict_wf d \<Longrightarrow> dict_get d k = Some v"
  by (auto simp: recent_def intro: dict_wf_get)

lemma ttl_step_recent:
  assumes "recent (tc_store c) k (e, v) S" "dict_wf (tc_store c)" "spares k e s"
    and "finite S" "touched s - {k} \<subseteq> S" "int (card S) < tc_maxsize c"
  shows "recent (tc_store (ttl_step c s)) k (e, v) S"
proof (cases s)
  case (CGet t k')
  show ?thesis
  proof (cases "k' = k")
    case True
    then show ?thesis using CGet assms(3) recent_get [OF assms(1,2)]
      by (simp add: ttl_get_store to_end_def recent_last)
  next
    case False
    then have "insert k' S = S" using CGet assms(5) by auto
    then have "recent (to_end (tc_store c) k' x) k (e, v) S" for x
      using recent_snoc [OF recent_del [OF assms(1) False]] by (metis to_end_def)
    then show ?thesis using CGet assms(1) False
      by (auto simp: ttl_get_store recent_del split: option.splits)
  qed
next
  case (CSet t k' w)
  then have k': "k' \<noteq> k" "insert k' S = S" using assms(3,5) by auto
  let ?d = "to_end (tc_store c) k' (t + tc_ttl_s c, w)"
  have "recent ?d k (e, v) S"
    using recent_snoc [OF recent_del [OF assms(1) k'(1)]] k'(2) by (metis to_end_def)
  moreover have "card S < nat (tc_maxsize c)" "\<not> tc_maxsize c < 0" using assms(6) by linarith+
  ultimately show ?thesis
    using CSet recent_drop [OF _ to_end_wf [OF assms(2)] assms(4)]
    by (simp add: ttl_set_def ttl_put_store)
next
  case CClear
  then show ?thesis using assms(3) by simp
qed

lemma ttl_run_recent:
  assumes "recent (tc_store c) k (e, v) S" "dict_wf (tc_store c)" "\<forall>s \<in> set cs. spares k e s"
    and "finite S" "\<forall>s \<in> set cs. touched s - {k} \<subseteq> S" "int (card S) < tc_maxsize c"
  shows "recent (tc_store (ttl_run c cs)) k (e, v) S \<and> dict_wf (tc_store (ttl_run c cs))"
  using assms
proof (induction cs rule: rev_induct)
  case Nil
  then show ?case by (simp add: ttl_run_def)
next
  case (snoc s cs)
  then have IH: "recent (tc_store (ttl_run c cs)) k (e, v) S" "dict_wf (tc_store (ttl_run c cs))"
    by auto
  then show ?case
    using ttl_step_recent [OF IH, of s] snoc.prems ttl_step_wf [OF IH(2)] by (simp add: ttl_run_snoc)
qed

text \<open>After any calls on a fresh cache, a value that \<^verbatim>\<open>get\<close> returns is the one last written
  under that key, at most \<^verbatim>\<open>ttl_s\<close> seconds ago, and the cache never exceeds \<^verbatim>\<open>maxsize\<close> entries.
  Conversely a value written under a key is returned until it expires, as long as fewer than
  \<^verbatim>\<open>maxsize\<close> other keys are used in between.\<close>

theorem ttl_cache_serves_last_write:
  fixes cs cs' :: "('k, 'v) cache_call list"
  assumes c: "c = ttl_run (new_ttl_cache n ttl) cs"
  shows "length (tc_store c) \<le> nat n
    \<and> (\<forall>now k v. fst (ttl_get c now k) = Some v
        \<longrightarrow> (\<exists>t. last_write (rev cs) k = Some (t, v) \<and> now \<le> t + ttl))
    \<and> (\<forall>t now k v. (\<forall>s \<in> set cs'. spares k (t + ttl) s)
        \<and> int (card (\<Union> (touched ` set cs') - {k})) < n \<and> now \<le> t + ttl
        \<longrightarrow> fst (ttl_get (ttl_run c (CSet t k v # cs')) now k) = Some v)"
proof (intro conjI allI impI)
  show "length (tc_store c) \<le> nat n" by (simp add: c ttl_run_size)
next
  fix now k v
  assume "fst (ttl_get c now k) = Some v"
  then obtain e where "dict_get (tc_store c) k = Some (e, v)" "now \<le> e"
    by (auto simp: ttl_get_def split: option.splits if_splits)
  then show "\<exists>t. last_write (rev cs) k = Some (t, v) \<and> now \<le> t + ttl"
    using ttl_store_last_write [of n ttl cs k e v] by (auto simp: c)
next
  fix t now k and v :: 'v
  let ?S = "\<Union> (touched ` set cs') - {k}"
  assume asm: "(\<forall>s \<in> set cs'. spares k (t + ttl) s) \<and> int (card ?S) < n \<and> now \<le> t + ttl"
  let ?c = "ttl_step c (CSet t k v)"
  have "touched s = {} \<or> (\<exists>x. touched s = {x})" for s :: "('k, 'v) cache_call" by (cases s) auto
  then have fin: "finite ?S" by (metis (no_types, lifting) finite_Diff finite_UN finite_set finite.simps)
  have wf: "dict_wf (tc_store c)" by (simp add: c ttl_run_wf)
  have "recent (to_end (tc_store c) k (t + ttl, v)) k (t + ttl, v) ?S"
    by (simp add: to_end_def recent_last)
  then have "recent (tc_store ?c) k (t + ttl, v) ?S"
    using recent_drop [OF _ to_end_wf [OF wf] fin, of k "(t + ttl, v)" k "(t + ttl, v)" "nat n"] asm
    by (auto simp: ttl_set_def ttl_put_store c)
  then have "recent (tc_store (ttl_run ?c cs')) k (t + ttl, v) ?S
      \<and> dict_wf (tc_store (ttl_run ?c cs'))"
    using asm fin ttl_step_wf [OF wf, of "CSet t k v"] ttl_step_config(1) [of c "CSet t k v"]
    by (intro ttl_run_recent) (auto simp: c simp del: ttl_step.simps)
  then have "dict_get (tc_store (ttl_run ?c cs')) k = Some (t + ttl, v)"
    by (elim conjE) (rule recent_get)
  then show "fst (ttl_get (ttl_run c (CSet t k v # cs')) now k) = Some v"
    using asm by (simp add: ttl_get_def ttl_run_def)
qed

theorem ttl_cache_serves_last_write_witness:
  "fst (ttl_get (ttl_run (new_ttl_cache 2 10) [CSet 0 ''a'' (1::nat), CSet 1 ''b'' 2, CGet 2 ''a''])
     9 ''a'') = Some 1
   \<and> length (tc_store (ttl_run (new_ttl_cache 2 10) [CSet 0 ''a'' (1::nat), CSet 1 ''b'' 2,
       CSet 2 ''c'' 3])) \<le> 2"
proof -
  let ?cs = "[CSet 1 ''b'' (2::nat), CGet 2 ''a'']"
  have "ttl_run (new_ttl_cache 2 10) [] = (new_ttl_cache 2 10 :: (string, nat) ttl_cache)"
    by (simp add: ttl_run_def)
  moreover have "\<Union> (touched ` set ?cs) - {''a''} = {''b''}" by auto
  ultimately have "fst (ttl_get (ttl_run (new_ttl_cache 2 10) (CSet 0 ''a'' (1::nat) # ?cs)) 9 ''a'')
      = Some 1"
    using ttl_cache_serves_last_write [OF refl, of 2 10 "[]" ?cs] by force
  then show ?thesis
    using ttl_cache_serves_last_write [OF refl, of 2 10
      "[CSet 0 ''a'' (1::nat), CSet 1 ''b'' 2, CSet 2 ''c'' 3]" "[]"] by simp
qed

section \<open>The query cache fetches once\<close>

lemma qc_peek_simps [simp]:
  "qc_peek (q\<lparr>qc_hits := h\<rparr>) k = qc_peek q k" "qc_peek (q\<lparr>qc_misses := m\<rparr>) k = qc_peek q k"
  "qc_peek (q\<lparr>qc_inflight := i\<rparr>) k = qc_peek q k"
  by (simp_all add: qc_peek_def)

text \<open>What holds between the answers given so far and the cache: a delivered value is the stored
  one, and nothing is fetched that is already stored.\<close>

definition flight_ok :: "('k, 'v) answer list \<Rightarrow> ('k, 'v) query_cache \<Rightarrow> bool" where
  "flight_ok as q =
     ((\<forall>c k v. (c, k, Inr (Some v)) \<in> set as \<longrightarrow> qc_peek q k = Some v)
      \<and> (\<forall>k. dict_get (qc_inflight q) k \<noteq> None \<longrightarrow> qc_peek q k = None)
      \<and> dict_wf (qc_inflight q))"

lemma fetch_call_ok:
  "flight_ok as q \<Longrightarrow> fetch_call q c k = (a, q') \<Longrightarrow> flight_ok (as @ a) q'"
  by (auto simp: flight_ok_def fetch_call_def split: option.splits if_splits)

lemma fetch_done_ok:
  assumes "flight_ok as q" "fetch_done q k res = (a, q')"
  shows "flight_ok (as @ a) q'"
proof (cases "dict_get (qc_inflight q) k")
  case None
  then show ?thesis using assms by (simp add: fetch_done_def)
next
  case (Some waiting)
  then have "qc_peek q k = None" using assms(1) by (simp add: flight_ok_def)
  moreover have "a = map (\<lambda>c. (c, k, res)) waiting"
    and q': "qc_inflight q' = dict_del (qc_inflight q) k"
      "\<And>k'. qc_peek q' k' = (if k' = k then (case res of Inr v \<Rightarrow> v | Inl _ \<Rightarrow> qc_peek q k)
        else qc_peek q k')"
    using assms(2) Some by (auto simp: fetch_done_def qc_peek_def split: sum.splits option.splits)
  ultimately show ?thesis
    using assms(1) by (fastforce simp: flight_ok_def split: sum.splits if_splits)
qed

lemma query_run_ok:
  "flight_ok as q \<Longrightarrow> query_run q ss = (as', q') \<Longrightarrow> flight_ok (as @ as') q'"
proof (induction ss arbitrary: as q as')
  case (Cons s ss)
  obtain a q1 where step: "query_next q s = (a, q1)" by (meson surj_pair)
  obtain b where rest: "query_run q1 ss = (b, q')" and as': "as' = a @ b"
    using Cons.prems(2) step by (auto split: prod.splits)
  have "flight_ok (as @ a) q1"
    using Cons.prems(1) step by (cases s) (auto intro: fetch_call_ok fetch_done_ok)
  from Cons.IH [OF this rest] show ?case by (simp add: as')
qed simp

text \<open>No caller is lost or answered twice.\<close>

lemma dict_del_absent: "dict_get d k = None \<Longrightarrow> dict_del d k = d"
  by (force simp: dict_del_def filter_id_conv dict_get_None)

lemma waiting_set:
  "dict_wf d \<Longrightarrow> mset (concat (dict_values (dict_set d k xs))) =
     mset (concat (dict_values (dict_del d k))) + mset xs"
proof (induction d)
  case (Cons kv d)
  then show ?case
    by (cases kv) (auto simp: dict_wf_def dict_del_def map_of_eq_None_iff
        dest!: dict_del_absent [unfolded dict_del_def map_of_eq_None_iff])
qed (simp add: dict_del_def)

lemma waiting_split:
  "dict_wf d \<Longrightarrow> dict_get d k = Some xs \<Longrightarrow>
     mset (concat (dict_values d)) = mset (concat (dict_values (dict_del d k))) + mset xs"
  using waiting_set [of d k xs] by (simp add: dict_set_same)

lemma query_next_callers:
  assumes "flight_ok as q" "query_next q s = (a, q')"
  shows "mset (map fst a) + mset (waiting_callers q') = mset (waiting_callers q) + mset (callers [s])"
proof (cases s)
  case (QCall c k)
  then show ?thesis
    using assms waiting_split [of "qc_inflight q" k]
    by (auto simp: fetch_call_def waiting_callers_def flight_ok_def waiting_set dict_del_absent
        split: option.splits)
next
  case (QDone k res)
  then show ?thesis
    using assms waiting_split [of "qc_inflight q" k]
    by (auto simp: fetch_done_def waiting_callers_def flight_ok_def image_mset.compositionality comp_def
        split: option.splits)
qed

lemma query_run_callers:
  assumes "flight_ok as q" "query_run q ss = (as', q')"
  shows "mset (map fst as') + mset (waiting_callers q') = mset (waiting_callers q) + mset (callers ss)
    \<and> qc_hits q' + qc_misses q' = qc_hits q + qc_misses q + length (callers ss)"
  using assms
proof (induction ss arbitrary: as q as')
  case (Cons s ss)
  obtain a q1 where step: "query_next q s = (a, q1)" by (meson surj_pair)
  obtain b where rest: "query_run q1 ss = (b, q')" and as': "as' = a @ b"
    using Cons.prems(2) step by (auto split: prod.splits)
  have "flight_ok (as @ a) q1"
    using Cons.prems(1) step by (cases s) (auto intro: fetch_call_ok fetch_done_ok)
  note IH = Cons.IH [OF this rest]
  have "qc_hits q1 + qc_misses q1 = qc_hits q + qc_misses q + length (callers [s])"
    using step by (cases s) (auto simp: fetch_call_def fetch_done_def split: option.splits)
  moreover have "mset (callers (s # ss)) = mset (callers [s]) + mset (callers ss)"
    "length (callers (s # ss)) = length (callers [s]) + length (callers ss)"
    by (cases s; simp)+
  moreover note query_next_callers [OF Cons.prems(1) step]
  ultimately show ?case using IH by (simp add: as' ac_simps) (metis (no_types, lifting) add.assoc add.commute)
qed simp

text \<open>C16. Whatever the interleaving of calls and fetches, all callers of a key that get a value get
  the same value: overlapping calls share one fetch and later ones the stored result. Every call
  is answered once or is still waiting for a fetch in flight, and is counted as one hit or miss.\<close>

theorem query_cache_single_flight:
  assumes "query_run new_query_cache ss = (as, q)"
  shows "((c1, k, Inr (Some v1)) \<in> set as \<and> (c2, k, Inr (Some v2)) \<in> set as \<longrightarrow> v1 = v2)
    \<and> mset (map fst as) + mset (waiting_callers q) = mset (callers ss)
    \<and> qc_hits q + qc_misses q = length (callers ss)"
proof -
  have init: "flight_ok [] (new_query_cache :: ('a, 'b) query_cache)"
    by (simp add: flight_ok_def new_query_cache_def)
  then have "flight_ok as q" using query_run_ok [OF init assms] by simp
  then have "(c1, k, Inr (Some v1)) \<in> set as \<and> (c2, k, Inr (Some v2)) \<in> set as \<longrightarrow> v1 = v2"
    unfolding flight_ok_def by (metis option.inject)
  moreover have "waiting_callers (new_query_cache :: ('a, 'b) query_cache) = []"
    by (simp add: waiting_callers_def new_query_cache_def)
  ultimately show ?thesis
    using query_run_callers [OF init assms] by (simp add: new_query_cache_def)
qed

definition sample_flight :: "(string, nat) query_step list" where
  "sample_flight = [QCall 1 ''k'', QCall 2 ''k'', QDone ''k'' (Inr (Some 816)), QCall 3 ''k'']"

lemma sample_flight_run:
  "fst (query_run new_query_cache sample_flight) =
     [(1, ''k'', Inr (Some 816)), (2, ''k'', Inr (Some 816)), (3, ''k'', Inr (Some 816))]"
  by (simp add: sample_flight_def new_query_cache_def fetch_call_def fetch_done_def qc_peek_def
      dict_del_def)

theorem query_cache_single_flight_witness:
  "\<exists>q. query_run new_query_cache sample_flight =
     ([(1, ''k'', Inr (Some 816)), (2, ''k'', Inr (Some 816)), (3, ''k'', Inr (Some 816))], q)
   \<and> qc_hits q + qc_misses q = 3 \<and> waiting_callers q = []"
proof -
  obtain q where run: "query_run new_query_cache sample_flight =
      ([(1, ''k'', Inr (Some 816)), (2, ''k'', Inr (Some 816)), (3, ''k'', Inr (Some 816))], q)"
    using sample_flight_run by (metis prod.collapse)
  from query_cache_single_flight [OF run, of 1 "''k''" 816 2 816] run show ?thesis
    by (simp add: sample_flight_def)
qed

end
