(* ===== verification/Agent_Guards.thy ===== *)
theory Agent_Guards
  imports Prelude
begin

text \<open>
  What keeps an agent run within bounds: \<^verbatim>\<open>agent/limits.py\<close> (execution budgets and withdrawn
  tools), \<^verbatim>\<open>agent/repeat_guard.py\<close> (identical tool calls), \<^verbatim>\<open>agent/model_health.py\<close> (cooldowns of
  the fallback chain) and the in-memory backend of \<^verbatim>\<open>cancellation.py\<close>.

  The tool handler and the model request are parameters that may answer differently every time;
  times are \<^verbatim>\<open>time.monotonic()\<close> readings. The text of a call's arguments
  (\<^verbatim>\<open>json.dumps(args, sort_keys=True)\<close>) is given with the call. Dependencies always carry
  \<^verbatim>\<open>call_counts\<close>, calls of one mission are taken one after the other, and the human-readable
  \<^verbatim>\<open>reason\<close> of a verdict is left out.
\<close>

section \<open>Execution budgets\<close>

record execution_limits =
  max_tool_calls :: int
  max_cube_queries :: int
  max_causal_queries :: int
  max_prediction_calls :: int
  max_validation_revisions :: int
  max_runtime_seconds :: rat

record budget_tracker =
  bt_limits :: execution_limits
  bt_tool_calls :: int
  bt_cube_queries :: int
  bt_causal_queries :: int
  bt_prediction_calls :: int
  bt_validation_revisions :: int
  bt_started_at :: rat

record budget_verdict =
  bv_ok :: bool
  bv_error_code :: "string option"
  bv_exhausted_key :: "string option"

definition budget_ok :: budget_verdict where
  "budget_ok = \<lparr>bv_ok = True, bv_error_code = None, bv_exhausted_key = None\<rparr>"

definition budget_exceeded :: "string \<Rightarrow> budget_verdict" where
  "budget_exceeded key =
     \<lparr>bv_ok = False, bv_error_code = Some ''EXECUTION_LIMIT_EXCEEDED'', bv_exhausted_key = Some key\<rparr>"

definition new_tracker :: "execution_limits \<Rightarrow> rat \<Rightarrow> budget_tracker" where
  "new_tracker limits now =
     \<lparr>bt_limits = limits, bt_tool_calls = 0, bt_cube_queries = 0, bt_causal_queries = 0,
      bt_prediction_calls = 0, bt_validation_revisions = 0, bt_started_at = now\<rparr>"

text \<open>\<^verbatim>\<open>getattr(self, key)\<close>, \<^verbatim>\<open>getattr(self.limits, f"max_{key}")\<close> and \<^verbatim>\<open>setattr(self, key, n)\<close> for
  the names of \<^verbatim>\<open>_COUNTERS\<close>.\<close>

definition counters :: "string list" where
  "counters = [''tool_calls'', ''cube_queries'', ''causal_queries'', ''prediction_calls'',
     ''validation_revisions'']"

definition get_counter :: "budget_tracker \<Rightarrow> string \<Rightarrow> int" where
  "get_counter t key =
     (if key = ''tool_calls'' then bt_tool_calls t
      else if key = ''cube_queries'' then bt_cube_queries t
      else if key = ''causal_queries'' then bt_causal_queries t
      else if key = ''prediction_calls'' then bt_prediction_calls t
      else bt_validation_revisions t)"

definition get_limit :: "execution_limits \<Rightarrow> string \<Rightarrow> int" where
  "get_limit l key =
     (if key = ''tool_calls'' then max_tool_calls l
      else if key = ''cube_queries'' then max_cube_queries l
      else if key = ''causal_queries'' then max_causal_queries l
      else if key = ''prediction_calls'' then max_prediction_calls l
      else max_validation_revisions l)"

definition set_counter :: "budget_tracker \<Rightarrow> string \<Rightarrow> int \<Rightarrow> budget_tracker" where
  "set_counter t key n =
     (if key = ''tool_calls'' then t\<lparr>bt_tool_calls := n\<rparr>
      else if key = ''cube_queries'' then t\<lparr>bt_cube_queries := n\<rparr>
      else if key = ''causal_queries'' then t\<lparr>bt_causal_queries := n\<rparr>
      else if key = ''prediction_calls'' then t\<lparr>bt_prediction_calls := n\<rparr>
      else t\<lparr>bt_validation_revisions := n\<rparr>)"

definition consume ::
  "budget_tracker \<Rightarrow> string \<Rightarrow> int \<Rightarrow> budget_verdict result \<times> budget_tracker" where
  "consume t key amount =
     (if key \<notin> set counters then (Inl (ValueError (''unknown budget counter: '' @ key)), t)
      else let current = get_counter t key; limit = get_limit (bt_limits t) key in
        if limit < current + amount then (Inr (budget_exceeded key), t)
        else (Inr budget_ok, set_counter t key (current + amount)))"

definition check_runtime :: "budget_tracker \<Rightarrow> rat \<Rightarrow> budget_verdict" where
  "check_runtime t now =
     (if max_runtime_seconds (bt_limits t) < now - bt_started_at t
      then budget_exceeded ''runtime_seconds'' else budget_ok)"

definition consume_all :: "budget_tracker \<Rightarrow> (string \<times> int) list \<Rightarrow> budget_tracker" where
  "consume_all t uses = foldl (\<lambda>t (key, amount). snd (consume t key amount)) t uses"

section \<open>Withdrawn tools\<close>

type_synonym call_counts = "(string, nat) dict"

definition withdraw_tool :: "string list \<Rightarrow> call_counts \<Rightarrow> call_counts" where
  "withdraw_tool names counts = foldl (\<lambda>c name. dict_set c (''withdrawn:'' @ name) 1) counts names"

definition withdrawn_tools :: "call_counts \<Rightarrow> string set" where
  "withdrawn_tools counts =
     set (map (\<lambda>(k, v). drop (length ''withdrawn:'') k)
       (filter (\<lambda>(k, v). str_startswith k ''withdrawn:'' \<and> v \<noteq> 0) counts))"

section \<open>Repeated calls\<close>

record tool_result =
  tr_success :: bool
  tr_retryable :: bool
  tr_summary :: string

text \<open>What a handler may return: nothing, a \<^verbatim>\<open>ToolResult\<close>, or anything else.\<close>

datatype handler_result = NoResult | ToolRes tool_result | OtherRes json

record guard_call =
  gc_mission :: string
  gc_tool :: string
  gc_kind :: string
  gc_args :: string

record guard_state =
  gs_results :: "(string \<times> string, handler_result) dict"
  gs_counts :: call_counts

definition call_key :: "guard_call \<Rightarrow> string" where
  "call_key c = gc_tool c @ '':'' @ gc_args c"

definition call_slot :: "guard_call \<Rightarrow> string \<times> string" where
  "call_slot c = (gc_mission c, call_key c)"

text \<open>The note that marks a repeat; the source's em dash is written as two hyphens.\<close>

definition replay :: "handler_result \<Rightarrow> string \<Rightarrow> nat \<Rightarrow> handler_result" where
  "replay prior tool n = (case prior of
       ToolRes r \<Rightarrow>
         ToolRes (r\<lparr>tr_summary :=
           ''REPEATED CALL ('' @ nat_str n @ ''x, identical arguments) -- '' @ tool
           @ '' returns the same result every time; it is shown again below. ''
           @ (if 3 \<le> n
              then tool @ '' is now withdrawn for this mission: use what you have, try a ''
                   @ ''different approach, or answer.''
              else ''Do not call it again with these arguments.'')
           @ '' '' @ tr_summary r\<rparr>)
     | _ \<Rightarrow> prior)"

text \<open>A stored result that is replayed rather than fetched again.\<close>

definition final_result :: "handler_result \<Rightarrow> bool" where
  "final_result r = (case r of NoResult \<Rightarrow> False
     | ToolRes t \<Rightarrow> tr_success t \<or> \<not> tr_retryable t | OtherRes _ \<Rightarrow> True)"

text \<open>\<open>wrap_tool_execute\<close> returns the answer, what the handler returned if it ran (it may raise),
  and the new state.\<close>

definition wrap_tool_execute ::
  "guard_state \<Rightarrow> guard_call \<Rightarrow> handler_result result
   \<Rightarrow> handler_result result \<times> handler_result option \<times> guard_state" where
  "wrap_tool_execute g c answer =
     (if gc_kind c \<noteq> ''function'' then (answer, None, g)
      else
        let rk = ''repeat:'' @ call_key c;
            n = (case dict_get (gs_counts g) rk of None \<Rightarrow> 0 | Some m \<Rightarrow> m) + 1;
            g1 = g\<lparr>gs_counts := dict_set (gs_counts g) rk n\<rparr>
        in case dict_get (gs_results g) (call_slot c) of
            Some prior \<Rightarrow>
              if final_result prior
              then (Inr (replay prior (gc_tool c) n), None,
                    if 3 \<le> n then g1\<lparr>gs_counts := withdraw_tool [gc_tool c] (gs_counts g1)\<rparr>
                    else g1)
              else (case answer of
                  Inl e \<Rightarrow> (Inl e, None, g1)
                | Inr r \<Rightarrow> (Inr r, Some r,
                    g1\<lparr>gs_results := dict_set (gs_results g1) (call_slot c) r\<rparr>))
          | None \<Rightarrow> (case answer of
                  Inl e \<Rightarrow> (Inl e, None, g1)
                | Inr r \<Rightarrow> (Inr r, Some r,
                    g1\<lparr>gs_results := dict_set (gs_results g1) (call_slot c) r\<rparr>)))"

text \<open>A mission's calls in order, each with what its handler would answer: the executions that
  completed, and the state afterwards.\<close>

fun guard_run ::
  "guard_state \<Rightarrow> (guard_call \<times> handler_result result) list
   \<Rightarrow> ((string \<times> string) \<times> handler_result) list \<times> guard_state" where
  "guard_run g [] = ([], g)"
| "guard_run g ((c, answer) # cs) =
     (case wrap_tool_execute g c answer of (_, executed, g1) \<Rightarrow>
      case guard_run g1 cs of (runs, g2) \<Rightarrow>
        ((case executed of None \<Rightarrow> [] | Some r \<Rightarrow> [(call_slot c, r)]) @ runs, g2))"

section \<open>Cooldowns of the fallback chain\<close>

record model_health =
  mh_until :: "(string, rat) dict"
  mh_known :: "string list"

definition mh_register :: "string \<Rightarrow> model_health \<Rightarrow> model_health" where
  "mh_register key h = h\<lparr>mh_known := List.insert key (mh_known h)\<rparr>"

definition cool :: "string \<Rightarrow> rat \<Rightarrow> rat \<Rightarrow> model_health \<Rightarrow> model_health" where
  "cool key now seconds h = h\<lparr>mh_until := dict_set (mh_until h) key (now + seconds)\<rparr>"

definition recover :: "string \<Rightarrow> model_health \<Rightarrow> model_health" where
  "recover key h = h\<lparr>mh_until := dict_del (mh_until h) key\<rparr>"

definition cooling :: "model_health \<Rightarrow> rat \<Rightarrow> string \<Rightarrow> bool" where
  "cooling h now key = (now < (case dict_get (mh_until h) key of None \<Rightarrow> 0 | Some t \<Rightarrow> t))"

definition should_skip :: "model_health \<Rightarrow> rat \<Rightarrow> string \<Rightarrow> bool" where
  "should_skip h now key =
     (cooling h now key \<and> list_ex (\<lambda>other. other \<noteq> key \<and> \<not> cooling h now other) (mh_known h))"

datatype model_api_error = ModelHTTPError int | OtherModelAPIError

definition cooldown_for :: "model_api_error \<Rightarrow> rat" where
  "cooldown_for e = (case e of
       ModelHTTPError status \<Rightarrow>
         if status = 429 then 45
         else if 500 \<le> status then 30
         else if status \<in> {401, 402, 403} then 300
         else 0
     | OtherModelAPIError \<Rightarrow> 90)"

datatype 'r model_outcome = ModelReturned 'r | ModelFailed model_api_error | ModelSkipped

text \<open>\<^verbatim>\<open>HealthGatedChatModel.request\<close>: the clock is read at the gate (\<open>now\<close>) and, after a failure,
  when the cooldown starts (\<open>later\<close>).\<close>

definition gated_request ::
  "string \<Rightarrow> rat \<Rightarrow> rat \<Rightarrow> (model_api_error + 'r) \<Rightarrow> model_health \<Rightarrow> 'r model_outcome \<times> model_health"
where
  "gated_request key now later answer h =
     (if should_skip h now key then (ModelSkipped, h)
      else case answer of
        Inl e \<Rightarrow> (ModelFailed e,
                  if cooldown_for e \<noteq> 0 then cool key later (cooldown_for e) h else h)
      | Inr r \<Rightarrow> (ModelReturned r, recover key h))"

section \<open>Cancellation flags\<close>

definition cancel_request :: "string \<Rightarrow> string set \<Rightarrow> string set" where
  "cancel_request mission_id requested = insert mission_id requested"

definition is_requested :: "string set \<Rightarrow> string \<Rightarrow> bool" where
  "is_requested requested mission_id = (mission_id \<in> requested)"

definition cancel_clear :: "string \<Rightarrow> string set \<Rightarrow> string set" where
  "cancel_clear mission_id requested = requested - {mission_id}"

section \<open>Budgets are never exceeded\<close>

lemma get_set_counter:
  assumes "key \<in> set counters" "key' \<in> set counters"
  shows "get_counter (set_counter t key n) key' = (if key' = key then n else get_counter t key')"
  using assms by (auto simp: counters_def get_counter_def set_counter_def)

lemma set_counter_limits [simp]: "bt_limits (set_counter t key n) = bt_limits t"
  by (simp add: set_counter_def)

definition within_budget :: "budget_tracker \<Rightarrow> bool" where
  "within_budget t = (\<forall>key \<in> set counters. get_counter t key \<le> get_limit (bt_limits t) key)"

lemma consume_within:
  "within_budget t \<Longrightarrow> within_budget (snd (consume t key amount))
     \<and> bt_limits (snd (consume t key amount)) = bt_limits t"
  by (auto simp: within_budget_def consume_def Let_def get_set_counter)

lemma consume_all_within:
  "within_budget t \<Longrightarrow>
   within_budget (consume_all t uses) \<and> bt_limits (consume_all t uses) = bt_limits t"
  by (induction uses arbitrary: t) (auto simp: consume_all_def consume_within)

text \<open>Starting from a fresh tracker with non-negative limits, no sequence of \<^verbatim>\<open>consume\<close> calls,
  whatever amounts they ask for, brings a counter above its limit; and \<^verbatim>\<open>consume\<close> grants a request
  exactly when the counter stays within its limit, leaving everything unchanged when it refuses.\<close>

theorem budget_is_never_exceeded:
  assumes "\<forall>key \<in> set counters. 0 \<le> get_limit limits key" and "key \<in> set counters"
    and t: "t = consume_all (new_tracker limits now) uses"
  shows "get_counter t key \<le> get_limit limits key
    \<and> (if get_counter t key + amount \<le> get_limit limits key
       then consume t key amount = (Inr budget_ok, set_counter t key (get_counter t key + amount))
       else consume t key amount = (Inr (budget_exceeded key), t))"
proof -
  have "within_budget (new_tracker limits now)" "bt_limits (new_tracker limits now) = limits"
    using assms(1) by (auto simp: within_budget_def new_tracker_def get_counter_def counters_def)
  then have "within_budget t" "bt_limits t = limits"
    using consume_all_within [of "new_tracker limits now" uses] by (auto simp: t)
  then show ?thesis using assms(2) by (auto simp: within_budget_def consume_def Let_def)
qed

definition sample_limits :: execution_limits where
  "sample_limits = \<lparr>max_tool_calls = 2, max_cube_queries = 1, max_causal_queries = 1,
     max_prediction_calls = 1, max_validation_revisions = 1, max_runtime_seconds = 600\<rparr>"

theorem budget_is_never_exceeded_witness:
  "consume (consume_all (new_tracker sample_limits 0) [(''tool_calls'', 1), (''tool_calls'', 5)])
      ''tool_calls'' 2
   = (Inr (budget_exceeded ''tool_calls''),
      consume_all (new_tracker sample_limits 0) [(''tool_calls'', 1), (''tool_calls'', 5)])"
proof -
  let ?t = "consume_all (new_tracker sample_limits 0) [(''tool_calls'', 1), (''tool_calls'', 5)]"
  have "get_counter ?t ''tool_calls'' = 1"
    by (simp add: consume_all_def consume_def new_tracker_def sample_limits_def counters_def
        get_counter_def get_limit_def set_counter_def Let_def)
  then show ?thesis
    using budget_is_never_exceeded [OF _ _ refl, of sample_limits "''tool_calls''" 0
        "[(''tool_calls'', 1), (''tool_calls'', 5)]" 2]
    by (simp add: sample_limits_def get_limit_def counters_def)
qed

section \<open>A settled call is never executed again\<close>

definition slot_final :: "guard_state \<Rightarrow> string \<times> string \<Rightarrow> bool" where
  "slot_final g s = (\<exists>r. dict_get (gs_results g) s = Some r \<and> final_result r)"

lemma wrap_executes:
  assumes "wrap_tool_execute g c answer = (reply, executed, g')"
  shows "(executed = Some r \<longrightarrow> \<not> slot_final g (call_slot c)
            \<and> dict_get (gs_results g') (call_slot c) = Some r)
    \<and> (\<forall>s. slot_final g s \<longrightarrow> slot_final g' s)"
  using assms
  by (auto simp: wrap_tool_execute_def slot_final_def Let_def split: if_splits option.splits sum.splits)

lemma guard_run_final:
  assumes "guard_run g cs = (runs, g')" "slot_final g s"
  shows "s \<notin> fst ` set runs"
  using assms
proof (induction cs arbitrary: g runs)
  case (Cons x cs)
  obtain c answer where x: "x = (c, answer)" by (meson surj_pair)
  obtain reply executed g1 where step: "wrap_tool_execute g c answer = (reply, executed, g1)"
    by (rule prod_cases3)
  obtain log1 where rest: "guard_run g1 cs = (log1, g')"
    and runs: "runs = (case executed of None \<Rightarrow> [] | Some r \<Rightarrow> [(call_slot c, r)]) @ log1"
    using Cons.prems(1) x step by (auto split: prod.splits)
  have "slot_final g1 s" using wrap_executes [OF step] Cons.prems(2) by blast
  then have "s \<notin> fst ` set log1" using Cons.IH [OF rest] by blast
  moreover have "call_slot c \<noteq> s" if "executed = Some r" for r
    using wrap_executes [OF step, of r] that Cons.prems(2) by auto
  ultimately show ?case by (auto simp: runs split: option.splits)
qed simp

text \<open>However a mission's calls interleave, once a tool call has returned a final result (one
  that is not a retryable failure), the handler is never run again for that tool with those
  arguments in that mission.\<close>

theorem settled_call_is_not_repeated:
  assumes "guard_run g cs = (before @ (s, r) # after, g')" and "final_result r"
  shows "s \<notin> fst ` set after"
  using assms
proof (induction cs arbitrary: g before)
  case (Cons x cs)
  obtain c answer where x: "x = (c, answer)" by (meson surj_pair)
  obtain reply executed g1 where step: "wrap_tool_execute g c answer = (reply, executed, g1)"
    by (rule prod_cases3)
  obtain log1 where rest: "guard_run g1 cs = (log1, g')" and runs:
      "before @ (s, r) # after = (case executed of None \<Rightarrow> [] | Some r \<Rightarrow> [(call_slot c, r)]) @ log1"
    using Cons.prems(1) x step by (auto split: prod.splits)
  show ?case
  proof (cases before)
    case Nil
    show ?thesis
    proof (cases executed)
      case None
      then show ?thesis using Cons.IH [of g1 "[]"] rest runs Nil Cons.prems(2) by simp
    next
      case (Some r')
      then have "r' = r" "s = call_slot c" "log1 = after" using runs Nil by auto
      then have "slot_final g1 s"
        using wrap_executes [OF step, of r] Some Cons.prems(2) by (auto simp: slot_final_def)
      then show ?thesis using guard_run_final [OF rest] \<open>log1 = after\<close> by blast
    qed
  next
    case b: (Cons y ys)
    then show ?thesis
      using Cons.IH [of g1 ys] Cons.IH [of g1 before] rest runs Cons.prems(2)
      by (auto split: option.splits)
  qed
qed simp

definition sample_call :: guard_call where
  "sample_call = \<lparr>gc_mission = ''m1'', gc_tool = ''query'', gc_kind = ''function'', gc_args = ''{}''\<rparr>"

definition sample_answer :: "handler_result result" where
  "sample_answer = Inr (ToolRes \<lparr>tr_success = True, tr_retryable = False, tr_summary = ''ok''\<rparr>)"

definition sample_guard :: guard_state where
  "sample_guard = \<lparr>gs_results = [], gs_counts = []\<rparr>"

lemma sample_guard_run:
  "fst (guard_run sample_guard [(sample_call, sample_answer), (sample_call, sample_answer)]) =
     [] @ (call_slot sample_call,
           ToolRes \<lparr>tr_success = True, tr_retryable = False, tr_summary = ''ok''\<rparr>) # []"
  by (simp add: sample_guard_def sample_answer_def sample_call_def wrap_tool_execute_def
      final_result_def call_slot_def call_key_def Let_def)

theorem settled_call_is_not_repeated_witness:
  "call_slot sample_call \<notin> fst ` set (tl (fst (guard_run sample_guard
     [(sample_call, sample_answer), (sample_call, sample_answer)])))"
proof -
  obtain g where "guard_run sample_guard [(sample_call, sample_answer), (sample_call, sample_answer)]
      = ([] @ (call_slot sample_call,
           ToolRes \<lparr>tr_success = True, tr_retryable = False, tr_summary = ''ok''\<rparr>) # [], g)"
    using sample_guard_run by (metis prod.collapse)
  from settled_call_is_not_repeated [OF this] show ?thesis
    by (simp add: sample_guard_run final_result_def del: guard_run.simps)
qed

subsection \<open>The third identical call withdraws the tool\<close>

lemma dict_get_withdraw:
  "dict_get (withdraw_tool [t] counts) k = (if k = ''withdrawn:'' @ t then Some 1 else dict_get counts k)"
  by (simp add: withdraw_tool_def)

lemma withdrawn_iff:
  assumes "dict_wf counts"
  shows "t \<in> withdrawn_tools counts = (\<exists>n. dict_get counts (''withdrawn:'' @ t) = Some n \<and> n \<noteq> 0)"
proof
  assume "t \<in> withdrawn_tools counts"
  then obtain k v where "(k, v) \<in> set counts" "str_startswith k ''withdrawn:''" "v \<noteq> 0"
    "t = drop (length ''withdrawn:'') k" by (auto simp: withdrawn_tools_def)
  then have "(''withdrawn:'' @ t, v) \<in> set counts"
    unfolding str_startswith_def by (metis append_take_drop_id)
  then show "\<exists>n. dict_get counts (''withdrawn:'' @ t) = Some n \<and> n \<noteq> 0"
    using assms \<open>v \<noteq> 0\<close> by (blast intro: dict_wf_get)
next
  assume "\<exists>n. dict_get counts (''withdrawn:'' @ t) = Some n \<and> n \<noteq> 0"
  then show "t \<in> withdrawn_tools counts"
    by (force simp: withdrawn_tools_def str_startswith_def dest!: dict_get_SomeD)
qed

text \<open>Withdrawal is permanent: no later call of any tool takes it back.\<close>

lemma wrap_keeps_withdrawn:
  assumes "wrap_tool_execute g c answer = (reply, executed, g')" "dict_wf (gs_counts g)"
    and "t \<in> withdrawn_tools (gs_counts g)"
  shows "t \<in> withdrawn_tools (gs_counts g') \<and> dict_wf (gs_counts g')"
proof -
  have "''repeat:'' @ call_key c \<noteq> ''withdrawn:'' @ t" by simp
  moreover have "dict_wf (gs_counts g')"
    using assms(1,2) by (auto simp: wrap_tool_execute_def Let_def withdraw_tool_def
        split: if_splits option.splits sum.splits)
  ultimately show ?thesis
    using assms by (auto simp: withdrawn_iff wrap_tool_execute_def Let_def dict_get_withdraw
        split: if_splits option.splits sum.splits)
qed

lemma third_repeat_withdraws:
  assumes "wrap_tool_execute g c answer = (reply, executed, g')" "dict_wf (gs_counts g)"
    and "gc_kind c = ''function''" "slot_final g (call_slot c)"
    and "dict_get (gs_counts g) (''repeat:'' @ call_key c) = Some n" "2 \<le> n"
  shows "gc_tool c \<in> withdrawn_tools (gs_counts g') \<and> executed = None"
proof -
  have "dict_wf (gs_counts g')"
    using assms(1,2) by (auto simp: wrap_tool_execute_def Let_def withdraw_tool_def
        split: if_splits option.splits sum.splits)
  then show ?thesis
    using assms by (auto simp: withdrawn_iff wrap_tool_execute_def slot_final_def Let_def
        dict_get_withdraw)
qed

section \<open>The fallback chain always has a model to try\<close>

text \<open>At any time at least one registered model is not skipped: a model is skipped only while it
  cools down and another registered model does not.\<close>

theorem fallback_chain_never_blocks:
  assumes "mh_known h \<noteq> []"
  shows "(\<exists>key \<in> set (mh_known h). \<not> should_skip h now key)
    \<and> (\<forall>key. should_skip h now key \<longrightarrow>
         cooling h now key \<and> (\<exists>other \<in> set (mh_known h). other \<noteq> key \<and> \<not> cooling h now other))"
proof (cases "\<exists>key \<in> set (mh_known h). \<not> cooling h now key")
  case True
  then show ?thesis by (auto simp: should_skip_def list_ex_iff)
next
  case False
  then show ?thesis using assms by (auto simp: should_skip_def list_ex_iff) (metis list.set_sel(1))
qed

theorem fallback_chain_never_blocks_witness:
  "\<exists>key \<in> set (mh_known \<lparr>mh_until = [(''a'', 50), (''b'', 60)], mh_known = [''a'', ''b'']\<rparr>).
     \<not> should_skip \<lparr>mh_until = [(''a'', 50), (''b'', 60)], mh_known = [''a'', ''b'']\<rparr> 10 key"
  using fallback_chain_never_blocks
    [of "\<lparr>mh_until = [(''a'', 50), (''b'', 60)], mh_known = [''a'', ''b'']\<rparr>" 10] by simp

text \<open>A rate-limited model is left alone for its cooldown as long as another one is healthy, and a
  success ends the cooldown.\<close>

lemma failure_cools_down:
  assumes "gated_request key now later (Inl e) h = (ModelFailed e, h')" "cooldown_for e \<noteq> 0"
    and "other \<in> set (mh_known h)" "other \<noteq> key" "\<not> cooling h t other"
    and "t < later + cooldown_for e"
  shows "should_skip h' t key"
  using assms by (auto simp: gated_request_def should_skip_def cooling_def cool_def list_ex_iff
      split: if_splits)

lemma success_recovers:
  assumes "gated_request key now later (Inr r) h = (ModelReturned r, h')" "0 \<le> t"
  shows "\<not> should_skip h' t key"
  using assms by (auto simp: gated_request_def should_skip_def cooling_def recover_def split: if_splits)

section \<open>Cancellation flags\<close>

text \<open>The contract of a cancellation backend.\<close>

locale cancellation_backend =
  fixes request :: "string \<Rightarrow> 's \<Rightarrow> 's"
    and requested :: "'s \<Rightarrow> string \<Rightarrow> bool"
    and clear :: "string \<Rightarrow> 's \<Rightarrow> 's"
  assumes requested_request: "requested (request m s) m' = (m' = m \<or> requested s m')"
    and requested_clear: "requested (clear m s) m' = (m' \<noteq> m \<and> requested s m')"
begin

lemma request_survives:
  "requested s m \<Longrightarrow> m \<notin> set cleared \<Longrightarrow> requested (foldl (\<lambda>s m'. clear m' s) s cleared) m"
  by (induction cleared arbitrary: s) (auto simp: requested_clear)

end

interpretation in_memory_flags: cancellation_backend cancel_request is_requested cancel_clear
  by unfold_locales (auto simp: cancel_request_def is_requested_def cancel_clear_def)

end
