(* ===== verification/Validation.thy ===== *)
theory Validation
  imports Contracts Agent_Guards
begin

text \<open>
  The validation of a mission's answer: \<^verbatim>\<open>agent/validation/signals.py\<close> (the checks),
  \<^verbatim>\<open>agent/validation/trust.py\<close> and \<^verbatim>\<open>agent/validation/verdict.py\<close> (the two signals), the
  policy numbers of \<^verbatim>\<open>toolsets/policy_config.py\<close> and the bounded revision loop of
  \<^verbatim>\<open>agent/validation/__init__.py\<close>.

  Parsing of artifact payloads by pydantic is a parameter; the validators the payload classes
  add are modelled. Floats are exact rationals, \<^verbatim>\<open>round(x, n)\<close> rounds half to even. The free
  text of challenges, gaps and reasons is replaced by what it is computed from.
\<close>

section \<open>Policy\<close>

definition min_refutations :: nat where "min_refutations = 2"
definition min_observation_rows :: nat where "min_observation_rows = 8"
definition max_freshness_hours :: int where "max_freshness_hours = 72"
definition contradiction_tolerance :: rat where "contradiction_tolerance = 5 / 100"
definition trust_revise_below :: rat where "trust_revise_below = 55 / 100"
definition trust_blocking_cap :: rat where "trust_blocking_cap = 3 / 10"
definition alt_priority_revise_floor :: int where "alt_priority_revise_floor = 6"
definition methodology_trust_margin :: rat where "methodology_trust_margin = 15 / 100"

definition trust_label_thresholds :: "(string, rat) dict" where
  "trust_label_thresholds =
     [(''INSUFFICIENT'', 0), (''WEAK'', 35 / 100), (''PROBABLE'', 55 / 100), (''STRONG'', 72 / 100),
      (''VERIFIED'', 9 / 10)]"

definition trust_profiles :: "(string, (string, rat) dict) dict" where
  "trust_profiles =
     [(''numeric'',
        [(''source_reliability'', 25 / 100), (''metric_validity'', 25 / 100), (''freshness'', 2 / 10),
         (''provenance_completeness'', 2 / 10), (''cross_source_agreement'', 1 / 10)]),
      (''causal'',
        [(''evidence_quality'', 15 / 100), (''temporal_validity'', 15 / 100),
         (''graph_plausibility'', 15 / 100), (''confounder_coverage'', 15 / 100),
         (''estimator_validity'', 1 / 10), (''refutation_robustness'', 15 / 100),
         (''alternative_elimination'', 1 / 10), (''cross_source_agreement'', 5 / 100)]),
      (''forecast'',
        [(''model_applicability'', 25 / 100), (''backtest_quality'', 2 / 10),
         (''drift_status'', 25 / 100), (''calibration'', 1 / 10), (''feature_freshness'', 1 / 10),
         (''interval_quality'', 1 / 10)]),
      (''default'',
        [(''evidence_quality'', 4 / 10), (''provenance_completeness'', 3 / 10),
         (''cross_source_agreement'', 3 / 10)])]"

definition revise_categories :: "string list" where
  "revise_categories = [''metric'', ''source'', ''contradiction'', ''anomaly'', ''statistical'',
     ''model'', ''forecast'', ''causal'', ''data_quality'', ''temporal'']"

text \<open>\<^verbatim>\<open>round(x, n)\<close>\<close>

definition round_to :: "nat \<Rightarrow> rat \<Rightarrow> rat" where
  "round_to n x = of_int (round_half_even (x * 10 ^ n)) / 10 ^ n"

section \<open>Checks\<close>

datatype severity = Info | Warning | Blocking

datatype check_status =
  CS_OK | CS_WEAK | CS_REJECTED | CS_UNAVAILABLE | CS_NOT_APPLICABLE | CS_INSUFFICIENT

record challenge =
  ch_category :: string
  ch_severity :: severity
  ch_evidence_refs :: "string list"

record evidence_gap =
  gap_blocking :: bool
  gap_priority :: int

datatype alt_status = AltOpen | AltSupported | AltEliminated

record alternative_hypothesis =
  alt_hypothesis :: string
  alt_state :: alt_status
  alt_priority :: int

record check_outcome =
  oc_check :: string
  oc_status :: check_status
  oc_score_signals :: "(string, rat) dict"
  oc_challenges :: "challenge list"
  oc_gaps :: "evidence_gap list"
  oc_methodological_issues :: "string list"

definition outcome :: "string \<Rightarrow> check_status \<Rightarrow> check_outcome" where
  "outcome check status = \<lparr>oc_check = check, oc_status = status, oc_score_signals = [],
     oc_challenges = [], oc_gaps = [], oc_methodological_issues = []\<rparr>"

definition has_blocking :: "check_outcome \<Rightarrow> bool" where
  "has_blocking oc = list_ex (\<lambda>ch. ch_severity ch = Blocking) (oc_challenges oc)"

record evidence_payload =
  epl_metric_id :: string
  epl_dimensions :: "(string, string) dict"
  epl_period_start :: stamp
  epl_period_end :: stamp
  epl_value :: "rat option"
  epl_fetched_at :: moment

record causal_payload =
  cpl_classification :: string
  cpl_refutation_checks :: "json_obj list"

record prediction_payload =
  ppl_model_id :: string
  ppl_confidence_interval :: "(rat \<times> rat) option"
  ppl_feature_leakage_checked :: bool

record payload_parsers =
  parse_evidence :: "json_obj \<Rightarrow> evidence_payload option"
  parse_causal_fields :: "json_obj \<Rightarrow> causal_payload option"
  parse_prediction :: "json_obj \<Rightarrow> prediction_payload option"

text \<open>The model validator of \<^verbatim>\<open>CausalArtifact\<close>.\<close>

definition causally_supported_requires_refutation :: "causal_payload \<Rightarrow> bool" where
  "causally_supported_requires_refutation c =
     (\<not> (cpl_classification c \<in> {''CAUSALLY_SUPPORTED'', ''EXPERIMENTALLY_VALIDATED''}
         \<and> cpl_refutation_checks c = []))"

definition parse_causal :: "payload_parsers \<Rightarrow> json_obj \<Rightarrow> causal_payload option" where
  "parse_causal ps payload = (case parse_causal_fields ps payload of
       None \<Rightarrow> None
     | Some c \<Rightarrow> if causally_supported_requires_refutation c then Some c else None)"

definition of_type :: "string \<Rightarrow> artifact list \<Rightarrow> artifact list" where
  "of_type t artifacts = filter (\<lambda>a. art_artifact_type a = t) artifacts"

definition claim_type_for :: "artifact list \<Rightarrow> string" where
  "claim_type_for artifacts =
     (let types = map art_artifact_type artifacts in
      if ''causal'' \<in> set types then ''causal''
      else if ''prediction'' \<in> set types then ''forecast''
      else if ''evidence'' \<in> set types \<or> ''finding'' \<in> set types then ''numeric''
      else ''default'')"

definition check_evidence :: "payload_parsers \<Rightarrow> moment \<Rightarrow> artifact list \<Rightarrow> check_outcome" where
  "check_evidence ps now artifacts =
     (let rows = of_type ''evidence'' artifacts in
      if rows = [] then
        (if artifacts = [] then outcome ''evidence'' CS_NOT_APPLICABLE
         else (outcome ''evidence'' CS_INSUFFICIENT)
           \<lparr>oc_gaps := [\<lparr>gap_blocking = True, gap_priority = 9\<rparr>],
            oc_score_signals := [(''evidence_quality'', 0)]\<rparr>)
      else
        let parsed = map (\<lambda>a. (a, parse_evidence ps (art_payload a))) rows;
            unparsed = map (\<lambda>p. art_id (fst p)) (filter (\<lambda>p. snd p = None) parsed);
            evs = List.map_filter snd parsed;
            valued = filter (\<lambda>ev. epl_value ev \<noteq> None) evs;
            nulls = filter (\<lambda>ev. epl_value ev = None) evs
        in
        if unparsed \<noteq> [] then
          (outcome ''evidence'' CS_REJECTED)
            \<lparr>oc_challenges := [\<lparr>ch_category = ''evidence'', ch_severity = Blocking,
                                ch_evidence_refs = unparsed\<rparr>]\<rparr>
        else if valued = [] then
          (outcome ''evidence'' CS_INSUFFICIENT)
            \<lparr>oc_gaps := [\<lparr>gap_blocking = True, gap_priority = 9\<rparr>],
             oc_score_signals := [(''evidence_quality'', 0)]\<rparr>
        else
          let stale = filter (\<lambda>ev. max_freshness_hours * 3600 * 1000000 < now - epl_fetched_at ev) valued;
              thin = length valued < min_observation_rows;
              quality = 1 - (if nulls \<noteq> [] then 15 / 100 else 0)
                          - (if stale \<noteq> [] then 25 / 100 else 0) - (if thin then 2 / 10 else 0)
          in (outcome ''evidence'' (if thin then CS_WEAK else CS_OK))
            \<lparr>oc_gaps := (if nulls \<noteq> [] then [\<lparr>gap_blocking = False, gap_priority = 4\<rparr>] else [])
                        @ (if thin then [\<lparr>gap_blocking = False, gap_priority = 6\<rparr>] else []),
             oc_challenges := (if stale \<noteq> []
                then [\<lparr>ch_category = ''data_quality'', ch_severity = Warning, ch_evidence_refs = []\<rparr>]
                else []),
             oc_score_signals := [(''evidence_quality'', max 0 (round_to 3 quality))]\<rparr>)"

definition check_provenance :: "artifact list \<Rightarrow> check_outcome" where
  "check_provenance artifacts =
     (let durable = filter (\<lambda>a. art_classification a \<in> {Factual, Derived}) artifacts;
          offenders = map art_id (filter (\<lambda>a. case require_provenance a of Inl _ \<Rightarrow> True | Inr _ \<Rightarrow> False)
                        durable) in
      if durable = [] then outcome ''provenance'' CS_NOT_APPLICABLE
      else if offenders \<noteq> [] then
        (outcome ''provenance'' CS_REJECTED)
          \<lparr>oc_challenges := [\<lparr>ch_category = ''provenance'', ch_severity = Blocking,
                              ch_evidence_refs = offenders\<rparr>],
           oc_score_signals := [(''provenance_completeness'', 0)]\<rparr>
      else (outcome ''provenance'' CS_OK)\<lparr>oc_score_signals := [(''provenance_completeness'', 1)]\<rparr>)"

type_synonym series_id = "string \<times> (bool \<times> int) \<times> (bool \<times> int) \<times> (string \<times> string) list"

definition series_key :: "evidence_payload \<Rightarrow> series_id" where
  "series_key ev = (epl_metric_id ev, stamp_key (epl_period_start ev), stamp_key (epl_period_end ev), sort (epl_dimensions ev))"

text \<open>The rows with a value, in order, and their grouping by key.\<close>

definition valued_rows :: "payload_parsers \<Rightarrow> artifact list \<Rightarrow> (series_id \<times> string \<times> rat) list" where
  "valued_rows ps artifacts =
     List.map_filter (\<lambda>a. case parse_evidence ps (art_payload a) of
         None \<Rightarrow> None
       | Some ev \<Rightarrow> (case epl_value ev of None \<Rightarrow> None | Some v \<Rightarrow> Some (series_key ev, art_id a, v)))
       (of_type ''evidence'' artifacts)"

definition group_rows :: "('k \<times> 'v) list \<Rightarrow> ('k, 'v list) dict" where
  "group_rows rows = foldl (\<lambda>d (k, v). dict_set d k
     ((case dict_get d k of None \<Rightarrow> [] | Some vs \<Rightarrow> vs) @ [v])) [] rows"

definition disagreement :: "rat list \<Rightarrow> rat" where
  "disagreement values =
     (let low = Min (set values); high = Max (set values);
          base = (if high = 0 then 1 else \<bar>high\<bar>) in \<bar>high - low\<bar> / base)"

definition conflicting :: "series_id \<times> (string \<times> rat) list \<Rightarrow> bool" where
  "conflicting s = (2 \<le> length (snd s) \<and> contradiction_tolerance < disagreement (map snd (snd s)))"

definition check_contradiction :: "payload_parsers \<Rightarrow> artifact list \<Rightarrow> check_outcome" where
  "check_contradiction ps artifacts =
     (let conflicts = filter conflicting (group_rows (valued_rows ps artifacts)) in
      (outcome ''contradiction'' CS_OK)
        \<lparr>oc_challenges := map (\<lambda>s. \<lparr>ch_category = ''source'', ch_severity = Warning,
                                   ch_evidence_refs = map fst (snd s)\<rparr>) conflicts,
         oc_score_signals := [(''cross_source_agreement'',
                               if conflicts \<noteq> [] then 4 / 10 else 85 / 100)]\<rparr>)"

definition passing_refutations :: "causal_payload \<Rightarrow> nat" where
  "passing_refutations c =
     length (filter (\<lambda>r. truthy (obj_get r ''passed'')) (cpl_refutation_checks c))"

definition refutation_score :: "causal_payload \<Rightarrow> rat" where
  "refutation_score c = min 1 (of_nat (passing_refutations c) / of_nat min_refutations)"

definition causal_challenge :: "payload_parsers \<Rightarrow> artifact \<Rightarrow> challenge list" where
  "causal_challenge ps a = (case parse_causal ps (art_payload a) of
       None \<Rightarrow> [\<lparr>ch_category = ''causal'', ch_severity = Blocking, ch_evidence_refs = [art_id a]\<rparr>]
     | Some c \<Rightarrow>
         if cpl_classification c = ''CAUSALLY_SUPPORTED'' \<and> passing_refutations c < min_refutations
         then [\<lparr>ch_category = ''causal'', ch_severity = Warning, ch_evidence_refs = [art_id a]\<rparr>]
         else [])"

definition mean :: "rat list \<Rightarrow> rat" where
  "mean xs = sum_list xs / of_nat (length xs)"

definition check_causal :: "payload_parsers \<Rightarrow> artifact list \<Rightarrow> check_outcome" where
  "check_causal ps artifacts =
     (let rows = of_type ''causal'' artifacts;
          parsed = List.map_filter (\<lambda>a. parse_causal ps (art_payload a)) rows;
          scores = map refutation_score parsed in
      if rows = [] then outcome ''causal'' CS_NOT_APPLICABLE
      else (outcome ''causal''
              (if list_ex (\<lambda>a. parse_causal ps (art_payload a) = None) rows then CS_REJECTED else CS_OK))
        \<lparr>oc_challenges := concat (map (causal_challenge ps) rows),
         oc_score_signals := (if scores \<noteq> []
            then [(''refutation_robustness'', round_to 3 (mean scores)), (''estimator_validity'', 1)]
            else [])\<rparr>)"

definition check_prediction :: "payload_parsers \<Rightarrow> artifact list \<Rightarrow> check_outcome" where
  "check_prediction ps artifacts =
     (let rows = of_type ''prediction'' artifacts;
          parsed = List.map_filter (\<lambda>a. map_option (Pair (art_id a)) (parse_prediction ps (art_payload a))) rows;
          rejected = filter (\<lambda>a. parse_prediction ps (art_payload a) = None) rows;
          with_interval = length (filter (\<lambda>p. ppl_confidence_interval (snd p) \<noteq> None) parsed);
          unchecked = map fst (filter (\<lambda>p. \<not> ppl_feature_leakage_checked (snd p)) parsed) in
      if rows = [] then outcome ''prediction'' CS_NOT_APPLICABLE
      else (outcome ''prediction'' (if rejected \<noteq> [] then CS_REJECTED else CS_OK))
        \<lparr>oc_challenges :=
           map (\<lambda>a. \<lparr>ch_category = ''forecast'', ch_severity = Blocking, ch_evidence_refs = [art_id a]\<rparr>)
             rejected
           @ (if unchecked \<noteq> []
              then [\<lparr>ch_category = ''model'', ch_severity = Warning, ch_evidence_refs = unchecked\<rparr>]
              else []),
         oc_gaps := map (\<lambda>p. \<lparr>gap_blocking = False, gap_priority = 6\<rparr>)
           (filter (\<lambda>p. ppl_confidence_interval (snd p) = None) parsed),
         oc_score_signals :=
           [(''model_applicability'', if unchecked = [] then 1 else 5 / 10),
            (''interval_quality'', round_to 3 (of_nat with_interval / of_nat (length rows)))]\<rparr>)"

text \<open>The requested scope: every breakdown a set of interchangeable dimensions, and the dimensions
  that record each named value.\<close>

record required_scope =
  breakdowns :: "string list list"
  value_filters :: "string list list"

definition grouped_dimensions :: "payload_parsers \<Rightarrow> artifact list \<Rightarrow> string list" where
  "grouped_dimensions ps artifacts =
     concat (map (\<lambda>a. case parse_evidence ps (art_payload a) of
         None \<Rightarrow> [] | Some ev \<Rightarrow> dict_keys (epl_dimensions ev)) (of_type ''evidence'' artifacts))"

definition check_scope_coverage ::
  "payload_parsers \<Rightarrow> artifact list \<Rightarrow> required_scope \<Rightarrow> check_outcome" where
  "check_scope_coverage ps artifacts scope =
     (if breakdowns scope = [] \<and> value_filters scope = []
      then outcome ''scope_coverage'' CS_NOT_APPLICABLE
      else if of_type ''evidence'' artifacts = [] then outcome ''scope_coverage'' CS_NOT_APPLICABLE
      else
        let grouped = grouped_dimensions ps artifacts;
            missed = filter (\<lambda>ds. set ds \<inter> set grouped = {}) (breakdowns scope @ value_filters scope)
        in if missed = [] then outcome ''scope_coverage'' CS_OK
           else (outcome ''scope_coverage'' CS_INSUFFICIENT)
             \<lparr>oc_gaps := map (\<lambda>_. \<lparr>gap_blocking = True, gap_priority = 8\<rparr>) missed\<rparr>)"

definition claim_artifacts :: "artifact list \<Rightarrow> artifact list" where
  "claim_artifacts all = filter (\<lambda>a. art_artifact_type a \<noteq> ''plan'') all"

definition run_checks ::
  "payload_parsers \<Rightarrow> moment \<Rightarrow> artifact list \<Rightarrow> required_scope
   \<Rightarrow> check_outcome list \<times> evidence_gap list \<times> string" where
  "run_checks ps now all scope =
     (let artifacts = claim_artifacts all;
          outcomes = [check_evidence ps now artifacts, check_provenance artifacts,
            check_contradiction ps artifacts, check_causal ps artifacts, check_prediction ps artifacts,
            check_scope_coverage ps artifacts scope];
          live = filter (\<lambda>oc. oc_status oc \<noteq> CS_NOT_APPLICABLE) outcomes
      in (live, concat (map oc_gaps live), claim_type_for artifacts))"

section \<open>Trust\<close>

definition dimension_signals :: "(string, string list) dict" where
  "dimension_signals =
     [(''evidence_quality'', [''evidence_quality'', ''statistical_strength'']),
      (''provenance_completeness'', [''provenance_completeness'']),
      (''cross_source_agreement'', [''cross_source_agreement'']),
      (''source_reliability'', [''provenance_completeness'', ''cross_source_agreement'']),
      (''metric_validity'', [''metric_validity'']), (''freshness'', [''evidence_quality'']),
      (''temporal_validity'', [''temporal_validity'']),
      (''graph_plausibility'', [''graph_plausibility'']),
      (''confounder_coverage'', [''confounder_coverage'']),
      (''estimator_validity'', [''estimator_validity'']),
      (''refutation_robustness'', [''refutation_robustness'']),
      (''alternative_elimination'', [''_alt_elimination'']),
      (''model_applicability'', [''model_applicability'']),
      (''backtest_quality'', [''backtest_quality'']), (''drift_status'', [''drift_status'']),
      (''calibration'', [''forecast_quality'']),
      (''feature_freshness'', [''evidence_quality'', ''forecast_quality'']),
      (''interval_quality'', [''interval_quality''])]"

definition merge_signal :: "(string, rat) dict \<Rightarrow> string \<times> rat \<Rightarrow> (string, rat) dict" where
  "merge_signal d nv =
     dict_set d (fst nv) (min (case dict_get d (fst nv) of None \<Rightarrow> 1 | Some v \<Rightarrow> v) (snd nv))"

definition merged_signals ::
  "check_outcome list \<Rightarrow> alternative_hypothesis list \<Rightarrow> (string, rat) dict" where
  "merged_signals outcomes alternatives =
     (let signals = foldl merge_signal [] (concat (map oc_score_signals outcomes));
          open_alts = filter (\<lambda>a. alt_state a = AltOpen) alternatives in
      dict_set signals ''_alt_elimination''
        (if alternatives = [] then 1
         else max 0 (1 - of_nat (length open_alts) / of_nat (max 1 (length alternatives)))))"

text \<open>The value of a dimension, when a signal feeds it.\<close>

definition dimension_value :: "(string, rat) dict \<Rightarrow> string \<Rightarrow> rat option" where
  "dimension_value signals dimension =
     (let feeders = (case dict_get dimension_signals dimension of None \<Rightarrow> [dimension] | Some fs \<Rightarrow> fs);
          vals = List.map_filter (dict_get signals) feeders in
      if vals = [] then None else Some (mean vals))"

record trust_result =
  tr_score :: rat
  tr_label :: string
  tr_components :: "(string, rat) dict"

definition label_for :: "rat \<Rightarrow> string" where
  "label_for score =
     foldl (\<lambda>label name.
        if (case dict_get trust_label_thresholds name of None \<Rightarrow> 1 | Some t \<Rightarrow> t) \<le> score
        then name else label)
       ''INSUFFICIENT'' [''WEAK'', ''PROBABLE'', ''STRONG'', ''VERIFIED'']"

definition fed_dimensions :: "(string, rat) dict \<Rightarrow> (string, rat) dict \<Rightarrow> (string \<times> rat \<times> rat) list" where
  "fed_dimensions signals profile =
     List.map_filter (\<lambda>(dimension, weight).
       map_option (\<lambda>v. (dimension, weight, v)) (dimension_value signals dimension)) profile"

definition weighted_score :: "(string \<times> rat \<times> rat) list \<Rightarrow> rat" where
  "weighted_score fed =
     (let weighted_sum = sum_list (map (\<lambda>(_, w, v). w * v) fed);
          weight_total = sum_list (map (\<lambda>(_, w, _). w) fed) in
      if weight_total \<noteq> 0 then round_to 4 (weighted_sum / weight_total) else 0)"

definition score_trust ::
  "check_outcome list \<Rightarrow> alternative_hypothesis list \<Rightarrow> string \<Rightarrow> trust_result" where
  "score_trust outcomes alternatives claim_type =
     (let signals = merged_signals outcomes alternatives;
          profile = (case dict_get trust_profiles claim_type of
              Some p \<Rightarrow> p
            | None \<Rightarrow> the (dict_get trust_profiles ''default''));
          fed = fed_dimensions signals profile;
          score0 = weighted_score fed;
          score1 = (if list_ex has_blocking outcomes then min score0 trust_blocking_cap else score0);
          score = max 0 (min 1 score1)
      in \<lparr>tr_score = score, tr_label = label_for score,
          tr_components = map (\<lambda>(d, _, v). (d, round_to 3 v)) fed\<rparr>)"

section \<open>Verdict\<close>

datatype verdict = PASS | REVISE | REJECT

datatype reason =
    CheckRejected string | BlockingChallenge string challenge
  | BlockingGap evidence_gap | OpenAlternative string | UnresolvedIssue challenge
  | CheckMissing string check_status | LowTrust rat | WeakMethodology | AllGatesPassed rat

definition decide_verdict ::
  "check_outcome list \<Rightarrow> evidence_gap list \<Rightarrow> alternative_hypothesis list \<Rightarrow> rat
   \<Rightarrow> verdict \<times> reason list" where
  "decide_verdict outcomes gaps alternatives trust_score =
     (let rejects = concat (map (\<lambda>oc.
            (if oc_status oc = CS_REJECTED then [CheckRejected (oc_check oc)] else [])
            @ map (BlockingChallenge (oc_check oc))
                (filter (\<lambda>ch. ch_severity ch = Blocking) (oc_challenges oc))) outcomes) in
      if rejects \<noteq> [] then (REJECT, rejects)
      else
        let revises =
              map BlockingGap (filter gap_blocking gaps)
              @ map (\<lambda>a. OpenAlternative (alt_hypothesis a))
                  (filter (\<lambda>a. alt_state a = AltOpen \<and> alt_priority_revise_floor \<le> alt_priority a)
                    alternatives)
              @ map UnresolvedIssue
                  (filter (\<lambda>ch. ch_category ch \<in> set revise_categories \<and> ch_severity ch = Warning)
                    (concat (map oc_challenges outcomes)))
              @ map (\<lambda>oc. CheckMissing (oc_check oc) (oc_status oc))
                  (filter (\<lambda>oc. oc_status oc \<in> {CS_UNAVAILABLE, CS_INSUFFICIENT}) outcomes)
              @ (if trust_score < trust_revise_below then [LowTrust trust_score] else [])
              @ (if list_ex (\<lambda>oc. oc_methodological_issues oc \<noteq> []) outcomes
                    \<and> trust_score < trust_revise_below + methodology_trust_margin
                 then [WeakMethodology] else [])
        in if revises \<noteq> [] then (REVISE, revises) else (PASS, [AllGatesPassed trust_score]))"

section \<open>The validator\<close>

record validation_outcome =
  vo_ok :: bool
  vo_verdict :: "verdict option"
  vo_trust_score :: "rat option"
  vo_trust_label :: "string option"
  vo_reasons :: "reason list"

definition structural_failure :: validation_outcome where
  "structural_failure = \<lparr>vo_ok = False, vo_verdict = None, vo_trust_score = None,
     vo_trust_label = None, vo_reasons = []\<rparr>"

text \<open>What the validator reads: the mission's artifacts and scope, the alternatives, the clock, and
  which artifact identifiers resolve.\<close>

record mission_view =
  mv_parsers :: payload_parsers
  mv_artifacts :: "artifact list"
  mv_resolves :: "string \<Rightarrow> bool"
  mv_scope :: required_scope
  mv_now :: moment

definition validator_score :: "mission_view \<Rightarrow> alternative_hypothesis list \<Rightarrow> validation_outcome" where
  "validator_score mv alternatives =
     (case run_checks (mv_parsers mv) (mv_now mv) (mv_artifacts mv) (mv_scope mv) of
        (outcomes, gaps, claim_type) \<Rightarrow>
          if outcomes = [] then structural_failure\<lparr>vo_ok := True, vo_verdict := Some PASS\<rparr>
          else let trust = score_trust outcomes alternatives claim_type;
                   decision = decide_verdict outcomes gaps alternatives (tr_score trust)
               in \<lparr>vo_ok = (fst decision = PASS), vo_verdict = Some (fst decision),
                   vo_trust_score = Some (tr_score trust), vo_trust_label = Some (tr_label trust),
                   vo_reasons = snd decision\<rparr>)"

record mission_result =
  mr_status :: string
  mr_final_response :: string
  mr_evidence_ids :: "string list"
  mr_finding_ids :: "string list"
  mr_limitations :: "string list"
  mr_error_code :: "string option"

definition placeholder_answers :: "string list" where
  "placeholder_answers = [''placeholder'', ''todo'', ''tbd'', ''n/a'', ''na'', ''none'', ''null'', ''answer'']"

text \<open>\<^verbatim>\<open>s.strip(".")\<close> (the source also strips the ellipsis character, which is not ASCII).\<close>

definition strip_dots :: "string \<Rightarrow> string" where
  "strip_dots s = rev (dropWhile (\<lambda>c. c = CHR ''.'') (rev (dropWhile (\<lambda>c. c = CHR ''.'') s)))"

definition causal_classifications_ok :: "mission_view \<Rightarrow> bool" where
  "causal_classifications_ok mv =
     list_all (\<lambda>a. parse_causal (mv_parsers mv) (art_payload a) \<noteq> None)
       (of_type ''causal'' (mv_artifacts mv))"

definition validate :: "mission_view \<Rightarrow> mission_result \<Rightarrow> alternative_hypothesis list \<Rightarrow> validation_outcome"
where
  "validate mv result alternatives =
     (let core = str_lower (strip_dots (str_strip (mr_final_response result))) in
      if list_ex (\<lambda>aid. \<not> mv_resolves mv aid) (mr_evidence_ids result @ mr_finding_ids result)
      then structural_failure
      else if str_strip (mr_final_response result) = [] then structural_failure
      else if core = [] \<or> core \<in> set placeholder_answers then structural_failure
      else if \<not> causal_classifications_ok mv then structural_failure
      else validator_score mv alternatives)"

section \<open>The revision loop\<close>

text \<open>The n-th run of the agent and what the validator sees after it; the prompt of a revision and
  everything else the agent reads is behind this function.\<close>

type_synonym agent_runs = "nat \<Rightarrow> mission_result \<times> mission_view"

definition failed_closed :: "mission_result \<Rightarrow> mission_result" where
  "failed_closed result = result\<lparr>mr_status := ''failed'',
     mr_error_code := Some ''INSUFFICIENT_EVIDENCE'',
     mr_final_response :=
       (if str_strip (mr_final_response result) \<noteq> [] then str_strip (mr_final_response result)
        else ''I could not back this answer with live metric evidence. Please retry.''),
     mr_limitations := [''INSUFFICIENT_EVIDENCE'']\<rparr>"

text \<open>\<^verbatim>\<open>verdict.ok\<close>; the counter's name is a known one, so \<^verbatim>\<open>consume\<close> does not raise.\<close>

definition granted :: "budget_verdict result \<Rightarrow> bool" where
  "granted v = (case v of Inr b \<Rightarrow> bv_ok b | Inl _ \<Rightarrow> False)"

text \<open>The result, the runs made, and the tracker afterwards.\<close>

function validated_loop ::
  "agent_runs \<Rightarrow> nat \<Rightarrow> budget_tracker \<Rightarrow> mission_result \<times> nat \<times> budget_tracker" where
  "validated_loop agent n tracker =
     (let (result, mv) = agent n in
      if mr_error_code result = Some ''EXECUTION_LIMIT_EXCEEDED'' then (result, Suc n, tracker)
      else
        let outcome = validate mv result [] in
        if vo_ok outcome then (result, Suc n, tracker)
        else if vo_verdict outcome = Some REJECT then (failed_closed result, Suc n, tracker)
        else let (verdict, tracker1) = consume tracker ''validation_revisions'' 1 in
        if granted verdict then validated_loop agent (Suc n) tracker1
        else (failed_closed result, Suc n, tracker1))"
  by pat_completeness auto

lemma consume_revision:
  "consume tracker ''validation_revisions'' 1 =
     (if bt_validation_revisions tracker + 1 \<le> max_validation_revisions (bt_limits tracker)
      then (Inr budget_ok,
            tracker\<lparr>bt_validation_revisions := bt_validation_revisions tracker + 1\<rparr>)
      else (Inr (budget_exceeded ''validation_revisions''), tracker))"
  by (simp add: consume_def counters_def get_counter_def get_limit_def set_counter_def Let_def)

termination validated_loop
  by (relation "measure (\<lambda>(_, _, t). nat (max_validation_revisions (bt_limits t)
        - bt_validation_revisions t))")
    (auto simp: consume_revision granted_def budget_exceeded_def split: if_splits)

declare validated_loop.simps [simp del]

definition run_validated_mission ::
  "agent_runs \<Rightarrow> execution_limits \<Rightarrow> rat \<Rightarrow> mission_result \<times> nat \<times> budget_tracker" where
  "run_validated_mission agent limits now = validated_loop agent 0 (new_tracker limits now)"

text \<open>The tool and request budget of one run: a ceiling share of the mission's budget.\<close>

record usage_limits =
  request_limit :: int
  tool_calls_limit :: int

definition usage_share :: "int \<Rightarrow> int \<Rightarrow> int" where
  "usage_share total_budget attempts = - ((- total_budget) div attempts)"

definition run_usage_limits :: "execution_limits \<Rightarrow> int \<Rightarrow> usage_limits" where
  "run_usage_limits limits attempts_hint =
     (let attempts = max 1 attempts_hint; tool_cap = max 1 (max_tool_calls limits) in
      \<lparr>request_limit = usage_share (tool_cap + 32) attempts, tool_calls_limit = usage_share tool_cap attempts\<rparr>)"

section \<open>What a verdict means\<close>

lemma decide_reject:
  "fst (decide_verdict ocs gaps alts t) = REJECT \<longleftrightarrow>
     (\<exists>oc \<in> set ocs. oc_status oc = CS_REJECTED \<or> has_blocking oc)"
  by (auto simp: decide_verdict_def Let_def has_blocking_def list_ex_iff filter_empty_conv)

lemma decide_pass:
  "fst (decide_verdict ocs gaps alts t) = PASS \<longleftrightarrow>
     (\<forall>oc \<in> set ocs. oc_status oc \<notin> {CS_REJECTED, CS_UNAVAILABLE, CS_INSUFFICIENT}
        \<and> (\<forall>ch \<in> set (oc_challenges oc). ch_severity ch \<noteq> Blocking
             \<and> \<not> (ch_category ch \<in> set revise_categories \<and> ch_severity ch = Warning)))
     \<and> (\<forall>g \<in> set gaps. \<not> gap_blocking g)
     \<and> (\<forall>a \<in> set alts. \<not> (alt_state a = AltOpen \<and> alt_priority_revise_floor \<le> alt_priority a))
     \<and> trust_revise_below \<le> t
     \<and> ((\<exists>oc \<in> set ocs. oc_methodological_issues oc \<noteq> [])
          \<longrightarrow> trust_revise_below + methodology_trust_margin \<le> t)"
  by (auto simp: decide_verdict_def Let_def list_ex_iff filter_empty_conv not_less)

lemma contradiction_is_live: "oc_status (check_contradiction ps arts) = CS_OK"
  by (simp add: check_contradiction_def outcome_def Let_def)

lemma run_checks_live: "fst (run_checks ps now all scope) \<noteq> []"
  by (simp add: run_checks_def Let_def contradiction_is_live)

section \<open>The loop is bounded and fails closed\<close>

lemma validated_loop_outcome:
  "validated_loop agent n tracker = (result, m, tracker') \<Longrightarrow>
     n < m \<and> int m \<le> int n + 1
        + max 0 (max_validation_revisions (bt_limits tracker) - bt_validation_revisions tracker)
     \<and> (case agent (m - 1) of (r, mv) \<Rightarrow>
          if mr_error_code r = Some ''EXECUTION_LIMIT_EXCEEDED'' then result = r
          else if vo_ok (validate mv r []) then result = r
          else result = failed_closed r)"
proof (induction agent n tracker rule: validated_loop.induct)
  case (1 agent n tracker)
  obtain r mv where a: "agent n = (r, mv)" by (meson surj_pair)
  let ?stop = "mr_error_code r = Some ''EXECUTION_LIMIT_EXCEEDED'' \<or> vo_ok (validate mv r [])
      \<or> vo_verdict (validate mv r []) = Some REJECT"
  obtain v t where c: "consume tracker ''validation_revisions'' 1 = (v, t)" by (meson surj_pair)
  show ?case
  proof (cases "\<not> ?stop \<and> granted v")
    case True
    then have rest: "validated_loop agent (Suc n) t = (result, m, tracker')"
      using "1.prems" by (simp add: validated_loop.simps [of agent n] a c)
    have "bt_validation_revisions tracker + 1 \<le> max_validation_revisions (bt_limits tracker)"
      and "t = tracker\<lparr>bt_validation_revisions := bt_validation_revisions tracker + 1\<rparr>"
      using True c by (auto simp: consume_revision granted_def budget_exceeded_def split: if_splits)
    then show ?thesis using "1.IH" [OF a [symmetric] refl _ refl _ _ c [symmetric] refl _ rest] True by force
  next
    case False
    then show ?thesis
      using "1.prems" by (auto simp: validated_loop.simps [of agent n] a c Let_def split: if_splits)
  qed
qed

text \<open>C17. A validated mission ends: it runs the agent once and at most \<^verbatim>\<open>max_validation_revisions\<close> more
  times. What it returns is the last run's answer when that answer passed validation (or the run
  reported that a limit was exceeded), and otherwise the answer marked failed for insufficient
  evidence.\<close>

theorem validated_mission_is_bounded:
  "case run_validated_mission agent limits now of (result, runs, tracker) \<Rightarrow>
     0 < runs \<and> int runs \<le> 1 + max 0 (max_validation_revisions limits)
     \<and> (case agent (runs - 1) of (r, mv) \<Rightarrow>
          if mr_error_code r = Some ''EXECUTION_LIMIT_EXCEEDED'' \<or> vo_ok (validate mv r [])
          then result = r else result = failed_closed r)"
proof -
  obtain result runs tracker where run: "run_validated_mission agent limits now = (result, runs, tracker)"
    by (rule prod_cases3)
  then show ?thesis
    using validated_loop_outcome [of agent 0 "new_tracker limits now" result runs tracker]
    by (auto simp: run_validated_mission_def new_tracker_def split: prod.splits if_splits)
qed

lemma usage_share_bounds:
  assumes "0 < attempts"
  shows "b \<le> attempts * usage_share b attempts \<and> attempts * usage_share b attempts < b + attempts"
proof -
  have "attempts * ((- b) div attempts) = - b - (- b) mod attempts" by (simp add: minus_mod_eq_mult_div)
  moreover have "0 \<le> (- b) mod attempts" "(- b) mod attempts < attempts" using assms by simp_all
  ultimately show ?thesis unfolding usage_share_def mult_minus_right by linarith
qed

text \<open>The runs of one mission together get the configured tool budget, rounded up to a multiple of
  their number.\<close>

theorem mission_tool_budget:
  "let attempts = 1 + max 0 (max_validation_revisions limits) in
     max 1 (max_tool_calls limits) \<le> attempts * tool_calls_limit (run_usage_limits limits attempts)
     \<and> attempts * tool_calls_limit (run_usage_limits limits attempts) < max 1 (max_tool_calls limits) + attempts"
  using usage_share_bounds [of "1 + max 0 (max_validation_revisions limits)" "max 1 (max_tool_calls limits)"]
  by (simp add: run_usage_limits_def Let_def)

section \<open>Trust is a bounded mean\<close>

lemma in_map_filter: "y \<in> set (List.map_filter f xs) \<longleftrightarrow> (\<exists>x \<in> set xs. f x = Some y)"
  by (induction xs) (auto simp: List.map_filter_def)

lemma round_to_mono: "x \<le> y \<Longrightarrow> round_to n x \<le> round_to n y"
  unfolding round_to_def
  by (intro divide_right_mono) (auto intro!: round_half_even_mono mult_right_mono)

lemma weighted_mean_bounds:
  assumes "\<forall>(d, w, v) \<in> set fed. 0 < w \<and> lo \<le> v \<and> v \<le> hi" and "fed \<noteq> []"
  shows "round_to 4 lo \<le> weighted_score fed \<and> weighted_score fed \<le> round_to 4 hi"
proof -
  let ?W = "sum_list (map (\<lambda>(_, w, _). w) fed)" and ?S = "sum_list (map (\<lambda>(_, w, v). w * v) fed)"
  have "0 \<le> sum_list (map (\<lambda>(_, w, _). w) xs) \<and> (xs \<noteq> [] \<longrightarrow> 0 < sum_list (map (\<lambda>(_, w, _). w) xs))
      \<and> lo * sum_list (map (\<lambda>(_, w, _). w) xs) \<le> sum_list (map (\<lambda>(_, w, v). w * v) xs)
      \<and> sum_list (map (\<lambda>(_, w, v). w * v) xs) \<le> hi * sum_list (map (\<lambda>(_, w, _). w) xs)"
    if "\<forall>(d, w, v) \<in> set xs. 0 < w \<and> lo \<le> v \<and> v \<le> hi" for xs :: "(string \<times> rat \<times> rat) list"
    using that
  proof (induction xs)
    case (Cons x xs)
    obtain d w v where x: "x = (d, w, v)" by (rule prod_cases3)
    have "lo * w \<le> v * w" "v * w \<le> hi * w" "0 < w" using Cons.prems by (auto simp: x)
    then show ?case using Cons by (auto simp: x algebra_simps intro: add_mono)
  qed simp
  from this [OF assms(1)] assms(2) have "0 < ?W" "lo * ?W \<le> ?S" "?S \<le> hi * ?W" by auto
  then have "lo \<le> ?S / ?W" "?S / ?W \<le> hi" by (simp_all add: pos_le_divide_eq pos_divide_le_eq)
  then show ?thesis using \<open>0 < ?W\<close> round_to_mono by (simp add: weighted_score_def Let_def)
qed

lemma profile_weights_positive:
  "dict_get trust_profiles ct = Some profile \<Longrightarrow> \<forall>(d, w) \<in> set profile. 0 < w"
  by (drule dict_get_SomeD) (auto simp: trust_profiles_def)

lemma mean_bounds:
  assumes "xs \<noteq> []" "\<forall>x \<in> set xs. lo \<le> x \<and> x \<le> hi"
  shows "lo \<le> mean xs \<and> mean xs \<le> hi"
proof -
  have "of_nat (length ys) * lo \<le> sum_list ys \<and> sum_list ys \<le> of_nat (length ys) * hi"
    if "\<forall>x \<in> set ys. lo \<le> x \<and> x \<le> hi" for ys :: "rat list"
    using that by (induction ys) (auto simp: algebra_simps)
  from this [OF assms(2)] assms(1) show ?thesis
    by (simp add: mean_def pos_le_divide_eq pos_divide_le_eq mult.commute)
qed

lemma dimension_value_bounds:
  assumes "dimension_value signals d = Some v" "\<forall>n x. dict_get signals n = Some x \<longrightarrow> lo \<le> x \<and> x \<le> hi"
  shows "lo \<le> v \<and> v \<le> hi"
proof -
  obtain fs where "v = mean (List.map_filter (dict_get signals) fs)"
      "List.map_filter (dict_get signals) fs \<noteq> []"
    using assms(1) by (auto simp: dimension_value_def Let_def split: if_splits)
  moreover have "\<forall>x \<in> set (List.map_filter (dict_get signals) fs). lo \<le> x \<and> x \<le> hi"
    using assms(2) by (auto simp: in_map_filter)
  ultimately show ?thesis using mean_bounds by simp
qed

lemma label_for_eq:
  "label_for s = (if 9 / 10 \<le> s then ''VERIFIED'' else if 72 / 100 \<le> s then ''STRONG''
     else if 55 / 100 \<le> s then ''PROBABLE'' else if 35 / 100 \<le> s then ''WEAK'' else ''INSUFFICIENT'')"
  by (simp add: label_for_def trust_label_thresholds_def)

text \<open>The profile a claim is scored by always exists and has positive weights.\<close>

definition profile_for :: "string \<Rightarrow> (string, rat) dict" where
  "profile_for claim_type = (case dict_get trust_profiles claim_type of
      Some p \<Rightarrow> p | None \<Rightarrow> the (dict_get trust_profiles ''default''))"

lemma profile_for_positive: "\<forall>(d, w) \<in> set (profile_for ct). 0 < w"
proof (cases "dict_get trust_profiles ct")
  case None
  then have "profile_for ct = the (dict_get trust_profiles ''default'')" by (simp add: profile_for_def)
  moreover have "dict_get trust_profiles ''default'' = Some (the (dict_get trust_profiles ''default''))"
    by (simp add: trust_profiles_def)
  ultimately show ?thesis using profile_weights_positive by metis
next
  case (Some p)
  then show ?thesis using profile_weights_positive [OF Some] by (simp add: profile_for_def)
qed

text \<open>The trust score is a number between 0 and 1. A blocking challenge caps it at 0.3, so that its
  label is INSUFFICIENT. Otherwise, when some dimension of the claim's profile is fed, the score lies
  between the lowest and the highest signal (rounded to four digits): a missing dimension neither
  raises nor lowers it.\<close>

theorem trust_is_bounded_mean:
  fixes lo hi :: rat
  assumes sig: "\<forall>n x. dict_get (merged_signals ocs alts) n = Some x \<longrightarrow> lo \<le> x \<and> x \<le> hi"
    and "0 \<le> lo" "hi \<le> 1" and r: "r = score_trust ocs alts ct"
  shows "0 \<le> tr_score r \<and> tr_score r \<le> 1
    \<and> ((\<exists>oc \<in> set ocs. has_blocking oc) \<longrightarrow> tr_score r \<le> 3 / 10 \<and> tr_label r = ''INSUFFICIENT'')
    \<and> ((\<forall>oc \<in> set ocs. \<not> has_blocking oc)
         \<and> (\<exists>d \<in> fst ` set (profile_for ct). dimension_value (merged_signals ocs alts) d \<noteq> None)
       \<longrightarrow> round_to 4 lo \<le> tr_score r \<and> tr_score r \<le> round_to 4 hi)"
proof -
  let ?fed = "fed_dimensions (merged_signals ocs alts) (profile_for ct)"
  have score: "tr_score r = max 0 (min 1 (if list_ex has_blocking ocs
      then min (weighted_score ?fed) trust_blocking_cap else weighted_score ?fed))"
    and label: "tr_label r = label_for (tr_score r)"
    by (simp_all add: r score_trust_def Let_def profile_for_def)
  have "\<forall>(d, w, v) \<in> set ?fed. 0 < w \<and> lo \<le> v \<and> v \<le> hi"
    using profile_for_positive [of ct] dimension_value_bounds [OF _ sig]
    by (fastforce simp: fed_dimensions_def in_map_filter)
  then have mean: "round_to 4 lo \<le> weighted_score ?fed \<and> weighted_score ?fed \<le> round_to 4 hi"
    if "?fed \<noteq> []"
    using that by (rule weighted_mean_bounds)
  have fed: "?fed \<noteq> []"
    if "\<exists>d \<in> fst ` set (profile_for ct). dimension_value (merged_signals ocs alts) d \<noteq> None"
    using that in_map_filter [of _ _ "profile_for ct"] unfolding fed_dimensions_def
    by (fastforce simp: List.map_filter_def filter_empty_conv)
  have "round_to 4 0 = 0" "round_to 4 1 = 1"
    using round_half_even_of_int [of 0] round_half_even_of_int [of 10000] by (simp_all add: round_to_def)
  then have unit: "0 \<le> round_to 4 lo" "round_to 4 hi \<le> 1"
    using round_to_mono [OF assms(2), of 4] round_to_mono [OF assms(3), of 4] by simp_all
  have "0 \<le> tr_score r" "tr_score r \<le> 1" by (simp_all add: score)
  moreover have "tr_score r \<le> 3 / 10 \<and> tr_label r = ''INSUFFICIENT''" if "\<exists>oc \<in> set ocs. has_blocking oc"
  proof -
    have "tr_score r \<le> 3 / 10" using that by (simp add: score list_ex_iff trust_blocking_cap_def)
    then show ?thesis by (simp add: label label_for_eq)
  qed
  moreover have "tr_score r = weighted_score ?fed" if "\<forall>oc \<in> set ocs. \<not> has_blocking oc" "?fed \<noteq> []"
    using that mean unit by (auto simp: score list_ex_iff)
  ultimately show ?thesis using mean fed by metis
qed

text \<open>The two signals are independent in the way the design wants: a claim whose trust is STRONG or
  VERIFIED is never sent back because of its trust score, whatever else makes it REVISE.\<close>

theorem strong_trust_never_causes_revise:
  assumes "label_for t \<in> {''STRONG'', ''VERIFIED''}"
  shows "LowTrust x \<notin> set (snd (decide_verdict ocs gaps alts t))
    \<and> WeakMethodology \<notin> set (snd (decide_verdict ocs gaps alts t))"
proof -
  have "72 / 100 \<le> t" using assms by (auto simp: label_for_eq split: if_splits)
  then have "\<not> t < trust_revise_below" "\<not> t < trust_revise_below + methodology_trust_margin"
    by (simp_all add: trust_revise_below_def methodology_trust_margin_def)
  then show ?thesis by (auto simp: decide_verdict_def Let_def)
qed

theorem strong_trust_never_causes_revise_witness:
  "LowTrust (8 / 10) \<notin> set (snd (decide_verdict [] [\<lparr>gap_blocking = True, gap_priority = 9\<rparr>] [] (8 / 10)))
   \<and> fst (decide_verdict [] [\<lparr>gap_blocking = True, gap_priority = 9\<rparr>] [] (8 / 10)) = REVISE"
  using strong_trust_never_causes_revise [of "8 / 10"]
  by (simp add: label_for_eq) (simp add: decide_verdict_def)

text \<open>The validator means to leave a mission without artifacts unscored: ``scoring it would invent
  a trust number out of no evidence''. But \<^verbatim>\<open>check_contradiction\<close> always reports a signal, so the
  branch for no outcomes is never taken, and a mission that produced nothing is given the trust
  score 0.85 and the label STRONG.\<close>

theorem empty_mission_is_scored_strong:
  assumes "mv_artifacts mv = []"
  shows "validator_score mv [] = \<lparr>vo_ok = True, vo_verdict = Some PASS, vo_trust_score = Some (85 / 100),
    vo_trust_label = Some ''STRONG'', vo_reasons = [AllGatesPassed (85 / 100)]\<rparr>"
proof -
  define oc where "oc = (outcome ''contradiction'' CS_OK)
      \<lparr>oc_score_signals := [(''cross_source_agreement'', 85 / 100)]\<rparr>"
  have run: "run_checks ps now [] scope = ([oc], [], ''default'')" for ps now scope
    by (simp add: run_checks_def claim_artifacts_def check_evidence_def check_provenance_def
        check_contradiction_def check_causal_def check_prediction_def check_scope_coverage_def
        of_type_def valued_rows_def group_rows_def claim_type_for_def outcome_def Let_def
        map_filter_simps oc_def)
  have "merged_signals [oc] [] = [(''cross_source_agreement'', 85 / 100), (''_alt_elimination'', 1)]"
    by (simp add: merged_signals_def merge_signal_def outcome_def oc_def)
  moreover have "fed_dimensions [(''cross_source_agreement'', 85 / 100), (''_alt_elimination'', 1)]
      (the (dict_get trust_profiles ''default'')) = [(''cross_source_agreement'', 3 / 10, 85 / 100)]"
    by (simp add: trust_profiles_def fed_dimensions_def dimension_value_def dimension_signals_def
        map_filter_simps mean_def Let_def)
  moreover have "round_to 4 (85 / 100) = 85 / 100" "round_to 3 (85 / 100) = 85 / 100"
    using round_half_even_of_int [of 8500] round_half_even_of_int [of 850]
    by (simp_all add: round_to_def)
  moreover have "weighted_score [(''cross_source_agreement'', 3 / 10, 85 / 100)] = 85 / 100"
    using calculation(3) by (simp add: weighted_score_def)
  moreover have "\<not> has_blocking oc" by (simp add: has_blocking_def outcome_def oc_def)
  moreover have "(case dict_get trust_profiles ''default'' of None \<Rightarrow> the (dict_get trust_profiles ''default'')
      | Some p \<Rightarrow> p) = the (dict_get trust_profiles ''default'')"
    by (simp add: trust_profiles_def)
  moreover have "max 0 (min 1 (85 / 100)) = (85 / 100 :: rat)" "label_for (85 / 100) = ''STRONG''"
    by (simp_all add: label_for_eq)
  ultimately have "score_trust [oc] [] ''default'' = \<lparr>tr_score = 85 / 100, tr_label = ''STRONG'',
       tr_components = [(''cross_source_agreement'', 85 / 100)]\<rparr>"
    by (simp only: score_trust_def Let_def list_ex_iff list.set ball_simps bex_simps simp_thms if_False
        list.map prod.case)
  then show ?thesis
    using assms by (simp add: run validator_score_def decide_verdict_def outcome_def oc_def
        trust_revise_below_def Let_def)
qed

definition sample_view :: mission_view where
  "sample_view = \<lparr>mv_parsers = \<lparr>parse_evidence = (\<lambda>_. None), parse_causal_fields = (\<lambda>_. None),
       parse_prediction = (\<lambda>_. None)\<rparr>, mv_artifacts = [], mv_resolves = (\<lambda>_. True),
     mv_scope = \<lparr>breakdowns = [], value_filters = []\<rparr>, mv_now = 5\<rparr>"

theorem empty_mission_is_scored_strong_witness:
  "vo_trust_label (validator_score sample_view []) = Some ''STRONG''"
  by (subst empty_mission_is_scored_strong) (simp_all add: sample_view_def)

theorem trust_is_bounded_mean_witness:
  "tr_score (score_trust [(outcome ''evidence'' CS_OK)\<lparr>oc_score_signals := [(''evidence_quality'', 1 / 2)]\<rparr>]
      [] ''default'') \<ge> round_to 4 (1 / 2)
   \<and> tr_score (score_trust [(outcome ''evidence'' CS_OK)\<lparr>oc_score_signals := [(''evidence_quality'', 1 / 2)]\<rparr>]
      [] ''default'') \<le> 1"
proof -
  let ?ocs = "[(outcome ''evidence'' CS_OK)\<lparr>oc_score_signals := [(''evidence_quality'', 1 / 2)]\<rparr>]"
  have sig: "merged_signals ?ocs [] = [(''evidence_quality'', 1 / 2), (''_alt_elimination'', 1)]"
    by (simp add: merged_signals_def merge_signal_def outcome_def)
  have bnd: "\<forall>n x. dict_get (merged_signals ?ocs []) n = Some x \<longrightarrow> 1 / 2 \<le> x \<and> x \<le> 1"
    unfolding sig by (auto split: if_splits)
  have "dimension_value [(''evidence_quality'', 1 / 2), (''_alt_elimination'', 1)] ''evidence_quality''
      = Some (1 / 2)"
    by (simp add: dimension_value_def dimension_signals_def map_filter_simps Let_def mean_def)
  moreover have "''evidence_quality'' \<in> fst ` set (profile_for ''default'')"
    by (simp add: profile_for_def trust_profiles_def)
  ultimately have "\<exists>d \<in> fst ` set (profile_for ''default''). dimension_value (merged_signals ?ocs []) d \<noteq> None"
    unfolding sig by (metis option.distinct(1))
  moreover have "\<forall>oc \<in> set ?ocs. \<not> has_blocking oc" by (simp add: has_blocking_def outcome_def)
  ultimately show ?thesis
    using trust_is_bounded_mean [of ?ocs "[]" "1 / 2" 1 _ "''default''", OF _ _ _ refl] bnd by simp
qed

section \<open>What a passing verdict certifies\<close>

lemma group_rows_get:
  "dict_get (group_rows rows) k =
     (let vs = map snd (filter (\<lambda>r. fst r = k) rows) in if vs = [] then None else Some vs)"
proof (induction rows rule: rev_induct)
  case Nil
  then show ?case by (simp add: group_rows_def)
next
  case (snoc r rows)
  then show ?case by (cases r) (auto simp: group_rows_def Let_def split: if_splits)
qed

lemma check_evidence_clean:
  assumes "oc_status (check_evidence ps now arts) \<notin> {CS_REJECTED, CS_INSUFFICIENT}"
  shows "\<forall>a \<in> set (of_type ''evidence'' arts). parse_evidence ps (art_payload a) \<noteq> None"
    and "arts \<noteq> [] \<Longrightarrow> \<exists>a \<in> set (of_type ''evidence'' arts). \<exists>ev.
           parse_evidence ps (art_payload a) = Some ev \<and> epl_value ev \<noteq> None"
  using assms
  by (auto simp: check_evidence_def outcome_def Let_def filter_empty_conv in_map_filter split: if_splits)
    blast+

lemma check_provenance_clean:
  assumes "oc_status (check_provenance arts) \<noteq> CS_REJECTED" "a \<in> set arts"
    "art_classification a \<in> {Factual, Derived}"
  shows "\<exists>b. require_provenance a = Inr b"
  using assms
  by (cases "require_provenance a")
    (auto simp: check_provenance_def outcome_def Let_def filter_empty_conv split: if_splits)

lemma check_contradiction_clean:
  assumes "\<forall>ch \<in> set (oc_challenges (check_contradiction ps arts)).
      \<not> (ch_category ch \<in> set revise_categories \<and> ch_severity ch = Warning)"
    and "2 \<le> length (filter (\<lambda>r. fst r = k) (valued_rows ps arts))"
  shows "disagreement (map (snd \<circ> snd) (filter (\<lambda>r. fst r = k) (valued_rows ps arts)))
      \<le> contradiction_tolerance"
proof -
  let ?vs = "map snd (filter (\<lambda>r. fst r = k) (valued_rows ps arts))"
  have "dict_get (group_rows (valued_rows ps arts)) k = Some ?vs"
    using assms(2) by (auto simp: group_rows_get Let_def)
  then have "(k, ?vs) \<in> set (group_rows (valued_rows ps arts))" by (rule dict_get_SomeD)
  moreover have "\<not> conflicting s" if "s \<in> set (group_rows (valued_rows ps arts))" for s
  proof -
    obtain m b st c en dims vs where s: "s = ((m, (b, st), (c, en), dims), vs)" by (metis surj_pair)
    show ?thesis using assms(1) that
      unfolding s by (auto simp: check_contradiction_def outcome_def revise_categories_def Let_def)
  qed
  ultimately have "\<not> conflicting (k, ?vs)" by blast
  then show ?thesis using assms(2) by (simp add: conflicting_def not_less comp_def)
qed

lemma check_causal_clean:
  assumes "a \<in> set (of_type ''causal'' arts)"
    and "\<forall>ch \<in> set (oc_challenges (check_causal ps arts)). ch_severity ch \<noteq> Blocking
      \<and> \<not> (ch_category ch \<in> set revise_categories \<and> ch_severity ch = Warning)"
  shows "\<exists>c. parse_causal ps (art_payload a) = Some c
      \<and> (cpl_classification c = ''CAUSALLY_SUPPORTED'' \<longrightarrow> min_refutations \<le> passing_refutations c)"
proof -
  have "\<forall>ch \<in> set (causal_challenge ps a). ch_severity ch \<noteq> Blocking
      \<and> \<not> (ch_category ch \<in> set revise_categories \<and> ch_severity ch = Warning)"
    using assms by (auto simp: check_causal_def outcome_def Let_def split: if_splits)
  then show ?thesis
    by (auto simp: causal_challenge_def revise_categories_def split: option.splits if_splits)
qed

lemma check_prediction_clean:
  assumes "a \<in> set (of_type ''prediction'' arts)"
    and "\<forall>ch \<in> set (oc_challenges (check_prediction ps arts)). ch_severity ch \<noteq> Blocking
      \<and> \<not> (ch_category ch \<in> set revise_categories \<and> ch_severity ch = Warning)"
  shows "\<exists>p. parse_prediction ps (art_payload a) = Some p \<and> ppl_feature_leakage_checked p"
proof -
  have "parse_prediction ps (art_payload a) \<noteq> None"
  proof
    assume "parse_prediction ps (art_payload a) = None"
    then have "\<lparr>ch_category = ''forecast'', ch_severity = Blocking, ch_evidence_refs = [art_id a]\<rparr>
        \<in> set (oc_challenges (check_prediction ps arts))"
      using assms(1) by (auto simp: check_prediction_def outcome_def Let_def)
    then show False using assms(2) by force
  qed
  then obtain p where p: "parse_prediction ps (art_payload a) = Some p" by auto
  have "filter (\<lambda>p. \<not> ppl_feature_leakage_checked (snd p))
      (List.map_filter (\<lambda>a. map_option (Pair (art_id a)) (parse_prediction ps (art_payload a)))
        (of_type ''prediction'' arts)) = []" (is "?unchecked = []")
  proof (rule ccontr)
    assume "?unchecked \<noteq> []"
    then have "\<lparr>ch_category = ''model'', ch_severity = Warning, ch_evidence_refs = map fst ?unchecked\<rparr>
        \<in> set (oc_challenges (check_prediction ps arts))"
      using assms(1) by (auto simp: check_prediction_def outcome_def Let_def)
    then show False using assms(2) by (force simp: revise_categories_def)
  qed
  moreover have "(art_id a, p) \<in> set (List.map_filter
      (\<lambda>a. map_option (Pair (art_id a)) (parse_prediction ps (art_payload a))) (of_type ''prediction'' arts))"
    using assms(1) p by (force simp: in_map_filter)
  ultimately show ?thesis using p by (auto simp: filter_empty_conv)
qed

lemma check_scope_clean:
  assumes "oc_status (check_scope_coverage ps arts scope) \<noteq> CS_INSUFFICIENT"
    and "of_type ''evidence'' arts \<noteq> []" "ds \<in> set (breakdowns scope @ value_filters scope)"
  shows "set ds \<inter> set (grouped_dimensions ps arts) \<noteq> {}"
  using assms
  by (auto simp: check_scope_coverage_def outcome_def Let_def filter_empty_conv split: if_splits)

lemma pass_clears_checks:
  assumes "vo_verdict (validator_score mv alts) = Some PASS"
  shows "trust_revise_below \<le> the (vo_trust_score (validator_score mv alts))"
    and "oc \<in> {check_evidence (mv_parsers mv) (mv_now mv) (claim_artifacts (mv_artifacts mv)),
        check_provenance (claim_artifacts (mv_artifacts mv)),
        check_contradiction (mv_parsers mv) (claim_artifacts (mv_artifacts mv)),
        check_causal (mv_parsers mv) (claim_artifacts (mv_artifacts mv)),
        check_prediction (mv_parsers mv) (claim_artifacts (mv_artifacts mv)),
        check_scope_coverage (mv_parsers mv) (claim_artifacts (mv_artifacts mv)) (mv_scope mv)} \<Longrightarrow>
      oc_status oc \<notin> {CS_REJECTED, CS_UNAVAILABLE, CS_INSUFFICIENT} \<and>
      (oc_status oc \<noteq> CS_NOT_APPLICABLE \<longrightarrow> (\<forall>ch \<in> set (oc_challenges oc). ch_severity ch \<noteq> Blocking
         \<and> \<not> (ch_category ch \<in> set revise_categories \<and> ch_severity ch = Warning)))"
proof -
  obtain ocs gaps ct where run: "run_checks (mv_parsers mv) (mv_now mv) (mv_artifacts mv) (mv_scope mv)
      = (ocs, gaps, ct)" by (rule prod_cases3)
  have "ocs \<noteq> []" using run_checks_live [of "mv_parsers mv" "mv_now mv" "mv_artifacts mv" "mv_scope mv"]
    by (simp add: run)
  then have d: "fst (decide_verdict ocs gaps alts (tr_score (score_trust ocs alts ct))) = PASS"
    and t: "vo_trust_score (validator_score mv alts) = Some (tr_score (score_trust ocs alts ct))"
    using assms by (simp_all add: validator_score_def run Let_def)
  note clear = d [unfolded decide_pass]
  show "trust_revise_below \<le> the (vo_trust_score (validator_score mv alts))" using clear t by simp
  assume oc: "oc \<in> {check_evidence (mv_parsers mv) (mv_now mv) (claim_artifacts (mv_artifacts mv)),
        check_provenance (claim_artifacts (mv_artifacts mv)),
        check_contradiction (mv_parsers mv) (claim_artifacts (mv_artifacts mv)),
        check_causal (mv_parsers mv) (claim_artifacts (mv_artifacts mv)),
        check_prediction (mv_parsers mv) (claim_artifacts (mv_artifacts mv)),
        check_scope_coverage (mv_parsers mv) (claim_artifacts (mv_artifacts mv)) (mv_scope mv)}"
  have "oc \<in> set ocs" if "oc_status oc \<noteq> CS_NOT_APPLICABLE"
    using run oc that by (auto simp: run_checks_def Let_def)
  then show "oc_status oc \<notin> {CS_REJECTED, CS_UNAVAILABLE, CS_INSUFFICIENT} \<and>
      (oc_status oc \<noteq> CS_NOT_APPLICABLE \<longrightarrow> (\<forall>ch \<in> set (oc_challenges oc). ch_severity ch \<noteq> Blocking
         \<and> \<not> (ch_category ch \<in> set revise_categories \<and> ch_severity ch = Warning)))"
    using clear by (cases "oc_status oc = CS_NOT_APPLICABLE") auto
qed

lemma not_applicable_quiet:
  "oc_status (check_causal ps arts) = CS_NOT_APPLICABLE \<Longrightarrow> oc_challenges (check_causal ps arts) = []"
  "oc_status (check_prediction ps arts) = CS_NOT_APPLICABLE \<Longrightarrow> oc_challenges (check_prediction ps arts) = []"
  by (auto simp: check_causal_def check_prediction_def outcome_def Let_def split: if_splits)

text \<open>C18. A PASS certifies the answer's artifacts: every evidence row is well formed and, when there
  is any claim, some row has a value; every factual or derived artifact has its provenance; rows of
  the same metric, period and dimensions agree within five percent; a claim called causally supported
  has at least two passing refutations; every prediction is well formed and checked for leakage;
  every breakdown and named value of the request is among the dimensions of the evidence (when there
  is evidence); and the trust score is at least 0.55. A PASS of a mission without claim artifacts
  certifies nothing about evidence: such a mission is scored 0.85, STRONG (\<open>empty_mission_is_scored_strong\<close>).\<close>

theorem pass_means_validated:
  assumes "vo_verdict (validator_score mv alts) = Some PASS"
    and "arts = claim_artifacts (mv_artifacts mv)" "ps = mv_parsers mv"
  shows "(\<forall>a \<in> set (of_type ''evidence'' arts). parse_evidence ps (art_payload a) \<noteq> None)
    \<and> (arts \<noteq> [] \<longrightarrow> (\<exists>a \<in> set (of_type ''evidence'' arts). \<exists>ev.
          parse_evidence ps (art_payload a) = Some ev \<and> epl_value ev \<noteq> None))
    \<and> (\<forall>a \<in> set arts. art_classification a \<in> {Factual, Derived} \<longrightarrow> (\<exists>b. require_provenance a = Inr b))
    \<and> (\<forall>k. 2 \<le> length (filter (\<lambda>r. fst r = k) (valued_rows ps arts)) \<longrightarrow>
          disagreement (map (snd \<circ> snd) (filter (\<lambda>r. fst r = k) (valued_rows ps arts))) \<le> 5 / 100)
    \<and> (\<forall>a \<in> set (of_type ''causal'' arts). \<exists>c. parse_causal ps (art_payload a) = Some c
          \<and> (cpl_classification c = ''CAUSALLY_SUPPORTED'' \<longrightarrow> 2 \<le> passing_refutations c))
    \<and> (\<forall>a \<in> set (of_type ''prediction'' arts). \<exists>p.
          parse_prediction ps (art_payload a) = Some p \<and> ppl_feature_leakage_checked p)
    \<and> (\<forall>ds \<in> set (breakdowns (mv_scope mv) @ value_filters (mv_scope mv)).
          of_type ''evidence'' arts \<noteq> [] \<longrightarrow> set ds \<inter> set (grouped_dimensions ps arts) \<noteq> {})
    \<and> 55 / 100 \<le> the (vo_trust_score (validator_score mv alts))"
proof -
  note clear = pass_clears_checks(2) [OF assms(1), folded assms(2,3)]
  have quiet: "\<forall>ch \<in> set (oc_challenges oc). ch_severity ch \<noteq> Blocking
         \<and> \<not> (ch_category ch \<in> set revise_categories \<and> ch_severity ch = Warning)"
    if "oc \<in> {check_contradiction ps arts, check_causal ps arts, check_prediction ps arts}" for oc
    using clear [of oc] that not_applicable_quiet [of ps arts] contradiction_is_live [of ps arts] by auto
  have "oc_status (check_evidence ps (mv_now mv) arts) \<notin> {CS_REJECTED, CS_INSUFFICIENT}"
    "oc_status (check_provenance arts) \<noteq> CS_REJECTED"
    "oc_status (check_scope_coverage ps arts (mv_scope mv)) \<noteq> CS_INSUFFICIENT"
    using clear by blast+
  note status = this
  note evidence = check_evidence_clean [OF status(1)]
  moreover note check_provenance_clean [OF status(2)]
  moreover have "disagreement (map (snd \<circ> snd) (filter (\<lambda>r. fst r = k) (valued_rows ps arts))) \<le> 5 / 100"
    if "2 \<le> length (filter (\<lambda>r. fst r = k) (valued_rows ps arts))" for k
    using check_contradiction_clean [OF _ that] quiet [of "check_contradiction ps arts"]
    unfolding contradiction_tolerance_def by blast
  moreover have "\<forall>a \<in> set (of_type ''causal'' arts). \<exists>c. parse_causal ps (art_payload a) = Some c
      \<and> (cpl_classification c = ''CAUSALLY_SUPPORTED'' \<longrightarrow> 2 \<le> passing_refutations c)"
    using check_causal_clean quiet by (metis insertI1 insertI2 min_refutations_def)
  moreover have "\<forall>a \<in> set (of_type ''prediction'' arts). \<exists>p.
      parse_prediction ps (art_payload a) = Some p \<and> ppl_feature_leakage_checked p"
    using check_prediction_clean quiet by (metis insertI1 insertI2)
  moreover note check_scope_clean [OF status(3)]
  moreover have "55 / 100 \<le> the (vo_trust_score (validator_score mv alts))"
    using pass_clears_checks(1) [OF assms(1)] by (simp add: trust_revise_below_def)
  ultimately show ?thesis by blast
qed

text \<open>Two rows of one series, two percent apart.\<close>

definition passing_view :: mission_view where
  "passing_view =
     (let row = (\<lambda>i. sample_artifact\<lparr>art_id := i, art_artifact_type := ''evidence'',
                  art_payload := [(''id'', JStr i)]\<rparr>);
          ev = (\<lambda>v. \<lparr>epl_metric_id = ''roas'', epl_dimensions = [(''channel'', ''meta'')],
                  epl_period_start = utc 0, epl_period_end = utc 10, epl_value = Some v, epl_fetched_at = 0\<rparr>)
      in sample_view\<lparr>mv_artifacts := [row ''a1'', row ''a2''],
           mv_scope := \<lparr>breakdowns = [[''channel'', ''platform'']], value_filters = []\<rparr>,
           mv_parsers := (mv_parsers sample_view)\<lparr>parse_evidence := (\<lambda>payload.
             if obj_get payload ''id'' = JStr ''a1'' then Some (ev 100) else Some (ev 102))\<rparr>\<rparr>)"

definition passing_outcomes :: "check_outcome list" where
  "passing_outcomes =
     [(outcome ''evidence'' CS_WEAK)\<lparr>oc_gaps := [\<lparr>gap_blocking = False, gap_priority = 6\<rparr>],
          oc_score_signals := [(''evidence_quality'', 4 / 5)]\<rparr>,
        (outcome ''provenance'' CS_OK)\<lparr>oc_score_signals := [(''provenance_completeness'', 1)]\<rparr>,
        (outcome ''contradiction'' CS_OK)\<lparr>oc_score_signals := [(''cross_source_agreement'', 17 / 20)]\<rparr>,
        outcome ''scope_coverage'' CS_OK]"

lemma passing_view_run:
  "run_checks (mv_parsers passing_view) (mv_now passing_view) (mv_artifacts passing_view)
     (mv_scope passing_view) =
   (passing_outcomes, [\<lparr>gap_blocking = False, gap_priority = 6\<rparr>], ''numeric'')"
proof -
  have quality: "round_to 3 (4 / 5) = 4 / 5" using round_half_even_of_int [of 800] by (simp add: round_to_def)
  have agree: "disagreement [100, 102] \<le> contradiction_tolerance"
    by (simp add: disagreement_def contradiction_tolerance_def Let_def)
  let ?ps = "mv_parsers passing_view" and ?arts = "mv_artifacts passing_view"
  have arts: "claim_artifacts ?arts = ?arts" "of_type ''evidence'' ?arts = ?arts" "of_type ''causal'' ?arts = []"
    "of_type ''prediction'' ?arts = []" "claim_type_for ?arts = ''numeric''" "?arts \<noteq> []"
    by (simp_all add: passing_view_def claim_artifacts_def of_type_def claim_type_for_def Let_def)
  have ev: "check_evidence ?ps (mv_now passing_view) ?arts =
      (outcome ''evidence'' CS_WEAK)\<lparr>oc_gaps := [\<lparr>gap_blocking = False, gap_priority = 6\<rparr>],
          oc_score_signals := [(''evidence_quality'', 4 / 5)]\<rparr>"
    unfolding check_evidence_def arts
    by (simp add: passing_view_def sample_view_def map_filter_simps min_observation_rows_def
        max_freshness_hours_def quality outcome_def obj_get_def Let_def)
  have prov: "check_provenance ?arts =
      (outcome ''provenance'' CS_OK)\<lparr>oc_score_signals := [(''provenance_completeness'', 1)]\<rparr>"
    by (simp add: check_provenance_def passing_view_def sample_artifact_def require_provenance_def
        all_evidence_ids_def sample_provenance_def any_version_def dedupe_def Let_def)
  have contra: "check_contradiction ?ps ?arts =
      (outcome ''contradiction'' CS_OK)\<lparr>oc_score_signals := [(''cross_source_agreement'', 17 / 20)]\<rparr>"
    using agree unfolding check_contradiction_def valued_rows_def arts
    by (simp add: passing_view_def sample_view_def map_filter_simps series_key_def group_rows_def
        conflicting_def obj_get_def outcome_def Let_def)
  have cov: "check_scope_coverage ?ps ?arts (mv_scope passing_view) = outcome ''scope_coverage'' CS_OK"
    unfolding check_scope_coverage_def grouped_dimensions_def arts
    by (simp add: passing_view_def sample_view_def obj_get_def Let_def)
  have none: "check_causal ?ps ?arts = outcome ''causal'' CS_NOT_APPLICABLE"
    "check_prediction ?ps ?arts = outcome ''prediction'' CS_NOT_APPLICABLE"
    by (simp_all add: check_causal_def check_prediction_def arts)
  show ?thesis
    unfolding run_checks_def arts Let_def ev prov contra cov none
    by (simp add: outcome_def passing_outcomes_def)
qed

theorem pass_means_validated_witness:
  "vo_verdict (validator_score passing_view []) = Some PASS
   \<and> 55 / 100 \<le> the (vo_trust_score (validator_score passing_view []))
   \<and> set [''channel'', ''platform''] \<inter> set (grouped_dimensions (mv_parsers passing_view)
        (claim_artifacts (mv_artifacts passing_view))) \<noteq> {}"
proof -
  have "round_to 4 (4 / 5) = 4 / 5" using round_half_even_of_int [of 8000] by (simp add: round_to_def)
  moreover have "merged_signals passing_outcomes [] = [(''evidence_quality'', 4 / 5), (''provenance_completeness'', 1),
      (''cross_source_agreement'', 17 / 20), (''_alt_elimination'', 1)]"
    by (simp add: merged_signals_def merge_signal_def outcome_def passing_outcomes_def)
  then have fed: "fed_dimensions (merged_signals passing_outcomes []) (profile_for ''numeric'') =
      [(''source_reliability'', 25 / 100, 37 / 40), (''freshness'', 2 / 10, 4 / 5),
       (''provenance_completeness'', 2 / 10, 1), (''cross_source_agreement'', 1 / 10, 17 / 20)]"
    by (simp add: profile_for_def trust_profiles_def fed_dimensions_def dimension_value_def
        dimension_signals_def map_filter_simps mean_def Let_def)
  ultimately have "4 / 5 \<le> weighted_score (fed_dimensions (merged_signals passing_outcomes []) (profile_for ''numeric''))"
    using weighted_mean_bounds [of "fed_dimensions (merged_signals passing_outcomes []) (profile_for ''numeric'')" "4 / 5" 1]
    unfolding fed by simp
  moreover have "\<not> list_ex has_blocking passing_outcomes" by (simp add: has_blocking_def outcome_def passing_outcomes_def)
  ultimately have trust: "4 / 5 \<le> tr_score (score_trust passing_outcomes [] ''numeric'')"
    unfolding score_trust_def Let_def profile_for_def [symmetric] by simp
  then have pass: "vo_verdict (validator_score passing_view []) = Some PASS"
    using decide_pass [of passing_outcomes]
    by (simp add: validator_score_def passing_view_run decide_pass trust_revise_below_def Let_def) (simp add: outcome_def passing_outcomes_def)
  have scope: "[''channel'', ''platform''] \<in> set (breakdowns (mv_scope passing_view) @ value_filters (mv_scope passing_view))"
    "of_type ''evidence'' (claim_artifacts (mv_artifacts passing_view)) \<noteq> []" by code_simp+
  show ?thesis using pass_means_validated [OF pass refl refl] pass scope by blast
qed

end
