(* ===== verification/Missions.thy ===== *)
theory Missions
  imports Memory_Service Agent_Guards
begin

text \<open>
  The mission store \<^verbatim>\<open>persistence/memory.py\<close> and the life of an asynchronous mission in
  \<^verbatim>\<open>api/async_missions.py\<close>: acceptance, the background job, cancellation, and the cursor by which
  clients poll a mission's events.

  The job's call of \<^verbatim>\<open>run_v3_mission\<close> is a function on the mission's world (the store and the
  cancellation flags, which other requests may change while the agent runs) that returns the
  dispatched state or an exception. The process-wide and the configured cancellation backend are
  read together and cleared together, so their union is the flag set here. Of a result only what
  the store and the jobs read is kept; timestamps and error texts are given as text.
\<close>

section \<open>InMemoryMissionStore\<close>

record lookup_result =
  lr_mission_id :: string
  lr_status :: string
  lr_mission_lead :: "string option"
  lr_limitations :: "string list"
  lr_final_response :: "string option"
  lr_request_id :: string
  lr_session_id :: string

record mission_store =
  mst_results :: "(string, lookup_result) dict"
  mst_raw :: "(string, json_obj) dict"
  mst_events :: "(string, json_obj list) dict"

definition empty_mission_store :: mission_store where
  "empty_mission_store = \<lparr>mst_results = [], mst_raw = [], mst_events = []\<rparr>"

definition extract_events :: "json_obj option \<Rightarrow> json_obj list" where
  "extract_events raw = (case raw of
       None \<Rightarrow> []
     | Some r \<Rightarrow> (case obj_get r ''events'' of
           JList es \<Rightarrow> List.map_filter (\<lambda>e. case e of JObj kvs \<Rightarrow> Some kvs | _ \<Rightarrow> None) es
         | _ \<Rightarrow> []))"

text \<open>\<^verbatim>\<open>raw.get("status")\<close>, and the status a write is checked against.\<close>

definition raw_status :: "mission_store \<Rightarrow> string \<Rightarrow> json" where
  "raw_status st mid = (case dict_get (mst_raw st) mid of None \<Rightarrow> JNull | Some r \<Rightarrow> obj_get r ''status'')"

definition current_status :: "mission_store \<Rightarrow> string \<Rightarrow> json" where
  "current_status st mid = (if raw_status st mid \<noteq> JNull then raw_status st mid
     else case dict_get (mst_results st) mid of None \<Rightarrow> JNull | Some r \<Rightarrow> JStr (lr_status r))"

definition result_cancelled :: "mission_store \<Rightarrow> string \<Rightarrow> bool" where
  "result_cancelled st mid = (case dict_get (mst_results st) mid of
     None \<Rightarrow> False | Some r \<Rightarrow> lr_status r = ''cancelled'')"

definition put_refused :: "(json \<Rightarrow> string) \<Rightarrow> lookup_result \<Rightarrow> mission_store \<Rightarrow> bool" where
  "put_refused py r st =
     (let mid = lr_mission_id r; cur = current_status st mid in
      (lr_status r \<noteq> ''cancelled'' \<and> (raw_status st mid = JStr ''cancelled'' \<or> result_cancelled st mid))
      \<or> (lr_status r = ''cancelled'' \<and> cur \<noteq> JNull \<and> py_str py cur \<noteq> ''running''))"

definition mission_put ::
  "(json \<Rightarrow> string) \<Rightarrow> lookup_result \<Rightarrow> json_obj option \<Rightarrow> mission_store \<Rightarrow> mission_store" where
  "mission_put py r raw st =
     (let mid = lr_mission_id r in
      if put_refused py r st then st
      else let st1 = st\<lparr>mst_results := dict_set (dict_del (mst_results st) mid) mid r\<rparr> in
        case raw of
          Some rs \<Rightarrow> st1\<lparr>mst_raw := dict_set (mst_raw st) mid rs,
                        mst_events := dict_set (mst_events st) mid (extract_events raw)\<rparr>
        | None \<Rightarrow> (if dict_get (mst_events st) mid = None
                   then st1\<lparr>mst_events := dict_set (mst_events st) mid []\<rparr> else st1))"

definition mission_get :: "mission_store \<Rightarrow> string \<Rightarrow> lookup_result option" where
  "mission_get st mid = dict_get (mst_results st) mid"

definition mission_get_raw :: "mission_store \<Rightarrow> string \<Rightarrow> json_obj option" where
  "mission_get_raw st mid = dict_get (mst_raw st) mid"

text \<open>\<^verbatim>\<open>filter_events\<close>: a running cursor replaces the stored sequence number; the page stops at the
  limit. The loop's \<^verbatim>\<open>out\<close> is the list built so far.\<close>

definition source_seq :: "json_obj \<Rightarrow> int" where
  "source_seq source =
     (let v = obj_get source ''seq'' in
      if \<not> truthy v then 0 else case py_int v of Inl _ \<Rightarrow> 0 | Inr i \<Rightarrow> i)"

definition in_family :: "(json \<Rightarrow> string) \<Rightarrow> string option \<Rightarrow> json_obj \<Rightarrow> bool" where
  "in_family py family event =
     (\<not> str_truthy family \<or>
      (let fam = obj_get event ''family'';
           kind = (if truthy (obj_get event ''kind'') then py_str py (obj_get event ''kind'') else [])
       in (if truthy fam then fam else JStr []) = JStr (the family)
          \<or> str_startswith kind (the family @ ''_'')))"

fun filter_events_from ::
  "(json \<Rightarrow> string) \<Rightarrow> string option \<Rightarrow> int \<Rightarrow> int \<Rightarrow> int \<Rightarrow> json_obj list \<Rightarrow> json_obj list \<Rightarrow> json_obj list" where
  "filter_events_from py family after_seq limit cursor out [] = out"
| "filter_events_from py family after_seq limit cursor out (source # sources) =
     (let cursor' = max (cursor + 1) (source_seq source);
          event = dict_set source ''seq'' (JInt cursor') in
      if cursor' \<le> after_seq \<or> \<not> in_family py family event
      then filter_events_from py family after_seq limit cursor' out sources
      else let out' = out @ [event] in
        if max 1 limit \<le> int (length out') then out'
        else filter_events_from py family after_seq limit cursor' out' sources)"

definition filter_events ::
  "(json \<Rightarrow> string) \<Rightarrow> string option \<Rightarrow> int \<Rightarrow> int \<Rightarrow> json_obj list \<Rightarrow> json_obj list" where
  "filter_events py family after_seq limit events =
     filter_events_from py family after_seq limit 0 [] events"

definition list_mission_events ::
  "(json \<Rightarrow> string) \<Rightarrow> mission_store \<Rightarrow> string \<Rightarrow> string option \<Rightarrow> int \<Rightarrow> int \<Rightarrow> json_obj list" where
  "list_mission_events py st mid family after_seq limit =
     filter_events py family after_seq limit
       (case dict_get (mst_events st) mid of
          Some (e # es) \<Rightarrow> e # es
        | _ \<Rightarrow> extract_events (mission_get_raw st mid))"

record mission_header =
  mh_mission_id :: string
  mh_query :: json
  mh_status :: json
  mh_route :: json
  mh_lead :: json
  mh_workspace_id :: json
  mh_owner_user_id :: json

definition allows :: "json \<Rightarrow> string option \<Rightarrow> bool" where
  "allows value wanted = (case wanted of None \<Rightarrow> True | Some w \<Rightarrow> value \<in> {JNull, JStr w})"

definition truthy_or :: "json \<Rightarrow> json \<Rightarrow> json" where
  "truthy_or a b = (if truthy a then a else b)"

definition mission_header_of :: "mission_store \<Rightarrow> string \<times> lookup_result \<Rightarrow> mission_header" where
  "mission_header_of st kr =
     (let raw = (case dict_get (mst_raw st) (fst kr) of None \<Rightarrow> [] | Some r \<Rightarrow> r); r = snd kr in
      \<lparr>mh_mission_id = fst kr,
       mh_query = truthy_or (truthy_or (obj_get raw ''query'') (opt_json (lr_final_response r))) (JStr []),
       mh_status = truthy_or (obj_get raw ''status'') (JStr (lr_status r)),
       mh_route = obj_get raw ''route'',
       mh_lead = truthy_or (obj_get raw ''mission_lead'') (opt_json (lr_mission_lead r)),
       mh_workspace_id = obj_get raw ''workspace_id'', mh_owner_user_id = obj_get raw ''owner_user_id''\<rparr>)"

text \<open>Recent missions, newest first; \<^verbatim>\<open>last_seq\<close> of a header is left out.\<close>

definition list_missions ::
  "mission_store \<Rightarrow> int \<Rightarrow> string option \<Rightarrow> string option \<Rightarrow> string set option \<Rightarrow> mission_header list" where
  "list_missions st limit workspace owner statuses =
     take (nat (max 1 limit)) (filter (\<lambda>h. allows (mh_workspace_id h) workspace
         \<and> allows (mh_owner_user_id h) owner
         \<and> (case statuses of None \<Rightarrow> True | Some ss \<Rightarrow> \<exists>s \<in> ss. mh_status h = JStr s))
       (map (mission_header_of st) (rev (mst_results st))))"

section \<open>Acceptance and cancellation\<close>

record mission_world =
  mw_store :: mission_store
  mw_flags :: "string set"

definition request_cancel :: "string \<Rightarrow> mission_world \<Rightarrow> mission_world" where
  "request_cancel mid w = w\<lparr>mw_flags := cancel_request mid (mw_flags w)\<rparr>"

definition clear_cancel :: "string \<Rightarrow> mission_world \<Rightarrow> mission_world" where
  "clear_cancel mid w = w\<lparr>mw_flags := cancel_clear mid (mw_flags w)\<rparr>"

definition is_cancel_requested :: "string \<Rightarrow> mission_world \<Rightarrow> bool" where
  "is_cancel_requested mid w =
     (is_requested (mw_flags w) mid
      \<or> (case mission_get_raw (mw_store w) mid of None \<Rightarrow> False
         | Some raw \<Rightarrow> obj_get raw ''status'' = JStr ''cancelled''
             \<or> obj_get raw ''cancel_requested'' = JBool True)
      \<or> result_cancelled (mw_store w) mid)"

definition store_put :: "(json \<Rightarrow> string) \<Rightarrow> lookup_result \<Rightarrow> json_obj \<Rightarrow> mission_world \<Rightarrow> mission_world" where
  "store_put py r raw w = w\<lparr>mw_store := mission_put py r (Some raw) (mw_store w)\<rparr>"

definition accepted_text :: string where
  "accepted_text = ''Mission accepted; execution in progress. Poll GET /v1/missions/{id}.''"

definition seed_running_mission ::
  "(json \<Rightarrow> string) \<Rightarrow> string \<Rightarrow> string \<Rightarrow> string \<Rightarrow> string \<Rightarrow> string \<Rightarrow> string option \<Rightarrow> string option
   \<Rightarrow> string option \<Rightarrow> string option \<Rightarrow> mission_world \<Rightarrow> json_obj \<times> mission_world" where
  "seed_running_mission py ts mid query request session workspace owner tid rid w =
     (let raw = [(''route'', JStr ''pending''), (''mission_id'', JStr mid), (''status'', JStr ''running''),
            (''query'', JStr query), (''async'', JBool True),
            (''trace'', JObj [(''request_id'', JStr request), (''session_id'', JStr session)]),
            (''workspace_id'', opt_json workspace), (''owner_user_id'', opt_json owner),
            (''thread_id'', opt_json tid), (''run_id'', opt_json rid),
            (''artifacts'', JObj (map (\<lambda>k. (k, JList [])) [''evidence'', ''anomaly'', ''hypothesis'',
                ''causal'', ''prediction'', ''strategy'', ''skeptic''])),
            (''events'', JList [JObj [(''kind'', JStr ''mission_accepted''), (''ts'', JStr ts),
                (''seq'', JInt 1), (''mission_id'', JStr mid), (''family'', JStr ''mission''),
                (''async'', JBool True)]]),
            (''limitations'', JList [JStr accepted_text]),
            (''final_response'', JNull), (''error_code'', JNull)];
          r = \<lparr>lr_mission_id = mid, lr_status = ''running'', lr_mission_lead = None,
            lr_limitations = [accepted_text], lr_final_response = None,
            lr_request_id = request, lr_session_id = session\<rparr>
      in (raw, store_put py r raw w))"

definition not_cancellable :: error where
  "not_cancellable = ValueError ''mission not cancellable''"

text \<open>The record of a cancelled mission.\<close>

definition cancelled_raw :: "string \<Rightarrow> string \<Rightarrow> json_obj \<Rightarrow> json_obj" where
  "cancelled_raw ts mid raw =
     (let events = (case obj_get raw ''events'' of JList es \<Rightarrow> es | _ \<Rightarrow> []);
          events' = events @ [JObj [(''kind'', JStr ''mission_cancelled''), (''ts'', JStr ts),
             (''seq'', JInt (int (length events) + 1)), (''mission_id'', JStr mid),
             (''family'', JStr ''mission''), (''async'', JBool True)]]
      in dict_merge raw [(''route'', truthy_or (obj_get raw ''route'') (JStr ''pending'')),
           (''mission_id'', JStr mid), (''status'', JStr ''cancelled''), (''async'', JBool True),
           (''cancel_requested'', JBool True), (''events'', JList events'),
           (''limitations'', JList [JStr ''Mission cancelled by client before completion.'']),
           (''error_code'', JStr ''CANCELLED''), (''final_response'', JNull)])"

definition cancel_running_mission ::
  "(json \<Rightarrow> string) \<Rightarrow> string \<Rightarrow> string \<Rightarrow> string \<Rightarrow> string option \<Rightarrow> mission_world
   \<Rightarrow> json_obj result \<times> mission_world" where
  "cancel_running_mission py ts fresh mid request w =
     (let st = mw_store w; cur = current_status st mid in
      if mission_get_raw st mid = None \<and> mission_get st mid = None then (Inl (KeyError mid), w)
      else if \<not> truthy cur \<or> py_str py cur \<noteq> ''running'' then (Inl not_cancellable, w)
      else let
        raw = (case mission_get_raw st mid of None \<Rightarrow> [] | Some r \<Rightarrow> r);
        rid = (if str_truthy request then the request
               else case mission_get st mid of None \<Rightarrow> fresh | Some r \<Rightarrow> lr_request_id r);
        sid = (case mission_get st mid of None \<Rightarrow> rid | Some r \<Rightarrow> lr_session_id r);
        cancelled = \<lparr>lr_mission_id = mid, lr_status = ''cancelled'', lr_mission_lead = None,
          lr_limitations = [''Mission cancelled by client before completion.''],
          lr_final_response = None, lr_request_id = rid, lr_session_id = sid\<rparr>;
        payload = cancelled_raw ts mid raw;
        w' = store_put py cancelled payload (request_cancel mid w)
      in if current_status (mw_store w') mid \<noteq> JStr ''cancelled''
         then (Inl not_cancellable, clear_cancel mid w') else (Inr payload, w'))"

section \<open>The background job\<close>

datatype job_exception = JobTimeout string | JobError string

definition ownership_of :: "json_obj option \<Rightarrow> json_obj" where
  "ownership_of seeded = (case seeded of None \<Rightarrow> []
     | Some s \<Rightarrow> List.map_filter (\<lambda>k. if obj_get s k = JNull then None else Some (k, obj_get s k))
         [''workspace_id'', ''owner_user_id'', ''thread_id'', ''run_id''])"

definition failed_raw ::
  "string \<Rightarrow> string \<Rightarrow> string \<Rightarrow> json_obj \<Rightarrow> job_exception \<Rightarrow> string \<Rightarrow> json_obj" where
  "failed_raw ts mid query ownership exc detail =
     (let text = (case exc of JobTimeout s \<Rightarrow> s | JobError s \<Rightarrow> s) in
      dict_merge (dict_merge [(''route'', JStr ''failed''), (''mission_id'', JStr mid),
         (''status'', JStr ''failed''), (''query'', JStr query), (''async'', JBool True)] ownership)
        [(''error_code'', JStr (case exc of JobTimeout _ \<Rightarrow> ''MISSION_TIMEOUT''
                                  | JobError _ \<Rightarrow> ''ASYNC_EXECUTION_FAILED'')),
         (''error_message'', JStr text),
         (''events'', JList [JObj [(''kind'', JStr ''mission_failed''), (''ts'', JStr ts),
            (''seq'', JInt 2), (''mission_id'', JStr mid), (''family'', JStr ''mission''),
            (''error'', JStr text)]]),
         (''limitations'', JList [JStr detail])])"

definition job_failed ::
  "(json \<Rightarrow> string) \<Rightarrow> (job_exception \<Rightarrow> string) \<Rightarrow> string \<Rightarrow> string \<Rightarrow> string \<Rightarrow> string \<Rightarrow> string \<Rightarrow> string option
   \<Rightarrow> json_obj \<Rightarrow> job_exception \<Rightarrow> mission_world \<Rightarrow> mission_world" where
  "job_failed py detail_of ts fresh mid query request session ownership exc w =
     (if is_cancel_requested mid w then
        (if raw_status (mw_store w) mid = JStr ''cancelled'' then clear_cancel mid w
         else clear_cancel mid (snd (cancel_running_mission py ts fresh mid (Some request) w)))
      else
        let fail = \<lparr>lr_mission_id = mid, lr_status = ''failed'', lr_mission_lead = None,
              lr_limitations = [detail_of exc], lr_final_response = None, lr_request_id = request,
              lr_session_id = (if str_truthy session then the session else request)\<rparr>
        in clear_cancel mid (store_put py fail (failed_raw ts mid query ownership exc (detail_of exc)) w))"

text \<open>After the agent returned: cancellation wins; otherwise the raw record keeps its ownership. An
  exception of \<^verbatim>\<open>cancel_running_mission\<close> is handled like one of the agent.\<close>

definition job_returned ::
  "(json \<Rightarrow> string) \<Rightarrow> (job_exception \<Rightarrow> string) \<Rightarrow> (error \<Rightarrow> job_exception) \<Rightarrow> string \<Rightarrow> string \<Rightarrow> string
   \<Rightarrow> string \<Rightarrow> string \<Rightarrow> string option \<Rightarrow> json_obj \<Rightarrow> json_obj \<Rightarrow> mission_world \<Rightarrow> mission_world" where
  "job_returned py detail_of as_exc ts fresh mid query request session ownership dispatched w =
     (if is_cancel_requested mid w then
        (if raw_status (mw_store w) mid = JStr ''cancelled'' then clear_cancel mid w
         else case cancel_running_mission py ts fresh mid (Some request) w of
             (Inr _, w') \<Rightarrow> clear_cancel mid w'
           | (Inl e, w') \<Rightarrow> job_failed py detail_of ts fresh mid query request session ownership (as_exc e) w')
      else clear_cancel mid (case mission_get_raw (mw_store w) mid of
          None \<Rightarrow> w
        | Some raw \<Rightarrow>
            if obj_get raw ''status'' = JStr ''cancelled'' then w
            else let raw' = dict_merge (dict_merge raw ownership) [(''async'', JBool True),
                   (''route'', truthy_or (obj_get dispatched ''route'') (obj_get raw ''route''))]
              in case mission_get (mw_store w) mid of
                   None \<Rightarrow> w
                 | Some got \<Rightarrow> if lr_status got \<noteq> ''cancelled'' then store_put py got raw' w else w))"

definition run_mission_job ::
  "(json \<Rightarrow> string) \<Rightarrow> (job_exception \<Rightarrow> string) \<Rightarrow> (error \<Rightarrow> job_exception) \<Rightarrow> string \<Rightarrow> string
   \<Rightarrow> (mission_world \<Rightarrow> (job_exception + json_obj) \<times> mission_world)
   \<Rightarrow> string \<Rightarrow> string \<Rightarrow> string \<Rightarrow> string option \<Rightarrow> mission_world \<Rightarrow> mission_world" where
  "run_mission_job py detail_of as_exc ts fresh run_v3_mission mid query request session w =
     (let ownership = ownership_of (mission_get_raw (mw_store w) mid) in
      if is_cancel_requested mid w then w
      else case run_v3_mission w of
          (Inl exc, w') \<Rightarrow> job_failed py detail_of ts fresh mid query request session ownership exc w'
        | (Inr dispatched, w') \<Rightarrow>
            job_returned py detail_of as_exc ts fresh mid query request session ownership dispatched w')"

section \<open>Cancelled missions are frozen\<close>

lemma mission_put_other:
  "lr_mission_id r \<noteq> mid \<Longrightarrow> mission_get_raw (mission_put py r raw st) mid = mission_get_raw st mid
     \<and> mission_get (mission_put py r raw st) mid = mission_get st mid
     \<and> dict_get (mst_events (mission_put py r raw st)) mid = dict_get (mst_events st) mid"
  by (auto simp: mission_put_def mission_get_raw_def mission_get_def Let_def split: option.splits)

lemma cancelled_put_refused:
  "raw_status st (lr_mission_id r) = JStr ''cancelled'' \<Longrightarrow> mission_put py r raw st = st"
  by (simp add: mission_put_def put_refused_def current_status_def py_str_def Let_def)

text \<open>A cancelled mission is final: whatever is written to the store afterwards, by the job that
  finishes late or by another cancellation, its result, its record and its events stay as the
  cancellation left them.\<close>

theorem cancelled_mission_is_frozen:
  assumes "raw_status st mid = JStr ''cancelled''"
  shows "let st' = foldl (\<lambda>st (r, raw). mission_put py r raw st) st writes in
     mission_get_raw st' mid = mission_get_raw st mid \<and> mission_get st' mid = mission_get st mid
     \<and> dict_get (mst_events st') mid = dict_get (mst_events st) mid"
  using assms
proof (induction writes arbitrary: st)
  case (Cons w writes)
  obtain r raw where w: "w = (r, raw)" by (meson surj_pair)
  show ?case
  proof (cases "lr_mission_id r = mid")
    case True
    with Cons.prems Cons.IH [of st] show ?thesis by (simp add: w cancelled_put_refused)
  next
    case False
    from mission_put_other [OF False, of py raw st]
    have keep: "mission_get_raw (mission_put py r raw st) mid = mission_get_raw st mid"
      "mission_get (mission_put py r raw st) mid = mission_get st mid"
      "dict_get (mst_events (mission_put py r raw st)) mid = dict_get (mst_events st) mid" by simp_all
    with Cons.prems have "raw_status (mission_put py r raw st) mid = JStr ''cancelled''"
      by (simp add: raw_status_def mission_get_raw_def)
    from Cons.IH [OF this] show ?thesis by (simp add: w keep Let_def)
  qed
qed simp

section \<open>A job settles its mission\<close>

lemma clear_cancel_simps [simp]:
  "mw_store (clear_cancel mid w) = mw_store w" "mid \<notin> mw_flags (clear_cancel mid w)"
  by (simp_all add: clear_cancel_def cancel_clear_def)

lemma put_accepted:
  "\<not> put_refused py r (mw_store w) \<Longrightarrow>
     raw_status (mw_store (store_put py r raw w)) (lr_mission_id r) = obj_get raw ''status''"
  by (simp add: store_put_def mission_put_def raw_status_def Let_def)

lemma cancelled_raw_status: "obj_get (cancelled_raw ts mid raw) ''status'' = JStr ''cancelled''"
  by (simp add: cancelled_raw_def obj_get_def dict_merge_def Let_def)

lemma cancel_leaves_running:
  "raw_status (mw_store (snd (cancel_running_mission py ts fresh mid request w))) mid \<noteq> JStr ''running''"
proof -
  let ?st = "mw_store w"
  consider (absent) "mission_get_raw ?st mid = None" "mission_get ?st mid = None"
    | (not_running) "\<not> (mission_get_raw ?st mid = None \<and> mission_get ?st mid = None)"
        "\<not> truthy (current_status ?st mid) \<or> py_str py (current_status ?st mid) \<noteq> ''running''"
    | (running) "\<not> (mission_get_raw ?st mid = None \<and> mission_get ?st mid = None)"
        "truthy (current_status ?st mid)" "py_str py (current_status ?st mid) = ''running''"
    by metis
  then show ?thesis
  proof cases
    case absent
    then show ?thesis by (simp add: cancel_running_mission_def raw_status_def mission_get_raw_def)
  next
    case not_running
    then show ?thesis
      by (auto simp: cancel_running_mission_def current_status_def py_str_def Let_def split: if_splits)
  next
    case running
    define r where "r = \<lparr>lr_mission_id = mid, lr_status = ''cancelled'', lr_mission_lead = None,
      lr_limitations = [''Mission cancelled by client before completion.''], lr_final_response = None,
      lr_request_id = (if str_truthy request then the request
        else case mission_get ?st mid of None \<Rightarrow> fresh | Some r \<Rightarrow> lr_request_id r),
      lr_session_id = (case mission_get ?st mid of
          None \<Rightarrow> (if str_truthy request then the request
             else case mission_get ?st mid of None \<Rightarrow> fresh | Some r \<Rightarrow> lr_request_id r)
        | Some r \<Rightarrow> lr_session_id r)\<rparr>"
    have "\<not> put_refused py r (mw_store (request_cancel mid w))"
      using running by (simp add: r_def put_refused_def request_cancel_def Let_def)
    from put_accepted [OF this, of "cancelled_raw ts mid
        (case mission_get_raw ?st mid of None \<Rightarrow> [] | Some r \<Rightarrow> r)"]
    have "raw_status (mw_store (store_put py r (cancelled_raw ts mid
        (case mission_get_raw ?st mid of None \<Rightarrow> [] | Some r \<Rightarrow> r)) (request_cancel mid w))) mid
      = JStr ''cancelled''" by (simp add: cancelled_raw_status r_def)
    with running show ?thesis
      unfolding cancel_running_mission_def Let_def r_def [symmetric] by auto
  qed
qed

lemma failed_raw_status:
  "obj_get (failed_raw ts mid query (ownership_of s) exc detail) ''status'' = JStr ''failed''"
  by (cases s) (auto simp: failed_raw_def ownership_of_def obj_get_def dict_merge_def Let_def
      map_filter_simps split: if_splits option.splits)

text \<open>A cancellation leaves a mission cancelled or, when it is refused, as it was.\<close>

lemma cancel_outcome:
  assumes "cancel_running_mission py ts fresh mid request w = (res, w')"
  shows "raw_status (mw_store w') mid \<noteq> JStr ''running''
    \<and> (case res of Inl e \<Rightarrow> w' = w | Inr payload \<Rightarrow> raw_status (mw_store w') mid = JStr ''cancelled'')"
proof -
  let ?st = "mw_store w"
  show ?thesis
  proof (cases "(mission_get_raw ?st mid = None \<and> mission_get ?st mid = None)
      \<or> \<not> truthy (current_status ?st mid) \<or> py_str py (current_status ?st mid) \<noteq> ''running''")
    case True
    then have "w' = w \<and> (\<exists>e. res = Inl e)" using assms
      by (auto simp: cancel_running_mission_def Let_def split: if_splits)
    then show ?thesis using cancel_leaves_running [of py ts fresh mid request w] assms by auto
  next
    case False
    define r where "r = \<lparr>lr_mission_id = mid, lr_status = ''cancelled'', lr_mission_lead = None,
      lr_limitations = [''Mission cancelled by client before completion.''], lr_final_response = None,
      lr_request_id = (if str_truthy request then the request
        else case mission_get ?st mid of None \<Rightarrow> fresh | Some r \<Rightarrow> lr_request_id r),
      lr_session_id = (case mission_get ?st mid of
          None \<Rightarrow> (if str_truthy request then the request
             else case mission_get ?st mid of None \<Rightarrow> fresh | Some r \<Rightarrow> lr_request_id r)
        | Some r \<Rightarrow> lr_session_id r)\<rparr>"
    let ?payload = "cancelled_raw ts mid (case mission_get_raw ?st mid of None \<Rightarrow> [] | Some r \<Rightarrow> r)"
    let ?w = "store_put py r ?payload (request_cancel mid w)"
    have "\<not> put_refused py r (mw_store (request_cancel mid w))"
      using False by (simp add: r_def put_refused_def request_cancel_def Let_def)
    from put_accepted [OF this, of ?payload] have raw: "raw_status (mw_store ?w) mid = JStr ''cancelled''"
      by (simp add: cancelled_raw_status r_def)
    then have "current_status (mw_store ?w) mid = JStr ''cancelled''"
      by (simp add: current_status_def Let_def)
    then have "res = Inr ?payload \<and> w' = ?w" using assms False
      unfolding cancel_running_mission_def Let_def r_def [symmetric] by auto
    then show ?thesis using raw by simp
  qed
qed

definition cancelled_or_kept :: "string \<Rightarrow> mission_world \<Rightarrow> mission_world \<Rightarrow> bool" where
  "cancelled_or_kept mid w w' = (raw_status (mw_store w') mid = JStr ''cancelled''
     \<or> raw_status (mw_store w') mid = raw_status (mw_store w) mid \<and> raw_status (mw_store w) mid \<noteq> JStr ''running'')"

lemma job_failed_settles:
  "mid \<notin> mw_flags (job_failed py detail_of ts fresh mid query request session (ownership_of s) exc w)"
  "is_cancel_requested mid w \<Longrightarrow>
     cancelled_or_kept mid w (job_failed py detail_of ts fresh mid query request session (ownership_of s) exc w)"
  "\<not> is_cancel_requested mid w \<Longrightarrow>
     raw_status (mw_store (job_failed py detail_of ts fresh mid query request session (ownership_of s) exc w)) mid
       = JStr ''failed''"
proof -
  show "mid \<notin> mw_flags (job_failed py detail_of ts fresh mid query request session (ownership_of s) exc w)"
    by (simp add: job_failed_def Let_def)
  show "cancelled_or_kept mid w (job_failed py detail_of ts fresh mid query request session (ownership_of s) exc w)"
    if "is_cancel_requested mid w"
  proof -
    obtain res w' where "cancel_running_mission py ts fresh mid (Some request) w = (res, w')" by (meson surj_pair)
    with that cancel_outcome [OF this] show ?thesis
      by (cases res) (auto simp: job_failed_def cancelled_or_kept_def)
  qed
  assume False: "\<not> is_cancel_requested mid w"
  define r where "r = \<lparr>lr_mission_id = mid, lr_status = ''failed'', lr_mission_lead = None,
      lr_limitations = [detail_of exc], lr_final_response = None, lr_request_id = request,
      lr_session_id = (if str_truthy session then the session else request)\<rparr>"
  have "\<not> put_refused py r (mw_store w)"
    using False by (auto simp: r_def put_refused_def is_cancel_requested_def raw_status_def
        mission_get_raw_def Let_def split: option.splits)
  from put_accepted [OF this] False
  show "raw_status (mw_store (job_failed py detail_of ts fresh mid query request session (ownership_of s) exc w)) mid
       = JStr ''failed''"
    unfolding job_failed_def Let_def r_def [symmetric] by (simp add: failed_raw_status) (simp add: r_def failed_raw_status)
qed

lemma kept_status:
  "obj_get (dict_merge (dict_merge raw (ownership_of s)) [(''async'', a), (''route'', b)]) ''status''
     = obj_get raw ''status''"
  by (cases s) (auto simp: ownership_of_def obj_get_def dict_merge_def map_filter_simps split: if_splits)

lemma job_returned_settles:
  "mid \<notin> mw_flags (job_returned py detail_of as_exc ts fresh mid query request session (ownership_of s) d w)"
  "is_cancel_requested mid w \<Longrightarrow> cancelled_or_kept mid w
     (job_returned py detail_of as_exc ts fresh mid query request session (ownership_of s) d w)"
  "\<not> is_cancel_requested mid w \<Longrightarrow> raw_status (mw_store
      (job_returned py detail_of as_exc ts fresh mid query request session (ownership_of s) d w)) mid
     = raw_status (mw_store w) mid"
proof -
  let ?w = "job_returned py detail_of as_exc ts fresh mid query request session (ownership_of s) d w"
  show "mid \<notin> mw_flags ?w" using job_failed_settles(1)
    by (simp add: job_returned_def split: prod.split sum.split)
  show "cancelled_or_kept mid w ?w" if c: "is_cancel_requested mid w"
  proof -
    obtain res w' where "cancel_running_mission py ts fresh mid (Some request) w = (res, w')" by (meson surj_pair)
    with c cancel_outcome [OF this] job_failed_settles(2) [OF c] show ?thesis
      by (cases res) (auto simp: job_returned_def cancelled_or_kept_def)
  qed
  assume False: "\<not> is_cancel_requested mid w"
  show "raw_status (mw_store ?w) mid = raw_status (mw_store w) mid"
  proof (cases "\<exists>raw got. mission_get_raw (mw_store w) mid = Some raw \<and> mission_get (mw_store w) mid = Some got
      \<and> obj_get raw ''status'' \<noteq> JStr ''cancelled'' \<and> lr_status got \<noteq> ''cancelled''")
    case True
    then obtain raw got where g: "mission_get_raw (mw_store w) mid = Some raw"
      "mission_get (mw_store w) mid = Some got" "obj_get raw ''status'' \<noteq> JStr ''cancelled''"
      "lr_status got \<noteq> ''cancelled''" by blast
    let ?new = "store_put py got (dict_merge (dict_merge raw (ownership_of s)) [(''async'', JBool True),
        (''route'', truthy_or (obj_get d ''route'') (obj_get raw ''route''))]) w"
    have "raw_status (mw_store ?new) mid = raw_status (mw_store w) mid"
      using g by (auto simp: store_put_def mission_put_def raw_status_def mission_get_raw_def
          kept_status Let_def)
    with False g show ?thesis by (simp add: job_returned_def Let_def)
  next
    case none: False
    then show ?thesis using False
      by (auto simp: job_returned_def Let_def split: option.splits)
  qed
qed

text \<open>C19. What a background job leaves of its mission, whatever the agent's run does to the store and
  whether it returns or raises. A job that is cancelled before it starts does nothing. Otherwise no
  cancellation flag is left behind, and: if a cancellation is known when the run ends, the mission is
  not running, and it is cancelled unless it had ended by itself; if not, a run that raised leaves it
  failed, and a run that returned leaves it in the status the run gave it.\<close>

theorem job_settles_its_mission:
  "let w'' = run_mission_job py detail_of as_exc ts fresh run mid query request session w;
       (out, w') = run w; status = (\<lambda>w. raw_status (mw_store w) mid)
   in if is_cancel_requested mid w then w'' = w
      else mid \<notin> mw_flags w''
        \<and> (if is_cancel_requested mid w'
           then status w'' = JStr ''cancelled'' \<or> status w'' = status w' \<and> status w' \<noteq> JStr ''running''
           else case out of Inl exc \<Rightarrow> status w'' = JStr ''failed'' | Inr d \<Rightarrow> status w'' = status w')"
proof -
  let ?own = "ownership_of (mission_get_raw (mw_store w) mid)"
  obtain out w' where run: "run w = (out, w')" by (meson surj_pair)
  show ?thesis
  proof (cases "is_cancel_requested mid w")
    case False
    then show ?thesis
      using job_failed_settles [where mid = mid and w = w'] job_returned_settles [where mid = mid and w = w']
      by (cases out) (auto simp: run run_mission_job_def cancelled_or_kept_def Let_def)
  qed (simp add: run run_mission_job_def Let_def)
qed

section \<open>Polling a mission's events\<close>

text \<open>The events with the cursor each of them is served under.\<close>

fun number_events :: "int \<Rightarrow> json_obj list \<Rightarrow> (int \<times> json_obj) list" where
  "number_events cursor [] = []"
| "number_events cursor (source # sources) =
     (let cursor' = max (cursor + 1) (source_seq source) in
      (cursor', dict_set source ''seq'' (JInt cursor')) # number_events cursor' sources)"

definition served ::
  "(json \<Rightarrow> string) \<Rightarrow> string option \<Rightarrow> int \<Rightarrow> (int \<times> json_obj) list \<Rightarrow> (int \<times> json_obj) list" where
  "served py family after_seq numbered = filter (\<lambda>(k, e). after_seq < k \<and> in_family py family e) numbered"

lemma filter_events_from_eq:
  "int (length out) < max 1 limit \<Longrightarrow>
     filter_events_from py family after_seq limit cursor out sources =
       take (nat (max 1 limit)) (out @ map snd (served py family after_seq (number_events cursor sources)))"
proof (induction py family after_seq limit cursor out sources rule: filter_events_from.induct)
  case (1 py family after_seq limit cursor out)
  then show ?case by (simp add: served_def)
next
  case (2 py family after_seq limit cursor out source sources)
  define c where "c = max (cursor + 1) (source_seq source)"
  define e where "e = dict_set source ''seq'' (JInt c)"
  note IH = "2.IH" [OF c_def, unfolded c_def [symmetric], OF e_def]
  show ?case
  proof (cases "c \<le> after_seq \<or> \<not> in_family py family e")
    case True
    then show ?thesis using IH(1) "2.prems" by (auto simp: served_def Let_def c_def [symmetric] e_def [symmetric])
  next
    case False
    show ?thesis
    proof (cases "max 1 limit \<le> int (length (out @ [e]))")
      case True
      then have "nat (max 1 limit) = Suc (length out)" using "2.prems" by simp
      then show ?thesis using False True by (auto simp: served_def Let_def c_def [symmetric] e_def [symmetric])
    next
      case more: False
      then show ?thesis using False IH(2) by (auto simp: served_def Let_def c_def [symmetric] e_def [symmetric])
    qed
  qed
qed

lemma filter_events_eq:
  "filter_events py family after_seq limit events =
     take (nat (max 1 limit)) (map snd (served py family after_seq (number_events 0 events)))"
  by (simp add: filter_events_def filter_events_from_eq)

lemma number_events_above: "x \<in> set (number_events c es) \<Longrightarrow> c < fst x"
  by (induction es arbitrary: c) (fastforce simp: Let_def)+

lemma number_events_sorted: "sorted_wrt (\<lambda>x y. fst x < fst y) (number_events c es)"
  by (induction es arbitrary: c) (auto simp: Let_def dest: number_events_above)

lemma number_events_append:
  "\<exists>c'. number_events c (es @ new) = number_events c es @ number_events c' new"
  by (induction es arbitrary: c) (auto simp: Let_def)

lemma number_events_seq: "x \<in> set (number_events c es) \<Longrightarrow> obj_get (snd x) ''seq'' = JInt (fst x)"
  by (induction es arbitrary: c) (auto simp: Let_def obj_get_def)

lemma length_served: "length (served py family c (number_events d es)) \<le> length es"
proof -
  have "length (number_events d es) = length es" by (induction es arbitrary: d) (simp_all add: Let_def)
  then show ?thesis using length_filter_le [of _ "number_events d es"] by (simp add: served_def)
qed

text \<open>In a strictly increasing list, what follows a served prefix is what lies above its last key.\<close>

lemma served_resume:
  assumes "sorted_wrt (\<lambda>x y. fst x < fst y) xs" "served py family c xs = pre @ rest" "pre \<noteq> []"
  shows "served py family (fst (last pre)) xs = rest"
proof -
  let ?k = "fst (last pre)"
  have srt: "sorted_wrt (\<lambda>x y. fst x < fst y) (pre @ rest)"
    using assms(1) sorted_wrt_filter unfolding assms(2) [symmetric] served_def by blast
  have last: "last pre \<in> set (served py family c xs)" using assms(2,3) by simp
  have "served py family ?k xs = filter (\<lambda>x. ?k < fst x) (served py family c xs)"
    using last by (auto simp: served_def intro!: filter_cong)
  also have "\<dots> = filter (\<lambda>x. ?k < fst x) pre @ filter (\<lambda>x. ?k < fst x) rest"
    by (simp add: assms(2))
  also have "filter (\<lambda>x. ?k < fst x) rest = rest"
    using srt assms(3) by (auto simp: filter_id_conv sorted_wrt_append)
  also have "filter (\<lambda>x. ?k < fst x) pre = []"
  proof -
    have "sorted_wrt (\<lambda>x y. fst x < fst y) (butlast pre @ [last pre])"
      using srt assms(3) by (simp add: sorted_wrt_append)
    then have "\<forall>x \<in> set (butlast pre @ [last pre]). \<not> ?k < fst x" by (auto simp: sorted_wrt_append)
    then show ?thesis using assms(3) by (simp add: filter_empty_conv)
  qed
  finally show ?thesis by simp
qed

text \<open>Polling a mission's events from the cursor of the last event received loses and repeats
  none: when the log has grown by the next poll, the page already received followed by a read from
  its last sequence number is the read that starts at the old cursor, and sequence numbers
  strictly increase.\<close>

theorem mission_event_polling_is_exact:
  assumes "filter_events py family c limit events = page" and "page \<noteq> []"
    and "obj_get (last page) ''seq'' = JInt c'"
    and "int (length (events @ new)) \<le> n"
  shows "filter_events py family c n (events @ new) = page @ filter_events py family c' n (events @ new)
    \<and> sorted_wrt (\<lambda>a b. \<exists>i j. obj_get a ''seq'' = JInt i \<and> obj_get b ''seq'' = JInt j \<and> i < j)
        (filter_events py family c n (events @ new))"
proof -
  obtain d where num: "number_events 0 (events @ new) = number_events 0 events @ number_events d new"
    using number_events_append by blast
  let ?all = "number_events 0 (events @ new)" and ?old = "number_events 0 events"
  let ?pre = "take (nat (max 1 limit)) (served py family c ?old)"
  have whole: "filter_events py family k n (events @ new) = map snd (served py family k ?all)" for k
    using length_served [of py family k 0 "events @ new"] assms(4) by (simp add: filter_events_eq)
  have page: "page = map snd ?pre" using assms(1) by (simp add: filter_events_eq take_map)
  obtain rest where split: "served py family c ?all = ?pre @ rest"
    unfolding num by (metis append.assoc append_take_drop_id filter_append served_def)
  have "?pre \<noteq> []" using assms(2) page by simp
  moreover have "fst (last ?pre) = c'"
  proof -
    have "last ?pre \<in> set ?old" using \<open>?pre \<noteq> []\<close> last_in_set [of ?pre] set_take_subset
      unfolding served_def by fastforce
    from number_events_seq [OF this] assms(3) \<open>?pre \<noteq> []\<close> show ?thesis by (simp add: page last_map)
  qed
  ultimately have "served py family c' ?all = rest"
    using served_resume [OF number_events_sorted split] by simp
  then have "filter_events py family c n (events @ new) = page @ filter_events py family c' n (events @ new)"
    by (simp add: whole split page)
  moreover have "sorted_wrt (\<lambda>x y. fst x < fst y) (served py family c ?all)"
    unfolding served_def by (intro sorted_wrt_filter number_events_sorted)
  then have "sorted_wrt (\<lambda>a b. \<exists>i j. obj_get a ''seq'' = JInt i \<and> obj_get b ''seq'' = JInt j \<and> i < j)
      (map snd (served py family c ?all))"
    unfolding sorted_wrt_map
    by (rule sorted_wrt_mono_rel [rotated]) (auto simp: served_def dest!: number_events_seq)
  ultimately show ?thesis by (simp add: whole)
qed

section \<open>Concrete missions\<close>

definition sample_world :: mission_world where
  "sample_world = snd (seed_running_mission (\<lambda>_. []) ''t0'' ''m1'' ''why'' ''req'' ''s'' (Some ''w'') (Some ''u'')
     None None \<lparr>mw_store = empty_mission_store, mw_flags = {}\<rparr>)"

definition sample_result :: "string \<Rightarrow> lookup_result" where
  "sample_result status = \<lparr>lr_mission_id = ''m1'', lr_status = status, lr_mission_lead = None,
     lr_limitations = [], lr_final_response = Some ''answer'', lr_request_id = ''req'', lr_session_id = ''s''\<rparr>"

text \<open>An agent that completes its mission.\<close>

definition sample_agent :: "mission_world \<Rightarrow> (job_exception + json_obj) \<times> mission_world" where
  "sample_agent w = (Inr [(''route'', JStr ''v3'')], store_put (\<lambda>_. []) (sample_result ''completed'')
     [(''status'', JStr ''completed'')] w)"

lemma sample_world_running: "\<not> is_cancel_requested ''m1'' sample_world"
  by (simp add: sample_world_def seed_running_mission_def store_put_def mission_put_def put_refused_def
      current_status_def raw_status_def result_cancelled_def empty_mission_store_def is_cancel_requested_def
      is_requested_def mission_get_raw_def obj_get_def Let_def)

lemma sample_agent_persists:
  "raw_status (mw_store (snd (sample_agent w))) ''m1'' \<noteq> JStr ''running''"
  if "\<not> is_cancel_requested ''m1'' w"
proof -
  have "\<not> put_refused (\<lambda>_. []) (sample_result ''completed'') (mw_store w)"
    using that by (auto simp: put_refused_def sample_result_def is_cancel_requested_def raw_status_def
        mission_get_raw_def Let_def split: option.splits)
  from put_accepted [OF this] show ?thesis by (simp add: sample_agent_def sample_result_def obj_get_def)
qed

theorem job_settles_its_mission_witness:
  "raw_status (mw_store (run_mission_job (\<lambda>_. []) (\<lambda>_. []) (\<lambda>_. JobError []) ''t1'' ''f'' sample_agent
     ''m1'' ''why'' ''req'' None sample_world)) ''m1'' \<noteq> JStr ''running''"
proof -
  obtain d w' where run: "sample_agent sample_world = (Inr d, w')" by (simp add: sample_agent_def)
  have "raw_status (mw_store w') ''m1'' \<noteq> JStr ''running''"
    using sample_agent_persists [OF sample_world_running] run by simp
  then show ?thesis
    using job_settles_its_mission [of "\<lambda>_. []" "\<lambda>_. []" "\<lambda>_. JobError []" "''t1''" "''f''" sample_agent "''m1''"
        "''why''" "''req''" None sample_world]
    by (auto simp: Let_def run sample_world_running split: if_splits)
qed

theorem cancelled_mission_is_frozen_witness:
  "mission_get_raw (mission_put (\<lambda>_. []) (sample_result ''completed'') (Some [(''status'', JStr ''completed'')])
     \<lparr>mst_results = [(''m1'', sample_result ''cancelled'')], mst_raw = [(''m1'', [(''status'', JStr ''cancelled'')])],
      mst_events = []\<rparr>) ''m1'' = Some [(''status'', JStr ''cancelled'')]"
  using cancelled_mission_is_frozen [of "\<lparr>mst_results = [(''m1'', sample_result ''cancelled'')],
      mst_raw = [(''m1'', [(''status'', JStr ''cancelled'')])], mst_events = []\<rparr>" "''m1''" "\<lambda>_. []"
      "[(sample_result ''completed'', Some [(''status'', JStr ''completed'')])]"]
  by (simp add: raw_status_def obj_get_def mission_get_raw_def Let_def)

theorem mission_event_polling_is_exact_witness:
  "filter_events (\<lambda>_. []) None 0 3 ([[(''kind'', JStr ''a'')], [(''seq'', JInt 7)]] @ [[(''seq'', JInt 3)]]) =
     [[(''kind'', JStr ''a''), (''seq'', JInt 1)]]
     @ filter_events (\<lambda>_. []) None 1 3 ([[(''kind'', JStr ''a'')], [(''seq'', JInt 7)]] @ [[(''seq'', JInt 3)]])"
proof -
  have "filter_events (\<lambda>_. []) None 0 1 [[(''kind'', JStr ''a'')], [(''seq'', JInt 7)]] =
      [[(''kind'', JStr ''a''), (''seq'', JInt 1)]]"
    by (simp add: filter_events_eq served_def source_seq_def obj_get_def in_family_def Let_def)
  from mission_event_polling_is_exact [OF this, of 1 "[[(''seq'', JInt 3)]]" 3] show ?thesis
    by (simp add: obj_get_def)
qed

end
