(* ===== verification/Blobs.thy ===== *)
theory Blobs
  imports Memory_Service
begin

text \<open>
  Blob storage for attachments, \<^verbatim>\<open>conversations/blobs.py\<close>: key and metadata validation and the
  local store's streaming upload.

  A path is its list of components below the file system's root; \<^verbatim>\<open>resolve()\<close> is the lexical
  resolution of \<^verbatim>\<open>..\<close> (symbolic links are not modelled). The file system is a dictionary from
  paths to contents. The SHA-256 digest, the scanner and the type \<^verbatim>\<open>mimetypes\<close> guesses for a file
  name are parameters.
\<close>

section \<open>Keys and metadata\<close>

fun split_slash :: "string \<Rightarrow> string list" where
  "split_slash [] = [[]]"
| "split_slash (c # s) = (if c = CHR ''/'' then [] # split_slash s
     else case split_slash s of [] \<Rightarrow> [[c]] | p # ps \<Rightarrow> (c # p) # ps)"

definition strip_slash :: "string \<Rightarrow> string" where
  "strip_slash s = rev (dropWhile (\<lambda>c. c = CHR ''/'') (rev (dropWhile (\<lambda>c. c = CHR ''/'') s)))"

definition forward_slashes :: "string \<Rightarrow> string" where
  "forward_slashes key = map (\<lambda>c. if c = CHR 0x5C then CHR ''/'' else c) key"

text \<open>\<^verbatim>\<open>PurePosixPath(s).parts\<close> of a relative path: empty and \<^verbatim>\<open>.\<close> components are dropped.\<close>

definition path_parts :: "string \<Rightarrow> string list" where
  "path_parts s = filter (\<lambda>p. p \<noteq> [] \<and> p \<noteq> ''.'') (split_slash s)"

definition path_str :: "string list \<Rightarrow> string" where
  "path_str parts = (if parts = [] then ''.'' else join ''/'' parts)"

definition invalid_key :: error where "invalid_key = ValueError ''invalid blob key''"

definition safe_blob_key :: "string \<Rightarrow> string result" where
  "safe_blob_key key =
     (let normalized = strip_slash (forward_slashes key); parts = path_parts normalized in
      if normalized = [] \<or> str_startswith normalized ''/'' \<or> ''..'' \<in> set parts
         \<or> list_ex (\<lambda>p. p = [] \<or> p = ''.'') parts
      then Inl invalid_key else Inr (path_str parts))"

definition default_allowed_mime_types :: "string list" where
  "default_allowed_mime_types = [''application/json'', ''application/pdf'', ''text/csv'', ''text/plain'',
     ''image/jpeg'', ''image/png'', ''image/webp'']"

text \<open>\<^verbatim>\<open>s.split(";", 1)[0]\<close>\<close>

definition before_semicolon :: "string \<Rightarrow> string" where
  "before_semicolon s = takeWhile (\<lambda>c. c \<noteq> CHR '';'') s"

definition normalize_content_type :: "string \<Rightarrow> string result" where
  "normalize_content_type content_type =
     (let clean_type = str_lower (str_strip (before_semicolon content_type)) in
      if clean_type = [] \<or> CHR ''/'' \<notin> set clean_type then Inl (ValueError ''invalid MIME type'')
      else Inr clean_type)"

record blob_config =
  max_size_bytes :: int
  allowed_mime_types :: "string list"

definition oversized :: error where
  "oversized = ValueError ''attachment exceeds configured maximum size''"

definition validate_blob_metadata ::
  "(string \<Rightarrow> string option) \<Rightarrow> blob_config \<Rightarrow> string \<Rightarrow> string \<Rightarrow> int option \<Rightarrow> string result" where
  "validate_blob_metadata guess_type cfg filename content_type size_bytes =
     result_bind (normalize_content_type content_type) (\<lambda>clean_type.
       if clean_type \<notin> set (allowed_mime_types cfg)
       then Inl (ValueError (''MIME type is not allowed: '' @ clean_type))
       else if (case size_bytes of None \<Rightarrow> False | Some n \<Rightarrow> n < 0 \<or> max_size_bytes cfg < n) then Inl oversized
       else if str_truthy (guess_type filename)
          \<and> (str_startswith clean_type ''image/'' \<or> str_startswith clean_type ''text/'')
          \<and> guess_type filename \<noteq> Some clean_type
       then Inl (ValueError ''filename extension does not match MIME type'')
       else Inr clean_type)"

definition verify_blob_size :: "int \<Rightarrow> int option \<Rightarrow> int \<Rightarrow> unit result" where
  "verify_blob_size actual expected limit =
     (if actual < 0 then Inl (ValueError ''blob size is invalid'')
      else if limit < actual then Inl oversized
      else if expected \<noteq> None \<and> expected \<noteq> Some actual
      then Inl (ValueError ''attachment size does not match declaration'') else Inr ())"

section \<open>LocalBlobStore\<close>

type_synonym path = "string list"
type_synonym files = "(path, string) dict"

datatype scan_status = ScanPending | ScanClean | ScanQuarantined | ScanFailed | ScanUnavailable

record scan_result =
  sc_status :: scan_status
  sc_detail :: string

record blob_write_result =
  bw_path :: path
  bw_size_bytes :: int
  bw_checksum_sha256 :: string
  bw_scan :: scan_result

record blob_env =
  be_config :: blob_config
  be_root :: path
  be_guess_type :: "string \<Rightarrow> string option"
  be_sha256 :: "string \<Rightarrow> string"
  be_scan :: "string \<Rightarrow> scan_result"

text \<open>The scanner used when none is configured.\<close>

definition unavailable_scan :: "string \<Rightarrow> scan_result" where
  "unavailable_scan content = \<lparr>sc_status = ScanUnavailable, sc_detail = ''scanner not configured''\<rparr>"

text \<open>The answer of clamd; \<open>None\<close> when the connection failed. Neither scanner raises.\<close>

definition clamav_scan :: "string option \<Rightarrow> string \<Rightarrow> scan_result" where
  "clamav_scan response failure = (case response of
       None \<Rightarrow> \<lparr>sc_status = ScanUnavailable, sc_detail = failure\<rparr>
     | Some r \<Rightarrow>
         if str_endswith r '' OK'' then \<lparr>sc_status = ScanClean, sc_detail = []\<rparr>
         else if str_endswith r '' FOUND'' then \<lparr>sc_status = ScanQuarantined, sc_detail = r\<rparr>
         else \<lparr>sc_status = ScanFailed, sc_detail = r\<rparr>)"

definition resolve :: "path \<Rightarrow> path" where
  "resolve p = foldl (\<lambda>acc c. if c = ''..'' then butlast acc else acc @ [c]) [] p"

definition blob_path :: "path \<Rightarrow> string \<Rightarrow> path result" where
  "blob_path base key =
     result_bind (safe_blob_key key) (\<lambda>k.
       let candidate = resolve (base @ path_parts k) in
       if candidate \<noteq> base \<and> \<not> (take (length base) candidate = base \<and> length base < length candidate)
       then Inl (ValueError ''blob path escapes storage root'') else Inr candidate)"

text \<open>\<^verbatim>\<open>path.with_suffix(path.suffix + ext)\<close> appends to the name.\<close>

definition with_ext :: "path \<Rightarrow> string \<Rightarrow> path" where
  "with_ext p ext = butlast p @ [(if p = [] then [] else last p) @ ext]"

definition path_name :: "string \<Rightarrow> string" where
  "path_name key = (if path_parts key = [] then [] else last (path_parts key))"

text \<open>The bytes written, or the error once they exceed the limit.\<close>

fun stream_chunks :: "int \<Rightarrow> string \<Rightarrow> string list \<Rightarrow> string result" where
  "stream_chunks limit written [] = Inr written"
| "stream_chunks limit written (chunk # chunks) =
     (if chunk = [] then stream_chunks limit written chunks
      else if limit < int (length (written @ chunk)) then Inl oversized
      else stream_chunks limit (written @ chunk) chunks)"

definition local_put ::
  "blob_env \<Rightarrow> string \<Rightarrow> string list \<Rightarrow> string \<Rightarrow> int option \<Rightarrow> files \<Rightarrow> blob_write_result result \<times> files" where
  "local_put env key chunks content_type expected fs =
     (case result_bind (validate_blob_metadata (be_guess_type env) (be_config env) (path_name key)
                          content_type expected) (\<lambda>_. blob_path (be_root env) key) of
        Inl e \<Rightarrow> (Inl e, fs)
      | Inr destination \<Rightarrow>
          let temporary = with_ext destination ''.upload'' in
          (case result_bind (stream_chunks (max_size_bytes (be_config env)) [] chunks) (\<lambda>content.
                 result_bind (verify_blob_size (int (length content)) expected (max_size_bytes (be_config env)))
                   (\<lambda>_. Inr (content, be_scan env content))) of
             Inl e \<Rightarrow> (Inl e, dict_del fs temporary)
           | Inr (content, scan) \<Rightarrow>
               let target = (if sc_status scan = ScanClean then destination
                     else with_ext destination ''.quarantine'')
               in (Inr \<lparr>bw_path = target, bw_size_bytes = int (length content),
                      bw_checksum_sha256 = be_sha256 env content, bw_scan = scan\<rparr>,
                   dict_set (dict_del fs temporary) target content)))"

definition local_delete :: "blob_env \<Rightarrow> string \<Rightarrow> files \<Rightarrow> unit result \<times> files" where
  "local_delete env key fs = (case blob_path (be_root env) key of
       Inl e \<Rightarrow> (Inl e, fs) | Inr p \<Rightarrow> (Inr (), dict_del fs p))"

section \<open>The object store\<close>

text \<open>What the object store holds under a key (its client is a parameter of the deployment): the
  status it reports and the chunks it streams.\<close>

record minio_object =
  mo_size :: int
  mo_content_type :: "string option"
  mo_metadata :: "(string, string) dict"
  mo_chunks :: "string list"

section \<open>Keys stay inside the store\<close>

lemma resolve_append: "resolve (p @ [c]) = (if c = ''..'' then butlast (resolve p) else resolve p @ [c])"
  by (simp add: resolve_def)

lemma resolve_plain: "''..'' \<notin> set ps \<Longrightarrow> resolve (p @ ps) = resolve p @ ps"
proof (induction ps rule: rev_induct)
  case (snoc c ps)
  then have "resolve (p @ ps) = resolve p @ ps" by simp
  with snoc.prems show ?case using resolve_append [of "p @ ps" c] by auto
qed simp

lemma split_slash_nonempty [simp]: "split_slash s \<noteq> []"
  by (induction s) (auto split: list.splits)

lemma split_slash_no_slash: "p \<in> set (split_slash s) \<Longrightarrow> CHR ''/'' \<notin> set p"
proof (induction s arbitrary: p)
  case (Cons c s)
  then show ?case by (cases "split_slash s") (auto split: if_splits)
qed simp

lemma split_slash_chars: "p \<in> set (split_slash s) \<Longrightarrow> set p \<subseteq> set s"
proof (induction s arbitrary: p)
  case (Cons c s)
  then show ?case by (cases "split_slash s") (fastforce split: if_splits)+
qed simp

lemma split_slash_plain: "CHR ''/'' \<notin> set p \<Longrightarrow> split_slash p = [p]"
  by (induction p) auto

lemma split_slash_cons: "CHR ''/'' \<notin> set p \<Longrightarrow> split_slash (p @ CHR ''/'' # s) = p # split_slash s"
  by (induction p) auto

lemma split_slash_join:
  "ps \<noteq> [] \<Longrightarrow> \<forall>p \<in> set ps. CHR ''/'' \<notin> set p \<Longrightarrow> split_slash (join ''/'' ps) = ps"
proof (induction "''/'' :: string" ps rule: join.induct)
  case (3 x y ys)
  then show ?case using split_slash_cons [of x "join ''/'' (y # ys)"] by simp
qed (simp_all add: split_slash_plain)

text \<open>The components of an accepted key.\<close>

definition plain_parts :: "string list \<Rightarrow> bool" where
  "plain_parts ps = (\<forall>p \<in> set ps. p \<notin> {[], ''.'', ''..''} \<and> CHR ''/'' \<notin> set p \<and> CHR 0x5C \<notin> set p)"

lemma safe_blob_key_parts:
  assumes "safe_blob_key key = Inr k"
  shows "\<exists>ps. plain_parts ps \<and> k = path_str ps \<and> path_parts k = ps"
proof -
  let ?n = "strip_slash (forward_slashes key)" and ?ps = "path_parts (strip_slash (forward_slashes key))"
  have k: "k = path_str ?ps" "''..'' \<notin> set ?ps"
    using assms by (auto simp: safe_blob_key_def Let_def split: if_splits)
  have "set ?n \<subseteq> set (forward_slashes key)"
    by (auto simp: strip_slash_def dest!: set_dropWhileD)
  then have "CHR 0x5C \<notin> set ?n" by (auto simp: forward_slashes_def)
  then have plain: "plain_parts ?ps"
    using k(2) split_slash_no_slash split_slash_chars unfolding plain_parts_def path_parts_def by fastforce
  moreover have "path_parts (path_str ?ps) = ?ps"
  proof (cases "?ps = []")
    case False
    have "split_slash (join ''/'' ?ps) = ?ps"
      by (rule split_slash_join [OF False]) (use plain in \<open>simp add: plain_parts_def\<close>)
    moreover have "filter (\<lambda>p. p \<noteq> [] \<and> p \<noteq> ''.'') ?ps = ?ps"
      using plain by (simp add: plain_parts_def filter_id_conv)
    ultimately show ?thesis using False by (simp add: path_str_def path_parts_def)
  qed (simp add: path_str_def path_parts_def)
  ultimately show ?thesis using k(1) by blast
qed

text \<open>No key leads out of the store: the path of an accepted key is the storage root followed by
  components none of which is empty, \<^verbatim>\<open>.\<close>, \<^verbatim>\<open>..\<close> or contains a separator, and a key is refused only
  for its form, never by the containment check behind it.\<close>

theorem blob_path_stays_inside:
  assumes "resolve base = base"
  shows "(\<forall>p. blob_path base key = Inr p \<longrightarrow> (\<exists>ps. p = base @ ps \<and> plain_parts ps))
    \<and> (\<forall>e. blob_path base key = Inl e \<longrightarrow> e = invalid_key)"
proof (cases "safe_blob_key key")
  case (Inl e)
  then show ?thesis by (auto simp: blob_path_def safe_blob_key_def Let_def split: if_splits)
next
  case (Inr k)
  from safe_blob_key_parts [OF Inr] obtain ps where ps: "plain_parts ps" "path_parts k = ps" by blast
  then have "resolve (base @ path_parts k) = base @ ps"
    using resolve_plain [of ps base] assms by (auto simp: plain_parts_def)
  then show ?thesis using Inr ps by (auto simp: blob_path_def Let_def)
qed

theorem blob_path_stays_inside_witness:
  "blob_path [''data'', ''blobs''] ''a/../../etc/passwd'' = Inl invalid_key
   \<and> (\<exists>ps. [''data'', ''blobs'', ''a'', ''b''] = [''data'', ''blobs''] @ ps \<and> plain_parts ps)"
proof -
  have base: "resolve [''data'', ''blobs''] = [''data'', ''blobs'']" by (simp add: resolve_def)
  have "blob_path [''data'', ''blobs''] ''a//b/'' = Inr [''data'', ''blobs'', ''a'', ''b'']"
    by (simp add: blob_path_def safe_blob_key_def strip_slash_def forward_slashes_def path_parts_def
        path_str_def str_startswith_def resolve_def Let_def)
  moreover obtain e where "blob_path [''data'', ''blobs''] ''a/../../etc/passwd'' = Inl e"
    by (simp add: blob_path_def safe_blob_key_def strip_slash_def forward_slashes_def path_parts_def Let_def)
  ultimately show ?thesis using blob_path_stays_inside [OF base] by blast
qed

section \<open>Normalising a key\<close>

lemma join_ends:
  "ps \<noteq> [] \<Longrightarrow> \<forall>p \<in> set ps. p \<noteq> [] \<and> c \<notin> set p \<Longrightarrow>
     join ''/'' ps \<noteq> [] \<and> hd (join ''/'' ps) \<noteq> c \<and> last (join ''/'' ps) \<noteq> c"
proof (induction "''/'' :: string" ps rule: join.induct)
  case (3 x y ys)
  then show ?case by (auto dest!: hd_in_set [of x])
qed (auto dest: last_in_set hd_in_set)

lemma strip_slash_id:
  assumes "s \<noteq> []" "hd s \<noteq> CHR ''/''" "last s \<noteq> CHR ''/''"
  shows "strip_slash s = s"
proof -
  have "dropWhile (\<lambda>c. c = CHR ''/'') s = s" using assms by (cases s) auto
  moreover have "dropWhile (\<lambda>c. c = CHR ''/'') (rev s) = rev s"
    using assms by (cases "rev s") (auto simp: hd_rev [symmetric])
  ultimately show ?thesis by (simp add: strip_slash_def)
qed

lemma forward_slashes_id: "CHR 0x5C \<notin> set s \<Longrightarrow> forward_slashes s = s"
  by (induction s) (auto simp: forward_slashes_def)

lemma set_join: "set (join sep ps) \<subseteq> set sep \<union> (\<Union>p \<in> set ps. set p)"
  by (induction sep ps rule: join.induct) auto

text \<open>Normalisation of keys is a normal form: the key that is returned is accepted again, as
  itself, and names the same path.\<close>

theorem safe_blob_key_normal_form:
  assumes "safe_blob_key key = Inr k"
  shows "safe_blob_key k = Inr k \<and> blob_path base k = blob_path base key"
proof -
  obtain ps where ps: "plain_parts ps" "k = path_str ps" "path_parts k = ps"
    using safe_blob_key_parts [OF assms] by blast
  have "CHR 0x5C \<notin> set k"
    using ps(1) set_join [of "''/''" ps] by (auto simp: ps(2) path_str_def plain_parts_def)
  then have fwd: "forward_slashes k = k" by (rule forward_slashes_id)
  have "k \<noteq> [] \<and> hd k \<noteq> CHR ''/'' \<and> last k \<noteq> CHR ''/''"
    using ps(1) join_ends [of ps "CHR ''/''"] by (auto simp: ps(2) path_str_def plain_parts_def)
  then have strip: "strip_slash k = k" "k \<noteq> []" "\<not> str_startswith k ''/''"
    using strip_slash_id [of k] by (cases k; auto simp: str_startswith_def)+
  have "safe_blob_key k = Inr k"
    unfolding safe_blob_key_def Let_def fwd strip(1) ps(3) ps(2) [symmetric]
    using ps(1) strip(2,3) by (auto simp: plain_parts_def list_ex_iff)
  then show ?thesis using assms by (simp add: blob_path_def)
qed

theorem safe_blob_key_normal_form_witness:
  "safe_blob_key ''a/b'' = Inr ''a/b'' \<and> blob_path [''d''] ''a/b'' = blob_path [''d''] ''/a//b/''"
proof -
  have "safe_blob_key ''/a//b/'' = Inr ''a/b''"
    by (simp add: safe_blob_key_def strip_slash_def forward_slashes_def path_parts_def path_str_def
        str_startswith_def Let_def)
  then show ?thesis by (rule safe_blob_key_normal_form)
qed

section \<open>An upload is stored whole or not at all\<close>

lemma stream_chunks_Inr:
  "stream_chunks limit written chunks = Inr content \<Longrightarrow>
     content = written @ concat chunks \<and> (concat chunks \<noteq> [] \<longrightarrow> int (length content) \<le> limit)"
proof (induction limit written chunks rule: stream_chunks.induct)
  case (2 limit written chunk chunks)
  show ?case
  proof (cases "chunk = []")
    case False
    with 2 show ?thesis by (cases "concat chunks = []") (auto split: if_splits)
  qed (use 2 in auto)
qed simp

lemma with_ext_distinct:
  "with_ext p ''.upload'' \<noteq> p" "with_ext p ''.quarantine'' \<noteq> p" "with_ext p ''.upload'' \<noteq> with_ext p ''.quarantine''"
proof -
  have tail: "p \<noteq> butlast p @ [last p @ x]" if "x \<noteq> []" "p \<noteq> []" for x
    using that by (metis append_butlast_last_id append_self_conv last_snoc)
  show "with_ext p ''.upload'' \<noteq> p" "with_ext p ''.quarantine'' \<noteq> p"
    using tail [of "''.upload''"] tail [of "''.quarantine''"] by (auto simp: with_ext_def)
  show "with_ext p ''.upload'' \<noteq> with_ext p ''.quarantine''" by (simp add: with_ext_def)
qed

lemma local_put_spec:
  assumes "local_put env key chunks content_type expected fs = (res, fs')"
    and "blob_path (be_root env) key = Inr dest" and "0 \<le> max_size_bytes (be_config env)"
  shows "case res of
      Inl e \<Rightarrow> \<forall>q. dict_get fs' q = dict_get fs q \<or> (q = with_ext dest ''.upload'' \<and> dict_get fs' q = None)
    | Inr r \<Rightarrow> int (length (concat chunks)) \<le> max_size_bytes (be_config env)
        \<and> (expected \<noteq> None \<longrightarrow> expected = Some (int (length (concat chunks))))
        \<and> bw_size_bytes r = int (length (concat chunks)) \<and> bw_checksum_sha256 r = be_sha256 env (concat chunks)
        \<and> bw_scan r = be_scan env (concat chunks)
        \<and> dict_get fs' (with_ext dest ''.upload'') = None
        \<and> (if sc_status (bw_scan r) = ScanClean
            then dict_get fs' dest = Some (concat chunks) \<and> bw_path r = dest
            else dict_get fs' dest = dict_get fs dest
              \<and> dict_get fs' (with_ext dest ''.quarantine'') = Some (concat chunks))
        \<and> (\<forall>q. q \<notin> {dest, with_ext dest ''.upload'', with_ext dest ''.quarantine''} \<longrightarrow>
              dict_get fs' q = dict_get fs q)"
proof -
  let ?limit = "max_size_bytes (be_config env)"
  let ?work = "result_bind (stream_chunks ?limit [] chunks) (\<lambda>content.
      result_bind (verify_blob_size (int (length content)) expected ?limit)
        (\<lambda>_. Inr (content, be_scan env content)))"
  show ?thesis
  proof (cases "validate_blob_metadata (be_guess_type env) (be_config env) (path_name key) content_type expected")
    case (Inl e)
    then show ?thesis using assms(1) by (auto simp: local_put_def)
  next
    case valid: (Inr t)
    show ?thesis
    proof (cases ?work)
      case (Inl e)
      then show ?thesis using assms(1,2) valid by (auto simp: local_put_def Let_def)
    next
      case (Inr cs)
      obtain content scan where cs: "cs = (content, scan)" by (meson surj_pair)
      from Inr [unfolded cs] have "stream_chunks ?limit [] chunks = Inr content"
        and verify: "verify_blob_size (int (length content)) expected ?limit = Inr ()"
        and scan: "scan = be_scan env content"
        by (auto simp: result_bind_Inr)
      then have content: "content = concat chunks" using stream_chunks_Inr by fastforce
      have "int (length content) \<le> ?limit" "expected \<noteq> None \<longrightarrow> expected = Some (int (length content))"
        using verify by (auto simp: verify_blob_size_def split: if_splits)
      moreover have "res = Inr \<lparr>bw_path = (if sc_status scan = ScanClean then dest
            else with_ext dest ''.quarantine''), bw_size_bytes = int (length content),
          bw_checksum_sha256 = be_sha256 env content, bw_scan = scan\<rparr>"
        and "fs' = dict_set (dict_del fs (with_ext dest ''.upload'')) (if sc_status scan = ScanClean then dest
            else with_ext dest ''.quarantine'') content"
        using assms(1,2) valid Inr by (simp_all add: local_put_def cs Let_def)
      ultimately show ?thesis using scan with_ext_distinct [of dest] by (auto simp: content)
    qed
  qed
qed

text \<open>A local upload is all or nothing. When it fails, no blob changes and no temporary file is
  left. When it succeeds, the content is the concatenation of the chunks, within the size limit
  and of the declared size; the result carries its digest; and only content that scanned clean is
  stored under the key: anything else is put aside in quarantine and the key keeps what it had.\<close>

theorem local_put_is_all_or_nothing:
  assumes "local_put env key chunks content_type expected fs = (res, fs')"
    and "blob_path (be_root env) key = Inr dest" and "0 \<le> max_size_bytes (be_config env)"
  shows "case res of
      Inl e \<Rightarrow> \<forall>q. dict_get fs' q = dict_get fs q \<or> (q = with_ext dest ''.upload'' \<and> dict_get fs' q = None)
    | Inr r \<Rightarrow> int (length (concat chunks)) \<le> max_size_bytes (be_config env)
        \<and> (expected \<noteq> None \<longrightarrow> expected = Some (int (length (concat chunks))))
        \<and> bw_size_bytes r = int (length (concat chunks)) \<and> bw_checksum_sha256 r = be_sha256 env (concat chunks)
        \<and> bw_scan r = be_scan env (concat chunks)
        \<and> dict_get fs' (with_ext dest ''.upload'') = None
        \<and> (if sc_status (bw_scan r) = ScanClean
            then dict_get fs' dest = Some (concat chunks) \<and> bw_path r = dest
            else dict_get fs' dest = dict_get fs dest
              \<and> dict_get fs' (with_ext dest ''.quarantine'') = Some (concat chunks))
        \<and> (\<forall>q. q \<notin> {dest, with_ext dest ''.upload'', with_ext dest ''.quarantine''} \<longrightarrow>
              dict_get fs' q = dict_get fs q)"
  using assms by (rule local_put_spec)

definition sample_blobs :: "scan_status \<Rightarrow> blob_env" where
  "sample_blobs status = \<lparr>be_config = \<lparr>max_size_bytes = 10, allowed_mime_types = default_allowed_mime_types\<rparr>,
     be_root = [''d''], be_guess_type = (\<lambda>_. None), be_sha256 = (\<lambda>c. ''h'' @ c),
     be_scan = (\<lambda>_. \<lparr>sc_status = status, sc_detail = []\<rparr>)\<rparr>"

theorem local_put_is_all_or_nothing_witness:
  "dict_get (snd (local_put (sample_blobs ScanQuarantined) ''f1'' [''ab'', ''c''] ''text/csv; x'' (Some 3)
      [([''d'', ''f1''], ''old'')])) [''d'', ''f1''] = Some ''old''
   \<and> dict_get (snd (local_put (sample_blobs ScanClean) ''f1'' [''ab'', ''c''] ''text/csv; x'' (Some 3)
      [([''d'', ''f1''], ''old'')])) [''d'', ''f1''] = Some ''abc''"
proof -
  have path: "blob_path [''d''] ''f1'' = Inr [''d'', ''f1'']"
    by (simp add: blob_path_def safe_blob_key_def strip_slash_def forward_slashes_def path_parts_def
        path_str_def str_startswith_def resolve_def Let_def)
  have meta: "validate_blob_metadata (\<lambda>_. None) \<lparr>max_size_bytes = 10, allowed_mime_types = default_allowed_mime_types\<rparr>
      (path_name ''f1'') ''text/csv; x'' (Some 3) = Inr ''text/csv''"
    by (simp add: validate_blob_metadata_def normalize_content_type_def before_semicolon_def
        default_allowed_mime_types_def str_strip_def str_lower_def is_space_def lower_char_def Let_def)
  have ok: "\<exists>r. fst (local_put (sample_blobs status) ''f1'' [''ab'', ''c''] ''text/csv; x'' (Some 3) fs) = Inr r
      \<and> sc_status (bw_scan r) = status" for status fs
    by (simp add: local_put_def sample_blobs_def path meta verify_blob_size_def Let_def)
  have spec: "dict_get (snd (local_put (sample_blobs status) ''f1'' [''ab'', ''c''] ''text/csv; x'' (Some 3) fs))
      [''d'', ''f1''] = (if status = ScanClean then Some ''abc'' else dict_get fs [''d'', ''f1''])" for status fs
    using local_put_is_all_or_nothing [of "sample_blobs status" "''f1''" "[''ab'', ''c'']" "''text/csv; x''"
        "Some 3" fs _ _ "[''d'', ''f1'']", OF prod.collapse [symmetric]] ok [of status fs]
    by (auto simp: sample_blobs_def path split: if_splits)
  show ?thesis by (simp add: spec)
qed

end
