(* ===== verification/Conversation_Api.thy ===== *)
theory Conversation_Api
  imports Api_Security Event_Delivery Context_Builder Missions Blobs
begin

text \<open>
  The conversation HTTP API, \<^verbatim>\<open>api/conversations.py\<close>: ownership checks and the handlers of
  threads, messages, memories, run events and cancellation over the repositories of
  \<^verbatim>\<open>conversations/memory.py\<close>. Submission of a message is in theory \<open>Submission\<close>, attachments
  are in theory \<open>Attachment_Api\<close>.

  A handler takes the principal the middleware attached to the request (if any), the time, the
  identifiers it draws, and the repositories; it returns a value or an error, and the
  repositories. An \<^verbatim>\<open>HTTPException\<close> is \<open>Http\<close> with its status code and detail, an exception no
  handler catches (a response with status 500) is \<open>Uncaught\<close>. FastAPI validates bodies and query
  parameters before it calls a handler: a failed bound is status 422. Page cursors are what they
  encode; an undecodable cursor (status 400) does not arise.
\<close>

section \<open>Repositories and results\<close>

record conversations =
  cv_threads :: "thread store"
  cv_messages :: "message store"
  cv_runs :: run_store
  cv_artifacts :: "artifact store"
  cv_attachments :: "attachment store"
  cv_memories :: memory_store
  cv_summaries :: "thread_summary store"

datatype api_error = Http nat string | Uncaught error

type_synonym 'a api = "api_error + 'a"

definition uncaught :: "'a result \<Rightarrow> 'a api" where
  "uncaught r = (case r of Inl e \<Rightarrow> Inl (Uncaught e) | Inr x \<Rightarrow> Inr x)"

text \<open>Continue with the value, or answer the error and leave the state as it is.\<close>

definition attempt :: "'a api \<Rightarrow> 's \<Rightarrow> ('a \<Rightarrow> 'b api \<times> 's) \<Rightarrow> 'b api \<times> 's" where
  "attempt r s k = (case r of Inl e \<Rightarrow> (Inl e, s) | Inr x \<Rightarrow> k x)"

lemma attempt_simps [simp]:
  "attempt (Inl e) s k = (Inl e, s)" "attempt (Inr x) s k = k x"
  by (simp_all add: attempt_def)

lemma uncaught_simps [simp]:
  "uncaught (Inl e) = Inl (Uncaught e)" "uncaught (Inr x) = Inr x"
  by (simp_all add: uncaught_def)

section \<open>Ownership\<close>

definition api_principal :: "principal option \<Rightarrow> principal api" where
  "api_principal p = (case p of None \<Rightarrow> Inl (Http 401 ''principal unavailable'') | Some p \<Rightarrow> Inr p)"

definition authenticated_principal :: "principal option \<Rightarrow> principal api" where
  "authenticated_principal p = (case api_principal p of
       Inl e \<Rightarrow> Inl e
     | Inr p \<Rightarrow> if authenticated p then Inr p else Inl (Http 401 ''authentication required''))"

definition owned_thread :: "conversations \<Rightarrow> principal \<Rightarrow> string \<Rightarrow> bool \<Rightarrow> thread api" where
  "owned_thread cv p tid allow_deleted =
     (case thread_get (cv_threads cv) tid (Some (workspace_id p)) (Some (user_id p)) of
        None \<Rightarrow> Inl (Http 404 ''thread not found'')
      | Some t \<Rightarrow> if \<not> is_owned_by t p \<or> (th_status t = THREAD_DELETED \<and> \<not> allow_deleted)
          then Inl (Http 404 ''thread not found'') else Inr t)"

definition owned_run :: "conversations \<Rightarrow> principal \<Rightarrow> string \<Rightarrow> run api" where
  "owned_run cv p rid =
     (case run_get (rs_items (cv_runs cv)) rid (Some (workspace_id p)) (Some (user_id p)) of
        None \<Rightarrow> Inl (Http 404 ''run not found'')
      | Some r \<Rightarrow> if \<not> owns p (run_workspace_id r) (run_requested_by_user_id r)
          then Inl (Http 404 ''run not found'') else Inr r)"

definition owned_attachment :: "conversations \<Rightarrow> principal \<Rightarrow> string \<Rightarrow> attachment api" where
  "owned_attachment cv p aid =
     (case attachment_get (cv_attachments cv) aid (Some (workspace_id p)) (Some (user_id p)) of
        None \<Rightarrow> Inl (Http 404 ''attachment not found'')
      | Some a \<Rightarrow> if \<not> owns p (file_workspace_id a) (file_owner_user_id a)
          then Inl (Http 404 ''attachment not found'') else Inr a)"

definition owned_memory :: "conversations \<Rightarrow> principal \<Rightarrow> string \<Rightarrow> memory_item api" where
  "owned_memory cv p mid =
     (case memory_get (cv_memories cv) mid (workspace_id p) (user_id p) of
        None \<Rightarrow> Inl (Http 404 ''memory not found'') | Some m \<Rightarrow> Inr m)"

section \<open>Threads and messages\<close>

definition save_thread :: "thread \<Rightarrow> conversations \<Rightarrow> thread api \<times> conversations" where
  "save_thread t cv = attempt (uncaught (thread_update t (cv_threads cv))) cv
     (\<lambda>(t', d). (Inr t', cv\<lparr>cv_threads := d\<rparr>))"

definition unprocessable :: "bool \<Rightarrow> unit api" where
  "unprocessable valid = (if valid then Inr () else Inl (Http 422 ''validation error''))"

text \<open>\<^verbatim>\<open>tid\<close> is the identifier the contract's default factory draws.\<close>

definition create_thread ::
  "principal option \<Rightarrow> moment \<Rightarrow> string \<Rightarrow> string option \<Rightarrow> string option \<Rightarrow> json_obj
   \<Rightarrow> conversations \<Rightarrow> thread api \<times> conversations" where
  "create_thread p now tid title project metadata cv =
     attempt (unprocessable (case title of None \<Rightarrow> True | Some s \<Rightarrow> length s \<le> 500)) cv (\<lambda>_.
     attempt (api_principal p) cv (\<lambda>p.
     attempt (uncaught (thread_create \<lparr>th_id = tid, th_workspace_id = workspace_id p,
         th_owner_user_id = user_id p, th_project_id = project, th_title = title,
         th_status = THREAD_ACTIVE, th_metadata = metadata, th_created_at = now,
         th_updated_at = now, th_deleted_at = None\<rparr> (cv_threads cv))) cv
       (\<lambda>(t, d). (Inr t, cv\<lparr>cv_threads := d\<rparr>))))"

definition list_threads :: "principal option \<Rightarrow> int \<Rightarrow> conversations \<Rightarrow> thread list api" where
  "list_threads p limit cv =
     (if \<not> (1 \<le> limit \<and> limit \<le> 200) then Inl (Http 422 ''validation error'')
      else case api_principal p of
        Inl e \<Rightarrow> Inl e
      | Inr p \<Rightarrow> Inr (thread_list_for_owner (cv_threads cv) (workspace_id p) (user_id p) limit
          (Some THREAD_ACTIVE)))"

definition list_threads_paginated ::
  "principal option \<Rightarrow> int \<Rightarrow> (moment \<times> string) option \<Rightarrow> bool \<Rightarrow> conversations
   \<Rightarrow> (thread list \<times> (moment \<times> string) option) api" where
  "list_threads_paginated p limit cursor include_deleted cv =
     (if \<not> (1 \<le> limit \<and> limit \<le> 200) then Inl (Http 422 ''validation error'')
      else case api_principal p of
        Inl e \<Rightarrow> Inl e
      | Inr p \<Rightarrow> Inr (thread_list_page (cv_threads cv) (workspace_id p) (user_id p) limit cursor
          include_deleted))"

definition get_thread :: "principal option \<Rightarrow> string \<Rightarrow> conversations \<Rightarrow> thread api" where
  "get_thread p tid cv = (case api_principal p of
       Inl e \<Rightarrow> Inl e | Inr p \<Rightarrow> owned_thread cv p tid False)"

definition update_thread ::
  "principal option \<Rightarrow> moment \<Rightarrow> string \<Rightarrow> string \<Rightarrow> conversations \<Rightarrow> thread api \<times> conversations" where
  "update_thread p now tid new_title cv =
     attempt (unprocessable (1 \<le> length new_title \<and> length new_title \<le> 500)) cv (\<lambda>_.
     attempt (api_principal p) cv (\<lambda>p.
     attempt (owned_thread cv p tid False) cv (\<lambda>t.
       let title = str_strip new_title in
       if title = [] then (Inl (Http 422 ''title must not be blank''), cv)
       else save_thread (t\<lparr>th_title := Some title, th_updated_at := now\<rparr>) cv)))"

definition archive_thread ::
  "principal option \<Rightarrow> moment \<Rightarrow> string \<Rightarrow> conversations \<Rightarrow> thread api \<times> conversations" where
  "archive_thread p now tid cv =
     attempt (api_principal p) cv (\<lambda>p.
     attempt (owned_thread cv p tid False) cv (\<lambda>t.
       save_thread (t\<lparr>th_status := THREAD_ARCHIVED, th_updated_at := now\<rparr>) cv))"

definition delete_thread ::
  "principal option \<Rightarrow> moment \<Rightarrow> string \<Rightarrow> conversations \<Rightarrow> thread api \<times> conversations" where
  "delete_thread p now tid cv =
     attempt (api_principal p) cv (\<lambda>p.
     attempt (owned_thread cv p tid False) cv (\<lambda>t.
       save_thread (t\<lparr>th_status := THREAD_DELETED, th_deleted_at := Some now, th_updated_at := now\<rparr>) cv))"

definition restore_thread ::
  "principal option \<Rightarrow> moment \<Rightarrow> string \<Rightarrow> conversations \<Rightarrow> thread api \<times> conversations" where
  "restore_thread p now tid cv =
     attempt (api_principal p) cv (\<lambda>p.
     attempt (owned_thread cv p tid True) cv (\<lambda>t.
       if th_status t \<noteq> THREAD_DELETED then (Inl (Http 409 ''thread is not deleted''), cv)
       else save_thread (t\<lparr>th_status := THREAD_ACTIVE, th_deleted_at := None, th_updated_at := now\<rparr>) cv))"

definition list_messages :: "principal option \<Rightarrow> string \<Rightarrow> int \<Rightarrow> conversations \<Rightarrow> message list api" where
  "list_messages p tid limit cv =
     (if \<not> (1 \<le> limit \<and> limit \<le> 500) then Inl (Http 422 ''validation error'')
      else case get_thread p tid cv of
        Inl e \<Rightarrow> Inl e | Inr _ \<Rightarrow> Inr (message_list_for_thread (cv_messages cv) tid limit))"

definition list_messages_paginated ::
  "principal option \<Rightarrow> string \<Rightarrow> int \<Rightarrow> (moment \<times> string) option \<Rightarrow> conversations
   \<Rightarrow> (message list \<times> (moment \<times> string) option) api" where
  "list_messages_paginated p tid limit cursor cv =
     (if \<not> (1 \<le> limit \<and> limit \<le> 500) then Inl (Http 422 ''validation error'')
      else case get_thread p tid cv of
        Inl e \<Rightarrow> Inl e | Inr _ \<Rightarrow> Inr (message_list_page (cv_messages cv) tid limit cursor))"

section \<open>Memories\<close>

definition list_memories ::
  "principal option \<Rightarrow> moment \<Rightarrow> string option \<Rightarrow> string option \<Rightarrow> bool \<Rightarrow> int \<Rightarrow> conversations
   \<Rightarrow> memory_item list api" where
  "list_memories p now project tid include_inactive limit cv =
     (if \<not> (1 \<le> limit \<and> limit \<le> 500) then Inl (Http 422 ''validation error'')
      else case authenticated_principal p of
        Inl e \<Rightarrow> Inl e
      | Inr p \<Rightarrow> (case (case tid of None \<Rightarrow> Inr () | Some t \<Rightarrow>
                    map_sum id (\<lambda>_. ()) (owned_thread cv p t False)) of
            Inl e \<Rightarrow> Inl e
          | Inr _ \<Rightarrow> Inr (memory_list (cv_memories cv) (workspace_id p) (user_id p) project tid
              include_inactive limit now)))"

record create_memory_request =
  cm_content :: memory_content
  cm_scope :: memory_scope
  cm_type :: memory_type
  cm_project_id :: "string option"
  cm_thread_id :: "string option"
  cm_confidence :: rat
  cm_salience :: rat
  cm_source_run_id :: "string option"
  cm_source_message_ids :: "string list"
  cm_source_evidence_ids :: "string list"
  cm_pinned :: bool

definition scope_requires :: "memory_scope \<Rightarrow> string option \<Rightarrow> string option \<Rightarrow> unit api" where
  "scope_requires scope project tid =
     (if scope = SCOPE_THREAD \<and> tid = None then Inl (Http 422 ''THREAD scope requires thread_id'')
      else if scope \<in> {SCOPE_PROJECT, SCOPE_EPISODIC} \<and> project = None
      then Inl (Http 422 ''PROJECT/EPISODIC scope requires project_id'') else Inr ())"

definition optional_thread :: "conversations \<Rightarrow> principal \<Rightarrow> string option \<Rightarrow> unit api" where
  "optional_thread cv p tid = (case tid of None \<Rightarrow> Inr ()
     | Some t \<Rightarrow> map_sum id (\<lambda>_. ()) (owned_thread cv p t False))"

definition optional_run :: "conversations \<Rightarrow> principal \<Rightarrow> string option \<Rightarrow> unit api" where
  "optional_run cv p rid = (case rid of None \<Rightarrow> Inr ()
     | Some r \<Rightarrow> map_sum id (\<lambda>_. ()) (owned_run cv p r))"

fun source_messages :: "conversations \<Rightarrow> principal \<Rightarrow> string list \<Rightarrow> unit api" where
  "source_messages cv p [] = Inr ()"
| "source_messages cv p (mid # mids) = (case message_get (cv_messages cv) mid None of
       None \<Rightarrow> Inl (Http 422 ''source message not found'')
     | Some m \<Rightarrow> (case owned_thread cv p (msg_thread_id m) False of
           Inl e \<Rightarrow> Inl e | Inr _ \<Rightarrow> source_messages cv p mids))"

definition new_memory ::
  "(json \<Rightarrow> string) \<Rightarrow> string \<Rightarrow> moment \<Rightarrow> principal \<Rightarrow> create_memory_request \<Rightarrow> memory_item" where
  "new_memory py mid now p body =
     \<lparr>mem_id = mid, mem_workspace_id = workspace_id p, mem_owner_user_id = user_id p,
      mem_project_id = cm_project_id body, mem_scope = cm_scope body, mem_type = cm_type body,
      mem_status = MEM_ACTIVE, mem_content = cm_content body,
      mem_normalized_content = normalize_memory_content py (cm_content body),
      mem_structured_data = [], mem_provenance = [(''created_by'', JStr ''user'')],
      mem_confidence = cm_confidence body, mem_salience = cm_salience body,
      mem_thread_id = cm_thread_id body, mem_source_message_id = None,
      mem_source_message_ids = cm_source_message_ids body, mem_source_run_id = cm_source_run_id body,
      mem_source_evidence_ids = cm_source_evidence_ids body, mem_supersedes_id = None,
      mem_superseded_by_id = None, mem_pinned = cm_pinned body, mem_requires_confirmation = False,
      mem_consented_at = Some now, mem_valid_from = None, mem_valid_to = None, mem_created_at = now,
      mem_updated_at = now, mem_last_used_at = None, mem_expires_at = None, mem_archived_at = None,
      mem_deleted_at = None\<rparr>"

definition create_memory ::
  "(json \<Rightarrow> string) \<Rightarrow> principal option \<Rightarrow> moment \<Rightarrow> string \<Rightarrow> create_memory_request \<Rightarrow> conversations
   \<Rightarrow> memory_item api \<times> conversations" where
  "create_memory py p now mid body cv =
     attempt (unprocessable (0 \<le> cm_confidence body \<and> cm_confidence body \<le> 1
                \<and> 0 \<le> cm_salience body \<and> cm_salience body \<le> 1)) cv (\<lambda>_.
     attempt (authenticated_principal p) cv (\<lambda>p.
     attempt (scope_requires (cm_scope body) (cm_project_id body) (cm_thread_id body)) cv (\<lambda>_.
     attempt (optional_thread cv p (cm_thread_id body)) cv (\<lambda>_.
     attempt (optional_run cv p (cm_source_run_id body)) cv (\<lambda>_.
     attempt (source_messages cv p (cm_source_message_ids body)) cv (\<lambda>_.
       if pref_opted_out (get_preference (cv_memories cv) (workspace_id p) (user_id p) now)
       then (Inl (Http 409 ''memory is opted out''), cv)
       else attempt (uncaught (validate_scope_and_consent (new_memory py mid now p body))) cv (\<lambda>m.
         let (stored, ms) = memory_create m (cv_memories cv)
         in (Inr stored, cv\<lparr>cv_memories := ms\<rparr>))))))))"

definition get_memory_preference ::
  "principal option \<Rightarrow> moment \<Rightarrow> conversations \<Rightarrow> memory_preference api" where
  "get_memory_preference p now cv = (case authenticated_principal p of
       Inl e \<Rightarrow> Inl e
     | Inr p \<Rightarrow> Inr (get_preference (cv_memories cv) (workspace_id p) (user_id p) now))"

definition set_memory_preference ::
  "principal option \<Rightarrow> moment \<Rightarrow> bool \<Rightarrow> conversations \<Rightarrow> memory_preference api \<times> conversations" where
  "set_memory_preference p now opted_out cv =
     attempt (authenticated_principal p) cv (\<lambda>p.
       let pref = \<lparr>pref_workspace_id = workspace_id p, pref_owner_user_id = user_id p,
             pref_opted_out = opted_out, pref_updated_at = now\<rparr>
       in (Inr pref, cv\<lparr>cv_memories := set_preference pref (cv_memories cv)\<rparr>))"

definition get_memory :: "principal option \<Rightarrow> string \<Rightarrow> conversations \<Rightarrow> memory_item api" where
  "get_memory p mid cv = (case authenticated_principal p of
       Inl e \<Rightarrow> Inl e | Inr p \<Rightarrow> owned_memory cv p mid)"

text \<open>The repository's \<^verbatim>\<open>update\<close>, which answers the record it was given.\<close>

definition save_memory :: "memory_item \<Rightarrow> conversations \<Rightarrow> memory_item api \<times> conversations" where
  "save_memory m cv = attempt (uncaught (memory_update m (cv_memories cv))) cv
     (\<lambda>ms. (Inr m, cv\<lparr>cv_memories := ms\<rparr>))"

text \<open>The guard every handler of one memory starts with.\<close>

definition with_memory ::
  "principal option \<Rightarrow> string \<Rightarrow> conversations
   \<Rightarrow> (principal \<Rightarrow> memory_item \<Rightarrow> 'a api \<times> conversations) \<Rightarrow> 'a api \<times> conversations" where
  "with_memory p mid cv k =
     attempt (authenticated_principal p) cv (\<lambda>p. attempt (owned_memory cv p mid) cv (k p))"

text \<open>The body's fields are \<open>None\<close> when unset. A content sent as null is refused; a null type,
  confidence or salience is not modelled.\<close>

record update_memory_request =
  um_content :: "memory_content option option"
  um_type :: "memory_type option"
  um_confidence :: "rat option"
  um_salience :: "rat option"

definition with_default :: "'a \<Rightarrow> 'a option \<Rightarrow> 'a" where
  "with_default d x = (case x of None \<Rightarrow> d | Some v \<Rightarrow> v)"

definition unit_rat :: "rat option \<Rightarrow> bool" where
  "unit_rat x = (case x of None \<Rightarrow> True | Some v \<Rightarrow> 0 \<le> v \<and> v \<le> 1)"

definition update_memory ::
  "(json \<Rightarrow> string) \<Rightarrow> principal option \<Rightarrow> moment \<Rightarrow> string \<Rightarrow> update_memory_request \<Rightarrow> conversations
   \<Rightarrow> memory_item api \<times> conversations" where
  "update_memory py p now mid body cv =
     attempt (unprocessable (unit_rat (um_confidence body) \<and> unit_rat (um_salience body))) cv (\<lambda>_.
     with_memory p mid cv (\<lambda>p m.
       let changed = m\<lparr>mem_type := with_default (mem_type m) (um_type body),
             mem_confidence := with_default (mem_confidence m) (um_confidence body),
             mem_salience := with_default (mem_salience m) (um_salience body), mem_updated_at := now\<rparr>
       in case um_content body of
            None \<Rightarrow> save_memory changed cv
          | Some None \<Rightarrow> (Inl (Http 422 ''content must not be null''), cv)
          | Some (Some c) \<Rightarrow> save_memory (changed\<lparr>mem_content := c,
              mem_normalized_content := normalize_memory_content py c\<rparr>) cv))"

definition pin_memory ::
  "principal option \<Rightarrow> moment \<Rightarrow> string \<Rightarrow> bool \<Rightarrow> conversations \<Rightarrow> memory_item api \<times> conversations" where
  "pin_memory p now mid pinned cv = with_memory p mid cv (\<lambda>p m.
     save_memory (m\<lparr>mem_pinned := pinned, mem_updated_at := now\<rparr>) cv)"

definition confirm_memory ::
  "principal option \<Rightarrow> moment \<Rightarrow> string \<Rightarrow> conversations \<Rightarrow> memory_item api \<times> conversations" where
  "confirm_memory p now mid cv = with_memory p mid cv (\<lambda>p m.
     attempt (uncaught (confirm now m (cv_memories cv))) cv
       (\<lambda>(c, ms). (Inr c, cv\<lparr>cv_memories := ms\<rparr>)))"

definition move_memory ::
  "principal option \<Rightarrow> moment \<Rightarrow> string \<Rightarrow> memory_scope \<Rightarrow> string option \<Rightarrow> string option \<Rightarrow> conversations
   \<Rightarrow> memory_item api \<times> conversations" where
  "move_memory p now mid scope project tid cv = with_memory p mid cv (\<lambda>p m.
     attempt (scope_requires scope project tid) cv (\<lambda>_.
     attempt (optional_thread cv p tid) cv (\<lambda>_.
       save_memory (m\<lparr>mem_scope := scope, mem_project_id := project, mem_thread_id := tid,
         mem_updated_at := now\<rparr>) cv)))"

definition archive_memory ::
  "principal option \<Rightarrow> moment \<Rightarrow> string \<Rightarrow> conversations \<Rightarrow> memory_item api \<times> conversations" where
  "archive_memory p now mid cv = with_memory p mid cv (\<lambda>p m. save_memory (archived now m) cv)"

definition delete_memory ::
  "principal option \<Rightarrow> moment \<Rightarrow> string \<Rightarrow> conversations \<Rightarrow> string api \<times> conversations" where
  "delete_memory p now mid cv = with_memory p mid cv (\<lambda>p m.
     attempt (uncaught (memory_delete mid (workspace_id p) (user_id p) now (cv_memories cv))) cv
       (\<lambda>(_, ms). (Inr mid, cv\<lparr>cv_memories := ms\<rparr>)))"

definition list_run_memories :: "principal option \<Rightarrow> string \<Rightarrow> conversations \<Rightarrow> memory_item list api" where
  "list_run_memories p rid cv = (case authenticated_principal p of
       Inl e \<Rightarrow> Inl e
     | Inr p \<Rightarrow> (case owned_run cv p rid of
           Inl e \<Rightarrow> Inl e
         | Inr _ \<Rightarrow> Inr (list_used_by_run (cv_memories cv) rid (workspace_id p) (user_id p))))"

section \<open>Runs and their events\<close>

text \<open>\<^verbatim>\<open>rt\<close> redacts a text, as in theory \<open>Event_Delivery\<close>.\<close>

definition public_events :: "(string \<Rightarrow> string) \<Rightarrow> principal \<Rightarrow> activity_event list \<Rightarrow> activity_event list" where
  "public_events rt p events = List.map_filter (\<lambda>e. event_for_principal rt e p) events"

definition list_run_events ::
  "(string \<Rightarrow> string) \<Rightarrow> principal option \<Rightarrow> string \<Rightarrow> int \<Rightarrow> conversations \<Rightarrow> activity_event list api" where
  "list_run_events rt p rid after_sequence cv =
     (if after_sequence < 0 then Inl (Http 422 ''validation error'')
      else case authenticated_principal p of
        Inl e \<Rightarrow> Inl e
      | Inr p \<Rightarrow> (case owned_run cv p rid of
            Inl e \<Rightarrow> Inl e
          | Inr _ \<Rightarrow> Inr (public_events rt p (list_events (cv_runs cv) rid (nat after_sequence)))))"

definition list_thread_events_api ::
  "(string \<Rightarrow> string) \<Rightarrow> principal option \<Rightarrow> string \<Rightarrow> int \<Rightarrow> conversations \<Rightarrow> activity_event list api" where
  "list_thread_events_api rt p tid after_sequence cv =
     (if after_sequence < 0 then Inl (Http 422 ''validation error'')
      else case authenticated_principal p of
        Inl e \<Rightarrow> Inl e
      | Inr p \<Rightarrow> (case owned_thread cv p tid False of
            Inl e \<Rightarrow> Inl e
          | Inr _ \<Rightarrow> Inr (public_events rt p (list_thread_events (cv_runs cv) tid (nat after_sequence)))))"

text \<open>\<^verbatim>\<open>header.rsplit(":", 1)[-1]\<close>: what follows the last colon.\<close>

definition after_colon :: "string \<Rightarrow> string" where
  "after_colon s = rev (takeWhile (\<lambda>c. c \<noteq> CHR '':'') (rev s))"

text \<open>\<^verbatim>\<open>parse\<close> is \<^verbatim>\<open>int\<close> of a text.\<close>

definition event_cursor :: "(string \<Rightarrow> int option) \<Rightarrow> string option \<Rightarrow> int \<Rightarrow> int" where
  "event_cursor parse last_event_id after_sequence =
     (case parse (after_colon (case last_event_id of None \<Rightarrow> [] | Some h \<Rightarrow> h)) of
        None \<Rightarrow> after_sequence | Some i \<Rightarrow> max after_sequence i)"

section \<open>Cancelling a run\<close>

text \<open>The service: the repositories, the missions of theory \<open>Missions\<close>, and the files and objects of
  theory \<open>Blobs\<close>.\<close>

record service =
  sv_cv :: conversations
  sv_missions :: mission_world
  sv_files :: files
  sv_objects :: "(string, minio_object) dict"

definition warning_part :: "string \<Rightarrow> string \<Rightarrow> message_part" where
  "warning_part text status = \<lparr>part_type = WARNING, part_content = CStr text,
     part_metadata = [(''status'', JStr status)]\<rparr>"

definition assistant_message_id :: "run \<Rightarrow> string option" where
  "assistant_message_id r = (case obj_get (run_metadata r) ''submission'' of
       JObj kvs \<Rightarrow> (case obj_get kvs ''assistant_message_id'' of JStr s \<Rightarrow> Some s | _ \<Rightarrow> None)
     | _ \<Rightarrow> None)"

text \<open>\<^verbatim>\<open>_finalize_cancelled_placeholder\<close>: only a reply that still consists of status parts is
  replaced.\<close>

definition finalize_cancelled_placeholder ::
  "moment \<Rightarrow> run \<Rightarrow> conversations \<Rightarrow> unit api \<times> conversations" where
  "finalize_cancelled_placeholder now r cv =
     (case assistant_message_id r of
        None \<Rightarrow> (Inr (), cv)
      | Some mid \<Rightarrow> (case message_get (cv_messages cv) mid None of
            None \<Rightarrow> (Inr (), cv)
          | Some m \<Rightarrow>
              if list_ex (\<lambda>part. part_type part \<noteq> AGENT_STATUS) (msg_parts m) then (Inr (), cv)
              else attempt (uncaught (message_update (m\<lparr>msg_parts := [warning_part ''Run cancelled.'' ''cancelled''],
                     msg_updated_at := now\<rparr>) (cv_messages cv))) cv
                   (\<lambda>(_, d). (Inr (), cv\<lparr>cv_messages := d\<rparr>))))"

definition cancelled_event :: "moment \<Rightarrow> principal \<Rightarrow> run \<Rightarrow> activity_event" where
  "cancelled_event now p r =
     (fresh_event (''event_'' @ run_id r @ ''_cancelled'') r ''run.cancelled''
        [(''mission_id'', opt_json (run_mission_id r)), (''status'', JStr ''cancelled'')] now)
       \<lparr>ev_actor_user_id := Some (user_id p), ev_completed_at := Some now\<rparr>"

text \<open>The mission layer is told last; a mission it cannot cancel is not an error. The notifier is
  left out.\<close>

definition cancel_mission :: "(json \<Rightarrow> string) \<Rightarrow> string \<Rightarrow> string \<Rightarrow> run \<Rightarrow> mission_world \<Rightarrow> mission_world" where
  "cancel_mission py ts fresh r w =
     (if str_truthy (run_mission_id r)
      then snd (cancel_running_mission py ts fresh (the (run_mission_id r)) None
             (request_cancel (the (run_mission_id r)) w))
      else w)"

definition cancel_run ::
  "(json \<Rightarrow> string) \<Rightarrow> string \<Rightarrow> string \<Rightarrow> principal option \<Rightarrow> moment \<Rightarrow> string \<Rightarrow> service
   \<Rightarrow> string api \<times> service" where
  "cancel_run py ts fresh p now rid sv =
     attempt (authenticated_principal p) sv (\<lambda>p.
     attempt (owned_run (sv_cv sv) p rid) sv (\<lambda>r.
       case cancel rid now (Some (cancelled_event now p r)) (cv_runs (sv_cv sv)) of
         (None, rs) \<Rightarrow> (Inl (Http 409 ''run is not cancellable''), sv\<lparr>sv_cv := (sv_cv sv)\<lparr>cv_runs := rs\<rparr>\<rparr>)
       | (Some _, rs) \<Rightarrow>
           (case finalize_cancelled_placeholder now r ((sv_cv sv)\<lparr>cv_runs := rs\<rparr>) of
              (Inl e, cv) \<Rightarrow> (Inl e, sv\<lparr>sv_cv := cv\<rparr>)
            | (Inr _, cv) \<Rightarrow>
                (Inr rid, sv\<lparr>sv_cv := cv, sv_missions := cancel_mission py ts fresh r (sv_missions sv)\<rparr>))))"

section \<open>A tenant's view\<close>

text \<open>What a user can look up by identifier is the same in two states of the repositories.\<close>

definition same_view :: "string \<Rightarrow> string \<Rightarrow> conversations \<Rightarrow> conversations \<Rightarrow> bool" where
  "same_view ws u cv cv' =
     ((\<forall>k. thread_get (cv_threads cv') k (Some ws) (Some u) = thread_get (cv_threads cv) k (Some ws) (Some u))
      \<and> (\<forall>k. run_get (rs_items (cv_runs cv')) k (Some ws) (Some u) = run_get (rs_items (cv_runs cv)) k (Some ws) (Some u))
      \<and> (\<forall>k. attachment_get (cv_attachments cv') k (Some ws) (Some u)
              = attachment_get (cv_attachments cv) k (Some ws) (Some u))
      \<and> (\<forall>k. memory_get (cv_memories cv') k ws u = memory_get (cv_memories cv) k ws u)
      \<and> (\<forall>now. get_preference (cv_memories cv') ws u now = get_preference (cv_memories cv) ws u now))"

lemma same_view_refl [simp]: "same_view ws u cv cv"
  by (simp add: same_view_def)

lemma same_view_trans: "same_view ws u cv cv' \<Longrightarrow> same_view ws u cv' cv'' \<Longrightarrow> same_view ws u cv cv''"
  by (simp add: same_view_def)

text \<open>A write of another tenant's record leaves a lookup as it was.\<close>

lemmas thread_write_view = threads.write_others [where t = "(ws, u)" for ws u, simplified]
lemmas attachment_write_view = attachments.write_others [where t = "(ws, u)" for ws u, simplified]

lemma memory_write_view:
  assumes "memory_update m ms = Inr ms'" "(mem_workspace_id m, mem_owner_user_id m) \<noteq> (ws, u)"
  shows "memory_get ms' k ws u = memory_get ms k ws u \<and> get_preference ms' ws u now = get_preference ms ws u now"
proof -
  obtain e where ms': "ms' = ms\<lparr>ms_items := dict_set (ms_items ms) (mem_id m) m\<rparr>"
    and e: "dict_get (ms_items ms) (mem_id m) = Some e" "mem_workspace_id e = mem_workspace_id m"
      "mem_owner_user_id e = mem_owner_user_id m"
    using assms(1) by (auto simp: memory_update_def split: option.splits if_splits)
  show ?thesis using assms(2) e
    by (cases "k = mem_id m") (auto simp: ms' memory_get_def get_preference_def)
qed

lemma memory_create_view:
  assumes "(mem_workspace_id m, mem_owner_user_id m) \<noteq> (ws, u)"
  shows "memory_get (snd (memory_create m ms)) k ws u = memory_get ms k ws u
    \<and> get_preference (snd (memory_create m ms)) ws u now = get_preference ms ws u now"
proof (cases "k = mem_id m \<and> dict_get (ms_items ms) k = None")
  case True
  then show ?thesis using assms by (auto simp: memory_create_def memory_get_def get_preference_def Let_def)
next
  case False
  then have "dict_get (dict_setdefault (ms_items ms) (mem_id m) m) k = dict_get (ms_items ms) k" by auto
  then show ?thesis by (simp add: memory_create_def memory_get_def get_preference_def Let_def)
qed

end
