(* ===== verification/Attachment_Api.thy ===== *)
theory Attachment_Api
  imports Conversation_Api
begin

text \<open>
  The attachment handlers of \<^verbatim>\<open>api/conversations.py\<close> over the blob stores of theory \<open>Blobs\<close>:
  declaration, upload to the local store, completion of an upload to the object store, download
  and deletion. The upload handler awaits the body between its checks and its write, so it is
  modelled in these two parts and their composition. Presigned addresses and response headers
  are left out.
\<close>

section \<open>Handlers\<close>

datatype blob_backend = NoBlobs | LocalBlobs blob_env | MinioBlobs blob_config string "string \<Rightarrow> string"
  "string \<Rightarrow> scan_result result"

definition backend_config :: "blob_backend \<Rightarrow> blob_config option" where
  "backend_config b = (case b of
     NoBlobs \<Rightarrow> None | LocalBlobs env \<Rightarrow> Some (be_config env) | MinioBlobs cfg _ _ _ \<Rightarrow> Some cfg)"

text \<open>\<^verbatim>\<open>str(exc)\<close>; the validators raise a kind of \<^verbatim>\<open>ValueError\<close>.\<close>

fun error_message :: "error \<Rightarrow> string" where
  "error_message (PermissionError s) = s"
| "error_message (KeyError s) = s"
| "error_message (ValueError s) = s"
| "error_message (RuntimeError s) = s"
| "error_message (LookupError s) = s"
| "error_message (TypeError s) = s"
| "error_message (OverflowError s) = s"
| "error_message ZeroDivisionError = ''division by zero''"

definition initiate_attachment ::
  "blob_backend \<Rightarrow> (string \<Rightarrow> string option) \<Rightarrow> principal option \<Rightarrow> moment \<Rightarrow> string \<Rightarrow> string
   \<Rightarrow> string \<Rightarrow> string \<Rightarrow> int \<Rightarrow> conversations \<Rightarrow> attachment api \<times> conversations" where
  "initiate_attachment backend guess_type p now aid tid filename content_type nbytes cv =
     attempt (unprocessable (filename \<noteq> [] \<and> length filename \<le> 255 \<and> content_type \<noteq> []
                \<and> length content_type \<le> 255 \<and> 0 \<le> nbytes)) cv (\<lambda>_.
     attempt (authenticated_principal p) cv (\<lambda>p.
     attempt (owned_thread cv p tid False) cv (\<lambda>t.
       case backend_config backend of
         None \<Rightarrow> (Inl (Http 503 ''blob storage is not configured''), cv)
       | Some cfg \<Rightarrow> (case validate_blob_metadata guess_type cfg filename content_type (Some nbytes) of
           Inl e \<Rightarrow> (Inl (Http (if str_contains ''size'' (str_lower (error_message e)) then 413 else 415)
                           (error_message e)), cv)
         | Inr clean_type \<Rightarrow>
             attempt (uncaught (attachment_create \<lparr>file_id = aid, file_thread_id = th_id t,
                 file_workspace_id = th_workspace_id t, file_owner_user_id = user_id p,
                 file_message_id = None, file_filename = filename, file_content_type = clean_type,
                 file_size_bytes = nat nbytes, file_storage_uri = None, file_checksum_sha256 = None,
                 file_status = FILE_PENDING, file_scan_status = SCAN_PENDING, file_scan_detail = [],
                 file_created_at = now\<rparr> (cv_attachments cv))) cv
               (\<lambda>(a, d). (Inr a, cv\<lparr>cv_attachments := d\<rparr>))))))"

definition list_attachments :: "principal option \<Rightarrow> string \<Rightarrow> conversations \<Rightarrow> attachment list api" where
  "list_attachments p tid cv = (case authenticated_principal p of
       Inl e \<Rightarrow> Inl e
     | Inr p \<Rightarrow> (case owned_thread cv p tid False of
           Inl e \<Rightarrow> Inl e | Inr _ \<Rightarrow> Inr (attachment_list_for_thread (cv_attachments cv) tid)))"

definition save_attachment :: "attachment \<Rightarrow> conversations \<Rightarrow> attachment api \<times> conversations" where
  "save_attachment a cv = attempt (uncaught (attachment_update a (cv_attachments cv))) cv
     (\<lambda>(a', d). (Inr a', cv\<lparr>cv_attachments := d\<rparr>))"

fun attachment_scan :: "scan_status \<Rightarrow> attachment_scan_status" where
  "attachment_scan ScanPending = SCAN_PENDING"
| "attachment_scan ScanClean = SCAN_CLEAN"
| "attachment_scan ScanQuarantined = SCAN_QUARANTINED"
| "attachment_scan ScanFailed = SCAN_FAILED"
| "attachment_scan ScanUnavailable = SCAN_UNAVAILABLE"

text \<open>The checks before the body is awaited.\<close>

definition upload_begin ::
  "blob_backend \<Rightarrow> principal option \<Rightarrow> string \<Rightarrow> string \<Rightarrow> conversations \<Rightarrow> (blob_env \<times> attachment) api" where
  "upload_begin backend p aid content_type_header cv =
     (case authenticated_principal p of
        Inl e \<Rightarrow> Inl e
      | Inr p \<Rightarrow> (case owned_attachment cv p aid of
          Inl e \<Rightarrow> Inl e
        | Inr a \<Rightarrow>
            if file_status a \<noteq> FILE_PENDING then Inl (Http 409 ''attachment is not pending'')
            else case backend of
              LocalBlobs env \<Rightarrow>
                let request_type = str_lower (before_semicolon content_type_header) in
                if request_type \<noteq> [] \<and> request_type \<noteq> file_content_type a
                then Inl (Http 415 ''Content-Type does not match declaration'') else Inr (env, a)
            | _ \<Rightarrow> Inl (Http 405 ''use the object-store presigned URL'')))"

text \<open>The write after it; the address of a stored file is its path.\<close>

definition upload_finish ::
  "attachment \<Rightarrow> blob_write_result \<Rightarrow> conversations \<Rightarrow> attachment api \<times> conversations" where
  "upload_finish a r cv =
     save_attachment (a\<lparr>file_size_bytes := nat (bw_size_bytes r),
       file_storage_uri := Some (''file:///'' @ join ''/'' (bw_path r)),
       file_checksum_sha256 := Some (bw_checksum_sha256 r),
       file_status := (if sc_status (bw_scan r) = ScanClean then FILE_READY else FILE_FAILED),
       file_scan_status := attachment_scan (sc_status (bw_scan r)),
       file_scan_detail := sc_detail (bw_scan r)\<rparr>) cv"

definition upload_attachment_content ::
  "blob_backend \<Rightarrow> principal option \<Rightarrow> string \<Rightarrow> string \<Rightarrow> string list \<Rightarrow> service
   \<Rightarrow> attachment api \<times> service" where
  "upload_attachment_content backend p aid content_type_header chunks sv =
     attempt (upload_begin backend p aid content_type_header (sv_cv sv)) sv (\<lambda>(env, a).
       case local_put env (file_id a) chunks (file_content_type a) (Some (int (file_size_bytes a))) (sv_files sv) of
         (Inl e, fs) \<Rightarrow> (Inl (Http 413 (error_message e)), sv\<lparr>sv_files := fs\<rparr>)
       | (Inr r, fs) \<Rightarrow> (case upload_finish a r (sv_cv sv) of
             (res, cv) \<Rightarrow> (res, sv\<lparr>sv_files := fs, sv_cv := cv\<rparr>)))"

text \<open>\<^verbatim>\<open>reject_completion\<close>\<close>

definition drop_object :: "string \<Rightarrow> service \<Rightarrow> service" where
  "drop_object aid sv = sv\<lparr>sv_objects := dict_del (sv_objects sv) aid\<rparr>"

definition reject_completion ::
  "attachment \<Rightarrow> string \<Rightarrow> string option \<Rightarrow> service \<Rightarrow> attachment api \<times> service" where
  "reject_completion a detail checksum sv =
     (let sv1 = drop_object (file_id a) sv in
      case save_attachment (a\<lparr>file_storage_uri := None, file_checksum_sha256 := checksum,
             file_status := FILE_FAILED, file_scan_status := SCAN_FAILED, file_scan_detail := detail\<rparr>)
             (sv_cv sv1) of
        (Inl e, cv) \<Rightarrow> (Inl e, sv1\<lparr>sv_cv := cv\<rparr>)
      | (Inr _, cv) \<Rightarrow> (Inl (Http 409 detail), sv1\<lparr>sv_cv := cv\<rparr>))"

definition lower_keys :: "(string, string) dict \<Rightarrow> (string, string) dict" where
  "lower_keys md = foldl (\<lambda>d (k, v). dict_set d (str_lower k) v) [] md"

definition stored_checksum :: "minio_object \<Rightarrow> string option" where
  "stored_checksum obj =
     (let md = lower_keys (mo_metadata obj) in
      if str_truthy (dict_get md ''x-amz-meta-sha256'') then dict_get md ''x-amz-meta-sha256''
      else dict_get md ''sha256'')"

text \<open>The checks of the stored object, in the order of the code: the detail of the first that fails
  and the digest known by then.\<close>

definition completion_problem ::
  "(string \<Rightarrow> string) \<Rightarrow> attachment \<Rightarrow> string \<Rightarrow> minio_object \<Rightarrow> (string \<times> string option) option" where
  "completion_problem sha256 a declared obj =
     (let content = concat (mo_chunks obj); server = sha256 content in
      if mo_size obj \<noteq> int (file_size_bytes a) then Some (''object size does not match declaration'', None)
      else case normalize_content_type (case mo_content_type obj of None \<Rightarrow> [] | Some t \<Rightarrow> t) of
        Inl _ \<Rightarrow> Some (''stored object MIME type is invalid'', None)
      | Inr stored_type \<Rightarrow>
          if stored_type \<noteq> file_content_type a
          then Some (''stored object MIME type does not match declaration'', None)
          else if length content \<noteq> file_size_bytes a
          then Some (''streamed object size does not match declaration'', Some server)
          else if str_truthy (stored_checksum obj) \<and> stored_checksum obj \<noteq> Some server
          then Some (''object checksum metadata does not match content'', Some server)
          else if declared \<noteq> server
          then Some (''declared checksum does not match object content'', Some server) else None)"

definition lower_hex :: "char \<Rightarrow> bool" where
  "lower_hex c = (let n = (of_char c :: nat) in (48 \<le> n \<and> n \<le> 57) \<or> (97 \<le> n \<and> n \<le> 102))"

text \<open>The record after the scan: READY with its address, or FAILED without one.\<close>

definition scanned_attachment :: "attachment \<Rightarrow> string \<Rightarrow> string \<Rightarrow> scan_result \<Rightarrow> attachment" where
  "scanned_attachment a bucket server sc =
     (let clean = (sc_status sc = ScanClean) in
      a\<lparr>file_storage_uri := (if clean then Some (''s3://'' @ bucket @ ''/'' @ file_id a) else None),
        file_checksum_sha256 := Some server,
        file_status := (if clean then FILE_READY else FILE_FAILED),
        file_scan_status := attachment_scan (sc_status sc), file_scan_detail := sc_detail sc\<rparr>)"

definition complete_presigned_upload ::
  "blob_backend \<Rightarrow> principal option \<Rightarrow> string \<Rightarrow> string \<Rightarrow> service \<Rightarrow> attachment api \<times> service" where
  "complete_presigned_upload backend p aid declared sv =
     attempt (unprocessable (length declared = 64 \<and> list_all lower_hex declared)) sv (\<lambda>_.
     attempt (authenticated_principal p) sv (\<lambda>p.
     attempt (owned_attachment (sv_cv sv) p aid) sv (\<lambda>a.
       if file_status a \<noteq> FILE_PENDING then (Inl (Http 409 ''attachment is not pending''), sv)
       else case backend of
         LocalBlobs _ \<Rightarrow> (Inl (Http 409 ''local uploads complete with the PUT request''), sv)
       | NoBlobs \<Rightarrow> (Inl (Http 503 ''object storage is not configured''), sv)
       | MinioBlobs cfg bucket sha256 scan \<Rightarrow>
           (case dict_get (sv_objects sv) (file_id a) of
              None \<Rightarrow> (Inl (Uncaught (LookupError ''NoSuchKey'')), sv)
            | Some obj \<Rightarrow>
                let content = concat (mo_chunks obj); server = sha256 content in
                (case completion_problem sha256 a declared obj of
                   Some (detail, checksum) \<Rightarrow> reject_completion a detail checksum sv
                 | None \<Rightarrow> (case scan content of
                       Inl e \<Rightarrow> reject_completion a (''malware scan failed: '' @ error_message e) (Some server) sv
                     | Inr sc \<Rightarrow>
                         let sv1 = (if sc_status sc = ScanClean then sv else drop_object (file_id a) sv);
                             saved = save_attachment (scanned_attachment a bucket server sc) (sv_cv sv1)
                         in (fst saved, sv1\<lparr>sv_cv := snd saved\<rparr>)))))))"

definition get_attachment :: "principal option \<Rightarrow> string \<Rightarrow> conversations \<Rightarrow> attachment api" where
  "get_attachment p aid cv = (case authenticated_principal p of
     Inl e \<Rightarrow> Inl e | Inr p \<Rightarrow> owned_attachment cv p aid)"

text \<open>The content a local download streams; for an object store the client is redirected.\<close>

definition download_attachment ::
  "blob_env \<Rightarrow> principal option \<Rightarrow> string \<Rightarrow> service \<Rightarrow> string api" where
  "download_attachment env p aid sv = (case get_attachment p aid (sv_cv sv) of
       Inl e \<Rightarrow> Inl e
     | Inr a \<Rightarrow>
         if file_status a \<noteq> FILE_READY then Inl (Http 409 ''attachment is not ready'')
         else case blob_path (be_root env) (file_id a) of
           Inl e \<Rightarrow> Inl (Uncaught e)
         | Inr path \<Rightarrow> (case dict_get (sv_files sv) path of
               None \<Rightarrow> Inl (Uncaught (LookupError ''file'')) | Some content \<Rightarrow> Inr content))"

definition delete_blob :: "blob_backend \<Rightarrow> string \<Rightarrow> service \<Rightarrow> unit result \<times> service" where
  "delete_blob backend key sv = (case backend of
       NoBlobs \<Rightarrow> (Inr (), sv)
     | LocalBlobs env \<Rightarrow> (case local_delete env key (sv_files sv) of (r, fs) \<Rightarrow> (r, sv\<lparr>sv_files := fs\<rparr>))
     | MinioBlobs _ _ _ _ \<Rightarrow> (Inr (), drop_object key sv))"

definition delete_attachment ::
  "blob_backend \<Rightarrow> principal option \<Rightarrow> string \<Rightarrow> service \<Rightarrow> string api \<times> service" where
  "delete_attachment backend p aid sv =
     attempt (authenticated_principal p) sv (\<lambda>p.
     attempt (owned_attachment (sv_cv sv) p aid) sv (\<lambda>a.
       case delete_blob backend (file_id a) sv of
         (Inl e, sv1) \<Rightarrow> (Inl (Uncaught e), sv1)
       | (Inr _, sv1) \<Rightarrow> (Inr (file_id a), sv1\<lparr>sv_cv := (sv_cv sv1)\<lparr>cv_attachments :=
             snd (attachment_delete (file_id a) (cv_attachments (sv_cv sv1)))\<rparr>\<rparr>)))"

section \<open>Ready attachments are verified\<close>

definition attachments_ok :: "attachment store \<Rightarrow> bool" where
  "attachments_ok d = (\<forall>k a. dict_get d k = Some a \<longrightarrow> ready_requires_verified_clean_scan a = Inr a)"

lemma attachments_ok_set:
  "attachments_ok d \<Longrightarrow> ready_requires_verified_clean_scan a = Inr a \<Longrightarrow> attachments_ok (dict_set d k a)"
  by (auto simp: attachments_ok_def split: if_splits)

lemma verified_update_Inr:
  assumes "attachment_update a d = Inr (b, d')"
  shows "b = a \<and> d' = dict_set d (file_id a) a \<and> ready_requires_verified_clean_scan a = Inr a"
proof -
  have "ready_requires_verified_clean_scan a = Inr a"
    using assms ready_requires_Inr [of a] by (cases "ready_requires_verified_clean_scan a")
      (auto simp: attachment_update_def)
  with attachments.update_ok [OF assms] show ?thesis by simp
qed

lemma save_attachment_cases:
  obtains e where "save_attachment a cv = (Inl e, cv)"
  | "save_attachment a cv = (Inr a, cv\<lparr>cv_attachments := dict_set (cv_attachments cv) (file_id a) a\<rparr>)"
    "ready_requires_verified_clean_scan a = Inr a"
proof (cases "attachment_update a (cv_attachments cv)")
  case (Inl e)
  then show ?thesis using that(1) by (simp add: save_attachment_def)
next
  case (Inr bd)
  obtain b d where bd: "bd = (b, d)" by (meson surj_pair)
  from verified_update_Inr [OF Inr [unfolded bd]] Inr bd that(2) show ?thesis
    by (simp add: save_attachment_def)
qed

lemma save_attachment_Inr:
  assumes "save_attachment a cv = (Inr b, cv')"
  shows "b = a \<and> cv' = cv\<lparr>cv_attachments := dict_set (cv_attachments cv) (file_id a) a\<rparr>"
  by (rule save_attachment_cases [of a cv]) (use assms in auto)

lemma save_attachment_ok:
  "attachments_ok (cv_attachments cv) \<Longrightarrow> attachments_ok (cv_attachments (snd (save_attachment a cv)))"
  by (rule save_attachment_cases [of a cv]) (auto intro: attachments_ok_set)

lemma local_put_Inr_path:
  "local_put env key chunks ct n fs = (Inr r, fs') \<Longrightarrow> \<exists>dest. blob_path (be_root env) key = Inr dest"
  by (cases "blob_path (be_root env) key") (auto simp: local_put_def result_bind_def split: sum.splits)

lemma upload_finish_ok:
  "attachments_ok (cv_attachments cv) \<Longrightarrow> attachments_ok (cv_attachments (snd (upload_finish a r cv)))"
  by (simp add: upload_finish_def save_attachment_ok)

lemma upload_ok:
  assumes "attachments_ok (cv_attachments (sv_cv sv))"
  shows "attachments_ok (cv_attachments (sv_cv (snd (upload_attachment_content b p aid h chunks sv))))"
proof (cases "upload_begin b p aid h (sv_cv sv)")
  case (Inr ea)
  obtain env a where ea: "ea = (env, a)" by (meson surj_pair)
  obtain r fs where "local_put env (file_id a) chunks (file_content_type a) (Some (int (file_size_bytes a)))
      (sv_files sv) = (r, fs)" by (meson surj_pair)
  then show ?thesis using Inr ea assms upload_finish_ok [OF assms]
    by (cases r) (auto simp: upload_attachment_content_def case_prod_beta)
qed (simp add: upload_attachment_content_def assms)

lemma reject_ok:
  assumes "attachments_ok (cv_attachments (sv_cv sv))"
  shows "attachments_ok (cv_attachments (sv_cv (snd (reject_completion a detail c sv))))"
  by (rule save_attachment_cases [of "a\<lparr>file_storage_uri := None, file_checksum_sha256 := c,
        file_status := FILE_FAILED, file_scan_status := SCAN_FAILED, file_scan_detail := detail\<rparr>" "sv_cv sv"])
    (use assms in \<open>auto simp: reject_completion_def drop_object_def Let_def intro: attachments_ok_set\<close>)

lemma complete_ok:
  assumes "attachments_ok (cv_attachments (sv_cv sv))"
  shows "attachments_ok (cv_attachments (sv_cv (snd (complete_presigned_upload b p aid declared sv))))"
  using assms save_attachment_ok reject_ok [OF assms]
  by (auto simp: complete_presigned_upload_def attempt_def drop_object_def Let_def
      split: sum.splits blob_backend.splits option.splits)

lemma initiate_ok:
  assumes "attachments_ok (cv_attachments cv)"
  shows "attachments_ok (cv_attachments (snd (initiate_attachment b g p now aid tid fn ct n cv)))"
proof -
  have "attachments_ok d" if "attachment_create a (cv_attachments cv) = Inr (x, d)" for a x d
    using that attachments.create_ok [OF that] assms ready_requires_Inr [of a]
    by (cases "ready_requires_verified_clean_scan a") (auto simp: attachment_create_def attachments_ok_def
        split: if_splits)
  then show ?thesis using assms
    by (auto simp: initiate_attachment_def attempt_def uncaught_def split: sum.splits option.splits)
qed

lemma delete_blob_cv: "sv_cv (snd (delete_blob b k sv)) = sv_cv sv"
  by (auto simp: delete_blob_def drop_object_def split: blob_backend.splits prod.splits)

lemma delete_ok:
  assumes "attachments_ok (cv_attachments (sv_cv sv))"
  shows "attachments_ok (cv_attachments (sv_cv (snd (delete_attachment b p aid sv))))"
proof -
  have deleted: "attachments_ok (snd (attachment_delete k (cv_attachments (sv_cv sv))))" for k
  proof (cases "dict_get (cv_attachments (sv_cv sv)) k")
    case (Some a)
    then have "ready_requires_verified_clean_scan a = Inr a" using assms by (simp add: attachments_ok_def)
    then have "ready_requires_verified_clean_scan (a\<lparr>file_status := FILE_DELETED\<rparr>) = Inr (a\<lparr>file_status := FILE_DELETED\<rparr>)"
      by (auto simp: ready_requires_verified_clean_scan_def split: if_splits)
    then show ?thesis using Some assms by (simp add: attachment_delete_def attachments_ok_set)
  qed (simp add: attachment_delete_def assms)
  show ?thesis
  proof (cases "\<exists>pr a. authenticated_principal p = Inr pr \<and> owned_attachment (sv_cv sv) pr aid = Inr a")
    case True
    then obtain pr a where "authenticated_principal p = Inr pr" "owned_attachment (sv_cv sv) pr aid = Inr a"
      by blast
    moreover obtain r sv1 where "delete_blob b (file_id a) sv = (r, sv1)" by (meson surj_pair)
    ultimately show ?thesis using deleted assms delete_blob_cv [of b "file_id a" sv]
      by (cases r) (simp_all add: delete_attachment_def)
  qed (use assms in \<open>auto simp: delete_attachment_def attempt_def split: sum.splits\<close>)
qed

lemma associated_is_valid:
  "ready_requires_verified_clean_scan a = Inr a \<Longrightarrow>
     ready_requires_verified_clean_scan (a\<lparr>file_message_id := m\<rparr>) = Inr (a\<lparr>file_message_id := m\<rparr>)"
  by (auto simp: ready_requires_verified_clean_scan_def split: if_splits)

lemma associate_ok:
  assumes "attachments_ok d"
  shows "attachments_ok (snd (associate_many ids mid tid ws u d))"
proof -
  have "attachments_ok (foldl (\<lambda>d x. case x of None \<Rightarrow> d
      | Some item \<Rightarrow> dict_set d (file_id item) (item\<lparr>file_message_id := Some mid\<rparr>)) d' xs)"
    if "attachments_ok d'" "\<forall>x \<in> set xs. \<forall>item. x = Some item \<longrightarrow> ready_requires_verified_clean_scan item = Inr item"
    for d' xs
    using that
  proof (induction xs arbitrary: d')
    case (Cons x xs)
    then show ?case
      by (cases x) (auto intro!: Cons.IH attachments_ok_set associated_is_valid)
  qed simp
  moreover have "\<forall>x \<in> set (map (dict_get d) (dedupe ids)). \<forall>item. x = Some item \<longrightarrow>
      ready_requires_verified_clean_scan item = Inr item"
    using assms by (auto simp: attachments_ok_def)
  ultimately show ?thesis using assms by (simp add: associate_many_def Let_def)
qed

lemma upload_begin_Inr:
  assumes "upload_begin b p aid h cv = Inr (env, a)"
  shows "b = LocalBlobs env \<and> file_status a = FILE_PENDING
    \<and> (\<exists>pr. authenticated_principal p = Inr pr \<and> owned_attachment cv pr aid = Inr a)"
  using assms by (auto simp: upload_begin_def Let_def split: sum.splits blob_backend.splits if_splits)

lemma owned_attachment_Inr:
  "owned_attachment cv p aid = Inr a \<longleftrightarrow>
     dict_get (cv_attachments cv) aid = Some a \<and> file_workspace_id a = workspace_id p
     \<and> file_owner_user_id a = user_id p"
  by (auto simp: owned_attachment_def attachment_get_def owns_def can_access_workspace_def
      split: option.splits if_splits)

text \<open>What a successful local upload did.\<close>

lemma upload_success:
  assumes "upload_attachment_content b p aid h chunks sv = (Inr a', sv')" "file_status a' = FILE_READY"
  obtains env a r where "b = LocalBlobs env" "upload_begin b p aid h (sv_cv sv) = Inr (env, a)"
    "local_put env (file_id a) chunks (file_content_type a) (Some (int (file_size_bytes a))) (sv_files sv)
       = (Inr r, sv_files sv')"
    "sc_status (bw_scan r) = ScanClean" "upload_finish a r (sv_cv sv) = (Inr a', sv_cv sv')"
proof -
  obtain env a where start: "upload_begin b p aid h (sv_cv sv) = Inr (env, a)"
    using assms(1) by (cases "upload_begin b p aid h (sv_cv sv)") (auto simp: upload_attachment_content_def)
  obtain res fs where put: "local_put env (file_id a) chunks (file_content_type a)
      (Some (int (file_size_bytes a))) (sv_files sv) = (res, fs)" by (meson surj_pair)
  then obtain r where r: "res = Inr r"
    using assms(1) start by (cases res) (auto simp: upload_attachment_content_def)
  have fin: "upload_finish a r (sv_cv sv) = (Inr a', sv_cv sv')" "fs = sv_files sv'"
    using assms(1) start put r
    by (auto simp: upload_attachment_content_def case_prod_beta prod_eq_iff)
  moreover have "sc_status (bw_scan r) = ScanClean"
  proof (rule ccontr)
    assume "sc_status (bw_scan r) \<noteq> ScanClean"
    then have "file_status a' = FILE_FAILED"
      using save_attachment_Inr [OF fin(1) [unfolded upload_finish_def]] by simp
    with assms(2) show False by simp
  qed
  ultimately show ?thesis using that start put r upload_begin_Inr [OF start] by blast
qed

text \<open>C20. What was uploaded is what is downloaded: when an upload to the local store ends with a READY
  attachment, its content had the declared size, its recorded digest is the digest of the content,
  it scanned clean, and a download by the same user returns exactly the uploaded bytes.\<close>

theorem upload_download_roundtrip:
  assumes "upload_attachment_content (LocalBlobs env) p aid h chunks sv = (Inr a', sv')"
    and "file_status a' = FILE_READY" and "keyed file_id (cv_attachments (sv_cv sv))"
    and "0 \<le> max_size_bytes (be_config env)"
  shows "download_attachment env p aid sv' = Inr (concat chunks)
    \<and> length (concat chunks) = file_size_bytes a'
    \<and> file_checksum_sha256 a' = Some (be_sha256 env (concat chunks))
    \<and> sc_status (be_scan env (concat chunks)) = ScanClean"
proof -
  obtain a r where start: "upload_begin (LocalBlobs env) p aid h (sv_cv sv) = Inr (env, a)"
    and put: "local_put env (file_id a) chunks (file_content_type a) (Some (int (file_size_bytes a)))
        (sv_files sv) = (Inr r, sv_files sv')"
    and clean: "sc_status (bw_scan r) = ScanClean"
    and fin: "upload_finish a r (sv_cv sv) = (Inr a', sv_cv sv')"
    using upload_success [OF assms(1,2)] upload_begin_Inr by (metis blob_backend.inject(1))
  obtain dest where dest: "blob_path (be_root env) (file_id a) = Inr dest"
    using local_put_Inr_path [OF put] by blast
  have spec: "int (file_size_bytes a) = int (length (concat chunks))"
    "bw_size_bytes r = int (length (concat chunks))" "bw_checksum_sha256 r = be_sha256 env (concat chunks)"
    "bw_scan r = be_scan env (concat chunks)" "dict_get (sv_files sv') dest = Some (concat chunks)"
    using local_put_spec [OF put dest assms(4)] clean by simp_all
  obtain pr where pr: "authenticated_principal p = Inr pr"
    and own: "dict_get (cv_attachments (sv_cv sv)) aid = Some a" "file_workspace_id a = workspace_id pr"
      "file_owner_user_id a = user_id pr"
    using upload_begin_Inr [OF start] by (auto simp: owned_attachment_Inr)
  have "file_id a = aid" using keyed_get [OF assms(3) own(1)] .
  note a' = save_attachment_Inr [OF fin [unfolded upload_finish_def]]
  have fields: "file_id a' = aid" "file_workspace_id a' = workspace_id pr" "file_owner_user_id a' = user_id pr"
    "file_size_bytes a' = length (concat chunks)"
    "file_checksum_sha256 a' = Some (be_sha256 env (concat chunks))"
    using a' \<open>file_id a = aid\<close> own(2,3) spec(2,3) by simp_all
  have "dict_get (cv_attachments (sv_cv sv')) aid = Some a'" using a' \<open>file_id a = aid\<close> by simp
  then have "owned_attachment (sv_cv sv') pr aid = Inr a'" by (simp add: owned_attachment_Inr fields)
  then show ?thesis
    using pr assms(2) dest spec(4,5) clean \<open>file_id a = aid\<close>
    by (simp add: download_attachment_def get_attachment_def fields)
qed

lemma save_succeeds:
  assumes "dict_get (cv_attachments cv) (file_id a) = Some e" "file_workspace_id e = file_workspace_id a"
    "file_owner_user_id e = file_owner_user_id a" "ready_requires_verified_clean_scan a = Inr a"
  shows "save_attachment a cv = (Inr a, cv\<lparr>cv_attachments := dict_set (cv_attachments cv) (file_id a) a\<rparr>)"
  using assms by (simp add: save_attachment_def attachment_update_def)

lemma failed_is_valid:
  "file_status a = FILE_FAILED \<Longrightarrow> checksum_ok (file_checksum_sha256 a) \<Longrightarrow>
     ready_requires_verified_clean_scan a = Inr a"
  by (simp add: ready_requires_verified_clean_scan_def)

lemma completion_problem_None:
  assumes "completion_problem sha a declared obj = None"
  shows "declared = sha (concat (mo_chunks obj)) \<and> length (concat (mo_chunks obj)) = file_size_bytes a
    \<and> mo_size obj = int (file_size_bytes a)
    \<and> normalize_content_type (case mo_content_type obj of None \<Rightarrow> [] | Some t \<Rightarrow> t) = Inr (file_content_type a)
    \<and> (str_truthy (stored_checksum obj) \<longrightarrow> stored_checksum obj = Some (sha (concat (mo_chunks obj))))"
  using assms by (auto simp: completion_problem_def Let_def split: if_splits sum.splits)

lemma completion_problem_checksum:
  assumes "completion_problem sha a declared obj = Some (detail, c)" "\<forall>x. checksum_ok (Some (sha x))"
  shows "checksum_ok c"
  using assms by (auto simp: completion_problem_def checksum_ok_def Let_def split: if_splits sum.splits)

lemma reject_completion_eq:
  assumes "dict_get (cv_attachments (sv_cv sv)) (file_id a) = Some a" "checksum_ok c"
  shows "\<exists>b. file_status b = FILE_FAILED \<and> reject_completion a detail c sv =
    (Inl (Http 409 detail), (drop_object (file_id a) sv)\<lparr>sv_cv := (sv_cv sv)\<lparr>cv_attachments :=
       dict_set (cv_attachments (sv_cv sv)) (file_id a) b\<rparr>\<rparr>)"
proof -
  define b where "b = a\<lparr>file_storage_uri := None, file_checksum_sha256 := c, file_status := FILE_FAILED,
      file_scan_status := SCAN_FAILED, file_scan_detail := detail\<rparr>"
  have "save_attachment b (sv_cv (drop_object (file_id a) sv)) = (Inr b, (sv_cv sv)\<lparr>cv_attachments :=
      dict_set (cv_attachments (sv_cv sv)) (file_id a) b\<rparr>)"
    using save_succeeds [of "sv_cv sv" b a] failed_is_valid [of b] assms by (simp add: b_def drop_object_def)
  then have "reject_completion a detail c sv =
      (Inl (Http 409 detail), (drop_object (file_id a) sv)\<lparr>sv_cv := (sv_cv sv)\<lparr>cv_attachments :=
       dict_set (cv_attachments (sv_cv sv)) (file_id a) b\<rparr>\<rparr>)"
    unfolding reject_completion_def Let_def b_def [symmetric] by simp
  then show ?thesis by (intro exI [of _ b]) (simp add: b_def)
qed

text \<open>C21. An object-store upload is completed only when its content was verified: a READY result means
  that the stored object has the declared size and type, that its stream has that size and the
  declared digest, which the digest the object was stored with does not contradict, and that the scan
  was clean. Every rejected completion removes the object and marks the attachment FAILED.\<close>

theorem completed_upload_is_verified:
  assumes "complete_presigned_upload (MinioBlobs cfg bucket sha scan) p aid declared sv = (res, sv')"
    and "owned_attachment (sv_cv sv) pr aid = Inr a" "authenticated_principal p = Inr pr"
    and "file_status a = FILE_PENDING" "dict_get (sv_objects sv) (file_id a) = Some obj"
    and "length declared = 64 \<and> list_all lower_hex declared" "\<forall>c. checksum_ok (Some (sha c))"
    and "keyed file_id (cv_attachments (sv_cv sv))"
  shows "(\<forall>a'. res = Inr a' \<and> file_status a' = FILE_READY \<longrightarrow>
        declared = sha (concat (mo_chunks obj)) \<and> length (concat (mo_chunks obj)) = file_size_bytes a
        \<and> mo_size obj = int (file_size_bytes a)
        \<and> normalize_content_type (case mo_content_type obj of None \<Rightarrow> [] | Some t \<Rightarrow> t) = Inr (file_content_type a)
        \<and> (str_truthy (stored_checksum obj) \<longrightarrow> stored_checksum obj = Some (sha (concat (mo_chunks obj))))
        \<and> (\<exists>sc. scan (concat (mo_chunks obj)) = Inr sc \<and> sc_status sc = ScanClean)
        \<and> sv_objects sv' = sv_objects sv)
    \<and> ((\<forall>a'. res = Inr a' \<longrightarrow> file_status a' \<noteq> FILE_READY) \<longrightarrow>
        dict_get (sv_objects sv') (file_id a) = None
        \<and> (\<exists>a'. dict_get (cv_attachments (sv_cv sv')) (file_id a) = Some a' \<and> file_status a' = FILE_FAILED))"
proof -
  let ?content = "concat (mo_chunks obj)"
  have a: "dict_get (cv_attachments (sv_cv sv)) (file_id a) = Some a"
    using assms(2) keyed_get [OF assms(8), of aid a] by (auto simp: owned_attachment_Inr)
  have rejected: ?thesis if "reject_completion a detail c sv = (res, sv')" "checksum_ok c" for detail c
    using reject_completion_eq [OF a that(2), of detail] that(1) by (auto simp: drop_object_def)
  note run = assms(1) [unfolded complete_presigned_upload_def unprocessable_def] assms(2-6)
  show ?thesis
  proof (cases "completion_problem sha a declared obj")
    case (Some dc)
    obtain detail c where dc: "dc = (detail, c)" by (meson surj_pair)
    have "reject_completion a detail c sv = (res, sv')" using run Some dc by (simp add: Let_def)
    then show ?thesis using rejected completion_problem_checksum [OF Some [unfolded dc] assms(7)] by blast
  next
    case None
    show ?thesis
    proof (cases "scan ?content")
      case (Inl e)
      have "reject_completion a (''malware scan failed: '' @ error_message e) (Some (sha ?content)) sv
          = (res, sv')" using run None Inl by (simp add: Let_def)
      then show ?thesis using rejected assms(7) by blast
    next
      case (Inr sc)
      define b where "b = scanned_attachment a bucket (sha ?content) sc"
      have "sha ?content \<noteq> []" using assms(7) [rule_format, of ?content] by (auto simp: checksum_ok_def)
      then have "ready_requires_verified_clean_scan b = Inr b" using assms(7)
        by (auto simp: ready_requires_verified_clean_scan_def b_def scanned_attachment_def Let_def)
      then have save: "save_attachment b cv = (Inr b, cv\<lparr>cv_attachments :=
          dict_set (cv_attachments cv) (file_id a) b\<rparr>)" if "cv = sv_cv sv" for cv
        using save_succeeds [of "sv_cv sv" b a] a that by (simp add: b_def scanned_attachment_def Let_def)
      have "res = Inr b" "sv' = (if sc_status sc = ScanClean then sv else drop_object (file_id a) sv)
          \<lparr>sv_cv := (sv_cv sv)\<lparr>cv_attachments := dict_set (cv_attachments (sv_cv sv)) (file_id a) b\<rparr>\<rparr>"
        using run None Inr by (auto simp: b_def [symmetric] save drop_object_def Let_def)
      then show ?thesis using completion_problem_None [OF None] Inr
        by (auto simp: b_def scanned_attachment_def drop_object_def Let_def)
    qed
  qed
qed

text \<open>The upload handler writes back the record it read before it awaited the body. An attachment
  that its owner deletes while the body is still arriving is READY again when the upload ends.\<close>

theorem inflight_upload_revives_deleted:
  assumes "upload_begin b p aid h cv = Inr (env, a)" "keyed file_id (cv_attachments cv)"
    and "sc_status (bw_scan r) = ScanClean" "checksum_ok (Some (bw_checksum_sha256 r))"
    and "cv1 = cv\<lparr>cv_attachments := snd (attachment_delete aid (cv_attachments cv))\<rparr>"
  shows "map_option file_status (dict_get (cv_attachments cv1) aid) = Some FILE_DELETED
    \<and> map_option file_status (dict_get (cv_attachments (snd (upload_finish a r cv1))) aid) = Some FILE_READY"
proof -
  have a: "dict_get (cv_attachments cv) aid = Some a" "file_id a = aid"
    using upload_begin_Inr [OF assms(1)] keyed_get [OF assms(2), of aid a] by (auto simp: owned_attachment_Inr)
  define a' where "a' = a\<lparr>file_size_bytes := nat (bw_size_bytes r),
       file_storage_uri := Some (''file:///'' @ join ''/'' (bw_path r)),
       file_checksum_sha256 := Some (bw_checksum_sha256 r), file_status := FILE_READY,
       file_scan_status := SCAN_CLEAN, file_scan_detail := sc_detail (bw_scan r)\<rparr>"
  have "bw_checksum_sha256 r \<noteq> []" using assms(4) by (auto simp: checksum_ok_def)
  then have "ready_requires_verified_clean_scan a' = Inr a'"
    using assms(4) by (simp add: a'_def ready_requires_verified_clean_scan_def)
  moreover have del: "dict_get (cv_attachments cv1) aid = Some (a\<lparr>file_status := FILE_DELETED\<rparr>)"
    using a by (simp add: assms(5) attachment_delete_def)
  ultimately have "save_attachment a' cv1 =
      (Inr a', cv1\<lparr>cv_attachments := dict_set (cv_attachments cv1) (file_id a') a'\<rparr>)"
    using a(2) by (intro save_succeeds [of cv1 a' "a\<lparr>file_status := FILE_DELETED\<rparr>"]) (simp_all add: a'_def)
  moreover have "upload_finish a r cv1 = save_attachment a' cv1"
    using assms(3) by (simp add: upload_finish_def a'_def)
  ultimately show ?thesis using del a(2) by (simp add: a'_def)
qed

text \<open>Every attachment that is READY has a clean scan, a storage address and a checksum, whatever
  sequence of declarations, uploads, completions, deletions and associations led to it: each
  handler keeps this.\<close>

theorem ready_attachments_stay_verified:
  assumes "attachments_ok (cv_attachments (sv_cv sv))"
  shows "attachments_ok (cv_attachments (snd (initiate_attachment b g p now aid tid fn ct n (sv_cv sv))))
    \<and> attachments_ok (cv_attachments (sv_cv (snd (upload_attachment_content b p aid h chunks sv))))
    \<and> attachments_ok (cv_attachments (sv_cv (snd (complete_presigned_upload b p aid declared sv))))
    \<and> attachments_ok (cv_attachments (sv_cv (snd (delete_attachment b p aid sv))))
    \<and> attachments_ok (snd (associate_many ids mid tid ws u (cv_attachments (sv_cv sv))))"
  using assms by (simp add: initiate_ok upload_ok complete_ok delete_ok associate_ok)

section \<open>Concrete uploads\<close>

definition hex_digest :: "string \<Rightarrow> string" where
  "hex_digest content = replicate 64 CHR ''a''"

lemma hex_digest_ok: "checksum_ok (Some (hex_digest c))" "hex_digest c \<noteq> []"
  by (simp_all add: checksum_ok_def hex_digest_def is_hex_digit_def list_all_iff)

definition clean_blobs :: blob_env where
  "clean_blobs = (sample_blobs ScanClean)\<lparr>be_sha256 := hex_digest\<rparr>"

definition pending_attachment :: attachment where
  "pending_attachment = (sample_attachment ''f1'' SCAN_PENDING)\<lparr>file_status := FILE_PENDING, file_size_bytes := 3,
     file_storage_uri := None, file_checksum_sha256 := None\<rparr>"

definition uploader :: principal where
  "uploader = \<lparr>principal_id = ''u'', workspace_id = ''w'', user_id = ''u'', authenticated = True,
     auth_method = SHARED_API_KEY, roles = []\<rparr>"

definition upload_service :: service where
  "upload_service = \<lparr>sv_cv = \<lparr>cv_threads = [], cv_messages = [], cv_runs = empty_run_store, cv_artifacts = [],
       cv_attachments = [(''f1'', pending_attachment)], cv_memories = empty_memory_store, cv_summaries = []\<rparr>,
     sv_missions = \<lparr>mw_store = empty_mission_store, mw_flags = {}\<rparr>, sv_files = [],
     sv_objects = [(''f1'', \<lparr>mo_size = 3, mo_content_type = Some ''text/plain'', mo_metadata = [],
       mo_chunks = [''ab'', ''c'']\<rparr>)]\<rparr>"

lemmas sample_defs = upload_service_def pending_attachment_def uploader_def sample_attachment_def
  authenticated_principal_def api_principal_def owned_attachment_def attachment_get_def owns_def
  can_access_workspace_def

lemma upload_service_keyed: "keyed file_id (cv_attachments (sv_cv upload_service))"
  by (simp add: upload_service_def pending_attachment_def sample_attachment_def keyed_def dict_wf_def)

lemma sample_begin:
  "upload_begin (LocalBlobs clean_blobs) (Some uploader) ''f1'' ''text/plain'' (sv_cv upload_service)
     = Inr (clean_blobs, pending_attachment)"
  by (simp add: upload_begin_def sample_defs before_semicolon_def str_lower_def lower_char_def Let_def)

theorem inflight_upload_revives_deleted_witness:
  "map_option file_status (dict_get (cv_attachments (snd (upload_finish pending_attachment
       \<lparr>bw_path = [''d'', ''f1''], bw_size_bytes = 3, bw_checksum_sha256 = hex_digest ''abc'',
        bw_scan = \<lparr>sc_status = ScanClean, sc_detail = []\<rparr>\<rparr>
       ((sv_cv upload_service)\<lparr>cv_attachments := snd (attachment_delete ''f1''
         (cv_attachments (sv_cv upload_service)))\<rparr>)))) ''f1'') = Some FILE_READY"
  using inflight_upload_revives_deleted [OF sample_begin upload_service_keyed, of
      "\<lparr>bw_path = [''d'', ''f1''], bw_size_bytes = 3, bw_checksum_sha256 = hex_digest ''abc'',
        bw_scan = \<lparr>sc_status = ScanClean, sc_detail = []\<rparr>\<rparr>", OF _ _ refl]
  by (simp add: hex_digest_ok)

theorem ready_attachments_stay_verified_witness:
  "attachments_ok (cv_attachments (sv_cv (snd (upload_attachment_content (LocalBlobs clean_blobs) (Some uploader)
     ''f1'' ''text/plain'' [''ab'', ''c''] upload_service))))"
proof -
  have "attachments_ok (cv_attachments (sv_cv upload_service))"
    by (auto simp: attachments_ok_def upload_service_def pending_attachment_def sample_attachment_def
        ready_requires_verified_clean_scan_def checksum_ok_def split: if_splits)
  from ready_attachments_stay_verified [OF this] show ?thesis by blast
qed

theorem upload_download_roundtrip_witness:
  "download_attachment clean_blobs (Some uploader) ''f1'' (snd (upload_attachment_content (LocalBlobs clean_blobs)
     (Some uploader) ''f1'' ''text/plain'' [''ab'', ''c''] upload_service)) = Inr ''abc''"
proof -
  have path: "blob_path [''d''] ''f1'' = Inr [''d'', ''f1'']"
    by (simp add: blob_path_def safe_blob_key_def strip_slash_def forward_slashes_def path_parts_def
        path_str_def str_startswith_def resolve_def Let_def)
  have meta: "validate_blob_metadata (\<lambda>_. None) \<lparr>max_size_bytes = 10, allowed_mime_types = default_allowed_mime_types\<rparr>
      (path_name ''f1'') ''text/plain'' (Some 3) = Inr ''text/plain''"
    by (simp add: validate_blob_metadata_def normalize_content_type_def before_semicolon_def
        default_allowed_mime_types_def str_strip_def str_lower_def is_space_def lower_char_def Let_def)
  obtain a' sv' where up: "upload_attachment_content (LocalBlobs clean_blobs) (Some uploader) ''f1'' ''text/plain''
      [''ab'', ''c''] upload_service = (Inr a', sv')" and "file_status a' = FILE_READY"
    unfolding upload_attachment_content_def sample_begin
    by (simp add: local_put_def clean_blobs_def sample_blobs_def path meta verify_blob_size_def
        upload_finish_def save_attachment_def attachment_update_def ready_requires_verified_clean_scan_def
        hex_digest_ok upload_service_def pending_attachment_def
        sample_attachment_def Let_def)
  from upload_download_roundtrip [OF this upload_service_keyed] up show ?thesis
    by (simp add: clean_blobs_def sample_blobs_def)
qed

theorem completed_upload_is_verified_witness:
  "dict_get (sv_objects (snd (complete_presigned_upload (MinioBlobs (be_config clean_blobs) ''b'' hex_digest
       (\<lambda>_. Inr \<lparr>sc_status = ScanQuarantined, sc_detail = []\<rparr>)) (Some uploader) ''f1'' (hex_digest [])
       upload_service))) ''f1'' = None"
proof -
  let ?scan = "\<lambda>_ :: string. Inr \<lparr>sc_status = ScanQuarantined, sc_detail = []\<rparr> :: scan_result result"
  let ?run = "complete_presigned_upload (MinioBlobs (be_config clean_blobs) ''b'' hex_digest ?scan) (Some uploader)
      ''f1'' (hex_digest []) upload_service"
  let ?obj = "\<lparr>mo_size = 3, mo_content_type = Some ''text/plain'', mo_metadata = [], mo_chunks = [''ab'', ''c'']\<rparr>"
  have "owned_attachment (sv_cv upload_service) uploader ''f1'' = Inr pending_attachment"
    "authenticated_principal (Some uploader) = Inr uploader" "file_status pending_attachment = FILE_PENDING"
    "dict_get (sv_objects upload_service) (file_id pending_attachment) = Some ?obj"
    by (simp_all add: sample_defs)
  moreover have "length (hex_digest []) = 64 \<and> list_all lower_hex (hex_digest [])"
    by (simp add: hex_digest_def lower_hex_def list_all_iff)
  moreover have "\<forall>c. checksum_ok (Some (hex_digest c))" by (simp add: hex_digest_ok)
  ultimately have "\<not> (\<exists>a'. fst ?run = Inr a' \<and> file_status a' = FILE_READY)"
    "(\<forall>a'. fst ?run = Inr a' \<longrightarrow> file_status a' \<noteq> FILE_READY) \<longrightarrow> dict_get (sv_objects (snd ?run)) ''f1'' = None"
    using completed_upload_is_verified [of "be_config clean_blobs" "''b''" hex_digest ?scan "Some uploader" "''f1''"
        "hex_digest []" upload_service "fst ?run" "snd ?run" uploader pending_attachment ?obj] upload_service_keyed
    by (auto simp: pending_attachment_def sample_attachment_def)
  then show ?thesis by blast
qed

end
