(* ===== verification/Event_Stream.thy ===== *)
theory Event_Stream
  imports Conversation_Api Recovery
begin

text \<open>
  The event stream of a run, \<^verbatim>\<open>stream_run_events\<close> of \<^verbatim>\<open>api/conversations.py\<close>: the generator that
  polls the run's log from a cursor, delivers what the principal may see, and ends when the run is
  terminal or the client is gone. Between two reads of the repository anything may happen to it,
  so a round of the loop is given the states of its two reads; the text of the frames and the wait
  between rounds are left out.
\<close>

section \<open>The generator\<close>

record stream_round =
  sr_listing :: run_store
  sr_status :: run_store
  sr_disconnected :: bool

text \<open>One round: the events delivered, the new cursor, and whether the stream ends.\<close>

definition run_finished :: "run_store \<Rightarrow> string \<Rightarrow> bool" where
  "run_finished rs rid = (case dict_get (rs_items rs) rid of
     None \<Rightarrow> True | Some r \<Rightarrow> run_status r \<in> {COMPLETED, FAILED, CANCELLED})"

definition advance :: "nat \<Rightarrow> activity_event list \<Rightarrow> nat" where
  "advance cursor events = foldl (\<lambda>c e. max c (ev_sequence e)) cursor events"

definition stream_step ::
  "(string \<Rightarrow> string) \<Rightarrow> principal \<Rightarrow> string \<Rightarrow> nat \<Rightarrow> stream_round \<Rightarrow> activity_event list \<times> nat \<times> bool" where
  "stream_step rt p rid cursor rnd =
     (let events = list_events (sr_listing rnd) rid cursor in
      (public_events rt p events, advance cursor events,
       run_finished (sr_status rnd) rid \<or> sr_disconnected rnd))"

text \<open>All delivered events and the final cursor, with the state last listed and whether the stream
  has ended; rounds after the end do not happen.\<close>

fun stream_run ::
  "(string \<Rightarrow> string) \<Rightarrow> principal \<Rightarrow> string \<Rightarrow> nat \<Rightarrow> run_store \<Rightarrow> stream_round list
   \<Rightarrow> activity_event list \<times> nat \<times> run_store \<times> bool" where
  "stream_run rt p rid cursor listed [] = ([], cursor, listed, False)"
| "stream_run rt p rid cursor listed (rnd # rounds) =
     (case stream_step rt p rid cursor rnd of
        (out, cursor', True) \<Rightarrow> (out, cursor', sr_listing rnd, True)
      | (out, cursor', False) \<Rightarrow> (case stream_run rt p rid cursor' (sr_listing rnd) rounds of
            (rest, c, seen, ended) \<Rightarrow> (out @ rest, c, seen, ended)))"

definition stream_run_events ::
  "(string \<Rightarrow> string) \<Rightarrow> (string \<Rightarrow> int option) \<Rightarrow> principal option \<Rightarrow> string \<Rightarrow> string option \<Rightarrow> int
   \<Rightarrow> conversations \<Rightarrow> stream_round list \<Rightarrow> (activity_event list \<times> nat \<times> run_store \<times> bool) api" where
  "stream_run_events rt parse p rid last_event_id after_sequence cv rounds =
     (if after_sequence < 0 then Inl (Http 422 ''validation error'')
      else case authenticated_principal p of
        Inl e \<Rightarrow> Inl e
      | Inr p \<Rightarrow> (case owned_run cv p rid of
            Inl e \<Rightarrow> Inl e
          | Inr _ \<Rightarrow> Inr (stream_run rt p rid (nat (event_cursor parse last_event_id after_sequence))
              (cv_runs cv) rounds)))"

section \<open>Each event once, in order\<close>

text \<open>The repository only moves forward between the reads of a stream.\<close>

fun rounds_follow :: "run_store \<Rightarrow> stream_round list \<Rightarrow> bool" where
  "rounds_follow rs [] = True"
| "rounds_follow rs (rnd # rounds) =
     (run_steps rs (sr_listing rnd) \<and> run_steps (sr_listing rnd) (sr_status rnd)
      \<and> rounds_follow (sr_status rnd) rounds)"

lemma advance_sorted:
  assumes "sorted_wrt (<) (map ev_sequence es)" "\<forall>e \<in> set es. c < ev_sequence e"
  shows "advance c es = (if es = [] then c else ev_sequence (last es))"
  using assms
proof (induction es rule: rev_induct)
  case (snoc e es)
  then have "advance c es \<le> ev_sequence e"
    by (auto simp: sorted_wrt_append dest: last_in_set intro: less_imp_le)
  then show ?case by (simp add: advance_def)
qed (simp add: advance_def)

text \<open>Reading on from the cursor after a read is reading the grown log from the old cursor.\<close>

lemma list_events_resume:
  assumes "logs_ok (rs_events rs')" "run_events rs' rid = run_events rs rid @ new"
  shows "list_events rs' rid c = list_events rs rid c @ list_events rs' rid (advance c (list_events rs rid c))"
proof -
  let ?old = "run_events rs rid" and ?seen = "list_events rs rid c"
  have srt: "sorted_wrt (<) (map ev_sequence (?old @ new))"
    using assms(1) unfolding assms(2) [symmetric] by (simp add: logs_ok_def run_events_log)
  then have old: "sorted_wrt (<) (map ev_sequence ?old)" by (simp add: sorted_wrt_append)
  have "sorted_wrt (<) (map ev_sequence ?seen)"
    using old by (simp add: list_events_def sorted_wrt_map sorted_wrt_filter)
  then have adv: "advance c ?seen = (if ?seen = [] then c else ev_sequence (last ?seen))"
    by (intro advance_sorted) (auto simp: list_events_def)
  have below: "ev_sequence e \<le> advance c ?seen" if "e \<in> set ?old" for e
  proof (cases "c < ev_sequence e")
    case True
    then have "e \<in> set ?seen" using that by (simp add: list_events_def)
    moreover have "sorted (map ev_sequence ?seen)"
      using \<open>sorted_wrt (<) (map ev_sequence ?seen)\<close> by (simp add: strict_sorted_iff)
    ultimately show ?thesis unfolding adv using sorted_last by auto
  next
    case False
    moreover have "c \<le> advance c ?seen"
      unfolding adv using last_in_set [of ?seen] by (auto simp: list_events_def intro: less_imp_le)
    ultimately show ?thesis by simp
  qed
  have above: "advance c ?seen < ev_sequence e \<longleftrightarrow> c < ev_sequence e" if "e \<in> set new" for e
  proof (cases "?seen = []")
    case False
    then have "last ?seen \<in> set ?old" "c < ev_sequence (last ?seen)"
      using last_in_set [OF False] by (auto simp: list_events_def)
    with srt that have "ev_sequence (last ?seen) < ev_sequence e" by (auto simp: sorted_wrt_append)
    with False \<open>c < ev_sequence (last ?seen)\<close> show ?thesis by (simp add: adv)
  qed (simp add: adv advance_def)
  have "filter (\<lambda>e. advance c ?seen < ev_sequence e) ?old = []"
    using below by (auto simp: filter_empty_conv not_less)
  moreover have "filter (\<lambda>e. advance c ?seen < ev_sequence e) new = filter (\<lambda>e. c < ev_sequence e) new"
    using above by (rule filter_cong [OF HOL.refl])
  ultimately have "list_events rs' rid (advance c ?seen) = filter (\<lambda>e. c < ev_sequence e) new"
    by (simp add: list_events_def assms(2) del: filter_empty_conv)
  then show ?thesis by (simp add: list_events_def assms(2))
qed

lemma public_events_append: "public_events rt p (xs @ ys) = public_events rt p xs @ public_events rt p ys"
  by (simp add: public_events_def List.map_filter_def)

lemma stream_run_exact:
  assumes "logs_ok (rs_events rs)" "run_steps rs rs0" "rounds_follow rs0 rounds"
    "stream_run rt p rid (advance c (list_events rs rid c)) rs rounds = (out, c', listed, ended)"
  shows "public_events rt p (list_events rs rid c) @ out = public_events rt p (list_events listed rid c)
    \<and> c' = advance c (list_events listed rid c)"
  using assms
proof (induction rounds arbitrary: rs rs0 out)
  case (Cons rnd rounds)
  let ?l = "sr_listing rnd" and ?c = "advance c (list_events rs rid c)"
  have to: "run_steps rs ?l" using Cons.prems(2,3) by (auto intro: run_steps_trans)
  have ok: "logs_ok (rs_events ?l)" using run_steps_logs_ok [OF to] Cons.prems(1) by simp
  obtain new where "run_events ?l rid = run_events rs rid @ new" using run_steps_appends [OF to] by blast
  note resume = list_events_resume [OF ok this, of c]
  have adv: "advance ?c (list_events ?l rid ?c) = advance c (list_events ?l rid c)"
    using arg_cong [OF resume, of "advance c"] by (simp add: advance_def)
  have ev: "public_events rt p (list_events ?l rid c) =
      public_events rt p (list_events rs rid c) @ public_events rt p (list_events ?l rid ?c)"
    by (subst resume) (simp add: public_events_append)
  show ?case
  proof (cases "run_finished (sr_status rnd) rid \<or> sr_disconnected rnd")
    case True
    then show ?thesis using Cons.prems(4) ev adv by (auto simp: stream_step_def Let_def)
  next
    case False
    obtain rest where "stream_run rt p rid (advance c (list_events ?l rid c)) ?l rounds = (rest, c', listed, ended)"
      and "out = public_events rt p (list_events ?l rid ?c) @ rest"
      using False Cons.prems(4) adv by (auto simp: stream_step_def Let_def split: prod.splits)
    with Cons.IH [OF ok _ _ this(1), of "sr_status rnd"] Cons.prems(3) ev show ?thesis by simp
  qed
qed simp

lemma stream_run_listed:
  assumes "logs_ok (rs_events rs)" "run_steps rs rs0" "rounds_follow rs0 rounds"
    "stream_run rt p rid c rs rounds = (out, c', listed, ended)"
  shows "logs_ok (rs_events listed)"
  using assms
proof (induction rounds arbitrary: rs rs0 c out)
  case (Cons rnd rounds)
  have ok: "logs_ok (rs_events (sr_listing rnd))"
    using Cons.prems run_steps_logs_ok by (meson rounds_follow.simps(2))
  show ?case
  proof (cases "run_finished (sr_status rnd) rid \<or> sr_disconnected rnd")
    case True
    then show ?thesis using Cons.prems(4) ok by (auto simp: stream_step_def Let_def)
  next
    case False
    then obtain c2 rest where "stream_run rt p rid c2 (sr_listing rnd) rounds = (rest, c', listed, ended)"
      using Cons.prems(4) by (auto simp: stream_step_def Let_def split: prod.splits)
    with Cons.IH [OF ok] Cons.prems(3) show ?thesis by auto
  qed
qed simp

text \<open>C22. A stream is the log: whatever happens between its reads, the events it has delivered are, in
  order and each once, exactly the events that a single read of the state it last listed returns
  from the client's cursor, as far as the principal may see them.\<close>

theorem stream_delivers_log_once:
  assumes "runs_reachable rs0" and "rounds_follow rs0 rounds" and "rounds \<noteq> []"
    and "stream_run rt p rid c rs0 rounds = (out, c', listed, ended)"
  shows "out = public_events rt p (list_events listed rid c)
    \<and> sorted_wrt (<) (map ev_sequence (list_events listed rid c))"
proof -
  obtain rnd rest where r: "rounds = rnd # rest" using assms(3) by (cases rounds) auto
  let ?l = "sr_listing rnd"
  have ok: "logs_ok (rs_events ?l)"
    by (rule run_steps_logs_ok [OF _ reachable_logs_ok [OF assms(1)]]) (use assms(2) in \<open>simp add: r\<close>)
  have "out = public_events rt p (list_events listed rid c) \<and> logs_ok (rs_events listed)"
  proof (cases "run_finished (sr_status rnd) rid \<or> sr_disconnected rnd")
    case True
    then show ?thesis using assms(4) ok by (auto simp: r stream_step_def Let_def)
  next
    case False
    obtain out' where o: "stream_run rt p rid (advance c (list_events ?l rid c)) ?l rest = (out', c', listed, ended)"
      "out = public_events rt p (list_events ?l rid c) @ out'"
      using False assms(4) by (auto simp: r stream_step_def Let_def split: prod.splits)
    with stream_run_exact [OF ok _ _ o(1), of "sr_status rnd"] assms(2)
      stream_run_listed [OF ok _ _ o(1), of "sr_status rnd"] show ?thesis by (simp add: r)
  qed
  then show ?thesis by (simp add: logs_ok_def run_events_log list_events_def sorted_wrt_map sorted_wrt_filter)
qed

text \<open>C33. The generator reads the events before it reads the run's status. When the attempt is settled
  between the two reads, the stream ends without ever delivering the event of the settlement: the
  client's stream closes on a finished run whose terminal event it was not sent.\<close>

theorem stream_misses_terminal_event:
  assumes "finalize_attempt aid worker v status te now code msg rs = (Some (r, a, e), rs')"
    and "run_terminal status" and "e \<notin> set (run_events rs (run_id r))"
  shows "case stream_run rt p (run_id r) c rs [\<lparr>sr_listing = rs, sr_status = rs', sr_disconnected = False\<rparr>] of
      (out, _, _, ended) \<Rightarrow> ended \<and> out = public_events rt p (list_events rs (run_id r) c)
        \<and> e \<in> set (run_events rs' (run_id r)) \<and> ev_event_type e = terminal_event_type (run_status r)"
proof -
  have "dict_get (rs_items rs') (run_id r) = Some r" "run_status r \<in> {COMPLETED, FAILED, CANCELLED}"
    "ev_event_type e = terminal_event_type (run_status r)"
    using assms unfolding run_terminal_def
    by (auto simp: finalize_attempt_def Let_def split: option.splits if_splits dest: find_SomeD)
  moreover have "e \<in> set (run_events rs' (run_id r))"
    using assms(1,3) by (auto simp: finalize_attempt_def Let_def run_events_def push_event_def
        split: option.splits if_splits dest: find_SomeD)
  ultimately show ?thesis by (simp add: stream_step_def run_finished_def Let_def)
qed

section \<open>Concrete streams\<close>

definition quiet_round :: "run_store \<Rightarrow> stream_round" where
  "quiet_round rs = \<lparr>sr_listing = rs, sr_status = rs, sr_disconnected = False\<rparr>"

definition stream_viewer :: principal where
  "stream_viewer = sample_viewer\<lparr>workspace_id := ''w''\<rparr>"

lemma sample_events:
  "map ev_id (list_events relogged_store ''r1'' 0) = [''e1'', ''e2'']"
  "map ev_id (public_events (\<lambda>t. t) stream_viewer (list_events relogged_store ''r1'' 0)) = [''e1'', ''e2'']"
proof -
  have "event_for_principal (\<lambda>t. t) e stream_viewer = Some (e\<lparr>ev_payload := [], ev_metadata := []\<rparr>)"
    if "e \<in> set (list_events relogged_store ''r1'' 0)" for e
    using that by (auto simp: list_events_def run_events_def relogged_store_events)
      (simp_all add: event_for_principal_def can_view_event_def stream_viewer_def sample_viewer_def
        can_access_workspace_def owns_def redact_optional_def sample_event_def fresh_event_def sample_run_def
        Let_def)
  then show "map ev_id (list_events relogged_store ''r1'' 0) = [''e1'', ''e2'']"
    "map ev_id (public_events (\<lambda>t. t) stream_viewer (list_events relogged_store ''r1'' 0)) = [''e1'', ''e2'']"
    by (simp_all add: list_events_def run_events_def relogged_store_events public_events_def map_filter_simps
        sample_event_def fresh_event_def)
qed

theorem stream_delivers_log_once_witness:
  "fst (stream_run (\<lambda>t. t) stream_viewer ''r1'' 0 logged_store
      [quiet_round logged_store, quiet_round relogged_store])
     = public_events (\<lambda>t. t) stream_viewer (list_events relogged_store ''r1'' 0)
   \<and> map ev_id (list_events relogged_store ''r1'' 0) = [''e1'', ''e2'']
   \<and> map ev_id (fst (stream_run (\<lambda>t. t) stream_viewer ''r1'' 0 logged_store
      [quiet_round logged_store, quiet_round relogged_store])) = [''e1'', ''e2'']"
proof -
  let ?rounds = "[quiet_round logged_store, quiet_round relogged_store]"
  have items: "rs_items logged_store = [(''r1'', sample_run)]" "rs_items relogged_store = [(''r1'', sample_run)]"
    by (simp_all add: relogged_store_def logged_store_def log_eval)
  have follow: "rounds_follow logged_store ?rounds"
    using relogged_steps run_steps.refl by (simp add: quiet_round_def)
  obtain out c' listed ended where run: "stream_run (\<lambda>t. t) stream_viewer ''r1'' 0 logged_store ?rounds
      = (out, c', listed, ended)" by (metis surj_pair)
  have "listed = relogged_store"
    using run by (auto simp: quiet_round_def stream_step_def run_finished_def items sample_run_def Let_def
        split: prod.splits)
  with stream_delivers_log_once [OF logged_store_reachable follow _ run] run show ?thesis
    by (simp add: sample_events)
qed

theorem stream_misses_terminal_event_witness:
  "\<exists>r a e rs'. finalize_attempt ''a1'' ''worker'' 1 COMPLETED (fresh_event ''e'' sample_run ''k'' [] 0) 3
       None None claimed_store = (Some (r, a, e), rs')
     \<and> ev_event_type e = ''run.completed'' \<and> e \<in> set (run_events rs' ''r1'')
     \<and> (case stream_run (\<lambda>t. t) sample_viewer ''r1'' 0 claimed_store
          [\<lparr>sr_listing = claimed_store, sr_status = rs', sr_disconnected = False\<rparr>] of
          (out, _, _, ended) \<Rightarrow> ended \<and> out = [])"
proof -
  obtain r a e rs' where fin: "finalize_attempt ''a1'' ''worker'' 1 COMPLETED
      (fresh_event ''e'' sample_run ''k'' [] 0) 3 None None claimed_store = (Some (r, a, e), rs')"
    and r: "run_id r = ''r1''" "run_status r = COMPLETED"
    by (auto simp: finalize_attempt_def claimed_attempt_def sample_attempt_def sample_run_def Let_def)
  have "run_events claimed_store ''r1'' = []" by (simp add: run_events_def)
  with stream_misses_terminal_event [OF fin, of "\<lambda>t. t" sample_viewer 0] fin r show ?thesis
    by (auto simp: terminal_event_type_def list_events_def public_events_def map_filter_simps
        split: prod.splits)
qed

end
