(* ===== verification/Submission.thy ===== *)
theory Submission
  imports Attachment_Api Recovery
begin

text \<open>
  Submission of a message: \<^verbatim>\<open>submit_message\<close> of \<^verbatim>\<open>api/conversations.py\<close>, the unit of work of
  \<^verbatim>\<open>conversations/memory.py\<close> it runs in, and the extractor of memory candidates of
  \<^verbatim>\<open>conversations/context.py\<close>.

  The handler checks the request, builds the context, accepts the mission, and writes the run, its
  first attempt, both messages, the links of the attachments, the usage of memories and the outbox
  row in one unit of work; afterwards it completes the mission's record, extracts memories,
  announces the run and notifies the queue. The checks and the rest are two operations, because
  other requests are served by other threads. The drawn identifiers, the clock, the text of
  numbers, the dump of the context bundle, the extractor's regular expressions and the answer of
  the queue are the record \<open>submission_env\<close>. Parts are validated message parts. The ellipsis
  character is written as three dots.
\<close>

section \<open>The request and its environment\<close>

record submission_env =
  se_py :: "json \<Rightarrow> string"
  se_text :: py_text
  se_dump :: "context_bundle \<Rightarrow> json_obj"
  se_sentences :: "string \<Rightarrow> string list"
  se_durable :: "string \<Rightarrow> (nat \<times> memory_type) option"
  se_now :: moment
  se_ts :: string
  se_mission_id :: string
  se_run_id :: string
  se_attempt_id :: string
  se_message_id :: string
  se_reply_id :: string
  se_event_id :: string
  se_memory_id :: "nat \<Rightarrow> string"
  se_request_id :: string
  se_max_attempts :: nat
  se_store_fails :: bool
  se_enqueued :: bool

record submit_request =
  sb_parts :: "message_part list"
  sb_parent :: "string option"
  sb_scope :: json_obj
  sb_execution_mode :: string
  sb_attachment_ids :: "string list"

section \<open>MemoryCandidateExtractor\<close>

text \<open>\<open>se_sentences\<close> is \<^verbatim>\<open>_SENTENCE.split\<close>; \<open>se_durable\<close> is the first pattern of \<^verbatim>\<open>_CANDIDATES\<close> that is
  found in the sentence, as its type and the end of its match.\<close>

definition candidate ::
  "submission_env \<Rightarrow> thread \<Rightarrow> message \<Rightarrow> nat \<Rightarrow> string \<Rightarrow> nat \<Rightarrow> memory_type \<Rightarrow> memory_item" where
  "candidate env t m n sentence match_end type =
     \<lparr>mem_id = se_memory_id env n, mem_workspace_id = th_workspace_id t,
      mem_owner_user_id = th_owner_user_id t, mem_project_id = th_project_id t,
      mem_scope = (if type = PREFERENCE then SCOPE_USER else SCOPE_THREAD), mem_type = type,
      mem_status = MEM_PENDING_CONSENT, mem_content = MText sentence,
      mem_normalized_content = normalize_memory_content (se_py env) (MText sentence),
      mem_structured_data = [(''subject_key'',
        JStr (take 160 (normalize_memory_content (se_py env) (MText (drop match_end sentence)))))],
      mem_provenance = [(''extractor'', JStr ''phase6-explicit-v1''), (''verbatim'', JBool True)],
      mem_confidence = 9 / 10, mem_salience = 1 / 2, mem_thread_id = Some (th_id t),
      mem_source_message_id = Some (msg_id m), mem_source_message_ids = [msg_id m],
      mem_source_run_id = None, mem_source_evidence_ids = [], mem_supersedes_id = None,
      mem_superseded_by_id = None, mem_pinned = False, mem_requires_confirmation = True,
      mem_consented_at = None, mem_valid_from = None, mem_valid_to = None,
      mem_created_at = se_now env, mem_updated_at = se_now env, mem_last_used_at = None,
      mem_expires_at = None, mem_archived_at = None, mem_deleted_at = None\<rparr>"

fun extract_from ::
  "submission_env \<Rightarrow> thread \<Rightarrow> message \<Rightarrow> nat \<Rightarrow> string list \<Rightarrow> memory_item list" where
  "extract_from env t m n [] = []"
| "extract_from env t m n (s # ss) =
     (let sentence = str_strip s in
      case se_durable env sentence of
        None \<Rightarrow> extract_from env t m n ss
      | Some (match_end, type) \<Rightarrow>
          if length sentence < 8 then extract_from env t m n ss
          else candidate env t m n sentence match_end type # extract_from env t m (Suc n) ss)"

definition extract_candidates :: "submission_env \<Rightarrow> message \<Rightarrow> thread \<Rightarrow> memory_item list" where
  "extract_candidates env m t = (if msg_role m \<noteq> USER then []
     else extract_from env t m 0 (se_sentences env (message_text m)))"

text \<open>\<^verbatim>\<open>ingest_candidates\<close> on the repository: what an exception leaves behind stays.\<close>

fun ingest_kept ::
  "(json \<Rightarrow> string) \<Rightarrow> moment \<Rightarrow> memory_item list \<Rightarrow> memory_store \<Rightarrow> unit result \<times> memory_store" where
  "ingest_kept py now [] ms = (Inr (), ms)"
| "ingest_kept py now (c # cs) ms = (case ingest_one py now c ms of
       Inl e \<Rightarrow> (Inl e, ms)
     | Inr (_, ms') \<Rightarrow> ingest_kept py now cs ms')"

lemma ingest_kept_eq:
  "ingest_candidates py now cs ms = Inr (created, ms') \<Longrightarrow> ingest_kept py now cs ms = (Inr (), ms')"
  by (induction cs arbitrary: ms created)
    (auto simp: result_bind_def split: sum.splits prod.splits)

section \<open>The checks\<close>

definition text_of_part :: "message_part \<Rightarrow> string option" where
  "text_of_part part = (case part_content part of
       CStr s \<Rightarrow> if part_type part = TEXT \<and> str_strip s \<noteq> [] then Some (str_strip s) else None
     | _ \<Rightarrow> None)"

definition query_of :: "message_part list \<Rightarrow> string" where
  "query_of parts = join [char_of (10 :: nat)] (List.map_filter text_of_part parts)"

fun submitted_attachments ::
  "conversations \<Rightarrow> principal \<Rightarrow> thread \<Rightarrow> string list \<Rightarrow> attachment list api" where
  "submitted_attachments cv p t [] = Inr []"
| "submitted_attachments cv p t (aid # aids) = (case owned_attachment cv p aid of
       Inl e \<Rightarrow> Inl e
     | Inr a \<Rightarrow>
         if file_thread_id a \<noteq> th_id t then Inl (Http 422 ''attachment belongs to another thread'')
         else if file_status a \<noteq> FILE_READY \<or> file_scan_status a \<noteq> SCAN_CLEAN
         then Inl (Http 409 ''attachment is not ready'')
         else if file_message_id a \<noteq> None then Inl (Http 409 ''attachment is already associated'')
         else (case submitted_attachments cv p t aids of Inl e \<Rightarrow> Inl e | Inr as \<Rightarrow> Inr (a # as)))"

definition parent_ok :: "conversations \<Rightarrow> principal \<Rightarrow> thread \<Rightarrow> string option \<Rightarrow> bool" where
  "parent_ok cv p t parent = (case parent of None \<Rightarrow> True
     | Some mid \<Rightarrow> (case message_get (cv_messages cv) mid (Some (workspace_id p)) of
           None \<Rightarrow> False | Some m \<Rightarrow> msg_thread_id m = th_id t))"

definition submission_checks ::
  "principal option \<Rightarrow> string \<Rightarrow> submit_request \<Rightarrow> conversations
   \<Rightarrow> (principal \<times> thread \<times> string \<times> attachment list) api" where
  "submission_checks p tid body cv =
     (if sb_parts body = [] then Inl (Http 422 ''validation error'')
      else case api_principal p of Inl e \<Rightarrow> Inl e | Inr p \<Rightarrow>
      (case owned_thread cv p tid False of Inl e \<Rightarrow> Inl e | Inr t \<Rightarrow>
      if th_status t \<noteq> THREAD_ACTIVE then Inl (Http 409 ''thread is not active'')
      else if sb_execution_mode body \<noteq> ''development'' then Inl (Http 400 ''invalid execution_mode'')
      else if \<not> parent_ok cv p t (sb_parent body)
      then Inl (Http 422 ''parent message must belong to this thread and workspace'')
      else if query_of (sb_parts body) = []
      then Inl (Http 400 ''at least one non-empty TEXT part is required'')
      else (case submitted_attachments cv p t (dedupe (sb_attachment_ids body)) of
          Inl e \<Rightarrow> Inl e | Inr as \<Rightarrow> Inr (p, t, query_of (sb_parts body), as))))"

section \<open>The unit of work\<close>

text \<open>An exception restores the six repositories of the unit; thread summaries are not among them.\<close>

definition transaction :: "(conversations \<Rightarrow> 'a api \<times> conversations) \<Rightarrow> conversations \<Rightarrow> 'a api \<times> conversations" where
  "transaction body cv = (case body cv of
       (Inr x, cv') \<Rightarrow> (Inr x, cv')
     | (Inl e, cv') \<Rightarrow> (Inl e, cv\<lparr>cv_summaries := cv_summaries cv'\<rparr>))"

definition new_run :: "submission_env \<Rightarrow> principal \<Rightarrow> thread \<Rightarrow> run" where
  "new_run env p t =
     \<lparr>run_id = se_run_id env, run_thread_id = th_id t, run_workspace_id = th_workspace_id t,
      run_requested_by_user_id = user_id p, run_mission_id = Some (se_mission_id env),
      run_status = QUEUED, run_current_attempt = 1, run_max_attempts = se_max_attempts env,
      run_retry_count = 0, run_next_retry_at = None, run_cancel_requested_at = None,
      run_metadata = [], run_created_at = se_now env, run_started_at = None, run_completed_at = None\<rparr>"

definition first_attempt :: "submission_env \<Rightarrow> run \<Rightarrow> run_attempt" where
  "first_attempt env r =
     \<lparr>att_id = se_attempt_id env, att_run_id = run_id r, att_number = 1, att_status = ATT_RETRYABLE,
      att_worker_id = None, att_lease_expires_at = None, att_heartbeat_at = None,
      att_retryable = True, att_version = 0, att_error_code = None, att_error_message = None,
      att_started_at = se_now env, att_completed_at = None\<rparr>"

definition user_message :: "submission_env \<Rightarrow> principal \<Rightarrow> thread \<Rightarrow> submit_request \<Rightarrow> run \<Rightarrow> message" where
  "user_message env p t body r =
     \<lparr>msg_id = se_message_id env, msg_thread_id = th_id t, msg_workspace_id = th_workspace_id t,
      msg_user_id = Some (user_id p), msg_role = USER, msg_parts = sb_parts body,
      msg_run_id = Some (run_id r), msg_parent_message_id = sb_parent body,
      msg_created_at = se_now env, msg_updated_at = se_now env\<rparr>"

definition working_part :: message_part where
  "working_part = \<lparr>part_type = AGENT_STATUS, part_content = CStr ''Working...'',
     part_metadata = [(''status'', JStr ''pending'')]\<rparr>"

definition placeholder :: "submission_env \<Rightarrow> thread \<Rightarrow> run \<Rightarrow> message \<Rightarrow> message" where
  "placeholder env t r m =
     \<lparr>msg_id = se_reply_id env, msg_thread_id = th_id t, msg_workspace_id = th_workspace_id t,
      msg_user_id = None, msg_role = ASSISTANT, msg_parts = [working_part],
      msg_run_id = Some (run_id r), msg_parent_message_id = Some (msg_id m),
      msg_created_at = msg_created_at m + 1, msg_updated_at = msg_created_at m + 1\<rparr>"

definition scope_text :: "submission_env \<Rightarrow> json_obj \<Rightarrow> json" where
  "scope_text env scope = JStr (py_str (se_py env)
     (truthy_or (obj_get scope ''timezone'') (JStr ''Asia/Kolkata'')))"

definition with_metadata ::
  "submission_env \<Rightarrow> submit_request \<Rightarrow> string \<Rightarrow> json_obj \<Rightarrow> string \<Rightarrow> message \<Rightarrow> run \<Rightarrow> run" where
  "with_metadata env body query bundle request reply r = r\<lparr>run_metadata := dict_merge (run_metadata r)
     [(''context_bundle'', JObj bundle),
      (''submission'', JObj [(''query'', JStr query), (''timezone'', scope_text env (sb_scope body)),
         (''as_of'', truthy_or (obj_get (sb_scope body) ''as_of'') (obj_get (sb_scope body) ''asOf'')),
         (''request_id'', JStr request), (''execution_mode'', JStr (sb_execution_mode body)),
         (''assistant_message_id'', JStr (msg_id reply))])]\<rparr>"

definition titled :: "submission_env \<Rightarrow> string \<Rightarrow> thread \<Rightarrow> thread" where
  "titled env query t = t\<lparr>th_title :=
       (if \<not> str_truthy (th_title t) \<or> str_lower (str_strip (the (th_title t))) = ''untitled conversation''
        then Some (take 80 (join '' '' (split_words query))) else th_title t),
     th_updated_at := se_now env\<rparr>"

definition submission_writes ::
  "submission_env \<Rightarrow> principal \<Rightarrow> thread \<Rightarrow> submit_request \<Rightarrow> string \<Rightarrow> attachment list
   \<Rightarrow> context_bundle \<Rightarrow> string \<Rightarrow> conversations \<Rightarrow> (run \<times> message) api \<times> conversations" where
  "submission_writes env p t body query atts bundle request cv =
     attempt (uncaught (run_create (new_run env p t) (rs_items (cv_runs cv)))) cv (\<lambda>(r, items).
     let cv1 = cv\<lparr>cv_runs := add_attempt (first_attempt env r) ((cv_runs cv)\<lparr>rs_items := items\<rparr>)\<rparr> in
     attempt (uncaught (message_create (user_message env p t body r) (cv_messages cv1))) cv1 (\<lambda>(m, d).
     let cv2 = cv1\<lparr>cv_messages := d\<rparr> in
     (case associate_many (map file_id atts) (msg_id m) (th_id t) (th_workspace_id t) (user_id p)
             (cv_attachments cv2) of
        (False, d) \<Rightarrow> (Inl (Http 409 ''one or more attachments were concurrently associated''),
                       cv2\<lparr>cv_attachments := d\<rparr>)
      | (True, d) \<Rightarrow>
     let cv3 = cv2\<lparr>cv_attachments := d\<rparr> in
     attempt (uncaught (message_create (placeholder env t r m) (cv_messages cv3))) cv3 (\<lambda>(reply, d).
     let cv4 = cv3\<lparr>cv_messages := d\<rparr> in
     attempt (uncaught (run_update (with_metadata env body query (se_dump env bundle) request reply r)
         (rs_items (cv_runs cv4)))) cv4 (\<lambda>(r', items).
     let cv5 = cv4\<lparr>cv_runs := (cv_runs cv4)\<lparr>rs_items := items\<rparr>,
           cv_memories := record_usage (run_id r') (bundle_memories bundle) (se_now env) (cv_memories cv4)\<rparr> in
     attempt (uncaught (thread_update (titled env query t) (cv_threads cv5))) cv5 (\<lambda>(_, d).
       (Inr (r', m), cv5\<lparr>cv_threads := d, cv_runs := add_outbox (run_id r') (cv_runs cv5)\<rparr>)))))))"

section \<open>The handler\<close>

definition default_builder :: context_builder where
  "default_builder = make_builder 12000 5000 2500 3000 1500 None"

definition sources_of :: "conversations \<Rightarrow> context_sources" where
  "sources_of cv = \<lparr>src_messages = cv_messages cv, src_summaries = cv_summaries cv,
     src_memories = cv_memories cv, src_artifacts = cv_artifacts cv\<rparr>"

definition submission_context ::
  "submission_env \<Rightarrow> submit_request \<Rightarrow> thread \<Rightarrow> string \<Rightarrow> conversations \<Rightarrow> context_bundle" where
  "submission_context env body t query cv =
     build (se_text env) None default_builder (sources_of cv) t query
       (case obj_get (sb_scope body) ''workspace_config'' of JObj kvs \<Rightarrow> kvs | _ \<Rightarrow> []) [] (se_now env)"

definition queued_event :: "submission_env \<Rightarrow> principal \<Rightarrow> run \<Rightarrow> message \<Rightarrow> activity_event" where
  "queued_event env p r m =
     (fresh_event (se_event_id env) r ''run.queued''
        [(''message_id'', JStr (msg_id m)), (''mission_id'', JStr (se_mission_id env)),
         (''route'', JStr ''v3'')] (se_now env))\<lparr>ev_actor_user_id := Some (user_id p)\<rparr>"

text \<open>After the unit of work: the mission's record, memories, the announcement and the queue.\<close>

definition complete_record ::
  "submission_env \<Rightarrow> string \<Rightarrow> json_obj \<Rightarrow> json_obj \<Rightarrow> mission_world \<Rightarrow> mission_world" where
  "complete_record env query bundle seeded w =
     (case mission_get (mw_store w) (se_mission_id env) of
        None \<Rightarrow> w
      | Some r \<Rightarrow> store_put (se_py env) r (dict_merge seeded
          [(''metadata'', JObj [(''context_bundle'', JObj bundle)]),
           (''input'', JObj [(''query'', JStr query), (''context_bundle'', JObj bundle)])]) w)"

definition announce ::
  "submission_env \<Rightarrow> principal \<Rightarrow> thread \<Rightarrow> run \<Rightarrow> message \<Rightarrow> conversations \<Rightarrow> unit api \<times> conversations" where
  "announce env p t r m cv =
     (case ingest_kept (se_py env) (se_now env) (extract_candidates env m t) (cv_memories cv) of
        (Inl e, ms) \<Rightarrow> (Inl (Uncaught e), cv\<lparr>cv_memories := ms\<rparr>)
      | (Inr _, ms) \<Rightarrow>
          let cv' = cv\<lparr>cv_memories := ms\<rparr> in
          attempt (uncaught (append_event (queued_event env p r m) (cv_runs cv'))) cv' (\<lambda>(_, rs).
            (Inr (), cv'\<lparr>cv_runs := (if se_enqueued env then mark_outbox_published (run_id r) rs else rs)\<rparr>)))"

definition submission_commit ::
  "submission_env \<Rightarrow> principal \<Rightarrow> thread \<Rightarrow> submit_request \<Rightarrow> string \<Rightarrow> attachment list \<Rightarrow> service
   \<Rightarrow> (string \<times> string \<times> string) api \<times> service" where
  "submission_commit env p t body query atts sv =
     (let bundle = submission_context env body t query (sv_cv sv);
          request = (if se_request_id env = [] then se_run_id env else se_request_id env) in
      if se_store_fails env then (Inl (Http 503 ''Unable to persist the mission before submission''), sv)
      else let
        (seeded, w) = seed_running_mission (se_py env) (se_ts env) (se_mission_id env) query request (th_id t)
          (Some (th_workspace_id t)) (Some (th_owner_user_id t)) (Some (th_id t)) (Some (se_run_id env))
          (sv_missions sv)
      in (case transaction (submission_writes env p t body query atts bundle request) (sv_cv sv) of
            (Inl e, cv) \<Rightarrow> (Inl e, sv\<lparr>sv_cv := cv, sv_missions := w\<rparr>)
          | (Inr (r, m), cv) \<Rightarrow>
              (case announce env p t r m cv of
                 (res, cv') \<Rightarrow> (map_sum id (\<lambda>_. (msg_id m, run_id r, se_mission_id env)) res,
                   sv\<lparr>sv_cv := cv', sv_missions := complete_record env query (se_dump env bundle) seeded w\<rparr>))))"

definition submit_message ::
  "submission_env \<Rightarrow> principal option \<Rightarrow> string \<Rightarrow> submit_request \<Rightarrow> service
   \<Rightarrow> (string \<times> string \<times> string) api \<times> service" where
  "submit_message env p tid body sv =
     attempt (submission_checks p tid body (sv_cv sv)) sv
       (\<lambda>(p, t, query, atts). submission_commit env p t body query atts sv)"

section \<open>A submission is all or nothing\<close>

text \<open>Drawn identifiers are fresh; \<^verbatim>\<open>uuid4\<close> texts never start like the identifiers of retries.\<close>

definition fresh_ids :: "submission_env \<Rightarrow> service \<Rightarrow> bool" where
  "fresh_ids env sv =
     (dict_get (rs_items (cv_runs (sv_cv sv))) (se_run_id env) = None
      \<and> dict_get (rs_attempts (cv_runs (sv_cv sv))) (se_attempt_id env) = None
      \<and> \<not> str_startswith (se_attempt_id env) ''attempt_retry_''
      \<and> dict_get (cv_messages (sv_cv sv)) (se_message_id env) = None
      \<and> dict_get (cv_messages (sv_cv sv)) (se_reply_id env) = None
      \<and> se_message_id env \<noteq> se_reply_id env
      \<and> mission_get (mw_store (sv_missions sv)) (se_mission_id env) = None
      \<and> mission_get_raw (mw_store (sv_missions sv)) (se_mission_id env) = None
      \<and> 1 \<le> se_max_attempts env)"

text \<open>What an accepted submission leaves behind.\<close>

definition accepted :: "submission_env \<Rightarrow> string \<Rightarrow> submit_request \<Rightarrow> service \<Rightarrow> service \<Rightarrow> bool" where
  "accepted env tid body sv sv' =
     (let cv = sv_cv sv; cv' = sv_cv sv'; rid = se_run_id env in
      run_steps (cv_runs cv) (cv_runs cv')
      \<and> (\<exists>r. dict_get (rs_items (cv_runs cv')) rid = Some r \<and> run_status r = QUEUED
          \<and> run_thread_id r = tid \<and> run_mission_id r = Some (se_mission_id env)
          \<and> assistant_message_id r = Some (se_reply_id env))
      \<and> dict_get (rs_outbox (cv_runs cv')) rid \<noteq> None
      \<and> (\<exists>m. dict_get (cv_messages cv') (se_message_id env) = Some m \<and> msg_thread_id m = tid
          \<and> msg_parts m = sb_parts body \<and> msg_run_id m = Some rid)
      \<and> (\<exists>m. dict_get (cv_messages cv') (se_reply_id env) = Some m \<and> msg_thread_id m = tid
          \<and> msg_parts m = [working_part] \<and> msg_run_id m = Some rid
          \<and> msg_parent_message_id m = Some (se_message_id env))
      \<and> (\<forall>k. dict_get (cv_attachments cv') k = (if k \<in> set (sb_attachment_ids body)
          then map_option (\<lambda>a. a\<lparr>file_message_id := Some (se_message_id env)\<rparr>) (dict_get (cv_attachments cv) k)
          else dict_get (cv_attachments cv) k))
      \<and> (\<forall>k \<in> set (sb_attachment_ids body). \<exists>a. dict_get (cv_attachments cv) k = Some a
          \<and> file_status a = FILE_READY \<and> file_scan_status a = SCAN_CLEAN \<and> file_message_id a = None))"

lemma set_fresh_setdefault:
  assumes "dict_get d k = None"
  shows "dict_set (dict_setdefault d k v) k w = dict_setdefault d k w"
proof -
  have "k \<notin> set (dict_keys d) \<Longrightarrow> dict_set (d @ [(k, v)]) k w = d @ [(k, w)]"
    by (induction d k v rule: dict_set.induct) auto
  from this [OF iffD1 [OF dict_get_None assms]] show ?thesis by (simp add: dict_setdefault_def assms)
qed

lemma new_run_simps [simp]:
  "run_id (new_run env p t) = se_run_id env" "run_status (new_run env p t) = QUEUED"
  "run_thread_id (new_run env p t) = th_id t" "run_mission_id (new_run env p t) = Some (se_mission_id env)"
  by (simp_all add: new_run_def)

lemma with_metadata_simps [simp]:
  "run_id (with_metadata env body query bundle request reply r) = run_id r"
  "run_status (with_metadata env body query bundle request reply r) = run_status r"
  "run_thread_id (with_metadata env body query bundle request reply r) = run_thread_id r"
  "run_mission_id (with_metadata env body query bundle request reply r) = run_mission_id r"
  by (simp_all add: with_metadata_def)

lemma placeholder_named:
  "assistant_message_id (with_metadata env body query bundle request reply (new_run env p t)) = Some (msg_id reply)"
  by (simp add: with_metadata_def new_run_def assistant_message_id_def obj_get_def dict_merge_def)

lemma owned_threadD:
  assumes "owned_thread cv p tid b = Inr t"
  shows "dict_get (cv_threads cv) tid = Some t \<and> th_workspace_id t = workspace_id p \<and> th_owner_user_id t = user_id p"
  using assms by (auto simp: owned_thread_def thread_get_def split: option.splits if_splits)

lemma owned_attachmentD:
  assumes "owned_attachment cv p aid = Inr a"
  shows "dict_get (cv_attachments cv) aid = Some a \<and> file_workspace_id a = workspace_id p \<and> file_owner_user_id a = user_id p"
  using assms by (auto simp: owned_attachment_def attachment_get_def split: option.splits if_splits)

lemma submitted_attachmentsD:
  assumes "submitted_attachments cv p t ids = Inr as" "keyed file_id (cv_attachments cv)"
  shows "map file_id as = ids \<and> (\<forall>k \<in> set ids. \<exists>a. dict_get (cv_attachments cv) k = Some a
    \<and> file_status a = FILE_READY \<and> file_scan_status a = SCAN_CLEAN \<and> file_message_id a = None)"
  using assms(1)
proof (induction ids arbitrary: as)
  case (Cons k ks)
  then obtain a as' where a: "owned_attachment cv p k = Inr a" "submitted_attachments cv p t ks = Inr as'"
    "as = a # as'" "file_status a = FILE_READY" "file_scan_status a = SCAN_CLEAN" "file_message_id a = None"
    by (auto split: sum.splits if_splits)
  have "dict_get (cv_attachments cv) k = Some a" using owned_attachmentD [OF a(1)] by simp
  then show ?case using Cons.IH [OF a(2)] a keyed_get [OF assms(2)] by auto
qed simp

lemma submission_checksD:
  assumes "submission_checks pr tid body cv = Inr (p, t, query, as)"
  shows "owned_thread cv p tid False = Inr t
    \<and> submitted_attachments cv p t (dedupe (sb_attachment_ids body)) = Inr as \<and> query = query_of (sb_parts body)"
  using assms by (auto simp: submission_checks_def split: if_splits sum.splits)

definition committed ::
  "submission_env \<Rightarrow> principal \<Rightarrow> thread \<Rightarrow> submit_request \<Rightarrow> string \<Rightarrow> attachment store
   \<Rightarrow> context_bundle \<Rightarrow> string \<Rightarrow> conversations \<Rightarrow> conversations" where
  "committed env p t body query files bundle request cv =
     (let r = new_run env p t; m = user_message env p t body r; reply = placeholder env t r m in
      cv\<lparr>cv_runs := submit (with_metadata env body query (se_dump env bundle) request reply r)
           (first_attempt env r) (cv_runs cv),
         cv_messages := dict_setdefault (dict_setdefault (cv_messages cv) (se_message_id env) m)
           (se_reply_id env) reply,
         cv_attachments := files,
         cv_memories := record_usage (se_run_id env) (bundle_memories bundle) (se_now env) (cv_memories cv),
         cv_threads := dict_set (cv_threads cv) (th_id t) (titled env query t)\<rparr>)"

lemma submission_writes_eq:
  assumes fresh: "fresh_ids env sv" and cv: "cv = sv_cv sv"
    and t: "dict_get (cv_threads cv) (th_id t) = Some t0" "th_workspace_id t0 = th_workspace_id t"
      "th_owner_user_id t0 = th_owner_user_id t"
  shows "transaction (submission_writes env p t body query atts bundle request) cv =
    (case associate_many (map file_id atts) (se_message_id env) (th_id t) (th_workspace_id t) (user_id p)
       (cv_attachments cv) of
       (False, _) \<Rightarrow> (Inl (Http 409 ''one or more attachments were concurrently associated''), cv)
     | (True, files) \<Rightarrow> (Inr (with_metadata env body query (se_dump env bundle) request
           (placeholder env t (new_run env p t) (user_message env p t body (new_run env p t))) (new_run env p t),
         user_message env p t body (new_run env p t)), committed env p t body query files bundle request cv))"
proof -
  let ?r = "new_run env p t"
  let ?m = "user_message env p t body ?r"
  have ids: "dict_get (rs_items (cv_runs cv)) (se_run_id env) = None" "dict_get (cv_messages cv) (se_message_id env) = None"
    "dict_get (cv_messages cv) (se_reply_id env) = None" "se_reply_id env \<noteq> se_message_id env"
    using fresh by (auto simp: fresh_ids_def cv)
  have run: "run_create ?r (rs_items (cv_runs cv)) = Inr (?r, dict_setdefault (rs_items (cv_runs cv)) (se_run_id env) ?r)"
    using ids by (simp add: run_create_def)
  have m: "message_create ?m (cv_messages cv) = Inr (?m, dict_setdefault (cv_messages cv) (se_message_id env) ?m)"
    using ids by (simp add: message_create_def user_message_def)
  have mid: "msg_id ?m = se_message_id env" by (simp add: user_message_def)
  have reply: "message_create (placeholder env t ?r ?m) (dict_setdefault (cv_messages cv) (se_message_id env) ?m) =
      Inr (placeholder env t ?r ?m, dict_setdefault (dict_setdefault (cv_messages cv) (se_message_id env) ?m)
        (se_reply_id env) (placeholder env t ?r ?m))"
    using ids by (simp add: message_create_def placeholder_def)
  have upd: "run_update (with_metadata env body query b request y ?r)
        (dict_setdefault (rs_items (cv_runs cv)) (se_run_id env) ?r) =
      Inr (with_metadata env body query b request y ?r,
        dict_setdefault (rs_items (cv_runs cv)) (se_run_id env) (with_metadata env body query b request y ?r))" for b y
    using ids by (simp add: run_update_def set_fresh_setdefault) (simp add: with_metadata_def)
  have thread: "thread_update (titled env query t) (cv_threads cv) =
      Inr (titled env query t, dict_set (cv_threads cv) (th_id t) (titled env query t))"
    using t by (simp add: thread_update_def titled_def)
  have swap: "(rs :: run_store)\<lparr>rs_attempts := x, rs_items := y\<rparr> = rs\<lparr>rs_items := y, rs_attempts := x\<rparr>" for rs x y
    by (rule run_store.equality) simp_all
  show ?thesis
    by (cases "associate_many (map file_id atts) (se_message_id env) (th_id t) (th_workspace_id t) (user_id p)
         (cv_attachments cv)")
      (simp add: transaction_def submission_writes_def run m Let_def add_attempt_def reply upd thread
         committed_def submit_def mid split: bool.splits, auto intro!: conversations.equality simp: swap)
qed

lemma publish_keeps_outbox:
  "dict_get (rs_outbox rs) k \<noteq> None \<Longrightarrow> dict_get (rs_outbox (mark_outbox_published rid rs)) k \<noteq> None"
  by (auto simp: mark_outbox_published_def split: option.splits)

lemma announce_frame:
  assumes "announce env p t r m cv = (res, cv')"
  shows "run_steps (cv_runs cv) (cv_runs cv') \<and> rs_items (cv_runs cv') = rs_items (cv_runs cv)
    \<and> (\<forall>k. dict_get (rs_outbox (cv_runs cv)) k \<noteq> None \<longrightarrow> dict_get (rs_outbox (cv_runs cv')) k \<noteq> None)
    \<and> cv_messages cv' = cv_messages cv \<and> cv_attachments cv' = cv_attachments cv \<and> cv_threads cv' = cv_threads cv
    \<and> (\<forall>code detail. res \<noteq> Inl (Http code detail))"
proof (cases "ingest_kept (se_py env) (se_now env) (extract_candidates env m t) (cv_memories cv)")
  case (Pair kept ms)
  show ?thesis
  proof (cases kept)
    case (Inl e)
    with assms Pair show ?thesis by (auto simp: announce_def intro: run_steps.refl)
  next
    case (Inr u)
    show ?thesis
    proof (cases "append_event (queued_event env p r m) (cv_runs cv)")
      case (Inl e)
      with assms Pair Inr show ?thesis by (auto simp: announce_def intro: run_steps.refl)
    next
      case (Inr er)
      obtain e' rs where er: "append_event (queued_event env p r m) (cv_runs cv) = Inr (e', rs)"
        using Inr by (metis surj_pair)
      have step: "run_steps (cv_runs cv) rs" using run_steps_one [OF run_step.record_event [OF er]] .
      moreover have "run_steps (cv_runs cv) (mark_outbox_published (run_id r) rs)"
        using run_steps.step [OF step run_step.publish] .
      moreover note append_event_frame [OF er] publish_keeps_outbox [of rs _ "run_id r"]
      ultimately show ?thesis using assms Pair \<open>kept = Inr u\<close> er
        by (auto simp: announce_def Let_def)
    qed
  qed
qed

lemma with_metadata_fresh:
  assumes "fresh_ids env sv"
  shows "fresh_submission (with_metadata env body query bundle request reply (new_run env p t))
    (first_attempt env (new_run env p t)) (cv_runs (sv_cv sv))"
  using assms by (simp add: fresh_ids_def fresh_submission_def) (simp add: with_metadata_def new_run_def first_attempt_def)

lemma committed_accepted:
  assumes fresh: "fresh_ids env sv" and keyed: "keyed file_id (cv_attachments (sv_cv sv))"
    and checks: "submission_checks pr tid body (sv_cv sv) = Inr (p, t, query, atts)" and tid: "th_id t = tid"
    and files: "associate_many (map file_id atts) (se_message_id env) (th_id t) (th_workspace_id t) (user_id p)
       (cv_attachments (sv_cv sv)) = (True, files)"
    and cv: "cv = committed env p t body query files bundle request (sv_cv sv)"
    and ann: "announce env p t r m cv = (res, cv')"
  shows "accepted env tid body sv (sv'\<lparr>sv_cv := cv'\<rparr>)"
proof -
  note fresh' = fresh [unfolded fresh_ids_def] and frame = announce_frame [OF ann]
  have atts: "map file_id atts = dedupe (sb_attachment_ids body)"
    "\<forall>k \<in> set (sb_attachment_ids body). \<exists>a. dict_get (cv_attachments (sv_cv sv)) k = Some a
      \<and> file_status a = FILE_READY \<and> file_scan_status a = SCAN_CLEAN \<and> file_message_id a = None"
    using submitted_attachmentsD [OF _ keyed] submission_checksD [OF checks] by auto
  have "run_steps (cv_runs (sv_cv sv)) (cv_runs cv)"
    unfolding cv committed_def Let_def
    by (simp add: run_steps_one [OF run_step.submit [OF with_metadata_fresh [OF fresh]]])
  then have steps: "run_steps (cv_runs (sv_cv sv)) (cv_runs cv')"
    using run_steps_trans frame by blast
  have r: "dict_get (rs_items (cv_runs cv)) (se_run_id env) =
      Some (with_metadata env body query (se_dump env bundle) request
        (placeholder env t (new_run env p t) (user_message env p t body (new_run env p t))) (new_run env p t))"
    "dict_get (rs_outbox (cv_runs cv)) (se_run_id env) \<noteq> None"
    using fresh' by (auto simp: cv committed_def submit_def add_outbox_def add_attempt_def Let_def)
  have ms: "dict_get (cv_messages cv) (se_message_id env) = Some (user_message env p t body (new_run env p t))"
    "dict_get (cv_messages cv) (se_reply_id env) =
      Some (placeholder env t (new_run env p t) (user_message env p t body (new_run env p t)))"
    using fresh' by (auto simp: cv committed_def Let_def)
  have linked: "dict_get (cv_attachments cv) k = (if k \<in> set (sb_attachment_ids body)
      then map_option (\<lambda>a. a\<lparr>file_message_id := Some (se_message_id env)\<rparr>) (dict_get (cv_attachments (sv_cv sv)) k)
      else dict_get (cv_attachments (sv_cv sv)) k)" for k
    using associate_many_atomic [OF keyed files, of k] by (simp add: cv committed_def Let_def atts)
  show ?thesis
    using steps frame r ms linked atts(2) tid fresh'
    by (simp add: accepted_def placeholder_named)
      (simp add: user_message_def placeholder_def)
qed

lemma submission_commit_cases:
  assumes fresh: "fresh_ids env sv" and keyed: "keyed file_id (cv_attachments (sv_cv sv))"
    and threads: "keyed th_id (cv_threads (sv_cv sv))"
    and checks: "submission_checks pr tid body (sv_cv sv) = Inr (p, t, query, atts)"
    and commit: "submission_commit env p t body query atts sv = (res, sv')"
  shows "case res of
      Inl (Http code detail) \<Rightarrow> sv_cv sv' = sv_cv sv
    | Inl (Uncaught e) \<Rightarrow> accepted env tid body sv sv'
    | Inr ids \<Rightarrow> ids = (se_message_id env, se_run_id env, se_mission_id env) \<and> accepted env tid body sv sv'"
proof (cases "se_store_fails env")
  case True
  with commit show ?thesis by (auto simp: submission_commit_def Let_def)
next
  case False
  note t = owned_threadD [OF conjunct1 [OF submission_checksD [OF checks]]]
  have tid: "th_id t = tid" using t keyed_get [OF threads] by blast
  with t have t0: "dict_get (cv_threads (sv_cv sv)) (th_id t) = Some t" by simp
  let ?ctx = "submission_context env body t query (sv_cv sv)"
  let ?request = "if se_request_id env = [] then se_run_id env else se_request_id env"
  obtain seeded w where seed: "seed_running_mission (se_py env) (se_ts env) (se_mission_id env) query ?request (th_id t)
      (Some (th_workspace_id t)) (Some (th_owner_user_id t)) (Some (th_id t)) (Some (se_run_id env))
      (sv_missions sv) = (seeded, w)" by (metis surj_pair)
  note eq = submission_writes_eq [OF fresh HOL.refl t0 HOL.refl HOL.refl, of p body query atts ?ctx ?request]
  obtain ok files where files: "associate_many (map file_id atts) (se_message_id env) (th_id t) (th_workspace_id t) (user_id p)
       (cv_attachments (sv_cv sv)) = (ok, files)" by (metis surj_pair)
  show ?thesis
  proof (cases ok)
    case False
    then show ?thesis using commit \<open>\<not> se_store_fails env\<close> files seed eq
      by (auto simp: submission_commit_def Let_def)
  next
    case True
    define cv where "cv = committed env p t body query files ?ctx ?request (sv_cv sv)"
    let ?r = "with_metadata env body query (se_dump env ?ctx) ?request
        (placeholder env t (new_run env p t) (user_message env p t body (new_run env p t))) (new_run env p t)"
    let ?m = "user_message env p t body (new_run env p t)"
    obtain res' cv' where ann: "announce env p t ?r ?m cv = (res', cv')" by (metis surj_pair)
    have out: "res = map_sum id (\<lambda>_. (se_message_id env, se_run_id env, se_mission_id env)) res'"
      "sv' = sv\<lparr>sv_cv := cv', sv_missions := complete_record env query (se_dump env ?ctx) seeded w\<rparr>"
      using commit \<open>\<not> se_store_fails env\<close> seed eq files True ann
      by (auto simp: submission_commit_def Let_def cv_def [symmetric], auto simp: user_message_def)
    have "accepted env tid body sv (sv\<lparr>sv_cv := cv'\<rparr>)"
      using committed_accepted [OF fresh keyed checks tid _ cv_def ann] files True by simp
    then have "accepted env tid body sv sv'" by (simp add: out(2) accepted_def)
    then show ?thesis using announce_frame [OF ann] by (cases res') (auto simp: out(1) split: api_error.splits)
  qed
qed

text \<open>C2. A submission is all or nothing: a refused request leaves the repositories as they were; any
  other outcome has queued the run by steps of the run protocol, with its message, its waiting
  reply, its outbox row, and every listed attachment - ready, clean and unlinked before - linked
  to the message and no other changed. Only a failure to remember or announce the submission, which
  happens after the commit, makes the response an error then.\<close>

theorem submission_is_atomic:
  assumes "fresh_ids env sv" and "keyed file_id (cv_attachments (sv_cv sv))"
    and "keyed th_id (cv_threads (sv_cv sv))"
    and "submit_message env pr tid body sv = (res, sv')"
  shows "case res of
      Inl (Http code detail) \<Rightarrow> sv_cv sv' = sv_cv sv
    | Inl (Uncaught e) \<Rightarrow> accepted env tid body sv sv'
    | Inr ids \<Rightarrow> ids = (se_message_id env, se_run_id env, se_mission_id env) \<and> accepted env tid body sv sv'"
proof (cases "submission_checks pr tid body (sv_cv sv)")
  case (Inl e)
  have "\<exists>code detail. e = Http code detail"
  proof -
    have "\<exists>code detail. e = Http code detail" if "submitted_attachments cv p t ids = Inl e" for cv p t ids
      using that by (induction ids) (auto simp: owned_attachment_def split: sum.splits if_splits option.splits)
    then show ?thesis using Inl
      by (auto simp: submission_checks_def api_principal_def owned_thread_def split: if_splits sum.splits option.splits)
  qed
  with assms(4) Inl show ?thesis by (auto simp: submit_message_def)
next
  case (Inr x)
  then obtain p t query atts where c: "submission_checks pr tid body (sv_cv sv) = Inr (p, t, query, atts)"
    by (metis prod_cases4)
  with assms(4) have "submission_commit env p t body query atts sv = (res, sv')" by (simp add: submit_message_def)
  from submission_commit_cases [OF assms(1-3) c this] show ?thesis .
qed

text \<open>The mission is accepted before the unit of work and outside it. When the unit fails - an
  attachment was linked or deleted between the checks and the commit - the request is refused and
  no run exists, but the mission store holds a running mission that no run will ever settle.\<close>

theorem failed_submission_strands_mission:
  assumes "fresh_ids env sv" and "\<not> se_store_fails env"
    and "dict_get (cv_threads (sv_cv sv)) (th_id t) = Some t"
    and "associate_many (map file_id atts) (se_message_id env) (th_id t) (th_workspace_id t) (user_id p)
       (cv_attachments (sv_cv sv)) = (False, files)"
    and "submission_commit env p t body query atts sv = (res, sv')"
  shows "(\<exists>detail. res = Inl (Http 409 detail)) \<and> sv_cv sv' = sv_cv sv
    \<and> raw_status (mw_store (sv_missions sv')) (se_mission_id env) = JStr ''running''
    \<and> dict_get (rs_items (cv_runs (sv_cv sv'))) (se_run_id env) = None"
proof -
  let ?ctx = "submission_context env body t query (sv_cv sv)"
  let ?request = "if se_request_id env = [] then se_run_id env else se_request_id env"
  obtain seeded w where seed: "seed_running_mission (se_py env) (se_ts env) (se_mission_id env) query ?request (th_id t)
      (Some (th_workspace_id t)) (Some (th_owner_user_id t)) (Some (th_id t)) (Some (se_run_id env))
      (sv_missions sv) = (seeded, w)" by (metis surj_pair)
  have "raw_status (mw_store w) (se_mission_id env) = JStr ''running''"
    using seed assms(1) by (auto simp: seed_running_mission_def Let_def store_put_def mission_put_def put_refused_def
        raw_status_def result_cancelled_def fresh_ids_def mission_get_def mission_get_raw_def obj_get_def)
  moreover have "dict_get (rs_items (cv_runs (sv_cv sv))) (se_run_id env) = None"
    using assms(1) by (simp add: fresh_ids_def)
  ultimately show ?thesis
    using assms(2,4,5) seed submission_writes_eq [OF assms(1) HOL.refl assms(3) HOL.refl HOL.refl,
        of p body query atts ?ctx ?request]
    by (auto simp: submission_commit_def Let_def)
qed

section \<open>Concrete submissions\<close>

definition sample_submission :: submission_env where
  "sample_submission = \<lparr>se_py = (\<lambda>_. []), se_text = \<lparr>float_text = \<lambda>_. [], obj_text = \<lambda>_. []\<rparr>,
     se_dump = \<lambda>_. [], se_sentences = (\<lambda>_. []), se_durable = (\<lambda>_. None), se_now = 7, se_ts = ''ts'',
     se_mission_id = ''MS3-1'', se_run_id = ''r1'', se_attempt_id = ''a1'', se_message_id = ''m1'',
     se_reply_id = ''m2'', se_event_id = ''e1'', se_memory_id = (\<lambda>_. ''k''), se_request_id = [],
     se_max_attempts = 3, se_store_fails = False, se_enqueued = True\<rparr>"

definition hello_request :: submit_request where
  "hello_request = \<lparr>sb_parts = [\<lparr>part_type = TEXT, part_content = CStr ''hello'', part_metadata = []\<rparr>],
     sb_parent = None, sb_scope = [], sb_execution_mode = ''development'', sb_attachment_ids = [''f1'', ''f1'']\<rparr>"

definition submit_service :: service where
  "submit_service = upload_service\<lparr>sv_cv := (sv_cv upload_service)\<lparr>
     cv_threads := [(''t'', sample_thread ''t'' ''u'' 1)],
     cv_attachments := [(''f1'', sample_attachment ''f1'' SCAN_CLEAN)]\<rparr>\<rparr>"

lemma submit_service_ok:
  "fresh_ids sample_submission submit_service" "keyed file_id (cv_attachments (sv_cv submit_service))"
  "keyed th_id (cv_threads (sv_cv submit_service))"
  by (simp_all add: fresh_ids_def sample_submission_def submit_service_def upload_service_def empty_run_store_def
      empty_mission_store_def mission_get_def mission_get_raw_def str_startswith_def keyed_def dict_wf_def
      sample_attachment_def sample_thread_def)

lemma hello_checks:
  "submission_checks (Some uploader) ''t'' hello_request (sv_cv submit_service) =
     Inr (uploader, sample_thread ''t'' ''u'' 1, ''hello'', [sample_attachment ''f1'' SCAN_CLEAN])"
  by (simp add: submission_checks_def hello_request_def submit_service_def sample_defs owned_thread_def
      thread_get_def is_owned_by_def sample_thread_def query_of_def text_of_part_def parent_ok_def
      map_filter_simps str_strip_def is_space_def dedupe_def)

lemma append_event_unsequenced: "ev_sequence e = 0 \<Longrightarrow> \<exists>x. append_event e rs = Inr x"
  by (simp add: append_event_def Let_def split: option.splits)

lemma submission_commit_ok:
  assumes fresh: "fresh_ids env sv" and stores: "\<not> se_store_fails env"
    and t: "dict_get (cv_threads (sv_cv sv)) (th_id t) = Some t"
    and files: "associate_many (map file_id atts) (se_message_id env) (th_id t) (th_workspace_id t) (user_id p)
       (cv_attachments (sv_cv sv)) = (True, files)"
    and ann: "\<And>r m cv. \<exists>cv'. announce env p t r m cv = (Inr (), cv')"
  shows "\<exists>ids sv'. submission_commit env p t body query atts sv = (Inr ids, sv')"
proof -
  let ?ctx = "submission_context env body t query (sv_cv sv)"
  let ?request = "if se_request_id env = [] then se_run_id env else se_request_id env"
  obtain seeded w where seed: "seed_running_mission (se_py env) (se_ts env) (se_mission_id env) query ?request (th_id t)
      (Some (th_workspace_id t)) (Some (th_owner_user_id t)) (Some (th_id t)) (Some (se_run_id env))
      (sv_missions sv) = (seeded, w)" by (metis surj_pair)
  obtain r m cv where "transaction (submission_writes env p t body query atts ?ctx ?request) (sv_cv sv) = (Inr (r, m), cv)"
    using submission_writes_eq [OF fresh HOL.refl t HOL.refl HOL.refl, of p body query atts ?ctx ?request] files by simp
  moreover obtain cv' where "announce env p t r m cv = (Inr (), cv')" using ann by blast
  ultimately show ?thesis using stores seed by (simp add: submission_commit_def Let_def)
qed

lemma hello_accepted: "\<exists>ids sv'. submit_message sample_submission (Some uploader) ''t'' hello_request submit_service = (Inr ids, sv')"
proof -
  let ?t = "sample_thread ''t'' ''u'' 1" and ?a = "sample_attachment ''f1'' SCAN_CLEAN"
  obtain files where "associate_many (map file_id [?a]) (se_message_id sample_submission) (th_id ?t) (th_workspace_id ?t)
      (user_id uploader) (cv_attachments (sv_cv submit_service)) = (True, files)"
    by (simp add: associate_many_def associable_def submit_service_def sample_attachment_def sample_thread_def
        uploader_def dedupe_def)
  moreover have "\<exists>cv'. announce sample_submission p t r m cv = (Inr (), cv')" for p t r m cv
    using append_event_unsequenced [of "queued_event sample_submission p r m" "cv_runs cv"]
    by (auto simp: announce_def extract_candidates_def sample_submission_def queued_event_def fresh_event_def)
  moreover have "\<not> se_store_fails sample_submission" by (simp add: sample_submission_def)
  moreover have "dict_get (cv_threads (sv_cv submit_service)) (th_id ?t) = Some ?t"
    by (simp add: submit_service_def sample_thread_def)
  ultimately show ?thesis
    using submission_commit_ok [OF submit_service_ok(1)] by (simp add: submit_message_def hello_checks)
qed

theorem submission_is_atomic_witness:
  "\<exists>sv'. submit_message sample_submission (Some uploader) ''t'' hello_request submit_service =
       (Inr (''m1'', ''r1'', ''MS3-1''), sv')
     \<and> run_steps empty_run_store (cv_runs (sv_cv sv'))
     \<and> map_option file_message_id (dict_get (cv_attachments (sv_cv sv')) ''f1'') = Some (Some ''m1'')"
proof -
  obtain ids sv' where sub: "submit_message sample_submission (Some uploader) ''t'' hello_request submit_service = (Inr ids, sv')"
    using hello_accepted by blast
  from submission_is_atomic [OF submit_service_ok sub] show ?thesis
    by (simp add: sub accepted_def Let_def)
      (simp add: sample_submission_def hello_request_def submit_service_def upload_service_def)
qed

theorem failed_submission_strands_mission_witness:
  "\<exists>sv' detail. submission_commit sample_submission uploader (sample_thread ''t'' ''u'' 1) hello_request ''hello''
       [sample_attachment ''f9'' SCAN_CLEAN] submit_service = (Inl (Http 409 detail), sv')
     \<and> sv_cv sv' = sv_cv submit_service \<and> raw_status (mw_store (sv_missions sv')) ''MS3-1'' = JStr ''running''"
proof -
  let ?t = "sample_thread ''t'' ''u'' 1" and ?a = "sample_attachment ''f9'' SCAN_CLEAN"
  obtain res sv' where sub: "submission_commit sample_submission uploader ?t hello_request ''hello'' [?a] submit_service
      = (res, sv')" by (metis surj_pair)
  have "associate_many (map file_id [?a]) (se_message_id sample_submission) (th_id ?t) (th_workspace_id ?t)
      (user_id uploader) (cv_attachments (sv_cv submit_service)) = (False, cv_attachments (sv_cv submit_service))"
    by (simp add: associate_many_def submit_service_def sample_attachment_def dedupe_def)
  moreover have "\<not> se_store_fails sample_submission" "se_mission_id sample_submission = ''MS3-1''"
    by (simp_all add: sample_submission_def)
  moreover have "dict_get (cv_threads (sv_cv submit_service)) (th_id ?t) = Some ?t"
    by (simp add: submit_service_def sample_thread_def)
  ultimately show ?thesis
    using failed_submission_strands_mission [OF submit_service_ok(1) _ _ _ sub] sub by auto
qed

end
