(* ===== verification/Submission_Executor.thy ===== *)
theory Submission_Executor
  imports Submission
begin

text \<open>
  Execution of a submitted run: \<^verbatim>\<open>SubmissionRunExecutor\<close> and \<^verbatim>\<open>_execute_submission\<close> of
  \<^verbatim>\<open>api/conversations.py\<close>, the executor that the recovery worker of theory \<open>Recovery\<close> calls on a
  claimed attempt. It starts the run, lets the mission job of theory \<open>Missions\<close> work, ingests the
  mission's events, writes the reply, stores the artifacts and reports the outcome.

  The agent of the mission job is a function on the mission's world; what it streams meanwhile is a
  list of calls of the executor's callbacks, and what other requests do to the repositories
  meanwhile is a function. Number formats, digests and error texts are arguments too. A stage
  answers a value or the text of the exception that leaves the executor.
\<close>

section \<open>Environment and stages\<close>

datatype callback = Stream string string | Progress string string json_obj

record execution_env =
  xe_py :: "json \<Rightarrow> string"
  xe_number :: "json \<Rightarrow> string"
  xe_reason :: "error \<Rightarrow> string"
  xe_digest :: "string \<Rightarrow> string"
  xe_dumps :: "json_obj \<Rightarrow> string"
  xe_detail_of :: "job_exception \<Rightarrow> string"
  xe_as_exc :: "error \<Rightarrow> job_exception"
  xe_ts :: string
  xe_now :: moment
  xe_draw :: "string \<Rightarrow> string"
  xe_workflow_version :: string
  xe_mapping :: mapping_env
  xe_agent :: "mission_world \<Rightarrow> (job_exception + json_obj) \<times> mission_world"
  xe_callbacks :: "callback list"
  xe_others :: "conversations \<Rightarrow> conversations"

type_synonym 'a stage = "(string + 'a) \<times> service"

definition and_then :: "'a stage \<Rightarrow> ('a \<Rightarrow> service \<Rightarrow> 'b stage) \<Rightarrow> 'b stage" where
  "and_then st k = (case st of (Inl msg, sv) \<Rightarrow> (Inl msg, sv) | (Inr x, sv) \<Rightarrow> k x sv)"

definition with_runs :: "run_store \<Rightarrow> service \<Rightarrow> service" where
  "with_runs rs sv = sv\<lparr>sv_cv := (sv_cv sv)\<lparr>cv_runs := rs\<rparr>\<rparr>"

text \<open>\<^verbatim>\<open>sink.emit\<close>: an event without a sequence number is always accepted (lemma
  \<open>append_event_unsequenced\<close>).\<close>

definition emit :: "activity_event \<Rightarrow> service \<Rightarrow> service" where
  "emit e sv = (case append_event e (cv_runs (sv_cv sv)) of Inl _ \<Rightarrow> sv | Inr (_, rs) \<Rightarrow> with_runs rs sv)"

definition named_event ::
  "execution_env \<Rightarrow> run \<Rightarrow> run_attempt \<Rightarrow> string \<Rightarrow> string \<Rightarrow> json_obj \<Rightarrow> activity_event" where
  "named_event env r a label kind payload =
     fresh_event (''event_'' @ run_id r @ ''_'' @ att_id a @ ''_'' @ label) r kind payload (xe_now env)"

definition mission_key :: "run \<Rightarrow> string" where
  "mission_key r = (case run_mission_id r of None \<Rightarrow> [] | Some m \<Rightarrow> m)"

definition attempt_event ::
  "execution_env \<Rightarrow> run \<Rightarrow> run_attempt \<Rightarrow> string \<Rightarrow> json_obj \<Rightarrow> activity_event" where
  "attempt_event env r a kind payload =
     (named_event env r a ''terminal'' kind (dict_merge
        [(''mission_id'', opt_json (run_mission_id r)), (''attempt_id'', JStr (att_id a)),
         (''attempt_number'', JInt (int (att_number a)))] payload))\<lparr>ev_completed_at := Some (xe_now env)\<rparr>"

definition cancelled_result :: "execution_env \<Rightarrow> run \<Rightarrow> run_attempt \<Rightarrow> json_obj \<Rightarrow> execution_result" where
  "cancelled_result env r a payload =
     \<lparr>xr_status = CANCELLED, xr_error_code = Some ''CANCELLED'', xr_error_message = None, xr_retryable = False,
      xr_terminal_event = Some (attempt_event env r a ''run.cancelled'' payload), xr_on_committed = None\<rparr>"

section \<open>Streaming while the mission runs\<close>

definition emit_answer_stream ::
  "execution_env \<Rightarrow> run \<Rightarrow> run_attempt \<Rightarrow> string \<Rightarrow> string \<Rightarrow> string \<Rightarrow> string \<Rightarrow> service \<Rightarrow> service" where
  "emit_answer_stream env r a reply draw kind text sv =
     (if kind = ''delta'' then
        (if text = [] then sv
         else emit (named_event env r a (''answer_delta_'' @ draw) ''answer.delta''
           [(''delta'', JStr text), (''message_id'', JStr reply), (''mission_id'', opt_json (run_mission_id r))]) sv)
      else if kind = ''reset'' then
        emit (named_event env r a (''answer_reset_'' @ draw) ''answer.reset''
           [(''message_id'', JStr reply), (''mission_id'', opt_json (run_mission_id r))]) sv
      else sv)"

definition emit_progress ::
  "execution_env \<Rightarrow> run \<Rightarrow> run_attempt \<Rightarrow> nat \<Rightarrow> string \<Rightarrow> string \<Rightarrow> json_obj \<Rightarrow> service \<Rightarrow> service" where
  "emit_progress env r a n kind summary payload sv =
     emit ((named_event env r a (''progress_'' @ nat_str n) kind (dict_merge payload
       [(''mission_id'', opt_json (run_mission_id r)), (''route'', JStr ''v3'')]))\<lparr>ev_summary := Some summary\<rparr>) sv"

text \<open>\<open>n\<close> numbers the streamed pieces (their identifiers are drawn), \<open>k\<close> is the closure's \<^verbatim>\<open>step\<close>.\<close>

fun deliver ::
  "execution_env \<Rightarrow> run \<Rightarrow> run_attempt \<Rightarrow> string \<Rightarrow> nat \<Rightarrow> nat \<Rightarrow> callback list \<Rightarrow> service \<Rightarrow> service" where
  "deliver env r a reply n k [] sv = sv"
| "deliver env r a reply n k (Stream kind text # cs) sv =
     deliver env r a reply (Suc n) k cs (emit_answer_stream env r a reply (xe_draw env (nat_str n)) kind text sv)"
| "deliver env r a reply n k (Progress kind summary payload # cs) sv =
     deliver env r a reply n (Suc k) cs (emit_progress env r a (Suc k) kind summary payload sv)"

definition run_mission ::
  "execution_env \<Rightarrow> run \<Rightarrow> run_attempt \<Rightarrow> string \<Rightarrow> string \<Rightarrow> string \<Rightarrow> service \<Rightarrow> service" where
  "run_mission env r a query request reply sv =
     (let mid = mission_key r; w = sv_missions sv;
          sv1 = sv\<lparr>sv_cv := xe_others env (sv_cv sv)\<rparr>;
          sv2 = (if is_cancel_requested mid w then sv1 else deliver env r a reply 0 0 (xe_callbacks env) sv1)
      in sv2\<lparr>sv_missions := run_mission_job (xe_py env) (xe_detail_of env) (xe_as_exc env) (xe_ts env)
           (xe_draw env ''request'') (xe_agent env) mid query request (Some (run_thread_id r)) w\<rparr>)"

section \<open>The mission's outcome\<close>

text \<open>The mission's record, completed with the context the run was submitted with.\<close>

definition mission_raw :: "run \<Rightarrow> service \<Rightarrow> json_obj" where
  "mission_raw r sv = (case run_mission_id r of None \<Rightarrow> []
     | Some m \<Rightarrow> (case mission_get_raw (mw_store (sv_missions sv)) m of None \<Rightarrow> [] | Some kvs \<Rightarrow> kvs))"

definition keep_context :: "execution_env \<Rightarrow> run \<Rightarrow> string \<Rightarrow> service \<Rightarrow> json_obj stage" where
  "keep_context env r query sv =
     (let raw = mission_raw r sv; old = obj_get raw ''metadata'' in
      case obj_get (run_metadata r) ''context_bundle'' of
        JObj bundle \<Rightarrow>
          (case (case old of JObj kvs \<Rightarrow> Some kvs | v \<Rightarrow> if truthy v then None else Some []) of
             None \<Rightarrow> (Inl ''metadata is not a mapping'', sv)
           | Some kvs \<Rightarrow>
               let raw' = dict_merge raw
                 [(''metadata'', JObj (dict_set kvs ''context_bundle'' (JObj bundle))),
                  (''input'', JObj [(''query'', JStr query), (''context_bundle'', JObj bundle)])]
               in (Inr raw', case mission_get (mw_store (sv_missions sv)) (mission_key r) of
                     None \<Rightarrow> sv
                   | Some res \<Rightarrow> sv\<lparr>sv_missions := store_put (xe_py env) res raw' (sv_missions sv)\<rparr>))
      | _ \<Rightarrow> (Inr raw, sv))"

definition objects_of :: "json list \<Rightarrow> json_obj list" where
  "objects_of xs = List.map_filter (\<lambda>v. case v of JObj kvs \<Rightarrow> Some kvs | _ \<Rightarrow> None) xs"

definition ingest_events :: "execution_env \<Rightarrow> run \<Rightarrow> run_attempt \<Rightarrow> json_obj \<Rightarrow> service \<Rightarrow> unit stage" where
  "ingest_events env r a raw sv =
     (case obj_get raw ''events'' of
        JList es \<Rightarrow>
          (case ingest_mission_events (xe_mapping env) r (att_id a)
               [''run.started'', ''run.completed'', ''run.failed'', ''run.cancelled''] (objects_of es)
               (cv_runs (sv_cv sv)) of
             (Inl e, rs) \<Rightarrow> (Inl (error_message e), with_runs rs sv)
           | (Inr _, rs) \<Rightarrow> (Inr (), with_runs rs sv))
      | _ \<Rightarrow> (Inr (), sv))"

definition response_of :: "json_obj \<Rightarrow> string" where
  "response_of raw = (case obj_get raw ''final_response'' of JStr s \<Rightarrow> s | _ \<Rightarrow> [])"

definition has_output :: "(json \<Rightarrow> string) \<Rightarrow> json_obj \<Rightarrow> bool" where
  "has_output py raw =
     (str_strip (py_str py (truthy_or (obj_get raw ''final_response'') (JStr []))) \<noteq> []
      \<or> truthy (obj_get raw ''evidence''))"

text \<open>A status that is not text is none of the mission's terminal statuses.\<close>

definition outcome_status :: "(json \<Rightarrow> string) \<Rightarrow> json_obj \<Rightarrow> run_status" where
  "outcome_status py raw =
     (let known = [(''failed'', FAILED), (''cancelled'', CANCELLED), (''completed'', COMPLETED),
            (''partial'', COMPLETED)] in
      case (case obj_get raw ''status'' of JStr s \<Rightarrow> dict_get known s | _ \<Rightarrow> None) of
        Some s \<Rightarrow> s
      | None \<Rightarrow> if has_output py raw then COMPLETED else FAILED)"

definition stored_cancelled :: "run \<Rightarrow> service \<Rightarrow> bool" where
  "stored_cancelled r sv = (case dict_get (rs_items (cv_runs (sv_cv sv))) (run_id r) of
     None \<Rightarrow> False | Some p \<Rightarrow> run_status p = CANCELLED)"

definition retryable_codes :: "string list" where
  "retryable_codes = [''ASYNC_EXECUTION_FAILED'', ''LLM_UNAVAILABLE'', ''LLM_CLASSIFICATION_UNAVAILABLE'',
     ''LLM_RATE_LIMITED'', ''MCP_ERROR'', ''MCP_UNAVAILABLE'', ''MISSION_TIMEOUT'', ''SERVICE_UNAVAILABLE'',
     ''TIMEOUT'', ''V3_AGENT_TIMEOUT'', ''V3_AGENT_FAILED'']"

definition error_code_of :: "(json \<Rightarrow> string) \<Rightarrow> json_obj \<Rightarrow> string" where
  "error_code_of py raw = py_str py (truthy_or (obj_get raw ''error_code'') (JStr []))"

definition upper_char :: "char \<Rightarrow> char" where
  "upper_char c = (let n = (of_char c :: nat) in
     if 97 \<le> n \<and> n \<le> 122 then char_of (n - 32) else c)"

definition retryable_outcome :: "(json \<Rightarrow> string) \<Rightarrow> run_status \<Rightarrow> json_obj \<Rightarrow> bool" where
  "retryable_outcome py status raw =
     (status = FAILED \<and> map upper_char (error_code_of py raw) \<in> set retryable_codes)"

definition will_retry :: "run \<Rightarrow> run_attempt \<Rightarrow> bool \<Rightarrow> bool" where
  "will_retry r a retryable = (retryable \<and> att_retryable a \<and> att_number a < run_max_attempts r)"

section \<open>The reply\<close>

text \<open>Start, end and the text of the period an evidence row is about.\<close>

definition period_of :: "(json \<Rightarrow> string) \<Rightarrow> json_obj \<Rightarrow> string" where
  "period_of py row =
     (let window = (case obj_get row ''time_range'' of JObj kvs \<Rightarrow> kvs | _ \<Rightarrow> []);
          start = (if truthy (obj_get window ''start'') then Some (take 10 (py_str py (obj_get window ''start'')))
                   else None);
          last_day = take 10 (py_str py (truthy_or (truthy_or (obj_get window ''end'') (obj_get window ''start''))
                   (JStr [])));
          until = (if last_day \<noteq> [] then Some last_day else start)
      in if str_truthy start \<and> start = until then '' for '' @ the start
         else if str_truthy start \<and> str_truthy until then '' for '' @ the start @ '' to '' @ the until
         else [])"

text \<open>\<^verbatim>\<open>f"{shown}"\<close>: \<open>xe_number\<close> is the number format of the branches on integers and floats.\<close>

definition shown_value :: "execution_env \<Rightarrow> json \<Rightarrow> string" where
  "shown_value env v = (case v of JInt _ \<Rightarrow> xe_number env v | JNum _ \<Rightarrow> xe_number env v
     | _ \<Rightarrow> py_str (xe_py env) v)"

definition source_part :: "execution_env \<Rightarrow> json \<Rightarrow> message_part option" where
  "source_part env v = (case v of
       JObj row \<Rightarrow>
         (let py = xe_py env;
              eid = str_strip (py_str py (truthy_or (obj_get row ''evidence_id'') (JStr [])));
              metric = py_str py (truthy_or (truthy_or (obj_get row ''metric_or_fact'') (obj_get row ''title''))
                (JStr ''Evidence''));
              title = underscores_to_spaces (without_prefix ''metric.'' metric);
              period = period_of py row; value = obj_get row ''value'';
              excerpt = (if value \<noteq> JNull then JStr (shown_value env value @ period)
                else if str_strip period = [] then JNull else JStr (str_strip period))
          in if eid = [] then None
             else Some \<lparr>part_type = SOURCE, part_content = CObj [(''evidence_id'', JStr eid),
                 (''title'', JStr title), (''excerpt'', excerpt)], part_metadata = []\<rparr>)
     | _ \<Rightarrow> None)"

definition evidence_rows :: "json_obj \<Rightarrow> json list" where
  "evidence_rows raw = (case obj_get raw ''evidence'' of
       JList xs \<Rightarrow> xs
     | _ \<Rightarrow> (case obj_get raw ''artifacts'' of
           JObj kvs \<Rightarrow> (case obj_get kvs ''evidence'' of JList xs \<Rightarrow> xs | _ \<Rightarrow> [])
         | _ \<Rightarrow> []))"

definition answer_parts :: "execution_env \<Rightarrow> string \<Rightarrow> json_obj \<Rightarrow> message_part list result" where
  "answer_parts env response raw = validated_parts
     (\<lparr>part_type = TEXT, part_content = CStr response, part_metadata = []\<rparr>
      # List.map_filter (source_part env) (evidence_rows raw))"

definition save_message :: "message \<Rightarrow> service \<Rightarrow> unit stage" where
  "save_message m sv = (case message_update m (cv_messages (sv_cv sv)) of
       Inl e \<Rightarrow> (Inl (error_message e), sv)
     | Inr (_, d) \<Rightarrow> (Inr (), sv\<lparr>sv_cv := (sv_cv sv)\<lparr>cv_messages := d\<rparr>\<rparr>))"

definition refresh_summary :: "execution_env \<Rightarrow> run \<Rightarrow> service \<Rightarrow> service" where
  "refresh_summary env r sv =
     (let cv = sv_cv sv in
      case thread_get (cv_threads cv) (run_thread_id r) None None of
        None \<Rightarrow> sv
      | Some t \<Rightarrow> sv\<lparr>sv_cv := cv\<lparr>cv_summaries := snd (summarize (xe_py env) (xe_draw env ''summary'') (xe_now env) t
          (message_list_for_thread (cv_messages cv) (run_thread_id r) 500) 4000 ''deterministic''
          (cv_summaries cv))\<rparr>\<rparr>)"

definition completed_event ::
  "execution_env \<Rightarrow> run \<Rightarrow> run_attempt \<Rightarrow> string \<Rightarrow> string \<Rightarrow> json_obj \<Rightarrow> run_status \<Rightarrow> activity_event" where
  "completed_event env r a query reply raw status =
     named_event env r a ''answer_completed'' ''answer.completed''
       [(''message_id'', JStr reply), (''mission_id'', opt_json (run_mission_id r)), (''route'', obj_get raw ''route''),
        (''query'', JStr query),
        (''status'', JStr (str_lower (py_str (xe_py env)
           (truthy_or (obj_get raw ''status'') (JStr (run_status_value status)))))),
        (''final_response'', JStr (response_of raw)),
        (''evidence'', (case obj_get raw ''evidence'' of JList xs \<Rightarrow> JList xs | _ \<Rightarrow> JList []))]"

definition write_answer ::
  "execution_env \<Rightarrow> run \<Rightarrow> run_attempt \<Rightarrow> string \<Rightarrow> string \<Rightarrow> json_obj \<Rightarrow> run_status \<Rightarrow> service \<Rightarrow> unit stage" where
  "write_answer env r a query reply raw status sv =
     (case message_get (cv_messages (sv_cv sv)) reply None of
        None \<Rightarrow> (Inl ''assistant placeholder is missing'', sv)
      | Some m \<Rightarrow> (case answer_parts env (response_of raw) raw of
            Inl e \<Rightarrow> (Inl (error_message e), sv)
          | Inr parts \<Rightarrow>
              and_then (save_message (m\<lparr>msg_parts := parts, msg_updated_at := xe_now env\<rparr>) sv) (\<lambda>_ sv.
                (Inr (), refresh_summary env r (emit (completed_event env r a query reply raw status) sv)))))"

definition announce_retry ::
  "execution_env \<Rightarrow> run \<Rightarrow> run_attempt \<Rightarrow> string \<Rightarrow> json_obj \<Rightarrow> service \<Rightarrow> service" where
  "announce_retry env r a reply raw sv =
     emit ((named_event env r a ''retrying'' ''agent.retrying''
         [(''mission_id'', opt_json (run_mission_id r)), (''attempt_number'', JInt (int (att_number a))),
          (''error_code'', JStr (error_code_of (xe_py env) raw))])
         \<lparr>ev_summary := Some (''Retrying after an error (attempt '' @ nat_str (att_number a + 1) @ '' of ''
             @ nat_str (run_max_attempts r) @ '')...'')\<rparr>)
       (emit_answer_stream env r a reply (xe_draw env ''retry'') ''reset'' [] sv)"

definition write_warning ::
  "execution_env \<Rightarrow> string \<Rightarrow> json_obj \<Rightarrow> run_status \<Rightarrow> service \<Rightarrow> unit stage" where
  "write_warning env reply raw status sv =
     (case message_get (cv_messages (sv_cv sv)) reply None of
        None \<Rightarrow> (Inr (), sv)
      | Some m \<Rightarrow>
          let text = (if str_strip (response_of raw) \<noteq> [] then response_of raw
                else if status = CANCELLED then ''Run cancelled.'' else ''Run failed without a response.'')
          in save_message (m\<lparr>msg_parts := [warning_part text (str_lower (run_status_value status))],
               msg_updated_at := xe_now env\<rparr>) sv)"

definition write_reply ::
  "execution_env \<Rightarrow> run \<Rightarrow> run_attempt \<Rightarrow> string \<Rightarrow> string \<Rightarrow> json_obj \<Rightarrow> run_status \<Rightarrow> service \<Rightarrow> unit stage" where
  "write_reply env r a query reply raw status sv =
     (if str_strip (response_of raw) \<noteq> [] \<and> status = COMPLETED
      then write_answer env r a query reply raw status sv
      else if will_retry r a (retryable_outcome (xe_py env) status raw)
      then (Inr (), announce_retry env r a reply raw sv)
      else write_warning env reply raw status sv)"

section \<open>Artifacts\<close>

text \<open>Iterating over a value: the elements of a list, the characters of a text, the keys of an
  object; other truthy values are not iterable.\<close>

definition iterated :: "json \<Rightarrow> json list option" where
  "iterated v = (if \<not> truthy v then Some [] else case v of
       JList xs \<Rightarrow> Some xs | JStr s \<Rightarrow> Some (map (\<lambda>c. JStr [c]) s)
     | JObj kvs \<Rightarrow> Some (map (\<lambda>kv. JStr (fst kv)) kvs) | _ \<Rightarrow> None)"

definition payload_evidence :: "(json \<Rightarrow> string) \<Rightarrow> string \<Rightarrow> json_obj \<Rightarrow> string list option" where
  "payload_evidence py type payload =
     map_option (\<lambda>refs. map (py_str py) (filter truthy refs)
         @ (if str_lower type = ''evidence'' then
              (let own = truthy_or (obj_get payload ''evidence_id'') (obj_get payload ''artifact_id'') in
               if truthy own then [py_str py own] else [])
            else []))
       (iterated (truthy_or (truthy_or (obj_get payload ''evidence_refs'') (obj_get payload ''evidence_ids''))
          (obj_get payload ''source_evidence_ids'')))"

definition source_metadata_of :: "json_obj \<Rightarrow> json_obj" where
  "source_metadata_of payload = (case obj_get payload ''source_metadata'' of
       JObj kvs \<Rightarrow> kvs
     | _ \<Rightarrow> List.map_filter (\<lambda>k. map_option (Pair k) (dict_get payload k))
         [''source'', ''source_tool'', ''query'', ''dataset'', ''time_range''])"

definition classification_of ::
  "(json \<Rightarrow> string) \<Rightarrow> string \<Rightarrow> json_obj \<Rightarrow> string list \<Rightarrow> artifact_classification result" where
  "classification_of py type payload evidence_ids =
     (let declared = str_lower (py_str py (truthy_or (obj_get payload ''classification'') (JStr []))) in
      if str_lower type = ''evidence'' then Inr Factual
      else if declared = ''ui'' then Inr Ui
      else if declared = ''factual'' then Inr Factual
      else if declared = ''derived'' then Inr Derived
      else if evidence_ids \<noteq> [] then Inr Derived
      else Inl (ValueError ''missing explicit classification and evidence provenance''))"

definition version_text :: "(json \<Rightarrow> string) \<Rightarrow> json_obj \<Rightarrow> string \<Rightarrow> string option" where
  "version_text py payload k = (if obj_get payload k = JNull then None else Some (py_str py (obj_get payload k)))"

definition artifact_identifier :: "execution_env \<Rightarrow> run \<Rightarrow> run_attempt \<Rightarrow> string \<Rightarrow> nat \<Rightarrow> json_obj \<Rightarrow> string" where
  "artifact_identifier env r a type position payload =
     py_str (xe_py env) (truthy_or (truthy_or (obj_get payload ''artifact_id'') (obj_get payload ''id''))
       (JStr (''artifact_'' @ take 32 (xe_digest env (run_id r @ '':'' @ att_id a @ '':'' @ type @ '':''
          @ nat_str position @ '':'' @ xe_dumps env payload)))))"

definition new_artifact ::
  "execution_env \<Rightarrow> run \<Rightarrow> run_attempt \<Rightarrow> string \<Rightarrow> nat \<Rightarrow> json_obj \<Rightarrow> string list
   \<Rightarrow> artifact_classification \<Rightarrow> artifact" where
  "new_artifact env r a type position payload evidence_ids classification =
     (let py = xe_py env in
      \<lparr>art_id = artifact_identifier env r a type position payload, art_workspace_id = run_workspace_id r,
       art_artifact_type = type, art_payload = payload, art_classification = classification,
       art_evidence_ids = dedupe evidence_ids,
       art_provenance = \<lparr>prov_evidence_ids = dedupe evidence_ids,
         prov_calculation_version = (if classification = Derived
           then Some (py_str py (truthy_or (obj_get payload ''calculation_version'') (JStr (xe_workflow_version env))))
           else None),
         prov_query_version = version_text py payload ''query_version'',
         prov_prompt_version = version_text py payload ''prompt_version'',
         prov_tool_version = version_text py payload ''tool_version'',
         prov_model_version = version_text py payload ''model_version'',
         prov_source_metadata = source_metadata_of payload\<rparr>,
       art_mission_id = run_mission_id r, art_thread_id = Some (run_thread_id r), art_run_id = Some (run_id r),
       art_message_id = None, art_created_at = xe_now env\<rparr>)"

definition reject_artifact ::
  "execution_env \<Rightarrow> run \<Rightarrow> string \<Rightarrow> nat \<Rightarrow> error \<Rightarrow> service \<Rightarrow> service" where
  "reject_artifact env r type position e sv =
     emit (fresh_event (xe_draw env (''rejected '' @ type @ nat_str position)) r ''artifact.rejected''
       [(''artifact_type'', JStr type), (''reason'', JStr (xe_reason env e))] (xe_now env)) sv"

text \<open>Validation errors reject the artifact; any other exception leaves the executor.\<close>

definition store_artifact ::
  "execution_env \<Rightarrow> run \<Rightarrow> run_attempt \<Rightarrow> string \<Rightarrow> nat \<Rightarrow> json_obj \<Rightarrow> service \<Rightarrow> unit stage" where
  "store_artifact env r a type position payload sv =
     (case payload_evidence (xe_py env) type payload of
        None \<Rightarrow> (Inl ''value is not iterable'', sv)
      | Some evidence_ids \<Rightarrow>
          (case classification_of (xe_py env) type payload evidence_ids of
             Inl e \<Rightarrow> (Inr (), reject_artifact env r type position e sv)
           | Inr classification \<Rightarrow>
               (case result_bind (validate_classification_boundary
                    (new_artifact env r a type position payload evidence_ids classification))
                    (\<lambda>artifact. artifact_put artifact (cv_artifacts (sv_cv sv))) of
                  Inl (PermissionError msg) \<Rightarrow> (Inl msg, sv)
                | Inl e \<Rightarrow> (Inr (), reject_artifact env r type position e sv)
                | Inr (artifact, d) \<Rightarrow>
                    (Inr (), emit (named_event env r a (''artifact_'' @ art_id artifact) ''artifact.created''
                        [(''artifact_id'', JStr (art_id artifact)), (''artifact_type'', JStr (art_artifact_type artifact))])
                      (sv\<lparr>sv_cv := (sv_cv sv)\<lparr>cv_artifacts := d\<rparr>\<rparr>)))))"

fun store_artifacts ::
  "execution_env \<Rightarrow> run \<Rightarrow> run_attempt \<Rightarrow> (string \<times> nat \<times> json) list \<Rightarrow> service \<Rightarrow> unit stage" where
  "store_artifacts env r a [] sv = (Inr (), sv)"
| "store_artifacts env r a ((type, position, v) # rest) sv =
     and_then (case v of JObj payload \<Rightarrow> store_artifact env r a type position payload sv | _ \<Rightarrow> (Inr (), sv))
       (\<lambda>_ sv. store_artifacts env r a rest sv)"

definition artifact_groups :: "json_obj \<Rightarrow> (string \<times> nat \<times> json) list" where
  "artifact_groups raw = (case obj_get raw ''artifacts'' of
       JObj groups \<Rightarrow> concat (map (\<lambda>(type, items). case items of
           JList xs \<Rightarrow> map (\<lambda>i. (type, i, xs ! i)) [0..<length xs] | _ \<Rightarrow> []) groups)
     | _ \<Rightarrow> [])"

section \<open>The executor\<close>

definition result_text :: "(json \<Rightarrow> string) \<Rightarrow> json \<Rightarrow> string option" where
  "result_text py v = (let s = py_str py (truthy_or v (JStr [])) in if s = [] then None else Some s)"

definition terminal_kind :: "run_status \<Rightarrow> string" where
  "terminal_kind s = (if s = COMPLETED then ''run.completed'' else if s = CANCELLED then ''run.cancelled''
     else ''run.failed'')"

definition submission_result ::
  "execution_env \<Rightarrow> run \<Rightarrow> run_attempt \<Rightarrow> json_obj \<Rightarrow> run_status \<Rightarrow> execution_result" where
  "submission_result env r a raw status =
     \<lparr>xr_status = status, xr_error_code = result_text (xe_py env) (obj_get raw ''error_code''),
      xr_error_message = result_text (xe_py env) (obj_get raw ''error_message''),
      xr_retryable = retryable_outcome (xe_py env) status raw,
      xr_terminal_event = Some (attempt_event env r a (terminal_kind status)
        [(''route'', truthy_or (obj_get raw ''route'') (JStr ''v3''))]),
      xr_on_committed = None\<rparr>"

text \<open>Once the run is \<^verbatim>\<open>RUNNING\<close>: the mission, its events, the reply and the artifacts.\<close>

definition execute_started ::
  "execution_env \<Rightarrow> run \<Rightarrow> run \<Rightarrow> run_attempt \<Rightarrow> string \<Rightarrow> string \<Rightarrow> string \<Rightarrow> service \<Rightarrow> execution_result stage" where
  "execute_started env running r a query request reply sv =
     and_then (keep_context env r query (run_mission env r a query request reply sv)) (\<lambda>raw sv.
     and_then (ingest_events env running a raw sv) (\<lambda>_ sv.
     let status = (if stored_cancelled r sv then CANCELLED else outcome_status (xe_py env) raw) in
     and_then (write_reply env r a query reply raw status sv) (\<lambda>_ sv.
     and_then (store_artifacts env running a (artifact_groups raw) sv) (\<lambda>_ sv.
       (Inr (submission_result env running a raw status), sv)))))"

definition start_event :: "execution_env \<Rightarrow> run \<Rightarrow> run_attempt \<Rightarrow> activity_event" where
  "start_event env running a =
     (named_event env running a ''started'' ''run.started''
        [(''mission_id'', opt_json (run_mission_id running)), (''attempt_id'', JStr (att_id a)),
         (''attempt_number'', JInt (int (att_number a))), (''route'', JStr ''v3'')])
       \<lparr>ev_started_at := run_started_at running\<rparr>"

definition cancelled_before_start :: "run \<Rightarrow> service \<Rightarrow> bool" where
  "cancelled_before_start r sv =
     (stored_cancelled r sv
      \<or> (str_truthy (run_mission_id r) \<and> is_requested (mw_flags (sv_missions sv)) (mission_key r)))"

definition execute_submission ::
  "execution_env \<Rightarrow> run \<Rightarrow> run_attempt \<Rightarrow> string \<Rightarrow> string \<Rightarrow> string \<Rightarrow> service \<Rightarrow> execution_result stage" where
  "execute_submission env r a query request reply sv =
     (if \<not> str_truthy (att_worker_id a)
      then (Inl ''submission executor requires a claimed run attempt'', sv)
      else if cancelled_before_start r sv then (Inr (cancelled_result env r a []), sv)
      else (case compare_and_set_status (run_id r) {QUEUED} RUNNING (xe_now env) (cv_runs (sv_cv sv)) of
          (None, rs) \<Rightarrow>
            (if stored_cancelled r (with_runs rs sv)
             then (Inr (cancelled_result env r a [(''route'', JStr ''v3'')]), with_runs rs sv)
             else (Inl (''run '' @ run_id r @ '' could not enter RUNNING state''), with_runs rs sv))
        | (Some running, rs) \<Rightarrow>
            execute_started env running r a query request reply (emit (start_event env running a) (with_runs rs sv))))"

text \<open>\<^verbatim>\<open>SubmissionRunExecutor.__call__\<close>: the submission is read back from the run. Of its fields the
  executor's model uses the query, the request and the reply; the others are passed to the agent.\<close>

definition submission_of :: "run \<Rightarrow> json_obj" where
  "submission_of r = (case obj_get (run_metadata r) ''submission'' of JObj kvs \<Rightarrow> kvs | _ \<Rightarrow> [])"

definition persisted_query :: "execution_env \<Rightarrow> run \<Rightarrow> service \<Rightarrow> string" where
  "persisted_query env r sv =
     (let raw_input = (case obj_get (mission_raw r sv) ''input'' of JObj kvs \<Rightarrow> kvs | _ \<Rightarrow> []) in
      str_strip (py_str (xe_py env) (truthy_or (truthy_or (obj_get (submission_of r) ''query'')
        (obj_get raw_input ''query'')) (JStr []))))"

definition persisted_reply :: "execution_env \<Rightarrow> run \<Rightarrow> service \<Rightarrow> string" where
  "persisted_reply env r sv =
     (let named = py_str (xe_py env) (truthy_or (obj_get (submission_of r) ''assistant_message_id'') (JStr [])) in
      if named \<noteq> [] then named
      else (case find (\<lambda>m. msg_run_id m = Some (run_id r) \<and> msg_role m = ASSISTANT)
              (message_list_for_thread (cv_messages (sv_cv sv)) (run_thread_id r) 500) of
          Some m \<Rightarrow> msg_id m | None \<Rightarrow> []))"

definition submission_executor ::
  "execution_env \<Rightarrow> run \<Rightarrow> run_attempt \<Rightarrow> service \<Rightarrow> execution_result stage" where
  "submission_executor env r a sv =
     (let query = persisted_query env r sv; reply = persisted_reply env r sv in
      if query = [] then (Inl (''run '' @ run_id r @ '' has no persisted submission query''), sv)
      else if reply = [] then (Inl (''run '' @ run_id r @ '' has no assistant placeholder''), sv)
      else execute_submission env r a query
        (py_str (xe_py env) (truthy_or (obj_get (submission_of r) ''request_id'') (JStr (run_id r)))) reply sv)"

section \<open>The executor is a client of the run protocol\<close>

text \<open>A stage changes the run store by steps of the run protocol.\<close>

definition steps_to :: "service \<Rightarrow> service \<Rightarrow> bool" where
  "steps_to sv sv' = run_steps (cv_runs (sv_cv sv)) (cv_runs (sv_cv sv'))"

named_theorems protocol_steps

lemma steps_to_refl [protocol_steps, simp]: "steps_to sv sv"
  by (simp add: steps_to_def run_steps.refl)

lemma steps_to_trans [trans]: "steps_to sv sv' \<Longrightarrow> steps_to sv' sv'' \<Longrightarrow> steps_to sv sv''"
  unfolding steps_to_def using run_steps_trans by blast

lemma steps_to_cong:
  "cv_runs (sv_cv sv'') = cv_runs (sv_cv sv') \<Longrightarrow> steps_to sv sv'' = steps_to sv sv'"
  by (simp add: steps_to_def)

lemma and_then_steps:
  assumes "steps_to sv (snd st)" "\<And>x sv'. st = (Inr x, sv') \<Longrightarrow> steps_to sv' (snd (k x sv'))"
  shows "steps_to sv (snd (and_then st k))"
proof (cases st)
  case (Pair res sv')
  then show ?thesis using assms by (cases res) (auto simp: and_then_def intro: steps_to_trans)
qed

lemma emit_steps [protocol_steps]: "steps_to sv (emit e sv)"
  by (auto simp: emit_def steps_to_def with_runs_def intro: run_steps.refl run_steps_one run_step.record_event
      split: sum.splits)

lemma stream_steps [protocol_steps]: "steps_to sv (emit_answer_stream env r a reply draw kind text sv)"
  by (simp add: emit_answer_stream_def protocol_steps)

lemma deliver_steps [protocol_steps]: "steps_to sv (deliver env r a reply n k cs sv)"
proof (induction cs arbitrary: n k sv)
  case (Cons c cs)
  then show ?case
    by (cases c) (auto simp: emit_progress_def intro: steps_to_trans [OF stream_steps] steps_to_trans [OF emit_steps])
qed simp

lemma ingest_from_steps: "run_steps rs (snd (ingest_from env r aid ex n es rs))"
proof (induction es arbitrary: n rs)
  case (Cons e es)
  have "run_steps rs (snd (ingest_from env r aid ex (Suc n) es rs1))" if "append_event m rs = Inr (ev, rs1)" for m ev rs1
    using run_steps_trans [OF Cons.IH run_steps_one [OF run_step.record_event [OF that]]] .
  then show ?case using Cons.IH by (auto split: sum.splits prod.splits simp: run_steps.refl, (metis snd_conv)+)
qed (simp add: run_steps.refl)

lemma ingest_steps [protocol_steps]: "steps_to sv (snd (ingest_events env r a raw sv))"
proof -
  have "run_steps (cv_runs (sv_cv sv)) rs" if "ingest_mission_events m r' aid ex es (cv_runs (sv_cv sv)) = (res, rs)"
    for m r' aid ex es res rs using ingest_from_steps [of "cv_runs (sv_cv sv)" m r' aid ex 1 es] that
    by (simp add: ingest_mission_events_def)
  then show ?thesis by (auto simp: ingest_events_def steps_to_def with_runs_def run_steps.refl
      split: json.splits prod.splits sum.splits)
qed

lemma save_message_steps [protocol_steps]: "steps_to sv (snd (save_message m sv))"
  by (auto simp: save_message_def steps_to_def run_steps.refl split: sum.splits)

lemma keep_context_steps [protocol_steps]: "steps_to sv (snd (keep_context env r query sv))"
  by (auto simp: keep_context_def steps_to_def run_steps.refl Let_def split: json.splits option.splits)

lemma refresh_summary_steps [protocol_steps]: "steps_to sv (refresh_summary env r sv)"
  by (auto simp: refresh_summary_def steps_to_def run_steps.refl Let_def split: option.splits)

lemma write_reply_steps [protocol_steps]: "steps_to sv (snd (write_reply env r a query reply raw status sv))"
proof -
  have "steps_to sv (snd (write_answer env r a query reply raw st sv))" for st
    by (auto simp: write_answer_def split: option.splits sum.splits
        intro!: and_then_steps save_message_steps steps_to_trans [OF emit_steps refresh_summary_steps])
  moreover have "steps_to sv (announce_retry env r a reply raw sv)"
    unfolding announce_retry_def by (rule steps_to_trans [OF stream_steps emit_steps])
  moreover have "steps_to sv (snd (write_warning env reply raw status sv))"
    by (auto simp: write_warning_def Let_def save_message_steps split: option.splits)
  ultimately show ?thesis by (simp add: write_reply_def)
qed

lemma store_artifact_steps [protocol_steps]: "steps_to sv (snd (store_artifact env r a type position payload sv))"
proof -
  have "steps_to sv (emit e (sv\<lparr>sv_cv := (sv_cv sv)\<lparr>cv_artifacts := d\<rparr>\<rparr>))" for e d
    using emit_steps [of "sv\<lparr>sv_cv := (sv_cv sv)\<lparr>cv_artifacts := d\<rparr>\<rparr>" e] by (simp add: steps_to_def)
  then show ?thesis
    by (auto simp: store_artifact_def reject_artifact_def emit_steps split: option.splits sum.splits error.splits prod.splits)
qed

lemma store_artifacts_steps [protocol_steps]: "steps_to sv (snd (store_artifacts env r a gs sv))"
proof (induction gs arbitrary: sv)
  case (Cons g gs)
  obtain type position v where g: "g = (type, position, v)" by (rule prod_cases3)
  show ?case unfolding g store_artifacts.simps
    by (rule and_then_steps) (auto simp: store_artifact_steps Cons.IH split: json.splits)
qed simp

lemma run_mission_steps:
  assumes "\<And>cv. run_steps (cv_runs cv) (cv_runs (xe_others env cv))"
  shows "steps_to sv (run_mission env r a query request reply sv)"
proof -
  let ?sv1 = "sv\<lparr>sv_cv := xe_others env (sv_cv sv)\<rparr>"
  have "steps_to sv ?sv1" using assms by (simp add: steps_to_def)
  from steps_to_trans [OF this deliver_steps] this show ?thesis
    by (simp add: run_mission_def Let_def steps_to_cong [of "_\<lparr>sv_missions := _\<rparr>"])
qed

lemma execute_started_steps:
  assumes "\<And>cv. run_steps (cv_runs cv) (cv_runs (xe_others env cv))"
  shows "steps_to sv (snd (execute_started env running r a query request reply sv))"
  unfolding execute_started_def
  by (intro and_then_steps) (auto simp: Let_def intro!: and_then_steps protocol_steps
      steps_to_trans [OF run_mission_steps [OF assms] keep_context_steps])

lemma executor_steps:
  assumes "\<And>cv. run_steps (cv_runs cv) (cv_runs (xe_others env cv))"
  shows "steps_to sv (snd (submission_executor env r a sv))"
proof -
  have cas: "steps_to sv (with_runs rs sv)"
    if "compare_and_set_status rid {QUEUED} RUNNING now (cv_runs (sv_cv sv)) = (x, rs)" for rid now x rs
    using run_steps_one [OF run_step.start [of "cv_runs (sv_cv sv)" rid now]] that by (simp add: steps_to_def with_runs_def)
  have "steps_to sv (snd (execute_submission env r a query request reply sv))" for query request reply
    by (auto simp: execute_submission_def cas split: prod.splits option.splits
        intro!: steps_to_trans [OF steps_to_trans [OF cas emit_steps] execute_started_steps [OF assms]])
  then show ?thesis by (simp add: submission_executor_def Let_def)
qed

lemma and_then_Inr: "and_then st k = (Inr y, sv') \<Longrightarrow> \<exists>x sv1. st = (Inr x, sv1) \<and> k x sv1 = (Inr y, sv')"
  by (auto simp: and_then_def split: prod.splits sum.splits)

lemma executor_terminal:
  assumes "submission_executor env r a sv = (Inr x, sv')"
  shows "run_terminal (xr_status x)"
proof -
  have outcome: "run_terminal (outcome_status py raw)" for py raw
    by (auto simp: outcome_status_def run_terminal_def Let_def split: json.splits option.splits if_splits)
  have "run_terminal (xr_status x)" if "execute_started env running r a query request reply sv1 = (Inr x, sv2)"
    for running query request reply sv1 sv2
    using that outcome unfolding execute_started_def Let_def
    by (auto dest!: and_then_Inr simp: submission_result_def)
  with assms show ?thesis
    by (auto simp: submission_executor_def execute_submission_def cancelled_result_def Let_def
        split: if_splits prod.splits option.splits)
qed

text \<open>The executor as the recovery worker sees it: a function on the run store, with the rest of the
  service as it is when the worker calls it.\<close>

definition executor_of :: "execution_env \<Rightarrow> service \<Rightarrow> run \<Rightarrow> run_attempt \<Rightarrow> run_store \<Rightarrow> exec_outcome \<times> run_store" where
  "executor_of env sv r a rs =
     (case submission_executor env r a (with_runs rs sv) of
        (Inl msg, sv') \<Rightarrow> (Raised msg, cv_runs (sv_cv sv'))
      | (Inr x, sv') \<Rightarrow> (Returned (Some x), cv_runs (sv_cv sv')))"

text \<open>C3. The submission executor keeps the contract the recovery worker relies on, whatever the agent
  does and streams: it changes the run store by steps of the run protocol only and returns a
  terminal status. With it the worker's guarantees hold for the program's own executor.\<close>

theorem submission_executor_keeps_contract:
  assumes "\<And>cv. run_steps (cv_runs cv) (cv_runs (xe_others env cv))"
  shows "env_ok (wenv\<lparr>we_executor := executor_of env sv\<rparr>)"
proof -
  have "run_steps rs (snd (executor_of env sv r a rs))" for r a rs
    using executor_steps [OF assms, of "with_runs rs sv" r a]
    by (auto simp: executor_of_def steps_to_def with_runs_def split: prod.splits sum.splits)
  moreover have "run_terminal (xr_status x)" if "fst (executor_of env sv r a rs) = Returned (Some x)" for r a rs x
    using that executor_terminal by (auto simp: executor_of_def split: prod.splits sum.splits)
  ultimately show ?thesis by (simp add: env_ok_def)
qed

section \<open>What becomes of the reply\<close>

text \<open>A stage leaves the messages and the mission's record alone.\<close>

definition quiet :: "service \<Rightarrow> service \<Rightarrow> bool" where
  "quiet sv sv' = (cv_messages (sv_cv sv') = cv_messages (sv_cv sv) \<and> sv_missions sv' = sv_missions sv)"

lemma quiet_refl [simp]: "quiet sv sv"
  by (simp add: quiet_def)

lemma quiet_trans: "quiet sv sv' \<Longrightarrow> quiet sv' sv'' \<Longrightarrow> quiet sv sv''"
  by (simp add: quiet_def)

lemma quiet_emit [simp]: "quiet sv (emit e sv)"
  by (auto simp: quiet_def emit_def with_runs_def split: sum.splits)

lemma quiet_stream [simp]: "quiet sv (emit_answer_stream env r a reply draw kind text sv)"
  by (simp add: emit_answer_stream_def)

lemma quiet_deliver: "quiet sv (deliver env r a reply n k cs sv)"
proof (induction cs arbitrary: n k sv)
  case (Cons c cs)
  then show ?case
    by (cases c) (auto simp: emit_progress_def intro: quiet_trans [OF quiet_stream] quiet_trans [OF quiet_emit])
qed simp

lemma quiet_ingest: "quiet sv (snd (ingest_events env r a raw sv))"
  by (auto simp: ingest_events_def quiet_def with_runs_def split: json.splits prod.splits sum.splits)

lemma quiet_store_artifact: "quiet sv (snd (store_artifact env r a type position payload sv))"
proof -
  have "quiet sv (emit e (sv\<lparr>sv_cv := (sv_cv sv)\<lparr>cv_artifacts := d\<rparr>\<rparr>))" for e d
    using quiet_emit [of "sv\<lparr>sv_cv := (sv_cv sv)\<lparr>cv_artifacts := d\<rparr>\<rparr>" e] by (simp add: quiet_def)
  then show ?thesis
    by (auto simp: store_artifact_def reject_artifact_def split: option.splits sum.splits error.splits prod.splits)
qed

lemma and_then_quiet:
  assumes "quiet sv (snd st)" "\<And>x sv'. st = (Inr x, sv') \<Longrightarrow> quiet sv' (snd (k x sv'))"
  shows "quiet sv (snd (and_then st k))"
proof (cases st)
  case (Pair res sv')
  then show ?thesis using assms by (cases res) (auto simp: and_then_def intro: quiet_trans)
qed

lemma quiet_store_artifacts: "quiet sv (snd (store_artifacts env r a gs sv))"
proof (induction gs arbitrary: sv)
  case (Cons g gs)
  obtain type position v where g: "g = (type, position, v)" by (rule prod_cases3)
  show ?case
    unfolding g store_artifacts.simps
    by (rule and_then_quiet) (auto simp: quiet_store_artifact Cons.IH split: json.splits)
qed simp

text \<open>The reply of a run, as the outcome of the attempt and the mission's record demand it.\<close>

definition settled_parts :: "execution_env \<Rightarrow> json_obj \<Rightarrow> run_status \<Rightarrow> message_part list \<Rightarrow> bool" where
  "settled_parts env raw status parts =
     (if str_strip (response_of raw) \<noteq> [] \<and> status = COMPLETED
      then answer_parts env (response_of raw) raw = Inr parts
      else parts = [warning_part (if str_strip (response_of raw) \<noteq> [] then response_of raw
          else if status = CANCELLED then ''Run cancelled.'' else ''Run failed without a response.'')
        (str_lower (run_status_value status))])"

lemma save_message_dict:
  assumes "save_message (m\<lparr>msg_parts := parts, msg_updated_at := now\<rparr>) sv = (Inr x, sv')"
    and "dict_get (cv_messages (sv_cv sv)) k = Some m" and "msg_id m = k"
  shows "sv_missions sv' = sv_missions sv \<and> (\<forall>j. dict_get (cv_messages (sv_cv sv')) j =
    (if j = k then Some (m\<lparr>msg_parts := parts, msg_updated_at := now\<rparr>) else dict_get (cv_messages (sv_cv sv)) j))"
  using assms by (auto simp: save_message_def message_update_def split: sum.splits option.splits if_splits)

lemma write_reply_settles:
  assumes "write_reply env r a query reply raw status sv = (Inr x, sv')"
    and "keyed msg_id (cv_messages (sv_cv sv))" and "dict_get (cv_messages (sv_cv sv)) reply = Some m"
  shows "sv_missions sv' = sv_missions sv \<and> (\<forall>k. k \<noteq> reply \<longrightarrow>
      dict_get (cv_messages (sv_cv sv')) k = dict_get (cv_messages (sv_cv sv)) k)
    \<and> (if will_retry r a (retryable_outcome (xe_py env) status raw)
       then dict_get (cv_messages (sv_cv sv')) reply = Some m
       else \<exists>parts. settled_parts env raw status parts
         \<and> dict_get (cv_messages (sv_cv sv')) reply = Some (m\<lparr>msg_parts := parts, msg_updated_at := xe_now env\<rparr>))"
proof -
  have id: "msg_id m = reply" using keyed_get [OF assms(2,3)] .
  have get: "message_get (cv_messages (sv_cv sv)) reply None = Some m" using assms(3) by (simp add: message_get_def)
  have refresh: "quiet sv1 (refresh_summary env r sv1)" for sv1
    by (auto simp: quiet_def refresh_summary_def Let_def split: option.splits)
  show ?thesis
  proof (cases "str_strip (response_of raw) \<noteq> [] \<and> status = COMPLETED")
    case True
    then have "write_answer env r a query reply raw status sv = (Inr x, sv')"
      using assms(1) by (simp add: write_reply_def)
    then obtain parts sv1 y where parts: "answer_parts env (response_of raw) raw = Inr parts"
      and save: "save_message (m\<lparr>msg_parts := parts, msg_updated_at := xe_now env\<rparr>) sv = (Inr y, sv1)"
      and sv': "sv' = refresh_summary env r (emit (completed_event env r a query reply raw status) sv1)"
      by (auto simp: write_answer_def get dest!: and_then_Inr split: sum.splits)
    have "quiet sv1 sv'" unfolding sv' by (rule quiet_trans [OF quiet_emit refresh])
    moreover have "\<not> will_retry r a (retryable_outcome (xe_py env) status raw)"
      using True by (simp add: will_retry_def retryable_outcome_def)
    ultimately show ?thesis using save_message_dict [OF save assms(3) id] True parts
      by (auto simp: quiet_def settled_parts_def)
  next
    case answered: False
    show ?thesis
    proof (cases "will_retry r a (retryable_outcome (xe_py env) status raw)")
      case True
      then have "sv' = announce_retry env r a reply raw sv"
        using assms(1) answered by (auto simp: write_reply_def split: if_splits)
      then have "quiet sv sv'" by (simp add: announce_retry_def quiet_trans [OF quiet_stream quiet_emit])
      with True assms(3) show ?thesis by (simp add: quiet_def)
    next
      case False
      then have "write_warning env reply raw status sv = (Inr x, sv')"
        using assms(1) answered by (auto simp: write_reply_def split: if_splits)
      then obtain parts where save: "save_message (m\<lparr>msg_parts := parts, msg_updated_at := xe_now env\<rparr>) sv = (Inr x, sv')"
        and parts: "settled_parts env raw status parts"
        using answered by (auto simp: write_warning_def get settled_parts_def Let_def)
      show ?thesis using False save_message_dict [OF save assms(3) id] parts by auto
    qed
  qed
qed

definition same_record :: "json_obj \<Rightarrow> json_obj \<Rightarrow> bool" where
  "same_record raw raw' = (\<forall>k. k \<notin> {''metadata'', ''input''} \<longrightarrow> obj_get raw k = obj_get raw' k)"

lemma same_record_refl [simp]: "same_record raw raw"
  by (simp add: same_record_def)

lemma same_record_settled:
  assumes "same_record raw raw'"
  shows "settled_parts env raw status parts = settled_parts env raw' status parts"
proof -
  have e: "obj_get raw ''final_response'' = obj_get raw' ''final_response''"
    "obj_get raw ''evidence'' = obj_get raw' ''evidence''" "obj_get raw ''artifacts'' = obj_get raw' ''artifacts''"
    using assms by (simp_all add: same_record_def)
  have "response_of raw = response_of raw'" "evidence_rows raw = evidence_rows raw'"
    by (simp_all only: response_of_def evidence_rows_def e)
  then show ?thesis by (simp add: settled_parts_def answer_parts_def)
qed

lemma keep_context_record:
  assumes "keep_context env r query sv = (Inr raw, sv')"
  shows "cv_messages (sv_cv sv') = cv_messages (sv_cv sv) \<and> same_record raw (mission_raw r sv')"
proof (cases "\<exists>bundle. obj_get (run_metadata r) ''context_bundle'' = JObj bundle")
  case False
  with assms show ?thesis by (auto simp: keep_context_def Let_def split: json.splits)
next
  case True
  let ?old = "mission_raw r sv"
  obtain ctx where b: "obj_get (run_metadata r) ''context_bundle'' = JObj ctx" using True by blast
  let ?kept = "case obj_get ?old ''metadata'' of JObj kvs \<Rightarrow> Some kvs | v \<Rightarrow> if truthy v then None else Some []"
  obtain kvs where kvs: "?kept = Some kvs"
    using assms by (cases ?kept) (simp_all add: keep_context_def b Let_def)
  define meta where "meta = JObj (dict_set kvs ''context_bundle'' (JObj ctx))"
  define inp where "inp = JObj [(''query'', JStr query), (''context_bundle'', JObj ctx)]"
  have raw: "raw = dict_merge ?old [(''metadata'', meta), (''input'', inp)]"
    and sv': "sv' = (case mission_get (mw_store (sv_missions sv)) (mission_key r) of None \<Rightarrow> sv
       | Some res \<Rightarrow> sv\<lparr>sv_missions := store_put (xe_py env) res raw (sv_missions sv)\<rparr>)"
    using assms by (auto simp: keep_context_def b kvs Let_def meta_def inp_def)
  have "same_record raw ?old" by (simp add: same_record_def raw obj_get_def dict_merge_def)
  moreover have "mission_raw r sv' = ?old \<or> mission_raw r sv' = raw"
  proof (cases "run_mission_id r")
    case None
    then show ?thesis by (simp add: mission_raw_def)
  next
    case (Some m)
    have "mission_get_raw (mission_put py res (Some raw) st) m \<in> {mission_get_raw st m, Some raw}" for py res st
      by (auto simp: mission_put_def mission_get_raw_def Let_def)
    note put = this and m = Some
    show ?thesis
    proof (cases "mission_get (mw_store (sv_missions sv)) (mission_key r)")
      case (Some res)
      let ?got = "mission_get_raw (mission_put (xe_py env) res (Some raw) (mw_store (sv_missions sv))) m"
      have new: "mission_raw r sv' = (case ?got of None \<Rightarrow> [] | Some kvs \<Rightarrow> kvs)"
        unfolding sv' by (simp add: Some m mission_raw_def store_put_def)
      have old: "?old = (case mission_get_raw (mw_store (sv_missions sv)) m of None \<Rightarrow> [] | Some kvs \<Rightarrow> kvs)"
        by (simp add: m mission_raw_def)
      from put [of "xe_py env" res "mw_store (sv_missions sv)"]
      consider "?got = mission_get_raw (mw_store (sv_missions sv)) m" | "?got = Some raw" by blast
      then show ?thesis by cases (simp_all only: new old option.case simp_thms)
    qed (simp add: sv')
  qed
  ultimately have "same_record raw (mission_raw r sv')" by (metis same_record_refl)
  moreover have "cv_messages (sv_cv sv') = cv_messages (sv_cv sv)"
    by (simp only: sv') (simp split: option.split)
  ultimately show ?thesis by blast
qed

lemma run_mission_messages:
  assumes "\<And>cv. cv_messages (xe_others env cv) = cv_messages cv"
  shows "cv_messages (sv_cv (run_mission env r a query request reply sv)) = cv_messages (sv_cv sv)"
  using quiet_deliver [of "sv\<lparr>sv_cv := xe_others env (sv_cv sv)\<rparr>" env r a reply 0 0 "xe_callbacks env"] assms
  by (simp add: run_mission_def quiet_def Let_def)

text \<open>The executor starts the mission: no cancellation is known, and the run is still queued.\<close>

definition starts_mission :: "run \<Rightarrow> service \<Rightarrow> bool" where
  "starts_mission r sv = (\<not> cancelled_before_start r sv
     \<and> (case dict_get (rs_items (cv_runs (sv_cv sv))) (run_id r) of Some q \<Rightarrow> run_status q = QUEUED | None \<Rightarrow> False))"

lemma started_settles:
  assumes "submission_executor env r a sv = (Inr x, sv')"
    and "\<And>cv. cv_messages (xe_others env cv) = cv_messages cv"
    and "keyed msg_id (cv_messages (sv_cv sv))"
    and "dict_get (cv_messages (sv_cv sv)) (persisted_reply env r sv) = Some m"
    and "starts_mission r sv"
  shows "(\<forall>k. k \<noteq> persisted_reply env r sv \<longrightarrow>
      dict_get (cv_messages (sv_cv sv')) k = dict_get (cv_messages (sv_cv sv)) k)
    \<and> (if will_retry r a (xr_retryable x)
       then dict_get (cv_messages (sv_cv sv')) (persisted_reply env r sv) = Some m
       else \<exists>parts. settled_parts env (mission_raw r sv') (xr_status x) parts
         \<and> dict_get (cv_messages (sv_cv sv')) (persisted_reply env r sv)
             = Some (m\<lparr>msg_parts := parts, msg_updated_at := xe_now env\<rparr>))"
proof -
  let ?reply = "persisted_reply env r sv"
  obtain running query request sv0 where sv0: "cv_messages (sv_cv sv0) = cv_messages (sv_cv sv)"
    and started: "execute_started env running r a query request ?reply sv0 = (Inr x, sv')"
  proof -
    obtain running rs where cas: "compare_and_set_status (run_id r) {QUEUED} RUNNING (xe_now env) (cv_runs (sv_cv sv))
        = (Some running, rs)" using assms(5) by (auto simp: starts_mission_def compare_and_set_status_def Let_def split: option.splits)
    have "cv_messages (sv_cv (emit (start_event env running a) (with_runs rs sv))) = cv_messages (sv_cv sv)"
      using quiet_emit [of "with_runs rs sv" "start_event env running a"] by (simp add: quiet_def with_runs_def)
    moreover have "\<exists>query request. execute_started env running r a query request ?reply
        (emit (start_event env running a) (with_runs rs sv)) = (Inr x, sv')"
      using assms(1,5) cas by (auto simp: starts_mission_def submission_executor_def execute_submission_def Let_def split: if_splits)
    ultimately show thesis using that by blast
  qed
  then obtain raw status sv1 sv2 sv3 u v w where
      keep: "keep_context env r query (run_mission env r a query request ?reply sv0) = (Inr raw, sv1)"
    and ingest: "ingest_events env running a raw sv1 = (Inr u, sv2)"
    and reply: "write_reply env r a query ?reply raw status sv2 = (Inr v, sv3)"
    and art: "store_artifacts env running a (artifact_groups raw) sv3 = (Inr w, sv')"
    and x: "x = submission_result env running a raw status"
    unfolding execute_started_def Let_def by (auto dest!: and_then_Inr)
  have msgs: "cv_messages (sv_cv sv2) = cv_messages (sv_cv sv)"
    using keep_context_record [OF keep] run_mission_messages [OF assms(2)] sv0 quiet_ingest [of sv1 env running a raw]
    by (simp add: ingest quiet_def)
  note settled = write_reply_settles [OF reply, unfolded msgs, OF assms(3,4)]
  have art': "cv_messages (sv_cv sv') = cv_messages (sv_cv sv3)" "sv_missions sv' = sv_missions sv3"
    using quiet_store_artifacts [of sv3 env running a "artifact_groups raw"] by (simp_all add: art quiet_def)
  have "sv_missions sv' = sv_missions sv1"
    using settled art'(2) quiet_ingest [of sv1 env running a raw] by (simp add: ingest quiet_def)
  then have "mission_raw r sv' = mission_raw r sv1" by (simp only: mission_raw_def)
  then have eq: "settled_parts env raw status = settled_parts env (mission_raw r sv') status"
    using keep_context_record [OF keep] same_record_settled by (intro ext) simp
  show ?thesis using settled by (simp add: art'(1) x submission_result_def eq [symmetric])
qed

text \<open>A run that is cancelled before the mission starts is reported as such and the messages stay.\<close>

lemma not_started_is_cancelled:
  assumes "submission_executor env r a sv = (Inr x, sv')" and "\<not> starts_mission r sv"
  shows "xr_status x = CANCELLED \<and> \<not> xr_retryable x \<and> cv_messages (sv_cv sv') = cv_messages (sv_cv sv)"
proof (cases "cancelled_before_start r sv")
  case True
  then show ?thesis using assms(1)
    by (auto simp: submission_executor_def execute_submission_def cancelled_result_def Let_def split: if_splits)
next
  case False
  then have "compare_and_set_status (run_id r) {QUEUED} RUNNING (xe_now env) (cv_runs (sv_cv sv))
      = (None, cv_runs (sv_cv sv))"
    using assms(2) by (auto simp: starts_mission_def compare_and_set_status_def split: option.splits)
  then show ?thesis using assms(1) False
    by (auto simp: submission_executor_def execute_submission_def cancelled_result_def with_runs_def Let_def
        split: if_splits)
qed

text \<open>C5. What becomes of the waiting reply when the executor returns. If the mission was started: when
  the worker is going to try again the reply stays as it is; otherwise it becomes the answer with its
  sources, if the run completed with one, or else a warning with the mission's own words or a fixed
  text. If it was not started, because the run was cancelled before, the executor says so, does not
  ask for a retry and leaves the reply as it is. No other message changes.\<close>

theorem executor_settles_its_reply:
  assumes "submission_executor env r a sv = (Inr x, sv')"
    and "\<And>cv. cv_messages (xe_others env cv) = cv_messages cv"
    and "keyed msg_id (cv_messages (sv_cv sv))"
    and "dict_get (cv_messages (sv_cv sv)) (persisted_reply env r sv) = Some m"
  shows "(\<forall>k. k \<noteq> persisted_reply env r sv \<longrightarrow>
      dict_get (cv_messages (sv_cv sv')) k = dict_get (cv_messages (sv_cv sv)) k)
    \<and> (if starts_mission r sv
       then if will_retry r a (xr_retryable x)
         then dict_get (cv_messages (sv_cv sv')) (persisted_reply env r sv) = Some m
         else \<exists>parts. settled_parts env (mission_raw r sv') (xr_status x) parts
           \<and> dict_get (cv_messages (sv_cv sv')) (persisted_reply env r sv)
               = Some (m\<lparr>msg_parts := parts, msg_updated_at := xe_now env\<rparr>)
       else xr_status x = CANCELLED \<and> \<not> xr_retryable x
         \<and> dict_get (cv_messages (sv_cv sv')) (persisted_reply env r sv) = Some m)"
proof (cases "starts_mission r sv")
  case True
  from started_settles [OF assms True] show ?thesis by (simp only: True if_True)
next
  case False
  from not_started_is_cancelled [OF assms(1) False] assms(4) show ?thesis by (simp add: False)
qed

section \<open>A concrete execution\<close>

definition sample_execution :: execution_env where
  "sample_execution = \<lparr>xe_py = (\<lambda>_. ''?''), xe_number = (\<lambda>_. ''1''), xe_reason = error_message,
     xe_digest = (\<lambda>_. ''d''), xe_dumps = (\<lambda>_. []), xe_detail_of = (\<lambda>_. ''failed''),
     xe_as_exc = (\<lambda>_. JobError ''e''), xe_ts = ''ts'', xe_now = 9, xe_draw = (\<lambda>s. s),
     xe_workflow_version = ''v'', xe_mapping = sample_mapping_env,
     xe_agent = (\<lambda>w. (Inr [], w)), xe_callbacks = [],
     xe_others = (\<lambda>cv. cv)\<rparr>"

definition idle_worker_env :: worker_env where
  "idle_worker_env = \<lparr>we_executor = (\<lambda>r a rs. (Interrupted, rs)), we_draw = (\<lambda>_. 0), we_claim_at = (\<lambda>_. 1),
     we_settle_at = (\<lambda>_. 2), we_fail_at = (\<lambda>_. 3), we_created_at = (\<lambda>_. 4)\<rparr>"

theorem submission_executor_keeps_contract_witness:
  "env_ok (idle_worker_env\<lparr>we_executor := executor_of sample_execution upload_service\<rparr>)"
  by (rule submission_executor_keeps_contract) (simp add: sample_execution_def run_steps.refl)

definition queued_run :: run where
  "queued_run = sample_run\<lparr>run_metadata := [(''submission'', JObj [(''query'', JStr ''hi''),
     (''assistant_message_id'', JStr ''m2'')])]\<rparr>"

definition waiting_reply :: message where
  "waiting_reply = placeholder sample_submission (sample_thread ''t'' ''u'' 1) queued_run
     (user_message sample_submission uploader (sample_thread ''t'' ''u'' 1) hello_request queued_run)"

definition queued_service :: service where
  "queued_service = upload_service\<lparr>sv_cv := (sv_cv upload_service)\<lparr>cv_messages := [(''m2'', waiting_reply)],
     cv_runs := empty_run_store\<lparr>rs_items := [(''r1'', queued_run)]\<rparr>\<rparr>\<rparr>"

lemma queued_service_simps:
  "persisted_reply sample_execution queued_run queued_service = ''m2''"
  "persisted_query sample_execution queued_run queued_service = ''hi''"
  "\<not> cancelled_before_start queued_run queued_service"
  "run_id queued_run = ''r1''" "run_status queued_run = QUEUED" "run_mission_id queued_run = Some ''m1''"
  by (simp_all add: persisted_reply_def persisted_query_def submission_of_def queued_run_def sample_run_def
      mission_raw_def obj_get_def truthy_or_def py_str_def str_strip_def is_space_def queued_service_def
      upload_service_def mission_get_raw_def empty_mission_store_def cancelled_before_start_def
      stored_cancelled_def empty_run_store_def is_requested_def mission_key_def str_truthy_def)

lemma idle_mission:
  assumes "sv_missions sv = sv_missions queued_service"
  shows "run_mission sample_execution queued_run a q request reply sv = sv"
proof -
  have "\<not> is_cancel_requested ''m1'' (sv_missions queued_service)"
    by (simp add: is_cancel_requested_def is_requested_def queued_service_def upload_service_def empty_mission_store_def
        mission_get_raw_def result_cancelled_def)
  then show ?thesis using assms
    by (simp add: run_mission_def mission_key_def queued_service_simps sample_execution_def run_mission_job_def
        job_returned_def queued_service_def upload_service_def empty_mission_store_def mission_get_raw_def
        clear_cancel_def cancel_clear_def Let_def)
qed

theorem executor_settles_its_reply_witness:
  "\<exists>x sv' m. submission_executor sample_execution queued_run claimed_attempt queued_service = (Inr x, sv')
     \<and> xr_status x = FAILED \<and> dict_get (cv_messages (sv_cv sv')) ''m2'' = Some m
     \<and> msg_parts m = [warning_part ''Run failed without a response.'' ''failed'']"
proof -
  let ?run = "submission_executor sample_execution queued_run claimed_attempt queued_service"
  obtain running rs where cas: "compare_and_set_status ''r1'' {QUEUED} RUNNING 9 (cv_runs (sv_cv queued_service))
      = (Some running, rs)"
    by (simp add: compare_and_set_status_def queued_service_def empty_run_store_def queued_run_def sample_run_def Let_def)
  define sv1 where "sv1 = emit (start_event sample_execution running claimed_attempt) (with_runs rs queued_service)"
  have q: "quiet (with_runs rs queued_service) sv1" unfolding sv1_def by simp
  then have missions: "sv_missions sv1 = sv_missions queued_service" by (simp add: quiet_def with_runs_def)
  then have raw: "mission_raw queued_run sv1 = []"
    by (simp add: mission_raw_def queued_service_simps queued_service_def upload_service_def empty_mission_store_def
        mission_get_raw_def)
  have runs1: "run_mission sample_execution queued_run claimed_attempt ''hi'' request ''m2'' sv1 = sv1" for request
    by (rule idle_mission [OF missions])
  have keep: "keep_context sample_execution queued_run ''hi'' sv1 = (Inr [], sv1)"
    by (simp add: keep_context_def raw Let_def) (simp add: obj_get_def queued_run_def)
  have ingest: "ingest_events sample_execution running claimed_attempt [] sv1 = (Inr (), sv1)"
    by (simp add: ingest_events_def obj_get_def)
  have status: "outcome_status py [] = FAILED" for py
    by (simp add: outcome_status_def obj_get_def has_output_def truthy_or_def py_str_def str_strip_def)
  have rs: "dict_get (rs_items rs) ''r1'' \<noteq> None \<and> run_status (the (dict_get (rs_items rs) ''r1'')) = RUNNING"
    using cas by (auto simp: compare_and_set_status_def queued_service_def empty_run_store_def queued_run_def
        sample_run_def Let_def)
  have live: "\<not> stored_cancelled queued_run sv1"
    using rs unfolding sv1_def
    by (auto simp: emit_def stored_cancelled_def queued_service_simps with_runs_def append_event_def Let_def
        split: sum.splits option.splits if_splits prod.splits)
  have m2: "dict_get (cv_messages (sv_cv sv1)) ''m2'' = Some waiting_reply"
    using q by (simp add: quiet_def with_runs_def queued_service_def)
  have id: "msg_id waiting_reply = ''m2''" by (simp add: waiting_reply_def placeholder_def sample_submission_def)
  have "message_get (cv_messages (sv_cv sv1)) ''m2'' None = Some waiting_reply" by (simp add: message_get_def m2)
  then obtain sv2 where reply: "write_reply sample_execution queued_run claimed_attempt ''hi'' ''m2'' [] FAILED sv1
      = (Inr (), sv2)"
    by (simp add: write_reply_def will_retry_def retryable_outcome_def error_code_of_def retryable_codes_def obj_get_def
        truthy_or_def py_str_def write_warning_def save_message_def message_update_def id m2 Let_def)
  have worker: "str_truthy (att_worker_id claimed_attempt)" "xe_now sample_execution = 9"
    by (simp_all add: claimed_attempt_def str_truthy_def sample_execution_def)
  have groups: "artifact_groups [] = []" by (simp add: artifact_groups_def obj_get_def)
  have ran: "?run = (Inr (submission_result sample_execution running claimed_attempt [] FAILED), sv2)"
    by (simp add: submission_executor_def execute_submission_def queued_service_simps worker cas
        execute_started_def and_then_def groups runs1 keep ingest status reply live flip: sv1_def)
  have executed: "submission_executor sample_execution queued_run claimed_attempt queued_service
      = (Inr (submission_result sample_execution running claimed_attempt [] FAILED), sv2)" by (fact ran)
  have keyed: "keyed msg_id (cv_messages (sv_cv queued_service))"
    by (simp add: queued_service_def keyed_def dict_wf_def id)
  then have "sv_missions sv2 = sv_missions sv1"
    using write_reply_settles [OF reply _ m2] q by (simp add: quiet_def with_runs_def)
  then have none: "mission_raw queued_run sv2 = []" using raw unfolding mission_raw_def by (simp only:)
  have again: "\<not> will_retry queued_run claimed_attempt
      (xr_retryable (submission_result sample_execution running claimed_attempt [] FAILED))"
    by (simp add: will_retry_def submission_result_def retryable_outcome_def error_code_of_def retryable_codes_def
        obj_get_def truthy_or_def py_str_def)
  have "dict_get (cv_messages (sv_cv queued_service)) ''m2'' = Some waiting_reply"
    "starts_mission queued_run queued_service"
    by (simp_all add: starts_mission_def queued_service_simps) (simp_all add: queued_service_def empty_run_store_def
        queued_service_simps)
  then have "\<exists>parts. settled_parts sample_execution [] FAILED parts \<and> dict_get (cv_messages (sv_cv sv2)) ''m2''
      = Some (waiting_reply\<lparr>msg_parts := parts, msg_updated_at := xe_now sample_execution\<rparr>)"
    using executor_settles_its_reply [OF executed, of waiting_reply, unfolded queued_service_simps] keyed again
    by (simp add: none worker queued_service_simps submission_result_def) (simp add: sample_execution_def)
  moreover have "str_lower (run_status_value FAILED) = ''failed''" by code_simp
  ultimately obtain m where "dict_get (cv_messages (sv_cv sv2)) ''m2'' = Some m"
    "msg_parts m = [warning_part ''Run failed without a response.'' ''failed'']"
    by (auto simp: settled_parts_def response_of_def obj_get_def str_strip_def)
  then show ?thesis using executed by (auto simp: submission_result_def)
qed

end
