(* ===== verification/Database.thy ===== *)
theory Database
  imports Run_Store
begin

text \<open>
  The PostgreSQL tables behind \<^verbatim>\<open>src/seleric_swarm/conversations/postgres.py\<close> (columns, keys and
  foreign keys from \<^verbatim>\<open>src/migrations\<close>) and the statements the repositories send.

  A table is the list of its rows. A method runs its statements in one transaction, here one function
  of the database; a violated constraint aborts it and the database stays as it was (\<open>commit\<close>). That
  concurrent transactions on the same rows are serialised by their row locks, and that JSONB keeps an
  object up to the order of its keys, is PostgreSQL's documented behaviour. \<^verbatim>\<open>NULL\<close> is \<open>None\<close>, and a
  comparison with it is never true.
\<close>

section \<open>Statements\<close>

text \<open>\<^verbatim>\<open>UPDATE ... WHERE ... RETURNING *\<close>: the changed rows and the table after.\<close>

definition sql_update :: "('a \<Rightarrow> bool) \<Rightarrow> ('a \<Rightarrow> 'a) \<Rightarrow> 'a list \<Rightarrow> 'a list \<times> 'a list" where
  "sql_update P f rows = (map f (filter P rows), map (\<lambda>x. if P x then f x else x) rows)"

text \<open>\<^verbatim>\<open>INSERT ... ON CONFLICT (key) DO NOTHING\<close>: the number of inserted rows and the table after.\<close>

definition sql_insert :: "('a \<Rightarrow> 'k) \<Rightarrow> 'a \<Rightarrow> 'a list \<Rightarrow> nat \<times> 'a list" where
  "sql_insert key x rows = (if key x \<in> key ` set rows then (0, rows) else (1, rows @ [x]))"

definition sql_eq :: "'a option \<Rightarrow> 'a option \<Rightarrow> bool" where
  "sql_eq x y = (x \<noteq> None \<and> x = y)"

definition sql_le :: "moment option \<Rightarrow> moment option \<Rightarrow> bool" where
  "sql_le x y = (case (x, y) of (Some a, Some b) \<Rightarrow> a \<le> b | _ \<Rightarrow> False)"

definition sql_less :: "moment option \<Rightarrow> moment option \<Rightarrow> bool" where
  "sql_less x y = (case (x, y) of (Some a, Some b) \<Rightarrow> a < b | _ \<Rightarrow> False)"

text \<open>\<^verbatim>\<open>CAST(:x AS TEXT) IS NULL OR column=:x\<close>\<close>

definition if_given :: "'a option \<Rightarrow> 'a option \<Rightarrow> bool" where
  "if_given x column = (x = None \<or> sql_eq column x)"

definition first_row :: "'a list \<Rightarrow> 'a option" where
  "first_row rows = (case rows of [] \<Rightarrow> None | x # _ \<Rightarrow> Some x)"

lemma sql_eq_simps [simp]:
  "sql_eq None x = False" "sql_eq x None = False" "sql_eq (Some a) (Some b) = (a = b)"
  by (auto simp: sql_eq_def)

lemma sql_order_simps [simp]:
  "sql_le None t = False" "sql_le t None = False" "sql_le (Some a) (Some b) = (a \<le> b)"
  "sql_less None t = False" "sql_less t None = False" "sql_less (Some a) (Some b) = (a < b)"
  by (auto simp: sql_le_def sql_less_def split: option.splits)

lemma if_given_simps [simp]: "if_given None column = True" "if_given (Some v) column = (column = Some v)"
  by (auto simp: if_given_def sql_eq_def)

lemma first_row_simps [simp]: "first_row [] = None" "first_row (x # xs) = Some x"
  by (simp_all add: first_row_def)

lemma sql_eq_Some: "sql_eq x (Some v) = (x = Some v)"
  by (auto simp: sql_eq_def)

section \<open>Tables\<close>

record outbox_row =
  ob_run_id :: string
  ob_created_at :: moment
  ob_published_at :: "moment option"
  ob_attempts :: nat

record part_row =
  pr_message_id :: string
  pr_position :: nat
  pr_part :: message_part

record usage_row =
  us_run_id :: string
  us_memory_id :: string
  us_workspace_id :: string
  us_owner_user_id :: string
  us_provenance :: json_obj
  us_used_at :: moment

text \<open>A row of \<^verbatim>\<open>messages\<close> is a message without its parts, a row of \<^verbatim>\<open>run_events\<close> the event its
  \<^verbatim>\<open>event_json\<close> and sequence columns make. The missions belong to another store; the tables refer to
  them by identifier.\<close>

record database =
  db_missions :: "string set"
  db_threads :: "thread list"
  db_messages :: "message list"
  db_parts :: "part_row list"
  db_runs :: "run list"
  db_attempts :: "run_attempt list"
  db_events :: "activity_event list"
  db_outbox :: "outbox_row list"
  db_artifacts :: "artifact list"
  db_attachments :: "attachment list"
  db_memories :: "memory_item list"
  db_usage :: "usage_row list"
  db_preferences :: "memory_preference list"
  db_summaries :: "thread_summary list"

definition empty_database :: database where
  "empty_database = \<lparr>db_missions = {}, db_threads = [], db_messages = [], db_parts = [], db_runs = [],
     db_attempts = [], db_events = [], db_outbox = [], db_artifacts = [], db_attachments = [],
     db_memories = [], db_usage = [], db_preferences = [], db_summaries = []\<rparr>"

section \<open>Transactions\<close>

datatype db_error = IntegrityError string | Refused error

type_synonym 'a pg_transaction = "db_error + 'a \<times> database"

definition commit :: "database \<Rightarrow> 'a pg_transaction \<Rightarrow> database" where
  "commit db tx = (case tx of Inl _ \<Rightarrow> db | Inr (_, db') \<Rightarrow> db')"

definition next_statement :: "'a pg_transaction \<Rightarrow> ('a \<Rightarrow> database \<Rightarrow> 'b pg_transaction) \<Rightarrow> 'b pg_transaction" where
  "next_statement tx k = (case tx of Inl e \<Rightarrow> Inl e | Inr (x, db) \<Rightarrow> k x db)"

lemma commit_simps [simp]: "commit db (Inl e) = db" "commit db (Inr (x, db')) = db'"
  by (simp_all add: commit_def)

lemma next_statement_simps [simp]:
  "next_statement (Inl e) k = Inl e" "next_statement (Inr (x, db)) k = k x db"
  by (simp_all add: next_statement_def)

lemma next_statement_Inr:
  assumes "next_statement tx k = Inr (x, db')"
  obtains y db1 where "tx = Inr (y, db1)" "k y db1 = Inr (x, db')"
  using assms by (auto simp: next_statement_def split: sum.splits prod.splits)

section \<open>Tables keyed by a column, as dictionaries\<close>

lemma rows_of_key:
  "keyed key d \<Longrightarrow> filter (\<lambda>x. key x = k \<and> P x) (dict_values d) =
     (case dict_get d k of None \<Rightarrow> [] | Some v \<Rightarrow> if P v then [v] else [])"
proof (induction d)
  case (Cons kv d)
  have k: "keyed key d" "key (snd kv) = fst kv" "fst kv \<notin> set (dict_keys d)"
    using Cons.prems by (simp_all add: keyed_def dict_wf_def)
  moreover have "dict_get d (fst kv) = None" using k(3) by (simp add: dict_get_None)
  ultimately show ?case using Cons.IH by (cases kv) (auto split: option.splits)
qed simp

lemma rows_absent: "keyed key d \<Longrightarrow> dict_get d k = None \<Longrightarrow> k \<notin> key ` set (dict_values d)"
  using keyed_value_get by fastforce

lemma update_absent: "dict_get d k = None \<Longrightarrow> keyed key d \<Longrightarrow>
    map (\<lambda>x. if key x = k \<and> P x then f x else x) (dict_values d) = dict_values d"
  by (frule (1) rows_absent) (auto intro!: map_idI)

lemma update_row:
  "keyed key d \<Longrightarrow> dict_get d k = Some v \<Longrightarrow>
     map (\<lambda>x. if key x = k \<and> P x then f x else x) (dict_values d) =
       (if P v then dict_values (dict_set d k (f v)) else dict_values d)"
proof (induction d)
  case (Cons kv d)
  obtain j w where kv: "kv = (j, w)" by (cases kv)
  have k: "keyed key d" "key w = j" "dict_get d j = None"
    using Cons.prems(1) by (simp_all add: kv keyed_def dict_wf_def dict_get_None)
  show ?case
  proof (cases "j = k")
    case True
    with Cons.prems(2) kv have "w = v" by simp
    with True k update_absent [OF _ k(1), of j P f] show ?thesis by (simp add: kv)
  next
    case False
    with Cons.prems(2) kv Cons.IH [OF k(1)] k(2) show ?thesis by simp
  qed
qed simp

lemma sql_update_keyed:
  "keyed key d \<Longrightarrow> sql_update (\<lambda>x. key x = k \<and> P x) f (dict_values d) =
     (case dict_get d k of
        None \<Rightarrow> ([], dict_values d)
      | Some v \<Rightarrow> if P v then ([f v], dict_values (dict_set d k (f v))) else ([], dict_values d))"
  by (auto simp: sql_update_def rows_of_key update_absent update_row simp del: map_map split: option.splits)

lemma sql_update_key:
  "keyed key d \<Longrightarrow> sql_update (\<lambda>x. key x = k) f (dict_values d) =
     (case dict_get d k of
        None \<Rightarrow> ([], dict_values d) | Some v \<Rightarrow> ([f v], dict_values (dict_set d k (f v))))"
  using sql_update_keyed [of key d k "\<lambda>_. True" f] by (simp cong: option.case_cong)

lemma sql_insert_keyed:
  assumes "keyed key d"
  shows "sql_insert key x (dict_values d) =
     (if dict_get d (key x) = None then 1 else 0, dict_values (dict_setdefault d (key x) x))"
proof (cases "dict_get d (key x)")
  case None
  then show ?thesis using rows_absent [OF assms None] by (simp add: sql_insert_def dict_setdefault_def)
next
  case (Some v)
  then have "v \<in> set (dict_values d)" "key v = key x"
    using keyed_get [OF assms Some] dict_get_SomeD [OF Some] by force+
  then have "key x \<in> key ` set (dict_values d)" by (metis imageI)
  with Some show ?thesis by (simp add: sql_insert_def dict_setdefault_def)
qed

end
