(* ===== verification/Durable_Runs.thy ===== *)
theory Durable_Runs
  imports Database Run_Events
begin

text \<open>
  \<^verbatim>\<open>PostgresRunRepository\<close> of \<^verbatim>\<open>src/seleric_swarm/conversations/postgres.py\<close>: every method as the
  transaction it sends, and the proof that it implements the run protocol of theory
  \<open>Run_Lifecycle\<close>: the tables mirror a store of \<open>InMemoryRunRepository\<close> that the protocol reaches, so
  the guarantees proved of the in-memory repository hold of the production database.

  \<^verbatim>\<open>FOR UPDATE SKIP LOCKED\<close> leaves out the rows other transactions hold: \<open>locked\<close> tells which.
  Where \<^verbatim>\<open>ORDER BY\<close> leaves ties, the model takes the order of the table.
\<close>

section \<open>Runs\<close>

definition pg_run_get :: "database \<Rightarrow> string \<Rightarrow> string option \<Rightarrow> string option \<Rightarrow> run option" where
  "pg_run_get db rid ws owner = first_row (filter (\<lambda>r. run_id r = rid
     \<and> if_given ws (Some (run_workspace_id r)) \<and> if_given owner (Some (run_requested_by_user_id r)))
     (db_runs db))"

text \<open>The foreign keys of a run: its mission, and its thread under the same tenant.\<close>

definition run_keys_ok :: "run \<Rightarrow> database \<Rightarrow> bool" where
  "run_keys_ok r db =
     ((case run_mission_id r of None \<Rightarrow> True | Some m \<Rightarrow> m \<in> db_missions db)
      \<and> list_ex (\<lambda>t. th_id t = run_thread_id r \<and> th_workspace_id t = run_workspace_id r
            \<and> th_owner_user_id t = run_requested_by_user_id r) (db_threads db))"

definition pg_run_create :: "run \<Rightarrow> database \<Rightarrow> run pg_transaction" where
  "pg_run_create r db =
     (let (rowcount, rows) = sql_insert run_id r (db_runs db) in
      if 0 < rowcount \<and> \<not> run_keys_ok r db then Inl (IntegrityError ''runs'')
      else let db' = db\<lparr>db_runs := rows\<rparr> in
        (case pg_run_get db' (run_id r) (Some (run_workspace_id r)) (Some (run_requested_by_user_id r)) of
           None \<Rightarrow> if rowcount = 0 then Inl (Refused (PermissionError ''run id belongs to another tenant''))
             else Inr (r, db')
         | Some persisted \<Rightarrow> Inr (persisted, db')))"

definition pg_run_update :: "run \<Rightarrow> database \<Rightarrow> run pg_transaction" where
  "pg_run_update r db =
     (let (changed, rows) = sql_update
        (\<lambda>x. run_id x = run_id r \<and> run_workspace_id x = run_workspace_id r
             \<and> run_requested_by_user_id x = run_requested_by_user_id r)
        (\<lambda>x. x\<lparr>run_mission_id := run_mission_id r, run_status := run_status r,
           run_current_attempt := run_current_attempt r, run_max_attempts := run_max_attempts r,
           run_retry_count := run_retry_count r, run_next_retry_at := run_next_retry_at r,
           run_cancel_requested_at := run_cancel_requested_at r, run_metadata := run_metadata r,
           run_started_at := run_started_at r, run_completed_at := run_completed_at r\<rparr>) (db_runs db) in
      if changed = [] then Inl (Refused (KeyError (run_id r)))
      else if \<not> (case run_mission_id r of None \<Rightarrow> True | Some m \<Rightarrow> m \<in> db_missions db)
      then Inl (IntegrityError ''runs'')
      else Inr (r, db\<lparr>db_runs := rows\<rparr>))"

definition with_status :: "run_status \<Rightarrow> moment \<Rightarrow> run \<Rightarrow> run" where
  "with_status new_status now r = r\<lparr>run_status := new_status,
     run_started_at := (if new_status = RUNNING
        then (case run_started_at r of None \<Rightarrow> Some now | Some s \<Rightarrow> Some s) else run_started_at r),
     run_completed_at := (if run_terminal new_status then Some now else run_completed_at r),
     run_next_retry_at := (if run_terminal new_status then None else run_next_retry_at r)\<rparr>"

definition pg_compare_and_set_status ::
  "string \<Rightarrow> run_status set \<Rightarrow> run_status \<Rightarrow> moment \<Rightarrow> database \<Rightarrow> run option pg_transaction" where
  "pg_compare_and_set_status rid expected_statuses new_status now db =
     (if expected_statuses = {} then Inr (None, db)
      else let (changed, rows) = sql_update (\<lambda>r. run_id r = rid \<and> run_status r \<in> expected_statuses)
        (with_status new_status now) (db_runs db)
      in Inr (first_row changed, db\<lparr>db_runs := rows\<rparr>))"

definition pg_run_list_for_owner :: "database \<Rightarrow> string \<Rightarrow> string \<Rightarrow> int \<Rightarrow> run list" where
  "pg_run_list_for_owner db ws u limit =
     take (page_limit limit) (sorted_desc run_created_at
       (filter (\<lambda>r. run_workspace_id r = ws \<and> run_requested_by_user_id r = u) (db_runs db)))"

section \<open>Attempts\<close>

definition attempt_keys_ok :: "run_attempt \<Rightarrow> database \<Rightarrow> bool" where
  "attempt_keys_ok a db =
     (list_ex (\<lambda>r. run_id r = att_run_id a) (db_runs db)
      \<and> \<not> list_ex (\<lambda>b. att_run_id b = att_run_id a \<and> att_number b = att_number a) (db_attempts db)
      \<and> 1 \<le> att_number a)"

definition pg_add_attempt :: "run_attempt \<Rightarrow> database \<Rightarrow> run_attempt pg_transaction" where
  "pg_add_attempt a db =
     (let (rowcount, rows) = sql_insert att_id a (db_attempts db) in
      if 0 < rowcount \<and> \<not> attempt_keys_ok a db then Inl (IntegrityError ''run_attempts'')
      else Inr (a, db\<lparr>db_attempts := rows\<rparr>))"

definition pg_update_attempt :: "run_attempt \<Rightarrow> database \<Rightarrow> run_attempt pg_transaction" where
  "pg_update_attempt a db =
     (let (changed, rows) = sql_update (\<lambda>x. att_id x = att_id a)
        (\<lambda>x. x\<lparr>att_status := att_status a, att_error_code := att_error_code a,
           att_error_message := att_error_message a, att_worker_id := att_worker_id a,
           att_lease_expires_at := att_lease_expires_at a, att_heartbeat_at := att_heartbeat_at a,
           att_retryable := att_retryable a, att_version := att_version a,
           att_completed_at := att_completed_at a\<rparr>) (db_attempts db) in
      if changed = [] then Inl (Refused (KeyError (att_id a))) else Inr (a, db\<lparr>db_attempts := rows\<rparr>))"

definition pg_claimable :: "moment \<Rightarrow> run_attempt \<Rightarrow> bool" where
  "pg_claimable now a = (att_status a = ATT_RETRYABLE \<or> (att_status a = ATT_RUNNING
     \<and> (att_worker_id a = None \<or> att_lease_expires_at a = None
        \<or> sql_le (att_lease_expires_at a) (Some now))))"

definition claimed_by :: "string \<Rightarrow> rat \<Rightarrow> moment \<Rightarrow> run_attempt \<Rightarrow> run_attempt" where
  "claimed_by worker lease_seconds now a = a\<lparr>att_status := ATT_RUNNING, att_worker_id := Some worker,
     att_heartbeat_at := Some now, att_lease_expires_at := Some (now + timedelta_seconds lease_seconds),
     att_version := att_version a + 1\<rparr>"

definition pg_claim ::
  "(string \<Rightarrow> bool) \<Rightarrow> string \<Rightarrow> string \<Rightarrow> rat \<Rightarrow> moment \<Rightarrow> database \<Rightarrow> run_attempt option pg_transaction" where
  "pg_claim locked rid worker lease_seconds now db =
     (let candidate = first_row (sorted_desc att_number
        (filter (\<lambda>a. att_run_id a = rid \<and> pg_claimable now a \<and> \<not> locked (att_id a)) (db_attempts db))) in
      case candidate of
        None \<Rightarrow> Inr (None, db)
      | Some c \<Rightarrow> let (changed, rows) = sql_update (\<lambda>a. att_id a = att_id c)
            (claimed_by worker lease_seconds now) (db_attempts db)
          in Inr (first_row changed, db\<lparr>db_attempts := rows\<rparr>))"

definition pg_heartbeat ::
  "string \<Rightarrow> string \<Rightarrow> rat \<Rightarrow> nat option \<Rightarrow> moment \<Rightarrow> database \<Rightarrow> bool pg_transaction" where
  "pg_heartbeat aid worker lease_seconds expected_version now db =
     (let (changed, rows) = sql_update
        (\<lambda>a. att_id a = aid \<and> sql_eq (att_worker_id a) (Some worker) \<and> att_status a = ATT_RUNNING
             \<and> sql_less (Some now) (att_lease_expires_at a)
             \<and> if_given expected_version (Some (att_version a)))
        (\<lambda>a. a\<lparr>att_heartbeat_at := Some now,
           att_lease_expires_at := Some (now + timedelta_seconds lease_seconds)\<rparr>) (db_attempts db)
      in Inr (changed \<noteq> [], db\<lparr>db_attempts := rows\<rparr>))"

definition pg_compare_and_set_attempt ::
  "string \<Rightarrow> run_attempt_status \<Rightarrow> run_attempt_status \<Rightarrow> string option \<Rightarrow> nat option
     \<Rightarrow> moment option \<Rightarrow> moment \<Rightarrow> string option \<Rightarrow> string option
     \<Rightarrow> database \<Rightarrow> run_attempt option pg_transaction" where
  "pg_compare_and_set_attempt aid expected_status new_status worker expected_version
      lease_expired_before now error_code error_message db =
     (let (changed, rows) = sql_update
        (\<lambda>a. att_id a = aid \<and> att_status a = expected_status
             \<and> if_given worker (att_worker_id a) \<and> if_given expected_version (Some (att_version a))
             \<and> (lease_expired_before = None
                \<or> (att_lease_expires_at a \<noteq> None \<and> sql_le (att_lease_expires_at a) lease_expired_before)))
        (\<lambda>a. a\<lparr>att_status := new_status, att_error_code := error_code, att_error_message := error_message,
           att_completed_at := (if attempt_terminal new_status then Some now else None),
           att_lease_expires_at := None, att_version := att_version a + 1\<rparr>) (db_attempts db)
      in Inr (first_row changed, db\<lparr>db_attempts := rows\<rparr>))"

section \<open>Events and the outbox\<close>

definition next_sequence :: "string option \<Rightarrow> database \<Rightarrow> nat" where
  "next_sequence rid db =
     max_default (map ev_sequence (filter (\<lambda>e. sql_eq (ev_run_id e) rid) (db_events db))) + 1"

definition next_thread_sequence :: "string \<Rightarrow> database \<Rightarrow> nat" where
  "next_thread_sequence tid db =
     max_default (map ev_thread_sequence (filter (\<lambda>e. ev_thread_id e = tid) (db_events db))) + 1"

definition event_keys_ok :: "activity_event \<Rightarrow> database \<Rightarrow> bool" where
  "event_keys_ok e db =
     (list_ex (\<lambda>t. th_id t = ev_thread_id e) (db_threads db)
      \<and> (case ev_run_id e of None \<Rightarrow> True | Some rid \<Rightarrow> list_ex (\<lambda>r. run_id r = rid) (db_runs db)))"

text \<open>\<^verbatim>\<open>INSERT INTO run_events ... ON CONFLICT (id) DO NOTHING RETURNING sequence, thread_sequence\<close>\<close>

definition insert_event :: "activity_event \<Rightarrow> database \<Rightarrow> (nat \<times> nat) option pg_transaction" where
  "insert_event e db =
     (let s = next_sequence (ev_run_id e) db; t = next_thread_sequence (ev_thread_id e) db;
          (rowcount, rows) = sql_insert ev_id (e\<lparr>ev_sequence := s, ev_thread_sequence := t\<rparr>) (db_events db) in
      if rowcount = 0 then Inr (None, db)
      else if \<not> event_keys_ok e db then Inl (IntegrityError ''run_events'')
      else Inr (Some (s, t), db\<lparr>db_events := rows\<rparr>))"

definition event_sequences :: "string \<Rightarrow> database \<Rightarrow> (nat \<times> nat) option" where
  "event_sequences eid db = map_option (\<lambda>e. (ev_sequence e, ev_thread_sequence e))
     (first_row (filter (\<lambda>e. ev_id e = eid) (db_events db)))"

definition sequenced_as :: "activity_event \<Rightarrow> nat \<times> nat \<Rightarrow> activity_event" where
  "sequenced_as e st = e\<lparr>ev_sequence := fst st, ev_thread_sequence := snd st\<rparr>"

definition pg_append_event :: "activity_event \<Rightarrow> database \<Rightarrow> activity_event pg_transaction" where
  "pg_append_event e db = next_statement (insert_event e db) (\<lambda>inserted db'.
     let row = (case inserted of None \<Rightarrow> event_sequences (ev_id e) db' | Some st \<Rightarrow> Some st) in
     Inr (case row of None \<Rightarrow> e | Some st \<Rightarrow> sequenced_as e st, db'))"

definition pg_list_events :: "database \<Rightarrow> string \<Rightarrow> nat \<Rightarrow> activity_event list" where
  "pg_list_events db rid after_sequence = sort_key ev_sequence
     (filter (\<lambda>e. sql_eq (ev_run_id e) (Some rid) \<and> after_sequence < ev_sequence e) (db_events db))"

definition pg_list_thread_events :: "database \<Rightarrow> string \<Rightarrow> nat \<Rightarrow> activity_event list" where
  "pg_list_thread_events db tid after_sequence = sort_key ev_thread_sequence
     (filter (\<lambda>e. ev_thread_id e = tid \<and> after_sequence < ev_thread_sequence e) (db_events db))"

definition pg_add_outbox :: "string \<Rightarrow> moment \<Rightarrow> database \<Rightarrow> unit pg_transaction" where
  "pg_add_outbox rid now db =
     (let (rowcount, rows) = sql_insert ob_run_id
        \<lparr>ob_run_id = rid, ob_created_at = now, ob_published_at = None, ob_attempts = 0\<rparr> (db_outbox db) in
      if 0 < rowcount \<and> \<not> list_ex (\<lambda>r. run_id r = rid) (db_runs db) then Inl (IntegrityError ''submission_outbox'')
      else Inr ((), db\<lparr>db_outbox := rows\<rparr>))"

definition pg_list_pending_outbox :: "database \<Rightarrow> int \<Rightarrow> string list" where
  "pg_list_pending_outbox db limit =
     map ob_run_id (take (page_limit limit) (sort_key (\<lambda>row. (ob_created_at row, ob_run_id row))
       (filter (\<lambda>row. ob_published_at row = None) (db_outbox db))))"

definition pg_mark_outbox_published :: "string \<Rightarrow> moment \<Rightarrow> database \<Rightarrow> database" where
  "pg_mark_outbox_published rid now db = db\<lparr>db_outbox := snd (sql_update
     (\<lambda>row. ob_run_id row = rid \<and> ob_published_at row = None)
     (\<lambda>row. row\<lparr>ob_published_at := Some now, ob_attempts := ob_attempts row + 1\<rparr>) (db_outbox db))\<rparr>"

text \<open>The update of the outbox inside the terminal transactions.\<close>

definition close_outbox :: "string \<Rightarrow> moment \<Rightarrow> database \<Rightarrow> database" where
  "close_outbox rid now db = db\<lparr>db_outbox := snd (sql_update (\<lambda>row. ob_run_id row = rid)
     (\<lambda>row. row\<lparr>ob_published_at := (case ob_published_at row of None \<Rightarrow> Some now | Some t \<Rightarrow> Some t),
        ob_attempts := ob_attempts row + 1\<rparr>) (db_outbox db))\<rparr>"

section \<open>Terminal transitions\<close>

definition closed_attempt ::
  "run_attempt_status \<Rightarrow> string option \<Rightarrow> string option \<Rightarrow> moment \<Rightarrow> run_attempt \<Rightarrow> run_attempt" where
  "closed_attempt status code msg now a = a\<lparr>att_status := status, att_error_code := code,
     att_error_message := msg, att_completed_at := Some now, att_lease_expires_at := None,
     att_version := att_version a + 1\<rparr>"

definition closed_run :: "run_status \<Rightarrow> moment \<Rightarrow> run \<Rightarrow> run" where
  "closed_run status now r = r\<lparr>run_status := status, run_completed_at := Some now, run_next_retry_at := None\<rparr>"

text \<open>The join of an attempt with its run, and the two updates by primary key.\<close>

definition joined_run :: "run_attempt \<Rightarrow> database \<Rightarrow> run option" where
  "joined_run a db = first_row (filter (\<lambda>r. run_id r = att_run_id a) (db_runs db))"

definition update_attempts :: "(run_attempt \<Rightarrow> bool) \<Rightarrow> (run_attempt \<Rightarrow> run_attempt) \<Rightarrow> database \<Rightarrow> database" where
  "update_attempts P f db = db\<lparr>db_attempts := snd (sql_update P f (db_attempts db))\<rparr>"

definition update_runs :: "(run \<Rightarrow> bool) \<Rightarrow> (run \<Rightarrow> run) \<Rightarrow> database \<Rightarrow> database" where
  "update_runs P f db = db\<lparr>db_runs := snd (sql_update P f (db_runs db))\<rparr>"

definition final_event :: "activity_event \<Rightarrow> run_status \<Rightarrow> moment \<Rightarrow> activity_event" where
  "final_event terminal_event final_status now = terminal_event\<lparr>
     ev_event_type := terminal_event_type final_status, ev_completed_at := Some now,
     ev_payload := dict_set (ev_payload terminal_event) ''status''
       (JStr (str_lower (run_status_value final_status)))\<rparr>"

text \<open>A cancelled run has its \<^verbatim>\<open>run.cancelled\<close> event from \<open>pg_cancel\<close> already.\<close>

definition record_final ::
  "run_status \<Rightarrow> activity_event \<Rightarrow> database \<Rightarrow> activity_event pg_transaction" where
  "record_final final_status event db =
     (let reported = (if final_status = CANCELLED
          then map_option (\<lambda>e. (ev_sequence e, ev_thread_sequence e)) (first_row (sort_key ev_sequence
            (filter (\<lambda>e. sql_eq (ev_run_id e) (ev_run_id event) \<and> ev_event_type e = ''run.cancelled'')
              (db_events db)))) else None) in
      case reported of
        Some st \<Rightarrow> Inr (sequenced_as event st, db)
      | None \<Rightarrow> pg_append_event event db)"

definition pg_finalize_attempt ::
  "string \<Rightarrow> string \<Rightarrow> nat \<Rightarrow> run_status \<Rightarrow> activity_event \<Rightarrow> moment \<Rightarrow> string option
     \<Rightarrow> string option \<Rightarrow> database \<Rightarrow> (run \<times> run_attempt \<times> activity_event) option pg_transaction" where
  "pg_finalize_attempt aid worker expected_version requested_status terminal_event now
      error_code error_message db =
     (case first_row (filter (\<lambda>a. att_id a = aid \<and> att_status a = ATT_RUNNING
         \<and> sql_eq (att_worker_id a) (Some worker) \<and> att_version a = expected_version) (db_attempts db)) of
        None \<Rightarrow> Inr (None, db)
      | Some a \<Rightarrow> (case joined_run a db of
            None \<Rightarrow> Inr (None, db)
          | Some r \<Rightarrow>
              if run_status r \<in> {COMPLETED, FAILED} then Inr (None, db)
              else let
                final_status = (if run_status r = CANCELLED then CANCELLED else requested_status);
                close_attempt = closed_attempt (terminal_attempt_status final_status) error_code error_message now;
                db1 = update_runs (\<lambda>x. run_id x = att_run_id a) (closed_run final_status now)
                  (update_attempts (\<lambda>x. att_id x = aid) close_attempt db)
              in next_statement (record_final final_status (final_event terminal_event final_status now) db1)
                (\<lambda>event db2. Inr (Some (closed_run final_status now r, close_attempt a, event),
                   close_outbox (att_run_id a) now db2))))"

definition failed_event :: "run \<Rightarrow> run_attempt \<Rightarrow> string \<Rightarrow> moment \<Rightarrow> moment \<Rightarrow> activity_event" where
  "failed_event r a error_code now clock =
     (fresh_event (terminal_id (run_id r) (att_id a)) r ''run.failed''
        [(''mission_id'', opt_json (run_mission_id r)), (''status'', JStr ''failed''),
         (''attempt_id'', JStr (att_id a)), (''attempt_number'', JInt (int (att_number a))),
         (''error_code'', JStr error_code)] clock)\<lparr>ev_completed_at := Some now\<rparr>"

text \<open>\<^verbatim>\<open>ON CONFLICT (run_id, attempt_number) DO NOTHING\<close>: a clash of the primary key instead aborts.\<close>

definition insert_retry :: "run_attempt \<Rightarrow> database \<Rightarrow> unit pg_transaction" where
  "insert_retry a db =
     (if list_ex (\<lambda>b. att_run_id b = att_run_id a \<and> att_number b = att_number a) (db_attempts db)
      then Inr ((), db)
      else if list_ex (\<lambda>b. att_id b = att_id a) (db_attempts db) then Inl (IntegrityError ''run_attempts'')
      else Inr ((), db\<lparr>db_attempts := db_attempts db @ [a]\<rparr>))"

definition pg_transition_failed_attempt ::
  "string \<Rightarrow> nat \<Rightarrow> rat \<Rightarrow> moment \<Rightarrow> string \<Rightarrow> string \<Rightarrow> string option \<Rightarrow> moment option
     \<Rightarrow> moment \<Rightarrow> database \<Rightarrow> transition_result pg_transaction" where
  "pg_transition_failed_attempt aid expected_version retry_delay_seconds now error_code
      error_message worker lease_expired_before clock db =
     (case first_row (filter (\<lambda>a. att_id a = aid \<and> att_status a = ATT_RUNNING \<and> att_version a = expected_version
         \<and> if_given worker (att_worker_id a)
         \<and> (lease_expired_before = None \<or> sql_le (att_lease_expires_at a) lease_expired_before))
         (db_attempts db)) of
        None \<Rightarrow> Inr (Stale, db)
      | Some a \<Rightarrow> (case joined_run a db of
            None \<Rightarrow> Inr (Stale, db)
          | Some r \<Rightarrow>
              if run_status r = CANCELLED
              then Inr (TCancelled, update_attempts (\<lambda>x. att_id x = aid)
                (\<lambda>x. x\<lparr>att_status := ATT_CANCELLED, att_completed_at := Some now,
                   att_lease_expires_at := None, att_version := att_version x + 1\<rparr>) db)
              else let db1 = update_attempts (\<lambda>x. att_id x = aid)
                  (closed_attempt ATT_FAILED (Some error_code) (Some error_message) now) db in
              if \<not> (att_retryable a \<and> att_number a < run_max_attempts r)
              then next_statement (insert_event (failed_event r a error_code now clock)
                  (update_runs (\<lambda>x. run_id x = run_id r \<and> run_status x \<in> {QUEUED, RUNNING})
                    (closed_run FAILED now) db1))
                (\<lambda>_ db2. Inr (TFailed, close_outbox (run_id r) now db2))
              else next_statement (insert_retry (retry_attempt r a now) db1)
                (\<lambda>_ db2. Inr (TRetryable,
                   update_runs (\<lambda>x. run_id x = run_id r \<and> run_status x \<in> {QUEUED, RUNNING})
                     (\<lambda>x. x\<lparr>run_status := QUEUED, run_current_attempt := att_number a + 1,
                        run_retry_count := min (run_retry_count x + 1) (run_max_attempts x - 1),
                        run_next_retry_at := Some (now + timedelta_seconds (max 0 retry_delay_seconds)),
                        run_completed_at := None\<rparr>) db2))))"

definition pg_cancel ::
  "string \<Rightarrow> moment \<Rightarrow> activity_event option \<Rightarrow> database \<Rightarrow> activity_event option pg_transaction" where
  "pg_cancel rid now terminal_event db =
     (let (changed, rows) = sql_update (\<lambda>r. run_id r = rid \<and> run_status r \<notin> {COMPLETED, FAILED, CANCELLED})
        (\<lambda>r. r\<lparr>run_status := CANCELLED, run_cancel_requested_at := Some now, run_completed_at := Some now\<rparr>)
        (db_runs db) in
      if changed = [] then Inr (None, db)
      else let db1 = update_attempts (\<lambda>a. att_run_id a = rid \<and> att_status a \<in> {ATT_RUNNING, ATT_RETRYABLE})
          (\<lambda>a. a\<lparr>att_status := ATT_CANCELLED, att_completed_at := Some now, att_lease_expires_at := None,
             att_version := att_version a + 1\<rparr>) (db\<lparr>db_runs := rows\<rparr>) in
      (case terminal_event of
         None \<Rightarrow> Inr (None, close_outbox rid now db1)
       | Some te \<Rightarrow> let event = te\<lparr>ev_completed_at := Some now\<rparr> in
           next_statement (insert_event event db1) (\<lambda>_ db2.
             Inr (map_option (sequenced_as event) (event_sequences (ev_id event) db2),
                  close_outbox rid now db2))))"

definition pg_recoverable :: "database \<Rightarrow> moment \<Rightarrow> run_attempt \<Rightarrow> bool" where
  "pg_recoverable db now a =
     (case joined_run a db of
        None \<Rightarrow> False
      | Some r \<Rightarrow> run_status r \<in> {QUEUED, RUNNING}
          \<and> (run_next_retry_at r = None \<or> sql_le (run_next_retry_at r) (Some now))
          \<and> (att_status a = ATT_RETRYABLE
             \<or> (att_status a = ATT_RUNNING \<and> att_lease_expires_at a \<noteq> None
                \<and> sql_le (att_lease_expires_at a) (Some now))))"

definition pg_list_recoverable :: "(string \<Rightarrow> bool) \<Rightarrow> database \<Rightarrow> moment \<Rightarrow> int \<Rightarrow> run_attempt list" where
  "pg_list_recoverable locked db now limit =
     take (page_limit limit) (sort_key (\<lambda>a. (att_started_at a, att_id a))
       (filter (\<lambda>a. pg_recoverable db now a \<and> \<not> locked (att_id a)) (db_attempts db)))"

section \<open>The tables mirror an in-memory store\<close>

definition log_mirror :: "activity_event list \<Rightarrow> event_logs \<Rightarrow> bool" where
  "log_mirror rows L =
     ((\<forall>rid. filter (\<lambda>e. ev_run_id e = Some rid) rows = log_of L rid)
      \<and> mset rows = mset (concat (dict_values L))
      \<and> distinct (map ev_id rows) \<and> (\<forall>e \<in> set rows. ev_run_id e \<noteq> None))"

definition outbox_mirror :: "outbox_row list \<Rightarrow> (string, bool) dict \<Rightarrow> bool" where
  "outbox_mirror rows box =
     (map (\<lambda>row. (ob_run_id row, ob_published_at row \<noteq> None)) rows = box \<and> dict_wf box)"

definition mirrors :: "database \<Rightarrow> run_store \<Rightarrow> bool" where
  "mirrors db rs =
     (db_runs db = dict_values (rs_items rs) \<and> db_attempts db = dict_values (rs_attempts rs)
      \<and> log_mirror (db_events db) (rs_events rs) \<and> outbox_mirror (db_outbox db) (rs_outbox rs))"

text \<open>An unfinished run is queued or running and has no completion time; a running attempt has a lease.\<close>

definition tidy_run :: "run \<Rightarrow> bool" where
  "tidy_run r = (run_terminal (run_status r)
     \<or> (run_status r \<in> {QUEUED, RUNNING} \<and> run_completed_at r = None))"

definition tidy_attempt :: "run_attempt \<Rightarrow> bool" where
  "tidy_attempt a = (att_status a = ATT_RUNNING \<longrightarrow> att_lease_expires_at a \<noteq> None)"

definition tidy :: "database \<Rightarrow> bool" where
  "tidy db = (list_all tidy_run (db_runs db) \<and> list_all tidy_attempt (db_attempts db))"

lemma log_mirror_touch: "log_mirror rows L \<Longrightarrow> log_mirror rows (dict_setdefault L rid [])"
proof -
  have "concat (dict_values (dict_setdefault L rid [])) = concat (dict_values L)"
    by (simp add: dict_setdefault_def split: option.splits)
  then show "log_mirror rows L \<Longrightarrow> ?thesis" by (simp add: log_mirror_def)
qed

lemma max_default_cong: "set xs = set ys \<Longrightarrow> max_default xs = max_default ys"
  by (metis max_default_ge max_default_le order.antisym)

lemma filter_same_key: "distinct (map f xs) \<Longrightarrow> y \<in> set xs \<Longrightarrow> filter (\<lambda>z. f z = f y) xs = [y]"
  by (induction xs) (auto simp: filter_empty_conv image_iff)

lemma log_mirror_sequences:
  assumes "log_mirror (db_events db) L" "logs_ok L"
  shows "next_sequence (Some rid) db = last_sequence (log_of L rid) + 1"
    and "next_thread_sequence tid db = max_default (map ev_thread_sequence (thread_log L tid)) + 1"
proof -
  have "filter (\<lambda>e. sql_eq (ev_run_id e) (Some rid)) (db_events db) = log_of L rid"
    using assms(1) by (simp add: log_mirror_def sql_eq_Some)
  moreover have "max_default (map ev_sequence es) = last_sequence es" if "sorted_wrt (<) (map ev_sequence es)" for es
  proof (cases "es = []")
    case False
    then show ?thesis using last_sequence_max [OF that]
      by (intro antisym max_default_le max_default_ge) (auto simp: last_sequence_def)
  qed (simp add: max_default_def last_sequence_def)
  ultimately show "next_sequence (Some rid) db = last_sequence (log_of L rid) + 1"
    using assms(2) by (simp add: next_sequence_def logs_ok_def)
  have "set (db_events db) = set (concat (dict_values L))"
    using assms(1) mset_eq_setD unfolding log_mirror_def by blast
  then show "next_thread_sequence tid db = max_default (map ev_thread_sequence (thread_log L tid)) + 1"
    unfolding next_thread_sequence_def thread_log_def by (simp add: max_default_cong)
qed

text \<open>An event's identifier is not in use in the log of another run.\<close>

definition own_event :: "string \<Rightarrow> activity_event \<Rightarrow> database \<Rightarrow> bool" where
  "own_event rid e db = (ev_run_id e = Some rid
     \<and> (\<forall>x \<in> set (db_events db). ev_id x = ev_id e \<longrightarrow> ev_run_id x = Some rid))"

lemma log_mirror_append:
  assumes "log_mirror rows L" "dict_get L rid = Some es" "ev_run_id e = Some rid" "ev_id e \<notin> ev_id ` set rows"
  shows "log_mirror (rows @ [e]) (dict_set L rid (es @ [e]))"
proof -
  have "log_of L rid = es" using assms(2) by (simp add: log_of_def)
  then show ?thesis using assms mset_concat_set [OF assms(2), of e]
    by (auto simp: log_mirror_def log_of_set)
qed

lemma insert_event_cases:
  assumes "log_mirror (db_events db) (rs_events rs)" "logs_ok (rs_events rs)" "own_event rid e db"
    and "insert_event e db = Inr (x, db')"
  obtains (old) y where "find (\<lambda>z. ev_id z = ev_id e) (run_events rs rid) = Some y" "x = None" "db' = db"
      "event_sequences (ev_id e) db = Some (ev_sequence y, ev_thread_sequence y)"
  | (new) stamped where "find (\<lambda>z. ev_id z = ev_id e) (run_events rs rid) = None"
      "stamped = e\<lparr>ev_sequence := last_sequence (run_events rs rid) + 1,
         ev_thread_sequence := max_thread_sequence rs (ev_thread_id e) + 1\<rparr>"
      "x = Some (ev_sequence stamped, ev_thread_sequence stamped)"
      "db' = db\<lparr>db_events := db_events db @ [stamped]\<rparr>"
      "event_sequences (ev_id e) db' = x"
      "log_mirror (db_events db') (rs_events (push_event rid stamped (touch_events rid rs)))"
proof -
  let ?rows = "db_events db"
  have run: "filter (\<lambda>z. ev_run_id z = Some rid) ?rows = run_events rs rid"
    using assms(1) by (simp add: log_mirror_def run_events_log)
  have rid: "ev_run_id e = Some rid" and own: "\<And>z. z \<in> set ?rows \<Longrightarrow> ev_id z = ev_id e \<Longrightarrow> ev_run_id z = Some rid"
    using assms(3) by (auto simp: own_event_def)
  show thesis
  proof (cases "ev_id e \<in> ev_id ` set ?rows")
    case True
    then have id: "x = None" "db' = db" using assms(4) by (simp_all add: insert_event_def sql_insert_def Let_def)
    from True obtain z where z: "z \<in> set ?rows" "ev_id z = ev_id e" by auto
    then have "z \<in> set (run_events rs rid)" unfolding run [symmetric] using own by simp
    then obtain y where y: "find (\<lambda>z. ev_id z = ev_id e) (run_events rs rid) = Some y"
      using z(2) by (cases "find (\<lambda>z. ev_id z = ev_id e) (run_events rs rid)") (auto simp: find_None_iff)
    then have "y \<in> set ?rows" "ev_id y = ev_id e" using find_SomeD [OF y] unfolding run [symmetric] by simp_all
    moreover have "distinct (map ev_id ?rows)" using assms(1) by (simp add: log_mirror_def)
    ultimately have "filter (\<lambda>z. ev_id z = ev_id e) ?rows = [y]" by (metis filter_same_key)
    then have "event_sequences (ev_id e) db = Some (ev_sequence y, ev_thread_sequence y)"
      by (simp add: event_sequences_def)
    with y id show thesis by (rule old)
  next
    case False
    then have other: "ev_id z \<noteq> ev_id e" if "z \<in> set ?rows" for z using that by (metis imageI)
    define stamped where "stamped = e\<lparr>ev_sequence := last_sequence (run_events rs rid) + 1,
      ev_thread_sequence := max_thread_sequence rs (ev_thread_id e) + 1\<rparr>"
    have "x = Some (ev_sequence stamped, ev_thread_sequence stamped)"
      "db' = db\<lparr>db_events := ?rows @ [stamped]\<rparr>"
      using False assms(4) rid log_mirror_sequences [OF assms(1,2)]
      by (auto simp: insert_event_def sql_insert_def Let_def stamped_def run_events_log max_thread_sequence_log
          split: if_splits)
    moreover have "find (\<lambda>z. ev_id z = ev_id e) (run_events rs rid) = None"
      unfolding run [symmetric] using other by (simp add: find_None_iff)
    moreover have "filter (\<lambda>z. ev_id z = ev_id e) ?rows = []" using other by (simp add: filter_empty_conv)
    moreover have "log_mirror (?rows @ [stamped]) (rs_events (push_event rid stamped (touch_events rid rs)))"
    proof -
      have "dict_get (dict_setdefault (rs_events rs) rid []) rid = Some (log_of (rs_events rs) rid)"
        by (auto simp: log_of_def split: option.splits)
      from log_mirror_append [OF log_mirror_touch [OF assms(1)] this, of stamped] False rid show ?thesis
        by (simp add: push_event_def touch_events_def run_events_log stamped_def)
    qed
    ultimately show thesis by (intro new) (simp_all add: event_sequences_def stamped_def)
  qed
qed

section \<open>Every transaction is a step of the protocol\<close>

lemma mirrors_keyed: "mirrors db rs \<Longrightarrow> store_ok rs \<Longrightarrow>
    db_runs db = dict_values (rs_items rs) \<and> keyed run_id (rs_items rs)
    \<and> db_attempts db = dict_values (rs_attempts rs) \<and> keyed att_id (rs_attempts rs)"
  using lifecycle_keyed [of "rs_items rs" "rs_attempts rs"] by (simp add: mirrors_def)

lemma mirrors_same:
  "mirrors db rs \<Longrightarrow> db\<lparr>db_runs := dict_values (rs_items rs)\<rparr> = db"
  "mirrors db rs \<Longrightarrow> db\<lparr>db_attempts := dict_values (rs_attempts rs)\<rparr> = db"
  by (cases db; simp add: mirrors_def)+

lemma tidy_runs: "mirrors db rs \<Longrightarrow> tidy db \<Longrightarrow> dict_get (rs_items rs) rid = Some r \<Longrightarrow> tidy_run r"
  using dict_get_SomeD [of "rs_items rs" rid r] by (force simp: mirrors_def tidy_def list_all_iff)

lemma tidy_attempts: "mirrors db rs \<Longrightarrow> tidy db \<Longrightarrow> dict_get (rs_attempts rs) aid = Some a \<Longrightarrow> tidy_attempt a"
  using dict_get_SomeD [of "rs_attempts rs" aid a] by (force simp: mirrors_def tidy_def list_all_iff)

lemma list_all_dict_set:
  "list_all P (dict_values d) \<Longrightarrow> P v \<Longrightarrow> list_all P (dict_values (dict_set d k v))"
  using set_dict_set [of d k v] by (fastforce simp: list_all_iff)

text \<open>Where the mirrored store stands when one of its dictionaries is written.\<close>

lemma mirrors_set_run:
  "mirrors db rs \<Longrightarrow> tidy db \<Longrightarrow> tidy_run r \<Longrightarrow>
     mirrors (db\<lparr>db_runs := dict_values (dict_set (rs_items rs) rid r)\<rparr>)
       (rs\<lparr>rs_items := dict_set (rs_items rs) rid r\<rparr>)
     \<and> tidy (db\<lparr>db_runs := dict_values (dict_set (rs_items rs) rid r)\<rparr>)"
  by (auto simp: mirrors_def tidy_def intro: list_all_dict_set)

lemma mirrors_set_attempt:
  "mirrors db rs \<Longrightarrow> tidy db \<Longrightarrow> tidy_attempt a \<Longrightarrow>
     mirrors (db\<lparr>db_attempts := dict_values (dict_set (rs_attempts rs) aid a)\<rparr>)
       (rs\<lparr>rs_attempts := dict_set (rs_attempts rs) aid a\<rparr>)
     \<and> tidy (db\<lparr>db_attempts := dict_values (dict_set (rs_attempts rs) aid a)\<rparr>)"
  by (auto simp: mirrors_def tidy_def intro: list_all_dict_set)

text \<open>The executor's start, whose two versions differ only in when they reset the completion time.\<close>

lemma pg_start_mirrors:
  assumes "mirrors db rs" "tidy db" "store_ok rs"
    and "pg_compare_and_set_status rid {QUEUED} RUNNING now db = Inr (x, db')"
  shows "x = fst (compare_and_set_status rid {QUEUED} RUNNING now rs)
    \<and> mirrors db' (snd (compare_and_set_status rid {QUEUED} RUNNING now rs)) \<and> tidy db'"
proof (cases "dict_get (rs_items rs) rid")
  case None
  with assms mirrors_keyed [OF assms(1,3)] show ?thesis
    by (auto simp: pg_compare_and_set_status_def compare_and_set_status_def sql_update_keyed mirrors_same)
next
  case (Some r)
  note keyed = mirrors_keyed [OF assms(1,3)]
  show ?thesis
  proof (cases "run_status r = QUEUED")
    case False
    with assms keyed Some show ?thesis
      by (auto simp: pg_compare_and_set_status_def compare_and_set_status_def sql_update_keyed mirrors_same)
  next
    case True
    let ?r = "with_status RUNNING now r"
    from True tidy_runs [OF assms(1,2) Some] have none: "run_completed_at r = None"
      by (simp add: tidy_run_def run_terminal_def)
    have "x = Some ?r" "db' = db\<lparr>db_runs := dict_values (dict_set (rs_items rs) rid ?r)\<rparr>"
      using assms(4) keyed Some True by (simp_all add: pg_compare_and_set_status_def sql_update_keyed)
    moreover have "compare_and_set_status rid {QUEUED} RUNNING now rs =
        (Some ?r, rs\<lparr>rs_items := dict_set (rs_items rs) rid ?r\<rparr>)"
      using Some True none by (simp add: compare_and_set_status_def with_status_def run_terminal_def Let_def)
    moreover have "tidy_run ?r" using none by (simp add: tidy_run_def with_status_def run_terminal_def)
    ultimately show ?thesis using mirrors_set_run [OF assms(1,2)] by simp
  qed
qed

text \<open>Claiming: under the lifecycle invariant only a run's newest attempt is live, so the newest
  claimable attempt, which the query looks for, is the newest attempt, which the in-memory method tests.\<close>

lemma pg_claimable: "pg_claimable now a = claimable now a"
  by (auto simp: pg_claimable_def claimable_def split: option.splits)

lemma newest_first:
  assumes "a \<in> set xs" "\<And>b. b \<in> set xs \<Longrightarrow> b \<noteq> a \<Longrightarrow> f b < f a"
  shows "first_row (sorted_desc f xs) = Some (a :: 'a)"
proof -
  have "sorted_desc f xs \<noteq> []" using assms(1) set_sorted_desc [of f xs] by (metis empty_iff empty_set)
  then obtain b bs where b: "sorted_desc f xs = b # bs" by (cases "sorted_desc f xs") auto
  then have set: "set (b # bs) = set xs" using set_sorted_desc [of f xs] by simp
  have "f c \<le> f b" if "c \<in> set bs" for c using sorted_desc_sorted [of f xs] that by (simp add: b)
  then have "b = a" using assms set by (metis list.set_intros(1) not_le set_ConsD)
  with b show ?thesis by simp
qed

lemma first_row_sorted: "first_row (sorted_desc f xs) = Some a \<Longrightarrow> a \<in> set xs"
  using set_sorted_desc [of f xs] by (cases "sorted_desc f xs") auto

lemma live_is_newest:
  assumes "store_ok rs" "dict_get (rs_attempts rs) (att_id a) = Some a" "live a"
    and "b \<in> set (dict_values (rs_attempts rs))" "att_run_id b = att_run_id a" "b \<noteq> a"
  shows "att_number b < att_number a"
proof -
  have b: "dict_get (rs_attempts rs) (att_id b) = Some b"
    by (rule keyed_value_get [OF conjunct2 [OF lifecycle_keyed [OF assms(1)]] assms(4)])
  obtain r where "dict_get (rs_items rs) (att_run_id a) = Some r" "att_number a = run_current_attempt r"
    using live_run [OF assms(1-3)] by blast
  then have "att_number b \<le> att_number a"
    using lifecycle_attempt [OF assms(1) b] assms(5) by (auto simp: attempt_ok_def)
  moreover have "att_number b \<noteq> att_number a"
    using lifecycle_number [OF assms(1) b assms(2,5)] b assms(2,6) by auto
  ultimately show ?thesis by simp
qed

lemma pg_claim_mirrors:
  assumes "mirrors db rs" "tidy db" "store_ok rs" "pg_claim locked rid worker lease now db = Inr (x, db')"
  shows "(x = None \<and> db' = db) \<or> (x = fst (claim rid worker lease now rs)
    \<and> mirrors db' (snd (claim rid worker lease now rs)) \<and> tidy db')"
proof -
  note keyed = mirrors_keyed [OF assms(1,3)]
  let ?own = "filter (\<lambda>a. att_run_id a = rid) (dict_values (rs_attempts rs))"
  let ?free = "filter (\<lambda>a. att_run_id a = rid \<and> pg_claimable now a \<and> \<not> locked (att_id a)) (db_attempts db)"
  show ?thesis
  proof (cases "first_row (sorted_desc att_number ?free)")
    case None
    with assms(4) show ?thesis by (simp add: pg_claim_def Let_def)
  next
    case (Some a)
    then have "a \<in> set ?free" by (rule first_row_sorted)
    then have a: "a \<in> set (dict_values (rs_attempts rs))" "att_run_id a = rid" "claimable now a"
      using keyed by (simp_all add: pg_claimable)
    then have get: "dict_get (rs_attempts rs) (att_id a) = Some a" using keyed by (intro keyed_value_get) simp_all
    have "first_row (sorted_desc att_number ?own) = Some a"
      by (rule newest_first) (use a live_is_newest [OF assms(3) get claimable_live [OF a(3)]] in auto)
    then obtain bs where "sorted_desc att_number ?own = a # bs"
      by (cases "sorted_desc att_number ?own") auto
    with a(3) have "claim rid worker lease now rs = (Some (claimed_by worker lease now a),
        rs\<lparr>rs_attempts := dict_set (rs_attempts rs) (att_id a) (claimed_by worker lease now a)\<rparr>)"
      by (simp add: claim_def claimed_by_def Let_def)
    moreover have "x = Some (claimed_by worker lease now a)"
      "db' = db\<lparr>db_attempts := dict_values (dict_set (rs_attempts rs) (att_id a) (claimed_by worker lease now a))\<rparr>"
      using assms(4) keyed Some get by (simp_all add: pg_claim_def Let_def sql_update_key)
    moreover have "tidy_attempt (claimed_by worker lease now a)" by (simp add: tidy_attempt_def claimed_by_def)
    ultimately show ?thesis using mirrors_set_attempt [OF assms(1,2)] by simp
  qed
qed

lemma pg_heartbeat_mirrors:
  assumes "mirrors db rs" "tidy db" "store_ok rs" "pg_heartbeat aid worker lease version now db = Inr (x, db')"
  shows "x = fst (heartbeat aid worker lease version now rs)
    \<and> mirrors db' (snd (heartbeat aid worker lease version now rs)) \<and> tidy db'"
proof (cases "dict_get (rs_attempts rs) aid")
  case None
  with assms mirrors_keyed [OF assms(1,3)] show ?thesis
    by (auto simp: pg_heartbeat_def heartbeat_def sql_update_keyed mirrors_same)
next
  case (Some a)
  note keyed = mirrors_keyed [OF assms(1,3)]
  let ?P = "sql_eq (att_worker_id a) (Some worker) \<and> att_status a = ATT_RUNNING
    \<and> sql_less (Some now) (att_lease_expires_at a) \<and> if_given version (Some (att_version a))"
  let ?a = "a\<lparr>att_heartbeat_at := Some now, att_lease_expires_at := Some (now + timedelta_seconds lease)\<rparr>"
  have mem: "heartbeat aid worker lease version now rs =
      (if ?P then (True, rs\<lparr>rs_attempts := dict_set (rs_attempts rs) aid ?a\<rparr>) else (False, rs))"
    using Some tidy_attempts [OF assms(1,2) Some]
    by (auto simp: heartbeat_def sql_eq_Some tidy_attempt_def sql_less_def not_le split: option.splits)
  have pg: "x = ?P \<and> db' = (if ?P then db\<lparr>db_attempts := dict_values (dict_set (rs_attempts rs) aid ?a)\<rparr> else db)"
    using assms(4) keyed Some by (auto simp: pg_heartbeat_def sql_update_keyed mirrors_same [OF assms(1)] split: if_splits)
  have "tidy_attempt ?a" by (simp add: tidy_attempt_def)
  with mem pg mirrors_set_attempt [OF assms(1,2)] assms(1,2) show ?thesis by simp
qed

text \<open>Settling.\<close>

lemma outbox_mirror_close:
  assumes "outbox_mirror (db_outbox db) (rs_outbox rs)"
  shows "outbox_mirror (db_outbox (close_outbox rid now db)) (rs_outbox (mark_outbox_published rid rs))"
proof -
  have keyed: "map (\<lambda>kv. if fst kv = rid then (fst kv, True) else kv) d =
      (case dict_get d rid of None \<Rightarrow> d | Some _ \<Rightarrow> dict_set d rid True)" if "dict_wf d" for d :: "(string, bool) dict"
    using that
  proof (induction d)
    case (Cons kv d)
    have "map (\<lambda>kv. if fst kv = rid then (fst kv, True) else kv) d = d" if "rid \<notin> set (dict_keys d)"
      using that by (force intro!: map_idI)
    then show ?case using Cons by (cases kv) (auto simp: dict_wf_def dict_get_None split: option.splits; force)
  qed simp
  let ?view = "\<lambda>row. (ob_run_id row, ob_published_at row \<noteq> None)"
  have wf: "dict_wf (rs_outbox rs)" and box: "rs_outbox rs = map ?view (db_outbox db)"
    using assms by (simp_all add: outbox_mirror_def)
  have "map ?view (db_outbox (close_outbox rid now db)) =
      map (\<lambda>kv. if fst kv = rid then (fst kv, True) else kv) (rs_outbox rs)"
    by (auto simp: box close_outbox_def sql_update_def split: option.splits)
  with keyed [OF wf] wf show ?thesis
    by (simp add: outbox_mirror_def mark_outbox_published_def split: option.splits)
qed

lemma mirrors_closed_runs:
  assumes "mirrors db rs" "tidy db" "keyed run_id (rs_items rs)" "dict_get (rs_items rs) rid = Some r" "P r"
    "tidy_run (f r)"
  shows "mirrors (update_runs (\<lambda>x. run_id x = rid \<and> P x) f db) (rs\<lparr>rs_items := dict_set (rs_items rs) rid (f r)\<rparr>)
    \<and> tidy (update_runs (\<lambda>x. run_id x = rid \<and> P x) f db)"
  using mirrors_set_run [OF assms(1,2,6), of rid] assms
  by (simp add: update_runs_def sql_update_keyed mirrors_def)

lemma mirrors_closed_attempts:
  assumes "mirrors db rs" "tidy db" "keyed att_id (rs_attempts rs)" "dict_get (rs_attempts rs) aid = Some a"
    "tidy_attempt (f a)"
  shows "mirrors (update_attempts (\<lambda>x. att_id x = aid) f db) (rs\<lparr>rs_attempts := dict_set (rs_attempts rs) aid (f a)\<rparr>)
    \<and> tidy (update_attempts (\<lambda>x. att_id x = aid) f db)"
  using mirrors_set_attempt [OF assms(1,2,5), of aid] assms
  by (simp add: update_attempts_def sql_update_key mirrors_def)

lemma tidy_close_outbox [simp]: "tidy (close_outbox rid now db) = tidy db"
  by (simp add: tidy_def close_outbox_def)

lemma mirrors_close_outbox:
  "mirrors db rs \<Longrightarrow> tidy db \<Longrightarrow>
     mirrors (close_outbox rid now db) (mark_outbox_published rid rs) \<and> tidy (close_outbox rid now db)"
  using outbox_mirror_close [of db rs rid now]
  by (auto simp: mirrors_def tidy_def close_outbox_def mark_outbox_published_def split: option.splits)

lemma mirrors_event:
  assumes "mirrors db rs" "tidy db" "logs_ok (rs_events rs)" "own_event rid e db" "insert_event e db = Inr (x, db')"
  shows "(case find (\<lambda>z. ev_id z = ev_id e) (run_events rs rid) of
      Some y \<Rightarrow> mirrors db' (touch_events rid rs) \<and> tidy db'
        \<and> event_sequences (ev_id e) db' = Some (ev_sequence y, ev_thread_sequence y) \<and> x = None
    | None \<Rightarrow> let stamped = e\<lparr>ev_sequence := last_sequence (run_events rs rid) + 1,
           ev_thread_sequence := max_thread_sequence rs (ev_thread_id e) + 1\<rparr> in
        mirrors db' (push_event rid stamped (touch_events rid rs)) \<and> tidy db'
        \<and> event_sequences (ev_id e) db' = Some (ev_sequence stamped, ev_thread_sequence stamped)
        \<and> x = event_sequences (ev_id e) db')"
proof -
  have log: "log_mirror (db_events db) (rs_events rs)" using assms(1) by (simp add: mirrors_def)
  show ?thesis
  proof (cases rule: insert_event_cases [OF log assms(3-5)])
    case (1 y)
    with assms(1,2) log_mirror_touch [OF log, of rid] show ?thesis
      by (simp add: mirrors_def touch_events_def tidy_def)
  next
    case (2 stamped)
    have "mirrors db' (push_event rid stamped (touch_events rid rs))"
      using assms(1) 2(6) by (simp add: mirrors_def 2(4))
    with assms(2) 2 show ?thesis by (simp add: Let_def tidy_def)
  qed
qed

lemma attempt_query:
  assumes "mirrors db rs" "store_ok rs"
  shows "first_row (filter (\<lambda>a. att_id a = aid \<and> P a) (db_attempts db)) =
    (case dict_get (rs_attempts rs) aid of None \<Rightarrow> None | Some a \<Rightarrow> if P a then Some a else None)"
  using mirrors_keyed [OF assms] by (simp add: rows_of_key split: option.split)

lemma joined_run_mirrors:
  assumes "mirrors db rs" "store_ok rs"
  shows "joined_run a db = dict_get (rs_items rs) (att_run_id a)"
  using mirrors_keyed [OF assms] rows_of_key [of run_id "rs_items rs" "att_run_id a" "\<lambda>_. True"]
  by (simp add: joined_run_def split: option.splits)

lemma sort_key_Nil: "sort_key f xs = [] \<Longrightarrow> xs = []"
  by (metis length_0_conv length_sort)

lemma record_final_mirrors:
  assumes "mirrors db rs" "tidy db" "logs_ok (rs_events rs)" "own_event rid e db"
    and "record_final status e db = Inr (x, db')"
  shows "mirrors db' (case find (\<lambda>z. ev_id z = ev_id e \<or> (status = CANCELLED \<and> ev_event_type z = ''run.cancelled''))
        (run_events rs rid) of
      Some _ \<Rightarrow> touch_events rid rs
    | None \<Rightarrow> push_event rid (e\<lparr>ev_sequence := last_sequence (run_events rs rid) + 1,
        ev_thread_sequence := max_thread_sequence rs (ev_thread_id e) + 1\<rparr>) (touch_events rid rs)) \<and> tidy db'"
proof -
  let ?cancelled = "\<lambda>z. status = CANCELLED \<and> ev_event_type z = ''run.cancelled''"
  let ?reports = "filter (\<lambda>z. sql_eq (ev_run_id z) (ev_run_id e) \<and> ev_event_type z = ''run.cancelled'') (db_events db)"
  have rid: "ev_run_id e = Some rid" using assms(4) by (simp add: own_event_def)
  have log: "log_mirror (db_events db) (rs_events rs)" using assms(1) by (simp add: mirrors_def)
  have "?reports = filter (\<lambda>z. ev_event_type z = ''run.cancelled'') (filter (\<lambda>z. ev_run_id z = Some rid) (db_events db))"
    by (simp add: rid sql_eq_Some conj_commute)
  also have "filter (\<lambda>z. ev_run_id z = Some rid) (db_events db) = run_events rs rid"
    using log by (simp add: log_mirror_def run_events_log)
  finally have reports: "?reports = filter (\<lambda>z. ev_event_type z = ''run.cancelled'') (run_events rs rid)" .
  show ?thesis
  proof (cases "status = CANCELLED \<and> ?reports \<noteq> []")
    case True
    then obtain y ys where "sort_key ev_sequence ?reports = y # ys" by (cases "sort_key ev_sequence ?reports") (auto dest: sort_key_Nil)
    with True assms(5) have "db' = db" by (simp add: record_final_def)
    moreover have "find (\<lambda>z. ev_id z = ev_id e \<or> ?cancelled z) (run_events rs rid) \<noteq> None"
      using True unfolding reports by (auto simp: find_None_iff filter_empty_conv)
    ultimately show ?thesis using assms(1,2) log_mirror_touch [OF log, of rid]
      by (auto simp: mirrors_def touch_events_def)
  next
    case False
    then have "record_final status e db = pg_append_event e db" by (auto simp: record_final_def)
    then obtain y where insert: "insert_event e db = Inr (y, db')"
      using assms(5) by (cases "insert_event e db") (auto simp: pg_append_event_def)
    have "find (\<lambda>z. ev_id z = ev_id e \<or> ?cancelled z) (run_events rs rid) = find (\<lambda>z. ev_id z = ev_id e) (run_events rs rid)"
      using False unfolding reports by (intro find_cong) (auto simp: filter_empty_conv)
    with mirrors_event [OF assms(1-4) insert] show ?thesis by (auto simp: Let_def split: option.splits)
  qed
qed

lemma pg_finalize_mirrors:
  assumes "mirrors db rs" "tidy db" "store_ok rs" "logs_ok (rs_events rs)" "run_terminal status"
    and own: "\<And>a. dict_get (rs_attempts rs) aid = Some a \<Longrightarrow> own_event (att_run_id a) event db"
    and call: "pg_finalize_attempt aid worker version status event now code msg db = Inr (x, db')"
  shows "map_option (\<lambda>(r, a, _). (r, a)) x
      = map_option (\<lambda>(r, a, _). (r, a)) (fst (finalize_attempt aid worker version status event now code msg rs))
    \<and> mirrors db' (snd (finalize_attempt aid worker version status event now code msg rs)) \<and> tidy db'"
proof -
  note query = attempt_query [OF assms(1,3)] joined_run_mirrors [OF assms(1,3)]
  let ?mem = "finalize_attempt aid worker version status event now code msg rs"
  note keyed = mirrors_keyed [OF assms(1,3)]
  show ?thesis
  proof (cases "\<exists>a r. dict_get (rs_attempts rs) aid = Some a \<and> att_status a = ATT_RUNNING
      \<and> att_worker_id a = Some worker \<and> att_version a = version \<and> dict_get (rs_items rs) (att_run_id a) = Some r
      \<and> run_status r \<notin> {COMPLETED, FAILED}")
    case False
    have "x = None \<and> db' = db"
      using False call query by (auto simp: pg_finalize_attempt_def sql_eq_Some split: option.splits if_splits)
    moreover have "?mem = (None, rs)"
      using False by (auto simp: finalize_attempt_def Let_def split: option.splits)
    ultimately show ?thesis using assms(1,2) by simp
  next
    case True
    then obtain a r where a: "dict_get (rs_attempts rs) aid = Some a" "att_status a = ATT_RUNNING"
        "att_worker_id a = Some worker" "att_version a = version"
      and r: "dict_get (rs_items rs) (att_run_id a) = Some r" "run_status r \<notin> {COMPLETED, FAILED}" by blast
    have rid: "run_id r = att_run_id a" using keyed_get keyed r(1) by metis
    define final where "final = (if run_status r = CANCELLED then CANCELLED else status)"
    define close where "close = closed_attempt (terminal_attempt_status final) code msg now"
    define ev where "ev = final_event event final now"
    define rs2 where "rs2 = rs\<lparr>rs_attempts := dict_set (rs_attempts rs) aid (close a),
      rs_items := dict_set (rs_items rs) (att_run_id a) (closed_run final now r)\<rparr>"
    define db2 where "db2 = update_runs (\<lambda>x. run_id x = att_run_id a) (closed_run final now)
      (update_attempts (\<lambda>x. att_id x = aid) close db)"
    have terminal: "run_terminal final" using assms(5) by (simp add: final_def run_terminal_def)
    have "tidy_attempt (close a)" "tidy_run (closed_run final now r)"
      using terminal by (auto simp: tidy_attempt_def close_def closed_attempt_def terminal_attempt_status_def
          tidy_run_def closed_run_def)
    then have m2: "mirrors db2 rs2 \<and> tidy db2"
      using mirrors_closed_attempts [OF assms(1,2) _ a(1), of close] keyed r(1)
        mirrors_closed_runs [of "update_attempts (\<lambda>x. att_id x = aid) close db"
          "rs\<lparr>rs_attempts := dict_set (rs_attempts rs) aid (close a)\<rparr>" "att_run_id a" r "\<lambda>_. True" "closed_run final now"]
      by (simp add: db2_def rs2_def)
    have events: "rs_events rs2 = rs_events rs" "db_events db2 = db_events db"
      by (simp_all add: rs2_def db2_def update_runs_def update_attempts_def)
    have ev_frame: "ev_id ev = ev_id event" "ev_run_id ev = ev_run_id event" "ev_thread_id ev = ev_thread_id event"
      by (simp_all add: ev_def final_event_def)
    have own2: "own_event (att_run_id a) ev db2" using own [OF a(1)] by (simp add: own_event_def ev_frame events)
    obtain y db3 where rec: "record_final final ev db2 = Inr (y, db3)"
      and x: "x = Some (closed_run final now r, close a, y)" "db' = close_outbox (att_run_id a) now db3"
      using call query a r by (cases "record_final final ev db2")
        (auto simp: pg_finalize_attempt_def Let_def final_def [symmetric] close_def [symmetric] ev_def [symmetric]
          db2_def [symmetric])
    let ?known = "find (\<lambda>z. ev_id z = ev_id ev \<or> (final = CANCELLED \<and> ev_event_type z = ''run.cancelled''))
      (run_events rs2 (att_run_id a))"
    let ?stamped = "ev\<lparr>ev_sequence := last_sequence (run_events rs2 (att_run_id a)) + 1,
      ev_thread_sequence := max_thread_sequence rs2 (ev_thread_id ev) + 1\<rparr>"
    let ?rs3 = "case ?known of Some _ \<Rightarrow> touch_events (att_run_id a) rs2
      | None \<Rightarrow> push_event (att_run_id a) ?stamped (touch_events (att_run_id a) rs2)"
    have "mirrors db3 ?rs3 \<and> tidy db3"
      using record_final_mirrors [OF _ _ _ own2 rec, of rs2] m2 assms(4) by (simp add: events)
    then have "mirrors db' (mark_outbox_published (att_run_id a) ?rs3) \<and> tidy db'"
      unfolding x(2) using mirrors_close_outbox by blast
    moreover have "snd ?mem = mark_outbox_published (att_run_id a) ?rs3"
      using a r rid
      by (auto simp: finalize_attempt_def Let_def final_def [symmetric] rs2_def ev_def final_event_def close_def
          closed_attempt_def closed_run_def split: option.splits)
    moreover have "map_option (\<lambda>(r, a, _). (r, a)) (fst ?mem) = Some (closed_run final now r, close a)"
      using a r rid
      by (auto simp: finalize_attempt_def Let_def final_def [symmetric] close_def closed_attempt_def closed_run_def)
    ultimately show ?thesis by (simp only: x(1)) simp
  qed
qed

text \<open>Failing.\<close>

lemma retry_is_new:
  assumes "store_ok rs" "dict_get (rs_attempts rs) aid = Some a" "live a"
    and "dict_get (rs_items rs) (att_run_id a) = Some r"
  shows "b \<in> set (dict_values (rs_attempts rs)) \<Longrightarrow> \<not> (att_run_id b = att_run_id a \<and> att_number b = att_number a + 1)"
    and "dict_get (rs_attempts rs) (retry_attempt_id (att_run_id a) (att_number a + 1)) = None"
proof -
  have top: "att_number a = run_current_attempt r" using live_run [OF assms(1-3)] assms(4) by force
  have fresh: "\<not> (att_run_id b = att_run_id a \<and> att_number b = att_number a + 1)"
    if "dict_get (rs_attempts rs) bid = Some b" for b bid
    using lifecycle_attempt [OF assms(1) that] assms(4) top by (auto simp: attempt_ok_def)
  then show "b \<in> set (dict_values (rs_attempts rs)) \<Longrightarrow> \<not> (att_run_id b = att_run_id a \<and> att_number b = att_number a + 1)"
    using keyed_value_get [OF conjunct2 [OF lifecycle_keyed [OF assms(1)]]] by blast
  show "dict_get (rs_attempts rs) (retry_attempt_id (att_run_id a) (att_number a + 1)) = None"
  proof (rule ccontr)
    let ?id = "retry_attempt_id (att_run_id a) (att_number a + 1)"
    assume "dict_get (rs_attempts rs) ?id \<noteq> None"
    then obtain b where b: "dict_get (rs_attempts rs) ?id = Some b" by blast
    have "str_startswith ?id ''attempt_retry_''" by (simp add: retry_attempt_id_def str_startswith_def)
    with lifecycle_attempt [OF assms(1) b] have "?id = retry_attempt_id (att_run_id b) (att_number b)"
      by (simp add: attempt_ok_def)
    then have "att_run_id b = att_run_id a \<and> att_number b = att_number a + 1" by (metis retry_attempt_id_inj)
    with fresh [OF b] show False by simp
  qed
qed

lemma mirrors_insert_retry:
  assumes "mirrors db rs" "tidy db" "keyed att_id (rs_attempts rs)"
    and "\<And>b. b \<in> set (dict_values (rs_attempts rs)) \<Longrightarrow> \<not> (att_run_id b = att_run_id a \<and> att_number b = att_number a)"
    and "dict_get (rs_attempts rs) (att_id a) = None" "tidy_attempt a" "insert_retry a db = Inr (u, db')"
  shows "mirrors db' (rs\<lparr>rs_attempts := dict_setdefault (rs_attempts rs) (att_id a) a\<rparr>) \<and> tidy db'"
proof -
  have rows: "db_attempts db = dict_values (rs_attempts rs)" using assms(1) by (simp add: mirrors_def)
  have "att_id a \<notin> att_id ` set (db_attempts db)" using rows_absent [OF assms(3,5)] by (simp add: rows)
  then have "db' = db\<lparr>db_attempts := db_attempts db @ [a]\<rparr>"
    using assms(4,7) by (auto simp: insert_retry_def rows list_ex_iff split: if_splits)
  then show ?thesis using assms(1,2,5,6) by (simp add: mirrors_def tidy_def dict_setdefault_def)
qed

lemma failed_event_mirrors:
  assumes "mirrors db rs" "tidy db" "logs_ok (rs_events rs)" "own_event (run_id r) (failed_event r a code now clock) db"
    and "insert_event (failed_event r a code now clock) db = Inr (x, db')"
  shows "mirrors db' (push_failed_event r a code now clock rs) \<and> tidy db'"
proof -
  have frame: "ev_id (failed_event r a code now clock) = terminal_id (run_id r) (att_id a)"
    "ev_thread_id (failed_event r a code now clock) = run_thread_id r"
    by (simp_all add: failed_event_def fresh_event_def)
  note result = mirrors_event [OF assms, unfolded frame]
  show ?thesis
  proof (cases "find (\<lambda>z. ev_id z = terminal_id (run_id r) (att_id a)) (run_events rs (run_id r))")
    case None
    then have "\<not> list_ex (\<lambda>x. ev_id x = terminal_id (run_id r) (att_id a)) (run_events rs (run_id r))"
      by (auto simp: find_None_iff list_ex_iff)
    with result None show ?thesis by (simp add: push_failed_event_def Let_def) (simp add: failed_event_def fresh_event_def)
  next
    case (Some y)
    then have "list_ex (\<lambda>x. ev_id x = terminal_id (run_id r) (att_id a)) (run_events rs (run_id r))"
      using find_SomeD [OF Some] by (auto simp: list_ex_iff)
    with result Some show ?thesis by (simp add: push_failed_event_def Let_def)
  qed
qed

lemma pg_fail_mirrors:
  assumes "mirrors db rs" "tidy db" "store_ok rs" "logs_ok (rs_events rs)"
    and own: "\<And>a r. dict_get (rs_attempts rs) aid = Some a \<Longrightarrow> dict_get (rs_items rs) (att_run_id a) = Some r \<Longrightarrow>
      own_event (run_id r) (failed_event r a code now clock) db"
    and call: "pg_transition_failed_attempt aid version delay now code msg worker bound clock db = Inr (x, db')"
  shows "x = fst (fail_call aid version delay now code msg worker bound clock rs)
    \<and> mirrors db' (snd (fail_call aid version delay now code msg worker bound clock rs)) \<and> tidy db'"
proof -
  note query = attempt_query [OF assms(1,3)] joined_run_mirrors [OF assms(1,3)]
  let ?mem = "fail_call aid version delay now code msg worker bound clock rs"
  note keyed = mirrors_keyed [OF assms(1,3)]
  have expired: "(bound = None \<or> sql_le (att_lease_expires_at b) bound) = (\<not> lease_not_expired bound b)" for b
    by (auto simp: lease_not_expired_def sql_le_def split: option.splits)
  have given: "if_given worker (att_worker_id b) = (\<not> (worker \<noteq> None \<and> att_worker_id b \<noteq> worker))" for b
    by (cases worker) simp_all
  let ?guard = "\<lambda>b. att_status b = ATT_RUNNING \<and> att_version b = version \<and> if_given worker (att_worker_id b)
    \<and> \<not> lease_not_expired bound b"
  show ?thesis
  proof (cases "\<exists>a r. dict_get (rs_attempts rs) aid = Some a \<and> ?guard a \<and> dict_get (rs_items rs) (att_run_id a) = Some r")
    case False
    have "x = Stale \<and> db' = db"
      using False call query by (auto simp: pg_transition_failed_attempt_def expired split: option.splits if_splits)
    moreover have "?mem = (Stale, rs)"
      using False by (auto simp: transition_failed_attempt_def given split: option.splits)
    ultimately show ?thesis using assms(1,2) by simp
  next
    case True
    then obtain a r where a: "dict_get (rs_attempts rs) aid = Some a" "?guard a"
      and r: "dict_get (rs_items rs) (att_run_id a) = Some r" by blast
    have rid: "run_id r = att_run_id a" using keyed_get keyed r by metis
    have live: "live a" using a(2) by (simp add: live_def)
    have "\<not> run_terminal (run_status r)" using live_run [OF assms(3) a(1) live] r by force
    then have status: "run_status r \<in> {QUEUED, RUNNING}" "run_completed_at r = None"
      using tidy_runs [OF assms(1,2) r] by (auto simp: tidy_run_def)
    define close where "close = closed_attempt ATT_FAILED (Some code) (Some msg) now"
    define rs1 where "rs1 = rs\<lparr>rs_attempts := dict_set (rs_attempts rs) aid (close a)\<rparr>"
    define db1 where "db1 = update_attempts (\<lambda>x. att_id x = aid) close db"
    have m1: "mirrors db1 rs1" "tidy db1"
      using mirrors_closed_attempts [OF assms(1,2) _ a(1), of close] keyed
      by (simp_all add: tidy_attempt_def close_def closed_attempt_def db1_def rs1_def)
    have aid: "att_id a = aid" using keyed keyed_get a(1) by metis
    have r1: "dict_get (rs_items rs1) (run_id r) = Some r" "keyed run_id (rs_items rs1)" "keyed att_id (rs_attempts rs1)"
      using r rid keyed aid by (simp_all add: rs1_def close_def closed_attempt_def)
    have frame: "rs_events rs1 = rs_events rs" "db_events db1 = db_events db"
      by (simp_all add: rs1_def db1_def update_attempts_def)
    let ?open = "\<lambda>x. run_id x = run_id r \<and> run_status x \<in> {QUEUED, RUNNING}"
    note pg = call [unfolded pg_transition_failed_attempt_def query(1)]
    show ?thesis
    proof (cases "att_retryable a \<and> att_number a < run_max_attempts r")
      case False
      define rs2 where "rs2 = rs1\<lparr>rs_items := dict_set (rs_items rs1) (run_id r) (closed_run FAILED now r)\<rparr>"
      define db2 where "db2 = update_runs ?open (closed_run FAILED now) db1"
      have m2: "mirrors db2 rs2" "tidy db2"
        using mirrors_closed_runs [OF m1 r1(2,1), of "\<lambda>x. run_status x \<in> {QUEUED, RUNNING}" "closed_run FAILED now"] status
        by (simp_all add: rs2_def db2_def tidy_run_def closed_run_def run_terminal_def)
      have frame2: "rs_events rs2 = rs_events rs" "db_events db2 = db_events db"
        by (simp_all add: rs2_def db2_def frame update_runs_def)
      obtain y db3 where insert: "insert_event (failed_event r a code now clock) db2 = Inr (y, db3)"
        and x: "x = TFailed" "db' = close_outbox (run_id r) now db3"
      proof -
        have "next_statement (insert_event (failed_event r a code now clock) db2)
            (\<lambda>_ db3. Inr (TFailed, close_outbox (run_id r) now db3)) = Inr (x, db')"
          using pg a r status False by (auto simp: expired query(2) Let_def close_def db1_def db2_def)
        then show thesis by (rule next_statement_Inr) (use that in simp)
      qed
      have "mirrors db3 (push_failed_event r a code now clock rs2) \<and> tidy db3"
        using failed_event_mirrors [OF m2 _ _ insert] own [OF a(1) r] assms(4) by (simp add: frame2 own_event_def)
      then have "mirrors db' (mark_outbox_published (run_id r) (push_failed_event r a code now clock rs2)) \<and> tidy db'"
        unfolding x(2) using mirrors_close_outbox by blast
      moreover have "?mem = (TFailed, mark_outbox_published (run_id r) (push_failed_event r a code now clock rs2))"
        using a r status False given [of a]
        by (auto simp: transition_failed_attempt_def Let_def rs2_def rs1_def close_def closed_attempt_def closed_run_def)
      ultimately show ?thesis by (simp add: x(1))
    next
      case True
      let ?retry = "retry_attempt r a now"
      let ?queue = "\<lambda>x. x\<lparr>run_status := QUEUED, run_current_attempt := att_number a + 1,
        run_retry_count := min (run_retry_count x + 1) (run_max_attempts x - 1),
        run_next_retry_at := Some (now + timedelta_seconds (max 0 delay)), run_completed_at := None\<rparr>"
      define rs2 where "rs2 = rs1\<lparr>rs_attempts := dict_setdefault (rs_attempts rs1) (att_id ?retry) ?retry\<rparr>"
      obtain u db2 where insert: "insert_retry ?retry db1 = Inr (u, db2)"
        and x: "x = TRetryable" "db' = update_runs ?open ?queue db2"
      proof -
        have "next_statement (insert_retry ?retry db1) (\<lambda>_ db2. Inr (TRetryable, update_runs ?open ?queue db2)) = Inr (x, db')"
          using pg a r status True by (auto simp: expired query(2) Let_def close_def db1_def)
        then show thesis by (rule next_statement_Inr) (use that in simp)
      qed
      have new: "b \<in> set (dict_values (rs_attempts rs1)) \<Longrightarrow>
          \<not> (att_run_id b = att_run_id ?retry \<and> att_number b = att_number ?retry)" for b
        using retry_is_new(1) [OF assms(3) a(1) live r] set_dict_set [of "rs_attempts rs" aid "close a"]
        by (fastforce simp: rs1_def retry_attempt_def rid close_def closed_attempt_def)
      have "dict_get (rs_attempts rs1) (att_id ?retry) = None"
        using retry_is_new(2) [OF assms(3) a(1) live r] a(1) by (auto simp: rs1_def retry_attempt_def rid)
      then have m2: "mirrors db2 rs2" "tidy db2"
        using mirrors_insert_retry [OF m1 r1(3) new _ _ insert]
        by (simp_all add: rs2_def tidy_attempt_def) (simp_all add: retry_attempt_def)
      have "mirrors db' (rs2\<lparr>rs_items := dict_set (rs_items rs2) (run_id r) (?queue r)\<rparr>) \<and> tidy db'"
        unfolding x(2) using r1 status by (intro mirrors_closed_runs [OF m2]) (simp_all add: rs2_def tidy_run_def)
      moreover have queue: "?queue r = r\<lparr>run_status := QUEUED, run_current_attempt := att_number a + 1,
          run_retry_count := min (run_retry_count r + 1) (run_max_attempts r - 1),
          run_next_retry_at := Some (now + timedelta_seconds (max 0 delay))\<rparr>"
        using status(2) by (cases r) simp
      have "?mem = (TRetryable, rs2\<lparr>rs_items := dict_set (rs_items rs2) (run_id r)
          (r\<lparr>run_status := QUEUED, run_current_attempt := att_number a + 1,
            run_retry_count := min (run_retry_count r + 1) (run_max_attempts r - 1),
            run_next_retry_at := Some (now + timedelta_seconds (max 0 delay))\<rparr>)\<rparr>)"
        using a r status True given [of a]
        by (auto simp: transition_failed_attempt_def Let_def rs2_def rs1_def close_def closed_attempt_def retry_attempt_def)
      then have "?mem = (TRetryable, rs2\<lparr>rs_items := dict_set (rs_items rs2) (run_id r) (?queue r)\<rparr>)"
        by (simp only: queue)
      ultimately show ?thesis by (simp add: x(1))
    qed
  qed
qed

text \<open>Cancelling.\<close>

lemma pg_cancel_mirrors:
  assumes "mirrors db rs" "tidy db" "store_ok rs" "logs_ok (rs_events rs)"
    and own: "\<And>e. event = Some e \<Longrightarrow> own_event rid e db"
    and call: "pg_cancel rid now event db = Inr (x, db')"
  shows "map_option (\<lambda>e. (ev_sequence e, ev_thread_sequence e)) x
      = map_option (\<lambda>e. (ev_sequence e, ev_thread_sequence e)) (fst (cancel rid now event rs))
    \<and> mirrors db' (snd (cancel rid now event rs)) \<and> tidy db'"
proof -
  note keyed = mirrors_keyed [OF assms(1,3)]
  let ?open = "\<lambda>r. run_status r \<notin> {COMPLETED, FAILED, CANCELLED}"
  let ?stop = "\<lambda>r. r\<lparr>run_status := CANCELLED, run_cancel_requested_at := Some now, run_completed_at := Some now\<rparr>"
  have unfinished: "?open r = (\<not> run_terminal (run_status r))" for r by (auto simp: run_terminal_def)
  show ?thesis
  proof (cases "\<exists>r. dict_get (rs_items rs) rid = Some r \<and> ?open r")
    case False
    have "x = None \<and> db' = db"
      using False call keyed by (auto simp: pg_cancel_def sql_update_keyed split: option.splits if_splits)
    moreover have "cancel rid now event rs = (None, rs)"
      using False by (auto simp: cancel_def unfinished [symmetric] split: option.splits)
    ultimately show ?thesis using assms(1,2) by simp
  next
    case True
    then obtain r where r: "dict_get (rs_items rs) rid = Some r" "?open r" by blast
    define db1 where "db1 = update_attempts (\<lambda>a. att_run_id a = rid \<and> att_status a \<in> {ATT_RUNNING, ATT_RETRYABLE})
      (\<lambda>a. a\<lparr>att_status := ATT_CANCELLED, att_completed_at := Some now, att_lease_expires_at := None,
         att_version := att_version a + 1\<rparr>) (db\<lparr>db_runs := dict_values (dict_set (rs_items rs) rid (?stop r))\<rparr>)"
    define rs1 where "rs1 = rs\<lparr>rs_items := dict_set (rs_items rs) rid (?stop r),
      rs_attempts := map (\<lambda>kv. (fst kv, cancel_attempt rid now (snd kv))) (rs_attempts rs)\<rparr>"
    have attempts: "db_attempts db1 = dict_values (rs_attempts rs1)"
      using keyed by (auto simp: db1_def rs1_def update_attempts_def sql_update_def cancel_attempt_def)
    have "list_all tidy_attempt (db_attempts db1)"
      using assms(2) keyed by (auto simp: attempts rs1_def tidy_def list_all_iff cancel_attempt_def tidy_attempt_def)
    moreover have "list_all tidy_run (db_runs db1)"
      using assms(2) keyed list_all_dict_set [of tidy_run "rs_items rs" "?stop r" rid]
      by (simp add: db1_def update_attempts_def tidy_def tidy_run_def run_terminal_def)
    ultimately have m1: "mirrors db1 rs1" "tidy db1"
      using assms(1) attempts by (simp_all add: mirrors_def tidy_def) (simp add: db1_def rs1_def update_attempts_def)
    have frame: "rs_events rs1 = rs_events rs" "db_events db1 = db_events db"
      by (simp_all add: rs1_def db1_def update_attempts_def)
    have changed: "sql_update (\<lambda>r. run_id r = rid \<and> ?open r) ?stop (db_runs db)
        = ([?stop r], dict_values (dict_set (rs_items rs) rid (?stop r)))"
      using keyed r by (simp add: sql_update_keyed)
    have pg: "(case event of
         None \<Rightarrow> Inr (None, close_outbox rid now db1)
       | Some te \<Rightarrow> let event = te\<lparr>ev_completed_at := Some now\<rparr> in
           next_statement (insert_event event db1) (\<lambda>_ db2.
             Inr (map_option (sequenced_as event) (event_sequences (ev_id event) db2),
                  close_outbox rid now db2))) = Inr (x, db')"
      using call unfolding pg_cancel_def changed db1_def Let_def by simp
    have mem: "cancel rid now event rs = (case event of
        None \<Rightarrow> (None, mark_outbox_published rid rs1)
      | Some te \<Rightarrow> let rs2 = touch_events rid rs1; events = run_events rs2 rid in
          (case find (\<lambda>x. ev_id x = ev_id te) events of
             Some existing \<Rightarrow> (Some existing, mark_outbox_published rid rs2)
           | None \<Rightarrow> let stamped = te\<lparr>ev_sequence := last_sequence events + 1,
                 ev_thread_sequence := max_thread_sequence rs2 (ev_thread_id te) + 1, ev_completed_at := Some now\<rparr>
               in (Some stamped, mark_outbox_published rid (push_event rid stamped rs2))))"
    proof -
      have "\<not> run_terminal (run_status r)" using r(2) unfinished by blast
      with r(1) show ?thesis unfolding cancel_def rs1_def Let_def by simp
    qed
    show ?thesis
    proof (cases event)
      case None
      with pg have "x = None" "db' = close_outbox rid now db1" by simp_all
      with mem None mirrors_close_outbox [OF m1] show ?thesis by simp
    next
      case (Some te)
      let ?e = "te\<lparr>ev_completed_at := Some now\<rparr>"
      obtain y db2 where insert: "insert_event ?e db1 = Inr (y, db2)"
        and x: "x = map_option (sequenced_as ?e) (event_sequences (ev_id te) db2)" "db' = close_outbox rid now db2"
      proof -
        have "next_statement (insert_event ?e db1) (\<lambda>_ db2.
            Inr (map_option (sequenced_as ?e) (event_sequences (ev_id te) db2), close_outbox rid now db2)) = Inr (x, db')"
          using pg Some by (simp add: Let_def)
        then show thesis by (rule next_statement_Inr) (use that in simp)
      qed
      have commute: "te\<lparr>ev_completed_at := c, ev_sequence := n, ev_thread_sequence := t\<rparr>
          = te\<lparr>ev_sequence := n, ev_thread_sequence := t, ev_completed_at := c\<rparr>" for n t c by (cases te) simp
      have "own_event rid ?e db1" using own [OF Some] by (simp add: own_event_def frame)
      note result = mirrors_event [OF m1 _ this insert]
      show ?thesis
      proof (cases "find (\<lambda>z. ev_id z = ev_id te) (run_events rs1 rid)")
        case None
        with result assms(4) mirrors_close_outbox mem Some show ?thesis
          by (simp add: x frame Let_def sequenced_as_def commute)
      next
        case (Some y)
        with result assms(4) mirrors_close_outbox mem \<open>event = Some te\<close> show ?thesis
          by (simp add: x frame Let_def sequenced_as_def)
      qed
    qed
  qed
qed

text \<open>Recording an event and publishing.\<close>

lemma pg_append_event_mirrors:
  assumes "mirrors db rs" "tidy db" "logs_ok (rs_events rs)" "own_event rid e db" "ev_sequence e = 0"
    and call: "pg_append_event e db = Inr (x, db')"
  shows "\<exists>y rs'. append_event e rs = Inr (y, rs') \<and> mirrors db' rs' \<and> tidy db'
    \<and> ev_sequence x = ev_sequence y \<and> ev_thread_sequence x = ev_thread_sequence y"
proof -
  have rid: "ev_run_id e = Some rid" using assms(4) by (simp add: own_event_def)
  obtain y where insert: "insert_event e db = Inr (y, db')"
    using call by (cases "insert_event e db") (auto simp: pg_append_event_def)
  note result = mirrors_event [OF assms(1-4) insert]
  show ?thesis
  proof (cases "find (\<lambda>z. ev_id z = ev_id e) (run_events rs rid)")
    case None
    with result assms(5) rid call insert show ?thesis
      by (auto simp: append_event_def pg_append_event_def sequenced_as_def Let_def)
  next
    case (Some z)
    with result rid call insert show ?thesis
      by (auto simp: append_event_def pg_append_event_def sequenced_as_def Let_def)
  qed
qed

lemma outbox_update:
  assumes "outbox_mirror rows box"
    and "\<And>row. (ob_run_id (f row), ob_published_at (f row) \<noteq> None) = (ob_run_id row, True)"
    and "\<And>row. row \<in> set rows \<Longrightarrow> ob_run_id row = rid \<Longrightarrow> \<not> P row \<Longrightarrow> ob_published_at row \<noteq> None"
  shows "outbox_mirror (snd (sql_update (\<lambda>row. ob_run_id row = rid \<and> P row) f rows))
    (case dict_get box rid of None \<Rightarrow> box | Some _ \<Rightarrow> dict_set box rid True)"
proof -
  let ?view = "\<lambda>row. (ob_run_id row, ob_published_at row \<noteq> None)"
  let ?close = "\<lambda>row. row\<lparr>ob_published_at := Some 0\<rparr>"
  have "map ?view (snd (sql_update (\<lambda>row. ob_run_id row = rid \<and> P row) f rows))
      = map ?view (map (\<lambda>row. if ob_run_id row = rid then ?close row else row) rows)"
    using assms(2,3) by (auto simp: sql_update_def)
  moreover have "map ?view (map (\<lambda>row. if ob_run_id row = rid then ?close row else row) rows)
      = map ?view (db_outbox (close_outbox rid 0 (empty_database\<lparr>db_outbox := rows\<rparr>)))"
    by (auto simp: close_outbox_def sql_update_def split: option.splits)
  ultimately show ?thesis
    using outbox_mirror_close [of "empty_database\<lparr>db_outbox := rows\<rparr>" "empty_run_store\<lparr>rs_outbox := box\<rparr>" rid 0] assms(1)
    by (simp add: outbox_mirror_def mark_outbox_published_def split: option.splits)
qed

lemma pg_publish_mirrors:
  assumes "mirrors db rs" "tidy db"
  shows "mirrors (pg_mark_outbox_published rid now db) (mark_outbox_published rid rs)
    \<and> tidy (pg_mark_outbox_published rid now db)"
  using assms outbox_update [of "db_outbox db" "rs_outbox rs"
      "\<lambda>row. row\<lparr>ob_published_at := Some now, ob_attempts := ob_attempts row + 1\<rparr>" rid "\<lambda>row. ob_published_at row = None"]
  by (auto simp: mirrors_def tidy_def pg_mark_outbox_published_def mark_outbox_published_def split: option.splits)

text \<open>Submitting: the writes of one unit of work that concern the run.\<close>

definition pg_submit :: "run \<Rightarrow> run_attempt \<Rightarrow> moment \<Rightarrow> database \<Rightarrow> unit pg_transaction" where
  "pg_submit r a now db = next_statement (pg_run_create r db) (\<lambda>_ db1.
     next_statement (pg_add_attempt a db1) (\<lambda>_ db2. pg_add_outbox (run_id r) now db2))"

definition fresh_rows :: "run \<Rightarrow> run_attempt \<Rightarrow> database \<Rightarrow> bool" where
  "fresh_rows r a db =
     (run_id r \<notin> run_id ` set (db_runs db) \<and> att_id a \<notin> att_id ` set (db_attempts db)
      \<and> \<not> str_startswith (att_id a) ''attempt_retry_''
      \<and> run_status r = QUEUED \<and> run_current_attempt r = 1 \<and> 1 \<le> run_max_attempts r
      \<and> run_retry_count r = 0 \<and> run_completed_at r = None
      \<and> att_run_id a = run_id r \<and> att_number a = 1 \<and> att_status a = ATT_RETRYABLE)"

lemma outbox_mirror_add:
  assumes "outbox_mirror rows box"
  shows "outbox_mirror (snd (sql_insert ob_run_id
      \<lparr>ob_run_id = rid, ob_created_at = now, ob_published_at = None, ob_attempts = 0\<rparr> rows)) (dict_setdefault box rid False)"
proof -
  have "set (dict_keys box) = ob_run_id ` set rows" using assms by (force simp: outbox_mirror_def)
  then show ?thesis using assms
    by (auto simp: outbox_mirror_def sql_insert_def dict_setdefault_def dict_wf_def dict_get_None
        split: option.splits dest!: map_of_SomeD)
qed

lemma pg_submit_mirrors:
  assumes "mirrors db rs" "tidy db" "store_ok rs" "fresh_rows r a db" "pg_submit r a now db = Inr (x, db')"
  shows "fresh_submission r a rs \<and> mirrors db' (submit r a rs) \<and> tidy db'"
proof -
  note keyed = mirrors_keyed [OF assms(1,3)]
  have absent: "dict_get d k = None" if "keyed key d" "k \<notin> key ` set (dict_values d)" for key :: "'a \<Rightarrow> string" and d k
    using that keyed_get [OF that(1)] dict_get_SomeD [of d k] by (cases "dict_get d k") force+
  have new: "dict_get (rs_items rs) (run_id r) = None" "dict_get (rs_attempts rs) (att_id a) = None"
    using assms(4) keyed by (auto simp: fresh_rows_def intro: absent)
  let ?db1 = "db\<lparr>db_runs := db_runs db @ [r]\<rparr>" and ?db2 = "db\<lparr>db_runs := db_runs db @ [r], db_attempts := db_attempts db @ [a]\<rparr>"
  obtain y db1 z db2 where create: "pg_run_create r db = Inr (y, db1)" and add: "pg_add_attempt a db1 = Inr (z, db2)"
    and box: "pg_add_outbox (run_id r) now db2 = Inr (x, db')"
    using assms(5) unfolding pg_submit_def by (elim next_statement_Inr) blast
  have "db1 = ?db1" using create assms(4)
    by (auto simp: pg_run_create_def sql_insert_def fresh_rows_def Let_def split: if_splits option.splits)
  moreover have "db2 = db1\<lparr>db_attempts := db_attempts db1 @ [a]\<rparr>" using add assms(4) \<open>db1 = ?db1\<close>
    by (auto simp: pg_add_attempt_def sql_insert_def fresh_rows_def Let_def split: if_splits)
  moreover have "db' = db2\<lparr>db_outbox := snd (sql_insert ob_run_id
      \<lparr>ob_run_id = run_id r, ob_created_at = now, ob_published_at = None, ob_attempts = 0\<rparr> (db_outbox db2))\<rparr>"
    using box by (auto simp: pg_add_outbox_def split: prod.splits if_splits)
  ultimately have db': "db' = db\<lparr>db_runs := db_runs db @ [r], db_attempts := db_attempts db @ [a],
      db_outbox := snd (sql_insert ob_run_id
      \<lparr>ob_run_id = run_id r, ob_created_at = now, ob_published_at = None, ob_attempts = 0\<rparr> (db_outbox db))\<rparr>" by simp
  have "tidy db'" using assms(2,4) by (simp add: db' tidy_def fresh_rows_def tidy_run_def tidy_attempt_def)
  moreover have "mirrors db' (submit r a rs)"
    using assms(1) new outbox_mirror_add [of "db_outbox db" "rs_outbox rs" "run_id r" now]
    by (simp add: db' mirrors_def submit_def add_outbox_def add_attempt_def dict_setdefault_def)
  moreover have "fresh_submission r a rs" using assms(4) new by (simp add: fresh_rows_def fresh_submission_def)
  ultimately show ?thesis by blast
qed

section \<open>The protocol on the database\<close>

text \<open>The calls of theory \<open>Run_Lifecycle\<close> as transactions. An aborted transaction changes nothing. The
  events a call records carry its run's identifier and identifiers of their own; the program derives
  them from the run, the attempt and a \<^verbatim>\<open>uuid4\<close>.\<close>

inductive pg_step :: "database \<Rightarrow> database \<Rightarrow> bool" where
  pg_submit: "fresh_rows r a db \<Longrightarrow> pg_step db (commit db (pg_submit r a now db))"
| pg_start: "pg_step db (commit db (pg_compare_and_set_status rid {QUEUED} RUNNING now db))"
| pg_claim: "pg_step db (commit db (pg_claim locked rid worker lease now db))"
| pg_heartbeat: "pg_step db (commit db (pg_heartbeat aid worker lease version now db))"
| pg_settle: "run_terminal status \<Longrightarrow>
    (\<And>a. a \<in> set (db_attempts db) \<Longrightarrow> att_id a = aid \<Longrightarrow> own_event (att_run_id a) event db) \<Longrightarrow>
    pg_step db (commit db (pg_finalize_attempt aid worker version status event now code msg db))"
| pg_fail: "(\<And>a r. a \<in> set (db_attempts db) \<Longrightarrow> att_id a = aid \<Longrightarrow> r \<in> set (db_runs db) \<Longrightarrow>
      run_id r = att_run_id a \<Longrightarrow> own_event (run_id r) (failed_event r a ecode now clock) db) \<Longrightarrow>
    pg_step db (commit db (pg_transition_failed_attempt aid version delay now ecode emsg worker' bound clock db))"
| pg_cancel: "(\<And>e. event' = Some e \<Longrightarrow> own_event rid e db) \<Longrightarrow>
    pg_step db (commit db (pg_cancel rid now event' db))"
| pg_sweep: "r \<in> set (db_runs db) \<Longrightarrow> run_id r = rid \<Longrightarrow> run_status r = CANCELLED \<Longrightarrow>
    a \<in> set (db_attempts db) \<Longrightarrow> att_id a = aid \<Longrightarrow> att_run_id a = rid \<Longrightarrow>
    pg_step db (commit db (pg_compare_and_set_attempt aid ATT_RUNNING ATT_CANCELLED None (Some version)
      (Some now) now (Some ''CANCELLED'') None db))"
| pg_record: "own_event rid e db \<Longrightarrow> ev_sequence e = 0 \<Longrightarrow> pg_step db (commit db (pg_append_event e db))"
| pg_publish: "pg_step db (pg_mark_outbox_published rid now db)"
| pg_elsewhere: "db_runs db' = db_runs db \<Longrightarrow> db_attempts db' = db_attempts db \<Longrightarrow>
    db_events db' = db_events db \<Longrightarrow> db_outbox db' = db_outbox db \<Longrightarrow> pg_step db db'"

inductive pg_steps :: "database \<Rightarrow> database \<Rightarrow> bool" where
  pg_refl: "pg_steps db db"
| pg_more: "pg_steps db db' \<Longrightarrow> pg_step db' db'' \<Longrightarrow> pg_steps db db''"

definition mirrored :: "database \<Rightarrow> run_store \<Rightarrow> bool" where
  "mirrored db rs = (mirrors db rs \<and> tidy db \<and> runs_reachable rs)"

lemma mirrored_step:
  "mirrored db rs \<Longrightarrow> run_step rs rs' \<Longrightarrow> mirrors db' rs' \<Longrightarrow> tidy db' \<Longrightarrow> \<exists>rs'. mirrored db' rs'"
  unfolding mirrored_def runs_reachable_def using run_steps.step by blast

lemma commit_step:
  assumes "mirrored db rs"
    and "\<And>x db'. tx = Inr (x, db') \<Longrightarrow> \<exists>rs'. mirrored db' rs'"
  shows "\<exists>rs'. mirrored (commit db tx) rs'"
  using assms by (cases tx) auto

lemma pg_sweep_noop:
  assumes "mirrors db rs" "store_ok rs" "r \<in> set (db_runs db)" "run_status r = CANCELLED"
    "a \<in> set (db_attempts db)" "att_run_id a = run_id r"
  shows "pg_compare_and_set_attempt (att_id a) ATT_RUNNING new w v b now c m db = Inr (None, db)"
proof -
  note keyed = mirrors_keyed [OF assms(1,2)]
  have a: "dict_get (rs_attempts rs) (att_id a) = Some a" using keyed assms(5) by (intro keyed_value_get) simp_all
  have r: "dict_get (rs_items rs) (att_run_id a) = Some r"
    unfolding assms(6) using keyed assms(3) by (intro keyed_value_get) simp_all
  have "\<not> live a" using live_run [OF assms(2) a] r assms(4) by (fastforce simp: run_terminal_def)
  then have "att_status a \<noteq> ATT_RUNNING" by (auto simp: live_def)
  then show ?thesis using keyed a mirrors_same [OF assms(1)]
    by (simp add: pg_compare_and_set_attempt_def sql_update_keyed)
qed

lemma pg_step_mirrored:
  assumes "pg_step db db'" and "mirrored db rs"
  shows "\<exists>rs'. mirrored db' rs'"
proof -
  have m: "mirrors db rs" "tidy db" "store_ok rs" "logs_ok (rs_events rs)"
    using assms(2) reachable_store_ok reachable_logs_ok by (auto simp: mirrored_def)
  note keyed = mirrors_keyed [OF m(1,3)]
  have row: "v \<in> set (dict_values d)" if "dict_get d k = Some v" for d k and v :: 'v
    using dict_get_SomeD [OF that] by force
  from assms(1) show ?thesis
  proof cases
    case (pg_submit r a now)
    show ?thesis unfolding pg_submit(1)
      by (rule commit_step [OF assms(2)])
        (use pg_submit_mirrors [OF m(1-3) pg_submit(2)] mirrored_step [OF assms(2) run_step.submit] in blast)
  next
    case (pg_start rid now)
    show ?thesis unfolding pg_start(1)
      by (rule commit_step [OF assms(2)])
        (use pg_start_mirrors [OF m(1-3)] mirrored_step [OF assms(2) run_step.start] in blast)
  next
    case (pg_claim locked rid worker lease now)
    show ?thesis unfolding pg_claim(1)
      by (rule commit_step [OF assms(2)])
        (use pg_claim_mirrors [OF m(1-3)] mirrored_step [OF assms(2) run_step.claim] assms(2) in blast)
  next
    case (pg_heartbeat aid worker lease version now)
    show ?thesis unfolding pg_heartbeat(1)
      by (rule commit_step [OF assms(2)])
        (use pg_heartbeat_mirrors [OF m(1-3)] mirrored_step [OF assms(2) run_step.heartbeat] in blast)
  next
    case (pg_settle status aid event worker version now code msg)
    have own: "own_event (att_run_id a) event db" if "dict_get (rs_attempts rs) aid = Some a" for a
      using pg_settle(3) [of a] row [OF that] keyed keyed_get [OF _ that] by simp
    show ?thesis unfolding pg_settle(1)
      by (rule commit_step [OF assms(2)])
        (use pg_finalize_mirrors [OF m pg_settle(2) own] mirrored_step [OF assms(2) run_step.settle [OF pg_settle(2)]] in blast)
  next
    case (pg_fail aid ecode now clock version delay emsg worker' bound)
    have own: "own_event (run_id r) (failed_event r a ecode now clock) db"
      if "dict_get (rs_attempts rs) aid = Some a" "dict_get (rs_items rs) (att_run_id a) = Some r" for a r
      using pg_fail(2) [of a r] row [OF that(1)] row [OF that(2)] keyed keyed_get [OF _ that(1)] keyed_get [OF _ that(2)]
      by simp
    show ?thesis unfolding pg_fail(1)
      by (rule commit_step [OF assms(2)])
        (use pg_fail_mirrors [OF m own] mirrored_step [OF assms(2) run_step.fail] in blast)
  next
    case (pg_cancel event' rid now)
    show ?thesis unfolding pg_cancel(1)
      by (rule commit_step [OF assms(2)])
        (use pg_cancel_mirrors [OF m pg_cancel(2)] mirrored_step [OF assms(2) run_step.cancel] in blast)
  next
    case (pg_sweep r rid a aid version now)
    then show ?thesis using pg_sweep_noop [OF m(1,3), of r a] assms(2) by auto
  next
    case (pg_record rid e)
    show ?thesis unfolding pg_record(1)
      by (rule commit_step [OF assms(2)])
        (use pg_append_event_mirrors [OF m(1,2,4) pg_record(2,3)] mirrored_step [OF assms(2) run_step.record_event] in blast)
  next
    case (pg_publish rid now)
    then show ?thesis using pg_publish_mirrors [OF m(1,2)] mirrored_step [OF assms(2) run_step.publish] by blast
  next
    case pg_elsewhere
    then have "mirrors db' rs" "tidy db'" using m(1,2) by (simp_all only: mirrors_def tidy_def)
    then have "mirrored db' rs" using assms(2) by (simp add: mirrored_def)
    then show ?thesis ..
  qed
qed

lemma empty_mirrored:
  "db_runs db = [] \<Longrightarrow> db_attempts db = [] \<Longrightarrow> db_events db = [] \<Longrightarrow> db_outbox db = [] \<Longrightarrow>
     mirrored db empty_run_store"
  by (simp add: mirrored_def mirrors_def tidy_def runs_reachable_def run_steps.refl log_mirror_def
      outbox_mirror_def empty_run_store_def log_of_def)

lemma pg_steps_mirrored: "pg_steps db db' \<Longrightarrow> mirrored db rs \<Longrightarrow> \<exists>rs'. mirrored db' rs'"
  by (induction rule: pg_steps.induct) (auto dest: pg_step_mirrored)

section \<open>What the production store guarantees\<close>

definition pg_reachable :: "database \<Rightarrow> bool" where
  "pg_reachable db = (\<exists>db0. db_runs db0 = [] \<and> db_attempts db0 = [] \<and> db_events db0 = [] \<and> db_outbox db0 = []
     \<and> pg_steps db0 db)"

lemma reachable_mirrored: "pg_reachable db \<Longrightarrow> \<exists>rs. mirrored db rs"
  unfolding pg_reachable_def using pg_steps_mirrored empty_mirrored by blast

lemma mirrored_lists:
  assumes "mirrored db rs"
  shows "pg_list_events db rid n = list_events rs rid n"
    and "pg_list_thread_events db tid n = list_thread_events rs tid n"
proof -
  have log: "log_mirror (db_events db) (rs_events rs)" and ok: "logs_ok (rs_events rs)"
    using assms reachable_logs_ok by (auto simp: mirrored_def mirrors_def)
  let ?own = "filter (\<lambda>e. ev_run_id e = Some rid) (db_events db)"
  have own: "?own = run_events rs rid" using log by (simp add: log_mirror_def run_events_log)
  have "sorted_wrt (<) (map ev_sequence (run_events rs rid))" using ok by (simp add: logs_ok_def run_events_log)
  then have "sorted (map ev_sequence (filter (\<lambda>e. n < ev_sequence e) (run_events rs rid)))"
    by (intro sorted_filter strict_sorted_imp_sorted)
  then have "sort_key ev_sequence (filter (\<lambda>e. n < ev_sequence e) ?own) = filter (\<lambda>e. n < ev_sequence e) (run_events rs rid)"
    unfolding own by (rule sort_key_id_if_sorted)
  then show "pg_list_events db rid n = list_events rs rid n"
    by (simp add: pg_list_events_def list_events_def sql_eq_Some conj_commute)
  let ?P = "\<lambda>e. ev_thread_id e = tid \<and> n < ev_thread_sequence e"
  have "mset (filter ?P (db_events db)) = mset (filter ?P (concat (dict_values (rs_events rs))))"
    using log by (simp add: log_mirror_def mset_filter)
  moreover have "inj_on ev_thread_sequence (set (filter ?P (concat (dict_values (rs_events rs)))))"
  proof (rule inj_on_subset)
    show "inj_on ev_thread_sequence (set (thread_log (rs_events rs) tid))" using ok by (simp add: logs_ok_def distinct_map)
  qed (auto simp: thread_log_def)
  ultimately show "pg_list_thread_events db tid n = list_thread_events rs tid n"
    unfolding pg_list_thread_events_def list_thread_events_def by (rule sort_same)
qed

text \<open>C4. The PostgreSQL repository implements the run protocol. Whatever transactions the API and the
  workers send, in whatever order, with whatever rows locked by others and however many of them abort,
  the tables mirror a store the in-memory repository reaches by the same protocol, and a reader of a
  run's or a thread's events sees exactly what that store would show.\<close>

theorem durable_runs_refine_memory:
  assumes "pg_reachable db"
  shows "\<exists>rs. runs_reachable rs \<and> db_runs db = dict_values (rs_items rs) \<and> db_attempts db = dict_values (rs_attempts rs)
    \<and> (\<forall>rid n. pg_list_events db rid n = list_events rs rid n)
    \<and> (\<forall>tid n. pg_list_thread_events db tid n = list_thread_events rs tid n)
    \<and> map (\<lambda>row. (ob_run_id row, ob_published_at row \<noteq> None)) (db_outbox db) = rs_outbox rs"
proof -
  obtain rs where "mirrored db rs" using reachable_mirrored [OF assms] ..
  then show ?thesis using mirrored_lists [of db rs] by (auto simp: mirrored_def mirrors_def outbox_mirror_def)
qed

text \<open>In the production database too, a run that is not finished has exactly one live attempt, the
  attempt of its current number, and a finished run has none.\<close>

theorem durable_run_has_one_live_attempt:
  assumes "pg_reachable db" and "r \<in> set (db_runs db)"
  shows "(\<not> run_terminal (run_status r) \<longrightarrow>
      (\<exists>!a. a \<in> set (db_attempts db) \<and> att_run_id a = run_id r \<and> live a))
    \<and> (\<forall>a \<in> set (db_attempts db). att_run_id a = run_id r \<longrightarrow> live a \<longrightarrow>
        \<not> run_terminal (run_status r) \<and> att_number a = run_current_attempt r \<and> att_number a \<le> run_max_attempts r)"
proof -
  obtain rs where m: "mirrored db rs" using reachable_mirrored [OF assms(1)] ..
  then have ok: "store_ok rs" using reachable_store_ok by (simp add: mirrored_def)
  note keyed = mirrors_keyed [of db rs]
  have rows: "db_attempts db = dict_values (rs_attempts rs)" "keyed att_id (rs_attempts rs)"
    "db_runs db = dict_values (rs_items rs)" "keyed run_id (rs_items rs)"
    using keyed m ok by (simp_all add: mirrored_def)
  have r: "dict_get (rs_items rs) (run_id r) = Some r" using rows assms(2) by (intro keyed_value_get) simp_all
  have get: "dict_get (rs_attempts rs) (att_id a) = Some a" if "a \<in> set (db_attempts db)" for a
    using rows that by (intro keyed_value_get) simp_all
  have current: "\<not> run_terminal (run_status r) \<and> att_number a = run_current_attempt r \<and> att_number a \<le> run_max_attempts r"
    if "a \<in> set (db_attempts db)" "att_run_id a = run_id r" "live a" for a
    by (rule live_run [OF ok get [OF that(1)] that(3)]) (use that(2) r in \<open>simp add: bounds_ok_def\<close>)
  have same: "a = b" if "a \<in> set (db_attempts db)" "att_run_id a = run_id r" "live a"
    "b \<in> set (db_attempts db)" "att_run_id b = run_id r" "live b" for a b
  proof -
    have "att_number a = att_number b" using current [OF that(1-3)] current [OF that(4-6)] by presburger
    with that(2,5) have "att_id a = att_id b" by (intro lifecycle_number [OF ok get [OF that(1)] get [OF that(4)]]) simp_all
    then show ?thesis using get [OF that(1)] get [OF that(4)] by (metis option.inject)
  qed
  have one: "\<exists>!a. a \<in> set (db_attempts db) \<and> att_run_id a = run_id r \<and> live a"
    if unfinished: "\<not> run_terminal (run_status r)"
  proof (rule ex_ex1I)
    obtain aid a where "dict_get (rs_attempts rs) aid = Some a" "att_run_id a = run_id r" "live a"
      using lifecycle_run [OF ok r] unfinished by (auto simp: served_def)
    moreover from this(1) have "a \<in> set (db_attempts db)" unfolding rows(1) using dict_get_SomeD by force
    ultimately show "\<exists>a. a \<in> set (db_attempts db) \<and> att_run_id a = run_id r \<and> live a" by blast
  qed (elim conjE, rule same)
  have all: "\<forall>a \<in> set (db_attempts db). att_run_id a = run_id r \<longrightarrow> live a \<longrightarrow>
      \<not> run_terminal (run_status r) \<and> att_number a = run_current_attempt r \<and> att_number a \<le> run_max_attempts r"
    by (intro ballI impI) (rule current)
  show ?thesis by (rule conjI [OF impI [OF one] all])
qed

section \<open>A concrete database\<close>

definition durable_start :: database where
  "durable_start = empty_database\<lparr>db_missions := {''m1''}, db_threads := [sample_thread ''t1'' ''u'' 0]\<rparr>"

definition durable_queue :: database where
  "durable_queue = commit durable_start (pg_submit sample_run sample_attempt 5 durable_start)"

definition durable_claim :: database where
  "durable_claim = commit durable_queue (pg_claim (\<lambda>_. False) ''r1'' ''worker'' 60 0 durable_queue)"

lemma durable_queue_eq:
  "durable_queue = durable_start\<lparr>db_runs := [sample_run], db_attempts := [sample_attempt],
     db_outbox := [\<lparr>ob_run_id = ''r1'', ob_created_at = 5, ob_published_at = None, ob_attempts = 0\<rparr>]\<rparr>"
proof -
  have "pg_submit sample_run sample_attempt 5 durable_start = Inr ((), durable_start\<lparr>db_runs := [sample_run],
      db_attempts := [sample_attempt],
      db_outbox := [\<lparr>ob_run_id = ''r1'', ob_created_at = 5, ob_published_at = None, ob_attempts = 0\<rparr>]\<rparr>)"
    by (simp add: pg_submit_def pg_run_create_def pg_add_attempt_def pg_add_outbox_def sql_insert_def run_keys_ok_def
        attempt_keys_ok_def pg_run_get_def durable_start_def empty_database_def sample_run_def sample_attempt_def
        sample_thread_def Let_def)
  then show ?thesis by (simp add: durable_queue_def)
qed

lemma durable_claim_eq: "durable_claim = durable_queue\<lparr>db_attempts := [claimed_attempt]\<rparr>"
proof -
  have "pg_claim (\<lambda>_. False) ''r1'' ''worker'' 60 0 durable_queue
      = Inr (Some claimed_attempt, durable_queue\<lparr>db_attempts := [claimed_attempt]\<rparr>)"
    by (simp add: durable_queue_eq pg_claim_def pg_claimable_def sql_update_def claimed_by_def claimed_attempt_def
        sorted_desc_def sample_attempt_def Let_def)
  then show ?thesis by (simp add: durable_claim_def)
qed

lemma durable_claim_reachable: "pg_reachable durable_claim"
proof -
  have "fresh_rows sample_run sample_attempt durable_start"
    by (simp add: fresh_rows_def sample_run_def sample_attempt_def durable_start_def empty_database_def str_startswith_def)
  then have "pg_step durable_start durable_queue" unfolding durable_queue_def by (rule pg_step.pg_submit)
  moreover have "pg_step durable_queue durable_claim" unfolding durable_claim_def by (rule pg_step.pg_claim)
  ultimately have "pg_steps durable_start durable_claim" using pg_steps.intros by blast
  then show ?thesis unfolding pg_reachable_def
    by (intro exI [of _ durable_start]) (simp add: durable_start_def empty_database_def)
qed

theorem durable_runs_refine_memory_witness:
  "\<exists>rs. runs_reachable rs \<and> dict_values (rs_items rs) = [sample_run] \<and> dict_values (rs_attempts rs) = [claimed_attempt]
    \<and> rs_outbox rs = [(''r1'', False)]"
  using durable_runs_refine_memory [OF durable_claim_reachable]
  by (auto simp: durable_claim_eq durable_queue_eq)

theorem durable_run_has_one_live_attempt_witness:
  "\<exists>!a. a \<in> set (db_attempts durable_claim) \<and> att_run_id a = ''r1'' \<and> live a"
  using durable_run_has_one_live_attempt [OF durable_claim_reachable, of sample_run]
  by (simp add: durable_claim_eq durable_queue_eq sample_run_def)

end
