(* ===== verification/Durable_Store.thy ===== *)
theory Durable_Store
  imports Database Memory_Store
begin

text \<open>
  The other repositories of \<^verbatim>\<open>src/seleric_swarm/conversations/postgres.py\<close> over the tables of theory
  \<open>Database\<close>: threads, messages with their parts, artifacts, attachments, memories with their usage
  and preferences, and summaries. The lemmas compare each with the in-memory repository it replaces.

  A row that is read runs the validators of its contract again; the model keeps those that can refuse
  (message parts, attachments).
\<close>

section \<open>PostgresThreadRepository\<close>

definition pg_thread_get :: "database \<Rightarrow> string \<Rightarrow> string option \<Rightarrow> string option \<Rightarrow> thread option" where
  "pg_thread_get db tid ws owner = first_row (filter (\<lambda>t. th_id t = tid
     \<and> if_given ws (Some (th_workspace_id t)) \<and> if_given owner (Some (th_owner_user_id t))) (db_threads db))"

definition pg_thread_create :: "thread \<Rightarrow> database \<Rightarrow> thread pg_transaction" where
  "pg_thread_create t db =
     (let (rowcount, rows) = sql_insert th_id t (db_threads db); db' = db\<lparr>db_threads := rows\<rparr> in
      case pg_thread_get db' (th_id t) (Some (th_workspace_id t)) (Some (th_owner_user_id t)) of
        None \<Rightarrow> if rowcount = 0 then Inl (Refused (PermissionError ''thread id belongs to another tenant''))
          else Inr (t, db')
      | Some persisted \<Rightarrow> Inr (persisted, db'))"

definition pg_thread_list_for_owner ::
  "database \<Rightarrow> string \<Rightarrow> string \<Rightarrow> int \<Rightarrow> thread_status option \<Rightarrow> thread list" where
  "pg_thread_list_for_owner db ws u limit status =
     take (page_limit limit) (sorted_desc th_updated_at
       (filter (\<lambda>t. th_workspace_id t = ws \<and> th_owner_user_id t = u
                  \<and> if_given status (Some (th_status t))) (db_threads db)))"

text \<open>One page: the query fetches one row more than the limit, the code below it cuts the page.\<close>

definition pg_page :: "('a \<Rightarrow> moment \<times> string) \<Rightarrow> int \<Rightarrow> (moment \<times> string) option \<Rightarrow> 'a list
    \<Rightarrow> 'a list \<times> (moment \<times> string) option" where
  "pg_page k limit boundary rows =
     (let fetched = take (page_limit limit + 1) (sorted_desc k
            (filter (\<lambda>x. boundary = None \<or> k x < the boundary) rows));
          has_more = length fetched > page_limit limit;
          items = take (page_limit limit) fetched
      in (items, if has_more \<and> items \<noteq> [] then Some (k (last items)) else None))"

definition pg_thread_list_page ::
  "database \<Rightarrow> string \<Rightarrow> string \<Rightarrow> int \<Rightarrow> (moment \<times> string) option \<Rightarrow> bool
     \<Rightarrow> thread list \<times> (moment \<times> string) option" where
  "pg_thread_list_page db ws u limit cursor include_deleted =
     pg_page (\<lambda>t. (th_updated_at t, th_id t)) limit cursor
       (filter (\<lambda>t. th_workspace_id t = ws \<and> th_owner_user_id t = u
          \<and> (include_deleted \<or> th_status t \<noteq> THREAD_DELETED)) (db_threads db))"

definition pg_thread_update :: "thread \<Rightarrow> database \<Rightarrow> thread pg_transaction" where
  "pg_thread_update t db =
     (let (changed, rows) = sql_update
        (\<lambda>x. th_id x = th_id t \<and> th_workspace_id x = th_workspace_id t \<and> th_owner_user_id x = th_owner_user_id t)
        (\<lambda>x. x\<lparr>th_project_id := th_project_id t, th_title := th_title t, th_status := th_status t,
           th_metadata := th_metadata t, th_updated_at := th_updated_at t, th_deleted_at := th_deleted_at t\<rparr>)
        (db_threads db) in
      if changed = [] then Inl (Refused (KeyError (th_id t))) else Inr (t, db\<lparr>db_threads := rows\<rparr>))"

section \<open>PostgresMessageRepository\<close>

definition parts_of :: "database \<Rightarrow> string \<Rightarrow> message_part list" where
  "parts_of db mid = map pr_part (sort_key pr_position (filter (\<lambda>p. pr_message_id p = mid) (db_parts db)))"

definition pg_message_get :: "database \<Rightarrow> string \<Rightarrow> string option \<Rightarrow> message option result" where
  "pg_message_get db mid ws =
     (case first_row (filter (\<lambda>m. msg_id m = mid \<and> if_given ws (Some (msg_workspace_id m))) (db_messages db)) of
        None \<Rightarrow> Inr None
      | Some row \<Rightarrow> result_bind (validated_parts (parts_of db mid)) (\<lambda>ps. Inr (Some (row\<lparr>msg_parts := ps\<rparr>))))"

definition message_keys_ok :: "message \<Rightarrow> database \<Rightarrow> bool" where
  "message_keys_ok m db =
     (list_ex (\<lambda>t. th_id t = msg_thread_id m) (db_threads db)
      \<and> (case msg_run_id m of None \<Rightarrow> True | Some rid \<Rightarrow> list_ex (\<lambda>r. run_id r = rid) (db_runs db))
      \<and> (case msg_parent_message_id m of None \<Rightarrow> True
         | Some pid \<Rightarrow> list_ex (\<lambda>p. msg_id p = pid \<and> msg_thread_id p = msg_thread_id m
              \<and> msg_workspace_id p = msg_workspace_id m) (db_messages db)))"

definition part_rows :: "message \<Rightarrow> part_row list" where
  "part_rows m = map (\<lambda>(n, p). \<lparr>pr_message_id = msg_id m, pr_position = n, pr_part = p\<rparr>)
     (enumerate 0 (msg_parts m))"

text \<open>\<^verbatim>\<open>INSERT INTO message_parts ... ON CONFLICT (message_id, position) DO NOTHING\<close>, one by one.\<close>

definition insert_parts :: "part_row list \<Rightarrow> database \<Rightarrow> database" where
  "insert_parts new db = db\<lparr>db_parts := foldl (\<lambda>rows p.
     snd (sql_insert (\<lambda>r. (pr_message_id r, pr_position r)) p rows)) (db_parts db) new\<rparr>"

text \<open>The message is read back after the commit, so an error of the read is a value of the call and
  leaves the message stored.\<close>

definition pg_message_create :: "message \<Rightarrow> database \<Rightarrow> message result pg_transaction" where
  "pg_message_create m db =
     (let (rowcount, rows) = sql_insert msg_id (m\<lparr>msg_parts := []\<rparr>) (db_messages db) in
      if 0 < rowcount \<and> \<not> message_keys_ok m db then Inl (IntegrityError ''messages'')
      else let db' = (if 0 < rowcount then insert_parts (part_rows m) (db\<lparr>db_messages := rows\<rparr>) else db) in
      Inr (result_bind (pg_message_get db' (msg_id m) (Some (msg_workspace_id m))) (\<lambda>persisted. case persisted of
           None \<Rightarrow> if rowcount = 0 then Inl (PermissionError ''message id belongs to another workspace'') else Inr m
         | Some p \<Rightarrow> Inr p), db'))"

text \<open>The messages of a list of identifiers, each read by a transaction of its own.\<close>

fun pg_messages :: "database \<Rightarrow> string list \<Rightarrow> message list result" where
  "pg_messages db [] = Inr []"
| "pg_messages db (mid # mids) = result_bind (pg_message_get db mid None) (\<lambda>found.
     result_bind (pg_messages db mids) (\<lambda>ms. Inr (case found of None \<Rightarrow> ms | Some m \<Rightarrow> m # ms)))"

definition pg_message_list_for_thread :: "database \<Rightarrow> string \<Rightarrow> int \<Rightarrow> message list result" where
  "pg_message_list_for_thread db tid limit = pg_messages db (map msg_id (rev (take (page_limit limit)
     (sorted_desc (\<lambda>m. (msg_created_at m, msg_id m)) (filter (\<lambda>m. msg_thread_id m = tid) (db_messages db))))))"

definition pg_message_list_page ::
  "database \<Rightarrow> string \<Rightarrow> int \<Rightarrow> (moment \<times> string) option \<Rightarrow> (message list \<times> (moment \<times> string) option) result" where
  "pg_message_list_page db tid limit boundary =
     (let k = (\<lambda>m. (msg_created_at m, msg_id m));
          ids = map msg_id (take (page_limit limit + 1) (sorted_desc k
            (filter (\<lambda>m. msg_thread_id m = tid \<and> (boundary = None \<or> k m < the boundary)) (db_messages db))));
          has_more = length ids > page_limit limit in
      result_bind (pg_messages db (take (page_limit limit) ids)) (\<lambda>items.
        Inr (items, if has_more \<and> items \<noteq> [] then Some (k (last items)) else None)))"

definition pg_message_update :: "message \<Rightarrow> database \<Rightarrow> message pg_transaction" where
  "pg_message_update m db =
     (let (changed, rows) = sql_update
        (\<lambda>x. msg_id x = msg_id m \<and> msg_workspace_id x = msg_workspace_id m)
        (\<lambda>x. x\<lparr>msg_user_id := msg_user_id m, msg_role := msg_role m, msg_run_id := msg_run_id m,
           msg_parent_message_id := msg_parent_message_id m, msg_updated_at := msg_updated_at m\<rparr>) (db_messages db) in
      if changed = [] then Inl (Refused (KeyError (msg_id m)))
      else if \<not> list_all (\<lambda>x. message_keys_ok x (db\<lparr>db_messages := rows\<rparr>)) changed then Inl (IntegrityError ''messages'')
      else Inr (m, db\<lparr>db_messages := rows,
        db_parts := filter (\<lambda>p. pr_message_id p \<noteq> msg_id m) (db_parts db) @ part_rows m\<rparr>))"

section \<open>PostgresArtifactRepository\<close>

definition known :: "('a \<Rightarrow> string) \<Rightarrow> 'a list \<Rightarrow> string option \<Rightarrow> bool" where
  "known key rows reference = (case reference of None \<Rightarrow> True | Some k \<Rightarrow> list_ex (\<lambda>x. key x = k) rows)"

definition artifact_keys_ok :: "artifact \<Rightarrow> database \<Rightarrow> bool" where
  "artifact_keys_ok a db =
     ((case art_mission_id a of None \<Rightarrow> True | Some m \<Rightarrow> m \<in> db_missions db)
      \<and> known th_id (db_threads db) (art_thread_id a) \<and> known run_id (db_runs db) (art_run_id a)
      \<and> known msg_id (db_messages db) (art_message_id a))"

text \<open>\<^verbatim>\<open>INSERT ... ON CONFLICT (id) DO UPDATE SET ... WHERE artifacts.workspace_id=EXCLUDED.workspace_id\<close>\<close>

definition pg_artifact_put :: "artifact \<Rightarrow> database \<Rightarrow> artifact pg_transaction" where
  "pg_artifact_put artifact db = (case require_provenance artifact of
       Inl e \<Rightarrow> Inl (Refused e)
     | Inr a \<Rightarrow>
         if art_id a \<notin> art_id ` set (db_artifacts db)
         then if artifact_keys_ok a db then Inr (a, db\<lparr>db_artifacts := db_artifacts db @ [a]\<rparr>)
           else Inl (IntegrityError ''artifacts'')
         else let (changed, rows) = sql_update (\<lambda>x. art_id x = art_id a \<and> art_workspace_id x = art_workspace_id a)
             (\<lambda>x. x\<lparr>art_payload := art_payload a, art_classification := art_classification a,
                art_evidence_ids := art_evidence_ids a, art_provenance := art_provenance a\<rparr>) (db_artifacts db) in
           if changed = [] then Inl (Refused (PermissionError ''artifact id belongs to another workspace''))
           else Inr (a, db\<lparr>db_artifacts := rows\<rparr>))"

definition pg_artifact_get :: "database \<Rightarrow> string \<Rightarrow> string option \<Rightarrow> artifact option" where
  "pg_artifact_get db aid ws = first_row (filter (\<lambda>a. art_id a = aid
     \<and> if_given ws (Some (art_workspace_id a))) (db_artifacts db))"

definition pg_artifact_list_for_mission :: "database \<Rightarrow> string \<Rightarrow> artifact list" where
  "pg_artifact_list_for_mission db mid =
     sort_key art_created_at (filter (\<lambda>a. sql_eq (art_mission_id a) (Some mid)) (db_artifacts db))"

definition pg_artifact_list_for_context :: "database \<Rightarrow> string \<Rightarrow> string \<Rightarrow> artifact list" where
  "pg_artifact_list_for_context db ws tid = sorted_desc art_created_at
     (filter (\<lambda>a. art_workspace_id a = ws \<and> sql_eq (art_thread_id a) (Some tid)) (db_artifacts db))"

section \<open>PostgresAttachmentRepository\<close>

text \<open>The checks of the table: lower-case checksums, and the condition of a \<^verbatim>\<open>READY\<close> row.\<close>

definition lower_hex :: "char \<Rightarrow> bool" where
  "lower_hex c = (let n = (of_char c :: nat) in (48 \<le> n \<and> n \<le> 57) \<or> (97 \<le> n \<and> n \<le> 102))"

definition attachment_row_ok :: "attachment \<Rightarrow> bool" where
  "attachment_row_ok a =
     ((case file_checksum_sha256 a of None \<Rightarrow> True | Some s \<Rightarrow> length s = 64 \<and> list_all lower_hex s)
      \<and> (file_status a = FILE_READY \<longrightarrow> file_scan_status a = SCAN_CLEAN
           \<and> file_storage_uri a \<noteq> None \<and> file_checksum_sha256 a \<noteq> None))"

definition attachment_keys_ok :: "attachment \<Rightarrow> database \<Rightarrow> bool" where
  "attachment_keys_ok a db =
     (list_ex (\<lambda>t. th_id t = file_thread_id a \<and> th_workspace_id t = file_workspace_id a
          \<and> th_owner_user_id t = file_owner_user_id a) (db_threads db)
      \<and> known msg_id (db_messages db) (file_message_id a))"

definition pg_attachment_row :: "database \<Rightarrow> string \<Rightarrow> string option \<Rightarrow> string option \<Rightarrow> attachment option" where
  "pg_attachment_row db aid ws owner = first_row (filter (\<lambda>a. file_id a = aid
     \<and> if_given ws (Some (file_workspace_id a)) \<and> if_given owner (Some (file_owner_user_id a))) (db_attachments db))"

definition pg_attachment_get ::
  "database \<Rightarrow> string \<Rightarrow> string option \<Rightarrow> string option \<Rightarrow> attachment option result" where
  "pg_attachment_get db aid ws owner = (case pg_attachment_row db aid ws owner of
       None \<Rightarrow> Inr None
     | Some row \<Rightarrow> result_bind (ready_requires_verified_clean_scan row) (\<lambda>a. Inr (Some a)))"

definition pg_attachment_create :: "attachment \<Rightarrow> database \<Rightarrow> attachment result pg_transaction" where
  "pg_attachment_create attachment db = (case ready_requires_verified_clean_scan attachment of
       Inl e \<Rightarrow> Inl (Refused e)
     | Inr a \<Rightarrow>
         let (rowcount, rows) = sql_insert file_id a (db_attachments db); db' = db\<lparr>db_attachments := rows\<rparr> in
         if 0 < rowcount \<and> \<not> (attachment_row_ok a \<and> attachment_keys_ok a db) then Inl (IntegrityError ''attachments'')
         else Inr (result_bind (pg_attachment_get db' (file_id a) (Some (file_workspace_id a)) (Some (file_owner_user_id a)))
           (\<lambda>persisted. case persisted of
              None \<Rightarrow> if rowcount = 0 then Inl (PermissionError ''attachment id belongs to another tenant'') else Inr a
            | Some p \<Rightarrow> Inr p), db'))"

definition pg_attachment_update :: "attachment \<Rightarrow> database \<Rightarrow> attachment pg_transaction" where
  "pg_attachment_update attachment db = (case ready_requires_verified_clean_scan attachment of
       Inl e \<Rightarrow> Inl (Refused e)
     | Inr a \<Rightarrow>
         let (changed, rows) = sql_update
           (\<lambda>x. file_id x = file_id a \<and> file_workspace_id x = file_workspace_id a
                \<and> file_owner_user_id x = file_owner_user_id a)
           (\<lambda>x. x\<lparr>file_message_id := file_message_id a, file_size_bytes := file_size_bytes a,
              file_storage_uri := file_storage_uri a, file_checksum_sha256 := file_checksum_sha256 a,
              file_status := file_status a, file_scan_status := file_scan_status a,
              file_scan_detail := file_scan_detail a\<rparr>) (db_attachments db) in
         if changed = [] then Inl (Refused (KeyError (file_id a)))
         else if \<not> list_all (\<lambda>x. attachment_row_ok x \<and> attachment_keys_ok x db) changed
         then Inl (IntegrityError ''attachments'')
         else Inr (a, db\<lparr>db_attachments := rows\<rparr>))"

definition own_row :: "string \<Rightarrow> string \<Rightarrow> string \<Rightarrow> attachment \<Rightarrow> bool" where
  "own_row tid ws owner a = (file_thread_id a = tid \<and> file_workspace_id a = ws \<and> file_owner_user_id a = owner)"

definition pg_associate_many ::
  "string list \<Rightarrow> string \<Rightarrow> string \<Rightarrow> string \<Rightarrow> string \<Rightarrow> database \<Rightarrow> bool pg_transaction" where
  "pg_associate_many attachment_ids message_id tid ws owner db =
     (let unique_ids = dedupe attachment_ids;
          locked = map (\<lambda>aid. first_row (filter (\<lambda>a. file_id a = aid \<and> own_row tid ws owner a) (db_attachments db))) unique_ids in
      if list_ex (\<lambda>row. row = None) locked then Inr (False, db)
      else if list_ex (\<lambda>row. case row of None \<Rightarrow> False | Some a \<Rightarrow> \<not> own_row tid ws owner a
          \<or> file_status a \<noteq> FILE_READY \<or> file_scan_status a \<noteq> SCAN_CLEAN \<or> file_message_id a \<noteq> None) locked
      then Inr (False, db)
      else if unique_ids \<noteq> [] \<and> \<not> known msg_id (db_messages db) (Some message_id) then Inl (IntegrityError ''attachments'')
      else Inr (True, db\<lparr>db_attachments := foldl (\<lambda>rows aid. snd (sql_update
          (\<lambda>a. file_id a = aid \<and> own_row tid ws owner a) (\<lambda>a. a\<lparr>file_message_id := Some message_id\<rparr>) rows))
          (db_attachments db) unique_ids\<rparr>))"

definition pg_attachment_delete :: "string \<Rightarrow> database \<Rightarrow> bool pg_transaction" where
  "pg_attachment_delete aid db =
     (let (changed, rows) = sql_update (\<lambda>a. file_id a = aid) (\<lambda>a. a\<lparr>file_status := FILE_DELETED\<rparr>) (db_attachments db)
      in Inr (changed \<noteq> [], db\<lparr>db_attachments := rows\<rparr>))"

definition pg_attachment_list_for_thread :: "database \<Rightarrow> string \<Rightarrow> attachment list" where
  "pg_attachment_list_for_thread db tid =
     sort_key file_created_at (filter (\<lambda>a. file_thread_id a = tid) (db_attachments db))"

section \<open>PostgresMemoryRepository\<close>

definition memory_row_ok :: "memory_item \<Rightarrow> bool" where
  "memory_row_ok m =
     (0 \<le> mem_confidence m \<and> mem_confidence m \<le> 1 \<and> 0 \<le> mem_salience m \<and> mem_salience m \<le> 1
      \<and> (mem_scope m \<noteq> SCOPE_THREAD \<or> mem_thread_id m \<noteq> None)
      \<and> (mem_scope m \<notin> {SCOPE_PROJECT, SCOPE_EPISODIC} \<or> mem_project_id m \<noteq> None)
      \<and> (mem_status m \<noteq> MEM_ACTIVE \<or> mem_consented_at m \<noteq> None)
      \<and> (mem_valid_to m = None \<or> mem_valid_from m = None \<or> sql_less (mem_valid_from m) (mem_valid_to m)))"

definition memory_keys_ok :: "memory_item \<Rightarrow> database \<Rightarrow> bool" where
  "memory_keys_ok m db =
     (known th_id (db_threads db) (mem_thread_id m) \<and> known run_id (db_runs db) (mem_source_run_id m)
      \<and> known msg_id (db_messages db) (mem_source_message_id m)
      \<and> known mem_id (m # db_memories db) (mem_supersedes_id m)
      \<and> known mem_id (m # db_memories db) (mem_superseded_by_id m))"

definition pg_memory_get :: "database \<Rightarrow> string \<Rightarrow> string \<Rightarrow> string \<Rightarrow> memory_item option" where
  "pg_memory_get db mid ws owner = first_row (filter (\<lambda>m. mem_id m = mid \<and> mem_workspace_id m = ws
     \<and> mem_owner_user_id m = owner \<and> mem_deleted_at m = None) (db_memories db))"

definition pg_memory_create :: "memory_item \<Rightarrow> database \<Rightarrow> memory_item pg_transaction" where
  "pg_memory_create m db =
     (let (rowcount, rows) = sql_insert mem_id m (db_memories db); db' = db\<lparr>db_memories := rows\<rparr> in
      if 0 < rowcount \<and> \<not> (memory_row_ok m \<and> memory_keys_ok m db) then Inl (IntegrityError ''memories'')
      else Inr (case pg_memory_get db' (mem_id m) (mem_workspace_id m) (mem_owner_user_id m) of
             None \<Rightarrow> m | Some persisted \<Rightarrow> persisted, db'))"

definition pg_memory_active :: "moment \<Rightarrow> memory_item \<Rightarrow> bool" where
  "pg_memory_active now m =
     (mem_status m = MEM_ACTIVE
      \<and> (mem_valid_from m = None \<or> sql_le (mem_valid_from m) (Some now))
      \<and> (mem_valid_to m = None \<or> sql_less (Some now) (mem_valid_to m))
      \<and> (mem_expires_at m = None \<or> sql_less (Some now) (mem_expires_at m)))"

definition pg_memory_list ::
  "database \<Rightarrow> string \<Rightarrow> string \<Rightarrow> string option \<Rightarrow> string option \<Rightarrow> bool \<Rightarrow> int \<Rightarrow> moment
     \<Rightarrow> memory_item list" where
  "pg_memory_list db ws owner project thread include_inactive limit now =
     take (page_limit limit) (sorted_desc (\<lambda>m. (mem_pinned m, mem_updated_at m))
       (filter (\<lambda>m. mem_workspace_id m = ws \<and> mem_owner_user_id m = owner \<and> mem_deleted_at m = None
            \<and> (project = None \<or> mem_project_id m = None \<or> sql_eq (mem_project_id m) project)
            \<and> (thread = None \<or> mem_thread_id m = None \<or> sql_eq (mem_thread_id m) thread)
            \<and> (include_inactive \<or> pg_memory_active now m)) (db_memories db)))"

definition written_memory :: "memory_item \<Rightarrow> memory_item \<Rightarrow> memory_item" where
  "written_memory m x = m\<lparr>mem_created_at := mem_created_at x\<rparr>"

definition pg_memory_update :: "memory_item \<Rightarrow> database \<Rightarrow> memory_item pg_transaction" where
  "pg_memory_update m db =
     (let (changed, rows) = sql_update
        (\<lambda>x. mem_id x = mem_id m \<and> mem_workspace_id x = mem_workspace_id m \<and> mem_owner_user_id x = mem_owner_user_id m)
        (written_memory m) (db_memories db) in
      if changed = [] then Inl (Refused (KeyError (mem_id m)))
      else if \<not> list_all (\<lambda>x. memory_row_ok x \<and> memory_keys_ok x db) changed then Inl (IntegrityError ''memories'')
      else Inr (m, db\<lparr>db_memories := rows\<rparr>))"

definition pg_memory_delete :: "string \<Rightarrow> string \<Rightarrow> string \<Rightarrow> moment \<Rightarrow> database \<Rightarrow> bool pg_transaction" where
  "pg_memory_delete mid ws owner now db =
     (let (changed, rows) = sql_update
        (\<lambda>m. mem_id m = mid \<and> mem_workspace_id m = ws \<and> mem_owner_user_id m = owner \<and> mem_deleted_at m = None)
        (\<lambda>m. m\<lparr>mem_status := MEM_DELETED, mem_deleted_at := Some now, mem_updated_at := now\<rparr>) (db_memories db)
      in Inr (changed \<noteq> [], db\<lparr>db_memories := rows\<rparr>))"

text \<open>\<^verbatim>\<open>record_usage\<close>: two statements per memory, all in one transaction.\<close>

fun pg_record_usage ::
  "string \<Rightarrow> memory_item list \<Rightarrow> json_obj \<Rightarrow> moment \<Rightarrow> database \<Rightarrow> unit pg_transaction" where
  "pg_record_usage rid [] provenance now db = Inr ((), db)"
| "pg_record_usage rid (m # ms) provenance now db =
     (let (rowcount, rows) = sql_insert (\<lambda>u. (us_run_id u, us_memory_id u))
        \<lparr>us_run_id = rid, us_memory_id = mem_id m, us_workspace_id = mem_workspace_id m,
         us_owner_user_id = mem_owner_user_id m, us_provenance = provenance, us_used_at = now\<rparr> (db_usage db) in
      if 0 < rowcount \<and> \<not> (list_ex (\<lambda>r. run_id r = rid) (db_runs db)
          \<and> list_ex (\<lambda>x. mem_id x = mem_id m) (db_memories db))
      then Inl (IntegrityError ''run_memory_usage'')
      else pg_record_usage rid ms provenance now (db\<lparr>db_usage := rows, db_memories := snd (sql_update
        (\<lambda>x. mem_id x = mem_id m \<and> mem_workspace_id x = mem_workspace_id m \<and> mem_owner_user_id x = mem_owner_user_id m)
        (\<lambda>x. x\<lparr>mem_last_used_at := Some now\<rparr>) (db_memories db))\<rparr>))"

definition pg_list_used_by_run :: "database \<Rightarrow> string \<Rightarrow> string \<Rightarrow> string \<Rightarrow> memory_item list" where
  "pg_list_used_by_run db rid ws owner = concat (map
     (\<lambda>u. filter (\<lambda>m. mem_id m = us_memory_id u \<and> mem_deleted_at m = None) (db_memories db))
     (sort_key us_used_at (filter (\<lambda>u. us_run_id u = rid \<and> us_workspace_id u = ws
        \<and> us_owner_user_id u = owner) (db_usage db))))"

definition pg_get_preference :: "database \<Rightarrow> string \<Rightarrow> string \<Rightarrow> moment \<Rightarrow> memory_preference" where
  "pg_get_preference db ws owner clock =
     (case first_row (filter (\<lambda>p. pref_workspace_id p = ws \<and> pref_owner_user_id p = owner) (db_preferences db)) of
        Some p \<Rightarrow> p
      | None \<Rightarrow> \<lparr>pref_workspace_id = ws, pref_owner_user_id = owner, pref_opted_out = False, pref_updated_at = clock\<rparr>)"

definition pg_set_preference :: "memory_preference \<Rightarrow> database \<Rightarrow> memory_preference pg_transaction" where
  "pg_set_preference p db =
     (let key = (\<lambda>p. (pref_workspace_id p, pref_owner_user_id p)) in
      Inr (p, db\<lparr>db_preferences := (if key p \<in> key ` set (db_preferences db)
        then snd (sql_update (\<lambda>x. key x = key p)
          (\<lambda>x. x\<lparr>pref_opted_out := pref_opted_out p, pref_updated_at := pref_updated_at p\<rparr>) (db_preferences db))
        else db_preferences db @ [p])\<rparr>))"

section \<open>PostgresThreadSummaryRepository\<close>

definition pg_summary_create :: "thread_summary \<Rightarrow> database \<Rightarrow> thread_summary pg_transaction" where
  "pg_summary_create s db =
     (let (rowcount, rows) = sql_insert sum_id s (db_summaries db) in
      if 0 < rowcount \<and> \<not> (list_ex (\<lambda>t. th_id t = sum_thread_id s) (db_threads db)
          \<and> known msg_id (db_messages db) (sum_through_message_id s)) then Inl (IntegrityError ''thread_summaries'')
      else Inr (s, db\<lparr>db_summaries := rows\<rparr>))"

definition pg_summary_latest :: "database \<Rightarrow> string \<Rightarrow> string \<Rightarrow> string \<Rightarrow> thread_summary option" where
  "pg_summary_latest db tid ws owner = first_row (sorted_desc sum_created_at
     (filter (\<lambda>s. sum_thread_id s = tid \<and> sum_workspace_id s = ws \<and> sum_owner_user_id s = owner) (db_summaries db)))"

section \<open>Threads, attachments and memories behave as in memory\<close>

lemma first_row_key:
  "keyed key d \<Longrightarrow> first_row (filter (\<lambda>x. key x = k \<and> P x) (dict_values d)) =
     (case dict_get d k of None \<Rightarrow> None | Some v \<Rightarrow> if P v then Some v else None)"
  by (simp add: rows_of_key split: option.split)

lemma if_given_iff: "if_given x (Some v) = (x = None \<or> Some v = x)"
  by (cases x) auto

lemma pg_page_eq: "pg_page k limit c xs = keyset_page k limit c xs"
proof -
  have "(c = None \<or> k x < the c) = below k c x" for x by (simp add: below_def split: option.splits)
  then have "(\<lambda>x. c = None \<or> k x < the c) = below k c" by auto
  then show ?thesis unfolding pg_page_def keyset_page_def Let_def by (simp only:)
qed

lemma pg_threads_agree:
  assumes "db_threads db = dict_values items" "keyed th_id items"
  shows "pg_thread_get db tid ws owner = thread_get items tid ws owner"
    and "pg_thread_list_for_owner db w u limit status = thread_list_for_owner items w u limit status"
    and "pg_thread_list_page db w u limit cursor deleted = thread_list_page items w u limit cursor deleted"
    and "pg_thread_create t db = (case thread_create t items of Inl e \<Rightarrow> Inl (Refused e)
      | Inr (x, items') \<Rightarrow> Inr (x, db\<lparr>db_threads := dict_values items'\<rparr>))"
proof -
  show get: "pg_thread_get db tid ws owner = thread_get items tid ws owner" for tid ws owner
    unfolding pg_thread_get_def assms(1) first_row_key [OF assms(2)] if_given_iff thread_get_def
    by (auto split: option.splits)
  show "pg_thread_list_for_owner db w u limit status = thread_list_for_owner items w u limit status"
    unfolding pg_thread_list_for_owner_def thread_list_for_owner_def assms(1) if_given_iff ..
  show "pg_thread_list_page db w u limit cursor deleted = thread_list_page items w u limit cursor deleted"
    unfolding pg_thread_list_page_def thread_list_page_def assms(1) pg_page_eq ..
  let ?items = "dict_setdefault items (th_id t) t"
  have "pg_thread_get (db\<lparr>db_threads := dict_values ?items\<rparr>) (th_id t) (Some w) (Some u)
      = thread_get ?items (th_id t) (Some w) (Some u)" for w u
    unfolding pg_thread_get_def by (simp add: first_row_key [OF keyed_setdefault [OF assms(2)]] thread_get_def
      split: option.splits)
  then show "pg_thread_create t db = (case thread_create t items of Inl e \<Rightarrow> Inl (Refused e)
      | Inr (x, items') \<Rightarrow> Inr (x, db\<lparr>db_threads := dict_values items'\<rparr>))"
    by (auto simp: pg_thread_create_def assms(1) sql_insert_keyed [OF assms(2)] thread_get_def thread_create_def
        dict_setdefault_present Let_def split: option.splits)
qed

lemma pg_attachments_agree:
  assumes "db_attachments db = dict_values items" "keyed file_id items"
  shows "pg_attachment_row db aid ws owner = attachment_get items aid ws owner"
    and "pg_attachment_delete aid db = Inr (fst (attachment_delete aid items),
      db\<lparr>db_attachments := dict_values (snd (attachment_delete aid items))\<rparr>)"
proof -
  show "pg_attachment_row db aid ws owner = attachment_get items aid ws owner"
    unfolding pg_attachment_row_def assms(1) first_row_key [OF assms(2)] if_given_iff attachment_get_def
    by (auto split: option.splits)
  show "pg_attachment_delete aid db = Inr (fst (attachment_delete aid items),
      db\<lparr>db_attachments := dict_values (snd (attachment_delete aid items))\<rparr>)"
    by (simp add: pg_attachment_delete_def assms(1) sql_update_key [OF assms(2)] attachment_delete_def split: option.splits)
qed

lemma pg_memories_agree:
  assumes "db_memories db = dict_values (ms_items ms)" "keyed mem_id (ms_items ms)"
  shows "pg_memory_list db ws owner project thread inactive limit now = memory_list ms ws owner project thread inactive limit now"
    and "(\<And>m. dict_get (ms_items ms) mid = Some m \<Longrightarrow> (mem_status m = MEM_DELETED) = (mem_deleted_at m \<noteq> None)) \<Longrightarrow>
      pg_memory_get db mid ws owner = memory_get ms mid ws owner"
proof -
  have "pg_memory_active now m = memory_current now m" for m
    by (auto simp: pg_memory_active_def memory_current_def split: option.splits)
  moreover have "(p = None \<or> x = None \<or> sql_eq x p) = (p = None \<or> x \<in> {None, p})" for p x :: "string option"
    by (auto simp: sql_eq_def)
  ultimately show "pg_memory_list db ws owner project thread inactive limit now
      = memory_list ms ws owner project thread inactive limit now"
    unfolding pg_memory_list_def memory_list_def memory_listable_def assms(1) by (simp only:)
  show "pg_memory_get db mid ws owner = memory_get ms mid ws owner"
    if "\<And>m. dict_get (ms_items ms) mid = Some m \<Longrightarrow> (mem_status m = MEM_DELETED) = (mem_deleted_at m \<noteq> None)"
    unfolding pg_memory_get_def assms(1) first_row_key [OF assms(2)] memory_get_def
    using that by (auto split: option.splits)
qed

section \<open>Messages and their parts\<close>

definition without_parts :: "message \<Rightarrow> message" where
  "without_parts m = m\<lparr>msg_parts := []\<rparr>"

definition sound_parts :: "message \<Rightarrow> bool" where
  "sound_parts m = (validated_parts (msg_parts m) = Inr (msg_parts m))"

definition message_mirror :: "database \<Rightarrow> message store \<Rightarrow> bool" where
  "message_mirror db items =
     (keyed msg_id items \<and> db_messages db = map without_parts (dict_values items)
      \<and> (\<forall>mid m. dict_get items mid = Some m \<longrightarrow> parts_of db mid = msg_parts m \<and> sound_parts m)
      \<and> (\<forall>p \<in> set (db_parts db). dict_get items (pr_message_id p) \<noteq> None))"

lemma without_parts_simps [simp]:
  "msg_id (without_parts m) = msg_id m" "msg_workspace_id (without_parts m) = msg_workspace_id m"
  "(without_parts m)\<lparr>msg_parts := msg_parts m\<rparr> = m" "without_parts (m\<lparr>msg_parts := ps\<rparr>) = without_parts m"
  by (simp_all add: without_parts_def)

lemma message_rows:
  assumes "message_mirror db items"
  shows "filter (\<lambda>m. msg_id m = mid \<and> P (msg_workspace_id m)) (db_messages db) =
    (case dict_get items mid of None \<Rightarrow> [] | Some m \<Rightarrow> if P (msg_workspace_id m) then [without_parts m] else [])"
proof -
  have k: "keyed msg_id items" and rows: "db_messages db = map without_parts (dict_values items)"
    using assms by (simp_all add: message_mirror_def)
  have "filter (\<lambda>m. msg_id m = mid \<and> P (msg_workspace_id m)) (db_messages db)
      = map without_parts (filter (\<lambda>m. msg_id m = mid \<and> P (msg_workspace_id m)) (dict_values items))"
    unfolding rows filter_map by (simp only: comp_def without_parts_simps)
  then show ?thesis unfolding rows_of_key [OF k] by (simp split: option.split)
qed

lemma pg_message_get_mirror:
  "message_mirror db items \<Longrightarrow> pg_message_get db mid ws = Inr (message_get items mid ws)"
  using message_rows [of db items mid "\<lambda>w. if_given ws (Some w)"]
  by (auto simp: pg_message_get_def message_get_def message_mirror_def sound_parts_def if_given_iff split: option.splits)

lemma part_rows_keys: "map (\<lambda>r. (pr_message_id r, pr_position r)) (part_rows m) = map (Pair (msg_id m)) [0..<length (msg_parts m)]"
proof -
  have "map fst (enumerate n xs) = [n..<n + length xs]" for n and xs :: "message_part list" by simp
  then have "map (Pair (msg_id m)) (map fst (enumerate 0 (msg_parts m))) = map (Pair (msg_id m)) [0..<length (msg_parts m)]"
    by simp
  then show ?thesis by (simp add: part_rows_def comp_def case_prod_unfold del: map_fst_enumerate)
qed

lemma foldl_sql_insert:
  "distinct (map key new) \<Longrightarrow> key ` set new \<inter> key ` set rows = {} \<Longrightarrow>
     foldl (\<lambda>rows p. snd (sql_insert key p rows)) rows new = rows @ new"
proof (induction new arbitrary: rows)
  case (Cons p new)
  then have "snd (sql_insert key p rows) = rows @ [p]" by (auto simp: sql_insert_def)
  moreover have "key ` set new \<inter> key ` set (rows @ [p]) = {}" using Cons.prems by auto
  ultimately show ?case using Cons.IH [of "rows @ [p]"] Cons.prems(1) by simp
qed simp

lemma parts_of_append:
  assumes "filter (\<lambda>p. pr_message_id p = msg_id m) rows = []" "db_parts db = rows @ part_rows m"
  shows "parts_of db (msg_id m) = msg_parts m"
    and "k \<noteq> msg_id m \<Longrightarrow> parts_of db k = map pr_part (sort_key pr_position (filter (\<lambda>p. pr_message_id p = k) rows))"
proof -
  have own: "pr_message_id p = msg_id m" if "p \<in> set (part_rows m)" for p
    using that by (auto simp: part_rows_def)
  have "map pr_position (part_rows m) = map snd (map (\<lambda>r. (pr_message_id r, pr_position r)) (part_rows m))" by simp
  then have "map pr_position (part_rows m) = [0..<length (msg_parts m)]" unfolding part_rows_keys by (simp add: comp_def)
  then have "sort_key pr_position (part_rows m) = part_rows m" by (intro sort_key_id_if_sorted) simp
  moreover have "map pr_part (part_rows m) = map snd (enumerate 0 (msg_parts m))"
    by (simp add: part_rows_def comp_def case_prod_unfold del: map_snd_enumerate)
  then have "map pr_part (part_rows m) = msg_parts m" by simp
  moreover have "filter (\<lambda>p. pr_message_id p = msg_id m) (part_rows m) = part_rows m" using own by simp
  ultimately show "parts_of db (msg_id m) = msg_parts m" by (simp add: parts_of_def assms)
  show "parts_of db k = map pr_part (sort_key pr_position (filter (\<lambda>p. pr_message_id p = k) rows))" if "k \<noteq> msg_id m"
    using own that by (simp add: parts_of_def assms filter_empty_conv)
qed

lemma message_mirror_write:
  assumes "message_mirror db items" "sound_parts m" "keyed msg_id items'"
    and get: "\<And>k. dict_get items' k = (if k = msg_id m then Some m else dict_get items k)"
    and "db_messages db' = map without_parts (dict_values items')"
    and "filter (\<lambda>p. pr_message_id p = msg_id m) rows = []" "db_parts db' = rows @ part_rows m"
    and other: "\<And>k. k \<noteq> msg_id m \<Longrightarrow> filter (\<lambda>p. pr_message_id p = k) rows = filter (\<lambda>p. pr_message_id p = k) (db_parts db)"
  shows "message_mirror db' items'"
proof -
  have "parts_of db' k = parts_of db k" if "k \<noteq> msg_id m" for k
    using parts_of_append(2) [OF assms(6,7) that] other [OF that] by (simp add: parts_of_def)
  moreover have "parts_of db' (msg_id m) = msg_parts m" by (rule parts_of_append(1) [OF assms(6,7)])
  moreover have old: "parts_of db k = msg_parts x \<and> sound_parts x" if "dict_get items k = Some x" for k x
    using assms(1) that by (simp add: message_mirror_def)
  ultimately have "parts_of db' k = msg_parts x \<and> sound_parts x" if "dict_get items' k = Some x" for k x
    using that assms(2) by (cases "k = msg_id m") (simp_all add: get)
  moreover have "dict_get items' (pr_message_id p) \<noteq> None" if p: "p \<in> set (db_parts db')" for p
  proof (cases "p \<in> set (part_rows m)")
    case True
    then have "pr_message_id p = msg_id m" by (auto simp: part_rows_def)
    then show ?thesis by (simp add: get)
  next
    case False
    with p assms(7) have "p \<in> set (filter (\<lambda>q. pr_message_id q = pr_message_id p) rows)" by simp
    moreover from this assms(6) have "pr_message_id p \<noteq> msg_id m" by (metis empty_iff empty_set)
    ultimately have "p \<in> set (db_parts db)" using other by (metis filter_is_subset subsetD)
    then show ?thesis using assms(1) by (auto simp: message_mirror_def get)
  qed
  ultimately show ?thesis using assms(3,5) unfolding message_mirror_def by blast
qed

lemma message_mirror_create:
  assumes m: "message_mirror db items" "sound_parts m" and call: "pg_message_create m db = Inr (res, db')"
  shows "(case message_create m items of
      Inl e \<Rightarrow> res = Inl e \<and> message_mirror db' items
    | Inr (x, items') \<Rightarrow> res = Inr x \<and> message_mirror db' items')"
proof -
  have k: "keyed msg_id items" and rows: "db_messages db = map without_parts (dict_values items)"
    using m(1) by (simp_all add: message_mirror_def)
  show ?thesis
  proof (cases "dict_get items (msg_id m)")
    case (Some e)
    then have "e \<in> set (dict_values items)" "msg_id e = msg_id m"
      using keyed_get [OF k Some] dict_get_SomeD [OF Some] by force+
    then have "msg_id (without_parts e) = msg_id m" "without_parts e \<in> set (db_messages db)"
      unfolding rows set_map by (simp, blast)
    then have "msg_id m \<in> msg_id ` set (db_messages db)" by (metis imageI)
    then have "db' = db" and res: "res = result_bind (Inr (message_get items (msg_id m) (Some (msg_workspace_id m))))
        (\<lambda>persisted. case persisted of
           None \<Rightarrow> Inl (PermissionError ''message id belongs to another workspace'') | Some p \<Rightarrow> Inr p)"
      using call pg_message_get_mirror [OF m(1)] by (auto simp: pg_message_create_def sql_insert_def Let_def)
    with m(1) Some show ?thesis by (auto simp: message_create_def message_get_def)
  next
    case None
    define db1 where "db1 = insert_parts (part_rows m) (db\<lparr>db_messages := db_messages db @ [without_parts m]\<rparr>)"
    have new: "msg_id m \<notin> msg_id ` set (db_messages db)"
      using rows_absent [OF k None] unfolding rows by (simp add: image_image)
    have none: "filter (\<lambda>p. pr_message_id p = msg_id m) (db_parts db) = []"
      using m(1) None by (auto simp: message_mirror_def filter_empty_conv)
    have "distinct (map (\<lambda>r. (pr_message_id r, pr_position r)) (part_rows m))"
      unfolding part_rows_keys by (simp add: distinct_map inj_on_def)
    moreover have "(\<lambda>r. (pr_message_id r, pr_position r)) ` set (part_rows m)
        \<inter> (\<lambda>r. (pr_message_id r, pr_position r)) ` set (db_parts db) = {}"
      using none by (auto simp: part_rows_def filter_empty_conv)
    ultimately have parts: "db_parts db1 = db_parts db @ part_rows m"
      unfolding db1_def insert_parts_def by (simp add: foldl_sql_insert)
    have mirror: "message_mirror db1 (dict_setdefault items (msg_id m) m)"
    proof (rule message_mirror_write [OF m _ _ _ none parts])
      show "keyed msg_id (dict_setdefault items (msg_id m) m)" using k by simp
      show "db_messages db1 = map without_parts (dict_values (dict_setdefault items (msg_id m) m))"
        using rows None by (simp add: db1_def insert_parts_def dict_setdefault_def)
    qed (use None in \<open>auto\<close>)
    have "db' = db1 \<and> res = Inr m"
      using call new pg_message_get_mirror [OF mirror, of "msg_id m" "Some (msg_workspace_id m)"] None
      by (auto simp: pg_message_create_def sql_insert_def Let_def db1_def without_parts_def message_get_def
          split: if_splits)
    with mirror None show ?thesis by (simp add: message_create_def)
  qed
qed

text \<open>An update keeps the thread and the creation time of the row.\<close>

definition edits :: "message \<Rightarrow> message \<Rightarrow> bool" where
  "edits m e = (msg_thread_id m = msg_thread_id e \<and> msg_created_at m = msg_created_at e)"

lemma message_mirror_update:
  assumes m: "message_mirror db items" "sound_parts m" and e: "\<And>e. dict_get items (msg_id m) = Some e \<Longrightarrow> edits m e"
    and call: "pg_message_update m db = Inr (x, db')"
  shows "x = m \<and> (\<exists>items'. message_update m items = Inr (m, items') \<and> message_mirror db' items')"
proof -
  have k: "keyed msg_id items" and rows: "db_messages db = map without_parts (dict_values items)"
    using m(1) by (simp_all add: message_mirror_def)
  let ?f = "\<lambda>x. x\<lparr>msg_user_id := msg_user_id m, msg_role := msg_role m, msg_run_id := msg_run_id m,
    msg_parent_message_id := msg_parent_message_id m, msg_updated_at := msg_updated_at m\<rparr>"
  let ?P = "\<lambda>x. msg_id x = msg_id m \<and> msg_workspace_id x = msg_workspace_id m"
  have changed: "fst (sql_update ?P ?f (db_messages db)) = map ?f (case dict_get items (msg_id m) of
      None \<Rightarrow> [] | Some v \<Rightarrow> if msg_workspace_id v = msg_workspace_id m then [without_parts v] else [])"
    using message_rows [OF m(1), of "msg_id m" "\<lambda>w. w = msg_workspace_id m"] by (simp add: sql_update_def)
  show ?thesis
  proof (cases "\<exists>v. dict_get items (msg_id m) = Some v \<and> msg_workspace_id v = msg_workspace_id m")
    case False
    then have "fst (sql_update ?P ?f (db_messages db)) = []" unfolding changed by (auto split: option.splits)
    with call show ?thesis by (simp add: pg_message_update_def split: prod.splits)
  next
    case True
    then obtain v where v: "dict_get items (msg_id m) = Some v" "msg_workspace_id v = msg_workspace_id m" by blast
    have v': "?f (without_parts v) = without_parts m"
      using e [OF v(1)] v(2) keyed_get [OF k v(1)] by (cases m; cases v) (simp add: without_parts_def edits_def)
    have "snd (sql_update ?P ?f (db_messages db)) = map without_parts (dict_values (dict_set items (msg_id m) m))"
    proof -
      define vs where "vs = dict_values items"
      have "(if ?P (without_parts x) then ?f (without_parts x) else without_parts x)
          = without_parts (if msg_id x = msg_id m \<and> True then m else x)" if "x \<in> set vs" for x
        using keyed_value_get [OF k that [unfolded vs_def]] v v' by auto
      then have "snd (sql_update ?P ?f (map without_parts vs))
          = map without_parts (map (\<lambda>x. if msg_id x = msg_id m \<and> True then m else x) vs)"
        by (simp add: sql_update_def)
      then have "snd (sql_update ?P ?f (db_messages db))
          = map without_parts (map (\<lambda>x. if msg_id x = msg_id m \<and> True then m else x) (dict_values items))"
        unfolding rows vs_def .
      also have "map (\<lambda>x. if msg_id x = msg_id m \<and> True then m else x) (dict_values items) = dict_values (dict_set items (msg_id m) m)"
        using update_row [OF k v(1), of "\<lambda>_. True" "\<lambda>_. m"] by simp
      finally show ?thesis .
    qed
    moreover obtain changed_rows new_rows where "sql_update ?P ?f (db_messages db) = (changed_rows, new_rows)" by fastforce
    ultimately have db': "x = m" "db' = db\<lparr>db_messages := map without_parts (dict_values (dict_set items (msg_id m) m)),
        db_parts := filter (\<lambda>p. pr_message_id p \<noteq> msg_id m) (db_parts db) @ part_rows m\<rparr>"
      using call by (auto simp: pg_message_update_def split: if_splits)
    let ?rows = "filter (\<lambda>p. pr_message_id p \<noteq> msg_id m) (db_parts db)"
    have "message_mirror db' (dict_set items (msg_id m) m)"
    proof (rule message_mirror_write [OF m, where rows = ?rows])
      show "filter (\<lambda>p. pr_message_id p = mid) ?rows = filter (\<lambda>p. pr_message_id p = mid) (db_parts db)"
        if "mid \<noteq> msg_id m" for mid using that by (auto intro: filter_cong)
    qed (use k in \<open>simp_all add: db'(2) filter_empty_conv\<close>)
    with v db'(1) show ?thesis by (simp add: message_update_def)
  qed
qed

text \<open>C23. Messages survive the database. A message whose parts are sound is read back exactly as it was
  written, after its creation and after any edit of its text, author, role, run or parent; the other
  messages read as before.\<close>

theorem durable_messages_roundtrip:
  assumes "message_mirror db items" and "dict_get items (msg_id m) = None"
    and "sound_parts m" and "pg_message_create m db = Inr (res, db1)"
    and "msg_id e = msg_id m" "edits e m" "sound_parts e" and "pg_message_update e db1 = Inr (x, db2)"
  shows "res = Inr m \<and> pg_message_get db1 (msg_id m) None = Inr (Some m)
    \<and> x = e \<and> pg_message_get db2 (msg_id m) None = Inr (Some e)
    \<and> (\<forall>k ws. k \<noteq> msg_id m \<longrightarrow> pg_message_get db2 k ws = pg_message_get db k ws)"
proof -
  let ?items1 = "dict_setdefault items (msg_id m) m"
  have created: "message_create m items = Inr (m, ?items1)" using assms(2) by (simp add: message_create_def)
  then have one: "res = Inr m" "message_mirror db1 ?items1" using message_mirror_create [OF assms(1,3,4)] by simp_all
  have "message_mirror db2 (dict_set ?items1 (msg_id m) e)" and x: "x = e"
    using message_mirror_update [OF one(2) assms(7) _ assms(8)] assms(2,5,6)
    by (auto simp: message_update_def split: option.splits if_splits)
  then have "pg_message_get db2 k ws = Inr (message_get (dict_set ?items1 (msg_id m) e) k ws)" for k ws
    by (intro pg_message_get_mirror)
  moreover have "pg_message_get db1 (msg_id m) None = Inr (Some m)"
    unfolding pg_message_get_mirror [OF one(2)] using assms(2) by (simp add: message_get_def)
  ultimately show ?thesis using one(1) x assms(2)
    by (simp add: pg_message_get_mirror [OF assms(1)] message_get_def)
qed

section \<open>Artifacts stored twice\<close>

definition rewritten :: "artifact \<Rightarrow> artifact \<Rightarrow> artifact" where
  "rewritten a old = old\<lparr>art_payload := art_payload a, art_classification := art_classification a,
     art_evidence_ids := art_evidence_ids a, art_provenance := art_provenance a\<rparr>"

text \<open>C34. An artifact identifier that is already in use in the workspace, by whichever user's run, makes
  the database rewrite the content of the stored artifact and leave it with its first run, thread
  and mission, while the caller is told that its own artifact was stored.\<close>

theorem stored_artifact_is_overwritten_in_place:
  assumes "require_provenance new = Inr a" and "distinct (map art_id (db_artifacts db))"
    and "old \<in> set (db_artifacts db)" "art_id old = art_id a" "art_workspace_id old = art_workspace_id a"
  shows "\<exists>db'. pg_artifact_put new db = Inr (a, db') \<and> pg_artifact_get db' (art_id a) None = Some (rewritten a old)
    \<and> length (db_artifacts db') = length (db_artifacts db)"
proof -
  let ?P = "\<lambda>x. art_id x = art_id a \<and> art_workspace_id x = art_workspace_id a"
  have same: "x = old" if "x \<in> set (db_artifacts db)" "art_id x = art_id a" for x
    using that assms(2-4) by (auto simp: distinct_map inj_on_def)
  have "filter (\<lambda>x. art_id x = art_id a) rows = [old]" if "distinct rows" "old \<in> set rows" "set rows \<subseteq> set (db_artifacts db)" for rows
    using that
  proof (induction rows)
    case (Cons x rows)
    then show ?case using same assms(4) by (cases "x = old") (auto simp: filter_empty_conv)
  qed simp
  then have only: "filter (\<lambda>x. art_id x = art_id a) (db_artifacts db) = [old]"
    using assms(2,3) by (simp add: distinct_map)
  let ?rows = "map (\<lambda>x. if ?P x then rewritten a x else x) (db_artifacts db)"
  let ?db = "db\<lparr>db_artifacts := ?rows\<rparr>"
  have "filter ?P (db_artifacts db) = filter (\<lambda>x. art_workspace_id x = art_workspace_id a)
      (filter (\<lambda>x. art_id x = art_id a) (db_artifacts db))" by (simp add: conj_commute)
  then have changed: "filter ?P (db_artifacts db) = [old]" using assms(5) by (simp add: only)
  have "art_id a \<in> art_id ` set (db_artifacts db)" using assms(3,4) by (metis imageI)
  then have put: "pg_artifact_put new db = Inr (a, ?db)"
    using assms(1) changed by (simp add: pg_artifact_put_def sql_update_def rewritten_def)
  have "filter (\<lambda>x. art_id x = art_id a) ?rows = map (\<lambda>x. if ?P x then rewritten a x else x)
      (filter (\<lambda>x. art_id x = art_id a) (db_artifacts db))"
    by (auto simp: filter_map rewritten_def intro!: arg_cong [where f = "map _"] filter_cong split: if_splits)
  also have "\<dots> = [rewritten a old]" using assms(4,5) by (simp add: only)
  finally have "pg_artifact_get ?db (art_id a) None = Some (rewritten a old)" by (simp add: pg_artifact_get_def)
  with put show ?thesis by (intro exI [of _ ?db]) simp
qed

section \<open>Concrete tables\<close>

definition table_artifact :: "string \<Rightarrow> string \<Rightarrow> artifact" where
  "table_artifact thread words = \<lparr>art_id = ''chart_1'', art_workspace_id = ''w'', art_artifact_type = ''chart'',
     art_payload = [(''title'', JStr words)], art_classification = Ui, art_evidence_ids = [],
     art_provenance = \<lparr>prov_evidence_ids = [], prov_calculation_version = None, prov_query_version = None,
       prov_prompt_version = None, prov_tool_version = None, prov_model_version = None, prov_source_metadata = []\<rparr>,
     art_mission_id = None, art_thread_id = Some thread, art_run_id = None, art_message_id = None, art_created_at = 0\<rparr>"

definition shared_tables :: database where
  "shared_tables = empty_database\<lparr>db_artifacts := [table_artifact ''alice'' ''revenue'']\<rparr>"

theorem stored_artifact_is_overwritten_in_place_witness:
  "\<exists>db' row. pg_artifact_put (table_artifact ''bob'' ''churn'') shared_tables = Inr (table_artifact ''bob'' ''churn'', db')
    \<and> pg_artifact_get db' ''chart_1'' None = Some row
    \<and> art_thread_id row = Some ''alice'' \<and> art_payload row = [(''title'', JStr ''churn'')]"
proof -
  have "require_provenance (table_artifact ''bob'' ''churn'') = Inr (table_artifact ''bob'' ''churn'')"
    by (simp add: require_provenance_def table_artifact_def)
  from stored_artifact_is_overwritten_in_place [OF this, of shared_tables "table_artifact ''alice'' ''revenue''"]
  show ?thesis by (auto simp: shared_tables_def table_artifact_def rewritten_def)
qed

definition table_message :: "string \<Rightarrow> message" where
  "table_message words = \<lparr>msg_id = ''m1'', msg_thread_id = ''t1'', msg_workspace_id = ''w'', msg_user_id = Some ''u'',
     msg_role = USER, msg_parts = [\<lparr>part_type = TEXT, part_content = CStr words, part_metadata = []\<rparr>],
     msg_run_id = None, msg_parent_message_id = None, msg_created_at = 0, msg_updated_at = 0\<rparr>"

definition thread_tables :: database where
  "thread_tables = empty_database\<lparr>db_threads := [sample_thread ''t1'' ''u'' 0]\<rparr>"

theorem durable_messages_roundtrip_witness:
  "\<exists>db1 db2. pg_message_create (table_message ''hi'') thread_tables = Inr (Inr (table_message ''hi''), db1)
    \<and> pg_message_update (table_message ''edited'') db1 = Inr (table_message ''edited'', db2)
    \<and> pg_message_get db2 ''m1'' None = Inr (Some (table_message ''edited''))"
proof -
  let ?db1 = "thread_tables\<lparr>db_messages := [without_parts (table_message ''hi'')], db_parts := part_rows (table_message ''hi'')\<rparr>"
  have mirror: "message_mirror thread_tables []"
    by (simp add: message_mirror_def thread_tables_def empty_database_def)
  have sound: "sound_parts (table_message words)" for words
    by (simp add: sound_parts_def table_message_def validate_content_def is_str_def)
  have parts: "part_rows (table_message words) = [\<lparr>pr_message_id = ''m1'', pr_position = 0,
      pr_part = \<lparr>part_type = TEXT, part_content = CStr words, part_metadata = []\<rparr>\<rparr>]" for words
    by (simp add: part_rows_def table_message_def)
  have keys: "message_keys_ok m thread_tables" if "msg_thread_id m = ''t1''" "msg_run_id m = None" "msg_parent_message_id m = None" for m
    using that by (simp add: message_keys_ok_def thread_tables_def sample_thread_def)
  have ins: "insert_parts (part_rows (table_message ''hi'')) (thread_tables\<lparr>db_messages :=
      [(table_message ''hi'')\<lparr>msg_parts := []\<rparr>]\<rparr>) = ?db1"
    by (simp add: insert_parts_def parts sql_insert_def thread_tables_def empty_database_def without_parts_def)
  have "db_messages thread_tables = []" by (simp add: thread_tables_def empty_database_def)
  moreover have "message_keys_ok (table_message ''hi'') thread_tables" by (rule keys) (simp_all add: table_message_def)
  ultimately obtain res db1 where create: "pg_message_create (table_message ''hi'') thread_tables = Inr (res, db1)"
    and db1: "db1 = ?db1"
    by (simp add: pg_message_create_def sql_insert_def ins Let_def)
  obtain x db2 where update: "pg_message_update (table_message ''edited'') db1 = Inr (x, db2)"
    by (simp add: db1 pg_message_update_def sql_update_def message_keys_ok_def thread_tables_def sample_thread_def
        without_parts_def table_message_def empty_database_def)
  have "edits (table_message ''edited'') (table_message ''hi'')" "msg_id (table_message ''edited'') = msg_id (table_message ''hi'')"
    "msg_id (table_message ''hi'') = ''m1''" by (simp_all add: edits_def table_message_def)
  then show ?thesis using durable_messages_roundtrip [OF mirror _ sound create _ _ sound update] create update by simp
qed

end
