(* ===== verification/Calendar.thy ===== *)
theory Calendar
  imports Prelude
begin

text \<open>
  The dates of Python's \<^verbatim>\<open>datetime\<close> module, as far as \<^verbatim>\<open>services/time_range.py\<close>, \<^verbatim>\<open>analytics/\<close> and
  \<^verbatim>\<open>services/business_state/\<close> use them: the proleptic Gregorian calendar of the years 1 to 9999,
  ordinals (1 January of year 1 is day 1), \<^verbatim>\<open>timedelta\<close> arithmetic with its overflow, ISO texts.
\<close>

section \<open>Dates and ordinals\<close>

record date =
  dt_year :: int
  dt_month :: int
  dt_day :: int

definition leap_year :: "int \<Rightarrow> bool" where
  "leap_year y = (y mod 4 = 0 \<and> (y mod 100 \<noteq> 0 \<or> y mod 400 = 0))"

text \<open>\<^verbatim>\<open>calendar.monthrange(y, m)[1]\<close>\<close>

definition month_length :: "int \<Rightarrow> int \<Rightarrow> int" where
  "month_length y m =
     (if m = 2 then (if leap_year y then 29 else 28)
      else if m = 4 \<or> m = 6 \<or> m = 9 \<or> m = 11 then 30 else 31)"

definition valid_date :: "date \<Rightarrow> bool" where
  "valid_date d = (1 \<le> dt_year d \<and> dt_year d \<le> 9999 \<and> 1 \<le> dt_month d \<and> dt_month d \<le> 12
     \<and> 1 \<le> dt_day d \<and> dt_day d \<le> month_length (dt_year d) (dt_month d))"

text \<open>The constructor, and \<^verbatim>\<open>replace\<close>, which builds a new date.\<close>

definition make_date :: "int \<Rightarrow> int \<Rightarrow> int \<Rightarrow> date result" where
  "make_date y m d =
     (let r = \<lparr>dt_year = y, dt_month = m, dt_day = d\<rparr> in
      if valid_date r then Inr r else Inl (ValueError ''date out of range''))"

definition days_before_year :: "int \<Rightarrow> int" where
  "days_before_year y = (let p = y - 1 in p * 365 + p div 4 - p div 100 + p div 400)"

definition days_before_month :: "int \<Rightarrow> int \<Rightarrow> int" where
  "days_before_month y m = (\<Sum>i \<leftarrow> [1..m - 1]. month_length y i)"

definition to_ordinal :: "date \<Rightarrow> int" where
  "to_ordinal d =
     days_before_year (dt_year d) + days_before_month (dt_year d) (dt_month d) + dt_day d"

definition max_ordinal :: int where "max_ordinal = 3652059"

text \<open>\<^verbatim>\<open>date.fromordinal\<close>: the year is found from a lower estimate, then the month.\<close>

function year_from :: "int \<Rightarrow> int \<Rightarrow> int" where
  "year_from n y =
     (if 9999 \<le> y \<or> n \<le> days_before_year (y + 1) then y else year_from n (y + 1))"
  by auto
termination by (relation "measure (\<lambda>(n, y). nat (9999 - y))") auto

function month_from :: "int \<Rightarrow> int \<Rightarrow> int \<Rightarrow> int" where
  "month_from y r m =
     (if 12 \<le> m \<or> r \<le> days_before_month y (m + 1) then m else month_from y r (m + 1))"
  by auto
termination by (relation "measure (\<lambda>(y, r, m). nat (12 - m))") auto

declare year_from.simps [simp del] month_from.simps [simp del]

definition from_ordinal :: "int \<Rightarrow> date" where
  "from_ordinal n =
     (let y = year_from n ((n - 1) div 366 + 1);
          r = n - days_before_year y;
          m = month_from y r 1
      in \<lparr>dt_year = y, dt_month = m, dt_day = r - days_before_month y m\<rparr>)"

text \<open>
  \<^verbatim>\<open>d + timedelta(days=n)\<close>. A duration of more than 999999999 days and a date outside the years 1
  to 9999 are both an \<^verbatim>\<open>OverflowError\<close>.
\<close>

definition add_days :: "date \<Rightarrow> int \<Rightarrow> date result" where
  "add_days d n =
     (let k = to_ordinal d + n in
      if \<bar>n\<bar> > 999999999 \<or> k < 1 \<or> max_ordinal < k
      then Inl (OverflowError ''date value out of range'') else Inr (from_ordinal k))"

text \<open>Monday is 0.\<close>

definition weekday :: "date \<Rightarrow> int" where
  "weekday d = (to_ordinal d + 6) mod 7"

section \<open>The calendar is a numbering of its days\<close>

lemma month_length_bounds [simp]: "28 \<le> month_length y m" "month_length y m \<le> 31"
  by (auto simp: month_length_def)

lemma days_before_month_1 [simp]: "days_before_month y 1 = 0"
  by (simp add: days_before_month_def)

lemma days_before_month_step:
  "1 \<le> m \<Longrightarrow> days_before_month y (m + 1) = days_before_month y m + month_length y m"
  by (simp add: days_before_month_def upto_rec2)

lemma days_before_month_13: "days_before_month y 13 = (if leap_year y then 366 else 365)"
  by (simp add: days_before_month_def month_length_def upto_rec1)

lemma div_step:
  fixes y k :: int
  assumes "0 < k" shows "y div k = (y - 1) div k + (if y mod k = 0 then 1 else 0)"
proof -
  have y: "y - 1 = (y mod k - 1) + y div k * k" by simp
  have "(y - 1) div k = (y mod k - 1) div k + y div k"
    by (subst y, subst div_mult_self1) (use assms in auto)
  moreover have "(y mod k - 1) div k = (if y mod k = 0 then -1 else 0)"
    using assms pos_mod_bound [OF assms, of y] pos_mod_sign [OF assms, of y]
    by (auto intro: div_pos_pos_trivial simp: div_eq_minus1)
  ultimately show ?thesis by simp
qed

lemma mod_multiple_0: "(y::int) mod (j * k) = 0 \<Longrightarrow> y mod k = 0"
  by (auto simp: mod_eq_0_iff_dvd intro: dvd_trans [OF dvd_triv_right])

lemma leap_count:
  fixes a b c y :: int
  assumes "a = a' + (if P then 1 else 0)" "b = b' + (if Q then 1 else 0)"
    "c = c' + (if R then 1 else 0)" "R \<Longrightarrow> Q" "Q \<Longrightarrow> P"
  shows "y * 365 + a - b + c
    = (y - 1) * 365 + a' - b' + c' + (if P \<and> (\<not> Q \<or> R) then 366 else 365)"
  using assms by auto

lemma days_before_year_step:
  "days_before_year (y + 1) = days_before_year y + days_before_month y 13"
  unfolding days_before_year_def days_before_month_13 leap_year_def Let_def add_diff_cancel_right'
proof (rule leap_count)
  show "y mod 400 = 0 \<Longrightarrow> y mod 100 = 0" using mod_multiple_0 [of y 4 100] by simp
  show "y mod 100 = 0 \<Longrightarrow> y mod 4 = 0" using mod_multiple_0 [of y 25 4] by simp
qed (rule div_step, simp)+

lemma days_before_month_mono:
  assumes "1 \<le> m" "m \<le> k" shows "days_before_month y m \<le> days_before_month y k"
  using assms(2)
proof (induction k rule: int_ge_induct)
  case (step i)
  moreover have "0 \<le> month_length y i" by (rule order_trans [OF _ month_length_bounds(1)]) simp
  ultimately show ?case using assms(1) by (simp add: days_before_month_step)
qed simp

lemma days_before_month_pos: "1 \<le> m \<Longrightarrow> 0 \<le> days_before_month y m"
  using days_before_month_mono [of 1 m y] by simp

lemma days_before_year_mono: "x \<le> y \<Longrightarrow> days_before_year x \<le> days_before_year y"
proof (induction y rule: int_ge_induct)
  case (step i) then show ?case by (simp add: days_before_year_step days_before_month_13)
qed simp

text \<open>The day within its month, and the month within its year.\<close>

lemma day_in_month:
  assumes "valid_date d"
  shows "days_before_month (dt_year d) (dt_month d) < days_before_month (dt_year d) (dt_month d) + dt_day d"
    and "days_before_month (dt_year d) (dt_month d) + dt_day d
           \<le> days_before_month (dt_year d) (dt_month d + 1)"
    and "days_before_month (dt_year d) (dt_month d + 1) \<le> days_before_month (dt_year d) 13"
  using assms days_before_month_step [of "dt_month d" "dt_year d"]
    days_before_month_mono [of "dt_month d + 1" 13 "dt_year d"]
  by (auto simp: valid_date_def)

lemma day_in_year:
  assumes "valid_date d"
  shows "days_before_year (dt_year d) < to_ordinal d"
    and "to_ordinal d \<le> days_before_year (dt_year d + 1)"
  using day_in_month [OF assms] days_before_month_pos [of "dt_month d" "dt_year d"] assms
  by (auto simp: to_ordinal_def days_before_year_step valid_date_def)

lemma days_before_year_end [simp]: "days_before_year 1 = 0" "days_before_year 10000 = max_ordinal"
  by (simp_all add: days_before_year_def max_ordinal_def)

lemma ordinal_range:
  assumes "valid_date d" shows "1 \<le> to_ordinal d" and "to_ordinal d \<le> max_ordinal"
  using day_in_year [OF assms] assms days_before_year_mono [of 1 "dt_year d"]
    days_before_year_mono [of "dt_year d + 1" 10000]
  by (auto simp: valid_date_def)

lemma to_ordinal_less_year:
  assumes "valid_date d" "valid_date e" "dt_year d < dt_year e" shows "to_ordinal d < to_ordinal e"
  using day_in_year [OF assms(1)] day_in_year [OF assms(2)]
    days_before_year_mono [of "dt_year d + 1" "dt_year e"] assms(3) by simp

lemma to_ordinal_less_month:
  assumes "valid_date d" "valid_date e" "dt_year d = dt_year e" "dt_month d < dt_month e"
  shows "to_ordinal d < to_ordinal e"
  using day_in_month [OF assms(1)] day_in_month [OF assms(2)] assms
    days_before_month_mono [of "dt_month d + 1" "dt_month e" "dt_year e"]
  by (simp add: to_ordinal_def valid_date_def)

text \<open>Dates are ordered by year, month and day, and so are their ordinals.\<close>

definition date_key :: "date \<Rightarrow> int \<times> int \<times> int" where
  "date_key d = (dt_year d, dt_month d, dt_day d)"

lemma date_key_eq [simp]: "(date_key d = date_key e) = (d = e)"
  by (cases d, cases e) (simp add: date_key_def)

lemma to_ordinal_less:
  assumes "valid_date d" "valid_date e"
  shows "to_ordinal d < to_ordinal e \<longleftrightarrow> date_key d < date_key e"
proof -
  consider "dt_year d < dt_year e" | "dt_year e < dt_year d"
    | "dt_year d = dt_year e" "dt_month d < dt_month e"
    | "dt_year d = dt_year e" "dt_month e < dt_month d"
    | "dt_year d = dt_year e" "dt_month d = dt_month e" by linarith
  then show ?thesis
  proof cases
    case 1 then show ?thesis using to_ordinal_less_year [OF assms] by (simp add: date_key_def)
  next
    case 2 then show ?thesis using to_ordinal_less_year [OF assms(2,1)] by (simp add: date_key_def)
  next
    case 3 then show ?thesis using to_ordinal_less_month [OF assms] by (simp add: date_key_def)
  next
    case 4 then show ?thesis using to_ordinal_less_month [OF assms(2,1)] by (simp add: date_key_def)
  next
    case 5 then show ?thesis by (simp add: date_key_def to_ordinal_def)
  qed
qed

lemma to_ordinal_eq:
  assumes "valid_date d" "valid_date e" shows "to_ordinal d = to_ordinal e \<longleftrightarrow> d = e"
  using to_ordinal_less [OF assms] to_ordinal_less [OF assms(2,1)]
  by (metis date_key_eq linorder_neq_iff)

text \<open>The searches of \<open>from_ordinal\<close>.\<close>

lemma year_from_spec:
  assumes "y \<le> 9999" "days_before_year y < n" "n \<le> max_ordinal"
  shows "y \<le> year_from n y \<and> year_from n y \<le> 9999 \<and> days_before_year (year_from n y) < n
    \<and> n \<le> days_before_year (year_from n y + 1)"
  using assms
proof (induction n y rule: year_from.induct)
  case (1 n y)
  show ?case
  proof (cases "9999 \<le> y \<or> n \<le> days_before_year (y + 1)")
    case True
    then show ?thesis using 1(2-4) days_before_year_end(2)
      by (subst year_from.simps, subst (2) year_from.simps, subst (3) year_from.simps,
          subst (4) year_from.simps) auto
  next
    case False
    then have "year_from n y = year_from n (y + 1)" by (subst year_from.simps) simp
    then show ?thesis using 1(1) [OF False] False 1(2,4) by simp
  qed
qed

lemma month_from_spec:
  assumes "1 \<le> m" "m \<le> 12" "days_before_month y m < r" "r \<le> days_before_month y 13"
  shows "m \<le> month_from y r m \<and> month_from y r m \<le> 12 \<and> days_before_month y (month_from y r m) < r
    \<and> r \<le> days_before_month y (month_from y r m + 1)"
  using assms
proof (induction y r m rule: month_from.induct)
  case (1 y r m)
  show ?case
  proof (cases "12 \<le> m \<or> r \<le> days_before_month y (m + 1)")
    case True
    then have "month_from y r m = m" by (subst month_from.simps) simp
    moreover have "r \<le> days_before_month y (m + 1)"
      using True 1(3,5) by (cases "m = 12") auto
    ultimately show ?thesis using 1(2-5) by simp
  next
    case False
    then have "month_from y r m = month_from y r (m + 1)" by (subst month_from.simps) simp
    then show ?thesis using 1(1) [OF False] False 1(2,5) by simp
  qed
qed

lemma year_estimate:
  assumes "1 \<le> n" "n \<le> max_ordinal"
  shows "1 \<le> (n - 1) div 366 + 1 \<and> (n - 1) div 366 + 1 \<le> 9999
    \<and> days_before_year ((n - 1) div 366 + 1) < n"
proof -
  let ?q = "(n - 1) div 366"
  have q: "0 \<le> ?q" "?q * 366 \<le> n - 1" using assms(1) by (simp_all add: pos_imp_zdiv_nonneg_iff)
  have "n - 1 < 9999 * 366" using assms(2) by (simp add: max_ordinal_def)
  then have "?q < 9999" by (simp add: div_less_iff_less_mult)
  moreover have "?q div 4 + ?q div 400 \<le> ?q + ?q div 100"
  proof -
    have "?q div 4 \<le> ?q" "?q div 400 \<le> ?q div 100"
      using q(1) by (simp_all add: zdiv_mono2)
    then show ?thesis by linarith
  qed
  then have "days_before_year (?q + 1) \<le> ?q * 366"
    by (simp add: days_before_year_def Let_def)
  ultimately show ?thesis using q by simp
qed

lemma from_ordinal_spec:
  assumes "1 \<le> n" "n \<le> max_ordinal"
  shows "valid_date (from_ordinal n) \<and> to_ordinal (from_ordinal n) = n"
proof -
  let ?y = "year_from n ((n - 1) div 366 + 1)"
  let ?r = "n - days_before_year ?y" and ?m = "month_from ?y (n - days_before_year ?y) 1"
  have y: "1 \<le> ?y" "?y \<le> 9999" "days_before_year ?y < n" "n \<le> days_before_year (?y + 1)"
    using year_from_spec [of "(n - 1) div 366 + 1" n] year_estimate [OF assms] assms(2) by auto
  then have m: "1 \<le> ?m" "?m \<le> 12" "days_before_month ?y ?m < ?r"
    "?r \<le> days_before_month ?y (?m + 1)"
    using month_from_spec [of 1 ?y ?r] by (auto simp: days_before_year_step)
  then show ?thesis
    using y days_before_month_step [OF m(1), of ?y]
    by (auto simp: valid_date_def from_ordinal_def to_ordinal_def Let_def)
qed

text \<open>Ordinals number the dates: conversion back and forth is the identity.\<close>

lemma from_to_ordinal: "valid_date d \<Longrightarrow> from_ordinal (to_ordinal d) = d"
  using from_ordinal_spec [OF ordinal_range] to_ordinal_eq by blast

lemma add_days_Inr:
  "add_days d n = Inr e \<Longrightarrow> valid_date e \<and> to_ordinal e = to_ordinal d + n"
  using from_ordinal_spec [of "to_ordinal d + n"]
  by (auto simp: add_days_def Let_def split: if_splits)

lemma add_days_ok:
  "1 \<le> to_ordinal d + n \<Longrightarrow> to_ordinal d + n \<le> max_ordinal \<Longrightarrow> valid_date d
    \<Longrightarrow> \<exists>e. add_days d n = Inr e"
  using ordinal_range [of d] by (auto simp: add_days_def Let_def max_ordinal_def)

section \<open>ISO texts\<close>

text \<open>\<^verbatim>\<open>date.isoformat\<close>: decimal digits, padded with zeros to four, two and two.\<close>

definition digit_at :: "int \<Rightarrow> nat \<Rightarrow> char" where
  "digit_at n k = digit_char (nat (n div 10 ^ k mod 10))"

definition padded :: "nat \<Rightarrow> int \<Rightarrow> string" where
  "padded w n = map (digit_at n) (rev [0..<w])"

definition isoformat :: "date \<Rightarrow> string" where
  "isoformat d = padded 4 (dt_year d) @ ''-'' @ padded 2 (dt_month d) @ ''-'' @ padded 2 (dt_day d)"

text \<open>
  \<^verbatim>\<open>date.fromisoformat\<close>: the calendar formats YYYY-MM-DD and YYYYMMDD and the week formats YYYY-Www,
  YYYYWww, YYYY-Www-D and YYYYWwwD.
\<close>

definition digit_value :: "char \<Rightarrow> int option" where
  "digit_value c = (let n = (of_char c :: nat) in
     if 48 \<le> n \<and> n \<le> 57 then Some (int n - 48) else None)"

fun digits_value :: "int \<Rightarrow> string \<Rightarrow> int option" where
  "digits_value acc [] = Some acc"
| "digits_value acc (c # cs) =
     (case digit_value c of None \<Rightarrow> None | Some v \<Rightarrow> digits_value (10 * acc + v) cs)"

definition number_of :: "string \<Rightarrow> int option" where
  "number_of s = (if s = [] then None else digits_value 0 s)"

definition bad_iso :: "date result" where
  "bad_iso = Inl (ValueError ''Invalid isoformat string'')"

definition calendar_text :: "string \<Rightarrow> string \<Rightarrow> string \<Rightarrow> date result" where
  "calendar_text y m d =
     (case (number_of y, number_of m, number_of d) of
        (Some y', Some m', Some d') \<Rightarrow> make_date y' m' d'
      | _ \<Rightarrow> bad_iso)"

text \<open>The Monday of the first ISO week of a year, as an ordinal.\<close>

definition iso_week1_monday :: "int \<Rightarrow> int" where
  "iso_week1_monday y =
     (let first = days_before_year y + 1; wd = (first + 6) mod 7; monday = first - wd
      in if wd > 3 then monday + 7 else monday)"

definition long_iso_year :: "int \<Rightarrow> bool" where
  "long_iso_year y = (let wd = days_before_year y mod 7 in wd = 3 \<or> (wd = 2 \<and> leap_year y))"

definition week_text :: "string \<Rightarrow> string \<Rightarrow> string \<Rightarrow> date result" where
  "week_text y w d =
     (case (number_of y, number_of w, number_of d) of
        (Some y', Some w', Some d') \<Rightarrow>
          if y' < 1 \<or> w' < 1 \<or> w' > 53 \<or> (w' = 53 \<and> \<not> long_iso_year y') \<or> d' < 1 \<or> d' > 7
          then bad_iso
          else (let n = iso_week1_monday y' + (w' - 1) * 7 + d' - 1 in
                if n < 1 \<or> max_ordinal < n then bad_iso else Inr (from_ordinal n))
      | _ \<Rightarrow> bad_iso)"

definition slice :: "nat \<Rightarrow> nat \<Rightarrow> string \<Rightarrow> string" where
  "slice i j s = take (j - i) (drop i s)"

definition fromisoformat :: "string \<Rightarrow> date result" where
  "fromisoformat s =
     (let y = take 4 s; n = length s in
      if n = 10 \<and> s ! 4 = CHR ''-'' \<and> s ! 5 = CHR ''W'' \<and> s ! 8 = CHR ''-''
      then week_text y (slice 6 8 s) (drop 9 s)
      else if n = 10 \<and> s ! 4 = CHR ''-'' \<and> s ! 7 = CHR ''-''
      then calendar_text y (slice 5 7 s) (drop 8 s)
      else if n = 8 \<and> s ! 4 = CHR ''-'' \<and> s ! 5 = CHR ''W'' then week_text y (drop 6 s) ''1''
      else if n = 8 \<and> s ! 4 = CHR ''W'' then week_text y (slice 5 7 s) (drop 7 s)
      else if n = 8 then calendar_text y (slice 4 6 s) (drop 6 s)
      else if n = 7 \<and> s ! 4 = CHR ''W'' then week_text y (drop 5 s) ''1''
      else bad_iso)"

lemma length_padded [simp]: "length (padded w n) = w"
  by (simp add: padded_def)

lemma digit_at_range: "0 \<le> n div 10 ^ k mod 10 \<and> n div 10 ^ k mod 10 < (10::int)"
  by simp

lemma digit_value_digit_at [simp]: "digit_value (digit_at n k) = Some (n div 10 ^ k mod 10)"
proof -
  let ?v = "n div 10 ^ k mod 10"
  have "nat ?v < 10" by simp
  then have "(of_char (digit_at n k) :: nat) = 48 + nat ?v"
    by (simp add: digit_at_def digit_char_def)
  then show ?thesis using \<open>nat ?v < 10\<close> by (simp add: digit_value_def Let_def)
qed

lemma padded_0 [simp]: "padded 0 n = []"
  by (simp add: padded_def)

lemma padded_Suc [simp]: "padded (Suc w) n = digit_at n w # padded w n"
  by (simp add: padded_def)

lemma digits_value_padded:
  "digits_value acc (padded w n) = Some (acc * 10 ^ w + n mod 10 ^ w)"
proof (induction w arbitrary: acc)
  case 0 show ?case by simp
next
  case (Suc w)
  have "n mod 10 ^ Suc w = (n div 10 ^ w mod 10) * 10 ^ w + n mod 10 ^ w"
    by (metis add.commute mod_mult2_eq' mult.commute power_Suc zmod_zmult2_eq zero_le_numeral zero_le_power)
  then show ?case by (simp add: Suc.IH algebra_simps)
qed

lemma number_of_padded:
  "0 \<le> n \<Longrightarrow> n < 10 ^ w \<Longrightarrow> 0 < w \<Longrightarrow> number_of (padded w n) = Some n"
  by (cases w) (simp_all only: number_of_def digits_value_padded, auto)

lemma length_isoformat [simp]: "length (isoformat d) = 10"
  by (simp add: isoformat_def)

text \<open>Parsing the text of a date gives the date back.\<close>

lemma fromisoformat_isoformat:
  assumes "valid_date d" shows "fromisoformat (isoformat d) = Inr d"
proof -
  have b: "dt_day d \<le> 31"
    using assms month_length_bounds(2) by (auto simp: valid_date_def intro: order_trans)
  have "digit_value CHR ''W'' = None" by (simp add: digit_value_def)
  then have W: "CHR ''W'' \<noteq> digit_at n k" for n k
    using digit_value_digit_at [of n k] by (metis option.distinct(1))
  have l: "isoformat d = padded 4 (dt_year d) @ CHR ''-'' # padded 2 (dt_month d) @ CHR ''-'' # padded 2 (dt_day d)"
    by (simp add: isoformat_def)
  have "number_of (padded 4 (dt_year d)) = Some (dt_year d)"
    "number_of (padded 2 (dt_month d)) = Some (dt_month d)"
    "number_of (padded 2 (dt_day d)) = Some (dt_day d)"
    using assms b by (simp_all add: number_of_padded valid_date_def)
  moreover have "fromisoformat (isoformat d)
      = calendar_text (padded 4 (dt_year d)) (padded 2 (dt_month d)) (padded 2 (dt_day d))"
    using W [of "dt_month d" 1]
    by (auto simp: fromisoformat_def l nth_append slice_def numeral_eq_Suc)
  ultimately show ?thesis
    using assms by (cases d) (simp add: calendar_text_def make_date_def)
qed

text \<open>The texts are ordered as the dates are: equal lengths, the most significant digit first.\<close>

lemma digit_at_less:
  "digit_at m k < digit_at n k \<longleftrightarrow> m div 10 ^ k mod 10 < (n div 10 ^ k mod 10 :: int)"
proof -
  have "nat (m div 10 ^ k mod 10) < 10" "nat (n div 10 ^ k mod 10) < 10" by simp_all
  then have "(of_char (digit_at m k) :: nat) < of_char (digit_at n k)
      \<longleftrightarrow> nat (m div 10 ^ k mod 10) < nat (n div 10 ^ k mod 10)"
    by (simp add: digit_at_def digit_char_def)
  moreover have "0 \<le> m div 10 ^ k mod 10" by simp
  ultimately show ?thesis by (simp only: less_char_def nat_less_eq_zless)
qed

lemma digit_at_eq:
  "digit_at m k = digit_at n k \<longleftrightarrow> m div 10 ^ k mod 10 = (n div 10 ^ k mod 10 :: int)"
  using digit_at_less [of m k n] digit_at_less [of n k m] by (metis linorder_neq_iff)

lemma append_less_same_length:
  fixes u v :: "'a::linorder list"
  assumes "length u = length v"
  shows "u @ s < v @ t \<longleftrightarrow> u < v \<or> (u = v \<and> s < t)"
  using assms by (induction u v rule: list_induct2) auto

lemma mod_power_step:
  "(n::int) mod 10 ^ Suc w = (n div 10 ^ w mod 10) * 10 ^ w + n mod 10 ^ w"
  by (metis add.commute mult.commute power_Suc zmod_zmult2_eq zero_le_numeral zero_le_power)

lemma place_value_less:
  fixes a b p x y :: int
  assumes "0 \<le> x" "x < p" "0 \<le> y" "y < p" "a < b"
  shows "a * p + x < b * p + y"
proof -
  have "(a + 1) * p \<le> b * p" using assms by (intro mult_right_mono) auto
  then show ?thesis using assms by (simp add: algebra_simps)
qed

lemma padded_less:
  "padded w m < padded w n \<longleftrightarrow> m mod 10 ^ w < n mod (10 ^ w :: int)"
proof (induction w)
  case (Suc w)
  let ?a = "m div 10 ^ w mod 10" and ?b = "n div 10 ^ w mod 10"
  have r: "0 \<le> x mod 10 ^ w" "x mod 10 ^ w < 10 ^ w" for x :: int by simp_all
  show ?case
  proof (cases "?a = ?b")
    case True
    then show ?thesis
      by (simp add: Suc.IH digit_at_less digit_at_eq mod_power_step del: power_Suc)
  next
    case False
    then have "?a < ?b \<longleftrightarrow> ?a * 10 ^ w + m mod 10 ^ w < ?b * 10 ^ w + n mod 10 ^ w"
      using place_value_less [OF r [of m] r [of n], of ?a ?b]
        place_value_less [OF r [of n] r [of m], of ?b ?a] by (meson less_asym linorder_neqE)
    then show ?thesis
      using False by (simp add: digit_at_less digit_at_eq mod_power_step del: power_Suc)
  qed
qed simp

lemma padded_less_iff:
  "0 \<le> m \<Longrightarrow> m < 10 ^ w \<Longrightarrow> 0 \<le> n \<Longrightarrow> n < 10 ^ w \<Longrightarrow> padded w m < padded w n \<longleftrightarrow> m < n"
  "0 \<le> m \<Longrightarrow> m < 10 ^ w \<Longrightarrow> 0 \<le> n \<Longrightarrow> n < 10 ^ w \<Longrightarrow> padded w m = padded w n \<longleftrightarrow> m = n"
  using padded_less [of w m n] padded_less [of w n m]
  by (auto simp: linorder_neq_iff [of "padded w m"] linorder_neq_iff [of m])

lemma isoformat_less:
  assumes "valid_date d" "valid_date e"
  shows "isoformat d < isoformat e \<longleftrightarrow> to_ordinal d < to_ordinal e"
proof -
  have b: "dt_day x \<le> 31" if "valid_date x" for x
    using that month_length_bounds(2) by (auto simp: valid_date_def intro: order_trans)
  have r: "0 \<le> dt_year x" "dt_year x < 10 ^ 4" "0 \<le> dt_month x" "dt_month x < 10 ^ 2"
    "0 \<le> dt_day x" "dt_day x < 10 ^ 2" if "valid_date x" for x
    using b [OF that] that by (simp_all add: valid_date_def)
  show ?thesis
    using r [OF assms(1)] r [OF assms(2)]
    by (auto simp: to_ordinal_less [OF assms] date_key_def isoformat_def append_less_same_length
        padded_less_iff simp del: padded_Suc)
qed

end
