(* ===== verification/Time_Range.thy ===== *)
theory Time_Range
  imports Calendar
begin

text \<open>
  The time windows of \<^verbatim>\<open>services/time_range.py\<close>: \<^verbatim>\<open>TimeRangeV1\<close> of \<^verbatim>\<open>contracts/lookup.py\<close> and its
  resolution to concrete dates. The date of today in a time zone is an argument (\<^verbatim>\<open>zoneinfo\<close> and the
  clock); texts are ASCII, so the digits a pattern accepts are 0 to 9.
\<close>

section \<open>Model\<close>

datatype range_kind = RangeAbsolute | RangeRelative | RangeComparison | RangeNone

record time_range =
  tr_kind :: range_kind
  tr_start :: "string option"
  tr_end :: "string option"
  tr_start_b :: "string option"
  tr_end_b :: "string option"
  tr_token :: "string option"

definition absolute_range :: "string \<Rightarrow> string \<Rightarrow> string option \<Rightarrow> time_range" where
  "absolute_range a b token = \<lparr>tr_kind = RangeAbsolute, tr_start = Some a, tr_end = Some b,
     tr_start_b = None, tr_end_b = None, tr_token = token\<rparr>"

text \<open>
  The wall clock: today in a named zone (None when the zone is unknown), and today in UTC.
\<close>

record wall_clock =
  today_in :: "string \<Rightarrow> date option"
  today_utc :: date

definition as_of_date :: "wall_clock \<Rightarrow> string option \<Rightarrow> string \<Rightarrow> date result" where
  "as_of_date clock as_of timezone =
     (case as_of of
        Some t \<Rightarrow> if t \<noteq> [] then fromisoformat (take 10 t)
                  else Inr (case today_in clock timezone of Some d \<Rightarrow> d | None \<Rightarrow> today_utc clock)
      | None \<Rightarrow> Inr (case today_in clock timezone of Some d \<Rightarrow> d | None \<Rightarrow> today_utc clock))"

definition sub_months :: "date \<Rightarrow> int \<Rightarrow> date result" where
  "sub_months anchor n =
     (let total = dt_year anchor * 12 + dt_month anchor - 1 - n;
          y = total div 12; m = total mod 12 + 1
      in make_date y m (min (dt_day anchor) (month_length y m)))"

definition month_range :: "int \<Rightarrow> int \<Rightarrow> (string \<times> string) result" where
  "month_range year month =
     result_bind (make_date year month 1) (\<lambda>a.
     result_bind (make_date year month (month_length year month)) (\<lambda>b.
     Inr (isoformat a, isoformat b)))"

datatype period_unit = UnitWeek | UnitMonth | UnitYear

definition period_vs_prior_tokens :: "(period_unit \<times> string) list" where
  "period_vs_prior_tokens = [(UnitWeek, ''this_week_vs_last_week''),
     (UnitMonth, ''this_month_vs_last_month''), (UnitYear, ''this_year_vs_last_year'')]"

fun period_vs_prior :: "date \<Rightarrow> period_unit \<Rightarrow> (date \<times> date \<times> date \<times> date) result" where
  "period_vs_prior anchor UnitWeek =
     result_bind (add_days anchor (- weekday anchor)) (\<lambda>a_start.
     result_bind (add_days a_start (- 7)) (\<lambda>b_start.
     result_bind (add_days anchor (- 7)) (\<lambda>b_end.
     Inr (a_start, anchor, b_start, b_end))))"
| "period_vs_prior anchor UnitMonth =
     result_bind (sub_months anchor 1) (\<lambda>prior.
     result_bind (make_date (dt_year anchor) (dt_month anchor) 1) (\<lambda>a_start.
     result_bind (make_date (dt_year prior) (dt_month prior) 1) (\<lambda>b_start.
     Inr (a_start, anchor, b_start, prior))))"
| "period_vs_prior anchor UnitYear =
     result_bind (sub_months anchor 12) (\<lambda>prior.
     result_bind (make_date (dt_year anchor) 1 1) (\<lambda>a_start.
     result_bind (make_date (dt_year prior) 1 1) (\<lambda>b_start.
     Inr (a_start, anchor, b_start, prior))))"

text \<open>
  \<^verbatim>\<open>re.fullmatch\<close> and its group; \<^verbatim>\<open>int\<close> refuses more than 4300 digits.
\<close>

definition last_count :: "char \<Rightarrow> string \<Rightarrow> string option" where
  "last_count unit token =
     (let digits = drop 5 (butlast token) in
      if str_startswith token ''last_'' \<and> last token = unit \<and> length token > 6
         \<and> list_all (\<lambda>c. digit_value c \<noteq> None) digits
      then Some digits else None)"

definition py_int :: "string \<Rightarrow> int result" where
  "py_int digits = (if length digits > 4300 then Inl (ValueError ''Exceeds the limit (4300 digits)'')
     else case number_of digits of Some n \<Rightarrow> Inr n | None \<Rightarrow> Inl (ValueError ''invalid literal''))"

text \<open>The window from a start that may not exist to the anchor.\<close>

definition window_to :: "date \<Rightarrow> string option \<Rightarrow> date result \<Rightarrow> time_range result" where
  "window_to anchor token r =
     result_bind r (\<lambda>start. Inr (absolute_range (isoformat start) (isoformat anchor) token))"

definition last_days :: "date \<Rightarrow> int \<Rightarrow> date result" where
  "last_days anchor k = (let n = max 1 (min k 90) in add_days anchor (- (n - 1)))"

definition relative_start :: "date \<Rightarrow> string \<Rightarrow> date result option" where
  "relative_start anchor token =
     (case last_count CHR ''d'' token of
        Some ds \<Rightarrow> Some (result_bind (py_int ds) (last_days anchor))
      | None \<Rightarrow> (case last_count CHR ''w'' token of
        Some ds \<Rightarrow> Some (result_bind (py_int ds) (\<lambda>n. add_days anchor (- (7 * n))))
      | None \<Rightarrow> (case last_count CHR ''m'' token of
        Some ds \<Rightarrow> Some (result_bind (py_int ds) (sub_months anchor))
      | None \<Rightarrow> (case last_count CHR ''q'' token of
        Some ds \<Rightarrow> Some (result_bind (py_int ds) (\<lambda>n. sub_months anchor (n * 3)))
      | None \<Rightarrow>
        if token = ''today'' then Some (Inr anchor)
        else if token = ''this_week'' then Some (add_days anchor (- weekday anchor))
        else if token = ''this_month'' then Some (make_date (dt_year anchor) (dt_month anchor) 1)
        else if token = ''this_year'' then Some (make_date (dt_year anchor) 1 1)
        else None))))"

definition resolve_relative :: "date \<Rightarrow> string option \<Rightarrow> time_range result" where
  "resolve_relative anchor token =
     (if \<not> str_truthy token then Inl (ValueError ''relative time_range requires a relative_token'')
      else case relative_start anchor (the token) of
        Some start \<Rightarrow> window_to anchor token start
      | None \<Rightarrow>
          if token = Some ''yesterday''
          then result_bind (add_days anchor (- 1)) (\<lambda>day.
                 Inr (absolute_range (isoformat day) (isoformat day) token))
          else Inl (ValueError ''unrecognized relative_token''))"

definition unit_of_token :: "string option \<Rightarrow> period_unit option" where
  "unit_of_token token = map_option fst (find (\<lambda>(u, t). token = Some t) period_vs_prior_tokens)"

text \<open>The two periods of a comparison, from its token or as they were given.\<close>

definition comparison_dates ::
  "date \<Rightarrow> time_range \<Rightarrow> (string option \<times> string option \<times> string option \<times> string option) result" where
  "comparison_dates anchor t =
     (if tr_token t = Some ''yesterday_vs_as_of''
      then result_bind (add_days anchor (- 1)) (\<lambda>y.
             Inr (Some (isoformat y), Some (isoformat y), Some (isoformat anchor), Some (isoformat anchor)))
      else case unit_of_token (tr_token t) of
        Some u \<Rightarrow> result_bind (period_vs_prior anchor u) (\<lambda>(a1, a2, b1, b2).
             Inr (Some (isoformat a1), Some (isoformat a2), Some (isoformat b1), Some (isoformat b2)))
      | None \<Rightarrow> Inr (tr_start t, tr_end t, tr_start_b t, tr_end_b t))"

definition resolve_comparison :: "date \<Rightarrow> time_range \<Rightarrow> time_range result" where
  "resolve_comparison anchor t =
     result_bind (comparison_dates anchor t) (\<lambda>(a1, a2, b1, b2).
       if \<not> str_truthy a1 \<or> \<not> str_truthy a2
       then Inl (ValueError ''comparison needs two dated periods'')
       else let both = str_truthy b1 \<and> str_truthy b2 in
         Inr \<lparr>tr_kind = RangeComparison, tr_start = map_option (take 10) a1,
              tr_end = map_option (take 10) a2,
              tr_start_b = (if both then map_option (take 10) b1 else None),
              tr_end_b = (if both then map_option (take 10) b2 else None),
              tr_token = tr_token t\<rparr>)"

definition resolve_time_range ::
  "wall_clock \<Rightarrow> time_range \<Rightarrow> string \<Rightarrow> string option \<Rightarrow> time_range result" where
  "resolve_time_range clock t timezone as_of =
     result_bind (as_of_date clock as_of timezone) (\<lambda>anchor.
       if tr_kind t = RangeAbsolute \<and> str_truthy (tr_start t)
       then let day = take 10 (the (tr_start t)) in
         Inr (absolute_range day (if str_truthy (tr_end t) then take 10 (the (tr_end t)) else day) None)
       else case tr_kind t of
         RangeRelative \<Rightarrow> resolve_relative anchor (tr_token t)
       | RangeComparison \<Rightarrow> resolve_comparison anchor t
       | _ \<Rightarrow> Inr t)"

section \<open>Months\<close>

definition month_index :: "date \<Rightarrow> int" where
  "month_index d = dt_year d * 12 + dt_month d - 1"

lemma make_date_Inr:
  "make_date y m d = Inr r \<longleftrightarrow> r = \<lparr>dt_year = y, dt_month = m, dt_day = d\<rparr> \<and> valid_date r"
  by (auto simp: make_date_def Let_def)

text \<open>
  Going back by months changes the month by exactly that number, keeps the day unless the month is
  too short, and then takes its last day.
\<close>

lemma sub_months_Inr:
  assumes "sub_months d n = Inr e"
  shows "valid_date e" and "month_index e = month_index d - n"
    and "dt_day e = min (dt_day d) (month_length (dt_year e) (dt_month e))"
  using assms by (auto simp: sub_months_def Let_def make_date_Inr month_index_def)

lemma month_index_less:
  assumes "valid_date d" "valid_date e" "month_index d < month_index e"
  shows "to_ordinal d < to_ordinal e"
proof -
  have "dt_year d < dt_year e \<or> (dt_year d = dt_year e \<and> dt_month d < dt_month e)"
    using assms by (auto simp: month_index_def valid_date_def)
  then show ?thesis by (auto simp: to_ordinal_less [OF assms(1,2)] date_key_def)
qed

lemma sub_months_before:
  "valid_date d \<Longrightarrow> sub_months d n = Inr e \<Longrightarrow> 0 < n \<Longrightarrow> to_ordinal e < to_ordinal d"
  using sub_months_Inr [of d n e] month_index_less [of e d] by simp

lemma month_split:
  assumes "1 \<le> m" "m \<le> (12::int)"
  shows "(y * 12 + m - 1) div 12 = y" "(y * 12 + m - 1) mod 12 = m - 1"
  using assms by presburger+

lemma sub_months_0: "valid_date d \<Longrightarrow> sub_months d 0 = Inr d"
  by (cases d) (simp add: sub_months_def Let_def make_date_def valid_date_def month_split)

lemma sub_months_not_after:
  "valid_date d \<Longrightarrow> sub_months d n = Inr e \<Longrightarrow> 0 \<le> n \<Longrightarrow> to_ordinal e \<le> to_ordinal d"
  using sub_months_before [of d n e] sub_months_0 [of d] by (cases "n = 0") auto

text \<open>Nothing is lost in the calendar: the date exists unless the year would leave 1 to 9999.\<close>

lemma sub_months_defined:
  assumes "valid_date d" "12 \<le> month_index d - n" "0 \<le> n"
  shows "\<exists>e. sub_months d n = Inr e"
proof -
  let ?t = "month_index d - n"
  have "?t \<le> 9999 * 12 + 11" using assms by (auto simp: month_index_def valid_date_def)
  then have "1 \<le> ?t div 12 \<and> ?t div 12 \<le> 9999" using assms(2) by linarith
  moreover have "1 \<le> min (dt_day d) (month_length y m)" for y m
    using assms(1) order_trans [OF _ month_length_bounds(1), of 1 y m]
    by (simp add: valid_date_def)
  ultimately show ?thesis
    by (auto simp: sub_months_def make_date_def valid_date_def month_index_def Let_def)
qed

text \<open>The first day of the month and of the year of a date.\<close>

lemma first_of_month:
  assumes "valid_date d" "make_date (dt_year d) (dt_month d) 1 = Inr e"
  shows "valid_date e" "to_ordinal e = to_ordinal d - (dt_day d - 1)" "to_ordinal e \<le> to_ordinal d"
    "month_index e = month_index d"
  using assms by (auto simp: make_date_Inr to_ordinal_def month_index_def valid_date_def)

lemma first_of_year:
  assumes "valid_date d" "make_date (dt_year d) 1 1 = Inr e"
  shows "valid_date e" "to_ordinal e \<le> to_ordinal d" "month_index e = dt_year d * 12"
  using assms day_in_year [OF assms(1)] by (auto simp: make_date_Inr to_ordinal_def month_index_def)

section \<open>Windows\<close>

text \<open>A window between two existing dates, and the number of days it covers.\<close>

definition spans :: "time_range \<Rightarrow> date \<Rightarrow> date \<Rightarrow> bool" where
  "spans w a b = (tr_kind w = RangeAbsolute \<and> tr_start w = Some (isoformat a)
     \<and> tr_end w = Some (isoformat b) \<and> valid_date a \<and> valid_date b \<and> to_ordinal a \<le> to_ordinal b)"

definition window_days :: "date \<Rightarrow> date \<Rightarrow> int" where
  "window_days a b = to_ordinal b - to_ordinal a + 1"

lemma weekday_range: "0 \<le> weekday d" "weekday d \<le> 6"
  by (simp_all add: weekday_def)

lemma monday_of_week:
  "add_days d (- weekday d) = Inr e \<Longrightarrow> valid_date e \<and> to_ordinal e \<le> to_ordinal d
    \<and> to_ordinal d - 6 \<le> to_ordinal e \<and> weekday e = 0"
proof -
  assume "add_days d (- weekday d) = Inr e"
  then have e: "valid_date e" "to_ordinal e = to_ordinal d - weekday d"
    using add_days_Inr by fastforce+
  moreover have "weekday e = 0"
    unfolding weekday_def e(2) by presburger
  ultimately show ?thesis using weekday_range [of d] by simp
qed

lemma py_int_nonneg: "py_int ds = Inr n \<Longrightarrow> list_all (\<lambda>c. digit_value c \<noteq> None) ds \<Longrightarrow> 0 \<le> n"
proof -
  have "digits_value acc ds = Some v \<Longrightarrow> 0 \<le> acc \<Longrightarrow> 0 \<le> v" for acc v
  proof (induction ds arbitrary: acc)
    case (Cons c ds)
    have "digit_value c = Some x \<Longrightarrow> 0 \<le> x" for x
      by (auto simp: digit_value_def Let_def split: if_splits)
    then show ?case using Cons by (auto split: option.splits)
  qed simp
  moreover assume "py_int ds = Inr n"
  ultimately show "0 \<le> n"
    by (auto simp: py_int_def number_of_def split: if_splits option.splits)
qed

lemma last_count_digits:
  "last_count u token = Some ds \<Longrightarrow> list_all (\<lambda>c. digit_value c \<noteq> None) ds"
  by (auto simp: last_count_def Let_def split: if_splits)

lemma relative_start_spec:
  assumes "relative_start anchor token = Some (Inr a)" "valid_date anchor"
  shows "valid_date a \<and> to_ordinal a \<le> to_ordinal anchor"
proof -
  consider ds n where "last_count CHR ''d'' token = Some ds" "py_int ds = Inr n" "last_days anchor n = Inr a"
    | ds n where "last_count CHR ''w'' token = Some ds" "py_int ds = Inr n" "add_days anchor (- (7 * n)) = Inr a"
    | ds n k where "py_int ds = Inr n" "list_all (\<lambda>c. digit_value c \<noteq> None) ds" "0 < k"
        "sub_months anchor (n * k) = Inr a"
    | "a = anchor" | "add_days anchor (- weekday anchor) = Inr a"
    | "make_date (dt_year anchor) (dt_month anchor) 1 = Inr a" | "make_date (dt_year anchor) 1 1 = Inr a"
    using assms(1) last_count_digits
    by (auto simp: relative_start_def result_bind_Inr split: option.splits if_splits)
      (metis mult.right_neutral zero_less_numeral zero_less_one last_count_digits)+
  then show ?thesis
  proof cases
    case 1 then show ?thesis using add_days_Inr by (fastforce simp: last_days_def Let_def)
  next
    case 2 then show ?thesis
      using add_days_Inr [OF 2(3)] py_int_nonneg [OF 2(2) last_count_digits [OF 2(1)]] by simp
  next
    case (3 ds n k)
    then have "0 \<le> n * k" using py_int_nonneg by fastforce
    then show ?thesis using sub_months_Inr(1) [OF 3(4)] sub_months_not_after [OF assms(2) 3(4)] by simp
  next
    case 4 then show ?thesis using assms(2) by simp
  next
    case 5 then show ?thesis using monday_of_week by blast
  next
    case 6 then show ?thesis using first_of_month [OF assms(2)] by blast
  next
    case 7 then show ?thesis using first_of_year [OF assms(2)] by blast
  qed
qed

lemma last_days_window:
  assumes "last_days anchor k = Inr a"
  shows "valid_date a" "window_days a anchor = max 1 (min k 90)"
  using assms add_days_Inr by (fastforce simp: last_days_def Let_def window_days_def)+

lemma make_date_valid: "make_date y m d = Inr r \<Longrightarrow> valid_date r"
  using make_date_Inr by blast

lemma week_text_valid: "week_text y w d = Inr r \<Longrightarrow> valid_date r"
  using from_ordinal_spec
  by (auto simp: week_text_def bad_iso_def Let_def split: option.splits if_splits)

lemma calendar_text_valid: "calendar_text y m d = Inr r \<Longrightarrow> valid_date r"
  using make_date_valid by (auto simp: calendar_text_def bad_iso_def split: option.splits)

lemma fromisoformat_valid: "fromisoformat s = Inr d \<Longrightarrow> valid_date d"
  using week_text_valid calendar_text_valid
  by (auto simp: fromisoformat_def Let_def bad_iso_def split: if_splits)

definition clock_ok :: "wall_clock \<Rightarrow> bool" where
  "clock_ok c = (valid_date (today_utc c) \<and> (\<forall>z d. today_in c z = Some d \<longrightarrow> valid_date d))"

lemma as_of_date_valid: "clock_ok c \<Longrightarrow> as_of_date c as_of tz = Inr d \<Longrightarrow> valid_date d"
  using fromisoformat_valid by (auto simp: as_of_date_def clock_ok_def split: option.splits if_splits)

text \<open>The text of a date is a whole day: cutting it at ten characters changes nothing.\<close>

lemma take_isoformat [simp]: "take 10 (isoformat d) = isoformat d"
  by simp

lemma isoformat_not_empty [simp]: "isoformat d \<noteq> []"
  using length_isoformat [of d] by (metis list.size(3) zero_neq_numeral)

lemma resolve_relative_spans:
  assumes "resolve_relative anchor token = Inr w" "valid_date anchor"
  shows "\<exists>a b. spans w a b \<and> to_ordinal b \<le> to_ordinal anchor \<and> tr_token w = token
    \<and> (relative_start anchor (the token) = Some (Inr a) \<and> b = anchor
       \<or> token = Some ''yesterday'' \<and> a = b \<and> to_ordinal b = to_ordinal anchor - 1)"
proof (cases "relative_start anchor (the token)")
  case (Some r)
  then obtain a where "r = Inr a" "w = absolute_range (isoformat a) (isoformat anchor) token"
    using assms(1) by (auto simp: resolve_relative_def window_to_def result_bind_Inr split: if_splits)
  then show ?thesis
    using relative_start_spec [of anchor "the token" a] Some assms(2)
    by (auto simp: spans_def absolute_range_def)
next
  case None
  then obtain day where "add_days anchor (- 1) = Inr day" "token = Some ''yesterday''"
      "w = absolute_range (isoformat day) (isoformat day) token"
    using assms(1) by (auto simp: resolve_relative_def result_bind_Inr split: if_splits)
  then show ?thesis
    using add_days_Inr [of anchor "-1" day]
    by (intro exI [of _ day]) (simp add: spans_def absolute_range_def)
qed

lemma prior_week:
  assumes "valid_date anchor" "period_vs_prior anchor UnitWeek = Inr (a1, a2, b1, b2)"
  shows "a2 = anchor \<and> valid_date a1 \<and> valid_date b1 \<and> valid_date b2 \<and> to_ordinal a1 \<le> to_ordinal a2
    \<and> to_ordinal b1 \<le> to_ordinal b2 \<and> to_ordinal b2 < to_ordinal a1
    \<and> window_days b1 b2 = window_days a1 a2 \<and> weekday a1 = 0 \<and> weekday b1 = 0"
proof -
  from assms(2) have a: "add_days anchor (- weekday anchor) = Inr a1" "a2 = anchor"
    and b: "add_days a1 (- 7) = Inr b1" "add_days anchor (- 7) = Inr b2"
    by (auto simp: result_bind_Inr)
  note m = monday_of_week [OF a(1)] add_days_Inr [OF b(1)] add_days_Inr [OF b(2)]
  then have "to_ordinal b1 + 6 = to_ordinal a1 + 6 + - 1 * 7" by simp
  then have "weekday b1 = weekday a1" unfolding weekday_def by (simp only: mod_mult_self1)
  then show ?thesis using a(2) m by (auto simp: window_days_def)
qed

lemma prior_month:
  assumes "valid_date anchor" "period_vs_prior anchor UnitMonth = Inr (a1, a2, b1, b2)"
  shows "a2 = anchor \<and> valid_date a1 \<and> valid_date b1 \<and> valid_date b2 \<and> to_ordinal a1 \<le> to_ordinal a2
    \<and> to_ordinal b1 \<le> to_ordinal b2 \<and> to_ordinal b2 < to_ordinal a1
    \<and> window_days b1 b2 \<le> window_days a1 a2 \<and> dt_day a1 = 1 \<and> dt_day b1 = 1
    \<and> month_index b1 = month_index a1 - 1"
proof -
  from assms(2) have p: "sub_months anchor 1 = Inr b2" "a2 = anchor"
    and a: "make_date (dt_year anchor) (dt_month anchor) 1 = Inr a1"
    and b: "make_date (dt_year b2) (dt_month b2) 1 = Inr b1"
    by (auto simp: result_bind_Inr)
  note s = sub_months_Inr [OF p(1)]
  note f = first_of_month [OF assms(1) a] and g = first_of_month [OF s(1) b]
  have "dt_day a1 = 1" "dt_day b1 = 1" using a b by (auto simp: make_date_Inr)
  moreover have "to_ordinal b2 < to_ordinal a1"
    using month_index_less [OF s(1) f(1)] f(4) s(2) by simp
  moreover have "dt_day b2 \<le> dt_day anchor" by (simp add: s(3))
  ultimately show ?thesis using p(2) s f g by (simp add: window_days_def)
qed

lemma prior_year:
  assumes "valid_date anchor" "period_vs_prior anchor UnitYear = Inr (a1, a2, b1, b2)"
  shows "a2 = anchor \<and> valid_date a1 \<and> valid_date b1 \<and> valid_date b2 \<and> to_ordinal a1 \<le> to_ordinal a2
    \<and> to_ordinal b1 \<le> to_ordinal b2 \<and> to_ordinal b2 < to_ordinal a1
    \<and> dt_month b2 = dt_month anchor \<and> dt_year b2 = dt_year anchor - 1"
proof -
  from assms(2) have p: "sub_months anchor 12 = Inr b2" "a2 = anchor"
    and a: "make_date (dt_year anchor) 1 1 = Inr a1" and b: "make_date (dt_year b2) 1 1 = Inr b1"
    by (auto simp: result_bind_Inr)
  note s = sub_months_Inr [OF p(1)]
  note f = first_of_year [OF assms(1) a] and g = first_of_year [OF s(1) b]
  have "dt_year b2 * 12 + dt_month b2 = (dt_year anchor - 1) * 12 + dt_month anchor"
    using s(2) by (simp add: month_index_def algebra_simps)
  moreover have "1 \<le> dt_month b2" "dt_month b2 \<le> 12" "1 \<le> dt_month anchor" "dt_month anchor \<le> 12"
    using s(1) assms(1) by (auto simp: valid_date_def)
  ultimately have d: "dt_year b2 = dt_year anchor - 1 \<and> dt_month b2 = dt_month anchor" by presburger
  have "month_index b2 < dt_year anchor * 12"
    using d assms(1) by (simp add: month_index_def valid_date_def)
  then have "month_index b2 < month_index a1" by (simp only: f(3))
  then show ?thesis using month_index_less [OF s(1) f(1)] d p(2) s f g by simp
qed

section \<open>Properties\<close>

text \<open>
  A relative window that resolves is a whole window of existing dates in order that ends at the
  as-of date (the day before, for \<^verbatim>\<open>yesterday\<close>); last N days covers exactly N days, N kept between 1
  and 90.
\<close>

theorem relative_window_is_exact:
  assumes "clock_ok clock" "tr_kind t = RangeRelative"
    and "resolve_time_range clock t timezone as_of = Inr w"
  shows "\<exists>anchor a b. as_of_date clock as_of timezone = Inr anchor \<and> spans w a b
    \<and> tr_token w = tr_token t
    \<and> (if tr_token t = Some ''yesterday'' then a = b \<and> to_ordinal b = to_ordinal anchor - 1
       else b = anchor)
    \<and> (\<forall>ds n. last_count CHR ''d'' (the (tr_token t)) = Some ds \<longrightarrow> py_int ds = Inr n
         \<longrightarrow> window_days a b = max 1 (min n 90))"
proof -
  obtain anchor where an: "as_of_date clock as_of timezone = Inr anchor"
      and r: "resolve_relative anchor (tr_token t) = Inr w"
    using assms(2,3) by (auto simp: resolve_time_range_def result_bind_Inr)
  note v = as_of_date_valid [OF assms(1) an]
  obtain a b where ab: "spans w a b" "to_ordinal b \<le> to_ordinal anchor" "tr_token w = tr_token t"
    and c: "relative_start anchor (the (tr_token t)) = Some (Inr a) \<and> b = anchor
      \<or> tr_token t = Some ''yesterday'' \<and> a = b \<and> to_ordinal b = to_ordinal anchor - 1"
    using resolve_relative_spans [OF r v] by blast
  have y: "relative_start anchor ''yesterday'' = None" "last_count CHR ''d'' ''yesterday'' = None"
    by (simp_all add: relative_start_def last_count_def str_startswith_def)
  have "window_days a b = max 1 (min n 90)"
    if "last_count CHR ''d'' (the (tr_token t)) = Some ds" "py_int ds = Inr n" for ds n
    using c y that last_days_window [of anchor n a] by (auto simp: relative_start_def)
  then show ?thesis using an ab c y by (intro exI [of _ anchor] exI [of _ a] exI [of _ b]) auto
qed

text \<open>
  Resolution is stable: dates that were resolved once are not moved by resolving them again, at
  any later time and in any zone.
\<close>

theorem resolved_dates_are_stable:
  assumes "resolve_time_range clock t timezone as_of = Inr w" "tr_kind w = RangeAbsolute"
    and "str_truthy (tr_start w)"
  shows "resolve_time_range clock' w timezone' None = Inr (w\<lparr>tr_token := None\<rparr>)"
proof -
  have whole: "tr_start w = Some x \<and> tr_end w = Some y \<Longrightarrow> take 10 x = x \<Longrightarrow> take 10 y = y
      \<Longrightarrow> x \<noteq> [] \<Longrightarrow> y \<noteq> [] \<Longrightarrow> tr_start_b w = None \<Longrightarrow> tr_end_b w = None
      \<Longrightarrow> ?thesis" for x y
    using assms(2) by (cases w) (auto simp: resolve_time_range_def as_of_date_def absolute_range_def)
  obtain anchor where an: "as_of_date clock as_of timezone = Inr anchor"
    using assms(1) by (auto simp: resolve_time_range_def result_bind_Inr)
  consider (abs) "tr_kind t = RangeAbsolute" "str_truthy (tr_start t)" | (rel) "tr_kind t = RangeRelative"
    | (same) "w = t" "\<not> str_truthy (tr_start t)" | (cmp) "tr_kind t = RangeComparison"
    using assms(1,2) an
    by (cases "tr_kind t") (auto simp: resolve_time_range_def split: if_splits)
  then show ?thesis
  proof cases
    case abs
    then obtain x y where w: "w = absolute_range (take 10 x) (take 10 y) None" and ne: "x \<noteq> []" "y \<noteq> []"
      using assms(1) an
      by (cases "tr_start t"; cases "tr_end t")
        (auto simp: resolve_time_range_def Let_def split: if_splits)
    have "take 10 (take 10 z) = take 10 z" "z \<noteq> [] \<longrightarrow> take 10 z \<noteq> []" for z :: string by auto
    then show ?thesis by (intro whole [of "take 10 x" "take 10 y"]) (use w ne in \<open>auto simp: absolute_range_def\<close>)
  next
    case rel
    then have "resolve_relative anchor (tr_token t) = Inr w"
      using assms(1) an by (simp add: resolve_time_range_def)
    then obtain a b where "w = absolute_range (isoformat a) (isoformat b) (tr_token t)"
      by (auto simp: resolve_relative_def window_to_def result_bind_Inr split: if_splits option.splits)
    then show ?thesis by (intro whole) (auto simp: absolute_range_def)
  next
    case same then show ?thesis using assms(3) by simp
  next
    case cmp then show ?thesis using assms(1,2) an
      by (auto simp: resolve_time_range_def resolve_comparison_def result_bind_Inr Let_def split: if_splits)
  qed
qed

text \<open>
  A period-over-period comparison sets the current period up to the as-of date against the
  matching part of the period before: both are windows of existing dates in order that begin with
  their period, the prior one ends before the current one begins, and it is never longer than the
  current one for weeks (equal) and months (clamped).
\<close>

theorem compared_periods_are_disjoint:
  assumes "clock_ok clock" "tr_kind t = RangeComparison" "unit_of_token (tr_token t) = Some u"
    and "resolve_time_range clock t timezone as_of = Inr w"
  shows "\<exists>a1 a2 b1 b2. as_of_date clock as_of timezone = Inr a2
    \<and> tr_start w = Some (isoformat a1) \<and> tr_end w = Some (isoformat a2)
    \<and> tr_start_b w = Some (isoformat b1) \<and> tr_end_b w = Some (isoformat b2)
    \<and> list_all valid_date [a1, a2, b1, b2]
    \<and> to_ordinal b1 \<le> to_ordinal b2 \<and> to_ordinal b2 < to_ordinal a1 \<and> to_ordinal a1 \<le> to_ordinal a2
    \<and> (u = UnitWeek \<longrightarrow> weekday a1 = 0 \<and> weekday b1 = 0 \<and> window_days b1 b2 = window_days a1 a2)
    \<and> (u = UnitMonth \<longrightarrow> month_index b1 = month_index a1 - 1 \<and> window_days b1 b2 \<le> window_days a1 a2)
    \<and> (u = UnitYear \<longrightarrow> dt_year b2 = dt_year a2 - 1 \<and> dt_month b2 = dt_month a2)"
proof -
  obtain anchor where an: "as_of_date clock as_of timezone = Inr anchor"
      and r: "resolve_comparison anchor t = Inr w"
    using assms(2,4) by (auto simp: resolve_time_range_def result_bind_Inr)
  note v = as_of_date_valid [OF assms(1) an]
  have "unit_of_token (Some ''yesterday_vs_as_of'') = None"
    by (simp add: unit_of_token_def period_vs_prior_tokens_def)
  then have "tr_token t \<noteq> Some ''yesterday_vs_as_of''" using assms(3) by auto
  then obtain a1 a2 b1 b2 where p: "period_vs_prior anchor u = Inr (a1, a2, b1, b2)"
    and w: "tr_start w = Some (isoformat a1)" "tr_end w = Some (isoformat a2)"
      "tr_start_b w = Some (isoformat b1)" "tr_end_b w = Some (isoformat b2)"
    using r assms(3) by (auto simp: resolve_comparison_def comparison_dates_def result_bind_Inr
        Let_def split: if_splits)
  show ?thesis
  proof (cases u)
    case UnitWeek
    note q = prior_week [OF v p [unfolded UnitWeek]]
    then have "a2 = anchor" by simp
    with q an w v UnitWeek show ?thesis
      by (intro exI [of _ a1] exI [of _ a2] exI [of _ b1] exI [of _ b2]) simp
  next
    case UnitMonth
    note q = prior_month [OF v p [unfolded UnitMonth]]
    then have "a2 = anchor" by simp
    with q an w v UnitMonth show ?thesis
      by (intro exI [of _ a1] exI [of _ a2] exI [of _ b1] exI [of _ b2]) simp
  next
    case UnitYear
    note q = prior_year [OF v p [unfolded UnitYear]]
    then have "a2 = anchor" by simp
    with q an w v UnitYear show ?thesis
      by (intro exI [of _ a1] exI [of _ a2] exI [of _ b1] exI [of _ b2]) simp
  qed
qed

definition sample_clock :: wall_clock where
  "sample_clock = \<lparr>today_in = (\<lambda>_. None), today_utc = \<lparr>dt_year = 2024, dt_month = 3, dt_day = 31\<rparr>\<rparr>"

definition token_range :: "range_kind \<Rightarrow> string \<Rightarrow> time_range" where
  "token_range k token = \<lparr>tr_kind = k, tr_start = None, tr_end = None, tr_start_b = None,
     tr_end_b = None, tr_token = Some token\<rparr>"

lemma sample_clock_ok: "clock_ok sample_clock"
  by (simp add: clock_ok_def sample_clock_def valid_date_def month_length_def leap_year_def)

lemma sample_windows:
  "resolve_time_range sample_clock (token_range RangeRelative ''last_7d'') ''UTC'' None
     = Inr (absolute_range ''2024-03-25'' ''2024-03-31'' (Some ''last_7d''))"
  "resolve_time_range sample_clock (token_range RangeRelative ''last_1w'') ''UTC'' None
     = Inr (absolute_range ''2024-03-24'' ''2024-03-31'' (Some ''last_1w''))"
  "resolve_time_range sample_clock (token_range RangeComparison ''this_month_vs_last_month'') ''UTC'' None
     = Inr \<lparr>tr_kind = RangeComparison, tr_start = Some ''2024-03-01'', tr_end = Some ''2024-03-31'',
         tr_start_b = Some ''2024-02-01'', tr_end_b = Some ''2024-02-29'',
         tr_token = Some ''this_month_vs_last_month''\<rparr>"
  by code_simp+

lemma relative_window_is_exact_witness:
  "\<exists>anchor a b. as_of_date sample_clock None ''UTC'' = Inr anchor
    \<and> spans (absolute_range ''2024-03-25'' ''2024-03-31'' (Some ''last_7d'')) a b
    \<and> b = anchor \<and> window_days a b = 7"
proof -
  have "last_count CHR ''d'' ''last_7d'' = Some ''7''" "py_int ''7'' = Inr 7" by code_simp+
  then show ?thesis
    using relative_window_is_exact [OF sample_clock_ok _ sample_windows(1)]
    by (fastforce simp: token_range_def)
qed

lemma resolved_dates_are_stable_witness:
  "resolve_time_range sample_clock (absolute_range ''2024-03-25'' ''2024-03-31'' (Some ''last_7d''))
     ''Asia/Kolkata'' None = Inr (absolute_range ''2024-03-25'' ''2024-03-31'' None)"
  using resolved_dates_are_stable [OF sample_windows(1), of sample_clock "''Asia/Kolkata''"]
  by (simp add: absolute_range_def)

lemma compared_periods_are_disjoint_witness:
  "\<exists>a1 a2 b1 b2. ''2024-03-01'' = isoformat a1 \<and> ''2024-03-31'' = isoformat a2
    \<and> ''2024-02-01'' = isoformat b1 \<and> ''2024-02-29'' = isoformat b2 \<and> to_ordinal b2 < to_ordinal a1
    \<and> window_days b1 b2 \<le> window_days a1 a2"
proof -
  have "unit_of_token (tr_token (token_range RangeComparison ''this_month_vs_last_month'')) = Some UnitMonth"
    by code_simp
  from compared_periods_are_disjoint [OF sample_clock_ok _ this sample_windows(3)]
  show ?thesis by (fastforce simp: token_range_def)
qed

text \<open>
  Whole weeks are counted one day too long: where last N days covers N days, last N weeks covers
  7 N + 1, the as-of date and the same weekday N weeks before both included.
\<close>

theorem weeks_window_has_an_extra_day:
  assumes "clock_ok clock" "tr_kind t = RangeRelative"
    and "last_count CHR ''w'' (the (tr_token t)) = Some ds" "py_int ds = Inr n"
    and "resolve_time_range clock t timezone as_of = Inr w"
  shows "\<exists>a b. spans w a b \<and> window_days a b = 7 * n + 1"
proof -
  obtain anchor where an: "as_of_date clock as_of timezone = Inr anchor"
      and r: "resolve_relative anchor (tr_token t) = Inr w"
    using assms(2,5) by (auto simp: resolve_time_range_def result_bind_Inr)
  note v = as_of_date_valid [OF assms(1) an]
  have d: "last_count CHR ''d'' (the (tr_token t)) = None" "the (tr_token t) \<noteq> ''yesterday''"
    using assms(3) by (auto simp: last_count_def Let_def str_startswith_def split: if_splits)
  obtain a b where "spans w a b" "relative_start anchor (the (tr_token t)) = Some (Inr a)" "b = anchor"
    using resolve_relative_spans [OF r v] d(2) by fastforce
  moreover then have "add_days anchor (- (7 * n)) = Inr a"
    using assms(3,4) d(1) by (simp add: relative_start_def)
  ultimately show ?thesis using add_days_Inr by (fastforce simp: window_days_def)
qed

lemma weeks_window_has_an_extra_day_witness:
  "\<exists>a b. spans (absolute_range ''2024-03-24'' ''2024-03-31'' (Some ''last_1w'')) a b \<and> window_days a b = 8"
proof -
  have "last_count CHR ''w'' ''last_1w'' = Some ''1''" "py_int ''1'' = Inr 1" by code_simp+
  then show ?thesis
    using weeks_window_has_an_extra_day [OF sample_clock_ok _ _ _ sample_windows(2), of "''1''" 1]
    by (simp add: token_range_def)
qed

end
