(* ===== verification/Analytics.thy ===== *)
theory Analytics
  imports Calendar Validation "HOL-Library.Sublist"
begin

text \<open>
  The calculations of \<^verbatim>\<open>analytics/\<close> over evidence that was already fetched (segment shares and
  contributions, cohorts, comparison of periods, the funnel, the grain precondition) and the anomaly
  score of \<^verbatim>\<open>services/business_state/detectors.py\<close>. Floats are exact rationals; references are
  artifact identifiers.
\<close>

section \<open>Segments\<close>

definition min_segment_share :: rat where "min_segment_share = 1 / 100"
definition max_segments_reported :: nat where "max_segments_reported = 20"
definition contribution_reconciliation_tolerance :: rat where
  "contribution_reconciliation_tolerance = 5 / 1000"

record segment =
  sg_label :: string
  sg_value :: "rat option"
  sg_ref :: string

record share =
  sh_label :: string
  sh_value :: rat
  sh_share :: rat
  sh_ref :: string

record share_result =
  sr_shares :: "share list"
  sr_total :: rat
  sr_reconciled :: "bool option"
  sr_other_count :: nat
  sr_other_value :: rat

text \<open>The segments that carry a value, with it.\<close>

definition measured_segments :: "segment list \<Rightarrow> (segment \<times> rat) list" where
  "measured_segments segments =
     concat (map (\<lambda>s. case sg_value s of Some v \<Rightarrow> [(s, v)] | None \<Rightarrow> []) segments)"

text \<open>One round of the loop over the ranked segments.\<close>

definition share_step ::
  "rat \<Rightarrow> share list \<times> nat \<times> rat \<Rightarrow> segment \<times> rat \<Rightarrow> share list \<times> nat \<times> rat" where
  "share_step whole st sv =
     (let (kept, other_count, other_value) = st; (s, v) = sv; share = v / whole in
      if \<bar>share\<bar> < min_segment_share \<or> length kept \<ge> max_segments_reported
      then (kept, other_count + 1, other_value + v)
      else (kept @ [\<lparr>sh_label = sg_label s, sh_value = v, sh_share = share, sh_ref = sg_ref s\<rparr>],
            other_count, other_value))"

definition shares :: "segment list \<Rightarrow> rat option \<Rightarrow> share_result option" where
  "shares segments independent_total =
     (let measured = measured_segments segments in
      if measured = [] then None
      else
        (let children_sum = (\<Sum>sv \<leftarrow> measured. snd sv);
             whole = (case independent_total of Some t \<Rightarrow> t | None \<Rightarrow> children_sum);
             reconciled = map_option (\<lambda>t. \<bar>children_sum - t\<bar> / (if t = 0 then 1 else \<bar>t\<bar>)
               \<le> contribution_reconciliation_tolerance) independent_total
         in if whole = 0
            then Some \<lparr>sr_shares = [], sr_total = 0, sr_reconciled = reconciled, sr_other_count = 0,
                       sr_other_value = 0\<rparr>
            else
              (let ranked = sorted_desc (\<lambda>sv. \<bar>snd sv\<bar>) measured;
                   (kept, other_count, other_value) = foldl (share_step whole) ([], 0, 0) ranked
               in Some \<lparr>sr_shares = kept, sr_total = whole, sr_reconciled = reconciled,
                        sr_other_count = other_count, sr_other_value = other_value\<rparr>)))"

record contribution =
  cb_label :: string
  cb_value_a :: rat
  cb_value_b :: rat
  cb_delta :: rat
  cb_share_of_change :: rat
  cb_ref_a :: string
  cb_ref_b :: string

text \<open>\<^verbatim>\<open>{s.label: s for s in period_b if s.value is not None}\<close>: the last segment of a label.\<close>

definition by_label :: "segment list \<Rightarrow> (string, segment \<times> rat) dict" where
  "by_label segments = foldl (\<lambda>d sv. dict_set d (sg_label (fst sv)) sv) [] (measured_segments segments)"

definition paired_segments :: "segment list \<Rightarrow> segment list \<Rightarrow> ((segment \<times> rat) \<times> segment \<times> rat) list" where
  "paired_segments period_a period_b =
     concat (map (\<lambda>a. case dict_get (by_label period_b) (sg_label (fst a)) of
         Some b \<Rightarrow> [(a, b)] | None \<Rightarrow> []) (measured_segments period_a))"

definition contribution_of :: "rat \<Rightarrow> (segment \<times> rat) \<times> segment \<times> rat \<Rightarrow> contribution" where
  "contribution_of total_delta p =
     (let ((a, va), (b, vb)) = p; delta = va - vb in
      \<lparr>cb_label = sg_label a, cb_value_a = va, cb_value_b = vb, cb_delta = delta,
       cb_share_of_change = (if total_delta \<noteq> 0 then delta / total_delta else 0),
       cb_ref_a = sg_ref a, cb_ref_b = sg_ref b\<rparr>)"

definition contributions :: "segment list \<Rightarrow> segment list \<Rightarrow> contribution list \<times> rat" where
  "contributions period_a period_b =
     (let paired = paired_segments period_a period_b in
      if paired = [] then ([], 0)
      else
        (let total_delta = (\<Sum>p \<leftarrow> paired. snd (fst p) - snd (snd p)) in
         (sorted_desc (\<lambda>c. \<bar>cb_delta c\<bar>) (map (contribution_of total_delta) paired), total_delta)))"

section \<open>Cohorts\<close>

text \<open>\<^verbatim>\<open>statistics.median\<close>\<close>

definition median :: "rat list \<Rightarrow> rat" where
  "median xs =
     (let s = sort xs; n = length xs in
      if odd n then s ! (n div 2) else (s ! (n div 2 - 1) + s ! (n div 2)) / 2)"

record cohort_reading =
  cr_label :: string
  cr_value :: "rat option"
  cr_period_start :: "stamp option"
  cr_ref :: string

record cohort =
  co_label :: string
  co_value :: rat
  co_delta_from_median :: rat
  co_ref :: string

record spread_result =
  cs_cohorts :: "cohort list"
  cs_median :: rat
  cs_best :: cohort
  cs_worst :: cohort

definition spread_of :: "spread_result \<Rightarrow> rat" where
  "spread_of s = co_value (cs_best s) - co_value (cs_worst s)"

definition measured_cohorts :: "cohort_reading list \<Rightarrow> (cohort_reading \<times> rat) list" where
  "measured_cohorts readings =
     concat (map (\<lambda>r. case cr_value r of Some v \<Rightarrow> [(r, v)] | None \<Rightarrow> []) readings)"

definition cohort_spread :: "cohort_reading list \<Rightarrow> spread_result option" where
  "cohort_spread readings =
     (let measured = measured_cohorts readings in
      if length measured < 2 then None
      else
        (let m = median (map snd measured);
             cohorts = sorted_desc co_value (map (\<lambda>(r, v). \<lparr>co_label = cr_label r, co_value = v,
               co_delta_from_median = v - m, co_ref = cr_ref r\<rparr>) measured)
         in Some \<lparr>cs_cohorts = cohorts, cs_median = m, cs_best = hd cohorts, cs_worst = last cohorts\<rparr>))"

text \<open>\<^verbatim>\<open>.date()\<close> of a \<^verbatim>\<open>datetime\<close> (the local day), and its ISO text.\<close>

definition day_number :: "stamp \<Rightarrow> int" where
  "day_number t = st_local t div 86400000000"

definition date_of :: "stamp \<Rightarrow> date" where
  "date_of t = from_ordinal (719163 + day_number t)"

fun relabel_from :: "nat \<Rightarrow> cohort_reading list \<Rightarrow> cohort_reading list" where
  "relabel_from i [] = []"
| "relabel_from i (r # rs) =
     r\<lparr>cr_label := (case cr_period_start r of
          Some t \<Rightarrow> isoformat (date_of t) | None \<Rightarrow> ''cohort-'' @ nat_str i)\<rparr> # relabel_from (i + 1) rs"

definition label_readings :: "cohort_reading list \<Rightarrow> cohort_reading list \<times> bool" where
  "label_readings readings =
     (if list_ex (\<lambda>r. cr_label r \<noteq> []) readings then (readings, False)
      else (relabel_from 0 readings, True))"

section \<open>Comparison of periods\<close>

record metric_point =
  mp_metric :: string
  mp_dimensions :: "(string, string) dict"
  mp_value :: "rat option"
  mp_ref :: string

record period_delta =
  pd_metric :: string
  pd_dimensions :: "(string, string) dict"
  pd_delta :: rat
  pd_a :: metric_point
  pd_b :: metric_point

definition pair_key :: "string \<Rightarrow> (string, string) dict \<Rightarrow> string \<times> (string \<times> string) list" where
  "pair_key metric dimensions = (metric, sort dimensions)"

abbreviation point_key :: "metric_point \<Rightarrow> string \<times> (string \<times> string) list" where
  "point_key p \<equiv> pair_key (mp_metric p) (mp_dimensions p)"

definition points_by_key ::
  "metric_point list \<Rightarrow> (string \<times> (string \<times> string) list, metric_point) dict" where
  "points_by_key points = foldl (\<lambda>d p. dict_set d (point_key p) p) [] points"

definition delta_of :: "metric_point \<Rightarrow> metric_point \<Rightarrow> period_delta option" where
  "delta_of a b =
     (case (mp_value a, mp_value b) of
        (Some va, Some vb) \<Rightarrow> Some \<lparr>pd_metric = mp_metric a, pd_dimensions = mp_dimensions a,
           pd_delta = va - vb, pd_a = a, pd_b = b\<rparr>
      | _ \<Rightarrow> None)"

definition period_deltas :: "metric_point list \<Rightarrow> metric_point list \<Rightarrow> period_delta list" where
  "period_deltas points_a points_b =
     concat (map (\<lambda>(key, a).
        case dict_get (points_by_key points_b) key of
          None \<Rightarrow> []
        | Some b \<Rightarrow> (case delta_of a b of Some d \<Rightarrow> [d] | None \<Rightarrow> []))
       (points_by_key points_a))"

section \<open>The funnel\<close>

definition funnel_steps :: "string list" where
  "funnel_steps = [''metric.sessions'', ''metric.pdp_view_rate'', ''metric.atc_rate'',
     ''metric.checkout_rate'', ''metric.purchase_cvr'']"

definition base_step :: string where "base_step = hd funnel_steps"

record step_reading =
  rd_metric_id :: string
  rd_value :: "rat option"
  rd_ref :: string

record funnel_step =
  fs_metric_id :: string
  fs_position :: nat
  fs_rate :: rat
  fs_raw :: rat
  fs_ref :: string

record funnel_move =
  mv_from :: string
  mv_to :: string
  mv_conversion :: rat
  mv_drop_off :: rat

definition readings_by_metric :: "step_reading list \<Rightarrow> (string, step_reading \<times> rat) dict" where
  "readings_by_metric readings =
     foldl (\<lambda>d r. case rd_value r of Some v \<Rightarrow> dict_set d (rd_metric_id r) (r, v) | None \<Rightarrow> d) [] readings"

definition ordered_steps :: "step_reading list \<Rightarrow> funnel_step list" where
  "ordered_steps readings =
     concat (map (\<lambda>(position, metric).
        case dict_get (readings_by_metric readings) metric of
          None \<Rightarrow> []
        | Some (r, raw) \<Rightarrow> [\<lparr>fs_metric_id = metric, fs_position = position,
            fs_rate = (if metric = base_step then 1 else raw), fs_raw = raw, fs_ref = rd_ref r\<rparr>])
       (enumerate 0 funnel_steps))"

definition unknown_steps :: "step_reading list \<Rightarrow> string list" where
  "unknown_steps readings =
     sort (remdups (filter (\<lambda>m. m \<notin> set funnel_steps) (map rd_metric_id readings)))"

fun transitions :: "funnel_step list \<Rightarrow> funnel_move list" where
  "transitions (earlier # later # rest) =
     (if fs_rate earlier = 0 then transitions (later # rest)
      else (let conversion = fs_rate later / fs_rate earlier in
        \<lparr>mv_from = fs_metric_id earlier, mv_to = fs_metric_id later, mv_conversion = conversion,
         mv_drop_off = 1 - conversion\<rparr> # transitions (later # rest)))"
| "transitions _ = []"

text \<open>\<^verbatim>\<open>max(items, key=...)\<close> keeps the first of equals.\<close>

fun first_max :: "('a \<Rightarrow> rat) \<Rightarrow> 'a \<Rightarrow> 'a list \<Rightarrow> 'a" where
  "first_max k best [] = best"
| "first_max k best (x # xs) = first_max k (if k best < k x then x else best) xs"

definition worst_transition :: "funnel_move list \<Rightarrow> funnel_move option" where
  "worst_transition items =
     (case items of [] \<Rightarrow> None | m # ms \<Rightarrow> Some (first_max mv_drop_off m ms))"

section \<open>The grain precondition\<close>

text \<open>
  The payload of an evidence artifact with the field \<open>evidence_payload\<close> leaves out, and what a
  refused set is refused for (the reasons' texts are rendered from it).
\<close>

record grained_evidence = evidence_payload +
  epl_grain :: string

datatype grain_problem =
    MixedGrains "string list"
  | SpanMismatch string string stamp stamp int "int \<times> int"
  | UnequalSpans "int list"

definition allowed_span_days :: "(string, int \<times> int) dict" where
  "allowed_span_days = [(''day'', (1, 1)), (''week'', (7, 7)), (''month'', (28, 31))]"

definition period_span_days :: "stamp \<Rightarrow> stamp \<Rightarrow> int" where
  "period_span_days period_start period_end = day_number period_end - day_number period_start + 1"

definition evidence_span :: "grained_evidence \<Rightarrow> int" where
  "evidence_span e = period_span_days (epl_period_start e) (epl_period_end e)"

definition out_of_span :: "int \<times> int \<Rightarrow> grained_evidence \<Rightarrow> bool" where
  "out_of_span allowed e = (\<not> (fst allowed \<le> evidence_span e \<and> evidence_span e \<le> snd allowed))"

definition validate_grain_set :: "grained_evidence list \<Rightarrow> grain_problem option" where
  "validate_grain_set evidence =
     (case evidence of [] \<Rightarrow> None | first # _ \<Rightarrow>
        (let grains = remdups (map epl_grain evidence); grain = epl_grain first;
             spans = map evidence_span evidence;
             offender = (case dict_get allowed_span_days grain of
               None \<Rightarrow> None
             | Some allowed \<Rightarrow> map_option (\<lambda>e. SpanMismatch (epl_metric_id e) grain (epl_period_start e)
                 (epl_period_end e) (evidence_span e) allowed) (find (out_of_span allowed) evidence))
         in if length grains > 1 then Some (MixedGrains (sort grains))
            else case offender of
              Some p \<Rightarrow> Some p
            | None \<Rightarrow> if length (remdups spans) > 1 then Some (UnequalSpans (sort (remdups spans)))
                      else None))"

section \<open>The anomaly score\<close>

definition mad_to_sigma :: rat where "mad_to_sigma = 14826 / 10000"

record zscore_result =
  zs_observed :: rat
  zs_expected :: rat
  zs_expected_range :: "rat \<times> rat"
  zs_deviation_pct :: "rat option"
  zs_score :: rat
  zs_direction :: string
  zs_is_anomaly :: bool

text \<open>The fields both scoring functions compute from the band.\<close>

definition scored :: "rat \<Rightarrow> rat \<Rightarrow> rat \<times> rat \<Rightarrow> rat \<Rightarrow> rat \<Rightarrow> zscore_result" where
  "scored observed expected band sigma z_threshold =
     (let z = (observed - expected) / sigma in
      \<lparr>zs_observed = observed, zs_expected = expected, zs_expected_range = band,
       zs_deviation_pct = (if expected \<noteq> 0 then Some ((observed - expected) / expected * 100) else None),
       zs_score = \<bar>z\<bar>,
       zs_direction = (if expected < observed then ''up'' else if observed < expected then ''down'' else ''flat''),
       zs_is_anomaly = (z_threshold \<le> \<bar>z\<bar>)\<rparr>)"

definition sigma_of :: "rat list \<Rightarrow> rat" where
  "sigma_of history =
     (let m = median history; mad = median (map (\<lambda>v. \<bar>v - m\<bar>) history) in
      if mad \<noteq> 0 then mad_to_sigma * mad else 1 / 1000000000)"

definition robust_zscore :: "rat list \<Rightarrow> rat \<Rightarrow> rat \<Rightarrow> zscore_result result" where
  "robust_zscore history observed z_threshold =
     (if history = [] then Inl (ValueError ''robust_zscore needs at least one history point'')
      else
        (let m = median history; sigma = sigma_of history in
         Inr (scored observed m (m - z_threshold * sigma, m + z_threshold * sigma) sigma z_threshold)))"

definition rescore_against_expected :: "rat \<Rightarrow> rat \<Rightarrow> rat \<times> rat \<Rightarrow> rat \<Rightarrow> zscore_result" where
  "rescore_against_expected observed expected expected_range z_threshold =
     (let s = (if z_threshold \<noteq> 0 then (snd expected_range - expected) / z_threshold else 0) in
      scored observed expected expected_range (if s \<le> 0 then 1 / 1000000000 else s) z_threshold)"

section \<open>The median\<close>

lemma length_filter_sort: "length (filter P (sort xs)) = length (filter P xs)"
  by (metis mset_filter mset_sort size_mset)

lemma few_pass_from:
  assumes "\<forall>x\<in>set (drop k s). \<not> P x" shows "length (filter P s) \<le> k"
proof -
  have "filter P s = filter P (take k s)"
    using assms by (metis append_Nil2 append_take_drop_id filter_append filter_False)
  then show ?thesis by (metis length_filter_le length_take min.boundedE min.cobounded2 order_trans)
qed

lemma few_pass_upto:
  assumes "\<forall>x\<in>set (take k s). \<not> P x" "k \<le> length s" shows "length (filter P s) \<le> length s - k"
proof -
  have "filter P s = filter P (drop k s)"
    using assms by (metis append_Nil append_take_drop_id filter_append filter_False)
  then show ?thesis by (metis length_filter_le length_drop)
qed

lemma sorted_nth_within:
  assumes "sorted s" "k < length s" "k < length (filter (\<lambda>x. lo \<le> x \<and> x \<le> hi) s)"
    and "length s - k - 1 < length (filter (\<lambda>x. lo \<le> x \<and> x \<le> hi) s)"
  shows "lo \<le> s ! k \<and> s ! k \<le> (hi::rat)"
proof (rule conjI; rule ccontr)
  assume n: "\<not> lo \<le> s ! k"
  have "\<forall>x\<in>set (take (Suc k) s). x \<le> s ! k"
    using assms(1,2) by (auto simp: in_set_conv_nth less_Suc_eq_le sorted_iff_nth_mono)
  then have "\<forall>x\<in>set (take (Suc k) s). \<not> (lo \<le> x \<and> x \<le> hi)" using n by fastforce
  from few_pass_upto [OF this] assms(2,4) show False by simp
next
  assume n: "\<not> s ! k \<le> hi"
  have "\<forall>x\<in>set (drop k s). s ! k \<le> x"
    using assms(1,2) sorted_nth_mono [OF assms(1), of k] by (auto simp: in_set_conv_nth)
  then have "\<forall>x\<in>set (drop k s). \<not> (lo \<le> x \<and> x \<le> hi)" using n by fastforce
  from few_pass_from [OF this] assms(3) show False by simp
qed

text \<open>
  Robustness: where more than half of the values lie, the median lies too, whatever the others are.
\<close>

lemma median_within:
  assumes "length xs < 2 * length (filter (\<lambda>x. lo \<le> x \<and> x \<le> hi) xs)"
  shows "lo \<le> median xs \<and> median xs \<le> hi"
proof -
  let ?P = "\<lambda>x. lo \<le> x \<and> x \<le> hi" and ?s = "sort xs" and ?n = "length xs"
  have n: "length (filter ?P ?s) = length (filter ?P xs)" by (rule length_filter_sort)
  have ne: "0 < ?n" using assms by (cases xs) auto
  then have mid: "?P (?s ! (?n div 2))"
    by (intro sorted_nth_within) (use assms n in auto)
  show ?thesis
  proof (cases "odd ?n")
    case True then show ?thesis using mid by (simp add: median_def Let_def)
  next
    case False
    then have "?n div 2 - 1 < ?n" using ne by linarith
    then have "?P (?s ! (?n div 2 - 1))"
      using False by (intro sorted_nth_within) (use assms n ne in auto)
    then show ?thesis using False mid by (simp add: median_def Let_def)
  qed
qed

lemma median_range:
  assumes "xs \<noteq> []" "\<forall>x\<in>set xs. lo \<le> x \<and> x \<le> hi" shows "lo \<le> median xs \<and> median xs \<le> hi"
  using median_within [of xs lo hi] assms by (simp add: filter_True)

lemma median_nonneg: "xs \<noteq> [] \<Longrightarrow> \<forall>x\<in>set xs. 0 \<le> x \<Longrightarrow> 0 \<le> median xs"
  using median_range [of xs 0 "Max (set xs)"] by auto

lemma sigma_pos: "history \<noteq> [] \<Longrightarrow> 0 < sigma_of history"
  using median_nonneg [of "map (\<lambda>v. \<bar>v - median history\<bar>) history"]
  by (auto simp: sigma_of_def Let_def mad_to_sigma_def less_le)

lemma robust_zscore_defined: "history \<noteq> [] \<Longrightarrow> \<exists>r. robust_zscore history observed z_threshold = Inr r"
  by (simp add: robust_zscore_def Let_def)

text \<open>
  C26. The anomaly score is robust and its verdict is its band: the observation is flagged exactly when
  it is not strictly inside the expected range, and a history of which more than half lies in an
  interval has its expected value in that interval, whatever the other points are.
\<close>

theorem anomaly_iff_outside_robust_band:
  assumes "robust_zscore history observed z_threshold = Inr r" "0 < z_threshold"
  shows "(zs_is_anomaly r
      \<longleftrightarrow> observed \<le> fst (zs_expected_range r) \<or> snd (zs_expected_range r) \<le> observed)
    \<and> (length history < 2 * length (filter (\<lambda>x. lo \<le> x \<and> x \<le> hi) history)
         \<longrightarrow> lo \<le> zs_expected r \<and> zs_expected r \<le> hi)
    \<and> fst (zs_expected_range r) < zs_expected r \<and> zs_expected r < snd (zs_expected_range r)"
proof -
  have ne: "history \<noteq> []" using assms(1) by (auto simp: robust_zscore_def)
  note s = sigma_pos [OF ne]
  have r: "r = scored observed (median history) (median history - z_threshold * sigma_of history,
      median history + z_threshold * sigma_of history) (sigma_of history) z_threshold"
    using assms(1) ne by (simp add: robust_zscore_def Let_def)
  have "z_threshold \<le> \<bar>(observed - median history) / sigma_of history\<bar>
      \<longleftrightarrow> z_threshold * sigma_of history \<le> \<bar>observed - median history\<bar>"
    using s by (simp add: abs_divide pos_le_divide_eq)
  then have "zs_is_anomaly r
      \<longleftrightarrow> observed \<le> fst (zs_expected_range r) \<or> snd (zs_expected_range r) \<le> observed"
    by (auto simp: r scored_def Let_def abs_le_iff abs_if split: if_splits)
  then show ?thesis using s assms(2) median_within [of history lo hi] by (simp add: r scored_def Let_def)
qed

lemma anomaly_iff_outside_robust_band_witness:
  "\<exists>r. robust_zscore [10, 11, 9, 10, 1000] 12 3 = Inr r \<and> 9 \<le> zs_expected r \<and> zs_expected r \<le> 11
    \<and> fst (zs_expected_range r) < zs_expected r"
proof -
  obtain r where r: "robust_zscore [10, 11, 9, 10, 1000] 12 3 = Inr r"
    using robust_zscore_defined by blast
  from anomaly_iff_outside_robust_band [OF r, of 9 11] show ?thesis using r by simp
qed

text \<open>
  Scoring another observation against a stored band agrees with scoring it against the history
  the band was computed from.
\<close>

theorem rescore_agrees_with_history:
  assumes "robust_zscore history observed z_threshold = Inr r" "0 < z_threshold"
  shows "robust_zscore history x z_threshold
    = Inr (rescore_against_expected x (zs_expected r) (zs_expected_range r) z_threshold)"
proof -
  have ne: "history \<noteq> []" using assms(1) by (auto simp: robust_zscore_def)
  let ?m = "median history" and ?s = "sigma_of history"
  have r: "zs_expected r = ?m" "zs_expected_range r = (?m - z_threshold * ?s, ?m + z_threshold * ?s)"
    using assms(1) ne by (auto simp: robust_zscore_def scored_def Let_def)
  have "(?m + z_threshold * ?s - ?m) / z_threshold = ?s" using assms(2) by simp
  moreover have "\<not> ?s \<le> 0" "z_threshold \<noteq> 0" using sigma_pos [OF ne] assms(2) by auto
  ultimately have "rescore_against_expected x (zs_expected r) (zs_expected_range r) z_threshold
      = scored x ?m (?m - z_threshold * ?s, ?m + z_threshold * ?s) ?s z_threshold"
    unfolding rescore_against_expected_def r snd_conv by (simp only: Let_def if_True if_False simp_thms)
  then show ?thesis using ne by (simp only: robust_zscore_def Let_def if_False)
qed

lemma rescore_agrees_with_history_witness:
  "\<exists>r. robust_zscore [10, 11, 9] 12 3 = Inr r \<and> robust_zscore [10, 11, 9] 40 3
     = Inr (rescore_against_expected 40 (zs_expected r) (zs_expected_range r) 3)"
proof -
  obtain r where r: "robust_zscore [10, 11, 9] 12 3 = Inr r"
    using robust_zscore_defined by blast
  from rescore_agrees_with_history [OF r, of 40] r show ?thesis by simp
qed

section \<open>Shares and contributions\<close>

lemma sum_list_sorted_desc: "(\<Sum>x \<leftarrow> sorted_desc k xs. f x) = (\<Sum>x \<leftarrow> xs. f x :: rat)"
  by (metis mset_map mset_sorted_desc sum_mset_sum_list)

definition reportable :: "rat \<Rightarrow> share \<Rightarrow> bool" where
  "reportable t s = (sh_share s = sh_value s / t \<and> min_segment_share \<le> \<bar>sh_share s\<bar>)"

lemma share_step_simp:
  "share_step t (kept, n, v) (s, w) =
     (if \<bar>w / t\<bar> < min_segment_share \<or> length kept \<ge> max_segments_reported then (kept, n + 1, v + w)
      else (kept @ [\<lparr>sh_label = sg_label s, sh_value = w, sh_share = w / t, sh_ref = sg_ref s\<rparr>], n, v))"
  by (simp add: share_step_def Let_def)

text \<open>What one round of the loop keeps: nothing is lost, and only reportable shares are listed.\<close>

lemma share_fold:
  assumes "foldl (share_step t) (kept, n, v) xs = (kept', n', v')" "length kept \<le> max_segments_reported"
    and "list_all (reportable t) kept"
  shows "(\<Sum>s \<leftarrow> kept'. sh_value s) + v' = (\<Sum>s \<leftarrow> kept. sh_value s) + v + (\<Sum>x \<leftarrow> xs. snd x)
    \<and> length kept' + n' = length kept + n + length xs
    \<and> length kept' \<le> max_segments_reported
    \<and> list_all (reportable t) kept'
    \<and> (\<exists>ys. subseq ys xs \<and> map sh_ref kept' = map sh_ref kept @ map (\<lambda>y. sg_ref (fst y)) ys
          \<and> map sh_value kept' = map sh_value kept @ map snd ys)"
  using assms
proof (induction xs arbitrary: kept n v)
  case Nil
  then show ?case by (auto intro: exI [of _ "[]"])
next
  case (Cons x xs)
  obtain s w where x: "x = (s, w)" by (cases x)
  let ?sh = "\<lparr>sh_label = sg_label s, sh_value = w, sh_share = w / t, sh_ref = sg_ref s\<rparr>"
  show ?case
  proof (cases "\<bar>w / t\<bar> < min_segment_share \<or> length kept \<ge> max_segments_reported")
    case True
    then have "foldl (share_step t) (kept, n + 1, v + w) xs = (kept', n', v')"
      using Cons.prems(1) by (simp add: x share_step_simp)
    note ih = Cons.IH [OF this Cons.prems(2,3)]
    then obtain ys where "subseq ys xs" "map sh_ref kept' = map sh_ref kept @ map (\<lambda>y. sg_ref (fst y)) ys"
      "map sh_value kept' = map sh_value kept @ map snd ys" by blast
    then have "\<exists>ys. subseq ys (x # xs) \<and> map sh_ref kept' = map sh_ref kept @ map (\<lambda>y. sg_ref (fst y)) ys
        \<and> map sh_value kept' = map sh_value kept @ map snd ys" by blast
    with ih show ?thesis by (simp add: x)
  next
    case False
    then have f: "foldl (share_step t) (kept @ [?sh], n, v) xs = (kept', n', v')"
      using Cons.prems(1) by (simp add: x share_step_simp)
    have "length (kept @ [?sh]) \<le> max_segments_reported" using False by simp
    note ih = Cons.IH [OF f this] 
    have "list_all (reportable t) (kept @ [?sh])"
      using Cons.prems(3) False reportable_def [of t ?sh] by simp
    note ih = ih [OF this]
    then obtain ys where "subseq ys xs" "map sh_ref kept' = map sh_ref (kept @ [?sh]) @ map (\<lambda>y. sg_ref (fst y)) ys"
      "map sh_value kept' = map sh_value (kept @ [?sh]) @ map snd ys" by blast
    then have "\<exists>ys. subseq ys (x # xs) \<and> map sh_ref kept' = map sh_ref kept @ map (\<lambda>y. sg_ref (fst y)) ys
        \<and> map sh_value kept' = map sh_value kept @ map snd ys"
      by (intro exI [of _ "x # ys"]) (auto simp: x)
    with ih show ?thesis by (simp add: x)
  qed
qed

lemma shares_facts:
  assumes "shares segments known = Some r" "sr_total r \<noteq> 0"
  shows "(\<Sum>s \<leftarrow> sr_shares r. sh_value s) + sr_other_value r = (\<Sum>sv \<leftarrow> measured_segments segments. snd sv)"
    and "length (sr_shares r) + sr_other_count r = length (measured_segments segments)"
    and "length (sr_shares r) \<le> max_segments_reported"
    and "list_all (reportable (sr_total r)) (sr_shares r)"
    and "s \<in> set (sr_shares r) \<Longrightarrow> \<exists>g\<in>set segments. sg_ref g = sh_ref s \<and> sg_value g = Some (sh_value s)"
    and "known = None \<longrightarrow> sr_total r = (\<Sum>sv \<leftarrow> measured_segments segments. snd sv)"
proof -
  let ?m = "measured_segments segments"
  let ?t = "case known of Some t \<Rightarrow> t | None \<Rightarrow> \<Sum>sv \<leftarrow> ?m. snd sv"
  let ?ranked = "sorted_desc (\<lambda>sv. \<bar>snd sv\<bar>) ?m"
  obtain kept n v where f: "foldl (share_step ?t) ([], 0, 0) ?ranked = (kept, n, v)" by (metis prod_cases3)
  have r: "sr_shares r = kept" "sr_total r = ?t" "sr_other_count r = n" "sr_other_value r = v"
    using assms f by (auto simp: shares_def Let_def split: if_splits prod.splits)
  have base: "length ([] :: share list) \<le> max_segments_reported"
    "list_all (reportable ?t) []" by simp_all
  from share_fold [OF f base] obtain ys where s: "(\<Sum>s \<leftarrow> kept. sh_value s) + v = (\<Sum>sv \<leftarrow> ?m. snd sv)"
    "length kept + n = length ?m" "length kept \<le> max_segments_reported"
    "list_all (reportable ?t) kept"
    and ys: "subseq ys ?ranked" "map sh_ref kept = map (\<lambda>y. sg_ref (fst y)) ys" "map sh_value kept = map snd ys"
    unfolding sum_list_sorted_desc length_sorted_desc
    by (auto simp del: map_map)
  show "(\<Sum>s \<leftarrow> sr_shares r. sh_value s) + sr_other_value r = (\<Sum>sv \<leftarrow> ?m. snd sv)"
    "length (sr_shares r) + sr_other_count r = length ?m" "length (sr_shares r) \<le> max_segments_reported"
    "list_all (reportable (sr_total r)) (sr_shares r)"
    using s by (simp_all only: r)
  show "known = None \<longrightarrow> sr_total r = (\<Sum>sv \<leftarrow> ?m. snd sv)" by (simp add: r)
  show "\<exists>g\<in>set segments. sg_ref g = sh_ref s \<and> sg_value g = Some (sh_value s)" if "s \<in> set (sr_shares r)" for s
  proof -
    have "s \<in> set kept" using that by (simp only: r)
    then obtain i where i: "i < length kept" "s = kept ! i" by (auto simp: in_set_conv_nth)
    then have l: "i < length ys" using ys(2) by (metis length_map)
    then have "ys ! i \<in> set ?ranked" using list_emb_set [OF ys(1) nth_mem [OF l]] by metis
    then have "ys ! i \<in> set ?m" by simp
    then have "fst (ys ! i) \<in> set segments \<and> sg_value (fst (ys ! i)) = Some (snd (ys ! i))"
      by (auto simp: measured_segments_def split: option.splits)
    moreover have "sh_ref s = sg_ref (fst (ys ! i))" "sh_value s = snd (ys ! i)"
      using i l ys(2,3) by (metis nth_map)+
    ultimately show ?thesis by auto
  qed
qed

lemma sum_list_divide: "(\<Sum>x \<leftarrow> xs. f x / k) = (\<Sum>x \<leftarrow> xs. f x) / (k::rat)"
  by (induction xs) (auto simp: add_divide_distrib)

text \<open>
  A breakdown accounts for every measured segment: the listed values and the folded rest add up to
  the sum of the segments, the counts add up too, every listed share is its value over the total, is
  at least one percent, and comes from a segment, and at most twenty are listed.
\<close>

theorem shares_account_for_everything:
  assumes "shares segments known = Some r" "sr_total r \<noteq> 0"
  shows "(\<Sum>s \<leftarrow> sr_shares r. sh_value s) + sr_other_value r = (\<Sum>sv \<leftarrow> measured_segments segments. snd sv)
    \<and> length (sr_shares r) + sr_other_count r = length (measured_segments segments)
    \<and> length (sr_shares r) \<le> max_segments_reported
    \<and> (known = None \<longrightarrow> (\<Sum>s \<leftarrow> sr_shares r. sh_share s) + sr_other_value r / sr_total r = 1)
    \<and> (\<forall>s\<in>set (sr_shares r). sh_share s = sh_value s / sr_total r \<and> min_segment_share \<le> \<bar>sh_share s\<bar>
         \<and> (\<exists>g\<in>set segments. sg_ref g = sh_ref s \<and> sg_value g = Some (sh_value s)))"
proof -
  note f = shares_facts [OF assms]
  have each: "\<forall>s\<in>set (sr_shares r). sh_share s = sh_value s / sr_total r \<and> min_segment_share \<le> \<bar>sh_share s\<bar>"
    using f(4) by (auto simp: list_all_iff reportable_def)
  then have "map sh_share (sr_shares r) = map (\<lambda>s. sh_value s / sr_total r) (sr_shares r)" by simp
  then have "(\<Sum>s \<leftarrow> sr_shares r. sh_share s) + sr_other_value r / sr_total r
      = ((\<Sum>s \<leftarrow> sr_shares r. sh_value s) + sr_other_value r) / sr_total r"
    by (simp only: sum_list_divide add_divide_distrib)
  then have "known = None \<longrightarrow> (\<Sum>s \<leftarrow> sr_shares r. sh_share s) + sr_other_value r / sr_total r = 1"
    unfolding f(1) using f(6) assms(2) by (auto intro: divide_self)
  with f(1-3) show ?thesis using f(5) each by (intro conjI ballI) (assumption | (erule bspec, assumption) | blast)+
qed

lemma shares_account_for_everything_witness:
  "\<exists>r. shares [\<lparr>sg_label = ''a'', sg_value = Some 995, sg_ref = ''1''\<rparr>, \<lparr>sg_label = ''b'', sg_value = None, sg_ref = ''2''\<rparr>,
       \<lparr>sg_label = ''c'', sg_value = Some 5, sg_ref = ''3''\<rparr>] None = Some r
     \<and> (\<Sum>s \<leftarrow> sr_shares r. sh_value s) + sr_other_value r = 1000 \<and> length (sr_shares r) + sr_other_count r = 2"
proof -
  let ?segs = "[\<lparr>sg_label = ''a'', sg_value = Some 995, sg_ref = ''1''\<rparr>,
    \<lparr>sg_label = ''b'', sg_value = None, sg_ref = ''2''\<rparr>, \<lparr>sg_label = ''c'', sg_value = Some 5, sg_ref = ''3''\<rparr>]"
  let ?r = "\<lparr>sr_shares = [\<lparr>sh_label = ''a'', sh_value = 995, sh_share = 995 / 1000, sh_ref = ''1''\<rparr>], sr_total = 1000,
    sr_reconciled = None, sr_other_count = 1, sr_other_value = 5\<rparr>"
  have "shares ?segs None = Some ?r" by code_simp
  from shares_account_for_everything [OF this] this show ?thesis by (auto simp: measured_segments_def)
qed

lemma contribution_of_fields [simp]:
  "cb_label (contribution_of t ((x, va), (y, vb))) = sg_label x"
  "cb_value_a (contribution_of t ((x, va), (y, vb))) = va"
  "cb_value_b (contribution_of t ((x, va), (y, vb))) = vb"
  "cb_delta (contribution_of t p) = snd (fst p) - snd (snd p)"
  "cb_ref_a (contribution_of t ((x, va), (y, vb))) = sg_ref x"
  "cb_ref_b (contribution_of t ((x, va), (y, vb))) = sg_ref y"
  "t \<noteq> 0 \<Longrightarrow> cb_share_of_change (contribution_of t p) = (snd (fst p) - snd (snd p)) / t"
  by (auto simp: contribution_of_def Let_def split: prod.splits)

lemma measured_segment:
  "(a, v) \<in> set (measured_segments segs) \<Longrightarrow> a \<in> set segs \<and> sg_value a = Some v"
  by (auto simp: measured_segments_def split: option.splits)

lemma labelled_get:
  assumes "dict_get (foldl (\<lambda>d sv. dict_set d (sg_label (fst sv)) sv) dd xs) l = Some x"
    and "\<forall>y. dict_get dd l = Some y \<longrightarrow> y \<in> Q \<and> sg_label (fst y) = l" "set xs \<subseteq> Q"
  shows "x \<in> Q \<and> sg_label (fst x) = l"
  using assms by (induction xs arbitrary: dd) (auto split: if_splits)

lemma by_label_get:
  "dict_get (by_label segs) l = Some (b, v) \<Longrightarrow> (b, v) \<in> set (measured_segments segs) \<and> sg_label b = l"
  using labelled_get [of "[]" "measured_segments segs" l "(b, v)" "set (measured_segments segs)"]
  by (simp add: by_label_def)

lemma paired_from_both:
  assumes "((x, va), (y, vb)) \<in> set (paired_segments period_a period_b)"
  shows "x \<in> set period_a \<and> sg_value x = Some va \<and> y \<in> set period_b \<and> sg_value y = Some vb
    \<and> sg_label y = sg_label x"
proof -
  have "(x, va) \<in> set (measured_segments period_a)" "dict_get (by_label period_b) (sg_label x) = Some (y, vb)"
    using assms by (auto simp: paired_segments_def split: option.splits)
  then show ?thesis using measured_segment by_label_get by metis
qed

text \<open>
  The contributions explain the whole change: the deltas add up to the total change, the shares of
  change add up to one unless the change is zero, and each delta is the difference of the values of two
  segments of that label, one of each period.
\<close>

theorem contributions_explain_the_change:
  assumes "contributions period_a period_b = (cs, d)" "cs \<noteq> []"
  shows "(\<Sum>c \<leftarrow> cs. cb_delta c) = d
    \<and> (d \<noteq> 0 \<longrightarrow> (\<Sum>c \<leftarrow> cs. cb_share_of_change c) = 1)
    \<and> sorted_wrt (\<lambda>x y. \<bar>cb_delta y\<bar> \<le> \<bar>cb_delta x\<bar>) cs
    \<and> (\<forall>c\<in>set cs. cb_delta c = cb_value_a c - cb_value_b c
        \<and> (\<exists>a\<in>set period_a. sg_label a = cb_label c \<and> sg_value a = Some (cb_value_a c) \<and> sg_ref a = cb_ref_a c)
        \<and> (\<exists>b\<in>set period_b. sg_label b = cb_label c \<and> sg_value b = Some (cb_value_b c) \<and> sg_ref b = cb_ref_b c))"
proof -
  let ?p = "paired_segments period_a period_b"
  let ?cs = "map (contribution_of d) ?p"
  have cs: "cs = sorted_desc (\<lambda>c. \<bar>cb_delta c\<bar>) ?cs" and d: "d = (\<Sum>p \<leftarrow> ?p. snd (fst p) - snd (snd p))"
    using assms by (auto simp: contributions_def Let_def split: if_splits)
  have "(\<Sum>c \<leftarrow> cs. cb_delta c) = (\<Sum>p \<leftarrow> ?p. snd (fst p) - snd (snd p))"
    by (simp add: cs sum_list_sorted_desc comp_def)
  moreover have "(\<Sum>c \<leftarrow> cs. cb_share_of_change c) = d / d" if "d \<noteq> 0"
    by (simp add: cs sum_list_sorted_desc comp_def that sum_list_divide flip: d)
  moreover have "\<exists>x va y vb. c = contribution_of d ((x, va), (y, vb)) \<and> ((x, va), (y, vb)) \<in> set ?p"
    if "c \<in> set cs" for c using that by (auto simp: cs)
  ultimately show ?thesis
    using d cs sorted_desc_sorted [of "\<lambda>c. \<bar>cb_delta c\<bar>" ?cs] paired_from_both
    by (auto; fastforce)
qed

section \<open>The funnel multiplies\<close>

text \<open>
  Conversions compose: over a funnel whose steps all have a nonzero rate there is one transition
  per consecutive pair, and the product of the conversions is the rate of the last step over that of
  the first; each transition loses exactly what it does not convert.
\<close>

theorem funnel_conversions_multiply:
  assumes "steps \<noteq> []" "\<forall>s\<in>set steps. fs_rate s \<noteq> 0"
  shows "prod_list (map mv_conversion (transitions steps)) = fs_rate (last steps) / fs_rate (hd steps)
    \<and> map mv_from (transitions steps) = map fs_metric_id (butlast steps)
    \<and> map mv_to (transitions steps) = map fs_metric_id (tl steps)
    \<and> (\<forall>m\<in>set (transitions steps). mv_conversion m + mv_drop_off m = 1)"
  using assms
  by (induction steps rule: transitions.induct) (auto simp: Let_def)

lemma first_max_ge:
  "k best \<le> k (first_max k best xs) \<and> (\<forall>x\<in>set xs. k x \<le> k (first_max k best xs))
    \<and> first_max k best xs \<in> insert best (set xs)"
proof (induction k best xs rule: first_max.induct)
  case (2 k best x xs)
  then show ?case by (cases "k best < k x") auto
qed simp

lemma worst_transition_worst:
  "worst_transition ms = Some w \<Longrightarrow> w \<in> set ms \<and> (\<forall>m\<in>set ms. mv_drop_off m \<le> mv_drop_off w)"
  using first_max_ge [of mv_drop_off "hd ms" "tl ms"]
  by (cases ms) (auto simp: worst_transition_def)

lemma contributions_explain_the_change_witness:
  "let seg = (\<lambda>l v r. \<lparr>sg_label = l, sg_value = Some v, sg_ref = r\<rparr>);
       (cs, d) = contributions [seg ''a'' 10 ''1'', seg ''b'' 5 ''2''] [seg ''b'' 9 ''3'', seg ''a'' 4 ''4'']
   in d = 2 \<and> (\<Sum>c \<leftarrow> cs. cb_delta c) = 2 \<and> (\<Sum>c \<leftarrow> cs. cb_share_of_change c) = 1"
proof -
  let ?seg = "\<lambda>l v r. \<lparr>sg_label = l, sg_value = Some v, sg_ref = r\<rparr>"
  let ?c = "\<lambda>l a b s r q. \<lparr>cb_label = l, cb_value_a = a, cb_value_b = b, cb_delta = a - b,
    cb_share_of_change = s, cb_ref_a = r, cb_ref_b = q\<rparr>"
  have c: "contributions [?seg ''a'' 10 ''1'', ?seg ''b'' 5 ''2''] [?seg ''b'' 9 ''3'', ?seg ''a'' 4 ''4'']
      = ([?c ''a'' 10 4 3 ''1'' ''4'', ?c ''b'' 5 9 (- 2) ''2'' ''3''], 2)"
    by code_simp
  from contributions_explain_the_change [OF c] c show ?thesis by (simp add: Let_def)
qed

lemma funnel_conversions_multiply_witness:
  "let step = (\<lambda>m i r. \<lparr>fs_metric_id = m, fs_position = i, fs_rate = r, fs_raw = r, fs_ref = m\<rparr>);
       steps = [step ''s'' 0 1, step ''p'' 1 (1 / 2), step ''c'' 2 (1 / 10)]
   in prod_list (map mv_conversion (transitions steps)) = 1 / 10"
  using funnel_conversions_multiply [of "[\<lparr>fs_metric_id = ''s'', fs_position = 0, fs_rate = 1, fs_raw = 1, fs_ref = ''s''\<rparr>,
      \<lparr>fs_metric_id = ''p'', fs_position = 1, fs_rate = 1 / 2, fs_raw = 1 / 2, fs_ref = ''p''\<rparr>,
      \<lparr>fs_metric_id = ''c'', fs_position = 2, fs_rate = 1 / 10, fs_raw = 1 / 10, fs_ref = ''c''\<rparr>]"]
  by (simp add: Let_def)

section \<open>Cohorts, periods, grains\<close>

text \<open>
  The best and the worst cohort bound every other, every cohort is reported by its distance from the
  median, and the spread is never negative.
\<close>

lemma cohort_spread_bounds:
  assumes "cohort_spread readings = Some s" "c \<in> set (cs_cohorts s)"
  shows "co_value (cs_worst s) \<le> co_value c \<and> co_value c \<le> co_value (cs_best s)
    \<and> co_delta_from_median c = co_value c - cs_median s \<and> 0 \<le> spread_of s
    \<and> (\<exists>r\<in>set readings. cr_label r = co_label c \<and> cr_value r = Some (co_value c) \<and> cr_ref r = co_ref c)"
proof -
  let ?m = "measured_cohorts readings" and ?k = "median (map snd (measured_cohorts readings))"
  let ?f = "\<lambda>(r, v). \<lparr>co_label = cr_label r, co_value = v, co_delta_from_median = v - ?k, co_ref = cr_ref r\<rparr>"
  have s: "cs_cohorts s = sorted_desc co_value (map ?f ?m)" "cs_best s = hd (cs_cohorts s)"
    "cs_worst s = last (cs_cohorts s)" "cs_median s = ?k"
    using assms(1) by (auto simp: cohort_spread_def Let_def split: if_splits)
  have "sorted_wrt (\<lambda>x y. co_value y \<le> co_value x) (cs_cohorts s)"
    unfolding s(1) by (rule sorted_desc_sorted)
  moreover have hd_last: "sorted_wrt (\<lambda>x y. co_value y \<le> co_value x) cs \<Longrightarrow> x \<in> set cs
      \<Longrightarrow> co_value (last cs) \<le> co_value x \<and> co_value x \<le> co_value (hd cs)" for cs x
    by (induction cs) (auto dest: last_in_set)
  ultimately have o: "co_value (cs_worst s) \<le> co_value c" "co_value c \<le> co_value (cs_best s)"
    using assms(2) s by metis+
  obtain r v where c: "c = ?f (r, v)" "(r, v) \<in> set ?m" using assms(2) by (auto simp: s(1))
  then have "r \<in> set readings" "cr_value r = Some v"
    by (auto simp: measured_cohorts_def split: option.splits)
  then show ?thesis using o c s(4) by (auto simp: spread_of_def)
qed

text \<open>The reference reading of a period: the last point of a key counts.\<close>

definition last_point :: "metric_point list \<Rightarrow> string \<times> (string \<times> string) list \<Rightarrow> metric_point option" where
  "last_point points key = find (\<lambda>p. point_key p = key) (rev points)"

lemma points_by_key_get: "dict_get (points_by_key points) key = last_point points key"
proof -
  have "dict_get (foldl (\<lambda>d p. dict_set d (point_key p) p) dd points) key
      = (case last_point points key of Some p \<Rightarrow> Some p | None \<Rightarrow> dict_get dd key)" for dd
  proof (induction points rule: rev_induct)
    case (snoc p ps)
    then show ?case by (auto simp: last_point_def)
  qed (simp add: last_point_def)
  then show ?thesis by (auto simp: points_by_key_def split: option.splits)
qed

lemma points_by_key_wf: "dict_wf (points_by_key points)"
proof -
  have "dict_wf dd \<Longrightarrow> dict_wf (foldl (\<lambda>d p. dict_set d (point_key p) p) dd points)" for dd
    by (induction points arbitrary: dd) auto
  then show ?thesis by (simp add: points_by_key_def)
qed

lemma points_by_key_member:
  "(key, a) \<in> set (points_by_key points) \<longleftrightarrow> last_point points key = Some a"
  using points_by_key_wf [of points] dict_wf_get points_by_key_get dict_get_SomeD by metis

lemma last_point_key: "last_point points key = Some p \<Longrightarrow> point_key p = key \<and> p \<in> set points"
  unfolding last_point_def by (auto dest!: find_SomeD)

lemma period_deltas_member:
  "d \<in> set (period_deltas points_a points_b)
     \<longleftrightarrow> (\<exists>key a b. last_point points_a key = Some a \<and> last_point points_b key = Some b
          \<and> delta_of a b = Some d)"
  (is "?l \<longleftrightarrow> ?r")
proof
  assume ?l
  then obtain key a where k: "(key, a) \<in> set (points_by_key points_a)"
    and "d \<in> set (case last_point points_b key of None \<Rightarrow> []
        | Some b \<Rightarrow> (case delta_of a b of Some d \<Rightarrow> [d] | None \<Rightarrow> []))"
    unfolding period_deltas_def points_by_key_get by auto
  then have "\<exists>b. last_point points_b key = Some b \<and> delta_of a b = Some d"
    by (simp split: option.splits) metis
  with k show ?r unfolding points_by_key_member by blast
next
  assume ?r
  then obtain key a b where k: "last_point points_a key = Some a" "last_point points_b key = Some b"
    "delta_of a b = Some d" by blast
  then have "(key, a) \<in> set (points_by_key points_a)" by (simp only: points_by_key_member)
  moreover have "d \<in> set (case (key, a) of (key, a) \<Rightarrow> case last_point points_b key of None \<Rightarrow> []
      | Some b \<Rightarrow> (case delta_of a b of Some d \<Rightarrow> [d] | None \<Rightarrow> []))" using k by simp
  ultimately show ?l unfolding period_deltas_def points_by_key_get set_concat set_map by blast
qed

lemma delta_of_Some:
  "delta_of a b = Some d \<longleftrightarrow> (\<exists>va vb. mp_value a = Some va \<and> mp_value b = Some vb
     \<and> d = \<lparr>pd_metric = mp_metric a, pd_dimensions = mp_dimensions a, pd_delta = va - vb, pd_a = a, pd_b = b\<rparr>)"
  by (auto simp: delta_of_def split: option.splits)

lemma distinct_concat_keys:
  assumes "distinct (map fst xs)" "\<forall>x\<in>set xs. \<forall>d\<in>set (f x). key d = fst x" "\<forall>x\<in>set xs. length (f x) \<le> 1"
  shows "distinct (map key (concat (map f xs)))"
  using assms
proof (induction xs)
  case (Cons x xs)
  have "distinct (map key (f x))" using Cons.prems(3) by (cases "f x") auto
  moreover have "key d \<noteq> key e" if "d \<in> set (f x)" "y \<in> set xs" "e \<in> set (f y)" for d e y
    using Cons.prems(1,2) that by force
  ultimately show ?case using Cons by (auto simp: image_iff)
qed simp

text \<open>
  Comparing two periods yields exactly one delta for each metric and dimension slice that has a
  value as the last point of both periods, and it is the first value less the second.
\<close>

theorem period_deltas_are_exact:
  "(d \<in> set (period_deltas points_a points_b)
     \<longleftrightarrow> (\<exists>key a b va vb. last_point points_a key = Some a \<and> last_point points_b key = Some b
          \<and> mp_value a = Some va \<and> mp_value b = Some vb
          \<and> d = \<lparr>pd_metric = mp_metric a, pd_dimensions = mp_dimensions a, pd_delta = va - vb,
                 pd_a = a, pd_b = b\<rparr>))
   \<and> distinct (map (\<lambda>d. point_key (pd_a d)) (period_deltas points_a points_b))"
proof (rule conjI, goal_cases)
  case 1 show ?case unfolding period_deltas_member delta_of_Some by blast
next
  case 2
  have "distinct (map fst (points_by_key points_a))"
    using points_by_key_wf by (simp add: dict_wf_def)
  moreover have "point_key (pd_a d) = key" if "(key, a) \<in> set (points_by_key points_a)"
    "delta_of a b = Some d" for key a b d
    using that last_point_key unfolding points_by_key_member delta_of_Some by fastforce
  ultimately show ?case
    unfolding period_deltas_def points_by_key_get
    by (intro distinct_concat_keys) (auto split: option.splits)
qed

section \<open>Comparable evidence\<close>

lemma validate_grain_set_None:
  "evidence \<noteq> [] \<Longrightarrow> validate_grain_set evidence = None
     \<longleftrightarrow> \<not> 1 < length (remdups (map epl_grain evidence))
       \<and> (\<forall>allowed. dict_get allowed_span_days (epl_grain (hd evidence)) = Some allowed
            \<longrightarrow> find (out_of_span allowed) evidence = None)
       \<and> \<not> 1 < length (remdups (map evidence_span evidence))"
  by (simp add: validate_grain_set_def list.case_eq_if Let_def split: option.split)

lemma all_agree_iff:
  assumes "x \<in> E"
  shows "(\<forall>e\<in>E. g e = g x) \<and> (\<forall>e\<in>E. l e = l x) \<and> (\<forall>a. D (g x) = Some a \<longrightarrow> (\<forall>e\<in>E. Q a e))
    \<longleftrightarrow> (\<forall>e\<in>E. \<forall>f\<in>E. g e = g f \<and> l e = l f) \<and> (\<forall>e\<in>E. \<forall>a. D (g e) = Some a \<longrightarrow> Q a e)"
proof (rule iffI, goal_cases)
  case 1
  then have "g e = g x" "l e = l x" if "e \<in> E" for e using that by blast+
  with 1 show ?case by simp
next
  case 2
  then have "g e = g x" "l e = l x" if "e \<in> E" for e using that assms by blast+
  with 2 show ?case by simp
qed

text \<open>
  The grain precondition accepts an evidence set exactly when it can be compared like for like:
  one grain, one length of period, and that length is one the grain allows.
\<close>

theorem grain_set_is_comparable:
  "validate_grain_set evidence = None
     \<longleftrightarrow> (\<forall>e\<in>set evidence. \<forall>f\<in>set evidence. epl_grain e = epl_grain f \<and> evidence_span e = evidence_span f)
       \<and> (\<forall>e\<in>set evidence. \<forall>low high. dict_get allowed_span_days (epl_grain e) = Some (low, high)
            \<longrightarrow> low \<le> evidence_span e \<and> evidence_span e \<le> high)"
proof (cases evidence)
  case (Cons first rest)
  have one: "\<not> 1 < length (remdups (map k evidence)) \<longleftrightarrow> (\<forall>e\<in>set evidence. k e = k first)"
    for k :: "grained_evidence \<Rightarrow> 'b"
  proof -
    have "length (remdups (map k evidence)) = card (k ` set evidence)"
      by (simp add: length_remdups_card_conv)
    moreover have "k ` set evidence \<noteq> {}" "finite (k ` set evidence)" by (simp_all add: Cons)
    ultimately have "\<not> 1 < length (remdups (map k evidence)) \<longleftrightarrow> card (k ` set evidence) = 1"
      by (metis One_nat_def card_gt_0_iff less_one linorder_neqE_nat not_less_iff_gr_or_eq)
    also have "\<dots> \<longleftrightarrow> (\<forall>e\<in>set evidence. k e = k first)"
      by (auto simp: card_1_singleton_iff Cons)
    finally show ?thesis .
  qed
  have ne: "evidence \<noteq> []" and hd: "hd evidence = first" by (simp_all add: Cons)
  have g: "\<not> 1 < length (remdups (map epl_grain evidence)) \<longleftrightarrow> (\<forall>e\<in>set evidence. epl_grain e = epl_grain first)"
    and l: "\<not> 1 < length (remdups (map evidence_span evidence)) \<longleftrightarrow> (\<forall>e\<in>set evidence. evidence_span e = evidence_span first)"
    by (rule one)+
  have "validate_grain_set evidence = None \<longleftrightarrow> (\<forall>e\<in>set evidence. epl_grain e = epl_grain first)
      \<and> (\<forall>e\<in>set evidence. evidence_span e = evidence_span first)
      \<and> (\<forall>allowed. dict_get allowed_span_days (epl_grain first) = Some allowed
           \<longrightarrow> (\<forall>e\<in>set evidence. \<not> out_of_span allowed e))"
    unfolding g [symmetric] l [symmetric]
    unfolding validate_grain_set_None [OF ne] find_None_iff hd by blast
  also have "\<dots> \<longleftrightarrow> (\<forall>e\<in>set evidence. \<forall>f\<in>set evidence. epl_grain e = epl_grain f \<and> evidence_span e = evidence_span f)
       \<and> (\<forall>e\<in>set evidence. \<forall>low high. dict_get allowed_span_days (epl_grain e) = Some (low, high)
            \<longrightarrow> low \<le> evidence_span e \<and> evidence_span e \<le> high)"
    unfolding out_of_span_def not_not
    by (subst all_agree_iff [where g = epl_grain]) (simp_all only: Cons list.set_intros split_paired_All fst_conv snd_conv)
  finally show ?thesis .
qed (simp add: validate_grain_set_def)
lemma grain_set_is_comparable_witness:
  "let e = (\<lambda>start stop. \<lparr>epl_metric_id = ''m'', epl_dimensions = [], epl_period_start = start, epl_period_end = stop,
      epl_value = Some 1, epl_fetched_at = 0, epl_grain = ''day''\<rparr>)
   in validate_grain_set [e (utc 0) (utc 0), e (utc 86400000000) (utc 86400000000)] = None
     \<and> validate_grain_set [e (utc 0) (utc 345600000000)] \<noteq> None"
proof -
  let ?e = "\<lambda>start stop. \<lparr>epl_metric_id = ''m'', epl_dimensions = [], epl_period_start = start, epl_period_end = stop,
      epl_value = Some 1, epl_fetched_at = 0, epl_grain = ''day''\<rparr>"
  have "evidence_span (?e (utc 0) (utc 0)) = 1" "evidence_span (?e (utc 86400000000) (utc 86400000000)) = 1" "evidence_span (?e (utc 0) (utc 345600000000)) = 5"
    by (simp_all add: evidence_span_def period_span_days_def day_number_def utc_def)
  moreover have "dict_get allowed_span_days ''day'' = Some (1, 1)" by (simp add: allowed_span_days_def)
  ultimately show ?thesis
    using grain_set_is_comparable [of "[?e (utc 0) (utc 0), ?e (utc 86400000000) (utc 86400000000)]"]
      grain_set_is_comparable [of "[?e (utc 0) (utc 345600000000)]"] by (simp add: Let_def)
qed

end
