(* ===== verification/Analytics_Tools.thy ===== *)
theory Analytics_Tools
  imports Analytics Time_Range
begin

text \<open>
  The analytics toolset, \<^verbatim>\<open>toolsets/analytics.py\<close>: the six tools the agent calls on evidence that was
  already fetched, over the artifact store of \<^verbatim>\<open>state/artifacts.py\<close>. A tool first decides what to
  write: it refuses, or it has a list of findings to write in order. The tools read the store before
  they write and never after, so the decision is a function of the store as it was found.

  Parsing of payloads, the clock, drawn identifiers and the rendering of statements are arguments;
  summaries are left out. Warnings keep the numbers they are rendered from.
\<close>

section \<open>The artifact store\<close>

type_synonym artifact_store = "(string, artifact) dict"

definition artifact_store_put :: "artifact \<Rightarrow> artifact_store \<Rightarrow> artifact result \<times> artifact_store" where
  "artifact_store_put a s =
     (if dict_get s (art_id a) \<noteq> None then (Inl (ValueError ''artifact already exists''), s)
      else case require_provenance a of
        Inl e \<Rightarrow> (Inl e, s)
      | Inr stored \<Rightarrow> (Inr stored, dict_set s (art_id stored) stored))"

definition store_get_many :: "artifact_store \<Rightarrow> string list \<Rightarrow> artifact list" where
  "store_get_many s ids = concat (map (\<lambda>i. case dict_get s i of Some a \<Rightarrow> [a] | None \<Rightarrow> []) ids)"

definition store_list_for_mission :: "artifact_store \<Rightarrow> string \<Rightarrow> artifact list" where
  "store_list_for_mission s mission = filter (\<lambda>a. art_mission_id a = Some mission) (dict_values s)"

section \<open>Results and findings\<close>

datatype tool_warning =
    WText string
  | WFolded nat rat
  | WTotalUnchanged

record tool_reply =
  tl_success :: bool
  tl_artifact_ids :: "string list"
  tl_error_code :: "string option"
  tl_warnings :: "tool_warning list"
  tl_retryable :: bool
  tl_provenance :: artifact_provenance

text \<open>The statement of a finding, as what its text is rendered from.\<close>

datatype statement =
    Compared string "(string, string) dict" rat
  | AnomalyFound string "(string, string) dict" zscore_result stamp nat string
  | Moved string string string rat rat
  | Shared string string string rat rat
  | Decomposed string string nat string rat rat
  | Converted string string rat rat
  | CohortFound string string rat rat rat

record finding =
  fd_type :: string
  fd_statement :: statement
  fd_evidence_ids :: "string list"
  fd_metrics :: "(string, rat) dict"

record tool_env =
  te_parse :: "json_obj \<Rightarrow> grained_evidence option"
  te_render :: "statement \<Rightarrow> string"
  te_ids :: "nat \<Rightarrow> string"
  te_now :: moment
  te_workspace :: string
  te_mission :: string

text \<open>The store and the number of identifiers drawn so far.\<close>

record tool_state =
  ts_store :: artifact_store
  ts_drawn :: nat

definition calculation_version :: string where "calculation_version = ''analytics.v1''"

definition no_provenance :: artifact_provenance where
  "no_provenance = \<lparr>prov_evidence_ids = [], prov_calculation_version = None, prov_query_version = None,
     prov_prompt_version = None, prov_tool_version = None, prov_model_version = None,
     prov_source_metadata = []\<rparr>"

definition tool_provenance :: "string list \<Rightarrow> artifact_provenance" where
  "tool_provenance ids = no_provenance\<lparr>prov_evidence_ids := ids,
     prov_calculation_version := Some calculation_version\<rparr>"

definition refuse :: "string \<Rightarrow> tool_warning list \<Rightarrow> tool_reply" where
  "refuse code warnings = \<lparr>tl_success = False, tl_artifact_ids = [], tl_error_code = Some code,
     tl_warnings = warnings, tl_retryable = False, tl_provenance = no_provenance\<rparr>"

definition succeed :: "string list \<Rightarrow> string list \<Rightarrow> tool_warning list \<Rightarrow> tool_reply" where
  "succeed ids artifact_ids warnings = \<lparr>tl_success = True, tl_artifact_ids = artifact_ids,
     tl_error_code = None, tl_warnings = warnings, tl_retryable = False,
     tl_provenance = tool_provenance ids\<rparr>"

text \<open>\<^verbatim>\<open>Finding(...).model_dump(mode="json")\<close>\<close>

definition dump_finding :: "(statement \<Rightarrow> string) \<Rightarrow> finding \<Rightarrow> json_obj" where
  "dump_finding render f =
     [(''finding_type'', JStr (fd_type f)), (''statement'', JStr (render (fd_statement f))),
      (''evidence_ids'', JList (map JStr (fd_evidence_ids f))),
      (''metrics'', JObj (map (\<lambda>(k, v). (k, JNum v)) (fd_metrics f))),
      (''status'', JStr ''ACTIVE''), (''supersedes'', JNull)]"

definition finding_artifact :: "tool_env \<Rightarrow> string \<Rightarrow> finding \<Rightarrow> artifact" where
  "finding_artifact env aid f =
     \<lparr>art_id = aid, art_workspace_id = te_workspace env, art_artifact_type = ''finding'',
      art_payload = dump_finding (te_render env) f, art_classification = Derived,
      art_evidence_ids = fd_evidence_ids f, art_provenance = tool_provenance (fd_evidence_ids f),
      art_mission_id = Some (te_mission env), art_thread_id = None, art_run_id = None,
      art_message_id = None, art_created_at = te_now env\<rparr>"

definition write_finding :: "tool_env \<Rightarrow> finding \<Rightarrow> tool_state \<Rightarrow> string result \<times> tool_state" where
  "write_finding env f st =
     (if fd_evidence_ids f = [] then (Inl (ValueError ''evidence_ids: at least 1 item''), st)
      else
        (let st' = st\<lparr>ts_drawn := ts_drawn st + 1\<rparr> in
         case validate_classification_boundary (finding_artifact env (te_ids env (ts_drawn st)) f) of
           Inl e \<Rightarrow> (Inl e, st')
         | Inr a \<Rightarrow>
             (case artifact_store_put a (ts_store st') of
                (Inl e, s) \<Rightarrow> (Inl e, st'\<lparr>ts_store := s\<rparr>)
              | (Inr stored, s) \<Rightarrow> (Inr (art_id stored), st'\<lparr>ts_store := s\<rparr>))))"

fun write_findings :: "tool_env \<Rightarrow> finding list \<Rightarrow> tool_state \<Rightarrow> string list result \<times> tool_state" where
  "write_findings env [] st = (Inr [], st)"
| "write_findings env (f # fs) st =
     (case write_finding env f st of
        (Inl e, st') \<Rightarrow> (Inl e, st')
      | (Inr aid, st') \<Rightarrow>
          (case write_findings env fs st' of
             (Inl e, st'') \<Rightarrow> (Inl e, st'')
           | (Inr aids, st'') \<Rightarrow> (Inr (aid # aids), st'')))"

text \<open>
  What a tool decides, and how it ends. \<open>Broken\<close> is an exception of the tool's own code after it has
  written some findings.
\<close>

datatype tool_decision =
    Refused string "tool_warning list"
  | Findings "finding list" "tool_warning list"
  | Broken "finding list" error

definition conclude ::
  "tool_env \<Rightarrow> string list \<Rightarrow> tool_decision \<Rightarrow> tool_state \<Rightarrow> tool_reply result \<times> tool_state" where
  "conclude env ids d st =
     (case d of
        Refused code warnings \<Rightarrow> (Inr (refuse code warnings), st)
      | Findings fs warnings \<Rightarrow>
          (case write_findings env fs st of
             (Inl e, st') \<Rightarrow> (Inl e, st')
           | (Inr aids, st') \<Rightarrow> (Inr (succeed ids aids warnings), st'))
      | Broken fs e \<Rightarrow>
          (case write_findings env fs st of
             (Inl e', st') \<Rightarrow> (Inl e', st')
           | (Inr aids, st') \<Rightarrow> (Inl e, st')))"

section \<open>Evidence\<close>

text \<open>Loading; every refusal of it is INSUFFICIENT_EVIDENCE.\<close>

fun parse_all :: "tool_env \<Rightarrow> artifact list \<Rightarrow> grained_evidence list option" where
  "parse_all env [] = Some []"
| "parse_all env (a # rest) =
     (if art_artifact_type a \<noteq> ''evidence'' then None
      else case te_parse env (art_payload a) of
        None \<Rightarrow> None
      | Some e \<Rightarrow> map_option (Cons e) (parse_all env rest))"

definition load_evidence :: "tool_env \<Rightarrow> artifact_store \<Rightarrow> string list \<Rightarrow> grained_evidence list option" where
  "load_evidence env s ids =
     (if ids = [] then None
      else
        (let artifacts = store_get_many s ids; found = set (map art_id artifacts) in
         if filter (\<lambda>i. i \<notin> found) ids \<noteq> [] then None else parse_all env artifacts))"

text \<open>The common beginning of the tools: load the evidence, then check its grain.\<close>

definition comparable :: "tool_env \<Rightarrow> artifact_store \<Rightarrow> string list \<Rightarrow> (grained_evidence list \<Rightarrow> tool_decision) \<Rightarrow> tool_decision" where
  "comparable env s ids continue =
     (case load_evidence env s ids of
        None \<Rightarrow> Refused ''INSUFFICIENT_EVIDENCE'' []
      | Some evidence \<Rightarrow>
          if validate_grain_set evidence \<noteq> None then Refused ''EVIDENCE_GRAIN_MISMATCH'' []
          else continue evidence)"

section \<open>The tools\<close>

text \<open>The periods are keys of dictionaries: they are compared with \<^verbatim>\<open>==\<close>.\<close>

type_synonym period_key = "(bool \<times> int) \<times> (bool \<times> int)"

definition evidence_period :: "grained_evidence \<Rightarrow> period_key" where
  "evidence_period e = (stamp_key (epl_period_start e), stamp_key (epl_period_end e))"

definition point_of :: "string \<times> grained_evidence \<Rightarrow> metric_point" where
  "point_of p = \<lparr>mp_metric = epl_metric_id (snd p), mp_dimensions = epl_dimensions (snd p),
     mp_value = epl_value (snd p), mp_ref = fst p\<rparr>"

definition points_in :: "period_key \<Rightarrow> (string \<times> grained_evidence) list \<Rightarrow> metric_point list" where
  "points_in period rows = map point_of (filter (\<lambda>p. evidence_period (snd p) = period) rows)"

definition comparison_finding :: "period_delta \<Rightarrow> finding list" where
  "comparison_finding d =
     (case (mp_value (pd_a d), mp_value (pd_b d)) of
        (Some va, Some vb) \<Rightarrow>
          [\<lparr>fd_type = ''period_comparison'',
            fd_statement = Compared (pd_metric d) (sort (pd_dimensions d)) (pd_delta d),
            fd_evidence_ids = [mp_ref (pd_a d), mp_ref (pd_b d)],
            fd_metrics = [(''delta'', pd_delta d), (''value_a'', va), (''value_b'', vb)]
              @ (if vb \<noteq> 0 then [(''delta_pct'', pd_delta d / vb * 100)] else [])\<rparr>]
      | _ \<Rightarrow> [])"

definition decide_comparison :: "string list \<Rightarrow> grained_evidence list \<Rightarrow> tool_decision" where
  "decide_comparison ids evidence =
     (case dedupe (map evidence_period evidence) of
        [period_a, period_b] \<Rightarrow>
          (let rows = zip ids evidence;
               deltas = period_deltas (points_in period_a rows) (points_in period_b rows)
           in if deltas = [] then Refused ''INSUFFICIENT_EVIDENCE'' []
              else Findings (concat (map comparison_finding deltas)) [])
      | _ \<Rightarrow> Refused ''INSUFFICIENT_EVIDENCE'' [])"

definition compare_periods :: "tool_env \<Rightarrow> string list \<Rightarrow> tool_state \<Rightarrow> tool_reply result \<times> tool_state" where
  "compare_periods env ids st =
     conclude env ids (comparable env (ts_store st) ids (decide_comparison ids)) st"

text \<open>\<^verbatim>\<open>d.setdefault(k, []).append(x)\<close>\<close>

definition dict_append :: "('k, 'v list) dict \<Rightarrow> 'k \<Rightarrow> 'v \<Rightarrow> ('k, 'v list) dict" where
  "dict_append d k x = dict_set d k ((case dict_get d k of Some xs \<Rightarrow> xs | None \<Rightarrow> []) @ [x])"

text \<open>One series per metric and dimension slice, in the order of first appearance.\<close>

definition slice_key :: "grained_evidence \<Rightarrow> string \<times> (string, string) dict" where
  "slice_key e = (epl_metric_id e, sort (epl_dimensions e))"

definition group_by_series ::
  "grained_evidence list \<Rightarrow> string list \<Rightarrow> (string \<times> (string, string) dict, (string \<times> grained_evidence) list) dict" where
  "group_by_series evidence ids =
     foldl (\<lambda>d p. dict_append d (slice_key (snd p)) p) [] (zip ids evidence)"

text \<open>The points of a series by \<^verbatim>\<open>period_start\<close>, which naive and aware starts together do not allow.\<close>

definition usable_points ::
  "(string \<times> grained_evidence) list \<Rightarrow> (string \<times> grained_evidence \<times> rat) list result" where
  "usable_points series =
     map_sum id (\<lambda>ordered. concat (map (\<lambda>(aid, e). case epl_value e of Some v \<Rightarrow> [(aid, e, v)] | None \<Rightarrow> []) ordered))
       (sorted_by_stamp (\<lambda>p. epl_period_start (snd p)) series)"

definition anomaly_finding ::
  "string \<times> (string, string) dict \<Rightarrow> (string \<times> grained_evidence \<times> rat) list \<Rightarrow> zscore_result \<Rightarrow> finding" where
  "anomaly_finding key usable r =
     (let observed = fst (snd (last usable)) in
      \<lparr>fd_type = ''anomaly'',
       fd_statement = AnomalyFound (fst key) (snd key) r (epl_period_start observed)
         (length usable - 1) (epl_grain observed),
       fd_evidence_ids = map fst usable,
       fd_metrics = [(''z_score'', zs_score r), (''observed'', zs_observed r), (''expected'', zs_expected r),
           (''expected_low'', fst (zs_expected_range r)), (''expected_high'', snd (zs_expected_range r))]
         @ (case zs_deviation_pct r of Some p \<Rightarrow> [(''deviation_pct'', p)] | None \<Rightarrow> [])\<rparr>)"

definition score_series ::
  "(string \<times> (string, string) dict) \<times> (string \<times> grained_evidence) list
     \<Rightarrow> (finding list \<times> tool_warning list) result" where
  "score_series entry =
     (let (key, series) = entry in
      result_bind (usable_points series) (\<lambda>usable.
        let values = map (snd \<circ> snd) usable in
        if length usable < 2
        then Inr ([], [WText (fst key @ '': '' @ nat_str (length usable)
                @ '' usable point(s), need >=2 (1 observation + >=1 baseline)'')])
        else map_sum id (\<lambda>r. (if zs_is_anomaly r then [anomaly_finding key usable r] else [], []))
          (robust_zscore (butlast values) (last values) 3)))"

text \<open>The loop over the series: what it writes, what it warns of, and where it breaks off.\<close>

fun score_all ::
  "((string \<times> (string, string) dict) \<times> (string \<times> grained_evidence) list) list
     \<Rightarrow> finding list \<times> tool_warning list \<times> error option" where
  "score_all [] = ([], [], None)"
| "score_all (entry # rest) =
     (case score_series entry of
        Inl e \<Rightarrow> ([], [], Some e)
      | Inr (fs, ws) \<Rightarrow> (let (gs, vs, broken) = score_all rest in (fs @ gs, ws @ vs, broken)))"

definition decide_anomalies :: "string list \<Rightarrow> grained_evidence list \<Rightarrow> tool_decision" where
  "decide_anomalies ids evidence =
     (let (findings, warnings, broken) = score_all (group_by_series evidence ids) in
      case broken of
        Some e \<Rightarrow> Broken findings e
      | None \<Rightarrow>
          if findings = [] \<and> warnings \<noteq> [] then Refused ''INSUFFICIENT_EVIDENCE'' []
          else Findings findings warnings)"

definition detect_anomalies ::
  "tool_env \<Rightarrow> string list \<Rightarrow> string \<Rightarrow> tool_state \<Rightarrow> tool_reply result \<times> tool_state" where
  "detect_anomalies env ids method st =
     conclude env ids
       (if method \<notin> {''robust_zscore'', ''mad''} then Refused ''METHOD_NOT_AVAILABLE'' []
        else comparable env (ts_store st) ids (decide_anomalies ids)) st"

text \<open>The segments of a dimension, by period.\<close>

definition segments_for_period ::
  "grained_evidence list \<Rightarrow> string list \<Rightarrow> string \<Rightarrow> (period_key, segment list) dict" where
  "segments_for_period evidence ids dimension =
     foldl (\<lambda>d (aid, e).
         case dict_get (epl_dimensions e) dimension of
           None \<Rightarrow> d
         | Some label \<Rightarrow>
             if label = [] then d
             else dict_append d (evidence_period e) \<lparr>sg_label = label, sg_value = epl_value e, sg_ref = aid\<rparr>)
       [] (zip ids evidence)"

definition change_finding :: "string \<Rightarrow> string \<Rightarrow> contribution \<Rightarrow> finding" where
  "change_finding metric dimension c =
     \<lparr>fd_type = ''contribution'',
      fd_statement = Moved metric dimension (cb_label c) (cb_delta c) (cb_share_of_change c),
      fd_evidence_ids = [cb_ref_a c, cb_ref_b c],
      fd_metrics = [(''delta'', cb_delta c), (''value_a'', cb_value_a c), (''value_b'', cb_value_b c),
        (''share_of_change'', cb_share_of_change c)]\<rparr>"

definition share_finding :: "string \<Rightarrow> string \<Rightarrow> rat \<Rightarrow> share \<Rightarrow> finding" where
  "share_finding metric dimension whole s =
     \<lparr>fd_type = ''contribution'',
      fd_statement = Shared metric dimension (sh_label s) (sh_value s) (sh_share s),
      fd_evidence_ids = [sh_ref s],
      fd_metrics = [(''value'', sh_value s), (''share'', sh_share s), (''total'', whole)]\<rparr>"

definition observed_total_warning :: tool_warning where
  "observed_total_warning = WText (''shares are of the summed segments, not an independently fetched total -- ''
     @ ''drilldown discards the parent total and skips null rows'')"

definition decide_contribution :: "string list \<Rightarrow> string \<Rightarrow> grained_evidence list \<Rightarrow> tool_decision" where
  "decide_contribution ids dimension evidence =
     (let metric = epl_metric_id (hd evidence) in
      case dict_values (segments_for_period evidence ids dimension) of
        [] \<Rightarrow> Refused ''INSUFFICIENT_EVIDENCE'' [WText ''policy:no_dimension_stamped_evidence'']
      | [segments] \<Rightarrow>
          (case shares segments None of
             None \<Rightarrow> Refused ''INSUFFICIENT_EVIDENCE'' []
           | Some r \<Rightarrow>
               if sr_shares r = [] then Refused ''INSUFFICIENT_EVIDENCE'' []
               else Findings (map (share_finding metric dimension (sr_total r)) (sr_shares r))
                 (observed_total_warning
                  # (if sr_other_count r \<noteq> 0 then [WFolded (sr_other_count r) (sr_other_value r)] else [])))
      | [segments_a, segments_b] \<Rightarrow>
          (let (rows, total_delta) = contributions segments_a segments_b in
           if rows = [] then Refused ''INSUFFICIENT_EVIDENCE'' []
           else Findings (map (change_finding metric dimension) rows)
             (if total_delta = 0 then [WTotalUnchanged] else []))
      | _ \<Rightarrow> Refused ''INSUFFICIENT_EVIDENCE'' [])"

definition contribution_analysis ::
  "tool_env \<Rightarrow> string list \<Rightarrow> string \<Rightarrow> tool_state \<Rightarrow> tool_reply result \<times> tool_state" where
  "contribution_analysis env ids dimension st =
     conclude env ids (comparable env (ts_store st) ids (decide_contribution ids dimension)) st"

definition decomposition_finding :: "string \<Rightarrow> string \<Rightarrow> share_result \<Rightarrow> finding" where
  "decomposition_finding metric dimension r =
     (let top = hd (sr_shares r); n = length (sr_shares r) in
      \<lparr>fd_type = ''segment_decomposition'',
       fd_statement = Decomposed metric dimension n (sh_label top) (sh_share top) (sr_total r),
       fd_evidence_ids = map sh_ref (sr_shares r),
       fd_metrics = [(''segments'', of_nat n), (''total'', sr_total r), (''top_share'', sh_share top),
         (''top_value'', sh_value top), (''other_count'', of_nat (sr_other_count r))]\<rparr>)"

definition decompose_by ::
  "string list \<Rightarrow> grained_evidence list \<Rightarrow> string \<Rightarrow> string \<Rightarrow> finding list \<times> tool_warning list" where
  "decompose_by ids evidence metric dimension =
     (case dict_values (segments_for_period evidence ids dimension) of
        [] \<Rightarrow> ([], [WText (''policy:no_dimension_stamped_evidence:'' @ dimension)])
      | [segments] \<Rightarrow>
          (case shares segments None of
             None \<Rightarrow> ([], [WText (''policy:no_dimension_stamped_evidence:'' @ dimension)])
           | Some r \<Rightarrow>
               if sr_shares r = [] then ([], [WText (''policy:no_dimension_stamped_evidence:'' @ dimension)])
               else ([decomposition_finding metric dimension r], []))
      | _ \<Rightarrow> ([], [WText (''policy:pooled_segment_evidence:'' @ dimension)]))"

definition decide_decomposition :: "string list \<Rightarrow> string list \<Rightarrow> grained_evidence list \<Rightarrow> tool_decision" where
  "decide_decomposition ids dimensions evidence =
     (if \<not> list_ex (\<lambda>e. epl_dimensions e \<noteq> []) evidence
      then Refused ''INSUFFICIENT_EVIDENCE'' [WText ''policy:pooled_segment_evidence'']
      else
        (let metric = epl_metric_id (hd evidence);
             parts = map (decompose_by ids evidence metric) dimensions;
             findings = concat (map fst parts)
         in if findings = [] then Refused ''INSUFFICIENT_EVIDENCE'' []
            else Findings findings (concat (map snd parts))))"

definition segment_decomposition ::
  "tool_env \<Rightarrow> string list \<Rightarrow> string list \<Rightarrow> tool_state \<Rightarrow> tool_reply result \<times> tool_state" where
  "segment_decomposition env ids dimensions st =
     conclude env ids
       (if dimensions = [] then Refused ''INSUFFICIENT_EVIDENCE'' []
        else comparable env (ts_store st) ids (decide_decomposition ids dimensions)) st"

definition reading_of :: "string \<times> grained_evidence \<Rightarrow> step_reading" where
  "reading_of p = \<lparr>rd_metric_id = epl_metric_id (snd p), rd_value = epl_value (snd p), rd_ref = fst p\<rparr>"

definition move_finding :: "funnel_step list \<Rightarrow> funnel_move \<Rightarrow> finding" where
  "move_finding steps m =
     \<lparr>fd_type = ''funnel_decomposition'',
      fd_statement = Converted (mv_from m) (mv_to m) (mv_conversion m) (mv_drop_off m),
      fd_evidence_ids = map fs_ref steps,
      fd_metrics = [(''conversion'', mv_conversion m), (''drop_off'', mv_drop_off m)]\<rparr>"

fun comma_joined :: "string list \<Rightarrow> string" where
  "comma_joined [] = []"
| "comma_joined [x] = x"
| "comma_joined (x # xs) = x @ '','' @ comma_joined xs"

definition decide_funnel :: "string list \<Rightarrow> grained_evidence list \<Rightarrow> tool_decision" where
  "decide_funnel ids evidence =
     (let readings = map reading_of (zip ids evidence);
          steps = ordered_steps readings; unknown = unknown_steps readings;
          warnings = (if unknown \<noteq> [] then [WText (''policy:unknown_funnel_step:'' @ comma_joined unknown)] else [])
      in if length steps < 2
         then Refused ''INSUFFICIENT_EVIDENCE'' (WText ''policy:no_recognized_funnel_steps'' # warnings)
         else (let moves = transitions steps in
           if moves = [] then Refused ''INSUFFICIENT_EVIDENCE'' []
           else Findings (map (move_finding steps) moves) warnings))"

definition funnel_decomposition :: "tool_env \<Rightarrow> string list \<Rightarrow> tool_state \<Rightarrow> tool_reply result \<times> tool_state" where
  "funnel_decomposition env ids st =
     conclude env ids (comparable env (ts_store st) ids (decide_funnel ids)) st"

fun slash_joined :: "string list \<Rightarrow> string" where
  "slash_joined [] = []"
| "slash_joined [x] = x"
| "slash_joined (x # xs) = x @ ''/'' @ slash_joined xs"

definition cohort_reading_of :: "string \<times> grained_evidence \<Rightarrow> cohort_reading" where
  "cohort_reading_of p = \<lparr>cr_label = slash_joined (map snd (sort (epl_dimensions (snd p)))),
     cr_value = epl_value (snd p), cr_period_start = Some (epl_period_start (snd p)), cr_ref = fst p\<rparr>"

definition cohort_finding :: "string \<Rightarrow> rat \<Rightarrow> cohort \<Rightarrow> finding" where
  "cohort_finding metric m c =
     \<lparr>fd_type = ''cohort_analysis'',
      fd_statement = CohortFound metric (co_label c) (co_value c) (co_delta_from_median c) m,
      fd_evidence_ids = [co_ref c],
      fd_metrics = [(''value'', co_value c), (''delta_from_median'', co_delta_from_median c), (''cohort_median'', m)]\<rparr>"

definition decide_cohorts :: "string list \<Rightarrow> grained_evidence list \<Rightarrow> tool_decision" where
  "decide_cohorts ids evidence =
     (let (readings, by_period) = label_readings (map cohort_reading_of (zip ids evidence)) in
      case cohort_spread readings of
        None \<Rightarrow> Refused ''INSUFFICIENT_EVIDENCE'' [WText ''policy:single_cohort'']
      | Some s \<Rightarrow> Findings (map (cohort_finding (epl_metric_id (hd evidence)) (cs_median s)) (cs_cohorts s))
          (if by_period then [WText ''cohorts identified by measurement window''] else []))"

definition cohort_analysis :: "tool_env \<Rightarrow> string list \<Rightarrow> tool_state \<Rightarrow> tool_reply result \<times> tool_state" where
  "cohort_analysis env ids st =
     conclude env ids (comparable env (ts_store st) ids (decide_cohorts ids)) st"

text \<open>The calls the agent can make.\<close>

datatype analytics_call =
    ComparePeriods
  | DetectAnomalies string
  | ContributionAnalysis string
  | SegmentDecomposition "string list"
  | FunnelDecomposition
  | CohortAnalysis

fun run_tool ::
  "tool_env \<Rightarrow> analytics_call \<Rightarrow> string list \<Rightarrow> tool_state \<Rightarrow> tool_reply result \<times> tool_state" where
  "run_tool env ComparePeriods ids st = compare_periods env ids st"
| "run_tool env (DetectAnomalies method) ids st = detect_anomalies env ids method st"
| "run_tool env (ContributionAnalysis dimension) ids st = contribution_analysis env ids dimension st"
| "run_tool env (SegmentDecomposition dimensions) ids st = segment_decomposition env ids dimensions st"
| "run_tool env FunnelDecomposition ids st = funnel_decomposition env ids st"
| "run_tool env CohortAnalysis ids st = cohort_analysis env ids st"

section \<open>Findings cite the evidence they were given\<close>

definition cites :: "string list \<Rightarrow> finding \<Rightarrow> bool" where
  "cites ids f = (fd_evidence_ids f \<noteq> [] \<and> set (fd_evidence_ids f) \<subseteq> set ids)"

definition sound :: "string list \<Rightarrow> tool_decision \<Rightarrow> bool" where
  "sound ids d = (case d of
     Refused code _ \<Rightarrow> code \<noteq> []
   | Findings fs _ \<Rightarrow> list_all (cites ids) fs
   | Broken fs _ \<Rightarrow> list_all (cites ids) fs)"

lemma sound_simps [simp]:
  "sound ids (Refused code ws) = (code \<noteq> [])" "sound ids (Findings fs ws) = list_all (cites ids) fs"
  "sound ids (Broken fs e) = list_all (cites ids) fs"
  by (simp_all add: sound_def)

lemma zip_fst: "p \<in> set (zip ids ev) \<Longrightarrow> fst p \<in> set ids"
  by (metis prod.collapse set_zip_leftD)

lemma sound_comparison: "sound ids (decide_comparison ids ev)"
proof -
  have ref: "mp_ref p \<in> set ids" if "p \<in> set (points_in q (zip ids ev))" for p q
    using that zip_fst by (fastforce simp: points_in_def point_of_def)
  have "cites ids f"
    if "d \<in> set (period_deltas (points_in a (zip ids ev)) (points_in b (zip ids ev)))"
      "f \<in> set (comparison_finding d)" for d f a b
  proof -
    from that(1) have "mp_ref (pd_a d) \<in> set ids" "mp_ref (pd_b d) \<in> set ids"
      using last_point_key ref by (auto simp: period_deltas_member delta_of_Some; blast)+
    then show ?thesis
      using that(2) by (auto simp: comparison_finding_def cites_def split: option.splits)
  qed
  then show ?thesis
    by (auto simp: decide_comparison_def Let_def list_all_iff split: list.split)
qed

lemma dict_append_member:
  assumes "(k', xs) \<in> set (dict_append d k x)" "y \<in> set xs"
  shows "(k' = k \<and> y = x) \<or> (\<exists>ys. (k', ys) \<in> set d \<and> y \<in> set ys)"
proof (cases "(k', xs) \<in> set d")
  case False
  then have "k' = k" "xs = (case dict_get d k of Some xs \<Rightarrow> xs | None \<Rightarrow> []) @ [x]"
    using assms(1) set_dict_set unfolding dict_append_def by fastforce+
  then show ?thesis using assms(2) dict_get_SomeD by (fastforce split: option.splits)
qed (use assms(2) in blast)

text \<open>The group of a key is the points with that key, in order.\<close>

lemma group_by_series_get:
  "dict_get (group_by_series ev ids) k =
     (let ps = filter (\<lambda>p. slice_key (snd p) = k) (zip ids ev) in if ps = [] then None else Some ps)"
proof -
  have "dict_get (foldl (\<lambda>d p. dict_append d (slice_key (snd p)) p) d xs) k =
      (let ps = filter (\<lambda>p. slice_key (snd p) = k) xs in
       if ps = [] then dict_get d k else Some ((case dict_get d k of Some qs \<Rightarrow> qs | None \<Rightarrow> []) @ ps))"
    for d and xs :: "(string \<times> grained_evidence) list"
    by (induction xs arbitrary: d) (simp_all add: dict_append_def Let_def)
  from this [of "[]" "zip ids ev"] show ?thesis by (simp add: group_by_series_def Let_def)
qed

lemma group_by_series_wf: "dict_wf (group_by_series ev ids)"
proof -
  have "dict_wf d \<Longrightarrow> dict_wf (foldl (\<lambda>d p. dict_append d (slice_key (snd p)) p) d xs)"
    for d and xs :: "(string \<times> grained_evidence) list"
    by (induction xs arbitrary: d) (simp_all add: dict_append_def)
  then show ?thesis by (simp add: group_by_series_def)
qed

lemma group_by_series_in:
  "(k, ps) \<in> set (group_by_series ev ids) \<longleftrightarrow> ps \<noteq> [] \<and> ps = filter (\<lambda>p. slice_key (snd p) = k) (zip ids ev)"
  using dict_wf_get [OF group_by_series_wf] dict_get_SomeD group_by_series_get [of ev ids k]
  by (fastforce simp: Let_def split: if_splits)

lemma usable_points_member:
  "usable_points series = Inr us \<Longrightarrow> (aid, e, v) \<in> set us \<Longrightarrow> (aid, e) \<in> set series \<and> epl_value e = Some v"
  by (auto simp: usable_points_def sorted_by_stamp_def split: option.splits if_splits)

lemma usable_points_sorted:
  assumes "usable_points series = Inr us"
  shows "sorted (map (\<lambda>u. snd (stamp_key (epl_period_start (fst (snd u))))) us)"
proof -
  let ?at = "\<lambda>e. snd (stamp_key (epl_period_start e))"
  have "sorted (map (\<lambda>p. ?at (snd p)) qs)
      \<Longrightarrow> sorted (map (\<lambda>u. ?at (fst (snd u)))
        (concat (map (\<lambda>(aid, e). case epl_value e of Some v \<Rightarrow> [(aid, e, v)] | None \<Rightarrow> []) qs)))"
    for qs :: "(string \<times> grained_evidence) list"
  proof (induction qs)
    case (Cons q qs)
    have "?at (snd q) \<le> ?at e" if "(aid, e) \<in> set qs" for aid e
      using Cons.prems that by fastforce
    then show ?case using Cons by (cases q) (auto split: option.splits)
  qed simp
  from this [of "sort_key (\<lambda>p. ?at (snd p)) series"] show ?thesis
    using assms by (auto simp: usable_points_def sorted_by_stamp_def split: if_splits)
qed

lemma score_series_finding:
  assumes "score_series (k, ps) = Inr (fs, ws)" "f \<in> set fs"
  shows "\<exists>us r. usable_points ps = Inr us \<and> f = anomaly_finding k us r \<and> 2 \<le> length us
    \<and> zs_is_anomaly r \<and> robust_zscore (butlast (map (snd \<circ> snd) us)) (last (map (snd \<circ> snd) us)) 3 = Inr r"
  using assms
  by (cases "usable_points ps") (auto simp: score_series_def Let_def robust_zscore_def split: if_splits)

text \<open>A series raises exactly when it has starts that cannot be ordered.\<close>

lemma score_series_raises:
  "(\<exists>e. score_series (k, ps) = Inl e) \<longleftrightarrow> \<not> orderable (map (\<lambda>p. epl_period_start (snd p)) ps)"
proof (cases "usable_points ps")
  case (Inr us)
  have "butlast (map (snd \<circ> snd) us) \<noteq> []" if "\<not> length us < 2"
    using that by (cases us; cases "tl us") auto
  then show ?thesis using Inr
    by (auto simp: score_series_def Let_def robust_zscore_def usable_points_def sorted_by_stamp_def split: if_splits)
qed (auto simp: score_series_def usable_points_def sorted_by_stamp_def split: if_splits)

lemma score_all_finding:
  assumes "f \<in> set (fst (score_all entries))"
  shows "\<exists>k ps fs ws. (k, ps) \<in> set entries \<and> score_series (k, ps) = Inr (fs, ws) \<and> f \<in> set fs"
  using assms
proof (induction entries)
  case (Cons entry entries)
  obtain k ps where entry: "entry = (k, ps)" by (cases entry)
  show ?case
  proof (cases "score_series entry")
    case (Inr out)
    obtain fs ws gs vs broken where "out = (fs, ws)" "score_all entries = (gs, vs, broken)"
      by (cases out; cases "score_all entries")
    then show ?thesis using Cons Inr entry by fastforce
  qed (use Cons in simp)
qed simp

lemma score_all_raises:
  "snd (snd (score_all entries)) \<noteq> None \<longleftrightarrow> (\<exists>entry\<in>set entries. \<exists>e. score_series entry = Inl e)"
proof (induction entries)
  case (Cons entry entries)
  show ?case
  proof (cases "score_series entry")
    case (Inr out)
    obtain fs ws gs vs broken where "out = (fs, ws)" "score_all entries = (gs, vs, broken)"
      by (cases out; cases "score_all entries")
    then show ?thesis using Cons Inr by auto
  qed simp
qed simp

text \<open>Two artifacts of one series, one with a naive and one with an aware start.\<close>

definition mixes_clocks :: "string list \<Rightarrow> grained_evidence list \<Rightarrow> bool" where
  "mixes_clocks ids ev = list_ex (\<lambda>p. list_ex (\<lambda>q. slice_key (snd p) = slice_key (snd q)
     \<and> st_offset (epl_period_start (snd p)) = None \<and> st_offset (epl_period_start (snd q)) \<noteq> None)
       (zip ids ev)) (zip ids ev)"

lemma not_orderable:
  "\<not> orderable (map f xs) \<longleftrightarrow> (\<exists>p\<in>set xs. \<exists>q\<in>set xs. st_offset (f p) = None \<and> st_offset (f q) \<noteq> None)"
  unfolding orderable_def list_all_iff set_map by fastforce

lemma bex_filtered:
  "(\<exists>k. \<exists>p\<in>{x \<in> X. g x = k}. \<exists>q\<in>{x \<in> X. g x = k}. P p \<and> Q q)
     \<longleftrightarrow> (\<exists>p\<in>X. \<exists>q\<in>X. g p = g q \<and> P p \<and> Q q)"
proof
  assume "\<exists>p\<in>X. \<exists>q\<in>X. g p = g q \<and> P p \<and> Q q"
  then obtain p q where "p \<in> X" "q \<in> X" "g p = g q" "P p" "Q q" by blast
  then show "\<exists>k. \<exists>p\<in>{x \<in> X. g x = k}. \<exists>q\<in>{x \<in> X. g x = k}. P p \<and> Q q"
    by (intro exI [of _ "g q"] bexI [of _ p] bexI [of _ q]) simp_all
qed (clarsimp, metis)

lemma decide_anomalies_raises:
  "(\<exists>fs e. decide_anomalies ids ev = Broken fs e) \<longleftrightarrow> mixes_clocks ids ev"
proof -
  have "(\<exists>fs e. decide_anomalies ids ev = Broken fs e)
      \<longleftrightarrow> snd (snd (score_all (group_by_series ev ids))) \<noteq> None"
    by (cases "score_all (group_by_series ev ids)") (auto simp: decide_anomalies_def Let_def split: option.splits)
  also have "\<dots> \<longleftrightarrow> (\<exists>k. \<not> orderable (map (\<lambda>p. epl_period_start (snd p))
      (filter (\<lambda>p. slice_key (snd p) = k) (zip ids ev))))"
  proof -
    have "(\<exists>entry\<in>set (group_by_series ev ids). \<exists>e. score_series entry = Inl e)
        \<longleftrightarrow> (\<exists>k ps. (k, ps) \<in> set (group_by_series ev ids) \<and> \<not> orderable (map (\<lambda>p. epl_period_start (snd p)) ps))"
      by (metis score_series_raises surj_pair)
    moreover have "orderable []" by (simp add: orderable_def)
    ultimately show ?thesis unfolding score_all_raises group_by_series_in by (metis list.map(1))
  qed
  also have "\<dots> \<longleftrightarrow> mixes_clocks ids ev"
    unfolding not_orderable set_filter mixes_clocks_def list_ex_iff by (rule bex_filtered)
  finally show ?thesis .
qed

lemma sound_anomalies: "sound ids (decide_anomalies ids ev)"
proof -
  have "cites ids f" if f: "f \<in> set (fst (score_all (group_by_series ev ids)))" for f
  proof -
    from score_all_finding [OF f] obtain k ps fs ws where k: "(k, ps) \<in> set (group_by_series ev ids)"
      and s: "score_series (k, ps) = Inr (fs, ws)" "f \<in> set fs" by blast
    from score_series_finding [OF s] obtain us r
      where u: "usable_points ps = Inr us" and f: "f = anomaly_finding k us r" "2 \<le> length us" by blast
    have "fst u \<in> set ids" if "u \<in> set us" for u
      using usable_points_member [OF u, of "fst u" "fst (snd u)" "snd (snd u)"] that k zip_fst
      by (fastforce simp: group_by_series_in)
    then show ?thesis using f by (auto simp: anomaly_finding_def cites_def Let_def)
  qed
  then show ?thesis
    by (cases "score_all (group_by_series ev ids)")
      (auto simp: decide_anomalies_def Let_def list_all_iff split: option.split)
qed

lemma segments_ref:
  assumes "ss \<in> set (dict_values (segments_for_period ev ids dn))" "s \<in> set ss"
  shows "sg_ref s \<in> set ids"
proof -
  have "(k, ss) \<in> set (foldl (\<lambda>d (aid, e).
         case dict_get (epl_dimensions e) dn of
           None \<Rightarrow> d
         | Some label \<Rightarrow>
             if label = [] then d
             else dict_append d (evidence_period e) \<lparr>sg_label = label, sg_value = epl_value e, sg_ref = aid\<rparr>) d xs)
      \<Longrightarrow> sg_ref s \<in> fst ` set xs \<or> (\<exists>ts. (k, ts) \<in> set d \<and> s \<in> set ts)" for d k xs
  proof (induction xs arbitrary: d)
    case (Cons x xs)
    obtain aid e where x: "x = (aid, e)" by (cases x)
    show ?case
    proof (cases "dict_get (epl_dimensions e) dn")
      case None then show ?thesis using Cons by (fastforce simp: x)
    next
      case (Some label)
      show ?thesis
      proof (cases "label = []")
        case True then show ?thesis using Cons Some by (fastforce simp: x)
      next
        case False
        then show ?thesis using Cons.IH Cons.prems Some dict_append_member by (fastforce simp: x)
      qed
    qed
  qed (use assms(2) in auto)
  from this [of _ "[]" "zip ids ev"] show ?thesis
    using assms(1) zip_fst by (fastforce simp: segments_for_period_def)
qed

lemma share_ref:
  assumes "shares segments known = Some r" "s \<in> set (sr_shares r)" "\<forall>g\<in>set segments. sg_ref g \<in> R"
  shows "sh_ref s \<in> R"
proof (cases "sr_total r = 0")
  case True
  then show ?thesis using assms(1,2) by (auto simp: shares_def Let_def split: if_splits prod.splits)
next
  case False
  then show ?thesis using shares_facts(5) [OF assms(1) False assms(2)] assms(3) by metis
qed

lemma contribution_refs:
  assumes "contributions a b = (cs, d)" "c \<in> set cs" "\<forall>g\<in>set a \<union> set b. sg_ref g \<in> R"
  shows "cb_ref_a c \<in> R \<and> cb_ref_b c \<in> R"
proof -
  obtain x va y vb t where "((x, va), (y, vb)) \<in> set (paired_segments a b)"
      "c = contribution_of t ((x, va), (y, vb))"
    using assms(1,2) by (auto simp: contributions_def Let_def split: if_splits)
  then show ?thesis using paired_from_both assms(3) by fastforce
qed

lemma sound_contribution: "sound ids (decide_contribution ids dn ev)"
proof -
  let ?vs = "dict_values (segments_for_period ev ids dn)"
  have sh: "list_all (cites ids) (map (share_finding m dn t) (sr_shares r))"
    if "shares ss None = Some r" "ss \<in> set ?vs" for r ss m t
    using share_ref [OF that(1)] segments_ref [OF that(2)]
    by (simp add: list_all_iff share_finding_def cites_def)
  have ch: "list_all (cites ids) (map (change_finding m dn) cs)"
    if "contributions a b = (cs, d)" "a \<in> set ?vs" "b \<in> set ?vs" for a b cs d m
  proof -
    have "\<forall>g\<in>set a \<union> set b. sg_ref g \<in> set ids" using segments_ref that(2,3) by blast
    then show ?thesis
      using contribution_refs [OF that(1), of _ "set ids"] by (simp add: list_all_iff change_finding_def cites_def)
  qed
  consider "?vs = []" | a where "?vs = [a]" | a b where "?vs = [a, b]" | a b c r where "?vs = a # b # c # r"
    by (metis list.exhaust)
  then show ?thesis
  proof cases
    case (2 a)
    then show ?thesis using sh [of a]
      by (cases "shares a None") (simp_all add: decide_contribution_def Let_def)
  next
    case (3 a b)
    then show ?thesis using ch [of a b]
      by (cases "contributions a b") (simp add: decide_contribution_def Let_def)
  qed (simp_all add: decide_contribution_def Let_def)
qed

lemma sound_decompose:
  assumes "f \<in> set (fst (decompose_by ids ev m dn))" shows "cites ids f"
proof -
  obtain ss r where "ss \<in> set (dict_values (segments_for_period ev ids dn))" "shares ss None = Some r"
      "sr_shares r \<noteq> []" "f = decomposition_finding m dn r"
    using assms by (auto simp: decompose_by_def split: list.splits option.splits if_splits)
  then show ?thesis
    using share_ref segments_ref by (fastforce simp: decomposition_finding_def cites_def Let_def)
qed

lemma sound_decomposition: "sound ids (decide_decomposition ids dns ev)"
  using sound_decompose by (auto simp: decide_decomposition_def Let_def list_all_iff)

lemma readings_by_metric_ref:
  "dict_get (readings_by_metric rs) m = Some (r, v) \<Longrightarrow> r \<in> set rs \<and> rd_value r = Some v \<and> rd_metric_id r = m"
proof -
  have "dict_get (foldl (\<lambda>d r. case rd_value r of Some v \<Rightarrow> dict_set d (rd_metric_id r) (r, v) | None \<Rightarrow> d) d xs) m
      = Some (r, v) \<Longrightarrow> (r \<in> set xs \<and> rd_value r = Some v \<and> rd_metric_id r = m) \<or> dict_get d m = Some (r, v)" for d xs
    by (induction xs arbitrary: d) (fastforce split: option.splits if_splits)+
  from this [of "[]" rs] show "dict_get (readings_by_metric rs) m = Some (r, v) \<Longrightarrow> ?thesis"
    by (simp add: readings_by_metric_def)
qed

lemma ordered_steps_ref:
  assumes "s \<in> set (ordered_steps rs)"
  shows "\<exists>r\<in>set rs. rd_ref r = fs_ref s \<and> rd_metric_id r = fs_metric_id s \<and> rd_value r = Some (fs_raw s)"
proof -
  obtain position metric where "s \<in> set (case dict_get (readings_by_metric rs) metric of None \<Rightarrow> []
      | Some (r, raw) \<Rightarrow> [\<lparr>fs_metric_id = metric, fs_position = position,
          fs_rate = (if metric = base_step then 1 else raw), fs_raw = raw, fs_ref = rd_ref r\<rparr>])"
    using assms unfolding ordered_steps_def set_concat set_map by auto
  then show ?thesis
    using readings_by_metric_ref [of rs metric]
    by (cases "dict_get (readings_by_metric rs) metric") auto
qed

lemma sound_funnel: "sound ids (decide_funnel ids ev)"
proof -
  let ?steps = "ordered_steps (map reading_of (zip ids ev))"
  have "fs_ref s \<in> set ids" if "s \<in> set ?steps" for s
    using ordered_steps_ref [OF that] zip_fst by (fastforce simp: reading_of_def)
  then have "cites ids (move_finding ?steps m)" if "\<not> length ?steps < 2" for m
    using that by (auto simp: move_finding_def cites_def)
  then show ?thesis
    by (simp add: decide_funnel_def Let_def list_all_iff)
qed

lemma relabel_refs: "map cr_ref (relabel_from i rs) = map cr_ref rs"
  by (induction i rs rule: relabel_from.induct) auto

lemma label_readings_ref:
  "label_readings rs = (rs', b) \<Longrightarrow> r \<in> set rs' \<Longrightarrow> cr_ref r \<in> cr_ref ` set rs"
  using relabel_refs by (metis (no_types, lifting) image_eqI label_readings_def list.set_map prod.inject)

lemma sound_cohorts: "sound ids (decide_cohorts ids ev)"
proof -
  have "cites ids f" if l: "label_readings (map cohort_reading_of (zip ids ev)) = (rs, b)"
    and s: "cohort_spread rs = Some s" and c: "c \<in> set (cs_cohorts s)" and f: "f = cohort_finding m k c" for f rs b s c m k
  proof -
    obtain r where "r \<in> set rs" "cr_ref r = co_ref c" using cohort_spread_bounds [OF s c] by blast
    then have "co_ref c \<in> cr_ref ` set (map cohort_reading_of (zip ids ev))"
      using label_readings_ref [OF l] by metis
    then show ?thesis using zip_fst by (fastforce simp: f cohort_finding_def cites_def cohort_reading_of_def)
  qed
  then show ?thesis
    by (auto simp: decide_cohorts_def Let_def list_all_iff split: prod.split option.split)
qed

lemma sound_comparable: "(\<And>ev. sound ids (k ev)) \<Longrightarrow> sound ids (comparable env s ids k)"
  by (simp add: comparable_def split: option.split)

lemmas sound_tools = sound_comparison sound_anomalies sound_contribution sound_decomposition
  sound_funnel sound_cohorts

section \<open>Writing\<close>

text \<open>The identifiers still to be drawn are new to the store and different from each other.\<close>

definition fresh_ids :: "tool_env \<Rightarrow> tool_state \<Rightarrow> bool" where
  "fresh_ids env st = (inj (te_ids env)
     \<and> (\<forall>n\<ge>ts_drawn st. dict_get (ts_store st) (te_ids env n) = None))"

text \<open>What is stored for a finding: its evidence without repetitions, also in the provenance.\<close>

definition stored_finding :: "tool_env \<Rightarrow> string \<Rightarrow> finding \<Rightarrow> artifact" where
  "stored_finding env aid f =
     (finding_artifact env aid f)\<lparr>art_evidence_ids := dedupe (fd_evidence_ids f @ fd_evidence_ids f),
       art_provenance := tool_provenance (dedupe (fd_evidence_ids f @ fd_evidence_ids f))\<rparr>"

lemma stored_finding_fields [simp]:
  "art_id (stored_finding env aid f) = aid"
  "art_artifact_type (stored_finding env aid f) = ''finding''"
  "art_classification (stored_finding env aid f) = Derived"
  "set (art_evidence_ids (stored_finding env aid f)) = set (fd_evidence_ids f)"
  "prov_calculation_version (art_provenance (stored_finding env aid f)) = Some ''analytics.v1''"
  "art_payload (stored_finding env aid f) = dump_finding (te_render env) f"
  by (simp_all add: stored_finding_def finding_artifact_def tool_provenance_def calculation_version_def)

lemma dict_set_new: "dict_get d k = None \<Longrightarrow> dict_set d k v = d @ [(k, v)]"
  by (simp add: dict_get_None dict_keys_set_notin)

lemma write_finding_fresh:
  assumes "fresh_ids env st" "fd_evidence_ids f \<noteq> []"
  shows "write_finding env f st = (Inr (te_ids env (ts_drawn st)),
    st\<lparr>ts_drawn := ts_drawn st + 1, ts_store := ts_store st
      @ [(te_ids env (ts_drawn st), stored_finding env (te_ids env (ts_drawn st)) f)]\<rparr>)"
proof -
  have n: "dict_get (ts_store st) (te_ids env (ts_drawn st)) = None" using assms(1) by (simp add: fresh_ids_def)
  show ?thesis
    using assms(2) n
    by (simp add: write_finding_def Let_def validate_classification_boundary_def finding_artifact_def
        all_evidence_ids_def any_version_def tool_provenance_def calculation_version_def artifact_store_put_def
        require_provenance_def stored_finding_def dict_set_new)
qed

lemma fresh_ids_step:
  assumes "fresh_ids env st"
  shows "fresh_ids env (st\<lparr>ts_drawn := ts_drawn st + 1, ts_store := ts_store st @ [(te_ids env (ts_drawn st), a)]\<rparr>)"
  using assms by (auto simp: fresh_ids_def dict_get_None inj_eq)

definition drawn_ids :: "tool_env \<Rightarrow> tool_state \<Rightarrow> nat \<Rightarrow> string list" where
  "drawn_ids env st n = map (te_ids env) [ts_drawn st..<ts_drawn st + n]"

lemma write_findings_fresh:
  assumes "fresh_ids env st" "\<forall>f\<in>set fs. fd_evidence_ids f \<noteq> []"
  shows "write_findings env fs st = (Inr (drawn_ids env st (length fs)),
    st\<lparr>ts_drawn := ts_drawn st + length fs, ts_store := ts_store st
      @ zip (drawn_ids env st (length fs)) (map2 (stored_finding env) (drawn_ids env st (length fs)) fs)\<rparr>)"
  using assms
proof (induction fs arbitrary: st)
  case Nil
  then show ?case by (simp add: drawn_ids_def)
next
  case (Cons f fs)
  let ?st = "st\<lparr>ts_drawn := ts_drawn st + 1, ts_store := ts_store st
      @ [(te_ids env (ts_drawn st), stored_finding env (te_ids env (ts_drawn st)) f)]\<rparr>"
  have d: "drawn_ids env st (Suc (length fs)) = te_ids env (ts_drawn st) # drawn_ids env ?st (length fs)"
    by (simp add: drawn_ids_def upt_conv_Cons del: upt_Suc)
  have "fd_evidence_ids f \<noteq> []" "\<forall>f\<in>set fs. fd_evidence_ids f \<noteq> []" using Cons.prems(2) by simp_all
  note w = write_finding_fresh [OF Cons.prems(1) this(1)]
    and ih = Cons.IH [OF fresh_ids_step [OF Cons.prems(1)] this(2)]
  show ?case unfolding write_findings.simps w prod.case sum.case ih by (simp add: d)
qed

definition decide_tool :: "tool_env \<Rightarrow> analytics_call \<Rightarrow> string list \<Rightarrow> artifact_store \<Rightarrow> tool_decision" where
  "decide_tool env call ids s =
     (case call of
        ComparePeriods \<Rightarrow> comparable env s ids (decide_comparison ids)
      | DetectAnomalies method \<Rightarrow>
          if method \<notin> {''robust_zscore'', ''mad''} then Refused ''METHOD_NOT_AVAILABLE'' []
          else comparable env s ids (decide_anomalies ids)
      | ContributionAnalysis dn \<Rightarrow> comparable env s ids (decide_contribution ids dn)
      | SegmentDecomposition dns \<Rightarrow>
          if dns = [] then Refused ''INSUFFICIENT_EVIDENCE'' []
          else comparable env s ids (decide_decomposition ids dns)
      | FunnelDecomposition \<Rightarrow> comparable env s ids (decide_funnel ids)
      | CohortAnalysis \<Rightarrow> comparable env s ids (decide_cohorts ids))"

lemma run_tool_decides: "run_tool env call ids st = conclude env ids (decide_tool env call ids (ts_store st)) st"
  by (cases call) (simp_all add: decide_tool_def compare_periods_def detect_anomalies_def
      contribution_analysis_def segment_decomposition_def funnel_decomposition_def cohort_analysis_def)

lemma sound_decide_tool: "sound ids (decide_tool env call ids s)"
  by (cases call) (auto simp: decide_tool_def intro: sound_comparable sound_tools)

lemma comparable_Broken:
  "comparable env s ids k = Broken fs e
     \<longleftrightarrow> (\<exists>ev. load_evidence env s ids = Some ev \<and> validate_grain_set ev = None \<and> k ev = Broken fs e)"
  by (auto simp: comparable_def split: option.splits)

lemma decide_not_Broken [simp]:
  "decide_comparison ids ev \<noteq> Broken fs e" "decide_contribution ids dn ev \<noteq> Broken fs e"
  "decide_decomposition ids dns ev \<noteq> Broken fs e" "decide_funnel ids ev \<noteq> Broken fs e"
  "decide_cohorts ids ev \<noteq> Broken fs e"
  by (auto simp: decide_comparison_def decide_contribution_def decide_decomposition_def decide_funnel_def
      decide_cohorts_def Let_def split: list.splits option.splits prod.splits if_splits)

lemma decide_tool_raises:
  "(\<exists>fs e. decide_tool env call ids s = Broken fs e)
     \<longleftrightarrow> (\<exists>method ev. call = DetectAnomalies method \<and> method \<in> {''robust_zscore'', ''mad''}
        \<and> load_evidence env s ids = Some ev \<and> validate_grain_set ev = None \<and> mixes_clocks ids ev)"
  by (cases call) (auto simp: decide_tool_def comparable_Broken decide_anomalies_raises [symmetric])

text \<open>
  C24. A tool only adds findings and never touches an artifact that is there, however it ends: the
  store afterwards is the store before and derived findings of this calculation version, each citing
  at least one artifact, and only artifacts of those the call was given. A refused call names its error
  code and writes nothing; a successful one lists exactly what it wrote, in order. A call raises only
  if it is the anomaly detection and one of its series has a naive and an aware period start, and then
  always.
\<close>

theorem tools_only_add_cited_findings:
  assumes "fresh_ids env st"
  shows "\<exists>out st' new fs. run_tool env call ids st = (out, st')
    \<and> ts_store st' = ts_store st @ zip new (map2 (stored_finding env) new fs)
    \<and> length fs = length new \<and> list_all (cites ids) fs
    \<and> (case out of
         Inr r \<Rightarrow> tl_artifact_ids r = new
           \<and> (tl_success r \<or> str_truthy (tl_error_code r) \<and> new = [] \<and> st' = st)
       | Inl e \<Rightarrow> True)
    \<and> ((\<exists>e. out = Inl e) \<longleftrightarrow> (\<exists>method ev. call = DetectAnomalies method \<and> method \<in> {''robust_zscore'', ''mad''}
         \<and> load_evidence env (ts_store st) ids = Some ev \<and> validate_grain_set ev = None \<and> mixes_clocks ids ev))"
proof -
  let ?d = "decide_tool env call ids (ts_store st)"
  have sound: "sound ids ?d" by (rule sound_decide_tool)
  have w: "write_findings env fs st = (Inr (drawn_ids env st (length fs)),
      st\<lparr>ts_drawn := ts_drawn st + length fs, ts_store := ts_store st
        @ zip (drawn_ids env st (length fs)) (map2 (stored_finding env) (drawn_ids env st (length fs)) fs)\<rparr>)"
    if "list_all (cites ids) fs" for fs
    using that by (intro write_findings_fresh [OF assms]) (simp add: list_all_iff cites_def)
  note run = run_tool_decides [of env call ids st]
  show ?thesis
  proof (cases ?d)
    case (Refused code ws)
    then show ?thesis using sound unfolding decide_tool_raises [symmetric] run
      by (auto simp: conclude_def refuse_def intro!: exI [of _ "[]"])
  next
    case (Findings fs ws)
    then have "list_all (cites ids) fs" using sound by simp
    then show ?thesis using w [of fs] Findings unfolding decide_tool_raises [symmetric] run
      by (auto simp: conclude_def succeed_def drawn_ids_def intro!: exI [of _ fs])
  next
    case (Broken fs e)
    then have "list_all (cites ids) fs" using sound by simp
    then show ?thesis using w [of fs] Broken unfolding decide_tool_raises [symmetric] run
      by (auto simp: conclude_def drawn_ids_def intro!: exI [of _ fs] exI [of _ "drawn_ids env st (length fs)"])
  qed
qed

section \<open>Only comparable evidence\<close>

lemma store_get_many_all:
  assumes "keyed art_id s" "filter (\<lambda>i. i \<notin> set (map art_id (store_get_many s ids))) ids = []"
  shows "list_all2 (\<lambda>i a. dict_get s i = Some a) ids (store_get_many s ids)"
proof -
  have "dict_get s i \<noteq> None" if i: "i \<in> set ids" for i
  proof -
    obtain a where "a \<in> set (store_get_many s ids)" "art_id a = i"
      using assms(2) i by (fastforce simp: filter_empty_conv image_iff)
    then obtain j where "dict_get s j = Some a" by (auto simp: store_get_many_def split: option.splits)
    then show ?thesis using keyed_get [OF assms(1)] \<open>art_id a = i\<close> by auto
  qed
  then show ?thesis
  proof (induction ids)
    case (Cons i ids)
    obtain a where "dict_get s i = Some a" using Cons.prems [of i] by auto
    then show ?case using Cons by (simp add: store_get_many_def)
  qed (simp add: store_get_many_def)
qed

lemma parse_all_Some:
  "parse_all env as = Some es \<Longrightarrow>
     list_all2 (\<lambda>a e. art_artifact_type a = ''evidence'' \<and> te_parse env (art_payload a) = Some e) as es"
  by (induction as arbitrary: es) (auto split: if_splits option.splits)

lemma load_evidence_Some:
  assumes "load_evidence env s ids = Some ev" "keyed art_id s"
  shows "ids \<noteq> [] \<and> list_all2 (\<lambda>i e. \<exists>a. dict_get s i = Some a \<and> art_artifact_type a = ''evidence''
    \<and> te_parse env (art_payload a) = Some e) ids ev"
proof -
  have "list_all2 (\<lambda>i a. dict_get s i = Some a) ids (store_get_many s ids)"
    using assms store_get_many_all by (auto simp: load_evidence_def Let_def split: if_splits)
  moreover have "list_all2 (\<lambda>a e. art_artifact_type a = ''evidence'' \<and> te_parse env (art_payload a) = Some e)
      (store_get_many s ids) ev"
    using assms parse_all_Some by (auto simp: load_evidence_def Let_def split: if_splits)
  moreover have "ids \<noteq> []" using assms(1) by (auto simp: load_evidence_def)
  ultimately show ?thesis
    by (auto simp: list_all2_conv_all_nth)
qed

lemma comparable_Findings:
  "comparable env s ids k = Findings fs ws \<Longrightarrow>
     \<exists>ev. load_evidence env s ids = Some ev \<and> validate_grain_set ev = None \<and> k ev = Findings fs ws"
  by (auto simp: comparable_def split: option.splits if_splits)

lemma decide_tool_Findings:
  assumes "decide_tool env call ids s = Findings fs ws"
  shows "\<exists>ev. load_evidence env s ids = Some ev \<and> validate_grain_set ev = None"
  using assms by (cases call) (auto simp: decide_tool_def split: if_splits dest!: comparable_Findings)

text \<open>
  C25. No number without comparable evidence: when a tool succeeds, every identifier it was given named
  an evidence artifact of the store with a valid payload, all of one grain and of periods of one
  length, and that length is one the declared grain allows.
\<close>

theorem success_needs_comparable_evidence:
  assumes "run_tool env call ids st = (Inr r, st')" "tl_success r" "keyed art_id (ts_store st)"
  shows "\<exists>ev. ids \<noteq> [] \<and> list_all2 (\<lambda>i e. \<exists>a. dict_get (ts_store st) i = Some a
        \<and> art_artifact_type a = ''evidence'' \<and> te_parse env (art_payload a) = Some e) ids ev
    \<and> (\<forall>e\<in>set ev. \<forall>f\<in>set ev. epl_grain e = epl_grain f \<and> evidence_span e = evidence_span f)
    \<and> (\<forall>e\<in>set ev. \<forall>low high. dict_get allowed_span_days (epl_grain e) = Some (low, high)
         \<longrightarrow> low \<le> evidence_span e \<and> evidence_span e \<le> high)"
proof -
  obtain fs ws where "decide_tool env call ids (ts_store st) = Findings fs ws"
    using assms(1,2) by (cases "decide_tool env call ids (ts_store st)")
      (auto simp: run_tool_decides conclude_def refuse_def split: prod.splits sum.splits)
  from decide_tool_Findings [OF this] obtain ev
    where "load_evidence env (ts_store st) ids = Some ev" "validate_grain_set ev = None" by blast
  then show ?thesis using load_evidence_Some [OF _ assms(3)] grain_set_is_comparable [of ev] by blast
qed

section \<open>Series and metrics\<close>

text \<open>
  An anomaly is scored within one series: the points a finding cites all have the metric and the
  dimension slice it names, all of them carry a value, and its score is that of the latest point
  against the earlier ones.
\<close>

theorem anomalies_are_scored_per_series:
  assumes "decide_anomalies ids ev = Findings fs ws" "f \<in> set fs"
  shows "\<exists>key usable r. f = anomaly_finding key usable r \<and> zs_is_anomaly r
    \<and> (\<forall>(aid, e, v)\<in>set usable. (aid, e) \<in> set (zip ids ev) \<and> slice_key e = key \<and> epl_value e = Some v)
    \<and> sorted (map (\<lambda>u. snd (stamp_key (epl_period_start (fst (snd u))))) usable) \<and> 2 \<le> length usable
    \<and> robust_zscore (butlast (map (snd \<circ> snd) usable)) (last (map (snd \<circ> snd) usable)) 3 = Inr r"
proof -
  have "f \<in> set (fst (score_all (group_by_series ev ids)))"
    using assms by (cases "score_all (group_by_series ev ids)")
      (auto simp: decide_anomalies_def Let_def split: if_splits option.splits)
  from score_all_finding [OF this] obtain k ps gs vs where k: "(k, ps) \<in> set (group_by_series ev ids)"
    and s: "score_series (k, ps) = Inr (gs, vs)" "f \<in> set gs" by blast
  from score_series_finding [OF s] obtain us r where us: "usable_points ps = Inr us"
    "f = anomaly_finding k us r" "2 \<le> length us" "zs_is_anomaly r"
    "robust_zscore (butlast (map (snd \<circ> snd) us)) (last (map (snd \<circ> snd) us)) 3 = Inr r" by blast
  have "\<forall>(aid, e, v)\<in>set us. (aid, e) \<in> set (zip ids ev) \<and> slice_key e = k \<and> epl_value e = Some v"
    using usable_points_member [OF us(1)] k by (fastforce simp: group_by_series_in)
  then show ?thesis using us usable_points_sorted [OF us(1)] by blast
qed

text \<open>
  C35. The contribution tool does not separate metrics: of two artifacts of different metrics, one per
  period, that carry the same value of the dimension, it subtracts one metric from the other and
  reports the difference as the change of the first.
\<close>

theorem contributions_mix_metrics:
  assumes "dict_get (epl_dimensions e) dn = Some label" "dict_get (epl_dimensions f) dn = Some label"
    and "label \<noteq> []" "evidence_period e \<noteq> evidence_period f" "epl_metric_id e \<noteq> epl_metric_id f"
    and "epl_value e = Some v" "epl_value f = Some w" "v \<noteq> w"
  shows "decide_contribution [i, j] dn [e, f]
    = Findings [\<lparr>fd_type = ''contribution'', fd_statement = Moved (epl_metric_id e) dn label (v - w) 1,
        fd_evidence_ids = [i, j],
        fd_metrics = [(''delta'', v - w), (''value_a'', v), (''value_b'', w), (''share_of_change'', 1)]\<rparr>] []"
proof -
  let ?a = "\<lparr>sg_label = label, sg_value = Some v, sg_ref = i\<rparr>"
    and ?b = "\<lparr>sg_label = label, sg_value = Some w, sg_ref = j\<rparr>"
  have "segments_for_period [e, f] [i, j] dn = [(evidence_period e, [?a]), (evidence_period f, [?b])]"
    using assms by (auto simp: segments_for_period_def dict_append_def)
  moreover have "contributions [?a] [?b]
      = ([\<lparr>cb_label = label, cb_value_a = v, cb_value_b = w, cb_delta = v - w, cb_share_of_change = 1,
          cb_ref_a = i, cb_ref_b = j\<rparr>], v - w)"
    using assms(8) by (simp add: contributions_def paired_segments_def by_label_def measured_segments_def
        contribution_of_def sorted_desc_def Let_def)
  ultimately show ?thesis
    using assms(8) by (simp add: decide_contribution_def change_finding_def Let_def)
qed

definition sample_evidence :: "string \<Rightarrow> string \<Rightarrow> moment \<Rightarrow> moment \<Rightarrow> rat \<Rightarrow> string \<Rightarrow> grained_evidence" where
  "sample_evidence metric channel a b v grain =
     \<lparr>epl_metric_id = metric, epl_dimensions = (if channel = [] then [] else [(''channel'', channel)]),
      epl_period_start = utc a, epl_period_end = utc b, epl_value = Some v, epl_fetched_at = 0, epl_grain = grain\<rparr>"

lemma contributions_mix_metrics_witness:
  "\<exists>ws. decide_contribution [''1'', ''2''] ''channel''
      [sample_evidence ''revenue'' ''web'' 0 0 1000 ''day'', sample_evidence ''sessions'' ''web'' 86400000000 86400000000 40 ''day'']
    = Findings [\<lparr>fd_type = ''contribution'', fd_statement = Moved ''revenue'' ''channel'' ''web'' 960 1,
        fd_evidence_ids = [''1'', ''2''],
        fd_metrics = [(''delta'', 960), (''value_a'', 1000), (''value_b'', 40), (''share_of_change'', 1)]\<rparr>] ws"
  using contributions_mix_metrics [of "sample_evidence ''revenue'' ''web'' 0 0 1000 ''day''" "''channel''" "''web''"
      "sample_evidence ''sessions'' ''web'' 86400000000 86400000000 40 ''day''" 1000 40 "''1''" "''2''"]
  by (simp add: sample_evidence_def evidence_period_def stamp_key_def utc_def)

text \<open>The artifact, store and calls of the witnesses: a payload that names its evidence.\<close>

definition sample_payload :: "json_obj \<Rightarrow> grained_evidence option" where
  "sample_payload d = (case obj_get d ''day'' of
     JInt n \<Rightarrow> Some (sample_evidence ''m'' [] (n * 86400000000) (n * 86400000000)
       (if n = 3 then 500 else of_int (10 + n)) ''day'')
   | _ \<Rightarrow> None)"

definition sample_tool_env :: tool_env where
  "sample_tool_env = \<lparr>te_parse = sample_payload, te_render = (\<lambda>_. ''statement''),
     te_ids = (\<lambda>n. replicate (n + 5) CHR ''f''), te_now = 0, te_workspace = ''w'', te_mission = ''m''\<rparr>"

definition sample_artifact :: "string \<Rightarrow> int \<Rightarrow> artifact" where
  "sample_artifact i n = \<lparr>art_id = i, art_workspace_id = ''w'', art_artifact_type = ''evidence'',
     art_payload = [(''day'', JInt n)], art_classification = Factual, art_evidence_ids = [''q''],
     art_provenance = no_provenance, art_mission_id = None, art_thread_id = None, art_run_id = None,
     art_message_id = None, art_created_at = 0\<rparr>"

definition sample_tool_state :: tool_state where
  "sample_tool_state = \<lparr>ts_store = [(''a'', sample_artifact ''a'' 0), (''b'', sample_artifact ''b'' 1),
     (''c'', sample_artifact ''c'' 2), (''d'', sample_artifact ''d'' 3)], ts_drawn = 0\<rparr>"

lemma sample_fresh: "fresh_ids sample_tool_env sample_tool_state"
proof -
  have "replicate (n + 5) CHR ''f'' \<noteq> s" if "length s < 5" for n and s :: string
    using that by (metis add.commute length_replicate not_add_less1)
  then show ?thesis
    by (auto simp: fresh_ids_def sample_tool_env_def sample_tool_state_def inj_def simp del: replicate_add)
qed

lemma sample_keyed: "keyed art_id (ts_store sample_tool_state)"
  by (simp add: keyed_def dict_wf_def sample_tool_state_def sample_artifact_def)

lemma tools_only_add_cited_findings_witness:
  "\<exists>r st'. run_tool sample_tool_env (DetectAnomalies ''mad'') [''d'', ''b'', ''a'', ''c''] sample_tool_state = (Inr r, st')
    \<and> tl_artifact_ids r = [''fffff''] \<and> dict_get (ts_store st') ''a'' = Some (sample_artifact ''a'' 0)
    \<and> (\<exists>f. dict_get (ts_store st') ''fffff'' = Some (stored_finding sample_tool_env ''fffff'' f)
         \<and> cites [''d'', ''b'', ''a'', ''c''] f)"
proof -
  let ?run = "run_tool sample_tool_env (DetectAnomalies ''mad'') [''d'', ''b'', ''a'', ''c''] sample_tool_state"
  obtain out st' new fs where run: "?run = (out, st')"
    and s: "ts_store st' = ts_store sample_tool_state @ zip new (map2 (stored_finding sample_tool_env) new fs)"
    and l: "length fs = length new" and c: "list_all (cites [''d'', ''b'', ''a'', ''c'']) fs"
    and o: "case out of Inr r \<Rightarrow> tl_artifact_ids r = new
      \<and> (tl_success r \<or> str_truthy (tl_error_code r) \<and> new = [] \<and> st' = sample_tool_state) | Inl e \<Rightarrow> True"
    using tools_only_add_cited_findings [OF sample_fresh, of "DetectAnomalies ''mad''" "[''d'', ''b'', ''a'', ''c'']"]
    by blast
  have "map_sum id tl_artifact_ids (fst ?run) = Inr [''fffff'']" by code_simp
  then obtain r where r: "out = Inr r" "tl_artifact_ids r = [''fffff'']" unfolding run by (cases out) auto
  with o have new: "new = [''fffff'']" by simp
  with l obtain f where f: "fs = [f]" by (cases fs) auto
  show ?thesis
    using run r c f new by (intro exI [of _ r] exI [of _ st'] conjI exI [of _ f])
      (simp_all add: s sample_tool_state_def)
qed

lemma success_needs_comparable_evidence_witness:
  "\<exists>r st'. run_tool sample_tool_env ComparePeriods [''b'', ''a''] sample_tool_state = (Inr r, st') \<and> tl_success r
    \<and> (\<exists>ev. length ev = 2 \<and> (\<forall>e\<in>set ev. evidence_span e = 1))"
proof -
  let ?run = "run_tool sample_tool_env ComparePeriods [''b'', ''a''] sample_tool_state"
  have "map_sum id tl_success (fst ?run) = Inr True" by code_simp
  then obtain r st' where r: "?run = (Inr r, st')" "tl_success r" by (cases ?run; cases "fst ?run") auto
  from success_needs_comparable_evidence [OF r sample_keyed] obtain ev
    where ev: "list_all2 (\<lambda>i e. \<exists>a. dict_get (ts_store sample_tool_state) i = Some a
        \<and> art_artifact_type a = ''evidence'' \<and> te_parse sample_tool_env (art_payload a) = Some e) [''b'', ''a''] ev"
    by blast
  then have "length ev = 2" by (auto dest: list_all2_lengthD)
  moreover have "\<forall>e\<in>set ev. evidence_span e = 1"
    using ev by (auto simp: list_all2_Cons1 sample_tool_state_def sample_artifact_def sample_tool_env_def
        sample_payload_def obj_get_def sample_evidence_def evidence_span_def period_span_days_def)
  ultimately show ?thesis using r by blast
qed

lemma anomalies_are_scored_per_series_witness:
  "\<exists>fs ws f. decide_anomalies [''a'', ''b'', ''c''] [sample_evidence ''m'' [] 0 0 10 ''day'', sample_evidence ''m'' [] 1 1 11 ''day'',
      sample_evidence ''m'' [] 2 2 500 ''day''] = Findings fs ws \<and> f \<in> set fs
    \<and> (\<exists>key usable r. f = anomaly_finding key usable r \<and> zs_is_anomaly r \<and> 2 \<le> length usable)"
proof -
  let ?d = "decide_anomalies [''a'', ''b'', ''c''] [sample_evidence ''m'' [] 0 0 10 ''day'', sample_evidence ''m'' [] 1 1 11 ''day'',
      sample_evidence ''m'' [] 2 2 500 ''day'']"
  have "(case ?d of Findings fs ws \<Rightarrow> length fs | _ \<Rightarrow> 0) = 1" by code_simp
  then obtain fs ws f where d: "?d = Findings fs ws" "f \<in> set fs"
    by (cases ?d) (auto simp: length_Suc_conv)
  from anomalies_are_scored_per_series [OF d] d show ?thesis by blast
qed

section \<open>Weeks\<close>

lemma date_of_valid:
  assumes "1 \<le> 719163 + day_number t" "719163 + day_number t \<le> max_ordinal"
  shows "valid_date (date_of t) \<and> to_ordinal (date_of t) = 719163 + day_number t"
  using from_ordinal_spec [OF assms] by (simp add: date_of_def)

lemma isoformat_inject: "valid_date d \<Longrightarrow> valid_date e \<Longrightarrow> isoformat d = isoformat e \<longleftrightarrow> d = e"
  by (metis fromisoformat_isoformat sum.inject(2))

text \<open>
  C36. The window of the last week and the grain week do not fit together: weekly evidence of exactly
  the window that \<^verbatim>\<open>last_1w\<close> resolves to covers eight days, and every analytics tool that is given it
  refuses and writes nothing: with \<^verbatim>\<open>EVIDENCE_GRAIN_MISMATCH\<close>, unless it refuses its other argument
  first.
\<close>

theorem last_week_is_refused_as_week_grain:
  assumes "clock_ok clock" "tr_kind t = RangeRelative" "tr_token t = Some ''last_1w''"
    and "resolve_time_range clock t timezone as_of = Inr w"
    and "tr_start w = Some (isoformat (date_of (epl_period_start e)))"
    and "tr_end w = Some (isoformat (date_of (epl_period_end e)))"
    and "1 \<le> 719163 + day_number (epl_period_start e)" "719163 + day_number (epl_period_start e) \<le> max_ordinal"
    and "1 \<le> 719163 + day_number (epl_period_end e)" "719163 + day_number (epl_period_end e) \<le> max_ordinal"
    and "e \<in> set ev" "epl_grain e = ''week''"
    and "load_evidence env (ts_store st) ids = Some ev"
  shows "evidence_span e = 8
    \<and> run_tool env call ids st = (Inr (refuse (case call of
         DetectAnomalies method \<Rightarrow>
           if method \<in> {''robust_zscore'', ''mad''} then ''EVIDENCE_GRAIN_MISMATCH'' else ''METHOD_NOT_AVAILABLE''
       | SegmentDecomposition dimensions \<Rightarrow>
           if dimensions = [] then ''INSUFFICIENT_EVIDENCE'' else ''EVIDENCE_GRAIN_MISMATCH''
       | _ \<Rightarrow> ''EVIDENCE_GRAIN_MISMATCH'') []), st)"
proof -
  have "last_count CHR ''w'' (the (tr_token t)) = Some ''1''" "py_int ''1'' = Inr 1"
    unfolding assms(3) option.sel by code_simp+
  from weeks_window_has_an_extra_day [OF assms(1,2) this assms(4)] obtain a b
    where w: "spans w a b" "window_days a b = 8" by auto
  note s = date_of_valid [OF assms(7,8)] and t = date_of_valid [OF assms(9,10)]
  have "a = date_of (epl_period_start e)" "b = date_of (epl_period_end e)"
    using w(1) assms(5,6) s t isoformat_inject by (auto simp: spans_def)
  then have span: "evidence_span e = 8"
    using w(2) s t by (simp add: window_days_def evidence_span_def period_span_days_def)
  have "dict_get allowed_span_days ''week'' = Some (7, 7)" by (simp add: allowed_span_days_def)
  then have "validate_grain_set ev \<noteq> None"
    using span assms(11,12) grain_set_is_comparable [of ev] by fastforce
  then have "comparable env (ts_store st) ids k = Refused ''EVIDENCE_GRAIN_MISMATCH'' []" for k
    using assms(13) by (simp add: comparable_def)
  then show ?thesis using span
    by (cases call) (simp_all add: run_tool_decides decide_tool_def conclude_def)
qed

lemma last_week_is_refused_as_week_grain_witness:
  "run_tool (sample_tool_env\<lparr>te_parse := \<lambda>_. Some (sample_evidence ''m'' [] 1711238400000000 1711843200000000 1 ''week'')\<rparr>)
     CohortAnalysis [''a''] sample_tool_state = (Inr (refuse ''EVIDENCE_GRAIN_MISMATCH'' []), sample_tool_state)"
proof -
  let ?e = "sample_evidence ''m'' [] 1711238400000000 1711843200000000 1 ''week''"
  let ?env = "sample_tool_env\<lparr>te_parse := \<lambda>_. Some ?e\<rparr>"
  have d: "isoformat (date_of (utc 1711238400000000)) = ''2024-03-24''"
      "isoformat (date_of (utc 1711843200000000)) = ''2024-03-31''"
    by code_simp+
  have "load_evidence ?env (ts_store sample_tool_state) [''a''] = Some [?e]"
    by (simp add: load_evidence_def store_get_many_def sample_tool_state_def sample_artifact_def Let_def)
  then show ?thesis using d
    using last_week_is_refused_as_week_grain [OF sample_clock_ok _ _ sample_windows(2), of ?e "[?e]" ?env
        sample_tool_state "[''a'']" CohortAnalysis]
    by (simp add: token_range_def absolute_range_def sample_evidence_def day_number_def max_ordinal_def utc_def)
qed

end
