(* ===== verification/Catalogue.thy ===== *)
theory Catalogue
  imports Prelude
begin

text \<open>
  The live metric catalogue (\<^verbatim>\<open>services/catalogue_bootstrap.py\<close>), the metric registry over it
  (\<^verbatim>\<open>services/metrics.py\<close>, \<^verbatim>\<open>services/measure.py\<close>) and the ontology cache
  (\<^verbatim>\<open>services/ontology.py\<close>). The answers of the remote server, the clock and the text of values are
  arguments; a raised exception of a remote call is an \<open>Inl\<close>. An operation that awaits several
  answers is one step.
\<close>

section \<open>The live catalogue\<close>

record metric_meta =
  mm_id :: string
  mm_label :: string
  mm_view :: string
  mm_supported_dimensions :: "json list"
  mm_raw :: json_obj

record catalogue_bootstrap =
  cb_ttl :: rat
  cb_cache :: "(string, metric_meta) dict"
  cb_dimension_aliases :: "(string, string list) dict"
  cb_grain_defaults :: json_obj
  cb_warmed_at :: "rat option"

definition new_bootstrap :: catalogue_bootstrap where
  "new_bootstrap = \<lparr>cb_ttl = 900, cb_cache = [], cb_dimension_aliases = [], cb_grain_defaults = [],
     cb_warmed_at = None\<rparr>"

definition is_warm :: "catalogue_bootstrap \<Rightarrow> bool" where
  "is_warm b = (cb_warmed_at b \<noteq> None \<and> cb_cache b \<noteq> [])"

definition should_refresh :: "rat \<Rightarrow> catalogue_bootstrap \<Rightarrow> bool" where
  "should_refresh now b = (case cb_warmed_at b of None \<Rightarrow> True | Some t \<Rightarrow> cb_ttl b < now - t)"

definition bootstrap_has :: "catalogue_bootstrap \<Rightarrow> string \<Rightarrow> bool" where
  "bootstrap_has b i = (i \<in> set (dict_keys (cb_cache b)))"

definition bootstrap_get :: "catalogue_bootstrap \<Rightarrow> string \<Rightarrow> metric_meta option" where
  "bootstrap_get b i = dict_get (cb_cache b) i"

definition catalogue_entries :: "catalogue_bootstrap \<Rightarrow> metric_meta list" where
  "catalogue_entries b = dict_values (cb_cache b)"

definition alias_key :: "string \<Rightarrow> string" where
  "alias_key s = str_strip (underscores_to_spaces (str_lower s))"

text \<open>The key of an identifier is not stripped, those of its aliases are, and empty ones are left out.\<close>

definition alias_step :: "(string, string) dict \<Rightarrow> string \<times> string list \<Rightarrow> (string, string) dict" where
  "alias_step out kv =
     foldl (\<lambda>d a. if alias_key a = [] then d else dict_set d (alias_key a) (fst kv))
       (dict_set out (underscores_to_spaces (str_lower (fst kv))) (fst kv)) (snd kv)"

definition alias_index :: "catalogue_bootstrap \<Rightarrow> (string, string) dict" where
  "alias_index b = foldl alias_step [] (cb_dimension_aliases b)"

definition unresolvable :: "catalogue_bootstrap \<Rightarrow> string list \<Rightarrow> string list" where
  "unresolvable b ids = filter (\<lambda>i. i \<noteq> [] \<and> \<not> bootstrap_has b i) ids"

text \<open>\<^verbatim>\<open>str(row.get(k1) or row.get(k2) or "")\<close>\<close>

definition text_at :: "(json \<Rightarrow> string) \<Rightarrow> json_obj \<Rightarrow> string list \<Rightarrow> string" where
  "text_at sv row keys = py_str sv (foldr json_or (map (obj_get row) keys) (JStr []))"

definition meta_of :: "(json \<Rightarrow> string) \<Rightarrow> json_obj \<Rightarrow> json list \<Rightarrow> metric_meta" where
  "meta_of sv row dims = \<lparr>mm_id = text_at sv row [''id''], mm_label = text_at sv row [''label'', ''display_name''],
     mm_view = text_at sv row [''view'', ''cube_view''], mm_supported_dimensions = dims, mm_raw = row\<rparr>"

definition row_dimensions :: "json_obj \<Rightarrow> json list result" where
  "row_dimensions row = py_list (json_or (obj_get row ''supported_dimensions'') (JList []))"

text \<open>The loop over the rows, with the exception that ended it.\<close>

fun load_rows :: "(json \<Rightarrow> string) \<Rightarrow> json list \<Rightarrow> (string, metric_meta) dict
    \<Rightarrow> error option \<times> (string, metric_meta) dict" where
  "load_rows sv [] cache = (None, cache)"
| "load_rows sv (r # rows) cache =
     (case r of
        JObj row \<Rightarrow>
          (if text_at sv row [''id''] = [] then load_rows sv rows cache
           else case row_dimensions row of
             Inl e \<Rightarrow> (Some e, cache)
           | Inr dims \<Rightarrow> load_rows sv rows (dict_set cache (text_at sv row [''id'']) (meta_of sv row dims)))
      | _ \<Rightarrow> load_rows sv rows cache)"

fun load_dimensions :: "(json \<Rightarrow> string) \<Rightarrow> json list \<Rightarrow> (string, string list) dict
    \<Rightarrow> error option \<times> (string, string list) dict" where
  "load_dimensions sv [] found = (None, found)"
| "load_dimensions sv (d # dims) found =
     (case d of
        JObj row \<Rightarrow>
          (if text_at sv row [''id''] = [] then load_dimensions sv dims found
           else case py_list (json_or (obj_get row ''aliases'') (JList [])) of
             Inl e \<Rightarrow> (Some e, found)
           | Inr aliases \<Rightarrow>
               load_dimensions sv dims (dict_set found (text_at sv row [''id'']) (map (py_str sv) aliases)))
      | _ \<Rightarrow> load_dimensions sv dims found)"

definition payload_rows :: "json_obj \<Rightarrow> json" where
  "payload_rows payload = json_or (obj_get payload ''metrics'') (json_or (obj_get payload ''matches'') (JList []))"

definition load_tail :: "(json \<Rightarrow> string) \<Rightarrow> json_obj \<Rightarrow> catalogue_bootstrap \<Rightarrow> nat result \<times> catalogue_bootstrap" where
  "load_tail sv payload b =
     (let b1 = b\<lparr>cb_dimension_aliases := []\<rparr> in
      case py_list (json_or (obj_get payload ''dimensions'') (JList [])) of
        Inl e \<Rightarrow> (Inl e, b1)
      | Inr dims \<Rightarrow>
          (case load_dimensions sv dims [] of
             (Some e, found) \<Rightarrow> (Inl e, b1\<lparr>cb_dimension_aliases := found\<rparr>)
           | (None, found) \<Rightarrow>
               (Inr (length (cb_cache b)),
                b1\<lparr>cb_dimension_aliases := found,
                  cb_grain_defaults := (case obj_get payload ''grain_defaults'' of JObj d \<Rightarrow> d | _ \<Rightarrow> [])\<rparr>)))"

definition load_payload :: "(json \<Rightarrow> string) \<Rightarrow> json_obj \<Rightarrow> catalogue_bootstrap \<Rightarrow> nat result \<times> catalogue_bootstrap" where
  "load_payload sv payload b =
     (case py_list (payload_rows payload) of
        Inl e \<Rightarrow> (Inl e, b\<lparr>cb_cache := []\<rparr>)
      | Inr rows \<Rightarrow>
          (case load_rows sv rows [] of
             (Some e, cache) \<Rightarrow> (Inl e, b\<lparr>cb_cache := cache\<rparr>)
           | (None, cache) \<Rightarrow> load_tail sv payload (b\<lparr>cb_cache := cache\<rparr>)))"

text \<open>What the servers and the local index answer to one warm-up.\<close>

record catalogue_source =
  cs_bootstrap :: "json result"
  cs_list :: "json result"
  cs_local :: "(json_obj list \<times> json_obj list) result"

definition answered :: "json result \<Rightarrow> json_obj" where
  "answered r = (case r of Inr (JObj d) \<Rightarrow> d | _ \<Rightarrow> [])"

definition full_definition :: "json_obj \<Rightarrow> json" where
  "full_definition row = json_or (obj_get row ''full_definition'') (JObj row)"

definition load_from_local_index ::
  "(json \<Rightarrow> string) \<Rightarrow> (json_obj list \<times> json_obj list) result \<Rightarrow> catalogue_bootstrap \<Rightarrow> nat result \<times> catalogue_bootstrap" where
  "load_from_local_index sv listing b =
     (case listing of
        Inl e \<Rightarrow> (Inr 0, b)
      | Inr (metrics, dims) \<Rightarrow> load_payload sv
          [(''metrics'', JList (map full_definition metrics)), (''dimensions'', JList (map full_definition dims))] b)"

text \<open>The next source is asked when one has no rows; an exception ends the warm-up.\<close>

definition or_next :: "nat result \<times> catalogue_bootstrap
    \<Rightarrow> (catalogue_bootstrap \<Rightarrow> nat result \<times> catalogue_bootstrap) \<Rightarrow> nat result \<times> catalogue_bootstrap" where
  "or_next loaded next_source =
     (case loaded of (Inr n, b) \<Rightarrow> if n = 0 then next_source b else loaded | _ \<Rightarrow> loaded)"

definition warm :: "(json \<Rightarrow> string) \<Rightarrow> rat \<Rightarrow> catalogue_source \<Rightarrow> catalogue_bootstrap \<Rightarrow> nat result \<times> catalogue_bootstrap" where
  "warm sv now src b =
     (case or_next (load_payload sv (answered (cs_bootstrap src)) b) (\<lambda>b1.
           or_next (load_payload sv (answered (cs_list src)) b1) (load_from_local_index sv (cs_local src))) of
        (Inr n, b') \<Rightarrow> (Inr n, b'\<lparr>cb_warmed_at := Some now\<rparr>)
      | (Inl e, b') \<Rightarrow> (Inl e, b'))"

definition refresh_if_stale :: "(json \<Rightarrow> string) \<Rightarrow> rat \<Rightarrow> catalogue_source \<Rightarrow> catalogue_bootstrap
    \<Rightarrow> unit result \<times> catalogue_bootstrap" where
  "refresh_if_stale sv now src b =
     (if should_refresh now b
      then (case warm sv now src b of (r, b') \<Rightarrow> (result_bind r (\<lambda>_. Inr ()), b'))
      else (Inr (), b))"

section \<open>The metric registry\<close>

text \<open>
  A row of the YAML overlay. A key that is absent is \<open>None\<close>; the module may also be present with the
  value null, which means no module.
\<close>

record metric_payload =
  pl_id :: string
  pl_version :: "int option"
  pl_owner :: "string option"
  pl_description :: "string option"
  pl_formula :: "string option"
  pl_unit :: "string option"
  pl_grain :: "string option"
  pl_timezone :: "string option"
  pl_domain :: "string option"
  pl_aliases :: "string list option"
  pl_catalogue_metric :: "string option"
  pl_seleric_module :: "string option option"
  pl_direction_bad :: "string option"

record metric_definition =
  md_id :: string
  md_version :: int
  md_owner :: string
  md_description :: string
  md_formula :: string
  md_unit :: "string option"
  md_grain :: string
  md_timezone :: string
  md_domain :: string
  md_aliases :: "string list"
  md_catalogue_metric :: "string option"
  md_seleric_module :: "string option"
  md_direction_bad :: string
  md_raw :: metric_payload

definition given :: "'a \<Rightarrow> 'a option \<Rightarrow> 'a" where
  "given d x = (case x of None \<Rightarrow> d | Some v \<Rightarrow> v)"

definition metric_definition_of :: "metric_payload \<Rightarrow> metric_definition" where
  "metric_definition_of p = \<lparr>md_id = pl_id p, md_version = given 1 (pl_version p), md_owner = given [] (pl_owner p),
     md_description = given [] (pl_description p), md_formula = given [] (pl_formula p), md_unit = pl_unit p,
     md_grain = given ''day'' (pl_grain p), md_timezone = given ''Asia/Kolkata'' (pl_timezone p),
     md_domain = given (given [] (pl_owner p)) (pl_domain p),
     md_aliases = map str_lower (given [] (pl_aliases p)),
     md_catalogue_metric = (if str_truthy (pl_catalogue_metric p) then pl_catalogue_metric p else None),
     md_seleric_module = given None (pl_seleric_module p),
     md_direction_bad = (let d = given ''up'' (pl_direction_bad p) in if d \<in> {''up'', ''down''} then d else ''up''),
     md_raw = p\<rparr>"

text \<open>\<^verbatim>\<open>services/measure.py\<close>: the module argument, when there is one (perhaps null).\<close>

definition module_args :: "metric_definition \<Rightarrow> string option option" where
  "module_args d = (if pl_seleric_module (md_raw d) \<noteq> None then Some (md_seleric_module d) else None)"

definition category_domain :: "(string, string) dict" where
  "category_domain = [(''commerce'', ''commerce''), (''attribution'', ''attribution''), (''web_analytics'', ''funnel''),
     (''webanalytics'', ''funnel''), (''product'', ''product''), (''paid_media'', ''performance''),
     (''paidmedia'', ''performance''), (''finance'', ''finance''), (''customer'', ''customer''),
     (''operations'', ''operations'')]"

definition cadence_stem :: "string \<Rightarrow> string" where
  "cadence_stem i = (case find (str_endswith (str_lower i)) [''_hourly'', ''_intraday'', ''_daily''] of
     Some suffix \<Rightarrow> take (length i - length suffix) i | None \<Rightarrow> i)"

definition is_intraday_id :: "string \<Rightarrow> bool" where
  "is_intraday_id i = list_ex (str_endswith (str_lower i)) [''_hourly'', ''_intraday'']"

record metric_registry =
  rg_metrics :: "(string, metric_definition) dict"
  rg_by_catalogue :: "(string, string) dict"
  rg_bound :: bool
  rg_live_defs :: "(string, metric_definition) dict"

definition overlay_rows :: "metric_payload list \<Rightarrow> (string, metric_definition) dict" where
  "overlay_rows payloads = foldl (\<lambda>d p. dict_set d (pl_id p) (metric_definition_of p)) [] payloads"

definition catalogue_step :: "(string, string) dict \<Rightarrow> metric_definition \<Rightarrow> (string, string) dict" where
  "catalogue_step d m = (case md_catalogue_metric m of Some c \<Rightarrow> dict_set d c (md_id m) | None \<Rightarrow> d)"

definition new_registry :: "metric_payload list \<Rightarrow> metric_registry" where
  "new_registry payloads = (let metrics = overlay_rows payloads in
     \<lparr>rg_metrics = metrics, rg_by_catalogue = foldl catalogue_step [] (dict_values metrics),
      rg_bound = False, rg_live_defs = []\<rparr>)"

definition overlay_for :: "metric_registry \<Rightarrow> string \<Rightarrow> metric_definition option" where
  "overlay_for rg c = (case dict_get (rg_by_catalogue rg) c of
     Some y \<Rightarrow> if y \<noteq> [] then dict_get (rg_metrics rg) y else None | None \<Rightarrow> None)"

text \<open>The stem with which a cadence sibling shares its overlay: the longest catalogue id it extends.\<close>

definition extends_stem :: "string \<Rightarrow> string \<times> string \<Rightarrow> bool" where
  "extends_stem i kv = (fst kv \<noteq> [] \<and> str_startswith i (fst kv @ ''_''))"

definition stem_overlay :: "metric_registry \<Rightarrow> string \<Rightarrow> metric_definition option" where
  "stem_overlay rg i =
     (case find (extends_stem i) (sort_key (\<lambda>kv. - int (length (fst kv))) (rg_by_catalogue rg)) of
        Some kv \<Rightarrow> dict_get (rg_metrics rg) (snd kv) | None \<Rightarrow> None)"

definition overlay_of_live :: "metric_registry \<Rightarrow> string \<Rightarrow> metric_definition option" where
  "overlay_of_live rg i = (case overlay_for rg i of Some m \<Rightarrow> Some m | None \<Rightarrow> stem_overlay rg i)"

definition live_domain :: "(json \<Rightarrow> string) \<Rightarrow> metric_definition option \<Rightarrow> json_obj \<Rightarrow> string" where
  "live_domain sv overlay raw =
     (let own = (case overlay of Some m \<Rightarrow> md_domain m | None \<Rightarrow> []) in
      if own \<noteq> [] then own else given [] (dict_get category_domain (str_lower (text_at sv raw [''category'']))))"

definition or_text :: "string \<Rightarrow> string \<Rightarrow> string" where
  "or_text a b = (if a \<noteq> [] then a else b)"

definition live_payload :: "(json \<Rightarrow> string) \<Rightarrow> metric_registry \<Rightarrow> metric_meta \<Rightarrow> metric_payload" where
  "live_payload sv rg m =
     (let overlay = overlay_of_live rg (mm_id m); area = live_domain sv overlay (mm_raw m) in
      \<lparr>pl_id = mm_id m, pl_version = None, pl_owner = Some area,
       pl_description = Some (or_text (mm_label m)
         (py_str sv (json_or (obj_get (mm_raw m) ''description'') (JStr (mm_id m))))),
       pl_formula = Some (py_str sv (json_or (obj_get (mm_raw m) ''formula'') (JStr (mm_id m)))),
       pl_unit = (case overlay of Some o' \<Rightarrow> md_unit o' | None \<Rightarrow> None),
       pl_grain = Some (py_str sv (json_or (obj_get (mm_raw m) ''grain'') (JStr ''day''))),
       pl_timezone = Some ''Asia/Kolkata'', pl_domain = Some area,
       pl_aliases = map_option md_aliases overlay,
       pl_catalogue_metric = Some (mm_id m),
       pl_seleric_module = map_option md_seleric_module overlay,
       pl_direction_bad = map_option md_direction_bad overlay\<rparr>)"

definition from_live :: "(json \<Rightarrow> string) \<Rightarrow> metric_registry \<Rightarrow> metric_meta \<Rightarrow> metric_definition" where
  "from_live sv rg m = metric_definition_of (live_payload sv rg m)"

definition bind_catalogue :: "(json \<Rightarrow> string) \<Rightarrow> catalogue_bootstrap option \<Rightarrow> metric_registry \<Rightarrow> metric_registry" where
  "bind_catalogue sv bound rg =
     (case bound of
        None \<Rightarrow> rg\<lparr>rg_bound := False, rg_live_defs := []\<rparr>
      | Some b \<Rightarrow> rg\<lparr>rg_bound := True,
          rg_live_defs := (if is_warm b
            then foldl (\<lambda>d m. dict_set d (mm_id m) (from_live sv rg m)) [] (catalogue_entries b) else [])\<rparr>)"

definition all_definitions :: "metric_registry \<Rightarrow> metric_definition list" where
  "all_definitions rg = dict_values (if rg_live_defs rg = [] then rg_metrics rg
     else foldl (\<lambda>d kv. dict_setdefault d (fst kv) (snd kv)) (rg_live_defs rg) (rg_metrics rg))"

definition id_for_catalogue :: "metric_registry \<Rightarrow> catalogue_bootstrap \<Rightarrow> string option \<Rightarrow> string option" where
  "id_for_catalogue rg b cid =
     (if \<not> str_truthy cid then None
      else if rg_bound rg \<and> bootstrap_has b (the cid) then cid
      else if dict_get (rg_metrics rg) (the cid) \<noteq> None then cid
      else dict_get (rg_by_catalogue rg) (the cid))"

definition registry_get :: "metric_registry \<Rightarrow> string \<Rightarrow> metric_definition option" where
  "registry_get rg i =
     (case dict_get (rg_live_defs rg) i of Some m \<Rightarrow> Some m
      | None \<Rightarrow> (case dict_get (rg_metrics rg) i of Some m \<Rightarrow> Some m
      | None \<Rightarrow> overlay_for rg i))"

definition ids_for_domain :: "metric_registry \<Rightarrow> string \<Rightarrow> string list" where
  "ids_for_domain rg area = map md_id (filter (\<lambda>m. md_domain m = area) (all_definitions rg))"

definition owner_agent_for :: "metric_registry \<Rightarrow> string \<Rightarrow> string option" where
  "owner_agent_for rg i = (case registry_get rg i of
     Some m \<Rightarrow> if md_domain m = [] then None else Some (md_domain m @ ''_agent'') | None \<Rightarrow> None)"

text \<open>The first value a function finds on a list.\<close>

fun first_some :: "('a \<Rightarrow> 'b option) \<Rightarrow> 'a list \<Rightarrow> 'b option" where
  "first_some f [] = None"
| "first_some f (x # xs) = (case f x of Some y \<Rightarrow> Some y | None \<Rightarrow> first_some f xs)"

definition spaces_to_underscores :: "string \<Rightarrow> string" where
  "spaces_to_underscores s = map (\<lambda>c. if c = CHR '' '' then CHR ''_'' else c) s"

definition resolve_alias :: "metric_registry \<Rightarrow> string \<Rightarrow> metric_definition option" where
  "resolve_alias rg hint =
     (let raw = str_lower (str_strip hint) in
      if raw = [] then None
      else case first_some (registry_get rg) [raw, ''metric.'' @ raw, spaces_to_underscores raw,
                  ''metric.'' @ spaces_to_underscores raw] of
        Some m \<Rightarrow> Some m
      | None \<Rightarrow> find (\<lambda>m. raw \<in> set (md_aliases m)) (dict_values (rg_metrics rg)))"

definition hint_slug :: "string \<Rightarrow> string" where
  "hint_slug hint = str_lower (str_strip (underscores_to_spaces (without_prefix ''metric.'' hint)))"

definition mentions :: "string \<Rightarrow> metric_definition \<Rightarrow> bool" where
  "mentions slug m = str_contains slug (underscores_to_spaces (str_lower (md_id m @ '' '' @ md_description m)))"

definition resolve_hint :: "metric_registry \<Rightarrow> string \<Rightarrow> string option" where
  "resolve_hint rg hint =
     (if registry_get rg hint \<noteq> None then Some hint
      else let slug = hint_slug hint in
        if slug = [] then None
        else case find (\<lambda>m. slug \<in> set (md_aliases m)) (dict_values (rg_metrics rg)) of
          Some m \<Rightarrow> Some (md_id m)
        | None \<Rightarrow> map_option md_id (find (mentions slug) (dict_values (rg_live_defs rg))))"

definition canonical_id :: "metric_registry \<Rightarrow> string \<Rightarrow> string" where
  "canonical_id rg i =
     (case registry_get rg i of
        None \<Rightarrow> i
      | Some m \<Rightarrow>
          (case md_catalogue_metric m of
             Some c \<Rightarrow> if dict_get (rg_live_defs rg) c \<noteq> None then c
                       else if dict_get (rg_live_defs rg) i \<noteq> None then i else md_id m
           | None \<Rightarrow> if dict_get (rg_live_defs rg) i \<noteq> None then i else md_id m))"

definition require_metric :: "metric_registry \<Rightarrow> string \<Rightarrow> metric_definition result" where
  "require_metric rg i = (case registry_get rg i of None \<Rightarrow> Inl (KeyError (''Unknown metric id: '' @ i)) | Some m \<Rightarrow> Inr m)"

definition lead_agent_for_hints :: "string list \<Rightarrow> metric_registry option \<Rightarrow> string" where
  "lead_agent_for_hints hints metrics =
     (case metrics of
        None \<Rightarrow> ''coordinator_agent''
      | Some rg \<Rightarrow> given ''coordinator_agent'' (first_some (owner_agent_for rg) hints))"

section \<open>The ontology cache\<close>

text \<open>
  \<^verbatim>\<open>services/ontology.py\<close>. Keys of the module cache are whatever the server sends as a module; a list or
  an object cannot be one. \<open>live\<close> says which capabilities the gateway has.
\<close>

record ontology_caches =
  oc_agent :: "(string, json_obj) dict"
  oc_module :: "(json, json_obj) dict"
  oc_metric :: "(string, json) dict"
  oc_related :: "(string, json_obj) dict"

definition bare_metric_id :: "string \<Rightarrow> string" where
  "bare_metric_id i = without_prefix ''metric.'' (str_strip i)"

definition usable :: "json_obj \<Rightarrow> bool" where
  "usable d = (d \<noteq> [] \<and> \<not> truthy (obj_get d ''error''))"

definition hashable :: "json \<Rightarrow> bool" where
  "hashable v = (case v of JList _ \<Rightarrow> False | JObj _ \<Rightarrow> False | _ \<Rightarrow> True)"

definition for_agent ::
  "(string \<Rightarrow> bool) \<Rightarrow> (string \<Rightarrow> string option) \<Rightarrow> json result \<Rightarrow> string \<Rightarrow> ontology_caches
     \<Rightarrow> json_obj result \<times> ontology_caches" where
  "for_agent live module_for reply agent oc =
     (case dict_get (oc_agent oc) agent of
        Some d \<Rightarrow> (Inr d, oc)
      | None \<Rightarrow>
          if \<not> live ''seleric.catalogue_get_ontology'' \<or> \<not> usable (answered reply) then (Inr [], oc)
          else
            (let d = answered reply; oc1 = oc\<lparr>oc_agent := dict_set (oc_agent oc) agent d\<rparr>;
                 m = json_or (obj_get d ''module'') (opt_json (module_for agent)) in
             if \<not> truthy m then (Inr d, oc1)
             else if \<not> hashable m then (Inl (TypeError ''unhashable type''), oc1)
             else (Inr d, oc1\<lparr>oc_module := dict_set (oc_module oc) m d\<rparr>)))"

definition for_module :: "(string \<Rightarrow> bool) \<Rightarrow> json result \<Rightarrow> string \<Rightarrow> ontology_caches \<Rightarrow> json_obj \<times> ontology_caches" where
  "for_module live reply m oc =
     (case dict_get (oc_module oc) (JStr m) of
        Some d \<Rightarrow> (d, oc)
      | None \<Rightarrow>
          if \<not> live ''seleric.catalogue_get_ontology'' \<or> \<not> usable (answered reply) then ([], oc)
          else (answered reply, oc\<lparr>oc_module := dict_set (oc_module oc) (JStr m) (answered reply)\<rparr>))"

definition metric_context :: "(string \<Rightarrow> bool) \<Rightarrow> json result \<Rightarrow> string \<Rightarrow> ontology_caches \<Rightarrow> json \<times> ontology_caches" where
  "metric_context live reply i oc =
     (case dict_get (oc_metric oc) (bare_metric_id i) of
        Some v \<Rightarrow> (v, oc)
      | None \<Rightarrow>
          if \<not> live ''seleric.catalogue_get_metric'' \<or> \<not> usable (answered reply) then (JObj [], oc)
          else (let om = json_or (obj_get (answered reply) ''openmetadata'') (JObj []) in
                (om, oc\<lparr>oc_metric := dict_set (oc_metric oc) (bare_metric_id i) om\<rparr>)))"

definition related_metrics :: "(string \<Rightarrow> bool) \<Rightarrow> json result \<Rightarrow> string \<Rightarrow> ontology_caches \<Rightarrow> json_obj \<times> ontology_caches" where
  "related_metrics live reply i oc =
     (case dict_get (oc_related oc) (bare_metric_id i) of
        Some d \<Rightarrow> (d, oc)
      | None \<Rightarrow>
          if \<not> live ''seleric.catalogue_related_metrics'' \<or> \<not> usable (answered reply) then ([], oc)
          else (answered reply, oc\<lparr>oc_related := dict_set (oc_related oc) (bare_metric_id i) (answered reply)\<rparr>))"

text \<open>The first answer about a metric is kept for every spelling of it; a failed call keeps nothing.\<close>

lemma metric_context_is_kept:
  assumes "metric_context live reply i oc = (v, oc')" "oc' \<noteq> oc \<or> dict_get (oc_metric oc) (bare_metric_id i) \<noteq> None"
    "bare_metric_id j = bare_metric_id i"
  shows "metric_context live' reply' j oc' = (v, oc')"
  using assms by (auto simp: metric_context_def Let_def split: option.splits if_splits)

lemma ontology_failure_keeps_caches:
  "\<not> usable (answered reply) \<Longrightarrow> snd (for_agent live mf reply i oc) = oc \<and> snd (for_module live reply i oc) = oc
     \<and> snd (metric_context live reply i oc) = oc \<and> snd (related_metrics live reply i oc) = oc"
  by (simp add: for_agent_def for_module_def metric_context_def related_metrics_def split: option.splits)

section \<open>Catalogue and registry invariants\<close>

text \<open>Every cached entry stands under its own identifier, which is not empty.\<close>

definition catalogue_ok :: "catalogue_bootstrap \<Rightarrow> bool" where
  "catalogue_ok b = (keyed mm_id (cb_cache b) \<and> [] \<notin> set (dict_keys (cb_cache b)))"

lemma keys_dict_set [simp]: "fst ` set (dict_set d k v) = insert k (fst ` set d)"
  by (induction d k v rule: dict_set.induct) auto

lemma load_rows_ok:
  "keyed mm_id cache \<Longrightarrow> [] \<notin> set (dict_keys cache) \<Longrightarrow> load_rows sv rows cache = (e, cache')
   \<Longrightarrow> keyed mm_id cache' \<and> [] \<notin> set (dict_keys cache')"
proof (induction sv rows cache rule: load_rows.induct)
  case (2 sv r rows cache)
  show ?case
  proof (cases r)
    case (JObj row)
    show ?thesis
    proof (cases "text_at sv row [''id''] = []")
      case True
      then show ?thesis using 2 JObj by simp
    next
      case False
      have "mm_id (meta_of sv row dims) = text_at sv row [''id'']" for dims by (simp add: meta_of_def)
      then show ?thesis using 2 JObj False by (auto split: sum.splits)
    qed
  qed (use 2 in simp_all)
qed simp

lemma load_tail_cache: "load_tail sv payload b = (r, b') \<Longrightarrow> cb_cache b' = cb_cache b"
  by (auto simp: load_tail_def Let_def split: sum.splits prod.splits option.splits)

lemma load_rows_fresh:
  "load_rows sv rows [] = (e, cache) \<Longrightarrow> keyed mm_id cache \<and> [] \<notin> set (dict_keys cache)"
  by (rule load_rows_ok [of "[]"]) simp_all

lemma load_payload_ok:
  assumes l: "load_payload sv payload b = (r, b')" shows "catalogue_ok b'"
proof (cases "py_list (payload_rows payload)")
  case (Inr rows)
  obtain e cache where c: "load_rows sv rows [] = (e, cache)" by (cases "load_rows sv rows []")
  then have "cb_cache b' = cache" using l Inr
    by (auto simp: load_payload_def dest!: load_tail_cache split: option.splits)
  then show ?thesis using load_rows_fresh [OF c] by (simp add: catalogue_ok_def)
qed (use l in \<open>auto simp: load_payload_def catalogue_ok_def\<close>)

lemma or_next_ok:
  "(\<And>r' b'. loaded = (r', b') \<Longrightarrow> P b') \<Longrightarrow> (\<And>r' b' b1. P b1 \<Longrightarrow> next_source b1 = (r', b') \<Longrightarrow> P b')
   \<Longrightarrow> or_next loaded next_source = (r, b) \<Longrightarrow> P b"
  by (cases loaded) (auto simp: or_next_def split: sum.splits if_splits)

lemma local_index_ok:
  "catalogue_ok b \<Longrightarrow> load_from_local_index sv listing b = (r, b') \<Longrightarrow> catalogue_ok b'"
  by (auto simp: load_from_local_index_def split: sum.splits prod.splits intro: load_payload_ok)

lemma warm_ok: "warm sv now src b = (r, b') \<Longrightarrow> catalogue_ok b'"
proof -
  assume w: "warm sv now src b = (r, b')"
  have step: "or_next (load_payload sv (answered (cs_list src)) b1)
      (load_from_local_index sv (cs_local src)) = (r', b2) \<Longrightarrow> catalogue_ok b2" for b1 r' b2
    by (erule or_next_ok [rotated 2]) (auto intro: load_payload_ok local_index_ok)
  have "or_next (load_payload sv (answered (cs_bootstrap src)) b) (\<lambda>b1.
      or_next (load_payload sv (answered (cs_list src)) b1) (load_from_local_index sv (cs_local src))) = (r', b2)
      \<Longrightarrow> catalogue_ok b2" for r' b2
    by (erule or_next_ok [rotated 2]) (auto intro: load_payload_ok step)
  then show ?thesis using w
    by (auto simp: warm_def catalogue_ok_def split: sum.splits prod.splits)
qed

lemma refresh_ok:
  "catalogue_ok b \<Longrightarrow> refresh_if_stale sv now src b = (r, b') \<Longrightarrow> catalogue_ok b'"
  by (auto simp: refresh_if_stale_def split: if_splits prod.splits dest: warm_ok)

lemma new_bootstrap_ok [simp]: "catalogue_ok new_bootstrap"
  by (simp add: catalogue_ok_def new_bootstrap_def)

definition registry_ok :: "metric_registry \<Rightarrow> bool" where
  "registry_ok rg = (
     (\<forall>i m. dict_get (rg_live_defs rg) i = Some m \<longrightarrow> md_id m = i \<and> md_catalogue_metric m = Some i) \<and>
     (\<forall>y m. dict_get (rg_metrics rg) y = Some m \<longrightarrow> md_id m = y) \<and>
     (\<forall>c y. dict_get (rg_by_catalogue rg) c = Some y \<longrightarrow>
        (\<exists>m. dict_get (rg_metrics rg) y = Some m \<and> md_catalogue_metric m = Some c)))"

lemma overlay_rows_keyed: "keyed md_id (overlay_rows payloads)"
proof -
  have "keyed md_id d \<Longrightarrow>
      keyed md_id (foldl (\<lambda>d p. dict_set d (pl_id p) (metric_definition_of p)) d payloads)" for d
    by (induction payloads arbitrary: d) (simp_all add: metric_definition_of_def)
  then show ?thesis by (simp add: overlay_rows_def)
qed

lemma catalogue_steps:
  "dict_get (foldl catalogue_step d ms) c = Some y \<Longrightarrow>
     dict_get d c = Some y \<or> (\<exists>m\<in>set ms. md_catalogue_metric m = Some c \<and> md_id m = y)"
proof (induction ms arbitrary: d)
  case (Cons m ms)
  from Cons.IH [OF Cons.prems [unfolded foldl.simps]] show ?case
    by (auto simp: catalogue_step_def split: option.splits if_splits)
qed simp

lemma new_registry_ok: "registry_ok (new_registry payloads)"
  unfolding registry_ok_def new_registry_def Let_def
  using overlay_rows_keyed [of payloads] keyed_value_get [OF overlay_rows_keyed]
  by (fastforce dest: catalogue_steps keyed_get)

lemma live_fold:
  "dict_get (foldl (\<lambda>d m. dict_set d (mm_id m) (from_live sv rg m)) d ms) i = Some x \<Longrightarrow>
     dict_get d i = Some x \<or> (\<exists>m\<in>set ms. mm_id m = i \<and> x = from_live sv rg m)"
proof (induction ms arbitrary: d)
  case (Cons m ms)
  from Cons.IH [OF Cons.prems [unfolded foldl.simps]] show ?case
    by (auto split: if_splits)
qed simp

lemma from_live_ids [simp]:
  "md_id (from_live sv rg m) = mm_id m"
  "mm_id m \<noteq> [] \<Longrightarrow> md_catalogue_metric (from_live sv rg m) = Some (mm_id m)"
  by (simp_all add: from_live_def live_payload_def metric_definition_of_def Let_def)

lemma entries_ids: "catalogue_ok b \<Longrightarrow> m \<in> set (catalogue_entries b) \<Longrightarrow> mm_id m \<noteq> [] \<and> bootstrap_get b (mm_id m) = Some m"
  using keyed_value_get [of mm_id "cb_cache b" m] dict_get_SomeD [of "cb_cache b" "mm_id m" m]
  by (force simp: catalogue_ok_def catalogue_entries_def bootstrap_get_def)

lemma entries_not_empty [simp]: "catalogue_ok b \<Longrightarrow> m \<in> set (catalogue_entries b) \<Longrightarrow> mm_id m \<noteq> []"
  using entries_ids by blast

lemma bind_catalogue_ok:
  "registry_ok rg \<Longrightarrow> (\<And>b. bound = Some b \<Longrightarrow> catalogue_ok b) \<Longrightarrow> registry_ok (bind_catalogue sv bound rg)"
  unfolding registry_ok_def bind_catalogue_def
  by (auto split: option.splits if_splits dest!: live_fold)

definition bound_registry :: "(json \<Rightarrow> string) \<Rightarrow> catalogue_bootstrap option \<Rightarrow> metric_payload list \<Rightarrow> metric_registry" where
  "bound_registry sv bound payloads = bind_catalogue sv bound (new_registry payloads)"

lemma bound_registry_ok:
  "(\<And>b. bound = Some b \<Longrightarrow> catalogue_ok b) \<Longrightarrow> registry_ok (bound_registry sv bound payloads)"
  unfolding bound_registry_def by (rule bind_catalogue_ok [OF new_registry_ok])

section \<open>Spellings of a metric\<close>

lemma registry_get_live:
  "dict_get (rg_live_defs rg) i = Some m \<Longrightarrow> registry_get rg i = Some m"
  by (simp add: registry_get_def)

lemma overlay_for_Some:
  "registry_ok rg \<Longrightarrow> overlay_for rg c = Some m \<Longrightarrow>
     dict_get (rg_metrics rg) (md_id m) = Some m \<and> md_catalogue_metric m = Some c"
  by (simp add: overlay_for_def registry_ok_def split: option.splits if_splits) (metis option.inject)

text \<open>A definition is found under its own identifier again, unless a live metric has taken it.\<close>

lemma registry_get_own_id:
  assumes ok: "registry_ok rg" and g: "registry_get rg i = Some m"
  shows "registry_get rg (md_id m) \<noteq> None
    \<and> (dict_get (rg_live_defs rg) (md_id m) = None \<longrightarrow> registry_get rg (md_id m) = Some m)"
proof -
  consider "dict_get (rg_live_defs rg) i = Some m" | "dict_get (rg_metrics rg) i = Some m" | "overlay_for rg i = Some m"
    using g by (auto simp: registry_get_def split: option.splits)
  then have "dict_get (rg_live_defs rg) (md_id m) = Some m \<or> dict_get (rg_metrics rg) (md_id m) = Some m"
  proof cases
    case 3
    then show ?thesis using overlay_for_Some [OF ok] by blast
  qed (use ok in \<open>auto simp: registry_ok_def\<close>)
  then show ?thesis by (auto simp: registry_get_def split: option.splits)
qed

lemma canonical_id_live:
  "registry_ok rg \<Longrightarrow> dict_get (rg_live_defs rg) c = Some m \<Longrightarrow> canonical_id rg c = c"
  by (auto simp: canonical_id_def registry_ok_def registry_get_live)

lemma canonical_id_cases:
  assumes ok: "registry_ok rg" and g: "registry_get rg i = Some m"
  shows "(\<exists>m'. dict_get (rg_live_defs rg) (canonical_id rg i) = Some m')
    \<or> canonical_id rg i = md_id m \<and> registry_get rg (md_id m) = Some m
        \<and> (\<forall>c. md_catalogue_metric m = Some c \<longrightarrow> dict_get (rg_live_defs rg) c = None)"
  using registry_get_own_id [OF ok g] g
  by (cases "dict_get (rg_live_defs rg) (md_id m)") (auto simp: canonical_id_def split: option.splits)

text \<open>
  However a metric is spelled, its canonical identifier is one and the same: canonicalising
  twice changes nothing, a known metric stays known under it, and every identifier whose definition
  names a live catalogue metric has that metric as its canonical identifier.
\<close>

theorem canonical_id_collapses_spellings:
  assumes bound: "\<forall>b. bound = Some b \<longrightarrow> catalogue_ok b"
    and rg: "rg = bound_registry sv bound payloads"
  shows "canonical_id rg (canonical_id rg i) = canonical_id rg i
    \<and> (registry_get rg i \<noteq> None \<longrightarrow> registry_get rg (canonical_id rg i) \<noteq> None)
    \<and> (\<forall>m c. registry_get rg i = Some m \<and> md_catalogue_metric m = Some c \<and> dict_get (rg_live_defs rg) c \<noteq> None
         \<longrightarrow> canonical_id rg i = c \<and> canonical_id rg c = c)"
proof -
  have ok: "registry_ok rg" using bound rg by (auto intro: bound_registry_ok)
  show ?thesis
  proof (cases "registry_get rg i")
    case None
    then show ?thesis by (simp add: canonical_id_def)
  next
    case (Some m)
    consider m' where "dict_get (rg_live_defs rg) (canonical_id rg i) = Some m'"
      | "canonical_id rg i = md_id m" "registry_get rg (md_id m) = Some m"
        "\<forall>c. md_catalogue_metric m = Some c \<longrightarrow> dict_get (rg_live_defs rg) c = None"
      using canonical_id_cases [OF ok Some] by blast
    then have "canonical_id rg (canonical_id rg i) = canonical_id rg i \<and> registry_get rg (canonical_id rg i) \<noteq> None"
    proof cases
      case 1
      then show ?thesis using canonical_id_live [OF ok 1] registry_get_live by fastforce
    next
      case 2
      have "canonical_id rg (md_id m) = md_id m"
        using 2 by (auto simp: canonical_id_def split: option.splits)
      then show ?thesis using 2 by simp
    qed
    moreover have "canonical_id rg i = c \<and> canonical_id rg c = c"
      if "registry_get rg i = Some m" "md_catalogue_metric m = Some c" "dict_get (rg_live_defs rg) c \<noteq> None" for m c
      using that canonical_id_live [OF ok] by (auto simp: canonical_id_def)
    ultimately show ?thesis by blast
  qed
qed

text \<open>
  What a hint or an alias resolves to is a metric the registry knows.
\<close>

theorem resolved_metrics_are_known:
  assumes bound: "\<forall>b. bound = Some b \<longrightarrow> catalogue_ok b"
    and rg: "rg = bound_registry sv bound payloads"
  shows "(\<forall>i. resolve_hint rg hint = Some i \<longrightarrow> registry_get rg i \<noteq> None)
    \<and> (\<forall>m. resolve_alias rg hint = Some m \<longrightarrow> registry_get rg (md_id m) \<noteq> None)"
proof -
  have ok: "registry_ok rg" using bound rg by (auto intro: bound_registry_ok)
  have "keyed md_id (rg_metrics rg)"
    by (simp add: rg bound_registry_def bind_catalogue_def new_registry_def overlay_rows_keyed Let_def split: option.split)
  then have yaml: "registry_get rg (md_id m) \<noteq> None" if "m \<in> set (dict_values (rg_metrics rg))" for m
    using that keyed_value_get [of md_id "rg_metrics rg" m] by (auto simp: registry_get_def split: option.splits)
  have live: "registry_get rg (md_id m) \<noteq> None" if m: "m \<in> set (dict_values (rg_live_defs rg))" for m
  proof -
    obtain i where "(i, m) \<in> set (rg_live_defs rg)" using m by auto
    moreover have "dict_wf (rg_live_defs rg)"
    proof -
      have "dict_wf d \<Longrightarrow> dict_wf (foldl (\<lambda>d m. dict_set d (mm_id m) (from_live sv r m)) d ms)" for d r ms
        by (induction ms arbitrary: d) simp_all
      then show ?thesis by (simp add: rg bound_registry_def bind_catalogue_def split: option.split)
    qed
    ultimately have "dict_get (rg_live_defs rg) i = Some m" by (simp add: dict_wf_get)
    then show ?thesis using ok by (auto simp: registry_ok_def registry_get_live)
  qed
  have first: "first_some (registry_get rg) is = Some m \<Longrightarrow> registry_get rg (md_id m) \<noteq> None" for "is" m
  proof (induction "is")
    case (Cons i "is")
    then show ?case using registry_get_own_id [OF ok, of i] by (cases "registry_get rg i") auto
  qed simp
  have hint: "registry_get rg i \<noteq> None" if r: "resolve_hint rg hint = Some i" for i
  proof (cases "registry_get rg hint = None")
    case True
    then consider m where "find (\<lambda>m. hint_slug hint \<in> set (md_aliases m)) (dict_values (rg_metrics rg)) = Some m" "i = md_id m"
      | m where "find (mentions (hint_slug hint)) (dict_values (rg_live_defs rg)) = Some m" "i = md_id m"
      using r by (auto simp: resolve_hint_def Let_def split: if_splits option.splits)
    then show ?thesis
    proof cases
      case 1
      then have "m \<in> set (dict_values (rg_metrics rg))" by (auto simp: find_Some_iff)
      then show ?thesis using yaml 1 by simp
    next
      case 2
      then have "m \<in> set (dict_values (rg_live_defs rg))" by (auto simp: find_Some_iff)
      then show ?thesis using live 2 by simp
    qed
  qed (use r in \<open>simp add: resolve_hint_def\<close>)
  have other: "registry_get rg (md_id m) \<noteq> None" if "resolve_alias rg hint = Some m" for m
  proof (cases "first_some (registry_get rg) [str_lower (str_strip hint), ''metric.'' @ str_lower (str_strip hint),
      spaces_to_underscores (str_lower (str_strip hint)), ''metric.'' @ spaces_to_underscores (str_lower (str_strip hint))]")
    case None
    then have "find (\<lambda>m. str_lower (str_strip hint) \<in> set (md_aliases m)) (dict_values (rg_metrics rg)) = Some m"
      using that by (simp add: resolve_alias_def Let_def split: if_splits)
    then have "m \<in> set (dict_values (rg_metrics rg))" by (auto simp: find_Some_iff)
    then show ?thesis by (rule yaml)
  next
    case (Some m')
    then have "m' = m" using that by (simp add: resolve_alias_def Let_def split: if_splits)
    then show ?thesis using first [OF Some] by simp
  qed
  show ?thesis using hint other by blast
qed

section \<open>What refreshing does\<close>

text \<open>The bootstrap after a sequence of refreshes, each at its time with the answers it got.\<close>

definition refreshed ::
  "(json \<Rightarrow> string) \<Rightarrow> (rat \<times> catalogue_source) list \<Rightarrow> catalogue_bootstrap \<Rightarrow> catalogue_bootstrap" where
  "refreshed sv attempts b = foldl (\<lambda>b (now, src). snd (refresh_if_stale sv now src b)) b attempts"

lemma refreshed_ok: "catalogue_ok b \<Longrightarrow> catalogue_ok (refreshed sv attempts b)"
proof (induction attempts arbitrary: b)
  case (Cons a attempts)
  obtain now src where "a = (now, src)" by (cases a)
  then show ?case
    using Cons refresh_ok [of b sv now src] by (cases "refresh_if_stale sv now src b") (auto simp: refreshed_def)
qed (simp add: refreshed_def)

text \<open>
  C37. The registry is bound to the catalogue once, at start-up, when the catalogue is still cold,
  and binding copies what it finds. However often the catalogue is refreshed afterwards, a live metric
  outside the overlay is one the registry names as a catalogue identifier and then does not know;
  binding again would have found it.
\<close>

theorem registry_never_sees_catalogue:
  assumes rg: "rg = bound_registry sv (Some new_bootstrap) payloads"
    and b: "b = refreshed sv attempts new_bootstrap" "is_warm b" "bootstrap_has b c"
    and new: "dict_get (rg_metrics rg) c = None" "dict_get (rg_by_catalogue rg) c = None"
  shows "id_for_catalogue rg b (Some c) = Some c \<and> registry_get rg c = None
    \<and> require_metric rg c = Inl (KeyError (''Unknown metric id: '' @ c))
    \<and> registry_get (bind_catalogue sv (Some b) rg) c \<noteq> None"
proof -
  have ok: "catalogue_ok b" using b by (simp add: refreshed_ok)
  then have c: "c \<noteq> []" using b(3) by (metis catalogue_ok_def bootstrap_has_def)
  have cold: "rg_live_defs rg = []" "rg_bound rg"
    by (simp_all add: rg bound_registry_def bind_catalogue_def is_warm_def new_bootstrap_def)
  have none: "registry_get rg c = None" using new cold by (simp add: registry_get_def overlay_for_def)
  have keep: "dict_get d c \<noteq> None \<Longrightarrow>
      dict_get (foldl (\<lambda>d m. dict_set d (mm_id m) (from_live sv rg m)) d ms) c \<noteq> None" for d ms
    by (induction ms arbitrary: d) simp_all
  have found: "m \<in> set ms \<Longrightarrow> mm_id m = c \<Longrightarrow>
      dict_get (foldl (\<lambda>d m. dict_set d (mm_id m) (from_live sv rg m)) d ms) c \<noteq> None" for d m ms
  proof (induction ms arbitrary: d)
    case (Cons x ms)
    then show ?case by (cases "x = m") (simp_all add: keep)
  qed simp
  obtain m where m: "dict_get (cb_cache b) c = Some m"
    using b(3) by (cases "dict_get (cb_cache b) c") (simp_all add: bootstrap_has_def dict_get_None)
  have "mm_id m = c" using ok keyed_get [OF _ m] by (simp add: catalogue_ok_def)
  moreover have "m \<in> set (catalogue_entries b)" using dict_get_SomeD [OF m] by (force simp: catalogue_entries_def)
  ultimately have "m \<in> set (catalogue_entries b)" "mm_id m = c" by simp_all
  then have "registry_get (bind_catalogue sv (Some b) rg) c \<noteq> None"
    using found [of m "catalogue_entries b" "[]"] b(2) by (auto simp: bind_catalogue_def registry_get_def)
  with c cold none b(3) show ?thesis by (simp add: id_for_catalogue_def require_metric_def)
qed

text \<open>
  A refresh that fails drops the catalogue it was to renew: with every source down the call
  returns normally, the catalogue is empty, and no new attempt is made before the time to live is
  over, although the old listing could have been served.
\<close>

theorem failed_refresh_drops_catalogue:
  assumes stale: "should_refresh now b"
    and down: "cs_bootstrap src = Inl e1" "cs_list src = Inl e2" "cs_local src = Inl e3"
  shows "\<exists>b'. refresh_if_stale sv now src b = (Inr (), b') \<and> catalogue_entries b' = [] \<and> alias_index b' = []
    \<and> (\<forall>later answers. later - now \<le> cb_ttl b \<longrightarrow> refresh_if_stale sv later answers b' = (Inr (), b'))"
proof -
  let ?b = "b\<lparr>cb_cache := [], cb_dimension_aliases := [], cb_grain_defaults := [], cb_warmed_at := Some now\<rparr>"
  have "warm sv now src b = (Inr 0, ?b)"
    by (simp add: warm_def down load_payload_def answered_def payload_rows_def json_or_def
        obj_get_def load_tail_def or_next_def load_from_local_index_def)
  then have "refresh_if_stale sv now src b = (Inr (), ?b)"
    using stale by (simp add: refresh_if_stale_def)
  moreover have "refresh_if_stale sv later answers ?b = (Inr (), ?b)" if "later - now \<le> cb_ttl b" for later answers
    using that by (simp add: refresh_if_stale_def should_refresh_def)
  ultimately show ?thesis
    by (intro exI [of _ ?b]) (simp add: catalogue_entries_def alias_index_def)
qed

section \<open>Witnesses\<close>

definition sample_overlay :: "metric_payload list" where
  "sample_overlay = [\<lparr>pl_id = ''metric.sales'', pl_version = None, pl_owner = Some ''commerce'', pl_description = None,
     pl_formula = None, pl_unit = Some ''INR'', pl_grain = None, pl_timezone = None, pl_domain = None,
     pl_aliases = Some [''Revenue''], pl_catalogue_metric = Some ''net_sales'', pl_seleric_module = None,
     pl_direction_bad = Some ''down''\<rparr>]"

definition sample_listing :: catalogue_source where
  "sample_listing = \<lparr>cs_bootstrap = Inr (JObj [(''metrics'', JList (map (\<lambda>i. JObj [(''id'', JStr i)])
     [''net_sales'', ''net_sales_hourly'', ''cac'']))]), cs_list = Inl (RuntimeError []), cs_local = Inl (RuntimeError [])\<rparr>"

definition servers_down :: catalogue_source where
  "servers_down = \<lparr>cs_bootstrap = Inl (RuntimeError ''timeout''), cs_list = Inl (RuntimeError ''timeout''),
     cs_local = Inl (RuntimeError ''no index'')\<rparr>"

definition sample_catalogue :: catalogue_bootstrap where
  "sample_catalogue = refreshed (\<lambda>_. []) [(0, sample_listing)] new_bootstrap"

lemma canonical_id_collapses_spellings_witness:
  "let rg = bound_registry (\<lambda>_. []) (Some sample_catalogue) sample_overlay in
   canonical_id rg ''metric.sales'' = ''net_sales'' \<and> canonical_id rg ''net_sales'' = ''net_sales''"
proof -
  let ?rg = "bound_registry (\<lambda>_. []) (Some sample_catalogue) sample_overlay"
  have "catalogue_ok sample_catalogue" unfolding sample_catalogue_def by (simp add: refreshed_ok)
  then have b: "\<forall>b. Some sample_catalogue = Some b \<longrightarrow> catalogue_ok b" by simp
  have "map_option md_catalogue_metric (registry_get ?rg ''metric.sales'') = Some (Some ''net_sales'')
      \<and> dict_get (rg_live_defs ?rg) ''net_sales'' \<noteq> None"
    by code_simp
  then obtain m where "registry_get ?rg ''metric.sales'' = Some m" "md_catalogue_metric m = Some ''net_sales''"
      "dict_get (rg_live_defs ?rg) ''net_sales'' \<noteq> None"
    by auto
  then show ?thesis
    using canonical_id_collapses_spellings [OF b refl, where i = "''metric.sales''" and payloads = sample_overlay]
    by (simp add: Let_def)
qed

lemma resolved_metrics_are_known_witness:
  "let rg = bound_registry (\<lambda>_. []) (Some sample_catalogue) sample_overlay in
   resolve_hint rg ''metric.revenue'' = Some ''metric.sales'' \<and> registry_get rg ''metric.sales'' \<noteq> None"
proof -
  let ?rg = "bound_registry (\<lambda>_. []) (Some sample_catalogue) sample_overlay"
  have "catalogue_ok sample_catalogue" unfolding sample_catalogue_def by (simp add: refreshed_ok)
  then have b: "\<forall>b. Some sample_catalogue = Some b \<longrightarrow> catalogue_ok b" by simp
  have "resolve_hint ?rg ''metric.revenue'' = Some ''metric.sales''" by code_simp
  then show ?thesis
    using resolved_metrics_are_known [OF b refl, where hint = "''metric.revenue''" and payloads = sample_overlay]
    by (simp add: Let_def)
qed

lemma registry_never_sees_catalogue_witness:
  "let rg = bound_registry (\<lambda>_. []) (Some new_bootstrap) sample_overlay in
   id_for_catalogue rg sample_catalogue (Some ''cac'') = Some ''cac'' \<and> registry_get rg ''cac'' = None"
proof -
  let ?rg = "bound_registry (\<lambda>_. []) (Some new_bootstrap) sample_overlay"
  have w: "is_warm sample_catalogue" "bootstrap_has sample_catalogue ''cac''" by code_simp+
  have n: "dict_get (rg_metrics ?rg) ''cac'' = None" "dict_get (rg_by_catalogue ?rg) ''cac'' = None" by code_simp+
  show ?thesis
    using registry_never_sees_catalogue [OF refl sample_catalogue_def w n] by (simp add: Let_def)
qed

lemma failed_refresh_drops_catalogue_witness:
  "should_refresh 1000 sample_catalogue \<and> map mm_id (catalogue_entries sample_catalogue) = [''net_sales'', ''net_sales_hourly'', ''cac'']
   \<and> catalogue_entries (snd (refresh_if_stale (\<lambda>_. []) 1000 servers_down sample_catalogue)) = []"
proof -
  have s: "should_refresh 1000 sample_catalogue" by code_simp
  have "catalogue_entries (snd (refresh_if_stale (\<lambda>_. []) 1000 servers_down sample_catalogue)) = []"
    using failed_refresh_drops_catalogue [OF s, of servers_down "RuntimeError ''timeout''" "RuntimeError ''timeout''"
      "RuntimeError ''no index''" "\<lambda>_. []"]
    unfolding servers_down_def by fastforce
  moreover have "map mm_id (catalogue_entries sample_catalogue) = [''net_sales'', ''net_sales_hourly'', ''cac'']" by code_simp
  ultimately show ?thesis using s by simp
qed

end
