(* ===== verification/Business_State.thy ===== *)
theory Business_State
  imports Catalogue Time_Range Analytics
begin

text \<open>
  Metric states: the query builder of \<^verbatim>\<open>services/mcp_query.py\<close>, and
  \<^verbatim>\<open>services/business_state/\<close> (series, features, freshness, anomalies and the facade that puts a
  \<^verbatim>\<open>MetricState\<close> together). The server is a function from the calling agent and the arguments of a
  query to its answer (an \<open>Inl\<close> when the call raises); the clock, the texts of values, \<^verbatim>\<open>float\<close> of a
  text, the square root of \<^verbatim>\<open>statistics.pstdev\<close> and the parser of time stamps are arguments. A
  provenance that is neither empty nor an object is refused.
\<close>

section \<open>Queries\<close>

type_synonym query_server = "string \<Rightarrow> json_obj \<Rightarrow> json result"

record metrics_query =
  mq_measure :: string
  mq_start :: string
  mq_end :: string
  mq_grain :: "string option"
  mq_dimensions :: "string list"
  mq_filters :: "json_obj list"
  mq_limit :: "int option"
  mq_sort :: "json_obj list"
  mq_compare_period :: "string option"
  mq_module :: "string option option"
  mq_inject_default_brand :: bool

definition default_brand_id :: string where "default_brand_id = ''20''"

definition brand_dim_keys :: "string list" where
  "brand_dim_keys = [''brand_id'', ''brand'', ''brand_name'']"

definition filter_dimension :: "(json \<Rightarrow> string) \<Rightarrow> json_obj \<Rightarrow> string" where
  "filter_dimension sv f = py_str sv (case dict_get f ''dimension'' of Some v \<Rightarrow> v | None \<Rightarrow> JStr [])"

definition has_brand :: "(json \<Rightarrow> string) \<Rightarrow> string list \<Rightarrow> json_obj list \<Rightarrow> bool" where
  "has_brand sv dimensions filters =
     list_ex (\<lambda>k. str_lower (str_strip k) \<in> set brand_dim_keys) (dimensions @ map (filter_dimension sv) filters)"

definition brand_filter :: "string \<Rightarrow> json_obj" where
  "brand_filter brand = [(''dimension'', JStr ''brand_id''), (''operator'', JStr ''equals''),
     (''values'', JList [JStr brand])]"

text \<open>An argument that is sent only when there is something to send.\<close>

definition arg_if :: "bool \<Rightarrow> string \<Rightarrow> json \<Rightarrow> json_obj" where
  "arg_if c k v = (if c then [(k, v)] else [])"

definition all_filters :: "(json \<Rightarrow> string) \<Rightarrow> metrics_query \<Rightarrow> json_obj list" where
  "all_filters sv q = mq_filters q @
     (if mq_inject_default_brand q \<and> \<not> has_brand sv (mq_dimensions q) (mq_filters q)
      then [brand_filter default_brand_id] else [])"

definition build_metrics_query_args :: "(json \<Rightarrow> string) \<Rightarrow> metrics_query \<Rightarrow> json_obj" where
  "build_metrics_query_args sv q =
     [(''measures'', JList [JStr (mq_measure q)]),
      (''time_range'', JObj [(''start'', JStr (mq_start q)), (''end'', JStr (mq_end q))])]
     @ arg_if (str_truthy (mq_grain q)) ''granularity'' (opt_json (mq_grain q))
     @ arg_if (mq_dimensions q \<noteq> []) ''dimensions'' (JList (map JStr (mq_dimensions q)))
     @ arg_if (all_filters sv q \<noteq> []) ''filters'' (JList (map JObj (all_filters sv q)))
     @ arg_if (mq_limit q \<noteq> None) ''limit'' (JInt (given 0 (mq_limit q)))
     @ arg_if (mq_sort q \<noteq> []) ''sort'' (JList (map JObj (mq_sort q)))
     @ arg_if (str_truthy (mq_compare_period q)) ''compare_period'' (opt_json (mq_compare_period q))
     @ arg_if (mq_module q \<noteq> None) ''module'' (opt_json (given None (mq_module q)))"

text \<open>The columns Cube names \<^verbatim>\<open>view.dimension.granularity\<close>; \<^verbatim>\<open>$\<close> also matches before a final newline.\<close>

definition granularities :: "string list" where
  "granularities = [''second'', ''minute'', ''hour'', ''day'', ''week'', ''month'', ''quarter'', ''year'']"

definition is_date_key :: "string \<Rightarrow> bool" where
  "is_date_key key = list_ex (\<lambda>g. str_endswith key (''.'' @ g) \<or> str_endswith key (''.'' @ g @ [char_of (10::nat)])) granularities"

definition dated_column :: "string \<times> json \<Rightarrow> string option" where
  "dated_column kv = (case snd kv of
     JStr s \<Rightarrow> if is_date_key (fst kv) \<and> 10 \<le> length s then Some (take 10 s) else None | _ \<Rightarrow> None)"

definition row_date :: "json_obj \<Rightarrow> string option" where
  "row_date row = first_some dated_column row"

definition row_dimension :: "json_obj \<Rightarrow> string \<Rightarrow> json" where
  "row_dimension row dim_id =
     (case dict_get row dim_id of
        Some v \<Rightarrow> v
      | None \<Rightarrow> given JNull (first_some (\<lambda>kv. if str_endswith (fst kv) (''.'' @ dim_id) then Some (snd kv) else None) row))"

definition split_dimension_dict :: "(json \<Rightarrow> string) \<Rightarrow> json_obj \<Rightarrow> string list \<times> json_obj list" where
  "split_dimension_dict sv dimensions =
     (map fst (filter (\<lambda>kv. snd kv = JNull \<or> snd kv = JStr []) dimensions),
      map (\<lambda>kv. [(''dimension'', JStr (fst kv)), (''operator'', JStr ''equals''), (''values'', JList [JStr (py_str sv (snd kv))])])
        (filter (\<lambda>kv. \<not> (snd kv = JNull \<or> snd kv = JStr [])) dimensions))"

definition failed_reply :: "string \<Rightarrow> json_obj" where
  "failed_reply text' = [(''error'', JStr text'), (''rows'', JList []), (''provenance'', JObj [])]"

definition call_metrics_query :: "(error \<Rightarrow> string) \<Rightarrow> query_server \<Rightarrow> string \<Rightarrow> json_obj \<Rightarrow> json_obj" where
  "call_metrics_query shown server agent arguments =
     (case server agent arguments of
        Inl e \<Rightarrow> failed_reply (shown e)
      | Inr (JObj d) \<Rightarrow> d
      | Inr _ \<Rightarrow> failed_reply ''invalid metrics_query payload'')"

text \<open>\<^verbatim>\<open>raw_query_metric\<close> of \<^verbatim>\<open>toolsets/semantic.py\<close>: the one call every fetch goes through.\<close>

definition raw_query_metric ::
  "(json \<Rightarrow> string) \<Rightarrow> (error \<Rightarrow> string) \<Rightarrow> query_server \<Rightarrow> string \<Rightarrow> metrics_query \<Rightarrow> json_obj" where
  "raw_query_metric sv shown server agent q =
     call_metrics_query shown server agent (build_metrics_query_args sv (q\<lparr>mq_inject_default_brand := True\<rparr>))"

section \<open>Series\<close>

record series_point =
  sp_ts :: string
  sp_value :: "rat option"

text \<open>What the service finds outside itself.\<close>

record state_env =
  se_clock :: wall_clock
  se_server :: query_server
  se_text :: "json \<Rightarrow> string"
  se_error_text :: "error \<Rightarrow> string"
  se_float :: "string \<Rightarrow> rat result"
  se_root :: "rat \<Rightarrow> rat"
  se_timestamp :: "string \<Rightarrow> moment result"
  se_computed_at :: string

fun to_float :: "(string \<Rightarrow> rat result) \<Rightarrow> json \<Rightarrow> rat result" where
  "to_float parse (JInt i) = Inr (of_int i)"
| "to_float parse (JNum r) = Inr r"
| "to_float parse (JBool b) = Inr (if b then 1 else 0)"
| "to_float parse (JStr s) = parse s"
| "to_float parse _ = Inl (TypeError ''float() argument must be a string or a real number'')"

definition point_of_row :: "(string \<Rightarrow> rat result) \<Rightarrow> string \<Rightarrow> json \<Rightarrow> series_point option result" where
  "point_of_row parse column row =
     (case row of
        JObj r \<Rightarrow>
          (case (row_date r, obj_get r column) of
             (Some ts, v) \<Rightarrow> if v = JNull then Inr None
                else result_bind (to_float parse v) (\<lambda>x. Inr (Some \<lparr>sp_ts = ts, sp_value = Some x\<rparr>))
           | (None, _) \<Rightarrow> Inr None)
      | _ \<Rightarrow> Inl (RuntimeError ''AttributeError: the row has no items''))"

fun points_of_rows :: "(string \<Rightarrow> rat result) \<Rightarrow> string \<Rightarrow> json list \<Rightarrow> series_point list result" where
  "points_of_rows parse column [] = Inr []"
| "points_of_rows parse column (row # rows) =
     result_bind (point_of_row parse column row) (\<lambda>p.
     result_bind (points_of_rows parse column rows) (\<lambda>ps.
       Inr (case p of Some x \<Rightarrow> x # ps | None \<Rightarrow> ps)))"

text \<open>The window of a fetch, cut to the look-back; the end is kept as it was written.\<close>

definition fetch_window :: "int \<Rightarrow> string \<Rightarrow> string \<Rightarrow> (string \<times> string) result" where
  "fetch_window max_lookback_days start end_text =
     result_bind (fromisoformat start) (\<lambda>a. result_bind (fromisoformat end_text) (\<lambda>b.
       if max_lookback_days < to_ordinal b - to_ordinal a
       then result_bind (add_days b (- max_lookback_days)) (\<lambda>a'. Inr (isoformat a', end_text))
       else Inr (start, end_text)))"

definition series_query :: "metric_definition \<Rightarrow> string \<Rightarrow> string \<Rightarrow> string \<times> string \<Rightarrow> string \<Rightarrow> metrics_query" where
  "series_query d column brand window grain =
     \<lparr>mq_measure = column, mq_start = fst window, mq_end = snd window, mq_grain = Some grain, mq_dimensions = [],
      mq_filters = [brand_filter brand], mq_limit = None, mq_sort = [], mq_compare_period = None,
      mq_module = module_args d, mq_inject_default_brand = True\<rparr>"

definition provenance_of :: "json_obj \<Rightarrow> json_obj result" where
  "provenance_of reply =
     (case json_or (obj_get reply ''provenance'') (JObj []) of
        JObj d \<Rightarrow> Inr d | _ \<Rightarrow> Inl (TypeError ''provenance is not a mapping''))"

definition read_series ::
  "(string \<Rightarrow> rat result) \<Rightarrow> string \<Rightarrow> json_obj \<Rightarrow> (series_point list \<times> json_obj) result" where
  "read_series parse column reply =
     result_bind (provenance_of reply) (\<lambda>provenance.
       if truthy (obj_get reply ''error'')
       then Inr ([], dict_set provenance ''error'' (obj_get reply ''error''))
       else result_bind (py_list (json_or (obj_get reply ''rows'') (JList []))) (\<lambda>rows.
            result_bind (points_of_rows parse column rows) (\<lambda>points.
              Inr (sort_key sp_ts points, provenance))))"

definition fetch_series ::
  "state_env \<Rightarrow> metric_definition \<Rightarrow> string \<Rightarrow> time_range \<Rightarrow> string \<Rightarrow> string \<Rightarrow> int
     \<Rightarrow> (series_point list \<times> json_obj) result" where
  "fetch_series env d agent t brand grain max_lookback_days =
     result_bind (resolve_time_range (se_clock env) t (md_timezone d) None) (\<lambda>resolved.
       if \<not> str_truthy (tr_start resolved) \<or> \<not> str_truthy (tr_end resolved)
       then Inr ([], [(''error'', JStr ''time_range did not resolve to concrete dates'')])
       else result_bind (fetch_window max_lookback_days (the (tr_start resolved)) (the (tr_end resolved))) (\<lambda>window.
         case md_catalogue_metric d of
           None \<Rightarrow> Inr ([], [(''error'', JStr ''catalogue measure not found'')])
         | Some column \<Rightarrow> read_series (se_float env) column
             (raw_query_metric (se_text env) (se_error_text env) (se_server env) agent
               (series_query d column brand window grain))))"

section \<open>Features\<close>

datatype quality_flag = SPARSE_HISTORY | CATALOGUE_MISS | MCP_ERROR | MISSING_DATA

record feature_spec =
  fs_id :: string
  fs_strategy :: string
  fs_window :: "string option"
  fs_min_points :: "int option"

record feature_value =
  fv_value :: "rat option"
  fv_window :: "string option"
  fv_strategy_version :: "string option"

text \<open>\<^verbatim>\<open>int\<close> of a text: surrounding space, one sign, digits with single underscores between them.\<close>

fun digits_only :: "bool \<Rightarrow> string \<Rightarrow> string option" where
  "digits_only after_digit [] = (if after_digit then Some [] else None)"
| "digits_only after_digit (c # cs) =
     (if digit_value c \<noteq> None then map_option ((#) c) (digits_only True cs)
      else if c = CHR ''_'' \<and> after_digit then digits_only False cs else None)"

definition int_of_text :: "string \<Rightarrow> int result" where
  "int_of_text s =
     (let t = str_strip s; signed = t \<noteq> [] \<and> hd t \<in> {CHR ''+'', CHR ''-''};
          body = (if signed then tl t else t) in
      case digits_only False body of
        None \<Rightarrow> Inl (ValueError ''invalid literal for int()'')
      | Some ds \<Rightarrow> result_bind (py_int ds) (\<lambda>n. Inr (if signed \<and> hd t = CHR ''-'' then - n else n)))"

text \<open>\<^verbatim>\<open>values[k:]\<close>, and \<^verbatim>\<open>values[-n:]\<close>.\<close>

definition slice_from :: "int \<Rightarrow> 'a list \<Rightarrow> 'a list" where
  "slice_from k xs = (if 0 \<le> k then drop (nat k) xs else drop (nat (int (length xs) + k)) xs)"

definition last_n :: "int \<Rightarrow> 'a list \<Rightarrow> 'a list" where
  "last_n n xs = slice_from (- n) xs"

definition counts_days :: "string option \<Rightarrow> bool" where
  "counts_days window = (str_truthy window \<and> str_endswith (the window) ''d'')"

definition window_values :: "rat list \<Rightarrow> string option \<Rightarrow> rat list result" where
  "window_values values window =
     (if \<not> counts_days window then Inr values
      else result_bind (int_of_text (butlast (the window))) (\<lambda>n. Inr (last_n n values)))"

definition parse_days :: "string option \<Rightarrow> int \<Rightarrow> int" where
  "parse_days window default_days =
     (if \<not> counts_days window then default_days
      else case int_of_text (butlast (the window)) of Inr n \<Rightarrow> n | Inl _ \<Rightarrow> default_days)"

definition statistics_mean :: "rat list \<Rightarrow> rat result" where
  "statistics_mean xs = (if xs = [] then Inl (ValueError ''mean requires at least one data point'') else Inr (mean xs))"

definition pstdev :: "(rat \<Rightarrow> rat) \<Rightarrow> rat list \<Rightarrow> rat result" where
  "pstdev root_of xs = (if xs = [] then Inl (ValueError ''pstdev requires at least one data point'')
     else Inr (root_of (mean (map (\<lambda>x. (x - mean xs) * (x - mean xs)) xs))))"

type_synonym feature_state = "(string, feature_value) dict \<times> quality_flag list"

definition add_flag :: "quality_flag \<Rightarrow> quality_flag list \<Rightarrow> quality_flag list" where
  "add_flag f flags = (if f \<in> set flags then flags else flags @ [f])"

definition set_feature :: "feature_spec \<Rightarrow> string option \<Rightarrow> feature_state \<Rightarrow> rat \<Rightarrow> feature_state" where
  "set_feature s window st x =
     (dict_set (fst st) (fs_id s) \<lparr>fv_value = Some x, fv_window = window, fv_strategy_version = Some ''v1''\<rparr>, snd st)"

definition feature_step ::
  "(rat \<Rightarrow> rat) \<Rightarrow> rat list \<Rightarrow> feature_spec \<Rightarrow> feature_state \<Rightarrow> feature_state result" where
  "feature_step root_of values s st =
     (if fs_strategy s = ''freshness_age'' then Inr st
      else if int (length values) < given 1 (fs_min_points s) then Inr (fst st, add_flag SPARSE_HISTORY (snd st))
      else if fs_strategy s = ''current_value''
      then (if values = [] then Inl (LookupError ''list index out of range'')
            else Inr (set_feature s None st (last values)))
      else if fs_strategy s = ''period_delta_pct''
      then (if length values < 2 \<or> last (butlast values) = 0 then Inr (fst st, add_flag SPARSE_HISTORY (snd st))
            else Inr (set_feature s (fs_window s) st
              ((last values - last (butlast values)) / last (butlast values) * 100)))
      else if fs_strategy s = ''rolling_mean''
      then result_bind (window_values values (fs_window s)) (\<lambda>w.
           result_bind (statistics_mean w) (\<lambda>x. Inr (set_feature s (fs_window s) st x)))
      else if fs_strategy s = ''rolling_std''
      then result_bind (window_values values (fs_window s)) (\<lambda>w.
           result_bind (pstdev root_of w) (\<lambda>x. Inr (set_feature s (fs_window s) st x)))
      else Inr st)"

fun feature_steps ::
  "(rat \<Rightarrow> rat) \<Rightarrow> rat list \<Rightarrow> feature_spec list \<Rightarrow> feature_state \<Rightarrow> feature_state result" where
  "feature_steps root_of values [] st = Inr st"
| "feature_steps root_of values (s # specs) st =
     result_bind (feature_step root_of values s st) (feature_steps root_of values specs)"

definition present_values :: "series_point list \<Rightarrow> rat list" where
  "present_values series = concat (map (\<lambda>p. case sp_value p of Some v \<Rightarrow> [v] | None \<Rightarrow> []) series)"

definition compute_features ::
  "(rat \<Rightarrow> rat) \<Rightarrow> series_point list \<Rightarrow> feature_spec list \<Rightarrow> feature_state result" where
  "compute_features root_of series specs = feature_steps root_of (present_values series) specs ([], [])"

datatype freshness = CURRENT | LATE | STALE | UNKNOWN

definition stamp_at :: "(string \<Rightarrow> moment result) \<Rightarrow> json \<Rightarrow> moment result" where
  "stamp_at parse v = (case v of JStr s \<Rightarrow> parse s | _ \<Rightarrow> Inl (TypeError ''fromisoformat: argument must be str''))"

definition classify_freshness ::
  "(string \<Rightarrow> moment result) \<Rightarrow> json_obj \<Rightarrow> rat option \<Rightarrow> rat option \<Rightarrow> (freshness \<times> rat option) result" where
  "classify_freshness parse provenance stale_after_hours late_after_hours =
     (case json_or (obj_get provenance ''freshness'') (JObj []) of
        JObj block \<Rightarrow>
          (let generated_at = obj_get provenance ''generated_at''; refreshed_at = obj_get block ''cube_last_refresh'' in
           if \<not> truthy generated_at \<or> \<not> truthy refreshed_at then Inr (UNKNOWN, None)
           else result_bind (stamp_at parse generated_at) (\<lambda>g. result_bind (stamp_at parse refreshed_at) (\<lambda>r.
             let age = of_int (g - r) / 3600000000 in
             if given 36 stale_after_hours \<le> age then Inr (STALE, Some age)
             else if given 12 late_after_hours \<le> age then Inr (LATE, Some age)
             else Inr (CURRENT, Some age))))
      | _ \<Rightarrow> Inl (RuntimeError ''AttributeError: freshness has no get''))"

section \<open>Metric states\<close>

datatype state_need = NEED_ACTUAL | NEED_FEATURES | NEED_ANOMALY | NEED_FORECAST

datatype state_status = STATE_OK | STATE_PARTIAL | STATE_UNAVAILABLE

record state_request =
  sr_metric_id :: string
  sr_catalogue_metric_id :: "string option"
  sr_time_range :: time_range
  sr_dimensions :: json_obj
  sr_agent_id :: string
  sr_as_of :: "string option"
  sr_profile_id :: string
  sr_need :: "state_need list"

text \<open>A profile of \<^verbatim>\<open>business_state_profiles.yaml\<close>; absent keys are \<open>None\<close>.\<close>

record state_profile =
  pf_features :: "feature_spec list"
  pf_grain :: "string option"
  pf_max_lookback_days :: "int option"
  pf_anomaly_window :: "string option"
  pf_anomaly_min_points :: "int option"
  pf_z_threshold :: "rat option"
  pf_stale_after_hours :: "rat option"
  pf_late_after_hours :: "rat option"

record anomaly_state =
  an_score :: zscore_result
  an_z_threshold :: rat
  an_window :: string
  an_min_points :: int

record metric_state =
  ms_metric_id :: string
  ms_catalogue_metric_id :: string
  ms_as_of :: string
  ms_window :: json_obj
  ms_dimensions :: json_obj
  ms_actual :: "rat option"
  ms_series :: "series_point list"
  ms_features :: "(string, feature_value) dict"
  ms_anomaly :: "anomaly_state option"
  ms_freshness :: freshness
  ms_direction_bad :: "string option"
  ms_quality_flags :: "quality_flag list"
  ms_provenance :: json_obj
  ms_status :: state_status
  ms_error_code :: "string option"

text \<open>The state without data: a metric that is unknown, or whose series could not be had.\<close>

definition no_data ::
  "string \<Rightarrow> string \<Rightarrow> string \<Rightarrow> json_obj \<Rightarrow> string option \<Rightarrow> quality_flag \<Rightarrow> json_obj \<Rightarrow> metric_state" where
  "no_data metric_id catalogue_id as_of dimensions direction_bad flag provenance =
     \<lparr>ms_metric_id = metric_id, ms_catalogue_metric_id = catalogue_id, ms_as_of = as_of, ms_window = [],
      ms_dimensions = dimensions, ms_actual = None, ms_series = [], ms_features = [], ms_anomaly = None,
      ms_freshness = UNKNOWN, ms_direction_bad = direction_bad, ms_quality_flags = [flag],
      ms_provenance = provenance, ms_status = STATE_UNAVAILABLE, ms_error_code = Some ''INSUFFICIENT_EVIDENCE''\<rparr>"

definition evaluate_series_anomaly ::
  "state_profile \<Rightarrow> series_point list \<Rightarrow> (anomaly_state option \<times> quality_flag option) result" where
  "evaluate_series_anomaly pf series =
     (let values = present_values series; min_points = given 14 (pf_anomaly_min_points pf) in
      if int (length values) < min_points + 1 then Inr (None, Some SPARSE_HISTORY)
      else
        (let days = parse_days (pf_anomaly_window pf) 28;
             windowed = (if days \<noteq> 0 then last_n days values else values);
             z = given 3 (pf_z_threshold pf) in
         if windowed = [] then Inl (LookupError ''list index out of range'')
         else result_bind (robust_zscore (butlast windowed) (last windowed) z) (\<lambda>score.
           Inr (Some \<lparr>an_score = score, an_z_threshold = z, an_window = given ''28d'' (pf_anomaly_window pf),
             an_min_points = min_points\<rparr>, None))))"

text \<open>The fetch is widened to the anomaly's own history when an anomaly is asked for.\<close>

definition fetch_range ::
  "wall_clock \<Rightarrow> state_profile \<Rightarrow> metric_definition \<Rightarrow> state_request \<Rightarrow> time_range result" where
  "fetch_range clock pf d req =
     (if NEED_ANOMALY \<in> set (sr_need req)
      then result_bind (resolve_time_range clock (sr_time_range req) (md_timezone d) (sr_as_of req)) (\<lambda>resolved.
        if \<not> str_truthy (tr_end resolved) then Inr (sr_time_range req)
        else result_bind (fromisoformat (the (tr_end resolved))) (\<lambda>b.
             result_bind (add_days b (- parse_days (pf_anomaly_window pf) 28)) (\<lambda>a.
               Inr (absolute_range (isoformat a) (the (tr_end resolved)) None))))
      else Inr (sr_time_range req))"

definition wanted_features ::
  "state_env \<Rightarrow> state_profile \<Rightarrow> state_request \<Rightarrow> series_point list \<Rightarrow> rat option \<Rightarrow> feature_state result" where
  "wanted_features env pf req series age_hours =
     (if NEED_FEATURES \<in> set (sr_need req)
      then result_bind (compute_features (se_root env) series (pf_features pf)) (\<lambda>(features, flags).
        Inr (if list_ex (\<lambda>s. fs_strategy s = ''freshness_age'') (pf_features pf)
             then dict_set features ''freshness_age''
               \<lparr>fv_value = age_hours, fv_window = None, fv_strategy_version = Some ''v1''\<rparr>
             else features, flags))
      else Inr ([], []))"

definition wanted_anomaly ::
  "state_profile \<Rightarrow> state_request \<Rightarrow> series_point list \<Rightarrow> quality_flag list
     \<Rightarrow> (anomaly_state option \<times> quality_flag list) result" where
  "wanted_anomaly pf req series flags =
     (if NEED_ANOMALY \<in> set (sr_need req)
      then result_bind (evaluate_series_anomaly pf series) (\<lambda>(anomaly, flag).
        Inr (anomaly, case flag of Some f \<Rightarrow> add_flag f flags | None \<Rightarrow> flags))
      else Inr (None, flags))"

definition brand_of :: "state_env \<Rightarrow> state_request \<Rightarrow> string" where
  "brand_of env req = py_str (se_text env) (json_or (obj_get (sr_dimensions req) ''brand_id'') (JStr default_brand_id))"

definition as_of_or_today :: "state_env \<Rightarrow> state_request \<Rightarrow> string" where
  "as_of_or_today env req = (if str_truthy (sr_as_of req) then the (sr_as_of req) else isoformat (today_utc (se_clock env)))"

definition described_state ::
  "state_env \<Rightarrow> state_profile \<Rightarrow> metric_definition \<Rightarrow> state_request \<Rightarrow> time_range \<Rightarrow> series_point list \<Rightarrow> json_obj
     \<Rightarrow> metric_state result" where
  "described_state env pf d req covered series provenance =
     result_bind (classify_freshness (se_timestamp env) provenance (pf_stale_after_hours pf) (pf_late_after_hours pf))
       (\<lambda>(fresh, age_hours).
     result_bind (wanted_features env pf req series age_hours) (\<lambda>(features, flags).
     result_bind (wanted_anomaly pf req series flags) (\<lambda>(anomaly, flags').
       Inr \<lparr>ms_metric_id = sr_metric_id req,
         ms_catalogue_metric_id = given (sr_metric_id req) (md_catalogue_metric d),
         ms_as_of = sp_ts (last series),
         ms_window = [(''start'', opt_json (tr_start covered)), (''end'', opt_json (tr_end covered)),
           (''grain'', JStr (given ''day'' (pf_grain pf))), (''timezone'', JStr (md_timezone d))],
         ms_dimensions = [(''brand_id'', JStr (brand_of env req))],
         ms_actual = sp_value (last series), ms_series = series, ms_features = features, ms_anomaly = anomaly,
         ms_freshness = fresh, ms_direction_bad = Some (md_direction_bad d), ms_quality_flags = flags',
         ms_provenance = dict_merge provenance
           [(''feature_profile_id'', JStr (sr_profile_id req)),
            (''detector_profile_id'', if anomaly \<noteq> None then JStr (sr_profile_id req) else JNull),
            (''metric_version'', JInt (md_version d)), (''computed_at'', JStr (se_computed_at env))],
         ms_status = (if flags' \<noteq> [] then STATE_PARTIAL else STATE_OK), ms_error_code = None\<rparr>)))"

definition get_metric_state ::
  "state_env \<Rightarrow> metric_registry \<Rightarrow> (string, state_profile) dict \<Rightarrow> state_request \<Rightarrow> metric_state result" where
  "get_metric_state env rg profiles req =
     (case registry_get rg (sr_metric_id req) of
        None \<Rightarrow> Inr (no_data (sr_metric_id req)
          (if str_truthy (sr_catalogue_metric_id req) then the (sr_catalogue_metric_id req) else sr_metric_id req)
          (as_of_or_today env req) [] None CATALOGUE_MISS [])
      | Some d \<Rightarrow>
          (case dict_get profiles (sr_profile_id req) of
             None \<Rightarrow> Inl (KeyError (''Unknown business_state profile: '' @ sr_profile_id req))
           | Some pf \<Rightarrow>
               result_bind (fetch_range (se_clock env) pf d req) (\<lambda>covered.
               result_bind (fetch_series env d (sr_agent_id req) covered (brand_of env req)
                 (given ''day'' (pf_grain pf)) (given 90 (pf_max_lookback_days pf))) (\<lambda>(series, provenance).
                 if truthy (obj_get provenance ''error'') \<or> series = []
                 then Inr (no_data (sr_metric_id req) (given (sr_metric_id req) (md_catalogue_metric d))
                   (as_of_or_today env req) [(''brand_id'', JStr (brand_of env req))] (Some (md_direction_bad d))
                   (if truthy (obj_get provenance ''error'') then MCP_ERROR else MISSING_DATA) provenance)
                 else described_state env pf d req covered series provenance))))"

definition evaluate_anomaly ::
  "state_env \<Rightarrow> metric_registry \<Rightarrow> (string, state_profile) dict \<Rightarrow> state_request \<Rightarrow> anomaly_state option result" where
  "evaluate_anomaly env rg profiles req =
     result_bind (get_metric_state env rg profiles (req\<lparr>sr_need := dedupe (sr_need req @ [NEED_ANOMALY])\<rparr>))
       (\<lambda>s. Inr (ms_anomaly s))"

section \<open>The detector over readings\<close>

record metric_reading =
  mr_metric_id :: string
  mr_value :: "rat option"
  mr_dimensions :: json_obj
  mr_direction_bad :: string

record detected_anomaly =
  af_metric_id :: string
  af_score :: zscore_result
  af_direction_bad :: string
  af_adverse :: bool
  af_adversity_score :: rat
  af_detector :: anomaly_state
  af_dimensions :: json_obj

definition detect_request :: "metric_definition \<Rightarrow> time_range \<Rightarrow> metric_reading \<Rightarrow> state_request" where
  "detect_request d covered r = \<lparr>sr_metric_id = mr_metric_id r, sr_catalogue_metric_id = None, sr_time_range = covered,
     sr_dimensions = mr_dimensions r, sr_agent_id = md_domain d @ ''_agent'', sr_as_of = None,
     sr_profile_id = ''default_v1'', sr_need = [NEED_ANOMALY]\<rparr>"

definition finding_of :: "metric_reading \<Rightarrow> rat \<Rightarrow> anomaly_state \<Rightarrow> detected_anomaly" where
  "finding_of r value an =
     (let score = rescore_against_expected value (zs_expected (an_score an)) (zs_expected_range (an_score an))
            (an_z_threshold an);
          adverse = (zs_direction score = mr_direction_bad r) in
      \<lparr>af_metric_id = mr_metric_id r, af_score = score, af_direction_bad = mr_direction_bad r,
       af_adverse = adverse, af_adversity_score = (if adverse then zs_score score else 0),
       af_detector = an, af_dimensions = mr_dimensions r\<rparr>)"

fun detect ::
  "state_env \<Rightarrow> metric_registry \<Rightarrow> (string, state_profile) dict \<Rightarrow> time_range \<Rightarrow> metric_reading list
     \<Rightarrow> detected_anomaly list result" where
  "detect env rg profiles covered [] = Inr []"
| "detect env rg profiles covered (r # rs) =
     (case (mr_value r, registry_get rg (mr_metric_id r)) of
        (Some v, Some d) \<Rightarrow>
          result_bind (get_metric_state env rg profiles (detect_request d covered r)) (\<lambda>s.
          result_bind (detect env rg profiles covered rs) (\<lambda>found.
            Inr (case ms_anomaly s of Some an \<Rightarrow> finding_of r v an # found | None \<Rightarrow> found)))
      | _ \<Rightarrow> detect env rg profiles covered rs)"

section \<open>Brand scope\<close>

lemma brand_filter_names_brand [simp]: "has_brand sv [] [brand_filter brand]"
  by (simp add: has_brand_def filter_dimension_def brand_filter_def py_str_def)
    code_simp

lemma series_query_filters:
  "obj_get (build_metrics_query_args sv (series_query d column brand window grain\<lparr>mq_inject_default_brand := inject\<rparr>)) ''filters''
     = JList [JObj (brand_filter brand)]"
  by (simp add: build_metrics_query_args_def series_query_def all_filters_def arg_if_def obj_get_def)

text \<open>
  C27. The state of a metric is the state of the brand it was asked for: it depends on nothing
  the server would say to a query whose only filter is not that brand.
\<close>

theorem states_depend_on_own_brand:
  assumes same: "\<forall>agent args. obj_get args ''filters'' = JList [JObj (brand_filter (brand_of env req))]
      \<longrightarrow> server agent args = se_server env agent args"
  shows "get_metric_state (env\<lparr>se_server := server\<rparr>) rg profiles req = get_metric_state env rg profiles req"
proof -
  have brand: "brand_of (env\<lparr>se_server := server\<rparr>) req = brand_of env req"
    by (simp add: brand_of_def)
  have "raw_query_metric sv shown server agent (series_query d column (brand_of env req) window grain)
      = raw_query_metric sv shown (se_server env) agent (series_query d column (brand_of env req) window grain)"
    for sv shown agent d column window grain
    using same by (simp add: raw_query_metric_def call_metrics_query_def series_query_filters)
  then have "fetch_series (env\<lparr>se_server := server\<rparr>) d agent t (brand_of env req) grain days
      = fetch_series env d agent t (brand_of env req) grain days" for d agent t grain days
    by (simp add: fetch_series_def cong: if_cong option.case_cong)
  moreover have "described_state (env\<lparr>se_server := server\<rparr>) pf d req covered series provenance
      = described_state env pf d req covered series provenance" for pf d covered series provenance
    by (simp add: described_state_def wanted_features_def brand cong: if_cong)
  ultimately show ?thesis
    by (simp add: get_metric_state_def as_of_or_today_def brand cong: if_cong option.case_cong)
qed

section \<open>What a state contains\<close>

lemma points_have_values:
  "points_of_rows parse column rows = Inr ps \<Longrightarrow> p \<in> set ps \<Longrightarrow> sp_value p \<noteq> None"
proof (induction rows arbitrary: ps)
  case (Cons row rows)
  obtain q qs where q: "point_of_row parse column row = Inr q" "points_of_rows parse column rows = Inr qs"
      "ps = (case q of Some x \<Rightarrow> x # qs | None \<Rightarrow> qs)"
    using Cons.prems(1) by (auto simp: result_bind_Inr)
  have "q = Some x \<Longrightarrow> sp_value x \<noteq> None" for x
    using q(1) by (auto simp: point_of_row_def result_bind_Inr split: json.splits option.splits if_splits)
  then show ?case using Cons.IH [OF q(2)] Cons.prems(2) q(3) by (auto split: option.splits)
qed simp

lemma read_series_points:
  assumes "read_series parse column reply = Inr (series, provenance)"
  shows "sorted (map sp_ts series) \<and> (\<forall>p\<in>set series. sp_value p \<noteq> None)
    \<and> (truthy (obj_get provenance ''error'') \<longrightarrow> series = [] \<or> \<not> truthy (obj_get reply ''error''))"
  using assms by (auto simp: read_series_def result_bind_Inr split: if_splits dest: points_have_values)

lemma fetch_series_points:
  assumes "fetch_series env d agent t brand grain days = Inr (series, provenance)"
  shows "sorted (map sp_ts series) \<and> (\<forall>p\<in>set series. sp_value p \<noteq> None)"
  using assms by (auto simp: fetch_series_def result_bind_Inr split: if_splits option.splits dest: read_series_points)

text \<open>The strategies that compute a feature from the values.\<close>

definition computed_strategies :: "string list" where
  "computed_strategies = [''current_value'', ''period_delta_pct'', ''rolling_mean'', ''rolling_std'']"

lemma feature_step_facts:
  assumes "feature_step root_of values s (features, flags) = Inr (features', flags')"
  shows "set (dict_keys features) \<subseteq> set (dict_keys features') \<and> (flags' = [] \<longrightarrow> flags = [])
    \<and> (flags' = [] \<and> fs_strategy s \<in> set computed_strategies \<longrightarrow> fs_id s \<in> set (dict_keys features'))"
  using assms
  by (auto simp: feature_step_def add_flag_def set_feature_def computed_strategies_def result_bind_Inr split: if_splits)
    (metis fst_conv image_eqI)+

lemma feature_steps_facts:
  "feature_steps root_of values specs (features, flags) = Inr (features', flags') \<Longrightarrow>
     set (dict_keys features) \<subseteq> set (dict_keys features') \<and> (flags' = [] \<longrightarrow> flags = [])
     \<and> (flags' = [] \<longrightarrow> (\<forall>s\<in>set specs. fs_strategy s \<in> set computed_strategies \<longrightarrow> fs_id s \<in> set (dict_keys features')))"
proof (induction specs arbitrary: features flags)
  case (Cons s specs)
  obtain f fl where step: "feature_step root_of values s (features, flags) = Inr (f, fl)"
      "feature_steps root_of values specs (f, fl) = Inr (features', flags')"
    using Cons.prems by (auto simp: result_bind_Inr)
  show ?case using feature_step_facts [OF step(1)] Cons.IH [OF step(2)] by auto
qed simp

lemma wanted_features_facts:
  assumes "wanted_features env pf req series age = Inr (features, [])" "NEED_FEATURES \<in> set (sr_need req)"
    "s \<in> set (pf_features pf)" "fs_strategy s \<in> set computed_strategies"
  shows "fs_id s \<in> set (dict_keys features)"
  using assms
  by (auto simp: wanted_features_def compute_features_def result_bind_Inr dest!: feature_steps_facts split: if_splits)

lemma wanted_anomaly_facts:
  assumes "wanted_anomaly pf req series flags = Inr (anomaly, flags')"
  shows "(flags' = [] \<longrightarrow> flags = []) \<and> (flags' = [] \<and> NEED_ANOMALY \<in> set (sr_need req) \<longrightarrow> anomaly \<noteq> None)"
  using assms
  by (auto simp: wanted_anomaly_def evaluate_series_anomaly_def result_bind_Inr Let_def add_flag_def split: if_splits)

lemma described_state_facts:
  assumes "described_state env pf d req covered series provenance = Inr s"
  shows "ms_series s = series \<and> ms_actual s = sp_value (last series) \<and> ms_as_of s = sp_ts (last series)
    \<and> ms_status s \<noteq> STATE_UNAVAILABLE \<and> obj_get (ms_window s) ''end'' = opt_json (tr_end covered)
    \<and> (ms_status s = STATE_OK \<longrightarrow> (NEED_ANOMALY \<in> set (sr_need req) \<longrightarrow> ms_anomaly s \<noteq> None)
        \<and> (NEED_FEATURES \<in> set (sr_need req) \<longrightarrow> (\<forall>f\<in>set (pf_features pf).
            fs_strategy f \<in> set computed_strategies \<longrightarrow> fs_id f \<in> set (dict_keys (ms_features s)))))"
proof -
  obtain fresh age features flags anomaly flags' where
    parts: "wanted_features env pf req series age = Inr (features, flags)"
      "wanted_anomaly pf req series flags = Inr (anomaly, flags')"
    and s: "ms_series s = series" "ms_actual s = sp_value (last series)" "ms_as_of s = sp_ts (last series)"
      "ms_status s = (if flags' \<noteq> [] then STATE_PARTIAL else STATE_OK)"
      "obj_get (ms_window s) ''end'' = opt_json (tr_end covered)" "ms_anomaly s = anomaly" "ms_features s = features"
    using assms by (auto simp: described_state_def result_bind_Inr obj_get_def)
  then show ?thesis
    using wanted_anomaly_facts [OF parts(2)] wanted_features_facts [of env pf req series age features] by auto
qed

lemma get_metric_state_cases:
  assumes "get_metric_state env rg profiles req = Inr s"
  obtains metric_id catalogue_id as_of dimensions bad flag provenance where
      "s = no_data metric_id catalogue_id as_of dimensions bad flag provenance"
    | d pf covered series provenance where "registry_get rg (sr_metric_id req) = Some d"
      "dict_get profiles (sr_profile_id req) = Some pf" "fetch_range (se_clock env) pf d req = Inr covered"
      "fetch_series env d (sr_agent_id req) covered (brand_of env req) (given ''day'' (pf_grain pf))
         (given 90 (pf_max_lookback_days pf)) = Inr (series, provenance)"
      "series \<noteq> []" "described_state env pf d req covered series provenance = Inr s"
  using assms by (auto simp: get_metric_state_def result_bind_Inr split: option.splits if_splits)

lemma forecast_is_ignored:
  "get_metric_state env rg profiles (req\<lparr>sr_need := filter (\<lambda>n. n \<noteq> NEED_FORECAST) (sr_need req)\<rparr>)
     = get_metric_state env rg profiles req" (is "get_metric_state env rg profiles ?req = _")
proof -
  have eqs: "brand_of env ?req = brand_of env req" "as_of_or_today env ?req = as_of_or_today env req"
    "fetch_range (se_clock env) pf d ?req = fetch_range (se_clock env) pf d req"
    "described_state env pf d ?req covered series provenance = described_state env pf d req covered series provenance"
    for pf d covered series provenance
    by (simp_all add: brand_of_def as_of_or_today_def fetch_range_def described_state_def wanted_features_def
        wanted_anomaly_def cong: if_cong)
  have fields: "sr_metric_id ?req = sr_metric_id req" "sr_catalogue_metric_id ?req = sr_catalogue_metric_id req"
    "sr_profile_id ?req = sr_profile_id req" "sr_agent_id ?req = sr_agent_id req"
    by simp_all
  show ?thesis unfolding get_metric_state_def eqs fields ..
qed

text \<open>
  C28. A metric state says what it has: it is unavailable exactly when it has no series, and then it
  has no number of any kind; otherwise its series is in the order of time, its value and date are
  those of the last point. When its status is OK, an anomaly that was asked for is there, and so is
  every feature of the profile with a strategy the program computes, if features were asked for. A wish
  for a forecast changes nothing, neither the numbers nor the status.
\<close>

theorem ok_state_serves_request:
  assumes s: "get_metric_state env rg profiles req = Inr s"
  shows "(ms_status s = STATE_UNAVAILABLE) = (ms_series s = [])
    \<and> (ms_series s = [] \<longrightarrow> ms_actual s = None \<and> ms_features s = [] \<and> ms_anomaly s = None
         \<and> ms_error_code s = Some ''INSUFFICIENT_EVIDENCE'')
    \<and> (ms_series s \<noteq> [] \<longrightarrow> sorted (map sp_ts (ms_series s)) \<and> ms_actual s \<noteq> None
         \<and> ms_actual s = sp_value (last (ms_series s)) \<and> ms_as_of s = sp_ts (last (ms_series s)))
    \<and> (ms_status s = STATE_OK \<longrightarrow> (NEED_ANOMALY \<in> set (sr_need req) \<longrightarrow> ms_anomaly s \<noteq> None)
         \<and> (NEED_FEATURES \<in> set (sr_need req) \<longrightarrow> (\<forall>pf f. dict_get profiles (sr_profile_id req) = Some pf
              \<and> f \<in> set (pf_features pf) \<and> fs_strategy f \<in> set computed_strategies
              \<longrightarrow> fs_id f \<in> set (dict_keys (ms_features s)))))
    \<and> get_metric_state env rg profiles (req\<lparr>sr_need := filter (\<lambda>n. n \<noteq> NEED_FORECAST) (sr_need req)\<rparr>) = Inr s"
  using s
proof (cases rule: get_metric_state_cases)
  case 1
  then show ?thesis using s by (simp add: no_data_def forecast_is_ignored)
next
  case (2 d pf covered series provenance)
  have "sp_value (last series) \<noteq> None" "sorted (map sp_ts series)"
    using fetch_series_points [OF 2(4)] 2(5) last_in_set by blast+
  then show ?thesis using described_state_facts [OF 2(6)] 2(2,5) s unfolding forecast_is_ignored by auto
qed

lemma as_of_without_anomaly:
  assumes n: "NEED_ANOMALY \<notin> set (sr_need req)"
  shows "result_bind (get_metric_state env rg profiles (req\<lparr>sr_as_of := a\<rparr>)) (\<lambda>s. Inr (s\<lparr>ms_as_of := []\<rparr>))
    = result_bind (get_metric_state env rg profiles (req\<lparr>sr_as_of := b\<rparr>)) (\<lambda>s. Inr (s\<lparr>ms_as_of := []\<rparr>))"
proof -
  have d: "described_state env pf d (req\<lparr>sr_as_of := a\<rparr>) covered series provenance
      = described_state env pf d (req\<lparr>sr_as_of := b\<rparr>) covered series provenance" for pf d covered series provenance
    by (simp add: described_state_def wanted_features_def wanted_anomaly_def brand_of_def cong: if_cong)
  have blank: "(no_data m c x dims bad flag prov)\<lparr>ms_as_of := []\<rparr> = (no_data m c y dims bad flag prov)\<lparr>ms_as_of := []\<rparr>"
    for m c x y dims bad flag prov
    by (simp add: no_data_def)
  show ?thesis
  proof (cases "registry_get rg (sr_metric_id req)")
    case None
    then show ?thesis by (simp add: get_metric_state_def blank [of _ _ _ _ _ _ _ "[]"] no_data_def)
  next
    case (Some d)
    show ?thesis
    proof (cases "dict_get profiles (sr_profile_id req)")
      case None
      then show ?thesis using Some by (simp add: get_metric_state_def)
    next
      case (Some pf)
      define fetched where "fetched = fetch_series env d (sr_agent_id req) (sr_time_range req) (brand_of env req)
        (given ''day'' (pf_grain pf)) (given 90 (pf_max_lookback_days pf))"
      have brand: "brand_of env (req\<lparr>sr_as_of := x\<rparr>) = brand_of env req" for x by (simp add: brand_of_def)
      show ?thesis
        using n \<open>registry_get rg (sr_metric_id req) = Some d\<close> Some
        by (cases fetched) (auto simp: get_metric_state_def fetch_range_def brand fetched_def d no_data_def)
    qed
  qed
qed

text \<open>
  C38. The date a state is asked for counts only when an anomaly is asked for as well: without it the
  numbers are those of today whatever the date, with it the series is the one fetched for the window
  that ends where the range ends as of that date, and the value is that of its last point. So asking
  for an anomaly moves the value.
\<close>

theorem as_of_counts_only_with_anomaly:
  "(NEED_ANOMALY \<notin> set (sr_need req) \<longrightarrow>
      result_bind (get_metric_state env rg profiles (req\<lparr>sr_as_of := a\<rparr>)) (\<lambda>s. Inr (s\<lparr>ms_as_of := []\<rparr>))
    = result_bind (get_metric_state env rg profiles (req\<lparr>sr_as_of := b\<rparr>)) (\<lambda>s. Inr (s\<lparr>ms_as_of := []\<rparr>)))
   \<and> (NEED_ANOMALY \<in> set (sr_need req) \<and> registry_get rg (sr_metric_id req) = Some d
      \<and> resolve_time_range (se_clock env) (sr_time_range req) (md_timezone d) (sr_as_of req) = Inr r
      \<and> tr_end r = Some last_day \<and> last_day \<noteq> []
      \<and> get_metric_state env rg profiles req = Inr s \<and> ms_status s \<noteq> STATE_UNAVAILABLE
      \<longrightarrow> obj_get (ms_window s) ''end'' = JStr last_day \<and> ms_actual s = sp_value (last (ms_series s))
        \<and> (\<exists>pf first_day provenance. dict_get profiles (sr_profile_id req) = Some pf
          \<and> fetch_series env d (sr_agent_id req) (absolute_range first_day last_day None) (brand_of env req)
              (given ''day'' (pf_grain pf)) (given 90 (pf_max_lookback_days pf)) = Inr (ms_series s, provenance)))"
proof (intro conjI impI)
  assume "NEED_ANOMALY \<notin> set (sr_need req)"
  then show "result_bind (get_metric_state env rg profiles (req\<lparr>sr_as_of := a\<rparr>)) (\<lambda>s. Inr (s\<lparr>ms_as_of := []\<rparr>))
    = result_bind (get_metric_state env rg profiles (req\<lparr>sr_as_of := b\<rparr>)) (\<lambda>s. Inr (s\<lparr>ms_as_of := []\<rparr>))"
    by (rule as_of_without_anomaly)
next
  assume h: "NEED_ANOMALY \<in> set (sr_need req) \<and> registry_get rg (sr_metric_id req) = Some d
      \<and> resolve_time_range (se_clock env) (sr_time_range req) (md_timezone d) (sr_as_of req) = Inr r
      \<and> tr_end r = Some last_day \<and> last_day \<noteq> []
      \<and> get_metric_state env rg profiles req = Inr s \<and> ms_status s \<noteq> STATE_UNAVAILABLE"
  let ?fetched = "\<exists>pf first_day provenance. dict_get profiles (sr_profile_id req) = Some pf
    \<and> fetch_series env d (sr_agent_id req) (absolute_range first_day last_day None) (brand_of env req)
        (given ''day'' (pf_grain pf)) (given 90 (pf_max_lookback_days pf)) = Inr (ms_series s, provenance)"
  from h have "get_metric_state env rg profiles req = Inr s" by blast
  then have "obj_get (ms_window s) ''end'' = JStr last_day \<and> ms_actual s = sp_value (last (ms_series s)) \<and> ?fetched"
  proof (cases rule: get_metric_state_cases)
    case 1
    then show ?thesis using h by (simp add: no_data_def)
  next
    case (2 d' pf covered series provenance)
    have "d' = d" using h 2(1) by simp
    then obtain first_day where "covered = absolute_range first_day last_day None"
      using h 2(3) by (auto simp: fetch_range_def result_bind_Inr)
    then show ?thesis using described_state_facts [OF 2(6)] 2(2,4,5) \<open>d' = d\<close>
      by (auto simp: opt_json_def absolute_range_def)
  qed
  then show "obj_get (ms_window s) ''end'' = JStr last_day" "ms_actual s = sp_value (last (ms_series s))" ?fetched
    by blast+
qed

section \<open>Witnesses\<close>

definition sample_server :: query_server where
  "sample_server agent args =
     (case obj_get args ''time_range'' of
        JObj w \<Rightarrow> Inr (JObj [(''rows'', JList [JObj [(''orders.report_date.day'', obj_get w ''end''),
          (''net_sales'', JInt (if obj_get w ''end'' = JStr ''2026-03-01'' then 1 else 2))]])])
      | _ \<Rightarrow> Inl (RuntimeError ''no window''))"

definition sample_state_env :: state_env where
  "sample_state_env = \<lparr>se_clock = sample_clock, se_server = sample_server, se_text = (\<lambda>_. []), se_error_text = (\<lambda>_. []),
     se_float = (\<lambda>_. Inl (ValueError [])), se_root = id, se_timestamp = (\<lambda>_. Inl (ValueError [])),
     se_computed_at = ''now''\<rparr>"

definition sample_profile :: state_profile where
  "sample_profile = \<lparr>pf_features = [\<lparr>fs_id = ''current_value'', fs_strategy = ''current_value'', fs_window = None,
       fs_min_points = None\<rparr>], pf_grain = None, pf_max_lookback_days = None, pf_anomaly_window = None,
     pf_anomaly_min_points = None, pf_z_threshold = None, pf_stale_after_hours = None, pf_late_after_hours = None\<rparr>"

definition sample_state_request :: "state_need list \<Rightarrow> state_request" where
  "sample_state_request need = \<lparr>sr_metric_id = ''metric.sales'', sr_catalogue_metric_id = None,
     sr_time_range = token_range RangeRelative ''last_7d'', sr_dimensions = [], sr_agent_id = ''commerce_agent'',
     sr_as_of = Some ''2026-03-01'', sr_profile_id = ''default_v1'', sr_need = need\<rparr>"

definition sample_state :: "state_need list \<Rightarrow> metric_state result" where
  "sample_state need = get_metric_state sample_state_env (new_registry sample_overlay)
     [(''default_v1'', sample_profile)] (sample_state_request need)"

lemma sample_states:
  "result_bind (sample_state [NEED_FEATURES]) (\<lambda>s. Inr (ms_status s, ms_actual s)) = Inr (STATE_OK, Some 2)"
  "result_bind (sample_state [NEED_FEATURES, NEED_ANOMALY]) (\<lambda>s. Inr (ms_status s, ms_actual s)) = Inr (STATE_PARTIAL, Some 1)"
  by code_simp+

lemma states_depend_on_own_brand_witness:
  "get_metric_state (sample_state_env\<lparr>se_server := \<lambda>agent args.
       if obj_get args ''filters'' = JList [JObj (brand_filter ''20'')] then sample_server agent args
       else Inl (RuntimeError ''other brand'')\<rparr>) (new_registry sample_overlay) [(''default_v1'', sample_profile)]
     (sample_state_request [NEED_FEATURES]) = sample_state [NEED_FEATURES]"
proof -
  have "brand_of sample_state_env (sample_state_request [NEED_FEATURES]) = ''20''" by code_simp
  then show ?thesis
    unfolding sample_state_def by (intro states_depend_on_own_brand) (simp add: sample_state_env_def)
qed

lemma ok_state_serves_request_witness:
  "\<exists>s. sample_state [NEED_FEATURES] = Inr s \<and> ms_status s = STATE_OK \<and> ms_actual s = Some 2
     \<and> ''current_value'' \<in> set (dict_keys (ms_features s))"
proof -
  obtain s where s: "sample_state [NEED_FEATURES] = Inr s" "ms_status s = STATE_OK" "ms_actual s = Some 2"
    using sample_states(1) by (auto simp: result_bind_Inr)
  have "\<forall>f\<in>set (pf_features sample_profile). fs_strategy f \<in> set computed_strategies \<longrightarrow> fs_id f \<in> set (dict_keys (ms_features s))"
    using ok_state_serves_request [OF s(1) [unfolded sample_state_def]] s(2) by (simp add: sample_state_request_def)
  then have "''current_value'' \<in> set (dict_keys (ms_features s))"
    by (simp add: sample_profile_def computed_strategies_def)
  with s show ?thesis by blast
qed

lemma as_of_counts_only_with_anomaly_witness:
  "(\<exists>s. sample_state [NEED_FEATURES, NEED_ANOMALY] = Inr s \<and> ms_actual s = Some 1
      \<and> obj_get (ms_window s) ''end'' = JStr ''2026-03-01'')
   \<and> result_bind (sample_state [NEED_FEATURES]) (\<lambda>s. Inr (ms_actual s)) = Inr (Some 2)"
proof -
  let ?req = "sample_state_request [NEED_FEATURES, NEED_ANOMALY]"
  obtain s where s: "sample_state [NEED_FEATURES, NEED_ANOMALY] = Inr s" "ms_status s = STATE_PARTIAL" "ms_actual s = Some 1"
    using sample_states(2) by (auto simp: result_bind_Inr)
  have d: "registry_get (new_registry sample_overlay) (sr_metric_id ?req) = Some (metric_definition_of (hd sample_overlay))"
    by code_simp
  have r: "resolve_time_range (se_clock sample_state_env) (sr_time_range ?req)
      (md_timezone (metric_definition_of (hd sample_overlay))) (sr_as_of ?req)
    = Inr (absolute_range ''2026-02-23'' ''2026-03-01'' (Some ''last_7d''))"
    by code_simp
  have "obj_get (ms_window s) ''end'' = JStr ''2026-03-01''"
    using as_of_counts_only_with_anomaly [of ?req sample_state_env "new_registry sample_overlay"
        "[(''default_v1'', sample_profile)]" None None "metric_definition_of (hd sample_overlay)"
        "absolute_range ''2026-02-23'' ''2026-03-01'' (Some ''last_7d'')" "''2026-03-01''" s] d r s
    by (simp add: sample_state_def absolute_range_def) (simp add: sample_state_request_def)
  then show ?thesis using s sample_states(1) by (auto simp: result_bind_Inr)
qed

end
