(* ===== verification/Domain_Health.thy ===== *)
theory Domain_Health
  imports Business_State
begin

text \<open>
  Domain health snapshots: \<^verbatim>\<open>services/domain_health/\<close> (resolver, snapshot store, scheduler). The
  store is the list of its files, by directory and name; a file holds a snapshot or something that
  does not read as one (the text of a snapshot reads back as the snapshot). A save replaces a file
  atomically. The metric states come from a function of the request, which \<open>service_states\<close> makes of
  the service of \<open>Business_State\<close>. The rendering of a number with one decimal is an argument.
\<close>

section \<open>Snapshots\<close>

datatype domain_status = DOMAIN_OK | DOMAIN_DEGRADED | DOMAIN_UNAVAILABLE

record resolved_metric =
  rm_metric_id :: string
  rm_value :: "rat option"
  rm_period_delta_pct :: "rat option"
  rm_rolling_mean_7d :: "rat option"
  rm_direction_bad :: "string option"
  rm_freshness :: freshness
  rm_quality_flags :: "quality_flag list"

record domain_snapshot =
  dn_domain :: string
  dn_brand_id :: string
  dn_as_of :: string
  dn_computed_at :: string
  dn_window :: "string option \<times> string option"
  dn_status :: domain_status
  dn_metrics :: "resolved_metric list"
  dn_headline_signals :: "string list"
  dn_query_ids :: "string list"
  dn_profile_id :: string

text \<open>The configuration of a domain; absent keys are \<open>None\<close> or empty.\<close>

record health_metric =
  hm_metric_id :: string
  hm_feature_class :: "string option"
  hm_features :: "string list"

record health_rule =
  hr_id :: string
  hr_metric_id :: string
  hr_rule :: "string option"
  hr_threshold :: rat

record health_profile =
  hp_agent_id :: "string option"
  hp_metrics :: "health_metric list"
  hp_signals :: "health_rule list"

record health_env =
  he_clock :: wall_clock
  he_fixed1 :: "rat \<Rightarrow> string"
  he_text :: "json \<Rightarrow> string"
  he_computed_at :: string
  he_states :: "state_request \<Rightarrow> metric_state result"

definition service_states ::
  "state_env \<Rightarrow> metric_registry \<Rightarrow> (string, state_profile) dict \<Rightarrow> state_request \<Rightarrow> metric_state result" where
  "service_states env rg profiles req = get_metric_state env rg profiles req"

section \<open>The snapshot store\<close>

datatype stored_file = Readable domain_snapshot | Unreadable

type_synonym snapshot_files = "(string \<times> string, stored_file) dict"

definition segment_char :: "char \<Rightarrow> bool" where
  "segment_char c = (let n = (of_char c :: nat) in
     (48 \<le> n \<and> n \<le> 57) \<or> (65 \<le> n \<and> n \<le> 90) \<or> (97 \<le> n \<and> n \<le> 122) \<or> c \<in> {CHR ''.'', CHR ''_'', CHR ''-''})"

definition safe_path_segment :: "string \<Rightarrow> string result" where
  "safe_path_segment value = (let t = str_strip value in
     if t = [] \<or> \<not> list_all segment_char t \<or> str_contains ''..'' t
     then Inl (ValueError ''unsafe segment for snapshot path'') else Inr t)"

definition snapshot_name :: "string \<Rightarrow> string" where
  "snapshot_name as_of = as_of @ ''.json''"

definition save_snapshot :: "domain_snapshot \<Rightarrow> snapshot_files \<Rightarrow> snapshot_files result" where
  "save_snapshot s files =
     result_bind (safe_path_segment (dn_domain s)) (\<lambda>d.
     result_bind (safe_path_segment (dn_as_of s)) (\<lambda>a.
       Inr (dict_set files (d, snapshot_name a) (Readable s))))"

definition snapshot_names :: "snapshot_files \<Rightarrow> string \<Rightarrow> string list" where
  "snapshot_names files d = sort (map snd (filter (\<lambda>k. fst k = d \<and> str_endswith (snd k) ''.json''
     \<and> \<not> str_startswith (snd k) ''.'') (dict_keys files)))"

definition read_file :: "snapshot_files \<Rightarrow> string \<Rightarrow> string \<Rightarrow> domain_snapshot option" where
  "read_file files d name = (case dict_get files (d, name) of Some (Readable s) \<Rightarrow> Some s | _ \<Rightarrow> None)"

definition get_latest :: "snapshot_files \<Rightarrow> string \<Rightarrow> domain_snapshot option result" where
  "get_latest files domain =
     result_bind (safe_path_segment domain) (\<lambda>d.
       Inr (first_some (read_file files d) (rev (snapshot_names files d))))"

section \<open>The resolver\<close>

definition state_feature :: "metric_state \<Rightarrow> string \<Rightarrow> rat option" where
  "state_feature s f = (case dict_get (ms_features s) f of Some v \<Rightarrow> fv_value v | None \<Rightarrow> None)"

definition breached :: "string \<Rightarrow> rat \<Rightarrow> rat \<Rightarrow> bool option" where
  "breached rule value threshold =
     (if rule = ''period_delta_pct_below'' then Some (value < threshold)
      else if rule = ''period_delta_pct_above'' then Some (threshold < value) else None)"

definition crossing :: "string \<Rightarrow> string" where
  "crossing rule = (if rule = ''period_delta_pct_below'' then ''below'' else ''above'')"

definition metrics_by_id :: "resolved_metric list \<Rightarrow> (string, resolved_metric) dict" where
  "metrics_by_id ms = foldl (\<lambda>d m. dict_set d (rm_metric_id m) m) [] ms"

definition signal_of ::
  "(rat \<Rightarrow> string) \<Rightarrow> (string, resolved_metric) dict \<Rightarrow> health_rule \<Rightarrow> string option" where
  "signal_of fixed1 by_id r =
     (case (hr_rule r, dict_get by_id (hr_metric_id r)) of
        (Some rule, Some m) \<Rightarrow>
          (case rm_period_delta_pct m of
             Some v \<Rightarrow> if breached rule v (hr_threshold r) = Some True
               then Some (hr_id r @ '': '' @ hr_metric_id r @ '' period_delta_pct '' @ fixed1 v @ ''% '' @ crossing rule
                 @ '' threshold '' @ fixed1 (hr_threshold r) @ ''%'')
               else None
           | None \<Rightarrow> None)
      | _ \<Rightarrow> None)"

definition headline_signals :: "(rat \<Rightarrow> string) \<Rightarrow> health_rule list \<Rightarrow> resolved_metric list \<Rightarrow> string list" where
  "headline_signals fixed1 rules resolved =
     concat (map (\<lambda>r. case signal_of fixed1 (metrics_by_id resolved) r of Some t \<Rightarrow> [t] | None \<Rightarrow> []) rules)"

definition windowed_point_delta_pct :: "rat option \<Rightarrow> rat option \<Rightarrow> rat option" where
  "windowed_point_delta_pct current previous =
     (case (current, previous) of
        (Some c, Some p) \<Rightarrow> if p = 0 then None else Some ((c - p) / p * 100)
      | _ \<Rightarrow> None)"

definition windowed_point :: "health_metric \<Rightarrow> bool" where
  "windowed_point e = (hm_feature_class e = Some ''windowed_point'')"

definition entry_request :: "health_profile \<Rightarrow> string \<Rightarrow> time_range \<Rightarrow> string \<Rightarrow> health_metric \<Rightarrow> state_request" where
  "entry_request block domain t brand e =
     \<lparr>sr_metric_id = hm_metric_id e, sr_catalogue_metric_id = None, sr_time_range = t,
      sr_dimensions = [(''brand_id'', JStr brand)], sr_agent_id = given (domain @ ''_agent'') (hp_agent_id block),
      sr_as_of = None, sr_profile_id = ''default_v1'',
      sr_need = (if hm_features e \<noteq> [] \<and> \<not> windowed_point e then [NEED_ACTUAL, NEED_FEATURES] else [NEED_ACTUAL])\<rparr>"

definition worse :: "domain_status \<Rightarrow> state_status \<Rightarrow> domain_status" where
  "worse status s = (if s = STATE_UNAVAILABLE then DOMAIN_UNAVAILABLE
     else if s = STATE_PARTIAL \<and> status = DOMAIN_OK then DOMAIN_DEGRADED else status)"

definition resolve_metric ::
  "(string, resolved_metric) dict \<Rightarrow> health_metric \<Rightarrow> metric_state \<Rightarrow> resolved_metric" where
  "resolve_metric previous e s =
     \<lparr>rm_metric_id = hm_metric_id e, rm_value = ms_actual s,
      rm_period_delta_pct = (if windowed_point e
        then windowed_point_delta_pct (ms_actual s)
          (case dict_get previous (hm_metric_id e) of Some m \<Rightarrow> rm_value m | None \<Rightarrow> None)
        else state_feature s ''period_delta_pct''),
      rm_rolling_mean_7d = (if windowed_point e then None else state_feature s ''rolling_mean_7d''),
      rm_direction_bad = ms_direction_bad s, rm_freshness = ms_freshness s,
      rm_quality_flags = ms_quality_flags s\<rparr>"

fun resolve_entries ::
  "(health_metric \<Rightarrow> metric_state result) \<Rightarrow> health_metric list \<Rightarrow> (health_metric \<times> metric_state) list result" where
  "resolve_entries ask [] = Inr []"
| "resolve_entries ask (e # es) =
     result_bind (ask e) (\<lambda>s. result_bind (resolve_entries ask es) (\<lambda>rest. Inr ((e, s) # rest)))"

definition query_ids :: "(json \<Rightarrow> string) \<Rightarrow> metric_state list \<Rightarrow> string list" where
  "query_ids sv states = map (py_str sv) (filter truthy (map (\<lambda>s. obj_get (ms_provenance s) ''query_id'') states))"

definition resolve_domain ::
  "health_env \<Rightarrow> (string, health_profile) dict \<Rightarrow> snapshot_files option \<Rightarrow> string \<Rightarrow> time_range \<Rightarrow> string
     \<Rightarrow> domain_snapshot result" where
  "resolve_domain env profiles store domain t brand =
     (case dict_get profiles domain of
        None \<Rightarrow> Inl (KeyError (''Unknown domain_health domain: '' @ domain))
      | Some block \<Rightarrow>
          result_bind (resolve_time_range (he_clock env) t ''UTC'' None) (\<lambda>covered.
          result_bind (case store of Some files \<Rightarrow> get_latest files domain | None \<Rightarrow> Inr None) (\<lambda>previous.
          result_bind (resolve_entries (\<lambda>e. he_states env (entry_request block domain t brand e)) (hp_metrics block))
            (\<lambda>answers.
             let by_id = (case previous of Some p \<Rightarrow> metrics_by_id (dn_metrics p) | None \<Rightarrow> []);
                 resolved = map (\<lambda>(e, s). resolve_metric by_id e s) answers in
             Inr \<lparr>dn_domain = domain, dn_brand_id = brand,
               dn_as_of = (if str_truthy (tr_end covered) then the (tr_end covered)
                           else isoformat (today_utc (he_clock env))),
               dn_computed_at = he_computed_at env, dn_window = (tr_start covered, tr_end covered),
               dn_status = foldl (\<lambda>st p. worse st (ms_status (snd p))) DOMAIN_OK answers,
               dn_metrics = resolved,
               dn_headline_signals = headline_signals (he_fixed1 env) (hp_signals block) resolved,
               dn_query_ids = query_ids (he_text env) (map snd answers),
               dn_profile_id = ''domain_health/'' @ domain\<rparr>))))"

section \<open>The scheduler\<close>

definition all_domains :: "string list" where
  "all_domains = [''commerce'', ''finance'', ''performance'', ''attribution'', ''funnel'', ''product'',
     ''customer'', ''operations'']"

definition last_week_range :: time_range where
  "last_week_range = \<lparr>tr_kind = RangeRelative, tr_start = None, tr_end = None, tr_start_b = None, tr_end_b = None,
     tr_token = Some ''last_7d''\<rparr>"

text \<open>Each domain in turn; what was saved before an exception stays saved.\<close>

fun domains_run_once ::
  "health_env \<Rightarrow> (string, health_profile) dict \<Rightarrow> time_range \<Rightarrow> string \<Rightarrow> string list \<Rightarrow> snapshot_files
     \<Rightarrow> domain_snapshot list result \<times> snapshot_files" where
  "domains_run_once env profiles t brand [] files = (Inr [], files)"
| "domains_run_once env profiles t brand (domain # domains) files =
     (case result_bind (resolve_domain env profiles (Some files) domain t brand)
             (\<lambda>s. result_bind (save_snapshot s files) (\<lambda>files'. Inr (s, files'))) of
        Inl e \<Rightarrow> (Inl e, files)
      | Inr (s, files') \<Rightarrow>
          (case domains_run_once env profiles t brand domains files' of
             (r, files'') \<Rightarrow> (result_bind r (\<lambda>rest. Inr (s # rest)), files'')))"

definition scheduled_run ::
  "health_env \<Rightarrow> (string, health_profile) dict \<Rightarrow> snapshot_files \<Rightarrow> domain_snapshot list result \<times> snapshot_files" where
  "scheduled_run env profiles files = domains_run_once env profiles last_week_range default_brand_id all_domains files"

section \<open>The newest snapshot\<close>

lemma first_some_rev_sorted:
  "sorted xs \<Longrightarrow> (first_some f (rev xs) = Some v) =
     (\<exists>n\<in>set xs. f n = Some v \<and> (\<forall>m\<in>set xs. f m \<noteq> None \<longrightarrow> m \<le> (n::string)))"
proof (induction xs rule: rev_induct)
  case (snoc x xs)
  then have "sorted xs" "\<forall>m\<in>set xs. m \<le> x" by (simp_all add: sorted_append)
  then show ?case using snoc.IH by (cases "f x") (auto dest: antisym)
qed simp

lemma first_some_None: "(first_some f xs = None) = (\<forall>x\<in>set xs. f x = None)"
  by (induction xs) (auto split: option.splits)

definition day_name :: "date \<Rightarrow> string" where
  "day_name day = snapshot_name (isoformat day)"

lemma digit_at_not_dot [simp]: "digit_at n k \<noteq> CHR ''.''"
proof
  assume "digit_at n k = CHR ''.''"
  then have "digit_value (CHR ''.'') = Some (n div 10 ^ k mod 10)" by (metis digit_value_digit_at)
  then show False by (simp add: digit_value_def)
qed

lemma day_name_visible [simp]:
  "str_endswith (day_name day) ''.json''" "\<not> str_startswith (day_name day) ''.''"
  by (simp_all add: day_name_def snapshot_name_def str_endswith_def str_startswith_def isoformat_def eval_nat_numeral)

lemma day_name_le:
  assumes "valid_date x" "valid_date y"
  shows "(day_name x \<le> day_name y) = (to_ordinal x \<le> to_ordinal y)"
proof -
  have "(day_name y < day_name x) = (isoformat y < isoformat x)"
    by (simp add: day_name_def snapshot_name_def append_less_same_length)
  then show ?thesis using isoformat_less [OF assms(2,1)] by (simp add: linorder_not_less [symmetric])
qed

text \<open>The files of a directory are named by dates, as the scheduler names them.\<close>

definition dated_files :: "snapshot_files \<Rightarrow> string \<Rightarrow> bool" where
  "dated_files files d = (\<forall>k\<in>set (dict_keys files). fst k = d \<longrightarrow> (\<exists>x. valid_date x \<and> snd k = day_name x))"

lemma dated_names:
  "dated_files files d \<Longrightarrow> n \<in> set (snapshot_names files d) \<Longrightarrow> \<exists>x. valid_date x \<and> n = day_name x"
  by (force simp: snapshot_names_def dated_files_def)

lemma readable_is_listed:
  "read_file files d (day_name x) \<noteq> None \<Longrightarrow> day_name x \<in> set (snapshot_names files d)"
  by (cases "dict_get files (d, day_name x)")
    (auto simp: read_file_def snapshot_names_def image_iff dest!: dict_get_SomeD intro!: bexI)

lemma get_latest_dated:
  assumes d: "safe_path_segment domain = Inr d" and dated: "dated_files files d"
  shows "(get_latest files domain = Inr (Some s)) =
     (\<exists>x. valid_date x \<and> read_file files d (day_name x) = Some s
        \<and> (\<forall>y. valid_date y \<and> read_file files d (day_name y) \<noteq> None \<longrightarrow> to_ordinal y \<le> to_ordinal x))"
    (is "?l = ?r")
proof -
  let ?ns = "snapshot_names files d"
  have l: "?l = (\<exists>n\<in>set ?ns. read_file files d n = Some s \<and> (\<forall>m\<in>set ?ns. read_file files d m \<noteq> None \<longrightarrow> m \<le> n))"
    by (simp add: get_latest_def d first_some_rev_sorted snapshot_names_def)
  show ?thesis
  proof
    assume ?l
    then obtain n where n: "n \<in> set ?ns" "read_file files d n = Some s"
        "\<forall>m\<in>set ?ns. read_file files d m \<noteq> None \<longrightarrow> m \<le> n"
      using l by blast
    obtain x where x: "valid_date x" "n = day_name x" using dated_names [OF dated n(1)] by blast
    have "to_ordinal y \<le> to_ordinal x" if "valid_date y" "read_file files d (day_name y) \<noteq> None" for y
      using n(3) readable_is_listed [OF that(2)] that day_name_le [OF that(1) x(1)] x(2) by blast
    then show ?r using x n(2) by blast
  next
    assume ?r
    then obtain x where x: "valid_date x" "read_file files d (day_name x) = Some s"
        "\<forall>y. valid_date y \<and> read_file files d (day_name y) \<noteq> None \<longrightarrow> to_ordinal y \<le> to_ordinal x"
      by blast
    have "m \<le> day_name x" if m: "m \<in> set ?ns" "read_file files d m \<noteq> None" for m
    proof -
      obtain y where "valid_date y" "m = day_name y" using dated_names [OF dated m(1)] by blast
      then show ?thesis using x m(2) day_name_le by blast
    qed
    moreover have "day_name x \<in> set ?ns" using x(2) readable_is_listed by simp
    ultimately show ?l using l x(2) by blast
  qed
qed

text \<open>
  C29. The latest snapshot of a domain is the readable file of the greatest date; unreadable files
  are passed over, and there is none exactly when no file can be read.
\<close>

theorem latest_snapshot_is_newest:
  assumes d: "safe_path_segment domain = Inr d" and dated: "dated_files files d"
  shows "(\<forall>s. (get_latest files domain = Inr (Some s)) =
      (\<exists>x. valid_date x \<and> read_file files d (day_name x) = Some s
         \<and> (\<forall>y. valid_date y \<and> read_file files d (day_name y) \<noteq> None \<longrightarrow> to_ordinal y \<le> to_ordinal x)))
   \<and> (get_latest files domain = Inr None) = (\<forall>y. valid_date y \<longrightarrow> read_file files d (day_name y) = None)"
proof
  have "(get_latest files domain = Inr None) = (\<forall>n\<in>set (snapshot_names files d). read_file files d n = None)"
    by (simp add: get_latest_def d first_some_None)
  then show "(get_latest files domain = Inr None) = (\<forall>y. valid_date y \<longrightarrow> read_file files d (day_name y) = None)"
    using dated_names [OF dated] readable_is_listed by metis
qed (simp add: get_latest_dated [OF d dated])

section \<open>Status and signals\<close>

lemma resolve_entries_map:
  "resolve_entries ask es = Inr answers \<Longrightarrow> map fst answers = es \<and> (\<forall>(e, s)\<in>set answers. ask e = Inr s)"
  by (induction es arbitrary: answers) (fastforce simp: result_bind_Inr)+

lemma resolve_entries_all:
  "resolve_entries ask es = Inr answers \<Longrightarrow> map (\<lambda>p. ask (fst p)) answers = map (\<lambda>p. Inr (snd p)) answers"
  using resolve_entries_map by fastforce

definition worst :: "state_status list \<Rightarrow> domain_status" where
  "worst sts = (if STATE_UNAVAILABLE \<in> set sts then DOMAIN_UNAVAILABLE
     else if STATE_PARTIAL \<in> set sts then DOMAIN_DEGRADED else DOMAIN_OK)"

lemma worse_fold: "foldl worse DOMAIN_OK sts = worst sts"
proof (induction sts rule: rev_induct)
  case (snoc x xs)
  then show ?case by (cases x) (auto simp: worse_def worst_def)
qed (simp add: worst_def)

lemma resolve_domain_Inr:
  assumes "resolve_domain env profiles store domain t brand = Inr snap"
  obtains block previous answers where "dict_get profiles domain = Some block"
    "(case store of Some files \<Rightarrow> get_latest files domain | None \<Rightarrow> Inr None) = Inr previous"
    "resolve_entries (\<lambda>e. he_states env (entry_request block domain t brand e)) (hp_metrics block) = Inr answers"
    "dn_metrics snap = map (\<lambda>(e, s). resolve_metric
       (case previous of Some p \<Rightarrow> metrics_by_id (dn_metrics p) | None \<Rightarrow> []) e s) answers"
    "dn_status snap = worst (map (ms_status \<circ> snd) answers)"
    "dn_headline_signals snap = headline_signals (he_fixed1 env) (hp_signals block) (dn_metrics snap)"
    "dn_domain snap = domain" "dn_brand_id snap = brand"
proof -
  have f: "foldl (\<lambda>st p. worse st (ms_status (snd p))) DOMAIN_OK answers = worst (map (ms_status \<circ> snd) answers)"
    for answers :: "(health_metric \<times> metric_state) list"
    using worse_fold [of "map (ms_status \<circ> snd) answers"] by (simp add: foldl_map)
  obtain block where b: "dict_get profiles domain = Some block"
    using assms by (cases "dict_get profiles domain") (simp_all add: resolve_domain_def)
  obtain previous answers where p: "(case store of Some files \<Rightarrow> get_latest files domain | None \<Rightarrow> Inr None) = Inr previous"
      "resolve_entries (\<lambda>e. he_states env (entry_request block domain t brand e)) (hp_metrics block) = Inr answers"
    using assms b by (simp add: resolve_domain_def result_bind_Inr) blast
  show ?thesis
    using assms b p by (intro that [OF b p]) (auto simp: resolve_domain_def result_bind_Inr Let_def f)
qed

lemma resolve_metric_fields [simp]:
  "rm_metric_id (resolve_metric previous e s) = hm_metric_id e" "rm_value (resolve_metric previous e s) = ms_actual s"
  by (simp_all add: resolve_metric_def)

lemma resolve_domain_facts:
  assumes "resolve_domain env profiles store domain t brand = Inr snap" and b: "dict_get profiles domain = Some block"
  shows "\<exists>previous answers. (case store of Some files \<Rightarrow> get_latest files domain | None \<Rightarrow> Inr None) = Inr previous
    \<and> resolve_entries (\<lambda>e. he_states env (entry_request block domain t brand e)) (hp_metrics block) = Inr answers
    \<and> dn_metrics snap = map (\<lambda>(e, s). resolve_metric
       (case previous of Some p \<Rightarrow> metrics_by_id (dn_metrics p) | None \<Rightarrow> []) e s) answers
    \<and> dn_status snap = worst (map (ms_status \<circ> snd) answers)
    \<and> dn_headline_signals snap = headline_signals (he_fixed1 env) (hp_signals block) (dn_metrics snap)"
proof (rule resolve_domain_Inr [OF assms(1)], goal_cases)
  case (1 block' previous answers)
  have "block' = block" using 1(1) b by simp
  then show ?case using 1 by blast
qed

text \<open>
  A snapshot is as bad as its worst metric, has one entry per configured metric with the value
  the service gave, and raises a signal only for a metric of its own whose change is known and lies
  beyond the threshold of a rule.
\<close>

theorem snapshot_is_as_bad_as_its_worst_metric:
  assumes r: "resolve_domain env profiles store domain t brand = Inr snap"
    and block: "dict_get profiles domain = Some block"
  shows "\<exists>states. map (\<lambda>e. he_states env (entry_request block domain t brand e)) (hp_metrics block) = map Inr states
    \<and> (dn_status snap = DOMAIN_UNAVAILABLE) = (\<exists>s\<in>set states. ms_status s = STATE_UNAVAILABLE)
    \<and> (dn_status snap = DOMAIN_OK) = (\<forall>s\<in>set states. ms_status s = STATE_OK)
    \<and> map rm_metric_id (dn_metrics snap) = map hm_metric_id (hp_metrics block)
    \<and> map rm_value (dn_metrics snap) = map ms_actual states
    \<and> (\<forall>signal\<in>set (dn_headline_signals snap). \<exists>rl\<in>set (hp_signals block). \<exists>m\<in>set (dn_metrics snap). \<exists>rule v.
         rm_metric_id m = hr_metric_id rl \<and> hr_rule rl = Some rule \<and> rm_period_delta_pct m = Some v
         \<and> breached rule v (hr_threshold rl) = Some True)"
proof -
  obtain previous :: "domain_snapshot option" and answers where a: "resolve_entries (\<lambda>e. he_states env (entry_request block domain t brand e)) (hp_metrics block) = Inr answers"
      "dn_metrics snap = map (\<lambda>(e, s). resolve_metric
         (case previous of Some p \<Rightarrow> metrics_by_id (dn_metrics p) | None \<Rightarrow> []) e s) answers"
      "dn_status snap = worst (map (ms_status \<circ> snd) answers)"
      "dn_headline_signals snap = headline_signals (he_fixed1 env) (hp_signals block) (dn_metrics snap)"
    using resolve_domain_facts [OF r block] by blast
  have es: "map fst answers = hp_metrics block" using resolve_entries_map [OF a(1)] by blast
  have st: "(worst sts = DOMAIN_UNAVAILABLE) = (STATE_UNAVAILABLE \<in> set sts)"
      "(worst sts = DOMAIN_OK) = (\<forall>x\<in>set sts. x = STATE_OK)" for sts
    by (auto simp: worst_def) (metis state_status.exhaust)
  have ids: "map rm_metric_id (dn_metrics snap) = map hm_metric_id (hp_metrics block)"
      "map rm_value (dn_metrics snap) = map ms_actual (map snd answers)"
    unfolding es [symmetric] by (simp_all add: a(2) case_prod_unfold)
  have member: "m \<in> set ms \<and> rm_metric_id m = i" if "dict_get (metrics_by_id ms) i = Some m" for m ms i
  proof -
    have "dict_get (foldl (\<lambda>d m. dict_set d (rm_metric_id m) m) d ms) i = Some m \<Longrightarrow>
        dict_get d i = Some m \<or> m \<in> set ms \<and> rm_metric_id m = i" for d
      by (induction ms arbitrary: d) (fastforce split: if_splits)+
    then show ?thesis using that by (fastforce simp: metrics_by_id_def)
  qed
  have signals: "\<exists>rl\<in>set (hp_signals block). \<exists>m\<in>set (dn_metrics snap). \<exists>rule v.
      rm_metric_id m = hr_metric_id rl \<and> hr_rule rl = Some rule \<and> rm_period_delta_pct m = Some v
      \<and> breached rule v (hr_threshold rl) = Some True" if "signal \<in> set (dn_headline_signals snap)" for signal
  proof -
    obtain rl where rl: "rl \<in> set (hp_signals block)" "signal_of (he_fixed1 env) (metrics_by_id (dn_metrics snap)) rl = Some signal"
      using \<open>signal \<in> _\<close> by (auto simp: a(4) headline_signals_def split: option.splits)
    then obtain rule m v where "hr_rule rl = Some rule" "dict_get (metrics_by_id (dn_metrics snap)) (hr_metric_id rl) = Some m"
        "rm_period_delta_pct m = Some v" "breached rule v (hr_threshold rl) = Some True"
      by (auto simp: signal_of_def split: option.splits if_splits)
    then show ?thesis using rl(1) member by blast
  qed
  have "map (\<lambda>e. he_states env (entry_request block domain t brand e)) (hp_metrics block) = map Inr (map snd answers)"
    using resolve_entries_all [OF a(1)] unfolding es [symmetric] by simp
  moreover have "(dn_status snap = DOMAIN_UNAVAILABLE) = (\<exists>s\<in>set (map snd answers). ms_status s = STATE_UNAVAILABLE)"
    unfolding a(3) st by (simp add: image_iff) metis
  moreover have "(dn_status snap = DOMAIN_OK) = (\<forall>s\<in>set (map snd answers). ms_status s = STATE_OK)"
    unfolding a(3) st by simp
  ultimately show ?thesis
    using ids signals by (intro exI [of _ "map snd answers"] conjI ballI) blast+
qed

section \<open>What a change is measured against\<close>

lemma str_strip_same: "s \<noteq> [] \<Longrightarrow> \<not> is_space (hd s) \<Longrightarrow> \<not> is_space (last s) \<Longrightarrow> str_strip s = s"
proof -
  assume s: "s \<noteq> []" "\<not> is_space (hd s)" "\<not> is_space (last s)"
  have "xs \<noteq> [] \<Longrightarrow> \<not> is_space (hd xs) \<Longrightarrow> dropWhile is_space xs = xs" for xs by (cases xs) simp_all
  then show ?thesis using s by (simp add: str_strip_def hd_rev)
qed

lemma digit_at_not_space [simp]: "\<not> is_space (digit_at n k)"
proof
  assume "is_space (digit_at n k)"
  then have "digit_value (digit_at n k) = None" by (auto simp: is_space_def digit_value_def Let_def)
  then show False by simp
qed

lemma str_strip_isoformat [simp]: "str_strip (isoformat day) = isoformat day"
  by (rule str_strip_same) (simp_all add: isoformat_def eval_nat_numeral)

lemma saved_is_latest:
  assumes saved: "save_snapshot s files = Inr files'" and d: "safe_path_segment (dn_domain s) = Inr d"
    and day: "valid_date day" "dn_as_of s = isoformat day"
    and dated: "dated_files files d"
    and newest: "\<forall>y. valid_date y \<and> read_file files d (day_name y) \<noteq> None \<longrightarrow> to_ordinal y \<le> to_ordinal day"
  shows "get_latest files' (dn_domain s) = Inr (Some s)"
proof -
  have f: "files' = dict_set files (d, day_name day) (Readable s)"
    using saved d day(2) by (auto simp: save_snapshot_def result_bind_Inr safe_path_segment_def day_name_def Let_def split: if_splits)
  have "dated_files files' d" using dated day(1) by (auto simp: dated_files_def f)
  moreover have "read_file files' d (day_name day) = Some s" by (simp add: f read_file_def)
  moreover have "to_ordinal y \<le> to_ordinal day" if "valid_date y" "read_file files' d (day_name y) \<noteq> None" for y
    using that newest by (cases "day_name y = day_name day") (auto simp: f read_file_def dest: day_name_le [THEN iffD1, OF _ day(1)])
  ultimately show ?thesis using get_latest_dated [OF d] day(1) by blast
qed

definition value_in :: "domain_snapshot \<Rightarrow> string \<Rightarrow> rat option" where
  "value_in s i = (case dict_get (metrics_by_id (dn_metrics s)) i of Some m \<Rightarrow> rm_value m | None \<Rightarrow> None)"

text \<open>
  C39. The change of a windowed metric is measured against the snapshot of its domain that was saved
  last, whichever brand that is of and even when it is of the same day: the files are named by domain
  and day only. A run for another brand makes the change a difference between brands, a second run on
  one day compares the day with itself.
\<close>

theorem change_is_measured_against_any_brand:
  assumes saved: "save_snapshot s1 files = Inr files1" "safe_path_segment (dn_domain s1) = Inr d"
    and day: "valid_date day" "dn_as_of s1 = isoformat day"
    and dated: "dated_files files d"
    and newest: "\<forall>y. valid_date y \<and> read_file files d (day_name y) \<noteq> None \<longrightarrow> to_ordinal y \<le> to_ordinal day"
    and next_run: "resolve_domain env profiles (Some files1) (dn_domain s1) t brand = Inr s2"
    and block: "dict_get profiles (dn_domain s1) = Some block" "e \<in> set (hp_metrics block)" "windowed_point e"
  shows "\<exists>m s. m \<in> set (dn_metrics s2) \<and> rm_metric_id m = hm_metric_id e \<and> rm_value m = ms_actual s
    \<and> he_states env (entry_request block (dn_domain s1) t brand e) = Inr s
    \<and> rm_period_delta_pct m = windowed_point_delta_pct (ms_actual s) (value_in s1 (hm_metric_id e))"
proof -
  obtain answers where a: "resolve_entries (\<lambda>e. he_states env (entry_request block (dn_domain s1) t brand e)) (hp_metrics block) = Inr answers"
      "dn_metrics s2 = map (\<lambda>(e, s). resolve_metric (metrics_by_id (dn_metrics s1)) e s) answers"
    using resolve_domain_facts [OF next_run block(1)] saved_is_latest [OF saved day dated newest] by auto
  have es: "map fst answers = hp_metrics block \<and> (\<forall>(e, s)\<in>set answers. he_states env (entry_request block (dn_domain s1) t brand e) = Inr s)"
    using resolve_entries_map [OF a(1)] by simp
  then have "e \<in> fst ` set answers" using block(2) by (metis list.set_map)
  then obtain s where s: "(e, s) \<in> set answers" by auto
  let ?m = "resolve_metric (metrics_by_id (dn_metrics s1)) e s"
  have "?m \<in> set (dn_metrics s2)" using s by (force simp: a(2))
  moreover have "he_states env (entry_request block (dn_domain s1) t brand e) = Inr s" using es s by auto
  ultimately show ?thesis
    using block(3) by (intro exI [of _ ?m] exI [of _ s]) (simp add: resolve_metric_def value_in_def)
qed

section \<open>Witnesses\<close>

definition sample_health_env :: health_env where
  "sample_health_env = \<lparr>he_clock = sample_clock, he_fixed1 = (\<lambda>_. []), he_text = (\<lambda>_. []), he_computed_at = ''now'',
     he_states = (\<lambda>req. Inr ((no_data (sr_metric_id req) (sr_metric_id req) [] [] None MISSING_DATA [])
       \<lparr>ms_actual := Some (if obj_get (sr_dimensions req) ''brand_id'' = JStr ''21'' then 40 else 20),
        ms_quality_flags := [], ms_status := STATE_OK, ms_error_code := None\<rparr>))\<rparr>"

definition repeat_rate :: health_metric where
  "repeat_rate = \<lparr>hm_metric_id = ''metric.repeat_rate'', hm_feature_class = Some ''windowed_point'', hm_features = []\<rparr>"

definition sample_block :: health_profile where
  "sample_block = \<lparr>hp_agent_id = None, hp_metrics = [repeat_rate],
     hp_signals = [\<lparr>hr_id = ''jump'', hr_metric_id = ''metric.repeat_rate'', hr_rule = Some ''period_delta_pct_above'',
       hr_threshold = 50\<rparr>]\<rparr>"

definition sample_run_for :: "snapshot_files \<Rightarrow> string \<Rightarrow> domain_snapshot result" where
  "sample_run_for files brand =
     resolve_domain sample_health_env [(''customer'', sample_block)] (Some files) ''customer'' last_week_range brand"

definition sample_day :: date where "sample_day = \<lparr>dt_year = 2024, dt_month = 3, dt_day = 31\<rparr>"

lemma sample_two_runs:
  "result_bind (sample_run_for [] ''20'') (\<lambda>s1. result_bind (save_snapshot s1 []) (\<lambda>files1.
     result_bind (sample_run_for files1 ''21'') (\<lambda>s2.
       Inr (dn_domain s1, dn_as_of s1, value_in s1 ''metric.repeat_rate'', dn_status s2, length (dn_headline_signals s2)))))
   = Inr (''customer'', ''2024-03-31'', Some 20, DOMAIN_OK, 1)"
  by code_simp

lemma sample_day_facts:
  "valid_date sample_day" "isoformat sample_day = ''2024-03-31''" "safe_path_segment ''customer'' = Inr ''customer''"
  by code_simp+

lemma change_is_measured_against_any_brand_witness:
  "\<exists>s1 files1 s2 m. sample_run_for [] ''20'' = Inr s1 \<and> save_snapshot s1 [] = Inr files1
     \<and> sample_run_for files1 ''21'' = Inr s2 \<and> m \<in> set (dn_metrics s2) \<and> rm_period_delta_pct m = Some 100"
proof -
  obtain s1 files1 s2 where r: "sample_run_for [] ''20'' = Inr s1" "save_snapshot s1 [] = Inr files1"
      "sample_run_for files1 ''21'' = Inr s2" "dn_domain s1 = ''customer''" "dn_as_of s1 = ''2024-03-31''"
      "value_in s1 ''metric.repeat_rate'' = Some 20"
    using sample_two_runs by (auto simp: result_bind_Inr)
  have none: "\<forall>y. valid_date y \<and> read_file [] ''customer'' (day_name y) \<noteq> None \<longrightarrow> to_ordinal y \<le> to_ordinal sample_day"
    by (simp add: read_file_def)
  have e: "repeat_rate \<in> set (hp_metrics sample_block)" "windowed_point repeat_rate"
    by (simp_all add: sample_block_def windowed_point_def repeat_rate_def)
  have d: "safe_path_segment (dn_domain s1) = Inr ''customer''" "dn_as_of s1 = isoformat sample_day"
    using sample_day_facts r(4,5) by simp_all
  have run: "resolve_domain sample_health_env [(''customer'', sample_block)] (Some files1) (dn_domain s1) last_week_range ''21'' = Inr s2"
    and b: "dict_get [(''customer'', sample_block)] (dn_domain s1) = Some sample_block"
    using r(3,4) by (simp_all add: sample_run_for_def)
  obtain m s where m: "m \<in> set (dn_metrics s2)"
      "he_states sample_health_env (entry_request sample_block (dn_domain s1) last_week_range ''21'' repeat_rate) = Inr s"
      "rm_period_delta_pct m = windowed_point_delta_pct (ms_actual s) (value_in s1 (hm_metric_id repeat_rate))"
    using change_is_measured_against_any_brand [OF r(2) d(1) sample_day_facts(1) d(2) _ none run b e]
    by (auto simp: dated_files_def)
  have "ms_actual s = Some 40" using m(2) by (auto simp: sample_health_env_def entry_request_def obj_get_def)
  then have "rm_period_delta_pct m = Some 100"
    using m(3) r(6) by (simp add: repeat_rate_def windowed_point_delta_pct_def)
  then show ?thesis using r m(1) by blast
qed

lemma snapshot_is_as_bad_as_its_worst_metric_witness:
  "\<exists>s. sample_run_for [] ''20'' = Inr s \<and> map rm_value (dn_metrics s) = [Some 20] \<and> dn_status s = DOMAIN_OK"
proof -
  obtain s where s: "sample_run_for [] ''20'' = Inr s" using sample_two_runs by (auto simp: result_bind_Inr)
  obtain states where st: "map (\<lambda>e. he_states sample_health_env (entry_request sample_block ''customer'' last_week_range ''20'' e))
      (hp_metrics sample_block) = map Inr states"
      "(dn_status s = DOMAIN_OK) = (\<forall>x\<in>set states. ms_status x = STATE_OK)"
      "map rm_value (dn_metrics s) = map ms_actual states"
    using snapshot_is_as_bad_as_its_worst_metric [OF s [unfolded sample_run_for_def], of sample_block] by auto
  then have "map ms_actual states = [Some 20] \<and> (\<forall>x\<in>set states. ms_status x = STATE_OK)"
    by (auto simp: sample_block_def sample_health_env_def entry_request_def obj_get_def map_eq_Cons_conv Cons_eq_map_conv)
  then show ?thesis using s st by simp
qed

lemma latest_snapshot_is_newest_witness:
  "\<exists>s files. sample_run_for [] ''20'' = Inr s \<and> save_snapshot s [] = Inr files \<and> get_latest files ''customer'' = Inr (Some s)"
proof -
  obtain s files where r: "sample_run_for [] ''20'' = Inr s" "save_snapshot s [] = Inr files"
      "dn_domain s = ''customer''" "dn_as_of s = ''2024-03-31''"
    using sample_two_runs by (auto simp: result_bind_Inr)
  have "safe_path_segment ''2024-03-31'' = Inr ''2024-03-31''" by code_simp
  then have f: "files = [((''customer'', day_name sample_day), Readable s)]"
    using r(2) sample_day_facts by (auto simp: save_snapshot_def r(3,4) day_name_def)
  have dated: "dated_files files ''customer''" using sample_day_facts(1) by (auto simp: dated_files_def f)
  have "y = sample_day" if "valid_date y" "read_file files ''customer'' (day_name y) \<noteq> None" for y
  proof -
    have "day_name y = day_name sample_day" using that(2) by (auto simp: read_file_def f split: if_splits)
    then have "to_ordinal y = to_ordinal sample_day"
      using day_name_le [OF that(1) sample_day_facts(1)] day_name_le [OF sample_day_facts(1) that(1)] by simp
    then show ?thesis using to_ordinal_eq [OF that(1) sample_day_facts(1)] by simp
  qed
  moreover have "read_file files ''customer'' (day_name sample_day) = Some s" by (simp add: read_file_def f)
  ultimately have "get_latest files ''customer'' = Inr (Some s)"
    using latest_snapshot_is_newest [OF sample_day_facts(3) dated] sample_day_facts(1) by blast
  then show ?thesis using r by blast
qed

end
