(* ===== verification/Semantic_Tools.thy ===== *)
theory Semantic_Tools
  imports Business_State Analytics_Tools
begin

text \<open>
  The tool by which numbers of the business enter a mission: \<^verbatim>\<open>query_metrics\<close> of
  \<^verbatim>\<open>toolsets/semantic.py\<close>. It cleans the dimensions the language model wrote, asks the server through
  the mission's query cache and budget, falls back to the default brand, tells failures apart, and
  writes each row it is told as an evidence artifact (\<^verbatim>\<open>state/artifacts.py\<close>), with a note for the
  model (\<^verbatim>\<open>state/scratchpad.py\<close>).

  The server, drawn identifiers, the clock, \<^verbatim>\<open>json.dumps\<close>, \<^verbatim>\<open>float\<close> of a text, the close matches of
  \<^verbatim>\<open>difflib\<close> and the texts of values, times and summaries are arguments; a summary is what it is
  rendered from. The calls of one mission follow one another here; calls that overlap are coalesced
  by the cache of \<open>Caches\<close>. Dimension identifiers of the catalogue are texts. A dated column holds one
  of the formats of \<open>Calendar\<close>; the week format with an hour is not read. The other tools of the file
  are left out.
\<close>

section \<open>Dimensions\<close>

datatype dim_value = One string | AnyOf "string list"

type_synonym dimension_values = "(string, dim_value) dict"

definition normalize_dim_token :: "string \<Rightarrow> string" where
  "normalize_dim_token s = map (\<lambda>c. if c = CHR ''-'' \<or> c = CHR '' '' then CHR ''_'' else c) (str_lower (str_strip s))"

definition placeholder_dim_values :: "string list" where
  "placeholder_dim_values = [''acme'', ''bar'', ''baz'', ''brand'', ''brand_id'', ''brand_name'', ''dummy'', ''example'',
     ''example_brand'', ''foo'', ''my_brand'', ''n/a'', ''na'', ''none'', ''null'', ''placeholder'', ''sample'',
     ''some_brand'', ''somebrand'', ''string'', ''test'', ''unknown'', ''your_brand'']"

definition is_placeholder_dimension_value :: "string \<Rightarrow> bool" where
  "is_placeholder_dimension_value value =
     (let t = normalize_dim_token value in
      t = [] \<or> t \<in> set placeholder_dim_values
      \<or> list_ex (str_startswith t) [''some_'', ''example_'', ''sample_'', ''dummy_'', ''test_''])"

definition is_self_referential :: "string \<Rightarrow> string \<Rightarrow> bool" where
  "is_self_referential key value = (normalize_dim_token value = normalize_dim_token key)"

definition groupby_markers :: "string list" where
  "groupby_markers = [''*'', ''all'', ''any'', ''each'', ''every'', ''group_by'', ''groupby'']"

definition kept_values :: "string list \<Rightarrow> string list" where
  "kept_values vs = filter (\<lambda>v. v \<noteq> [] \<and> \<not> is_placeholder_dimension_value v) (map str_strip vs)"

text \<open>A single literal, once trimmed: a breakdown, nothing at all, or a filter.\<close>

definition sanitize_one :: "string \<Rightarrow> string \<Rightarrow> dimension_values \<Rightarrow> dimension_values" where
  "sanitize_one key value cleaned =
     (let t = str_strip value in
      if t \<noteq> [] \<and> normalize_dim_token t \<in> set groupby_markers then dict_set cleaned key (One [])
      else if t \<noteq> [] \<and> is_self_referential key t then dict_set cleaned key (One [])
      else if t \<noteq> [] \<and> is_placeholder_dimension_value t then cleaned
      else dict_set cleaned key (One t))"

definition sanitize_step :: "dimension_values \<Rightarrow> string \<times> dim_value \<Rightarrow> dimension_values" where
  "sanitize_step cleaned kv =
     (case snd kv of
        One v \<Rightarrow> sanitize_one (fst kv) v cleaned
      | AnyOf vs \<Rightarrow>
          (case kept_values vs of
             [] \<Rightarrow> dict_set cleaned (fst kv) (One [])
           | [v] \<Rightarrow> sanitize_one (fst kv) v cleaned
           | kept \<Rightarrow> dict_set cleaned (fst kv) (AnyOf (dedupe kept))))"

definition sanitize_dimensions :: "dimension_values \<Rightarrow> dimension_values" where
  "sanitize_dimensions dims = foldl sanitize_step [] dims"

fun dim_truthy :: "dim_value \<Rightarrow> bool" where
  "dim_truthy (One v) = (v \<noteq> [])"
| "dim_truthy (AnyOf vs) = (vs \<noteq> [])"

fun dim_values :: "dim_value \<Rightarrow> string list" where
  "dim_values (One v) = [v]"
| "dim_values (AnyOf vs) = vs"

fun dim_text :: "dim_value \<Rightarrow> string" where
  "dim_text (One v) = v"
| "dim_text (AnyOf vs) = join '','' vs"

definition breakdown_keys :: "dimension_values \<Rightarrow> string list" where
  "breakdown_keys dims = map fst (filter (\<lambda>kv. \<not> dim_truthy (snd kv)) dims)"

text \<open>A filter: the dimension and the values it admits.\<close>

type_synonym dim_filter = "string \<times> string list"

definition equals_filter :: "dim_filter \<Rightarrow> json_obj" where
  "equals_filter f = [(''dimension'', JStr (fst f)), (''operator'', JStr ''equals''),
     (''values'', JList (map JStr (snd f)))]"

definition value_filters :: "dimension_values \<Rightarrow> dim_filter list" where
  "value_filters dims = map (\<lambda>kv. (fst kv, dim_values (snd kv))) (filter (\<lambda>kv. dim_truthy (snd kv)) dims)"

definition names_brand :: "dim_filter \<Rightarrow> bool" where
  "names_brand f = (normalize_dim_token (fst f) \<in> set brand_dim_keys)"

definition unknown_brand_error :: "string \<Rightarrow> bool" where
  "unknown_brand_error text' = (str_contains ''unknown brand'' (str_lower text') \<or> str_contains ''invalid brand'' (str_lower text'))"

definition unknown_dimension_error :: "string \<Rightarrow> bool" where
  "unknown_dimension_error text' = (str_contains ''unknown dimension'' (str_lower text') \<or> unknown_brand_error text')"

section \<open>The catalogue the mission holds\<close>

definition json_texts :: "json list \<Rightarrow> string list" where
  "json_texts xs = concat (map (\<lambda>x. case x of JStr s \<Rightarrow> [s] | _ \<Rightarrow> []) xs)"

definition has_metric :: "metric_meta list \<Rightarrow> string \<Rightarrow> bool" where
  "has_metric catalogue i = list_ex (\<lambda>m. mm_id m = i) catalogue"

definition supported_dimensions_for :: "metric_meta list \<Rightarrow> string \<Rightarrow> string list" where
  "supported_dimensions_for catalogue i =
     (case find (\<lambda>m. mm_id m = i) catalogue of
        Some m \<Rightarrow> filter (\<lambda>d. d \<noteq> []) (json_texts (mm_supported_dimensions m)) | None \<Rightarrow> [])"

definition metrics_supporting_dimension :: "metric_meta list \<Rightarrow> string \<Rightarrow> string list" where
  "metrics_supporting_dimension catalogue dim_id =
     take 6 (sort (map mm_id (filter (\<lambda>m. str_strip dim_id \<in> set (json_texts (mm_supported_dimensions m))) catalogue)))"

text \<open>The aliases of the metrics, each with the metric it stands for.\<close>

definition metric_aliases :: "(json \<Rightarrow> string) \<Rightarrow> metric_meta \<Rightarrow> (string \<times> string) list result" where
  "metric_aliases sv m =
     result_bind (py_list (json_or (obj_get (mm_raw m) ''aliases'') (JList []))) (\<lambda>xs.
       Inr (map (\<lambda>x. (py_str sv x, mm_id m)) (filter truthy xs)))"

fun all_aliases :: "(json \<Rightarrow> string) \<Rightarrow> metric_meta list \<Rightarrow> (string \<times> string) list result" where
  "all_aliases sv [] = Inr []"
| "all_aliases sv (m # ms) =
     result_bind (metric_aliases sv m) (\<lambda>xs. result_bind (all_aliases sv ms) (\<lambda>ys. Inr (xs @ ys)))"

definition closest_metric_ids ::
  "(nat \<Rightarrow> rat \<Rightarrow> string \<Rightarrow> string list \<Rightarrow> string list) \<Rightarrow> (json \<Rightarrow> string) \<Rightarrow> metric_meta list \<Rightarrow> string
     \<Rightarrow> string list result" where
  "closest_metric_ids close sv catalogue query =
     result_bind (all_aliases sv catalogue) (\<lambda>aliases.
       let ids = map mm_id catalogue;
           hits = close 5 (2 / 5) query (sort (dedupe (ids @ map fst aliases)));
           alias_to_id = foldl (\<lambda>d (a, i). dict_set d a i) [] aliases in
       Inr (filter (\<lambda>i. i \<in> set ids) (dedupe (map (\<lambda>h. given h (dict_get alias_to_id h)) hits))))"

definition supports_brand :: "metric_meta list \<Rightarrow> string \<Rightarrow> bool" where
  "supports_brand catalogue i =
     (catalogue = [] \<or> list_ex (\<lambda>d. str_lower d \<in> set brand_dim_keys) (supported_dimensions_for catalogue i))"

section \<open>State\<close>

text \<open>\<^verbatim>\<open>datetime\<close>: a day, the time on it, a zone.\<close>

record date_time =
  dm_date :: date
  dm_time :: int
  dm_zone :: "string option"

record metric_request =
  qr_metric_id :: string
  qr_dimensions :: dimension_values
  qr_grain :: string
  qr_start :: "date_time option"
  qr_end :: "date_time option"
  qr_order :: "string option"
  qr_limit :: "int option"

text \<open>What a summary is rendered from.\<close>

datatype tool_summary =
    QueryFailed string string
  | NotConnected
  | ValueNotFound string json
  | NoData string string string "(string \<times> string list) list"
  | NoUsableValue string string string
  | Values string string string "(string \<times> rat) list"
  | AlreadyFetched tool_summary

record semantic_reply =
  sy_success :: bool
  sy_artifact_ids :: "string list"
  sy_summary :: tool_summary
  sy_error_code :: "string option"
  sy_retryable :: bool
  sy_provenance :: artifact_provenance
  sy_warnings :: "string list"

text \<open>A tool answers, or asks the model to try again with the names it lists, or raises.\<close>

datatype tool_outcome = Answered semantic_reply | ModelRetry "string list" | Raised error

record semantic_env =
  sq_call :: query_server
  sq_error_text :: "error \<Rightarrow> string"
  sq_text :: "json \<Rightarrow> string"
  sq_dumps :: "json \<Rightarrow> string"
  sq_float :: "string \<Rightarrow> rat result"
  sq_stamp :: "date_time \<Rightarrow> string"
  sq_close :: "nat \<Rightarrow> rat \<Rightarrow> string \<Rightarrow> string list \<Rightarrow> string list"
  sq_render :: "tool_summary \<Rightarrow> string"
  sq_ids :: "nat \<Rightarrow> string"
  sq_now :: moment
  sq_fetched_at :: string
  sq_as_of :: date_time
  sq_workspace :: string
  sq_mission :: string
  sq_catalogue :: "metric_meta list"

text \<open>
  The part of the mission's dependencies the tool reads and writes. The one cache of the code is two
  dictionaries here: the keys of replies and of results have different beginnings.
\<close>

record semantic_state =
  ss_store :: artifact_store
  ss_drawn :: nat
  ss_replies :: "(string, json_obj) dict"
  ss_results :: "(string, semantic_reply) dict"
  ss_budget :: budget_tracker
  ss_counts :: call_counts
  ss_notes :: "string list"

definition failure :: "string \<Rightarrow> bool \<Rightarrow> tool_summary \<Rightarrow> semantic_reply" where
  "failure code again summary = \<lparr>sy_success = False, sy_artifact_ids = [], sy_summary = summary,
     sy_error_code = Some code, sy_retryable = again, sy_provenance = no_provenance, sy_warnings = []\<rparr>"

definition unavailable :: semantic_reply where
  "unavailable = failure ''MCP_UNAVAILABLE'' False NotConnected"

definition fetch_failure :: "string \<Rightarrow> string \<Rightarrow> semantic_reply" where
  "fetch_failure metric_id text' =
     (if str_startswith text' ''NotImplementedError'' then unavailable
      else failure ''INSUFFICIENT_EVIDENCE'' True (QueryFailed metric_id text'))"

text \<open>\<^verbatim>\<open>Scratchpad.note\<close>: one line per fact, the oldest dropped beyond thirty.\<close>

definition add_note :: "string \<Rightarrow> string list \<Rightarrow> string list" where
  "add_note text' notes =
     (let line = join '' '' (split_words text') in
      if line = [] \<or> line \<in> set notes then notes
      else let more = notes @ [line] in if 30 < length more then tl more else more)"

section \<open>Fetching\<close>

definition cache_key :: "semantic_env \<Rightarrow> string \<Rightarrow> json_obj \<Rightarrow> string" where
  "cache_key env capability arguments = capability @ '':'' @ sq_dumps env (JObj arguments)"

definition exhausted_reply :: "budget_tracker \<Rightarrow> json_obj" where
  "exhausted_reply t = [(''error'', JStr (''Cube query budget exhausted for this mission (cube_queries would exceed its limit (''
     @ int_str (max_cube_queries (bt_limits t)) @ '')). Do not fetch any more data -- write your final_response now using ''
     @ ''the evidence you already have, and say plainly if that isn't enough.''))]"

definition spend_query :: "semantic_state \<Rightarrow> bool \<times> semantic_state" where
  "spend_query st =
     (case consume (ss_budget st) ''cube_queries'' 1 of
        (Inr v, t) \<Rightarrow> (bv_ok v, st\<lparr>ss_budget := t\<rparr>) | (Inl e, t) \<Rightarrow> (False, st))"

definition error_of :: "semantic_env \<Rightarrow> json_obj \<Rightarrow> string" where
  "error_of env reply = py_str (sq_text env) (json_or (obj_get reply ''error'') (JStr []))"

definition reply_key :: "semantic_env \<Rightarrow> json_obj \<Rightarrow> string" where
  "reply_key env arguments = cache_key env ''seleric.metrics_query'' arguments"

definition ask_server :: "semantic_env \<Rightarrow> json_obj \<Rightarrow> json_obj" where
  "ask_server env arguments = call_metrics_query (sq_error_text env) (sq_call env) ''v3_agent'' arguments"

definition cached_metrics_query :: "semantic_env \<Rightarrow> json_obj \<Rightarrow> semantic_state \<Rightarrow> json_obj \<times> semantic_state" where
  "cached_metrics_query env arguments st =
     (case dict_get (ss_replies st) (reply_key env arguments) of
        Some reply \<Rightarrow> (reply, st)
      | None \<Rightarrow>
          (case spend_query st of
             (False, st1) \<Rightarrow>
               (exhausted_reply (ss_budget st1),
                st1\<lparr>ss_counts := withdraw_tool [''query_metrics'', ''drilldown''] (ss_counts st1)\<rparr>)
           | (True, st1) \<Rightarrow>
               (let reply = ask_server env arguments;
                    st2 = st1\<lparr>ss_replies := dict_set (ss_replies st1) (reply_key env arguments) reply\<rparr> in
                (reply, if str_startswith (error_of env reply) ''NotImplementedError''
                  then st2\<lparr>ss_counts := dict_set (ss_counts st2) ''live_data_unavailable'' 1\<rparr> else st2))))"

text \<open>\<^verbatim>\<open>_reject_unknown_metric\<close> and \<^verbatim>\<open>_reject_incompatible_dimensions\<close>: the names to try instead, if any.\<close>

definition reject_unknown_metric :: "semantic_env \<Rightarrow> string \<Rightarrow> string list result" where
  "reject_unknown_metric env metric_id =
     (if sq_catalogue env = [] \<or> has_metric (sq_catalogue env) metric_id then Inr []
      else closest_metric_ids (sq_close env) (sq_text env) (sq_catalogue env) metric_id)"

definition alternatives :: "metric_meta list \<Rightarrow> string \<Rightarrow> string \<Rightarrow> string list" where
  "alternatives catalogue metric_id key = filter (\<lambda>m. m \<noteq> metric_id) (metrics_supporting_dimension catalogue key)"

definition reject_incompatible_dimensions :: "metric_meta list \<Rightarrow> string \<Rightarrow> string list \<Rightarrow> string list" where
  "reject_incompatible_dimensions catalogue metric_id keys =
     (let supported = supported_dimensions_for catalogue metric_id in
      if catalogue = [] \<or> supported = [] then []
      else case find (\<lambda>k. k \<notin> set supported \<and> alternatives catalogue metric_id k \<noteq> []) keys of
        Some k \<Rightarrow> alternatives catalogue metric_id k | None \<Rightarrow> [])"

definition top_n_sort :: "string \<Rightarrow> string option \<Rightarrow> json_obj list" where
  "top_n_sort metric_id order = (case order of
     Some d \<Rightarrow> if d \<in> {''desc'', ''asc''} then [[(''field'', JStr metric_id), (''direction'', JStr d)]] else []
   | None \<Rightarrow> [])"

definition period_end :: "semantic_env \<Rightarrow> metric_request \<Rightarrow> date_time" where
  "period_end env rq = given (sq_as_of env) (qr_end rq)"

definition period_start :: "semantic_env \<Rightarrow> metric_request \<Rightarrow> date_time" where
  "period_start env rq = given (period_end env rq) (qr_start rq)"

definition day_text :: "date_time \<Rightarrow> string" where
  "day_text t = isoformat (dm_date t)"

definition metric_query :: "semantic_env \<Rightarrow> metric_request \<Rightarrow> dimension_values \<Rightarrow> dim_filter list \<Rightarrow> metrics_query" where
  "metric_query env rq dims filters =
     \<lparr>mq_measure = qr_metric_id rq, mq_start = day_text (period_start env rq), mq_end = day_text (period_end env rq),
      mq_grain = (if qr_grain rq = ''none'' then None else Some (qr_grain rq)), mq_dimensions = breakdown_keys dims,
      mq_filters = map equals_filter filters, mq_limit = qr_limit rq, mq_sort = top_n_sort (qr_metric_id rq) (qr_order rq),
      mq_compare_period = None, mq_module = None,
      mq_inject_default_brand = supports_brand (sq_catalogue env) (qr_metric_id rq)\<rparr>"

definition query_args :: "semantic_env \<Rightarrow> metric_request \<Rightarrow> dim_filter list \<Rightarrow> json_obj" where
  "query_args env rq filters =
     build_metrics_query_args (sq_text env) (metric_query env rq (sanitize_dimensions (qr_dimensions rq)) filters)"

text \<open>The filters without those of a brand; the first question, and the second when the brand is unknown.\<close>

definition without_brands :: "dim_filter list \<Rightarrow> dim_filter list" where
  "without_brands fs = filter (\<lambda>f. \<not> names_brand f) fs"

definition refuses_brand :: "semantic_env \<Rightarrow> json_obj \<Rightarrow> bool" where
  "refuses_brand env reply = (truthy (obj_get reply ''error'') \<and> unknown_brand_error (error_of env reply))"

definition asked_filters :: "metric_request \<Rightarrow> dim_filter list" where
  "asked_filters rq = value_filters (sanitize_dimensions (qr_dimensions rq))"

definition fetch_metric ::
  "semantic_env \<Rightarrow> metric_request \<Rightarrow> semantic_state \<Rightarrow> dim_filter list \<times> json_obj \<times> semantic_state" where
  "fetch_metric env rq st =
     (let fs = asked_filters rq; (reply, st1) = cached_metrics_query env (query_args env rq fs) st in
      if refuses_brand env reply \<and> length (without_brands fs) \<noteq> length fs
      then (let (reply', st2) = cached_metrics_query env (query_args env rq (without_brands fs)) st1 in
            (without_brands fs, reply', st2))
      else (fs, reply, st1))"

section \<open>Evidence\<close>

definition reply_provenance :: "json_obj \<Rightarrow> json_obj result" where
  "reply_provenance reply =
     (case dict_get reply ''provenance'' of
        None \<Rightarrow> Inr [] | Some (JObj d) \<Rightarrow> Inr d
      | Some _ \<Rightarrow> Inl (RuntimeError ''AttributeError: provenance has no get''))"

definition query_provenance :: "semantic_env \<Rightarrow> json_obj \<Rightarrow> artifact_provenance" where
  "query_provenance env prov = no_provenance
     \<lparr>prov_query_version := Some (py_str (sq_text env) (json_or (obj_get prov ''query_id'') (JStr []))),
      prov_source_metadata := prov\<rparr>"

text \<open>\<^verbatim>\<open>_bucket_end\<close>, and the window of a row: its bucket, or the period asked for.\<close>

definition bucket_end :: "date \<Rightarrow> string \<Rightarrow> date result" where
  "bucket_end d grain =
     (if grain = ''week'' then add_days d 6
      else if grain = ''month'' then Inr (d\<lparr>dt_day := month_length (dt_year d) (dt_month d)\<rparr>)
      else Inr d)"

definition row_window :: "semantic_env \<Rightarrow> metric_request \<Rightarrow> string option \<Rightarrow> (date_time \<times> date_time) result" where
  "row_window env rq bucket =
     (case bucket of
        None \<Rightarrow> Inr (period_start env rq, period_end env rq)
      | Some b \<Rightarrow>
          result_bind (fromisoformat b) (\<lambda>d. result_bind (bucket_end d (qr_grain rq)) (\<lambda>e.
            let zone = dm_zone (period_start env rq) in
            Inr (\<lparr>dm_date = d, dm_time = 0, dm_zone = zone\<rparr>, \<lparr>dm_date = e, dm_time = 0, dm_zone = zone\<rparr>))))"

text \<open>The dimensions of a row: the values asked for, and the group the row itself names.\<close>

definition asked_dimensions :: "dimension_values \<Rightarrow> (string, string) dict" where
  "asked_dimensions dims = map (\<lambda>kv. (fst kv, dim_text (snd kv))) (filter (\<lambda>kv. dim_truthy (snd kv)) dims)"

definition evidence_dimensions :: "(json \<Rightarrow> string) \<Rightarrow> dimension_values \<Rightarrow> json_obj \<Rightarrow> (string, string) dict" where
  "evidence_dimensions sv dims row =
     foldl (\<lambda>d k. dict_set d k (py_str sv (row_dimension row k))) (asked_dimensions dims) (breakdown_keys dims)"

definition later :: "date \<Rightarrow> date \<Rightarrow> date" where
  "later a b = (if to_ordinal a < to_ordinal b then b else a)"

definition earlier :: "date \<Rightarrow> date \<Rightarrow> date" where
  "earlier a b = (if to_ordinal b < to_ordinal a then b else a)"

definition span_text :: "date \<Rightarrow> date \<Rightarrow> string" where
  "span_text a b = isoformat a @ ''..'' @ isoformat b"

definition row_label ::
  "date_time \<times> date_time \<Rightarrow> date_time \<times> date_time \<Rightarrow> string \<Rightarrow> string option \<Rightarrow> (string, string) dict \<Rightarrow> string" where
  "row_label period window grain bucket dims =
     (let s = dm_date (fst window); e = dm_date (snd window);
          cs = later s (dm_date (fst period)); ce = earlier e (dm_date (snd period)) in
      case bucket of
        Some b \<Rightarrow>
          if grain \<in> {''week'', ''month''}
          then span_text s e @ (if (cs, ce) \<noteq> (s, e) then '' (PARTIAL '' @ grain @ '': only '' @ span_text cs ce @ '')'' else [])
          else b
      | None \<Rightarrow>
          if dims \<noteq> [] then join '', '' (map (\<lambda>kv. fst kv @ ''='' @ snd kv) dims) else span_text s e)"

record row_evidence =
  re_payload :: json_obj
  re_source :: string
  re_label :: string
  re_value :: rat

text \<open>\<^verbatim>\<open>EvidenceArtifact(...).model_dump(mode="json")\<close>; a grain it does not know is refused.\<close>

definition row_payload ::
  "semantic_env \<Rightarrow> metric_request \<Rightarrow> json_obj \<Rightarrow> string \<Rightarrow> (string, string) dict \<Rightarrow> date_time \<times> date_time \<Rightarrow> rat \<Rightarrow> json_obj" where
  "row_payload env rq args currency dims window value =
     [(''metric_id'', JStr (qr_metric_id rq)), (''dimensions'', JObj (map (\<lambda>kv. (fst kv, JStr (snd kv))) dims)),
      (''grain'', JStr (qr_grain rq)), (''as_of'', JStr (sq_stamp env (sq_as_of env))),
      (''period_start'', JStr (sq_stamp env (fst window))), (''period_end'', JStr (sq_stamp env (snd window))),
      (''value'', JNum value), (''unit'', if currency = [] then JNull else JStr currency),
      (''source_query'', JObj args), (''fetched_at'', JStr (sq_fetched_at env))]"

definition row_bucket :: "metric_request \<Rightarrow> json_obj \<Rightarrow> string option" where
  "row_bucket rq row = (if qr_grain rq \<noteq> ''none'' then row_date row else None)"

definition evidence_of_row ::
  "semantic_env \<Rightarrow> metric_request \<Rightarrow> json_obj \<Rightarrow> json_obj \<Rightarrow> json_obj \<Rightarrow> row_evidence option result" where
  "evidence_of_row env rq args prov row =
     (let grain = qr_grain rq; v = obj_get row (qr_metric_id rq);
          bucket = row_bucket rq row;
          currency = str_strip (py_str (sq_text env) (json_or (obj_get prov ''currency'') (JStr [])));
          dims = evidence_dimensions (sq_text env) (sanitize_dimensions (qr_dimensions rq)) row in
      if v = JNull then Inr None
      else result_bind (to_float (sq_float env) v) (\<lambda>value.
           result_bind (row_window env rq bucket) (\<lambda>window.
             if grain \<notin> {''day'', ''week'', ''month'', ''none''} then Inl (ValueError ''grain'')
             else Inr (Some \<lparr>re_payload = row_payload env rq args currency dims window value,
               re_source = ''raw:'' @ qr_metric_id rq @ '':'' @ day_text (fst window) @ '':'' @ day_text (snd window),
               re_label = row_label (period_start env rq, period_end env rq) window grain bucket dims,
               re_value = value\<rparr>))))"

definition evidence_artifact :: "semantic_env \<Rightarrow> json_obj \<Rightarrow> string \<Rightarrow> row_evidence \<Rightarrow> artifact" where
  "evidence_artifact env prov aid e =
     \<lparr>art_id = aid, art_workspace_id = sq_workspace env, art_artifact_type = ''evidence'',
      art_payload = re_payload e, art_classification = Factual, art_evidence_ids = [re_source e],
      art_provenance = query_provenance env prov, art_mission_id = Some (sq_mission env),
      art_thread_id = None, art_run_id = None, art_message_id = None, art_created_at = sq_now env\<rparr>"

definition put_evidence ::
  "semantic_env \<Rightarrow> json_obj \<Rightarrow> row_evidence \<Rightarrow> semantic_state \<Rightarrow> string result \<times> semantic_state" where
  "put_evidence env prov e st =
     (let st' = st\<lparr>ss_drawn := ss_drawn st + 1\<rparr> in
      case validate_classification_boundary (evidence_artifact env prov (sq_ids env (ss_drawn st)) e) of
        Inl x \<Rightarrow> (Inl x, st')
      | Inr a \<Rightarrow>
          (case artifact_store_put a (ss_store st') of
             (Inl x, s) \<Rightarrow> (Inl x, st'\<lparr>ss_store := s\<rparr>)
           | (Inr stored, s) \<Rightarrow> (Inr (art_id stored), st'\<lparr>ss_store := s\<rparr>)))"

text \<open>The rows that have a value, in order: the artifact of each, its label and its value.\<close>

fun write_rows ::
  "semantic_env \<Rightarrow> metric_request \<Rightarrow> json_obj \<Rightarrow> json_obj \<Rightarrow> json list \<Rightarrow> semantic_state
     \<Rightarrow> (string \<times> string \<times> rat) list result \<times> semantic_state" where
  "write_rows env rq args prov [] st = (Inr [], st)"
| "write_rows env rq args prov (JObj row # rows) st =
     (case evidence_of_row env rq args prov row of
        Inl x \<Rightarrow> (Inl x, st)
      | Inr None \<Rightarrow> write_rows env rq args prov rows st
      | Inr (Some e) \<Rightarrow>
          (case put_evidence env prov e st of
             (Inl x, st') \<Rightarrow> (Inl x, st')
           | (Inr aid, st') \<Rightarrow>
               (case write_rows env rq args prov rows st' of
                  (Inl x, st'') \<Rightarrow> (Inl x, st'')
                | (Inr ws, st'') \<Rightarrow> (Inr ((aid, re_label e, re_value e) # ws), st''))))"
| "write_rows env rq args prov (_ # rows) st = (Inl (RuntimeError ''AttributeError: the row has no get''), st)"

definition is_row :: "json \<Rightarrow> bool" where
  "is_row j = (case j of JObj d \<Rightarrow> True | _ \<Rightarrow> False)"

text \<open>\<^verbatim>\<open>ToolResult.warnings\<close> takes texts only.\<close>

definition warning_texts :: "json \<Rightarrow> string list result" where
  "warning_texts w =
     result_bind (py_list (json_or w (JList []))) (\<lambda>xs.
       if list_all (\<lambda>x. case x of JStr s \<Rightarrow> True | _ \<Rightarrow> False) xs then Inr (json_texts xs)
       else Inl (ValueError ''warnings''))"

definition series_json :: "(string \<times> rat) list \<Rightarrow> json" where
  "series_json series = JList (map (\<lambda>(l, v). JObj [(''label'', JStr l), (''value'', JNum v)]) series)"

definition period_texts :: "semantic_env \<Rightarrow> metric_request \<Rightarrow> (string \<Rightarrow> string \<Rightarrow> string \<Rightarrow> 'a) \<Rightarrow> 'a" where
  "period_texts env rq f = f (qr_metric_id rq) (day_text (period_start env rq)) (day_text (period_end env rq))"

definition evidence_reply ::
  "semantic_env \<Rightarrow> json_obj \<Rightarrow> (string \<times> string \<times> rat) list \<Rightarrow> tool_summary \<Rightarrow> string list \<Rightarrow> semantic_reply" where
  "evidence_reply env prov written summary warnings =
     \<lparr>sy_success = True, sy_artifact_ids = map fst written, sy_summary = summary, sy_error_code = None,
      sy_retryable = False,
      sy_provenance = (query_provenance env prov)
        \<lparr>prov_source_metadata := dict_set prov ''series'' (series_json (map snd written))\<rparr>,
      sy_warnings = warnings\<rparr>"

definition write_evidence ::
  "semantic_env \<Rightarrow> metric_request \<Rightarrow> json_obj \<Rightarrow> json_obj \<Rightarrow> json_obj \<Rightarrow> json list \<Rightarrow> semantic_state
     \<Rightarrow> semantic_reply result \<times> semantic_state" where
  "write_evidence env rq args reply prov rows st =
     (if qr_grain rq \<noteq> ''none'' \<and> \<not> list_all is_row rows
      then (Inl (RuntimeError ''AttributeError: the row has no items''), st)
      else case write_rows env rq args prov rows st of
        (Inl x, st') \<Rightarrow> (Inl x, st')
      | (Inr [], st') \<Rightarrow> (Inr (failure ''INSUFFICIENT_EVIDENCE'' False (period_texts env rq NoUsableValue)), st')
      | (Inr written, st') \<Rightarrow>
          (let summary = period_texts env rq Values (map snd written);
               st'' = st'\<lparr>ss_notes := add_note (sq_render env summary) (ss_notes st')\<rparr> in
           case warning_texts (obj_get reply ''warnings'') of
             Inl x \<Rightarrow> (Inl x, st'')
           | Inr warnings \<Rightarrow> (Inr (evidence_reply env prov written summary warnings), st'')))"

text \<open>A result of the same query is reused; otherwise the rows are written and the result remembered.\<close>

definition result_key :: "semantic_env \<Rightarrow> json_obj \<Rightarrow> string" where
  "result_key env args = cache_key env ''query_metrics_result'' args"

definition count_repeat :: "string \<Rightarrow> call_counts \<Rightarrow> call_counts" where
  "count_repeat key counts = dict_set counts (''dup:'' @ key) (given 0 (dict_get counts (''dup:'' @ key)) + 1)"

definition answer_rows ::
  "semantic_env \<Rightarrow> metric_request \<Rightarrow> json_obj \<Rightarrow> json_obj \<Rightarrow> semantic_state \<Rightarrow> tool_outcome \<times> semantic_state" where
  "answer_rows env rq args reply st =
     (case reply_provenance reply of
        Inl x \<Rightarrow> (Raised x, st)
      | Inr prov \<Rightarrow>
          (case dict_get (ss_results st) (result_key env args) of
             Some prior \<Rightarrow>
               (if sy_success prior
                then (Answered (prior\<lparr>sy_summary := AlreadyFetched (sy_summary prior)\<rparr>),
                  st\<lparr>ss_counts := count_repeat (result_key env args) (ss_counts st)\<rparr>)
                else (Answered prior, st))
           | None \<Rightarrow>
               (case py_list (json_or (obj_get reply ''rows'') (JList [])) of
                  Inl x \<Rightarrow> (Raised x, st)
                | Inr rows \<Rightarrow>
                    (case write_evidence env rq args reply prov rows st of
                       (Inl x, st') \<Rightarrow> (Raised x, st')
                     | (Inr r, st') \<Rightarrow> (Answered r, st'\<lparr>ss_results := dict_set (ss_results st') (result_key env args) r\<rparr>)))))"

section \<open>The tool\<close>

text \<open>\<^verbatim>\<open>_suggest_close_values\<close>: the values that exist, near to those asked for, by dimension.\<close>

definition probe_args :: "semantic_env \<Rightarrow> metric_request \<Rightarrow> dim_filter list \<Rightarrow> json_obj" where
  "probe_args env rq fs =
     build_metrics_query_args (sq_text env)
       \<lparr>mq_measure = qr_metric_id rq, mq_start = day_text (period_start env rq), mq_end = day_text (period_end env rq),
        mq_grain = None, mq_dimensions = map fst fs, mq_filters = [], mq_limit = Some 200, mq_sort = [],
        mq_compare_period = None, mq_module = None, mq_inject_default_brand = True\<rparr>"

definition existing_values :: "(json \<Rightarrow> string) \<Rightarrow> json_obj list \<Rightarrow> string \<Rightarrow> string list" where
  "existing_values sv rows dim_id =
     sort (dedupe (filter (\<lambda>v. v \<notin> {''None'', []}) (map (\<lambda>row. py_str sv (row_dimension row dim_id)) rows)))"

definition close_values :: "semantic_env \<Rightarrow> json_obj list \<Rightarrow> dim_filter \<Rightarrow> string list" where
  "close_values env rows f = sq_close env 3 (3 / 5) (hd (snd f @ [[]])) (existing_values (sq_text env) rows (fst f))"

definition suggest_close_values ::
  "semantic_env \<Rightarrow> metric_request \<Rightarrow> dim_filter list \<Rightarrow> semantic_state
     \<Rightarrow> (string \<times> string list) list result \<times> semantic_state" where
  "suggest_close_values env rq fs st =
     (let (reply, st') = cached_metrics_query env (probe_args env rq fs) st in
      if truthy (obj_get reply ''error'') then (Inr [], st')
      else case py_list (json_or (obj_get reply ''rows'') (JList [])) of
        Inl x \<Rightarrow> (Inl x, st')
      | Inr rows \<Rightarrow>
          if \<not> list_all is_row rows then (Inl (TypeError ''the row is not a mapping''), st')
          else (let objs = concat (map (\<lambda>j. case j of JObj d \<Rightarrow> [d] | _ \<Rightarrow> []) rows) in
            (Inr (filter (\<lambda>s. snd s \<noteq> []) (map (\<lambda>f. (fst f, close_values env objs f)) fs)), st')))"

definition no_rows ::
  "semantic_env \<Rightarrow> metric_request \<Rightarrow> dim_filter list \<Rightarrow> semantic_state \<Rightarrow> tool_outcome \<times> semantic_state" where
  "no_rows env rq fs st =
     (case (if without_brands fs = [] then (Inr [], st) else suggest_close_values env rq (without_brands fs) st) of
        (Inl x, st') \<Rightarrow> (Raised x, st')
      | (Inr hints, st') \<Rightarrow> (Answered (failure ''INSUFFICIENT_EVIDENCE'' False (period_texts env rq NoData hints)), st'))"

definition refused_query :: "semantic_env \<Rightarrow> metric_request \<Rightarrow> json_obj \<Rightarrow> semantic_reply" where
  "refused_query env rq reply =
     (let e = error_of env reply in
      if unknown_dimension_error e \<and> \<not> unknown_brand_error e
      then failure ''UNSUPPORTED_QUERY'' False (QueryFailed (qr_metric_id rq) e)
      else fetch_failure (qr_metric_id rq) e)"

definition answer_query ::
  "semantic_env \<Rightarrow> metric_request \<Rightarrow> dim_filter list \<Rightarrow> json_obj \<Rightarrow> semantic_state \<Rightarrow> tool_outcome \<times> semantic_state" where
  "answer_query env rq fs reply st =
     (if truthy (obj_get reply ''error'') then (Answered (refused_query env rq reply), st)
      else if truthy (obj_get reply ''value_not_found'')
      then (Answered (failure ''VALUE_NOT_FOUND'' False (ValueNotFound (qr_metric_id rq) (obj_get reply ''value_not_found''))), st)
      else if \<not> truthy (obj_get reply ''rows'') then no_rows env rq fs st
      else answer_rows env rq (query_args env rq fs) reply st)"

definition query_metrics :: "semantic_env \<Rightarrow> metric_request \<Rightarrow> semantic_state \<Rightarrow> tool_outcome \<times> semantic_state" where
  "query_metrics env rq st =
     (case reject_unknown_metric env (qr_metric_id rq) of
        Inl x \<Rightarrow> (Raised x, st)
      | Inr (c # cs) \<Rightarrow> (ModelRetry (c # cs), st)
      | Inr [] \<Rightarrow>
          (case reject_incompatible_dimensions (sq_catalogue env) (qr_metric_id rq)
              (map fst (sanitize_dimensions (qr_dimensions rq))) of
             c # cs \<Rightarrow> (ModelRetry (c # cs), st)
           | [] \<Rightarrow> (let (fs, reply, st') = fetch_metric env rq st in answer_query env rq fs reply st')))"

section \<open>What a fetch leaves behind\<close>

text \<open>
  A question is settled with a reply when the reply is in the cache, or when nothing is and the budget
  is spent. A settled question is answered the same way whatever the server would say by now.
\<close>

definition reply_settled :: "semantic_env \<Rightarrow> json_obj \<Rightarrow> json_obj \<Rightarrow> semantic_state \<Rightarrow> bool" where
  "reply_settled env args reply st =
     (dict_get (ss_replies st) (reply_key env args) = Some reply
      \<or> dict_get (ss_replies st) (reply_key env args) = None \<and> reply = exhausted_reply (ss_budget st)
        \<and> max_cube_queries (bt_limits (ss_budget st)) < bt_cube_queries (ss_budget st) + 1)"

text \<open>Two states that differ in the call counts only, or not at all.\<close>

definition same_but_counts :: "semantic_state \<Rightarrow> semantic_state \<Rightarrow> bool" where
  "same_but_counts a b = (a\<lparr>ss_counts := ss_counts b\<rparr> = b)"

lemma same_but_counts_iff:
  "same_but_counts a b \<longleftrightarrow> ss_store a = ss_store b \<and> ss_drawn a = ss_drawn b \<and> ss_replies a = ss_replies b
     \<and> ss_results a = ss_results b \<and> ss_budget a = ss_budget b \<and> ss_notes a = ss_notes b"
  by (cases a; cases b) (auto simp: same_but_counts_def)

lemma same_but_counts_refl [simp]: "same_but_counts a a"
  and same_but_counts_set [simp]: "same_but_counts (a\<lparr>ss_counts := c\<rparr>) b = same_but_counts a b"
    "same_but_counts a (b\<lparr>ss_counts := c\<rparr>) = same_but_counts a b"
  by (simp_all add: same_but_counts_iff)

lemma same_but_counts_trans: "same_but_counts a b \<Longrightarrow> same_but_counts b c \<Longrightarrow> same_but_counts a c"
  by (simp add: same_but_counts_iff)

lemma settled_server [simp]: "reply_settled (env\<lparr>sq_call := server\<rparr>) args reply st = reply_settled env args reply st"
  by (simp add: reply_settled_def reply_key_def cache_key_def)

lemma spend_query_eq:
  "spend_query st =
     (if max_cube_queries (bt_limits (ss_budget st)) < bt_cube_queries (ss_budget st) + 1 then (False, st)
      else (True, st\<lparr>ss_budget := (ss_budget st)\<lparr>bt_cube_queries := bt_cube_queries (ss_budget st) + 1\<rparr>\<rparr>))"
  by (simp add: spend_query_def consume_def counters_def get_counter_def get_limit_def set_counter_def
      budget_exceeded_def budget_ok_def Let_def)

text \<open>A fetch touches the replies, the budget and the counts.\<close>

lemma cached_frame:
  assumes "cached_metrics_query env args st = (reply, st')"
  shows "ss_store st' = ss_store st \<and> ss_drawn st' = ss_drawn st \<and> ss_results st' = ss_results st \<and> ss_notes st' = ss_notes st"
  using assms by (auto simp: cached_metrics_query_def spend_query_eq Let_def split: option.splits if_splits)

lemma cached_settles:
  assumes "cached_metrics_query env args st = (reply, st')"
  shows "reply_settled env args reply st'"
  using assms
  by (auto simp: cached_metrics_query_def reply_settled_def spend_query_eq Let_def split: option.splits if_splits)

lemma cached_keeps_settled:
  assumes "cached_metrics_query env args st = (reply, st')" "reply_settled env args0 reply0 st"
  shows "reply_settled env args0 reply0 st'"
  using assms
  by (auto simp: cached_metrics_query_def reply_settled_def spend_query_eq Let_def split: option.splits if_splits)

lemma settled_is_answered:
  assumes "reply_settled env args reply st"
  shows "\<exists>c. cached_metrics_query env args st = (reply, st\<lparr>ss_counts := c\<rparr>)"
  using assms
  by (auto simp: cached_metrics_query_def reply_settled_def spend_query_eq intro: exI [of _ "ss_counts st"])

lemma fetch_settles:
  assumes f: "fetch_metric env rq st = (fs, reply, st1)" and kept: "ss_replies st2 = ss_replies st1" "ss_budget st2 = ss_budget st1"
  shows "\<exists>c. fetch_metric (env\<lparr>sq_call := server\<rparr>) rq st2 = (fs, reply, st2\<lparr>ss_counts := c\<rparr>)"
proof -
  let ?env = "env\<lparr>sq_call := server\<rparr>" and ?fs = "asked_filters rq"
  have env: "query_args ?env rq fs = query_args env rq fs" "refuses_brand ?env r = refuses_brand env r" for fs r
    by (simp_all add: query_args_def metric_query_def period_start_def period_end_def refuses_brand_def error_of_def)
  have answer: "\<exists>c. cached_metrics_query ?env a (st2\<lparr>ss_counts := d\<rparr>) = (r, st2\<lparr>ss_counts := c\<rparr>)"
    if "reply_settled env a r st1" for a r d
  proof -
    have "reply_settled ?env a r (st2\<lparr>ss_counts := d\<rparr>)" using that kept by (simp add: reply_settled_def reply_key_def cache_key_def)
    from settled_is_answered [OF this] show ?thesis by simp
  qed
  obtain r a where one: "cached_metrics_query env (query_args env rq ?fs) st = (r, a)" by (meson surj_pair)
  show ?thesis
  proof (cases "refuses_brand env r \<and> length (without_brands ?fs) \<noteq> length ?fs")
    case True
    obtain r' b where b: "cached_metrics_query env (query_args env rq (without_brands ?fs)) a = (r', b)" by (meson surj_pair)
    then have res: "fs = without_brands ?fs" "reply = r'" "b = st1"
      using f one True by (simp_all add: fetch_metric_def)
    then have two: "cached_metrics_query env (query_args env rq (without_brands ?fs)) a = (r', st1)" using b by simp
    have "reply_settled env (query_args env rq ?fs) r st1" "reply_settled env (query_args env rq (without_brands ?fs)) r' st1"
      by (rule cached_keeps_settled [OF two cached_settles [OF one]], rule cached_settles [OF two])
    note s = this
    obtain c where
      c: "cached_metrics_query ?env (query_args env rq ?fs) (st2\<lparr>ss_counts := ss_counts st2\<rparr>) = (r, st2\<lparr>ss_counts := c\<rparr>)"
      using answer [OF s(1)] by blast
    moreover obtain c' where
      "cached_metrics_query ?env (query_args env rq (without_brands ?fs)) (st2\<lparr>ss_counts := c\<rparr>) = (r', st2\<lparr>ss_counts := c'\<rparr>)"
      using answer [OF s(2)] by blast
    ultimately show ?thesis using True res by (auto simp: fetch_metric_def env Let_def)
  next
    case False
    then have res: "fs = ?fs" "reply = r" "st1 = a" using f one by (auto simp: fetch_metric_def Let_def)
    have "reply_settled env (query_args env rq ?fs) r st1" using cached_settles [OF one] res by simp
    then obtain c where "cached_metrics_query ?env (query_args env rq ?fs) (st2\<lparr>ss_counts := ss_counts st2\<rparr>) = (r, st2\<lparr>ss_counts := c\<rparr>)"
      using answer by blast
    then have "fetch_metric ?env rq st2 = (fs, reply, st2\<lparr>ss_counts := c\<rparr>)"
      using False res by (auto simp: fetch_metric_def env Let_def)
    then show ?thesis by blast
  qed
qed

lemma fetch_facts:
  assumes "fetch_metric env rq st = (fs, reply, st1)"
  shows "ss_store st1 = ss_store st \<and> ss_drawn st1 = ss_drawn st \<and> ss_results st1 = ss_results st \<and> ss_notes st1 = ss_notes st"
    "reply_settled env (query_args env rq fs) reply st1"
    "fs = asked_filters rq \<or> fs = without_brands (asked_filters rq)"
proof -
  obtain r a where one: "cached_metrics_query env (query_args env rq (asked_filters rq)) st = (r, a)" by (meson surj_pair)
  obtain r' b where two: "cached_metrics_query env (query_args env rq (without_brands (asked_filters rq))) a = (r', b)"
    by (meson surj_pair)
  have "(fs, reply, st1) = (asked_filters rq, r, a) \<or> (fs, reply, st1) = (without_brands (asked_filters rq), r', b)"
    using assms one two by (auto simp: fetch_metric_def Let_def split: if_splits)
  then show "ss_store st1 = ss_store st \<and> ss_drawn st1 = ss_drawn st \<and> ss_results st1 = ss_results st \<and> ss_notes st1 = ss_notes st"
    "reply_settled env (query_args env rq fs) reply st1"
    "fs = asked_filters rq \<or> fs = without_brands (asked_filters rq)"
    using cached_frame [OF one] cached_frame [OF two] cached_settles [OF one] cached_settles [OF two] by auto
qed


lemma exhausted_is_error [simp]: "truthy (obj_get (exhausted_reply t) ''error'')"
  by (simp add: exhausted_reply_def obj_get_def)



section \<open>What is written\<close>

text \<open>Identifiers never drawn twice, and none of those to come in use.\<close>

definition fresh_evidence_ids :: "semantic_env \<Rightarrow> semantic_state \<Rightarrow> bool" where
  "fresh_evidence_ids env st = (inj (sq_ids env)
     \<and> (\<forall>n\<ge>ss_drawn st. dict_get (ss_store st) (sq_ids env n) = None))"

text \<open>The stored form of a piece of evidence: its source also in the provenance.\<close>

definition stored_evidence :: "semantic_env \<Rightarrow> json_obj \<Rightarrow> string \<Rightarrow> row_evidence \<Rightarrow> artifact" where
  "stored_evidence env prov aid e =
     (evidence_artifact env prov aid e)\<lparr>art_provenance := (query_provenance env prov)\<lparr>prov_evidence_ids := [re_source e]\<rparr>\<rparr>"

text \<open>What the rows say: the numbers of the metric's column, where there are any.\<close>

definition row_values :: "semantic_env \<Rightarrow> string \<Rightarrow> json list \<Rightarrow> rat list" where
  "row_values env metric rows = concat (map (\<lambda>j. case j of
     JObj row \<Rightarrow> (if obj_get row metric = JNull then []
       else case to_float (sq_float env) (obj_get row metric) of Inr x \<Rightarrow> [x] | Inl e \<Rightarrow> [])
   | _ \<Rightarrow> []) rows)"

definition states_row :: "semantic_env \<Rightarrow> metric_request \<Rightarrow> json_obj \<Rightarrow> json list \<Rightarrow> json_obj \<Rightarrow> rat \<Rightarrow> bool" where
  "states_row env rq args rows payload value = (\<exists>row currency window. JObj row \<in> set rows
     \<and> to_float (sq_float env) (obj_get row (qr_metric_id rq)) = Inr value
     \<and> row_window env rq (row_bucket rq row) = Inr window
     \<and> payload = row_payload env rq args currency
         (evidence_dimensions (sq_text env) (sanitize_dimensions (qr_dimensions rq)) row) window value)"

definition drawn_evidence_ids :: "semantic_env \<Rightarrow> semantic_state \<Rightarrow> nat \<Rightarrow> string list" where
  "drawn_evidence_ids env st n = map (sq_ids env) [ss_drawn st..<ss_drawn st + n]"

definition after_writing :: "semantic_env \<Rightarrow> json_obj \<Rightarrow> row_evidence list \<Rightarrow> semantic_state \<Rightarrow> semantic_state" where
  "after_writing env prov es st = (let ids = drawn_evidence_ids env st (length es) in
     st\<lparr>ss_drawn := ss_drawn st + length es, ss_store := ss_store st @ zip ids (map2 (stored_evidence env prov) ids es)\<rparr>)"

lemma after_writing_one:
  "after_writing env prov [e] st = st\<lparr>ss_drawn := ss_drawn st + 1, ss_store := ss_store st
     @ [(sq_ids env (ss_drawn st), stored_evidence env prov (sq_ids env (ss_drawn st)) e)]\<rparr>"
  by (simp add: after_writing_def drawn_evidence_ids_def)

lemma put_evidence_fresh:
  assumes "fresh_evidence_ids env st"
  shows "put_evidence env prov e st = (Inr (sq_ids env (ss_drawn st)), after_writing env prov [e] st)"
proof -
  have n: "dict_get (ss_store st) (sq_ids env (ss_drawn st)) = None"
    using assms by (simp add: fresh_evidence_ids_def)
  show ?thesis
    using n
    by (simp add: put_evidence_def Let_def validate_classification_boundary_def evidence_artifact_def all_evidence_ids_def
        query_provenance_def no_provenance_def artifact_store_put_def require_provenance_def stored_evidence_def dict_set_new
        after_writing_def drawn_evidence_ids_def dedupe_def)
qed

lemma fresh_after_writing:
  assumes "fresh_evidence_ids env st"
  shows "fresh_evidence_ids env (after_writing env prov [e] st)"
  using assms by (auto simp: fresh_evidence_ids_def after_writing_def drawn_evidence_ids_def dict_get_None inj_eq)

lemma evidence_of_row_facts:
  "evidence_of_row env rq args prov row = Inr None \<Longrightarrow> obj_get row (qr_metric_id rq) = JNull"
  "evidence_of_row env rq args prov row = Inr (Some e) \<Longrightarrow> obj_get row (qr_metric_id rq) \<noteq> JNull
     \<and> to_float (sq_float env) (obj_get row (qr_metric_id rq)) = Inr (re_value e)
     \<and> (JObj row \<in> set rows \<longrightarrow> states_row env rq args rows (re_payload e) (re_value e))"
  unfolding evidence_of_row_def Let_def states_row_def
  by (auto simp: result_bind_Inr split: if_splits; rule exI [of _ row]; blast)+

lemma states_row_more: "states_row env rq args rows p v \<Longrightarrow> states_row env rq args (j # rows) p v"
  by (auto simp: states_row_def)

text \<open>The rows are written one after the other, each value once.\<close>

lemma write_rows_facts:
  assumes "write_rows env rq args prov rows st = (Inr ws, st')" "fresh_evidence_ids env st"
  shows "\<exists>es. st' = after_writing env prov es st
    \<and> ws = map2 (\<lambda>i e. (i, re_label e, re_value e)) (drawn_evidence_ids env st (length es)) es
    \<and> map re_value es = row_values env (qr_metric_id rq) rows
    \<and> (\<forall>e\<in>set es. states_row env rq args rows (re_payload e) (re_value e))"
  using assms
proof (induction rows arbitrary: st ws st')
  case Nil
  then show ?case by (intro exI [of _ "[]"]) (auto simp: after_writing_def drawn_evidence_ids_def row_values_def)
next
  case (Cons j rows)
  then obtain row where j: "j = JObj row" by (cases j) simp_all
  show ?case
  proof (cases "evidence_of_row env rq args prov row")
    case (Inl x)
    then show ?thesis using Cons.prems(1) j by simp
  next
    case (Inr o1)
    show ?thesis
    proof (cases o1)
      case None
      then have "write_rows env rq args prov rows st = (Inr ws, st')" using Cons.prems(1) j Inr by simp
      from Cons.IH [OF this Cons.prems(2)] show ?thesis
        using evidence_of_row_facts(1) [of env rq args prov row] Inr None j
        by (auto simp: row_values_def intro: states_row_more)
    next
      case (Some e)
      let ?st = "after_writing env prov [e] st"
      have w: "write_rows env rq args prov (j # rows) st = (case write_rows env rq args prov rows ?st of
          (Inl x, st'') \<Rightarrow> (Inl x, st'')
        | (Inr ws, st'') \<Rightarrow> (Inr ((sq_ids env (ss_drawn st), re_label e, re_value e) # ws), st''))"
        using j Inr Some put_evidence_fresh [OF Cons.prems(2), of prov e] by simp
      then obtain ws' where rest: "write_rows env rq args prov rows ?st = (Inr ws', st')"
          "ws = (sq_ids env (ss_drawn st), re_label e, re_value e) # ws'"
        using Cons.prems(1) by (auto split: prod.splits sum.splits)
      obtain es where es: "st' = after_writing env prov es ?st"
          "ws' = map2 (\<lambda>i e. (i, re_label e, re_value e)) (drawn_evidence_ids env ?st (length es)) es"
          "map re_value es = row_values env (qr_metric_id rq) rows"
          "\<forall>e\<in>set es. states_row env rq args rows (re_payload e) (re_value e)"
        using Cons.IH [OF rest(1) fresh_after_writing [OF Cons.prems(2)]] by blast
      have ids: "drawn_evidence_ids env st (length (e # es)) = sq_ids env (ss_drawn st) # drawn_evidence_ids env ?st (length es)"
        by (simp add: drawn_evidence_ids_def after_writing_def upt_conv_Cons del: upt_Suc)
      have "after_writing env prov (e # es) st = after_writing env prov es ?st"
        unfolding after_writing_def [of env prov "e # es"] ids Let_def
        by (simp add: after_writing_one after_writing_def [of env prov es] drawn_evidence_ids_def Let_def del: upt_Suc)
      moreover have "map re_value (e # es) = row_values env (qr_metric_id rq) (j # rows)"
        using evidence_of_row_facts(2) [of env rq args prov row e rows] Inr Some j es(3) by (simp add: row_values_def)
      moreover have "states_row env rq args (j # rows) (re_payload e) (re_value e)"
        using evidence_of_row_facts(2) [of env rq args prov row e "j # rows"] Inr Some j by simp
      ultimately show ?thesis
        using es rest(2) by (intro exI [of _ "e # es"]) (auto simp: ids [unfolded length_Cons] intro: states_row_more)
    qed
  qed
qed

text \<open>How a call that succeeds ends: it repeats a result, or writes one.\<close>

lemma write_evidence_facts:
  assumes w: "write_evidence env rq args reply prov rows st = (Inr r, st')" and fresh: "fresh_evidence_ids env st"
  shows "\<not> sy_retryable r \<and> (\<forall>s. sy_summary r \<noteq> AlreadyFetched s)
    \<and> (sy_success r \<longrightarrow> (\<exists>es. sy_artifact_ids r = drawn_evidence_ids env st (length es)
        \<and> st' = (after_writing env prov es st)\<lparr>ss_notes := ss_notes st'\<rparr>
        \<and> map re_value es = row_values env (qr_metric_id rq) rows
        \<and> (\<forall>e\<in>set es. states_row env rq args rows (re_payload e) (re_value e))))"
proof -
  obtain ws a where one: "write_rows env rq args prov rows st = (Inr ws, a)"
    using w by (auto simp: write_evidence_def split: if_splits prod.splits sum.splits)
  obtain es where es: "a = after_writing env prov es st"
      "ws = map2 (\<lambda>i e. (i, re_label e, re_value e)) (drawn_evidence_ids env st (length es)) es"
      "map re_value es = row_values env (qr_metric_id rq) rows"
      "\<forall>e\<in>set es. states_row env rq args rows (re_payload e) (re_value e)"
    using write_rows_facts [OF one fresh] by blast
  have ids: "map fst ws = drawn_evidence_ids env st (length es)"
    by (simp add: es(2) comp_def case_prod_beta drawn_evidence_ids_def map_fst_zip)
  show ?thesis
  proof (cases ws)
    case Nil
    then show ?thesis using w one
      by (auto simp: write_evidence_def failure_def period_texts_def split: if_splits)
  next
    case (Cons x xs)
    then obtain warnings where r: "r = evidence_reply env prov ws (period_texts env rq Values (map snd ws)) warnings"
        "st' = a\<lparr>ss_notes := add_note (sq_render env (period_texts env rq Values (map snd ws))) (ss_notes a)\<rparr>"
      using w one by (auto simp: write_evidence_def Let_def split: if_splits sum.splits)
    then show ?thesis using ids es by (auto simp: evidence_reply_def period_texts_def)
  qed
qed

lemma query_metrics_answers:
  assumes "query_metrics env rq st = (Answered r, st')"
  obtains fs reply st1 where "reject_unknown_metric env (qr_metric_id rq) = Inr []"
    "reject_incompatible_dimensions (sq_catalogue env) (qr_metric_id rq)
        (map fst (sanitize_dimensions (qr_dimensions rq))) = []"
    "fetch_metric env rq st = (fs, reply, st1)" "answer_query env rq fs reply st1 = (Answered r, st')"
  using assms by (auto simp: query_metrics_def split: sum.splits list.splits prod.splits)

text \<open>What an answer is: one that leaves the state alone, a repeated one, or one just written.\<close>

lemma no_rows_facts:
  assumes "no_rows env rq fs st = (Answered r, st')"
  shows "\<not> sy_success r \<and> \<not> sy_retryable r"
  using assms by (auto simp: no_rows_def failure_def split: prod.splits sum.splits)

lemma answer_query_cases:
  assumes "answer_query env rq fs reply st = (Answered r, st')"
  obtains (refused) "truthy (obj_get reply ''error'')" "r = refused_query env rq reply" "st' = st"
  | (empty) "\<not> truthy (obj_get reply ''error'')" "\<not> sy_success r" "\<not> sy_retryable r"
  | (repeated) prov prior where "\<not> truthy (obj_get reply ''error'')" "\<not> truthy (obj_get reply ''value_not_found'')"
      "truthy (obj_get reply ''rows'')" "reply_provenance reply = Inr prov"
      "dict_get (ss_results st) (result_key env (query_args env rq fs)) = Some prior"
      "r = (if sy_success prior then prior\<lparr>sy_summary := AlreadyFetched (sy_summary prior)\<rparr> else prior)"
      "same_but_counts st st'"
  | (written) prov rows a where "\<not> truthy (obj_get reply ''error'')" "\<not> truthy (obj_get reply ''value_not_found'')"
      "truthy (obj_get reply ''rows'')" "reply_provenance reply = Inr prov"
      "dict_get (ss_results st) (result_key env (query_args env rq fs)) = None"
      "py_list (obj_get reply ''rows'') = Inr rows"
      "write_evidence env rq (query_args env rq fs) reply prov rows st = (Inr r, a)"
      "st' = a\<lparr>ss_results := dict_set (ss_results a) (result_key env (query_args env rq fs)) r\<rparr>"
proof (cases "truthy (obj_get reply ''error'')")
  case True
  then show ?thesis using assms refused by (simp add: answer_query_def)
next
  case ok: False
  show ?thesis
  proof (cases "truthy (obj_get reply ''value_not_found'')")
    case True
    then show ?thesis using assms ok by (intro empty) (auto simp: answer_query_def failure_def)
  next
    case found: False
    show ?thesis
    proof (cases "truthy (obj_get reply ''rows'')")
      case False
      then show ?thesis using assms ok found no_rows_facts [of env rq fs st r st'] by (intro empty) (auto simp: answer_query_def)
    next
      case rows: True
      then have a: "answer_rows env rq (query_args env rq fs) reply st = (Answered r, st')"
        using assms ok found by (simp add: answer_query_def)
      then obtain prov where p: "reply_provenance reply = Inr prov" by (auto simp: answer_rows_def split: sum.splits)
      show ?thesis
      proof (cases "dict_get (ss_results st) (result_key env (query_args env rq fs))")
        case None
        have "py_list (json_or (obj_get reply ''rows'') (JList [])) = py_list (obj_get reply ''rows'')"
          using rows by (simp add: json_or_def)
        then show ?thesis using a p None written [OF ok found rows p None]
          by (auto simp: answer_rows_def split: sum.splits prod.splits)
      next
        case (Some prior)
        then show ?thesis using a p repeated [OF ok found rows p Some]
          by (auto simp: answer_rows_def split: if_splits)
      qed
    qed
  qed
qed

lemma server_is_not_asked [simp]:
  "query_args (env\<lparr>sq_call := server\<rparr>) rq fs = query_args env rq fs"
  "result_key (env\<lparr>sq_call := server\<rparr>) args = result_key env args"
  "refused_query (env\<lparr>sq_call := server\<rparr>) rq reply = refused_query env rq reply"
  "reject_unknown_metric (env\<lparr>sq_call := server\<rparr>) m = reject_unknown_metric env m"
  by (simp_all add: query_args_def metric_query_def period_start_def period_end_def result_key_def cache_key_def
      refused_query_def error_of_def reject_unknown_metric_def)

text \<open>An answer once given is found again: the reply is reply_settled, and so is the result.\<close>

lemma same_question:
  assumes "reject_unknown_metric env (qr_metric_id rq) = Inr []"
    "reject_incompatible_dimensions (sq_catalogue env) (qr_metric_id rq) (map fst (sanitize_dimensions (qr_dimensions rq))) = []"
    "fetch_metric env rq st = (fs, reply, st1)" "ss_replies st2 = ss_replies st1" "ss_budget st2 = ss_budget st1"
  obtains c where "query_metrics (env\<lparr>sq_call := server\<rparr>) rq st2
    = answer_query (env\<lparr>sq_call := server\<rparr>) rq fs reply (st2\<lparr>ss_counts := c\<rparr>)"
  using fetch_settles [OF assms(3-5), of server] assms(1,2) that by (auto simp: query_metrics_def)

lemma answer_query_prior:
  assumes "\<not> truthy (obj_get reply ''error'')" "\<not> truthy (obj_get reply ''value_not_found'')" "truthy (obj_get reply ''rows'')"
    "reply_provenance reply = Inr prov" "dict_get (ss_results st) (result_key env (query_args env rq fs)) = Some prior"
  obtains st' where "answer_query (env\<lparr>sq_call := server\<rparr>) rq fs reply st
      = (Answered (if sy_success prior then prior\<lparr>sy_summary := AlreadyFetched (sy_summary prior)\<rparr> else prior), st')"
    "same_but_counts st st'"
proof (cases "sy_success prior")
  case True
  then show ?thesis
    using assms by (intro that [of "st\<lparr>ss_counts := count_repeat (result_key env (query_args env rq fs)) (ss_counts st)\<rparr>"])
      (simp_all add: answer_query_def answer_rows_def)
next
  case False
  then show ?thesis using assms by (intro that [of st]) (simp_all add: answer_query_def answer_rows_def)
qed

lemma refused_query_facts: "\<not> sy_success (refused_query env rq reply)"
  by (simp add: refused_query_def fetch_failure_def unavailable_def failure_def Let_def)

lemma write_evidence_frame:
  assumes w: "write_evidence env rq args reply prov rows st = (Inr r, st')" and fresh: "fresh_evidence_ids env st"
  shows "ss_replies st' = ss_replies st \<and> ss_budget st' = ss_budget st \<and> ss_results st' = ss_results st"
proof -
  obtain ws a where one: "write_rows env rq args prov rows st = (Inr ws, a)"
    using w by (auto simp: write_evidence_def split: if_splits prod.splits sum.splits)
  obtain es where "a = after_writing env prov es st" using write_rows_facts [OF one fresh] by blast
  then show ?thesis using w one
    by (cases ws) (auto simp: write_evidence_def after_writing_def Let_def split: if_splits sum.splits)
qed

text \<open>A new success: the fetch it rests on, and the evidence written for it.\<close>

lemma written_answer:
  assumes q: "query_metrics env rq st = (Answered r, st')" "sy_success r" "\<forall>s. sy_summary r \<noteq> AlreadyFetched s"
    and fresh: "fresh_evidence_ids env st"
  obtains fs reply st1 prov rows es where "fetch_metric env rq st = (fs, reply, st1)" "\<not> truthy (obj_get reply ''error'')"
    "py_list (obj_get reply ''rows'') = Inr rows" "sy_artifact_ids r = drawn_evidence_ids env st (length es)"
    "ss_store st' = ss_store st @ zip (sy_artifact_ids r) (map2 (stored_evidence env prov) (sy_artifact_ids r) es)"
    "map re_value es = row_values env (qr_metric_id rq) rows"
    "\<forall>e\<in>set es. states_row env rq (query_args env rq fs) rows (re_payload e) (re_value e)"
proof -
  obtain fs reply st1 where f: "fetch_metric env rq st = (fs, reply, st1)"
      and a: "answer_query env rq fs reply st1 = (Answered r, st')"
    using query_metrics_answers [OF q(1)] .
  note ff = fetch_facts [OF f]
  have fresh1: "fresh_evidence_ids env st1" using fresh ff(1) by (simp add: fresh_evidence_ids_def)
  from a show ?thesis
  proof (cases rule: answer_query_cases)
    case refused
    then show ?thesis using q(2) by (simp add: refused_query_facts)
  next
    case empty
    then show ?thesis using q(2) by simp
  next
    case (repeated prov prior)
    then show ?thesis using q(2,3) by (auto split: if_splits)
  next
    case (written prov rows b)
    obtain es where es: "sy_artifact_ids r = drawn_evidence_ids env st1 (length es)"
        "b = (after_writing env prov es st1)\<lparr>ss_notes := ss_notes b\<rparr>"
        "map re_value es = row_values env (qr_metric_id rq) rows"
        "\<forall>e\<in>set es. states_row env rq (query_args env rq fs) rows (re_payload e) (re_value e)"
      using write_evidence_facts [OF written(7) fresh1] q(2) by blast
    have "ss_store b = ss_store st1 @ zip (sy_artifact_ids r) (map2 (stored_evidence env prov) (sy_artifact_ids r) es)"
      by (subst es(2)) (simp add: after_writing_def es(1) Let_def)
    then show ?thesis
      using that [OF f written(1,6) _ _ es(3,4), of prov] es(1) written(8) ff(1) by (simp add: drawn_evidence_ids_def)
  qed
qed

lemma stored_evidence_fields [simp]:
  "art_id (stored_evidence env prov i e) = i" "art_payload (stored_evidence env prov i e) = re_payload e"
  "art_classification (stored_evidence env prov i e) = Factual"
  by (simp_all add: stored_evidence_def evidence_artifact_def)

text \<open>The value, the window and the dimensions of a payload are those of one row.\<close>

definition read_from_row :: "semantic_env \<Rightarrow> metric_request \<Rightarrow> json list \<Rightarrow> json_obj \<Rightarrow> bool" where
  "read_from_row env rq rows p = (\<exists>row window value. JObj row \<in> set rows
     \<and> to_float (sq_float env) (obj_get row (qr_metric_id rq)) = Inr value \<and> obj_get p ''value'' = JNum value
     \<and> row_window env rq (row_bucket rq row) = Inr window
     \<and> obj_get p ''period_start'' = JStr (sq_stamp env (fst window))
     \<and> obj_get p ''period_end'' = JStr (sq_stamp env (snd window))
     \<and> obj_get p ''dimensions'' = JObj (map (\<lambda>kv. (fst kv, JStr (snd kv)))
         (evidence_dimensions (sq_text env) (sanitize_dimensions (qr_dimensions rq)) row)))"

lemma states_row_payload:
  assumes "states_row env rq args rows p v"
  shows "obj_get p ''value'' = JNum v" "obj_get p ''metric_id'' = JStr (qr_metric_id rq)" "obj_get p ''source_query'' = JObj args"
    "read_from_row env rq rows p"
  using assms by (auto simp: states_row_def row_payload_def obj_get_def read_from_row_def)



section \<open>The properties\<close>


text \<open>
  Asking again is free: once a query has succeeded, the same call later in the mission succeeds with
  the same artifacts and leaves the store, the budget, the cache and the notes as they are, whatever the
  server would answer by then.
\<close>

theorem repeated_query_is_free:
  assumes "query_metrics env rq st = (Answered r, st')" "sy_success r" "fresh_evidence_ids env st"
  shows "\<exists>r' st''. query_metrics (env\<lparr>sq_call := server\<rparr>) rq st' = (Answered r', st'') \<and> sy_success r'
    \<and> sy_artifact_ids r' = sy_artifact_ids r \<and> sy_provenance r' = sy_provenance r \<and> same_but_counts st' st''"
proof -
  obtain fs reply st1 where q: "reject_unknown_metric env (qr_metric_id rq) = Inr []"
      "reject_incompatible_dimensions (sq_catalogue env) (qr_metric_id rq) (map fst (sanitize_dimensions (qr_dimensions rq))) = []"
      "fetch_metric env rq st = (fs, reply, st1)"
      and a: "answer_query env rq fs reply st1 = (Answered r, st')"
    using query_metrics_answers [OF assms(1)] .
  have fresh1: "fresh_evidence_ids env st1" using assms(3) fetch_facts(1) [OF q(3)] by (simp add: fresh_evidence_ids_def)
  have again: ?thesis
    if ok: "\<not> truthy (obj_get reply ''error'')" "\<not> truthy (obj_get reply ''value_not_found'')" "truthy (obj_get reply ''rows'')"
        "reply_provenance reply = Inr prov"
      and prior: "dict_get (ss_results st') (result_key env (query_args env rq fs)) = Some p" "sy_success p"
        "sy_artifact_ids p = sy_artifact_ids r" "sy_provenance p = sy_provenance r"
      and kept: "ss_replies st' = ss_replies st1" "ss_budget st' = ss_budget st1" for prov p
  proof -
    obtain c where c: "query_metrics (env\<lparr>sq_call := server\<rparr>) rq st'
        = answer_query (env\<lparr>sq_call := server\<rparr>) rq fs reply (st'\<lparr>ss_counts := c\<rparr>)"
      using same_question [OF q kept] .
    have "dict_get (ss_results (st'\<lparr>ss_counts := c\<rparr>)) (result_key env (query_args env rq fs)) = Some p" using prior(1) by simp
    from answer_query_prior [OF ok this, of server] obtain st'' where
      "answer_query (env\<lparr>sq_call := server\<rparr>) rq fs reply (st'\<lparr>ss_counts := c\<rparr>)
        = (Answered (p\<lparr>sy_summary := AlreadyFetched (sy_summary p)\<rparr>), st'')" "same_but_counts (st'\<lparr>ss_counts := c\<rparr>) st''"
      using prior(2) by auto
    then show ?thesis using c prior(2-4) by auto
  qed
  from a show ?thesis
  proof (cases rule: answer_query_cases)
    case refused
    then show ?thesis using assms(2) by (simp add: refused_query_facts)
  next
    case empty
    then show ?thesis using assms(2) by simp
  next
    case (repeated prov prior)
    show ?thesis
      by (rule again [OF repeated(1-4), of prior])
        (use repeated(5-7) assms(2) in \<open>auto simp: same_but_counts_iff split: if_splits\<close>)
  next
    case (written prov rows b)
    show ?thesis
      by (rule again [OF written(1-4), of r])
        (use written(8) write_evidence_frame [OF written(7) fresh1] assms(2) in \<open>auto simp: result_key_def\<close>)
  qed
qed

text \<open>
  A failure that the tool calls retryable is final: the reply with the error is in the cache (or the
  budget is spent), so the same call fails in the same way for the rest of the mission, whatever the
  server would answer by then.
\<close>

theorem retryable_failure_is_final:
  assumes "query_metrics env rq st = (Answered r, st')" "\<not> sy_success r" "sy_retryable r" "fresh_evidence_ids env st"
  shows "\<exists>st''. query_metrics (env\<lparr>sq_call := server\<rparr>) rq st' = (Answered r, st'') \<and> same_but_counts st' st''"
proof -
  obtain fs reply st1 where q: "reject_unknown_metric env (qr_metric_id rq) = Inr []"
      "reject_incompatible_dimensions (sq_catalogue env) (qr_metric_id rq) (map fst (sanitize_dimensions (qr_dimensions rq))) = []"
      "fetch_metric env rq st = (fs, reply, st1)"
      and a: "answer_query env rq fs reply st1 = (Answered r, st')"
    using query_metrics_answers [OF assms(1)] .
  have fresh1: "fresh_evidence_ids env st1" using assms(4) fetch_facts(1) [OF q(3)] by (simp add: fresh_evidence_ids_def)
  from a show ?thesis
  proof (cases rule: answer_query_cases)
    case refused
    then obtain c where "query_metrics (env\<lparr>sq_call := server\<rparr>) rq st'
        = answer_query (env\<lparr>sq_call := server\<rparr>) rq fs reply (st'\<lparr>ss_counts := c\<rparr>)"
      using same_question [OF q, of st' server] by auto
    then show ?thesis using refused by (simp add: answer_query_def)
  next
    case empty
    then show ?thesis using assms(3) by simp
  next
    case (repeated prov prior)
    then have p: "\<not> sy_success prior" "r = prior" using assms(2) by (auto split: if_splits)
    obtain c where c: "query_metrics (env\<lparr>sq_call := server\<rparr>) rq st'
        = answer_query (env\<lparr>sq_call := server\<rparr>) rq fs reply (st'\<lparr>ss_counts := c\<rparr>)"
      using same_question [OF q, of st' server] repeated(7) by (auto simp: same_but_counts_iff)
    have "dict_get (ss_results (st'\<lparr>ss_counts := c\<rparr>)) (result_key env (query_args env rq fs)) = Some prior"
      using repeated(5,7) by (simp add: same_but_counts_iff)
    from answer_query_prior [OF repeated(1-4) this, of server] p c show ?thesis by auto
  next
    case (written prov rows b)
    then show ?thesis using write_evidence_facts [OF written(7) fresh1] assms(3) by simp
  qed
qed

section \<open>The brand of a fallback\<close>

lemma sanitize_wf [simp]: "dict_wf (sanitize_dimensions dims)"
proof -
  have "dict_wf (sanitize_one k v d)" if "dict_wf d" for k v d
    using that by (simp add: sanitize_one_def Let_def)
  then have "dict_wf d \<Longrightarrow> dict_wf (sanitize_step d kv)" for d kv
    by (simp add: sanitize_step_def split: dim_value.splits list.splits)
  then have "dict_wf d \<Longrightarrow> dict_wf (foldl sanitize_step d dims)" for d
    by (induction dims arbitrary: d) simp_all
  then show ?thesis by (simp add: sanitize_dimensions_def)
qed

lemma dict_get_foldl_set:
  "k \<notin> set ks \<Longrightarrow> dict_get (foldl (\<lambda>d k. dict_set d k (f k)) d ks) k = dict_get d k"
  by (induction ks arbitrary: d) simp_all

lemma dict_get_map_values: "dict_get (map (\<lambda>kv. (fst kv, f (snd kv))) d) k = map_option f (dict_get d k)"
  by (induction d) auto

lemma dict_get_filter_map:
  "dict_wf d \<Longrightarrow> (k, v) \<in> set d \<Longrightarrow> P (k, v) \<Longrightarrow> dict_get (map (\<lambda>kv. (fst kv, f (snd kv))) (filter P d)) k = Some (f v)"
  by (induction d) (auto simp: dict_wf_def image_iff)

text \<open>A value asked for is a dimension of every row, whatever the query was.\<close>

lemma asked_value_is_recorded:
  assumes "dict_wf dims" "(k, One b) \<in> set dims" "b \<noteq> []"
  shows "dict_get (evidence_dimensions sv dims row) k = Some b"
proof -
  have "k \<notin> set (breakdown_keys dims)"
    using assms by (auto simp: breakdown_keys_def dict_wf_def) (metis assms(1) dict_wf_get dim_truthy.simps(1) option.inject)
  moreover have "dict_get (asked_dimensions dims) k = Some b"
    using dict_get_filter_map [OF assms(1,2), of "\<lambda>kv. dim_truthy (snd kv)" dim_text] assms(3) by (simp add: asked_dimensions_def)
  ultimately show ?thesis by (simp add: evidence_dimensions_def dict_get_foldl_set)
qed

text \<open>The query of the fallback asks for the default brand.\<close>

lemma brand_token: "str_lower (str_strip k) \<in> set brand_dim_keys \<Longrightarrow> normalize_dim_token k \<in> set brand_dim_keys"
  by (auto simp: brand_dim_keys_def normalize_dim_token_def)

lemma fallback_query:
  assumes "supports_brand (sq_catalogue env) (qr_metric_id rq)"
    and "\<forall>k\<in>set (breakdown_keys (sanitize_dimensions (qr_dimensions rq))). normalize_dim_token k \<notin> set brand_dim_keys"
  shows "obj_get (query_args env rq (without_brands fs)) ''filters''
    = JList (map JObj (map equals_filter (without_brands fs) @ [brand_filter default_brand_id]))"
proof -
  have "filter_dimension sv (equals_filter f) = fst f" for sv f
    by (simp add: filter_dimension_def equals_filter_def py_str_def)
  then have "\<not> has_brand (sq_text env) (breakdown_keys (sanitize_dimensions (qr_dimensions rq))) (map equals_filter (without_brands fs))"
    using assms(2) brand_token by (fastforce simp: has_brand_def list_ex_iff without_brands_def names_brand_def)
  then show ?thesis
    using assms(1)
    by (simp add: query_args_def build_metrics_query_args_def metric_query_def all_filters_def arg_if_def obj_get_def)
qed

lemma dict_get_zip_new:
  assumes "distinct ks" "length ks = length vs" "\<forall>k\<in>set ks. dict_get d k = None" "i \<in> set ks"
  obtains v where "v \<in> set vs" "dict_get (d @ zip ks vs) i = Some v"
proof -
  obtain n where n: "n < length ks" "ks ! n = i" using assms(4) by (metis in_set_conv_nth)
  have "dict_get (zip ks vs) i = Some (vs ! n)" using assms(1,2) n by (simp add: map_of_zip_nth flip: n(2))
  then show ?thesis using that [of "vs ! n"] assms n by (auto simp: map_add_def)
qed

text \<open>
  C40. The numbers of one brand are recorded as another's. When the server does not know the brand a query
  asks for, the tool asks again with the default brand in its place; every artifact it then writes still
  says, in its dimensions, that the value is of the brand that was refused, although the query it quotes
  asked for the default brand.
\<close>

theorem fallback_evidence_names_refused_brand:
  assumes "query_metrics env rq st = (Answered r, st')" "sy_success r" "\<forall>s. sy_summary r \<noteq> AlreadyFetched s"
    and fresh: "fresh_evidence_ids env st"
    and brand: "(k, One b) \<in> set (sanitize_dimensions (qr_dimensions rq))" "b \<noteq> []" "normalize_dim_token k \<in> set brand_dim_keys"
    and refused: "refuses_brand env (fst (cached_metrics_query env (query_args env rq (asked_filters rq)) st))"
    and scoped: "supports_brand (sq_catalogue env) (qr_metric_id rq)"
      "\<forall>k\<in>set (breakdown_keys (sanitize_dimensions (qr_dimensions rq))). normalize_dim_token k \<notin> set brand_dim_keys"
  shows "\<forall>i\<in>set (sy_artifact_ids r). \<exists>a d q. dict_get (ss_store st') i = Some a
    \<and> obj_get (art_payload a) ''dimensions'' = JObj d \<and> dict_get d k = Some (JStr b)
    \<and> obj_get (art_payload a) ''source_query'' = JObj q
    \<and> obj_get q ''filters'' = JList (map JObj (map equals_filter (without_brands (asked_filters rq)) @ [brand_filter default_brand_id]))"
proof
  fix i assume i: "i \<in> set (sy_artifact_ids r)"
  obtain fs reply st1 prov rows es where w: "fetch_metric env rq st = (fs, reply, st1)" "\<not> truthy (obj_get reply ''error'')"
      "py_list (obj_get reply ''rows'') = Inr rows" "sy_artifact_ids r = drawn_evidence_ids env st (length es)"
      "ss_store st' = ss_store st @ zip (sy_artifact_ids r) (map2 (stored_evidence env prov) (sy_artifact_ids r) es)"
      "map re_value es = row_values env (qr_metric_id rq) rows"
      "\<forall>e\<in>set es. states_row env rq (query_args env rq fs) rows (re_payload e) (re_value e)"
    using written_answer [OF assms(1-4)] .
  let ?ids = "sy_artifact_ids r"
  have f: "(k, [b]) \<in> set (asked_filters rq)" using brand(1,2) by (force simp: asked_filters_def value_filters_def)
  then have "without_brands (asked_filters rq) \<noteq> asked_filters rq"
    using brand(3) by (auto simp: without_brands_def names_brand_def filter_id_conv intro!: bexI [of _ "(k, [b])"])
  then have "length (without_brands (asked_filters rq)) \<noteq> length (asked_filters rq)"
    unfolding without_brands_def by (metis filter_True length_filter_less less_irrefl)
  then have fs: "fs = without_brands (asked_filters rq)"
    using w(1) refused by (auto simp: fetch_metric_def Let_def case_prod_beta split: prod.splits)
  have ids: "distinct ?ids" "\<forall>i\<in>set ?ids. dict_get (ss_store st) i = None"
    using fresh by (auto simp: w(4) drawn_evidence_ids_def fresh_evidence_ids_def distinct_map inj_on_def inj_def)
  obtain a where a: "a \<in> set (map2 (stored_evidence env prov) ?ids es)" "dict_get (ss_store st') i = Some a"
    using dict_get_zip_new [OF ids(1) _ ids(2) i, of "map2 (stored_evidence env prov) ?ids es"] w(4,5)
    by (auto simp: drawn_evidence_ids_def)
  then obtain e where e: "e \<in> set es" "art_payload a = re_payload e" by (auto dest: set_zip_rightD)
  then have st: "states_row env rq (query_args env rq fs) rows (re_payload e) (re_value e)" using w(7) by blast
  obtain row where row: "obj_get (re_payload e) ''dimensions'' = JObj (map (\<lambda>kv. (fst kv, JStr (snd kv)))
       (evidence_dimensions (sq_text env) (sanitize_dimensions (qr_dimensions rq)) row))"
    using states_row_payload(4) [OF st] unfolding read_from_row_def by blast
  have "dict_get (map (\<lambda>kv. (fst kv, JStr (snd kv))) (evidence_dimensions (sq_text env) (sanitize_dimensions (qr_dimensions rq)) row)) k
      = Some (JStr b)"
    by (simp add: dict_get_map_values asked_value_is_recorded [OF sanitize_wf brand(1,2)])
  then show "\<exists>a d q. dict_get (ss_store st') i = Some a
    \<and> obj_get (art_payload a) ''dimensions'' = JObj d \<and> dict_get d k = Some (JStr b)
    \<and> obj_get (art_payload a) ''source_query'' = JObj q
    \<and> obj_get q ''filters'' = JList (map JObj (map equals_filter (without_brands (asked_filters rq)) @ [brand_filter default_brand_id]))"
    using a(2) e(2) row states_row_payload(3) [OF st] fallback_query [OF scoped, of "asked_filters rq"]
    by (simp add: fs)
qed

section \<open>Witnesses\<close>

text \<open>A server that knows the default brand, and one that is down.\<close>

definition sample_cube :: query_server where
  "sample_cube agent args =
     (if obj_get args ''filters'' = JList [JObj (brand_filter default_brand_id)]
      then Inr (JObj [(''rows'', JList [JObj [(''cac'', JInt 120)], JObj [(''cac'', JInt 30)], JObj []]),
        (''provenance'', JObj [(''query_id'', JStr ''q1'')])])
      else Inr (JObj [(''error'', JStr ''unknown brand'')]))"

definition cube_down :: query_server where "cube_down agent args = Inl (RuntimeError ''timeout'')"

definition sample_semantic_env :: semantic_env where
  "sample_semantic_env = \<lparr>sq_call = sample_cube, sq_error_text = (\<lambda>e. ''timeout''), sq_text = (\<lambda>j. ''None''),
     sq_dumps = (\<lambda>j. case j of
        JObj d \<Rightarrow> if obj_get d ''filters'' = JList [JObj (brand_filter default_brand_id)] then ''default'' else ''other'' | _ \<Rightarrow> []),
     sq_float = (\<lambda>s. Inl (ValueError s)), sq_stamp = day_text, sq_close = (\<lambda>n c q xs. []), sq_render = (\<lambda>s. []),
     sq_ids = (\<lambda>n. replicate n (CHR ''e'')), sq_now = 0, sq_fetched_at = ''now'',
     sq_as_of = \<lparr>dm_date = \<lparr>dt_year = 2026, dt_month = 9, dt_day = 21\<rparr>, dm_time = 0, dm_zone = None\<rparr>,
     sq_workspace = ''w'', sq_mission = ''m'', sq_catalogue = []\<rparr>"

definition sales_request :: "dimension_values \<Rightarrow> metric_request" where
  "sales_request dims = \<lparr>qr_metric_id = ''cac'', qr_dimensions = dims, qr_grain = ''none'', qr_start = None,
     qr_end = None, qr_order = None, qr_limit = None\<rparr>"

definition sample_semantic_state :: semantic_state where
  "sample_semantic_state = \<lparr>ss_store = [], ss_drawn = 0, ss_replies = [], ss_results = [],
     ss_budget = new_tracker \<lparr>max_tool_calls = 9, max_cube_queries = 9, max_causal_queries = 9, max_prediction_calls = 9,
       max_validation_revisions = 9, max_runtime_seconds = 9\<rparr> 0,
     ss_counts = [], ss_notes = []\<rparr>"

definition new_success :: "tool_outcome \<Rightarrow> bool" where
  "new_success out = (case out of
     Answered r \<Rightarrow> sy_success r \<and> (case sy_summary r of AlreadyFetched s \<Rightarrow> False | _ \<Rightarrow> True) \<and> sy_artifact_ids r = [[], ''e'']
   | _ \<Rightarrow> False)"

lemma new_successD:
  assumes "new_success (fst (query_metrics env rq st))"
  obtains r st' where "query_metrics env rq st = (Answered r, st')" "sy_success r" "\<forall>s. sy_summary r \<noteq> AlreadyFetched s"
    "sy_artifact_ids r = [[], ''e'']"
  using assms by (cases "query_metrics env rq st") (auto simp: new_success_def split: tool_outcome.splits tool_summary.splits)

lemma sample_query: "new_success (fst (query_metrics sample_semantic_env (sales_request []) sample_semantic_state))"
  by code_simp

lemma sample_refusal:
  "refuses_brand sample_semantic_env (fst (cached_metrics_query sample_semantic_env (query_args sample_semantic_env
      (sales_request [(''brand_id'', One ''7'')]) (asked_filters (sales_request [(''brand_id'', One ''7'')]))) sample_semantic_state))"
  by code_simp

lemma sample_fallback:
  "new_success (fst (query_metrics sample_semantic_env (sales_request [(''brand_id'', One ''7'')]) sample_semantic_state))"
  by code_simp

lemma sample_ids_fresh: "fresh_evidence_ids (sample_semantic_env\<lparr>sq_call := server\<rparr>) sample_semantic_state"
  "fresh_evidence_ids sample_semantic_env sample_semantic_state"
  by (simp_all add: fresh_evidence_ids_def sample_semantic_env_def sample_semantic_state_def inj_def)


lemma repeated_query_is_free_witness:
  "\<exists>r st' r' st''. query_metrics sample_semantic_env (sales_request []) sample_semantic_state = (Answered r, st')
     \<and> query_metrics (sample_semantic_env\<lparr>sq_call := cube_down\<rparr>) (sales_request []) st' = (Answered r', st'')
     \<and> sy_success r' \<and> sy_artifact_ids r' = [[], ''e''] \<and> same_but_counts st' st''"
proof -
  obtain r st' where q: "query_metrics sample_semantic_env (sales_request []) sample_semantic_state = (Answered r, st')"
      "sy_success r" "\<forall>s. sy_summary r \<noteq> AlreadyFetched s" "sy_artifact_ids r = [[], ''e'']"
    using new_successD [OF sample_query] .
  from repeated_query_is_free [OF q(1,2) sample_ids_fresh(2), of cube_down] q show ?thesis by auto
qed

lemma sample_failure:
  "(case query_metrics (sample_semantic_env\<lparr>sq_call := cube_down\<rparr>) (sales_request []) sample_semantic_state of
     (Answered r, st') \<Rightarrow> \<not> sy_success r \<and> sy_retryable r | _ \<Rightarrow> False)"
  by code_simp

text \<open>The server is up again, and would answer; the mission keeps its failure.\<close>

lemma retryable_failure_is_final_witness:
  "\<exists>r st' st''. query_metrics (sample_semantic_env\<lparr>sq_call := cube_down\<rparr>) (sales_request []) sample_semantic_state = (Answered r, st')
     \<and> \<not> sy_success r \<and> query_metrics sample_semantic_env (sales_request []) st' = (Answered r, st'')
     \<and> new_success (fst (query_metrics sample_semantic_env (sales_request []) sample_semantic_state))"
proof -
  obtain r st' where q: "query_metrics (sample_semantic_env\<lparr>sq_call := cube_down\<rparr>) (sales_request []) sample_semantic_state = (Answered r, st')"
      "\<not> sy_success r" "sy_retryable r"
    using sample_failure by (auto split: prod.splits tool_outcome.splits)
  have "sample_semantic_env\<lparr>sq_call := cube_down, sq_call := sample_cube\<rparr> = sample_semantic_env"
    by (simp add: sample_semantic_env_def)
  with retryable_failure_is_final [OF q sample_ids_fresh(1), of sample_cube] q sample_query show ?thesis by auto
qed

lemma fallback_evidence_names_refused_brand_witness:
  "\<exists>r st'. query_metrics sample_semantic_env (sales_request [(''brand_id'', One ''7'')]) sample_semantic_state = (Answered r, st')
     \<and> (\<exists>a d q. dict_get (ss_store st') ''e'' = Some a \<and> obj_get (art_payload a) ''dimensions'' = JObj d
       \<and> dict_get d ''brand_id'' = Some (JStr ''7'') \<and> obj_get (art_payload a) ''source_query'' = JObj q
       \<and> obj_get q ''filters'' = JList [JObj (brand_filter default_brand_id)])"
proof -
  let ?rq = "sales_request [(''brand_id'', One ''7'')]"
  obtain r st' where q: "query_metrics sample_semantic_env ?rq sample_semantic_state = (Answered r, st')"
      "sy_success r" "\<forall>s. sy_summary r \<noteq> AlreadyFetched s" "sy_artifact_ids r = [[], ''e'']"
    using new_successD [OF sample_fallback] .
  have s: "sanitize_dimensions (qr_dimensions ?rq) = [(''brand_id'', One ''7'')]" by code_simp
  have b: "normalize_dim_token ''brand_id'' \<in> set brand_dim_keys" "supports_brand (sq_catalogue sample_semantic_env) (qr_metric_id ?rq)"
    by code_simp+
  have n: "without_brands (asked_filters ?rq) = []" by code_simp
  have "\<forall>i\<in>set (sy_artifact_ids r). \<exists>a d q. dict_get (ss_store st') i = Some a
    \<and> obj_get (art_payload a) ''dimensions'' = JObj d \<and> dict_get d ''brand_id'' = Some (JStr ''7'')
    \<and> obj_get (art_payload a) ''source_query'' = JObj q
    \<and> obj_get q ''filters'' = JList (map JObj (map equals_filter (without_brands (asked_filters ?rq)) @ [brand_filter default_brand_id]))"
    by (rule fallback_evidence_names_refused_brand [OF q(1-3) sample_ids_fresh(2) _ _ b(1) sample_refusal b(2)])
      (simp_all add: s breakdown_keys_def)
  then show ?thesis using q(1,4) by (simp add: n)
qed

end
