(* ===== verification/Spec2Isabelle.thy ===== *)
theory Spec2Isabelle
  imports Prelude Contracts Repositories Run_Store Run_Lifecycle Run_Events Recovery Retry_Bounds
    Memory_Store Memory_Service Context_Builder Approvals LLM_Gateway Api_Security
    Event_Delivery Caches Agent_Guards Validation Missions Blobs
    Conversation_Api Attachment_Api Event_Stream Submission Submission_Executor
    Database Durable_Runs Durable_Store Calendar Time_Range Analytics
    Analytics_Tools Catalogue Business_State Domain_Health Semantic_Tools
begin

text \<open>
  Verification of the Seleric agent service, the Python package \<^verbatim>\<open>src/src/seleric_swarm\<close>; file
  names below are relative to it.

  \<^bold>\<open>The program.\<close> A client talks to HTTP handlers (\<^verbatim>\<open>api/\<close>) behind a middleware that identifies
  it. Its threads, messages, attachments, memories, runs and their event logs live in the
  repositories of \<^verbatim>\<open>conversations/\<close>. A submitted message becomes a run with a first attempt, in one
  unit of work; a worker (\<^verbatim>\<open>recovery.py\<close>) claims attempts under leases, calls the executor of
  \<^verbatim>\<open>api/conversations.py\<close>, and settles or retries them. The executor lets a mission job
  (\<^verbatim>\<open>api/async_missions.py\<close>) run the agent, whose answer is validated (\<^verbatim>\<open>agent/validation\<close>) and
  guarded by budgets (\<^verbatim>\<open>agent/\<close>), model health and a circuit breaker (\<^verbatim>\<open>llm/\<close>). Clients follow a
  run by event streams, redacted at delivery.

  \<^bold>\<open>Theories, code and properties.\<close>

  \<^item> \<open>Prelude\<close>: JSON values, Python dicts as association lists in insertion order (update keeps the
    place of a key), results as sums, texts as character lists. Its \<^verbatim>\<open>dict_simps\<close> and \<open>keyed\<close> lemmas
    carry the repository proofs.
  \<^item> \<open>Contracts\<close>: the records and validators of \<^verbatim>\<open>conversations/contracts.py\<close>.
  \<^item> \<open>Repositories\<close>, \<open>Run_Store\<close>, \<open>Memory_Store\<close>: the in-memory repositories of
    \<^verbatim>\<open>conversations/memory.py\<close>, each method one atomic operation on its store (the code holds a lock
    around each). The locales \<open>tenant_repo\<close> and \<open>scoped_repo\<close> state what a repository of tenant
    records promises; threads, runs, attachments and others interpret them.
  \<^item> \<open>Run_Lifecycle\<close>, \<open>Run_Events\<close>: the step relation \<open>run_step\<close> has one rule per call the program
    makes on runs. Invariants of all reachable stores: one live attempt per unfinished run, fencing of
    outdated workers, final statuses; event logs that only grow, with exact replay of threads.
  \<^item> \<open>Recovery\<close>, \<open>Retry_Bounds\<close>: \<^verbatim>\<open>recovery.py\<close>. The worker is a client of the step relation under
    the contract \<open>env_ok\<close> of its executor; at most \<^verbatim>\<open>max_attempts\<close> turns of a run can fail. The
    poll loop is bounded by the code's own 240 idle polls, so no fuel is added.
  \<^item> \<open>Memory_Service\<close>, \<open>Context_Builder\<close>: \<^verbatim>\<open>conversations/context.py\<close>; consent of memories, budgets
    and scope of a built context.
  \<^item> \<open>Approvals\<close>: \<^verbatim>\<open>conversations/phase7.py\<close> and \<^verbatim>\<open>api/phase7.py\<close>; the transition table, the audit
    trail, who may approve, what execution does when it is refused.
  \<^item> \<open>Api_Security\<close>, \<open>Event_Delivery\<close>: \<^verbatim>\<open>api/security.py\<close>, \<^verbatim>\<open>api/mission_access.py\<close>,
    \<^verbatim>\<open>conversations/privacy.py\<close>, \<^verbatim>\<open>conversations/event_mapping_v1.py\<close>, \<^verbatim>\<open>conversations/events.py\<close>.
  \<^item> \<open>LLM_Gateway\<close>, \<open>Caches\<close>, \<open>Agent_Guards\<close>, \<open>Validation\<close>: \<^verbatim>\<open>llm/\<close> routing, \<^verbatim>\<open>utils/ttl_cache.py\<close>,
    \<^verbatim>\<open>state/cache.py\<close>, budgets and health of \<^verbatim>\<open>agent/\<close>, the checks, the trust score, the verdict and
    the revision loop of \<^verbatim>\<open>agent/validation\<close> (structural recursion on the revisions left).
  \<^item> \<open>Missions\<close>, \<open>Blobs\<close>: \<^verbatim>\<open>persistence/memory.py\<close>, \<^verbatim>\<open>api/async_missions.py\<close>, \<^verbatim>\<open>conversations/blobs.py\<close>.
  \<^item> \<open>Conversation_Api\<close>, \<open>Attachment_Api\<close>, \<open>Event_Stream\<close>, \<open>Submission\<close>, \<open>Submission_Executor\<close>: the
    handlers and the executor of \<^verbatim>\<open>api/conversations.py\<close>. A handler maps the request and the
    repositories to a value or an error and the new repositories. Handlers that await between their
    checks and their write are two operations. \<open>Submission_Executor\<close> discharges \<open>env_ok\<close> for the
    program's own executor, so that the guarantees of \<open>Recovery\<close> hold for it.

  \<^item> \<open>Database\<close>, \<open>Durable_Runs\<close>, \<open>Durable_Store\<close>: the PostgreSQL repositories of
    \<^verbatim>\<open>conversations/postgres.py\<close>. A table is the list of its rows, a method one transaction: a function
    on the database that ends with a result or with an error that leaves nothing behind. The keys and
    conditions of the statements are written out; rows that \<^verbatim>\<open>SKIP LOCKED\<close> leaves out are an argument.
    \<open>durable_runs_refine_memory\<close> is a simulation: every transaction on runs is a step of \<open>run_step\<close> on
    the mirrored store, so the invariants of \<open>Run_Lifecycle\<close> hold of the tables.

  \<^item> \<open>Calendar\<close>, \<open>Time_Range\<close>: the dates of Python's \<^verbatim>\<open>datetime\<close> (ordinals, arithmetic with overflow, ISO
    texts) and the windows of \<^verbatim>\<open>services/time_range.py\<close> over them.
  \<^item> \<open>Analytics\<close>: \<^verbatim>\<open>analytics/\<close> and the anomaly score of \<^verbatim>\<open>services/business_state/detectors.py\<close>.
  \<^item> \<open>Analytics_Tools\<close>: the six tools of \<^verbatim>\<open>toolsets/analytics.py\<close> over the artifact store of
    \<^verbatim>\<open>state/artifacts.py\<close>. A tool decides on its evidence (a refusal, or a list of findings) and then
    writes; the theorems are about what it writes, what it cites and when it refuses.
  \<^item> \<open>Catalogue\<close>: \<^verbatim>\<open>services/catalogue_bootstrap.py\<close>, \<^verbatim>\<open>services/metrics.py\<close>, \<^verbatim>\<open>services/measure.py\<close> and
    \<^verbatim>\<open>services/ontology.py\<close>: the catalogue of metrics and its refresh, the registry over it and the
    metric file, and the identifiers that spellings of a metric resolve to.
  \<^item> \<open>Business_State\<close>: \<^verbatim>\<open>services/mcp_query.py\<close> and \<^verbatim>\<open>services/business_state/\<close>: the query for a series,
    its points, features, freshness and anomaly, and the state made of them. The server is a function
    from queries to replies, so that the brand a state depends on is a statement about two servers.
  \<^item> \<open>Semantic_Tools\<close>: the tool \<^verbatim>\<open>query_metrics\<close> of \<^verbatim>\<open>toolsets/semantic.py\<close>, by which numbers enter a
    mission: cleaning of dimensions, the cached and budgeted query, the fallback to the default brand,
    the refusals and the evidence it writes.
  \<^item> \<open>Domain_Health\<close>: \<^verbatim>\<open>services/domain_health/\<close>: the files of snapshots, the resolver of a domain's
    health from states and rules, and a scheduled run over all domains.

  \<^bold>\<open>Parameters.\<close> Clocks, drawn identifiers, the text of numbers and of other values, regular
  expressions, digests, scanners, the agent and the language model are arguments of the definitions
  that use them. What others do between two steps of a program part is an argument too (a function on
  the store, or the states its reads see); theorems constrain it to protocol steps where needed.

  \<^bold>\<open>Bounds.\<close> Texts are ASCII; numbers of scores and times are rationals and integers, not floats and
  timestamps of limited range. Times the program draws itself (always UTC) are integers; the periods of
  evidence, which may be naive or aware, are stamps that cannot be ordered when they are mixed. Loops are structural on the list they iterate or on the code's own
  bounds (retries, revisions, polls), so no definition needs fuel.

  \<^bold>\<open>Not modelled.\<close> The file stores, the search repository over PostgreSQL and the migrations, the office
  view, agent prompting and the other toolsets (text and remote calls), the parsing of windows from
  questions, the search, definition and drilldown tools of the semantic toolset, adapters, tracing, voice, configuration and start-up: input and output, third-party
  libraries, or planned.
\<close>

end
